(* ===== verification/AISW_Prelude.thy ===== *)
theory AISW_Prelude
  imports Complex_Main "HOL-Library.Word" "HOL-Library.Multiset" "HOL-Library.AList"
    "HOL-Library.Char_ord" "HOL-Library.List_Lexorder"
begin

text \<open>
  Shared vocabulary of the development: Go's machine integers, its time and duration values, the
  stable sort of package \<open>sort\<close>, maps that the code iterates over, and the state-and-error
  shape of fallible operations. Nothing here models a file of the repository; every definition
  stands for a piece of the Go language or of its standard library.
\<close>

named_theorems int64_simps \<open>facts that resolve 64-bit wrap-around on values known to be in range\<close>
named_theorems frame_simps \<open>what an operation leaves unchanged\<close>


section \<open>Definitions\<close>

subsection \<open>64-bit integers, instants and durations\<close>

text \<open>
  A Go \<open>int64\<close> (and \<open>int\<close>, on the 64-bit targets the services are built for) is an
  \<^typ>\<open>int\<close>; \<open>wrap64\<close> is written wherever an operation can leave the range.

  An instant (\<open>time.Time\<close>) is the number of nanoseconds since the zero value of the type, so
  \<open>IsZero\<close> is equality with 0. Instants have a far wider range than durations and are not
  wrapped; \<open>Time.Sub\<close> saturates at the range of a \<open>time.Duration\<close>, an \<open>int64\<close> count of
  nanoseconds.
\<close>

type_synonym go_time = int
type_synonym duration = int

definition min_int64 :: int where
  "min_int64 = - (2 ^ 63)"

definition max_int64 :: int where
  "max_int64 = 2 ^ 63 - 1"

definition in_int64 :: "int \<Rightarrow> bool" where
  "in_int64 x \<longleftrightarrow> min_int64 \<le> x \<and> x \<le> max_int64"

definition wrap64 :: "int \<Rightarrow> int" where
  "wrap64 x = (x + 2 ^ 63) mod 2 ^ 64 - 2 ^ 63"

definition time_sub :: "go_time \<Rightarrow> go_time \<Rightarrow> duration" where
  "time_sub a b = max min_int64 (min max_int64 (a - b))"

definition time_add :: "go_time \<Rightarrow> duration \<Rightarrow> go_time" where
  "time_add t d = t + d"

definition second :: duration where
  "second = 1000000000"

definition minute :: duration where
  "minute = 60 * second"

definition hour :: duration where
  "hour = 60 * minute"

text \<open>
  Go's integer division truncates toward zero: \<open>quo\<close> and \<open>rem\<close> are \<open>/\<close> and
  \<open>%\<close> on \<open>int64\<close>, and \<open>Quo\<close> and \<open>Rem\<close> on \<open>big.Int\<close>.
\<close>

definition quo :: "int \<Rightarrow> int \<Rightarrow> int" where
  "quo a b = sgn a * sgn b * (\<bar>a\<bar> div \<bar>b\<bar>)"

definition rem :: "int \<Rightarrow> int \<Rightarrow> int" where
  "rem a b = a - b * quo a b"

subsection \<open>Stable sorting\<close>

text \<open>
  \<open>sort.SliceStable\<close> with a comparator \<open>lt\<close>. For a strict weak order there is exactly
  one stable sorted arrangement, so which algorithm produces it does not matter; this one inserts
  from the right, each element before the first one that is not smaller.
\<close>

fun insert_by :: "('a \<Rightarrow> 'a \<Rightarrow> bool) \<Rightarrow> 'a \<Rightarrow> 'a list \<Rightarrow> 'a list" where
  "insert_by lt x [] = [x]"
| "insert_by lt x (y # ys) = (if lt y x then y # insert_by lt x ys else x # y # ys)"

fun stable_sort :: "('a \<Rightarrow> 'a \<Rightarrow> bool) \<Rightarrow> 'a list \<Rightarrow> 'a list" where
  "stable_sort lt [] = []"
| "stable_sort lt (x # xs) = insert_by lt x (stable_sort lt xs)"

subsection \<open>Maps the code iterates over\<close>

text \<open>
  A Go map that is only looked up is a partial function. A map that is also ranged over is an
  association list with distinct keys, read with \<^const>\<open>map_of\<close> and written with
  \<^const>\<open>AList.update\<close>; its list order stands for one of the orders a range loop may take.
\<close>

definition wf_map :: "('k \<times> 'v) list \<Rightarrow> bool" where
  "wf_map m \<longleftrightarrow> distinct (map fst m)"

fun find_value :: "('v \<Rightarrow> bool) \<Rightarrow> ('k \<times> 'v) list \<Rightarrow> 'v option" where
  "find_value P [] = None"
| "find_value P ((k, v) # m) = (if P v then Some v else find_value P m)"

subsection \<open>Fallible operations on a state\<close>

text \<open>
  A method that may fail after it has already written is a function from the state to an error or
  a value, together with the state it leaves behind: an \<open>Inl\<close> does not undo the writes made
  before it. \<open>bindE\<close> is the \<open>if err != nil { return err }\<close> of the source.
\<close>

type_synonym ('s, 'e, 'a) op = "'s \<Rightarrow> ('e + 'a) \<times> 's"

definition returnE :: "'a \<Rightarrow> ('s, 'e, 'a) op" where
  "returnE a = (\<lambda>s. (Inr a, s))"

definition throwE :: "'e \<Rightarrow> ('s, 'e, 'a) op" where
  "throwE e = (\<lambda>s. (Inl e, s))"

definition bindE :: "('s, 'e, 'a) op \<Rightarrow> ('a \<Rightarrow> ('s, 'e, 'b) op) \<Rightarrow> ('s, 'e, 'b) op" where
  "bindE m f = (\<lambda>s. case m s of (Inl e, s') \<Rightarrow> (Inl e, s') | (Inr a, s') \<Rightarrow> f a s')"

subsection \<open>Histories\<close>

text \<open>
  A finite history of a component whose methods each hold its mutex: the state before, what the steps
  did, one event each, and the state after. Interleaved callers are one such sequence.
\<close>

inductive run :: "('s \<Rightarrow> 'e \<Rightarrow> 's \<Rightarrow> bool) \<Rightarrow> 's \<Rightarrow> 'e list \<Rightarrow> 's \<Rightarrow> bool" for step where
  run_Nil: "run step s [] s"
| run_snoc: "run step s es s' \<Longrightarrow> step s' e s'' \<Longrightarrow> run step s (es @ [e]) s''"


section \<open>Lemmas\<close>

subsection \<open>64-bit integers\<close>

lemma wrap64_id [int64_simps]: "in_int64 x \<Longrightarrow> wrap64 x = x"
  by (simp add: in_int64_def wrap64_def min_int64_def max_int64_def)

lemma in_int64_wrap64 [simp]: "in_int64 (wrap64 x)"
proof -
  have "0 \<le> (x + 2 ^ 63) mod 2 ^ 64" and "(x + 2 ^ 63) mod 2 ^ 64 < (2 :: int) ^ 64"
    by simp_all
  then show ?thesis
    by (simp add: in_int64_def wrap64_def min_int64_def max_int64_def)
qed

lemma in_int64_0 [simp]: "in_int64 0"
  by (simp add: in_int64_def min_int64_def max_int64_def)

lemma in_int64_between: "in_int64 a \<Longrightarrow> in_int64 b \<Longrightarrow> a \<le> x \<Longrightarrow> x \<le> b \<Longrightarrow> in_int64 x"
  by (simp add: in_int64_def)

lemma in_int64_diff:
  "in_int64 a \<Longrightarrow> in_int64 b \<Longrightarrow> 0 \<le> a \<Longrightarrow> 0 \<le> b \<Longrightarrow> in_int64 (a - b)"
  by (simp add: in_int64_def min_int64_def max_int64_def)

lemma time_sub_exact [int64_simps]: "in_int64 (a - b) \<Longrightarrow> time_sub a b = a - b"
  by (simp add: time_sub_def in_int64_def)

lemma time_sub_pos_iff [simp]: "0 < time_sub a b \<longleftrightarrow> b < a"
  by (auto simp: time_sub_def min_int64_def max_int64_def)

lemma time_sub_le_diff: "b \<le> a \<Longrightarrow> time_sub a b \<le> a - b"
  by (auto simp: time_sub_def min_int64_def max_int64_def)

lemma second_pos [simp]: "0 < second" and minute_pos [simp]: "0 < minute" and hour_pos [simp]: "0 < hour"
  by (simp_all add: second_def minute_def hour_def)

lemma quo_nonneg: "0 \<le> a \<Longrightarrow> 0 < b \<Longrightarrow> quo a b = a div b"
  by (cases "a = 0") (simp_all add: quo_def)

lemma rem_nonneg: "0 \<le> a \<Longrightarrow> 0 < b \<Longrightarrow> rem a b = a mod b"
  by (simp add: rem_def quo_nonneg minus_mult_div_eq_mod)

subsection \<open>Stable sorting\<close>

lemma mset_insert_by [simp]: "mset (insert_by lt x ys) = add_mset x (mset ys)"
  by (induction ys) auto

lemma mset_stable_sort [simp]: "mset (stable_sort lt xs) = mset xs"
  by (induction xs) auto

lemma set_stable_sort [simp]: "set (stable_sort lt xs) = set xs"
  by (metis mset_stable_sort set_mset_mset)

lemma length_stable_sort [simp]: "length (stable_sort lt xs) = length xs"
  by (metis mset_stable_sort size_mset)

lemma distinct_stable_sort [simp]: "distinct (stable_sort lt xs) \<longleftrightarrow> distinct xs"
  by (metis mset_eq_imp_distinct_iff mset_stable_sort)

text \<open>
  The contract of a comparator handed to \<open>package sort\<close>: a strict weak order. Everything that
  the clients of \<^const>\<open>stable_sort\<close> rely on follows from it.
\<close>

locale strict_weak_order =
  fixes lt :: "'a \<Rightarrow> 'a \<Rightarrow> bool"
  assumes asym: "lt a b \<Longrightarrow> \<not> lt b a"
    and neg_trans: "lt a c \<Longrightarrow> lt a b \<or> lt b c"
begin

lemma insert_by_sorted:
  "sorted_wrt (\<lambda>a b. \<not> lt b a) ys \<Longrightarrow> sorted_wrt (\<lambda>a b. \<not> lt b a) (insert_by lt x ys)"
proof (induction ys)
  case Nil
  then show ?case by simp
next
  case (Cons y ys)
  have set_ins: "set (insert_by lt x zs) = insert x (set zs)" for zs
    by (metis mset_insert_by set_mset_add_mset_insert set_mset_mset)
  show ?case
  proof (cases "lt y x")
    case True
    with Cons show ?thesis by (auto simp: set_ins dest: asym)
  next
    case False
    with Cons.prems show ?thesis using neg_trans by fastforce
  qed
qed

lemma sorted_stable_sort: "sorted_wrt (\<lambda>a b. \<not> lt b a) (stable_sort lt xs)"
  by (induction xs) (auto intro: insert_by_sorted)

lemma insert_by_front:
  "(\<And>y. y \<in> set ys \<Longrightarrow> \<not> lt y x) \<Longrightarrow> insert_by lt x ys = x # ys"
  by (cases ys) auto

lemma filter_insert_by:
  assumes "sorted_wrt (\<lambda>a b. \<not> lt b a) ys"
  shows "filter P (insert_by lt x ys) =
         (if P x then insert_by lt x (filter P ys) else filter P ys)"
  using assms
proof (induction ys)
  case Nil
  then show ?case by simp
next
  case (Cons y ys)
  show ?case
  proof (cases "lt y x")
    case True
    with Cons show ?thesis by auto
  next
    case False
    have "\<not> lt z x" if "z \<in> set (y # ys)" for z
      using that False Cons.prems neg_trans by (auto dest: asym)
    then have "insert_by lt x (filter P (y # ys)) = x # filter P (y # ys)"
      by (intro insert_by_front) (auto split: if_splits)
    with False show ?thesis by auto
  qed
qed

lemma filter_stable_sort:
  "filter P (stable_sort lt xs) = stable_sort lt (filter P xs)"
  by (induction xs) (auto simp: filter_insert_by sorted_stable_sort)

lemma stable_sort_sorted:
  "sorted_wrt (\<lambda>a b. \<not> lt b a) xs \<Longrightarrow> stable_sort lt xs = xs"
  by (induction xs) (auto intro: insert_by_front)

lemma stable_sort_idem: "stable_sort lt (stable_sort lt xs) = stable_sort lt xs"
  by (rule stable_sort_sorted) (rule sorted_stable_sort)

lemma hd_stable_sort_least:
  assumes "xs \<noteq> []" and "y \<in> set xs"
  shows "\<not> lt y (hd (stable_sort lt xs))"
proof (cases "stable_sort lt xs")
  case Nil
  with assms(1) show ?thesis by (metis length_0_conv length_stable_sort)
next
  case (Cons z zs)
  with sorted_stable_sort [of xs] have "\<forall>w \<in> set zs. \<not> lt w z" by simp
  moreover have "y \<in> set (z # zs)"
    using assms(2) Cons by (metis set_stable_sort)
  ultimately show ?thesis using Cons asym by auto
qed

end

subsection \<open>Association lists\<close>

lemma wf_map_Nil [simp]: "wf_map []"
  by (simp add: wf_map_def)

lemma wf_map_Cons [simp]: "wf_map ((k, v) # m) \<longleftrightarrow> map_of m k = None \<and> wf_map m"
  by (simp add: wf_map_def map_of_eq_None_iff)

lemma wf_map_update [simp]: "wf_map m \<Longrightarrow> wf_map (AList.update k v m)"
  by (simp add: wf_map_def distinct_update)

lemma map_of_update [simp]: "map_of (AList.update k v m) = (map_of m)(k \<mapsto> v)"
  by (rule update_conv')

lemma set_update_subset: "set (AList.update k v m) \<subseteq> insert (k, v) (set m)"
  by (induction m) auto

lemma find_value_Some:
  "find_value P m = Some v \<Longrightarrow> P v \<and> (\<exists>k. (k, v) \<in> set m)"
  by (induction P m rule: find_value.induct) (auto split: if_splits)

lemma find_value_None: "find_value P m = None \<longleftrightarrow> (\<forall>(k, v) \<in> set m. \<not> P v)"
  by (induction P m rule: find_value.induct) (auto split: if_splits)

lemma find_value_unique:
  assumes "(k, v) \<in> set m" and "P v"
    and "\<And>k' v'. (k', v') \<in> set m \<Longrightarrow> P v' \<Longrightarrow> v' = v"
  shows "find_value P m = Some v"
  using assms
proof (induction m)
  case Nil
  then show ?case by simp
next
  case (Cons kv m)
  obtain k' v' where kv: "kv = (k', v')" by (cases kv)
  show ?case
  proof (cases "P v'")
    case True
    with Cons.prems(3) [of k' v'] kv show ?thesis by simp
  next
    case False
    have "find_value P m = Some v"
    proof (rule Cons.IH)
      show "(k, v) \<in> set m" using Cons.prems(1,2) kv False by auto
      show "P v" by (rule Cons.prems(2))
      show "v'' = v" if "(k'', v'') \<in> set m" and "P v''" for k'' v''
        using that by (intro Cons.prems(3) [of k'' v'']) simp_all
    qed
    with kv False show ?thesis by simp
  qed
qed

lemma find_append: "List.find P (xs @ ys) = (case List.find P xs of None \<Rightarrow> List.find P ys | Some x \<Rightarrow> Some x)"
  by (induction xs) auto

lemma map_of_mem: "wf_map m \<Longrightarrow> map_of m k = Some v \<longleftrightarrow> (k, v) \<in> set m"
  by (simp add: wf_map_def)

lemma wf_map_filter [simp]: "wf_map m \<Longrightarrow> wf_map (filter P m)"
  by (simp add: wf_map_def distinct_map_filter)

lemma wf_map_delete [simp]: "wf_map m \<Longrightarrow> wf_map (AList.delete k m)"
  by (simp add: wf_map_def distinct_delete)

lemma wf_map_map_entry [simp]: "wf_map m \<Longrightarrow> wf_map (AList.map_entry k f m)"
  by (simp add: wf_map_def distinct_map_entry)

lemma map_of_filter:
  "wf_map m \<Longrightarrow> map_of (filter P m) k = (case map_of m k of None \<Rightarrow> None | Some v \<Rightarrow> if P (k, v) then Some v else None)"
proof (induction m)
  case (Cons kv m)
  then show ?case by (cases kv) (auto split: option.splits)
qed simp

lemma set_map_entry: "wf_map m \<Longrightarrow>
    (k', v) \<in> set (AList.map_entry k f m) \<longleftrightarrow> (if k' = k then \<exists>u. (k, u) \<in> set m \<and> v = f u else (k', v) \<in> set m)"
  using map_of_mem [of m k] map_of_mem [of m k'] map_of_mem [of "AList.map_entry k f m" k' v]
  by (auto simp: map_of_map_entry split: option.splits if_splits) metis

lemma wf_map_fold_update: "wf_map m \<Longrightarrow> wf_map (fold (\<lambda>x. AList.update (f x) (g x)) xs m)"
  by (induction xs arbitrary: m) simp_all

lemma map_of_fold_update:
  "map_of (fold (\<lambda>x. AList.update (f x) x) xs m) k = Some v \<Longrightarrow> map_of m k = Some v \<or> (v \<in> set xs \<and> f v = k)"
proof (induction xs arbitrary: m)
  case (Cons x xs)
  have "map_of (AList.update (f x) x m) k = Some v \<or> v \<in> set xs \<and> f v = k"
    by (rule Cons.IH) (use Cons.prems in simp)
  then show ?case by (auto split: if_splits)
qed simp

subsection \<open>Fallible operations\<close>

lemma bindE_Inr: "m s = (Inr a, s') \<Longrightarrow> bindE m f s = f a s'"
  by (simp add: bindE_def)

lemma bindE_Inl: "m s = (Inl e, s') \<Longrightarrow> bindE m f s = (Inl e, s')"
  by (simp add: bindE_def)

lemma bindE_cases:
  assumes "bindE m f s = (r, t)"
  obtains (err) e where "m s = (Inl e, t)" and "r = Inl e"
    | (ok) a s' where "m s = (Inr a, s')" and "f a s' = (r, t)"
  using assms by (auto simp: bindE_def split: prod.splits sum.splits)

lemma bindE_succeeds:
  "bindE m f s = (Inr r, t) \<longleftrightarrow> (\<exists>a s'. m s = (Inr a, s') \<and> f a s' = (Inr r, t))"
  by (auto simp: bindE_def split: prod.splits sum.splits)

lemma returnE_succeeds: "returnE a s = (Inr r, t) \<longleftrightarrow> r = a \<and> t = s"
  by (auto simp: returnE_def)

lemma throwE_fails: "throwE e s = (Inr r, t) \<longleftrightarrow> False"
  by (simp add: throwE_def)

lemmas op_defs = bindE_def returnE_def throwE_def

text \<open>What a run that succeeds went through.\<close>

lemmas op_succeeds = bindE_succeeds returnE_succeeds throwE_fails

subsection \<open>Histories\<close>

inductive_simps run_Nil_iff [simp]: "run step s [] s'"

lemma run_snoc_iff [simp]: "run step s (es @ [e]) s'' \<longleftrightarrow> (\<exists>s'. run step s es s' \<and> step s' e s'')"
  by (auto elim: run.cases intro: run_snoc)

lemma run_invariant:
  assumes "run step s es s'" and "\<And>s e s'. step s e s' \<Longrightarrow> I s \<Longrightarrow> I s'" and "I s"
  shows "I s'"
  using assms(1,3) by induction (auto intro: assms(2))

lemma run_append: "run step s es s' \<Longrightarrow> run step s' fs s'' \<Longrightarrow> run step s (es @ fs) s''"
  by (rotate_tac, induction rule: run.induct) (simp_all flip: append_assoc, blast)

lemma run_split: "run step s (es @ fs) s'' \<Longrightarrow> \<exists>s'. run step s es s' \<and> run step s' fs s''"
proof (induction fs arbitrary: s'' rule: rev_induct)
  case (snoc f fs)
  then show ?case by (metis append.assoc run_snoc_iff)
qed (auto intro: run_Nil)

text \<open>A component whose every step is a step of its specification.\<close>

locale simulation =
  fixes step :: "'s \<Rightarrow> 'e \<Rightarrow> 's \<Rightarrow> bool" and spec :: "'a \<Rightarrow> 'e \<Rightarrow> 'a \<Rightarrow> bool" and abst :: "'s \<Rightarrow> 'a" and inv :: "'s \<Rightarrow> bool"
  assumes inv_step: "step s e s' \<Longrightarrow> inv s \<Longrightarrow> inv s'"
    and spec_step: "step s e s' \<Longrightarrow> inv s \<Longrightarrow> spec (abst s) e (abst s')"
begin

lemma run_spec: "run step s es s' \<Longrightarrow> inv s \<Longrightarrow> run spec (abst s) es (abst s') \<and> inv s'"
  by (induction rule: run.induct) (auto intro: run_Nil inv_step spec_step)

end

text \<open>
  A resource that steps hand out and use up. What a state can still give is its potential; if no step
  uses more than it takes from the potential and what it grants, no history uses more than was granted.
\<close>

locale budget =
  fixes step :: "'s \<Rightarrow> 'e \<Rightarrow> 's \<Rightarrow> bool" and inv :: "'s \<Rightarrow> bool" and potential :: "'s \<Rightarrow> nat"
    and uses :: "'e \<Rightarrow> bool" and grants :: "'e \<Rightarrow> bool"
  assumes inv_step: "step s e s' \<Longrightarrow> inv s \<Longrightarrow> inv s'"
    and spend: "step s e s' \<Longrightarrow> inv s \<Longrightarrow> of_bool (uses e) + potential s' \<le> potential s + of_bool (grants e)"
begin

lemma run_inv: "run step s es s' \<Longrightarrow> inv s \<Longrightarrow> inv s'"
  by (erule run_invariant) (rule inv_step)

lemma run_spend:
  "run step s es s' \<Longrightarrow> inv s \<Longrightarrow>
   length (filter uses es) + potential s' \<le> potential s + length (filter grants es)"
proof (induction rule: run.induct)
  case (run_snoc s es s' e s'')
  then show ?case using spend [of s' e s''] run_inv [of s es s'] by (auto split: if_splits)
qed simp

end

end
