(* ===== verification/RateLimit.thy ===== *)
theory RateLimit
  imports AISW_Prelude
begin

text \<open>
  Tenant quotas: \<open>common/quota\<close> (the limits a tenant may have) and
  \<open>aiServeWeaveGateway/ratelimit\<close> (the token bucket, the in-replica limiter \<open>Memory\<close> and
  its leases).

  The buckets compute in \<open>float64\<close>. A \<open>float64\<close> is a rational number here and every
  floating-point operation of the source is followed by \<open>fl\<close>, the rounding of its exact
  result, which every definition takes as a parameter. Facts stated for all \<open>fl\<close> hold for
  IEEE rounding; the quantitative facts about rates and waiting times take \<open>fl = id\<close>, that is,
  exact arithmetic. The clock is read where the source reads it: each reading is an argument.
\<close>


section \<open>Definitions\<close>

subsection \<open>common/quota\<close>

record limits =
  RequestsPerMinute :: int
  TokensPerMinute :: int
  MaxConcurrent :: int

definition Unlimited :: "limits \<Rightarrow> bool" where
  "Unlimited l \<longleftrightarrow> RequestsPerMinute l \<le> 0 \<and> TokensPerMinute l \<le> 0 \<and> MaxConcurrent l \<le> 0"

text \<open>\<open>Validate\<close> loops over the three fields and reports the first negative one by name.\<close>

fun validate_fields :: "(string \<times> int) list \<Rightarrow> (string \<times> int) + unit" where
  "validate_fields [] = Inr ()"
| "validate_fields ((name, value) # fs) =
     (if value < 0 then Inl (name, value) else validate_fields fs)"

definition Limits_Validate :: "limits \<Rightarrow> (string \<times> int) + unit" where
  "Limits_Validate l = validate_fields
     [(''requests_per_minute'', RequestsPerMinute l),
      (''tokens_per_minute'', TokensPerMinute l),
      (''max_concurrent'', MaxConcurrent l)]"

subsection \<open>ratelimit.go: rejections\<close>

datatype reason = ReasonRequests | ReasonTokens | ReasonConcurrency

record rejected_error =
  Reason :: reason
  RetryAfter :: duration

subsection \<open>bucket.go: the continuously refilled bucket\<close>

type_synonym rounding = "rat \<Rightarrow> rat"

record bucket =
  bucket_capacity :: rat
  bucket_balance :: rat
  bucket_last :: go_time

definition zero_bucket :: bucket where
  "zero_bucket = \<lparr>bucket_capacity = 0, bucket_balance = 0, bucket_last = 0\<rparr>"

definition bucket_configure :: "rat \<Rightarrow> go_time \<Rightarrow> bucket \<Rightarrow> bucket" where
  "bucket_configure cap now b =
     (if bucket_capacity b = cap then b
      else b\<lparr>bucket_capacity := cap, bucket_balance := cap, bucket_last := now\<rparr>)"

text \<open>
  \<open>Duration.Minutes\<close> adds the whole minutes and the rest divided by \<open>60 * 1e9\<close>, all in
  \<open>float64\<close>.
\<close>

definition Minutes :: "rounding \<Rightarrow> duration \<Rightarrow> rat" where
  "Minutes fl d = fl (fl (of_int (quo d minute)) + fl (fl (of_int (rem d minute)) / of_int minute))"

definition bucket_refill :: "rounding \<Rightarrow> go_time \<Rightarrow> bucket \<Rightarrow> bucket" where
  "bucket_refill fl now b =
     (if bucket_last b = 0 then b\<lparr>bucket_last := now\<rparr>
      else let elapsed = time_sub now (bucket_last b) in
        if elapsed \<le> 0 then b
        else let bal = fl (bucket_balance b + fl (bucket_capacity b * Minutes fl elapsed)) in
          b\<lparr>bucket_last := now,
            bucket_balance := (if bal > bucket_capacity b then bucket_capacity b else bal)\<rparr>)"

text \<open>\<open>time.Duration(x)\<close> of a \<open>float64\<close> drops the fraction.\<close>

definition trunc_to_int :: "rat \<Rightarrow> int" where
  "trunc_to_int x = (if x < 0 then - \<lfloor>- x\<rfloor> else \<lfloor>x\<rfloor>)"

definition bucket_waitFor :: "rounding \<Rightarrow> rat \<Rightarrow> bucket \<Rightarrow> duration" where
  "bucket_waitFor fl n b =
     (if bucket_capacity b \<le> 0 then 0
      else let missing = fl (n - bucket_balance b) in
        if missing \<le> 0 then 0
        else let minutes = fl (missing / bucket_capacity b);
                 wait = trunc_to_int (fl (minutes * of_int minute)) in
          if wait < second then second else wait)"

definition bucket_take :: "rounding \<Rightarrow> rat \<Rightarrow> go_time \<Rightarrow> bucket \<Rightarrow> (duration \<times> bool) \<times> bucket" where
  "bucket_take fl n now b =
     (let b' = bucket_refill fl now b in
      if bucket_balance b' < n then ((bucket_waitFor fl n b', False), b')
      else ((0, True), b'\<lparr>bucket_balance := fl (bucket_balance b' - n)\<rparr>))"

definition bucket_available :: "rounding \<Rightarrow> go_time \<Rightarrow> bucket \<Rightarrow> bool \<times> bucket" where
  "bucket_available fl now b =
     (let b' = bucket_refill fl now b in (1 \<le> bucket_balance b', b'))"

definition bucket_spend :: "rounding \<Rightarrow> rat \<Rightarrow> go_time \<Rightarrow> bucket \<Rightarrow> bucket" where
  "bucket_spend fl n now b =
     (let b' = bucket_refill fl now b in b'\<lparr>bucket_balance := fl (bucket_balance b' - n)\<rparr>)"

subsection \<open>memory.go: the in-replica limiter\<close>

definition DefaultIdleTTL :: duration where
  "DefaultIdleTTL = 10 * minute"

record tenant_state =
  requests :: bucket
  tokens :: bucket
  inflight :: int
  lastSeen :: go_time

definition zero_tenant_state :: tenant_state where
  "zero_tenant_state =
     \<lparr>requests = zero_bucket, tokens = zero_bucket, inflight = 0, lastSeen = 0\<rparr>"

record memory =
  idleTTL :: duration
  tenants :: "string \<rightharpoonup> tenant_state"

definition NewMemory :: "duration \<Rightarrow> memory" where
  "NewMemory ttl = \<lparr>idleTTL = (if ttl \<le> 0 then DefaultIdleTTL else ttl), tenants = Map.empty\<rparr>"

definition sweepLocked :: "go_time \<Rightarrow> memory \<Rightarrow> memory" where
  "sweepLocked now m = m\<lparr>tenants := (\<lambda>id. case tenants m id of
     None \<Rightarrow> None
   | Some st \<Rightarrow> if inflight st = 0 \<and> time_sub now (lastSeen st) > idleTTL m then None
                else Some st)\<rparr>"

text \<open>
  A lease is \<open>noopLease\<close>, or a \<open>memoryLease\<close> with the tenant it holds a slot of and
  whether its \<open>sync.Once\<close> has fired.
\<close>

datatype lease = NoopLease | MemoryLease (lease_tenant: string) (lease_done: bool)

definition Acquire ::
  "rounding \<Rightarrow> string \<Rightarrow> limits \<Rightarrow> go_time \<Rightarrow> memory \<Rightarrow> (rejected_error + lease) \<times> memory" where
  "Acquire fl tenantID l now m =
     (if Unlimited l then (Inr NoopLease, m)
      else
        let m1 = sweepLocked now m;
            state0 = (case tenants m1 tenantID of None \<Rightarrow> zero_tenant_state | Some st \<Rightarrow> st);
            state1 = state0\<lparr>lastSeen := now\<rparr>;
            put = (\<lambda>st. m1\<lparr>tenants := (tenants m1)(tenantID \<mapsto> st)\<rparr>);
            ((wait, ok), reqs) =
              (if RequestsPerMinute l > 0
               then bucket_take fl 1 now
                      (bucket_configure (fl (of_int (RequestsPerMinute l))) now (requests state1))
               else ((0, True), requests state1));
            state2 = state1\<lparr>requests := reqs\<rparr> in
        if \<not> ok then (Inl \<lparr>Reason = ReasonRequests, RetryAfter = wait\<rparr>, put state2)
        else
          let (avail, toks) =
                (if TokensPerMinute l > 0
                 then bucket_available fl now
                        (bucket_configure (fl (of_int (TokensPerMinute l))) now (tokens state2))
                 else (True, tokens state2));
              state3 = state2\<lparr>tokens := toks\<rparr> in
          if \<not> avail
          then (Inl \<lparr>Reason = ReasonTokens, RetryAfter = bucket_waitFor fl 1 toks\<rparr>, put state3)
          else if MaxConcurrent l > 0 \<and> inflight state3 \<ge> MaxConcurrent l
          then (Inl \<lparr>Reason = ReasonConcurrency, RetryAfter = second\<rparr>, put state3)
          else (Inr (MemoryLease tenantID False),
                put (state3\<lparr>inflight := inflight state3 + 1\<rparr>)))"

text \<open>\<open>release\<close> reads the clock once for the spend and once for \<open>lastSeen\<close>.\<close>

definition release :: "rounding \<Rightarrow> string \<Rightarrow> int \<Rightarrow> go_time \<Rightarrow> go_time \<Rightarrow> memory \<Rightarrow> memory" where
  "release fl tenantID n now now' m =
     (case tenants m tenantID of
        None \<Rightarrow> m
      | Some st \<Rightarrow>
          let st1 = (if inflight st > 0 then st\<lparr>inflight := inflight st - 1\<rparr> else st);
              st2 = (if n > 0 then st1\<lparr>tokens := bucket_spend fl (fl (of_int n)) now (tokens st1)\<rparr>
                     else st1)
          in m\<lparr>tenants := (tenants m)(tenantID \<mapsto> st2\<lparr>lastSeen := now'\<rparr>)\<rparr>)"

fun lease_Release ::
  "rounding \<Rightarrow> int \<Rightarrow> go_time \<Rightarrow> go_time \<Rightarrow> lease \<Rightarrow> memory \<Rightarrow> lease \<times> memory" where
  "lease_Release fl n now now' NoopLease m = (NoopLease, m)"
| "lease_Release fl n now now' (MemoryLease t used) m =
     (if used then (MemoryLease t used, m) else (MemoryLease t True, release fl t n now now' m))"

subsection \<open>Runs of a limiter\<close>

text \<open>
  What the request path does with a limiter, for any limiter: it acquires, and releases each lease
  it was granted at most once, in any interleaving. \<open>lease_run acq rel s0 L s\<close>: from \<open>s0\<close>
  some interleaving of calls reaches \<open>s\<close> with the tenants in \<open>L\<close> holding a lease that is
  not yet released. An acquire answers \<open>Inr True\<close> for a lease that holds a slot and
  \<open>Inr False\<close> for one that holds nothing.
\<close>

inductive lease_run ::
  "('t \<Rightarrow> 'l \<Rightarrow> go_time \<Rightarrow> 's \<Rightarrow> ('e + bool) \<times> 's) \<Rightarrow> ('t \<Rightarrow> int \<Rightarrow> go_time \<Rightarrow> go_time \<Rightarrow> 's \<Rightarrow> 's) \<Rightarrow>
   's \<Rightarrow> 't multiset \<Rightarrow> 's \<Rightarrow> bool" for acq rel s0 where
  start: "lease_run acq rel s0 {#} s0"
| granted: "lease_run acq rel s0 L s \<Longrightarrow> acq t l now s = (Inr True, s') \<Longrightarrow>
     lease_run acq rel s0 (add_mset t L) s'"
| unlimited: "lease_run acq rel s0 L s \<Longrightarrow> acq t l now s = (Inr False, s') \<Longrightarrow>
     lease_run acq rel s0 L s'"
| rejected: "lease_run acq rel s0 L s \<Longrightarrow> acq t l now s = (Inl e, s') \<Longrightarrow>
     lease_run acq rel s0 L s'"
| released: "lease_run acq rel s0 (add_mset t L) s \<Longrightarrow>
     lease_run acq rel s0 L (rel t n now now' s)"

definition mem_acquire ::
  "rounding \<Rightarrow> string \<Rightarrow> limits \<Rightarrow> go_time \<Rightarrow> memory \<Rightarrow> (rejected_error + bool) \<times> memory" where
  "mem_acquire fl t l now m =
     (case Acquire fl t l now m of (Inl e, m') \<Rightarrow> (Inl e, m')
      | (Inr ls, m') \<Rightarrow> (Inr (ls \<noteq> NoopLease), m'))"

definition held :: "memory \<Rightarrow> string \<Rightarrow> int" where
  "held m t = (case tenants m t of None \<Rightarrow> 0 | Some st \<Rightarrow> inflight st)"

definition mem_inv :: "memory \<Rightarrow> bool" where
  "mem_inv m \<longleftrightarrow> (\<forall>t. 0 \<le> held m t)"

text \<open>A client that retries a bucket at the given instants, and how often it is admitted.\<close>

fun admitted :: "rounding \<Rightarrow> rat \<Rightarrow> go_time list \<Rightarrow> bucket \<Rightarrow> nat" where
  "admitted fl n [] b = 0"
| "admitted fl n (t # ts) b =
     (case bucket_take fl n t b of ((_, ok), b') \<Rightarrow> (if ok then 1 else 0) + admitted fl n ts b')"

subsection \<open>Concrete inputs\<close>

definition two_slots :: limits where
  "two_slots = \<lparr>RequestsPerMinute = 0, TokensPerMinute = 0, MaxConcurrent = 2\<rparr>"

definition empty_bucket_7 :: bucket where
  "empty_bucket_7 = \<lparr>bucket_capacity = 7, bucket_balance = 0, bucket_last = 1\<rparr>"

definition busy_tenant :: memory where
  "busy_tenant = \<lparr>idleTTL = DefaultIdleTTL,
     tenants = [''a'' \<mapsto> \<lparr>requests = zero_bucket, tokens = zero_bucket, inflight = 1, lastSeen = 1\<rparr>]\<rparr>"

definition sixty_one_slot :: limits where
  "sixty_one_slot = \<lparr>RequestsPerMinute = 60, TokensPerMinute = 0, MaxConcurrent = 1\<rparr>"


section \<open>Lemmas\<close>

subsection \<open>The bucket\<close>

lemma minute_nonneg [simp]: "0 \<le> minute"
  and minute_nonzero [simp]: "minute \<noteq> 0"
  by (simp_all add: minute_def second_def)

lemma Minutes_id: "Minutes id d = of_int d / of_int minute"
proof -
  have "(of_int (quo d minute) :: rat) + of_int (rem d minute) / of_int minute =
        of_int (minute * quo d minute + rem d minute) / of_int minute"
    by (simp add: add_divide_distrib)
  also have "minute * quo d minute + rem d minute = d" by (simp add: rem_def)
  finally show ?thesis by (simp add: Minutes_def)
qed

lemma refill_capacity [simp]: "bucket_capacity (bucket_refill fl now b) = bucket_capacity b"
  by (simp add: bucket_refill_def Let_def)

lemma refill_le_capacity:
  "bucket_balance b \<le> bucket_capacity b \<Longrightarrow>
   bucket_balance (bucket_refill fl now b) \<le> bucket_capacity b"
  by (simp add: bucket_refill_def Let_def)

lemma refill_last: "bucket_last b \<noteq> 0 \<Longrightarrow> bucket_last b \<le> now \<Longrightarrow>
  bucket_last (bucket_refill fl now b) = now"
  by (auto simp: bucket_refill_def Let_def not_less [symmetric])

lemma refill_id_upper:
  assumes "bucket_last b \<noteq> 0" and "bucket_last b \<le> now" and "0 \<le> bucket_capacity b"
  shows "bucket_balance (bucket_refill id now b) \<le>
         bucket_balance b + bucket_capacity b * (of_int (now - bucket_last b) / of_int minute)"
proof -
  let ?e = "time_sub now (bucket_last b)"
  have "(of_int ?e :: rat) / of_int minute \<le> of_int (now - bucket_last b) / of_int minute"
    using time_sub_le_diff [OF assms(2)]
    by (intro divide_right_mono) (simp_all del: of_int_diff)
  then have "bucket_capacity b * (of_int ?e / of_int minute) \<le>
             bucket_capacity b * (of_int (now - bucket_last b) / of_int minute)"
    using assms(3) by (rule mult_left_mono)
  moreover have "0 \<le> bucket_capacity b * (of_int (now - bucket_last b) / (of_int minute :: rat))"
    using assms(2,3) by (intro mult_nonneg_nonneg divide_nonneg_nonneg) simp_all
  ultimately show ?thesis
    using assms(1) by (auto simp: bucket_refill_def Let_def Minutes_id simp del: of_int_diff)
qed

lemma refill_id_nonneg:
  assumes "0 \<le> bucket_balance b" and "0 \<le> bucket_capacity b"
  shows "0 \<le> bucket_balance (bucket_refill id now b)"
proof -
  have "0 \<le> bucket_balance b + bucket_capacity b * of_int (time_sub now (bucket_last b)) / of_int minute"
    if "bucket_last b < now"
  proof -
    have "0 < time_sub now (bucket_last b)" using that by simp
    then show ?thesis
      using assms by (intro add_nonneg_nonneg mult_nonneg_nonneg divide_nonneg_nonneg)
        (simp_all del: time_sub_pos_iff)
  qed
  with assms show ?thesis
    by (auto simp: bucket_refill_def Let_def Minutes_id not_le)
qed

lemma take_id_step:
  assumes "bucket_take id n now b = ((w, ok), b')"
    and "bucket_last b \<noteq> 0" and "bucket_last b \<le> now"
    and "0 \<le> bucket_balance b" and "0 \<le> bucket_capacity b"
  shows "bucket_capacity b' = bucket_capacity b" and "bucket_last b' = now"
    and "0 \<le> bucket_balance b'"
    and "bucket_balance b' + (if ok then n else 0) \<le>
         bucket_balance b + bucket_capacity b * (of_int (now - bucket_last b) / of_int minute)"
  using assms refill_last [OF assms(2,3)] refill_id_nonneg [OF assms(4,5), of now]
    refill_id_upper [OF assms(2,3,5)]
  by (auto simp: bucket_take_def Let_def split: if_splits)

lemma admitted_potential:
  assumes "sorted ts" and "\<forall>t \<in> set ts. bucket_last b \<le> t \<and> t \<le> T" and "bucket_last b \<le> T"
    and "0 < bucket_last b" and "0 \<le> bucket_balance b" and "0 \<le> bucket_capacity b"
  shows "of_nat (admitted id 1 ts b) \<le>
         bucket_balance b + bucket_capacity b * (of_int (T - bucket_last b) / of_int minute)"
  using assms
proof (induction ts arbitrary: b)
  case Nil
  have "0 \<le> bucket_capacity b * (of_int (T - bucket_last b) / (of_int minute :: rat))"
    using Nil.prems by (intro mult_nonneg_nonneg divide_nonneg_nonneg) simp_all
  with Nil.prems show ?case by simp
next
  case (Cons t ts)
  obtain w ok b' where tk: "bucket_take id 1 t b = ((w, ok), b')"
    by (metis prod.collapse)
  let ?r = "\<lambda>e. bucket_capacity b * (of_int e / (of_int minute :: rat))"
  from Cons.prems have nz: "bucket_last b \<noteq> 0" and le: "bucket_last b \<le> t" by auto
  note st = take_id_step [OF tk nz le Cons.prems(5,6)]
  have "of_nat (admitted id 1 ts b') \<le>
      bucket_balance b' + bucket_capacity b' * (of_int (T - bucket_last b') / of_int minute)"
    by (rule Cons.IH) (use Cons.prems st(1-3) in auto)
  then have "of_nat (admitted id 1 ts b') \<le> bucket_balance b' + ?r (T - t)"
    by (simp only: st(1,2))
  with st(4) have "of_nat ((if ok then 1 else 0) + admitted id 1 ts b') \<le>
    bucket_balance b + (?r (t - bucket_last b) + ?r (T - t))" by (cases ok) auto
  also have "?r (t - bucket_last b) + ?r (T - t) = ?r (T - bucket_last b)"
    by (simp add: distrib_left [symmetric] add_divide_distrib [symmetric])
  finally show ?case by (simp only: admitted.simps tk prod.case)
qed

lemma trunc_nonneg: "0 \<le> x \<Longrightarrow> trunc_to_int x = \<lfloor>x\<rfloor>"
  by (simp add: trunc_to_int_def)

lemma waitFor_id_covers:
  assumes "0 < bucket_capacity b" and "bucket_balance b < n"
    and "bucket_waitFor id n b < d"
  shows "n - bucket_balance b \<le> bucket_capacity b * (of_int d / of_int minute)"
proof -
  let ?m = "(n - bucket_balance b) / bucket_capacity b"
  let ?x = "?m * of_int minute"
  have pos: "0 \<le> ?x"
    using assms(1,2) by (intro mult_nonneg_nonneg divide_nonneg_nonneg) simp_all
  have "\<lfloor>?x\<rfloor> \<le> bucket_waitFor id n b"
    using assms(1,2) pos by (simp add: bucket_waitFor_def Let_def trunc_nonneg)
  with assms(3) have "\<lfloor>?x\<rfloor> + 1 \<le> d" by simp
  then have "?x \<le> of_int d" by linarith
  then have "?m \<le> of_int d / of_int minute"
    by (simp add: pos_le_divide_eq)
  then have "bucket_capacity b * ?m \<le> bucket_capacity b * (of_int d / of_int minute)"
    using assms(1) by (intro mult_left_mono) simp_all
  then show ?thesis using assms(1) by simp
qed

subsection \<open>The limiter\<close>

lemma Acquire_unlimited: "Unlimited l \<Longrightarrow> Acquire fl t l now m = (Inr NoopLease, m)"
  by (simp add: Acquire_def)

lemma held_sweep: "held (sweepLocked now m) = held m"
  by (auto simp: held_def sweepLocked_def fun_eq_iff split: option.splits)

text \<open>
  The four ways \<open>Acquire\<close> can go, each with what it leaves behind for the tenant: the state
  \<open>st\<close> the limiter had for it after the sweep, with the buckets as \<open>Acquire\<close> left them.
\<close>

lemma Acquire_cases:
  assumes "Acquire fl t l now m = (r, m')" and "\<not> Unlimited l"
  obtains (rejected) e st' where "r = Inl e" and "tenants m' = (tenants (sweepLocked now m))(t \<mapsto> st')"
      and "inflight st' = held m t" and "idleTTL m' = idleTTL m"
    | (granted) st' where "r = Inr (MemoryLease t False)"
      and "tenants m' = (tenants (sweepLocked now m))(t \<mapsto> st')"
      and "inflight st' = held m t + 1" and "idleTTL m' = idleTTL m"
      and "MaxConcurrent l > 0 \<longrightarrow> held m t < MaxConcurrent l"
proof -
  let ?st = "case tenants (sweepLocked now m) t of None \<Rightarrow> zero_tenant_state | Some st \<Rightarrow> st"
  have inf: "inflight ?st = held m t"
    by (simp add: held_sweep [of now m, symmetric] held_def zero_tenant_state_def
        split: option.splits)
  have ttl: "idleTTL (sweepLocked now m) = idleTTL m" by (simp add: sweepLocked_def)
  show thesis
    using assms inf ttl
    by (auto simp: Acquire_def Let_def split: prod.splits if_splits
        intro: rejected granted)
qed

lemma held_put: "tenants m' = (tenants (sweepLocked now m))(t \<mapsto> st') \<Longrightarrow>
  held m' = (held m)(t := inflight st')"
proof -
  assume "tenants m' = (tenants (sweepLocked now m))(t \<mapsto> st')"
  then have "held m' = (held (sweepLocked now m))(t := inflight st')"
    by (auto simp: held_def fun_eq_iff)
  then show ?thesis by (simp add: held_sweep)
qed

lemma held_release:
  "held (release fl t n now now' m) = (held m)(t := if 0 < held m t then held m t - 1 else held m t)"
  by (auto simp: held_def release_def fun_eq_iff Let_def split: option.splits)

text \<open>
  The interface \<open>Limiter\<close>: what the request path relies on. \<open>held s t\<close> is how many slots
  the limiter believes tenant \<open>t\<close> occupies.
\<close>

locale lease_limiter =
  fixes inv :: "'s \<Rightarrow> bool" and slots :: "'s \<Rightarrow> 't \<Rightarrow> int"
    and acquire :: "'t \<Rightarrow> 'l \<Rightarrow> go_time \<Rightarrow> 's \<Rightarrow> ('e + bool) \<times> 's"
    and give_back :: "'t \<Rightarrow> int \<Rightarrow> go_time \<Rightarrow> go_time \<Rightarrow> 's \<Rightarrow> 's"
  assumes acquire_granted: "inv s \<Longrightarrow> acquire t l now s = (Inr True, s') \<Longrightarrow>
      inv s' \<and> slots s' = (slots s)(t := slots s t + 1)"
    and acquire_unlimited: "inv s \<Longrightarrow> acquire t l now s = (Inr False, s') \<Longrightarrow> s' = s"
    and acquire_rejected: "inv s \<Longrightarrow> acquire t l now s = (Inl e, s') \<Longrightarrow>
      inv s' \<and> slots s' = slots s"
    and give_back_slots: "inv s \<Longrightarrow> 0 < slots s t \<Longrightarrow>
      inv (give_back t n now now' s) \<and>
      slots (give_back t n now now' s) = (slots s)(t := slots s t - 1)"
begin

lemma run_accounts:
  assumes "lease_run acquire give_back s0 L s" and "inv s0" and "slots s0 = (\<lambda>_. 0)"
  shows "inv s \<and> (\<forall>t. slots s t = int (count L t))"
  using assms
proof (induction rule: lease_run.induct)
  case start
  then show ?case by simp
next
  case (granted L s t l now s')
  then have "inv s" and h: "\<forall>t. slots s t = int (count L t)" by auto
  from acquire_granted [OF this(1) granted.hyps(2)] h show ?case by simp
next
  case (unlimited L s t l now s')
  then have i: "inv s" and h: "\<forall>t. slots s t = int (count L t)" by auto
  from acquire_unlimited [OF i unlimited.hyps(2)] i h show ?case by simp
next
  case (rejected L s t l now e s')
  then have "inv s" and h: "\<forall>t. slots s t = int (count L t)" by auto
  from acquire_rejected [OF this(1) rejected.hyps(2)] h show ?case by simp
next
  case (released t L s n now now')
  then have i: "inv s" and h: "\<forall>u. slots s u = int (count (add_mset t L) u)" by auto
  then have "0 < slots s t" by simp
  from give_back_slots [OF i this] h show ?case by simp
qed

end

interpretation memory_limiter: lease_limiter mem_inv held "mem_acquire fl" "release fl"
  for fl
proof
  fix s s' :: memory and t l now
  assume inv: "mem_inv s" and acq: "mem_acquire fl t l now s = (Inr True, s')"
  from acq have "Acquire fl t l now s = (Inr (MemoryLease t False), s')"
    by (cases "Unlimited l")
      (auto simp: mem_acquire_def Acquire_unlimited split: prod.splits sum.splits
        elim!: Acquire_cases)
  moreover from acq have "\<not> Unlimited l"
    by (auto simp: mem_acquire_def Acquire_unlimited)
  ultimately show "mem_inv s' \<and> held s' = (held s)(t := held s t + 1)"
    using inv by (elim Acquire_cases) (auto dest!: held_put simp: mem_inv_def)
next
  fix s s' :: memory and t l now
  assume "mem_acquire fl t l now s = (Inr False, s')"
  then show "s' = s"
    by (cases "Unlimited l")
      (auto simp: mem_acquire_def Acquire_unlimited split: prod.splits sum.splits
        elim!: Acquire_cases)
next
  fix s s' :: memory and t l now e
  assume inv: "mem_inv s" and acq: "mem_acquire fl t l now s = (Inl e, s')"
  from acq have "Acquire fl t l now s = (Inl e, s')" and "\<not> Unlimited l"
    by (auto simp: mem_acquire_def Acquire_unlimited split: prod.splits sum.splits)
  then show "mem_inv s' \<and> held s' = held s"
    using inv by (elim Acquire_cases) (auto dest!: held_put simp: mem_inv_def)
next
  fix s :: memory and t n now now'
  assume "mem_inv s" and "0 < held s t"
  then show "mem_inv (release fl t n now now' s) \<and>
    held (release fl t n now now' s) = (held s)(t := held s t - 1)"
    by (auto simp: held_release mem_inv_def)
qed

lemma mem_inv_NewMemory: "mem_inv (NewMemory ttl)" and held_NewMemory: "held (NewMemory ttl) = (\<lambda>_. 0)"
  by (simp_all add: mem_inv_def held_def NewMemory_def fun_eq_iff)



section \<open>Properties\<close>

text \<open>
  C38. Lease accounting. In every interleaving of acquisitions and releases, for every rounding of
  the float arithmetic and every sequence of clock readings, the limiter's in-flight count of a
  tenant is the number of its leases that were granted and not yet released: no sweep, rejection or
  release of another tenant's lease ever loses or invents a slot.
\<close>

theorem limiter_accounts_leases:
  assumes "lease_run (mem_acquire fl) (release fl) (NewMemory ttl) L m"
  shows "held m t = int (count L t)"
  using memory_limiter.run_accounts [OF assms mem_inv_NewMemory held_NewMemory] by blast

lemma acquire_two_slots:
  "mem_acquire id ''a'' two_slots 5 (NewMemory 0) =
     (Inr True, snd (mem_acquire id ''a'' two_slots 5 (NewMemory 0)))"
  by (simp add: mem_acquire_def Acquire_def Unlimited_def two_slots_def NewMemory_def
      sweepLocked_def zero_tenant_state_def)

lemma run_two_slots:
  "lease_run (mem_acquire id) (release id) (NewMemory 0) {#''a''#}
     (snd (mem_acquire id ''a'' two_slots 5 (NewMemory 0)))"
  using lease_run.granted [where acq = "mem_acquire id" and rel = "release id" and t = "''a''"
      and l = two_slots and now = 5, OF lease_run.start acquire_two_slots]
  by simp

theorem limiter_accounts_leases_witness:
  "held (snd (mem_acquire id ''a'' two_slots 5 (NewMemory 0))) ''a'' = 1 \<and>
   held (snd (mem_acquire id ''a'' two_slots 5 (NewMemory 0))) ''b'' = 0"
  using limiter_accounts_leases [OF run_two_slots, of "''a''"]
    limiter_accounts_leases [OF run_two_slots, of "''b''"]
  by simp

text \<open>
  C39. Concurrency cap. Whenever \<open>Acquire\<close> admits a request under a positive
  \<open>MaxConcurrent\<close>, the tenant's outstanding leases, the new one included, do not exceed it, in
  any reachable state of the limiter.
\<close>

theorem limiter_concurrency_cap:
  assumes run: "lease_run (mem_acquire fl) (release fl) (NewMemory ttl) L m"
    and acq: "Acquire fl t l now m = (Inr ls, m')" and max: "0 < MaxConcurrent l"
  shows "ls = MemoryLease t False \<and> int (count (add_mset t L) t) \<le> MaxConcurrent l"
proof -
  have "\<not> Unlimited l" using max by (simp add: Unlimited_def)
  with acq max have "ls = MemoryLease t False \<and> held m t < MaxConcurrent l"
    by (auto elim!: Acquire_cases)
  moreover have "held m t = int (count L t)"
    using memory_limiter.run_accounts [OF run mem_inv_NewMemory held_NewMemory] by blast
  ultimately show ?thesis by simp
qed

theorem limiter_concurrency_cap_witness:
  "int (count {#''a'', ''a''#} ''a'') \<le> MaxConcurrent two_slots"
proof -
  let ?m = "snd (mem_acquire id ''a'' two_slots 5 (NewMemory 0))"
  have "Acquire id ''a'' two_slots 6 ?m = (Inr (MemoryLease ''a'' False), snd (Acquire id ''a'' two_slots 6 ?m))"
    by (simp add: mem_acquire_def Acquire_def Unlimited_def two_slots_def NewMemory_def
        sweepLocked_def zero_tenant_state_def Let_def)
  from limiter_concurrency_cap [OF run_two_slots this] show ?thesis
    by (simp add: two_slots_def)
qed

text \<open>
  Admission rate. In exact arithmetic a bucket that holds at most its capacity admits, between
  its last refill and any later instant \<open>T\<close>, at most its capacity plus the capacity times the
  minutes elapsed, however the requests are spaced: there is no window boundary at which the
  allowance can be spent twice.
\<close>

theorem bucket_admission_rate:
  assumes "sorted ts" and "\<forall>t \<in> set ts. bucket_last b \<le> t \<and> t \<le> T" and "bucket_last b \<le> T"
    and "0 < bucket_last b" and "0 \<le> bucket_balance b" and "bucket_balance b \<le> bucket_capacity b"
  shows "of_nat (admitted id 1 ts b) \<le>
         bucket_capacity b + bucket_capacity b * (of_int (T - bucket_last b) / of_int minute)"
  using admitted_potential [OF assms(1-5)] assms(5,6) by simp

theorem bucket_admission_rate_witness:
  "of_nat (admitted id 1 [1, 1, 1] \<lparr>bucket_capacity = 2, bucket_balance = 2, bucket_last = 1\<rparr>) \<le>
     (2 + 2 * (of_int 0 / of_int minute) :: rat)"
  using bucket_admission_rate [of "[1, 1, 1]" "\<lparr>bucket_capacity = 2, bucket_balance = 2, bucket_last = 1\<rparr>" 1]
  by simp

text \<open>
  Retry hint. In exact arithmetic, a rejected request that comes back more than the reported
  wait later, with nothing else spent in between, is admitted: the hint is derived from the refill
  rate and one retry is enough.
\<close>

theorem retry_hint_sufficient:
  assumes take: "bucket_take id n now b = ((w, False), b')"
    and "0 < now" and "bucket_last b \<le> now" and "0 < bucket_capacity b" and "n \<le> bucket_capacity b"
    and later: "now + w < now'" and "in_int64 (now' - now)"
  shows "\<exists>b''. bucket_take id n now' b' = ((0, True), b'')"
proof -
  have b': "b' = bucket_refill id now b" and low: "bucket_balance b' < n"
    and w: "w = bucket_waitFor id n b'"
    using take by (auto simp: bucket_take_def Let_def split: if_splits)
  have cap: "bucket_capacity b' = bucket_capacity b" by (simp add: b')
  have last: "bucket_last b' = now"
    using assms(2,3) refill_last [of b now id] by (cases "bucket_last b = 0") (simp_all add: b' bucket_refill_def)
  have "0 \<le> w" using assms(4) low
    by (auto simp: w cap bucket_waitFor_def Let_def second_def)
  with later have gt: "now < now'" by simp
  have "n - bucket_balance b' \<le> bucket_capacity b' * (of_int (now' - now) / of_int minute)"
    by (rule waitFor_id_covers) (use assms(4) cap low later w in auto)
  then have "n \<le> bucket_balance (bucket_refill id now' b')"
    using assms(2,5,7) gt cap last
    by (auto simp: bucket_refill_def Let_def Minutes_id int64_simps)
  then show ?thesis by (simp add: bucket_take_def Let_def)
qed

lemma floor_wait_7: "\<lfloor>60000000000 / 7 :: rat\<rfloor> = 8571428571"
  by (rule floor_unique) simp_all

lemma take_empty_bucket_7: "bucket_take id 1 1 empty_bucket_7 = ((8571428571, False), empty_bucket_7)"
  by (simp add: bucket_take_def empty_bucket_7_def bucket_refill_def time_sub_def min_int64_def
      max_int64_def bucket_waitFor_def trunc_to_int_def minute_def second_def floor_wait_7)

theorem retry_hint_sufficient_witness:
  "\<exists>b''. bucket_take id 1 8571428573 empty_bucket_7 = ((0, True), b'')"
  by (rule retry_hint_sufficient [OF take_empty_bucket_7])
    (simp_all add: empty_bucket_7_def in_int64_def min_int64_def max_int64_def)

text \<open>
  The hint is truncated to whole nanoseconds, so a client that waits exactly as long as it says
  can still be one nanosecond early: at seven requests a minute an empty bucket answers with a wait
  of 8571428571 ns, and the retry made exactly then is rejected again.
\<close>

theorem retry_hint_truncated:
  "bucket_take id 1 1 empty_bucket_7 = ((8571428571, False), empty_bucket_7) \<and>
   snd (fst (bucket_take id 1 (1 + 8571428571) empty_bucket_7)) = False"
  using take_empty_bucket_7
  by (simp add: bucket_take_def empty_bucket_7_def bucket_refill_def time_sub_def min_int64_def
      max_int64_def Minutes_id minute_def second_def Let_def)

text \<open>
  A rejection is not free. A request that passes the request-rate check and is then rejected by
  the token or the concurrency dimension has already been charged one request: the tenant's request
  bucket is left one below its refilled balance.
\<close>

theorem rejection_spends_request:
  assumes acq: "Acquire fl t l now m = (Inl e, m')" and rpm: "0 < RequestsPerMinute l"
    and other: "Reason e \<noteq> ReasonRequests"
  shows "\<exists>st'. tenants m' t = Some st' \<and>
    bucket_balance (requests st') =
      fl (bucket_balance (bucket_refill fl now (bucket_configure (fl (of_int (RequestsPerMinute l))) now
        (requests (case tenants (sweepLocked now m) t of None \<Rightarrow> zero_tenant_state | Some st \<Rightarrow> st)))) - 1)"
proof -
  have "\<not> Unlimited l" using rpm by (simp add: Unlimited_def)
  with acq rpm other show ?thesis
    by (auto simp: Acquire_def Let_def bucket_take_def split: prod.splits if_splits)
qed

theorem rejection_spends_request_witness:
  "\<exists>st'. tenants (snd (Acquire id ''a'' sixty_one_slot 2 busy_tenant)) ''a'' = Some st' \<and>
     bucket_balance (requests st') = 59"
proof -
  let ?e = "\<lparr>Reason = ReasonConcurrency, RetryAfter = second\<rparr>"
  have a: "Acquire id ''a'' sixty_one_slot 2 busy_tenant =
      (Inl ?e, snd (Acquire id ''a'' sixty_one_slot 2 busy_tenant))"
    by (simp add: Acquire_def Unlimited_def sixty_one_slot_def busy_tenant_def sweepLocked_def
        bucket_take_def bucket_configure_def zero_bucket_def bucket_refill_def time_sub_def
        min_int64_def max_int64_def Let_def)
  have r: "bucket_balance (bucket_refill id 2 (bucket_configure (id (of_int (RequestsPerMinute sixty_one_slot))) 2
        (requests (case tenants (sweepLocked 2 busy_tenant) ''a'' of None \<Rightarrow> zero_tenant_state | Some st \<Rightarrow> st)))) = 60"
    by (simp add: sixty_one_slot_def busy_tenant_def sweepLocked_def bucket_configure_def
        zero_bucket_def bucket_refill_def time_sub_def min_int64_def max_int64_def)
  have "0 < RequestsPerMinute sixty_one_slot" by (simp add: sixty_one_slot_def)
  from rejection_spends_request [OF a this] show ?thesis unfolding r by simp
qed

end
