(* ===== verification/Go_Strings.thy ===== *)
theory Go_Strings
  imports AISW_Prelude "HOL-Library.Sublist"
begin

text \<open>
  The parts of Go's \<open>strings\<close>, \<open>unicode/utf8\<close>, \<open>strconv\<close> and \<open>sort\<close> that the
  repository's validation code uses. A Go string is a sequence of bytes, so it is a
  \<^typ>\<open>string\<close> whose characters are its bytes; \<open>sort.Strings\<close> is \<^const>\<open>sort\<close> in the
  lexicographic byte order, and \<open><\<close> on strings is that order.
\<close>


section \<open>Definitions\<close>

subsection \<open>unicode/utf8\<close>

abbreviation byte :: "char \<Rightarrow> nat" where
  "byte \<equiv> of_char"

definition between :: "nat \<Rightarrow> nat \<Rightarrow> char \<Rightarrow> bool" where
  "between lo hi c \<longleftrightarrow> lo \<le> byte c \<and> byte c \<le> hi"

abbreviation cont_byte :: "char \<Rightarrow> bool" where
  "cont_byte \<equiv> between 128 191"

abbreviation cont_bits :: "char \<Rightarrow> nat" where
  "cont_bits c \<equiv> byte c mod 64"

text \<open>
  \<open>DecodeRuneInString\<close>: the rune at the head of the string with its width in bytes, or
  \<open>None\<close> for the empty string and for an invalid encoding.
\<close>

fun decode_rune :: "string \<Rightarrow> (nat \<times> nat) option" where
  "decode_rune [] = None"
| "decode_rune (a # rest) =
     (if byte a < 128 then Some (byte a, 1)
      else if between 194 223 a then
        (case rest of
           b # _ \<Rightarrow> if cont_byte b then Some ((byte a mod 32) * 64 + cont_bits b, 2) else None
         | _ \<Rightarrow> None)
      else if between 224 239 a then
        (case rest of
           b # c # _ \<Rightarrow>
             if between (if byte a = 224 then 160 else 128) (if byte a = 237 then 159 else 191) b
                \<and> cont_byte c
             then Some ((byte a mod 16) * 4096 + cont_bits b * 64 + cont_bits c, 3) else None
         | _ \<Rightarrow> None)
      else if between 240 244 a then
        (case rest of
           b # c # d # _ \<Rightarrow>
             if between (if byte a = 240 then 144 else 128) (if byte a = 244 then 143 else 191) b
                \<and> cont_byte c \<and> cont_byte d
             then Some ((byte a mod 8) * 262144 + cont_bits b * 4096 + cont_bits c * 64 + cont_bits d, 4)
             else None
         | _ \<Rightarrow> None)
      else None)"

lemma decode_rune_width: "decode_rune s = Some (r, n) \<Longrightarrow> 0 < n \<and> n \<le> length s"
  by (cases s) (auto split: if_splits list.splits)

definition rune_error :: nat where
  "rune_error = 65533"

text \<open>
  The runes a \<open>range\<close> loop over the string sees: an invalid encoding yields \<open>RuneError\<close>
  and skips one byte.
\<close>

function runes :: "string \<Rightarrow> nat list" where
  "runes s = (if s = [] then []
              else case decode_rune s of
                None \<Rightarrow> rune_error # runes (tl s)
              | Some (r, n) \<Rightarrow> r # runes (drop n s))"
  by pat_completeness auto
termination by (relation "measure length") (auto dest: decode_rune_width)

function ValidString :: "string \<Rightarrow> bool" where
  "ValidString s = (if s = [] then True
                    else case decode_rune s of
                      None \<Rightarrow> False
                    | Some (r, n) \<Rightarrow> ValidString (drop n s))"
  by pat_completeness auto
termination by (relation "measure length") (auto dest: decode_rune_width)

declare runes.simps [simp del] ValidString.simps [simp del]

subsection \<open>unicode\<close>

definition IsSpace :: "nat \<Rightarrow> bool" where
  "IsSpace r \<longleftrightarrow> (9 \<le> r \<and> r \<le> 13) \<or> r = 32 \<or> r = 133 \<or> r = 160 \<or> r = 5760
     \<or> (8192 \<le> r \<and> r \<le> 8202) \<or> r = 8232 \<or> r = 8233 \<or> r = 8239 \<or> r = 8287 \<or> r = 12288"

definition IsControl :: "nat \<Rightarrow> bool" where
  "IsControl r \<longleftrightarrow> r < 32 \<or> (127 \<le> r \<and> r < 160)"

subsection \<open>strings.TrimSpace\<close>

text \<open>
  The UTF-8 encodings of the runes of \<^const>\<open>IsSpace\<close>. An encoding is never a proper prefix or
  suffix of another rune's, so decoding from either end of a string meets a space exactly when the
  string starts or ends with one of these sequences.
\<close>

definition space_seqs :: "string list" where
  "space_seqs =
     map (\<lambda>b. [char_of b]) [9, 10, 11, 12, 13, 32 :: nat]
     @ map (map char_of) [[194, 133 :: nat], [194, 160], [225, 154, 128]]
     @ map (\<lambda>b. map char_of [226, 128, b]) [128, 129, 130, 131, 132, 133, 134, 135, 136, 137, 138, 168, 169, 175 :: nat]
     @ map (map char_of) [[226, 129, 159 :: nat], [227, 128, 128]]"

fun strip_one :: "string list \<Rightarrow> string \<Rightarrow> string option" where
  "strip_one [] s = None"
| "strip_one (p # ps) s = (if p \<noteq> [] \<and> prefix p s then Some (drop (length p) s) else strip_one ps s)"

lemma strip_one_shorter: "strip_one ps s = Some s' \<Longrightarrow> length s' < length s"
  by (induction ps s rule: strip_one.induct)
    (auto split: if_splits simp: prefix_def)

function strip_all :: "string list \<Rightarrow> string \<Rightarrow> string" where
  "strip_all ps s = (case strip_one ps s of None \<Rightarrow> s | Some s' \<Rightarrow> strip_all ps s')"
  by pat_completeness auto
termination by (relation "measure (length \<circ> snd)") (auto dest: strip_one_shorter)

declare strip_all.simps [simp del]

definition trim_left :: "string \<Rightarrow> string" where
  "trim_left s = strip_all space_seqs s"

definition trim_right :: "string \<Rightarrow> string" where
  "trim_right s = rev (strip_all (map rev space_seqs) (rev s))"

definition TrimSpace :: "string \<Rightarrow> string" where
  "TrimSpace s = trim_right (trim_left s)"

definition printable :: "char \<Rightarrow> bool" where
  "printable c \<longleftrightarrow> 32 < byte c \<and> byte c < 128"

subsection \<open>Letter case\<close>

text \<open>
  \<open>strings.EqualFold\<close> compares the strings rune by rune, up to the orbits of
  \<open>unicode.SimpleFold\<close>; \<open>strings.ToUpper\<close> maps the letters of an ASCII string and uses the
  Unicode tables on any other. The orbits of the ASCII letters are written out (two of them have a
  member outside ASCII, the Kelvin sign and the long s); what the Unicode tables say of the other
  runes, a representative of each orbit and the upper case of a string, is a parameter.
\<close>

record unicode_tables =
  orbit :: "nat \<Rightarrow> nat"
  upper :: "string \<Rightarrow> string"

definition fold_rune :: "unicode_tables \<Rightarrow> nat \<Rightarrow> nat" where
  "fold_rune u r = (if 97 \<le> r \<and> r \<le> 122 then r - 32 else if r = 8490 then 75 else if r = 383 then 83
     else if r < 128 then r else orbit u r)"

definition EqualFold :: "unicode_tables \<Rightarrow> string \<Rightarrow> string \<Rightarrow> bool" where
  "EqualFold u s t \<longleftrightarrow> map (fold_rune u) (runes s) = map (fold_rune u) (runes t)"

definition ToUpper :: "unicode_tables \<Rightarrow> string \<Rightarrow> string" where
  "ToUpper u s = (if list_all (\<lambda>c. byte c < 128) s
     then map (\<lambda>c. if between 97 122 c then char_of (byte c - 32) else c) s
     else upper u s)"

subsection \<open>Integers and hexadecimal\<close>

text \<open>Lower-case hexadecimal digits: \<open>hex.EncodeToString\<close>.\<close>

definition hex_digit :: "nat \<Rightarrow> char" where
  "hex_digit n = char_of (if n < 10 then 48 + n else 87 + n)"

definition hex_encode :: "8 word list \<Rightarrow> string" where
  "hex_encode bs = concat (map (\<lambda>b. [hex_digit (unat b div 16), hex_digit (unat b mod 16)]) bs)"

definition is_digit :: "char \<Rightarrow> bool" where
  "is_digit c \<longleftrightarrow> between 48 57 c"

definition digits_value :: "string \<Rightarrow> int" where
  "digits_value ds = foldl (\<lambda>n d. 10 * n + (int (byte d) - 48)) 0 ds"

text \<open>\<open>strconv.ParseInt(s, 10, 64)\<close>; \<open>None\<close> for a syntax or a range error.\<close>

definition parse_int64 :: "string \<Rightarrow> int option" where
  "parse_int64 s =
     (let (neg, ds) = (case s of
            c # cs \<Rightarrow> if c = CHR ''-'' then (True, cs) else if c = CHR ''+'' then (False, cs) else (False, s)
          | [] \<Rightarrow> (False, []));
          v = (if neg then - digits_value ds else digits_value ds) in
      if ds = [] \<or> \<not> list_all is_digit ds then None
      else if in_int64 v then Some v else None)"

text \<open>\<open>strconv.Itoa\<close> on a natural number and on an integer.\<close>

function itoa_nat :: "nat \<Rightarrow> string" where
  "itoa_nat n = (if n < 10 then [char_of (48 + n)] else itoa_nat (n div 10) @ [char_of (48 + n mod 10)])"
  by pat_completeness auto
termination by (relation "measure id") auto

declare itoa_nat.simps [simp del]

definition itoa :: "int \<Rightarrow> string" where
  "itoa i = (if i < 0 then ''-'' @ itoa_nat (nat (- i)) else itoa_nat (nat i))"


section \<open>Lemmas\<close>

subsection \<open>Trimming\<close>

lemma strip_one_None_iff: "strip_one ps s = None \<longleftrightarrow> (\<forall>p \<in> set ps. p = [] \<or> \<not> prefix p s)"
  by (induction ps s rule: strip_one.induct) auto

lemma strip_all_stops: "strip_one ps (strip_all ps s) = None"
proof (induction ps s rule: strip_all.induct)
  case (1 ps s)
  then show ?case
    by (cases "strip_one ps s") (simp_all add: strip_all.simps [of ps s])
qed

lemma strip_all_fixed: "strip_one ps s = None \<Longrightarrow> strip_all ps s = s"
  by (simp add: strip_all.simps)

lemma strip_all_idem [simp]: "strip_all ps (strip_all ps s) = strip_all ps s"
  by (rule strip_all_fixed) (rule strip_all_stops)

lemma strip_one_suffix: "strip_one ps s = Some s' \<Longrightarrow> suffix s' s"
  by (induction ps s rule: strip_one.induct) (auto split: if_splits simp: suffix_drop)

lemma strip_all_suffix: "suffix (strip_all ps s) s"
proof (induction ps s rule: strip_all.induct)
  case (1 ps s)
  then show ?case
    by (cases "strip_one ps s")
      (auto simp: strip_all.simps [of ps s] dest: strip_one_suffix intro: suffix_order.trans)
qed

lemma trim_right_prefix: "prefix (trim_right s) s"
  using strip_all_suffix [of "map rev space_seqs" "rev s"]
  by (simp add: trim_right_def suffix_to_prefix)

lemma strip_one_prefix_None:
  "prefix t s \<Longrightarrow> strip_one ps s = None \<Longrightarrow> strip_one ps t = None"
  by (auto simp: strip_one_None_iff intro: prefix_order.trans)

lemma TrimSpace_idem [simp]: "TrimSpace (TrimSpace s) = TrimSpace s"
proof -
  have "strip_one space_seqs (trim_left s) = None"
    by (simp add: trim_left_def strip_all_stops)
  then have "strip_one space_seqs (TrimSpace s) = None"
    unfolding TrimSpace_def using trim_right_prefix by (rule strip_one_prefix_None [rotated])
  then have "trim_left (TrimSpace s) = TrimSpace s"
    by (simp add: trim_left_def strip_all_fixed)
  then show ?thesis by (simp add: TrimSpace_def trim_right_def)
qed

lemma TrimSpace_Nil [simp]: "TrimSpace [] = []"
  by (simp add: TrimSpace_def trim_left_def trim_right_def strip_all_fixed strip_one_None_iff)

lemma space_seqs_ends: "\<forall>p \<in> set space_seqs. p \<noteq> [] \<and> \<not> printable (hd p) \<and> \<not> printable (last p)"
  by (simp add: space_seqs_def printable_def of_char_of)

lemma strip_all_printable:
  assumes "\<forall>p \<in> set ps. p \<noteq> [] \<and> \<not> printable (hd p)" and "s \<noteq> []" and "printable (hd s)"
  shows "strip_all ps s = s"
proof (rule strip_all_fixed)
  show "strip_one ps s = None"
    unfolding strip_one_None_iff
  proof
    fix p assume "p \<in> set ps"
    then have p: "p \<noteq> []" "\<not> printable (hd p)" using assms(1) by auto
    have "\<not> prefix p s"
    proof
      assume "prefix p s"
      then have "hd p = hd s" using p(1) by (auto simp: prefix_def)
      with p assms(3) show False by simp
    qed
    then show "p = [] \<or> \<not> prefix p s" ..
  qed
qed

lemma TrimSpace_printable:
  assumes "s \<noteq> []" and "printable (hd s)" and "printable (last s)"
  shows "TrimSpace s = s"
proof -
  have "trim_left s = s"
    unfolding trim_left_def by (rule strip_all_printable) (use assms space_seqs_ends in auto)
  moreover have "strip_all (map rev space_seqs) (rev s) = rev s"
    by (rule strip_all_printable) (use assms space_seqs_ends in \<open>auto simp: hd_rev\<close>)
  ultimately show ?thesis by (simp add: TrimSpace_def trim_right_def)
qed

lemma length_TrimSpace: "length (TrimSpace s) \<le> length s"
proof -
  have "length (trim_right t) \<le> length t" for t
    using trim_right_prefix by (rule prefix_length_le)
  moreover have "length (trim_left s) \<le> length s"
    unfolding trim_left_def by (rule suffix_length_le) (rule strip_all_suffix)
  ultimately show ?thesis unfolding TrimSpace_def using le_trans by blast
qed

subsection \<open>Integers\<close>

lemma length_hex_encode [simp]: "length (hex_encode bs) = 2 * length bs"
  by (induction bs) (simp_all add: hex_encode_def)

lemma digits_value_snoc [simp]: "digits_value (ds @ [d]) = 10 * digits_value ds + (int (byte d) - 48)"
  by (simp add: digits_value_def)

lemma itoa_nat_digits: "list_all is_digit (itoa_nat n)"
proof (induction n rule: itoa_nat.induct)
  case (1 n)
  then show ?case
    by (subst itoa_nat.simps) (auto simp: is_digit_def [abs_def] between_def of_char_of)
qed

lemma itoa_nat_value: "digits_value (itoa_nat n) = int n"
proof (induction n rule: itoa_nat.induct)
  case (1 n)
  show ?case
  proof (cases "n < 10")
    case True
    then show ?thesis by (subst itoa_nat.simps) (simp add: digits_value_def of_char_of)
  next
    case False
    with 1 have "digits_value (itoa_nat n) = 10 * int (n div 10) + int (n mod 10)"
      by (subst itoa_nat.simps) (simp add: of_char_of)
    then show ?thesis by presburger
  qed
qed

lemma itoa_nat_nonempty [simp]: "itoa_nat n \<noteq> []"
  by (subst itoa_nat.simps) simp

lemma parse_itoa: "in_int64 i \<Longrightarrow> parse_int64 (itoa i) = Some i"
proof -
  assume i: "in_int64 i"
  have "c \<noteq> CHR ''-'' \<and> c \<noteq> CHR ''+''" if "itoa_nat n = c # cs" for n c cs
    using itoa_nat_digits [of n] that by (auto simp: is_digit_def between_def)
  note no_sign = this
  show ?thesis
    using i no_sign [of "nat i"] itoa_nat_digits [of "nat (- i)"] itoa_nat_value [of "nat (- i)"]
      itoa_nat_digits [of "nat i"] itoa_nat_value [of "nat i"]
    by (cases "itoa_nat (nat i)"; cases "i < 0") (simp_all add: parse_int64_def itoa_def)
qed

end
