(* ===== verification/Runtime.thy ===== *)
theory Runtime
  imports Go_Strings
begin

text \<open>
  \<open>common/runtime\<close>: the error vocabulary every backend adapter speaks (\<open>errors.go\<close>) and the
  evidence-backed capability sets (\<open>capability.go\<close>) that decide which candidate may serve a
  request.

  A Go \<open>error\<close> is a value of \<open>go_error\<close>: what \<open>errors.As\<close> and \<open>errors.Is\<close> can
  tell apart, with the wrapping chain already followed. A nil error is \<open>None\<close>.
\<close>


section \<open>Definitions\<close>

subsection \<open>errors.go\<close>

datatype error_code =
  ErrorInvalidConfig | ErrorConnection | ErrorProbeMismatch | ErrorUnauthorized | ErrorCapability
| ErrorRateLimited | ErrorTimeout | ErrorUpstream | ErrorProtocol | ErrorResponseTooLarge
| ErrorCancelUnsupported | ErrorClosed | ErrorBackpressure

datatype sentinel =
  ErrFactoryAlreadyRegistered | ErrRuntimeKindUnsupported | ErrRuntimeIDDuplicated
| ErrRuntimeNotFound | ErrCancelUnsupported | ErrCapabilityUnknown | ErrCapabilityUnsupported
| ErrConcurrencyLimit | ErrRuntimeClosed
| ContextCanceled | ContextDeadlineExceeded

text \<open>
  \<open>RuntimeError\<close>. \<open>Cause\<close> is kept when it is one of the package's sentinels or one of the two
  errors of a context; the captured upstream response plays no part in any decision modelled here and is
  added where it is carried over the tunnel.
\<close>

record runtime_error =
  err_Code :: error_code
  err_RuntimeID :: string
  err_Kind :: string
  err_Operation :: string
  err_StatusCode :: int
  err_Message :: string
  err_Retryable :: bool
  err_RetryAfter :: duration
  err_Cause :: "sentinel option"

definition zero_runtime_error :: "error_code \<Rightarrow> runtime_error" where
  "zero_runtime_error c =
     \<lparr>err_Code = c, err_RuntimeID = [], err_Kind = [], err_Operation = [], err_StatusCode = 0,
      err_Message = [], err_Retryable = False, err_RetryAfter = 0, err_Cause = None\<rparr>"

datatype go_error =
  RuntimeErr runtime_error
| ErrNoCapableNode | ErrModelNotAllowed | ErrNodeNotAllowed
| CtxCanceled | CtxDeadlineExceeded | IoEOF
| OtherErr string

fun as_runtime_error :: "go_error \<Rightarrow> runtime_error option" where
  "as_runtime_error (RuntimeErr e) = Some e"
| "as_runtime_error _ = None"

definition ErrorCodeFromStatus :: "int \<Rightarrow> error_code" where
  "ErrorCodeFromStatus status =
     (if status = 401 \<or> status = 403 then ErrorUnauthorized
      else if status = 429 then ErrorRateLimited
      else if status \<ge> 500 then ErrorUpstream
      else ErrorProtocol)"

definition maxRetryAfter :: duration where
  "maxRetryAfter = 24 * hour"

definition ParseRetryAfter :: "string \<Rightarrow> duration" where
  "ParseRetryAfter value =
     (case parse_int64 (TrimSpace value) of
        None \<Rightarrow> 0
      | Some seconds \<Rightarrow>
          if seconds \<le> 0 \<or> seconds > quo maxRetryAfter second then 0
          else wrap64 (seconds * second))"

subsection \<open>capability.go\<close>

type_synonym capability = string

definition CapabilityMessages :: capability where "CapabilityMessages = ''anthropic_messages''"
definition CapabilityMessagesNative :: capability where "CapabilityMessagesNative = ''anthropic_messages_native''"
definition CapabilityChat :: capability where "CapabilityChat = ''chat''"
definition CapabilityChatStream :: capability where "CapabilityChatStream = ''chat_stream''"
definition CapabilityEmbeddings :: capability where "CapabilityEmbeddings = ''embeddings''"
definition CapabilityVision :: capability where "CapabilityVision = ''vision''"
definition CapabilityTools :: capability where "CapabilityTools = ''tools''"
definition CapabilityWorkflowExecution :: capability where "CapabilityWorkflowExecution = ''workflow_execution''"
definition CapabilityAudioTranscription :: capability where "CapabilityAudioTranscription = ''audio_transcription''"
definition CapabilityRerank :: capability where "CapabilityRerank = ''rerank''"
definition CapabilityDocumentInput :: capability where "CapabilityDocumentInput = ''document_input''"
definition CapabilityAudioInput :: capability where "CapabilityAudioInput = ''audio_input''"
definition CapabilityImageGeneration :: capability where "CapabilityImageGeneration = ''image_generation''"

datatype capability_source =
  NoSource | SourceEndpoint | SourceModelMetadata | SourceRuntimeProfile | SourceConfigOverride

fun sourcePriority :: "capability_source \<Rightarrow> nat" where
  "sourcePriority SourceConfigOverride = 4"
| "sourcePriority SourceEndpoint = 3"
| "sourcePriority SourceModelMetadata = 2"
| "sourcePriority SourceRuntimeProfile = 1"
| "sourcePriority NoSource = 0"

fun source_string :: "capability_source \<Rightarrow> string" where
  "source_string SourceConfigOverride = ''config_override''"
| "source_string SourceEndpoint = ''endpoint''"
| "source_string SourceModelMetadata = ''model_metadata''"
| "source_string SourceRuntimeProfile = ''runtime_profile''"
| "source_string NoSource = ''''"

datatype support_level = SupportUnknown | SupportSupported | SupportUnsupported

fun level_string :: "support_level \<Rightarrow> string" where
  "level_string SupportUnknown = ''unknown''"
| "level_string SupportSupported = ''supported''"
| "level_string SupportUnsupported = ''unsupported''"

fun levelRank :: "support_level \<Rightarrow> nat" where
  "levelRank SupportUnsupported = 2"
| "levelRank SupportSupported = 1"
| "levelRank SupportUnknown = 0"

record capability_evidence =
  ev_Capability :: capability
  ev_Level :: support_level
  ev_Source :: capability_source
  ev_Detail :: string

text \<open>A \<open>CapabilitySet\<close> is ranged over by \<open>Merge\<close> and \<open>Intersect\<close>.\<close>

type_synonym capability_set = "(capability \<times> capability_evidence) list"

definition Resolve :: "capability_set \<Rightarrow> capability \<Rightarrow> capability_evidence" where
  "Resolve s c = (case map_of s c of
       Some ev \<Rightarrow> ev
     | None \<Rightarrow> \<lparr>ev_Capability = c, ev_Level = SupportUnknown, ev_Source = NoSource, ev_Detail = []\<rparr>)"

text \<open>\<open>%q\<close> of a capability name, all of which are letters and underscores.\<close>

definition quoted :: "string \<Rightarrow> string" where
  "quoted s = CHR 0x22 # s @ [CHR 0x22]"

definition Require :: "capability_set \<Rightarrow> capability \<Rightarrow> go_error option" where
  "Require s c = (case ev_Level (Resolve s c) of
       SupportSupported \<Rightarrow> None
     | SupportUnsupported \<Rightarrow> Some (RuntimeErr ((zero_runtime_error ErrorCapability)
         \<lparr>err_Operation := ''capability_check'',
          err_Message := ''capability '' @ quoted c @ '' is not supported'',
          err_Cause := Some ErrCapabilityUnsupported\<rparr>))
     | SupportUnknown \<Rightarrow> Some (RuntimeErr ((zero_runtime_error ErrorCapability)
         \<lparr>err_Operation := ''capability_check'',
          err_Message := ''capability '' @ quoted c @ '' support is unknown'',
          err_Cause := Some ErrCapabilityUnknown\<rparr>)))"

definition resolveConflict ::
  "capability \<Rightarrow> capability_evidence \<Rightarrow> capability_evidence \<Rightarrow> capability_evidence" where
  "resolveConflict cap a b =
     (if ev_Level a = ev_Level b then a
      else let winner = (if levelRank (ev_Level b) > levelRank (ev_Level a) then b else a) in
        winner\<lparr>ev_Detail := ''conflicting '' @ source_string (ev_Source winner) @ '' evidence for ''
          @ quoted cap @ '': '' @ level_string (ev_Level a) @ '' vs '' @ level_string (ev_Level b)
          @ ''; resolved to '' @ level_string (ev_Level winner) @ '' (conservative)''\<rparr>)"

type_synonym merge_state = "capability_set \<times> (capability \<rightharpoonup> nat)"

definition merge_one :: "capability \<times> capability_evidence \<Rightarrow> merge_state \<Rightarrow> merge_state" where
  "merge_one entry st =
     (case entry of (cap, ev) \<Rightarrow> case st of (merged, rank) \<Rightarrow>
        (case map_of merged cap of
           None \<Rightarrow> (AList.update cap ev merged, rank(cap \<mapsto> sourcePriority (ev_Source ev)))
         | Some cur \<Rightarrow>
             let curRank = (case rank cap of None \<Rightarrow> 0 | Some r \<Rightarrow> r);
                 evRank = sourcePriority (ev_Source ev) in
             if evRank > curRank then (AList.update cap ev merged, rank(cap \<mapsto> evRank))
             else if evRank < curRank then (merged, rank)
             else (AList.update cap (resolveConflict cap cur ev) merged, rank)))"

definition Merge :: "capability_set list \<Rightarrow> capability_set" where
  "Merge sets = fst (fold (\<lambda>set st. fold merge_one set st) sets ([], Map.empty))"

fun intersect_model :: "capability_set \<Rightarrow> capability_set \<Rightarrow> capability_set \<Rightarrow> capability_set" where
  "intersect_model runtimeCaps [] result = result"
| "intersect_model runtimeCaps ((cap, modelEv) # rest) result =
     intersect_model runtimeCaps rest
       (case map_of runtimeCaps cap of
          Some runtimeEv \<Rightarrow>
            if ev_Level runtimeEv = SupportUnsupported then AList.update cap runtimeEv result
            else AList.update cap modelEv result
        | None \<Rightarrow> AList.update cap modelEv result)"

fun intersect_runtime :: "capability_set \<Rightarrow> capability_set \<Rightarrow> capability_set" where
  "intersect_runtime [] result = result"
| "intersect_runtime ((cap, runtimeEv) # rest) result =
     intersect_runtime rest
       (if map_of result cap = None then AList.update cap runtimeEv result else result)"

definition Intersect :: "capability_set \<Rightarrow> capability_set \<Rightarrow> capability_set" where
  "Intersect runtimeCaps modelCaps =
     intersect_runtime runtimeCaps (intersect_model runtimeCaps modelCaps [])"

subsection \<open>Specification of a merge\<close>

text \<open>
  What two pieces of evidence are ranked by: the trust in their source first, then the more
  conservative level. \<open>evidence_for\<close> collects everything the sets say about a capability.
\<close>

definition merge_key :: "capability_evidence \<Rightarrow> nat" where
  "merge_key ev = 3 * sourcePriority (ev_Source ev) + levelRank (ev_Level ev)"

definition evidence_for :: "capability_set list \<Rightarrow> capability \<Rightarrow> capability_evidence set" where
  "evidence_for sets c = {ev. \<exists>s \<in> set sets. (c, ev) \<in> set s}"

text \<open>The state of a merge after some entries agrees with what those entries say.\<close>

definition merge_ok :: "(capability \<times> capability_evidence) set \<Rightarrow> merge_state \<Rightarrow> bool" where
  "merge_ok E st \<longleftrightarrow> (\<forall>c. case map_of (fst st) c of
       None \<Rightarrow> \<forall>e. (c, e) \<notin> E
     | Some m \<Rightarrow> snd st c = Some (sourcePriority (ev_Source m))
         \<and> (\<exists>e. (c, e) \<in> E \<and> merge_key e = merge_key m)
         \<and> (\<forall>e. (c, e) \<in> E \<longrightarrow> merge_key e \<le> merge_key m))"

definition tools_evidence :: "support_level \<Rightarrow> capability_source \<Rightarrow> capability_evidence" where
  "tools_evidence l src = \<lparr>ev_Capability = CapabilityTools, ev_Level = l, ev_Source = src, ev_Detail = []\<rparr>"


section \<open>Lemmas\<close>

lemma levelRank_le [simp]: "levelRank l \<le> 2" by (cases l) simp_all

lemma levelRank_inject [simp]: "levelRank a = levelRank b \<longleftrightarrow> a = b"
  by (cases a; cases b) simp_all

lemma resolveConflict_key:
  assumes "sourcePriority (ev_Source a) = sourcePriority (ev_Source b)"
  shows "merge_key (resolveConflict c a b) = max (merge_key a) (merge_key b)"
    and "sourcePriority (ev_Source (resolveConflict c a b)) = sourcePriority (ev_Source a)"
  using assms by (auto simp: resolveConflict_def merge_key_def Let_def max_def)

lemma merge_key_less:
  "sourcePriority (ev_Source a) < sourcePriority (ev_Source b) \<Longrightarrow> merge_key a < merge_key b"
  unfolding merge_key_def using levelRank_le [of "ev_Level a"] by linarith

lemma merge_one_ok:
  assumes ok: "merge_ok E st"
  shows "merge_ok (insert (c, e) E) (merge_one (c, e) st)"
proof -
  obtain merged rank where st: "st = (merged, rank)" by (cases st)
  have other: "merge_one (c, e) st = (m', r') \<Longrightarrow> d \<noteq> c \<Longrightarrow>
      map_of m' d = map_of merged d \<and> r' d = rank d" for m' r' d
    by (auto simp: merge_one_def st Let_def split: option.splits if_splits)
  have here: "case map_of (fst (merge_one (c, e) st)) c of None \<Rightarrow> False
    | Some m \<Rightarrow> snd (merge_one (c, e) st) c = Some (sourcePriority (ev_Source m))
         \<and> (\<exists>x. (c, x) \<in> insert (c, e) E \<and> merge_key x = merge_key m)
         \<and> (\<forall>x. (c, x) \<in> insert (c, e) E \<longrightarrow> merge_key x \<le> merge_key m)"
  proof (cases "map_of merged c")
    case None
    with ok have "(c, x) \<notin> E" for x by (auto simp: merge_ok_def st dest!: spec [of _ c])
    with None show ?thesis by (simp add: merge_one_def st)
  next
    case (Some cur)
    with ok have r: "rank c = Some (sourcePriority (ev_Source cur))"
      and ex: "\<exists>x. (c, x) \<in> E \<and> merge_key x = merge_key cur"
      and all: "\<forall>x. (c, x) \<in> E \<longrightarrow> merge_key x \<le> merge_key cur"
      by (auto simp: merge_ok_def st dest!: spec [of _ c])
    consider (gt) "sourcePriority (ev_Source e) > sourcePriority (ev_Source cur)"
      | (lt) "sourcePriority (ev_Source e) < sourcePriority (ev_Source cur)"
      | (eq) "sourcePriority (ev_Source cur) = sourcePriority (ev_Source e)"
      by linarith
    then show ?thesis
    proof cases
      case gt
      then have "merge_key cur < merge_key e" by (rule merge_key_less)
      with all have "(c, x) \<in> E \<Longrightarrow> merge_key x \<le> merge_key e" for x by fastforce
      with gt Some r show ?thesis by (auto simp: merge_one_def st)
    next
      case lt
      then have "merge_key e < merge_key cur" by (rule merge_key_less)
      with lt Some r ex all show ?thesis by (auto simp: merge_one_def st)
    next
      case eq
      from ex all resolveConflict_key(1) [OF eq, of c] have
        "(\<exists>x. (c, x) \<in> insert (c, e) E \<and> merge_key x = merge_key (resolveConflict c cur e))"
        "(\<forall>x. (c, x) \<in> insert (c, e) E \<longrightarrow> merge_key x \<le> merge_key (resolveConflict c cur e))"
        by (auto simp: max_def)
      with eq Some r resolveConflict_key(2) [OF eq, of c] show ?thesis
        by (auto simp: merge_one_def st)
    qed
  qed
  show ?thesis
    unfolding merge_ok_def
  proof
    fix d
    show "case map_of (fst (merge_one (c, e) st)) d of
       None \<Rightarrow> \<forall>x. (d, x) \<notin> insert (c, e) E
     | Some m \<Rightarrow> snd (merge_one (c, e) st) d = Some (sourcePriority (ev_Source m))
         \<and> (\<exists>x. (d, x) \<in> insert (c, e) E \<and> merge_key x = merge_key m)
         \<and> (\<forall>x. (d, x) \<in> insert (c, e) E \<longrightarrow> merge_key x \<le> merge_key m)"
    proof (cases "d = c")
      case True
      with here show ?thesis by (auto split: option.splits)
    next
      case False
      with ok other [OF prod.collapse [symmetric] False] show ?thesis
        by (auto simp: merge_ok_def st dest!: spec [of _ d] split: option.splits)
    qed
  qed
qed

lemma merge_set_ok:
  "merge_ok E st \<Longrightarrow> merge_ok (E \<union> set s) (fold merge_one s st)"
proof (induction s arbitrary: E st)
  case Nil
  then show ?case by simp
next
  case (Cons x s)
  from merge_one_ok [OF Cons.prems, of "fst x" "snd x"] Cons.IH [of "insert x E" "merge_one x st"]
  show ?case by simp
qed

lemma merge_sets_ok:
  "merge_ok E st \<Longrightarrow>
   merge_ok (E \<union> (\<Union>s \<in> set sets. set s)) (fold (\<lambda>s. fold merge_one s) sets st)"
proof (induction sets arbitrary: E st)
  case Nil
  then show ?case by simp
next
  case (Cons s sets)
  from Cons.IH [OF merge_set_ok [OF Cons.prems, of s]] show ?case by (simp add: Un_assoc)
qed

lemma map_of_intersect_model:
  assumes "wf_map modelCaps"
  shows "map_of (intersect_model r modelCaps res) c =
    (case map_of modelCaps c of
       None \<Rightarrow> map_of res c
     | Some m \<Rightarrow> Some (case map_of r c of
         Some re \<Rightarrow> if ev_Level re = SupportUnsupported then re else m | None \<Rightarrow> m))"
  using assms
  by (induction r modelCaps res rule: intersect_model.induct)
    (auto split: option.splits)

lemma map_of_intersect_runtime:
  "map_of (intersect_runtime r res) c =
    (case map_of res c of Some e \<Rightarrow> Some e | None \<Rightarrow> map_of r c)"
  by (induction r res rule: intersect_runtime.induct) (auto split: option.splits)


section \<open>Properties\<close>

text \<open>
  Merging capability evidence. For any number of sets in any order, \<open>Merge\<close> has an entry for a
  capability exactly when some input has one, and that entry carries the source priority and the
  level of the strongest evidence: the most trusted source wins, and among equally trusted
  evidence the most conservative level (unsupported over supported over unknown).
\<close>

theorem Merge_strongest:
  "case map_of (Merge sets) c of
     None \<Rightarrow> evidence_for sets c = {}
   | Some m \<Rightarrow> (\<exists>e \<in> evidence_for sets c. sourcePriority (ev_Source m) = sourcePriority (ev_Source e)
                  \<and> ev_Level m = ev_Level e \<and> (\<forall>e' \<in> evidence_for sets c. merge_key e' \<le> merge_key e))"
proof -
  have "merge_ok {} ([], Map.empty)" by (simp add: merge_ok_def)
  from merge_sets_ok [OF this, of sets]
  have ok: "case map_of (Merge sets) c of
       None \<Rightarrow> \<forall>e. e \<notin> evidence_for sets c
     | Some m \<Rightarrow> (\<exists>e \<in> evidence_for sets c. merge_key e = merge_key m)
         \<and> (\<forall>e \<in> evidence_for sets c. merge_key e \<le> merge_key m)"
    by (auto simp: merge_ok_def Merge_def evidence_for_def split: option.splits)
       (metis option.distinct(1) option.inject)+
  have key: "sourcePriority (ev_Source m) = sourcePriority (ev_Source e) \<and> ev_Level m = ev_Level e"
    if "merge_key e = merge_key m" for e m
  proof -
    have "levelRank (ev_Level e) < 3" and "levelRank (ev_Level m) < 3"
      by (cases "ev_Level e", simp_all) (cases "ev_Level m", simp_all)
    with that have "levelRank (ev_Level m) = levelRank (ev_Level e)
        \<and> sourcePriority (ev_Source m) = sourcePriority (ev_Source e)"
      unfolding merge_key_def by presburger
    then show ?thesis by simp
  qed
  show ?thesis
  proof (cases "map_of (Merge sets) c")
    case None
    with ok show ?thesis by auto
  next
    case (Some m)
    with ok obtain e where e: "e \<in> evidence_for sets c" "merge_key e = merge_key m"
      and "\<forall>e' \<in> evidence_for sets c. merge_key e' \<le> merge_key m" by auto
    with key [OF e(2)] Some show ?thesis by auto
  qed
qed

lemma merge_two_tools:
  "map_of (Merge [[(CapabilityTools, tools_evidence SupportSupported SourceEndpoint)],
        [(CapabilityTools, tools_evidence SupportUnsupported SourceRuntimeProfile)]]) CapabilityTools
     = Some (tools_evidence SupportSupported SourceEndpoint)"
  by (simp add: Merge_def merge_one_def tools_evidence_def)

theorem Merge_strongest_witness:
  "(\<exists>e \<in> evidence_for [[(CapabilityTools, tools_evidence SupportSupported SourceEndpoint)],
        [(CapabilityTools, tools_evidence SupportUnsupported SourceRuntimeProfile)]] CapabilityTools.
      ev_Level e = SupportSupported \<and> sourcePriority (ev_Source e) = 3)"
  using Merge_strongest [of "[[(CapabilityTools, tools_evidence SupportSupported SourceEndpoint)],
        [(CapabilityTools, tools_evidence SupportUnsupported SourceRuntimeProfile)]]" CapabilityTools]
  unfolding merge_two_tools option.case
  by (elim bexE) (rule bexI, simp_all add: tools_evidence_def)

text \<open>
  Intersecting a runtime's capabilities with a model's. A request passes the capability gate
  of the intersection exactly when the runtime does not say unsupported and the model says
  supported, or the model says nothing and the runtime says supported. In particular a capability
  the runtime cannot provide is never granted by a model's claim.
\<close>

theorem Intersect_gate:
  assumes "wf_map modelCaps"
  shows "Require (Intersect runtimeCaps modelCaps) c = None \<longleftrightarrow>
    (case map_of modelCaps c of
       Some m \<Rightarrow> ev_Level m = SupportSupported
                 \<and> ev_Level (Resolve runtimeCaps c) \<noteq> SupportUnsupported
     | None \<Rightarrow> ev_Level (Resolve runtimeCaps c) = SupportSupported)"
  using assms
  by (auto simp: Intersect_def map_of_intersect_runtime map_of_intersect_model Require_def
      Resolve_def split: option.splits support_level.splits if_splits)

theorem Intersect_gate_witness:
  "Require (Intersect [(CapabilityTools, tools_evidence SupportUnsupported SourceEndpoint)]
       [(CapabilityTools, tools_evidence SupportSupported SourceModelMetadata)]) CapabilityTools \<noteq> None"
  using Intersect_gate [of "[(CapabilityTools, tools_evidence SupportSupported SourceModelMetadata)]"
      "[(CapabilityTools, tools_evidence SupportUnsupported SourceEndpoint)]" CapabilityTools]
  by (simp add: wf_map_def Resolve_def tools_evidence_def)

end
