(* ===== verification/Breaker.thy ===== *)
theory Breaker
  imports Runtime
begin

text \<open>
  \<open>aiServeWeaveGateway/scheduler\<close>: the per-candidate circuit breaker and rate-limit cooldown
  (\<open>breaker.go\<close>) and the bookkeeping of skipped candidates (\<open>cooldown.go\<close>).

  The registry is an explicit state; the calls into the metrics recorder are returned as a list of
  events. The mutex makes every method atomic, so a concurrent execution is a sequence of calls.
\<close>


section \<open>Definitions\<close>

record candidate =
  NodeID :: string
  RuntimeID :: string
  Kind :: string
  Model :: string

subsection \<open>breaker.go\<close>

definition defaultFailureThreshold :: int where "defaultFailureThreshold = 5"
definition defaultBaseCooldown :: duration where "defaultBaseCooldown = 5 * second"
definition defaultMaxCooldown :: duration where "defaultMaxCooldown = 2 * minute"
definition defaultRateLimitCooldown :: duration where "defaultRateLimitCooldown = 30 * second"
definition defaultMaxRateLimitCooldown :: duration where "defaultMaxRateLimitCooldown = hour"

definition breakerFailure :: "go_error option \<Rightarrow> bool" where
  "breakerFailure err = (case Option.bind err as_runtime_error of
       None \<Rightarrow> False
     | Some rtErr \<Rightarrow> err_Code rtErr \<in> {ErrorConnection, ErrorTimeout, ErrorUpstream})"

record breaker_state =
  consecutiveFailures :: int
  tripCount :: int
  is_open :: bool
  openUntil :: go_time
  limitedUntil :: go_time

definition zero_breaker_state :: breaker_state where
  "zero_breaker_state = \<lparr>consecutiveFailures = 0, tripCount = 0, is_open = False, openUntil = 0,
     limitedUntil = 0\<rparr>"

record breaker_registry =
  failureThreshold :: int
  baseCooldown :: duration
  maxCooldown :: duration
  limitCooldown :: duration
  maxLimitCooldown :: duration
  entries :: "candidate \<rightharpoonup> breaker_state"

definition newBreakerRegistry :: "int \<Rightarrow> duration \<Rightarrow> duration \<Rightarrow> breaker_registry" where
  "newBreakerRegistry threshold base mx =
     (let threshold' = (if threshold \<le> 0 then defaultFailureThreshold else threshold);
          base' = (if base \<le> 0 then defaultBaseCooldown else base);
          mx1 = (if mx \<le> 0 then defaultMaxCooldown else mx);
          mx' = (if mx1 < base' then base' else mx1) in
      \<lparr>failureThreshold = threshold', baseCooldown = base', maxCooldown = mx',
       limitCooldown = defaultRateLimitCooldown, maxLimitCooldown = defaultMaxRateLimitCooldown,
       entries = Map.empty\<rparr>)"

definition withRateLimit :: "duration \<Rightarrow> duration \<Rightarrow> breaker_registry \<Rightarrow> breaker_registry" where
  "withRateLimit limitC maxLimitC r =
     (let r1 = (if limitC > 0 then r\<lparr>limitCooldown := limitC\<rparr> else r);
          r2 = (if maxLimitC > 0 then r1\<lparr>maxLimitCooldown := maxLimitC\<rparr> else r1) in
      r2\<lparr>maxLimitCooldown := max (maxLimitCooldown r2) (limitCooldown r2)\<rparr>)"

definition limited :: "breaker_registry \<Rightarrow> candidate \<Rightarrow> go_time \<Rightarrow> duration option" where
  "limited r c now = (case entries r c of
       None \<Rightarrow> None
     | Some st \<Rightarrow> if \<not> now < limitedUntil st then None
                 else Some (time_sub (limitedUntil st) now))"

definition limitWindow :: "breaker_registry \<Rightarrow> duration \<Rightarrow> duration" where
  "limitWindow r retryAfter =
     min (if retryAfter \<le> 0 then limitCooldown r else retryAfter) (maxLimitCooldown r)"

datatype breaker_event = BreakerTrip candidate | BreakerOpen candidate bool

definition eligible :: "breaker_registry \<Rightarrow> candidate \<Rightarrow> go_time \<Rightarrow> bool \<times> breaker_event list" where
  "eligible r c now = (case entries r c of
       None \<Rightarrow> (True, [])
     | Some st \<Rightarrow>
         if \<not> is_open st then (True, [])
         else if now < openUntil st then (False, [])
         else (True, [BreakerOpen c False]))"

definition cooldown :: "breaker_registry \<Rightarrow> int \<Rightarrow> duration" where
  "cooldown r trips =
     (let maxShift = 32;
          shift = min trips maxShift;
          d = wrap64 (baseCooldown r * 2 ^ nat shift) in
      if d \<le> 0 \<or> d > maxCooldown r then maxCooldown r else d)"

definition rateLimitedError :: "go_error option \<Rightarrow> duration option" where
  "rateLimitedError err = (case Option.bind err as_runtime_error of
       None \<Rightarrow> None
     | Some rtErr \<Rightarrow> if err_Code rtErr \<noteq> ErrorRateLimited then None else Some (err_RetryAfter rtErr))"

definition record_outcome ::
  "candidate \<Rightarrow> go_error option \<Rightarrow> go_time \<Rightarrow> breaker_registry \<Rightarrow> breaker_registry \<times> breaker_event list" where
  "record_outcome c err now r =
     (let put = (\<lambda>st. r\<lparr>entries := (entries r)(c \<mapsto> st)\<rparr>);
          get = (case entries r c of None \<Rightarrow> zero_breaker_state | Some st \<Rightarrow> st) in
      case rateLimitedError err of
        Some retryAfter \<Rightarrow>
          let st = get in
          (put (st\<lparr>consecutiveFailures := 0, tripCount := 0, is_open := False,
                   limitedUntil := time_add now (limitWindow r retryAfter)\<rparr>),
           if is_open st then [BreakerOpen c False] else [])
      | None \<Rightarrow>
          if \<not> breakerFailure err then
            (case entries r c of
               None \<Rightarrow> (r, [])
             | Some st \<Rightarrow>
                 let st' = st\<lparr>consecutiveFailures := 0, tripCount := 0, is_open := False\<rparr> in
                 (put (if err = None then st'\<lparr>limitedUntil := 0\<rparr> else st'),
                  if is_open st then [BreakerOpen c False] else []))
          else
            let st = get\<lparr>consecutiveFailures := consecutiveFailures get + 1\<rparr> in
            if consecutiveFailures st \<ge> failureThreshold r
            then (put (st\<lparr>is_open := True,
                          openUntil := time_add now (cooldown r (tripCount st)),
                          tripCount := tripCount st + 1\<rparr>),
                  [BreakerTrip c, BreakerOpen c True])
            else (put st, []))"

subsection \<open>cooldown.go\<close>

text \<open>\<open>cooledCandidates\<close> is the error kept for the candidate whose quota comes back first.\<close>

type_synonym cooled_candidates = "runtime_error option"

definition cooling_error :: "candidate \<Rightarrow> duration \<Rightarrow> runtime_error" where
  "cooling_error c remaining =
     (zero_runtime_error ErrorRateLimited)
       \<lparr>err_RuntimeID := RuntimeID c, err_Kind := Kind c, err_Operation := ''schedule'',
        err_Message := ''every candidate is cooling down after a rate limit'',
        err_Retryable := True, err_RetryAfter := remaining\<rparr>"

definition skipCooling ::
  "breaker_registry \<Rightarrow> go_time \<Rightarrow> candidate \<Rightarrow> cooled_candidates \<Rightarrow> bool \<times> cooled_candidates" where
  "skipCooling r now c cooled =
     (case limited r c now of
        None \<Rightarrow> (False, cooled)
      | Some remaining \<Rightarrow>
          (True, case cooled of
             None \<Rightarrow> Some (cooling_error c remaining)
           | Some earliest \<Rightarrow>
               if remaining < err_RetryAfter earliest then Some (cooling_error c remaining)
               else cooled))"

definition cooled_or :: "cooled_candidates \<Rightarrow> go_error option \<Rightarrow> go_error option" where
  "cooled_or cooled lastErr =
     (if lastErr \<noteq> None \<or> cooled = None then lastErr else map_option RuntimeErr cooled)"

subsection \<open>What the breaker promises\<close>

text \<open>
  The history of a registry is the list of outcomes recorded with it, latest first. \<open>streak\<close>
  counts the failures a candidate's history ends with; \<open>last_limit\<close> is the instant its last
  rate limit runs out, unless a success came after it.
\<close>

type_synonym history = "(candidate \<times> go_error option \<times> go_time) list"

fun streak :: "candidate \<Rightarrow> history \<Rightarrow> int" where
  "streak c [] = 0"
| "streak c ((d, err, t) # h) =
     (if d \<noteq> c then streak c h else if breakerFailure err then streak c h + 1 else 0)"

fun last_time :: "candidate \<Rightarrow> history \<Rightarrow> go_time" where
  "last_time c [] = 0"
| "last_time c ((d, err, t) # h) = (if d = c then t else last_time c h)"

fun last_limit :: "breaker_registry \<Rightarrow> candidate \<Rightarrow> history \<Rightarrow> go_time" where
  "last_limit r c [] = 0"
| "last_limit r c ((d, err, t) # h) =
     (if d \<noteq> c then last_limit r c h
      else case rateLimitedError err of
        Some ra \<Rightarrow> t + limitWindow r ra
      | None \<Rightarrow> if err = None then 0 else last_limit r c h)"

fun replay :: "breaker_registry \<Rightarrow> history \<Rightarrow> breaker_registry" where
  "replay r [] = r"
| "replay r ((c, err, t) # h) = fst (record_outcome c err t (replay r h))"

text \<open>The abstract state of a candidate: a function of its streak and of its last failure.\<close>

definition spec_state :: "breaker_registry \<Rightarrow> candidate \<Rightarrow> history \<Rightarrow> breaker_state \<Rightarrow> bool" where
  "spec_state r c h st \<longleftrightarrow>
     consecutiveFailures st = streak c h
     \<and> tripCount st = max 0 (streak c h - failureThreshold r + 1)
     \<and> is_open st = (failureThreshold r \<le> streak c h)
     \<and> (is_open st \<longrightarrow> openUntil st = last_time c h + cooldown r (streak c h - failureThreshold r))
     \<and> limitedUntil st = last_limit r c h"

subsection \<open>Concrete inputs\<close>

definition node_a :: candidate where
  "node_a = \<lparr>NodeID = ''a'', RuntimeID = ''r'', Kind = ''vllm'', Model = ''m''\<rparr>"

definition conn_error :: "go_error option" where
  "conn_error = Some (RuntimeErr (zero_runtime_error ErrorConnection))"

definition limit_error :: "duration \<Rightarrow> go_error option" where
  "limit_error d = Some (RuntimeErr ((zero_runtime_error ErrorRateLimited)\<lparr>err_RetryAfter := d\<rparr>))"


section \<open>Lemmas\<close>

subsection \<open>The cooldown\<close>

lemma newBreakerRegistry_simps [simp]:
  "entries (newBreakerRegistry n b m) = Map.empty"
  "0 < failureThreshold (newBreakerRegistry n b m)"
  "0 < baseCooldown (newBreakerRegistry n b m)"
  "0 < maxCooldown (newBreakerRegistry n b m)"
  by (auto simp: newBreakerRegistry_def Let_def defaultFailureThreshold_def
      defaultBaseCooldown_def defaultMaxCooldown_def second_def minute_def)

lemma cooldown_bounds: "0 < maxCooldown r \<Longrightarrow> 0 < cooldown r n \<and> cooldown r n \<le> maxCooldown r"
  by (auto simp: cooldown_def Let_def)

lemma cooldown_in_range:
  assumes "0 \<le> n" and "n \<le> 32" and "0 < baseCooldown r" and "in_int64 (baseCooldown r * 2 ^ nat n)"
  shows "cooldown r n = min (baseCooldown r * 2 ^ nat n) (maxCooldown r)"
  using assms by (auto simp: cooldown_def Let_def int64_simps mult_le_0_iff)

lemma cooldown_cap: "32 \<le> n \<Longrightarrow> cooldown r n = cooldown r 32"
  by (simp add: cooldown_def)

lemma cooldown_cong:
  "baseCooldown r = baseCooldown r' \<Longrightarrow> maxCooldown r = maxCooldown r' \<Longrightarrow> cooldown r n = cooldown r' n"
  by (simp add: cooldown_def Let_def)

subsection \<open>The registry refines the history\<close>

lemma record_config [frame_simps]:
  "failureThreshold (fst (record_outcome c err t r)) = failureThreshold r"
  "baseCooldown (fst (record_outcome c err t r)) = baseCooldown r"
  "maxCooldown (fst (record_outcome c err t r)) = maxCooldown r"
  "limitCooldown (fst (record_outcome c err t r)) = limitCooldown r"
  "maxLimitCooldown (fst (record_outcome c err t r)) = maxLimitCooldown r"
  by (auto simp: record_outcome_def Let_def split: option.splits)

lemma record_frame [frame_simps]:
  "d \<noteq> c \<Longrightarrow> entries (fst (record_outcome c err t r)) d = entries r d"
  by (auto simp: record_outcome_def Let_def split: option.splits)

lemma replay_config [frame_simps]:
  "failureThreshold (replay r h) = failureThreshold r"
  "baseCooldown (replay r h) = baseCooldown r"
  "maxCooldown (replay r h) = maxCooldown r"
  "limitCooldown (replay r h) = limitCooldown r"
  "maxLimitCooldown (replay r h) = maxLimitCooldown r"
  by (induction r h rule: replay.induct) (simp_all add: frame_simps)

lemma cooldown_replay [simp]: "cooldown (replay r h) n = cooldown r n"
  by (rule cooldown_cong) (simp_all add: frame_simps)

lemma limitWindow_replay [simp]: "limitWindow (replay r h) d = limitWindow r d"
  by (simp add: limitWindow_def frame_simps)

lemma streak_nonneg [simp]: "0 \<le> streak c h"
  by (induction c h rule: streak.induct) simp_all

lemma breakerFailure_None [simp]: "\<not> breakerFailure None"
  and rateLimitedError_None [simp]: "rateLimitedError None = None"
  by (simp_all add: breakerFailure_def rateLimitedError_def)

lemma rate_limited_not_failure: "rateLimitedError err = Some d \<Longrightarrow> \<not> breakerFailure err"
  by (auto simp: rateLimitedError_def breakerFailure_def split: option.splits if_splits)

lemma last_limit_le:
  "\<forall>(d, err, t) \<in> set h. t \<le> now \<Longrightarrow> last_limit r c h \<le> max 0 (now + maxLimitCooldown r)"
  by (induction r c h rule: last_limit.induct)
    (auto simp: limitWindow_def min_def max_def split: option.splits)

text \<open>The state a call reads: the stored one, or the zero state of a candidate not seen before.\<close>

lemma replay_refines:
  assumes "entries r = Map.empty" and "0 < failureThreshold r"
  shows "spec_state r c h (case entries (replay r h) c of None \<Rightarrow> zero_breaker_state | Some st \<Rightarrow> st)"
  using assms
proof (induction r h rule: replay.induct)
  case (1 r)
  then show ?case by (simp add: spec_state_def zero_breaker_state_def)
next
  case (2 r d err t h)
  then have IH: "spec_state r c h (case entries (replay r h) c of None \<Rightarrow> zero_breaker_state | Some st \<Rightarrow> st)"
    by blast
  show ?case
  proof (cases "d = c")
    case False
    with IH show ?thesis by (simp add: frame_simps spec_state_def)
  next
    case True
    have trip: "streak c h - failureThreshold r + 1 = streak c h + 1 - failureThreshold r" by simp
    note defs = record_outcome_def spec_state_def Let_def time_add_def zero_breaker_state_def
      replay_config trip
    show ?thesis
    proof (cases "rateLimitedError err")
      case (Some ra)
      with IH True 2(3) rate_limited_not_failure [OF Some] show ?thesis by (simp add: defs)
    next
      case None
      then show ?thesis
        using IH True 2(3)
        by (cases "breakerFailure err"; cases "err = None") (auto simp: defs split: option.splits)
    qed
  qed
qed


section \<open>Properties\<close>

text \<open>
  C40. The breaker is a function of the failure streak. After any interleaving of outcomes of any
  candidates, a candidate is excluded at an instant exactly when the failures its own history ends
  with have reached the threshold and the cooldown counted from the last of them has not run out;
  the cooldown is the one of the number of failures past the threshold. Successes, rate limits and
  every other answer end the streak, and outcomes of other candidates never matter.
\<close>

theorem breaker_excludes_iff:
  assumes "entries r = Map.empty" and "0 < failureThreshold r"
  shows "\<not> fst (eligible (replay r h) c now) \<longleftrightarrow>
    failureThreshold r \<le> streak c h
    \<and> now < last_time c h + cooldown r (streak c h - failureThreshold r)"
  using replay_refines [OF assms, of c h] assms(2)
  by (auto simp: eligible_def spec_state_def zero_breaker_state_def split: option.splits)

theorem breaker_excludes_iff_witness:
  "\<not> fst (eligible (replay (newBreakerRegistry 2 0 0) [(node_a, conn_error, 7), (node_a, conn_error, 6)])
      node_a 8)"
  using breaker_excludes_iff [of "newBreakerRegistry 2 0 0"
      "[(node_a, conn_error, 7), (node_a, conn_error, 6)]" node_a 8]
  by (simp add: conn_error_def breakerFailure_def zero_runtime_error_def cooldown_def
      newBreakerRegistry_def defaultBaseCooldown_def defaultMaxCooldown_def second_def minute_def
      wrap64_def)

text \<open>
  Exclusion is bounded. Whatever was recorded, once the maximum cooldown has passed since a
  candidate's last outcome, the breaker lets it be tried again: a broken node is probed forever
  and never banned.
\<close>

theorem breaker_probes_again:
  assumes "last_time c h + maxCooldown (newBreakerRegistry n b m) \<le> now"
  shows "fst (eligible (replay (newBreakerRegistry n b m) h) c now)"
proof -
  let ?r = "newBreakerRegistry n b m"
  have "cooldown ?r (streak c h - failureThreshold ?r) \<le> maxCooldown ?r"
    by (simp add: cooldown_bounds)
  with assms have "\<not> now < last_time c h + cooldown ?r (streak c h - failureThreshold ?r)" by linarith
  with replay_refines [of ?r c h] show ?thesis
    by (auto simp: eligible_def spec_state_def zero_breaker_state_def split: option.splits)
qed

theorem breaker_probes_again_witness:
  "fst (eligible (replay (newBreakerRegistry 1 0 0) [(node_a, conn_error, 7)]) node_a (7 + 2 * minute))"
  by (rule breaker_probes_again)
    (simp add: newBreakerRegistry_def defaultMaxCooldown_def defaultBaseCooldown_def minute_def second_def)

text \<open>
  Exponential backoff at the default settings: the n-th trip in a row excludes the candidate for
  five seconds doubled n times, never more than two minutes, for every n. The shift that computes it
  is past 63 bits for large n; the clamp on its wrapped result is what makes the formula hold.
\<close>

theorem cooldown_default:
  "cooldown (newBreakerRegistry th 0 0) (int n) = min (5 * second * 2 ^ n) (2 * minute)"
proof -
  let ?r = "newBreakerRegistry th 0 0"
  have base: "baseCooldown ?r = 5 * second" and mx: "maxCooldown ?r = 2 * minute"
    by (simp_all add: newBreakerRegistry_def defaultBaseCooldown_def defaultMaxCooldown_def
        second_def minute_def)
  have big: "min (5 * second * 2 ^ n) (2 * minute) = 2 * minute" if "5 \<le> n"
  proof -
    have "(2 :: int) ^ 5 \<le> 2 ^ n" using that by (intro power_increasing) simp_all
    then show ?thesis by (simp add: second_def minute_def)
  qed
  consider "n \<le> 30" | "n = 31" | "32 \<le> n" by linarith
  then show ?thesis
  proof cases
    case 1
    have "(2 :: int) ^ n \<le> 2 ^ 30" using 1 by (intro power_increasing) simp_all
    then have "in_int64 (baseCooldown ?r * 2 ^ nat (int n))"
      by (simp add: base second_def in_int64_def min_int64_def max_int64_def)
         (rule order_trans [of _ 0], simp_all)
    from cooldown_in_range [OF _ _ _ this] 1 show ?thesis by (simp add: base mx)
  next
    case 2
    have "cooldown ?r 31 = 2 * minute"
      by (simp add: cooldown_def base mx second_def minute_def wrap64_def)
    with 2 big show ?thesis by simp
  next
    case 3
    have "cooldown ?r 32 = 2 * minute"
      by (simp add: cooldown_def base mx second_def minute_def wrap64_def)
    with 3 big cooldown_cap [of "int n" ?r] show ?thesis by simp
  qed
qed

text \<open>
  The clamp is not enough for every configuration. With a base cooldown of 4294967297 ns the
  32nd trip in a row shifts the base out of 64 bits to a small positive number, and the candidate is
  excluded for 4.29 seconds although the first trips already reached the two-minute maximum.
\<close>

theorem cooldown_shift_wraps:
  "cooldown (newBreakerRegistry 0 4294967297 0) 5 = 2 * minute \<and>
   cooldown (newBreakerRegistry 0 4294967297 0) 32 = 4294967296"
  by (simp add: cooldown_def newBreakerRegistry_def defaultMaxCooldown_def second_def minute_def
      wrap64_def)

text \<open>
  Rate limits. A candidate is held back for its quota exactly until the end of the last
  rate-limit window that no success followed, and, as long as the clock does not run backwards, the
  remaining time it reports is never more than the configured maximum.
\<close>

theorem rate_limit_window:
  assumes "entries r = Map.empty" and "0 < failureThreshold r"
    and "0 \<le> now" and "\<forall>(d, err, t) \<in> set h. t \<le> now"
  shows "limited (replay r h) c now =
      (if now < last_limit r c h then Some (time_sub (last_limit r c h) now) else None)
    \<and> (now < last_limit r c h \<longrightarrow> time_sub (last_limit r c h) now \<le> maxLimitCooldown r)"
proof
  show "limited (replay r h) c now =
      (if now < last_limit r c h then Some (time_sub (last_limit r c h) now) else None)"
    using replay_refines [OF assms(1,2), of c h] assms(3)
    by (auto simp: limited_def spec_state_def zero_breaker_state_def split: option.splits)
  have "last_limit r c h \<le> max 0 (now + maxLimitCooldown r)"
    using last_limit_le [OF assms(4)] .
  then show "now < last_limit r c h \<longrightarrow> time_sub (last_limit r c h) now \<le> maxLimitCooldown r"
    using assms(3) time_sub_le_diff [of now "last_limit r c h"] by auto
qed

theorem rate_limit_window_witness:
  "limited (replay (newBreakerRegistry 0 0 0) [(node_a, limit_error (7 * second), 100)]) node_a 100
     = Some (7 * second) \<and>
   7 * second = time_sub (last_limit (newBreakerRegistry 0 0 0) node_a
     [(node_a, limit_error (7 * second), 100)]) 100"
proof -
  have l: "limited (replay (newBreakerRegistry 0 0 0) [(node_a, limit_error (7 * second), 100)]) node_a 100
     = Some (7 * second)"
    by (simp add: limited_def record_outcome_def rateLimitedError_def limit_error_def
        zero_runtime_error_def Let_def limitWindow_def newBreakerRegistry_def time_add_def
        defaultMaxRateLimitCooldown_def second_def minute_def hour_def time_sub_def min_int64_def max_int64_def)
  with rate_limit_window [of "newBreakerRegistry 0 0 0" 100 "[(node_a, limit_error (7 * second), 100)]" node_a]
  show ?thesis by (simp split: if_splits)
qed

end
