(* ===== verification/Access.thy ===== *)
theory Access
  imports Runtime
begin

text \<open>
  Who may use which model and which node: \<open>common/modelaccess\<close>, \<open>common/nodeaccess\<close>, and
  how the scheduler applies them to a request's context (\<open>scheduler/modelaccess.go\<close>,
  \<open>scheduler/nodeaccess.go\<close>).
\<close>


section \<open>Definitions\<close>

subsection \<open>common/modelaccess\<close>

definition MaxModels :: nat where "MaxModels = 1000"
definition MaxModelBytes :: nat where "MaxModelBytes = 256"

record model_policy =
  Platform :: "string list"
  Tenant :: "string list"

definition Unrestricted :: "model_policy \<Rightarrow> bool" where
  "Unrestricted p \<longleftrightarrow> length (Platform p) = 0 \<and> length (Tenant p) = 0"

definition listAllows :: "string list \<Rightarrow> string \<Rightarrow> bool" where
  "listAllows xs model \<longleftrightarrow> length xs = 0 \<or> List.member xs model"

definition Policy_Allows :: "model_policy \<Rightarrow> string \<Rightarrow> bool" where
  "Policy_Allows p model \<longleftrightarrow> listAllows (Platform p) model \<and> listAllows (Tenant p) model"

text \<open>
  The loop of \<open>Normalize\<close> and of \<open>NormalizeTenants\<close>: trim, validate, drop duplicates. The
  check is an argument, an error message or \<open>None\<close>. \<open>seen\<close> holds exactly the elements of
  \<open>out\<close>.
\<close>

fun normalize_loop :: "(string \<Rightarrow> string option) \<Rightarrow> string list \<Rightarrow> string list \<Rightarrow> string + string list" where
  "normalize_loop check [] out = Inr out"
| "normalize_loop check (raw # rest) out =
     (let x = TrimSpace raw in
      case check x of
        Some e \<Rightarrow> Inl e
      | None \<Rightarrow> if List.member out x then normalize_loop check rest out
                else normalize_loop check rest (out @ [x]))"

definition check_model :: "string \<Rightarrow> string option" where
  "check_model model =
     (if model = '''' then Some ''modelaccess: empty model name''
      else if length model > MaxModelBytes \<or> \<not> ValidString model
      then Some ''modelaccess: invalid model name''
      else None)"

definition Normalize :: "string list \<Rightarrow> string + string list" where
  "Normalize models = (case normalize_loop check_model models [] of
       Inl e \<Rightarrow> Inl e
     | Inr out \<Rightarrow> if length out > MaxModels then Inl ''modelaccess: too many models''
                  else Inr (sort out))"

subsection \<open>common/nodeaccess\<close>

definition MaxTenantsPerNode :: nat where "MaxTenantsPerNode = 64"
definition MaxIDBytes :: nat where "MaxIDBytes = 128"

record node_policy =
  Excluded :: "string list"

definition NodePolicy_Unrestricted :: "node_policy \<Rightarrow> bool" where
  "NodePolicy_Unrestricted p \<longleftrightarrow> length (Excluded p) = 0"

definition NodePolicy_Allows :: "node_policy \<Rightarrow> string \<Rightarrow> bool" where
  "NodePolicy_Allows p nodeID \<longleftrightarrow> \<not> List.member (Excluded p) nodeID"

record binding =
  bound_NodeID :: string
  bound_Tenants :: "string list"

fun excluded_nodes :: "binding list \<Rightarrow> string \<Rightarrow> string list" where
  "excluded_nodes [] tenantID = []"
| "excluded_nodes (b # bs) tenantID =
     (if length (bound_Tenants b) = 0 \<or> List.member (bound_Tenants b) tenantID
      then excluded_nodes bs tenantID
      else bound_NodeID b # excluded_nodes bs tenantID)"

definition PolicyFor :: "binding list \<Rightarrow> string \<Rightarrow> node_policy" where
  "PolicyFor bindings tenantID = \<lparr>Excluded = sort (excluded_nodes bindings tenantID)\<rparr>"

definition validID :: "string \<Rightarrow> bool" where
  "validID i \<longleftrightarrow> \<not> (i = '''' \<or> length i > MaxIDBytes \<or> \<not> ValidString i)
     \<and> \<not> list_ex (\<lambda>r. IsSpace r \<or> IsControl r) (runes i)"

definition check_tenant :: "string \<Rightarrow> string option" where
  "check_tenant tenant = (if \<not> validID tenant then Some ''nodeaccess: invalid tenant id'' else None)"

definition NormalizeTenants :: "string list \<Rightarrow> string + string list" where
  "NormalizeTenants tenants = (case normalize_loop check_tenant tenants [] of
       Inl e \<Rightarrow> Inl e
     | Inr out \<Rightarrow> if length out > MaxTenantsPerNode
                  then Inl ''nodeaccess: too many tenants for one node''
                  else Inr (sort out))"

definition TenantNodePrefix :: string where "TenantNodePrefix = ''tnode.''"
definition tenantNodeSuffixLen :: nat where "tenantNodeSuffixLen = 32"

fun lowerHex_loop :: "string \<Rightarrow> bool" where
  "lowerHex_loop [] = True"
| "lowerHex_loop (c # cs) =
     (if (byte c < 48 \<or> byte c > 57) \<and> (byte c < 97 \<or> byte c > 102) then False
      else lowerHex_loop cs)"

definition lowerHex :: "string \<Rightarrow> nat \<Rightarrow> bool" where
  "lowerHex s n = (if length s \<noteq> n then False else lowerHex_loop s)"

text \<open>
  \<open>NewTenantNodeID\<close> takes the sixteen bytes that \<open>crypto/rand\<close> delivers, or \<open>None\<close>
  when the random source fails.
\<close>

definition NewTenantNodeID :: "8 word list option \<Rightarrow> string \<Rightarrow> string + string" where
  "NewTenantNodeID random tenantID =
     (if \<not> validID tenantID \<or> List.member tenantID CHR ''.''
         \<or> length TenantNodePrefix + length tenantID + 1 + tenantNodeSuffixLen > MaxIDBytes
      then Inl ''nodeaccess: tenant id cannot own a node''
      else case random of
        None \<Rightarrow> Inl ''nodeaccess: random source failed''
      | Some bytes \<Rightarrow> Inr (TenantNodePrefix @ tenantID @ ''.'' @ hex_encode bytes))"

text \<open>\<open>strings.LastIndexByte\<close>, \<open>None\<close> for -1.\<close>

fun last_index :: "char \<Rightarrow> string \<Rightarrow> nat option" where
  "last_index c [] = None"
| "last_index c (d # ds) = (case last_index c ds of
       Some i \<Rightarrow> Some (Suc i)
     | None \<Rightarrow> if d = c then Some 0 else None)"

text \<open>\<open>OwnerOf\<close> answers the owner and whether the node is tenant-owned at all.\<close>

definition OwnerOf :: "string \<Rightarrow> string \<times> bool" where
  "OwnerOf nodeID =
     (if \<not> prefix TenantNodePrefix nodeID then ('''', False)
      else let rest = drop (length TenantNodePrefix) nodeID in
        if length nodeID > MaxIDBytes then ('''', True)
        else case last_index CHR ''.'' rest of
          None \<Rightarrow> ('''', True)
        | Some dot \<Rightarrow>
            if dot = 0 then ('''', True)
            else let tenant = take dot rest; suffx = drop (dot + 1) rest in
              if List.member tenant CHR ''.'' \<or> \<not> validID tenant \<or> \<not> lowerHex suffx tenantNodeSuffixLen
              then ('''', True)
              else (tenant, True))"

definition Permits :: "string \<Rightarrow> node_policy \<Rightarrow> string \<Rightarrow> bool" where
  "Permits tenantID policy nodeID =
     (case OwnerOf nodeID of (owner, owned) \<Rightarrow>
        if owned then owner \<noteq> '''' \<and> owner = tenantID else NodePolicy_Allows policy nodeID)"

subsection \<open>scheduler: the request context\<close>

text \<open>
  What the scheduler reads from a \<open>context.Context\<close>: the model policy, the caller's tenant with
  its node policy, the mark \<open>admitModel\<close> leaves, and the hash of the session key.
\<close>

record node_access =
  tenantID :: string
  policy :: node_policy

record request_ctx =
  modelAccess :: "model_policy option"
  nodeAccess :: "node_access option"
  ownNodesOnly :: bool
  sessionKey :: "64 word option"

definition WithModelAccess :: "request_ctx \<Rightarrow> model_policy \<Rightarrow> request_ctx" where
  "WithModelAccess ctx p = ctx\<lparr>modelAccess := Some p\<rparr>"

definition WithNodeAccess :: "request_ctx \<Rightarrow> string \<Rightarrow> node_policy \<Rightarrow> request_ctx" where
  "WithNodeAccess ctx tid p = ctx\<lparr>nodeAccess := Some \<lparr>tenantID = tid, policy = p\<rparr>\<rparr>"

definition modelAllowed :: "request_ctx \<Rightarrow> string \<Rightarrow> bool" where
  "modelAllowed ctx model = (case modelAccess ctx of None \<Rightarrow> True | Some p \<Rightarrow> Policy_Allows p model)"

definition admitModel :: "request_ctx \<Rightarrow> string \<Rightarrow> request_ctx \<times> bool" where
  "admitModel ctx model =
     (if modelAllowed ctx model then (ctx, True)
      else case nodeAccess ctx of
        None \<Rightarrow> (ctx, False)
      | Some access \<Rightarrow> if tenantID access = '''' then (ctx, False)
                       else (ctx\<lparr>ownNodesOnly := True\<rparr>, True))"

definition noCandidates :: "request_ctx \<Rightarrow> go_error" where
  "noCandidates ctx = (if ownNodesOnly ctx then ErrModelNotAllowed else ErrNoCapableNode)"

definition nodeAllowed :: "request_ctx \<Rightarrow> string \<Rightarrow> bool" where
  "nodeAllowed ctx nodeID = (case nodeAccess ctx of
       None \<Rightarrow> True
     | Some access \<Rightarrow>
         if ownNodesOnly ctx then
           (case OwnerOf nodeID of (owner, owned) \<Rightarrow> owned \<and> owner \<noteq> '''' \<and> owner = tenantID access)
         else Permits (tenantID access) (policy access) nodeID)"

subsection \<open>Concrete inputs\<close>

definition acme_node :: string where
  "acme_node = ''tnode.acme.00112233445566778899aabbccddeeff''"

definition empty_ctx :: request_ctx where
  "empty_ctx = \<lparr>modelAccess = None, nodeAccess = None, ownNodesOnly = False, sessionKey = None\<rparr>"


section \<open>Lemmas\<close>

subsection \<open>Normalization\<close>

lemma normalize_loop_spec:
  assumes "normalize_loop check xs out = Inr ys" and "distinct out"
  shows "distinct ys \<and> set ys = set out \<union> TrimSpace ` set xs
    \<and> (\<forall>x \<in> set xs. check (TrimSpace x) = None)"
  using assms
proof (induction check xs out rule: normalize_loop.induct)
  case (1 check out)
  then show ?case by simp
next
  case (2 check raw rest out)
  from 2(3) have c: "check (TrimSpace raw) = None"
    by (auto simp: Let_def split: option.splits)
  show ?case
  proof (cases "TrimSpace raw \<in> set out")
    case True
    with 2 c show ?thesis by (auto simp: Let_def)
  next
    case False
    with 2 c show ?thesis by (auto simp: Let_def)
  qed
qed

lemma normalize_loop_fixed:
  assumes "\<forall>x \<in> set xs. TrimSpace x = x \<and> check x = None" and "distinct (out @ xs)"
  shows "normalize_loop check xs out = Inr (out @ xs)"
  using assms
  by (induction check xs out rule: normalize_loop.induct) auto

lemma distinct_same_set_sort:
  "distinct xs \<Longrightarrow> distinct ys \<Longrightarrow> set xs = set ys \<Longrightarrow> sort xs = sort (ys :: 'a :: linorder list)"
  by (metis distinct_sort finite_set set_sort sorted_distinct_set_unique sorted_sort)

subsection \<open>Node ids\<close>

lemma set_excluded_nodes:
  "set (excluded_nodes bs t) =
     {bound_NodeID b | b. b \<in> set bs \<and> bound_Tenants b \<noteq> [] \<and> t \<notin> set (bound_Tenants b)}"
  by (induction bs t rule: excluded_nodes.induct) auto

lemma last_index_append:
  "c \<notin> set ys \<Longrightarrow> last_index c (xs @ c # ys) = Some (length xs)"
proof (induction xs)
  case Nil
  have "c \<notin> set zs \<Longrightarrow> last_index c zs = None" for zs
    by (induction zs) auto
  with Nil show ?case by simp
qed simp

lemma last_index_Some:
  "last_index c s = Some i \<Longrightarrow> i < length s \<and> s = take i s @ c # drop (Suc i) s"
  by (induction s arbitrary: i) (auto split: option.splits if_splits)

lemma byte_hex_digit: "n < 16 \<Longrightarrow> byte (hex_digit n) = (if n < 10 then 48 + n else 87 + n)"
  by (simp add: hex_digit_def of_char_of)

lemma hex_digit_lower: "n < 16 \<Longrightarrow> lowerHex_loop [hex_digit n] \<and> hex_digit n \<noteq> CHR ''.''"
  using byte_hex_digit [of n] by (auto split: if_splits)

lemma lowerHex_loop_append [simp]: "lowerHex_loop (s @ t) \<longleftrightarrow> lowerHex_loop s \<and> lowerHex_loop t"
  by (induction s) auto

lemma hex_encode_lower: "lowerHex_loop (hex_encode bs) \<and> CHR ''.'' \<notin> set (hex_encode bs)"
proof (induction bs)
  case Nil
  then show ?case by (simp add: hex_encode_def)
next
  case (Cons b bs)
  have "unat b div 16 < 16" and "unat b mod 16 < 16"
    using unsigned_less [of b, where ?'a = nat] by (simp_all add: less_mult_imp_div_less)
  note d = hex_digit_lower [OF this(1)] hex_digit_lower [OF this(2)]
  have "hex_encode (b # bs) = [hex_digit (unat b div 16)] @ [hex_digit (unat b mod 16)] @ hex_encode bs"
    by (simp add: hex_encode_def)
  with d Cons show ?case by (simp only: lowerHex_loop_append) auto
qed

lemma OwnerOf_empty_or_shape:
  assumes "OwnerOf n = (t, True)" and "t \<noteq> ''''"
  shows "\<exists>suffx. n = TenantNodePrefix @ t @ ''.'' @ suffx \<and> lowerHex suffx tenantNodeSuffixLen
    \<and> validID t \<and> CHR ''.'' \<notin> set t"
proof -
  from assms obtain rest dot where n: "n = TenantNodePrefix @ rest"
    and dot: "last_index CHR ''.'' rest = Some dot" and t: "t = take dot rest"
    and rest: "CHR ''.'' \<notin> set t" "validID t" "lowerHex (drop (dot + 1) rest) tenantNodeSuffixLen"
    by (auto simp: OwnerOf_def Let_def prefix_def split: if_splits option.splits)
  from last_index_Some [OF dot] have "rest = take dot rest @ ''.'' @ drop (dot + 1) rest" by simp
  with n t rest show ?thesis by metis
qed


section \<open>Properties\<close>

text \<open>
  Round trip of tenant-owned node ids. Every id that \<open>NewTenantNodeID\<close> mints, for whatever
  sixteen random bytes, is read back by \<open>OwnerOf\<close> as owned by exactly that tenant.
\<close>

theorem tenant_node_id_roundtrip:
  assumes "NewTenantNodeID (Some random) t = Inr n" and "length random = 16"
  shows "OwnerOf n = (t, True)"
proof -
  from assms(1) have n: "n = TenantNodePrefix @ t @ ''.'' @ hex_encode random"
    and valid: "validID t" and dot: "CHR ''.'' \<notin> set t"
    and len: "length TenantNodePrefix + length t + 1 + tenantNodeSuffixLen \<le> MaxIDBytes"
    by (auto simp: NewTenantNodeID_def split: if_splits)
  have t: "0 < length t" using valid by (auto simp: validID_def)
  have "lowerHex (hex_encode random) tenantNodeSuffixLen"
    using assms(2) hex_encode_lower by (simp add: lowerHex_def tenantNodeSuffixLen_def)
  with t valid dot len n assms(2) show ?thesis
    by (simp add: OwnerOf_def last_index_append hex_encode_lower tenantNodeSuffixLen_def)
qed

theorem tenant_node_id_roundtrip_witness:
  "OwnerOf (TenantNodePrefix @ ''acme'' @ ''.'' @ hex_encode (replicate 16 0)) = (''acme'', True)"
proof (rule tenant_node_id_roundtrip)
  show "NewTenantNodeID (Some (replicate 16 0)) ''acme'' =
      Inr (TenantNodePrefix @ ''acme'' @ ''.'' @ hex_encode (replicate 16 0))"
    by (simp add: NewTenantNodeID_def validID_def ValidString.simps runes.simps MaxIDBytes_def
        TenantNodePrefix_def tenantNodeSuffixLen_def IsSpace_def IsControl_def)
qed simp

text \<open>
  Ownership isolation. A node whose id carries the reserved prefix admits at most the one tenant
  named in it, whatever the node policy says: if two callers are both admitted they are the same
  tenant, and it is the tenant spelled out between the prefix and a 32-digit hexadecimal suffix. An
  id with the prefix that is otherwise malformed admits nobody.
\<close>

theorem owned_node_admits_only_owner:
  assumes "prefix TenantNodePrefix n"
  shows "Permits t p n \<longleftrightarrow> OwnerOf n = (t, True) \<and> t \<noteq> '''' \<and>
    (\<exists>suffx. n = TenantNodePrefix @ t @ ''.'' @ suffx \<and> lowerHex suffx tenantNodeSuffixLen)"
proof -
  have "snd (OwnerOf n)" using assms by (simp add: OwnerOf_def Let_def split: option.splits)
  then obtain owner where o: "OwnerOf n = (owner, True)" by (cases "OwnerOf n") auto
  with OwnerOf_empty_or_shape [OF o] show ?thesis by (auto simp: Permits_def)
qed

theorem owned_node_admits_only_owner_witness:
  "\<not> Permits ''mallory'' \<lparr>Excluded = []\<rparr> acme_node"
  using owned_node_admits_only_owner [of acme_node "''mallory''" "\<lparr>Excluded = []\<rparr>"]
  by (auto simp: acme_node_def TenantNodePrefix_def)

text \<open>
  Dedicated nodes. Under the policy derived from the stored bindings, a tenant may use a node
  that is not tenant-owned exactly when no binding closes it: every non-empty binding of that node
  names the tenant. Nodes without a binding stay open to everyone.
\<close>

theorem dedicated_node_admits_bound_tenants:
  assumes "\<not> prefix TenantNodePrefix n"
  shows "Permits t (PolicyFor bindings t) n \<longleftrightarrow>
    (\<forall>b \<in> set bindings. bound_NodeID b = n \<and> bound_Tenants b \<noteq> [] \<longrightarrow> t \<in> set (bound_Tenants b))"
proof -
  have "OwnerOf n = ('''', False)" using assms by (simp add: OwnerOf_def)
  then show ?thesis
    by (auto simp: Permits_def NodePolicy_Allows_def PolicyFor_def set_excluded_nodes)
qed

theorem dedicated_node_admits_bound_tenants_witness:
  "\<not> Permits ''b'' (PolicyFor [\<lparr>bound_NodeID = ''n1'', bound_Tenants = [''a'']\<rparr>] ''b'') ''n1''"
  using dedicated_node_admits_bound_tenants [of "''n1''" "''b''"
      "[\<lparr>bound_NodeID = ''n1'', bound_Tenants = [''a'']\<rparr>]"]
  by (simp add: TenantNodePrefix_def)

text \<open>
  Canonical lists. What \<open>Normalize\<close> and \<open>NormalizeTenants\<close> accept is strictly sorted,
  names exactly the trimmed entries of the submission, and is a fixed point; two submissions that
  name the same set normalize identically.
\<close>

theorem Normalize_canonical:
  assumes "Normalize xs = Inr ys"
  shows "sorted ys \<and> distinct ys \<and> set ys = TrimSpace ` set xs \<and> Normalize ys = Inr ys
    \<and> (\<forall>zs. TrimSpace ` set zs = TrimSpace ` set xs \<longrightarrow> Normalize zs = Inr ys)"
proof -
  have fwd: "\<exists>out. normalize_loop check_model zs [] = Inr out \<and> distinct out \<and> set out = TrimSpace ` set zs"
    if "\<forall>z \<in> set zs. check_model (TrimSpace z) = None" for zs
  proof -
    have "\<exists>out'. normalize_loop check_model zs out = Inr out'" for out
      using that by (induction zs arbitrary: out) (auto simp: Let_def)
    then obtain out where "normalize_loop check_model zs [] = Inr out" by blast
    with normalize_loop_spec [OF this] show ?thesis by auto
  qed
  from assms obtain out where loop: "normalize_loop check_model xs [] = Inr out"
    and ys: "ys = sort out" and len: "length out \<le> MaxModels"
    by (auto simp: Normalize_def split: sum.splits if_splits)
  from normalize_loop_spec [OF loop] have d: "distinct out" and s: "set out = TrimSpace ` set xs"
    and c: "\<forall>x \<in> set xs. check_model (TrimSpace x) = None" by auto
  have same: "Normalize zs = Inr ys" if e: "TrimSpace ` set zs = TrimSpace ` set xs" for zs
  proof -
    have "check_model (TrimSpace z) = None" if "z \<in> set zs" for z
      using that e c by (metis (no_types, lifting) image_iff)
    with fwd obtain out' where o: "normalize_loop check_model zs [] = Inr out'" "distinct out'"
      "set out' = TrimSpace ` set zs" by blast
    then have "sort out' = ys" and "length out' = length out"
      using d s e ys distinct_same_set_sort by (metis, metis distinct_card)
    with o len show ?thesis by (simp add: Normalize_def)
  qed
  have "TrimSpace ` set ys = TrimSpace ` set xs" using ys s by (auto simp: image_image)
  with same d s ys show ?thesis by auto
qed

lemma TrimSpace_letters: "TrimSpace ''a'' = ''a''" "TrimSpace ''b'' = ''b''"
  by (simp_all add: TrimSpace_printable printable_def)

theorem Normalize_canonical_witness:
  "Normalize [''b'', ''a'', ''b''] = Inr [''a'', ''b''] \<and> Normalize [''a'', ''b''] = Inr [''a'', ''b'']"
proof -
  have "check_model ''a'' = None" and "check_model ''b'' = None"
    by (simp_all add: check_model_def MaxModelBytes_def ValidString.simps)
  then have "normalize_loop check_model [''b'', ''a'', ''b''] [] = Inr [''b'', ''a'']"
    by (simp add: TrimSpace_letters)
  then have "Normalize [''b'', ''a'', ''b''] = Inr [''a'', ''b'']"
    unfolding Normalize_def by (simp del: normalize_loop.simps add: MaxModels_def less_char_def)
  moreover from Normalize_canonical [OF this] have "Normalize [''a'', ''b''] = Inr [''a'', ''b'']"
    by (elim conjE)
  ultimately show ?thesis by (rule conjI)
qed

text \<open>
  Model admission. A request for a model its policy excludes is either refused outright or may
  only ever reach nodes the caller's own tenant enrolled; a model the policy allows leaves the
  context unchanged. Both the platform's and the tenant's list must allow a model.
\<close>

theorem excluded_model_stays_on_own_nodes:
  assumes "modelAccess ctx = Some p"
    and "\<not> (Platform p = [] \<or> m \<in> set (Platform p)) \<or> \<not> (Tenant p = [] \<or> m \<in> set (Tenant p))"
    and "admitModel ctx m = (ctx', True)" and "nodeAllowed ctx' n"
  shows "\<exists>a. nodeAccess ctx = Some a \<and> OwnerOf n = (tenantID a, True) \<and> tenantID a \<noteq> ''''"
proof -
  from assms(1,2) have "\<not> modelAllowed ctx m"
    by (auto simp: modelAllowed_def Policy_Allows_def listAllows_def)
  with assms(3) obtain a where "nodeAccess ctx = Some a" and "tenantID a \<noteq> ''''"
    and "ctx' = ctx\<lparr>ownNodesOnly := True\<rparr>"
    by (auto simp: admitModel_def split: option.splits if_splits)
  with assms(4) show ?thesis by (auto simp: nodeAllowed_def split: prod.splits)
qed

lemma owner_acme_node: "OwnerOf acme_node = (''acme'', True)"
proof -
  have "validID ''acme''"
    by (simp add: validID_def ValidString.simps runes.simps MaxIDBytes_def IsSpace_def IsControl_def)
  then show ?thesis
    by (simp add: OwnerOf_def acme_node_def TenantNodePrefix_def MaxIDBytes_def lowerHex_def
        tenantNodeSuffixLen_def)
qed

theorem excluded_model_stays_on_own_nodes_witness:
  "\<exists>a. nodeAccess (WithNodeAccess (WithModelAccess empty_ctx \<lparr>Platform = [''m1''], Tenant = []\<rparr>) ''acme'' \<lparr>Excluded = []\<rparr>)
       = Some a \<and> OwnerOf acme_node = (tenantID a, True) \<and> tenantID a \<noteq> ''''"
proof (rule excluded_model_stays_on_own_nodes)
  let ?ctx = "WithNodeAccess (WithModelAccess empty_ctx \<lparr>Platform = [''m1''], Tenant = []\<rparr>) ''acme'' \<lparr>Excluded = []\<rparr>"
  show "modelAccess ?ctx = Some \<lparr>Platform = [''m1''], Tenant = []\<rparr>"
    by (simp add: WithNodeAccess_def WithModelAccess_def)
  show "\<not> (Platform \<lparr>Platform = [''m1''], Tenant = []\<rparr> = [] \<or> ''m2'' \<in> set (Platform \<lparr>Platform = [''m1''], Tenant = []\<rparr>))
    \<or> \<not> (Tenant \<lparr>Platform = [''m1''], Tenant = []\<rparr> = [] \<or> ''m2'' \<in> set (Tenant \<lparr>Platform = [''m1''], Tenant = []\<rparr>))"
    by simp
  show "admitModel ?ctx ''m2'' = (?ctx\<lparr>ownNodesOnly := True\<rparr>, True)"
    by (simp add: admitModel_def modelAllowed_def Policy_Allows_def listAllows_def
        WithNodeAccess_def WithModelAccess_def)
  show "nodeAllowed (?ctx\<lparr>ownNodesOnly := True\<rparr>) acme_node"
    by (simp add: nodeAllowed_def WithNodeAccess_def owner_acme_node)
qed

end
