(* ===== verification/Placement.thy ===== *)
theory Placement
  imports Breaker Access
begin

unbundle bit_operations_syntax

text \<open>
  \<open>aiServeWeaveGateway/scheduler\<close>: how the candidates of one routing target are ordered
  (\<open>policy.go\<close>), the session key (\<open>cooldown.go\<close>) and the weighted arrangement of targets
  (\<open>weights.go\<close>).

  Random numbers are parameters: \<open>intn\<close> and \<open>draw\<close> are given as functions of how often
  they have been called. Floating-point sums go through the rounding \<open>fl\<close>.
\<close>


section \<open>Definitions\<close>

subsection \<open>hash/fnv\<close>

definition fnv_offset :: "64 word" where "fnv_offset = 14695981039346656037"
definition fnv_prime :: "64 word" where "fnv_prime = 1099511628211"

text \<open>\<open>Write\<close> of a 64-bit FNV-1a hash; \<open>Sum64\<close> is the state.\<close>

definition fnv_write :: "string \<Rightarrow> 64 word \<Rightarrow> 64 word" where
  "fnv_write s h = fold (\<lambda>c h. (h XOR word_of_nat (byte c)) * fnv_prime) s h"

subsection \<open>policy.go\<close>

datatype policy = PolicyLeastLoad | PolicyPowerOfTwo | PolicyPrefixHash | UnknownPolicy string

definition ParsePolicy :: "string \<Rightarrow> string + policy" where
  "ParsePolicy name =
     (if name = '''' \<or> name = ''least_load'' then Inr PolicyLeastLoad
      else if name = ''power_of_two'' then Inr PolicyPowerOfTwo
      else if name = ''prefix_hash'' then Inr PolicyPrefixHash
      else Inl (''scheduler: unknown policy '' @ name))"

definition defaultPrefixBytes :: int where "defaultPrefixBytes = 4096"

record affinity =
  aff_hash :: "64 word"
  aff_ok :: bool
  aff_session :: bool

definition no_affinity :: affinity where
  "no_affinity = \<lparr>aff_hash = 0, aff_ok = False, aff_session = False\<rparr>"

record scored =
  sc_Candidate :: candidate
  idle :: int
  queued :: int
  sc_inflight :: int

definition lessLoaded :: "scored \<Rightarrow> scored \<Rightarrow> bool" where
  "lessLoaded a b =
     (if idle a \<noteq> idle b then idle a > idle b
      else if queued a \<noteq> queued b then queued a < queued b
      else sc_inflight a < sc_inflight b)"

definition mix64 :: "64 word \<Rightarrow> 64 word" where
  "mix64 x0 =
     (let x1 = x0 XOR drop_bit 30 x0;
          x2 = x1 * 0xbf58476d1ce4e5b9;
          x3 = x2 XOR drop_bit 27 x2;
          x4 = x3 * 0x94d049bb133111eb in
      x4 XOR drop_bit 31 x4)"

definition rendezvousScore :: "64 word \<Rightarrow> candidate \<Rightarrow> 64 word" where
  "rendezvousScore key c =
     mix64 (key XOR fnv_write (RuntimeID c) (fnv_write [CHR 0x00] (fnv_write (NodeID c) fnv_offset)))"

definition prefix_before :: "64 word \<Rightarrow> scored \<Rightarrow> scored \<Rightarrow> bool" where
  "prefix_before key a b =
     (if (idle a > 0) \<noteq> (idle b > 0) then idle a > 0
      else rendezvousScore key (sc_Candidate a) > rendezvousScore key (sc_Candidate b))"

text \<open>The two sampled positions of \<open>PolicyPowerOfTwo\<close>, and moving the winner to the front.\<close>

definition power_of_two_winner :: "(nat \<Rightarrow> nat \<Rightarrow> nat) \<Rightarrow> scored list \<Rightarrow> nat" where
  "power_of_two_winner intn found =
     (let i = intn 0 (length found);
          j0 = intn 1 (length found - 1);
          j = (if j0 \<ge> i then j0 + 1 else j0) in
      if lessLoaded (found ! j) (found ! i) then j else i)"

definition orderCandidates ::
  "scored list \<Rightarrow> policy \<Rightarrow> affinity \<Rightarrow> (nat \<Rightarrow> nat \<Rightarrow> nat) \<Rightarrow> scored list" where
  "orderCandidates found0 pol key intn =
     (let found = stable_sort lessLoaded found0 in
      case pol of
        PolicyPowerOfTwo \<Rightarrow>
          if length found < 2 then found
          else let winner = power_of_two_winner intn found in
            found ! winner # take winner found @ drop (winner + 1) found
      | PolicyPrefixHash \<Rightarrow>
          if \<not> aff_ok key then found else stable_sort (prefix_before (aff_hash key)) found
      | _ \<Rightarrow> found)"

subsection \<open>The prefix fingerprint of a chat request\<close>

text \<open>The fields of \<open>runtime.ChatRequest\<close> that the fingerprint reads.\<close>

record content_part =
  part_Type :: string
  part_ImageURL :: "string option"
  part_Audio :: "string option"
  part_File :: "string option"
  part_Text :: string

record message =
  Role :: string
  Content :: string
  ContentParts :: "content_part list"

record capped_hash =
  capped_h :: "64 word"
  capped_left :: int

definition capped_write :: "string \<Rightarrow> capped_hash \<Rightarrow> int \<times> capped_hash" where
  "capped_write s0 w =
     (let s = (if int (length s0) > capped_left w then take (nat (capped_left w)) s0 else s0) in
      if s = '''' then (0, w)
      else (int (length s), \<lparr>capped_h = fnv_write s (capped_h w), capped_left = capped_left w - int (length s)\<rparr>))"

definition part_body :: "content_part \<Rightarrow> string" where
  "part_body p = (case part_ImageURL p of Some u \<Rightarrow> u | None \<Rightarrow>
     (case part_Audio p of Some d \<Rightarrow> d | None \<Rightarrow>
       (case part_File p of Some u \<Rightarrow> u | None \<Rightarrow> part_Text p)))"

fun hash_parts :: "content_part list \<Rightarrow> int \<times> capped_hash \<Rightarrow> int \<times> capped_hash" where
  "hash_parts [] st = st"
| "hash_parts (p # ps) (content, w) =
     (let w1 = snd (capped_write (CHR 0x1F # part_Type p @ [CHR 0x00]) w);
          (n, w2) = capped_write (part_body p) w1 in
      hash_parts ps (content + n, w2))"

definition hash_message :: "message \<Rightarrow> int \<times> capped_hash \<Rightarrow> int \<times> capped_hash" where
  "hash_message m st =
     (let (content, w) = st;
          w1 = snd (capped_write (Role m @ [CHR 0x00]) w);
          (n, w2) = capped_write (Content m) w1;
          (content', w3) = hash_parts (ContentParts m) (content + n, w2);
          w4 = snd (capped_write [CHR 0x1E] w3) in
      (content', w4))"

fun hash_messages :: "message list \<Rightarrow> int \<times> capped_hash \<Rightarrow> int \<times> capped_hash" where
  "hash_messages [] st = st"
| "hash_messages (m # ms) st =
     (let st' = hash_message m st in
      if Role m = ''user'' \<or> capped_left (snd st') = 0 then st' else hash_messages ms st')"

definition prefixAffinity :: "message list \<Rightarrow> int \<Rightarrow> affinity" where
  "prefixAffinity messages limit0 =
     (let limit = (if limit0 \<le> 0 then defaultPrefixBytes else limit0);
          (content, w) = hash_messages messages (0, \<lparr>capped_h = fnv_offset, capped_left = limit\<rparr>) in
      if content = 0 then no_affinity
      else \<lparr>aff_hash = capped_h w, aff_ok = True, aff_session = False\<rparr>)"

subsection \<open>cooldown.go: session keys\<close>

definition WithSessionKey :: "request_ctx \<Rightarrow> string \<Rightarrow> request_ctx" where
  "WithSessionKey ctx key =
     (if key = '''' then ctx else ctx\<lparr>sessionKey := Some (fnv_write key fnv_offset)\<rparr>)"

definition sessionAffinity :: "bool \<Rightarrow> request_ctx \<Rightarrow> affinity" where
  "sessionAffinity sessionAffinityOn ctx =
     (if \<not> sessionAffinityOn then no_affinity
      else case sessionKey ctx of
        None \<Rightarrow> no_affinity
      | Some h \<Rightarrow> \<lparr>aff_hash = h, aff_ok = True, aff_session = True\<rparr>)"

subsection \<open>weights.go\<close>

record target_candidates =
  tc_priority :: int
  tc_weight :: int
  tc_candidates :: "candidate list"

definition eff_weight :: "target_candidates \<Rightarrow> rat" where
  "eff_weight g = of_int (max (tc_weight g) 1)"

fun total_weight :: "(rat \<Rightarrow> rat) \<Rightarrow> target_candidates list \<Rightarrow> rat \<Rightarrow> rat" where
  "total_weight fl [] acc = acc"
| "total_weight fl (g # gs) acc = total_weight fl gs (fl (acc + fl (eff_weight g)))"

text \<open>
  The selection loop runs over the groups from position \<open>j\<close> on; \<open>dflt\<close> is the last
  position of the block, the choice when the subtraction never goes below zero.
\<close>

fun select_group :: "(rat \<Rightarrow> rat) \<Rightarrow> target_candidates list \<Rightarrow> nat \<Rightarrow> nat \<Rightarrow> rat \<Rightarrow> nat" where
  "select_group fl [] j dflt remaining = dflt"
| "select_group fl (g # gs) j dflt remaining =
     (let remaining' = fl (remaining - fl (eff_weight g)) in
      if remaining' < 0 then j else select_group fl gs (Suc j) dflt remaining')"

definition swap :: "'a list \<Rightarrow> nat \<Rightarrow> nat \<Rightarrow> 'a list" where
  "swap xs i j = xs[i := xs ! j, j := xs ! i]"

function shuffle_block ::
  "(rat \<Rightarrow> rat) \<Rightarrow> (nat \<Rightarrow> rat) \<Rightarrow> nat \<Rightarrow> nat \<Rightarrow> target_candidates list \<Rightarrow> nat \<Rightarrow> target_candidates list \<times> nat" where
  "shuffle_block fl draw i end groups n =
     (if i < end - 1 then
        let block = take (end - i) (drop i groups);
            remaining = fl (draw n * total_weight fl block 0);
            selected = select_group fl block i (end - 1) remaining in
        shuffle_block fl draw (Suc i) end (swap groups i selected) (Suc n)
      else (groups, n))"
  by pat_completeness auto
termination by (relation "measure (\<lambda>(fl, draw, i, end, groups, n). end - i)") auto

declare shuffle_block.simps [simp del]

lemma length_shuffle_block [simp]: "length (fst (shuffle_block fl draw i end groups n)) = length groups"
  by (induction fl draw i "end" groups n rule: shuffle_block.induct)
    (subst shuffle_block.simps, simp add: Let_def swap_def)

definition block_end :: "target_candidates list \<Rightarrow> nat \<Rightarrow> nat" where
  "block_end groups start =
     start + 1 + length (takeWhile (\<lambda>g. tc_priority g = tc_priority (groups ! start)) (drop (start + 1) groups))"

function shuffle_groups ::
  "(rat \<Rightarrow> rat) \<Rightarrow> (nat \<Rightarrow> rat) \<Rightarrow> nat \<Rightarrow> target_candidates list \<Rightarrow> nat \<Rightarrow> target_candidates list" where
  "shuffle_groups fl draw start groups n =
     (if start < length groups then
        let end = block_end groups start;
            shuffled = shuffle_block fl draw start end groups n in
        shuffle_groups fl draw end (fst shuffled) (snd shuffled)
      else groups)"
  by pat_completeness auto
termination
  by (relation "measure (\<lambda>(fl, draw, start, groups, n). length groups - start)")
    (simp_all add: block_end_def case_prod_beta)

declare shuffle_groups.simps [simp del]

fun collect :: "candidate list \<Rightarrow> candidate list \<Rightarrow> candidate list" where
  "collect [] out = out"
| "collect (c # cs) out = (if List.member out c then collect cs out else collect cs (out @ [c]))"

definition weightedCandidates ::
  "(rat \<Rightarrow> rat) \<Rightarrow> (nat \<Rightarrow> rat) \<Rightarrow> target_candidates list \<Rightarrow> candidate list" where
  "weightedCandidates fl draw groups =
     (let available = filter (\<lambda>g. length (tc_candidates g) > 0) groups;
          arranged = shuffle_groups fl draw 0 available 0 in
      collect (concat (map tc_candidates arranged)) [])"

subsection \<open>Concrete inputs\<close>

definition two_scored :: "scored list" where
  "two_scored = [\<lparr>sc_Candidate = node_a, idle = 1, queued = 0, sc_inflight = 0\<rparr>,
                 \<lparr>sc_Candidate = node_a, idle = 3, queued = 0, sc_inflight = 0\<rparr>]"


section \<open>Lemmas\<close>

subsection \<open>Ordering\<close>

interpretation least_load: strict_weak_order lessLoaded
  by unfold_locales (auto simp: lessLoaded_def split: if_splits)

interpretation prefix_rank: strict_weak_order "prefix_before key" for key
  by unfold_locales (auto simp: prefix_before_def split: if_splits)

lemma mset_order_power_of_two:
  "w < length xs \<Longrightarrow> mset (xs ! w # take w xs @ drop (w + 1) xs) = mset xs"
  by (metis Suc_eq_plus1 add_mset_add_single id_take_nth_drop mset.simps(2) mset_append union_mset_add_mset_right)

lemma better_of_two:
  "((if lessLoaded (xs ! j) (xs ! i) then j else i) = i \<or> (if lessLoaded (xs ! j) (xs ! i) then j else i) = j)
   \<and> \<not> lessLoaded (xs ! i) (xs ! (if lessLoaded (xs ! j) (xs ! i) then j else i))
   \<and> \<not> lessLoaded (xs ! j) (xs ! (if lessLoaded (xs ! j) (xs ! i) then j else i))"
  using least_load.asym by (cases "lessLoaded (xs ! j) (xs ! i)") (simp_all, blast+)

lemma power_of_two_winner_lt:
  assumes "2 \<le> length found" and "\<And>k m. 0 < m \<Longrightarrow> intn k m < m"
  shows "power_of_two_winner intn found < length found"
proof -
  have "intn 0 (length found) < length found" and "intn 1 (length found - 1) < length found - 1"
    using assms by (auto intro!: assms(2))
  then show ?thesis by (auto simp: power_of_two_winner_def Let_def)
qed

lemma orderCandidates_mset:
  assumes "\<And>k m. 0 < m \<Longrightarrow> intn k m < m"
  shows "mset (orderCandidates found pol key intn) = mset found"
proof -
  let ?f = "stable_sort lessLoaded found"
  have "mset (?f ! power_of_two_winner intn ?f # take (power_of_two_winner intn ?f) ?f
      @ drop (power_of_two_winner intn ?f + 1) ?f) = mset ?f" if "2 \<le> length ?f"
    using power_of_two_winner_lt [OF that] assms by (intro mset_order_power_of_two) blast
  then show ?thesis by (auto simp: orderCandidates_def Let_def not_less split: policy.splits)
qed

subsection \<open>mix64 is invertible\<close>

lemma xorshift_inverse:
  fixes x :: "64 word"
  assumes "32 \<le> 3 * k" and "0 < k" and "64 \<le> 3 * k"
  shows "(let y = x XOR drop_bit k x in y XOR drop_bit k y XOR drop_bit (2 * k) y) = x"
proof (rule bit_word_eqI)
  fix n :: nat
  assume "n < LENGTH(64)"
  have far: "\<not> bit x (3 * k + n)"
    using assms(3) bit_imp_le_length [of x "3 * k + n"] by auto
  have e: "k + (k + n) = n + k * 2" by simp
  with far show "bit (let y = x XOR drop_bit k x in y XOR drop_bit k y XOR drop_bit (2 * k) y) n = bit x n"
    by (auto simp: Let_def bit_xor_iff bit_drop_bit_eq ac_simps e)
qed

lemma xorshift_inj:
  fixes x y :: "64 word"
  assumes "0 < k" and "64 \<le> 3 * k" and "x XOR drop_bit k x = y XOR drop_bit k y"
  shows "x = y"
proof -
  have "32 \<le> 3 * k" using assms(2) by simp
  from xorshift_inverse [OF this assms(1,2), of x] xorshift_inverse [OF this assms(1,2), of y] assms(3)
  show ?thesis by (simp add: Let_def)
qed

lemma mult_odd_inj:
  fixes x y c d :: "64 word"
  assumes "c * d = 1" and "x * c = y * c"
  shows "x = y"
proof -
  have "x = x * c * d" using assms(1) by (simp add: mult.assoc)
  also have "\<dots> = y * c * d" using assms(2) by simp
  also have "\<dots> = y" using assms(1) by (simp add: mult.assoc)
  finally show ?thesis .
qed

lemma mix64_inject [simp]: "mix64 x = mix64 y \<longleftrightarrow> x = y"
proof
  assume m: "mix64 x = mix64 y"
  define a where "a = (\<lambda>x :: 64 word. (x XOR drop_bit 30 x) * 0xbf58476d1ce4e5b9)"
  define b where "b = (\<lambda>x :: 64 word. (x XOR drop_bit 27 x) * 0x94d049bb133111eb)"
  have mix: "mix64 z = b (a z) XOR drop_bit 31 (b (a z))" for z
    by (simp add: mix64_def Let_def a_def b_def)
  from m have "b (a x) = b (a y)" unfolding mix by (rule xorshift_inj [rotated 2]) simp_all
  then have "a x XOR drop_bit 27 (a x) = a y XOR drop_bit 27 (a y)"
    unfolding b_def by (rule mult_odd_inj [rotated, where d = "0x319642b2d24d8ec3"]) simp
  then have "a x = a y" by (rule xorshift_inj [rotated 2]) simp_all
  then have "x XOR drop_bit 30 x = y XOR drop_bit 30 y"
    unfolding a_def by (rule mult_odd_inj [rotated, where d = "0x96de1b173f119089"]) simp
  then show "x = y" by (rule xorshift_inj [rotated 2]) simp_all
qed simp

subsection \<open>The weighted arrangement\<close>

lemma select_group_range:
  "j \<le> dflt \<Longrightarrow> j + length gs \<le> Suc dflt \<Longrightarrow>
   j \<le> select_group fl gs j dflt r \<and> select_group fl gs j dflt r \<le> dflt"
proof (induction fl gs j dflt r rule: select_group.induct)
  case (2 fl g gs j dflt r)
  then show ?case
    by (cases gs) (auto simp: Let_def dest: le_trans)
qed simp

lemma map_swap_same:
  assumes "i < length xs" and "j < length xs" and "f (xs ! i) = f (xs ! j)"
  shows "map f (swap xs i j) = map f xs"
  using assms by (intro nth_equalityI) (auto simp: swap_def nth_list_update)

lemma mset_swap_at:
  assumes "i < length xs" and "j < length xs"
  shows "mset (swap xs i j) = mset xs"
  using assms by (simp add: swap_def mset_swap)

lemma shuffle_block_spec:
  assumes "end \<le> length groups" and "start \<le> i"
    and "\<forall>k. start \<le> k \<and> k < end \<longrightarrow> tc_priority (groups ! k) = p"
  shows "mset (fst (shuffle_block fl draw i end groups n)) = mset groups
    \<and> map tc_priority (fst (shuffle_block fl draw i end groups n)) = map tc_priority groups"
  using assms
proof (induction fl draw i "end" groups n rule: shuffle_block.induct)
  case (1 fl draw i e groups n)
  show ?case
  proof (cases "i < e - 1")
    case False
    then show ?thesis by (subst shuffle_block.simps, simp)+
  next
    case True
    let ?block = "take (e - i) (drop i groups)"
    define sel where "sel = select_group fl ?block i (e - 1) (fl (draw n * total_weight fl ?block 0))"
    have step: "shuffle_block fl draw i e groups n = shuffle_block fl draw (Suc i) e (swap groups i sel) (Suc n)"
      by (subst shuffle_block.simps) (use True in \<open>simp add: Let_def sel_def\<close>)
    have sel: "i \<le> sel" "sel \<le> e - 1"
      unfolding sel_def using select_group_range [of i "e - 1" ?block] True 1(2) by simp_all
    have lt: "i < length groups" "sel < length groups" using True sel 1(2) by linarith+
    have "i < e" and "sel < e" and "start \<le> sel" using 1(3) True sel by linarith+
    with 1(3,4) have "tc_priority (groups ! i) = tc_priority (groups ! sel)" by simp
    with lt have m: "map tc_priority (swap groups i sel) = map tc_priority groups" by (rule map_swap_same)
    have p: "\<forall>k. start \<le> k \<and> k < e \<longrightarrow> tc_priority (swap groups i sel ! k) = p"
    proof (intro allI impI)
      fix k assume k: "start \<le> k \<and> k < e"
      then have "k < length groups" using 1(2) by simp
      then have "tc_priority (swap groups i sel ! k) = tc_priority (groups ! k)"
        using arg_cong [OF m, of "\<lambda>xs. xs ! k"] by (simp add: swap_def)
      with 1(4) k show "tc_priority (swap groups i sel ! k) = p" by simp
    qed
    have len: "e \<le> length (swap groups i sel)" and "start \<le> Suc i"
      using 1(2,3) by (simp_all add: swap_def)
    from 1(1) [OF True refl refl sel_def this p] m mset_swap_at [OF lt] step show ?thesis by simp
  qed
qed

lemma block_end_le: "start < length groups \<Longrightarrow> block_end groups start \<le> length groups"
  using length_takeWhile_le [of "\<lambda>g. tc_priority g = tc_priority (groups ! start)" "drop (start + 1) groups"]
  by (simp add: block_end_def)

lemma block_same_priority:
  assumes "start \<le> k" and "k < block_end groups start" and "start < length groups"
  shows "tc_priority (groups ! k) = tc_priority (groups ! start)"
proof (cases "k = start")
  case False
  let ?P = "\<lambda>g. tc_priority g = tc_priority (groups ! start)"
  let ?i = "k - (start + 1)"
  have i: "?i < length (takeWhile ?P (drop (start + 1) groups))"
    using assms False by (simp add: block_end_def)
  have "k < length groups" using assms block_end_le by (meson order_less_le_trans)
  then have "takeWhile ?P (drop (start + 1) groups) ! ?i = groups ! k"
    using i assms(1) False by (simp add: takeWhile_nth)
  then show ?thesis using nth_mem [OF i] by (auto dest: set_takeWhileD)
qed simp

lemma shuffle_groups_spec:
  "mset (shuffle_groups fl draw start groups n) = mset groups
   \<and> map tc_priority (shuffle_groups fl draw start groups n) = map tc_priority groups"
proof (induction fl draw start groups n rule: shuffle_groups.induct)
  case (1 fl draw start groups n)
  show ?case
  proof (cases "start < length groups")
    case False
    then show ?thesis by (subst (1 2) shuffle_groups.simps) simp
  next
    case True
    have "mset (fst (shuffle_block fl draw start (block_end groups start) groups n)) = mset groups
      \<and> map tc_priority (fst (shuffle_block fl draw start (block_end groups start) groups n)) = map tc_priority groups"
      by (rule shuffle_block_spec [where p = "tc_priority (groups ! start)" and start = start])
        (use True block_end_le block_same_priority in auto)
    with 1 [OF True refl refl] True show ?thesis
      by (subst (1 2) shuffle_groups.simps) (simp add: Let_def)
  qed
qed

lemma collect_spec:
  "distinct out \<Longrightarrow> distinct (collect cs out) \<and> set (collect cs out) = set out \<union> set cs"
  by (induction cs out rule: collect.induct) auto

lemma collect_sorted:
  assumes "sorted (map fst L)" and "sorted (map lab out)"
    and "\<forall>c \<in> set out. \<forall>(p, d) \<in> set L. lab c \<le> p"
    and "\<forall>(p, d) \<in> set L. d \<notin> set out \<longrightarrow> lab d \<le> p \<and> (lab d, d) \<in> set L"
  shows "sorted (map lab (collect (map snd L) out))"
  using assms
proof (induction L arbitrary: out)
  case Nil
  then show ?case by simp
next
  case (Cons x L)
  obtain p d where x: "x = (p, d)" by (cases x)
  show ?case
  proof (cases "d \<in> set out")
    case True
    have "sorted (map lab (collect (map snd L) out))"
      by (rule Cons.IH) (use Cons.prems x True in \<open>auto split: prod.splits\<close>)
    with True x show ?thesis by simp
  next
    case False
    have d: "lab d \<le> p" "(lab d, d) \<in> set (x # L)" using Cons.prems(4) x False by auto
    have "lab c \<le> lab d" if "c \<in> set out" for c using Cons.prems(3) d(2) that by fastforce
    moreover have "lab d \<le> p'" if "(p', d') \<in> set L" for p' d'
      using Cons.prems(1) x d(1) that by (fastforce intro: order_trans)
    ultimately have "sorted (map lab (collect (map snd L) (out @ [d])))"
      by (intro Cons.IH) (use Cons.prems x in \<open>auto simp: sorted_append split: prod.splits\<close>)
    with False x show ?thesis by simp
  qed
qed

lemma sorted_labels:
  "sorted (map tc_priority gs) \<Longrightarrow>
   sorted (map fst (concat (map (\<lambda>g. map (Pair (tc_priority g)) (tc_candidates g)) gs)))"
proof (induction gs)
  case (Cons g gs)
  then show ?case by (auto simp: sorted_append comp_def map_replicate_const)
qed simp

lemma weighted_spec:
  assumes "sorted (map tc_priority groups)"
  shows "distinct (weightedCandidates fl draw groups)
    \<and> set (weightedCandidates fl draw groups) = (\<Union>g \<in> set groups. set (tc_candidates g))
    \<and> sorted (map (\<lambda>c. Min (tc_priority ` {g \<in> set groups. c \<in> set (tc_candidates g)}))
        (weightedCandidates fl draw groups))"
proof -
  define av where "av = filter (\<lambda>g. length (tc_candidates g) > 0) groups"
  define gs where "gs = shuffle_groups fl draw 0 av 0"
  define lab where "lab = (\<lambda>c. Min (tc_priority ` {g \<in> set groups. c \<in> set (tc_candidates g)}))"
  define L where "L = concat (map (\<lambda>g. map (Pair (tc_priority g)) (tc_candidates g)) gs)"
  have gs: "mset gs = mset av" "map tc_priority gs = map tc_priority av"
    using shuffle_groups_spec [of fl draw 0 av 0] by (simp_all add: gs_def)
  have set_gs: "set gs = {g \<in> set groups. tc_candidates g \<noteq> []}"
    using arg_cong [OF gs(1), of set_mset] by (simp add: av_def)
  have set_L: "(p, d) \<in> set L \<longleftrightarrow> (\<exists>g \<in> set groups. d \<in> set (tc_candidates g) \<and> p = tc_priority g)" for p d
    by (auto simp: L_def set_gs)
  have snd_L: "map snd L = concat (map tc_candidates gs)"
    by (simp add: L_def map_concat comp_def)
  have "sorted (map tc_priority gs)" unfolding gs(2) av_def using assms by (simp add: sorted_filter)
  then have "sorted (map fst L)" unfolding L_def by (rule sorted_labels)
  moreover have "lab d \<le> p \<and> (lab d, d) \<in> set L" if "(p, d) \<in> set L" for p d
  proof -
    let ?G = "{g \<in> set groups. d \<in> set (tc_candidates g)}"
    from that obtain g where g: "g \<in> ?G" "p = tc_priority g" by (auto simp: set_L)
    then have "lab d \<le> p" unfolding lab_def by (intro Min_le) auto
    moreover have "lab d \<in> tc_priority ` ?G" unfolding lab_def using g by (intro Min_in) auto
    then have "(lab d, d) \<in> set L" unfolding set_L by blast
    ultimately show ?thesis by simp
  qed
  ultimately have "sorted (map lab (collect (map snd L) []))"
    by (intro collect_sorted) (simp, simp, simp, blast)
  moreover have "weightedCandidates fl draw groups = collect (map snd L) []"
    by (simp add: weightedCandidates_def snd_L gs_def av_def)
  moreover have "set (map snd L) = (\<Union>g \<in> set groups. set (tc_candidates g))"
    unfolding snd_L by (auto simp: set_gs)
  ultimately show ?thesis using collect_spec [of "[]" "map snd L"] by (simp add: lab_def)
qed

lemma hash_messages_append:
  "\<exists>m \<in> set ms. Role m = ''user'' \<Longrightarrow> hash_messages (ms @ later) st = hash_messages ms st"
  by (induction ms st rule: hash_messages.induct) (auto simp: Let_def)


section \<open>Properties\<close>

text \<open>
  Ordering never loses a fallback. Whatever the policy, the affinity and the random draws (each
  below its bound), the ordered candidates are a permutation of the eligible ones.
\<close>

theorem orderCandidates_permutes:
  assumes "\<And>k m. 0 < m \<Longrightarrow> intn k m < m"
  shows "mset (orderCandidates found pol key intn) = mset found"
  using assms by (rule orderCandidates_mset)

theorem orderCandidates_permutes_witness:
  "mset (orderCandidates [\<lparr>sc_Candidate = node_a, idle = 0, queued = 0, sc_inflight = 0\<rparr>,
      \<lparr>sc_Candidate = node_a, idle = 3, queued = 0, sc_inflight = 0\<rparr>] PolicyPowerOfTwo no_affinity (\<lambda>k m. 0))
   = {# \<lparr>sc_Candidate = node_a, idle = 0, queued = 0, sc_inflight = 0\<rparr>,
        \<lparr>sc_Candidate = node_a, idle = 3, queued = 0, sc_inflight = 0\<rparr> #}"
  by (subst orderCandidates_permutes) simp_all

text \<open>
  Least load first. Without an affinity (and for an unrecognised policy) the first candidate is
  one that no other eligible candidate beats on idle slots, then queue, then requests in flight.
\<close>

theorem least_load_first:
  assumes "found \<noteq> []" and "x \<in> set found"
    and "pol = PolicyLeastLoad \<or> (\<exists>s. pol = UnknownPolicy s) \<or> (pol = PolicyPrefixHash \<and> \<not> aff_ok key)"
  shows "\<not> lessLoaded x (hd (orderCandidates found pol key intn))"
  using least_load.hd_stable_sort_least [OF assms(1,2)] assms(3)
  by (auto simp: orderCandidates_def)

theorem least_load_first_witness:
  "\<not> lessLoaded \<lparr>sc_Candidate = node_a, idle = 3, queued = 0, sc_inflight = 0\<rparr>
     (hd (orderCandidates [\<lparr>sc_Candidate = node_a, idle = 1, queued = 0, sc_inflight = 0\<rparr>,
      \<lparr>sc_Candidate = node_a, idle = 3, queued = 0, sc_inflight = 0\<rparr>] PolicyLeastLoad no_affinity (\<lambda>k m. 0)))"
  by (rule least_load_first) simp_all

text \<open>
  Power of two choices. The candidate tried first is the better of two distinct positions of the
  least-load order, so it is never the single worst candidate while another is strictly better, and
  the rest keep the least-load order as fallbacks.
\<close>

theorem power_of_two_order:
  assumes "2 \<le> length found" and "\<And>k m. 0 < m \<Longrightarrow> intn k m < m"
  shows "\<exists>i j w. i < length found \<and> j < length found \<and> i \<noteq> j \<and> (w = i \<or> w = j)
    \<and> (let xs = stable_sort lessLoaded found in
        orderCandidates found PolicyPowerOfTwo key intn = xs ! w # take w xs @ drop (Suc w) xs
        \<and> \<not> lessLoaded (xs ! i) (xs ! w) \<and> \<not> lessLoaded (xs ! j) (xs ! w))"
proof -
  let ?xs = "stable_sort lessLoaded found"
  let ?i = "intn 0 (length found)" and ?second = "intn 1 (length found - 1)"
  let ?j = "if ?second \<ge> ?i then ?second + 1 else ?second"
  let ?w = "power_of_two_winner intn ?xs"
  have ij: "?i < length found" "?second < length found - 1" using assms by (auto intro!: assms(2))
  then have j: "?j < length found" and ne: "?i \<noteq> ?j" by auto
  have w: "?w = (if lessLoaded (?xs ! ?j) (?xs ! ?i) then ?j else ?i)"
    by (simp add: power_of_two_winner_def Let_def)
  have "(?w = ?i \<or> ?w = ?j) \<and> \<not> lessLoaded (?xs ! ?i) (?xs ! ?w) \<and> \<not> lessLoaded (?xs ! ?j) (?xs ! ?w)"
    unfolding w by (rule better_of_two)
  moreover have "orderCandidates found PolicyPowerOfTwo key intn = ?xs ! ?w # take ?w ?xs @ drop (Suc ?w) ?xs"
    using assms(1) by (simp add: orderCandidates_def Let_def)
  ultimately show ?thesis
    unfolding Let_def using ij(1) j ne
    by (intro exI [of _ ?i] exI [of _ ?j] exI [of _ ?w] conjI) (elim conjE, assumption)+
qed

theorem power_of_two_order_witness:
  "\<exists>i j w. i < length two_scored \<and> j < length two_scored \<and> i \<noteq> j \<and> (w = i \<or> w = j)
    \<and> (let xs = stable_sort lessLoaded two_scored in
        orderCandidates two_scored PolicyPowerOfTwo no_affinity (\<lambda>k m. 0) = xs ! w # take w xs @ drop (Suc w) xs
        \<and> \<not> lessLoaded (xs ! i) (xs ! w) \<and> \<not> lessLoaded (xs ! j) (xs ! w))"
  by (rule power_of_two_order) (simp_all add: two_scored_def)

text \<open>
  Rendezvous hashing disturbs as little as possible. With a prefix or session affinity, taking
  any set of candidates away (a node leaves, a breaker opens) leaves the relative order of all the
  others as it was; so requests whose preferred candidate stays keep it.
\<close>

theorem rendezvous_minimal_disruption:
  assumes "aff_ok key"
  shows "orderCandidates (filter P found) PolicyPrefixHash key intn =
         filter P (orderCandidates found PolicyPrefixHash key intn)"
  using assms
  by (simp add: orderCandidates_def least_load.filter_stable_sort [symmetric]
      prefix_rank.filter_stable_sort [symmetric])

theorem rendezvous_minimal_disruption_witness:
  "orderCandidates (filter (\<lambda>s. idle s > 0) [\<lparr>sc_Candidate = node_a, idle = 0, queued = 0, sc_inflight = 0\<rparr>])
      PolicyPrefixHash \<lparr>aff_hash = 7, aff_ok = True, aff_session = False\<rparr> (\<lambda>k m. 0) =
   filter (\<lambda>s. idle s > 0) (orderCandidates [\<lparr>sc_Candidate = node_a, idle = 0, queued = 0, sc_inflight = 0\<rparr>]
      PolicyPrefixHash \<lparr>aff_hash = 7, aff_ok = True, aff_session = False\<rparr> (\<lambda>k m. 0))"
  by (rule rendezvous_minimal_disruption) simp

text \<open>
  Scores separate candidates. Two candidates have the same rendezvous score for a key exactly
  when the FNV sums of their node and runtime ids collide: the final mixing is a bijection, and no
  key makes two candidates tie that another key tells apart.
\<close>

theorem rendezvous_ties:
  "rendezvousScore key c = rendezvousScore key d \<longleftrightarrow>
   fnv_write (NodeID c @ CHR 0x00 # RuntimeID c) fnv_offset = fnv_write (NodeID d @ CHR 0x00 # RuntimeID d) fnv_offset"
proof -
  have sum: "fnv_write (RuntimeID e) (fnv_write [CHR 0x00] (fnv_write (NodeID e) fnv_offset)) =
      fnv_write (NodeID e @ CHR 0x00 # RuntimeID e) fnv_offset" for e :: candidate
    by (simp add: fnv_write_def)
  have "key XOR (key XOR a) = a" for a :: "64 word"
    by (simp add: xor.assoc [symmetric])
  then have cancel: "key XOR a = key XOR b \<longleftrightarrow> a = b" for a b :: "64 word"
    by (metis (no_types))
  show ?thesis unfolding rendezvousScore_def sum mix64_inject cancel ..
qed

text \<open>
  Later turns of a conversation keep their fingerprint. Once a request contains a user message,
  any messages appended after those already there leave its prefix affinity unchanged.
\<close>

theorem prefix_affinity_stable:
  assumes "\<exists>m \<in> set ms. Role m = ''user''"
  shows "prefixAffinity (ms @ later) limit = prefixAffinity ms limit"
  using hash_messages_append [OF assms] by (simp add: prefixAffinity_def)

theorem prefix_affinity_stable_witness:
  "prefixAffinity ([\<lparr>Role = ''user'', Content = ''hi'', ContentParts = []\<rparr>]
     @ [\<lparr>Role = ''assistant'', Content = ''hello'', ContentParts = []\<rparr>]) 0 =
   prefixAffinity [\<lparr>Role = ''user'', Content = ''hi'', ContentParts = []\<rparr>] 0"
  by (rule prefix_affinity_stable) simp

text \<open>
  Weighted targets. For any random draws and any rounding, the arranged list names every
  candidate of every target exactly once, and a candidate never comes before one whose best target
  has a smaller priority number: weights only decide inside a priority.
\<close>

theorem weighted_respects_priority:
  assumes "sorted (map tc_priority groups)"
  shows "distinct (weightedCandidates fl draw groups)
    \<and> set (weightedCandidates fl draw groups) = (\<Union>g \<in> set groups. set (tc_candidates g))
    \<and> sorted (map (\<lambda>c. Min (tc_priority ` {g \<in> set groups. c \<in> set (tc_candidates g)}))
        (weightedCandidates fl draw groups))"
  using assms by (rule weighted_spec)

theorem weighted_respects_priority_witness:
  "set (weightedCandidates id (\<lambda>n. 1 / 2) [\<lparr>tc_priority = 1, tc_weight = 1, tc_candidates = [node_a]\<rparr>,
      \<lparr>tc_priority = 1, tc_weight = 3, tc_candidates = []\<rparr>]) = {node_a}"
  using weighted_respects_priority [of "[\<lparr>tc_priority = 1, tc_weight = 1, tc_candidates = [node_a]\<rparr>,
      \<lparr>tc_priority = 1, tc_weight = 3, tc_candidates = []\<rparr>]" id "\<lambda>n. 1 / 2"]
  by simp

end
