(* ===== verification/Routing.thy ===== *)
theory Routing
  imports Go_Strings
begin

text \<open>
  Logical models and the deployments behind them: \<open>common/modelroute\<close> (routes, their validation
  and their canonical form) and \<open>aiServeWeaveGateway/routing\<close> (the table the scheduler
  resolves aliases with). Reading route files from disk is not modelled.

  The canonical form is JSON, so the part of \<open>encoding/json\<close> that marshals routes is written
  out: field order, \<open>omitempty\<close>, map keys in byte order, and the escaping of strings.
\<close>


section \<open>Definitions\<close>

subsection \<open>common/modelroute: data\<close>

definition MaxRoutesBytes :: nat where "MaxRoutesBytes = 2 ^ 20"
definition MaxRoutes :: nat where "MaxRoutes = 1000"
definition MaxTargets :: nat where "MaxTargets = 100"

record target =
  RuntimeModel :: string
  NodeSelector :: "(string \<times> string) list"
  Priority :: int
  Weight :: int
  MinGPUMemoryBytes :: int

record route =
  route_Model :: string
  Targets :: "target list"

fun matches_loop :: "(string \<times> string) list \<Rightarrow> (string \<rightharpoonup> string) \<Rightarrow> bool" where
  "matches_loop [] labels = True"
| "matches_loop ((key, want) # rest) labels =
     (case labels key of
        None \<Rightarrow> False
      | Some got \<Rightarrow> if got \<noteq> want then False else matches_loop rest labels)"

definition MatchesNode :: "target \<Rightarrow> (string \<rightharpoonup> string) \<Rightarrow> bool" where
  "MatchesNode t labels = matches_loop (NodeSelector t) labels"

subsection \<open>encoding/json of routes\<close>

text \<open>
  \<open>json.Marshal\<close> of a string escapes quotes, backslashes, control characters, the characters
  \<open><\<close>, \<open>>\<close> and \<open>&\<close>, and the line separators U+2028 and U+2029; an invalid byte becomes
  the escaped replacement character.
\<close>

definition json_u :: "nat \<Rightarrow> string" where
  "json_u r = CHR 0x5C # ''u'' @ map hex_digit [r div 4096, r div 256 mod 16, r div 16 mod 16, r mod 16]"

definition json_rune :: "nat \<Rightarrow> string \<Rightarrow> string" where
  "json_rune r raw =
     (if r = 34 then [CHR 0x5C, CHR 0x22]
      else if r = 92 then [CHR 0x5C, CHR 0x5C]
      else if r = 8 then CHR 0x5C # ''b''
      else if r = 12 then CHR 0x5C # ''f''
      else if r = 10 then CHR 0x5C # ''n''
      else if r = 13 then CHR 0x5C # ''r''
      else if r = 9 then CHR 0x5C # ''t''
      else if r < 32 \<or> r = 60 \<or> r = 62 \<or> r = 38 \<or> r = 8232 \<or> r = 8233 then json_u r
      else raw)"

function json_chars :: "string \<Rightarrow> string" where
  "json_chars s = (if s = [] then []
     else case decode_rune s of
       None \<Rightarrow> json_u rune_error @ json_chars (tl s)
     | Some (r, n) \<Rightarrow> json_rune r (take n s) @ json_chars (drop n s))"
  by pat_completeness auto
termination by (relation "measure length") (auto dest: decode_rune_width)

declare json_chars.simps [simp del]

definition json_string :: "string \<Rightarrow> string" where
  "json_string s = [CHR 0x22] @ json_chars s @ [CHR 0x22]"

fun join :: "string \<Rightarrow> string list \<Rightarrow> string" where
  "join sep [] = []"
| "join sep [x] = x"
| "join sep (x # xs) = x @ sep @ join sep xs"

definition json_object :: "(string \<times> string) list \<Rightarrow> string" where
  "json_object kvs = ''{'' @ join '','' (map (\<lambda>(k, v). json_string k @ '':'' @ v) kvs) @ ''}''"

definition json_array :: "string list \<Rightarrow> string" where
  "json_array xs = ''['' @ join '','' xs @ '']''"

definition json_selector :: "(string \<times> string) list \<Rightarrow> string" where
  "json_selector m = json_object (map (\<lambda>(k, v). (k, json_string v)) (sort_key fst m))"

definition omit_zero :: "string \<Rightarrow> int \<Rightarrow> (string \<times> string) list" where
  "omit_zero name i = (if i = 0 then [] else [(name, itoa i)])"

definition json_target :: "target \<Rightarrow> string" where
  "json_target t = json_object
     ([(''runtime_model'', json_string (RuntimeModel t))]
      @ (if NodeSelector t = [] then [] else [(''node_selector'', json_selector (NodeSelector t))])
      @ omit_zero ''priority'' (Priority t)
      @ omit_zero ''weight'' (Weight t)
      @ omit_zero ''min_gpu_memory_bytes'' (MinGPUMemoryBytes t))"

definition json_route :: "route \<Rightarrow> string" where
  "json_route r = json_object
     [(''model'', json_string (route_Model r)), (''targets'', json_array (map json_target (Targets r)))]"

definition json_routes :: "route list \<Rightarrow> string" where
  "json_routes rs = json_array (map json_route rs)"

subsection \<open>common/modelroute: validation and canonical form\<close>

definition MaxSafeInteger :: int where "MaxSafeInteger = 9007199254740991"

fun validate_selector :: "(string \<times> string) list \<Rightarrow> string option" where
  "validate_selector [] = None"
| "validate_selector ((k, v) # rest) =
     (if TrimSpace k = '''' then Some ''modelroute: empty selector label'' else validate_selector rest)"

fun validate_targets :: "target list \<Rightarrow> string option" where
  "validate_targets [] = None"
| "validate_targets (t # ts) =
     (if TrimSpace (RuntimeModel t) = '''' \<or> Weight t < 0 \<or> Weight t > MaxSafeInteger
         \<or> Priority t > MaxSafeInteger \<or> Priority t < - MaxSafeInteger
      then Some ''modelroute: invalid target''
      else if MinGPUMemoryBytes t < 0 \<or> MinGPUMemoryBytes t > MaxSafeInteger
      then Some ''modelroute: invalid target''
      else case validate_selector (NodeSelector t) of
        Some e \<Rightarrow> Some e
      | None \<Rightarrow> validate_targets ts)"

definition Route_Validate :: "route \<Rightarrow> string option" where
  "Route_Validate r =
     (if TrimSpace (route_Model r) = '''' then Some ''modelroute: empty model''
      else if length (Targets r) = 0 \<or> length (Targets r) > MaxTargets
      then Some ''modelroute: invalid target count''
      else validate_targets (Targets r))"

fun validate_routes :: "route list \<Rightarrow> string list \<Rightarrow> string option" where
  "validate_routes [] seen = None"
| "validate_routes (r # rs) seen =
     (case Route_Validate r of
        Some e \<Rightarrow> Some e
      | None \<Rightarrow> if List.member seen (route_Model r) then Some ''modelroute: duplicate alias''
                else validate_routes rs (route_Model r # seen))"

definition Validate :: "route list \<Rightarrow> string option" where
  "Validate routes =
     (if length routes > MaxRoutes then Some ''modelroute: too many aliases''
      else case validate_routes routes [] of
        Some e \<Rightarrow> Some e
      | None \<Rightarrow> if length (json_routes routes) > MaxRoutesBytes
                then Some ''modelroute: route array exceeds limit'' else None)"

text \<open>Aliases are distinct after validation, so \<open>sort.Slice\<close> has one possible result.\<close>

definition Canonical :: "route list \<Rightarrow> string + string" where
  "Canonical routes = (case Validate routes of
       Some e \<Rightarrow> Inl e
     | None \<Rightarrow> Inr (json_routes (sort_key route_Model routes)))"

text \<open>SHA-256 is a parameter: a function from bytes to the bytes of the sum.\<close>

definition Digest :: "(string \<Rightarrow> 8 word list) \<Rightarrow> route list \<Rightarrow> string + string" where
  "Digest sha256 routes = (case Canonical routes of
       Inl e \<Rightarrow> Inl e
     | Inr body \<Rightarrow> Inr (hex_encode (sha256 body)))"

subsection \<open>gateway/routing: the table\<close>

record table =
  byModel :: "string \<rightharpoonup> target list"
  models :: "string list"

definition sort_targets :: "target list \<Rightarrow> target list" where
  "sort_targets ts = stable_sort (\<lambda>a b. Priority a < Priority b) ts"

fun build_table :: "route list \<Rightarrow> table \<Rightarrow> table" where
  "build_table [] t = t"
| "build_table (r # rs) t = build_table rs
     (t\<lparr>byModel := (byModel t)(route_Model r \<mapsto> sort_targets (Targets r)),
        models := models t @ [route_Model r]\<rparr>)"

definition Table_New :: "route list \<Rightarrow> string + table" where
  "Table_New routes = (case Validate routes of
       Some e \<Rightarrow> Inl e
     | None \<Rightarrow> let t = build_table routes \<lparr>byModel = Map.empty, models = []\<rparr> in
               Inr (t\<lparr>models := sort (models t)\<rparr>))"

text \<open>A nil table resolves nothing. Targets are values here, so cloning them is the identity.\<close>

definition Table_Resolve :: "table option \<Rightarrow> string \<Rightarrow> target list option" where
  "Table_Resolve t model = (case t of None \<Rightarrow> None | Some t \<Rightarrow> byModel t model)"

definition Table_Models :: "table option \<Rightarrow> string list" where
  "Table_Models t = (case t of None \<Rightarrow> [] | Some t \<Rightarrow> models t)"

definition Table_Len :: "table option \<Rightarrow> nat" where
  "Table_Len t = (case t of None \<Rightarrow> 0 | Some t \<Rightarrow> card (dom (byModel t)))"

definition Table_Routes :: "table option \<Rightarrow> route list" where
  "Table_Routes t = (case t of
       None \<Rightarrow> []
     | Some t \<Rightarrow> map (\<lambda>m. \<lparr>route_Model = m,
                   Targets = (case byModel t m of None \<Rightarrow> [] | Some ts \<Rightarrow> ts)\<rparr>) (models t))"

text \<open>Characters that JSON leaves alone, and a route with its targets in the order of a table.\<close>

definition json_plain :: "char \<Rightarrow> bool" where
  "json_plain c \<longleftrightarrow> 32 \<le> byte c \<and> byte c < 128 \<and> byte c \<notin> {34, 38, 60, 62, 92}"

definition arranged :: "route \<Rightarrow> route" where
  "arranged r = \<lparr>route_Model = route_Model r, Targets = sort_targets (Targets r)\<rparr>"

subsection \<open>Concrete inputs\<close>

definition plain_target :: "string \<Rightarrow> int \<Rightarrow> target" where
  "plain_target m p =
     \<lparr>RuntimeModel = m, NodeSelector = [], Priority = p, Weight = 0, MinGPUMemoryBytes = 0\<rparr>"

definition two_routes :: "route list" where
  "two_routes = [\<lparr>route_Model = ''b'', Targets = [plain_target ''x'' 2, plain_target ''y'' 1]\<rparr>,
                 \<lparr>route_Model = ''a'', Targets = [plain_target ''x'' 0]\<rparr>]"


section \<open>Lemmas\<close>

lemma matches_loop_iff: "matches_loop sel labels \<longleftrightarrow> (\<forall>(k, v) \<in> set sel. labels k = Some v)"
  by (induction sel labels rule: matches_loop.induct) (auto split: option.splits)

subsection \<open>Validation\<close>

lemma validate_routes_spec:
  "validate_routes rs seen = None \<longleftrightarrow>
     (\<forall>r \<in> set rs. Route_Validate r = None) \<and> distinct (map route_Model rs)
     \<and> route_Model ` set rs \<inter> set seen = {}"
  by (induction rs seen rule: validate_routes.induct) (auto split: option.splits)

lemma Validate_None_iff:
  "Validate rs = None \<longleftrightarrow> length rs \<le> MaxRoutes \<and> (\<forall>r \<in> set rs. Route_Validate r = None)
     \<and> distinct (map route_Model rs) \<and> length (json_routes rs) \<le> MaxRoutesBytes"
proof -
  have "Validate rs = None \<longleftrightarrow> length rs \<le> MaxRoutes \<and> validate_routes rs [] = None
     \<and> length (json_routes rs) \<le> MaxRoutesBytes"
    by (auto simp: Validate_def split: option.splits)
  then show ?thesis by (simp add: validate_routes_spec)
qed

lemma length_join: "length (join sep xs) = sum_list (map length xs) + length sep * (length xs - 1)"
  by (induction sep xs rule: join.induct) auto

lemma length_json_array_mset: "mset xs = mset ys \<Longrightarrow> length (json_array xs) = length (json_array ys)"
proof -
  assume m: "mset xs = mset ys"
  then have "mset (map length xs) = mset (map length ys)" by simp
  then have "sum_list (map length xs) = sum_list (map length ys)"
    by (metis sum_mset_sum_list)
  moreover have "length xs = length ys" using m by (metis size_mset)
  ultimately show ?thesis by (simp add: json_array_def length_join)
qed

lemma Validate_mset:
  assumes "mset rs = mset rs'"
  shows "Validate rs = None \<longleftrightarrow> Validate rs' = None"
proof -
  have "length rs = length rs'" and "set rs = set rs'" using assms by (metis size_mset, metis set_mset_mset)
  moreover have "distinct (map route_Model rs) = distinct (map route_Model rs')"
    using assms by (metis mset_eq_imp_distinct_iff mset_map)
  moreover have "length (json_routes rs) = length (json_routes rs')"
    using assms by (simp add: json_routes_def length_json_array_mset)
  ultimately show ?thesis
    by (simp add: Validate_None_iff)
qed

lemma distinct_set_singleton: "set xs = {k} \<Longrightarrow> distinct xs \<Longrightarrow> xs = [k]"
  by (cases xs) (auto, metis ex_in_conv set_empty singletonD subsetD)

lemma sort_key_mset_unique:
  assumes "mset xs = mset ys" and "distinct (map f xs)"
  shows "sort_key f xs = sort_key f ys"
proof (rule properties_for_sort_key)
  show "mset (sort_key f ys) = mset xs" using assms(1) by simp
  show "sorted (map f (sort_key f ys))" by simp
  fix k assume "k \<in> set (sort_key f ys)"
  have inj: "inj_on f (set xs)" using assms(2) by (simp add: distinct_map)
  have d: "distinct xs" and d': "distinct (sort_key f ys)"
    using assms by (simp_all add: distinct_map) (metis mset_eq_imp_distinct_iff)
  have s: "set (sort_key f ys) = set xs" using assms(1) by (metis set_mset_mset set_sort)
  have one: "filter (\<lambda>x. f k = f x) zs = [k]" if "distinct zs" and "set zs = set xs" for zs
  proof -
    have "k \<in> set zs" using that(2) s \<open>k \<in> set (sort_key f ys)\<close> by simp
    then have "set (filter (\<lambda>x. f k = f x) zs) = {k}" using inj that(2) by (auto dest: inj_onD)
    moreover have "distinct (filter (\<lambda>x. f k = f x) zs)" using that(1) by simp
    ultimately show ?thesis by (rule distinct_set_singleton)
  qed
  show "filter (\<lambda>x. f k = f x) (sort_key f ys) = filter (\<lambda>x. f k = f x) xs"
    using one [OF d' s] one [OF d] by simp
qed

lemma json_chars_plain: "list_all json_plain s \<Longrightarrow> json_chars s = s"
proof (induction s)
  case Nil
  then show ?case by (simp add: json_chars.simps)
next
  case (Cons c s)
  then have "decode_rune (c # s) = Some (byte c, 1)" by (simp add: json_plain_def)
  with Cons show ?case
    by (subst json_chars.simps) (auto simp: json_rune_def json_plain_def)
qed

lemma validate_targets_spec:
  "validate_targets ts = None \<longleftrightarrow> (\<forall>t \<in> set ts. validate_targets [t] = None)"
  by (induction ts rule: validate_targets.induct) (auto split: option.splits if_splits)

subsection \<open>The table\<close>

interpretation by_priority: strict_weak_order "\<lambda>a b. Priority a < Priority b"
  by unfold_locales linarith+

lemma build_table_models: "models (build_table rs t) = models t @ map route_Model rs"
  by (induction rs t rule: build_table.induct) simp_all

lemma build_table_lookup:
  "distinct (map route_Model rs) \<Longrightarrow>
   byModel (build_table rs t) m =
     (case find (\<lambda>r. route_Model r = m) rs of
        Some r \<Rightarrow> Some (sort_targets (Targets r)) | None \<Rightarrow> byModel t m)"
proof (induction rs t rule: build_table.induct)
  case (1 t)
  then show ?case by simp
next
  case (2 r rs t)
  have "find (\<lambda>r'. route_Model r' = route_Model r) rs = None"
    using 2(2) by (simp add: find_None_iff) (metis image_eqI)
  with 2 show ?case by (auto split: option.splits)
qed

lemma build_table_dom:
  assumes "distinct (map route_Model rs)"
  shows "dom (byModel (build_table rs \<lparr>byModel = Map.empty, models = []\<rparr>)) = route_Model ` set rs"
proof (rule set_eqI)
  fix m
  have "find (\<lambda>r. route_Model r = m) rs = None \<longleftrightarrow> m \<notin> route_Model ` set rs"
    by (auto simp: find_None_iff)
  then show "m \<in> dom (byModel (build_table rs \<lparr>byModel = Map.empty, models = []\<rparr>)) \<longleftrightarrow>
      m \<in> route_Model ` set rs"
    by (cases "find (\<lambda>r. route_Model r = m) rs") (simp_all add: build_table_lookup [OF assms] dom_def)
qed

lemma find_distinct:
  "distinct (map f rs) \<Longrightarrow> r \<in> set rs \<Longrightarrow> find (\<lambda>x. f x = f r) rs = Some r"
  by (induction rs) auto


lemma sort_targets_idem [simp]: "sort_targets (sort_targets ts) = sort_targets ts"
  unfolding sort_targets_def by (rule by_priority.stable_sort_idem)

lemma sort_targets_mset [simp]: "mset (sort_targets ts) = mset ts" "set (sort_targets ts) = set ts"
    "length (sort_targets ts) = length ts"
  by (simp_all add: sort_targets_def)

lemma Table_NewD:
  assumes "Table_New rs = Inr t"
  shows "Validate rs = None"
    and "t = (build_table rs \<lparr>byModel = Map.empty, models = []\<rparr>)\<lparr>models := sort (map route_Model rs)\<rparr>"
    and "distinct (map route_Model rs)"
proof -
  from assms show v: "Validate rs = None"
    and "t = (build_table rs \<lparr>byModel = Map.empty, models = []\<rparr>)\<lparr>models := sort (map route_Model rs)\<rparr>"
    by (auto simp: Table_New_def Let_def build_table_models split: option.splits)
  from v show "distinct (map route_Model rs)" by (simp add: Validate_None_iff)
qed

lemma Validate_arranged: "Validate (map arranged rs) = None \<longleftrightarrow> Validate rs = None"
proof -
  have "Route_Validate (arranged r) = None \<longleftrightarrow> Route_Validate r = None" for r
    using validate_targets_spec [of "Targets r"] validate_targets_spec [of "sort_targets (Targets r)"]
    by (simp add: Route_Validate_def arranged_def)
  moreover have "length (json_route (arranged r)) = length (json_route r)" for r
    using length_json_array_mset [of "map json_target (sort_targets (Targets r))" "map json_target (Targets r)"]
    by (simp add: json_route_def arranged_def json_object_def)
  then have "length (json_routes (map arranged rs)) = length (json_routes rs)"
    by (simp add: json_routes_def json_array_def length_join comp_def)
  moreover have "map route_Model (map arranged rs) = map route_Model rs" by (simp add: arranged_def)
  ultimately show ?thesis
    by (simp only: Validate_None_iff length_map) simp
qed

lemma mset_Table_Routes:
  assumes "Table_New rs = Inr t"
  shows "mset (Table_Routes (Some t)) = mset (map arranged rs)"
proof -
  note t = Table_NewD(2) [OF assms] and d = Table_NewD(3) [OF assms]
  let ?g = "\<lambda>m. \<lparr>route_Model = m, Targets = (case byModel t m of None \<Rightarrow> [] | Some ts \<Rightarrow> ts)\<rparr>"
  have "?g (route_Model r) = arranged r" if "r \<in> set rs" for r
    using find_distinct [OF d that] by (simp add: t build_table_lookup [OF d] arranged_def)
  then have "map (\<lambda>r. ?g (route_Model r)) rs = map arranged rs" by simp
  moreover have "mset (Table_Routes (Some t)) = mset (map (\<lambda>r. ?g (route_Model r)) rs)"
    by (simp add: Table_Routes_def t image_mset.compositionality comp_def)
  ultimately show ?thesis by (simp only:)
qed


lemma Validate_two_routes: "Validate two_routes = None"
proof -
  have "\<forall>r \<in> set two_routes. Route_Validate r = None"
    by (simp add: two_routes_def Route_Validate_def plain_target_def MaxTargets_def MaxSafeInteger_def
        TrimSpace_printable printable_def)
  moreover have "length (json_routes two_routes) \<le> MaxRoutesBytes"
    by (simp add: two_routes_def json_routes_def json_array_def json_route_def json_object_def
        json_target_def json_string_def json_chars_plain json_plain_def plain_target_def omit_zero_def
        itoa_def itoa_nat.simps MaxRoutesBytes_def)
  ultimately show ?thesis by (simp add: Validate_None_iff) (simp add: two_routes_def MaxRoutes_def)
qed

lemma Table_New_two_routes:
  "Table_New two_routes = Inr \<lparr>byModel = [''b'' \<mapsto> [plain_target ''y'' 1, plain_target ''x'' 2],
     ''a'' \<mapsto> [plain_target ''x'' 0]], models = [''a'', ''b'']\<rparr>"
  by (simp add: Table_New_def Validate_two_routes)
     (simp add: two_routes_def sort_targets_def plain_target_def less_char_def)

section \<open>Properties\<close>

text \<open>
  Node selection. A target matches a node exactly when every label of its selector is present on
  the node with the selected value.
\<close>

theorem MatchesNode_iff:
  "MatchesNode t labels = (set (NodeSelector t) \<subseteq> {(k, v). labels k = Some v})"
  by (auto simp: MatchesNode_def matches_loop_iff)

text \<open>
  The digest identifies content, not order. Publishing the same routes in any order is accepted
  or rejected alike, and yields the same canonical document, hence the same digest for any hash
  function.
\<close>

theorem Canonical_order_independent:
  assumes "mset rs = mset rs'" and "Validate rs = None"
  shows "Canonical rs = Canonical rs' \<and> Digest sha256 rs = Digest sha256 rs'
    \<and> (\<exists>body. Canonical rs = Inr body)"
proof -
  have "distinct (map route_Model rs)"
    using assms(2) by (simp add: Validate_None_iff)
  from sort_key_mset_unique [OF assms(1) this] have "sort_key route_Model rs = sort_key route_Model rs'" .
  moreover have "Validate rs' = None" using assms Validate_mset by blast
  ultimately show ?thesis using assms(2) by (simp add: Canonical_def Digest_def)
qed

theorem Canonical_order_independent_witness:
  "Canonical two_routes = Canonical (rev two_routes)"
  using Canonical_order_independent [of two_routes "rev two_routes"] Validate_two_routes by simp

text \<open>
  The routing table. A table built from valid routes answers every alias with exactly that
  route's targets, arranged by priority with equal priorities in the order the operator wrote, knows
  no other alias, and lists the aliases sorted.
\<close>

theorem Table_New_resolves:
  assumes "Table_New rs = Inr t"
  shows "(\<forall>r \<in> set rs. Table_Resolve (Some t) (route_Model r) = Some (sort_targets (Targets r)))
    \<and> dom (Table_Resolve (Some t)) = route_Model ` set rs
    \<and> Table_Models (Some t) = sort (map route_Model rs)
    \<and> Table_Len (Some t) = length rs"
proof -
  note t = Table_NewD(2) [OF assms] and d = Table_NewD(3) [OF assms]
  have dom: "dom (byModel t) = route_Model ` set rs"
    using build_table_dom [OF d] by (simp add: t)
  have "card (route_Model ` set rs) = length rs"
    using d by (metis distinct_card length_map list.set_map)
  moreover have "Table_Resolve (Some t) = byModel t" by (simp add: Table_Resolve_def fun_eq_iff)
  moreover have "byModel t (route_Model r) = Some (sort_targets (Targets r))" if "r \<in> set rs" for r
    using find_distinct [OF d that] by (simp add: t build_table_lookup [OF d])
  ultimately show ?thesis
    using dom by (simp add: Table_Models_def Table_Len_def) (simp add: t)
qed

theorem Table_New_resolves_witness:
  "Table_Len (Some \<lparr>byModel = [''b'' \<mapsto> [plain_target ''y'' 1, plain_target ''x'' 2],
     ''a'' \<mapsto> [plain_target ''x'' 0]], models = [''a'', ''b'']\<rparr>) = 2"
  using Table_New_resolves [OF Table_New_two_routes] by (simp add: two_routes_def)

text \<open>
  Priorities. The targets of an alias come out in ascending priority, are a permutation of what
  the operator wrote, and any selection of them (in particular those of one priority) keeps the
  written order.
\<close>

theorem sort_targets_stable:
  "sorted (map Priority (sort_targets ts)) \<and> mset (sort_targets ts) = mset ts
   \<and> filter (\<lambda>t. Priority t = p) (sort_targets ts) = filter (\<lambda>t. Priority t = p) ts"
proof -
  have "sorted_wrt (\<lambda>a b. \<not> Priority b < Priority a) (sort_targets ts)"
    unfolding sort_targets_def by (rule by_priority.sorted_stable_sort)
  then have "sorted (map Priority (sort_targets ts))"
    by (simp add: sorted_map not_less)
  moreover have "filter (\<lambda>t. Priority t = p) (sort_targets ts) =
      stable_sort (\<lambda>a b. Priority a < Priority b) (filter (\<lambda>t. Priority t = p) ts)"
    unfolding sort_targets_def by (rule by_priority.filter_stable_sort)
  moreover have "\<dots> = filter (\<lambda>t. Priority t = p) ts"
    by (rule by_priority.stable_sort_sorted) (induction ts, auto)
  ultimately show ?thesis by (simp add: sort_targets_def)
qed

text \<open>
  Republishing. The routes a table reports are always valid input, and the table built from them
  is the same table: a replica that loads what another one reports routes identically.
\<close>

theorem Table_Routes_roundtrip:
  assumes "Table_New rs = Inr t"
  shows "Table_New (Table_Routes (Some t)) = Inr t"
proof -
  note valid = Table_NewD(1) [OF assms] and d = Table_NewD(3) [OF assms]
  let ?zero = "\<lparr>byModel = Map.empty, models = []\<rparr>"
  have bt: "byModel t = byModel (build_table rs ?zero)" and mt: "models t = sort (map route_Model rs)"
    by (subst Table_NewD(2) [OF assms], simp)+
  let ?rs = "Table_Routes (Some t)"
  have perm: "mset ?rs = mset (map arranged rs)" by (rule mset_Table_Routes [OF assms])
  then have v': "Validate ?rs = None"
    using Validate_mset [OF perm] Validate_arranged [of rs] valid by simp
  have m: "map route_Model ?rs = models t" by (simp add: Table_Routes_def comp_def)
  have dm: "distinct (map route_Model ?rs)" unfolding m mt using d by simp
  have "byModel (build_table ?rs ?zero) k = byModel t k" for k
  proof (cases "k \<in> route_Model ` set rs")
    case True
    then obtain r where r: "r \<in> set rs" "route_Model r = k" by auto
    have "arranged r \<in> set ?rs" using r perm by (metis image_eqI list.set_map set_mset_mset)
    from find_distinct [OF dm this] find_distinct [OF d r(1)] r(2) show ?thesis
      by (simp add: bt build_table_lookup [OF dm] build_table_lookup [OF d] arranged_def)
  next
    case False
    moreover have "set (map route_Model ?rs) = route_Model ` set rs" unfolding m mt by simp
    ultimately have "k \<notin> dom (byModel (build_table ?rs ?zero))" and "k \<notin> dom (byModel t)"
      unfolding bt build_table_dom [OF dm] build_table_dom [OF d] by simp_all
    then show ?thesis by (simp add: domIff)
  qed
  then have "byModel (build_table ?rs ?zero) = byModel t" by blast
  moreover have "sort (models t) = models t" by (simp add: mt sorted_sort_id)
  ultimately have "(build_table ?rs ?zero)\<lparr>models := sort (models t)\<rparr> = t" by simp
  then show ?thesis
    using v' by (simp add: Table_New_def build_table_models m)
qed

theorem Table_Routes_roundtrip_witness:
  "\<exists>t. Table_New two_routes = Inr t \<and> Table_New (Table_Routes (Some t)) = Inr t"
  using Table_Routes_roundtrip [OF Table_New_two_routes] Table_New_two_routes by blast

end
