(* ===== verification/Scheduler.thy ===== *)
theory Scheduler
  imports Placement Routing "HOL-Library.Product_Lexorder"
begin

text \<open>
  \<open>aiServeWeaveGateway/scheduler/scheduler.go\<close>: selecting candidates for a request and
  dispatching to them.

  What the scheduler does not compute itself is an environment: the node views
  \<open>tunnelserver.Server.Nodes\<close> returns (after the random shuffle), the clock, the random numbers
  and the rounding of float sums. Every reading happens at a tick of the scheduler's own counter and
  the environment is a function of the tick, so nothing is assumed to stay the same between two
  readings. The answers of the backends are a parameter in the same way. Metrics calls are
  appended to a trace; log lines are left out.
\<close>


section \<open>Definitions\<close>

subsection \<open>The node view\<close>

datatype rt_state = StateRegistering | StateUnknown | StateHealthy | StateUnhealthy | StateClosed

record rt_model =
  m_ID :: string
  m_Capabilities :: capability_set
  m_DisplayName :: string
  m_DisplayOrder :: nat

text \<open>A runtime's \<open>Snapshot\<close>: the fields the scheduler reads.\<close>

record snapshot =
  snap_ID :: string
  snap_Kind :: string
  snap_State :: rt_state
  snap_Capabilities :: capability_set
  snap_Models :: "rt_model list"
  snap_QueueRunning :: int
  snap_QueuePending :: int

text \<open>
  \<open>tunnelserver.NodeInfo\<close>: the fields the scheduler reads. \<open>Resources\<close> is the declared GPU
  memory, \<open>None\<close> when the node has not reported its hardware; \<open>IdleInference\<close> is the
  \<open>IdleSlots\<close> entry of the inference class, 0 when absent.
\<close>

record node_info =
  ni_NodeID :: string
  ni_Resources :: "int option"
  ni_Labels :: "string \<rightharpoonup> string"
  ni_Runtimes :: "snapshot list"
  ni_IdleInference :: int
  ni_InflightRequests :: int
  ni_Draining :: bool
  ni_Maintenance :: bool
  ni_Live :: bool

definition nodeHasCapacity :: "node_info \<Rightarrow> int \<Rightarrow> bool" where
  "nodeHasCapacity node minBytes =
     (if minBytes \<le> 0 then True
      else case ni_Resources node of
        None \<Rightarrow> True
      | Some gpu \<Rightarrow> if gpu \<le> 0 then True else gpu \<ge> minBytes)"

definition runtimeHealthy :: "rt_state \<Rightarrow> bool" where
  "runtimeHealthy st \<longleftrightarrow> st \<noteq> StateUnhealthy \<and> st \<noteq> StateClosed"

subsection \<open>The scheduler and its environment\<close>

datatype sched_event =
  Selection capability nat
| Dispatch candidate "go_error option"
| Retry capability
| BreakerEvent breaker_event

record scheduler =
  routes :: "table option"
  breakers :: breaker_registry
  sched_policy :: Placement.policy
  prefixBytes :: int
  sessionAffinityOn :: bool
  tick :: nat
  trace :: "sched_event list"

record env =
  env_nodes :: "nat \<Rightarrow> node_info list"
  env_now :: "nat \<Rightarrow> go_time"
  env_intn :: "nat \<Rightarrow> nat \<Rightarrow> nat \<Rightarrow> nat"
  env_draw :: "nat \<Rightarrow> nat \<Rightarrow> rat"
  env_fl :: "rat \<Rightarrow> rat"

record config =
  cfg_FailureThreshold :: int
  cfg_BaseCooldown :: duration
  cfg_MaxCooldown :: duration
  cfg_RateLimitCooldown :: duration
  cfg_MaxRateLimitCooldown :: duration
  cfg_SessionAffinity :: bool
  cfg_Routes :: "table option"
  cfg_Policy :: "Placement.policy option"
  cfg_PrefixBytes :: int

definition Scheduler_New :: "config \<Rightarrow> scheduler" where
  "Scheduler_New cfg =
     \<lparr>routes = cfg_Routes cfg,
      breakers = withRateLimit (cfg_RateLimitCooldown cfg) (cfg_MaxRateLimitCooldown cfg)
        (newBreakerRegistry (cfg_FailureThreshold cfg) (cfg_BaseCooldown cfg) (cfg_MaxCooldown cfg)),
      sched_policy = (case cfg_Policy cfg of None \<Rightarrow> PolicyLeastLoad | Some p \<Rightarrow> p),
      prefixBytes = (if cfg_PrefixBytes cfg \<le> 0 then defaultPrefixBytes else cfg_PrefixBytes cfg),
      sessionAffinityOn = cfg_SessionAffinity cfg,
      tick = 0, trace = []\<rparr>"

definition SetRoutes :: "table option \<Rightarrow> scheduler \<Rightarrow> scheduler" where
  "SetRoutes t s = s\<lparr>routes := t\<rparr>"

definition emit :: "sched_event list \<Rightarrow> scheduler \<Rightarrow> scheduler" where
  "emit evs s = s\<lparr>trace := trace s @ evs\<rparr>"

definition advance :: "nat \<Rightarrow> scheduler \<Rightarrow> scheduler" where
  "advance n s = s\<lparr>tick := tick s + n\<rparr>"

subsection \<open>Selecting candidates\<close>

fun scan_runtimes ::
  "breaker_registry \<Rightarrow> go_time \<Rightarrow> target \<Rightarrow> (snapshot \<Rightarrow> bool) \<Rightarrow> node_info \<Rightarrow> snapshot list \<Rightarrow>
   scored list \<times> breaker_event list" where
  "scan_runtimes br now tgt elig node [] = ([], [])"
| "scan_runtimes br now tgt elig node (snap # snaps) =
     (let rest = scan_runtimes br now tgt elig node snaps in
      if \<not> runtimeHealthy (snap_State snap) then rest
      else if \<not> elig snap then rest
      else
        let c = \<lparr>NodeID = ni_NodeID node, RuntimeID = snap_ID snap, Kind = snap_Kind snap,
                 Model = RuntimeModel tgt\<rparr>;
            (ok, evs) = eligible br c now in
        if \<not> ok then (fst rest, evs @ snd rest)
        else (\<lparr>sc_Candidate = c, idle = ni_IdleInference node,
               queued = snap_QueueRunning snap + snap_QueuePending snap,
               sc_inflight = ni_InflightRequests node\<rparr> # fst rest, evs @ snd rest))"

fun scan_nodes ::
  "request_ctx \<Rightarrow> breaker_registry \<Rightarrow> go_time \<Rightarrow> target \<Rightarrow> (snapshot \<Rightarrow> bool) \<Rightarrow> node_info list \<Rightarrow>
   scored list \<times> breaker_event list" where
  "scan_nodes ctx br now tgt elig [] = ([], [])"
| "scan_nodes ctx br now tgt elig (node # nodes) =
     (let rest = scan_nodes ctx br now tgt elig nodes in
      if \<not> ni_Live node \<or> ni_Draining node \<or> ni_Maintenance node then rest
      else if \<not> MatchesNode tgt (ni_Labels node) then rest
      else if \<not> nodeAllowed ctx (ni_NodeID node) then rest
      else if \<not> nodeHasCapacity node (MinGPUMemoryBytes tgt) then rest
      else let here = scan_runtimes br now tgt elig node (ni_Runtimes node) in
        (fst here @ fst rest, snd here @ snd rest))"

definition pickBy ::
  "env \<Rightarrow> request_ctx \<Rightarrow> target \<Rightarrow> Placement.policy \<Rightarrow> affinity \<Rightarrow> (snapshot \<Rightarrow> bool) \<Rightarrow> scheduler \<Rightarrow>
   candidate list \<times> scheduler" where
  "pickBy env ctx tgt pol key elig s =
     (let nodes = env_nodes env (tick s);
          now = env_now env (tick s);
          (found, evs) = scan_nodes ctx (breakers s) now tgt elig nodes;
          ordered = orderCandidates found pol key (env_intn env (tick s)) in
      (map sc_Candidate ordered, advance 1 (emit (map BreakerEvent evs) s)))"

fun serves_model :: "target \<Rightarrow> capability \<Rightarrow> snapshot \<Rightarrow> rt_model list \<Rightarrow> bool" where
  "serves_model tgt cap snap [] = False"
| "serves_model tgt cap snap (m # ms) =
     (if m_ID m \<noteq> RuntimeModel tgt then serves_model tgt cap snap ms
      else if Require (Intersect (snap_Capabilities snap) (m_Capabilities m)) cap = None then True
      else serves_model tgt cap snap ms)"

definition pick ::
  "env \<Rightarrow> request_ctx \<Rightarrow> target \<Rightarrow> capability \<Rightarrow> affinity \<Rightarrow> scheduler \<Rightarrow> candidate list \<times> scheduler" where
  "pick env ctx tgt cap key s =
     (let pol = (if aff_session key then PolicyPrefixHash else sched_policy s) in
      pickBy env ctx tgt pol key (\<lambda>snap. serves_model tgt cap snap (snap_Models snap)) s)"

fun pick_targets ::
  "env \<Rightarrow> request_ctx \<Rightarrow> capability \<Rightarrow> affinity \<Rightarrow> target list \<Rightarrow> scheduler \<Rightarrow>
   target_candidates list \<times> scheduler" where
  "pick_targets env ctx cap key [] s = ([], s)"
| "pick_targets env ctx cap key (t # ts) s =
     (let (cs, s1) = pick env ctx t cap key s;
          (groups, s2) = pick_targets env ctx cap key ts s1 in
      (\<lparr>tc_priority = Priority t, tc_weight = Weight t, tc_candidates = cs\<rparr> # groups, s2))"

definition candidatesKeyed ::
  "env \<Rightarrow> request_ctx \<Rightarrow> table option \<Rightarrow> string \<Rightarrow> capability \<Rightarrow> affinity \<Rightarrow> scheduler \<Rightarrow>
   candidate list \<times> scheduler" where
  "candidatesKeyed env ctx rts model cap key s =
     (let targets = (case Table_Resolve rts model of
            Some ts \<Rightarrow> ts
          | None \<Rightarrow> [\<lparr>RuntimeModel = model, NodeSelector = [], Priority = 0, Weight = 0,
                      MinGPUMemoryBytes = 0\<rparr>]);
          (groups, s1) = pick_targets env ctx cap key targets s in
      (weightedCandidates (env_fl env) (env_draw env (tick s1)) groups, advance 1 s1))"

definition candidatesWith ::
  "env \<Rightarrow> request_ctx \<Rightarrow> table option \<Rightarrow> string \<Rightarrow> capability \<Rightarrow> scheduler \<Rightarrow> candidate list \<times> scheduler" where
  "candidatesWith env ctx rts model cap s = candidatesKeyed env ctx rts model cap no_affinity s"

definition candidates ::
  "env \<Rightarrow> request_ctx \<Rightarrow> string \<Rightarrow> capability \<Rightarrow> scheduler \<Rightarrow> candidate list \<times> scheduler" where
  "candidates env ctx model cap s = candidatesWith env ctx (routes s) model cap s"

subsection \<open>Requests\<close>

text \<open>
  A request is its model and a body: for chat the messages and everything else, for the other
  operations everything else. \<open>withModel\<close> and its variants rewrite the model only.
\<close>

record 'b request =
  rq_Model :: string
  rq_Body :: 'b

record chat_body =
  Messages :: "message list"
  Sampling :: string

definition withModel :: "chat_body request \<Rightarrow> string \<Rightarrow> chat_body request" where
  "withModel req model = (if model = '''' \<or> model = rq_Model req then req else req\<lparr>rq_Model := model\<rparr>)"

definition withEmbedModel :: "string request \<Rightarrow> string \<Rightarrow> string request" where
  "withEmbedModel req model = (if model = '''' \<or> model = rq_Model req then req else req\<lparr>rq_Model := model\<rparr>)"

definition withRerankModel :: "string request \<Rightarrow> string \<Rightarrow> string request" where
  "withRerankModel req model = (if model = '''' \<or> model = rq_Model req then req else req\<lparr>rq_Model := model\<rparr>)"

definition chatCandidates ::
  "env \<Rightarrow> request_ctx \<Rightarrow> chat_body request \<Rightarrow> capability \<Rightarrow> scheduler \<Rightarrow> candidate list \<times> scheduler" where
  "chatCandidates env ctx req cap s =
     (let key0 = sessionAffinity (sessionAffinityOn s) ctx;
          key = (if \<not> aff_ok key0 \<and> sched_policy s = PolicyPrefixHash
                 then prefixAffinity (Messages (rq_Body req)) (prefixBytes s) else key0) in
      candidatesKeyed env ctx (routes s) (rq_Model req) cap key s)"

subsection \<open>Dispatching\<close>

definition retryable :: "go_error \<Rightarrow> bool" where
  "retryable err = (case as_runtime_error err of None \<Rightarrow> False | Some rtErr \<Rightarrow> err_Retryable rtErr)"

text \<open>
  The three results of a dispatching method: the response, the candidate and the error.
  \<open>settle\<close> is what follows every attempt: the breaker records the outcome at the instant read
  then, and the attempt is counted.
\<close>

type_synonym 'r outcome = "'r option \<times> candidate option \<times> go_error option"

definition settle :: "env \<Rightarrow> candidate \<Rightarrow> go_error option \<Rightarrow> scheduler \<Rightarrow> scheduler" where
  "settle env c err s =
     (let (br, evs) = record_outcome c err (env_now env (tick s)) (breakers s) in
      advance 1 (emit (map BreakerEvent evs @ [Dispatch c err]) (s\<lparr>breakers := br\<rparr>)))"

fun dispatch_loop ::
  "env \<Rightarrow> capability \<Rightarrow> (nat \<Rightarrow> candidate \<Rightarrow> go_error + 'r) \<Rightarrow> candidate list \<Rightarrow> go_error option \<Rightarrow>
   cooled_candidates \<Rightarrow> scheduler \<Rightarrow> 'r outcome \<times> scheduler" where
  "dispatch_loop env cap call [] lastErr cooled s = ((None, None, cooled_or cooled lastErr), s)"
| "dispatch_loop env cap call (c # cs) lastErr cooled s =
     (let (skip, cooled') = skipCooling (breakers s) (env_now env (tick s)) c cooled;
          s1 = advance 1 s in
      if skip then dispatch_loop env cap call cs lastErr cooled' s1
      else case call (tick s1) c of
        Inr resp \<Rightarrow> ((Some resp, Some c, None), settle env c None (advance 1 s1))
      | Inl err \<Rightarrow>
          let s2 = settle env c (Some err) (advance 1 s1) in
          if \<not> retryable err then ((None, Some c, Some err), s2)
          else dispatch_loop env cap call cs (Some err) cooled' (emit [Retry cap] s2))"

text \<open>
  The shared shape of \<open>Chat\<close>, \<open>Embed\<close> and \<open>Rerank\<close> after admission: count the
  selection, refuse an empty one, run the loop.
\<close>

definition dispatch_selected ::
  "env \<Rightarrow> request_ctx \<Rightarrow> capability \<Rightarrow> (nat \<Rightarrow> candidate \<Rightarrow> go_error + 'r) \<Rightarrow>
   candidate list \<Rightarrow> scheduler \<Rightarrow> 'r outcome \<times> scheduler" where
  "dispatch_selected env ctx cap call cs s =
     (let s1 = emit [Selection cap (length cs)] s in
      if length cs = 0 then ((None, None, Some (noCandidates ctx)), s1)
      else dispatch_loop env cap call cs None None s1)"

definition Chat ::
  "env \<Rightarrow> (nat \<Rightarrow> candidate \<Rightarrow> chat_body request \<Rightarrow> go_error + 'r) \<Rightarrow> request_ctx \<Rightarrow> chat_body request \<Rightarrow>
   scheduler \<Rightarrow> 'r outcome \<times> scheduler" where
  "Chat env backend ctx0 req s =
     (case admitModel ctx0 (rq_Model req) of (ctx, admitted) \<Rightarrow>
        if \<not> admitted then ((None, None, Some ErrModelNotAllowed), s)
        else let (cs, s1) = chatCandidates env ctx req CapabilityChat s in
          dispatch_selected env ctx CapabilityChat (\<lambda>t c. backend t c (withModel req (Model c))) cs s1)"

definition Embed ::
  "env \<Rightarrow> (nat \<Rightarrow> candidate \<Rightarrow> string request \<Rightarrow> go_error + 'r) \<Rightarrow> request_ctx \<Rightarrow> string request \<Rightarrow>
   scheduler \<Rightarrow> 'r outcome \<times> scheduler" where
  "Embed env backend ctx0 req s =
     (case admitModel ctx0 (rq_Model req) of (ctx, admitted) \<Rightarrow>
        if \<not> admitted then ((None, None, Some ErrModelNotAllowed), s)
        else let (cs, s1) = candidates env ctx (rq_Model req) CapabilityEmbeddings s in
          dispatch_selected env ctx CapabilityEmbeddings (\<lambda>t c. backend t c (withEmbedModel req (Model c))) cs s1)"

definition Rerank ::
  "env \<Rightarrow> (nat \<Rightarrow> candidate \<Rightarrow> string request \<Rightarrow> go_error + 'r) \<Rightarrow> request_ctx \<Rightarrow> string request \<Rightarrow>
   scheduler \<Rightarrow> 'r outcome \<times> scheduler" where
  "Rerank env backend ctx0 req s =
     (case admitModel ctx0 (rq_Model req) of (ctx, admitted) \<Rightarrow>
        if \<not> admitted then ((None, None, Some ErrModelNotAllowed), s)
        else let (cs, s1) = candidates env ctx (rq_Model req) CapabilityRerank s in
          dispatch_selected env ctx CapabilityRerank (\<lambda>t c. backend t c (withRerankModel req (Model c))) cs s1)"

subsection \<open>Transcription\<close>

definition coolingLast :: "env \<Rightarrow> candidate list \<Rightarrow> scheduler \<Rightarrow> candidate list \<times> scheduler" where
  "coolingLast env cs s =
     (let now = env_now env (tick s);
          cooling = (\<lambda>c. limited (breakers s) c now \<noteq> None) in
      (stable_sort (\<lambda>a b. \<not> cooling a \<and> cooling b) cs, advance 1 s))"

definition TranscriptionCandidates ::
  "env \<Rightarrow> request_ctx \<Rightarrow> string \<Rightarrow> scheduler \<Rightarrow> candidate list \<times> scheduler" where
  "TranscriptionCandidates env ctx model s =
     (let (cs, s1) = candidates env (fst (admitModel ctx model)) model CapabilityAudioTranscription s in
      coolingLast env cs s1)"

definition Transcribe ::
  "env \<Rightarrow> (nat \<Rightarrow> candidate \<Rightarrow> string request \<Rightarrow> go_error + 'r) \<Rightarrow> request_ctx \<Rightarrow> candidate \<Rightarrow>
   string request \<Rightarrow> scheduler \<Rightarrow> (go_error + 'r) \<times> scheduler" where
  "Transcribe env backend ctx0 c req s =
     (case admitModel ctx0 (rq_Model req) of (ctx, admitted) \<Rightarrow>
        if \<not> admitted then (Inl ErrModelNotAllowed, s)
        else if \<not> nodeAllowed ctx (NodeID c) then (Inl ErrNodeNotAllowed, s)
        else let r = backend (tick s) c req in
          (r, settle env c (case r of Inl e \<Rightarrow> Some e | Inr _ \<Rightarrow> None) (advance 1 s)))"

subsection \<open>Streams\<close>

text \<open>
  What opening a stream answers: an error, or a stream with what its first \<open>Recv\<close> delivers and
  what \<open>Committed\<close> says after that call. \<open>prefetch\<close> is the value of a
  \<open>prefetchStream\<close> as \<open>ChatStream\<close> builds it.
\<close>

datatype 'e opened = OpenFailed go_error | Opened "go_error + 'e" bool

datatype 'e prefetch = FirstEvent 'e | EmptyStream

fun stream_loop ::
  "env \<Rightarrow> (nat \<Rightarrow> candidate \<Rightarrow> 'e opened) \<Rightarrow> candidate list \<Rightarrow> go_error option \<Rightarrow>
   cooled_candidates \<Rightarrow> scheduler \<Rightarrow> 'e prefetch outcome \<times> scheduler" where
  "stream_loop env call [] lastErr cooled s = ((None, None, cooled_or cooled lastErr), s)"
| "stream_loop env call (c # cs) lastErr cooled s =
     (let (skip, cooled') = skipCooling (breakers s) (env_now env (tick s)) c cooled;
          s1 = advance 1 s in
      if skip then stream_loop env call cs lastErr cooled' s1
      else case call (tick s1) c of
        OpenFailed err \<Rightarrow>
          let s2 = settle env c (Some err) (advance 1 s1) in
          if retryable err
          then stream_loop env call cs (Some err) cooled' (emit [Retry CapabilityChatStream] s2)
          else ((None, Some c, Some err), s2)
      | Opened recv committed \<Rightarrow>
          (case recv of
             Inr first \<Rightarrow> ((Some (FirstEvent first), Some c, None), settle env c None (advance 1 s1))
           | Inl err \<Rightarrow>
               if err = IoEOF
               then ((Some EmptyStream, Some c, None), settle env c None (advance 1 s1))
               else
                 let s2 = settle env c (Some err) (advance 1 s1) in
                 if \<not> committed \<and> retryable err
                 then stream_loop env call cs (Some err) cooled' (emit [Retry CapabilityChatStream] s2)
                 else ((None, Some c, Some err), s2)))"

definition ChatStream ::
  "env \<Rightarrow> (nat \<Rightarrow> candidate \<Rightarrow> chat_body request \<Rightarrow> 'e opened) \<Rightarrow> request_ctx \<Rightarrow> chat_body request \<Rightarrow>
   scheduler \<Rightarrow> 'e prefetch outcome \<times> scheduler" where
  "ChatStream env backend ctx0 req s =
     (case admitModel ctx0 (rq_Model req) of (ctx, admitted) \<Rightarrow>
        if \<not> admitted then ((None, None, Some ErrModelNotAllowed), s)
        else let (cs, s1) = chatCandidates env ctx req CapabilityChatStream s;
                 s2 = emit [Selection CapabilityChatStream (length cs)] s1 in
          if length cs = 0 then ((None, None, Some (noCandidates ctx)), s2)
          else stream_loop env (\<lambda>t c. backend t c (withModel req (Model c))) cs None None s2)"

text \<open>
  \<open>prefetchStream.Recv\<close>: the first event once, then the underlying stream; \<open>Committed\<close> is
  false without an underlying stream.
\<close>

record ('e, 'u) prefetch_stream =
  ps_first :: "'e option"
  ps_eof :: bool
  ps_underlying :: "'u option"

definition prefetch_Recv ::
  "('u \<Rightarrow> (go_error + 'e) \<times> 'u) \<Rightarrow> ('e, 'u) prefetch_stream \<Rightarrow> ((go_error + 'e) \<times> ('e, 'u) prefetch_stream) option" where
  "prefetch_Recv recv p =
     (case ps_first p of
        Some e \<Rightarrow> Some (Inr e, p\<lparr>ps_first := None\<rparr>)
      | None \<Rightarrow>
          if ps_eof p then Some (Inl IoEOF, p)
          else case ps_underlying p of
            None \<Rightarrow> None
          | Some u \<Rightarrow> (case recv u of (r, u') \<Rightarrow> Some (r, p\<lparr>ps_underlying := Some u'\<rparr>)))"

definition prefetch_Committed :: "('u \<Rightarrow> bool) \<Rightarrow> ('e, 'u) prefetch_stream \<Rightarrow> bool" where
  "prefetch_Committed committed p = (case ps_underlying p of None \<Rightarrow> False | Some u \<Rightarrow> committed u)"

subsection \<open>The model catalogue\<close>

record model_info =
  mi_ID :: string
  mi_DisplayName :: string
  mi_DisplayOrder :: nat

definition modelInfoLess :: "model_info \<Rightarrow> model_info \<Rightarrow> bool" where
  "modelInfoLess a b =
     (if (mi_DisplayOrder a = 0) \<noteq> (mi_DisplayOrder b = 0) then mi_DisplayOrder a \<noteq> 0
      else if mi_DisplayOrder a \<noteq> mi_DisplayOrder b then mi_DisplayOrder a < mi_DisplayOrder b
      else if mi_ID a \<noteq> mi_ID b then mi_ID a < mi_ID b
      else if (mi_DisplayName a = '''') \<noteq> (mi_DisplayName b = '''') then mi_DisplayName a \<noteq> ''''
      else mi_DisplayName a < mi_DisplayName b)"

definition listable :: "snapshot \<Rightarrow> rt_model \<Rightarrow> bool" where
  "listable snap m \<longleftrightarrow>
     (let eff = Intersect (snap_Capabilities snap) (m_Capabilities m) in
      \<not> (Require eff CapabilityChat \<noteq> None \<and> Require eff CapabilityMessages \<noteq> None
         \<and> Require eff CapabilityImageGeneration \<noteq> None))"

fun see_models :: "request_ctx \<Rightarrow> bool \<Rightarrow> snapshot \<Rightarrow> rt_model list \<Rightarrow> (string \<times> model_info) list \<Rightarrow>
    (string \<times> model_info) list" where
  "see_models ctx owned snap [] seen = seen"
| "see_models ctx owned snap (m # ms) seen =
     (if \<not> owned \<and> \<not> modelAllowed ctx (m_ID m) then see_models ctx owned snap ms seen
      else if \<not> listable snap m then see_models ctx owned snap ms seen
      else
        let info = \<lparr>mi_ID = m_ID m, mi_DisplayName = m_DisplayName m, mi_DisplayOrder = m_DisplayOrder m\<rparr> in
        see_models ctx owned snap ms
          (case map_of seen (m_ID m) of
             None \<Rightarrow> AList.update (m_ID m) info seen
           | Some prior \<Rightarrow> if modelInfoLess info prior then AList.update (m_ID m) info seen else seen))"

fun see_runtimes :: "request_ctx \<Rightarrow> bool \<Rightarrow> snapshot list \<Rightarrow> (string \<times> model_info) list \<Rightarrow>
    (string \<times> model_info) list" where
  "see_runtimes ctx owned [] seen = seen"
| "see_runtimes ctx owned (snap # snaps) seen =
     (if \<not> runtimeHealthy (snap_State snap) then see_runtimes ctx owned snaps seen
      else see_runtimes ctx owned snaps (see_models ctx owned snap (snap_Models snap) seen))"

fun see_nodes :: "request_ctx \<Rightarrow> bool \<Rightarrow> node_info list \<Rightarrow> (string \<times> model_info) list \<Rightarrow>
    (string \<times> model_info) list" where
  "see_nodes ctx ownOnly [] seen = seen"
| "see_nodes ctx ownOnly (node # nodes) seen =
     (if \<not> ni_Live node \<or> ni_Draining node \<or> ni_Maintenance node \<or> \<not> nodeAllowed ctx (ni_NodeID node)
      then see_nodes ctx ownOnly nodes seen
      else
        let owned = nodeAccess ctx \<noteq> None \<and> nodeAllowed (ctx\<lparr>ownNodesOnly := True\<rparr>) (ni_NodeID node) in
        if ownOnly \<and> \<not> owned then see_nodes ctx ownOnly nodes seen
        else see_nodes ctx ownOnly nodes (see_runtimes ctx owned (ni_Runtimes node) seen))"

definition advertisedModels :: "env \<Rightarrow> request_ctx \<Rightarrow> bool \<Rightarrow> scheduler \<Rightarrow> model_info list \<times> scheduler" where
  "advertisedModels env ctx ownOnly s =
     (stable_sort modelInfoLess (map snd (see_nodes ctx ownOnly (env_nodes env (tick s)) [])), advance 1 s)"

fun any_candidate ::
  "env \<Rightarrow> request_ctx \<Rightarrow> string \<Rightarrow> capability list \<Rightarrow> scheduler \<Rightarrow> bool \<times> scheduler" where
  "any_candidate env ctx model [] s = (False, s)"
| "any_candidate env ctx model (cap # caps) s =
     (let (cs, s1) = candidatesWith env ctx (routes s) model cap s in
      if length cs > 0 then (True, s1) else any_candidate env ctx model caps s1)"

fun list_aliases :: "env \<Rightarrow> request_ctx \<Rightarrow> string list \<Rightarrow> scheduler \<Rightarrow> model_info list \<times> scheduler" where
  "list_aliases env ctx [] s = ([], s)"
| "list_aliases env ctx (alias # rest) s =
     (case admitModel ctx alias of (actx, admitted) \<Rightarrow>
        if \<not> admitted then list_aliases env ctx rest s
        else
          let (hit, s1) = any_candidate env actx alias
                [CapabilityChat, CapabilityMessages, CapabilityImageGeneration] s;
              (out, s2) = list_aliases env ctx rest s1 in
          (if hit then \<lparr>mi_ID = alias, mi_DisplayName = '''', mi_DisplayOrder = 0\<rparr> # out else out, s2))"

definition Models :: "env \<Rightarrow> request_ctx \<Rightarrow> scheduler \<Rightarrow> model_info list \<times> scheduler" where
  "Models env ctx s =
     (if Table_Len (routes s) > 0 then
        let aliases = Table_Models (routes s);
            (out, s1) = list_aliases env ctx aliases s;
            (own, s2) = advertisedModels env ctx True s1 in
        (out @ filter (\<lambda>info. mi_ID info \<notin> set aliases) own, s2)
      else advertisedModels env ctx False s)"

subsection \<open>What a dispatch promises\<close>

text \<open>The attempts a trace records, and the cooling error when everything was skipped.\<close>

fun dispatched :: "sched_event list \<Rightarrow> (candidate \<times> go_error option) list" where
  "dispatched [] = []"
| "dispatched (Dispatch c err # evs) = (c, err) # dispatched evs"
| "dispatched (_ # evs) = dispatched evs"

fun cool_all :: "env \<Rightarrow> breaker_registry \<Rightarrow> nat \<Rightarrow> candidate list \<Rightarrow> cooled_candidates \<Rightarrow> cooled_candidates" where
  "cool_all env br t [] cooled = cooled"
| "cool_all env br t (c # cs) cooled =
     cool_all env br (Suc t) cs (snd (skipCooling br (env_now env t) c cooled))"

text \<open>
  \<open>attempts_ok\<close>: every attempt but the last failed with a retryable error. \<open>answers\<close>: the
  method's results are those of the last attempt.
\<close>

definition attempts_ok :: "(candidate \<times> go_error option) list \<Rightarrow> bool" where
  "attempts_ok ds \<longleftrightarrow> list_all (\<lambda>(c, x). case x of None \<Rightarrow> False | Some err \<Rightarrow> retryable err) (butlast ds)"

fun answers :: "(candidate \<times> go_error option) list \<Rightarrow> 'r outcome \<Rightarrow> bool" where
  "answers ds (r, c, e) =
     (case snd (last ds) of
        None \<Rightarrow> r \<noteq> None \<and> c = Some (fst (last ds)) \<and> e = None
      | Some err \<Rightarrow> r = None \<and> e = Some err \<and> (c = None \<or> c = Some (fst (last ds))))"

text \<open>The contract of a dispatching loop, from its start state to its end state.\<close>

definition dispatch_spec ::
  "env \<Rightarrow> candidate list \<Rightarrow> go_error option \<Rightarrow> cooled_candidates \<Rightarrow> scheduler \<Rightarrow> 'r outcome \<Rightarrow> scheduler \<Rightarrow> bool" where
  "dispatch_spec env cs lastErr cooled s out s' \<longleftrightarrow>
     (\<exists>new h. trace s' = trace s @ new \<and> subseq (map fst (dispatched new)) cs
        \<and> attempts_ok (dispatched new)
        \<and> breakers s' = replay (breakers s) h \<and> map (\<lambda>(c, e, t). (c, e)) (rev h) = dispatched new
        \<and> routes s' = routes s
        \<and> (if dispatched new = []
           then out = (None, None, cooled_or (cool_all env (breakers s) (tick s) cs cooled) lastErr)
                \<and> (\<forall>i < length cs. limited (breakers s) (cs ! i) (env_now env (tick s + i)) \<noteq> None)
           else answers (dispatched new) out))"

text \<open>When a candidate may be selected: what the node view of some tick has to say about it.\<close>

definition usable :: "request_ctx \<Rightarrow> target \<Rightarrow> node_info \<Rightarrow> bool" where
  "usable ctx tgt node \<longleftrightarrow> ni_Live node \<and> \<not> ni_Draining node \<and> \<not> ni_Maintenance node
     \<and> MatchesNode tgt (ni_Labels node) \<and> nodeAllowed ctx (ni_NodeID node)
     \<and> nodeHasCapacity node (MinGPUMemoryBytes tgt)"

definition offered ::
  "env \<Rightarrow> request_ctx \<Rightarrow> breaker_registry \<Rightarrow> capability \<Rightarrow> target \<Rightarrow> candidate \<Rightarrow> nat \<Rightarrow> bool" where
  "offered env ctx br cap tgt c t \<longleftrightarrow>
     (\<exists>node \<in> set (env_nodes env t). \<exists>snap \<in> set (ni_Runtimes node).
        usable ctx tgt node \<and> runtimeHealthy (snap_State snap)
        \<and> serves_model tgt cap snap (snap_Models snap)
        \<and> c = \<lparr>NodeID = ni_NodeID node, RuntimeID = snap_ID snap, Kind = snap_Kind snap, Model = RuntimeModel tgt\<rparr>
        \<and> fst (eligible br c (env_now env t)))"

definition intn_ok :: "env \<Rightarrow> bool" where
  "intn_ok env \<longleftrightarrow> (\<forall>t k m. 0 < m \<longrightarrow> env_intn env t k m < m)"

definition targets_of :: "table option \<Rightarrow> string \<Rightarrow> target list" where
  "targets_of rts model = (case Table_Resolve rts model of
       Some ts \<Rightarrow> ts
     | None \<Rightarrow> [\<lparr>RuntimeModel = model, NodeSelector = [], Priority = 0, Weight = 0, MinGPUMemoryBytes = 0\<rparr>])"

text \<open>
  What one call promises: the attempts it adds to the trace are on offered candidates, each at most
  once, each but the last failing retryably; it has a response exactly when it has no error, its
  error is that of the last attempt, and the breaker has recorded exactly these attempts.
\<close>

definition call_ok ::
  "env \<Rightarrow> request_ctx \<Rightarrow> capability \<Rightarrow> target list \<Rightarrow> scheduler \<Rightarrow> bool \<Rightarrow> go_error option \<Rightarrow> scheduler \<Rightarrow> bool" where
  "call_ok env ctx cap ts s got e s' \<longleftrightarrow>
     (\<exists>new h. trace s' = trace s @ new
        \<and> (\<forall>(d, x) \<in> set (dispatched new). \<exists>i < length ts. offered env ctx (breakers s) cap (ts ! i) d (tick s + i))
        \<and> distinct (map fst (dispatched new)) \<and> attempts_ok (dispatched new)
        \<and> (got \<longleftrightarrow> e = None) \<and> (dispatched new \<noteq> [] \<longrightarrow> e = snd (last (dispatched new)))
        \<and> breakers s' = replay (breakers s) h \<and> map (\<lambda>(c, e, t). (c, e)) (rev h) = dispatched new
        \<and> routes s' = routes s)"

text \<open>The dispatching methods under one relation, and the runs of a scheduler they make up.\<close>

inductive dispatch_call ::
  "env \<Rightarrow> request_ctx \<Rightarrow> string \<Rightarrow> capability \<Rightarrow> scheduler \<Rightarrow> bool \<Rightarrow> go_error option \<Rightarrow> scheduler \<Rightarrow> bool" where
  chat: "Chat env backend ctx req s = ((r :: string option, c, e), s') \<Longrightarrow>
    dispatch_call env ctx (rq_Model req) CapabilityChat s (r \<noteq> None) e s'"
| embed: "Embed env backend ctx req s = ((r :: string option, c, e), s') \<Longrightarrow>
    dispatch_call env ctx (rq_Model req) CapabilityEmbeddings s (r \<noteq> None) e s'"
| rerank: "Rerank env backend ctx req s = ((r :: string option, c, e), s') \<Longrightarrow>
    dispatch_call env ctx (rq_Model req) CapabilityRerank s (r \<noteq> None) e s'"
| chat_stream: "ChatStream env backend ctx req s = ((r :: string prefetch option, c, e), s') \<Longrightarrow>
    dispatch_call env ctx (rq_Model req) CapabilityChatStream s (r \<noteq> None) e s'"

inductive_cases dispatch_callE: "dispatch_call env ctx model cap s got e s'"

definition sorted_routes :: "table option \<Rightarrow> bool" where
  "sorted_routes rts \<longleftrightarrow> (\<forall>model. sorted (map Priority (targets_of rts model)))"

inductive sched_run :: "env \<Rightarrow> scheduler \<Rightarrow> scheduler \<Rightarrow> bool" for env s0 where
  start: "sched_run env s0 s0"
| call: "sched_run env s0 s \<Longrightarrow> dispatch_call env ctx model cap s got e s' \<Longrightarrow> sched_run env s0 s'"
| transcribe: "sched_run env s0 s \<Longrightarrow> Transcribe env backend ctx c req s = (r :: go_error + string, s') \<Longrightarrow>
    sched_run env s0 s'"
| set_routes: "sched_run env s0 s \<Longrightarrow> Table_New rs = Inr t \<Longrightarrow> sched_run env s0 (SetRoutes (Some t) s)"

text \<open>Which nodes a catalogue is drawn from.\<close>

definition own_node :: "request_ctx \<Rightarrow> node_info \<Rightarrow> bool" where
  "own_node ctx node \<longleftrightarrow> nodeAccess ctx \<noteq> None \<and> nodeAllowed (ctx\<lparr>ownNodesOnly := True\<rparr>) (ni_NodeID node)"

definition listed_node :: "request_ctx \<Rightarrow> bool \<Rightarrow> node_info \<Rightarrow> bool" where
  "listed_node ctx ownOnly node \<longleftrightarrow> ni_Live node \<and> \<not> ni_Draining node \<and> \<not> ni_Maintenance node
     \<and> nodeAllowed ctx (ni_NodeID node) \<and> (ownOnly \<longrightarrow> own_node ctx node)"

definition listed_models :: "request_ctx \<Rightarrow> bool \<Rightarrow> snapshot \<Rightarrow> rt_model list \<Rightarrow> string set" where
  "listed_models ctx owned snap ms =
     {m_ID m | m. m \<in> set ms \<and> (owned \<or> modelAllowed ctx (m_ID m)) \<and> listable snap m}"

definition listed_runtimes :: "request_ctx \<Rightarrow> bool \<Rightarrow> snapshot list \<Rightarrow> string set" where
  "listed_runtimes ctx owned snaps =
     (\<Union>snap \<in> {snap \<in> set snaps. runtimeHealthy (snap_State snap)}. listed_models ctx owned snap (snap_Models snap))"

definition listed_ids :: "request_ctx \<Rightarrow> bool \<Rightarrow> node_info list \<Rightarrow> string set" where
  "listed_ids ctx ownOnly nodes =
     (\<Union>node \<in> {node \<in> set nodes. listed_node ctx ownOnly node}.
        listed_runtimes ctx (own_node ctx node) (ni_Runtimes node))"

definition catalogue_key :: "model_info \<Rightarrow> bool \<times> nat \<times> string \<times> bool \<times> string" where
  "catalogue_key i = (mi_DisplayOrder i = 0, mi_DisplayOrder i, mi_ID i, mi_DisplayName i = '''', mi_DisplayName i)"

definition catalogue_ok :: "(string \<times> model_info) list \<Rightarrow> bool" where
  "catalogue_ok seen \<longleftrightarrow> wf_map seen \<and> (\<forall>(k, v) \<in> set seen. mi_ID v = k)"

subsection \<open>Concrete inputs\<close>

definition chat_snapshot :: snapshot where
  "chat_snapshot =
     \<lparr>snap_ID = ''r1'', snap_Kind = ''vllm'', snap_State = StateHealthy, snap_Capabilities = [],
      snap_Models = [\<lparr>m_ID = ''m'',
        m_Capabilities = [(CapabilityChat, \<lparr>ev_Capability = CapabilityChat, ev_Level = SupportSupported,
          ev_Source = SourceEndpoint, ev_Detail = []\<rparr>)],
        m_DisplayName = '''', m_DisplayOrder = 0\<rparr>],
      snap_QueueRunning = 0, snap_QueuePending = 0\<rparr>"

definition one_node :: node_info where
  "one_node = \<lparr>ni_NodeID = ''n1'', ni_Resources = None, ni_Labels = Map.empty, ni_Runtimes = [chat_snapshot],
     ni_IdleInference = 1, ni_InflightRequests = 0, ni_Draining = False, ni_Maintenance = False, ni_Live = True\<rparr>"

definition one_env :: env where
  "one_env = \<lparr>env_nodes = (\<lambda>t. [one_node]), env_now = (\<lambda>t. 100 + int t), env_intn = (\<lambda>t k m. 0),
     env_draw = (\<lambda>t k. 0), env_fl = id\<rparr>"

definition plain_config :: config where
  "plain_config = \<lparr>cfg_FailureThreshold = 0, cfg_BaseCooldown = 0, cfg_MaxCooldown = 0, cfg_RateLimitCooldown = 0,
     cfg_MaxRateLimitCooldown = 0, cfg_SessionAffinity = False, cfg_Routes = None, cfg_Policy = None,
     cfg_PrefixBytes = 0\<rparr>"

definition hello :: "chat_body request" where
  "hello = \<lparr>rq_Model = ''m'', rq_Body = \<lparr>Messages = [], Sampling = ''''\<rparr>\<rparr>"

definition the_candidate :: candidate where
  "the_candidate = \<lparr>NodeID = ''n1'', RuntimeID = ''r1'', Kind = ''vllm'', Model = ''m''\<rparr>"


section \<open>Lemmas\<close>

subsection \<open>Selection\<close>

lemma emit_simps [simp]:
  "breakers (emit evs s) = breakers s" "tick (emit evs s) = tick s" "routes (emit evs s) = routes s"
  "sched_policy (emit evs s) = sched_policy s" "trace (emit evs s) = trace s @ evs"
  by (simp_all add: emit_def)

lemma advance_simps [simp]:
  "breakers (advance n s) = breakers s" "tick (advance n s) = tick s + n" "routes (advance n s) = routes s"
  "sched_policy (advance n s) = sched_policy s" "trace (advance n s) = trace s"
  by (simp_all add: advance_def)

lemma dispatched_append [simp]: "dispatched (xs @ ys) = dispatched xs @ dispatched ys"
  by (induction xs rule: dispatched.induct) simp_all

lemma dispatched_breaker [simp]: "dispatched (map BreakerEvent evs) = []"
  by (induction evs) simp_all

lemma scan_runtimes_candidates:
  "sc_Candidate ` set (fst (scan_runtimes br now tgt elig node snaps)) =
   {c. \<exists>snap \<in> set snaps. runtimeHealthy (snap_State snap) \<and> elig snap
      \<and> c = \<lparr>NodeID = ni_NodeID node, RuntimeID = snap_ID snap, Kind = snap_Kind snap, Model = RuntimeModel tgt\<rparr>
      \<and> fst (eligible br c now)}"
proof (induction br now tgt elig node snaps rule: scan_runtimes.induct)
  case (2 br now tgt elig node snap snaps)
  let ?c = "\<lparr>NodeID = ni_NodeID node, RuntimeID = snap_ID snap, Kind = snap_Kind snap, Model = RuntimeModel tgt\<rparr>"
  show ?case
    by (cases "eligible br ?c now"; cases "runtimeHealthy (snap_State snap)"; cases "elig snap")
      (auto simp: 2 Let_def image_iff)
qed simp

lemma scan_nodes_candidates:
  "sc_Candidate ` set (fst (scan_nodes ctx br now tgt elig nodes)) =
   {c. \<exists>node \<in> set nodes. \<exists>snap \<in> set (ni_Runtimes node). usable ctx tgt node
      \<and> runtimeHealthy (snap_State snap) \<and> elig snap
      \<and> c = \<lparr>NodeID = ni_NodeID node, RuntimeID = snap_ID snap, Kind = snap_Kind snap, Model = RuntimeModel tgt\<rparr>
      \<and> fst (eligible br c now)}"
proof (induction ctx br now tgt elig nodes rule: scan_nodes.induct)
  case (2 ctx br now tgt elig node nodes)
  show ?case
  proof (cases "usable ctx tgt node")
    case True
    then have "fst (scan_nodes ctx br now tgt elig (node # nodes)) =
        fst (scan_runtimes br now tgt elig node (ni_Runtimes node)) @ fst (scan_nodes ctx br now tgt elig nodes)"
      by (simp add: usable_def Let_def)
    then show ?thesis using True 2 by (auto simp: image_Un scan_runtimes_candidates)
  next
    case False
    then have "scan_nodes ctx br now tgt elig (node # nodes) = scan_nodes ctx br now tgt elig nodes"
      by (auto simp: usable_def Let_def)
    then show ?thesis using False 2 by simp
  qed
qed simp

lemma pick_frame:
  assumes "pick env ctx tgt cap key s = (cs, s')"
  shows "breakers s' = breakers s \<and> routes s' = routes s \<and> sched_policy s' = sched_policy s
    \<and> tick s' = Suc (tick s) \<and> (\<exists>new. trace s' = trace s @ new \<and> dispatched new = [])"
  using assms by (auto simp: pick_def pickBy_def Let_def split: prod.splits)

lemma pick_mem:
  assumes "pick env ctx tgt cap key s = (cs, s')" and "intn_ok env"
  shows "c \<in> set cs \<longleftrightarrow> offered env ctx (breakers s) cap tgt c (tick s)"
proof -
  let ?pol = "if aff_session key then PolicyPrefixHash else sched_policy s"
  obtain found evs where scan: "scan_nodes ctx (breakers s) (env_now env (tick s)) tgt
      (\<lambda>snap. serves_model tgt cap snap (snap_Models snap)) (env_nodes env (tick s)) = (found, evs)"
    by (cases "scan_nodes ctx (breakers s) (env_now env (tick s)) tgt
      (\<lambda>snap. serves_model tgt cap snap (snap_Models snap)) (env_nodes env (tick s))")
  have cs: "cs = map sc_Candidate (orderCandidates found ?pol key (env_intn env (tick s)))"
    using assms(1) scan by (simp add: pick_def pickBy_def Let_def)
  have "mset (orderCandidates found ?pol key (env_intn env (tick s))) = mset found"
    using assms(2) by (intro orderCandidates_mset) (simp add: intn_ok_def)
  then have "set cs = sc_Candidate ` set found"
    unfolding cs by (metis list.set_map set_mset_mset)
  also have "\<dots> = {c. offered env ctx (breakers s) cap tgt c (tick s)}"
    using scan_nodes_candidates [of ctx "breakers s" "env_now env (tick s)" tgt
        "\<lambda>snap. serves_model tgt cap snap (snap_Models snap)" "env_nodes env (tick s)"]
    unfolding scan fst_conv offered_def .
  finally show ?thesis by simp
qed

lemma pick_targets_spec:
  assumes "pick_targets env ctx cap key ts s = (groups, s')" and "intn_ok env"
  shows "map tc_priority groups = map Priority ts
    \<and> breakers s' = breakers s \<and> routes s' = routes s
    \<and> (\<exists>new. trace s' = trace s @ new \<and> dispatched new = [])
    \<and> (\<forall>i < length ts. set (tc_candidates (groups ! i)) =
         {c. offered env ctx (breakers s) cap (ts ! i) c (tick s + i)})"
  using assms
proof (induction env ctx cap key ts s arbitrary: groups s' rule: pick_targets.induct)
  case (1 env ctx cap key s)
  then show ?case by simp
next
  case (2 env ctx cap key t ts s)
  obtain cs s1 gs where p: "pick env ctx t cap key s = (cs, s1)"
    and ps: "pick_targets env ctx cap key ts s1 = (gs, s')"
    and g: "groups = \<lparr>tc_priority = Priority t, tc_weight = Weight t, tc_candidates = cs\<rparr> # gs"
    using 2(2) by (auto split: prod.splits)
  note IH = 2(1) [OF p [symmetric] refl ps 2(3)]
  note fr = pick_frame [OF p]
  have "set cs = {c. offered env ctx (breakers s) cap t c (tick s)}"
    using pick_mem [OF p 2(3)] by blast
  with IH fr g show ?case
    by (auto simp: nth_Cons split: nat.splits)
qed

lemma candidatesKeyed_spec:
  assumes "candidatesKeyed env ctx rts model cap key s = (cs, s')" and "intn_ok env"
    and "sorted (map Priority (targets_of rts model))"
  shows "distinct cs \<and> breakers s' = breakers s \<and> routes s' = routes s
    \<and> (\<exists>new. trace s' = trace s @ new \<and> dispatched new = [])
    \<and> set cs = {c. \<exists>i < length (targets_of rts model).
         offered env ctx (breakers s) cap (targets_of rts model ! i) c (tick s + i)}"
proof -
  obtain groups s1 where p: "pick_targets env ctx cap key (targets_of rts model) s = (groups, s1)"
    and cs: "cs = weightedCandidates (env_fl env) (env_draw env (tick s1)) groups" and s': "s' = advance 1 s1"
    using assms(1) by (auto simp: candidatesKeyed_def targets_of_def Let_def split: prod.splits)
  note ps = pick_targets_spec [OF p assms(2)]
  then have len: "length groups = length (targets_of rts model)" by (metis length_map)
  have "sorted (map tc_priority groups)" using ps assms(3) by simp
  note w = weighted_spec [OF this, of "env_fl env" "env_draw env (tick s1)"]
  have "set cs = (\<Union>i < length groups. set (tc_candidates (groups ! i)))"
    using w unfolding cs by (simp add: set_conv_nth [of groups]) blast
  also have "\<dots> = {c. \<exists>i < length (targets_of rts model).
         offered env ctx (breakers s) cap (targets_of rts model ! i) c (tick s + i)}"
    using ps len by auto
  finally show ?thesis using w ps s' cs by simp
qed

subsection \<open>The dispatching loops\<close>

lemma settle_simps [simp]:
  "breakers (settle env c err s) = fst (record_outcome c err (env_now env (tick s)) (breakers s))"
  "routes (settle env c err s) = routes s"
  "tick (settle env c err s) = Suc (tick s)"
  by (simp_all add: settle_def split_beta)

lemma settle_trace:
  "\<exists>new. trace (settle env c err s) = trace s @ new \<and> dispatched new = [(c, err)]"
  by (simp add: settle_def split_beta)

lemma attempts_ok_Cons:
  "attempts_ok ((c, x) # ds) \<longleftrightarrow> (ds = [] \<or> (\<exists>err. x = Some err \<and> retryable err) \<and> attempts_ok ds)"
  by (auto simp: attempts_ok_def split: option.splits)

lemma replay_snoc: "replay (fst (record_outcome c err t r)) h = replay r (h @ [(c, err, t)])"
  by (induction h) auto

lemma replay_append: "replay r (h' @ h) = replay (replay r h) h'"
  by (induction r "h'" rule: replay.induct) auto

text \<open>One step of a loop extends the contract of the rest of the loop.\<close>

lemma dispatch_spec_skip:
  assumes "dispatch_spec env cs lastErr cooled' (advance 1 s) out s'"
    and "skipCooling (breakers s) (env_now env (tick s)) c cooled = (True, cooled')"
  shows "dispatch_spec env (c # cs) lastErr cooled s out s'"
proof -
  have lim: "limited (breakers s) c (env_now env (tick s)) \<noteq> None"
    using assms(2) by (auto simp: skipCooling_def split: option.splits)
  have "\<forall>i < length (c # cs). limited (breakers s) ((c # cs) ! i) (env_now env (tick s + i)) \<noteq> None"
    if "\<forall>i < length cs. limited (breakers s) (cs ! i) (env_now env (Suc (tick s) + i)) \<noteq> None"
    using that lim by (auto simp: nth_Cons split: nat.splits)
  with assms show ?thesis
    unfolding dispatch_spec_def by (auto split: if_splits)
qed

lemma dispatch_spec_stop:
  assumes "answers [(c, x)] out" and "s' = settle env c x s1" and "breakers s1 = breakers s"
    and "trace s1 = trace s" and "routes s1 = routes s"
  shows "dispatch_spec env (c # cs) lastErr cooled s out s'"
proof -
  obtain new where "trace s' = trace s1 @ new" and "dispatched new = [(c, x)]"
    using settle_trace assms(2) by metis
  then show ?thesis
    using assms unfolding dispatch_spec_def
    by (intro exI [of _ new] exI [of _ "[(c, x, env_now env (tick s1))]"]) (simp add: attempts_ok_def)
qed

lemma answers_Cons: "ds \<noteq> [] \<Longrightarrow> answers (d # ds) out = answers ds out"
  by (cases out, cases "snd (last ds)") simp_all

lemma dispatch_spec_retry:
  assumes "dispatch_spec env cs (Some err) cooled' (emit [Retry cap] (settle env c (Some err) s1)) out s'"
    and "retryable err" and "breakers s1 = breakers s"
    and "trace s1 = trace s" and "routes s1 = routes s"
  shows "dispatch_spec env (c # cs) lastErr cooled s out s'"
proof -
  obtain new0 where n0: "trace (settle env c (Some err) s1) = trace s @ new0" "dispatched new0 = [(c, Some err)]"
    using settle_trace assms(4) by metis
  let ?s2 = "emit [Retry cap] (settle env c (Some err) s1)"
  from assms(1) obtain new h where new: "trace s' = trace ?s2 @ new"
    and sub: "subseq (map fst (dispatched new)) cs" and ok: "attempts_ok (dispatched new)"
    and h: "breakers s' = replay (breakers ?s2) h" "map (\<lambda>(c, e, t). (c, e)) (rev h) = dispatched new"
    and r: "routes s' = routes ?s2"
    and out: "if dispatched new = []
       then out = (None, None, cooled_or (cool_all env (breakers ?s2) (tick ?s2) cs cooled') (Some err))
                \<and> (\<forall>i < length cs. limited (breakers ?s2) (cs ! i) (env_now env (tick ?s2 + i)) \<noteq> None)
       else answers (dispatched new) out"
    unfolding dispatch_spec_def by blast
  let ?new = "new0 @ [Retry cap] @ new" and ?h = "h @ [(c, Some err, env_now env (tick s1))]"
  have d: "dispatched ?new = (c, Some err) # dispatched new" using n0 by simp
  have "answers (dispatched ?new) out"
    using out d by (cases "dispatched new = []") (simp_all add: answers_Cons cooled_or_def)
  moreover have "breakers s' = replay (breakers s) ?h"
    using h(1) assms(3) by (simp add: replay_snoc)
  moreover have "trace s' = trace s @ ?new" using new n0 by simp
  moreover have "subseq (map fst (dispatched ?new)) (c # cs)" using sub d by simp
  moreover have "attempts_ok (dispatched ?new)" using ok d assms(2) by (simp add: attempts_ok_Cons)
  moreover have "map (\<lambda>(c, e, t). (c, e)) (rev ?h) = dispatched ?new" using h(2) d by simp
  moreover have "routes s' = routes s" using r assms(5) by simp
  ultimately show ?thesis
    unfolding dispatch_spec_def by (intro exI [of _ ?new] exI [of _ ?h]) (simp add: n0(2))
qed

lemma dispatch_spec_Nil:
  "dispatch_spec env [] lastErr cooled s (None, None, cooled_or cooled lastErr) s"
  unfolding dispatch_spec_def by (intro exI [of _ "[]"]) (simp add: attempts_ok_def)

lemma dispatch_loop_spec:
  "dispatch_loop env cap call cs lastErr cooled s = (out, s') \<Longrightarrow>
   dispatch_spec env cs lastErr cooled s out s'"
proof (induction cs arbitrary: lastErr cooled s)
  case Nil
  then show ?case by (auto intro: dispatch_spec_Nil)
next
  case (Cons c cs)
  obtain skip cooled' where sk: "skipCooling (breakers s) (env_now env (tick s)) c cooled = (skip, cooled')"
    by (cases "skipCooling (breakers s) (env_now env (tick s)) c cooled")
  show ?case
  proof (cases skip)
    case True
    with Cons.prems sk have "dispatch_loop env cap call cs lastErr cooled' (advance 1 s) = (out, s')" by simp
    from dispatch_spec_skip [OF Cons.IH [OF this]] sk True show ?thesis by simp
  next
    case False
    let ?s1 = "advance 1 (advance 1 s)"
    show ?thesis
    proof (cases "call (Suc (tick s)) c")
      case (Inr resp)
      with Cons.prems sk False show ?thesis
        by (intro dispatch_spec_stop [of c None _ _ env ?s1]) auto
    next
      case (Inl err)
      show ?thesis
      proof (cases "retryable err")
        case True
        with Cons.prems sk False Inl have "dispatch_loop env cap call cs (Some err) cooled'
            (emit [Retry cap] (settle env c (Some err) ?s1)) = (out, s')" by (simp add: Let_def)
        from Cons.IH [OF this] True show ?thesis
          by (rule dispatch_spec_retry) simp_all
      next
        case nr: False
        with Cons.prems sk False Inl show ?thesis
          by (intro dispatch_spec_stop [of c "Some err" _ _ env ?s1]) (auto simp: Let_def)
      qed
    qed
  qed
qed

lemma stream_loop_spec:
  fixes call :: "nat \<Rightarrow> candidate \<Rightarrow> 'a opened"
  shows "stream_loop env call cs lastErr cooled s = (out, s') \<Longrightarrow>
   dispatch_spec env cs lastErr cooled s out s'"
proof (induction cs arbitrary: lastErr cooled s)
  case Nil
  then show ?case by (auto intro: dispatch_spec_Nil)
next
  case (Cons c cs)
  obtain skip cooled' where sk: "skipCooling (breakers s) (env_now env (tick s)) c cooled = (skip, cooled')"
    by (cases "skipCooling (breakers s) (env_now env (tick s)) c cooled")
  let ?s1 = "advance 1 (advance 1 s)"
  have retry: "dispatch_spec env (c # cs) lastErr cooled s out s'"
    if "retryable err" and "stream_loop env call cs (Some err) cooled'
            (emit [Retry CapabilityChatStream] (settle env c (Some err) ?s1)) = (out, s')" for err
    using Cons.IH [OF that(2)] that(1) by (rule dispatch_spec_retry) simp_all
  have stop: "dispatch_spec env (c # cs) lastErr cooled s res (settle env c x ?s1)"
    if "answers [(c, x)] res" for x and res :: "'a prefetch outcome"
    using that refl by (rule dispatch_spec_stop) simp_all
  show ?case
  proof (cases skip)
    case True
    with Cons.prems sk have "stream_loop env call cs lastErr cooled' (advance 1 s) = (out, s')" by simp
    from dispatch_spec_skip [OF Cons.IH [OF this]] sk True show ?thesis by simp
  next
    case False
    show ?thesis
    proof (cases "call (Suc (tick s)) c")
      case (OpenFailed err)
      with Cons.prems sk False show ?thesis
        by (cases "retryable err") (auto simp: Let_def intro: retry intro!: stop [of "Some err", simplified])
    next
      case (Opened recv committed)
      show ?thesis
      proof (cases recv)
        case (Inr first)
        with Cons.prems sk False Opened show ?thesis by (auto intro!: stop [of None, simplified])
      next
        case (Inl err)
        with Cons.prems sk False Opened show ?thesis
          by (cases "err = IoEOF"; cases "\<not> committed \<and> retryable err")
            (auto simp: Let_def intro: retry intro!: stop [of None, simplified] stop [of "Some err", simplified])
      qed
    qed
  qed
qed

subsection \<open>Any loop that keeps the contract\<close>

lemma cool_all_Some: "cooled \<noteq> None \<Longrightarrow> cool_all env br t cs cooled \<noteq> None"
  by (induction env br t cs cooled rule: cool_all.induct)
    (auto simp: skipCooling_def split: option.splits)

lemma cool_all_limited:
  assumes "cs \<noteq> []" and "limited br (hd cs) (env_now env t) \<noteq> None"
  shows "cool_all env br t cs None \<noteq> None"
proof (cases cs)
  case (Cons c rest)
  with assms(2) have "snd (skipCooling br (env_now env t) c None) \<noteq> None"
    by (auto simp: skipCooling_def)
  then show ?thesis unfolding Cons cool_all.simps by (rule cool_all_Some)
qed (use assms in simp)

lemma subseq_sublist: "subseq xs ys \<Longrightarrow> set xs \<subseteq> set ys \<and> (distinct ys \<longrightarrow> distinct xs)"
  by (induction rule: list_emb.induct) auto

lemma answers_iff: "ds \<noteq> [] \<Longrightarrow> answers ds (r, c, e) \<Longrightarrow> (r \<noteq> None \<longleftrightarrow> e = None) \<and> (e = None \<longleftrightarrow> snd (last ds) = None)"
  by (auto split: option.splits)

text \<open>
  The interface between a method and the loop it dispatches with: the loop meets
  \<^const>\<open>dispatch_spec\<close>. What a caller may rely on is proved here once for every such loop.
\<close>

locale dispatcher =
  fixes run :: "env \<Rightarrow> candidate list \<Rightarrow> scheduler \<Rightarrow> 'r outcome \<times> scheduler"
  assumes run_spec: "run env cs s = (out, s') \<Longrightarrow> dispatch_spec env cs None None s out s'"
begin

lemma run_total:
  assumes "run env cs s = ((r, c, e), s')" and "cs \<noteq> []"
  shows "r \<noteq> None \<longleftrightarrow> e = None"
proof -
  from run_spec [OF assms(1)] obtain new where
    out: "if dispatched new = []
       then (r, c, e) = (None, None, cooled_or (cool_all env (breakers s) (tick s) cs None) None)
            \<and> (\<forall>i < length cs. limited (breakers s) (cs ! i) (env_now env (tick s + i)) \<noteq> None)
       else answers (dispatched new) (r, c, e)"
    unfolding dispatch_spec_def by blast
  show ?thesis
  proof (cases "dispatched new = []")
    case True
    with out assms(2) have "limited (breakers s) (hd cs) (env_now env (tick s)) \<noteq> None"
      by (metis add.right_neutral hd_conv_nth length_greater_0_conv)
    with cool_all_limited [OF assms(2) this] out True show ?thesis by (auto simp: cooled_or_def)
  next
    case False
    with out answers_iff [OF False] show ?thesis by auto
  qed
qed

lemma select_run:
  assumes sel: "candidatesKeyed env ctx rts model cap key s = (cs, s1)" and "intn_ok env"
    and "sorted (map Priority (targets_of rts model))"
    and run: "run env cs (emit [Selection cap n] s1) = ((r, c, e), s')" and "cs \<noteq> []"
  shows "call_ok env ctx cap (targets_of rts model) s (r \<noteq> None) e s'"
proof -
  note spec = candidatesKeyed_spec [OF sel assms(2,3)]
  then obtain new0 where n0: "trace s1 = trace s @ new0" "dispatched new0 = []" by blast
  let ?s = "emit [Selection cap n] s1"
  from run_spec [OF run] obtain new h where new: "trace s' = trace ?s @ new"
    and sub: "subseq (map fst (dispatched new)) cs" and ok: "attempts_ok (dispatched new)"
    and h: "breakers s' = replay (breakers ?s) h" "map (\<lambda>(c, e, t). (c, e)) (rev h) = dispatched new"
    and r: "routes s' = routes ?s"
    and out: "if dispatched new = []
       then (r, c, e) = (None, None, cooled_or (cool_all env (breakers ?s) (tick ?s) cs None) None)
            \<and> (\<forall>i < length cs. limited (breakers ?s) (cs ! i) (env_now env (tick ?s + i)) \<noteq> None)
       else answers (dispatched new) (r, c, e)"
    unfolding dispatch_spec_def by blast
  let ?new = "new0 @ Selection cap n # new"
  have d: "dispatched ?new = dispatched new" using n0 by simp
  have "distinct (map fst (dispatched new))" using subseq_sublist [OF sub] spec by blast
  moreover have "d \<in> set cs" if "(d, x) \<in> set (dispatched new)" for d x
    using subseq_sublist [OF sub] that by force
  moreover have "dispatched new \<noteq> [] \<longrightarrow> e = snd (last (dispatched new))"
    using out by (auto split: option.splits)
  ultimately show ?thesis
    using new n0 d ok h r run_total [OF run \<open>cs \<noteq> []\<close>] spec
    unfolding call_ok_def by (intro exI [of _ ?new] exI [of _ h]) auto
qed

lemma method_ok:
  assumes sel: "candidatesKeyed env ctx rts model cap key s = (cs, s1)" and "intn_ok env"
    and "sorted (map Priority (targets_of rts model))"
    and body: "(if length cs = 0 then ((None, None, Some (noCandidates ctx)), emit [Selection cap (length cs)] s1)
       else run env cs (emit [Selection cap (length cs)] s1)) = ((r, c, e), s')"
  shows "call_ok env ctx cap (targets_of rts model) s (r \<noteq> None) e s'"
proof (cases "cs = []")
  case False
  with select_run [OF sel assms(2,3)] body show ?thesis by simp
next
  case True
  note spec = candidatesKeyed_spec [OF sel assms(2,3)]
  then obtain new where n: "trace s1 = trace s @ new" "dispatched new = []" by blast
  from True body spec n show ?thesis
    unfolding call_ok_def
    by (intro exI [of _ "new @ [Selection cap 0]"] exI [of _ "[]"]) (auto simp: attempts_ok_def)
qed

end

interpretation unary: dispatcher "\<lambda>env cs s. dispatch_loop env cap call cs None None s" for cap call
  by unfold_locales (rule dispatch_loop_spec)

interpretation streaming: dispatcher "\<lambda>env cs s. stream_loop env (call :: nat \<Rightarrow> candidate \<Rightarrow> 'e opened) cs None None s" for call
  by unfold_locales (rule stream_loop_spec)

lemma call_ok_refused: "call_ok env ctx cap ts s False (Some err) s"
  unfolding call_ok_def by (intro exI [of _ "[]"]) (simp add: attempts_ok_def)

lemma dispatch_call_ok:
  assumes "dispatch_call env ctx model cap s got e s'" and "intn_ok env" and "sorted_routes (routes s)"
  shows "call_ok env (fst (admitModel ctx model)) cap (targets_of (routes s) model) s got e s'"
    and "\<not> snd (admitModel ctx model) \<Longrightarrow> s' = s \<and> e = Some ErrModelNotAllowed"
proof -
  have srt: "sorted (map Priority (targets_of (routes s) m))" for m
    using assms(3) by (simp add: sorted_routes_def)
  obtain actx adm where a: "admitModel ctx model = (actx, adm)" by (cases "admitModel ctx model")
  show "call_ok env (fst (admitModel ctx model)) cap (targets_of (routes s) model) s got e s'"
  proof (cases adm)
    case False
    with assms(1) a show ?thesis
      by (auto elim!: dispatch_callE simp: Chat_def Embed_def Rerank_def ChatStream_def intro: call_ok_refused)
  next
    case True
    from assms(1) show ?thesis
    proof cases
      case (chat backend req r c)
      obtain cs s1 where sel: "candidatesKeyed env actx (routes s) (rq_Model req) CapabilityChat (let key0 = sessionAffinity (sessionAffinityOn s) actx in
            if \<not> aff_ok key0 \<and> sched_policy s = PolicyPrefixHash
            then prefixAffinity (Messages (rq_Body req)) (prefixBytes s) else key0) s = (cs, s1)"
        by fastforce
      with chat a True have body: "(if length cs = 0
          then ((None, None, Some (noCandidates actx)), emit [Selection CapabilityChat (length cs)] s1)
          else dispatch_loop env CapabilityChat (\<lambda>t c. backend t c (withModel req (Model c))) cs None None (emit [Selection CapabilityChat (length cs)] s1)) = ((r, c, e), s')"
        by (simp add: Chat_def chatCandidates_def dispatch_selected_def Let_def)
      from unary.method_ok [OF sel assms(2) srt body] chat a show ?thesis by simp
    next
      case (embed backend req r c)
      obtain cs s1 where sel: "candidatesKeyed env actx (routes s) (rq_Model req) CapabilityEmbeddings no_affinity s = (cs, s1)"
        by fastforce
      with embed a True have body: "(if length cs = 0
          then ((None, None, Some (noCandidates actx)), emit [Selection CapabilityEmbeddings (length cs)] s1)
          else dispatch_loop env CapabilityEmbeddings (\<lambda>t c. backend t c (withEmbedModel req (Model c))) cs None None (emit [Selection CapabilityEmbeddings (length cs)] s1)) = ((r, c, e), s')"
        by (simp add: Embed_def candidates_def candidatesWith_def dispatch_selected_def Let_def)
      from unary.method_ok [OF sel assms(2) srt body] embed a show ?thesis by simp
    next
      case (rerank backend req r c)
      obtain cs s1 where sel: "candidatesKeyed env actx (routes s) (rq_Model req) CapabilityRerank no_affinity s = (cs, s1)"
        by fastforce
      with rerank a True have body: "(if length cs = 0
          then ((None, None, Some (noCandidates actx)), emit [Selection CapabilityRerank (length cs)] s1)
          else dispatch_loop env CapabilityRerank (\<lambda>t c. backend t c (withRerankModel req (Model c))) cs None None (emit [Selection CapabilityRerank (length cs)] s1)) = ((r, c, e), s')"
        by (simp add: Rerank_def candidates_def candidatesWith_def dispatch_selected_def Let_def)
      from unary.method_ok [OF sel assms(2) srt body] rerank a show ?thesis by simp
    next
      case (chat_stream backend req r c)
      obtain cs s1 where sel: "candidatesKeyed env actx (routes s) (rq_Model req) CapabilityChatStream (let key0 = sessionAffinity (sessionAffinityOn s) actx in
            if \<not> aff_ok key0 \<and> sched_policy s = PolicyPrefixHash
            then prefixAffinity (Messages (rq_Body req)) (prefixBytes s) else key0) s = (cs, s1)"
        by fastforce
      with chat_stream a True have body: "(if length cs = 0
          then ((None, None, Some (noCandidates actx)), emit [Selection CapabilityChatStream (length cs)] s1)
          else stream_loop env (\<lambda>t c. backend t c (withModel req (Model c))) cs None None (emit [Selection CapabilityChatStream (length cs)] s1)) = ((r, c, e), s')"
        by (simp add: ChatStream_def chatCandidates_def Let_def)
      from streaming.method_ok [OF sel assms(2) srt body] chat_stream a show ?thesis by simp
    qed
  qed
  show "s' = s \<and> e = Some ErrModelNotAllowed" if "\<not> snd (admitModel ctx model)"
    using assms(1) that a
    by (auto elim!: dispatch_callE simp: Chat_def Embed_def Rerank_def ChatStream_def)
qed

lemma chat_one_node:
  "fst (Chat one_env (\<lambda>t c req. Inr ''ok'') empty_ctx hello (Scheduler_New plain_config)) =
     (Some ''ok'', Some the_candidate, None)"
  by (simp add: Chat_def admitModel_def modelAllowed_def empty_ctx_def hello_def chatCandidates_def
     sessionAffinity_def Scheduler_New_def plain_config_def no_affinity_def candidatesKeyed_def Table_Resolve_def
     pick_def pickBy_def one_env_def one_node_def MatchesNode_def nodeAllowed_def nodeHasCapacity_def chat_snapshot_def
     runtimeHealthy_def Require_def Resolve_def Intersect_def eligible_def Let_def withRateLimit_def newBreakerRegistry_def
     orderCandidates_def advance_def emit_def weightedCandidates_def shuffle_groups.simps shuffle_block.simps block_end_def
     dispatch_selected_def skipCooling_def limited_def settle_def the_candidate_def)

lemma one_env_ok: "intn_ok one_env" and plain_routes_sorted: "sorted_routes (routes (Scheduler_New plain_config))"
  by (simp_all add: intn_ok_def one_env_def sorted_routes_def targets_of_def Table_Resolve_def
      Scheduler_New_def plain_config_def)

lemma call_one_node:
  "dispatch_call one_env empty_ctx ''m'' CapabilityChat (Scheduler_New plain_config) True None
     (snd (Chat one_env (\<lambda>t c req. Inr ''ok'') empty_ctx hello (Scheduler_New plain_config)))"
proof -
  have "Chat one_env (\<lambda>t c req. Inr ''ok'') empty_ctx hello (Scheduler_New plain_config) =
      ((Some ''ok'', Some the_candidate, None),
       snd (Chat one_env (\<lambda>t c req. Inr ''ok'') empty_ctx hello (Scheduler_New plain_config)))"
    using chat_one_node by (metis prod.collapse)
  from dispatch_call.chat [OF this] show ?thesis by (simp add: hello_def)
qed

lemma offered_nodeAllowed: "offered env ctx br cap tgt c t \<Longrightarrow> nodeAllowed ctx (NodeID c)"
  by (auto simp: offered_def usable_def)

lemma admitted_node_rule:
  assumes "nodeAllowed (fst (admitModel ctx model)) n" and "nodeAccess ctx = Some a" and "\<not> ownNodesOnly ctx"
    and "snd (admitModel ctx model)"
  shows "if snd (OwnerOf n) then fst (OwnerOf n) = tenantID a \<and> tenantID a \<noteq> ''''
         else modelAllowed ctx model \<and> NodePolicy_Allows (policy a) n"
  using assms
  by (auto simp: admitModel_def nodeAllowed_def Permits_def split: if_splits prod.splits)

subsection \<open>Cooling\<close>

lemma Min_absorb:
  "finite A \<Longrightarrow> finite B \<Longrightarrow> B \<noteq> {} \<Longrightarrow> Min (A \<union> {Min B}) = Min (A \<union> (B :: int set))"
  by (cases "A = {}") (simp_all add: Min_Un)

lemma cool_all_min:
  assumes "\<forall>i < length cs. limited br (cs ! i) (env_now env (t + i)) = Some (d i)"
    and "cs \<noteq> [] \<or> cooled \<noteq> None"
    and "\<And>e. cooled = Some e \<Longrightarrow> \<exists>c. e = cooling_error c (err_RetryAfter e)"
  shows "\<exists>c. cool_all env br t cs cooled = Some (cooling_error c
    (Min (d ` {..< length cs} \<union> (case cooled of None \<Rightarrow> {} | Some e \<Rightarrow> {err_RetryAfter e}))))"
  using assms
proof (induction cs arbitrary: t cooled d)
  case Nil
  then show ?case by (cases cooled) auto
next
  case (Cons c cs)
  let ?now = "env_now env t"
  have d0: "limited br c ?now = Some (d 0)" using Cons.prems(1) by force
  have step: "\<forall>i < length cs. limited br (cs ! i) (env_now env (Suc t + i)) = Some ((d \<circ> Suc) i)"
    using Cons.prems(1) by fastforce
  define cooled' where "cooled' = snd (skipCooling br ?now c cooled)"
  have ra: "err_RetryAfter (cooling_error x y) = y" for x y by (simp add: cooling_error_def)
  have c': "\<exists>x. cooled' = Some (cooling_error x
      (Min (insert (d 0) (case cooled of None \<Rightarrow> {} | Some e \<Rightarrow> {err_RetryAfter e}))))"
    using Cons.prems(3) d0
    by (cases cooled) (auto simp: cooled'_def skipCooling_def ra min_def)
  then obtain x where x: "cooled' = Some (cooling_error x
      (Min (insert (d 0) (case cooled of None \<Rightarrow> {} | Some e \<Rightarrow> {err_RetryAfter e}))))" by blast
  have img: "d ` {..< length (c # cs)} = insert (d 0) ((d \<circ> Suc) ` {..< length cs})"
    by (simp add: lessThan_Suc_eq_insert_0 image_comp)
  from Cons.IH [OF step, of cooled'] obtain y where
    y: "cool_all env br (Suc t) cs cooled' = Some (cooling_error y
      (Min ((d \<circ> Suc) ` {..< length cs} \<union> {err_RetryAfter (the cooled')})))"
    using x ra by auto
  have "Min ((d \<circ> Suc) ` {..< length cs} \<union> {err_RetryAfter (the cooled')}) =
      Min (d ` {..< length (c # cs)} \<union> (case cooled of None \<Rightarrow> {} | Some e \<Rightarrow> {err_RetryAfter e}))"
    using Min_absorb [of "(d \<circ> Suc) ` {..< length cs}"
        "insert (d 0) (case cooled of None \<Rightarrow> {} | Some e \<Rightarrow> {err_RetryAfter e})"] x ra
    unfolding img by (simp add: option.case_eq_if)
  with y show ?case by (auto simp: cooled'_def)
qed

lemma dispatch_loop_all_cooling:
  assumes "\<forall>i < length cs. limited (breakers s) (cs ! i) (env_now env (tick s + i)) \<noteq> None"
  shows "dispatch_loop env cap call cs lastErr cooled s =
    ((None, None, cooled_or (cool_all env (breakers s) (tick s) cs cooled) lastErr), advance (length cs) s)"
  using assms
proof (induction cs arbitrary: cooled s)
  case Nil
  then show ?case by (simp add: advance_def)
next
  case (Cons c cs)
  have "fst (skipCooling (breakers s) (env_now env (tick s)) c cooled)"
    using Cons.prems by (fastforce simp: skipCooling_def split: option.splits)
  moreover have "\<forall>i < length cs. limited (breakers (advance 1 s)) (cs ! i) (env_now env (tick (advance 1 s) + i)) \<noteq> None"
    using Cons.prems by fastforce
  from Cons.IH [OF this] have "dispatch_loop env cap call cs lastErr x (advance 1 s) =
    ((None, None, cooled_or (cool_all env (breakers s) (Suc (tick s)) cs x) lastErr), advance (Suc (length cs)) s)" for x
    by (simp add: advance_def)
  ultimately show ?case by (simp add: split_beta)
qed

subsection \<open>Runs\<close>

lemma sorted_routes_New: "Table_New rs = Inr t \<Longrightarrow> sorted_routes (Some t)"
proof -
  assume n: "Table_New rs = Inr t"
  have "sorted (map Priority ts)" if "byModel t m = Some ts" for m ts
  proof -
    have "byModel t m = byModel (build_table rs \<lparr>byModel = Map.empty, models = []\<rparr>) m"
      by (subst Table_NewD(2) [OF n]) simp
    with that have "\<exists>r :: route. ts = sort_targets (Targets r)"
      by (auto simp: build_table_lookup [OF Table_NewD(3) [OF n]] split: option.splits)
    then obtain r :: route where "ts = sort_targets (Targets r)" ..
    moreover have "sorted_wrt (\<lambda>a b. \<not> Priority b < Priority a) (sort_targets us)" for us
      unfolding sort_targets_def by (rule by_priority.sorted_stable_sort)
    ultimately show ?thesis by (simp add: sorted_map not_less)
  qed
  then show ?thesis
    by (auto simp: sorted_routes_def targets_of_def Table_Resolve_def split: option.splits)
qed

lemma sched_run_history:
  assumes "sched_run env s0 s" and "intn_ok env" and "sorted_routes (routes s0)"
  shows "sorted_routes (routes s)
    \<and> (\<exists>new h. trace s = trace s0 @ new \<and> breakers s = replay (breakers s0) h
         \<and> map (\<lambda>(c, e, t). (c, e)) (rev h) = dispatched new)"
  using assms
proof (induction rule: sched_run.induct)
  case start
  then show ?case by (auto intro!: exI [of _ "[]"])
next
  case (call s ctx model cap got e s')
  then obtain new h where r: "sorted_routes (routes s)" and t: "trace s = trace s0 @ new"
    and b: "breakers s = replay (breakers s0) h" and d: "map (\<lambda>(c, e, t). (c, e)) (rev h) = dispatched new" by blast
  from dispatch_call_ok(1) [OF call.hyps(2) call.prems(1) r] obtain new' h' where
    "trace s' = trace s @ new'" "breakers s' = replay (breakers s) h'" "routes s' = routes s"
    "map (\<lambda>(c, e, t). (c, e)) (rev h') = dispatched new'" unfolding call_ok_def by blast
  with r t b d show ?case
    by (intro conjI exI [of _ "new @ new'"] exI [of _ "h' @ h"]) (simp_all add: replay_append)
next
  case (transcribe s backend ctx c req r s')
  then obtain new h where r: "sorted_routes (routes s)" and t: "trace s = trace s0 @ new"
    and b: "breakers s = replay (breakers s0) h" and d: "map (\<lambda>(c, e, t). (c, e)) (rev h) = dispatched new" by blast
  from transcribe.hyps(2) consider "s' = s" | x where "s' = settle env c x (advance 1 s)"
    by (auto simp: Transcribe_def Let_def split: prod.splits if_splits)
  then show ?case
  proof cases
    case 1
    with r t b d show ?thesis by blast
  next
    case 2
    obtain new' where "trace s' = trace s @ new'" "dispatched new' = [(c, x)]"
      using settle_trace [of env c x "advance 1 s"] 2 by auto
    with 2 r t b d show ?thesis
      by (intro conjI exI [of _ "new @ new'"] exI [of _ "(c, x, env_now env (Suc (tick s))) # h"]) simp_all
  qed
next
  case (set_routes s rs t)
  then show ?case by (auto simp: SetRoutes_def intro: sorted_routes_New)
qed

subsection \<open>The catalogue\<close>

lemma modelInfoLess_key: "modelInfoLess a b \<longleftrightarrow> catalogue_key a < catalogue_key b"
proof -
  have lex: "(p, x) < (q, y) \<longleftrightarrow> (if p \<noteq> q then p < q else x < y)" for p q :: "'a :: linorder" and x y :: "'b :: linorder"
    by auto
  show ?thesis unfolding modelInfoLess_def catalogue_key_def lex by (intro if_cong refl) auto
qed

interpretation catalogue_order: strict_weak_order modelInfoLess
  unfolding modelInfoLess_key by unfold_locales auto

lemma catalogue_ok_update:
  "catalogue_ok seen \<Longrightarrow> mi_ID v = k \<Longrightarrow> catalogue_ok (AList.update k v seen)"
  using set_update_subset [of k v seen] by (auto simp: catalogue_ok_def)

lemma listed_models_Cons:
  "listed_models ctx owned snap (m # ms) =
     (if (owned \<or> modelAllowed ctx (m_ID m)) \<and> listable snap m
      then insert (m_ID m) (listed_models ctx owned snap ms) else listed_models ctx owned snap ms)"
  by (auto simp: listed_models_def)

lemma listed_runtimes_Cons:
  "listed_runtimes ctx owned (snap # snaps) =
     (if runtimeHealthy (snap_State snap)
      then listed_models ctx owned snap (snap_Models snap) \<union> listed_runtimes ctx owned snaps
      else listed_runtimes ctx owned snaps)"
  by (auto simp: listed_runtimes_def)

lemma listed_ids_Cons:
  "listed_ids ctx ownOnly (node # nodes) =
     (if listed_node ctx ownOnly node
      then listed_runtimes ctx (own_node ctx node) (ni_Runtimes node) \<union> listed_ids ctx ownOnly nodes
      else listed_ids ctx ownOnly nodes)"
  by (auto simp: listed_ids_def)

lemma see_models_spec:
  assumes "catalogue_ok seen"
  shows "catalogue_ok (see_models ctx owned snap ms seen)
    \<and> fst ` set (see_models ctx owned snap ms seen) = fst ` set seen \<union> listed_models ctx owned snap ms"
  using assms
proof (induction ms arbitrary: seen)
  case Nil
  then show ?case by (simp add: listed_models_def)
next
  case (Cons m ms)
  show ?case
  proof (cases "(owned \<or> modelAllowed ctx (m_ID m)) \<and> listable snap m")
    case False
    then have "see_models ctx owned snap (m # ms) seen = see_models ctx owned snap ms seen" by auto
    with Cons.IH [OF Cons.prems] False show ?thesis by (simp only: listed_models_Cons if_False)
  next
    case True
    let ?info = "\<lparr>mi_ID = m_ID m, mi_DisplayName = m_DisplayName m, mi_DisplayOrder = m_DisplayOrder m\<rparr>"
    let ?seen = "case map_of seen (m_ID m) of
             None \<Rightarrow> AList.update (m_ID m) ?info seen
           | Some prior \<Rightarrow> if modelInfoLess ?info prior then AList.update (m_ID m) ?info seen else seen"
    have ok: "catalogue_ok ?seen"
      using Cons.prems catalogue_ok_update [OF Cons.prems, of ?info "m_ID m"] by (simp split: option.splits)
    have keys: "fst ` set ?seen = insert (m_ID m) (fst ` set seen)"
      using map_of_SomeD by (force simp: dom_update split: option.splits)
    have step: "see_models ctx owned snap (m # ms) seen = see_models ctx owned snap ms ?seen"
      using True by (auto simp add: Let_def)
    have "catalogue_ok (see_models ctx owned snap ms ?seen) \<and>
        fst ` set (see_models ctx owned snap ms ?seen) = fst ` set ?seen \<union> listed_models ctx owned snap ms"
      by (rule Cons.IH [OF ok])
    then show ?thesis unfolding step listed_models_Cons keys using True by simp
  qed
qed

lemma see_runtimes_spec:
  assumes "catalogue_ok seen"
  shows "catalogue_ok (see_runtimes ctx owned snaps seen)
    \<and> fst ` set (see_runtimes ctx owned snaps seen) = fst ` set seen \<union> listed_runtimes ctx owned snaps"
  using assms
proof (induction ctx owned snaps seen rule: see_runtimes.induct)
  case (1 ctx owned seen)
  then show ?case by (simp add: listed_runtimes_def)
next
  case (2 ctx owned snap snaps seen)
  then show ?case
    using see_models_spec [OF 2(3), of ctx owned snap "snap_Models snap"]
    by (cases "runtimeHealthy (snap_State snap)") (simp_all add: listed_runtimes_Cons Un_assoc)
qed

lemma see_nodes_spec:
  assumes "catalogue_ok seen"
  shows "catalogue_ok (see_nodes ctx ownOnly nodes seen)
    \<and> fst ` set (see_nodes ctx ownOnly nodes seen) = fst ` set seen \<union> listed_ids ctx ownOnly nodes"
  using assms
proof (induction nodes arbitrary: seen)
  case Nil
  then show ?case by (simp add: listed_ids_def)
next
  case (Cons node nodes)
  show ?case
  proof (cases "listed_node ctx ownOnly node")
    case True
    then have "see_nodes ctx ownOnly (node # nodes) seen =
        see_nodes ctx ownOnly nodes (see_runtimes ctx (own_node ctx node) (ni_Runtimes node) seen)"
      by (auto simp: listed_node_def own_node_def Let_def)
    with True see_runtimes_spec [OF Cons.prems, of ctx "own_node ctx node" "ni_Runtimes node"] Cons.IH
    show ?thesis by (simp add: listed_ids_Cons Un_assoc)
  next
    case False
    then have "see_nodes ctx ownOnly (node # nodes) seen = see_nodes ctx ownOnly nodes seen"
      by (auto simp: listed_node_def own_node_def Let_def)
    with False Cons show ?thesis by (simp add: listed_ids_Cons)
  qed
qed


section \<open>Properties\<close>

text \<open>
  C28. Who gets the work. Every attempt that \<open>Chat\<close>, \<open>Embed\<close>, \<open>Rerank\<close> or
  \<open>ChatStream\<close> makes goes to a candidate that some node view offered while the candidates
  were being selected: a live node, neither draining nor in maintenance, matching the labels and the
  memory floor of one of the model's targets and open to the caller, with a healthy runtime that
  serves the target's model with the required capability and whose breaker was not open. A request
  that is not admitted attempts nothing.
\<close>

theorem dispatch_only_offered:
  assumes "dispatch_call env ctx model cap s got e s'" and "intn_ok env" and "sorted_routes (routes s)"
  shows "\<exists>new. trace s' = trace s @ new
    \<and> (\<forall>(c, x) \<in> set (dispatched new). snd (admitModel ctx model)
         \<and> (\<exists>tgt \<in> set (targets_of (routes s) model). \<exists>t.
              offered env (fst (admitModel ctx model)) (breakers s) cap tgt c t))"
proof (cases "snd (admitModel ctx model)")
  case True
  from dispatch_call_ok(1) [OF assms] obtain new where "trace s' = trace s @ new"
    and "\<forall>(d, x) \<in> set (dispatched new). \<exists>i < length (targets_of (routes s) model).
      offered env (fst (admitModel ctx model)) (breakers s) cap (targets_of (routes s) model ! i) d (tick s + i)"
    unfolding call_ok_def by blast
  with True show ?thesis by (intro exI [of _ new]) (fastforce intro: nth_mem)
next
  case False
  from dispatch_call_ok(2) [OF assms False] show ?thesis by (intro exI [of _ "[]"]) simp
qed

theorem dispatch_only_offered_witness:
  "\<exists>new. trace (snd (Chat one_env (\<lambda>t c req. Inr ''ok'') empty_ctx hello (Scheduler_New plain_config)))
      = trace (Scheduler_New plain_config) @ new
    \<and> (\<forall>(c, x) \<in> set (dispatched new). snd (admitModel empty_ctx ''m'')
         \<and> (\<exists>tgt \<in> set (targets_of (routes (Scheduler_New plain_config)) ''m''). \<exists>t.
              offered one_env (fst (admitModel empty_ctx ''m'')) (breakers (Scheduler_New plain_config))
                CapabilityChat tgt c t))"
  by (rule dispatch_only_offered [OF call_one_node one_env_ok plain_routes_sorted])

text \<open>
  C1. Tenant isolation. With a tenant on the request, an attempt on a tenant-owned node is on a node
  of that very tenant, and an attempt on any other node is for a model the policy allows and on a
  node the tenant's dedicated-node policy leaves open. No route, label, retry or affinity can reach
  around it.
\<close>

theorem dispatch_tenant_isolation:
  assumes "dispatch_call env ctx model cap s got e s'" and "intn_ok env" and "sorted_routes (routes s)"
    and "nodeAccess ctx = Some a" and "\<not> ownNodesOnly ctx"
  shows "\<exists>new. trace s' = trace s @ new
    \<and> (\<forall>(c, x) \<in> set (dispatched new).
         if snd (OwnerOf (NodeID c)) then fst (OwnerOf (NodeID c)) = tenantID a \<and> tenantID a \<noteq> ''''
         else modelAllowed ctx model \<and> NodePolicy_Allows (policy a) (NodeID c))"
proof (cases "snd (admitModel ctx model)")
  case True
  from dispatch_call_ok(1) [OF assms(1-3)] obtain new where new: "trace s' = trace s @ new"
    and off: "\<forall>(d, x) \<in> set (dispatched new). \<exists>i < length (targets_of (routes s) model).
      offered env (fst (admitModel ctx model)) (breakers s) cap (targets_of (routes s) model ! i) d (tick s + i)"
    unfolding call_ok_def by blast
  have "nodeAllowed (fst (admitModel ctx model)) (NodeID c)" if "(c, x) \<in> set (dispatched new)" for c x
    using off that offered_nodeAllowed by blast
  from admitted_node_rule [OF this assms(4,5) True] new show ?thesis by blast
next
  case False
  from dispatch_call_ok(2) [OF assms(1-3) False] show ?thesis by (intro exI [of _ "[]"]) simp
qed

theorem dispatch_tenant_isolation_witness:
  "\<exists>new. trace (snd (Chat one_env (\<lambda>t c req. Inr ''ok'') (WithNodeAccess empty_ctx ''acme'' \<lparr>Excluded = []\<rparr>) hello
        (Scheduler_New plain_config))) = trace (Scheduler_New plain_config) @ new
    \<and> (\<forall>(c, x) \<in> set (dispatched new).
         if snd (OwnerOf (NodeID c)) then fst (OwnerOf (NodeID c)) = ''acme'' \<and> ''acme'' \<noteq> ''''
         else modelAllowed (WithNodeAccess empty_ctx ''acme'' \<lparr>Excluded = []\<rparr>) ''m''
              \<and> NodePolicy_Allows \<lparr>Excluded = []\<rparr> (NodeID c))"
proof -
  let ?ctx = "WithNodeAccess empty_ctx ''acme'' \<lparr>Excluded = []\<rparr>"
  obtain r :: "string option" and c e s' where ch:
    "Chat one_env (\<lambda>t c req. Inr ''ok'') ?ctx hello (Scheduler_New plain_config) = ((r, c, e), s')"
    by (metis prod.exhaust)
  from dispatch_call.chat [OF this]
  have "dispatch_call one_env ?ctx ''m'' CapabilityChat (Scheduler_New plain_config) (r \<noteq> None) e s'"
    by (simp add: hello_def)
  note iso = dispatch_tenant_isolation [OF this one_env_ok plain_routes_sorted,
      of "\<lparr>tenantID = ''acme'', policy = \<lparr>Excluded = []\<rparr>\<rparr>", unfolded node_access.simps]
  have "nodeAccess ?ctx = Some \<lparr>tenantID = ''acme'', policy = \<lparr>Excluded = []\<rparr>\<rparr>"
    and "\<not> ownNodesOnly ?ctx" by (simp_all add: WithNodeAccess_def empty_ctx_def)
  from iso [OF this] show ?thesis unfolding ch snd_conv .
qed

text \<open>
  C29. Retry discipline. One call tries each candidate at most once, moves on only after an error
  marked retryable, and its answer is the answer of its last attempt; it always answers, with a
  response exactly when it has no error.
\<close>

theorem dispatch_retry_discipline:
  assumes "dispatch_call env ctx model cap s got e s'" and "intn_ok env" and "sorted_routes (routes s)"
  shows "\<exists>new. trace s' = trace s @ new \<and> distinct (map fst (dispatched new))
    \<and> (\<forall>(c, x) \<in> set (butlast (dispatched new)). \<exists>err. x = Some err \<and> retryable err)
    \<and> (dispatched new \<noteq> [] \<longrightarrow> e = snd (last (dispatched new)))
    \<and> (got \<longleftrightarrow> e = None)"
proof -
  from dispatch_call_ok(1) [OF assms] obtain new where "trace s' = trace s @ new"
    and "distinct (map fst (dispatched new))" and ok: "attempts_ok (dispatched new)"
    and "got \<longleftrightarrow> e = None" and "dispatched new \<noteq> [] \<longrightarrow> e = snd (last (dispatched new))"
    unfolding call_ok_def by blast
  moreover from ok have "\<forall>(c, x) \<in> set (butlast (dispatched new)). \<exists>err. x = Some err \<and> retryable err"
    by (fastforce simp: attempts_ok_def list_all_iff split: option.splits)
  ultimately show ?thesis by blast
qed

theorem dispatch_retry_discipline_witness:
  "\<exists>new. trace (snd (Chat one_env (\<lambda>t c req. Inr ''ok'') empty_ctx hello (Scheduler_New plain_config)))
      = trace (Scheduler_New plain_config) @ new \<and> distinct (map fst (dispatched new))"
  using dispatch_retry_discipline [OF call_one_node one_env_ok plain_routes_sorted] by blast

text \<open>
  Everything cooling. When every candidate is still held back by a rate limit, none is tried, the
  breaker state is untouched, and the answer is a retryable rate-limited error of one of the
  candidates whose retry time is the smallest time left among them.
\<close>

theorem all_cooling_answer:
  assumes "cs \<noteq> []"
    and "\<forall>i < length cs. limited (breakers s) (cs ! i) (env_now env (tick s + i)) = Some (d i)"
  shows "\<exists>c. dispatch_loop env cap call cs None None s =
    ((None, None, Some (RuntimeErr (cooling_error c (Min (d ` {..< length cs}))))), advance (length cs) s)"
proof -
  from cool_all_min [OF assms(2), of None] assms(1) obtain c where
    "cool_all env (breakers s) (tick s) cs None = Some (cooling_error c (Min (d ` {..< length cs})))" by auto
  with dispatch_loop_all_cooling [of cs s env cap call None None] assms(2) show ?thesis
    by (auto simp: cooled_or_def)
qed

theorem all_cooling_answer_witness:
  "\<exists>c. dispatch_loop one_env CapabilityChat (\<lambda>t c. Inr ''ok'') [the_candidate] None None
      ((Scheduler_New plain_config)\<lparr>breakers := replay (newBreakerRegistry 0 0 0) [(the_candidate, limit_error (7 * second), 100)]\<rparr>) =
    ((None, None, Some (RuntimeErr (cooling_error c (Min ((\<lambda>i. 7 * second) ` {..< length [the_candidate]}))))),
     advance (length [the_candidate])
      ((Scheduler_New plain_config)\<lparr>breakers := replay (newBreakerRegistry 0 0 0) [(the_candidate, limit_error (7 * second), 100)]\<rparr>))"
  by (rule all_cooling_answer)
    (simp_all add: limited_def record_outcome_def rateLimitedError_def limit_error_def
        zero_runtime_error_def Let_def limitWindow_def newBreakerRegistry_def time_add_def Scheduler_New_def one_env_def
        defaultMaxRateLimitCooldown_def second_def minute_def hour_def time_sub_def min_int64_def max_int64_def)

text \<open>
  The breaker and the traffic. In every state a scheduler reaches through requests, transcriptions
  and route changes, a candidate is excluded exactly when the failures that its recorded attempts end
  with have reached the threshold and their cooldown still runs; the attempts recorded are exactly
  the attempts made, in order.
\<close>

theorem scheduler_breaker_history:
  assumes "sched_run env (Scheduler_New cfg) s" and "intn_ok env" and "sorted_routes (cfg_Routes cfg)"
  shows "\<exists>h. map (\<lambda>(c, e, t). (c, e)) (rev h) = dispatched (trace s)
    \<and> (\<forall>c now. \<not> fst (eligible (breakers s) c now) \<longleftrightarrow>
         failureThreshold (breakers (Scheduler_New cfg)) \<le> streak c h
         \<and> now < last_time c h + cooldown (breakers (Scheduler_New cfg))
             (streak c h - failureThreshold (breakers (Scheduler_New cfg))))"
proof -
  let ?r = "breakers (Scheduler_New cfg)"
  have r: "entries ?r = Map.empty" "0 < failureThreshold ?r"
    by (simp_all add: Scheduler_New_def withRateLimit_def Let_def)
  from sched_run_history [OF assms(1,2)] assms(3) obtain new h where
    "trace s = trace (Scheduler_New cfg) @ new" and b: "breakers s = replay ?r h"
    and "map (\<lambda>(c, e, t). (c, e)) (rev h) = dispatched new"
    by (auto simp: Scheduler_New_def)
  then have "map (\<lambda>(c, e, t). (c, e)) (rev h) = dispatched (trace s)" by (simp add: Scheduler_New_def)
  moreover have "\<not> fst (eligible (breakers s) c now) \<longleftrightarrow> failureThreshold ?r \<le> streak c h
         \<and> now < last_time c h + cooldown ?r (streak c h - failureThreshold ?r)" for c now
    using replay_refines [OF r, of c h] r(2)
    by (auto simp: b eligible_def spec_state_def zero_breaker_state_def split: option.splits)
  ultimately show ?thesis by blast
qed

theorem scheduler_breaker_history_witness:
  "\<exists>h :: history. map (\<lambda>(c, e, t). (c, e)) (rev h) = dispatched (trace (snd (Chat one_env (\<lambda>t c req. Inr ''ok'')
      empty_ctx hello (Scheduler_New plain_config))))"
proof -
  let ?s = "snd (Chat one_env (\<lambda>t c req. Inr ''ok'') empty_ctx hello (Scheduler_New plain_config))"
  have run: "sched_run one_env (Scheduler_New plain_config) ?s"
    by (rule sched_run.call [OF sched_run.start call_one_node])
  have srt: "sorted_routes (cfg_Routes plain_config)"
    using plain_routes_sorted by (simp add: Scheduler_New_def)
  show ?thesis
    using scheduler_breaker_history [OF run one_env_ok srt] by (elim exE conjE) (rule exI)
qed

text \<open>
  The catalogue is exact. Without a routing table, \<open>Models\<close> lists each id once, in
  catalogue order, and lists an id exactly when a live node open to the caller has a healthy runtime
  with a chat, Messages or image model of that id which the caller's policy allows, or which runs
  on one of the caller's own nodes.
\<close>

theorem Models_exact:
  assumes "Table_Len (routes s) = 0"
  shows "sorted_wrt (\<lambda>a b. \<not> modelInfoLess b a) (fst (Models env ctx s))
    \<and> distinct (map mi_ID (fst (Models env ctx s)))
    \<and> set (map mi_ID (fst (Models env ctx s))) = listed_ids ctx False (env_nodes env (tick s))"
proof -
  let ?seen = "see_nodes ctx False (env_nodes env (tick s)) []"
  have out: "fst (Models env ctx s) = stable_sort modelInfoLess (map snd ?seen)"
    using assms by (simp add: Models_def advertisedModels_def)
  have spec: "catalogue_ok ?seen" and keys: "fst ` set ?seen = listed_ids ctx False (env_nodes env (tick s))"
    using see_nodes_spec [of "[]" ctx False "env_nodes env (tick s)"] by (simp_all add: catalogue_ok_def)
  have "map mi_ID (map snd ?seen) = map fst ?seen"
    using spec by (auto simp: catalogue_ok_def)
  then have m: "mset (map mi_ID (fst (Models env ctx s))) = mset (map fst ?seen)"
    unfolding out mset_map mset_stable_sort by (metis mset_map)
  have "distinct (map mi_ID (fst (Models env ctx s))) = distinct (map fst ?seen)"
    using m by (rule mset_eq_imp_distinct_iff)
  moreover have "set (map mi_ID (fst (Models env ctx s))) = set (map fst ?seen)"
    using m by (metis set_mset_mset)
  ultimately show ?thesis
    using spec keys catalogue_order.sorted_stable_sort [of "map snd ?seen"]
    by (simp add: out catalogue_ok_def wf_map_def)
qed

theorem Models_exact_witness:
  "''m'' \<in> set (map mi_ID (fst (Models one_env empty_ctx (Scheduler_New plain_config))))"
proof -
  have len: "Table_Len (routes (Scheduler_New plain_config)) = 0"
    by (simp add: Scheduler_New_def plain_config_def Table_Len_def)
  have "''m'' \<in> listed_ids empty_ctx False (env_nodes one_env (tick (Scheduler_New plain_config)))"
    by (simp add: listed_ids_def listed_runtimes_def listed_models_def one_env_def one_node_def chat_snapshot_def
        listed_node_def nodeAllowed_def empty_ctx_def runtimeHealthy_def modelAllowed_def listable_def
        Require_def Resolve_def Intersect_def)
  with Models_exact [OF len, of one_env empty_ctx] show ?thesis by simp
qed

end
