(* ===== verification/BillingModel.thy ===== *)
theory BillingModel
  imports Go_Strings
begin

text \<open>
  \<open>aiServeWeaveControlPlane/internal/model\<close>: the prepaid-credit entities of \<open>billing.go\<close>
  and their arithmetic. Balances and prices are \<open>int64\<close> micro-credits; the charge of a request is
  computed in 128 bits from two \<^typ>\<open>64 word\<close> halves and refunds are computed in \<open>big.Int\<close>.

  The lemmas give each routine its exact value: the charge as a rounded-up quotient with the one
  range where it wraps, refunds as monotone proportional shares that telescope, and the bound that
  makes a refund of unused credits safe.
\<close>

unbundle bit_operations_syntax


section \<open>Definitions\<close>

subsection \<open>math/bits and math/big\<close>

definition Mul64 :: "64 word \<Rightarrow> 64 word \<Rightarrow> 64 word \<times> 64 word" where
  "Mul64 x y = (let p = unat x * unat y in (of_nat (p div 2 ^ 64), of_nat p))"

definition Add64 :: "64 word \<Rightarrow> 64 word \<Rightarrow> 64 word \<Rightarrow> 64 word \<times> 64 word" where
  "Add64 x y carry = (x + y + carry, if 2 ^ 64 \<le> unat x + unat y + unat carry then 1 else 0)"

text \<open>\<open>Div64\<close> panics unless \<open>hi < y\<close>, which its only caller checks.\<close>

definition Div64 :: "64 word \<Rightarrow> 64 word \<Rightarrow> 64 word \<Rightarrow> 64 word \<times> 64 word" where
  "Div64 hi lo y =
     (let n = unat hi * 2 ^ 64 + unat lo in (of_nat (n div unat y), of_nat (n mod unat y)))"

text \<open>The conversions \<open>uint64(v)\<close> and \<open>int64(w)\<close>.\<close>

definition uint64_of :: "int \<Rightarrow> 64 word" where
  "uint64_of v = word_of_int v"

definition int64_of :: "64 word \<Rightarrow> int" where
  "int64_of w = wrap64 (uint w)"

text \<open>\<open>big.Int.Int64\<close> keeps the low 64 bits.\<close>

abbreviation big_Int64 :: "int \<Rightarrow> int" where
  "big_Int64 \<equiv> wrap64"

subsection \<open>Vocabulary\<close>

definition MicroPerCredit :: int where "MicroPerCredit = 1000000"
definition MaxPriceMicroPerMTok :: int where "MaxPriceMicroPerMTok = 1000000 * MicroPerCredit"

abbreviation BillingModePrepaid :: string where "BillingModePrepaid \<equiv> ''prepaid''"
abbreviation BillingModeExempt :: string where "BillingModeExempt \<equiv> ''exempt''"

abbreviation PackageKindFixed :: string where "PackageKindFixed \<equiv> ''fixed''"
abbreviation PackageKindCustom :: string where "PackageKindCustom \<equiv> ''custom''"

abbreviation OrderStatusPending :: string where "OrderStatusPending \<equiv> ''pending''"
abbreviation OrderStatusPaid :: string where "OrderStatusPaid \<equiv> ''paid''"
abbreviation OrderStatusFailed :: string where "OrderStatusFailed \<equiv> ''failed''"
abbreviation OrderStatusRefunded :: string where "OrderStatusRefunded \<equiv> ''refunded''"
abbreviation OrderStatusDisputed :: string where "OrderStatusDisputed \<equiv> ''disputed''"

abbreviation LedgerKindGrant :: string where "LedgerKindGrant \<equiv> ''grant''"
abbreviation LedgerKindTopup :: string where "LedgerKindTopup \<equiv> ''topup''"
abbreviation LedgerKindUsage :: string where "LedgerKindUsage \<equiv> ''usage''"
abbreviation LedgerKindRefund :: string where "LedgerKindRefund \<equiv> ''refund''"
abbreviation LedgerKindRefundReversal :: string where "LedgerKindRefundReversal \<equiv> ''refund_reversal''"
abbreviation LedgerKindDispute :: string where "LedgerKindDispute \<equiv> ''dispute''"
abbreviation LedgerKindDisputeReversal :: string where "LedgerKindDisputeReversal \<equiv> ''dispute_reversal''"
abbreviation LedgerKindAdjust :: string where "LedgerKindAdjust \<equiv> ''adjust''"

abbreviation RefundStatusPending :: string where "RefundStatusPending \<equiv> ''pending''"
abbreviation RefundStatusRejected :: string where "RefundStatusRejected \<equiv> ''rejected''"
abbreviation RefundStatusCancelled :: string where "RefundStatusCancelled \<equiv> ''cancelled''"
abbreviation RefundStatusProcessing :: string where "RefundStatusProcessing \<equiv> ''processing''"
abbreviation RefundStatusSucceeded :: string where "RefundStatusSucceeded \<equiv> ''succeeded''"
abbreviation RefundStatusFailed :: string where "RefundStatusFailed \<equiv> ''failed''"

abbreviation DefaultPriceModel :: string where "DefaultPriceModel \<equiv> ''*''"

subsection \<open>Tenants, packages and prices\<close>

record TenantBilling =
  tb_TenantID :: string
  tb_Mode :: string
  tb_BalanceMicro :: int
  tb_DodoCustomerID :: string
  tb_CreatedAt :: go_time
  tb_UpdatedAt :: go_time

definition Blocked :: "TenantBilling \<Rightarrow> bool" where
  "Blocked b \<longleftrightarrow> tb_Mode b = BillingModePrepaid \<and> tb_BalanceMicro b \<le> 0"

record CreditPackage =
  cp_ID :: string
  cp_Name :: string
  cp_Kind :: string
  cp_DodoProductID :: string
  cp_CreditsMicro :: int
  cp_PriceMinor :: int
  cp_Currency :: string
  cp_CreditsPerMinorUnitMicro :: int
  cp_MinAmountMinor :: int
  cp_MaxAmountMinor :: int
  cp_Active :: bool
  cp_SortOrder :: int
  cp_CreatedAt :: go_time
  cp_UpdatedAt :: go_time

definition mulNonNegative :: "int \<Rightarrow> int \<Rightarrow> int \<times> bool" where
  "mulNonNegative a b =
     (if a < 0 \<or> b < 0 then (0, False)
      else let (hi, lo) = Mul64 (uint64_of a) (uint64_of b) in
        if hi \<noteq> 0 \<or> uint64_of max_int64 < lo then (0, False) else (int64_of lo, True))"

definition Credits :: "CreditPackage \<Rightarrow> int \<Rightarrow> int \<times> bool" where
  "Credits p amountMinor =
     (if cp_Kind p = PackageKindFixed then (cp_CreditsMicro p, 0 < cp_CreditsMicro p)
      else if cp_Kind p = PackageKindCustom then
        (if amountMinor < cp_MinAmountMinor p \<or> cp_MaxAmountMinor p < amountMinor \<or> amountMinor \<le> 0
         then (0, False)
         else mulNonNegative amountMinor (cp_CreditsPerMinorUnitMicro p))
      else (0, False))"

record ModelPrice =
  mp_Model :: string
  mp_InputMicroPerMTok :: int
  mp_OutputMicroPerMTok :: int
  mp_UpdatedBy :: string
  mp_UpdatedAt :: go_time

definition nonNegative :: "int \<Rightarrow> 64 word" where
  "nonNegative v = (if v < 0 then 0 else uint64_of v)"

definition Cost :: "ModelPrice \<Rightarrow> int \<Rightarrow> int \<Rightarrow> int" where
  "Cost p promptTokens completionTokens =
     (let (inHi, inLo) = Mul64 (nonNegative promptTokens) (nonNegative (mp_InputMicroPerMTok p));
          (outHi, outLo) = Mul64 (nonNegative completionTokens) (nonNegative (mp_OutputMicroPerMTok p));
          (lo, carry) = Add64 inLo outLo 0;
          (hi, overflow) = Add64 inHi outHi carry in
      if overflow \<noteq> 0 \<or> 1000000 \<le> hi then max_int64
      else let (q, r) = Div64 hi lo 1000000;
               q' = (if r \<noteq> 0 then q + 1 else q) in
        if uint64_of max_int64 < q' then max_int64 else int64_of q')"

subsection \<open>Orders and refunds\<close>

record CheckoutOrder =
  co_ID :: string
  co_TenantID :: string
  co_PackageID :: string
  co_DodoProductID :: string
  co_DodoSessionID :: string
  co_DodoPaymentID :: "string option"
  co_AmountMinor :: int
  co_Currency :: string
  co_CreditsMicro :: int
  co_RefundedMinor :: int
  co_PaidAmountMinor :: int
  co_PaidCurrency :: string
  co_Status :: string
  co_CreatedBy :: string
  co_CreatedAt :: go_time
  co_UpdatedAt :: go_time

definition RefundBasisMinor :: "CheckoutOrder \<Rightarrow> int" where
  "RefundBasisMinor ord = (if 0 < co_PaidAmountMinor ord then co_PaidAmountMinor ord else co_AmountMinor ord)"

definition RefundCredits :: "CheckoutOrder \<Rightarrow> int \<Rightarrow> int" where
  "RefundCredits ord refundMinor =
     (let basis = RefundBasisMinor ord in
      if basis \<le> 0 \<or> refundMinor \<le> 0 then 0
      else if basis \<le> refundMinor then co_CreditsMicro ord
      else let num = co_CreditsMicro ord * refundMinor;
               q = quo num basis; r = rem num basis in
        big_Int64 (if sgn r \<noteq> 0 then q + 1 else q))"

definition RemainingRefundMinor :: "CheckoutOrder \<Rightarrow> int" where
  "RemainingRefundMinor ord = max (wrap64 (RefundBasisMinor ord - co_RefundedMinor ord)) 0"

definition HeldCredits :: "CheckoutOrder \<Rightarrow> int" where
  "HeldCredits ord = wrap64 (co_CreditsMicro ord - RefundCredits ord (co_RefundedMinor ord))"

definition UnusedRefundMinor :: "CheckoutOrder \<Rightarrow> int \<Rightarrow> int" where
  "UnusedRefundMinor ord availableMicro =
     (let remaining = RemainingRefundMinor ord in
      if remaining \<le> 0 \<or> co_CreditsMicro ord \<le> 0 \<or> availableMicro \<le> 0 then 0
      else if HeldCredits ord \<le> availableMicro then remaining
      else min (big_Int64 (quo (availableMicro * RefundBasisMinor ord) (co_CreditsMicro ord))) remaining)"

definition RefundDelta :: "CheckoutOrder \<Rightarrow> int \<Rightarrow> int" where
  "RefundDelta ord amountMinor =
     (let refunded = min (wrap64 (co_RefundedMinor ord + max amountMinor 0)) (RefundBasisMinor ord) in
      wrap64 (RefundCredits ord refunded - RefundCredits ord (co_RefundedMinor ord)))"

record RefundRequest =
  rr_ID :: string
  rr_TenantID :: string
  rr_OrderID :: string
  rr_Source :: string
  rr_Status :: string
  rr_AmountMinor :: int
  rr_Currency :: string
  rr_CreditsMicro :: int
  rr_Reason :: string
  rr_RequestedBy :: string
  rr_ReviewedBy :: string
  rr_ReviewNote :: string
  rr_DodoRefundID :: "string option"
  rr_Failure :: string
  rr_CreatedAt :: go_time
  rr_UpdatedAt :: go_time

definition Active :: "RefundRequest \<Rightarrow> bool" where
  "Active r \<longleftrightarrow> rr_Status r = RefundStatusPending \<or> rr_Status r = RefundStatusProcessing"

subsection \<open>The ledger, charges and webhooks\<close>

record CreditLedgerEntry =
  le_ID :: string
  le_TenantID :: string
  le_Kind :: string
  le_AmountMicro :: int
  le_BalanceAfterMicro :: int
  le_Ref :: string
  le_IdempotencyKey :: "string option"
  le_ActorID :: string
  le_CreatedAt :: go_time

record UsageCharge =
  uc_RequestID :: string
  uc_TenantID :: string
  uc_Model :: string
  uc_CostMicro :: int
  uc_Charged :: bool
  uc_CreatedAt :: go_time

record BillingWebhookEvent =
  we_WebhookID :: string
  we_Type :: string
  we_ReceivedAt :: go_time

subsection \<open>Specifications\<close>

text \<open>
  What a charge is meant to be: the exact number of micro-credit millionths, and its rounded-up
  quotient. An order whose amounts are \<open>int64\<close> values and whose money columns are not negative.
\<close>

definition usage_units :: "ModelPrice \<Rightarrow> int \<Rightarrow> int \<Rightarrow> int" where
  "usage_units p promptTokens completionTokens =
     max 0 promptTokens * max 0 (mp_InputMicroPerMTok p)
     + max 0 completionTokens * max 0 (mp_OutputMicroPerMTok p)"

definition ceil_div :: "int \<Rightarrow> int \<Rightarrow> int" where
  "ceil_div a b = - ((- a) div b)"

definition order_ok :: "CheckoutOrder \<Rightarrow> bool" where
  "order_ok ord \<longleftrightarrow> 0 \<le> co_CreditsMicro ord \<and> co_CreditsMicro ord \<le> max_int64
     \<and> co_AmountMinor ord \<le> max_int64 \<and> co_PaidAmountMinor ord \<le> max_int64
     \<and> 0 \<le> co_AmountMinor ord
     \<and> 0 \<le> co_RefundedMinor ord \<and> co_RefundedMinor ord \<le> max_int64"


text \<open>The credits taken back by a sequence of refunds of one order, each accumulating as the store does.\<close>

fun refund_deltas :: "CheckoutOrder \<Rightarrow> int list \<Rightarrow> int" where
  "refund_deltas ord [] = 0"
| "refund_deltas ord (a # as) = RefundDelta ord a
     + refund_deltas (ord\<lparr>co_RefundedMinor := min (co_RefundedMinor ord + a) (RefundBasisMinor ord)\<rparr>) as"

text \<open>A concrete paid order, on which the witnesses evaluate.\<close>

definition sample_order :: CheckoutOrder where
  "sample_order = \<lparr>co_ID = ''ord_1'', co_TenantID = ''t1'', co_PackageID = ''pkg_1'', co_DodoProductID = ''p'',
     co_DodoSessionID = '''', co_DodoPaymentID = Some ''pay_1'', co_AmountMinor = 900, co_Currency = ''USD'',
     co_CreditsMicro = 10000000, co_RefundedMinor = 0, co_PaidAmountMinor = 999, co_PaidCurrency = ''USD'',
     co_Status = OrderStatusPaid, co_CreatedBy = '''', co_CreatedAt = 1, co_UpdatedAt = 1\<rparr>"


section \<open>Lemmas\<close>

subsection \<open>128-bit arithmetic\<close>

lemma unat_of_nat64: "unat (of_nat n :: 64 word) = n mod 2 ^ 64"
  by (simp add: unat_of_nat)

lemma unat_lt64: "unat (w :: 64 word) < 2 ^ 64"
  by (rule order_less_le_trans [OF unsigned_less]) simp

lemma Mul64_value:
  assumes "Mul64 x y = (hi, lo)"
  shows "unat hi * 2 ^ 64 + unat lo = unat x * unat y"
proof -
  have "unat x < 2 ^ 64" and "unat y < 2 ^ 64"
    using unat_lt64 [of x] unat_lt64 [of y] by simp_all
  then have "unat x * unat y < 2 ^ 64 * 2 ^ 64"
    by (intro mult_strict_mono) simp_all
  then have "unat x * unat y div 2 ^ 64 < 2 ^ 64"
    by (simp add: less_mult_imp_div_less)
  then have "unat (of_nat (unat x * unat y div 2 ^ 64) :: 64 word) = unat x * unat y div 2 ^ 64"
    by (simp only: unat_of_nat64 mod_less)
  with assms show ?thesis
    by (metis Mul64_def prod.inject unat_of_nat64 div_mult_mod_eq)
qed

lemma Add64_value:
  assumes "Add64 x y c = (s, c')" and "unat c \<le> 1"
  shows "unat c' * 2 ^ 64 + unat s = unat x + unat y + unat c" and "unat c' \<le> 1"
proof -
  have "unat x < 2 ^ 64" and "unat y < 2 ^ 64"
    using unat_lt64 [of x] unat_lt64 [of y] by simp_all
  moreover have "unat (x + y + c) = (unat x + unat y + unat c) mod 2 ^ 64"
    by (simp add: unat_word_ariths mod_simps)
  ultimately show "unat c' * 2 ^ 64 + unat s = unat x + unat y + unat c" and "unat c' \<le> 1"
    using assms by (auto simp: Add64_def mod_if split: if_splits)
qed

lemma Div64_value:
  assumes "Div64 hi lo y = (q, r)" and "hi < y"
  shows "unat q = (unat hi * 2 ^ 64 + unat lo) div unat y"
    and "unat r = (unat hi * 2 ^ 64 + unat lo) mod unat y"
proof -
  have lo: "unat lo < 2 ^ 64" and y: "unat y < 2 ^ 64"
    using unat_lt64 [of lo] unat_lt64 [of y] by simp_all
  have hi: "unat hi < unat y" using assms(2) by (simp add: word_less_nat_alt)
  then have "unat hi * 2 ^ 64 + unat lo < unat y * 2 ^ 64"
    using lo by (simp add: algebra_simps)
  then have "(unat hi * 2 ^ 64 + unat lo) div unat y < 2 ^ 64"
    by (simp add: less_mult_imp_div_less mult.commute)
  moreover have "(unat hi * 2 ^ 64 + unat lo) mod unat y < 2 ^ 64"
    using hi y by (intro less_trans [OF mod_less_divisor y]) simp
  ultimately show "unat q = (unat hi * 2 ^ 64 + unat lo) div unat y"
    and "unat r = (unat hi * 2 ^ 64 + unat lo) mod unat y"
    using assms(1) by (auto simp: Div64_def Let_def unat_of_nat64)
qed

lemma unat_uint64_of: "0 \<le> v \<Longrightarrow> v \<le> max_int64 \<Longrightarrow> unat (uint64_of v) = nat v"
  by (simp add: uint64_of_def max_int64_def unat_eq_nat_uint uint_word_of_int)

lemma unat_nonNegative: "in_int64 v \<Longrightarrow> unat (nonNegative v) = nat (max 0 v)"
  by (auto simp: nonNegative_def unat_uint64_of in_int64_def max_def)

lemma le_max_word: "w \<le> uint64_of max_int64 \<longleftrightarrow> int (unat w) \<le> max_int64"
proof -
  have "unat (uint64_of max_int64) = nat max_int64"
    by (rule unat_uint64_of) (simp_all add: max_int64_def)
  moreover have "0 \<le> max_int64" by (simp add: max_int64_def)
  ultimately show ?thesis by (simp only: word_le_nat_alt le_nat_iff)
qed

lemma in_int64_nat: "int n \<le> max_int64 \<Longrightarrow> in_int64 (int n)"
  by (simp add: in_int64_def min_int64_def)

lemma int64_of_small:
  assumes "w \<le> uint64_of max_int64"
  shows "int64_of w = int (unat w)"
proof -
  have "int (unat w) \<le> max_int64" using assms by (simp only: le_max_word)
  then have "in_int64 (int (unat w))" by (rule in_int64_nat)
  then show ?thesis unfolding int64_of_def uint_nat by (rule wrap64_id)
qed

lemma ceil_div_nat:
  assumes "0 < b"
  shows "ceil_div (int n) (int b) = int (n div b + (if n mod b = 0 then 0 else 1))"
  by (auto simp: ceil_div_def zdiv_zminus1_eq_if zdiv_int zmod_int assms)


lemma carry_sum:
  fixes K :: nat
  assumes "a * K + b = P" and "c * K + d = Q" and "carry * K + lo = b + d" and "over * K + hi = a + c + carry"
  shows "over * (K * K) + hi * K + lo = P + Q"
proof -
  have "over * (K * K) + hi * K = (a + c + carry) * K"
    unfolding assms(4) [symmetric] by (simp add: algebra_simps)
  then show ?thesis using assms(1-3) by (simp add: algebra_simps)
qed

text \<open>The two products and their sum, read as one natural number.\<close>

lemma usage_units_halves:
  assumes "in_int64 a" "in_int64 b" "in_int64 (mp_InputMicroPerMTok p)" "in_int64 (mp_OutputMicroPerMTok p)"
    and "Mul64 (nonNegative a) (nonNegative (mp_InputMicroPerMTok p)) = (inHi, inLo)"
    and "Mul64 (nonNegative b) (nonNegative (mp_OutputMicroPerMTok p)) = (outHi, outLo)"
    and "Add64 inLo outLo 0 = (lo, carry)" and "Add64 inHi outHi carry = (hi, overflow)"
  shows "overflow = 0" and "int (unat hi * 2 ^ 64 + unat lo) = usage_units p a b"
proof -
  let ?P = "nat (max 0 a) * nat (max 0 (mp_InputMicroPerMTok p))"
  let ?Q = "nat (max 0 b) * nat (max 0 (mp_OutputMicroPerMTok p))"
  have units: "int (?P + ?Q) = usage_units p a b"
    by (simp add: usage_units_def)
  have bound: "nat (max 0 v) \<le> 2 ^ 63" if "in_int64 v" for v
    using that by (auto simp: in_int64_def max_int64_def)
  have "?P \<le> 2 ^ 63 * 2 ^ 63"
    by (rule mult_le_mono [OF bound [OF assms(1)] bound [OF assms(3)]])
  moreover have "?Q \<le> 2 ^ 63 * 2 ^ 63"
    by (rule mult_le_mono [OF bound [OF assms(2)] bound [OF assms(4)]])
  ultimately have small: "?P + ?Q < 2 ^ 64 * 2 ^ 64" by simp
  have P: "unat inHi * 2 ^ 64 + unat inLo = ?P"
    using Mul64_value [OF assms(5)] by (simp only: unat_nonNegative assms(1,3))
  have Q: "unat outHi * 2 ^ 64 + unat outLo = ?Q"
    using Mul64_value [OF assms(6)] by (simp only: unat_nonNegative assms(2,4))
  have lo: "unat carry * 2 ^ 64 + unat lo = unat inLo + unat outLo" and c: "unat carry \<le> 1"
    using Add64_value [OF assms(7)] by simp_all
  have hi: "unat overflow * 2 ^ 64 + unat hi = unat inHi + unat outHi + unat carry"
    using Add64_value(1) [OF assms(8) c] .
  have sum: "unat overflow * (2 ^ 64 * 2 ^ 64) + unat hi * 2 ^ 64 + unat lo = ?P + ?Q"
    by (rule carry_sum [OF P Q lo hi])
  have "unat overflow = 0"
  proof (rule ccontr)
    assume "unat overflow \<noteq> 0"
    then have "1 * (2 ^ 64 * 2 ^ 64) \<le> unat overflow * (2 ^ 64 * (2 :: nat) ^ 64)"
      by (intro mult_le_mono1) simp
    with sum small show False by linarith
  qed
  then show "overflow = 0" by (simp only: unat_eq_zero)
  show "int (unat hi * 2 ^ 64 + unat lo) = usage_units p a b"
    using sum units \<open>unat overflow = 0\<close> by (simp only: mult_zero_left add_0)
qed

lemma div_mod_between:
  fixes n m k :: nat
  assumes "0 < m"
  shows "n div m = k \<and> n mod m \<noteq> 0 \<longleftrightarrow> m * k < n \<and> n < m * (k + 1)"
proof
  assume "n div m = k \<and> n mod m \<noteq> 0"
  moreover have "n = m * (n div m) + n mod m" by simp
  moreover have "n mod m < m" using assms by simp
  ultimately show "m * k < n \<and> n < m * (k + 1)" by (simp add: algebra_simps)
next
  assume b: "m * k < n \<and> n < m * (k + 1)"
  then have "n div m = k" by (intro div_nat_eqI) (simp_all add: algebra_simps)
  moreover from this b have "n mod m \<noteq> 0" by (auto simp: mod_eq_0_iff_dvd)
  ultimately show "n div m = k \<and> n mod m \<noteq> 0" by blast
qed

lemma round_up_cases:
  fixes d r t :: nat
  assumes "A \<longleftrightarrow> d = t \<and> r \<noteq> 0" and "0 \<le> M"
  shows "min M (int (if r = 0 then d else if d = t then 0 else d + 1)) =
     (if A then 0 else min M (int (d + (if r = 0 then 0 else 1))))"
  using assms by (simp add: add.commute)

text \<open>Rounding the quotient up, at the width of a word.\<close>

lemma int64_of_saturated:
  "(if uint64_of max_int64 < w then max_int64 else int64_of w) = min max_int64 (int (unat w))"
proof (cases "uint64_of max_int64 < w")
  case True
  then have "\<not> int (unat w) \<le> max_int64" by (simp only: not_le flip: le_max_word)
  then have "max_int64 \<le> int (unat w)" by (simp only: not_le less_imp_le)
  with True show ?thesis by (simp only: min.absorb1 if_True)
next
  case False
  then have "w \<le> uint64_of max_int64" by simp
  then show ?thesis using False by (simp only: int64_of_small le_max_word min.absorb2 if_False)
qed

lemma unat_Suc64: "unat (q + 1 :: 64 word) = (if unat q = 2 ^ 64 - 1 then 0 else unat q + 1)"
  using unat_lt64 [of q] by (simp add: unat_word_ariths mod_if)

text \<open>
  C34. The charge of one request, for all \<open>int64\<close> prices and token counts: the exact product is
  divided by a million and rounded up, and saturates at the largest \<open>int64\<close>; the only exception
  is a product strictly between \<open>10\<^sup>6 \<sqdot> (2\<^sup>6\<^sup>4 - 1)\<close> and \<open>10\<^sup>6 \<sqdot> 2\<^sup>6\<^sup>4\<close>, where rounding up
  wraps the 64-bit quotient and the charge is 0.
\<close>

theorem Cost_value:
  assumes "in_int64 a" "in_int64 b" "in_int64 (mp_InputMicroPerMTok p)" "in_int64 (mp_OutputMicroPerMTok p)"
  shows "Cost p a b =
    (let n = usage_units p a b in
     if 1000000 * (2 ^ 64 - 1) < n \<and> n < 1000000 * 2 ^ 64 then 0
     else min max_int64 (ceil_div n 1000000))"
proof -
  obtain inHi inLo where m1: "Mul64 (nonNegative a) (nonNegative (mp_InputMicroPerMTok p)) = (inHi, inLo)"
    by force
  obtain outHi outLo where m2: "Mul64 (nonNegative b) (nonNegative (mp_OutputMicroPerMTok p)) = (outHi, outLo)"
    by force
  obtain lo carry where s1: "Add64 inLo outLo 0 = (lo, carry)" by force
  obtain hi overflow where s2: "Add64 inHi outHi carry = (hi, overflow)" by force
  obtain q r where d: "Div64 hi lo 1000000 = (q, r)" by force
  define n where "n = unat hi * 2 ^ 64 + unat lo"
  have ov: "overflow = 0" and n: "usage_units p a b = int n"
    using usage_units_halves [OF assms m1 m2 s1 s2] by (simp_all add: n_def)
  have C: "Cost p a b = (if 1000000 \<le> hi then max_int64
      else min max_int64 (int (unat (if r \<noteq> 0 then q + 1 else q))))"
    unfolding Cost_def m1 m2 Let_def prod.case s1 s2 d int64_of_saturated ov by simp
  have ceil: "ceil_div (int n) 1000000 = int (n div 1000000 + (if n mod 1000000 = 0 then 0 else 1))"
    using ceil_div_nat [of 1000000 n] by simp
  show ?thesis
  proof (cases "1000000 \<le> hi")
    case True
    then have "1000000 \<le> unat hi" by (simp add: word_le_nat_alt)
    then have "1000000 * 2 ^ 64 \<le> n" by (simp add: n_def)
    then have "2 ^ 64 \<le> n div 1000000" by simp
    then have "max_int64 \<le> ceil_div (int n) 1000000" unfolding ceil by (simp add: max_int64_def)
    with True \<open>1000000 * 2 ^ 64 \<le> n\<close> show ?thesis unfolding C n Let_def by (simp add: min_def)
  next
    case False
    then have "hi < 1000000" by simp
    then have "unat q = n div 1000000" and "unat r = n mod 1000000"
      using Div64_value [OF d] by (simp_all add: n_def)
    moreover from this have n_small: "n div 1000000 < 2 ^ 64" using unat_lt64 [of q] by simp
    moreover have "n mod 1000000 = 0 \<longleftrightarrow> r = 0" using \<open>unat r = n mod 1000000\<close> by (metis unat_eq_zero)
    ultimately have C': "Cost p a b = min max_int64 (int
        (if n mod 1000000 = 0 then n div 1000000
         else if n div 1000000 = 2 ^ 64 - 1 then 0 else n div 1000000 + 1))"
      using False unfolding C by (simp add: unat_Suc64 del: of_nat_unat)
    have "1000000 * (2 ^ 64 - 1) < int n \<and> int n < 1000000 * 2 ^ 64
        \<longleftrightarrow> n div 1000000 = 2 ^ 64 - 1 \<and> n mod 1000000 \<noteq> 0"
      using div_mod_between [of 1000000 n "2 ^ 64 - 1"] by simp
    then show ?thesis unfolding n Let_def ceil C'
      by (rule round_up_cases) (simp add: max_int64_def)
  qed
qed


theorem Cost_value_witness:
  "Cost \<lparr>mp_Model = ''m'', mp_InputMicroPerMTok = 3000000, mp_OutputMicroPerMTok = 15000000,
      mp_UpdatedBy = '''', mp_UpdatedAt = 0\<rparr> 10 1 = 45"
  using Cost_value [of 10 1 "\<lparr>mp_Model = ''m'', mp_InputMicroPerMTok = 3000000,
      mp_OutputMicroPerMTok = 15000000, mp_UpdatedBy = '''', mp_UpdatedAt = 0\<rparr>"]
  by (simp add: in_int64_def min_int64_def max_int64_def usage_units_def ceil_div_def)

text \<open>
  The documentation of \<open>Cost\<close> promises that no token count can make a request free. At a price
  within \<open>MaxPriceMicroPerMTok\<close>, \<open>2\<^sup>6\<^sup>3 - 1\<close> prompt tokens and one completion token cost 0.
\<close>

theorem cost_wraps_to_zero:
  "\<exists>p a b. 0 < mp_InputMicroPerMTok p \<and> mp_InputMicroPerMTok p \<le> MaxPriceMicroPerMTok
     \<and> 0 < mp_OutputMicroPerMTok p \<and> mp_OutputMicroPerMTok p \<le> MaxPriceMicroPerMTok
     \<and> 0 < a \<and> in_int64 a \<and> 0 < b \<and> in_int64 b \<and> Cost p a b = 0"
proof -
  let ?p = "\<lparr>mp_Model = ''m'', mp_InputMicroPerMTok = 2000000, mp_OutputMicroPerMTok = 1500000,
      mp_UpdatedBy = '''', mp_UpdatedAt = 0\<rparr>"
  have "Cost ?p max_int64 1 = 0"
    by (simp add: Cost_def Let_def Mul64_def Add64_def Div64_def nonNegative_def uint64_of_def
        int64_of_def max_int64_def wrap64_def)
  then show ?thesis
    by (intro exI [of _ ?p] exI [of _ max_int64] exI [of _ 1])
      (simp add: MaxPriceMicroPerMTok_def MicroPerCredit_def in_int64_def min_int64_def max_int64_def)
qed


subsection \<open>Credits of a package\<close>

lemma mulNonNegative_value:
  assumes "in_int64 a" and "in_int64 b"
  shows "mulNonNegative a b =
    (if 0 \<le> a \<and> 0 \<le> b \<and> a * b \<le> max_int64 then (a * b, True) else (0, False))"
proof (cases "a < 0 \<or> b < 0")
  case True
  then show ?thesis by (auto simp: mulNonNegative_def)
next
  case False
  obtain hi lo where m: "Mul64 (uint64_of a) (uint64_of b) = (hi, lo)" by force
  have "unat (uint64_of a) = nat a" and "unat (uint64_of b) = nat b"
    using assms False by (auto intro!: unat_uint64_of simp: in_int64_def)
  then have v: "unat hi * 2 ^ 64 + unat lo = nat (a * b)"
    using Mul64_value [OF m] False by (simp add: nat_mult_distrib)
  have "hi = 0 \<and> lo \<le> uint64_of max_int64 \<longleftrightarrow> a * b \<le> max_int64"
  proof
    assume l: "hi = 0 \<and> lo \<le> uint64_of max_int64"
    then have "int (unat lo) \<le> max_int64" by (simp only: le_max_word)
    with v l False show "a * b \<le> max_int64" by (simp add: max_int64_def)
  next
    assume r: "a * b \<le> max_int64"
    then have "unat hi * 2 ^ 64 + unat lo < 2 ^ 64" using v by (simp add: max_int64_def)
    then have "unat hi = 0" by simp
    moreover have "int (unat lo) \<le> max_int64" using v \<open>unat hi = 0\<close> r False by (simp add: max_int64_def)
    ultimately show "hi = 0 \<and> lo \<le> uint64_of max_int64" by (simp only: unat_eq_zero le_max_word simp_thms)
  qed
  moreover have "int64_of lo = a * b" if "hi = 0 \<and> lo \<le> uint64_of max_int64"
    using that v False by (simp add: int64_of_small del: of_nat_unat)
  ultimately show ?thesis using False by (auto simp: mulNonNegative_def m not_less)
qed

subsection \<open>Rounded-up division\<close>

lemma le_div_iff_int: "0 < (b :: int) \<Longrightarrow> k \<le> a div b \<longleftrightarrow> k * b \<le> a"
proof
  assume b: "0 < b" and "k \<le> a div b"
  then have "k * b \<le> a div b * b" by simp
  also have "\<dots> \<le> a" using b by (simp add: minus_mod_eq_div_mult [symmetric])
  finally show "k * b \<le> a" .
next
  assume b: "0 < b" and "k * b \<le> a"
  then have "(k * b) div b \<le> a div b" by (intro zdiv_mono1)
  then show "k \<le> a div b" using b by simp
qed

lemma ceil_div_le_iff: "0 < b \<Longrightarrow> ceil_div a b \<le> k \<longleftrightarrow> a \<le> k * b"
  using le_div_iff_int [of b "- k" "- a"] by (auto simp: ceil_div_def)

lemma ceil_div_ge: "0 < b \<Longrightarrow> a \<le> ceil_div a b * b"
  by (simp flip: ceil_div_le_iff)

lemma ceil_div_mono: "0 < b \<Longrightarrow> a \<le> a' \<Longrightarrow> ceil_div a b \<le> ceil_div a' b"
  by (meson ceil_div_ge ceil_div_le_iff order_trans)

lemma ceil_div_nonneg: "0 < b \<Longrightarrow> 0 \<le> a \<Longrightarrow> 0 \<le> ceil_div a b"
  using ceil_div_mono [of b 0 a] by (simp add: ceil_div_def)

lemma ceil_div_mult [simp]: "0 < b \<Longrightarrow> ceil_div (k * b) b = k"
  by (simp add: ceil_div_def flip: mult_minus_left)

lemma ceil_div_0 [simp]: "ceil_div 0 b = 0"
  by (simp add: ceil_div_def)

lemma ceil_div_add_le: "0 < b \<Longrightarrow> ceil_div (a + a') b \<le> ceil_div a b + ceil_div a' b"
  by (simp add: ceil_div_le_iff distrib_right add_mono ceil_div_ge)

lemma quo_round_up:
  assumes "0 \<le> a" and "0 < b"
  shows "(if sgn (rem a b) \<noteq> 0 then quo a b + 1 else quo a b) = ceil_div a b"
proof -
  have "ceil_div a b = a div b + (if a mod b = 0 then 0 else 1)"
    using assms by (simp add: ceil_div_def zdiv_zminus1_eq_if)
  then show ?thesis using assms by (simp add: quo_nonneg rem_nonneg sgn_0_0)
qed

subsection \<open>Refunds\<close>

abbreviation share :: "CheckoutOrder \<Rightarrow> int \<Rightarrow> int" where
  "share ord x \<equiv> ceil_div (co_CreditsMicro ord * x) (RefundBasisMinor ord)"

lemma basis_range: "order_ok ord \<Longrightarrow> 0 \<le> RefundBasisMinor ord \<and> RefundBasisMinor ord \<le> max_int64"
  by (simp add: order_ok_def RefundBasisMinor_def)

lemma share_range:
  assumes "order_ok ord" and "0 < RefundBasisMinor ord" and "0 \<le> x" and "x \<le> RefundBasisMinor ord"
  shows "0 \<le> share ord x" and "share ord x \<le> co_CreditsMicro ord"
  using assms by (auto simp: order_ok_def intro!: ceil_div_nonneg mult_left_mono simp: ceil_div_le_iff)

lemma in_int64_nonneg: "0 \<le> x \<Longrightarrow> x \<le> max_int64 \<Longrightarrow> in_int64 x"
  by (simp add: in_int64_def min_int64_def)

lemma RefundCredits_share:
  assumes "order_ok ord" and "0 < RefundBasisMinor ord" and "0 \<le> x"
  shows "RefundCredits ord x = share ord (min x (RefundBasisMinor ord))"
proof -
  let ?B = "RefundBasisMinor ord" and ?C = "co_CreditsMicro ord"
  consider "x = 0" | "?B \<le> x" | "0 < x" "x < ?B" using assms(3) by linarith
  then show ?thesis
  proof cases
    case 1
    then show ?thesis using assms(2) by (simp add: RefundCredits_def)
  next
    case 2
    then show ?thesis using assms(2) by (simp add: RefundCredits_def Let_def)
  next
    case 3
    have C: "0 \<le> ?C" "?C \<le> max_int64" using assms(1) by (auto simp: order_ok_def)
    have "in_int64 (share ord x)"
      using share_range [OF assms(1,2), of x] 3 C by (intro in_int64_nonneg) auto
    then show ?thesis
      using 3 C assms(2) by (simp add: RefundCredits_def Let_def quo_round_up wrap64_id)
  qed
qed

lemma RefundCredits_no_basis: "RefundBasisMinor ord \<le> 0 \<Longrightarrow> RefundCredits ord x = 0"
  by (simp add: RefundCredits_def)

lemma RefundCredits_range:
  assumes "order_ok ord" and "0 \<le> x"
  shows "0 \<le> RefundCredits ord x" and "RefundCredits ord x \<le> co_CreditsMicro ord"
  using assms RefundCredits_share [OF assms(1) _ assms(2)] share_range [OF assms(1)]
    RefundCredits_no_basis [of ord x]
  by (cases "0 < RefundBasisMinor ord"; force simp: order_ok_def)+


lemma RefundBasisMinor_refunded [simp]:
  "RefundBasisMinor (ord\<lparr>co_RefundedMinor := x\<rparr>) = RefundBasisMinor ord"
  by (simp add: RefundBasisMinor_def)

lemma RefundCredits_refunded [simp]:
  "RefundCredits (ord\<lparr>co_RefundedMinor := x\<rparr>) = RefundCredits ord"
  by (simp add: RefundCredits_def fun_eq_iff Let_def)

lemma RefundCredits_clamp: "RefundCredits ord (min x (RefundBasisMinor ord)) = RefundCredits ord x"
  by (auto simp: RefundCredits_def Let_def min_def)

lemma RefundCredits_mono:
  assumes "order_ok ord" and "0 \<le> x" and "x \<le> y"
  shows "RefundCredits ord x \<le> RefundCredits ord y"
proof (cases "0 < RefundBasisMinor ord")
  case True
  have "share ord (min x (RefundBasisMinor ord)) \<le> share ord (min y (RefundBasisMinor ord))"
    using True assms by (intro ceil_div_mono mult_left_mono) (auto simp: order_ok_def)
  then show ?thesis using True assms by (simp add: RefundCredits_share)
qed (simp add: RefundCredits_no_basis)

lemma RefundDelta_diff:
  assumes "order_ok ord" and "0 \<le> a" and "co_RefundedMinor ord + a \<le> max_int64"
  shows "RefundDelta ord a =
    RefundCredits ord (co_RefundedMinor ord + a) - RefundCredits ord (co_RefundedMinor ord)"
proof -
  have R: "0 \<le> co_RefundedMinor ord" and C: "co_CreditsMicro ord \<le> max_int64"
    using assms(1) by (auto simp: order_ok_def)
  have "wrap64 (co_RefundedMinor ord + a) = co_RefundedMinor ord + a"
    using R assms(2,3) by (intro wrap64_id in_int64_nonneg) auto
  moreover have "in_int64 (RefundCredits ord (co_RefundedMinor ord + a) - RefundCredits ord (co_RefundedMinor ord))"
    using RefundCredits_range [OF assms(1)] RefundCredits_mono [OF assms(1) R, of "co_RefundedMinor ord + a"]
      R C assms(2) by (intro in_int64_nonneg) (smt (verit))+
  ultimately show ?thesis
    using assms(2) by (simp add: RefundDelta_def Let_def RefundCredits_clamp wrap64_id)
qed

lemma HeldCredits_value:
  "order_ok ord \<Longrightarrow> HeldCredits ord = co_CreditsMicro ord - RefundCredits ord (co_RefundedMinor ord)
     \<and> 0 \<le> HeldCredits ord"
  using RefundCredits_range [of ord "co_RefundedMinor ord"]
  by (auto simp: HeldCredits_def order_ok_def wrap64_id in_int64_nonneg)

lemma RemainingRefundMinor_value:
  "order_ok ord \<Longrightarrow> RemainingRefundMinor ord = max (RefundBasisMinor ord - co_RefundedMinor ord) 0"
  using basis_range [of ord] by (simp add: RemainingRefundMinor_def wrap64_id order_ok_def in_int64_diff in_int64_nonneg)

text \<open>
  Successive refunds of one order take back, in total, exactly the credits of the accumulated
  refund: rounding up each step never drifts, no step gives credits back, and refunding the whole
  payment takes back exactly the credits the order sold.
\<close>

theorem refund_deltas_telescope:
  assumes "order_ok ord" and "co_RefundedMinor ord \<le> RefundBasisMinor ord"
    and "\<forall>a \<in> set as. 0 \<le> a \<and> a \<le> max_int64 - RefundBasisMinor ord"
  shows "refund_deltas ord as =
      RefundCredits ord (co_RefundedMinor ord + sum_list as) - RefundCredits ord (co_RefundedMinor ord)
    \<and> (co_RefundedMinor ord = 0 \<and> 0 < RefundBasisMinor ord \<and> RefundBasisMinor ord \<le> sum_list as
       \<longrightarrow> refund_deltas ord as = co_CreditsMicro ord)"
proof -
  have "refund_deltas ord as =
      RefundCredits ord (co_RefundedMinor ord + sum_list as) - RefundCredits ord (co_RefundedMinor ord)"
    using assms
  proof (induction as arbitrary: ord)
    case Nil
    then show ?case by simp
  next
    case (Cons a as)
    let ?R = "min (co_RefundedMinor ord + a) (RefundBasisMinor ord)"
    have ok: "order_ok (ord\<lparr>co_RefundedMinor := ?R\<rparr>)"
      using Cons.prems basis_range [OF Cons.prems(1)] by (auto simp: order_ok_def)
    have "0 \<le> sum_list as" using Cons.prems(3) by (intro sum_list_nonneg) auto
    then have "RefundCredits ord (?R + sum_list as) = RefundCredits ord (co_RefundedMinor ord + a + sum_list as)"
      by (auto simp: RefundCredits_def Let_def min_def)
    moreover have "RefundDelta ord a = RefundCredits ord (co_RefundedMinor ord + a) - RefundCredits ord (co_RefundedMinor ord)"
      using Cons.prems by (intro RefundDelta_diff) auto
    ultimately show ?case
      using Cons.IH [OF ok] Cons.prems(3) by (simp add: RefundCredits_clamp add.assoc)
  qed
  then show ?thesis by (auto simp: RefundCredits_def Let_def)
qed

theorem refund_deltas_telescope_witness: "refund_deltas sample_order [333, 333, 333] = 10000000"
  using refund_deltas_telescope [of sample_order "[333, 333, 333]"]
  by (simp add: sample_order_def order_ok_def RefundBasisMinor_def max_int64_def)

lemma unused_share:
  assumes "order_ok ord" and "0 < RefundBasisMinor ord" and "0 < co_CreditsMicro ord"
    and "0 \<le> a" and "a \<le> available * RefundBasisMinor ord div co_CreditsMicro ord"
    and "co_RefundedMinor ord + a \<le> RefundBasisMinor ord"
  shows "RefundDelta ord a \<le> available"
proof -
  let ?B = "RefundBasisMinor ord" and ?C = "co_CreditsMicro ord" and ?R = "co_RefundedMinor ord"
  have R: "0 \<le> ?R" using assms(1) by (simp add: order_ok_def)
  have "?C * a \<le> available * ?B"
    using assms(3,5) by (simp add: le_div_iff_int mult.commute)
  then have "share ord a \<le> available" using assms(2) by (simp add: ceil_div_le_iff)
  moreover have "share ord (?R + a) \<le> share ord ?R + share ord a"
    using ceil_div_add_le [OF assms(2)] by (simp add: distrib_left)
  moreover have "RefundDelta ord a = share ord (?R + a) - share ord ?R"
    using assms R basis_range [OF assms(1)] by (simp add: RefundDelta_diff RefundCredits_share)
  ultimately show ?thesis by linarith
qed

lemma UnusedRefundMinor_le: "UnusedRefundMinor ord available \<le> RemainingRefundMinor ord"
  by (auto simp: UnusedRefundMinor_def Let_def RemainingRefundMinor_def)

lemma unused_floor:
  assumes "order_ok ord" and "0 < available" and "available < co_CreditsMicro ord"
  shows "big_Int64 (quo (available * RefundBasisMinor ord) (co_CreditsMicro ord)) =
      available * RefundBasisMinor ord div co_CreditsMicro ord"
proof -
  let ?B = "RefundBasisMinor ord" and ?C = "co_CreditsMicro ord"
  have B: "0 \<le> ?B" "?B \<le> max_int64" using basis_range [OF assms(1)] by auto
  have "available * ?B \<le> ?B * ?C" using B assms by (simp add: mult.commute mult_right_mono)
  then have "available * ?B div ?C \<le> (?B * ?C) div ?C" using assms by (intro zdiv_mono1) auto
  then have "in_int64 (available * ?B div ?C)"
    using B assms by (intro in_int64_nonneg) (auto simp: pos_imp_zdiv_nonneg_iff)
  then show ?thesis using B assms by (simp add: quo_nonneg wrap64_id)
qed

lemma unused_refund_bound:
  assumes "order_ok ord" and "0 \<le> available"
    and "0 \<le> amount" and "amount \<le> UnusedRefundMinor ord available"
  shows "amount \<le> RemainingRefundMinor ord \<and> RefundDelta ord amount \<le> available"
proof -
  let ?B = "RefundBasisMinor ord" and ?C = "co_CreditsMicro ord" and ?R = "co_RefundedMinor ord"
  have le: "amount \<le> RemainingRefundMinor ord"
    using assms(4) UnusedRefundMinor_le order_trans by blast
  have R: "0 \<le> ?R" and Rmax: "?R \<le> max_int64" using assms(1) by (auto simp: order_ok_def)
  have fits: "?R + amount \<le> max_int64"
    using le R Rmax basis_range [OF assms(1)] RemainingRefundMinor_value [OF assms(1)] by linarith
  have delta: "RefundDelta ord amount = RefundCredits ord (?R + amount) - RefundCredits ord ?R"
    by (rule RefundDelta_diff [OF assms(1,3) fits])
  consider "amount = 0" | "HeldCredits ord \<le> available"
    | "0 < available" "available < HeldCredits ord" "0 < ?C" "0 < RemainingRefundMinor ord"
      "amount \<le> big_Int64 (quo (available * ?B) ?C)"
    using assms(3,4) by (auto simp: UnusedRefundMinor_def Let_def split: if_splits)
  then have "RefundDelta ord amount \<le> available"
  proof cases
    case 1
    then show ?thesis using delta assms(2) by simp
  next
    case 2
    then show ?thesis
      using delta HeldCredits_value [OF assms(1)] RefundCredits_range(2) [OF assms(1), of "?R + amount"]
        R assms(3) by linarith
  next
    case 3
    have "available < ?C"
      using 3 HeldCredits_value [OF assms(1)] RefundCredits_range(1) [OF assms(1) R] by linarith
    with 3 have "amount \<le> available * ?B div ?C" by (simp add: unused_floor [OF assms(1)])
    moreover have "0 < ?B" and "?R + amount \<le> ?B"
      using 3(4) le R RemainingRefundMinor_value [OF assms(1)] by linarith+
    ultimately show ?thesis using 3 by (intro unused_share assms)
  qed
  with le show ?thesis ..
qed

text \<open>
  A refund of at most \<open>UnusedRefundMinor\<close> never exceeds what is left of the payment and never
  takes back more credits than the tenant's balance holds, so approving it cannot push the tenant
  into debt.
\<close>

theorem unused_refund_safe:
  assumes "order_ok ord" and "0 \<le> available"
    and "0 \<le> amount" and "amount \<le> UnusedRefundMinor ord available"
  shows "amount \<le> RemainingRefundMinor ord \<and> RefundDelta ord amount \<le> available"
  by (rule unused_refund_bound [OF assms])

theorem unused_refund_safe_witness: "RefundDelta sample_order 499 \<le> 5000000"
  using unused_refund_safe [of sample_order 5000000 499]
  by (simp add: sample_order_def order_ok_def UnusedRefundMinor_def RemainingRefundMinor_def Let_def
      HeldCredits_def RefundCredits_def RefundBasisMinor_def max_int64_def wrap64_def quo_def)

text \<open>
  Buying a package grants exactly the credits it advertises: a fixed package its own positive
  amount, a custom one the exact product of the paid amount and its rate, for an amount within its
  bounds whose product is an \<open>int64\<close>; every other purchase is refused with no credits.
\<close>

theorem Credits_value:
  assumes "in_int64 amount" and "in_int64 (cp_CreditsPerMinorUnitMicro p)"
  shows "Credits p amount =
    (if cp_Kind p = PackageKindFixed then (cp_CreditsMicro p, 0 < cp_CreditsMicro p)
     else if cp_Kind p = PackageKindCustom \<and> 0 < amount \<and> cp_MinAmountMinor p \<le> amount
       \<and> amount \<le> cp_MaxAmountMinor p \<and> 0 \<le> cp_CreditsPerMinorUnitMicro p
       \<and> amount * cp_CreditsPerMinorUnitMicro p \<le> max_int64
     then (amount * cp_CreditsPerMinorUnitMicro p, True)
     else (0, False))"
  using mulNonNegative_value [OF assms] by (auto simp: Credits_def)

theorem Credits_value_witness:
  "Credits \<lparr>cp_ID = ''pkg_1'', cp_Name = '''', cp_Kind = PackageKindCustom, cp_DodoProductID = '''',
      cp_CreditsMicro = 0, cp_PriceMinor = 0, cp_Currency = ''USD'', cp_CreditsPerMinorUnitMicro = 10000,
      cp_MinAmountMinor = 500, cp_MaxAmountMinor = 100000, cp_Active = True, cp_SortOrder = 0,
      cp_CreatedAt = 1, cp_UpdatedAt = 1\<rparr> 750 = (7500000, True)"
  by (subst Credits_value) (simp_all add: in_int64_def min_int64_def max_int64_def)

end
