(* ===== verification/BillingRules.thy ===== *)
theory BillingRules
  imports BillingModel
begin

text \<open>
  \<open>aiServeWeaveControlPlane/internal/store\<close>: the rules of \<open>billingrules.go\<close> by which both
  stores apply a payment provider's events and move refund requests, the types they exchange
  (\<open>store.go\<close>), and identifiers (\<open>model/id.go\<close>).

  The rules are written against the interface \<open>BillingTx\<close>, here a record of operations over any
  transaction state; a rule is an operation that may fail after writing. The locales state what the
  interface promises, and the lemmas inside them hold for every store that keeps the promise.
\<close>


section \<open>Definitions\<close>

subsection \<open>Types of store.go\<close>

datatype store_error =
    ErrNotFound
  | ErrConflict
  | ErrBillingEventEarly
  | RefundRefusedError string
  | OtherError string

abbreviation RefundRefusedOrderState :: string where "RefundRefusedOrderState \<equiv> ''order_not_refundable''"
abbreviation RefundRefusedWindow :: string where "RefundRefusedWindow \<equiv> ''refund_window_closed''"
abbreviation RefundRefusedInProgress :: string where "RefundRefusedInProgress \<equiv> ''refund_in_progress''"
abbreviation RefundRefusedNothing :: string where "RefundRefusedNothing \<equiv> ''nothing_refundable''"
abbreviation RefundRefusedAmount :: string where "RefundRefusedAmount \<equiv> ''amount_exceeds_refundable''"
abbreviation RefundRefusedStatus :: string where "RefundRefusedStatus \<equiv> ''refund_status_conflict''"

abbreviation BillingEventPaymentSucceeded :: string where "BillingEventPaymentSucceeded \<equiv> ''payment_succeeded''"
abbreviation BillingEventPaymentFailed :: string where "BillingEventPaymentFailed \<equiv> ''payment_failed''"
abbreviation BillingEventRefundSucceeded :: string where "BillingEventRefundSucceeded \<equiv> ''refund_succeeded''"
abbreviation BillingEventRefundFailed :: string where "BillingEventRefundFailed \<equiv> ''refund_failed''"
abbreviation BillingEventDisputeOpened :: string where "BillingEventDisputeOpened \<equiv> ''dispute_opened''"
abbreviation BillingEventDisputeWon :: string where "BillingEventDisputeWon \<equiv> ''dispute_won''"

abbreviation BillingOutcomeApplied :: string where "BillingOutcomeApplied \<equiv> ''applied''"
abbreviation BillingOutcomeDuplicate :: string where "BillingOutcomeDuplicate \<equiv> ''duplicate''"
abbreviation BillingOutcomeNoOrder :: string where "BillingOutcomeNoOrder \<equiv> ''no_order''"
abbreviation BillingOutcomeMismatch :: string where "BillingOutcomeMismatch \<equiv> ''mismatch''"
abbreviation BillingOutcomeIgnored :: string where "BillingOutcomeIgnored \<equiv> ''ignored''"

record BillingEvent =
  ev_WebhookID :: string
  ev_Type :: string
  ev_Kind :: string
  ev_OrderID :: string
  ev_TenantID :: string
  ev_PaymentID :: string
  ev_CheckoutSessionID :: string
  ev_RefundID :: string
  ev_RefundRequestID :: string
  ev_DisputeID :: string
  ev_AmountMinor :: int
  ev_Currency :: string
  ev_IsPartial :: bool

record BillingEventResult =
  er_Outcome :: string
  er_TenantID :: string
  er_OrderID :: string
  er_BlockedChanged :: bool

definition outcome_only :: "string \<Rightarrow> BillingEventResult" where
  "outcome_only out = \<lparr>er_Outcome = out, er_TenantID = '''', er_OrderID = '''', er_BlockedChanged = False\<rparr>"

record RefundPolicy =
  NotBefore :: go_time
  UnusedOnly :: bool

record RefundTransition =
  rt_ID :: string
  rt_TenantID :: string
  rt_To :: string
  rt_Actor :: string
  rt_Note :: string

subsection \<open>Identifiers\<close>

text \<open>The bytes drawn from the system's random source are an argument.\<close>

abbreviation PrefixCreditLedger :: string where "PrefixCreditLedger \<equiv> ''led_''"

definition NewID :: "string \<Rightarrow> 8 word list \<Rightarrow> string" where
  "NewID pre buf = pre @ hex_encode buf"

text \<open>The idempotency keys of the entries that the rules write.\<close>

definition topup_key :: "string \<Rightarrow> string" where "topup_key paymentID = ''topup:'' @ paymentID"
definition refund_key :: "string \<Rightarrow> string" where "refund_key refundID = ''refund:'' @ refundID"
definition hold_key :: "string \<Rightarrow> string" where "hold_key requestID = ''refund_hold:'' @ requestID"
definition release_key :: "string \<Rightarrow> string" where "release_key requestID = ''refund_release:'' @ requestID"
definition dispute_key :: "string \<Rightarrow> string" where "dispute_key disputeID = ''dispute:'' @ disputeID"
definition dispute_won_key :: "string \<Rightarrow> string" where "dispute_won_key disputeID = ''dispute_won:'' @ disputeID"

text \<open>What a rule takes from outside its arguments: the Unicode tables and its random bytes.\<close>

record rule_env =
  tables :: unicode_tables
  random :: "8 word list"

subsection \<open>BillingTx\<close>

type_synonym ('s, 'a) tx_op = "('s, store_error, 'a) op"

record 's BillingTx =
  OrderByID :: "string \<Rightarrow> ('s, CheckoutOrder) tx_op"
  OrderByPayment :: "string \<Rightarrow> ('s, CheckoutOrder) tx_op"
  SaveOrder :: "CheckoutOrder \<Rightarrow> ('s, unit) tx_op"
  Credit :: "CreditLedgerEntry \<Rightarrow> ('s, bool \<times> bool) tx_op"
  LedgerAmount :: "string \<Rightarrow> ('s, int \<times> bool) tx_op"
  TenantBillingRow :: "string \<Rightarrow> go_time \<Rightarrow> ('s, TenantBilling) tx_op"
  RefundRequestOrderID :: "string \<Rightarrow> ('s, string) tx_op"
  RefundRequestByID :: "string \<Rightarrow> ('s, RefundRequest) tx_op"
  RefundRequestByRefund :: "string \<Rightarrow> ('s, RefundRequest) tx_op"
  OrderHasActiveRefund :: "string \<Rightarrow> string \<Rightarrow> ('s, bool) tx_op"
  InsertRefundRequest :: "RefundRequest \<Rightarrow> ('s, unit) tx_op"
  SaveRefundRequest :: "RefundRequest \<Rightarrow> ('s, unit) tx_op"

text \<open>
  \<open>errors.Is(err, ErrNotFound)\<close>: a lookup whose \<open>ErrNotFound\<close> is an answer (\<open>None\<close>) rather than a
  failure.
\<close>

definition catch_not_found :: "('s, 'a) tx_op \<Rightarrow> ('s, 'a option) tx_op" where
  "catch_not_found m = (\<lambda>s. case m s of
       (Inl e, s') \<Rightarrow> if e = ErrNotFound then (Inr None, s') else (Inl e, s')
     | (Inr a, s') \<Rightarrow> (Inr (Some a), s'))"

subsection \<open>Finding orders and moving credits\<close>

text \<open>
  A lookup answers \<open>Inl result\<close> for the \<open>ok = false\<close> of the source, with the result that already
  says why, and \<open>Inr (order, result)\<close> otherwise.
\<close>

type_synonym found_order = "BillingEventResult + CheckoutOrder \<times> BillingEventResult"

definition findOrder :: "'s BillingTx \<Rightarrow> string \<Rightarrow> string \<Rightarrow> ('s, found_order) tx_op" where
  "findOrder tx ident paymentID =
     bindE (catch_not_found
              (if ident \<noteq> '''' then OrderByID tx ident
               else if paymentID \<noteq> '''' then OrderByPayment tx paymentID
               else throwE ErrNotFound))
       (\<lambda>found. case found of
          None \<Rightarrow> returnE (Inl (outcome_only BillingOutcomeNoOrder))
        | Some order \<Rightarrow> returnE (Inr (order, \<lparr>er_Outcome = '''', er_TenantID = co_TenantID order,
            er_OrderID = co_ID order, er_BlockedChanged = False\<rparr>)))"

definition findPaidOrder :: "'s BillingTx \<Rightarrow> string \<Rightarrow> ('s, found_order) tx_op" where
  "findPaidOrder tx paymentID =
     (if paymentID = '''' then returnE (Inl (outcome_only BillingOutcomeMismatch))
      else bindE (findOrder tx '''' paymentID)
        (\<lambda>found. case found of Inl _ \<Rightarrow> throwE ErrBillingEventEarly | Inr ok \<Rightarrow> returnE (Inr ok)))"

text \<open>The entry a rule writes; its amount is an \<open>int64\<close> column.\<close>

definition ledger_entry :: "8 word list \<Rightarrow> string \<Rightarrow> string \<Rightarrow> int \<Rightarrow> string \<Rightarrow> string \<Rightarrow> go_time \<Rightarrow> CreditLedgerEntry" where
  "ledger_entry rnd tenantID kind amount ref key now =
     \<lparr>le_ID = NewID PrefixCreditLedger rnd, le_TenantID = tenantID, le_Kind = kind, le_AmountMicro = wrap64 amount,
       le_BalanceAfterMicro = 0, le_Ref = ref, le_IdempotencyKey = Some key, le_ActorID = '''', le_CreatedAt = now\<rparr>"

definition credit :: "rule_env \<Rightarrow> 's BillingTx \<Rightarrow> BillingEventResult \<Rightarrow> string \<Rightarrow> string \<Rightarrow> int \<Rightarrow> string \<Rightarrow> string
    \<Rightarrow> go_time \<Rightarrow> ('s, BillingEventResult) tx_op" where
  "credit env tx result tenantID kind amount ref key now =
     (let key' = TrimSpace key in
      bindE (Credit tx (ledger_entry (random env) tenantID kind amount ref key' now))
        (\<lambda>(changed, duplicate). returnE (result\<lparr>er_BlockedChanged := changed,
           er_Outcome := if duplicate then BillingOutcomeDuplicate else BillingOutcomeApplied\<rparr>)))"

definition creditOnce :: "rule_env \<Rightarrow> 's BillingTx \<Rightarrow> string \<Rightarrow> string \<Rightarrow> int \<Rightarrow> string \<Rightarrow> string \<Rightarrow> go_time
    \<Rightarrow> ('s, bool) tx_op" where
  "creditOnce env tx tenantID kind amount ref key now =
     bindE (Credit tx (ledger_entry (random env) tenantID kind amount ref key now))
       (\<lambda>(changed, duplicate). returnE changed)"

subsection \<open>Payments\<close>

definition paymentSucceeded :: "rule_env \<Rightarrow> 's BillingTx \<Rightarrow> BillingEvent \<Rightarrow> go_time \<Rightarrow> ('s, BillingEventResult) tx_op" where
  "paymentSucceeded env tx event now =
     (if ev_PaymentID event = '''' then returnE (outcome_only BillingOutcomeMismatch)
      else bindE (findOrder tx (ev_OrderID event) '''') (\<lambda>found. case found of
        Inl result \<Rightarrow> returnE result
      | Inr (order, result) \<Rightarrow>
          if ev_TenantID event \<noteq> co_TenantID order
             \<or> (ev_CheckoutSessionID event \<noteq> '''' \<and> co_DodoSessionID order \<noteq> ''''
                 \<and> ev_CheckoutSessionID event \<noteq> co_DodoSessionID order)
          then returnE (result\<lparr>er_Outcome := BillingOutcomeMismatch\<rparr>)
          else if co_Status order \<noteq> OrderStatusPending \<and> co_Status order \<noteq> OrderStatusFailed
          then returnE (result\<lparr>er_Outcome :=
                 if co_DodoPaymentID order = Some (ev_PaymentID event)
                 then BillingOutcomeDuplicate else BillingOutcomeIgnored\<rparr>)
          else if \<not> EqualFold (tables env) (ev_Currency event) (co_Currency order)
             \<or> ev_AmountMinor event < co_AmountMinor order
          then returnE (result\<lparr>er_Outcome := BillingOutcomeMismatch\<rparr>)
          else let order' = order\<lparr>co_DodoPaymentID := Some (ev_PaymentID event),
                     co_PaidAmountMinor := ev_AmountMinor event,
                     co_PaidCurrency := ToUpper (tables env) (ev_Currency event),
                     co_Status := OrderStatusPaid, co_UpdatedAt := now\<rparr> in
            bindE (SaveOrder tx order') (\<lambda>_.
              credit env tx result (co_TenantID order') LedgerKindTopup (co_CreditsMicro order') (co_ID order')
                (topup_key (ev_PaymentID event)) now)))"

definition paymentFailed :: "'s BillingTx \<Rightarrow> BillingEvent \<Rightarrow> go_time \<Rightarrow> ('s, BillingEventResult) tx_op" where
  "paymentFailed tx event now =
     bindE (findOrder tx (ev_OrderID event) '''') (\<lambda>found. case found of
       Inl result \<Rightarrow> returnE result
     | Inr (order, result) \<Rightarrow>
         if co_Status order \<noteq> OrderStatusPending then returnE (result\<lparr>er_Outcome := BillingOutcomeIgnored\<rparr>)
         else bindE (SaveOrder tx (order\<lparr>co_Status := OrderStatusFailed, co_UpdatedAt := now\<rparr>))
           (\<lambda>_. returnE (result\<lparr>er_Outcome := BillingOutcomeApplied\<rparr>)))"

subsection \<open>Refund events\<close>

text \<open>
  \<open>None\<close> is the \<open>linked = false\<close> of the source. The request found there, when it belongs to another
  order, is not used by the callers.
\<close>

definition refundRequestFor :: "'s BillingTx \<Rightarrow> CheckoutOrder \<Rightarrow> BillingEvent \<Rightarrow> ('s, RefundRequest option) tx_op" where
  "refundRequestFor tx order event =
     bindE (if ev_RefundRequestID event \<noteq> '''' then catch_not_found (RefundRequestByID tx (ev_RefundRequestID event))
            else returnE None) (\<lambda>first.
     bindE (if first = None \<and> ev_RefundID event \<noteq> '''' then catch_not_found (RefundRequestByRefund tx (ev_RefundID event))
            else returnE first) (\<lambda>found. case found of
       None \<Rightarrow> returnE None
     | Some req \<Rightarrow> returnE (if rr_OrderID req = co_ID order then Some req else None)))"

definition failRefund :: "rule_env \<Rightarrow> 's BillingTx \<Rightarrow> RefundRequest \<Rightarrow> string \<Rightarrow> go_time
    \<Rightarrow> ('s, RefundRequest \<times> bool) tx_op" where
  "failRefund env tx req failure now =
     (let req' = req\<lparr>rr_Status := RefundStatusFailed, rr_Failure := failure, rr_UpdatedAt := now\<rparr> in
      bindE (SaveRefundRequest tx req') (\<lambda>_.
        if rr_CreditsMicro req' \<le> 0 then returnE (req', False)
        else bindE (creditOnce env tx (rr_TenantID req') LedgerKindRefundReversal (rr_CreditsMicro req')
                      (rr_OrderID req') (release_key (rr_ID req')) now)
               (\<lambda>changed. returnE (req', changed))))"

definition holdRefund :: "rule_env \<Rightarrow> 's BillingTx \<Rightarrow> RefundRequest \<Rightarrow> go_time \<Rightarrow> ('s, bool) tx_op" where
  "holdRefund env tx req now =
     (if rr_CreditsMicro req \<le> 0 then returnE False
      else creditOnce env tx (rr_TenantID req) LedgerKindRefund (wrap64 (- rr_CreditsMicro req)) (rr_OrderID req)
             (hold_key (rr_ID req)) now)"

definition refundSucceeded :: "rule_env \<Rightarrow> 's BillingTx \<Rightarrow> BillingEvent \<Rightarrow> go_time \<Rightarrow> ('s, BillingEventResult) tx_op" where
  "refundSucceeded env tx event now =
     bindE (findPaidOrder tx (ev_PaymentID event)) (\<lambda>found. case found of
       Inl result \<Rightarrow> returnE result
     | Inr (order, result) \<Rightarrow>
         let key = refund_key (ev_RefundID event) in
         if ev_RefundID event = ''''
            \<or> (ev_Currency event \<noteq> '''' \<and> co_PaidCurrency order \<noteq> ''''
                \<and> \<not> EqualFold (tables env) (ev_Currency event) (co_PaidCurrency order))
         then returnE (result\<lparr>er_Outcome := BillingOutcomeMismatch\<rparr>)
         else bindE (refundRequestFor tx order event) (\<lambda>linked.
           if (case linked of Some req \<Rightarrow> rr_Status req = RefundStatusSucceeded | None \<Rightarrow> False)
           then returnE (result\<lparr>er_Outcome := BillingOutcomeDuplicate\<rparr>)
           else bindE (LedgerAmount tx key) (\<lambda>(_, seen).
             if seen then returnE (result\<lparr>er_Outcome := BillingOutcomeDuplicate\<rparr>)
             else if ev_AmountMinor event \<le> 0 \<and> ev_IsPartial event
             then returnE (result\<lparr>er_Outcome := BillingOutcomeMismatch\<rparr>)
             else
               let basis = RefundBasisMinor order;
                   amount = (if ev_AmountMinor event \<le> 0 then wrap64 (basis - co_RefundedMinor order)
                             else ev_AmountMinor event);
                   credits = RefundDelta order amount;
                   refunded = min (wrap64 (co_RefundedMinor order + max amount 0)) basis;
                   order' = order\<lparr>co_RefundedMinor := refunded,
                     co_Status := (if basis \<le> refunded then OrderStatusRefunded else co_Status order),
                     co_UpdatedAt := now\<rparr>;
                   held = (case linked of
                       Some req \<Rightarrow> if rr_Status req = RefundStatusProcessing then rr_CreditsMicro req else 0
                     | None \<Rightarrow> 0);
                   net = wrap64 (credits - held) in
               bindE (SaveOrder tx order') (\<lambda>_.
               bindE (case linked of
                   Some req \<Rightarrow> SaveRefundRequest tx (req\<lparr>rr_Status := RefundStatusSucceeded,
                     rr_DodoRefundID := Some (ev_RefundID event), rr_Failure := '''', rr_UpdatedAt := now\<rparr>)
                 | None \<Rightarrow> returnE ()) (\<lambda>_.
               if net = 0 then returnE (result\<lparr>er_Outcome := BillingOutcomeApplied\<rparr>)
               else credit env tx result (co_TenantID order')
                      (if net < 0 then LedgerKindRefundReversal else LedgerKindRefund)
                      (wrap64 (- net)) (co_ID order') key now)))))"

definition refundFailed :: "rule_env \<Rightarrow> 's BillingTx \<Rightarrow> BillingEvent \<Rightarrow> go_time \<Rightarrow> ('s, BillingEventResult) tx_op" where
  "refundFailed env tx event now =
     (if ev_PaymentID event = '''' then returnE (outcome_only BillingOutcomeMismatch)
      else bindE (findOrder tx '''' (ev_PaymentID event)) (\<lambda>found. case found of
        Inl result \<Rightarrow> returnE result
      | Inr (order, result) \<Rightarrow> bindE (refundRequestFor tx order event) (\<lambda>linked. case linked of
          None \<Rightarrow> returnE (result\<lparr>er_Outcome := BillingOutcomeIgnored\<rparr>)
        | Some req \<Rightarrow>
            if rr_Status req = RefundStatusFailed then returnE (result\<lparr>er_Outcome := BillingOutcomeDuplicate\<rparr>)
            else if rr_Status req \<noteq> RefundStatusProcessing then returnE (result\<lparr>er_Outcome := BillingOutcomeIgnored\<rparr>)
            else let req' = (if ev_RefundID event \<noteq> '''' then req\<lparr>rr_DodoRefundID := Some (ev_RefundID event)\<rparr> else req) in
              bindE (failRefund env tx req' ''the provider reported the refund failed'' now)
                (\<lambda>(_, changed). returnE (result\<lparr>er_BlockedChanged := changed, er_Outcome := BillingOutcomeApplied\<rparr>)))))"

subsection \<open>Disputes\<close>

definition disputeOpened :: "rule_env \<Rightarrow> 's BillingTx \<Rightarrow> BillingEvent \<Rightarrow> go_time \<Rightarrow> ('s, BillingEventResult) tx_op" where
  "disputeOpened env tx event now =
     bindE (findPaidOrder tx (ev_PaymentID event)) (\<lambda>found. case found of
       Inl result \<Rightarrow> returnE result
     | Inr (order, result) \<Rightarrow>
         if ev_DisputeID event = '''' then returnE (result\<lparr>er_Outcome := BillingOutcomeMismatch\<rparr>)
         else let key = dispute_key (ev_DisputeID event) in
           bindE (LedgerAmount tx key) (\<lambda>(_, seen).
             if seen then returnE (result\<lparr>er_Outcome := BillingOutcomeDuplicate\<rparr>)
             else
               let held = wrap64 (co_CreditsMicro order - RefundCredits order (co_RefundedMinor order));
                   order' = order\<lparr>co_Status := OrderStatusDisputed, co_UpdatedAt := now\<rparr> in
               bindE (SaveOrder tx order') (\<lambda>_.
                 credit env tx result (co_TenantID order') LedgerKindDispute (wrap64 (- held)) (co_ID order') key now)))"

definition disputeWon :: "rule_env \<Rightarrow> 's BillingTx \<Rightarrow> BillingEvent \<Rightarrow> go_time \<Rightarrow> ('s, BillingEventResult) tx_op" where
  "disputeWon env tx event now =
     bindE (findPaidOrder tx (ev_PaymentID event)) (\<lambda>found. case found of
       Inl result \<Rightarrow> returnE result
     | Inr (order, result) \<Rightarrow>
         if ev_DisputeID event = '''' then returnE (result\<lparr>er_Outcome := BillingOutcomeMismatch\<rparr>)
         else bindE (LedgerAmount tx (dispute_key (ev_DisputeID event))) (\<lambda>(taken, found).
           if \<not> found then throwE ErrBillingEventEarly
           else
             let order' = (if co_Status order = OrderStatusDisputed
                   then order\<lparr>co_Status := (if RefundBasisMinor order \<le> co_RefundedMinor order
                                then OrderStatusRefunded else OrderStatusPaid), co_UpdatedAt := now\<rparr>
                   else order) in
             bindE (if co_Status order = OrderStatusDisputed then SaveOrder tx order' else returnE ()) (\<lambda>_.
               credit env tx result (co_TenantID order') LedgerKindDisputeReversal (wrap64 (- taken)) (co_ID order')
                 (dispute_won_key (ev_DisputeID event)) now)))"

definition ApplyBillingEventRules :: "rule_env \<Rightarrow> 's BillingTx \<Rightarrow> BillingEvent \<Rightarrow> go_time \<Rightarrow> ('s, BillingEventResult) tx_op" where
  "ApplyBillingEventRules env tx event now =
     (if ev_Kind event = BillingEventPaymentSucceeded then paymentSucceeded env tx event now
      else if ev_Kind event = BillingEventPaymentFailed then paymentFailed tx event now
      else if ev_Kind event = BillingEventRefundSucceeded then refundSucceeded env tx event now
      else if ev_Kind event = BillingEventRefundFailed then refundFailed env tx event now
      else if ev_Kind event = BillingEventDisputeOpened then disputeOpened env tx event now
      else if ev_Kind event = BillingEventDisputeWon then disputeWon env tx event now
      else returnE (outcome_only BillingOutcomeIgnored))"

subsection \<open>Refund requests\<close>

definition lockRefundRequest :: "'s BillingTx \<Rightarrow> string \<Rightarrow> ('s, RefundRequest \<times> CheckoutOrder) tx_op" where
  "lockRefundRequest tx ident =
     bindE (RefundRequestOrderID tx ident) (\<lambda>orderID.
     bindE (OrderByID tx orderID) (\<lambda>order.
     bindE (RefundRequestByID tx ident) (\<lambda>req. returnE (req, order))))"

definition refundLimit :: "'s BillingTx \<Rightarrow> CheckoutOrder \<Rightarrow> RefundPolicy \<Rightarrow> string \<Rightarrow> go_time \<Rightarrow> ('s, int) tx_op" where
  "refundLimit tx order pol exceptID now =
     (if co_Status order \<noteq> OrderStatusPaid then throwE (RefundRefusedError RefundRefusedOrderState)
      else if NotBefore pol \<noteq> 0 \<and> co_CreatedAt order < NotBefore pol
      then throwE (RefundRefusedError RefundRefusedWindow)
      else bindE (OrderHasActiveRefund tx (co_ID order) exceptID) (\<lambda>active.
        if active then throwE (RefundRefusedError RefundRefusedInProgress)
        else bindE (if UnusedOnly pol
                    then bindE (TenantBillingRow tx (co_TenantID order) now)
                           (\<lambda>row. returnE (UnusedRefundMinor order (tb_BalanceMicro row)))
                    else returnE (RemainingRefundMinor order)) (\<lambda>limit.
          if limit \<le> 0 then throwE (RefundRefusedError RefundRefusedNothing) else returnE limit)))"

definition refundCurrency :: "rule_env \<Rightarrow> CheckoutOrder \<Rightarrow> string" where
  "refundCurrency env order =
     (if co_PaidCurrency order \<noteq> '''' then co_PaidCurrency order else ToUpper (tables env) (co_Currency order))"

definition OpenRefundRules :: "rule_env \<Rightarrow> 's BillingTx \<Rightarrow> RefundRequest \<Rightarrow> RefundPolicy \<Rightarrow> go_time
    \<Rightarrow> ('s, RefundRequest \<times> CheckoutOrder \<times> bool) tx_op" where
  "OpenRefundRules env tx req pol now =
     bindE (OrderByID tx (rr_OrderID req)) (\<lambda>order.
       let tenant = (if rr_TenantID req = '''' then co_TenantID order else rr_TenantID req) in
       if tenant \<noteq> co_TenantID order then throwE ErrNotFound
       else bindE (refundLimit tx order pol '''' now) (\<lambda>limit.
         if rr_AmountMinor req < 0 \<or> limit < rr_AmountMinor req
         then throwE (RefundRefusedError RefundRefusedAmount)
         else
           let amount = (if rr_AmountMinor req = 0 then limit else rr_AmountMinor req);
               req1 = req\<lparr>rr_TenantID := tenant, rr_AmountMinor := amount, rr_Currency := refundCurrency env order,
                 rr_CreatedAt := now, rr_UpdatedAt := now\<rparr>;
               req2 = (if rr_Status req1 = RefundStatusProcessing
                       then req1\<lparr>rr_CreditsMicro := RefundDelta order amount\<rparr> else req1) in
           bindE (if rr_Status req1 = RefundStatusProcessing then holdRefund env tx req2 now else returnE False)
             (\<lambda>changed. bindE (InsertRefundRequest tx req2) (\<lambda>_. returnE (req2, order, changed)))))"

definition ApproveRefundRules :: "rule_env \<Rightarrow> 's BillingTx \<Rightarrow> string \<Rightarrow> string \<Rightarrow> string \<Rightarrow> int \<Rightarrow> RefundPolicy \<Rightarrow> go_time
    \<Rightarrow> ('s, RefundRequest \<times> CheckoutOrder \<times> bool) tx_op" where
  "ApproveRefundRules env tx ident reviewer note amountMinor pol now =
     bindE (lockRefundRequest tx ident) (\<lambda>(req, order).
       if rr_Status req \<noteq> RefundStatusPending then throwE (RefundRefusedError RefundRefusedStatus)
       else bindE (refundLimit tx order (pol\<lparr>NotBefore := 0\<rparr>) (rr_ID req) now) (\<lambda>limit0.
         let limit = min limit0 (rr_AmountMinor req) in
         if amountMinor < 0 \<or> limit < amountMinor then throwE (RefundRefusedError RefundRefusedAmount)
         else
           let amount = (if amountMinor = 0 then limit else amountMinor);
               req' = req\<lparr>rr_AmountMinor := amount, rr_Currency := refundCurrency env order,
                 rr_CreditsMicro := RefundDelta order amount, rr_Status := RefundStatusProcessing,
                 rr_ReviewedBy := reviewer, rr_ReviewNote := note, rr_UpdatedAt := now\<rparr> in
           bindE (holdRefund env tx req' now) (\<lambda>changed.
             bindE (SaveRefundRequest tx req') (\<lambda>_. returnE (req', order, changed)))))"

definition TransitionRefundRules :: "rule_env \<Rightarrow> 's BillingTx \<Rightarrow> RefundTransition \<Rightarrow> go_time
    \<Rightarrow> ('s, RefundRequest \<times> bool) tx_op" where
  "TransitionRefundRules env tx t now =
     bindE (lockRefundRequest tx (rt_ID t)) (\<lambda>(req, _).
       if rt_TenantID t \<noteq> '''' \<and> rr_TenantID req \<noteq> rt_TenantID t then throwE ErrNotFound
       else if rr_Status req \<noteq> (if rt_To t = RefundStatusFailed then RefundStatusProcessing else RefundStatusPending)
       then throwE (RefundRefusedError RefundRefusedStatus)
       else if rt_To t = RefundStatusRejected then
         let req' = req\<lparr>rr_Status := rt_To t, rr_ReviewedBy := rt_Actor t, rr_ReviewNote := rt_Note t, rr_UpdatedAt := now\<rparr> in
         bindE (SaveRefundRequest tx req') (\<lambda>_. returnE (req', False))
       else if rt_To t = RefundStatusCancelled then
         let req' = req\<lparr>rr_Status := rt_To t, rr_UpdatedAt := now\<rparr> in
         bindE (SaveRefundRequest tx req') (\<lambda>_. returnE (req', False))
       else if rt_To t = RefundStatusFailed then failRefund env tx req (rt_Note t) now
       else throwE (RefundRefusedError RefundRefusedStatus))"


section \<open>The interface\<close>

text \<open>
  An operation \<open>keeps\<close> a relation when every run of it, failed ones included, moves the state
  along the relation. A preorder that every method of a \<open>BillingTx\<close> keeps is respected by every
  rule: the rules touch the state through the interface alone.
\<close>

definition keeps :: "('s \<Rightarrow> 's \<Rightarrow> bool) \<Rightarrow> ('s, 'e, 'a) op \<Rightarrow> bool" where
  "keeps R m \<longleftrightarrow> (\<forall>s. R s (snd (m s)))"

lemma keepsD: "keeps R m \<Longrightarrow> m s = (r, s') \<Longrightarrow> R s s'"
  unfolding keeps_def by (metis snd_conv)

locale state_order =
  fixes R :: "'s \<Rightarrow> 's \<Rightarrow> bool"
  assumes R_refl: "R s s"
    and R_trans: "R s t \<Longrightarrow> R t u \<Longrightarrow> R s u"
begin

lemma returnE: "keeps R (returnE a)"
  by (simp add: keeps_def returnE_def R_refl)

lemma throwE: "keeps R (throwE e)"
  by (simp add: keeps_def throwE_def R_refl)

lemma bindE: "keeps R m \<Longrightarrow> (\<And>a. keeps R (f a)) \<Longrightarrow> keeps R (bindE m f)"
  unfolding keeps_def bindE_def by (auto split: prod.splits sum.splits) (metis R_trans snd_conv)+

lemma catch: "keeps R m \<Longrightarrow> keeps R (catch_not_found m)"
  unfolding keeps_def catch_not_found_def by (auto split: prod.splits sum.splits) (metis snd_conv)+

lemma control:
  "(c \<Longrightarrow> keeps R a) \<Longrightarrow> (\<not> c \<Longrightarrow> keeps R b) \<Longrightarrow> keeps R (if c then a else b)"
  "keeps R (f y) \<Longrightarrow> keeps R (Let y f)"
  "(\<And>x y. keeps R (g x y)) \<Longrightarrow> keeps R (case_prod g p)"
  "keeps R a \<Longrightarrow> (\<And>x. keeps R (h x)) \<Longrightarrow> keeps R (case_option a h z)"
  "(\<And>x. keeps R (k x)) \<Longrightarrow> (\<And>x. keeps R (l x)) \<Longrightarrow> keeps R (case_sum k l w)"
  by (simp_all add: Let_def split: prod.splits option.splits sum.splits)

end

text \<open>
  What the provider's events need of the interface: the reads, orders and credits, and saving a refund
  request that is no longer active, the only kind an event or a transition saves.
\<close>

locale billing_events = state_order R
  for R :: "'s \<Rightarrow> 's \<Rightarrow> bool" +
  fixes tx :: "'s BillingTx"
  assumes OrderByID: "keeps R (OrderByID tx ident)"
    and OrderByPayment: "keeps R (OrderByPayment tx ident)"
    and SaveOrder: "keeps R (SaveOrder tx order)"
    and Credit: "in_int64 (le_AmountMicro entry) \<Longrightarrow> keeps R (Credit tx entry)"
    and LedgerAmount: "keeps R (LedgerAmount tx key)"
    and TenantBillingRow: "keeps R (TenantBillingRow tx tenant now)"
    and RefundRequestOrderID: "keeps R (RefundRequestOrderID tx ident)"
    and RefundRequestByID: "keeps R (RefundRequestByID tx ident)"
    and RefundRequestByRefund: "keeps R (RefundRequestByRefund tx ident)"
    and OrderHasActiveRefund: "keeps R (OrderHasActiveRefund tx ident except)"
    and SaveInactive: "\<not> Active req \<Longrightarrow> keeps R (SaveRefundRequest tx req)"
begin

lemma Credit_entry: "keeps R (Credit tx (ledger_entry rnd tenant kind amount ref key now))"
  by (rule Credit) (simp add: ledger_entry_def)

lemmas methods = OrderByID OrderByPayment SaveOrder Credit_entry LedgerAmount TenantBillingRow RefundRequestOrderID
  RefundRequestByID RefundRequestByRefund OrderHasActiveRefund SaveInactive
  returnE throwE bindE catch control

lemma findOrder: "keeps R (findOrder tx ident pid)"
  unfolding findOrder_def by (intro methods)

lemma findPaidOrder: "keeps R (findPaidOrder tx pid)"
  unfolding findPaidOrder_def by (intro methods findOrder)

lemma credit: "keeps R (credit env tx result tenant kind amount ref key now)"
  unfolding credit_def by (intro methods)

lemma creditOnce: "keeps R (creditOnce env tx tenant kind amount ref key now)"
  unfolding creditOnce_def by (intro methods)

lemma refundRequestFor: "keeps R (refundRequestFor tx order event)"
  unfolding refundRequestFor_def by (intro methods)

lemma failRefund: "keeps R (failRefund env tx req failure now)"
  unfolding failRefund_def by (auto simp: Active_def intro!: methods creditOnce)

lemma holdRefund: "keeps R (holdRefund env tx req now)"
  unfolding holdRefund_def by (intro methods creditOnce)

lemma refundLimit: "keeps R (refundLimit tx order pol except now)"
  unfolding refundLimit_def by (intro methods)

lemma lockRefundRequest: "keeps R (lockRefundRequest tx ident)"
  unfolding lockRefundRequest_def by (intro methods)

lemmas helpers = methods findOrder findPaidOrder credit creditOnce refundRequestFor failRefund holdRefund
  refundLimit lockRefundRequest

lemma paymentSucceeded: "keeps R (paymentSucceeded env tx event now)"
  unfolding paymentSucceeded_def by (intro helpers)

lemma paymentFailed: "keeps R (paymentFailed tx event now)"
  unfolding paymentFailed_def by (intro helpers)

lemma refundSucceeded: "keeps R (refundSucceeded env tx event now)"
  unfolding refundSucceeded_def by (auto simp: Active_def intro!: helpers)

lemma refundFailed: "keeps R (refundFailed env tx event now)"
  unfolding refundFailed_def by (auto simp: Active_def intro!: helpers)

lemma disputeOpened: "keeps R (disputeOpened env tx event now)"
  unfolding disputeOpened_def by (intro helpers)

lemma disputeWon: "keeps R (disputeWon env tx event now)"
  unfolding disputeWon_def by (intro helpers)

lemma ApplyBillingEventRules: "keeps R (ApplyBillingEventRules env tx event now)"
  unfolding ApplyBillingEventRules_def by (intro control returnE paymentSucceeded paymentFailed refundSucceeded refundFailed disputeOpened disputeWon)

lemma TransitionRefundRules: "keeps R (TransitionRefundRules env tx t now)"
  unfolding TransitionRefundRules_def by (auto simp: Active_def intro!: helpers)


end

text \<open>A full transaction also inserts requests and saves active ones.\<close>

locale billing_tx = billing_events R tx
  for R :: "'s \<Rightarrow> 's \<Rightarrow> bool" and tx :: "'s BillingTx" +
  assumes SaveRefundRequest: "keeps R (SaveRefundRequest tx req)"
    and InsertRefundRequest: "rr_DodoRefundID req = None \<Longrightarrow> keeps R (InsertRefundRequest tx req)"
begin

lemma OpenRefundRules: "rr_DodoRefundID req = None \<Longrightarrow> keeps R (OpenRefundRules env tx req pol now)"
  unfolding OpenRefundRules_def Let_def by (intro helpers InsertRefundRequest) simp_all

lemma ApproveRefundRules: "keeps R (ApproveRefundRules env tx ident reviewer note amount pol now)"
  unfolding ApproveRefundRules_def by (intro helpers SaveRefundRequest)


end

end
