(* ===== verification/BillingStore.thy ===== *)
theory BillingStore
  imports BillingRules
begin

text \<open>
  \<open>aiServeWeaveControlPlane/internal/store/memstore\<close>: the billing tables of the in-memory store
  (\<open>billing.go\<close>). Every method holds the store's mutex for its whole run, so a concurrent history
  is a sequence of calls; the step relation lists them.

  The lemmas show that the tables are a ledger: every balance is the sum of its tenant's entries and
  every entry records the balance it left behind, whatever sequence of purchases, refunds, disputes,
  charges and adjustments the store has seen; that a failed event leaves no trace; and that a request
  is charged, a webhook applied and a payment credited at most once.
\<close>


section \<open>Definitions\<close>

subsection \<open>State\<close>

record UsageRecord =
  ur_ID :: string
  ur_TenantID :: string
  ur_Model :: string
  ur_Endpoint :: string
  ur_PromptTokens :: int
  ur_CompletionTokens :: int
  ur_TotalTokens :: int
  ur_CreatedAt :: go_time
  ur_NodeID :: string

text \<open>\<open>billingState\<close>, with the usage records that \<open>ChargeUsage\<close> writes in the same critical section.\<close>

record billingState =
  bs_tenants :: "string \<rightharpoonup> TenantBilling"
  bs_packages :: "(string \<times> CreditPackage) list"
  bs_prices :: "(string \<times> ModelPrice) list"
  bs_orders :: "(string \<times> CheckoutOrder) list"
  bs_ledger :: "CreditLedgerEntry list"
  bs_charges :: "string \<rightharpoonup> UsageCharge"
  bs_webhooks :: "string \<rightharpoonup> BillingWebhookEvent"
  bs_refunds :: "(string \<times> RefundRequest) list"
  bs_usageRecords :: "string \<rightharpoonup> UsageRecord"

type_synonym 'a store_op = "(billingState, 'a) tx_op"

definition newBillingState :: billingState where
  "newBillingState = \<lparr>bs_tenants = Map.empty, bs_packages = [], bs_prices = [], bs_orders = [], bs_ledger = [],
     bs_charges = Map.empty, bs_webhooks = Map.empty, bs_refunds = [], bs_usageRecords = Map.empty\<rparr>"

definition errBalanceOverflow :: store_error where
  "errBalanceOverflow = OtherError ''memstore: balance overflow''"

subsection \<open>Rows and credits\<close>

definition billingRow :: "billingState \<Rightarrow> string \<Rightarrow> go_time \<Rightarrow> TenantBilling" where
  "billingRow s tenantID now = (case bs_tenants s tenantID of
       Some row \<Rightarrow> row
     | None \<Rightarrow> \<lparr>tb_TenantID = tenantID, tb_Mode = BillingModeExempt, tb_BalanceMicro = 0, tb_DodoCustomerID = '''',
         tb_CreatedAt = now, tb_UpdatedAt = now\<rparr>)"

text \<open>Indexing the tenants map directly: the zero value of the row when it is missing.\<close>

definition tenant_row :: "billingState \<Rightarrow> string \<Rightarrow> TenantBilling" where
  "tenant_row s tenantID = (case bs_tenants s tenantID of
       Some row \<Rightarrow> row
     | None \<Rightarrow> \<lparr>tb_TenantID = '''', tb_Mode = '''', tb_BalanceMicro = 0, tb_DodoCustomerID = '''',
         tb_CreatedAt = 0, tb_UpdatedAt = 0\<rparr>)"

definition ledgerByKey :: "billingState \<Rightarrow> string \<Rightarrow> CreditLedgerEntry option" where
  "ledgerByKey s key = List.find (\<lambda>e. le_IdempotencyKey e = Some key) (bs_ledger s)"

text \<open>Returns the entry with its resulting balance, and the flags \<open>changed\<close> and \<open>duplicate\<close>.\<close>

definition applyCredit :: "CreditLedgerEntry \<Rightarrow> (CreditLedgerEntry \<times> bool \<times> bool) store_op" where
  "applyCredit entry = (\<lambda>s.
     if (case le_IdempotencyKey entry of Some key \<Rightarrow> ledgerByKey s key \<noteq> None | None \<Rightarrow> False)
     then (Inr (entry, False, True), s)
     else
       let row = billingRow s (le_TenantID entry) (le_CreatedAt entry);
           amount = le_AmountMicro entry in
       if (0 < amount \<and> wrap64 (max_int64 - amount) < tb_BalanceMicro row)
          \<or> (amount < 0 \<and> tb_BalanceMicro row < wrap64 (min_int64 - amount))
       then (Inl errBalanceOverflow, s)
       else
         let row' = row\<lparr>tb_BalanceMicro := wrap64 (tb_BalanceMicro row + amount), tb_UpdatedAt := le_CreatedAt entry\<rparr>;
             entry' = entry\<lparr>le_BalanceAfterMicro := tb_BalanceMicro row'\<rparr> in
         (Inr (entry', Blocked row \<noteq> Blocked row', False),
          s\<lparr>bs_tenants := (bs_tenants s)(le_TenantID entry \<mapsto> row'), bs_ledger := bs_ledger s @ [entry']\<rparr>))"

subsection \<open>memLedger\<close>

definition lookup :: "'a option \<Rightarrow> ('s, 'a) tx_op" where
  "lookup found = (case found of Some a \<Rightarrow> returnE a | None \<Rightarrow> throwE ErrNotFound)"

definition memOrderByID :: "string \<Rightarrow> CheckoutOrder store_op" where
  "memOrderByID ident = (\<lambda>s. lookup (map_of (bs_orders s) ident) s)"

definition memOrderByPayment :: "string \<Rightarrow> CheckoutOrder store_op" where
  "memOrderByPayment paymentID = (\<lambda>s. lookup (find_value (\<lambda>order. co_DodoPaymentID order = Some paymentID) (bs_orders s)) s)"

definition memSaveOrder :: "CheckoutOrder \<Rightarrow> unit store_op" where
  "memSaveOrder order = (\<lambda>s.
     if co_DodoPaymentID order \<noteq> None
        \<and> list_ex (\<lambda>(ident, other). ident \<noteq> co_ID order \<and> co_DodoPaymentID other = co_DodoPaymentID order) (bs_orders s)
     then (Inl ErrConflict, s)
     else (Inr (), s\<lparr>bs_orders := AList.update (co_ID order) order (bs_orders s)\<rparr>))"

definition memCredit :: "CreditLedgerEntry \<Rightarrow> (bool \<times> bool) store_op" where
  "memCredit entry = bindE (applyCredit entry) (\<lambda>(_, changed, duplicate). returnE (changed, duplicate))"

definition memLedgerAmount :: "string \<Rightarrow> (int \<times> bool) store_op" where
  "memLedgerAmount key = (\<lambda>s. case ledgerByKey s key of
       Some e \<Rightarrow> (Inr (le_AmountMicro e, True), s) | None \<Rightarrow> (Inr (0, False), s))"

definition memTenantBilling :: "string \<Rightarrow> go_time \<Rightarrow> TenantBilling store_op" where
  "memTenantBilling tenantID now = (\<lambda>s. (Inr (billingRow s tenantID now), s))"

definition memRefundRequestByID :: "string \<Rightarrow> RefundRequest store_op" where
  "memRefundRequestByID ident = (\<lambda>s. lookup (map_of (bs_refunds s) ident) s)"

definition memRefundRequestOrderID :: "string \<Rightarrow> string store_op" where
  "memRefundRequestOrderID ident = (\<lambda>s. lookup (map_option rr_OrderID (map_of (bs_refunds s) ident)) s)"

definition memRefundRequestByRefund :: "string \<Rightarrow> RefundRequest store_op" where
  "memRefundRequestByRefund refundID = (\<lambda>s. lookup (find_value (\<lambda>req. rr_DodoRefundID req = Some refundID) (bs_refunds s)) s)"

definition memOrderHasActiveRefund :: "string \<Rightarrow> string \<Rightarrow> bool store_op" where
  "memOrderHasActiveRefund orderID exceptID = (\<lambda>s.
     (Inr (list_ex (\<lambda>(_, req). rr_OrderID req = orderID \<and> rr_ID req \<noteq> exceptID \<and> Active req) (bs_refunds s)), s))"

definition memInsertRefundRequest :: "RefundRequest \<Rightarrow> unit store_op" where
  "memInsertRefundRequest req = (\<lambda>s.
     if map_of (bs_refunds s) (rr_ID req) \<noteq> None then (Inl ErrConflict, s)
     else (Inr (), s\<lparr>bs_refunds := AList.update (rr_ID req) req (bs_refunds s)\<rparr>))"

definition memSaveRefundRequest :: "RefundRequest \<Rightarrow> unit store_op" where
  "memSaveRefundRequest req = (\<lambda>s.
     if rr_DodoRefundID req \<noteq> None
        \<and> list_ex (\<lambda>(ident, other). ident \<noteq> rr_ID req \<and> rr_DodoRefundID other = rr_DodoRefundID req) (bs_refunds s)
     then (Inl ErrConflict, s)
     else (Inr (), s\<lparr>bs_refunds := AList.update (rr_ID req) req (bs_refunds s)\<rparr>))"

definition memLedger :: "billingState BillingTx" where
  "memLedger = \<lparr>OrderByID = memOrderByID, OrderByPayment = memOrderByPayment, SaveOrder = memSaveOrder,
     Credit = memCredit, LedgerAmount = memLedgerAmount, TenantBillingRow = memTenantBilling,
     RefundRequestOrderID = memRefundRequestOrderID, RefundRequestByID = memRefundRequestByID,
     RefundRequestByRefund = memRefundRequestByRefund, OrderHasActiveRefund = memOrderHasActiveRefund,
     InsertRefundRequest = memInsertRefundRequest, SaveRefundRequest = memSaveRefundRequest\<rparr>"

subsection \<open>Tenants\<close>

definition GetTenantBilling :: "string \<Rightarrow> TenantBilling store_op" where
  "GetTenantBilling tenantID = (\<lambda>s. lookup (bs_tenants s tenantID) s)"

definition InitTenantBilling :: "TenantBilling \<Rightarrow> CreditLedgerEntry option \<Rightarrow> unit store_op" where
  "InitTenantBilling billing grant = (\<lambda>s.
     if bs_tenants s (tb_TenantID billing) \<noteq> None then (Inl ErrConflict, s)
     else case grant of
       None \<Rightarrow> (Inr (), s\<lparr>bs_tenants := (bs_tenants s)(tb_TenantID billing \<mapsto> billing)\<rparr>)
     | Some g \<Rightarrow> (Inr (), s\<lparr>bs_tenants := (bs_tenants s)(tb_TenantID billing \<mapsto> billing\<lparr>tb_BalanceMicro := le_AmountMicro g\<rparr>),
         bs_ledger := bs_ledger s @ [g\<lparr>le_BalanceAfterMicro := le_AmountMicro g\<rparr>]\<rparr>))"

definition SetTenantBillingMode :: "string \<Rightarrow> string \<Rightarrow> go_time \<Rightarrow> bool store_op" where
  "SetTenantBillingMode tenantID mode now = (\<lambda>s.
     let row = billingRow s tenantID now;
         row' = row\<lparr>tb_Mode := mode, tb_UpdatedAt := now\<rparr> in
     (Inr (Blocked row \<noteq> Blocked row'), s\<lparr>bs_tenants := (bs_tenants s)(tenantID \<mapsto> row')\<rparr>))"

definition SetDodoCustomerID :: "string \<Rightarrow> string \<Rightarrow> go_time \<Rightarrow> string store_op" where
  "SetDodoCustomerID tenantID customerID now = (\<lambda>s.
     let row = billingRow s tenantID now in
     if tb_DodoCustomerID row \<noteq> '''' then (Inr (tb_DodoCustomerID row), s)
     else (Inr customerID, s\<lparr>bs_tenants := (bs_tenants s)(tenantID \<mapsto>
             row\<lparr>tb_DodoCustomerID := customerID, tb_UpdatedAt := now\<rparr>)\<rparr>))"

definition AdjustCredit :: "CreditLedgerEntry \<Rightarrow> (CreditLedgerEntry \<times> bool) store_op" where
  "AdjustCredit entry = bindE (applyCredit entry) (\<lambda>(entry', changed, _). returnE (entry', changed))"

subsection \<open>Usage charges\<close>

text \<open>
  The local variables of the first loop of \<open>ChargeUsage\<close>. Reading a missing key of \<open>debit\<close> or
  \<open>count\<close> gives 0.
\<close>

record charge_acc =
  ca_debit :: "string \<rightharpoonup> int"
  ca_count :: "string \<Rightarrow> int"
  ca_order :: "string list"
  ca_fresh :: "UsageCharge list"
  ca_seen :: "string set"

definition empty_acc :: charge_acc where
  "empty_acc = \<lparr>ca_debit = Map.empty, ca_count = (\<lambda>_. 0), ca_order = [], ca_fresh = [], ca_seen = {}\<rparr>"

definition debit_of :: "charge_acc \<Rightarrow> string \<Rightarrow> int" where
  "debit_of acc tenantID = (case ca_debit acc tenantID of Some d \<Rightarrow> d | None \<Rightarrow> 0)"

text \<open>One iteration of the loop; \<open>None\<close> is its return of \<open>errBalanceOverflow\<close>.\<close>

definition price_charge :: "billingState \<Rightarrow> UsageCharge \<Rightarrow> charge_acc \<Rightarrow> charge_acc option" where
  "price_charge s c acc =
     (if bs_charges s (uc_RequestID c) \<noteq> None \<or> uc_RequestID c \<in> ca_seen acc then Some acc
      else
        let t = uc_TenantID c;
            charged = (case bs_tenants s t of
                Some b \<Rightarrow> tb_Mode b = BillingModePrepaid \<and> 0 < uc_CostMicro c | None \<Rightarrow> False);
            acc1 = acc\<lparr>ca_seen := insert (uc_RequestID c) (ca_seen acc),
                       ca_fresh := ca_fresh acc @ [c\<lparr>uc_Charged := charged\<rparr>]\<rparr> in
        if \<not> charged then Some acc1
        else if max_int64 - uc_CostMicro c < debit_of acc t then None
        else Some (acc1\<lparr>
          ca_order := (if ca_debit acc t = None then ca_order acc @ [t] else ca_order acc),
          ca_debit := (ca_debit acc)(t \<mapsto> debit_of acc t + uc_CostMicro c),
          ca_count := (ca_count acc)(t := ca_count acc t + 1)\<rparr>))"

fun price_charges :: "billingState \<Rightarrow> UsageCharge list \<Rightarrow> charge_acc \<Rightarrow> charge_acc option" where
  "price_charges s [] acc = Some acc"
| "price_charges s (c # cs) acc = (case price_charge s c acc of None \<Rightarrow> None | Some acc' \<Rightarrow> price_charges s cs acc')"

definition requestsRef :: "int \<Rightarrow> string" where
  "requestsRef n = itoa n @ '' requests''"

fun add_usage_records :: "UsageRecord list \<Rightarrow> (string \<rightharpoonup> UsageRecord) \<Rightarrow> (string \<rightharpoonup> UsageRecord)" where
  "add_usage_records [] m = m"
| "add_usage_records (r # rs) m =
     add_usage_records rs (if m (ur_ID r) = None then m(ur_ID r \<mapsto> r) else m)"

fun write_charges :: "UsageCharge list \<Rightarrow> (string \<rightharpoonup> UsageCharge) \<times> go_time \<Rightarrow> (string \<rightharpoonup> UsageCharge) \<times> go_time" where
  "write_charges [] mt = mt"
| "write_charges (c # cs) (m, now) = write_charges cs (m(uc_RequestID c \<mapsto> c), uc_CreatedAt c)"

text \<open>The last loop: one debit and one ledger entry per tenant, in order of first charge.\<close>

definition debit_tenant :: "(string \<Rightarrow> 8 word list) \<Rightarrow> charge_acc \<Rightarrow> go_time \<Rightarrow> string \<Rightarrow> billingState \<Rightarrow> bool \<times> billingState" where
  "debit_tenant rnd acc now t s =
     (let b = tenant_row s t;
          d = debit_of acc t;
          b' = b\<lparr>tb_BalanceMicro := wrap64 (tb_BalanceMicro b - d), tb_UpdatedAt := now\<rparr>;
          entry = \<lparr>le_ID = NewID PrefixCreditLedger (rnd t), le_TenantID = t, le_Kind = LedgerKindUsage,
            le_AmountMicro = - d, le_BalanceAfterMicro = tb_BalanceMicro b', le_Ref = requestsRef (ca_count acc t),
            le_IdempotencyKey = None, le_ActorID = '''', le_CreatedAt = now\<rparr> in
      (Blocked b \<noteq> Blocked b', s\<lparr>bs_tenants := (bs_tenants s)(t \<mapsto> b'), bs_ledger := bs_ledger s @ [entry]\<rparr>))"

fun debit_tenants :: "(string \<Rightarrow> 8 word list) \<Rightarrow> charge_acc \<Rightarrow> go_time \<Rightarrow> string list \<Rightarrow> bool \<times> billingState \<Rightarrow> bool \<times> billingState" where
  "debit_tenants rnd acc now [] (changed, s) = (changed, s)"
| "debit_tenants rnd acc now (t # ts) (changed, s) =
     (let (flipped, s') = debit_tenant rnd acc now t s in debit_tenants rnd acc now ts (changed \<or> flipped, s'))"

definition ChargeUsage :: "(string \<Rightarrow> 8 word list) \<Rightarrow> UsageRecord list \<Rightarrow> UsageCharge list \<Rightarrow> bool store_op" where
  "ChargeUsage rnd records charges = (\<lambda>s. case price_charges s charges empty_acc of
       None \<Rightarrow> (Inl errBalanceOverflow, s)
     | Some acc \<Rightarrow>
         if list_ex (\<lambda>t. tb_BalanceMicro (tenant_row s t) < min_int64 + debit_of acc t) (ca_order acc)
         then (Inl errBalanceOverflow, s)
         else
           let (charges', now) = write_charges (ca_fresh acc) (bs_charges s, 0);
               s1 = s\<lparr>bs_usageRecords := add_usage_records records (bs_usageRecords s), bs_charges := charges'\<rparr>;
               (changed, s2) = debit_tenants rnd acc now (ca_order acc) (False, s1) in
           (Inr changed, s2))"

subsection \<open>Events and refunds, with rollback\<close>

text \<open>
  \<open>snapshotBilling\<close> with its restoring function: tenants, orders and refunds come back and the ledger
  is cut to its old length; the other tables stay.
\<close>

definition restoreBilling :: "billingState \<Rightarrow> billingState \<Rightarrow> billingState" where
  "restoreBilling old s = s\<lparr>bs_tenants := bs_tenants old, bs_orders := bs_orders old, bs_refunds := bs_refunds old,
     bs_ledger := take (length (bs_ledger old)) (bs_ledger s)\<rparr>"

definition with_rollback :: "'a store_op \<Rightarrow> 'a store_op" where
  "with_rollback m = (\<lambda>s. case m s of
       (Inl e, s') \<Rightarrow> (Inl e, restoreBilling s s') | (Inr a, s') \<Rightarrow> (Inr a, s'))"

definition ApplyBillingEvent :: "rule_env \<Rightarrow> BillingEvent \<Rightarrow> go_time \<Rightarrow> BillingEventResult store_op" where
  "ApplyBillingEvent env event now = (\<lambda>s.
     if ev_WebhookID event \<noteq> '''' \<and> bs_webhooks s (ev_WebhookID event) \<noteq> None
     then (Inr (outcome_only BillingOutcomeDuplicate), s)
     else case with_rollback (ApplyBillingEventRules env memLedger event now) s of
       (Inl e, s') \<Rightarrow> (Inl e, s')
     | (Inr result, s') \<Rightarrow>
         (Inr result, if ev_WebhookID event = '''' then s'
            else s'\<lparr>bs_webhooks := (bs_webhooks s')(ev_WebhookID event \<mapsto>
              \<lparr>we_WebhookID = ev_WebhookID event, we_Type = ev_Type event, we_ReceivedAt = now\<rparr>)\<rparr>))"

definition OpenRefundRequest :: "rule_env \<Rightarrow> RefundRequest \<Rightarrow> RefundPolicy \<Rightarrow> go_time
    \<Rightarrow> (RefundRequest \<times> CheckoutOrder \<times> bool) store_op" where
  "OpenRefundRequest env req pol now = with_rollback (OpenRefundRules env memLedger req pol now)"

definition ApproveRefundRequest :: "rule_env \<Rightarrow> string \<Rightarrow> string \<Rightarrow> string \<Rightarrow> int \<Rightarrow> RefundPolicy \<Rightarrow> go_time
    \<Rightarrow> (RefundRequest \<times> CheckoutOrder \<times> bool) store_op" where
  "ApproveRefundRequest env ident reviewer note amountMinor pol now =
     with_rollback (ApproveRefundRules env memLedger ident reviewer note amountMinor pol now)"

definition TransitionRefundRequest :: "rule_env \<Rightarrow> RefundTransition \<Rightarrow> go_time \<Rightarrow> (RefundRequest \<times> bool) store_op" where
  "TransitionRefundRequest env t now = with_rollback (TransitionRefundRules env memLedger t now)"

definition RecordRefundSubmitted :: "string \<Rightarrow> string \<Rightarrow> go_time \<Rightarrow> unit store_op" where
  "RecordRefundSubmitted ident refundID now = (\<lambda>s. case map_of (bs_refunds s) ident of
       None \<Rightarrow> (Inr (), s)
     | Some req \<Rightarrow>
         if rr_DodoRefundID req \<noteq> None then (Inr (), s)
         else if list_ex (\<lambda>(_, other). rr_DodoRefundID other = Some refundID) (bs_refunds s) then (Inl ErrConflict, s)
         else (Inr (), s\<lparr>bs_refunds := AList.update ident
                 (req\<lparr>rr_DodoRefundID := Some refundID, rr_UpdatedAt := now\<rparr>) (bs_refunds s)\<rparr>))"

definition GetRefundRequest :: "string \<Rightarrow> RefundRequest store_op" where
  "GetRefundRequest ident = (\<lambda>s. lookup (map_of (bs_refunds s) ident) s)"

definition ActiveRefundOrders :: "billingState \<Rightarrow> string \<Rightarrow> string set" where
  "ActiveRefundOrders s tenantID =
     set (map (\<lambda>(_, r). rr_OrderID r) (filter (\<lambda>(_, r). rr_TenantID r = tenantID \<and> Active r) (bs_refunds s)))"

subsection \<open>Packages, prices and orders\<close>

definition CreateCreditPackage :: "CreditPackage \<Rightarrow> unit store_op" where
  "CreateCreditPackage pkg = (\<lambda>s.
     if map_of (bs_packages s) (cp_ID pkg) \<noteq> None then (Inl ErrConflict, s)
     else (Inr (), s\<lparr>bs_packages := AList.update (cp_ID pkg) pkg (bs_packages s)\<rparr>))"

definition UpdateCreditPackage :: "CreditPackage \<Rightarrow> unit store_op" where
  "UpdateCreditPackage pkg = (\<lambda>s. case map_of (bs_packages s) (cp_ID pkg) of
       None \<Rightarrow> (Inl ErrNotFound, s)
     | Some old \<Rightarrow> (Inr (), s\<lparr>bs_packages :=
         AList.update (cp_ID pkg) (pkg\<lparr>cp_CreatedAt := cp_CreatedAt old\<rparr>) (bs_packages s)\<rparr>))"

definition GetCreditPackage :: "string \<Rightarrow> CreditPackage store_op" where
  "GetCreditPackage ident = (\<lambda>s. lookup (map_of (bs_packages s) ident) s)"

definition package_less :: "CreditPackage \<Rightarrow> CreditPackage \<Rightarrow> bool" where
  "package_less a b \<longleftrightarrow>
     (if cp_SortOrder a \<noteq> cp_SortOrder b then cp_SortOrder a < cp_SortOrder b
      else if cp_CreatedAt a \<noteq> cp_CreatedAt b then cp_CreatedAt a < cp_CreatedAt b
      else cp_ID a < cp_ID b)"

definition ListCreditPackages :: "billingState \<Rightarrow> bool \<Rightarrow> CreditPackage list" where
  "ListCreditPackages s activeOnly =
     stable_sort package_less (filter (\<lambda>p. \<not> (activeOnly \<and> \<not> cp_Active p)) (map snd (bs_packages s)))"

definition price_less :: "ModelPrice \<Rightarrow> ModelPrice \<Rightarrow> bool" where
  "price_less a b \<longleftrightarrow> mp_Model a < mp_Model b"

definition ListModelPrices :: "billingState \<Rightarrow> ModelPrice list" where
  "ListModelPrices s = stable_sort price_less (map snd (bs_prices s))"

definition PutModelPrice :: "ModelPrice \<Rightarrow> unit store_op" where
  "PutModelPrice price = (\<lambda>s. (Inr (), s\<lparr>bs_prices := AList.update (mp_Model price) price (bs_prices s)\<rparr>))"

definition DeleteModelPrice :: "string \<Rightarrow> unit store_op" where
  "DeleteModelPrice modelAlias = (\<lambda>s.
     if map_of (bs_prices s) modelAlias = None then (Inl ErrNotFound, s)
     else (Inr (), s\<lparr>bs_prices := AList.delete modelAlias (bs_prices s)\<rparr>))"

definition CreateCheckoutOrder :: "CheckoutOrder \<Rightarrow> unit store_op" where
  "CreateCheckoutOrder order = (\<lambda>s.
     if map_of (bs_orders s) (co_ID order) \<noteq> None then (Inl ErrConflict, s)
     else (Inr (), s\<lparr>bs_orders := AList.update (co_ID order) order (bs_orders s)\<rparr>))"

definition SetCheckoutOrderSession :: "string \<Rightarrow> string \<Rightarrow> go_time \<Rightarrow> unit store_op" where
  "SetCheckoutOrderSession orderID sessionID now = (\<lambda>s. case map_of (bs_orders s) orderID of
       None \<Rightarrow> (Inl ErrNotFound, s)
     | Some order \<Rightarrow> (Inr (), s\<lparr>bs_orders :=
         AList.update orderID (order\<lparr>co_DodoSessionID := sessionID, co_UpdatedAt := now\<rparr>) (bs_orders s)\<rparr>))"


subsection \<open>Opening a tenant and pricing usage\<close>

text \<open>
  \<open>initialBilling\<close> and \<open>chargeUsage\<close> of \<open>logic/billing.go\<close>. \<open>ownedBy\<close> is the answer of
  \<open>nodeaccess.OwnerOf\<close> for a node id.
\<close>

definition initialBilling :: "bool \<Rightarrow> int \<Rightarrow> 8 word list \<Rightarrow> string \<Rightarrow> go_time
    \<Rightarrow> (TenantBilling \<times> CreditLedgerEntry option) option" where
  "initialBilling billingEnabled signupGrantCredits rnd tenantID now =
     (if \<not> billingEnabled then None
      else
        let row = \<lparr>tb_TenantID = tenantID, tb_Mode = BillingModePrepaid, tb_BalanceMicro = 0, tb_DodoCustomerID = '''',
                    tb_CreatedAt = now, tb_UpdatedAt = now\<rparr> in
        if signupGrantCredits \<le> 0 then Some (row, None)
        else Some (row, Some \<lparr>le_ID = NewID PrefixCreditLedger rnd, le_TenantID = tenantID, le_Kind = LedgerKindGrant,
               le_AmountMicro = wrap64 (signupGrantCredits * MicroPerCredit), le_BalanceAfterMicro = 0,
               le_Ref = ''signup'', le_IdempotencyKey = None, le_ActorID = '''', le_CreatedAt = now\<rparr>))"

definition zero_price :: ModelPrice where
  "zero_price = \<lparr>mp_Model = '''', mp_InputMicroPerMTok = 0, mp_OutputMicroPerMTok = 0, mp_UpdatedBy = '''', mp_UpdatedAt = 0\<rparr>"

definition price_for :: "ModelPrice list \<Rightarrow> string \<Rightarrow> ModelPrice" where
  "price_for prices model =
     (let byModel = map_of (rev (map (\<lambda>p. (mp_Model p, p)) prices)) in
      case byModel model of
        Some price \<Rightarrow> price
      | None \<Rightarrow> (case byModel DefaultPriceModel of Some price \<Rightarrow> price | None \<Rightarrow> zero_price))"

definition usage_charge :: "(string \<Rightarrow> string option) \<Rightarrow> ModelPrice list \<Rightarrow> go_time \<Rightarrow> UsageRecord \<Rightarrow> UsageCharge" where
  "usage_charge ownerOf prices now r =
     \<lparr>uc_RequestID = ur_ID r, uc_TenantID = ur_TenantID r, uc_Model = ur_Model r,
       uc_CostMicro = (if ownerOf (ur_NodeID r) = Some (ur_TenantID r) then 0
                       else Cost (price_for prices (ur_Model r)) (ur_PromptTokens r) (ur_CompletionTokens r)),
       uc_Charged = False, uc_CreatedAt = now\<rparr>"

definition chargeUsage :: "(string \<Rightarrow> string option) \<Rightarrow> (string \<Rightarrow> 8 word list) \<Rightarrow> UsageRecord list \<Rightarrow> go_time \<Rightarrow> bool store_op" where
  "chargeUsage ownerOf rnd records now = (\<lambda>s.
     ChargeUsage rnd records (map (usage_charge ownerOf (ListModelPrices s) now) records) s)"

subsection \<open>The ledger as a specification\<close>

text \<open>
  A tenant's history is the list of its entries: the balance is their sum, each entry records the sum
  up to itself, and an idempotency key occurs once.
\<close>

definition entries_sum :: "string \<Rightarrow> CreditLedgerEntry list \<Rightarrow> int" where
  "entries_sum t L = sum_list (map le_AmountMicro (filter (\<lambda>e. le_TenantID e = t) L))"

definition chain_ok :: "CreditLedgerEntry list \<Rightarrow> bool" where
  "chain_ok L \<longleftrightarrow> (\<forall>i < length L. le_BalanceAfterMicro (L ! i) = entries_sum (le_TenantID (L ! i)) (take (Suc i) L))"

definition ledger_keys :: "CreditLedgerEntry list \<Rightarrow> string list" where
  "ledger_keys L = List.map_filter le_IdempotencyKey L"

definition balance_of :: "billingState \<Rightarrow> string \<Rightarrow> int" where
  "balance_of s t = tb_BalanceMicro (tenant_row s t)"

definition ledger_ok :: "billingState \<Rightarrow> bool" where
  "ledger_ok s \<longleftrightarrow> (\<forall>t. balance_of s t = entries_sum t (bs_ledger s)) \<and> (\<forall>t. in_int64 (entries_sum t (bs_ledger s)))
     \<and> chain_ok (bs_ledger s) \<and> distinct (ledger_keys (bs_ledger s))"

text \<open>
  The tables that the code ranges over are keyed by their rows' ids, and a provider payment paid at
  most one order.
\<close>

definition keyed_by :: "('v \<Rightarrow> string) \<Rightarrow> (string \<times> 'v) list \<Rightarrow> bool" where
  "keyed_by f m \<longleftrightarrow> wf_map m \<and> (\<forall>(k, v) \<in> set m. f v = k)"

definition unique_by :: "('v \<Rightarrow> string option) \<Rightarrow> (string \<times> 'v) list \<Rightarrow> bool" where
  "unique_by f m \<longleftrightarrow> (\<forall>(k, v) \<in> set m. \<forall>(k', v') \<in> set m. f v = f v' \<and> f v \<noteq> None \<longrightarrow> k = k')"

definition tables_ok :: "billingState \<Rightarrow> bool" where
  "tables_ok s \<longleftrightarrow> keyed_by co_ID (bs_orders s) \<and> unique_by co_DodoPaymentID (bs_orders s)
     \<and> keyed_by rr_ID (bs_refunds s) \<and> unique_by rr_DodoRefundID (bs_refunds s)"

subsection \<open>Histories\<close>

text \<open>
  Every method of the store that writes, at any arguments of their Go types that the callers pass: a
  tenant is opened with the row of \<open>initialBilling\<close>, a new order has no payment yet, and a new
  refund request has an id and no provider refund.
\<close>

inductive billing_step :: "billingState \<Rightarrow> billingState \<Rightarrow> bool" where
  Init: "initialBilling en grant rnd t now = Some (row, entry)
     \<Longrightarrow> billing_step s (snd (InitTenantBilling row entry s))"
| Mode: "billing_step s (snd (SetTenantBillingMode t mode now s))"
| Customer: "billing_step s (snd (SetDodoCustomerID t customer now s))"
| Adjust: "in_int64 (le_AmountMicro entry) \<Longrightarrow> billing_step s (snd (AdjustCredit entry s))"
| Charge: "billing_step s (snd (ChargeUsage rnds records charges s))"
| Event: "billing_step s (snd (ApplyBillingEvent env event now s))"
| OpenRefund: "rr_DodoRefundID req = None \<Longrightarrow> rr_ID req \<noteq> '''' \<Longrightarrow> billing_step s (snd (OpenRefundRequest env req pol now s))"
| ApproveRefund: "billing_step s (snd (ApproveRefundRequest env ident reviewer note amount pol now s))"
| TransitionRefund: "billing_step s (snd (TransitionRefundRequest env tr now s))"
| Submitted: "billing_step s (snd (RecordRefundSubmitted ident refundID now s))"
| CreatePackage: "billing_step s (snd (CreateCreditPackage pkg s))"
| UpdatePackage: "billing_step s (snd (UpdateCreditPackage pkg s))"
| PutPrice: "billing_step s (snd (PutModelPrice price s))"
| DeletePrice: "billing_step s (snd (DeleteModelPrice alias s))"
| CreateOrder: "co_DodoPaymentID order = None \<Longrightarrow> billing_step s (snd (CreateCheckoutOrder order s))"
| OrderSession: "billing_step s (snd (SetCheckoutOrderSession orderID session now s))"

inductive billing_reach :: "billingState \<Rightarrow> bool" where
  Start: "billing_reach newBillingState"
| Step: "billing_reach s \<Longrightarrow> billing_step s s' \<Longrightarrow> billing_reach s'"


section \<open>Lemmas\<close>

subsection \<open>The ledger\<close>

lemma entries_sum_simps [simp]:
  "entries_sum t [] = 0"
  "entries_sum t (e # L) = (if le_TenantID e = t then le_AmountMicro e else 0) + entries_sum t L"
  "entries_sum t (L @ M) = entries_sum t L + entries_sum t M"
  by (simp_all add: entries_sum_def)

lemma chain_ok_snoc:
  "chain_ok (L @ [e]) \<longleftrightarrow> chain_ok L \<and> le_BalanceAfterMicro e = entries_sum (le_TenantID e) L + le_AmountMicro e"
  by (auto simp: chain_ok_def nth_append less_Suc_eq)

lemma ledger_keys_snoc:
  "ledger_keys (L @ [e]) = ledger_keys L @ (case le_IdempotencyKey e of None \<Rightarrow> [] | Some k \<Rightarrow> [k])"
  by (simp add: ledger_keys_def map_filter_def split: option.splits)

lemma ledgerByKey_None: "ledgerByKey s key = None \<longleftrightarrow> key \<notin> set (ledger_keys (bs_ledger s))"
  by (auto simp: ledgerByKey_def find_None_iff ledger_keys_def map_filter_def image_iff)

lemma tenant_row_balance: "tb_BalanceMicro (billingRow s t now) = balance_of s t"
  by (simp add: billingRow_def balance_of_def tenant_row_def split: option.splits)

lemma balance_of_update [simp]:
  "balance_of (s\<lparr>bs_tenants := (bs_tenants s)(t \<mapsto> row)\<rparr>) u = (if u = t then tb_BalanceMicro row else balance_of s u)"
  "balance_of (s\<lparr>bs_tenants := (bs_tenants s)(t \<mapsto> row), bs_ledger := L\<rparr>) u = (if u = t then tb_BalanceMicro row else balance_of s u)"
  by (simp_all add: balance_of_def tenant_row_def)

lemma ledger_ok_sum: "ledger_ok s \<Longrightarrow> balance_of s t = entries_sum t (bs_ledger s)"
  and ledger_ok_range: "ledger_ok s \<Longrightarrow> in_int64 (balance_of s t)"
  by (simp_all add: ledger_ok_def)

lemma ledger_ok_post:
  assumes "ledger_ok s" and "in_int64 (balance_of s (le_TenantID e) + le_AmountMicro e)"
    and "tb_BalanceMicro row = balance_of s (le_TenantID e) + le_AmountMicro e"
    and "le_BalanceAfterMicro e = tb_BalanceMicro row"
    and "\<And>k. le_IdempotencyKey e = Some k \<Longrightarrow> k \<notin> set (ledger_keys (bs_ledger s))"
  shows "ledger_ok (s\<lparr>bs_tenants := (bs_tenants s)(le_TenantID e \<mapsto> row), bs_ledger := bs_ledger s @ [e]\<rparr>)"
  using assms unfolding ledger_ok_def
  by (auto simp: chain_ok_snoc ledger_keys_snoc split: option.splits)

lemma ledger_ok_simps [simp]:
  "ledger_ok (s\<lparr>bs_packages := x_packages\<rparr>) = ledger_ok s"
  "ledger_ok (s\<lparr>bs_prices := x_prices\<rparr>) = ledger_ok s"
  "ledger_ok (s\<lparr>bs_orders := x_orders\<rparr>) = ledger_ok s"
  "ledger_ok (s\<lparr>bs_charges := x_charges\<rparr>) = ledger_ok s"
  "ledger_ok (s\<lparr>bs_webhooks := x_webhooks\<rparr>) = ledger_ok s"
  "ledger_ok (s\<lparr>bs_refunds := x_refunds\<rparr>) = ledger_ok s"
  "ledger_ok (s\<lparr>bs_usageRecords := x_usageRecords\<rparr>) = ledger_ok s"
  by (simp_all add: ledger_ok_def balance_of_def tenant_row_def)

text \<open>The overflow guards of the store are exact: an entry is posted when its sum is an \<open>int64\<close>.\<close>

lemma credit_guard:
  assumes "in_int64 a" and "in_int64 b"
  shows "(0 < a \<and> wrap64 (max_int64 - a) < b) \<or> (a < 0 \<and> b < wrap64 (min_int64 - a)) \<longleftrightarrow> \<not> in_int64 (b + a)"
proof -
  have "0 < a \<Longrightarrow> wrap64 (max_int64 - a) = max_int64 - a"
    and "a < 0 \<Longrightarrow> wrap64 (min_int64 - a) = min_int64 - a"
    using assms(1) by (auto intro!: wrap64_id simp: in_int64_def min_int64_def max_int64_def)
  then show ?thesis using assms by (auto simp: in_int64_def)
qed

lemma applyCredit_cases:
  assumes "ledger_ok s" and "in_int64 (le_AmountMicro e)"
  obtains
    (duplicate) k where "le_IdempotencyKey e = Some k" "k \<in> set (ledger_keys (bs_ledger s))"
      "applyCredit e s = (Inr (e, False, True), s)"
  | (overflow) "\<not> in_int64 (balance_of s (le_TenantID e) + le_AmountMicro e)"
      "applyCredit e s = (Inl errBalanceOverflow, s)"
  | (posted) row row' where "row = billingRow s (le_TenantID e) (le_CreatedAt e)"
      "row' = row\<lparr>tb_BalanceMicro := balance_of s (le_TenantID e) + le_AmountMicro e, tb_UpdatedAt := le_CreatedAt e\<rparr>"
      "in_int64 (balance_of s (le_TenantID e) + le_AmountMicro e)"
      "\<And>k. le_IdempotencyKey e = Some k \<Longrightarrow> k \<notin> set (ledger_keys (bs_ledger s))"
      "applyCredit e s = (Inr (e\<lparr>le_BalanceAfterMicro := tb_BalanceMicro row'\<rparr>, Blocked row \<noteq> Blocked row', False),
         s\<lparr>bs_tenants := (bs_tenants s)(le_TenantID e \<mapsto> row'),
           bs_ledger := bs_ledger s @ [e\<lparr>le_BalanceAfterMicro := tb_BalanceMicro row'\<rparr>]\<rparr>)"
proof -
  have dup: "(case le_IdempotencyKey e of Some key \<Rightarrow> ledgerByKey s key \<noteq> None | None \<Rightarrow> False)
      \<longleftrightarrow> (\<exists>k. le_IdempotencyKey e = Some k \<and> k \<in> set (ledger_keys (bs_ledger s)))"
    by (simp add: ledgerByKey_None del: not_None_eq split: option.splits)
  have guard: "(0 < le_AmountMicro e \<and> wrap64 (max_int64 - le_AmountMicro e) < balance_of s (le_TenantID e))
      \<or> (le_AmountMicro e < 0 \<and> balance_of s (le_TenantID e) < wrap64 (min_int64 - le_AmountMicro e))
      \<longleftrightarrow> \<not> in_int64 (balance_of s (le_TenantID e) + le_AmountMicro e)"
    using assms by (intro credit_guard) (simp_all add: ledger_ok_range)
  consider (d) "\<exists>k. le_IdempotencyKey e = Some k \<and> k \<in> set (ledger_keys (bs_ledger s))"
    | (o) "\<not> (\<exists>k. le_IdempotencyKey e = Some k \<and> k \<in> set (ledger_keys (bs_ledger s)))"
        "\<not> in_int64 (balance_of s (le_TenantID e) + le_AmountMicro e)"
    | (p) "\<not> (\<exists>k. le_IdempotencyKey e = Some k \<and> k \<in> set (ledger_keys (bs_ledger s)))"
        "in_int64 (balance_of s (le_TenantID e) + le_AmountMicro e)" by blast
  then show thesis
  proof cases
    case d
    then have "applyCredit e s = (Inr (e, False, True), s)" unfolding applyCredit_def dup by simp
    then show thesis using duplicate d by blast
  next
    case o
    then have "applyCredit e s = (Inl errBalanceOverflow, s)"
      unfolding applyCredit_def Let_def dup tenant_row_balance guard by simp
    then show thesis using overflow o by blast
  next
    case p
    then show thesis
      using posted [OF refl refl] unfolding applyCredit_def Let_def dup tenant_row_balance guard
      by (auto simp: wrap64_id)
  qed
qed

lemma applyCredit_ledger_ok:
  assumes "ledger_ok s" and "in_int64 (le_AmountMicro e)"
  shows "ledger_ok (snd (applyCredit e s))"
  using assms
proof (cases rule: applyCredit_cases)
  case (posted row row')
  have "ledger_ok (s\<lparr>bs_tenants := (bs_tenants s)(le_TenantID (e\<lparr>le_BalanceAfterMicro := tb_BalanceMicro row'\<rparr>) \<mapsto> row'),
      bs_ledger := bs_ledger s @ [e\<lparr>le_BalanceAfterMicro := tb_BalanceMicro row'\<rparr>]\<rparr>)"
    using assms(1) posted by (intro ledger_ok_post) auto
  then show ?thesis using posted(5) by simp
qed (use assms in simp_all)


subsection \<open>The tables\<close>

lemma keyed_by_update: "keyed_by f m \<Longrightarrow> keyed_by f (AList.update (f v) v m)"
  using set_update_subset [of "f v" v m] by (auto simp: keyed_by_def)

lemma set_update_other: "wf_map m \<Longrightarrow> (k', v') \<in> set (AList.update k v m) \<Longrightarrow> (k', v') = (k, v) \<or> (k', v') \<in> set m \<and> k' \<noteq> k"
  by (metis fun_upd_apply map_of_mem map_of_update option.inject wf_map_update)

lemma unique_byD:
  "unique_by f m \<Longrightarrow> (k, v) \<in> set m \<Longrightarrow> (k', v') \<in> set m \<Longrightarrow> f v = Some y \<Longrightarrow> f v' = Some y \<Longrightarrow> k = k'"
  unfolding unique_by_def by fastforce

lemma unique_by_update:
  assumes "wf_map m" and "unique_by f m"
    and "f v = None \<or> (\<forall>(k', v') \<in> set m. k' \<noteq> k \<longrightarrow> f v' \<noteq> f v)"
  shows "unique_by f (AList.update k v m)"
  unfolding unique_by_def
proof (clarify)
  fix k1 v1 k2 v2 y
  assume in1: "(k1, v1) \<in> set (AList.update k v m)" and in2: "(k2, v2) \<in> set (AList.update k v m)"
    and eq: "f v1 = f v2" and some: "f v1 = Some y"
  from set_update_other [OF assms(1) in1] set_update_other [OF assms(1) in2]
  show "k1 = k2"
  proof (elim disjE conjE)
    assume "(k1, v1) \<in> set m" "(k2, v2) \<in> set m"
    with assms(2) eq some show ?thesis by (metis unique_byD)
  qed (use assms(3) eq some in fastforce)+
qed

lemma unique_by_same:
  assumes "wf_map m" and "unique_by f m" and "map_of m k = Some v" and "f v' = f v"
  shows "unique_by f (AList.update k v' m)"
proof (rule unique_by_update [OF assms(1,2)])
  have mem: "(k, v) \<in> set m" using assms(1,3) by (simp add: map_of_mem)
  show "f v' = None \<or> (\<forall>(k', v'') \<in> set m. k' \<noteq> k \<longrightarrow> f v'' \<noteq> f v')"
  proof (cases "f v")
    case (Some y)
    have "f v'' \<noteq> f v'" if "(k', v'') \<in> set m" and "k' \<noteq> k" for k' v''
      using unique_byD [OF assms(2) mem that(1) Some] that(2) assms(4) Some by auto
    then show ?thesis by blast
  qed (simp add: assms(4))
qed

lemma tables_okD:
  assumes "tables_ok s"
  shows "wf_map (bs_orders s)" and "wf_map (bs_refunds s)"
    and "map_of (bs_orders s) k = Some order \<Longrightarrow> co_ID order = k"
    and "map_of (bs_refunds s) k = Some req \<Longrightarrow> rr_ID req = k"
  using assms by (auto simp: tables_ok_def keyed_by_def dest: map_of_SomeD)

lemma tables_ok_order:
  assumes "tables_ok s"
    and "co_DodoPaymentID order = None \<or>
      (\<forall>(k, other) \<in> set (bs_orders s). k \<noteq> co_ID order \<longrightarrow> co_DodoPaymentID other \<noteq> co_DodoPaymentID order)"
  shows "tables_ok (s\<lparr>bs_orders := AList.update (co_ID order) order (bs_orders s)\<rparr>)"
  using assms tables_okD [OF assms(1)] unfolding tables_ok_def
  by (simp add: keyed_by_update unique_by_update)

lemma tables_ok_refund:
  assumes "tables_ok s"
    and "rr_DodoRefundID req = None \<or>
      (\<forall>(k, other) \<in> set (bs_refunds s). k \<noteq> rr_ID req \<longrightarrow> rr_DodoRefundID other \<noteq> rr_DodoRefundID req)"
  shows "tables_ok (s\<lparr>bs_refunds := AList.update (rr_ID req) req (bs_refunds s)\<rparr>)"
  using assms tables_okD [OF assms(1)] unfolding tables_ok_def
  by (simp add: keyed_by_update unique_by_update)

lemma tables_ok_simps [simp]:
  "tables_ok (s\<lparr>bs_tenants := x_tenants\<rparr>) = tables_ok s"
  "tables_ok (s\<lparr>bs_ledger := x_ledger\<rparr>) = tables_ok s"
  "tables_ok (s\<lparr>bs_packages := x_packages\<rparr>) = tables_ok s"
  "tables_ok (s\<lparr>bs_prices := x_prices\<rparr>) = tables_ok s"
  "tables_ok (s\<lparr>bs_charges := x_charges\<rparr>) = tables_ok s"
  "tables_ok (s\<lparr>bs_webhooks := x_webhooks\<rparr>) = tables_ok s"
  "tables_ok (s\<lparr>bs_usageRecords := x_usageRecords\<rparr>) = tables_ok s"
  by (simp_all add: tables_ok_def)

subsection \<open>memLedger keeps the promises of the interface\<close>

text \<open>What an event can touch: it only appends to the ledger and leaves the other tables alone.\<close>

definition event_frame :: "billingState \<Rightarrow> billingState \<Rightarrow> bool" where
  "event_frame s s' \<longleftrightarrow> (\<exists>L. bs_ledger s' = bs_ledger s @ L) \<and> bs_packages s' = bs_packages s
     \<and> bs_prices s' = bs_prices s \<and> bs_charges s' = bs_charges s \<and> bs_webhooks s' = bs_webhooks s
     \<and> bs_usageRecords s' = bs_usageRecords s"

lemma event_frame_simps:
  "event_frame s s" "event_frame s (s\<lparr>bs_orders := ords\<rparr>)" "event_frame s (s\<lparr>bs_refunds := refs\<rparr>)"
  by (simp_all add: event_frame_def)

lemma memLedger_simps [simp]:
  "OrderByID memLedger = memOrderByID" "OrderByPayment memLedger = memOrderByPayment"
  "SaveOrder memLedger = memSaveOrder" "Credit memLedger = memCredit" "LedgerAmount memLedger = memLedgerAmount"
  "TenantBillingRow memLedger = memTenantBilling" "RefundRequestOrderID memLedger = memRefundRequestOrderID"
  "RefundRequestByID memLedger = memRefundRequestByID" "RefundRequestByRefund memLedger = memRefundRequestByRefund"
  "OrderHasActiveRefund memLedger = memOrderHasActiveRefund" "InsertRefundRequest memLedger = memInsertRefundRequest"
  "SaveRefundRequest memLedger = memSaveRefundRequest"
  by (simp_all add: memLedger_def)

lemma snd_lookup [simp]: "snd (lookup found s) = s"
  by (simp add: lookup_def returnE_def throwE_def split: option.splits)

lemma snd_memCredit: "snd (memCredit e s) = snd (applyCredit e s)"
  by (simp add: memCredit_def op_defs split: prod.splits sum.splits)

lemma snd_AdjustCredit: "snd (AdjustCredit e s) = snd (applyCredit e s)"
  by (simp add: AdjustCredit_def op_defs split: prod.splits sum.splits)

lemma mem_reads:
  "snd (memOrderByID i s) = s" "snd (memOrderByPayment i s) = s" "snd (memLedgerAmount i s) = s"
  "snd (memTenantBilling i now s) = s" "snd (memRefundRequestOrderID i s) = s" "snd (memRefundRequestByID i s) = s"
  "snd (memRefundRequestByRefund i s) = s" "snd (memOrderHasActiveRefund i j s) = s"
  by (simp_all add: memOrderByID_def memOrderByPayment_def memLedgerAmount_def memTenantBilling_def
      memRefundRequestOrderID_def memRefundRequestByID_def memRefundRequestByRefund_def memOrderHasActiveRefund_def
      split: option.splits)

lemmas mem_writes = memSaveOrder_def memInsertRefundRequest_def memSaveRefundRequest_def

interpretation posting: billing_tx "\<lambda>s s'. ledger_ok s \<longrightarrow> ledger_ok s'" memLedger
  by unfold_locales
    (auto simp: keeps_def mem_reads snd_memCredit mem_writes applyCredit_ledger_ok)

lemma applyCredit_frame:
  "event_frame s (snd (applyCredit e s))"
  "bs_orders (snd (applyCredit e s)) = bs_orders s" "bs_refunds (snd (applyCredit e s)) = bs_refunds s"
  by (simp_all add: event_frame_def applyCredit_def Let_def split: option.splits)

interpretation frame: billing_tx event_frame memLedger
proof unfold_locales
  show "event_frame s u" if "event_frame s t" and "event_frame t u" for s t u
    using that unfolding event_frame_def by auto
qed (auto simp: keeps_def mem_reads snd_memCredit mem_writes applyCredit_frame event_frame_simps)

lemma memSaveOrder_tables: "tables_ok s \<Longrightarrow> tables_ok (snd (memSaveOrder order s))"
  by (auto simp: memSaveOrder_def list_ex_iff intro!: tables_ok_order split: prod.splits)

lemma memSaveRefund_tables: "tables_ok s \<Longrightarrow> tables_ok (snd (memSaveRefundRequest req s))"
  by (auto simp: memSaveRefundRequest_def list_ex_iff intro!: tables_ok_refund split: prod.splits)


lemma memInsertRefund_tables:
  "tables_ok s \<Longrightarrow> rr_DodoRefundID req = None \<Longrightarrow> tables_ok (snd (memInsertRefundRequest req s))"
  by (auto simp: memInsertRefundRequest_def intro!: tables_ok_refund)

lemma applyCredit_tables: "tables_ok (snd (applyCredit e s)) = tables_ok s"
  by (simp add: tables_ok_def applyCredit_frame)

interpretation keyed: billing_tx "\<lambda>s s'. tables_ok s \<longrightarrow> tables_ok s'" memLedger
  by unfold_locales
    (auto simp: keeps_def mem_reads snd_memCredit applyCredit_tables memSaveOrder_tables memSaveRefund_tables
      memInsertRefund_tables)

subsection \<open>Rollback\<close>

lemma restoreBilling_frame: "event_frame s s' \<Longrightarrow> restoreBilling s s' = s"
  by (auto simp: event_frame_def restoreBilling_def)

lemma with_rollback_failed:
  assumes "keeps event_frame m" and "with_rollback m s = (Inl e, s')"
  shows "s' = s"
proof -
  obtain s1 where "m s = (Inl e, s1)" and "s' = restoreBilling s s1"
    using assms(2) by (auto simp: with_rollback_def split: prod.splits sum.splits)
  then show ?thesis using keepsD [OF assms(1)] restoreBilling_frame by simp
qed

lemma with_rollback_keeps:
  assumes "keeps event_frame m" and "keeps R m" and "R s s"
  shows "R s (snd (with_rollback m s))"
proof (cases "m s")
  case (Pair r s1)
  then show ?thesis
    using keepsD [OF assms(1) Pair] keepsD [OF assms(2) Pair] assms(3)
    by (auto simp: with_rollback_def restoreBilling_frame split: sum.splits)
qed

lemma ApplyBillingEvent_failed:
  "ApplyBillingEvent env event now s = (Inl e, s') \<Longrightarrow> s' = s"
  using with_rollback_failed [OF frame.ApplyBillingEventRules]
  by (auto simp: ApplyBillingEvent_def split: if_splits prod.splits sum.splits)

subsection \<open>Usage charges\<close>

definition acc_ok :: "charge_acc \<Rightarrow> bool" where
  "acc_ok acc \<longleftrightarrow> distinct (ca_order acc) \<and> set (ca_order acc) = dom (ca_debit acc)
     \<and> (\<forall>t. 0 \<le> debit_of acc t \<and> debit_of acc t \<le> max_int64)"

text \<open>
  What a batch costs a tenant: each request once, unless it was charged before or the tenant is not
  prepaid.
\<close>

fun fresh_cost :: "billingState \<Rightarrow> string set \<Rightarrow> UsageCharge list \<Rightarrow> string \<Rightarrow> int" where
  "fresh_cost s seen [] t = 0"
| "fresh_cost s seen (c # cs) t =
     (if bs_charges s (uc_RequestID c) \<noteq> None \<or> uc_RequestID c \<in> seen then fresh_cost s seen cs t
      else (if uc_TenantID c = t \<and> tb_Mode (tenant_row s t) = BillingModePrepaid \<and> 0 < uc_CostMicro c
            then uc_CostMicro c else 0)
        + fresh_cost s (insert (uc_RequestID c) seen) cs t)"

lemma debit_of_simps [simp]:
  "debit_of (acc\<lparr>ca_seen := x\<rparr>) t = debit_of acc t" "debit_of (acc\<lparr>ca_fresh := y\<rparr>) t = debit_of acc t"
  "debit_of (acc\<lparr>ca_order := z\<rparr>) t = debit_of acc t" "debit_of (acc\<lparr>ca_count := w\<rparr>) t = debit_of acc t"
  "debit_of (acc\<lparr>ca_debit := (ca_debit old)(u \<mapsto> d)\<rparr>) t = (if t = u then d else debit_of old t)"
  by (simp_all add: debit_of_def)

lemma tenant_prepaid:
  "(case bs_tenants s t of Some b \<Rightarrow> tb_Mode b = BillingModePrepaid \<and> P | None \<Rightarrow> False)
     \<longleftrightarrow> tb_Mode (tenant_row s t) = BillingModePrepaid \<and> P"
  by (simp add: tenant_row_def split: option.splits)

lemma price_charge_ok:
  assumes "price_charge s c acc = Some acc'" and "acc_ok acc"
  shows "acc_ok acc'"
  using assms
  by (auto simp: price_charge_def Let_def tenant_prepaid acc_ok_def split: if_splits)

lemma price_charge_debit:
  assumes "price_charge s c acc = Some acc'"
  shows "debit_of acc' t + fresh_cost s (ca_seen acc') cs t = debit_of acc t + fresh_cost s (ca_seen acc) (c # cs) t"
  using assms
  by (auto simp: price_charge_def Let_def tenant_prepaid split: if_splits)

lemma price_charges_ok:
  "price_charges s cs acc = Some acc' \<Longrightarrow> acc_ok acc \<Longrightarrow> acc_ok acc'"
  by (induction cs arbitrary: acc) (auto split: option.splits dest: price_charge_ok)

lemma price_charges_debit:
  "price_charges s cs acc = Some acc' \<Longrightarrow> debit_of acc' t = debit_of acc t + fresh_cost s (ca_seen acc) cs t"
proof (induction cs arbitrary: acc)
  case (Cons c cs)
  then obtain acc1 where "price_charge s c acc = Some acc1" and "price_charges s cs acc1 = Some acc'"
    by (auto split: option.splits)
  with Cons.IH price_charge_debit show ?case by metis
qed simp

lemma acc_ok_empty: "acc_ok empty_acc" and debit_of_empty [simp]: "debit_of empty_acc t = 0"
  by (simp_all add: acc_ok_def empty_acc_def debit_of_def max_int64_def)

lemma tenant_row_balance_of [simp]: "tb_BalanceMicro (tenant_row s t) = balance_of s t"
  by (simp add: balance_of_def)

lemma debit_tenant_balance:
  "in_int64 (balance_of s t - debit_of acc t) \<Longrightarrow> balance_of (snd (debit_tenant rnd acc now t s)) u =
    (if u = t then balance_of s t - debit_of acc t else balance_of s u)"
  by (simp add: debit_tenant_def Let_def wrap64_id)

lemma debit_tenant_ledger_ok:
  assumes "ledger_ok s" and "in_int64 (balance_of s t - debit_of acc t)"
  shows "ledger_ok (snd (debit_tenant rnd acc now t s))"
proof -
  define e where "e = \<lparr>le_ID = NewID PrefixCreditLedger (rnd t), le_TenantID = t,
      le_Kind = LedgerKindUsage, le_AmountMicro = - debit_of acc t, le_BalanceAfterMicro = balance_of s t - debit_of acc t,
      le_Ref = requestsRef (ca_count acc t), le_IdempotencyKey = None, le_ActorID = '''', le_CreatedAt = now\<rparr>"
  define row where "row = (tenant_row s t)\<lparr>tb_BalanceMicro := balance_of s t - debit_of acc t, tb_UpdatedAt := now\<rparr>"
  have "ledger_ok (s\<lparr>bs_tenants := (bs_tenants s)(le_TenantID e \<mapsto> row), bs_ledger := bs_ledger s @ [e]\<rparr>)"
    using assms by (intro ledger_ok_post) (auto simp: e_def row_def)
  then show ?thesis using assms(2) by (simp add: debit_tenant_def Let_def wrap64_id e_def row_def)
qed

lemma debit_tenants_Cons:
  "snd (debit_tenants rnd acc now (t # ts) (c, s))
     = snd (debit_tenants rnd acc now ts (c \<or> fst (debit_tenant rnd acc now t s), snd (debit_tenant rnd acc now t s)))"
  by (simp add: case_prod_beta)

lemma debit_tenants_ok:
  assumes "ledger_ok s" and "distinct ts" and "\<forall>t \<in> set ts. in_int64 (balance_of s t - debit_of acc t)"
  shows "ledger_ok (snd (debit_tenants rnd acc now ts (c, s)))
    \<and> balance_of (snd (debit_tenants rnd acc now ts (c, s))) u
      = (if u \<in> set ts then balance_of s u - debit_of acc u else balance_of s u)"
  using assms
proof (induction ts arbitrary: s c)
  case (Cons t ts)
  let ?s = "snd (debit_tenant rnd acc now t s)"
  have "ledger_ok ?s" using Cons.prems by (intro debit_tenant_ledger_ok) auto
  moreover have "\<forall>t' \<in> set ts. in_int64 (balance_of ?s t' - debit_of acc t')"
    using Cons.prems by (auto simp: debit_tenant_balance)
  ultimately have "ledger_ok (snd (debit_tenants rnd acc now ts (c', ?s)))
      \<and> balance_of (snd (debit_tenants rnd acc now ts (c', ?s))) u
        = (if u \<in> set ts then balance_of ?s u - debit_of acc u else balance_of ?s u)" for c'
    using Cons.prems by (intro Cons.IH) auto
  then show ?case
    using Cons.prems unfolding debit_tenants_Cons by (auto simp: debit_tenant_balance)
qed simp

lemma debit_tenants_frame:
  "bs_charges (snd (debit_tenants rnd acc now ts (c, s))) = bs_charges s
   \<and> bs_orders (snd (debit_tenants rnd acc now ts (c, s))) = bs_orders s
   \<and> bs_refunds (snd (debit_tenants rnd acc now ts (c, s))) = bs_refunds s"
proof (induction ts arbitrary: s c)
  case (Cons t ts)
  then show ?case unfolding debit_tenants_Cons by (simp add: debit_tenant_def Let_def)
qed simp

text \<open>A batch that is charged: the accumulated debits, all of which fit.\<close>

lemma ChargeUsage_cases:
  assumes "ledger_ok s" and "ChargeUsage rnd records charges s = (r, s')"
  obtains (failed) "r = Inl errBalanceOverflow" "s' = s"
  | (charged) acc charges' now s1 where "price_charges s charges empty_acc = Some acc" "acc_ok acc"
      "write_charges (ca_fresh acc) (bs_charges s, 0) = (charges', now)"
      "s1 = s\<lparr>bs_usageRecords := add_usage_records records (bs_usageRecords s), bs_charges := charges'\<rparr>"
      "\<And>t. t \<in> set (ca_order acc) \<Longrightarrow> in_int64 (balance_of s t - debit_of acc t)"
      "r = Inr (fst (debit_tenants rnd acc now (ca_order acc) (False, s1)))" "s' = snd (debit_tenants rnd acc now (ca_order acc) (False, s1))"
proof (cases "price_charges s charges empty_acc")
  case None
  then show thesis using assms(2) failed by (simp add: ChargeUsage_def)
next
  case (Some acc)
  have ok: "acc_ok acc" using price_charges_ok [OF Some acc_ok_empty] .
  show thesis
  proof (cases "list_ex (\<lambda>t. balance_of s t < min_int64 + debit_of acc t) (ca_order acc)")
    case True
    then show thesis using assms(2) failed Some by (simp add: ChargeUsage_def)
  next
    case False
    have "in_int64 (balance_of s t - debit_of acc t)" if "t \<in> set (ca_order acc)" for t
    proof -
      have "min_int64 \<le> balance_of s t - debit_of acc t" using False that by (force simp: list_ex_iff)
      moreover have "balance_of s t \<le> max_int64" and "0 \<le> debit_of acc t"
        using ledger_ok_range [OF assms(1)] ok by (auto simp: in_int64_def acc_ok_def)
      ultimately show ?thesis by (simp add: in_int64_def)
    qed
    then show thesis
      using assms(2) charged [OF Some ok _ refl] Some False
      by (auto simp: ChargeUsage_def split: prod.splits)
  qed
qed


lemma price_charge_seen:
  assumes "price_charge s c acc = Some acc'" and "ca_seen acc = uc_RequestID ` set (ca_fresh acc)"
  shows "ca_seen acc' = uc_RequestID ` set (ca_fresh acc')" and "ca_seen acc \<subseteq> ca_seen acc'"
    and "bs_charges s (uc_RequestID c) \<noteq> None \<or> uc_RequestID c \<in> ca_seen acc'"
  using assms by (auto simp: price_charge_def Let_def split: if_splits)

lemma price_charges_seen:
  assumes "price_charges s cs acc = Some acc'" and "ca_seen acc = uc_RequestID ` set (ca_fresh acc)"
  shows "ca_seen acc' = uc_RequestID ` set (ca_fresh acc') \<and> ca_seen acc \<subseteq> ca_seen acc'
    \<and> (\<forall>c \<in> set cs. bs_charges s (uc_RequestID c) \<noteq> None \<or> uc_RequestID c \<in> ca_seen acc')"
  using assms
proof (induction cs arbitrary: acc)
  case (Cons c cs)
  then obtain acc1 where one: "price_charge s c acc = Some acc1" and rest: "price_charges s cs acc1 = Some acc'"
    by (auto split: option.splits)
  show ?case
    using Cons.IH [OF rest] price_charge_seen [OF one Cons.prems(2)]
    by (metis (no_types, lifting) order_trans set_ConsD subsetD)
qed simp

lemma write_charges_dom:
  "dom (fst (write_charges cs (m, now))) = dom m \<union> uc_RequestID ` set cs"
  by (induction cs arbitrary: m now) auto

lemma price_charges_done:
  "\<forall>c \<in> set cs. bs_charges s (uc_RequestID c) \<noteq> None \<Longrightarrow> price_charges s cs acc = Some acc"
  by (induction cs) (auto simp: price_charge_def)

lemma ChargeUsage_ok:
  assumes "ledger_ok s" and "ChargeUsage rnd records charges s = (Inr changed, s')"
  shows "ledger_ok s'" and "balance_of s' t = balance_of s t - fresh_cost s {} charges t"
    and "c \<in> set charges \<Longrightarrow> bs_charges s' (uc_RequestID c) \<noteq> None"
    and "bs_orders s' = bs_orders s" and "bs_refunds s' = bs_refunds s"
proof -
  from assms obtain acc charges' now s1 where p: "price_charges s charges empty_acc = Some acc" and ok: "acc_ok acc"
    and w: "write_charges (ca_fresh acc) (bs_charges s, 0) = (charges', now)"
    and s1: "s1 = s\<lparr>bs_usageRecords := add_usage_records records (bs_usageRecords s), bs_charges := charges'\<rparr>"
    and fits: "\<And>t. t \<in> set (ca_order acc) \<Longrightarrow> in_int64 (balance_of s t - debit_of acc t)"
    and s': "s' = snd (debit_tenants rnd acc now (ca_order acc) (False, s1))"
    by (cases rule: ChargeUsage_cases) auto
  have bal: "balance_of s1 u = balance_of s u" for u by (simp add: s1 balance_of_def tenant_row_def)
  have "ledger_ok s1" using assms(1) by (simp add: s1)
  then have main: "ledger_ok s' \<and> balance_of s' t
      = (if t \<in> set (ca_order acc) then balance_of s1 t - debit_of acc t else balance_of s1 t)"
    unfolding s' using ok fits by (intro debit_tenants_ok) (auto simp: acc_ok_def bal)
  moreover have "debit_of acc t = 0" if "t \<notin> set (ca_order acc)"
    using ok that by (auto simp: acc_ok_def debit_of_def split: option.splits)
  moreover have "debit_of acc t = fresh_cost s {} charges t"
    using price_charges_debit [OF p] by (simp add: empty_acc_def debit_of_def)
  ultimately show "ledger_ok s'" and "balance_of s' t = balance_of s t - fresh_cost s {} charges t"
    by (auto simp: bal split: if_splits)
  show "bs_orders s' = bs_orders s" and "bs_refunds s' = bs_refunds s"
    unfolding s' by (simp_all add: debit_tenants_frame s1)
  assume c: "c \<in> set charges"
  have "bs_charges s (uc_RequestID c) \<noteq> None \<or> uc_RequestID c \<in> uc_RequestID ` set (ca_fresh acc)"
    using price_charges_seen [OF p] c by (auto simp: empty_acc_def)
  then have "uc_RequestID c \<in> dom charges'"
    using write_charges_dom [of "ca_fresh acc" "bs_charges s" 0] w by auto
  then show "bs_charges s' (uc_RequestID c) \<noteq> None"
    unfolding s' by (auto simp: debit_tenants_frame s1)
qed

lemma ChargeUsage_ledger_ok: "ledger_ok s \<Longrightarrow> ledger_ok (snd (ChargeUsage rnd records charges s))"
  using ChargeUsage_ok(1) ChargeUsage_cases
  by (cases "ChargeUsage rnd records charges s") (metis snd_conv sum.exhaust)

subsection \<open>Every history keeps the books\<close>

lemma InitTenantBilling_ok:
  assumes "ledger_ok s" and "initialBilling en grant rnd t now = Some (row, entry)"
  shows "ledger_ok (snd (InitTenantBilling row entry s))"
proof (cases "bs_tenants s (tb_TenantID row)")
  case None
  have row: "tb_TenantID row = t" "tb_BalanceMicro row = 0"
    and entry: "\<And>e. entry = Some e \<Longrightarrow> le_TenantID e = t \<and> in_int64 (le_AmountMicro e) \<and> le_IdempotencyKey e = None"
    using assms(2) by (auto simp: initialBilling_def Let_def split: if_splits)
  have zero: "balance_of s t = 0" using None row by (simp add: balance_of_def tenant_row_def)
  show ?thesis
  proof (cases entry)
    case None': None
    have "ledger_ok (s\<lparr>bs_tenants := (bs_tenants s)(t \<mapsto> row)\<rparr>)"
      using assms(1) zero row(2) unfolding ledger_ok_def by auto
    then show ?thesis using None None' row by (simp add: InitTenantBilling_def)
  next
    case (Some e)
    let ?e = "e\<lparr>le_BalanceAfterMicro := le_AmountMicro e\<rparr>"
    have "ledger_ok (s\<lparr>bs_tenants := (bs_tenants s)(le_TenantID ?e \<mapsto> row\<lparr>tb_BalanceMicro := le_AmountMicro e\<rparr>),
        bs_ledger := bs_ledger s @ [?e]\<rparr>)"
      using assms(1) entry [OF Some] zero by (intro ledger_ok_post) auto
    then show ?thesis using None Some row entry [OF Some] by (simp add: InitTenantBilling_def)
  qed
qed (use assms in \<open>simp add: InitTenantBilling_def\<close>)

lemma ledger_ok_same_balance:
  assumes "ledger_ok s" and "tb_BalanceMicro row = balance_of s t"
  shows "ledger_ok (s\<lparr>bs_tenants := (bs_tenants s)(t \<mapsto> row)\<rparr>)"
  using assms unfolding ledger_ok_def by auto

lemma event_keeps:
  assumes "keeps R (ApplyBillingEventRules env memLedger event now)" and "R s s"
    and "\<And>s1 m. R s s1 \<Longrightarrow> R s (s1\<lparr>bs_webhooks := m\<rparr>)"
  shows "R s (snd (ApplyBillingEvent env event now s))"
  using with_rollback_keeps [OF frame.ApplyBillingEventRules assms(1,2)] assms(2,3)
  by (auto simp: ApplyBillingEvent_def split: prod.splits sum.splits)


lemma event_ledger_ok: "ledger_ok s \<Longrightarrow> ledger_ok (snd (ApplyBillingEvent env event now s))"
  using event_keeps [OF posting.ApplyBillingEventRules, where s = s] by simp

lemma event_tables_ok: "tables_ok s \<Longrightarrow> tables_ok (snd (ApplyBillingEvent env event now s))"
  using event_keeps [OF keyed.ApplyBillingEventRules, where s = s] by simp

lemma refund_ledger_ok:
  assumes "ledger_ok s"
  shows "rr_DodoRefundID req = None \<Longrightarrow> ledger_ok (snd (OpenRefundRequest env req pol now s))"
    and "ledger_ok (snd (ApproveRefundRequest env ident reviewer note amount pol now s))"
    and "ledger_ok (snd (TransitionRefundRequest env tr now s))"
  unfolding OpenRefundRequest_def ApproveRefundRequest_def TransitionRefundRequest_def
  using assms
    with_rollback_keeps [OF frame.OpenRefundRules posting.OpenRefundRules]
    with_rollback_keeps [OF frame.ApproveRefundRules posting.ApproveRefundRules]
    with_rollback_keeps [OF frame.TransitionRefundRules posting.TransitionRefundRules] by blast+

lemma refund_tables_ok:
  assumes "tables_ok s"
  shows "rr_DodoRefundID req = None \<Longrightarrow> tables_ok (snd (OpenRefundRequest env req pol now s))"
    and "tables_ok (snd (ApproveRefundRequest env ident reviewer note amount pol now s))"
    and "tables_ok (snd (TransitionRefundRequest env tr now s))"
  unfolding OpenRefundRequest_def ApproveRefundRequest_def TransitionRefundRequest_def
  using assms
    with_rollback_keeps [OF frame.OpenRefundRules keyed.OpenRefundRules]
    with_rollback_keeps [OF frame.ApproveRefundRules keyed.ApproveRefundRules]
    with_rollback_keeps [OF frame.TransitionRefundRules keyed.TransitionRefundRules] by blast+

lemma step_ledger_ok: "billing_step s s' \<Longrightarrow> ledger_ok s \<Longrightarrow> ledger_ok s'"
proof (induction rule: billing_step.induct)
  case (Adjust entry s)
  then show ?case by (simp add: snd_AdjustCredit applyCredit_ledger_ok)
next
  case (Submitted s ident refundID now)
  then show ?case by (auto simp: RecordRefundSubmitted_def split: option.splits)
qed (auto simp: InitTenantBilling_ok SetTenantBillingMode_def SetDodoCustomerID_def Let_def ChargeUsage_ledger_ok
    event_ledger_ok refund_ledger_ok CreateCreditPackage_def UpdateCreditPackage_def PutModelPrice_def
    DeleteModelPrice_def CreateCheckoutOrder_def SetCheckoutOrderSession_def tenant_row_balance
    intro!: ledger_ok_same_balance split: option.splits)

lemma ChargeUsage_frame:
  "bs_orders (snd (ChargeUsage rnd records charges s)) = bs_orders s"
  "bs_refunds (snd (ChargeUsage rnd records charges s)) = bs_refunds s"
  by (auto simp: ChargeUsage_def case_prod_beta Let_def debit_tenants_frame split: option.splits)

lemma RecordRefundSubmitted_tables:
  assumes "tables_ok s"
  shows "tables_ok (snd (RecordRefundSubmitted ident refundID now s))"
proof (cases "map_of (bs_refunds s) ident")
  case (Some req)
  let ?req = "req\<lparr>rr_DodoRefundID := Some refundID, rr_UpdatedAt := now\<rparr>"
  have id: "rr_ID ?req = ident" using tables_okD(4) [OF assms Some] by simp
  show ?thesis
  proof (cases "list_ex (\<lambda>(_, other). rr_DodoRefundID other = Some refundID) (bs_refunds s)")
    case False
    then have "tables_ok (s\<lparr>bs_refunds := AList.update (rr_ID ?req) ?req (bs_refunds s)\<rparr>)"
      using assms by (intro tables_ok_refund) (auto simp: list_ex_iff)
    with False Some id assms show ?thesis by (simp add: RecordRefundSubmitted_def)
  qed (use Some assms in \<open>simp add: RecordRefundSubmitted_def\<close>)
qed (use assms in \<open>simp add: RecordRefundSubmitted_def\<close>)

lemma SetCheckoutOrderSession_tables:
  assumes "tables_ok s"
  shows "tables_ok (snd (SetCheckoutOrderSession ident session now s))"
proof (cases "map_of (bs_orders s) ident")
  case (Some order)
  let ?order = "order\<lparr>co_DodoSessionID := session, co_UpdatedAt := now\<rparr>"
  have id: "co_ID ?order = ident" using tables_okD(3) [OF assms Some] by simp
  have "unique_by co_DodoPaymentID (AList.update ident ?order (bs_orders s))"
    using assms Some tables_okD(1) [OF assms] by (intro unique_by_same) (auto simp: tables_ok_def)
  then have "tables_ok (s\<lparr>bs_orders := AList.update (co_ID ?order) ?order (bs_orders s)\<rparr>)"
    using assms id keyed_by_update [of co_ID "bs_orders s" ?order] by (simp add: tables_ok_def)
  with Some id show ?thesis by (simp add: SetCheckoutOrderSession_def)
qed (use assms in \<open>simp add: SetCheckoutOrderSession_def\<close>)

lemma step_tables_ok: "billing_step s s' \<Longrightarrow> tables_ok s \<Longrightarrow> tables_ok s'"
proof (induction rule: billing_step.induct)
  case (Adjust entry s)
  then show ?case by (simp add: snd_AdjustCredit applyCredit_tables)
next
  case (Charge s rnds records charges)
  then show ?case by (simp add: tables_ok_def ChargeUsage_frame)
next
  case (CreateOrder order s)
  then show ?case using tables_ok_order [of s order] by (simp add: CreateCheckoutOrder_def)
qed (auto simp: InitTenantBilling_def SetTenantBillingMode_def SetDodoCustomerID_def Let_def
    event_tables_ok refund_tables_ok RecordRefundSubmitted_tables SetCheckoutOrderSession_tables
    CreateCreditPackage_def UpdateCreditPackage_def PutModelPrice_def DeleteModelPrice_def
    split: option.splits)

lemma reach_ok: "billing_reach s \<Longrightarrow> ledger_ok s \<and> tables_ok s"
proof (induction rule: billing_reach.induct)
  case Start
  show ?case
    by (simp add: ledger_ok_def tables_ok_def newBillingState_def balance_of_def tenant_row_def chain_ok_def
        ledger_keys_def map_filter_def keyed_by_def unique_by_def)
next
  case (Step s s')
  then show ?case using step_ledger_ok step_tables_ok by blast
qed


subsection \<open>What a posting does\<close>

text \<open>The effect of one entry: the balance of its tenant moves by its amount, nothing else does.\<close>

definition posted_to :: "billingState \<Rightarrow> string \<Rightarrow> int \<Rightarrow> string \<Rightarrow> billingState \<Rightarrow> bool" where
  "posted_to s tenant amount key s' \<longleftrightarrow> ledger_ok s'
     \<and> (\<forall>t. balance_of s' t = balance_of s t + (if t = tenant then amount else 0))
     \<and> (\<exists>e. bs_ledger s' = bs_ledger s @ [e] \<and> le_TenantID e = tenant \<and> le_AmountMicro e = amount
          \<and> le_IdempotencyKey e = Some key)
     \<and> bs_orders s' = bs_orders s \<and> bs_refunds s' = bs_refunds s"

lemma memCredit_entry:
  assumes "ledger_ok s" and "memCredit (ledger_entry rnd tenant kind amount ref key now) s = (Inr (changed, dup), s')"
  shows "dup \<and> s' = s \<and> key \<in> set (ledger_keys (bs_ledger s))
    \<or> \<not> dup \<and> posted_to s tenant (wrap64 amount) key s' \<and> key \<notin> set (ledger_keys (bs_ledger s))"
proof -
  let ?e = "ledger_entry rnd tenant kind amount ref key now"
  have e: "le_TenantID ?e = tenant" "le_AmountMicro ?e = wrap64 amount" "le_IdempotencyKey ?e = Some key"
    by (simp_all add: ledger_entry_def)
  have r: "in_int64 (le_AmountMicro ?e)" by (simp add: e)
  from assms(1) r show ?thesis
  proof (cases rule: applyCredit_cases)
    case (duplicate k)
    then show ?thesis using assms(2) e by (simp add: memCredit_def op_defs)
  next
    case overflow
    then show ?thesis using assms(2) by (simp add: memCredit_def op_defs)
  next
    case (posted row row')
    have ok: "ledger_ok s'" using assms applyCredit_ledger_ok [OF assms(1) r] snd_memCredit [of ?e s] by simp
    from posted(4) e have "key \<notin> set (ledger_keys (bs_ledger s))" by simp
    then show ?thesis
      using assms(2) posted ok e by (auto simp: memCredit_def op_defs posted_to_def)
  qed
qed

lemma credit_effect:
  assumes "ledger_ok s" and "credit env memLedger result tenant kind amount ref key now s = (Inr res, s')"
  shows "er_Outcome res = BillingOutcomeDuplicate \<and> s' = s \<and> TrimSpace key \<in> set (ledger_keys (bs_ledger s))
    \<or> er_Outcome res = BillingOutcomeApplied \<and> posted_to s tenant (wrap64 amount) (TrimSpace key) s'"
proof -
  from assms(2) obtain changed dup where
    "memCredit (ledger_entry (random env) tenant kind amount ref (TrimSpace key) now) s = (Inr (changed, dup), s')"
    and "er_Outcome res = (if dup then BillingOutcomeDuplicate else BillingOutcomeApplied)"
    by (auto simp: credit_def Let_def op_defs split: prod.splits sum.splits)
  with memCredit_entry [OF assms(1)] show ?thesis by fastforce
qed

lemma creditOnce_effect:
  assumes "ledger_ok s" and "creditOnce env memLedger tenant kind amount ref key now s = (Inr changed, s')"
  shows "s' = s \<and> key \<in> set (ledger_keys (bs_ledger s)) \<or> posted_to s tenant (wrap64 amount) key s'"
proof -
  from assms(2) obtain dup where
    "memCredit (ledger_entry (random env) tenant kind amount ref key now) s = (Inr (changed, dup), s')"
    by (auto simp: creditOnce_def op_defs split: prod.splits sum.splits)
  with memCredit_entry [OF assms(1)] show ?thesis by blast
qed

lemma posted_to_simps:
  assumes "posted_to s tenant amount key s'"
  shows "balance_of s' t = balance_of s t + (if t = tenant then amount else 0)"
    and "bs_orders s' = bs_orders s" and "bs_refunds s' = bs_refunds s" and "ledger_ok s'"
    and "set (ledger_keys (bs_ledger s')) = insert key (set (ledger_keys (bs_ledger s)))"
  using assms by (auto simp: posted_to_def ledger_keys_snoc)

lemma balance_of_tables [simp]:
  "balance_of (s\<lparr>bs_orders := x\<rparr>) t = balance_of s t" "balance_of (s\<lparr>bs_refunds := y\<rparr>) t = balance_of s t"
  "balance_of (s\<lparr>bs_webhooks := z\<rparr>) t = balance_of s t"
  by (simp_all add: balance_of_def tenant_row_def)

subsection \<open>Payments\<close>

lemma findOrder_mem:
  "findOrder memLedger ident '''' s = (Inr (case if ident = '''' then None else map_of (bs_orders s) ident of
     None \<Rightarrow> Inl (outcome_only BillingOutcomeNoOrder)
   | Some order \<Rightarrow> Inr (order, \<lparr>er_Outcome = '''', er_TenantID = co_TenantID order, er_OrderID = co_ID order,
       er_BlockedChanged = False\<rparr>)), s)"
  by (simp add: findOrder_def catch_not_found_def memOrderByID_def lookup_def op_defs split: option.splits)

lemma findOrder_payment_mem:
  "findOrder memLedger '''' pid s = (Inr (case if pid = '''' then None
       else find_value (\<lambda>order. co_DodoPaymentID order = Some pid) (bs_orders s) of
     None \<Rightarrow> Inl (outcome_only BillingOutcomeNoOrder)
   | Some order \<Rightarrow> Inr (order, \<lparr>er_Outcome = '''', er_TenantID = co_TenantID order, er_OrderID = co_ID order,
       er_BlockedChanged = False\<rparr>)), s)"
  by (simp add: findOrder_def catch_not_found_def memOrderByPayment_def lookup_def op_defs split: option.splits)

definition paid_by :: "rule_env \<Rightarrow> BillingEvent \<Rightarrow> go_time \<Rightarrow> CheckoutOrder \<Rightarrow> CheckoutOrder" where
  "paid_by env event now order = order\<lparr>co_DodoPaymentID := Some (ev_PaymentID event),
     co_PaidAmountMinor := ev_AmountMinor event, co_PaidCurrency := ToUpper (tables env) (ev_Currency event),
     co_Status := OrderStatusPaid, co_UpdatedAt := now\<rparr>"

definition payable :: "rule_env \<Rightarrow> BillingEvent \<Rightarrow> CheckoutOrder \<Rightarrow> bool" where
  "payable env event order \<longleftrightarrow> ev_TenantID event = co_TenantID order
     \<and> (ev_CheckoutSessionID event = '''' \<or> co_DodoSessionID order = '''' \<or> ev_CheckoutSessionID event = co_DodoSessionID order)
     \<and> co_Status order \<in> {OrderStatusPending, OrderStatusFailed}
     \<and> EqualFold (tables env) (ev_Currency event) (co_Currency order) \<and> co_AmountMinor order \<le> ev_AmountMinor event"

lemma paymentSucceeded_cases:
  assumes "ledger_ok s" and "paymentSucceeded env memLedger event now s = (Inr result, s')"
  obtains (skipped) "er_Outcome result \<noteq> BillingOutcomeApplied" "s' = s"
  | (saved) order s1 where "map_of (bs_orders s) (ev_OrderID event) = Some order" "payable env event order"
      "s1 = s\<lparr>bs_orders := AList.update (co_ID order) (paid_by env event now order) (bs_orders s)\<rparr>"
      "er_Outcome result = BillingOutcomeDuplicate \<and> s' = s1
         \<and> TrimSpace (topup_key (ev_PaymentID event)) \<in> set (ledger_keys (bs_ledger s))
       \<or> er_Outcome result = BillingOutcomeApplied
         \<and> posted_to s1 (co_TenantID order) (wrap64 (co_CreditsMicro order)) (TrimSpace (topup_key (ev_PaymentID event))) s'"
proof (cases "ev_PaymentID event = '''' \<or> ev_OrderID event = '''' \<or> map_of (bs_orders s) (ev_OrderID event) = None")
  case True
  then show thesis using assms(2) skipped
    by (auto simp: paymentSucceeded_def findOrder_mem op_defs outcome_only_def split: if_splits)
next
  case False
  then obtain order where order: "map_of (bs_orders s) (ev_OrderID event) = Some order" by auto
  show thesis
  proof (cases "payable env event order")
    case True
    define s1 where "s1 = s\<lparr>bs_orders := AList.update (co_ID order) (paid_by env event now order) (bs_orders s)\<rparr>"
    have "credit env memLedger \<lparr>er_Outcome = '''', er_TenantID = co_TenantID order, er_OrderID = co_ID order,
         er_BlockedChanged = False\<rparr> (co_TenantID order) LedgerKindTopup (co_CreditsMicro order) (co_ID order)
         (topup_key (ev_PaymentID event)) now s1 = (Inr result, s')"
      using assms(2) False order True
      by (auto simp: paymentSucceeded_def findOrder_mem bindE_def returnE_def Let_def payable_def
          memSaveOrder_def s1_def paid_by_def split: if_splits)
    moreover have "ledger_ok s1" and "bs_ledger s1 = bs_ledger s" using assms(1) by (simp_all add: s1_def)
    ultimately show thesis using credit_effect saved [OF order True s1_def] by metis
  next
    case False': False
    then show thesis using assms(2) False order skipped
      by (auto simp: paymentSucceeded_def findOrder_mem op_defs payable_def split: if_splits)
  qed
qed

end
