(* ===== verification/BillingProperties.thy ===== *)
theory BillingProperties
  imports BillingStore
begin

text \<open>
  What the billing rules and the in-memory store guarantee together: the ledger over every history,
  webhooks and payments applied once, refund requests that hold and release exactly, one active refund
  per order, disputes that a win undoes, and one interaction that takes credits twice.
\<close>


section \<open>Definitions\<close>

text \<open>The orders that a pending or processing refund request occupies.\<close>

definition active_requests :: "billingState \<Rightarrow> (string \<times> string) set" where
  "active_requests s = {(k, rr_OrderID r) |k r. (k, r) \<in> set (bs_refunds s) \<and> Active r}"

text \<open>A tenant with a balance, one paid order and no refunds.\<close>

definition sample_env :: rule_env where
  "sample_env = \<lparr>tables = \<lparr>orbit = (\<lambda>r. r), upper = (\<lambda>s. s)\<rparr>, random = []\<rparr>"

definition sample_tenant :: TenantBilling where
  "sample_tenant = \<lparr>tb_TenantID = ''t1'', tb_Mode = BillingModePrepaid, tb_BalanceMicro = 0, tb_DodoCustomerID = '''',
     tb_CreatedAt = 1, tb_UpdatedAt = 1\<rparr>"

definition sample_state :: billingState where
  "sample_state = newBillingState\<lparr>bs_tenants := [''t1'' \<mapsto> sample_tenant], bs_orders := [(''ord_1'', sample_order)]\<rparr>"

text \<open>The order of the sample state before it was paid.\<close>

definition unpaid_state :: billingState where
  "unpaid_state = sample_state\<lparr>bs_orders := [(''ord_1'', sample_order\<lparr>co_DodoPaymentID := None, co_PaidAmountMinor := 0,
     co_PaidCurrency := '''', co_Status := OrderStatusPending\<rparr>)]\<rparr>"

text \<open>The sample tenant with half of the order's credits left and a refund request under review.\<close>

definition sample_request :: RefundRequest where
  "sample_request = \<lparr>rr_ID = ''rfd_1'', rr_TenantID = ''t1'', rr_OrderID = ''ord_1'', rr_Source = ''tenant'',
     rr_Status = RefundStatusPending, rr_AmountMinor = 999, rr_Currency = ''USD'', rr_CreditsMicro = 0,
     rr_Reason = '''', rr_RequestedBy = '''', rr_ReviewedBy = '''', rr_ReviewNote = '''', rr_DodoRefundID = None,
     rr_Failure = '''', rr_CreatedAt = 2, rr_UpdatedAt = 2\<rparr>"

definition pending_state :: billingState where
  "pending_state = sample_state\<lparr>bs_tenants := [''t1'' \<mapsto> sample_tenant\<lparr>tb_BalanceMicro := 5000000\<rparr>],
     bs_ledger := [(ledger_entry [] ''t1'' LedgerKindAdjust 5000000 '''' ''k'' 1)\<lparr>le_BalanceAfterMicro := 5000000\<rparr>],
     bs_refunds := [(''rfd_1'', sample_request)]\<rparr>"

definition sample_policy :: RefundPolicy where
  "sample_policy = \<lparr>NotBefore = 0, UnusedOnly = True\<rparr>"

definition fail_transition :: RefundTransition where
  "fail_transition = \<lparr>rt_ID = ''rfd_1'', rt_TenantID = '''', rt_To = RefundStatusFailed, rt_Actor = '''', rt_Note = ''''\<rparr>"

definition sample_event :: "string \<Rightarrow> BillingEvent" where
  "sample_event kind = \<lparr>ev_WebhookID = ''wh_1'', ev_Type = '''', ev_Kind = kind, ev_OrderID = ''ord_1'', ev_TenantID = ''t1'',
     ev_PaymentID = ''pay_1'', ev_CheckoutSessionID = '''', ev_RefundID = '''', ev_RefundRequestID = '''',
     ev_DisputeID = ''dsp_1'', ev_AmountMinor = 999, ev_Currency = ''USD'', ev_IsPartial = False\<rparr>"


definition active_ok :: "billingState \<Rightarrow> bool" where
  "active_ok s \<longleftrightarrow> (\<forall>k k' ident. (k, ident) \<in> active_requests s \<and> (k', ident) \<in> active_requests s \<longrightarrow> k = k' \<and> k \<noteq> '''')"

text \<open>The sample state with the dispute of its order open.\<close>

definition disputed_state :: billingState where
  "disputed_state = sample_state\<lparr>
     bs_orders := [(''ord_1'', sample_order\<lparr>co_Status := OrderStatusDisputed, co_UpdatedAt := 10\<rparr>)],
     bs_tenants := [''t1'' \<mapsto> sample_tenant\<lparr>tb_BalanceMicro := - 10000000, tb_UpdatedAt := 10\<rparr>],
     bs_ledger := [(ledger_entry [] ''t1'' LedgerKindDispute (- 10000000) ''ord_1'' (dispute_key ''dsp_1'') 10)
       \<lparr>le_BalanceAfterMicro := - 10000000\<rparr>]\<rparr>"

text \<open>A reachable store with one refund request under review.\<close>

definition reviewed_state :: billingState where
  "reviewed_state = snd (OpenRefundRequest sample_env sample_request \<lparr>NotBefore = 0, UnusedOnly = False\<rparr> 3
     (snd (CreateCheckoutOrder (sample_order\<lparr>co_DodoPaymentID := None\<rparr>) newBillingState)))"


section \<open>Lemmas\<close>

subsection \<open>Refund requests on the in-memory store\<close>

lemma lockRefundRequest_mem:
  "lockRefundRequest memLedger ident s = (case map_of (bs_refunds s) ident of
     None \<Rightarrow> (Inl ErrNotFound, s)
   | Some req \<Rightarrow> (case map_of (bs_orders s) (rr_OrderID req) of
       None \<Rightarrow> (Inl ErrNotFound, s) | Some order \<Rightarrow> (Inr (req, order), s)))"
  by (simp add: lockRefundRequest_def memRefundRequestOrderID_def memOrderByID_def memRefundRequestByID_def
      lookup_def op_defs split: option.splits)

lemma refundLimit_mem:
  assumes "refundLimit memLedger order pol except now s = (Inr limit, s')"
  shows "s' = s" and "co_Status order = OrderStatusPaid" and "0 < limit" and "limit \<le> RemainingRefundMinor order"
    and "UnusedOnly pol \<Longrightarrow> limit = UnusedRefundMinor order (balance_of s (co_TenantID order))"
    and "(k, r) \<in> set (bs_refunds s) \<Longrightarrow> rr_OrderID r = co_ID order \<Longrightarrow> Active r \<Longrightarrow> rr_ID r = except"
  using assms UnusedRefundMinor_le
  by (auto simp: refundLimit_def memOrderHasActiveRefund_def memTenantBilling_def op_defs tenant_row_balance
      list_ex_iff split: if_splits)

lemma holdRefund_mem:
  assumes "ledger_ok s" and "holdRefund env memLedger req now s = (Inr changed, s')"
    and "in_int64 (rr_CreditsMicro req)"
    and "hold_key (rr_ID req) \<notin> set (ledger_keys (bs_ledger s))"
  shows "balance_of s' t = balance_of s t - (if t = rr_TenantID req then max 0 (rr_CreditsMicro req) else 0)"
    and "bs_refunds s' = bs_refunds s" and "bs_orders s' = bs_orders s" and "ledger_ok s'"
    and "set (ledger_keys (bs_ledger s')) \<subseteq> insert (hold_key (rr_ID req)) (set (ledger_keys (bs_ledger s)))"
proof -
  have "s' = s \<and> rr_CreditsMicro req \<le> 0
      \<or> 0 < rr_CreditsMicro req \<and> posted_to s (rr_TenantID req) (- rr_CreditsMicro req) (hold_key (rr_ID req)) s'"
  proof (cases "rr_CreditsMicro req \<le> 0")
    case True
    then show ?thesis using assms(2) by (simp add: holdRefund_def returnE_def)
  next
    case False
    have "in_int64 (- rr_CreditsMicro req)"
      using assms(3) False by (simp add: in_int64_def min_int64_def max_int64_def)
    moreover from this have "creditOnce env memLedger (rr_TenantID req) LedgerKindRefund (- rr_CreditsMicro req)
        (rr_OrderID req) (hold_key (rr_ID req)) now s = (Inr changed, s')"
      using assms(2) False by (simp add: holdRefund_def wrap64_id)
    note creditOnce_effect [OF assms(1) this]
    ultimately show ?thesis using assms(4) False by (auto simp: wrap64_id)
  qed
  then show "balance_of s' t = balance_of s t - (if t = rr_TenantID req then max 0 (rr_CreditsMicro req) else 0)"
    and "bs_refunds s' = bs_refunds s" and "bs_orders s' = bs_orders s" and "ledger_ok s'"
    and "set (ledger_keys (bs_ledger s')) \<subseteq> insert (hold_key (rr_ID req)) (set (ledger_keys (bs_ledger s)))"
    using assms(1) posted_to_simps [of s _ _ _ s'] by auto
qed

lemma failRefund_mem:
  assumes "ledger_ok s" and "failRefund env memLedger req failure now s = (Inr (req', changed), s')"
    and "in_int64 (rr_CreditsMicro req)"
    and "release_key (rr_ID req) \<notin> set (ledger_keys (bs_ledger s))"
  shows "balance_of s' t = balance_of s t + (if t = rr_TenantID req then max 0 (rr_CreditsMicro req) else 0)"
    and "req' = req\<lparr>rr_Status := RefundStatusFailed, rr_Failure := failure, rr_UpdatedAt := now\<rparr>"
proof -
  let ?req = "req\<lparr>rr_Status := RefundStatusFailed, rr_Failure := failure, rr_UpdatedAt := now\<rparr>"
  define s1 where "s1 = s\<lparr>bs_refunds := AList.update (rr_ID req) ?req (bs_refunds s)\<rparr>"
  have s1: "ledger_ok s1" "bs_ledger s1 = bs_ledger s" "balance_of s1 t = balance_of s t"
    using assms(1) by (simp_all add: s1_def)
  consider (none) "req' = ?req" "rr_CreditsMicro req \<le> 0" "s' = s1"
    | (release) c where "req' = ?req" "0 < rr_CreditsMicro req"
        "creditOnce env memLedger (rr_TenantID req) LedgerKindRefundReversal (rr_CreditsMicro req) (rr_OrderID req)
          (release_key (rr_ID req)) now s1 = (Inr c, s')"
    using assms(2)
    by (fastforce simp: failRefund_def Let_def bindE_def returnE_def memSaveRefundRequest_def s1_def
        split: if_splits prod.splits sum.splits)
  then have "req' = ?req \<and> balance_of s' t
      = balance_of s t + (if t = rr_TenantID req then max 0 (rr_CreditsMicro req) else 0)"
  proof cases
    case none
    then show ?thesis by (simp add: s1)
  next
    case release
    then have "posted_to s1 (rr_TenantID req) (rr_CreditsMicro req) (release_key (rr_ID req)) s'"
      using creditOnce_effect [OF s1(1) release(3)] assms(3,4) by (simp add: s1(2) wrap64_id)
    then show ?thesis using release posted_to_simps(1) [of s1 _ _ _ s' t] by (simp add: s1(3))
  qed
  then show "balance_of s' t = balance_of s t + (if t = rr_TenantID req then max 0 (rr_CreditsMicro req) else 0)"
    and "req' = ?req" by blast+
qed


lemma holdRefund_refunds: "bs_refunds (snd (holdRefund env memLedger req now s)) = bs_refunds s"
proof -
  have "bs_refunds (snd (memCredit e s)) = bs_refunds s" for e
    by (simp add: snd_memCredit applyCredit_frame)
  then show ?thesis
    by (simp add: holdRefund_def creditOnce_def returnE_def bindE_def split: prod.splits sum.splits) (metis snd_conv)
qed

lemma with_rollback_succeeds: "with_rollback m s = (Inr a, s') \<longleftrightarrow> m s = (Inr a, s')"
  by (auto simp: with_rollback_def split: prod.splits sum.splits)

lemma lockRefundRequest_succeeds:
  "lockRefundRequest memLedger ident s = (Inr (req, order), s') \<longleftrightarrow>
     s' = s \<and> map_of (bs_refunds s) ident = Some req \<and> map_of (bs_orders s) (rr_OrderID req) = Some order"
  by (auto simp: lockRefundRequest_mem split: option.splits)

lemma memSaveRefundRequest_succeeds:
  "memSaveRefundRequest req s = (Inr u, s') \<Longrightarrow> s' = s\<lparr>bs_refunds := AList.update (rr_ID req) req (bs_refunds s)\<rparr>"
  by (auto simp: memSaveRefundRequest_def split: if_splits)

text \<open>The request that an approval loads, the limit it computes, and the request it saves.\<close>

lemma ApproveRefund_run:
  assumes "ApproveRefundRequest env ident reviewer note amount pol now s = (Inr (req, order, changed), s')"
  obtains req0 limit s2 amt where "map_of (bs_refunds s) ident = Some req0" "rr_Status req0 = RefundStatusPending"
    "map_of (bs_orders s) (rr_OrderID req0) = Some order"
    "refundLimit memLedger order (pol\<lparr>NotBefore := 0\<rparr>) (rr_ID req0) now s = (Inr limit, s)"
    "0 \<le> amount" "amount \<le> min limit (rr_AmountMinor req0)"
    "amt = (if amount = 0 then min limit (rr_AmountMinor req0) else amount)"
    "req = req0\<lparr>rr_AmountMinor := amt, rr_Currency := refundCurrency env order,
       rr_CreditsMicro := RefundDelta order amt, rr_Status := RefundStatusProcessing,
       rr_ReviewedBy := reviewer, rr_ReviewNote := note, rr_UpdatedAt := now\<rparr>"
    "holdRefund env memLedger req now s = (Inr changed, s2)"
    "s' = s2\<lparr>bs_refunds := AList.update (rr_ID req) req (bs_refunds s)\<rparr>"
proof -
  obtain req0 where req0: "map_of (bs_refunds s) ident = Some req0" "rr_Status req0 = RefundStatusPending"
    and order: "map_of (bs_orders s) (rr_OrderID req0) = Some order"
    and run: "\<exists>limit s1. refundLimit memLedger order (pol\<lparr>NotBefore := 0\<rparr>) (rr_ID req0) now s = (Inr limit, s1)
       \<and> \<not> amount < 0 \<and> \<not> min limit (rr_AmountMinor req0) < amount
       \<and> (let amt = (if amount = 0 then min limit (rr_AmountMinor req0) else amount);
              req' = req0\<lparr>rr_AmountMinor := amt, rr_Currency := refundCurrency env order,
                rr_CreditsMicro := RefundDelta order amt, rr_Status := RefundStatusProcessing,
                rr_ReviewedBy := reviewer, rr_ReviewNote := note, rr_UpdatedAt := now\<rparr> in
          req = req' \<and> (\<exists>s2. holdRefund env memLedger req now s1 = (Inr changed, s2)
             \<and> memSaveRefundRequest req s2 = (Inr (), s')))"
    using assms
    by (fastforce simp: ApproveRefundRequest_def with_rollback_succeeds ApproveRefundRules_def op_succeeds
        lockRefundRequest_succeeds Let_def split: if_splits)
  from run obtain limit s1 s2 where r: "refundLimit memLedger order (pol\<lparr>NotBefore := 0\<rparr>) (rr_ID req0) now s = (Inr limit, s1)"
    "0 \<le> amount" "amount \<le> min limit (rr_AmountMinor req0)"
    "req = req0\<lparr>rr_AmountMinor := (if amount = 0 then min limit (rr_AmountMinor req0) else amount),
       rr_Currency := refundCurrency env order,
       rr_CreditsMicro := RefundDelta order (if amount = 0 then min limit (rr_AmountMinor req0) else amount),
       rr_Status := RefundStatusProcessing, rr_ReviewedBy := reviewer, rr_ReviewNote := note, rr_UpdatedAt := now\<rparr>"
    "holdRefund env memLedger req now s1 = (Inr changed, s2)" "memSaveRefundRequest req s2 = (Inr (), s')"
    unfolding Let_def not_less by blast
  have s1: "s1 = s" using refundLimit_mem(1) [OF r(1)] .
  have "bs_refunds s2 = bs_refunds s" using holdRefund_refunds [of env req now s] r(5) by (simp add: s1)
  then have "s' = s2\<lparr>bs_refunds := AList.update (rr_ID req) req (bs_refunds s)\<rparr>"
    using memSaveRefundRequest_succeeds [OF r(6)] by simp
  with req0 order r s1 show thesis by (intro that) auto
qed

lemma ApproveRefund_cases:
  assumes "ledger_ok s" and "tables_ok s" and "hold_key ident \<notin> set (ledger_keys (bs_ledger s))"
    and "ApproveRefundRequest env ident reviewer note amount pol now s = (Inr (req, order, changed), s')"
  obtains req0 where "map_of (bs_refunds s) ident = Some req0" "map_of (bs_orders s) (rr_OrderID req0) = Some order"
    "rr_ID req = ident" "rr_TenantID req = rr_TenantID req0" "rr_OrderID req = rr_OrderID req0"
    "rr_Status req = RefundStatusProcessing" "rr_CreditsMicro req = RefundDelta order (rr_AmountMinor req)"
    "0 < rr_AmountMinor req0 \<Longrightarrow> 0 < rr_AmountMinor req"
    "rr_AmountMinor req \<le> rr_AmountMinor req0" "rr_AmountMinor req \<le> RemainingRefundMinor order"
    "UnusedOnly pol \<Longrightarrow> rr_AmountMinor req \<le> UnusedRefundMinor order (balance_of s (co_TenantID order))"
    "\<And>t. balance_of s' t = balance_of s t - (if t = rr_TenantID req then max 0 (rr_CreditsMicro req) else 0)"
    "bs_refunds s' = AList.update ident req (bs_refunds s)" "bs_orders s' = bs_orders s" "ledger_ok s'"
    "set (ledger_keys (bs_ledger s')) \<subseteq> insert (hold_key ident) (set (ledger_keys (bs_ledger s)))"
  using assms(4)
proof (cases rule: ApproveRefund_run)
  case (1 req0 limit s2 amt)
  have id: "rr_ID req = ident" using tables_okD(4) [OF assms(2) 1(1)] 1(8) by simp
  have "in_int64 (rr_CreditsMicro req)" by (simp add: 1(8) RefundDelta_def Let_def)
  note H = holdRefund_mem [OF assms(1) 1(9) this, unfolded id, OF assms(3)]
  note L = refundLimit_mem [OF 1(4)]
  have amt: "amt \<le> limit" "amt \<le> rr_AmountMinor req0" "0 < rr_AmountMinor req0 \<Longrightarrow> 0 < amt"
    using 1(5-7) L(3) by auto
  have req: "rr_AmountMinor req = amt" "rr_TenantID req = rr_TenantID req0" "rr_OrderID req = rr_OrderID req0"
    "rr_Status req = RefundStatusProcessing" "rr_CreditsMicro req = RefundDelta order (rr_AmountMinor req)"
    by (simp_all add: 1(8))
  show thesis
    by (rule that [OF 1(1,3) id req(2-5)]) (use amt L(4,5) H 1(10) id req(1) in \<open>auto intro: order_trans\<close>)
qed

lemma OpenRefund_cases:
  assumes "OpenRefundRequest env req pol now s = (Inr (req', order, changed), s')"
  obtains "map_of (bs_orders s) (rr_OrderID req) = Some order"
    "rr_ID req' = rr_ID req" "rr_OrderID req' = rr_OrderID req"
    "\<And>k r. (k, r) \<in> set (bs_refunds s) \<Longrightarrow> rr_OrderID r = co_ID order \<Longrightarrow> Active r \<Longrightarrow> rr_ID r = ''''"
    "bs_refunds s' = AList.update (rr_ID req) req' (bs_refunds s)"
proof -
  have find: "memOrderByID i s = (Inr a, t) \<longleftrightarrow> map_of (bs_orders s) i = Some a \<and> t = s" for i a t
    by (auto simp: memOrderByID_def lookup_def returnE_def throwE_def split: option.splits)
  from assms obtain limit s1 s2 where order: "map_of (bs_orders s) (rr_OrderID req) = Some order"
    and lim: "refundLimit memLedger order pol '''' now s = (Inr limit, s1)"
    and hold: "s2 = s1 \<or> s2 = snd (holdRefund env memLedger req' now s1)"
    and ins: "memInsertRefundRequest req' s2 = (Inr (), s')"
    and req': "rr_ID req' = rr_ID req" "rr_OrderID req' = rr_OrderID req"
    by (fastforce simp: OpenRefundRequest_def with_rollback_succeeds OpenRefundRules_def op_succeeds find Let_def
        split: if_splits)
  note L = refundLimit_mem [OF lim]
  have "bs_refunds s2 = bs_refunds s" using hold L(1) holdRefund_refunds by auto
  then have "bs_refunds s' = AList.update (rr_ID req) req' (bs_refunds s)"
    using ins req' by (auto simp: memInsertRefundRequest_def split: if_splits)
  then show thesis using that [OF order req'] L(6) by blast
qed

subsection \<open>One active refund per order\<close>

lemma active_update:
  assumes "bs_refunds s' = AList.update k r (bs_refunds s)"
  shows "active_requests s' \<subseteq> active_requests s \<union> (if Active r then {(k, rr_OrderID r)} else {})"
  using set_update_subset [of k r "bs_refunds s"] by (auto simp: active_requests_def assms)

lemma active_requests_cong: "bs_refunds s' = bs_refunds s \<Longrightarrow> active_requests s' = active_requests s"
  by (simp add: active_requests_def)

interpretation shrinking: billing_events "\<lambda>s s'. active_requests s' \<subseteq> active_requests s" memLedger
proof unfold_locales
  show "keeps (\<lambda>s s'. active_requests s' \<subseteq> active_requests s) (SaveRefundRequest memLedger req)" if "\<not> Active req" for req
    using that active_update [where k = "rr_ID req" and r = req] by (auto simp: keeps_def memSaveRefundRequest_def)
qed (auto simp: keeps_def mem_reads snd_memCredit memSaveOrder_def active_requests_def applyCredit_frame)

lemma active_ok_mono: "active_requests s' \<subseteq> active_requests s \<Longrightarrow> active_ok s \<Longrightarrow> active_ok s'"
  unfolding active_ok_def by blast


lemma rollback_active:
  assumes "keeps event_frame m" and "\<And>a s'. m s = (Inr a, s') \<Longrightarrow> P s'" and "P s"
  shows "P (snd (with_rollback m s))"
proof (cases "with_rollback m s")
  case (Pair r s')
  show ?thesis
  proof (cases r)
    case (Inl e)
    then show ?thesis using Pair with_rollback_failed [OF assms(1)] assms(3) by (metis snd_conv)
  next
    case (Inr a)
    then show ?thesis using Pair assms(2) by (metis snd_conv with_rollback_succeeds)
  qed
qed

lemma approve_active:
  assumes "tables_ok s"
  shows "active_requests (snd (ApproveRefundRequest env ident reviewer note amount pol now s)) \<subseteq> active_requests s"
  unfolding ApproveRefundRequest_def
proof (rule rollback_active [OF frame.ApproveRefundRules])
  fix a s'
  assume "ApproveRefundRules env memLedger ident reviewer note amount pol now s = (Inr a, s')"
  moreover obtain req order changed where "a = (req, order, changed)" by (cases a)
  ultimately have "ApproveRefundRequest env ident reviewer note amount pol now s = (Inr (req, order, changed), s')"
    by (simp add: ApproveRefundRequest_def with_rollback_succeeds)
  then show "active_requests s' \<subseteq> active_requests s"
  proof (cases rule: ApproveRefund_run)
    case (1 req0 limit s2 amt)
    have "(ident, rr_OrderID req) \<in> active_requests s"
      using 1(1,2,8) by (auto simp: active_requests_def Active_def dest!: map_of_SomeD)
    moreover have "rr_ID req = ident" using tables_okD(4) [OF assms 1(1)] 1(8) by simp
    ultimately show ?thesis
      using active_update [of s' ident req s] 1(10) by (auto split: if_splits)
  qed
qed simp

lemma open_active:
  assumes "tables_ok s" and "active_ok s" and "rr_ID req \<noteq> ''''" and "rr_DodoRefundID req = None"
  shows "active_ok (snd (OpenRefundRequest env req pol now s))"
  unfolding OpenRefundRequest_def
proof (rule rollback_active [OF frame.OpenRefundRules])
  fix a s'
  assume "OpenRefundRules env memLedger req pol now s = (Inr a, s')"
  moreover obtain req' order changed where "a = (req', order, changed)" by (cases a)
  ultimately have "OpenRefundRequest env req pol now s = (Inr (req', order, changed), s')"
    by (simp add: OpenRefundRequest_def with_rollback_succeeds)
  then show "active_ok s'"
  proof (cases rule: OpenRefund_cases)
    case 1
    have oid: "co_ID order = rr_OrderID req" using tables_okD(3) [OF assms(1) 1(1)] .
    have new: "(k, i) = (rr_ID req, rr_OrderID req)" if "(k, i) \<in> active_requests s'" "(k, i) \<notin> active_requests s" for k i
      using that active_update [OF 1(5)] 1(3) by (auto split: if_splits)
    have free: "(k, rr_OrderID req) \<notin> active_requests s" for k
    proof
      assume k: "(k, rr_OrderID req) \<in> active_requests s"
      then obtain r where r: "(k, r) \<in> set (bs_refunds s)" "Active r" "rr_OrderID r = rr_OrderID req"
        by (auto simp: active_requests_def)
      then have "rr_ID r = k" using tables_okD(2,4) [OF assms(1)] by (simp add: map_of_mem)
      moreover have "rr_ID r = ''''" using 1(4) r oid by simp
      ultimately show False using k assms(2) by (auto simp: active_ok_def)
    qed
    show ?thesis unfolding active_ok_def
    proof (intro allI impI)
      fix k k' i
      assume "(k, i) \<in> active_requests s' \<and> (k', i) \<in> active_requests s'"
      then show "k = k' \<and> k \<noteq> ''''"
        using new [of k i] new [of k' i] free assms(2,3) unfolding active_ok_def
        by (cases "i = rr_OrderID req") auto
    qed
  qed
qed (use assms in auto)


lemma event_active: "active_requests (snd (ApplyBillingEvent env event now s)) \<subseteq> active_requests s"
  by (rule event_keeps [OF shrinking.ApplyBillingEventRules]) (simp_all add: active_requests_def)

lemma transition_active: "active_requests (snd (TransitionRefundRequest env tr now s)) \<subseteq> active_requests s"
  unfolding TransitionRefundRequest_def
  by (rule rollback_active [OF frame.TransitionRefundRules])
    (use keepsD [OF shrinking.TransitionRefundRules] in blast)+

lemma submitted_active:
  "active_requests (snd (RecordRefundSubmitted ident refundID now s)) \<subseteq> active_requests s"
proof (cases "map_of (bs_refunds s) ident")
  case (Some req)
  let ?req = "req\<lparr>rr_DodoRefundID := Some refundID, rr_UpdatedAt := now\<rparr>"
  have "Active ?req = Active req" "rr_OrderID ?req = rr_OrderID req" by (simp_all add: Active_def)
  moreover have "Active req \<Longrightarrow> (ident, rr_OrderID req) \<in> active_requests s"
    using map_of_SomeD [OF Some] by (auto simp: active_requests_def)
  ultimately have "active_requests (s\<lparr>bs_refunds := AList.update ident ?req (bs_refunds s)\<rparr>) \<subseteq> active_requests s"
    using active_update [of "s\<lparr>bs_refunds := AList.update ident ?req (bs_refunds s)\<rparr>" ident ?req s]
    by (auto split: if_splits)
  then show ?thesis using Some by (simp add: RecordRefundSubmitted_def)
qed (simp add: RecordRefundSubmitted_def)

lemma quiet_refunds:
  "bs_refunds (snd (InitTenantBilling row entry s)) = bs_refunds s"
  "bs_refunds (snd (SetTenantBillingMode t mode now s)) = bs_refunds s"
  "bs_refunds (snd (SetDodoCustomerID t customer now s)) = bs_refunds s"
  "bs_refunds (snd (CreateCreditPackage pkg s)) = bs_refunds s"
  "bs_refunds (snd (UpdateCreditPackage pkg s)) = bs_refunds s"
  "bs_refunds (snd (PutModelPrice price s)) = bs_refunds s"
  "bs_refunds (snd (DeleteModelPrice alias s)) = bs_refunds s"
  "bs_refunds (snd (CreateCheckoutOrder order s)) = bs_refunds s"
  "bs_refunds (snd (SetCheckoutOrderSession ident session now s)) = bs_refunds s"
  "bs_refunds (snd (AdjustCredit e s)) = bs_refunds s"
  "bs_refunds (snd (ChargeUsage rnd records charges s)) = bs_refunds s"
  by (simp_all add: InitTenantBilling_def SetTenantBillingMode_def SetDodoCustomerID_def Let_def
      CreateCreditPackage_def UpdateCreditPackage_def PutModelPrice_def DeleteModelPrice_def CreateCheckoutOrder_def
      SetCheckoutOrderSession_def snd_AdjustCredit applyCredit_frame ChargeUsage_frame split: option.splits)

lemma active_ok_cong: "bs_refunds s' = bs_refunds s \<Longrightarrow> active_ok s' = active_ok s"
  by (simp add: active_ok_def active_requests_def)

lemmas quiet_active = quiet_refunds [THEN active_ok_cong]

lemma step_active_ok: "billing_step s s' \<Longrightarrow> tables_ok s \<Longrightarrow> active_ok s \<Longrightarrow> active_ok s'"
proof (induction rule: billing_step.induct)
  case (OpenRefund req s env pol now)
  then show ?case by (simp add: open_active)
next
  case (ApproveRefund s env ident reviewer remark amount pol now)
  then show ?case using approve_active active_ok_mono by blast
next
  case (Event s env event now)
  then show ?case using event_active active_ok_mono by blast
next
  case (TransitionRefund s env tr now)
  then show ?case using transition_active active_ok_mono by blast
next
  case (Submitted s ident refundID now)
  then show ?case using submitted_active active_ok_mono by blast
qed (simp_all add: quiet_active)

lemma reach_active_ok: "billing_reach s \<Longrightarrow> active_ok s"
proof (induction rule: billing_reach.induct)
  case Start
  show ?case by (simp add: active_ok_def active_requests_def newBillingState_def)
next
  case (Step s s')
  then show ?case using reach_ok step_active_ok by blast
qed


section \<open>Properties\<close>

text \<open>
  C3. After any sequence of calls on the store, each tenant's balance is an \<open>int64\<close> equal to the sum
  of its ledger entries, every entry records the running balance it left behind, and no two entries
  carry the same idempotency key.
\<close>

theorem books_balance:
  assumes "billing_reach s"
  shows "balance_of s t = entries_sum t (bs_ledger s) \<and> in_int64 (balance_of s t)
    \<and> (\<forall>i < length (bs_ledger s). le_BalanceAfterMicro (bs_ledger s ! i)
         = entries_sum (le_TenantID (bs_ledger s ! i)) (take (Suc i) (bs_ledger s)))
    \<and> distinct (ledger_keys (bs_ledger s))"
  using reach_ok [OF assms] ledger_ok_sum [of s t] ledger_ok_range [of s t]
  by (auto simp: ledger_ok_def chain_ok_def)

theorem books_balance_witness:
  "\<exists>row entry. initialBilling True 5 [] ''t1'' 7 = Some (row, Some entry)
     \<and> balance_of (snd (InitTenantBilling row (Some entry) newBillingState)) ''t1'' = 5000000"
proof -
  obtain row entry where init: "initialBilling True 5 [] ''t1'' 7 = Some (row, Some entry)"
    by (simp add: initialBilling_def Let_def)
  have entry: "tb_TenantID row = ''t1''" "le_AmountMicro entry = 5000000" "le_TenantID entry = ''t1''"
    using init by (auto simp: initialBilling_def Let_def MicroPerCredit_def wrap64_def)
  let ?s = "snd (InitTenantBilling row (Some entry) newBillingState)"
  have "billing_reach ?s" by (rule billing_reach.Step [OF billing_reach.Start billing_step.Init [OF init]])
  from books_balance [OF this, of "''t1''"] have "balance_of ?s ''t1'' = entries_sum ''t1'' (bs_ledger ?s)" by blast
  also have "\<dots> = 5000000" using entry by (simp add: InitTenantBilling_def newBillingState_def)
  finally show ?thesis using init by blast
qed

text \<open>
  C25. A provider event is applied exactly once and all or nothing: a failed event leaves the store as it
  was, webhook id included, so its redelivery is tried again; an accepted one makes every later delivery
  of its webhook id a duplicate that changes nothing.
\<close>

theorem billing_event_atomic:
  assumes "ApplyBillingEvent env event now s = (r, s')"
  shows "(\<forall>e. r = Inl e \<longrightarrow> s' = s)
    \<and> (\<forall>result event' env' now'. r = Inr result \<and> ev_WebhookID event \<noteq> '''' \<and> ev_WebhookID event' = ev_WebhookID event
         \<longrightarrow> ApplyBillingEvent env' event' now' s' = (Inr (outcome_only BillingOutcomeDuplicate), s'))"
proof -
  have "bs_webhooks s' (ev_WebhookID event) \<noteq> None" if "r = Inr result" and "ev_WebhookID event \<noteq> ''''" for result
    using assms that by (auto simp: ApplyBillingEvent_def split: if_splits prod.splits sum.splits)
  then show ?thesis
    using assms ApplyBillingEvent_failed [of env event now s] by (auto simp: ApplyBillingEvent_def)
qed

lemma sample_state_ok: "ledger_ok sample_state" and sample_state_tables: "tables_ok sample_state"
  by (simp_all add: sample_state_def newBillingState_def ledger_ok_def tables_ok_def balance_of_def tenant_row_def
      sample_tenant_def sample_order_def chain_ok_def ledger_keys_def map_filter_def keyed_by_def unique_by_def)

theorem billing_event_atomic_witness:
  "ApplyBillingEvent sample_env (sample_event BillingEventPaymentFailed) 9
     (snd (ApplyBillingEvent sample_env (sample_event BillingEventPaymentFailed) 8 sample_state))
   = (Inr (outcome_only BillingOutcomeDuplicate),
      snd (ApplyBillingEvent sample_env (sample_event BillingEventPaymentFailed) 8 sample_state))"
proof -
  have "\<exists>result. fst (ApplyBillingEvent sample_env (sample_event BillingEventPaymentFailed) 8 sample_state) = Inr result"
    by (simp add: ApplyBillingEvent_def sample_event_def sample_state_def newBillingState_def with_rollback_def
        ApplyBillingEventRules_def paymentFailed_def findOrder_mem bindE_def returnE_def sample_order_def)
  then obtain result where "ApplyBillingEvent sample_env (sample_event BillingEventPaymentFailed) 8 sample_state
      = (Inr result, snd (ApplyBillingEvent sample_env (sample_event BillingEventPaymentFailed) 8 sample_state))"
    by (metis prod.collapse)
  from billing_event_atomic [OF this] show ?thesis by (simp add: sample_event_def)
qed

text \<open>
  C24. A payment credits its order's credits exactly once: an applied payment found its own tenant's
  unpaid order, in the order's currency and for at least its amount, marks it paid and adds exactly the
  order's credits to that tenant's balance; any other outcome moves no balance; and the same payment
  again is a duplicate that changes nothing.
\<close>

theorem payment_credits_once:
  assumes "ledger_ok s" and "tables_ok s" and "\<forall>(k, order) \<in> set (bs_orders s). in_int64 (co_CreditsMicro order)"
    and "ev_Kind event = BillingEventPaymentSucceeded"
    and "ApplyBillingEventRules env memLedger event now s = (Inr result, s')"
  shows "(er_Outcome result \<noteq> BillingOutcomeApplied \<longrightarrow> (\<forall>t. balance_of s' t = balance_of s t))
    \<and> (er_Outcome result = BillingOutcomeApplied \<longrightarrow>
        (\<exists>order. map_of (bs_orders s) (ev_OrderID event) = Some order \<and> payable env event order
          \<and> map_of (bs_orders s') (ev_OrderID event) = Some (paid_by env event now order)
          \<and> (\<forall>t. balance_of s' t = balance_of s t + (if t = co_TenantID order then co_CreditsMicro order else 0)))
        \<and> (\<forall>env' now'. \<exists>again. ApplyBillingEventRules env' memLedger event now' s' = (Inr again, s')
            \<and> er_Outcome again = BillingOutcomeDuplicate))"
proof -
  have run: "paymentSucceeded env memLedger event now s = (Inr result, s')"
    using assms(4,5) by (simp add: ApplyBillingEventRules_def)
  show ?thesis
    using assms(1) run
  proof (cases rule: paymentSucceeded_cases)
    case (saved order s1)
    have id: "co_ID order = ev_OrderID event" using tables_okD(3) [OF assms(2) saved(1)] .
    have range: "in_int64 (co_CreditsMicro order)" using assms(3) map_of_SomeD [OF saved(1)] by blast
    have bal: "balance_of s1 t = balance_of s t" for t by (simp add: saved(3))
    show ?thesis
    proof (cases "er_Outcome result = BillingOutcomeApplied")
      case True
      with saved(4) have post: "posted_to s1 (co_TenantID order) (co_CreditsMicro order) (TrimSpace (topup_key (ev_PaymentID event))) s'"
        by (simp add: wrap64_id [OF range])
      have paid: "map_of (bs_orders s') (ev_OrderID event) = Some (paid_by env event now order)"
        using posted_to_simps(2) [OF post] by (simp add: saved(3) id)
      have "ev_PaymentID event \<noteq> ''''" "ev_OrderID event \<noteq> ''''"
        using run True by (auto simp: paymentSucceeded_def findOrder_mem outcome_only_def op_defs split: if_splits)
      then have "\<exists>again. ApplyBillingEventRules env' memLedger event now' s' = (Inr again, s')
          \<and> er_Outcome again = BillingOutcomeDuplicate" for env' now'
        using saved(2) paid assms(4)
        by (auto simp: ApplyBillingEventRules_def paymentSucceeded_def findOrder_mem bindE_def returnE_def payable_def
            paid_by_def)
      then show ?thesis using True saved(1,2) paid posted_to_simps(1) [OF post] bal by auto
    next
      case False
      then show ?thesis using saved(4) bal by auto
    qed
  qed auto
qed


lemma unpaid_state_ok: "ledger_ok unpaid_state"
  using sample_state_ok by (simp add: unpaid_state_def)

lemma unpaid_state_tables: "tables_ok unpaid_state"
  by (simp add: unpaid_state_def tables_ok_def keyed_by_def unique_by_def sample_order_def sample_state_def
      newBillingState_def)

lemma topup_key_trimmed: "TrimSpace (topup_key ''pay_1'') = topup_key ''pay_1''"
  by (rule TrimSpace_printable) (simp_all add: topup_key_def printable_def)

lemma unpaid_state_run:
  "\<exists>result. fst (ApplyBillingEventRules sample_env memLedger (sample_event BillingEventPaymentSucceeded) 8 unpaid_state) = Inr result
     \<and> er_Outcome result = BillingOutcomeApplied"
  by (simp add: ApplyBillingEventRules_def paymentSucceeded_def findOrder_mem bindE_def returnE_def sample_event_def
      unpaid_state_def sample_order_def EqualFold_def Let_def memSaveOrder_def credit_def topup_key_trimmed
      memCredit_def applyCredit_def ledger_entry_def ledgerByKey_def sample_state_def newBillingState_def
      billingRow_def sample_tenant_def wrap64_def max_int64_def)

theorem payment_credits_once_witness:
  "balance_of (snd (ApplyBillingEventRules sample_env memLedger (sample_event BillingEventPaymentSucceeded) 8 unpaid_state)) ''t1''
     = 10000000"
proof -
  let ?s = "snd (ApplyBillingEventRules sample_env memLedger (sample_event BillingEventPaymentSucceeded) 8 unpaid_state)"
  obtain result where run: "ApplyBillingEventRules sample_env memLedger (sample_event BillingEventPaymentSucceeded) 8 unpaid_state
      = (Inr result, ?s)" and applied: "er_Outcome result = BillingOutcomeApplied"
    using unpaid_state_run by (metis prod.collapse)
  have "\<forall>(k, order) \<in> set (bs_orders unpaid_state). in_int64 (co_CreditsMicro order)"
    by (simp add: unpaid_state_def sample_order_def in_int64_def min_int64_def max_int64_def)
  from payment_credits_once [OF unpaid_state_ok unpaid_state_tables this _ run] applied
  have "balance_of ?s ''t1'' = balance_of unpaid_state ''t1'' + 10000000"
    by (auto simp: sample_event_def unpaid_state_def sample_order_def)
  then show ?thesis
    by (simp add: unpaid_state_def sample_state_def balance_of_def tenant_row_def sample_tenant_def)
qed

text \<open>
  C33. Over every history an order has at most one refund request that is pending or processing, so no
  two refunds of one payment are ever in flight together.
\<close>

theorem one_refund_in_flight:
  assumes "billing_reach s" and "(k, r) \<in> set (bs_refunds s)" and "(k', r') \<in> set (bs_refunds s)"
    and "Active r" and "Active r'" and "rr_OrderID r = rr_OrderID r'"
  shows "k = k' \<and> r = r'"
proof -
  have "(k, rr_OrderID r) \<in> active_requests s" "(k', rr_OrderID r') \<in> active_requests s"
    using assms(2-5) by (auto simp: active_requests_def)
  then have "k = k'" unfolding assms(6) using reach_active_ok [OF assms(1)] unfolding active_ok_def by blast
  moreover have "wf_map (bs_refunds s)" using reach_ok [OF assms(1)] tables_okD(2) by blast
  ultimately show ?thesis using assms(2,3) map_of_mem by (metis option.inject)
qed

text \<open>
  Approving a refund under the unused-credits policy never overdraws: the amount is at most what is
  left of the payment and what was asked for, and the held credits leave the tenant's balance
  non-negative.
\<close>

theorem approve_never_overdraws:
  assumes "ledger_ok s" and "tables_ok s" and "hold_key ident \<notin> set (ledger_keys (bs_ledger s))"
    and "ApproveRefundRequest env ident reviewer remark amount pol now s = (Inr (req, order, changed), s')"
    and "UnusedOnly pol" and "order_ok order" and "rr_TenantID req = co_TenantID order"
    and "0 \<le> balance_of s (rr_TenantID req)" and "0 < rr_AmountMinor (the (map_of (bs_refunds s) ident))"
  shows "0 \<le> balance_of s' (rr_TenantID req) \<and> rr_AmountMinor req \<le> RemainingRefundMinor order
    \<and> rr_AmountMinor req \<le> rr_AmountMinor (the (map_of (bs_refunds s) ident))"
  using assms(1-4)
proof (cases rule: ApproveRefund_cases)
  case (1 req0)
  have "RefundDelta order (rr_AmountMinor req) \<le> balance_of s (rr_TenantID req)"
    using unused_refund_bound [OF assms(6)] 1(1,8,11) assms(5,7-9) by simp
  then show ?thesis using 1(1,7,9,10,12) assms(8) by simp
qed

lemma pending_state_ok: "ledger_ok pending_state" and pending_state_tables: "tables_ok pending_state"
  and pending_state_keys: "hold_key ''rfd_1'' \<notin> set (ledger_keys (bs_ledger pending_state))"
    "release_key ''rfd_1'' \<notin> set (ledger_keys (bs_ledger pending_state))"
  by (simp_all add: pending_state_def sample_state_def newBillingState_def ledger_ok_def tables_ok_def balance_of_def
      tenant_row_def sample_tenant_def sample_order_def sample_request_def chain_ok_def ledger_keys_def map_filter_def
      keyed_by_def unique_by_def ledger_entry_def hold_key_def release_key_def wrap64_def in_int64_def min_int64_def
      max_int64_def)

lemma sample_order_sel:
  "co_ID sample_order = ''ord_1''" "co_TenantID sample_order = ''t1''" "co_Status sample_order = OrderStatusPaid"
  "co_PaidCurrency sample_order = ''USD''"
  by (simp_all add: sample_order_def)

lemma sample_order_payment: "co_DodoPaymentID sample_order = Some ''pay_1''"
  by (simp add: sample_order_def)

lemma sample_order_basis:
  "RefundBasisMinor sample_order = 999" "co_CreditsMicro sample_order = 10000000" "co_RefundedMinor sample_order = 0"
  by (simp_all add: sample_order_def RefundBasisMinor_def)

lemma sample_order_credits: "RefundCredits sample_order 499 = 4994995" "RefundCredits sample_order 0 = 0"
  by (simp_all add: RefundCredits_def sample_order_basis Let_def quo_def rem_def wrap64_def)

lemma sample_order_refunds:
  "UnusedRefundMinor sample_order 5000000 = 499" "RefundDelta sample_order 499 = 4994995"
  by (simp_all add: UnusedRefundMinor_def RemainingRefundMinor_def HeldCredits_def RefundDelta_def Let_def
      sample_order_basis sample_order_credits quo_def wrap64_def)

lemma pending_state_sel:
  "map_of (bs_refunds pending_state) ''rfd_1'' = Some sample_request" "bs_refunds pending_state = [(''rfd_1'', sample_request)]"
  "map_of (bs_orders pending_state) ''ord_1'' = Some sample_order" "balance_of pending_state ''t1'' = 5000000"
  by (simp_all add: pending_state_def sample_state_def newBillingState_def balance_of_def tenant_row_def)

lemma pending_state_limit:
  "refundLimit memLedger sample_order (sample_policy\<lparr>NotBefore := 0\<rparr>) ''rfd_1'' 9 pending_state = (Inr 499, pending_state)"
  by (simp add: refundLimit_def memOrderHasActiveRefund_def memTenantBilling_def sample_order_sel sample_policy_def
      pending_state_sel sample_request_def tenant_row_balance sample_order_refunds op_defs)

lemma pending_state_credit:
  "\<exists>changed s'. memCredit (ledger_entry rnd ''t1'' kind (- 4994995) ref (hold_key ''rfd_1'') now) pending_state
     = (Inr (changed, False), s') \<and> bs_refunds s' = bs_refunds pending_state"
  using pending_state_keys(1)
  by (simp add: memCredit_def applyCredit_def Let_def op_defs tenant_row_balance pending_state_sel ledgerByKey_None
      ledger_entry_def wrap64_def min_int64_def max_int64_def del: not_None_eq)

lemma pending_state_approve:
  "\<exists>req changed. fst (ApproveRefundRequest sample_env ''rfd_1'' '''' '''' 0 sample_policy 9 pending_state)
     = Inr (req, sample_order, changed) \<and> rr_TenantID req = ''t1'' \<and> rr_CreditsMicro req = 4994995
       \<and> rr_DodoRefundID req = None"
proof -
  have req: "rr_ID sample_request = ''rfd_1''" "rr_OrderID sample_request = ''ord_1''" "rr_TenantID sample_request = ''t1''"
    "rr_Status sample_request = RefundStatusPending" "rr_AmountMinor sample_request = 999" "rr_DodoRefundID sample_request = None"
    by (simp_all add: sample_request_def)
  obtain changed s' where "memCredit (ledger_entry (random sample_env) ''t1'' LedgerKindRefund (- 4994995) ''ord_1''
      (hold_key ''rfd_1'') 9) pending_state = (Inr (changed, False), s')" and "bs_refunds s' = bs_refunds pending_state"
    using pending_state_credit by blast
  then show ?thesis
    by (simp add: ApproveRefundRequest_def with_rollback_def ApproveRefundRules_def lockRefundRequest_mem
        pending_state_sel req pending_state_limit sample_order_refunds bindE_def returnE_def Let_def holdRefund_def
        creditOnce_def memSaveRefundRequest_def wrap64_def)
qed

theorem approve_never_overdraws_witness:
  "0 \<le> balance_of (snd (ApproveRefundRequest sample_env ''rfd_1'' '''' '''' 0 sample_policy 9 pending_state)) ''t1''"
proof -
  obtain req changed where run: "ApproveRefundRequest sample_env ''rfd_1'' '''' '''' 0 sample_policy 9 pending_state
      = (Inr (req, sample_order, changed), snd (ApproveRefundRequest sample_env ''rfd_1'' '''' '''' 0 sample_policy 9 pending_state))"
    and t: "rr_TenantID req = ''t1''"
    using pending_state_approve by (metis prod.collapse)
  have "order_ok sample_order" "co_TenantID sample_order = ''t1''" "UnusedOnly sample_policy"
    "0 \<le> balance_of pending_state ''t1''" "0 < rr_AmountMinor (the (map_of (bs_refunds pending_state) ''rfd_1''))"
    by (simp_all add: order_ok_def sample_order_def max_int64_def sample_policy_def pending_state_def balance_of_def
        tenant_row_def sample_request_def)
  with approve_never_overdraws [OF pending_state_ok pending_state_tables pending_state_keys(1) run] t show ?thesis by simp
qed

text \<open>
  A refund that fails costs nothing: approving a request and then marking it failed leaves every
  balance exactly as it was before the approval, because the release returns exactly what was held.
\<close>

theorem failed_refund_restores:
  assumes "ledger_ok s" and "tables_ok s"
    and "hold_key ident \<notin> set (ledger_keys (bs_ledger s))" and "release_key ident \<notin> set (ledger_keys (bs_ledger s))"
    and "ApproveRefundRequest env ident reviewer remark amount pol now s = (Inr (req, order, changed), s1)"
    and "TransitionRefundRequest env' tr now' s1 = (Inr (req', changed'), s2)"
    and "rt_ID tr = ident" and "rt_To tr = RefundStatusFailed"
  shows "balance_of s2 t = balance_of s t \<and> rr_Status req' = RefundStatusFailed"
  using assms(1-3,5)
proof (cases rule: ApproveRefund_cases)
  case (1 req0)
  have "map_of (bs_refunds s1) ident = Some req" using 1(13) by simp
  then have "failRefund env' memLedger req (rt_Note tr) now' s1 = (Inr (req', changed'), s2)"
    using assms(6-8)
    by (auto simp: TransitionRefundRequest_def with_rollback_succeeds TransitionRefundRules_def op_succeeds
        lockRefundRequest_succeeds split: if_splits)
  moreover have "in_int64 (rr_CreditsMicro req)" by (simp add: 1(7) RefundDelta_def Let_def)
  moreover have "release_key (rr_ID req) \<notin> set (ledger_keys (bs_ledger s1))"
    using 1(3,16) assms(4) by (auto simp: hold_key_def release_key_def)
  ultimately have "balance_of s2 t = balance_of s1 t + (if t = rr_TenantID req then max 0 (rr_CreditsMicro req) else 0)"
    and "req' = req\<lparr>rr_Status := RefundStatusFailed, rr_Failure := rt_Note tr, rr_UpdatedAt := now'\<rparr>"
    by (rule failRefund_mem [OF 1(15)])+
  then show ?thesis by (simp add: 1(12))
qed


lemma memCredit_fits:
  assumes "ledger_ok s" and "key \<notin> set (ledger_keys (bs_ledger s))" and "in_int64 (balance_of s tenant + wrap64 amount)"
  shows "\<exists>changed s'. memCredit (ledger_entry rnd tenant kind amount ref key now) s = (Inr (changed, False), s')"
proof -
  let ?e = "ledger_entry rnd tenant kind amount ref key now"
  have "in_int64 (le_AmountMicro ?e)" by (simp add: ledger_entry_def)
  with assms(1) show ?thesis
    by (cases rule: applyCredit_cases) (use assms in \<open>simp_all add: ledger_entry_def memCredit_def op_defs\<close>)
qed

theorem failed_refund_restores_witness:
  "balance_of (snd (TransitionRefundRequest sample_env fail_transition 10
     (snd (ApproveRefundRequest sample_env ''rfd_1'' '''' '''' 0 sample_policy 9 pending_state)))) ''t1'' = 5000000"
proof -
  let ?s1 = "snd (ApproveRefundRequest sample_env ''rfd_1'' '''' '''' 0 sample_policy 9 pending_state)"
  obtain req changed where run: "ApproveRefundRequest sample_env ''rfd_1'' '''' '''' 0 sample_policy 9 pending_state
      = (Inr (req, sample_order, changed), ?s1)" and t: "rr_TenantID req = ''t1''" "rr_CreditsMicro req = 4994995"
      "rr_DodoRefundID req = None"
    using pending_state_approve by (metis prod.collapse)
  from pending_state_ok pending_state_tables pending_state_keys(1) run
  have "\<exists>req' changed' s2. TransitionRefundRequest sample_env fail_transition 10 ?s1 = (Inr (req', changed'), s2)"
  proof (cases rule: ApproveRefund_cases)
    case (1 req0)
    have map: "map_of (bs_refunds ?s1) ''rfd_1'' = Some req" "map_of (bs_orders ?s1) (rr_OrderID req) = Some sample_order"
      using 1(2,5,13,14) by simp_all
    let ?req = "req\<lparr>rr_Status := RefundStatusFailed, rr_Failure := rt_Note fail_transition, rr_UpdatedAt := 10\<rparr>"
    let ?s2 = "?s1\<lparr>bs_refunds := AList.update (rr_ID req) ?req (bs_refunds ?s1)\<rparr>"
    have "balance_of ?s1 ''t1'' = 5005" using 1(12) [of "''t1''"] t by (simp add: pending_state_sel)
    then have "in_int64 (balance_of ?s2 ''t1'' + wrap64 4994995)"
      by (simp add: wrap64_def in_int64_def min_int64_def max_int64_def)
    moreover have "release_key ''rfd_1'' \<notin> set (ledger_keys (bs_ledger ?s2))"
      using 1(16) pending_state_keys(2) by (auto simp: hold_key_def release_key_def)
    ultimately obtain changed' s' where "memCredit (ledger_entry (random sample_env) ''t1'' LedgerKindRefundReversal 4994995
        (rr_OrderID req) (release_key ''rfd_1'') 10) ?s2 = (Inr (changed', False), s')"
      using memCredit_fits [of ?s2] 1(15) by fastforce
    then show ?thesis
      using 1(3,6) map t
      by (simp add: TransitionRefundRequest_def with_rollback_succeeds TransitionRefundRules_def bindE_def returnE_def
          lockRefundRequest_mem failRefund_def creditOnce_def memSaveRefundRequest_def with_rollback_def Let_def
          fail_transition_def)
  qed
  then obtain req' changed' s2 where tr: "TransitionRefundRequest sample_env fail_transition 10 ?s1 = (Inr (req', changed'), s2)"
    by blast
  have "rt_ID fail_transition = ''rfd_1''" "rt_To fail_transition = RefundStatusFailed" by (simp_all add: fail_transition_def)
  from failed_refund_restores [OF pending_state_ok pending_state_tables pending_state_keys run tr this, of "''t1''"] tr
  show ?thesis by (simp add: pending_state_sel)
qed


subsection \<open>Disputes\<close>

lemma findPaidOrder_mem:
  "findPaidOrder memLedger pid s = (if pid = '''' then (Inr (Inl (outcome_only BillingOutcomeMismatch)), s)
     else case find_value (\<lambda>order. co_DodoPaymentID order = Some pid) (bs_orders s) of
       None \<Rightarrow> (Inl ErrBillingEventEarly, s)
     | Some order \<Rightarrow> (Inr (Inr (order, \<lparr>er_Outcome = '''', er_TenantID = co_TenantID order, er_OrderID = co_ID order,
         er_BlockedChanged = False\<rparr>)), s))"
  by (simp add: findPaidOrder_def findOrder_payment_mem op_defs split: option.splits)

lemma memLedgerAmount_seen:
  "key \<in> set (ledger_keys (bs_ledger s)) \<Longrightarrow> \<exists>a. memLedgerAmount key s = (Inr (a, True), s)"
  "key \<notin> set (ledger_keys (bs_ledger s)) \<Longrightarrow> memLedgerAmount key s = (Inr (0, False), s)"
  using ledgerByKey_None [of s key] by (auto simp: memLedgerAmount_def split: option.splits)

lemma ledgerByKey_posted:
  assumes "posted_to s tenant amount key s'" and "key \<notin> set (ledger_keys (bs_ledger s))"
  shows "memLedgerAmount key s' = (Inr (amount, True), s')"
proof -
  have "List.find (\<lambda>e. le_IdempotencyKey e = Some key) (bs_ledger s) = None"
    using assms(2) ledgerByKey_None [of s key] by (simp add: ledgerByKey_def)
  moreover obtain e where "bs_ledger s' = bs_ledger s @ [e]" "le_AmountMicro e = amount" "le_IdempotencyKey e = Some key"
    using assms(1) by (auto simp: posted_to_def)
  ultimately show ?thesis
    by (simp add: memLedgerAmount_def ledgerByKey_def find_append)
qed

lemma paid_order_of_update:
  assumes "tables_ok s" and "tables_ok s'" and "find_value (\<lambda>order. co_DodoPaymentID order = Some pid) (bs_orders s) = Some order"
    and "bs_orders s' = AList.update (co_ID order) order' (bs_orders s)" and "co_DodoPaymentID order' = Some pid"
  shows "find_value (\<lambda>order. co_DodoPaymentID order = Some pid) (bs_orders s') = Some order'"
proof (rule find_value_unique)
  have mem: "map_of (bs_orders s') (co_ID order) = Some order'" by (simp add: assms(4))
  then show in': "(co_ID order, order') \<in> set (bs_orders s')" by (rule map_of_SomeD)
  show "co_DodoPaymentID order' = Some pid" by (rule assms(5))
  fix k v
  assume v: "(k, v) \<in> set (bs_orders s')" "co_DodoPaymentID v = Some pid"
  then have "k = co_ID order"
    using assms(2,5) in' unique_byD [of co_DodoPaymentID "bs_orders s'"] unfolding tables_ok_def by blast
  then show "v = order'" using v(1) mem tables_okD(1) [OF assms(2)] by (metis map_of_mem option.inject)
qed

lemma disputeOpened_applied:
  assumes "ledger_ok s" and "disputeOpened env memLedger event now s = (Inr result, s')"
    and "er_Outcome result = BillingOutcomeApplied"
  obtains order s1 where "find_value (\<lambda>order. co_DodoPaymentID order = Some (ev_PaymentID event)) (bs_orders s) = Some order"
    "ev_PaymentID event \<noteq> ''''" "ev_DisputeID event \<noteq> ''''" "dispute_key (ev_DisputeID event) \<notin> set (ledger_keys (bs_ledger s))"
    "s1 = s\<lparr>bs_orders := AList.update (co_ID order) (order\<lparr>co_Status := OrderStatusDisputed, co_UpdatedAt := now\<rparr>) (bs_orders s)\<rparr>"
    "posted_to s1 (co_TenantID order) (wrap64 (- HeldCredits order)) (TrimSpace (dispute_key (ev_DisputeID event))) s'"
proof -
  obtain order where order: "find_value (\<lambda>order. co_DodoPaymentID order = Some (ev_PaymentID event)) (bs_orders s) = Some order"
    and ne: "ev_PaymentID event \<noteq> ''''" "ev_DisputeID event \<noteq> ''''"
    using assms(2,3)
    by (auto simp: disputeOpened_def findPaidOrder_mem outcome_only_def op_defs split: if_splits option.splits)
  have fresh: "dispute_key (ev_DisputeID event) \<notin> set (ledger_keys (bs_ledger s))"
    using assms(2,3) order ne memLedgerAmount_seen(1) [of "dispute_key (ev_DisputeID event)" s]
    by (auto simp: disputeOpened_def findPaidOrder_mem op_defs Let_def)
  define s1 where "s1 = s\<lparr>bs_orders := AList.update (co_ID order) (order\<lparr>co_Status := OrderStatusDisputed, co_UpdatedAt := now\<rparr>) (bs_orders s)\<rparr>"
  have run: "credit env memLedger \<lparr>er_Outcome = '''', er_TenantID = co_TenantID order, er_OrderID = co_ID order,
       er_BlockedChanged = False\<rparr> (co_TenantID order) LedgerKindDispute (wrap64 (- HeldCredits order)) (co_ID order)
       (dispute_key (ev_DisputeID event)) now s1 = (Inr result, s')"
    using assms(2) order ne memLedgerAmount_seen(2) [OF fresh]
    by (auto simp: disputeOpened_def findPaidOrder_mem bindE_def returnE_def Let_def memSaveOrder_def
        s1_def HeldCredits_def split: if_splits)
  have "ledger_ok s1" using assms(1) by (simp add: s1_def)
  from credit_effect [OF this run] assms(3)
  have "posted_to s1 (co_TenantID order) (wrap64 (- HeldCredits order)) (TrimSpace (dispute_key (ev_DisputeID event))) s'"
    by (simp add: wrap64_id)
  then show thesis using that [OF order ne fresh s1_def] by blast
qed


text \<open>
  Winning a dispute undoes it: opening a dispute takes back exactly the credits that refunds had left
  to the order, and the win that follows returns exactly that, so every balance is what it was before.
\<close>

theorem dispute_won_restores:
  assumes "ledger_ok s" and "tables_ok s" and "\<forall>(k, order) \<in> set (bs_orders s). order_ok order"
    and "TrimSpace (dispute_key (ev_DisputeID event)) = dispute_key (ev_DisputeID event)"
    and "disputeOpened env memLedger event now s = (Inr opened, s1)" and "er_Outcome opened = BillingOutcomeApplied"
    and "disputeWon env' memLedger event' now' s1 = (Inr won, s2)" and "er_Outcome won = BillingOutcomeApplied"
    and "ev_PaymentID event' = ev_PaymentID event" and "ev_DisputeID event' = ev_DisputeID event"
  shows "\<exists>order. find_value (\<lambda>order. co_DodoPaymentID order = Some (ev_PaymentID event)) (bs_orders s) = Some order
    \<and> (\<forall>t. balance_of s1 t = balance_of s t - (if t = co_TenantID order then HeldCredits order else 0))
    \<and> (\<forall>t. balance_of s2 t = balance_of s t)"
  using assms(1,5,6)
proof (cases rule: disputeOpened_applied)
  case (1 order s0)
  let ?key = "dispute_key (ev_DisputeID event)" and ?order = "order\<lparr>co_Status := OrderStatusDisputed, co_UpdatedAt := now\<rparr>"
  have "order_ok order" using find_value_Some [OF 1(1)] assms(3) by blast
  then have "0 \<le> HeldCredits order" "HeldCredits order \<le> max_int64"
    using HeldCredits_value [of order] RefundCredits_range(1) [of order "co_RefundedMinor order"]
    by (auto simp: order_ok_def)
  then have range: "in_int64 (- HeldCredits order)" "in_int64 (HeldCredits order)"
    by (auto simp: in_int64_def min_int64_def max_int64_def)
  have post: "posted_to s0 (co_TenantID order) (- HeldCredits order) ?key s1"
    using 1(6) by (simp add: assms(4) wrap64_id [OF range(1)])
  have bal1: "balance_of s1 t = balance_of s t - (if t = co_TenantID order then HeldCredits order else 0)" for t
    using posted_to_simps(1) [OF post] by (simp add: 1(5))
  have amount: "memLedgerAmount ?key s1 = (Inr (- HeldCredits order, True), s1)"
    using ledgerByKey_posted [OF post] 1(4) by (simp add: 1(5))
  have "tables_ok s1" using keepsD [OF keyed.disputeOpened assms(5)] assms(2) by blast
  then have found: "find_value (\<lambda>order. co_DodoPaymentID order = Some (ev_PaymentID event)) (bs_orders s1) = Some ?order"
    using paid_order_of_update [OF assms(2) _ 1(1), of s1 ?order] posted_to_simps(2) [OF post] find_value_Some [OF 1(1)]
    by (simp add: 1(5))
  obtain order' s3 where credit: "credit env' memLedger \<lparr>er_Outcome = '''', er_TenantID = co_TenantID order, er_OrderID = co_ID order,
       er_BlockedChanged = False\<rparr> (co_TenantID order) LedgerKindDisputeReversal (HeldCredits order) (co_ID order)
       (dispute_won_key (ev_DisputeID event)) now' s3 = (Inr won, s2)" and s3: "s3 = s1\<lparr>bs_orders := order'\<rparr>"
    using assms(7) 1(2,3) found amount
    by (auto simp: disputeWon_def findPaidOrder_mem assms(9,10) bindE_def returnE_def throwE_def Let_def memSaveOrder_def
        wrap64_id [OF range(2)] split: if_splits)
  have "ledger_ok s3" using posted_to_simps(4) [OF post] by (simp add: s3)
  from credit_effect [OF this credit] assms(8)
  have "posted_to s3 (co_TenantID order) (HeldCredits order) (TrimSpace (dispute_won_key (ev_DisputeID event))) s2"
    by (simp add: wrap64_id [OF range(2)])
  then have "balance_of s2 t = balance_of s1 t + (if t = co_TenantID order then HeldCredits order else 0)" for t
    using posted_to_simps(1) by (simp add: s3)
  with 1(1) bal1 show ?thesis by auto
qed


text \<open>
  C35. A dispute is documented to take back what the order still holds. While an approved refund of the
  order is processing, its credits are already held off the balance, but they do not count as refunded
  yet, so a dispute opened then takes them a second time: the balance falls by the held credits and by
  the order's full remaining credits.
\<close>

theorem dispute_during_refund_takes_both:
  assumes "ledger_ok s" and "tables_ok s" and "order_ok order"
    and "hold_key ident \<notin> set (ledger_keys (bs_ledger s))"
    and "ApproveRefundRequest env ident reviewer remark amount pol now s = (Inr (req, order, changed), s1)"
    and "disputeOpened env' memLedger event now' s1 = (Inr opened, s2)" and "er_Outcome opened = BillingOutcomeApplied"
    and "find_value (\<lambda>order. co_DodoPaymentID order = Some (ev_PaymentID event)) (bs_orders s) = Some order"
    and "rr_TenantID req = co_TenantID order"
  shows "balance_of s2 (co_TenantID order)
    = balance_of s (co_TenantID order) - max 0 (rr_CreditsMicro req) - HeldCredits order"
  using assms(1,2,4,5)
proof (cases rule: ApproveRefund_cases)
  case approved: (1 req0)
  from approved(15) assms(6,7) show ?thesis
  proof (cases rule: disputeOpened_applied)
    case (1 order' s0)
    have order': "order' = order" using 1(1) assms(8) approved(14) by simp
    have "in_int64 (- HeldCredits order)"
      using HeldCredits_value [OF assms(3)] RefundCredits_range(1) [OF assms(3), of "co_RefundedMinor order"] assms(3)
      by (auto simp: order_ok_def in_int64_def min_int64_def max_int64_def)
    then show ?thesis
      using posted_to_simps(1) [OF 1(6), of "co_TenantID order"] approved(12) assms(9)
      by (simp add: 1(5) order' wrap64_id)
  qed
qed

lemma dispute_key_trimmed: "TrimSpace (dispute_key ''dsp_1'') = dispute_key ''dsp_1''"
  and dispute_won_key_trimmed: "TrimSpace (dispute_won_key ''dsp_1'') = dispute_won_key ''dsp_1''"
  by (rule TrimSpace_printable; simp add: dispute_key_def dispute_won_key_def printable_def)+

text \<open>A dispute of the sample order is applied whenever the balance has room for it.\<close>

lemma dispute_sample:
  assumes "ledger_ok s" and "bs_orders s = [(''ord_1'', sample_order)]" and "in_int64 (balance_of s ''t1'' - 10000000)"
    and "dispute_key ''dsp_1'' \<notin> set (ledger_keys (bs_ledger s))"
  shows "\<exists>result. fst (disputeOpened sample_env memLedger (sample_event BillingEventDisputeOpened) 10 s) = Inr result
    \<and> er_Outcome result = BillingOutcomeApplied"
proof -
  let ?order = "sample_order\<lparr>co_Status := OrderStatusDisputed, co_UpdatedAt := 10\<rparr>"
  let ?s = "s\<lparr>bs_orders := AList.update ''ord_1'' ?order (bs_orders s)\<rparr>"
  have "wrap64 (- 10000000) = - 10000000" by (simp add: wrap64_def)
  then have "\<exists>changed s'. memCredit (ledger_entry (random sample_env) ''t1'' LedgerKindDispute (- 10000000) ''ord_1''
      (dispute_key ''dsp_1'') 10) ?s = (Inr (changed, False), s')"
    using assms by (intro memCredit_fits) simp_all
  then obtain changed s' where "memCredit (ledger_entry (random sample_env) ''t1'' LedgerKindDispute (- 10000000) ''ord_1''
      (dispute_key ''dsp_1'') 10) ?s = (Inr (changed, False), s')" by blast
  then show ?thesis
    using assms(2) memLedgerAmount_seen(2) [OF assms(4)]
    by (simp add: disputeOpened_def sample_event_def findPaidOrder_mem bindE_def returnE_def Let_def memSaveOrder_def
        credit_def dispute_key_trimmed sample_order_sel sample_order_basis sample_order_credits wrap64_def
        sample_order_payment)
qed


theorem dispute_during_refund_takes_both_witness:
  "balance_of (snd (disputeOpened sample_env memLedger (sample_event BillingEventDisputeOpened) 10
     (snd (ApproveRefundRequest sample_env ''rfd_1'' '''' '''' 0 sample_policy 9 pending_state)))) ''t1'' = 5000000 - 14994995"
proof -
  let ?s1 = "snd (ApproveRefundRequest sample_env ''rfd_1'' '''' '''' 0 sample_policy 9 pending_state)"
  obtain req changed where run: "ApproveRefundRequest sample_env ''rfd_1'' '''' '''' 0 sample_policy 9 pending_state
      = (Inr (req, sample_order, changed), ?s1)" and t: "rr_TenantID req = ''t1''" "rr_CreditsMicro req = 4994995"
    using pending_state_approve by (metis prod.collapse)
  have orders: "bs_orders pending_state = [(''ord_1'', sample_order)]"
    by (simp add: pending_state_def sample_state_def)
  from pending_state_ok pending_state_tables pending_state_keys(1) run
  have "\<exists>opened. fst (disputeOpened sample_env memLedger (sample_event BillingEventDisputeOpened) 10 ?s1) = Inr opened
      \<and> er_Outcome opened = BillingOutcomeApplied"
  proof (cases rule: ApproveRefund_cases)
    case (1 req0)
    have "balance_of ?s1 ''t1'' = 5005" using 1(12) [of "''t1''"] t by (simp add: pending_state_sel)
    moreover have "dispute_key ''dsp_1'' \<notin> set (ledger_keys (bs_ledger ?s1))"
      using 1(16)
      by (auto simp: pending_state_def ledger_keys_def map_filter_def ledger_entry_def dispute_key_def hold_key_def)
    ultimately show ?thesis
      using 1(14,15) orders by (intro dispute_sample) (simp_all add: in_int64_def min_int64_def max_int64_def)
  qed
  then obtain opened where d: "disputeOpened sample_env memLedger (sample_event BillingEventDisputeOpened) 10 ?s1
      = (Inr opened, snd (disputeOpened sample_env memLedger (sample_event BillingEventDisputeOpened) 10 ?s1))"
    and applied: "er_Outcome opened = BillingOutcomeApplied" by (metis prod.collapse)
  have "order_ok sample_order" by (simp add: order_ok_def sample_order_def max_int64_def)
  from dispute_during_refund_takes_both [OF pending_state_ok pending_state_tables this pending_state_keys(1) run d applied] t
  show ?thesis
    by (simp add: orders sample_event_def sample_order_sel sample_order_payment pending_state_sel HeldCredits_def
        sample_order_basis sample_order_credits wrap64_def)
qed

lemma disputed_state_opened:
  "\<exists>opened. disputeOpened sample_env memLedger (sample_event BillingEventDisputeOpened) 10 sample_state = (Inr opened, disputed_state)
     \<and> er_Outcome opened = BillingOutcomeApplied"
  by (simp add: disputeOpened_def sample_event_def findPaidOrder_mem bindE_def returnE_def Let_def memSaveOrder_def
      credit_def dispute_key_trimmed sample_order_sel sample_order_basis sample_order_credits wrap64_def
      sample_order_payment memLedgerAmount_def ledgerByKey_def sample_state_def newBillingState_def memCredit_def
      applyCredit_def ledger_entry_def billingRow_def sample_tenant_def min_int64_def max_int64_def disputed_state_def
      sample_env_def)

lemma dispute_keys_differ: "dispute_key a \<noteq> dispute_won_key b"
  by (simp add: dispute_key_def dispute_won_key_def)

lemma disputed_state_won:
  "\<exists>won s2. disputeWon sample_env memLedger (sample_event BillingEventDisputeWon) 11 disputed_state = (Inr won, s2)
     \<and> er_Outcome won = BillingOutcomeApplied"
  by (simp add: disputeWon_def sample_event_def findPaidOrder_mem bindE_def returnE_def Let_def memSaveOrder_def
      credit_def dispute_won_key_trimmed sample_order_sel sample_order_basis wrap64_def
      sample_order_payment memLedgerAmount_def ledgerByKey_def sample_state_def newBillingState_def memCredit_def
      applyCredit_def ledger_entry_def billingRow_def sample_tenant_def min_int64_def max_int64_def disputed_state_def
      sample_env_def RefundBasisMinor_def dispute_keys_differ)

theorem dispute_won_restores_witness:
  "\<exists>won s2. disputeWon sample_env memLedger (sample_event BillingEventDisputeWon) 11 disputed_state = (Inr won, s2)
     \<and> balance_of disputed_state ''t1'' = - 10000000 \<and> balance_of s2 ''t1'' = 0"
proof -
  obtain opened where o: "disputeOpened sample_env memLedger (sample_event BillingEventDisputeOpened) 10 sample_state
      = (Inr opened, disputed_state)" "er_Outcome opened = BillingOutcomeApplied"
    using disputed_state_opened by blast
  obtain won s2 where w: "disputeWon sample_env memLedger (sample_event BillingEventDisputeWon) 11 disputed_state = (Inr won, s2)"
    "er_Outcome won = BillingOutcomeApplied" using disputed_state_won by blast
  have "\<forall>(k, order) \<in> set (bs_orders sample_state). order_ok order"
    by (simp add: sample_state_def order_ok_def sample_order_def max_int64_def)
  from dispute_won_restores [OF sample_state_ok sample_state_tables this _ o w] dispute_key_trimmed
  have "balance_of s2 ''t1'' = balance_of sample_state ''t1''" by (auto simp: sample_event_def)
  then show ?thesis using w(1)
    by (simp add: sample_state_def balance_of_def tenant_row_def sample_tenant_def disputed_state_def)
qed


lemma reviewed_state_reach: "billing_reach reviewed_state"
  unfolding reviewed_state_def
  by (intro billing_reach.Step [OF billing_reach.Step [OF billing_reach.Start billing_step.CreateOrder] billing_step.OpenRefund])
    (simp_all add: sample_request_def)

lemma reviewed_state_refunds:
  "\<exists>r. bs_refunds reviewed_state = [(''rfd_1'', r)] \<and> rr_Status r = RefundStatusPending"
  by (simp add: reviewed_state_def CreateCheckoutOrder_def newBillingState_def OpenRefundRequest_def with_rollback_def
      OpenRefundRules_def memOrderByID_def lookup_def refundLimit_def memOrderHasActiveRefund_def bindE_def returnE_def
      Let_def sample_request_def sample_order_def RemainingRefundMinor_def RefundBasisMinor_def wrap64_def
      memInsertRefundRequest_def refundCurrency_def)

theorem one_refund_in_flight_witness:
  "\<exists>k r. (k, r) \<in> set (bs_refunds reviewed_state) \<and> Active r
     \<and> (\<forall>k' r'. (k', r') \<in> set (bs_refunds reviewed_state) \<and> Active r' \<and> rr_OrderID r' = rr_OrderID r \<longrightarrow> k' = k \<and> r' = r)"
proof -
  obtain r where r: "(''rfd_1'', r) \<in> set (bs_refunds reviewed_state)" "Active r"
    using reviewed_state_refunds by (auto simp: Active_def)
  then show ?thesis using one_refund_in_flight [OF reviewed_state_reach] by blast
qed

text \<open>
  C30. Charging a batch of usage takes from every tenant exactly the cost of the requests that were not
  charged before, each once, and nothing from a tenant that is not prepaid; pushing the same batch
  again changes no balance, adds no ledger entry and reports no change.
\<close>

theorem charge_usage_once:
  assumes "ledger_ok s" and "ChargeUsage rnd records charges s = (Inr changed, s')"
  shows "balance_of s' t = balance_of s t - fresh_cost s {} charges t
    \<and> (\<exists>s''. ChargeUsage rnd' records' charges s' = (Inr False, s'')
         \<and> bs_tenants s'' = bs_tenants s' \<and> bs_ledger s'' = bs_ledger s' \<and> bs_charges s'' = bs_charges s')"
proof -
  have "price_charges s' charges empty_acc = Some empty_acc"
    using ChargeUsage_ok(3) [OF assms] by (intro price_charges_done) auto
  then have "ChargeUsage rnd' records' charges s' =
      (Inr False, s'\<lparr>bs_usageRecords := add_usage_records records' (bs_usageRecords s'), bs_charges := bs_charges s'\<rparr>)"
    by (simp add: ChargeUsage_def empty_acc_def)
  then show ?thesis using ChargeUsage_ok(2) [OF assms] by simp
qed

theorem charge_usage_once_witness:
  "\<exists>changed s'. ChargeUsage (\<lambda>_. []) [] [\<lparr>uc_RequestID = ''r1'', uc_TenantID = ''t1'', uc_Model = ''m'', uc_CostMicro = 42,
      uc_Charged = False, uc_CreatedAt = 5\<rparr>] sample_state = (Inr changed, s') \<and> balance_of s' ''t1'' = - 42"
proof -
  let ?c = "[\<lparr>uc_RequestID = ''r1'', uc_TenantID = ''t1'', uc_Model = ''m'', uc_CostMicro = 42,
      uc_Charged = False, uc_CreatedAt = 5\<rparr>]"
  have "\<exists>changed. fst (ChargeUsage (\<lambda>_. []) [] ?c sample_state) = Inr changed"
    by (simp add: ChargeUsage_def price_charge_def empty_acc_def Let_def sample_state_def newBillingState_def
        sample_tenant_def debit_of_def max_int64_def min_int64_def balance_of_def tenant_row_def case_prod_beta)
  then obtain changed where run: "ChargeUsage (\<lambda>_. []) [] ?c sample_state
      = (Inr changed, snd (ChargeUsage (\<lambda>_. []) [] ?c sample_state))" by (metis prod.collapse)
  from charge_usage_once [OF sample_state_ok run, of "''t1''"]
  have "balance_of (snd (ChargeUsage (\<lambda>_. []) [] ?c sample_state)) ''t1'' = balance_of sample_state ''t1'' - fresh_cost sample_state {} ?c ''t1''"
    by blast
  also have "\<dots> = - 42"
    by (simp add: sample_state_def newBillingState_def balance_of_def tenant_row_def sample_tenant_def)
  finally show ?thesis using run by blast
qed

end
