(* ===== verification/AtomicFile.thy ===== *)
theory AtomicFile
  imports AISW_Prelude
begin

text \<open>
  The Registry keeps its state in JSON files that it replaces as a whole: \<open>writeFileAtomic\<close>, of
  which \<open>tokenstore\<close>, \<open>identitystore\<close> and \<open>ca\<close> hold one copy each, writes a temporary file
  and renames it over the old one. A file's content is either a complete encoding of a list of records
  or a truncated one; \<open>encoding/json\<close> reads back what it wrote, so a complete encoding stands for
  its records.

  The lemmas show what the stores build on: at every point of a write, a reader of the file finds
  either the old content or the new one, and an error means the old one.
\<close>


section \<open>Definitions\<close>

datatype 'r content = Encoded (encoded: "'r list") | Truncated

text \<open>The target file and the temporary file next to it, \<open>None\<close> when there is none.\<close>

record 'r disk =
  target :: "'r content option"
  temp :: "'r content option"

text \<open>What may go wrong: the encoder, or one of the system calls, in the order the code makes them.\<close>

datatype write_fault = MarshalFault | CreateTempFault | ChmodFault | WriteFault | SyncFault | CloseFault | RenameFault

text \<open>
  The disk after each system call of one run, the deferred \<open>os.Remove\<close> last. A process that dies
  during the write leaves the disk in one of these states.
\<close>

definition writeFileAtomic_trace :: "write_fault option \<Rightarrow> 'r list \<Rightarrow> 'r disk \<Rightarrow> 'r disk list" where
  "writeFileAtomic_trace fault data d =
     (let created = d\<lparr>temp := Some Truncated\<rparr>;
          written = d\<lparr>temp := Some (Encoded data)\<rparr>;
          renamed = d\<lparr>target := Some (Encoded data), temp := None\<rparr>;
          removed = d\<lparr>temp := None\<rparr> in
      if fault = Some CreateTempFault then [d]
      else if fault = Some ChmodFault then [d, created, removed]
      else if fault = Some WriteFault then [d, created, created, removed]
      else if fault = Some SyncFault \<or> fault = Some CloseFault \<or> fault = Some RenameFault
      then [d, created, created, written, removed]
      else [d, created, created, written, renamed])"

definition writeFileAtomic :: "write_fault option \<Rightarrow> 'r list \<Rightarrow> 'r disk \<Rightarrow> bool \<times> 'r disk" where
  "writeFileAtomic fault data d = (fault = None, last (writeFileAtomic_trace fault data d))"

text \<open>\<open>persistLocked\<close> encodes first and does not touch the disk when that fails.\<close>

definition persist_file :: "write_fault option \<Rightarrow> 'r list \<Rightarrow> 'r disk \<Rightarrow> bool \<times> 'r disk" where
  "persist_file fault data d =
     (if fault = Some MarshalFault then (False, d) else writeFileAtomic fault data d)"

text \<open>The part of \<open>Open\<close> that both stores share: what reading the file gives.\<close>

definition load_file :: "'r disk \<Rightarrow> 'r list option" where
  "load_file d = (case target d of None \<Rightarrow> Some [] | Some (Encoded data) \<Rightarrow> Some data | Some Truncated \<Rightarrow> None)"

definition blank_disk :: "'r disk" where
  "blank_disk = \<lparr>target = None, temp = None\<rparr>"


section \<open>Lemmas\<close>

lemma write_is_atomic:
  assumes "d' \<in> set (writeFileAtomic_trace fault data d)"
  shows "target d' = target d \<or> target d' = Some (Encoded data)"
  using assms by (auto simp: writeFileAtomic_trace_def Let_def split: if_splits)

lemma persist_fails [simp]: "fst (persist_file (Some f) data d) = False"
  by (simp add: persist_file_def writeFileAtomic_def)

lemma persist_fails_target [simp]: "target (snd (persist_file (Some f) data d)) = target d"
  by (cases f) (simp_all add: persist_file_def writeFileAtomic_def writeFileAtomic_trace_def Let_def)

lemma persist_succeeds [simp]: "persist_file None data d = (True, d\<lparr>target := Some (Encoded data), temp := None\<rparr>)"
  by (simp add: persist_file_def writeFileAtomic_def writeFileAtomic_trace_def Let_def)

lemma persist_file_iff: "persist_file fault data d = (ok, d') \<Longrightarrow> ok \<longleftrightarrow> fault = None"
  by (cases fault) (auto dest: arg_cong [of _ _ fst])

lemma load_file_cong: "target d = target d' \<Longrightarrow> load_file d = load_file d'"
  by (simp add: load_file_def)

lemma load_file_persist:
  "persist_file fault data d = (ok, d') \<Longrightarrow> load_file d' = (if ok then Some data else load_file d)"
  by (cases fault) (auto simp: load_file_def dest: arg_cong [of _ _ fst] arg_cong [of _ _ "\<lambda>x. target (snd x)"])

lemma load_blank [simp]: "load_file blank_disk = Some []"
  by (simp add: load_file_def blank_disk_def)

end
