(* ===== verification/Go_Base64.thy ===== *)
theory Go_Base64
  imports Go_Strings
begin

text \<open>
  \<open>base64.RawURLEncoding\<close> of the Go standard library: the URL-safe alphabet, no padding. A string
  is a list of bytes, as everywhere in the development. The encoder is injective, and the decoder
  reads back what the encoder wrote.
\<close>


section \<open>Definitions\<close>

definition b64_alphabet :: string where
  "b64_alphabet = ''ABCDEFGHIJKLMNOPQRSTUVWXYZabcdefghijklmnopqrstuvwxyz0123456789-_''"

definition b64_char :: "nat \<Rightarrow> char" where
  "b64_char n = b64_alphabet ! n"

text \<open>Three bytes are four digits of six bits, most significant first.\<close>

fun b64_encode :: "nat list \<Rightarrow> string" where
  "b64_encode (a # b # c # rest) =
     b64_char (a div 4) # b64_char ((a mod 4) * 16 + b div 16)
       # b64_char ((b mod 16) * 4 + c div 64) # b64_char (c mod 64) # b64_encode rest"
| "b64_encode [a, b] = [b64_char (a div 4), b64_char ((a mod 4) * 16 + b div 16), b64_char ((b mod 16) * 4)]"
| "b64_encode [a] = [b64_char (a div 4), b64_char ((a mod 4) * 16)]"
| "b64_encode [] = []"

definition EncodeToString :: "string \<Rightarrow> string" where
  "EncodeToString s = b64_encode (map byte s)"

fun b64_value_from :: "char \<Rightarrow> string \<Rightarrow> nat \<Rightarrow> nat option" where
  "b64_value_from c [] n = None"
| "b64_value_from c (d # ds) n = (if c = d then Some n else b64_value_from c ds (Suc n))"

definition b64_value :: "char \<Rightarrow> nat option" where
  "b64_value c = b64_value_from c b64_alphabet 0"

text \<open>
  The decoder skips carriage returns and line feeds, refuses any other byte outside the alphabet and a
  single left-over digit, and, not being strict, ignores the bits of a last digit that no byte needs.
\<close>

fun b64_digits :: "string \<Rightarrow> nat list option" where
  "b64_digits [] = Some []"
| "b64_digits (c # cs) =
     (if c = CHR 0x0A \<or> c = CHR 0x0D then b64_digits cs
      else case b64_value c of None \<Rightarrow> None
      | Some n \<Rightarrow> (case b64_digits cs of None \<Rightarrow> None | Some ns \<Rightarrow> Some (n # ns)))"

fun b64_bytes :: "nat list \<Rightarrow> nat list option" where
  "b64_bytes (a # b # c # d # rest) = (case b64_bytes rest of None \<Rightarrow> None
     | Some bs \<Rightarrow> Some ((a * 4 + b div 16) # ((b mod 16) * 16 + c div 4) # ((c mod 4) * 64 + d) # bs))"
| "b64_bytes [a, b, c] = Some [a * 4 + b div 16, (b mod 16) * 16 + c div 4]"
| "b64_bytes [a, b] = Some [a * 4 + b div 16]"
| "b64_bytes [a] = None"
| "b64_bytes [] = Some []"

definition DecodeString :: "string \<Rightarrow> string option" where
  "DecodeString s = (case b64_digits s of None \<Rightarrow> None
     | Some ns \<Rightarrow> (case b64_bytes ns of None \<Rightarrow> None | Some bs \<Rightarrow> Some (map char_of bs)))"


section \<open>Lemmas\<close>

lemma length_alphabet [simp]: "length b64_alphabet = 64"
  by (simp add: b64_alphabet_def)

lemma b64_value_from_nth:
  "distinct ds \<Longrightarrow> i < length ds \<Longrightarrow> b64_value_from (ds ! i) ds n = Some (n + i)"
proof (induction ds arbitrary: i n)
  case (Cons d ds)
  then show ?case by (cases i) auto
qed simp

lemma distinct_alphabet: "distinct b64_alphabet"
  by (simp add: b64_alphabet_def)

lemma b64_value_char [simp]: "n < 64 \<Longrightarrow> b64_value (b64_char n) = Some n"
  using b64_value_from_nth [of b64_alphabet n 0] distinct_alphabet by (simp add: b64_value_def b64_char_def)

lemma b64_char_plain: "n < 64 \<Longrightarrow> b64_char n \<noteq> CHR 0x0A \<and> b64_char n \<noteq> CHR 0x0D"
proof -
  assume "n < 64"
  then have "b64_char n \<in> set b64_alphabet" by (simp add: b64_char_def)
  then show ?thesis by (auto simp: b64_alphabet_def)
qed

lemma b64_digits_char [simp]:
  "n < 64 \<Longrightarrow> b64_digits (b64_char n # cs) = (case b64_digits cs of None \<Rightarrow> None | Some ns \<Rightarrow> Some (n # ns))"
  by (simp add: b64_char_plain)

lemma six_bits:
  fixes a b :: nat
  assumes "a < 256" "b < 256"
  shows "a div 4 < 64" "(a mod 4) * 16 + b div 16 < 64" "(a mod 16) * 4 + b div 64 < 64"
    "a mod 64 < 64" "(a mod 4) * 16 < 64" "(a mod 16) * 4 < 64"
  using assms by simp_all

lemma split_digits:
  fixes x y :: nat
  shows "y < 16 \<Longrightarrow> (x * 16 + y) div 16 = x" "y < 16 \<Longrightarrow> (x * 16 + y) mod 16 = y"
    "y < 4 \<Longrightarrow> (x * 4 + y) div 4 = x" "y < 4 \<Longrightarrow> (x * 4 + y) mod 4 = y"
  by simp_all

lemma join_bytes:
  fixes a b c :: nat
  assumes "b < 256" "c < 256"
  shows "a div 4 * 4 + ((a mod 4) * 16 + b div 16) div 16 = a"
    and "((a mod 4) * 16 + b div 16) mod 16 * 16 + ((b mod 16) * 4 + c div 64) div 4 = b"
    and "((b mod 16) * 4 + c div 64) mod 4 * 64 + c mod 64 = c"
    and "((a mod 4) * 16 + b div 16) mod 16 * 16 + ((b mod 16) * 4) div 4 = b"
    and "a div 4 * 4 + ((a mod 4) * 16) div 16 = a"
proof -
  have "b div 16 < 16" "c div 64 < 4" using assms by simp_all
  then have *: "((a mod 4) * 16 + b div 16) div 16 = a mod 4" "((a mod 4) * 16 + b div 16) mod 16 = b div 16"
    "((b mod 16) * 4 + c div 64) div 4 = b mod 16" "((b mod 16) * 4 + c div 64) mod 4 = c div 64"
    by (simp_all only: split_digits)
  show "a div 4 * 4 + ((a mod 4) * 16 + b div 16) div 16 = a"
    and "((a mod 4) * 16 + b div 16) mod 16 * 16 + ((b mod 16) * 4 + c div 64) div 4 = b"
    and "((b mod 16) * 4 + c div 64) mod 4 * 64 + c mod 64 = c"
    unfolding * by (rule div_mult_mod_eq)+
  show "((a mod 4) * 16 + b div 16) mod 16 * 16 + ((b mod 16) * 4) div 4 = b"
    unfolding * nonzero_mult_div_cancel_right [OF numeral_neq_zero] by (rule div_mult_mod_eq)
  show "a div 4 * 4 + ((a mod 4) * 16) div 16 = a"
    unfolding nonzero_mult_div_cancel_right [OF numeral_neq_zero] by (rule div_mult_mod_eq)
qed

lemma digits_encode:
  "\<forall>b \<in> set bs. b < 256 \<Longrightarrow>
   (case b64_digits (b64_encode bs) of None \<Rightarrow> None | Some ns \<Rightarrow> b64_bytes ns) = Some bs"
proof (induction bs rule: b64_encode.induct)
  case (1 a b c rest)
  then obtain ns where ns: "b64_digits (b64_encode rest) = Some ns" "b64_bytes ns = Some rest"
    by (auto split: option.splits)
  have small: "a < 256" "b < 256" "c < 256" using 1 by auto
  have "b64_digits (b64_encode (a # b # c # rest)) =
      Some (a div 4 # ((a mod 4) * 16 + b div 16) # ((b mod 16) * 4 + c div 64) # (c mod 64) # ns)"
    using small ns six_bits [of a b] six_bits [of b c] six_bits [of c c]
    by (simp only: b64_encode.simps b64_digits_char option.case)
  then show ?case using ns small by (simp add: join_bytes del: b64_encode.simps)
next
  case (2 a b)
  then have small: "a < 256" "b < 256" by auto
  have "b64_digits (b64_encode [a, b]) = Some [a div 4, (a mod 4) * 16 + b div 16, (b mod 16) * 4]"
    using small six_bits [of a b] six_bits [of b b] by (simp only: b64_encode.simps b64_digits_char b64_digits.simps(1) option.case)
  then show ?case using small by (simp add: join_bytes del: b64_encode.simps)
next
  case (3 a)
  then have "a < 256" by simp
  then have "b64_digits (b64_encode [a]) = Some [a div 4, (a mod 4) * 16]"
    using six_bits [of a a] by (simp only: b64_encode.simps b64_digits_char b64_digits.simps(1) option.case)
  then show ?case by (simp add: join_bytes [of 0 0] del: b64_encode.simps)
qed simp


lemma Decode_Encode [simp]: "DecodeString (EncodeToString s) = Some s"
  using digits_encode [of "map byte s"]
  by (auto simp: DecodeString_def EncodeToString_def o_def split: option.splits)

lemma EncodeToString_inject [simp]: "EncodeToString s = EncodeToString t \<longleftrightarrow> s = t"
  by (metis Decode_Encode option.inject)

end
