(* ===== verification/TokenStore.thy ===== *)
theory TokenStore
  imports AtomicFile Go_Base64
begin

text \<open>
  \<open>aiServeWeaveRegistry/internal/tokenstore\<close>: the Registry's one-time bootstrap tokens. The records
  live in memory behind a mutex and are written to one file, as a whole, before a call that changed
  them returns; a write that fails is undone in memory. Each operation takes the write fault of its
  \<open>persistLocked\<close>, and \<open>MintForNode\<close> the bytes that \<open>crypto/rand\<close> delivered, or
  \<open>None\<close> when that failed.

  The lemmas show when a token can be consumed and what each call leaves behind, that collecting old
  records never drops one that could still be consumed, and that over any history of calls, failed
  writes and restarts a token is consumed at most as often as it was minted.
\<close>


section \<open>Definitions\<close>

subsection \<open>State\<close>

datatype token_error = ErrInvalidToken | ErrClaimed | TokenFailure string

record Grant =
  gr_NodeID :: string
  gr_ClaimedNodeID :: string

record token_record =
  tr_Token :: string
  tr_IssuedAt :: go_time
  tr_ExpiresAt :: go_time
  tr_Used :: bool
  tr_UsedAt :: go_time
  tr_NodeID :: string
  tr_ClaimedNodeID :: string
  tr_Revoked :: bool
  tr_RevokedAt :: go_time

definition retirementTime :: "token_record \<Rightarrow> go_time \<times> bool" where
  "retirementTime r = (if tr_Used r then (tr_UsedAt r, True)
     else if tr_Revoked r then (tr_RevokedAt r, True) else (0, False))"

definition gcAge :: duration where "gcAge = 24 * hour"

record token_store =
  ts_records :: "(string \<times> token_record) list"
  ts_disk :: "token_record disk"

type_synonym 'a token_op = "(token_store, token_error, 'a) op"

subsection \<open>Operations\<close>

text \<open>\<open>Open\<close>, after a restart: the file's records in their order, the last one of a token winning.\<close>

definition Open :: "token_record disk \<Rightarrow> token_error + token_store" where
  "Open d = (case load_file d of
       None \<Rightarrow> Inl (TokenFailure ''tokenstore: cannot parse'')
     | Some recs \<Rightarrow> Inr \<lparr>ts_records = fold (\<lambda>r. AList.update (tr_Token r) r) recs [], ts_disk = d\<rparr>)"

definition gc :: "go_time \<Rightarrow> token_store \<Rightarrow> token_store" where
  "gc now s = s\<lparr>ts_records := filter (\<lambda>(token, r).
       case retirementTime r of
         (retiredAt, True) \<Rightarrow> \<not> time_sub now retiredAt > gcAge
       | (_, False) \<Rightarrow> \<not> time_sub now (tr_ExpiresAt r) > gcAge) (ts_records s)\<rparr>"

definition persistLocked :: "write_fault option \<Rightarrow> unit token_op" where
  "persistLocked fault = (\<lambda>s.
     case persist_file fault (map snd (ts_records s)) (ts_disk s) of
       (True, d) \<Rightarrow> (Inr (), s\<lparr>ts_disk := d\<rparr>)
     | (False, d) \<Rightarrow> (Inl (TokenFailure ''tokenstore: cannot write''), s\<lparr>ts_disk := d\<rparr>))"

definition randomToken :: "string option \<Rightarrow> token_error + string" where
  "randomToken buf = (case buf of
       None \<Rightarrow> Inl (TokenFailure ''tokenstore: cannot generate token'')
     | Some bytes \<Rightarrow> Inr (EncodeToString bytes))"

text \<open>
  Writing through the pointer to a record: nothing in the map changes when the record is no longer in it.
\<close>

definition modify :: "string \<Rightarrow> (token_record \<Rightarrow> token_record) \<Rightarrow> token_store \<Rightarrow> token_store" where
  "modify token f s = s\<lparr>ts_records := AList.map_entry token f (ts_records s)\<rparr>"

definition forget :: "string \<Rightarrow> token_store \<Rightarrow> token_store" where
  "forget token s = s\<lparr>ts_records := AList.delete token (ts_records s)\<rparr>"

text \<open>Persist, and on a failure undo what the caller had changed in memory.\<close>

definition persist_or :: "write_fault option \<Rightarrow> (token_store \<Rightarrow> token_store) \<Rightarrow> unit token_op" where
  "persist_or fault undo = (\<lambda>s. case persistLocked fault s of
       (Inl e, s') \<Rightarrow> (Inl e, undo s')
     | (Inr u, s') \<Rightarrow> (Inr u, s'))"

definition MintForNode :: "write_fault option \<Rightarrow> string option \<Rightarrow> duration \<Rightarrow> go_time \<Rightarrow> string \<Rightarrow> string token_op" where
  "MintForNode fault buf ttl now nodeID = (\<lambda>s.
     if ttl \<le> 0 then (Inl (TokenFailure ''tokenstore: ttl must be positive''), s)
     else case randomToken buf of Inl e \<Rightarrow> (Inl e, s)
     | Inr token \<Rightarrow>
         let r = \<lparr>tr_Token = token, tr_IssuedAt = now, tr_ExpiresAt = time_add now ttl, tr_Used = False, tr_UsedAt = 0,
               tr_NodeID = nodeID, tr_ClaimedNodeID = '''', tr_Revoked = False, tr_RevokedAt = 0\<rparr>;
             s1 = gc now (s\<lparr>ts_records := AList.update token r (ts_records s)\<rparr>) in
         bindE (persist_or fault (forget token))
           (\<lambda>_. returnE token) s1)"

definition Mint :: "write_fault option \<Rightarrow> string option \<Rightarrow> duration \<Rightarrow> go_time \<Rightarrow> string token_op" where
  "Mint fault buf ttl now = MintForNode fault buf ttl now ''''"

definition consumableLocked :: "token_store \<Rightarrow> string \<Rightarrow> go_time \<Rightarrow> token_record option" where
  "consumableLocked s token now = (case map_of (ts_records s) token of
       None \<Rightarrow> None
     | Some r \<Rightarrow> if tr_Used r \<or> tr_Revoked r \<or> now > tr_ExpiresAt r then None else Some r)"

definition Consume :: "write_fault option \<Rightarrow> string \<Rightarrow> go_time \<Rightarrow> string token_op" where
  "Consume fault token now = (\<lambda>s.
     if token = '''' then (Inl ErrInvalidToken, s)
     else case consumableLocked s token now of None \<Rightarrow> (Inl ErrInvalidToken, s)
     | Some r \<Rightarrow>
         let s1 = gc now (modify token (\<lambda>r. r\<lparr>tr_Used := True, tr_UsedAt := now\<rparr>) s) in
         bindE (persist_or fault (modify token (\<lambda>r. r\<lparr>tr_Used := False, tr_UsedAt := 0\<rparr>)))
           (\<lambda>_. returnE (tr_NodeID r)) s1)"

definition Peek :: "string \<Rightarrow> go_time \<Rightarrow> Grant token_op" where
  "Peek token now = (\<lambda>s.
     if token = '''' then (Inl ErrInvalidToken, s)
     else case consumableLocked s token now of None \<Rightarrow> (Inl ErrInvalidToken, s)
     | Some r \<Rightarrow> (Inr \<lparr>gr_NodeID = tr_NodeID r, gr_ClaimedNodeID = tr_ClaimedNodeID r\<rparr>, s))"

definition Claim :: "write_fault option \<Rightarrow> string \<Rightarrow> string \<Rightarrow> go_time \<Rightarrow> unit token_op" where
  "Claim fault token nodeID now = (\<lambda>s.
     if token = '''' \<or> nodeID = '''' then (Inl ErrInvalidToken, s)
     else case consumableLocked s token now of None \<Rightarrow> (Inl ErrInvalidToken, s)
     | Some r \<Rightarrow>
         if tr_NodeID r \<noteq> '''' \<and> tr_NodeID r \<noteq> nodeID then (Inl ErrClaimed, s)
         else if tr_ClaimedNodeID r = nodeID then (Inr (), s)
         else if tr_ClaimedNodeID r \<noteq> '''' then (Inl ErrClaimed, s)
         else persist_or fault (modify token (\<lambda>r. r\<lparr>tr_ClaimedNodeID := ''''\<rparr>))
           (modify token (\<lambda>r. r\<lparr>tr_ClaimedNodeID := nodeID\<rparr>) s))"

definition Revoke :: "write_fault option \<Rightarrow> string \<Rightarrow> go_time \<Rightarrow> unit token_op" where
  "Revoke fault token now = (\<lambda>s.
     if token = '''' then (Inl ErrInvalidToken, s)
     else case map_of (ts_records s) token of None \<Rightarrow> (Inl ErrInvalidToken, s)
     | Some r \<Rightarrow>
         if tr_Revoked r then (Inr (), s)
         else persist_or fault (modify token (\<lambda>r'. r'\<lparr>tr_Revoked := tr_Revoked r, tr_RevokedAt := tr_RevokedAt r\<rparr>))
           (gc now (modify token (\<lambda>r. r\<lparr>tr_Revoked := True, tr_RevokedAt := now\<rparr>) s)))"

subsection \<open>Histories\<close>

datatype token_event =
    Minted string string
  | Consumed string string
  | Claimed string string
  | Revoked string
  | Nothing

text \<open>The event of a call: what it did when it succeeded, nothing when it failed.\<close>

definition outcome :: "('a \<Rightarrow> token_event) \<Rightarrow> (token_error + 'a) \<times> token_store \<Rightarrow> token_event \<Rightarrow> token_store \<Rightarrow> bool" where
  "outcome f result e s' \<longleftrightarrow> (case result of (Inr a, s'') \<Rightarrow> e = f a \<and> s' = s'' | (Inl _, s'') \<Rightarrow> e = Nothing \<and> s' = s'')"

inductive token_step :: "token_store \<Rightarrow> token_event \<Rightarrow> token_store \<Rightarrow> bool" where
  mint: "outcome (\<lambda>t. Minted t node) (MintForNode fault buf ttl now node s) e s' \<Longrightarrow> token_step s e s'"
| consume: "outcome (Consumed t) (Consume fault t now s) e s' \<Longrightarrow> token_step s e s'"
| claim: "outcome (\<lambda>_. Claimed t node) (Claim fault t node now s) e s' \<Longrightarrow> token_step s e s'"
| revoke: "outcome (\<lambda>_. Revoked t) (Revoke fault t now s) e s' \<Longrightarrow> token_step s e s'"
| restart: "Open (ts_disk s) = Inr s' \<Longrightarrow> token_step s Nothing s'"

definition empty_store :: token_store where
  "empty_store = \<lparr>ts_records = [], ts_disk = blank_disk\<rparr>"

text \<open>A token that some record, in memory or in the file, would still let through.\<close>

definition spendable :: "token_record \<Rightarrow> bool" where
  "spendable r \<longleftrightarrow> \<not> tr_Used r \<and> \<not> tr_Revoked r"

definition live :: "string \<Rightarrow> token_store \<Rightarrow> bool" where
  "live token s \<longleftrightarrow> (\<exists>r. map_of (ts_records s) token = Some r \<and> spendable r)
     \<or> (\<exists>r \<in> set (the (load_file (ts_disk s))). tr_Token r = token \<and> spendable r)"

text \<open>
  Each record is stored under its token, the file can be read back and has at most one record of a
  token, and a token that memory says is spent or revoked is no better in the file.
\<close>

definition store_ok :: "token_store \<Rightarrow> bool" where
  "store_ok s \<longleftrightarrow> wf_map (ts_records s) \<and> (\<forall>(token, r) \<in> set (ts_records s). tr_Token r = token)
     \<and> load_file (ts_disk s) \<noteq> None \<and> distinct (map tr_Token (the (load_file (ts_disk s))))
     \<and> (\<forall>(token, r) \<in> set (ts_records s). \<not> spendable r \<longrightarrow>
          (\<forall>r' \<in> set (the (load_file (ts_disk s))). tr_Token r' = token \<longrightarrow> \<not> spendable r'))"


section \<open>Lemmas\<close>

lemmas token_ops = MintForNode_def Consume_def Claim_def Revoke_def persist_or_def persistLocked_def

subsection \<open>Records and the file\<close>

definition held :: "string \<Rightarrow> token_store \<Rightarrow> token_record option" where
  "held token s = map_of (ts_records s) token"

lemma held_gc:
  "wf_map (ts_records s) \<Longrightarrow> held t (gc now s) = (case held t s of None \<Rightarrow> None
     | Some r \<Rightarrow> if time_sub now (if snd (retirementTime r) then fst (retirementTime r) else tr_ExpiresAt r) > gcAge
                 then None else Some r)"
  by (auto simp: held_def gc_def map_of_filter split: option.splits prod.splits bool.splits)

lemma held_modify [simp]: "held t (modify u f s) = (if t = u then map_option f (held t s) else held t s)"
  by (auto simp: held_def modify_def map_of_map_entry split: option.splits)

lemma held_forget [simp]: "held t (forget u s) = (if t = u then None else held t s)"
  by (simp add: held_def forget_def delete_conv')

lemma held_update [simp]: "held t (s\<lparr>ts_records := AList.update u r (ts_records s)\<rparr>) = (if t = u then Some r else held t s)"
  by (simp add: held_def)

lemma held_disk [simp]: "held t (s\<lparr>ts_disk := d\<rparr>) = held t s"
  by (simp add: held_def)

text \<open>What the file holds of a token.\<close>

definition filed :: "string \<Rightarrow> token_store \<Rightarrow> token_record set" where
  "filed token s = {r \<in> set (the (load_file (ts_disk s))). tr_Token r = token}"

lemma live_iff: "live t s \<longleftrightarrow> (\<exists>r. held t s = Some r \<and> spendable r) \<or> (\<exists>r \<in> filed t s. spendable r)"
  by (auto simp: live_def held_def filed_def)

lemma filed_same [simp]:
  "filed t (gc now s) = filed t s" "filed t (modify u f s) = filed t s" "filed t (s\<lparr>ts_records := m\<rparr>) = filed t s"
  by (simp_all add: filed_def gc_def modify_def)

definition records_ok :: "(string \<times> token_record) list \<Rightarrow> bool" where
  "records_ok m \<longleftrightarrow> wf_map m \<and> (\<forall>token r. (token, r) \<in> set m \<longrightarrow> tr_Token r = token)"

text \<open>A file that can be read back and has one record of a token, and what memory says about it.\<close>

definition file_ok :: "token_record disk \<Rightarrow> bool" where
  "file_ok d \<longleftrightarrow> load_file d \<noteq> None \<and> distinct (map tr_Token (the (load_file d)))"

definition dead_filed :: "token_store \<Rightarrow> bool" where
  "dead_filed s \<longleftrightarrow> (\<forall>t r. held t s = Some r \<longrightarrow> \<not> spendable r \<longrightarrow> (\<forall>r' \<in> filed t s. \<not> spendable r'))"

lemma store_ok_iff: "store_ok s \<longleftrightarrow> records_ok (ts_records s) \<and> file_ok (ts_disk s) \<and> dead_filed s"
proof -
  have "dead_filed s \<longleftrightarrow> (\<forall>(token, r) \<in> set (ts_records s). \<not> spendable r \<longrightarrow>
          (\<forall>r' \<in> set (the (load_file (ts_disk s))). tr_Token r' = token \<longrightarrow> \<not> spendable r'))"
    if "wf_map (ts_records s)"
    using that by (auto simp: dead_filed_def held_def filed_def map_of_mem)
  then show ?thesis by (auto simp: store_ok_def records_ok_def file_ok_def)
qed

lemma filed_unique: "file_ok d \<Longrightarrow> ts_disk s = d \<Longrightarrow> r \<in> filed t s \<Longrightarrow> r' \<in> filed t s \<Longrightarrow> r = r'"
  by (auto simp: file_ok_def filed_def distinct_map inj_on_def)

lemma filed_cong: "load_file (ts_disk s) = load_file (ts_disk s') \<Longrightarrow> filed t s = filed t s'"
  by (simp add: filed_def)

lemma records_ok_gc [simp]: "records_ok (ts_records s) \<Longrightarrow> records_ok (ts_records (gc now s))"
  by (auto simp: records_ok_def gc_def)

lemma records_ok_modify [simp]:
  "records_ok (ts_records s) \<Longrightarrow> (\<And>r. tr_Token (f r) = tr_Token r) \<Longrightarrow> records_ok (ts_records (modify u f s))"
  by (auto simp: records_ok_def modify_def set_map_entry split: if_splits)

lemma records_ok_update [simp]: "records_ok m \<Longrightarrow> tr_Token r = u \<Longrightarrow> records_ok (AList.update u r m)"
  using set_update_subset [of u r m] by (auto simp: records_ok_def)

lemma records_ok_forget [simp]: "records_ok (ts_records s) \<Longrightarrow> records_ok (ts_records (forget u s))"
  by (auto simp: records_ok_def forget_def AList.delete_eq)

lemma records_ok_Nil [simp]: "records_ok []"
  by (simp add: records_ok_def)

lemma records_ok_fold: "records_ok m \<Longrightarrow> records_ok (fold (\<lambda>r. AList.update (tr_Token r) r) recs m)"
  by (induction recs arbitrary: m) simp_all

lemma records_ok_wf [simp]: "records_ok (ts_records s) \<Longrightarrow> wf_map (ts_records s)"
  by (simp add: records_ok_def)

subsection \<open>Writing the file\<close>

lemma persist_or_ok:
  assumes "persist_or fault undo s = (Inr u, s')"
  shows "fault = None \<and> ts_records s' = ts_records s \<and> load_file (ts_disk s') = Some (map snd (ts_records s))"
proof -
  obtain ok d where p: "persist_file fault (map snd (ts_records s)) (ts_disk s) = (ok, d)" by fastforce
  then show ?thesis
    using assms persist_file_iff [OF p] load_file_persist [OF p]
    by (cases ok) (auto simp: persist_or_def persistLocked_def)
qed

lemma persist_or_fails:
  assumes "persist_or fault undo s = (Inl e, s')"
  obtains d where "fault \<noteq> None" and "load_file d = load_file (ts_disk s)" and "s' = undo (s\<lparr>ts_disk := d\<rparr>)"
    and "\<exists>m. e = TokenFailure m"
proof -
  obtain ok d where p: "persist_file fault (map snd (ts_records s)) (ts_disk s) = (ok, d)" by fastforce
  then have "\<not> ok \<and> s' = undo (s\<lparr>ts_disk := d\<rparr>) \<and> (\<exists>m. e = TokenFailure m)"
    using assms by (cases ok) (auto simp: persist_or_def persistLocked_def)
  then show ?thesis using that persist_file_iff [OF p] load_file_persist [OF p] by auto
qed

lemma persist_or_None: "\<exists>s'. persist_or None undo s = (Inr (), s')"
  by (simp add: persist_or_def persistLocked_def)

lemma filed_persisted:
  assumes "records_ok (ts_records s)" and "load_file (ts_disk s') = Some (map snd (ts_records s))"
  shows "filed t s' = set_option (held t s)"
proof -
  have "r \<in> filed t s' \<longleftrightarrow> held t s = Some r" for r
    using assms by (auto simp: filed_def held_def records_ok_def map_of_mem intro: rev_image_eqI)
  then show ?thesis by (auto simp: elem_set)
qed

subsection \<open>Invariant and single use\<close>

text \<open>
  The shape every writing call has: change the records, persist, undo on failure. When it succeeds the
  file holds exactly the records; when it fails the file is what it was.
\<close>

lemma persist_or_store_ok:
  assumes "persist_or fault undo s = (res, s')" and "records_ok (ts_records s)" and "file_ok (ts_disk s)"
    and "\<And>d. records_ok (ts_records (undo (s\<lparr>ts_disk := d\<rparr>)))" and "\<And>s. ts_disk (undo s) = ts_disk s"
    and "\<And>d t r r'. held t (undo (s\<lparr>ts_disk := d\<rparr>)) = Some r \<Longrightarrow> \<not> spendable r \<Longrightarrow> r' \<in> filed t s \<Longrightarrow> \<not> spendable r'"
  shows "store_ok s'"
proof (cases res)
  case (Inl e)
  then obtain d where d: "load_file d = load_file (ts_disk s)" "s' = undo (s\<lparr>ts_disk := d\<rparr>)"
    using assms(1) by (auto elim: persist_or_fails)
  then have "dead_filed s'"
    using assms(5,6) filed_cong [of s' s] unfolding dead_filed_def by auto
  with d assms show ?thesis by (auto simp: store_ok_iff file_ok_def)
next
  case (Inr u)
  then have *: "ts_records s' = ts_records s" "load_file (ts_disk s') = Some (map snd (ts_records s))"
    using assms(1) persist_or_ok [of fault undo s u s'] by auto
  have "map (tr_Token \<circ> snd) (ts_records s) = map fst (ts_records s)"
    using assms(2) by (auto simp: records_ok_def)
  then have "distinct (map (tr_Token \<circ> snd) (ts_records s))"
    using assms(2) by (simp only: records_ok_def wf_map_def)
  moreover have "held t s' = held t s" for t using *(1) by (simp add: held_def)
  ultimately show ?thesis using assms(2) * filed_persisted [OF assms(2) *(2)]
    by (auto simp: store_ok_iff file_ok_def dead_filed_def records_ok_def wf_map_def)
qed

lemma persist_or_live:
  assumes "persist_or fault undo s = (res, s')" and "records_ok (ts_records s)" and "live t s'"
    and "\<And>s. ts_disk (undo s) = ts_disk s"
  shows "(\<exists>r. held t s = Some r \<and> spendable r) \<and> fault = None
    \<or> (\<exists>d. (\<exists>r. held t (undo (s\<lparr>ts_disk := d\<rparr>)) = Some r \<and> spendable r)) \<and> fault \<noteq> None
    \<or> (\<exists>r \<in> filed t s. spendable r) \<and> fault \<noteq> None"
proof (cases res)
  case (Inl e)
  then obtain d where "fault \<noteq> None" "load_file d = load_file (ts_disk s)" "s' = undo (s\<lparr>ts_disk := d\<rparr>)"
    using assms(1) by (auto elim: persist_or_fails)
  then show ?thesis using assms(3,4) by (auto simp: live_iff filed_def)
next
  case (Inr u)
  then have *: "fault = None" "ts_records s' = ts_records s" "load_file (ts_disk s') = Some (map snd (ts_records s))"
    using assms(1) persist_or_ok [of fault undo s u s'] by auto
  then have "held t s' = held t s" "filed t s' = set_option (held t s)"
    using filed_persisted [OF assms(2)] by (auto simp: held_def)
  then show ?thesis using assms(3) * by (auto simp: live_iff)
qed

text \<open>A record of a token, in memory or in the file, that names a node.\<close>

definition known :: "string \<Rightarrow> string \<Rightarrow> token_store \<Rightarrow> bool" where
  "known t n s \<longleftrightarrow> (\<exists>r. (held t s = Some r \<or> r \<in> filed t s) \<and> tr_NodeID r = n)"

lemma persist_or_known:
  assumes "persist_or fault undo s = (res, s')" and "records_ok (ts_records s)" and "known t n s'"
    and "\<And>s. ts_disk (undo s) = ts_disk s"
    and "\<And>d r. held t (undo (s\<lparr>ts_disk := d\<rparr>)) = Some r \<Longrightarrow> \<exists>r'. held t s = Some r' \<and> tr_NodeID r' = tr_NodeID r"
  shows "known t n s"
proof (cases res)
  case (Inl e)
  then obtain d where "load_file d = load_file (ts_disk s)" "s' = undo (s\<lparr>ts_disk := d\<rparr>)"
    using assms(1) by (auto elim: persist_or_fails)
  then show ?thesis using assms(3,4,5) by (fastforce simp: known_def filed_def)
next
  case (Inr u)
  then have *: "ts_records s' = ts_records s" "load_file (ts_disk s') = Some (map snd (ts_records s))"
    using assms(1) persist_or_ok [of fault undo s u s'] by auto
  then have "held t s' = held t s" "filed t s' = set_option (held t s)"
    using filed_persisted [OF assms(2)] by (auto simp: held_def)
  then show ?thesis using assms(3) by (auto simp: known_def)
qed

lemma gc_held_subset: "wf_map (ts_records s) \<Longrightarrow> held t (gc now s) = Some r \<Longrightarrow> held t s = Some r"
  by (auto simp: held_gc split: option.splits if_splits)

lemma gc_disk [simp]: "ts_disk (gc now s) = ts_disk s" and modify_disk [simp]: "ts_disk (modify u f s) = ts_disk s"
  and forget_disk [simp]: "ts_disk (forget u s) = ts_disk s"
  by (simp_all add: gc_def modify_def forget_def)

lemma gc_disk_update [simp]: "gc now (s\<lparr>ts_disk := d\<rparr>) = (gc now s)\<lparr>ts_disk := d\<rparr>"
  and modify_disk_update [simp]: "modify u f (s\<lparr>ts_disk := d\<rparr>) = (modify u f s)\<lparr>ts_disk := d\<rparr>"
  and forget_disk_update [simp]: "forget u (s\<lparr>ts_disk := d\<rparr>) = (forget u s)\<lparr>ts_disk := d\<rparr>"
  by (simp_all add: gc_def modify_def forget_def)

lemma records_ok_disk [simp]: "records_ok (ts_records (s\<lparr>ts_disk := d\<rparr>)) = records_ok (ts_records s)"
  by simp

lemma outcome_iff [simp]:
  "outcome f (Inr a, s1) e s' \<longleftrightarrow> e = f a \<and> s' = s1" "outcome f (Inl x, s1) e s' \<longleftrightarrow> e = Nothing \<and> s' = s1"
  by (auto simp: outcome_def)

lemma Open_disk: "Open d = Inr s \<Longrightarrow> ts_disk s = d"
  by (auto simp: Open_def split: option.splits)

lemma Open_held:
  assumes "Open d = Inr s" and "held t s = Some r"
  shows "r \<in> filed t s"
  using assms map_of_fold_update [where f = tr_Token and m = "[]" and k = t and v = r]
  by (auto simp: Open_def held_def filed_def split: option.splits)

lemma Open_ok:
  assumes "Open d = Inr s" and "file_ok d"
  shows "store_ok s"
proof -
  have "records_ok (ts_records s)" using assms(1) by (auto simp: Open_def records_ok_fold split: option.splits)
  moreover have "dead_filed s"
    using Open_held [OF assms(1)] filed_unique [OF assms(2) Open_disk [OF assms(1)]] unfolding dead_filed_def by metis
  ultimately show ?thesis using assms(2) Open_disk [OF assms(1)] by (simp add: store_ok_iff)
qed

lemma Open_live:
  assumes "Open (ts_disk s) = Inr s'" and "live t s'"
  shows "live t s"
proof -
  have "filed t s' = filed t s" using Open_disk [OF assms(1)] by (simp add: filed_def)
  then show ?thesis using assms(2) Open_held [OF assms(1)] by (auto simp: live_iff)
qed

lemma consumable_held:
  "consumableLocked s t now = Some r \<longleftrightarrow> held t s = Some r \<and> spendable r \<and> now \<le> tr_ExpiresAt r"
  by (auto simp: consumableLocked_def held_def spendable_def split: option.splits)

lemma Consume_step:
  assumes "store_ok s" and "Consume fault u now s = (res, s')"
  shows "store_ok s' \<and> (live t s' \<longrightarrow> live t s) \<and> (t = u \<and> (\<exists>n. res = Inr n) \<longrightarrow> live t s \<and> \<not> live t s')"
proof (cases "u = '''' \<or> consumableLocked s u now = None")
  case True
  with assms show ?thesis by (auto simp: Consume_def split: option.splits)
next
  case False
  then obtain r where r: "u \<noteq> ''''" "held u s = Some r" "spendable r" "consumableLocked s u now = Some r"
    using consumable_held by blast
  let ?s1 = "gc now (modify u (\<lambda>r. r\<lparr>tr_Used := True, tr_UsedAt := now\<rparr>) s)"
  let ?undo = "modify u (\<lambda>r. r\<lparr>tr_Used := False, tr_UsedAt := 0\<rparr>)"
  have ok: "records_ok (ts_records ?s1)" "file_ok (ts_disk ?s1)"
    using assms(1) by (simp_all add: store_ok_iff)
  obtain res' where p: "persist_or fault ?undo ?s1 = (res', s')" and res: "res = (case res' of Inl e \<Rightarrow> Inl e | Inr _ \<Rightarrow> Inr (tr_NodeID r))"
    using assms(2) r by (auto simp: Consume_def bindE_def returnE_def Let_def split: prod.splits sum.splits)
  have s1: "held t' ?s1 = Some r' \<Longrightarrow> if t' = u then r' = r\<lparr>tr_Used := True, tr_UsedAt := now\<rparr> else held t' s = Some r'" for t' r'
    using gc_held_subset [of "modify u (\<lambda>r. r\<lparr>tr_Used := True, tr_UsedAt := now\<rparr>) s" t' now r'] assms(1) r
    by (auto simp: store_ok_iff split: if_splits)
  have used: "\<not> spendable (r\<lparr>tr_Used := True, tr_UsedAt := now\<rparr>)" by (simp add: spendable_def)
  have undone: "held t' (?undo (?s1\<lparr>ts_disk := d\<rparr>)) = Some r' \<Longrightarrow> if t' = u then live t' s else held t' s = Some r'" for t' r' d
    using s1 [of t'] r by (auto simp: live_iff split: if_splits)
  have "store_ok s'"
  proof (rule persist_or_store_ok [OF p ok])
    fix d t r' r''
    assume "held t (?undo (?s1\<lparr>ts_disk := d\<rparr>)) = Some r'" "\<not> spendable r'" "r'' \<in> filed t ?s1"
    then show "\<not> spendable r''"
      using s1 [of t] assms(1) ok r by (auto simp: store_ok_iff dead_filed_def spendable_def split: if_splits)
  qed (use ok in simp_all)
  moreover have "live t s" if "live t s'"
    using persist_or_live [OF p ok(1) that] s1 [of t] undone [of t] used by (auto simp: live_iff split: if_splits)
  moreover have "live u s \<and> \<not> live u s'" if "res = Inr n" for n
    using persist_or_live [OF p ok(1), of u] s1 [of u] r that res persist_or_ok [of fault ?undo ?s1] p used
    by (auto simp: live_iff split: sum.splits)
  ultimately show ?thesis by blast
qed

lemma MintForNode_step:
  assumes "store_ok s" and "MintForNode fault buf ttl now node s = (res, s')"
  shows "store_ok s' \<and> (live t s' \<longrightarrow> live t s \<or> res = Inr t)"
proof (cases "ttl \<le> 0 \<or> (\<exists>e. randomToken buf = Inl e)")
  case True
  with assms show ?thesis by (auto simp: MintForNode_def split: if_splits)
next
  case False
  then obtain u where u: "randomToken buf = Inr u" "\<not> ttl \<le> 0" by (cases "randomToken buf") auto
  define r where "r = \<lparr>tr_Token = u, tr_IssuedAt = now, tr_ExpiresAt = time_add now ttl, tr_Used = False, tr_UsedAt = 0,
               tr_NodeID = node, tr_ClaimedNodeID = '''', tr_Revoked = False, tr_RevokedAt = 0\<rparr>"
  let ?s1 = "gc now (s\<lparr>ts_records := AList.update u r (ts_records s)\<rparr>)"
  let ?undo = "forget u"
  have ok: "records_ok (ts_records ?s1)" "file_ok (ts_disk ?s1)"
    using assms(1) by (simp_all add: store_ok_iff r_def)
  obtain res' where p: "persist_or fault ?undo ?s1 = (res', s')" and res: "res = (case res' of Inl e \<Rightarrow> Inl e | Inr _ \<Rightarrow> Inr u)"
    using assms(2) u by (auto simp: MintForNode_def bindE_def returnE_def Let_def r_def split: prod.splits sum.splits)
  have s1: "held t' ?s1 = Some r' \<Longrightarrow> t' \<noteq> u \<Longrightarrow> held t' s = Some r'" for t' r'
    using gc_held_subset [of "s\<lparr>ts_records := AList.update u r (ts_records s)\<rparr>" t' now r'] assms(1)
    by (auto simp: store_ok_iff)
  have "store_ok s'"
  proof (rule persist_or_store_ok [OF p ok])
    fix d t r' r''
    assume "held t (?undo (?s1\<lparr>ts_disk := d\<rparr>)) = Some r'" "\<not> spendable r'" "r'' \<in> filed t ?s1"
    then show "\<not> spendable r''"
      using s1 [of t] assms(1) by (auto simp: store_ok_iff dead_filed_def split: if_splits)
  qed (use ok in simp_all)
  moreover have "live t s \<or> res = Inr t" if "live t s'"
    using persist_or_live [OF p ok(1) that] s1 [of t] res p persist_or_fails [of fault ?undo ?s1]
    by (cases res'; cases "t = u") (auto simp: live_iff split: if_splits)
  ultimately show ?thesis by blast
qed

lemma Claim_step:
  assumes "store_ok s" and "Claim fault u node now s = (res, s')"
  shows "store_ok s' \<and> (live t s' \<longrightarrow> live t s)"
proof (cases "s' = s")
  case True
  with assms show ?thesis by simp
next
  case False
  let ?s1 = "modify u (\<lambda>r. r\<lparr>tr_ClaimedNodeID := node\<rparr>) s"
  let ?undo = "modify u (\<lambda>r. r\<lparr>tr_ClaimedNodeID := ''''\<rparr>)"
  have p: "persist_or fault ?undo ?s1 = (res, s')"
    using assms(2) False by (auto simp: Claim_def split: if_splits option.splits)
  have ok: "records_ok (ts_records ?s1)" "file_ok (ts_disk ?s1)"
    using assms(1) by (simp_all add: store_ok_iff)
  have sp: "spendable (r\<lparr>tr_ClaimedNodeID := n\<rparr>) = spendable r" for r n by (simp add: spendable_def)
  have "store_ok s'"
  proof (rule persist_or_store_ok [OF p ok])
    fix d t r' r''
    assume "held t (?undo (?s1\<lparr>ts_disk := d\<rparr>)) = Some r'" "\<not> spendable r'" "r'' \<in> filed t ?s1"
    then show "\<not> spendable r''"
      using assms(1) by (auto simp: store_ok_iff dead_filed_def sp split: if_splits)
  qed (use ok in simp_all)
  moreover have "live t s" if "live t s'"
    using persist_or_live [OF p ok(1) that] by (auto simp: live_iff sp split: if_splits)
  ultimately show ?thesis by blast
qed

lemma Revoke_step:
  assumes "store_ok s" and "Revoke fault u now s = (res, s')"
  shows "store_ok s' \<and> (live t s' \<longrightarrow> live t s) \<and> (t = u \<and> res = Inr () \<longrightarrow> \<not> live t s')"
proof (cases "u = '''' \<or> held u s = None \<or> (\<exists>r. held u s = Some r \<and> tr_Revoked r)")
  case True
  with assms(2) have "s' = s" and "res = Inr () \<Longrightarrow> \<exists>r. held u s = Some r \<and> tr_Revoked r"
    by (auto simp: Revoke_def held_def [symmetric] split: option.splits if_splits)
  then show ?thesis using assms(1) by (auto simp: live_iff store_ok_iff dead_filed_def spendable_def)
next
  case False
  then obtain r where r: "u \<noteq> ''''" "held u s = Some r" "\<not> tr_Revoked r" by auto
  let ?s1 = "gc now (modify u (\<lambda>r. r\<lparr>tr_Revoked := True, tr_RevokedAt := now\<rparr>) s)"
  let ?undo = "modify u (\<lambda>r'. r'\<lparr>tr_Revoked := False, tr_RevokedAt := tr_RevokedAt r\<rparr>)"
  have ok: "records_ok (ts_records ?s1)" "file_ok (ts_disk ?s1)"
    using assms(1) by (simp_all add: store_ok_iff)
  have p: "persist_or fault ?undo ?s1 = (res, s')"
    using assms(2) r by (auto simp: Revoke_def held_def)
  have s1: "held t' ?s1 = Some r' \<Longrightarrow> if t' = u then r' = r\<lparr>tr_Revoked := True, tr_RevokedAt := now\<rparr> else held t' s = Some r'" for t' r'
    using gc_held_subset [of "modify u (\<lambda>r. r\<lparr>tr_Revoked := True, tr_RevokedAt := now\<rparr>) s" t' now r'] assms(1) r
    by (auto simp: store_ok_iff split: if_splits)
  have undone: "held t' (?undo (?s1\<lparr>ts_disk := d\<rparr>)) = Some r' \<Longrightarrow> \<exists>r''. held t' s = Some r'' \<and> spendable r'' = spendable r'" for t' r' d
    using s1 [of t'] r by (auto simp: spendable_def split: if_splits)
  have "store_ok s'"
  proof (rule persist_or_store_ok [OF p ok])
    fix d t r' r''
    assume "held t (?undo (?s1\<lparr>ts_disk := d\<rparr>)) = Some r'" "\<not> spendable r'" "r'' \<in> filed t ?s1"
    then show "\<not> spendable r''"
      using undone [of t d r'] assms(1) by (auto simp: store_ok_iff dead_filed_def)
  qed (use ok in simp_all)
  moreover have "live t s" if "live t s'"
    using persist_or_live [OF p ok(1) that] s1 [of t] undone [of t]
    by (auto simp: live_iff spendable_def split: if_splits)
  moreover have "\<not> live u s'" if "res = Inr ()"
  proof -
    have "fault = None" using persist_or_ok p that by metis
    then show ?thesis using persist_or_live [OF p ok(1), of u] s1 [of u] by (auto simp: spendable_def)
  qed
  ultimately show ?thesis by blast
qed

lemma token_step_ok:
  assumes "token_step s e s'" and "store_ok s"
  shows "store_ok s' \<and> (live t s' \<longrightarrow> live t s \<or> (\<exists>n. e = Minted t n))
    \<and> ((\<exists>n. e = Consumed t n) \<longrightarrow> live t s \<and> \<not> live t s') \<and> (e = Revoked t \<longrightarrow> \<not> live t s')"
  using assms
proof cases
  case (mint node fault buf ttl now)
  then show ?thesis using MintForNode_step [OF assms(2), of fault buf ttl now node _ _ t]
    by (auto simp: outcome_def split: prod.splits sum.splits)
next
  case (consume u fault now)
  then show ?thesis using Consume_step [OF assms(2), of fault u now _ _ t]
    by (auto simp: outcome_def split: prod.splits sum.splits)
next
  case (claim u node fault now)
  then show ?thesis using Claim_step [OF assms(2), of fault u node now _ _ t]
    by (auto simp: outcome_def split: prod.splits sum.splits)
next
  case (revoke u fault now)
  then show ?thesis using Revoke_step [OF assms(2), of fault u now _ _ t]
    by (auto simp: outcome_def split: prod.splits sum.splits)
next
  case restart
  then show ?thesis using Open_ok [of "ts_disk s" s'] Open_live [of s s' t] assms(2) by (auto simp: store_ok_iff)
qed

lemma known_modify: "(\<And>r. tr_NodeID (f r) = tr_NodeID r) \<Longrightarrow> known t n (modify u f s) \<Longrightarrow> known t n s"
  by (auto simp: known_def split: if_splits)

lemma known_gc: "wf_map (ts_records s) \<Longrightarrow> known t n (gc now s) \<Longrightarrow> known t n s"
  by (auto simp: known_def dest: gc_held_subset)

lemma held_undo:
  assumes "\<And>r. tr_NodeID (g r) = tr_NodeID r" and "held t (modify u g (s\<lparr>ts_disk := d\<rparr>)) = Some r"
  shows "\<exists>r'. held t s = Some r' \<and> tr_NodeID r' = tr_NodeID r"
  using assms by (auto split: if_splits)

lemma Consume_known:
  assumes "store_ok s" and "Consume fault u now s = (res, s')" and "known t n s'"
  shows "known t n s"
proof (cases "s' = s")
  case False
  let ?f = "\<lambda>r. r\<lparr>tr_Used := True, tr_UsedAt := now\<rparr>" and ?g = "\<lambda>r. r\<lparr>tr_Used := False, tr_UsedAt := 0\<rparr>"
  have ok: "records_ok (ts_records (gc now (modify u ?f s)))" "wf_map (ts_records (modify u ?f s))"
    using assms(1) by (simp_all add: store_ok_iff)
  obtain res' where p: "persist_or fault (modify u ?g) (gc now (modify u ?f s)) = (res', s')"
    using assms(2) False by (auto simp: Consume_def bindE_def returnE_def Let_def split: if_splits option.splits prod.splits sum.splits)
  have "known t n (gc now (modify u ?f s))"
    by (rule persist_or_known [OF p ok(1) assms(3)]) (simp, rule held_undo [of ?g], simp_all)
  from known_modify [OF _ known_gc [OF ok(2) this]] show ?thesis by simp
qed (use assms in simp)

lemma Claim_known:
  assumes "store_ok s" and "Claim fault u node now s = (res, s')" and "known t n s'"
  shows "known t n s"
proof (cases "s' = s")
  case False
  let ?f = "\<lambda>r. r\<lparr>tr_ClaimedNodeID := node\<rparr>" and ?g = "\<lambda>r. r\<lparr>tr_ClaimedNodeID := ''''\<rparr>"
  have ok: "records_ok (ts_records (modify u ?f s))" using assms(1) by (simp add: store_ok_iff)
  have p: "persist_or fault (modify u ?g) (modify u ?f s) = (res, s')"
    using assms(2) False by (auto simp: Claim_def split: if_splits option.splits)
  have "known t n (modify u ?f s)"
    by (rule persist_or_known [OF p ok assms(3)]) (simp, rule held_undo [of ?g], simp_all)
  then show ?thesis by (rule known_modify [rotated]) simp
qed (use assms in simp)

lemma Revoke_known:
  assumes "store_ok s" and "Revoke fault u now s = (res, s')" and "known t n s'"
  shows "known t n s"
proof (cases "s' = s")
  case False
  let ?f = "\<lambda>r. r\<lparr>tr_Revoked := True, tr_RevokedAt := now\<rparr>"
  obtain b w where p: "persist_or fault (modify u (\<lambda>r. r\<lparr>tr_Revoked := b, tr_RevokedAt := w\<rparr>)) (gc now (modify u ?f s)) = (res, s')"
    using assms(2) False by (auto simp: Revoke_def split: if_splits option.splits)
  have ok: "records_ok (ts_records (gc now (modify u ?f s)))" "wf_map (ts_records (modify u ?f s))"
    using assms(1) by (simp_all add: store_ok_iff)
  have "known t n (gc now (modify u ?f s))"
    by (rule persist_or_known [OF p ok(1) assms(3)]) (simp, rule held_undo [of "\<lambda>r. r\<lparr>tr_Revoked := b, tr_RevokedAt := w\<rparr>"], simp_all)
  from known_modify [OF _ known_gc [OF ok(2) this]] show ?thesis by simp
qed (use assms in simp)

lemma MintForNode_known:
  assumes "store_ok s" and "MintForNode fault buf ttl now node s = (res, s')" and "known t n s'"
  shows "known t n s \<or> res = Inr t \<and> n = node"
proof (cases "ttl \<le> 0 \<or> (\<exists>e. randomToken buf = Inl e)")
  case True
  with assms show ?thesis by (auto simp: MintForNode_def split: if_splits)
next
  case False
  then obtain u where u: "randomToken buf = Inr u" "\<not> ttl \<le> 0" by (cases "randomToken buf") auto
  define r where "r = \<lparr>tr_Token = u, tr_IssuedAt = now, tr_ExpiresAt = time_add now ttl, tr_Used = False, tr_UsedAt = 0,
               tr_NodeID = node, tr_ClaimedNodeID = '''', tr_Revoked = False, tr_RevokedAt = 0\<rparr>"
  let ?s1 = "gc now (s\<lparr>ts_records := AList.update u r (ts_records s)\<rparr>)"
  have ok: "records_ok (ts_records ?s1)" "wf_map (ts_records (s\<lparr>ts_records := AList.update u r (ts_records s)\<rparr>))"
    using assms(1) by (simp_all add: store_ok_iff r_def)
  obtain res' where p: "persist_or fault (forget u) ?s1 = (res', s')" and res: "res = (case res' of Inl e \<Rightarrow> Inl e | Inr _ \<Rightarrow> Inr u)"
    using assms(2) u by (auto simp: MintForNode_def bindE_def returnE_def Let_def r_def split: prod.splits sum.splits)
  have s1: "held t ?s1 = Some r' \<Longrightarrow> if t = u then r' = r else held t s = Some r'" for r'
    using gc_held_subset [OF ok(2), of t now r'] by (auto split: if_splits)
  show ?thesis
  proof (cases res')
    case (Inl e)
    then obtain d where d: "load_file d = load_file (ts_disk ?s1)" "s' = forget u (?s1\<lparr>ts_disk := d\<rparr>)"
      using p by (auto elim: persist_or_fails)
    then have "filed t s' = filed t s" by (intro filed_cong) simp
    moreover have "held t s' = Some r' \<Longrightarrow> held t s = Some r'" for r' using d s1 [of r'] by (auto split: if_splits)
    ultimately show ?thesis using assms(3) by (auto simp: known_def)
  next
    case (Inr v)
    then have *: "ts_records s' = ts_records ?s1" "load_file (ts_disk s') = Some (map snd (ts_records ?s1))"
      using p persist_or_ok [of fault "forget u" ?s1 v s'] by auto
    then have "held t s' = held t ?s1" "filed t s' = set_option (held t ?s1)"
      using filed_persisted [OF ok(1) *(2)] by (auto simp: held_def)
    then obtain r' where r': "held t ?s1 = Some r'" "tr_NodeID r' = n" using assms(3) by (auto simp: known_def)
    then show ?thesis using s1 [OF r'(1)] res Inr by (cases "t = u") (auto simp: known_def r_def)
  qed
qed

lemma Open_known: "Open (ts_disk s) = Inr s' \<Longrightarrow> known t n s' \<Longrightarrow> known t n s"
  using Open_held [of "ts_disk s" s' t] Open_disk [of "ts_disk s" s'] filed_cong [of s' s t] by (auto simp: known_def)

interpretation single_use: budget token_step store_ok "\<lambda>s. of_bool (live t s)"
    "\<lambda>e. \<exists>n. e = Consumed t n" "\<lambda>e. \<exists>n. e = Minted t n" for t
proof
  show "store_ok s'" if "token_step s e s'" "store_ok s" for s e s'
    using token_step_ok [OF that] by blast
  show "of_bool (\<exists>n. e = Consumed t n) + of_bool (live t s') \<le> of_bool (live t s) + (of_bool (\<exists>n. e = Minted t n) :: nat)"
    if "token_step s e s'" "store_ok s" for s e s'
    using token_step_ok [OF that, of t] by (auto simp: of_bool_def)
qed

lemma empty_store_ok [simp]: "store_ok empty_store" and empty_store_live [simp]: "\<not> live t empty_store"
  by (simp_all add: store_ok_def live_def empty_store_def)

subsection \<open>Collecting old records\<close>

lemma gc_keeps_consumable:
  assumes "wf_map (ts_records s)" and "now \<le> later"
  shows "consumableLocked (gc now s) t later = consumableLocked s t later"
proof -
  have "held t (gc now s) = Some r" if "held t s = Some r" "spendable r" "later \<le> tr_ExpiresAt r" for r
  proof -
    have "\<not> 0 < time_sub now (tr_ExpiresAt r)" using that(3) assms(2) by simp
    moreover have "0 < gcAge" by (simp add: gcAge_def)
    ultimately have "\<not> time_sub now (tr_ExpiresAt r) > gcAge" by linarith
    then show ?thesis using that assms(1) by (simp add: held_gc retirementTime_def spendable_def)
  qed
  then have "consumableLocked (gc now s) t later = Some r \<longleftrightarrow> consumableLocked s t later = Some r" for r
    using gc_held_subset [OF assms(1), of t now r] unfolding consumable_held by blast
  then show ?thesis by (metis not_None_eq)
qed

subsection \<open>When a call succeeds\<close>

lemma Peek_iff:
  "Peek t now s = (Inr g, s') \<longleftrightarrow> s' = s \<and> t \<noteq> '''' \<and> (\<exists>r. held t s = Some r \<and> spendable r \<and> now \<le> tr_ExpiresAt r
     \<and> g = \<lparr>gr_NodeID = tr_NodeID r, gr_ClaimedNodeID = tr_ClaimedNodeID r\<rparr>)"
  using consumable_held [of s t now] by (auto simp: Peek_def split: option.splits if_splits)

lemma Consume_iff:
  "(\<exists>s'. Consume fault t now s = (Inr n, s')) \<longleftrightarrow> fault = None \<and> t \<noteq> ''''
     \<and> (\<exists>r. held t s = Some r \<and> spendable r \<and> now \<le> tr_ExpiresAt r \<and> n = tr_NodeID r)"
proof (cases "consumableLocked s t now")
  case None
  then show ?thesis using consumable_held [of s t now] by (auto simp: Consume_def)
next
  case (Some r)
  then have r: "held t s = Some r" "spendable r" "now \<le> tr_ExpiresAt r" using consumable_held [of s t now r] by auto
  have "(\<exists>s'. bindE (persist_or fault undo) (\<lambda>_. returnE m) s1 = (Inr n, s')) \<longleftrightarrow> fault = None \<and> n = m" for undo s1 m
    using persist_or_None [of undo s1] persist_or_ok [of fault undo s1] by (fastforce simp: op_succeeds)
  then show ?thesis using Some r by (auto simp: Consume_def Let_def)
qed

lemma consumable_Peek: "fst (Peek t now s) = (if t = '''' then Inl ErrInvalidToken else case consumableLocked s t now of
     None \<Rightarrow> Inl ErrInvalidToken | Some r \<Rightarrow> Inr \<lparr>gr_NodeID = tr_NodeID r, gr_ClaimedNodeID = tr_ClaimedNodeID r\<rparr>)"
  by (simp add: Peek_def split: option.splits)

lemma just_retired: "\<not> gcAge < time_sub now now"
proof -
  have "time_sub now now = 0" by (simp add: time_sub_exact)
  then show ?thesis by (simp add: gcAge_def hour_def minute_def second_def)
qed

lemma Consume_fails_harmless:
  assumes "store_ok s" and "Consume fault t now s = (Inl e, s')" and "now \<le> later"
  shows "fst (Peek u later s') = fst (Peek u later s)"
proof (cases "s' = s")
  case False
  let ?f = "\<lambda>r. r\<lparr>tr_Used := True, tr_UsedAt := now\<rparr>" and ?g = "\<lambda>r. r\<lparr>tr_Used := False, tr_UsedAt := 0\<rparr>"
  obtain r where r: "consumableLocked s t now = Some r"
    and b: "bindE (persist_or fault (modify t ?g)) (\<lambda>_. returnE (tr_NodeID r)) (gc now (modify t ?f s)) = (Inl e, s')"
    using assms(2) False by (auto simp: Consume_def Let_def split: if_splits option.splits)
  then obtain d where s': "s' = modify t ?g ((gc now (modify t ?f s))\<lparr>ts_disk := d\<rparr>)"
    by (auto elim!: bindE_cases persist_or_fails simp: returnE_def)
  have "held u s' = (if u = t then Some (?g r) else held u (gc now s))"
    using r assms(1) by (auto simp: s' held_gc store_ok_iff retirementTime_def consumable_held just_retired split: option.splits)
  then have "map_option (\<lambda>r. (tr_NodeID r, tr_ClaimedNodeID r)) (consumableLocked s' u later)
      = map_option (\<lambda>r. (tr_NodeID r, tr_ClaimedNodeID r)) (consumableLocked s u later)"
    using gc_keeps_consumable [of s now later u] assms(1,3) r
    by (cases "u = t") (auto simp: consumableLocked_def held_def store_ok_iff split: if_splits option.splits)
  then show ?thesis unfolding consumable_Peek by (auto split: option.splits)
qed simp

definition mintings :: "string \<Rightarrow> token_event list \<Rightarrow> nat" where
  "mintings t es = length (filter (\<lambda>e. \<exists>n. e = Minted t n) es)"

definition consumptions :: "string \<Rightarrow> token_event list \<Rightarrow> nat" where
  "consumptions t es = length (filter (\<lambda>e. \<exists>n. e = Consumed t n) es)"

subsection \<open>A concrete history\<close>

definition zeros :: string where "zeros = replicate 32 (CHR 0x00)"

definition token_a :: string where "token_a = EncodeToString zeros"

definition fresh_record :: token_record where
  "fresh_record = \<lparr>tr_Token = token_a, tr_IssuedAt = 0, tr_ExpiresAt = hour, tr_Used = False, tr_UsedAt = 0,
     tr_NodeID = ''n1'', tr_ClaimedNodeID = '''', tr_Revoked = False, tr_RevokedAt = 0\<rparr>"

definition sole :: "token_record \<Rightarrow> token_store" where
  "sole r = \<lparr>ts_records = [(token_a, r)], ts_disk = \<lparr>target = Some (Encoded [r]), temp = None\<rparr>\<rparr>"

lemma token_a_nonempty [simp]: "token_a \<noteq> []"
  using EncodeToString_inject [of zeros "[]"] by (simp add: token_a_def EncodeToString_def [of "[]"] zeros_def)

lemmas sample_defs = sole_def fresh_record_def gc_def retirementTime_def gcAge_def time_sub_def time_add_def
  min_int64_def max_int64_def hour_def minute_def second_def modify_def persist_or_def persistLocked_def
  consumableLocked_def bindE_def returnE_def Let_def

lemma sample_mint: "MintForNode None (Some zeros) hour 0 ''n1'' empty_store = (Inr token_a, sole fresh_record)"
  by (simp add: MintForNode_def randomToken_def token_a_def [symmetric] empty_store_def blank_disk_def sample_defs)

lemma sample_consume_fails:
  "Consume (Some SyncFault) token_a 1 (sole fresh_record) = (Inl (TokenFailure ''tokenstore: cannot write''), sole fresh_record)"
  by (simp add: Consume_def sample_defs persist_file_def writeFileAtomic_def writeFileAtomic_trace_def Let_def)

lemma sample_restart: "Open (ts_disk (sole r)) = Inr (sole r)" if "tr_Token r = token_a"
  using that by (simp add: Open_def load_file_def sole_def)

lemma sample_consume:
  "Consume None token_a 2 (sole fresh_record) = (Inr ''n1'', sole (fresh_record\<lparr>tr_Used := True, tr_UsedAt := 2\<rparr>))"
  by (simp add: Consume_def sample_defs)

lemma sample_again:
  "Consume None token_a 3 (sole (fresh_record\<lparr>tr_Used := True, tr_UsedAt := 2\<rparr>))
   = (Inl ErrInvalidToken, sole (fresh_record\<lparr>tr_Used := True, tr_UsedAt := 2\<rparr>))"
  by (simp add: Consume_def consumableLocked_def sole_def)

lemma sample_run:
  "run token_step empty_store [Minted token_a ''n1'', Nothing, Nothing, Consumed token_a ''n1'', Nothing]
     (sole (fresh_record\<lparr>tr_Used := True, tr_UsedAt := 2\<rparr>))"
proof -
  let ?f = "sole fresh_record" and ?u = "sole (fresh_record\<lparr>tr_Used := True, tr_UsedAt := 2\<rparr>)"
  have "token_step empty_store (Minted token_a ''n1'') ?f"
    by (rule token_step.mint [of "''n1''" None "Some zeros" hour 0]) (simp add: sample_mint)
  moreover have "token_step ?f Nothing ?f"
    by (rule token_step.consume [of token_a "Some SyncFault" 1]) (simp add: sample_consume_fails)
  moreover have "token_step ?f Nothing ?f"
    by (rule token_step.restart, rule sample_restart) (simp add: fresh_record_def)
  moreover have "token_step ?f (Consumed token_a ''n1'') ?u"
    by (rule token_step.consume [of token_a None 2]) (simp add: sample_consume)
  moreover have "token_step ?u Nothing ?u"
    by (rule token_step.consume [of token_a None 3]) (simp add: sample_again)
  ultimately have "run token_step empty_store (((([] @ [Minted token_a ''n1'']) @ [Nothing]) @ [Nothing])
      @ [Consumed token_a ''n1'']) ?u" and "token_step ?u Nothing ?u"
    unfolding run_snoc_iff by (blast intro: run_Nil)+
  then have "run token_step empty_store ((((([] @ [Minted token_a ''n1'']) @ [Nothing]) @ [Nothing])
      @ [Consumed token_a ''n1'']) @ [Nothing]) ?u" by (rule run_snoc)
  then show ?thesis by simp
qed


section \<open>Properties\<close>

text \<open>
  Over any history of mints, claims, revocations and consumptions, with failed writes and restarts
  from the file anywhere in it, a token is consumed at most as often as it was minted; and once a
  revocation or a consumption of it has been reported, it is not consumed again unless it is minted again.
\<close>

theorem token_single_use:
  assumes "run token_step empty_store es s"
  shows "consumptions t es \<le> mintings t es
    \<and> (\<forall>pre e post. es = pre @ e # post \<and> (e = Revoked t \<or> (\<exists>n. e = Consumed t n)) \<longrightarrow> consumptions t post \<le> mintings t post)"
proof (intro conjI allI impI)
  show "consumptions t es \<le> mintings t es"
    using single_use.run_spend [OF assms empty_store_ok, of t] by (simp add: consumptions_def mintings_def)
next
  fix pre e post
  assume *: "es = pre @ e # post \<and> (e = Revoked t \<or> (\<exists>n. e = Consumed t n))"
  then obtain s1 s2 where 1: "run token_step empty_store pre s1" "token_step s1 e s2" "run token_step s2 post s"
    using assms run_split [of token_step empty_store "pre @ [e]" post s] by auto
  then have "store_ok s1" using single_use.run_inv empty_store_ok by blast
  then have "store_ok s2" "\<not> live t s2" using token_step_ok [OF 1(2), of t] * by auto
  then show "consumptions t post \<le> mintings t post"
    using single_use.run_spend [OF 1(3), of t] by (simp add: consumptions_def mintings_def)
qed

text \<open>
  A consumption succeeds exactly for a non-empty token that is on record, unspent, not revoked and
  not past its expiry, when the write goes through, and answers the node it was minted for. One that
  fails, even halfway, changes nothing that any later caller can see of any token.
\<close>

theorem consume_exact:
  assumes "store_ok s"
  shows "((\<exists>s'. Consume fault t now s = (Inr n, s')) \<longleftrightarrow> fault = None \<and> t \<noteq> ''''
      \<and> (\<exists>r. map_of (ts_records s) t = Some r \<and> \<not> tr_Used r \<and> \<not> tr_Revoked r \<and> now \<le> tr_ExpiresAt r \<and> n = tr_NodeID r))
    \<and> (Consume fault t now s = (Inl e, s') \<and> now \<le> later \<longrightarrow> fst (Peek u later s') = fst (Peek u later s))"
  using Consume_iff [of fault t now s n] Consume_fails_harmless [OF assms]
  by (auto simp: held_def spendable_def)

theorem token_single_use_witness:
  "consumptions token_a [Minted token_a ''n1'', Nothing, Nothing, Consumed token_a ''n1'', Nothing] = 1
   \<and> consumptions token_a [Minted token_a ''n1'', Nothing, Nothing, Consumed token_a ''n1'', Nothing]
     \<le> mintings token_a [Minted token_a ''n1'', Nothing, Nothing, Consumed token_a ''n1'', Nothing]"
  using token_single_use [OF sample_run, of token_a] by (simp add: consumptions_def)

theorem consume_exact_witness:
  "(\<exists>s'. Consume None token_a 2 (sole fresh_record) = (Inr ''n1'', s'))
   \<and> fst (Peek token_a 5 (snd (Consume (Some SyncFault) token_a 1 (sole fresh_record)))) = fst (Peek token_a 5 (sole fresh_record))"
proof -
  have ok: "store_ok (sole fresh_record)"
    by (simp add: store_ok_def sole_def fresh_record_def load_file_def spendable_def)
  have "map_of (ts_records (sole fresh_record)) token_a = Some fresh_record" by (simp add: sole_def)
  then show ?thesis
    using consume_exact [OF ok, of None token_a 2 "''n1''"]
      consume_exact [OF ok, of "Some SyncFault" token_a 1 "''''" "TokenFailure ''tokenstore: cannot write''" "sole fresh_record" 5 token_a]
    unfolding sample_consume_fails by (simp add: fresh_record_def hour_def minute_def second_def)
qed

end
