(* ===== verification/IdentityStore.thy ===== *)
theory IdentityStore
  imports AtomicFile
begin

text \<open>
  \<open>aiServeWeaveRegistry/internal/identitystore\<close>: the Registry's ledger of node identities, one record
  per node id with the fingerprint of the key it was last issued a certificate for and the flags that
  operators set. As in the token store, a call persists the records before it returns and undoes its
  change when the write fails; each operation takes that write's fault.

  The lemmas show that a binding changes only through \<open>Set\<close> or a first \<open>Reserve\<close>, that a
  disabled node can be neither reserved nor rebound until it is enabled, that approval is given only by
  an operator or by an issued certificate and never lost, and that a failed call leaves the records as
  they were.
\<close>


section \<open>Definitions\<close>

subsection \<open>State\<close>

datatype identity_error = ErrDisabled | IdentityFailure string

datatype Outcome = OutcomeNew | OutcomeMatch | OutcomeConflict

record identity_record =
  ir_NodeID :: string
  ir_Fingerprint :: string
  ir_FirstSeenAt :: go_time
  ir_LastSeenAt :: go_time
  ir_Disabled :: bool
  ir_PendingApproval :: bool
  ir_Approved :: bool
  ir_Maintenance :: bool
  ir_Deleted :: bool

text \<open>
  An element of the file: the record, and whether the object had an \<open>approved\<close> key at all. Files
  written by this version always have it.
\<close>

type_synonym filed_record = "identity_record \<times> bool"

record identity_store =
  is_records :: "(string \<times> identity_record) list"
  is_disk :: "filed_record disk"

type_synonym 'a identity_op = "(identity_store, identity_error, 'a) op"

text \<open>A record literal that names the node and when it was first seen, everything else zero.\<close>

definition new_record :: "string \<Rightarrow> go_time \<Rightarrow> identity_record" where
  "new_record nodeID now = \<lparr>ir_NodeID = nodeID, ir_Fingerprint = '''', ir_FirstSeenAt = now, ir_LastSeenAt = 0,
     ir_Disabled = False, ir_PendingApproval = False, ir_Approved = False, ir_Maintenance = False, ir_Deleted = False\<rparr>"

subsection \<open>Operations\<close>

definition open_record :: "filed_record \<Rightarrow> identity_record" where
  "open_record f = (case f of (r, present) \<Rightarrow> if \<not> present then r\<lparr>ir_Approved := \<not> ir_PendingApproval r\<rparr> else r)"

definition Open :: "filed_record disk \<Rightarrow> identity_error + identity_store" where
  "Open d = (case load_file d of
       None \<Rightarrow> Inl (IdentityFailure ''identitystore: cannot parse'')
     | Some recs \<Rightarrow> Inr \<lparr>is_records = fold (\<lambda>r. AList.update (ir_NodeID r) r) (map open_record recs) [], is_disk = d\<rparr>)"

definition persistLocked :: "write_fault option \<Rightarrow> unit identity_op" where
  "persistLocked fault = (\<lambda>s.
     case persist_file fault (map (\<lambda>(_, r). (r, True)) (is_records s)) (is_disk s) of
       (True, d) \<Rightarrow> (Inr (), s\<lparr>is_disk := d\<rparr>)
     | (False, d) \<Rightarrow> (Inl (IdentityFailure ''identitystore: cannot write''), s\<lparr>is_disk := d\<rparr>))"

text \<open>
  Store a record and persist; on a failure put back the record there was before, or none.
\<close>

definition put_record :: "write_fault option \<Rightarrow> string \<Rightarrow> identity_record \<Rightarrow> unit identity_op" where
  "put_record fault nodeID r = (\<lambda>s.
     case persistLocked fault (s\<lparr>is_records := AList.update nodeID r (is_records s)\<rparr>) of
       (Inr u, s') \<Rightarrow> (Inr u, s')
     | (Inl e, s') \<Rightarrow> (Inl e, case map_of (is_records s) nodeID of
           None \<Rightarrow> s'\<lparr>is_records := AList.delete nodeID (is_records s')\<rparr>
         | Some prev \<Rightarrow> s'\<lparr>is_records := AList.update nodeID prev (is_records s')\<rparr>))"

definition get_record :: "string \<Rightarrow> go_time \<Rightarrow> identity_store \<Rightarrow> identity_record" where
  "get_record nodeID now s = (case map_of (is_records s) nodeID of Some r \<Rightarrow> r | None \<Rightarrow> new_record nodeID now)"

text \<open>What \<open>Reserve\<close> and \<open>Set\<close> write when a certificate is being issued.\<close>

definition bind_key :: "string \<Rightarrow> go_time \<Rightarrow> identity_record \<Rightarrow> identity_record" where
  "bind_key fingerprint now r = r\<lparr>ir_Fingerprint := fingerprint, ir_LastSeenAt := now, ir_Approved := True,
     ir_PendingApproval := False\<rparr>"

definition Reserve :: "write_fault option \<Rightarrow> string \<Rightarrow> string \<Rightarrow> go_time \<Rightarrow> Outcome identity_op" where
  "Reserve fault nodeID fingerprint now = (\<lambda>s.
     case map_of (is_records s) nodeID of
       None \<Rightarrow> bindE (put_record fault nodeID ((new_record nodeID now)\<lparr>ir_Fingerprint := fingerprint,
                 ir_LastSeenAt := now, ir_Approved := True\<rparr>)) (\<lambda>_. returnE OutcomeNew) s
     | Some r \<Rightarrow>
         if ir_Disabled r then (Inl ErrDisabled, s)
         else if ir_Fingerprint r \<noteq> '''' \<and> ir_Fingerprint r \<noteq> fingerprint then (Inr OutcomeConflict, s)
         else bindE (put_record fault nodeID (bind_key fingerprint now r))
           (\<lambda>_. returnE (if ir_Fingerprint r = '''' then OutcomeNew else OutcomeMatch)) s)"

definition IsDisabled :: "string \<Rightarrow> identity_store \<Rightarrow> bool" where
  "IsDisabled nodeID s \<longleftrightarrow> (case map_of (is_records s) nodeID of Some r \<Rightarrow> ir_Disabled r | None \<Rightarrow> False)"

definition Set :: "write_fault option \<Rightarrow> string \<Rightarrow> string \<Rightarrow> go_time \<Rightarrow> unit identity_op" where
  "Set fault nodeID fingerprint now = (\<lambda>s.
     if IsDisabled nodeID s then (Inl ErrDisabled, s)
     else put_record fault nodeID (bind_key fingerprint now (get_record nodeID now s)) s)"

definition Disable :: "write_fault option \<Rightarrow> string \<Rightarrow> go_time \<Rightarrow> unit identity_op" where
  "Disable fault nodeID now = (\<lambda>s.
     put_record fault nodeID ((get_record nodeID now s)\<lparr>ir_Disabled := True, ir_LastSeenAt := now\<rparr>) s)"

definition Enable :: "write_fault option \<Rightarrow> string \<Rightarrow> go_time \<Rightarrow> unit identity_op" where
  "Enable fault nodeID now = (\<lambda>s. case map_of (is_records s) nodeID of
       None \<Rightarrow> (Inr (), s)
     | Some r \<Rightarrow> if \<not> ir_Disabled r then (Inr (), s)
         else put_record fault nodeID (r\<lparr>ir_Disabled := False, ir_Deleted := False, ir_LastSeenAt := now\<rparr>) s)"

definition Delete :: "write_fault option \<Rightarrow> string \<Rightarrow> go_time \<Rightarrow> unit identity_op" where
  "Delete fault nodeID now = (\<lambda>s.
     if (case map_of (is_records s) nodeID of Some r \<Rightarrow> ir_Deleted r | None \<Rightarrow> False) then (Inr (), s)
     else put_record fault nodeID ((get_record nodeID now s)\<lparr>ir_Disabled := True, ir_Deleted := True,
            ir_PendingApproval := False, ir_Maintenance := False, ir_LastSeenAt := now\<rparr>) s)"

definition DisabledNodeIDs :: "identity_store \<Rightarrow> string list" where
  "DisabledNodeIDs s = map fst (filter (\<lambda>(_, r). ir_Disabled r) (is_records s))"

definition IsPending :: "string \<Rightarrow> identity_store \<Rightarrow> bool" where
  "IsPending nodeID s \<longleftrightarrow> (case map_of (is_records s) nodeID of Some r \<Rightarrow> ir_PendingApproval r | None \<Rightarrow> False)"

definition HasRecord :: "string \<Rightarrow> identity_store \<Rightarrow> bool" where
  "HasRecord nodeID s \<longleftrightarrow> map_of (is_records s) nodeID \<noteq> None"

definition IsApproved :: "string \<Rightarrow> identity_store \<Rightarrow> bool" where
  "IsApproved nodeID s \<longleftrightarrow> (case map_of (is_records s) nodeID of Some r \<Rightarrow> ir_Approved r | None \<Rightarrow> False)"

definition RecordPending :: "write_fault option \<Rightarrow> string \<Rightarrow> go_time \<Rightarrow> unit identity_op" where
  "RecordPending fault nodeID now = (\<lambda>s.
     if IsApproved nodeID s then (Inr (), s)
     else put_record fault nodeID ((get_record nodeID now s)\<lparr>ir_PendingApproval := True, ir_LastSeenAt := now\<rparr>) s)"

definition Approve :: "write_fault option \<Rightarrow> string \<Rightarrow> go_time \<Rightarrow> unit identity_op" where
  "Approve fault nodeID now = (\<lambda>s.
     put_record fault nodeID ((get_record nodeID now s)\<lparr>ir_PendingApproval := False, ir_Approved := True,
       ir_LastSeenAt := now\<rparr>) s)"

definition SetMaintenance :: "write_fault option \<Rightarrow> string \<Rightarrow> go_time \<Rightarrow> unit identity_op" where
  "SetMaintenance fault nodeID now = (\<lambda>s.
     put_record fault nodeID ((get_record nodeID now s)\<lparr>ir_Maintenance := True, ir_LastSeenAt := now\<rparr>) s)"

definition ClearMaintenance :: "write_fault option \<Rightarrow> string \<Rightarrow> go_time \<Rightarrow> unit identity_op" where
  "ClearMaintenance fault nodeID now = (\<lambda>s. case map_of (is_records s) nodeID of
       None \<Rightarrow> (Inr (), s)
     | Some r \<Rightarrow> if \<not> ir_Maintenance r then (Inr (), s)
         else put_record fault nodeID (r\<lparr>ir_Maintenance := False, ir_LastSeenAt := now\<rparr>) s)"

definition MaintenanceNodeIDs :: "identity_store \<Rightarrow> string list" where
  "MaintenanceNodeIDs s = map fst (filter (\<lambda>(_, r). ir_Maintenance r) (is_records s))"

record node_state =
  st_NodeID :: string
  st_PendingApproval :: bool
  st_Disabled :: bool
  st_Maintenance :: bool
  st_FirstSeenAt :: go_time
  st_LastSeenAt :: go_time
  st_KeyFingerprint :: string

definition States :: "identity_store \<Rightarrow> node_state list" where
  "States s = map (\<lambda>(_, r). \<lparr>st_NodeID = ir_NodeID r, st_PendingApproval = ir_PendingApproval r,
       st_Disabled = ir_Disabled r, st_Maintenance = ir_Maintenance r, st_FirstSeenAt = ir_FirstSeenAt r,
       st_LastSeenAt = ir_LastSeenAt r, st_KeyFingerprint = ir_Fingerprint r\<rparr>)
     (filter (\<lambda>(_, r). \<not> ir_Deleted r) (is_records s))"


section \<open>Lemmas\<close>

definition entry :: "identity_store \<Rightarrow> string \<Rightarrow> identity_record option" where
  "entry s nodeID = map_of (is_records s) nodeID"

text \<open>
  Records are stored under their node ids, a deleted one is disabled as well, and reading the file back
  gives the records: a restart is invisible.
\<close>

definition record_ok :: "string \<Rightarrow> identity_record \<Rightarrow> bool" where
  "record_ok nodeID r \<longleftrightarrow> ir_NodeID r = nodeID \<and> (ir_Deleted r \<longrightarrow> ir_Disabled r)"

definition keyed :: "(string \<times> identity_record) list \<Rightarrow> bool" where
  "keyed m \<longleftrightarrow> wf_map m \<and> (\<forall>(nodeID, r) \<in> set m. record_ok nodeID r)"

definition identities_ok :: "identity_store \<Rightarrow> bool" where
  "identities_ok s \<longleftrightarrow> keyed (is_records s)
     \<and> (case Open (is_disk s) of Inl _ \<Rightarrow> False | Inr s' \<Rightarrow> keyed (is_records s') \<and> entry s' = entry s)"

lemma keyedI: "wf_map m \<Longrightarrow> (\<And>n r. (n, r) \<in> set m \<Longrightarrow> record_ok n r) \<Longrightarrow> keyed m"
  by (auto simp: keyed_def)

lemma keyed_wf [simp]: "keyed m \<Longrightarrow> wf_map m"
  by (simp add: keyed_def)

lemma keyed_record: "keyed m \<Longrightarrow> (n, r) \<in> set m \<Longrightarrow> record_ok n r"
  by (auto simp: keyed_def)

lemma keyed_update [simp]: "keyed m \<Longrightarrow> record_ok n r \<Longrightarrow> keyed (AList.update n r m)"
  using set_update_subset [of n r m] by (intro keyedI) (auto dest: keyed_record)

lemma keyed_delete [simp]: "keyed m \<Longrightarrow> keyed (AList.delete n m)"
  by (intro keyedI) (auto simp: AList.delete_eq dest: keyed_record)

lemma entry_record: "keyed (is_records s) \<Longrightarrow> entry s n = Some r \<Longrightarrow> record_ok n r"
  by (auto simp: entry_def dest: map_of_SomeD keyed_record)

lemma update_new: "map_of m n = None \<Longrightarrow> AList.update n r m = m @ [(n, r)]"
  by (induction m) (auto split: if_splits)

lemma reopen_records:
  "keyed (acc @ m) \<Longrightarrow> fold (\<lambda>r. AList.update (ir_NodeID r) r) (map open_record (map (\<lambda>(_, r). (r, True)) m)) acc = acc @ m"
proof (induction m arbitrary: acc)
  case (Cons kr m)
  obtain n r where kr: "kr = (n, r)" by (cases kr)
  have "ir_NodeID r = n" using Cons.prems kr by (auto simp: keyed_def record_ok_def)
  moreover have "map_of acc n = None" using Cons.prems kr by (auto simp: keyed_def wf_map_def map_of_eq_None_iff)
  ultimately have "AList.update (ir_NodeID r) r acc = acc @ [kr]" using kr by (simp add: update_new)
  then show ?case using Cons.IH [of "acc @ [kr]"] Cons.prems kr by (simp add: open_record_def)
qed simp

lemma persistLocked_ok:
  assumes "persistLocked fault s = (Inr u, s')" and "keyed (is_records s)"
  shows "fault = None" and "is_records s' = is_records s" and "identities_ok s'"
proof -
  let ?data = "map (\<lambda>(_, r). (r, True)) (is_records s)"
  obtain ok d where p: "persist_file fault ?data (is_disk s) = (ok, d)" by fastforce
  then have *: "ok" "s' = s\<lparr>is_disk := d\<rparr>" using assms(1) by (cases ok; simp add: persistLocked_def)+
  then show "fault = None" "is_records s' = is_records s" using persist_file_iff [OF p] by simp_all
  have "Open d = Inr \<lparr>is_records = is_records s, is_disk = d\<rparr>"
    using load_file_persist [OF p] * reopen_records [of "[]" "is_records s"] assms(2) by (simp add: Open_def)
  then show "identities_ok s'" using * assms(2) by (simp add: identities_ok_def entry_def fun_eq_iff)
qed

lemma persistLocked_fails:
  assumes "persistLocked fault s = (Inl e, s')"
  shows "fault \<noteq> None" and "is_records s' = is_records s" and "Open (is_disk s') = map_sum id (\<lambda>t. t\<lparr>is_disk := is_disk s'\<rparr>) (Open (is_disk s))"
    and "\<exists>m. e = IdentityFailure m"
proof -
  let ?data = "map (\<lambda>(_, r). (r, True)) (is_records s)"
  obtain ok d where p: "persist_file fault ?data (is_disk s) = (ok, d)" by fastforce
  then have *: "\<not> ok" "s' = s\<lparr>is_disk := d\<rparr>" "e = IdentityFailure ''identitystore: cannot write''"
    using assms(1) by (cases ok; simp add: persistLocked_def)+
  then show "fault \<noteq> None" "is_records s' = is_records s" "\<exists>m. e = IdentityFailure m" using persist_file_iff [OF p] by simp_all
  show "Open (is_disk s') = map_sum id (\<lambda>t. t\<lparr>is_disk := is_disk s'\<rparr>) (Open (is_disk s))"
    using load_file_persist [OF p] * by (auto simp: Open_def split: option.splits)
qed

text \<open>The contract of every writing call: the new record and a file that shows it, or nothing at all.\<close>

lemma put_record_contract:
  assumes "put_record fault n r s = (res, s')" and "identities_ok s" and "record_ok n r"
  shows "identities_ok s' \<and> (case res of Inr _ \<Rightarrow> fault = None \<and> entry s' = (entry s)(n \<mapsto> r)
     | Inl e \<Rightarrow> fault \<noteq> None \<and> entry s' = entry s \<and> e \<noteq> ErrDisabled)"
proof -
  let ?s1 = "s\<lparr>is_records := AList.update n r (is_records s)\<rparr>"
  have k: "keyed (is_records ?s1)" using assms(2,3) by (simp add: identities_ok_def)
  obtain res1 s1 where p: "persistLocked fault ?s1 = (res1, s1)" by fastforce
  show ?thesis
  proof (cases res1)
    case (Inr u)
    then have "s' = s1" "res = Inr u" using assms(1) p by (simp_all add: put_record_def)
    then show ?thesis using persistLocked_ok [OF p [unfolded Inr] k] by (auto simp: entry_def)
  next
    case (Inl e)
    note f = persistLocked_fails [OF p [unfolded Inl]]
    have ent: "entry s' = entry s" and disk: "is_disk s' = is_disk s1" and res: "res = Inl e"
      using assms(1) p Inl f(2) by (auto simp: put_record_def entry_def fun_eq_iff delete_conv' split: option.splits)
    have "keyed (is_records s')"
      using assms p Inl f(2) k entry_record [of s n]
      by (auto simp: put_record_def identities_ok_def entry_def split: option.splits)
    moreover have "Open (is_disk s') = map_sum id (\<lambda>t. t\<lparr>is_disk := is_disk s1\<rparr>) (Open (is_disk s))"
      using f(3) disk by simp
    ultimately have "identities_ok s'"
      using assms(2) ent by (auto simp: identities_ok_def entry_def fun_eq_iff split: sum.splits)
    then show ?thesis using ent res f(1,4) by auto
  qed
qed

lemma get_record_ok: "identities_ok s \<Longrightarrow> record_ok n (get_record n now s)"
  by (auto simp: get_record_def new_record_def identities_ok_def record_ok_def entry_def split: option.splits
      dest!: entry_record [unfolded entry_def])

subsection \<open>The ledger as a specification\<close>

text \<open>
  What the rest of the Registry relies on is less than the record: the key a node id is bound to, empty
  for none, whether it is disabled and whether it is approved. The operations are simple functions of it.
\<close>

record node_view =
  nv_key :: string
  nv_disabled :: bool
  nv_approved :: bool

definition view :: "identity_store \<Rightarrow> string \<Rightarrow> node_view" where
  "view s n = (case entry s n of
       None \<Rightarrow> \<lparr>nv_key = '''', nv_disabled = False, nv_approved = False\<rparr>
     | Some r \<Rightarrow> \<lparr>nv_key = ir_Fingerprint r, nv_disabled = ir_Disabled r, nv_approved = ir_Approved r\<rparr>)"

definition bound_view :: "string \<Rightarrow> node_view" where
  "bound_view fingerprint = \<lparr>nv_key = fingerprint, nv_disabled = False, nv_approved = True\<rparr>"

lemma IsDisabled_view: "IsDisabled n s = nv_disabled (view s n)"
  and IsApproved_view: "IsApproved n s = nv_approved (view s n)"
  by (simp_all add: IsDisabled_def IsApproved_def view_def entry_def split: option.splits)

lemma DisabledNodeIDs_view:
  assumes "identities_ok s"
  shows "set (DisabledNodeIDs s) = {n. nv_disabled (view s n)}"
proof -
  have "n \<in> set (DisabledNodeIDs s) \<longleftrightarrow> (\<exists>r. (n, r) \<in> set (is_records s) \<and> ir_Disabled r)" for n
    by (auto simp: DisabledNodeIDs_def image_iff)
  also have "\<dots> n \<longleftrightarrow> (\<exists>r. entry s n = Some r \<and> ir_Disabled r)" for n
    using assms by (simp add: entry_def map_of_mem identities_ok_def)
  finally show ?thesis by (auto simp: view_def split: option.splits)
qed

text \<open>A writing call that changes the view of one node in a given way, or fails and changes nothing.\<close>

definition sets_view :: "string \<Rightarrow> (node_view \<Rightarrow> node_view) \<Rightarrow> ('e + 'a) \<Rightarrow> identity_store \<Rightarrow> identity_store \<Rightarrow> bool" where
  "sets_view n f res s s' \<longleftrightarrow> identities_ok s' \<and> view s' = (case res of Inr _ \<Rightarrow> (view s)(n := f (view s n)) | Inl _ \<Rightarrow> view s)"

lemma put_record_view:
  assumes "put_record fault n r s = (res, s')" and "identities_ok s" and "record_ok n r"
    and "\<lparr>nv_key = ir_Fingerprint r, nv_disabled = ir_Disabled r, nv_approved = ir_Approved r\<rparr> = f (view s n)"
  shows "sets_view n f res s s'"
  using put_record_contract [OF assms(1-3)] assms(4)
  by (cases res) (auto simp: sets_view_def view_def fun_eq_iff)

lemma get_record_view:
  "ir_Fingerprint (get_record n now s) = nv_key (view s n)" "ir_Disabled (get_record n now s) = nv_disabled (view s n)"
  "ir_Approved (get_record n now s) = nv_approved (view s n)"
  by (simp_all add: get_record_def view_def entry_def new_record_def split: option.splits)

lemma sets_view_refl: "identities_ok s \<Longrightarrow> f (view s n) = view s n \<Longrightarrow> sets_view n f res s s"
  by (auto simp: sets_view_def fun_eq_iff split: sum.splits)

lemma unchanged_view: "\<lparr>nv_key = nv_key v, nv_disabled = nv_disabled v, nv_approved = nv_approved v\<rparr> = v"
  by simp

lemma simple_writes:
  assumes "identities_ok s"
  shows "Disable fault n now s = (res, s') \<Longrightarrow> sets_view n (nv_disabled_update (\<lambda>_. True)) res s s'"
    and "Approve fault n now s = (res, s') \<Longrightarrow> sets_view n (nv_approved_update (\<lambda>_. True)) res s s'"
    and "SetMaintenance fault n now s = (res, s') \<Longrightarrow> sets_view n id res s s'"
proof -
  note rules = put_record_view [OF _ assms] get_record_ok [OF assms, of n now] get_record_view
  show "Disable fault n now s = (res, s') \<Longrightarrow> sets_view n (nv_disabled_update (\<lambda>_. True)) res s s'"
    unfolding Disable_def by (erule rules(1)) (use rules(2) in \<open>simp_all add: rules record_ok_def\<close>)
  show "Approve fault n now s = (res, s') \<Longrightarrow> sets_view n (nv_approved_update (\<lambda>_. True)) res s s'"
    unfolding Approve_def by (erule rules(1)) (use rules(2) in \<open>simp_all add: rules record_ok_def\<close>)
  show "SetMaintenance fault n now s = (res, s') \<Longrightarrow> sets_view n id res s s'"
    unfolding SetMaintenance_def by (erule rules(1)) (use rules(2) in \<open>simp_all add: rules record_ok_def\<close>)
qed

lemma guarded_writes:
  assumes "identities_ok s"
  shows "Delete fault n now s = (res, s') \<Longrightarrow> sets_view n (nv_disabled_update (\<lambda>_. True)) res s s'"
    and "RecordPending fault n now s = (res, s') \<Longrightarrow> sets_view n id res s s'"
    and "Enable fault n now s = (res, s') \<Longrightarrow> sets_view n (nv_disabled_update (\<lambda>_. False)) res s s'"
    and "ClearMaintenance fault n now s = (res, s') \<Longrightarrow> sets_view n id res s s'"
proof -
  note rules = put_record_view [OF _ assms] get_record_ok [OF assms, of n now] get_record_view
  have ent: "record_ok n r" "view s n = \<lparr>nv_key = ir_Fingerprint r, nv_disabled = ir_Disabled r, nv_approved = ir_Approved r\<rparr>"
    if "map_of (is_records s) n = Some r" for r
    using that assms entry_record [of s n r] by (simp_all add: entry_def identities_ok_def view_def)
  show "sets_view n (nv_disabled_update (\<lambda>_. True)) res s s'" if *: "Delete fault n now s = (res, s')"
  proof (cases "\<exists>r. map_of (is_records s) n = Some r \<and> ir_Deleted r")
    case True
    then obtain r where r: "map_of (is_records s) n = Some r" "ir_Deleted r" by blast
    then have "s' = s" using * by (simp add: Delete_def)
    then show ?thesis using sets_view_refl [OF assms, of "nv_disabled_update (\<lambda>_. True)" n res] ent [OF r(1)] r(2) by (simp add: record_ok_def)
  next
    case False
    then have "\<not> (case map_of (is_records s) n of Some r \<Rightarrow> ir_Deleted r | None \<Rightarrow> False)" by (auto split: option.splits)
    then show ?thesis
      using * unfolding Delete_def by (simp only: if_False) (erule rules(1), use rules(2) in \<open>simp_all add: rules record_ok_def\<close>)
  qed
  show "sets_view n id res s s'" if "RecordPending fault n now s = (res, s')"
  proof (cases "IsApproved n s")
    case True
    then have "s' = s" using that by (simp add: RecordPending_def)
    then show ?thesis using sets_view_refl [OF assms, of id] by simp
  next
    case False
    then show ?thesis using that unfolding RecordPending_def
      by (simp only: if_False) (erule rules(1), use rules(2) in \<open>simp_all add: rules record_ok_def\<close>)
  qed
  show "sets_view n (nv_disabled_update (\<lambda>_. False)) res s s'" if *: "Enable fault n now s = (res, s')"
  proof (cases "\<exists>r. map_of (is_records s) n = Some r \<and> ir_Disabled r")
    case True
    then obtain r where r: "map_of (is_records s) n = Some r" "ir_Disabled r" by blast
    then show ?thesis using * ent [OF r(1)] unfolding Enable_def
      by (simp only: option.case if_False not_True_eq_False) (erule rules(1), simp_all add: record_ok_def)
  next
    case False
    then have "s' = s" and "\<not> nv_disabled (view s n)"
      using * by (auto simp: Enable_def view_def entry_def split: option.splits)
    then show ?thesis using sets_view_refl [OF assms, of "nv_disabled_update (\<lambda>_. False)" n res] by simp
  qed
  show "sets_view n id res s s'" if *: "ClearMaintenance fault n now s = (res, s')"
  proof (cases "\<exists>r. map_of (is_records s) n = Some r \<and> ir_Maintenance r")
    case True
    then obtain r where r: "map_of (is_records s) n = Some r" "ir_Maintenance r" by blast
    then show ?thesis using * ent [OF r(1)] unfolding ClearMaintenance_def
      by (simp only: option.case if_False not_True_eq_False) (erule rules(1), simp_all add: record_ok_def)
  next
    case False
    then have "s' = s" using * by (auto simp: ClearMaintenance_def split: option.splits)
    then show ?thesis using sets_view_refl [OF assms, of id] by simp
  qed
qed

lemma Set_view:
  assumes "identities_ok s" and "Set fault n fp now s = (res, s')"
  shows "sets_view n (\<lambda>_. bound_view fp) res s s' \<and> (\<forall>u. res = Inr u \<longrightarrow> \<not> nv_disabled (view s n))"
proof (cases "IsDisabled n s")
  case True
  then show ?thesis using assms by (auto simp: Set_def sets_view_def)
next
  case False
  then have "put_record fault n (bind_key fp now (get_record n now s)) s = (res, s')" using assms(2) by (simp add: Set_def)
  then have "sets_view n (\<lambda>_. bound_view fp) res s s'"
    by (rule put_record_view [OF _ assms(1)])
      (use get_record_ok [OF assms(1), of n now] False in \<open>simp_all add: bind_key_def record_ok_def bound_view_def get_record_view IsDisabled_view\<close>)
  then show ?thesis using False by (simp add: IsDisabled_view)
qed

lemma Reserve_view:
  assumes "identities_ok s" and "Reserve fault n fp now s = (res, s')"
  shows "if res = Inr OutcomeConflict then s' = s \<and> nv_key (view s n) \<notin> {'''', fp} \<and> \<not> nv_disabled (view s n)
    else sets_view n (\<lambda>_. bound_view fp) res s s'
      \<and> (\<forall>o'. res = Inr o' \<longrightarrow> \<not> nv_disabled (view s n) \<and> nv_key (view s n) \<in> {'''', fp})"
proof (cases "map_of (is_records s) n")
  case None
  then have "bindE (put_record fault n ((new_record n now)\<lparr>ir_Fingerprint := fp, ir_LastSeenAt := now, ir_Approved := True\<rparr>))
      (\<lambda>_. returnE OutcomeNew) s = (res, s')" using assms(2) by (simp add: Reserve_def)
  then obtain res' where p: "put_record fault n ((new_record n now)\<lparr>ir_Fingerprint := fp, ir_LastSeenAt := now, ir_Approved := True\<rparr>) s = (res', s')"
    and res: "res = (case res' of Inl e \<Rightarrow> Inl e | Inr _ \<Rightarrow> Inr OutcomeNew)"
    by (auto simp: bindE_def returnE_def split: prod.splits sum.splits)
  have "sets_view n (\<lambda>_. bound_view fp) res' s s'"
    by (rule put_record_view [OF p assms(1)]) (simp_all add: record_ok_def new_record_def bound_view_def)
  then show ?thesis using res None by (auto simp: sets_view_def view_def entry_def split: sum.splits)
next
  case (Some r)
  then have v: "view s n = \<lparr>nv_key = ir_Fingerprint r, nv_disabled = ir_Disabled r, nv_approved = ir_Approved r\<rparr>"
    and ok: "record_ok n r"
    using assms(1) entry_record [of s n r] by (auto simp: view_def entry_def identities_ok_def)
  consider "ir_Disabled r" | "\<not> ir_Disabled r" "ir_Fingerprint r \<notin> {'''', fp}" | "\<not> ir_Disabled r" "ir_Fingerprint r \<in> {'''', fp}"
    by blast
  then show ?thesis
  proof cases
    case 1
    then show ?thesis using Some assms by (auto simp: Reserve_def sets_view_def)
  next
    case 2
    then show ?thesis using Some assms v by (auto simp: Reserve_def)
  next
    case 3
    then obtain res' where p: "put_record fault n (bind_key fp now r) s = (res', s')"
      and res: "res = (case res' of Inl e \<Rightarrow> Inl e | Inr _ \<Rightarrow> Inr (if ir_Fingerprint r = '''' then OutcomeNew else OutcomeMatch))"
      using assms(2) Some by (auto simp: Reserve_def bindE_def returnE_def split: prod.splits sum.splits)
    have "sets_view n (\<lambda>_. bound_view fp) res' s s'"
      by (rule put_record_view [OF p assms(1)]) (use ok 3 in \<open>simp_all add: record_ok_def bind_key_def bound_view_def\<close>)
    then show ?thesis using res 3 v by (auto simp: sets_view_def split: sum.splits)
  qed
qed

lemma Open_view: "identities_ok s \<Longrightarrow> Open (is_disk s) = Inr s' \<Longrightarrow> identities_ok s' \<and> view s' = view s"
  by (auto simp: identities_ok_def view_def fun_eq_iff Open_def split: option.splits)

subsection \<open>The calls and their specification\<close>

text \<open>
  The whole standing of a node: the key it is bound to, empty for none, and its flags. A node without a record stands
  like a new one. Each writing call is a function of the standing of the node it names.
\<close>

record node_standing =
  ns_key :: string
  ns_disabled :: bool
  ns_pending :: bool
  ns_approved :: bool
  ns_maintenance :: bool
  ns_deleted :: bool

definition stands :: "identity_record \<Rightarrow> node_standing" where
  "stands r = \<lparr>ns_key = ir_Fingerprint r, ns_disabled = ir_Disabled r, ns_pending = ir_PendingApproval r,
     ns_approved = ir_Approved r, ns_maintenance = ir_Maintenance r, ns_deleted = ir_Deleted r\<rparr>"

definition standing :: "identity_store \<Rightarrow> string \<Rightarrow> node_standing" where
  "standing s n = (case entry s n of None \<Rightarrow> stands (new_record n 0) | Some r \<Rightarrow> stands r)"

datatype identity_call = CallReserve string | CallSet string | CallDisable | CallEnable | CallDelete
  | CallRecordPending | CallApprove | CallSetMaintenance | CallClearMaintenance

definition without_outcome :: "unit identity_op \<Rightarrow> Outcome option identity_op" where
  "without_outcome f = bindE f (\<lambda>_. returnE None)"

fun ledger_call :: "write_fault option \<Rightarrow> string \<Rightarrow> go_time \<Rightarrow> identity_call \<Rightarrow> Outcome option identity_op" where
  "ledger_call fault n now (CallReserve fp) = bindE (Reserve fault n fp now) (\<lambda>outcome. returnE (Some outcome))"
| "ledger_call fault n now (CallSet fp) = without_outcome (Set fault n fp now)"
| "ledger_call fault n now CallDisable = without_outcome (Disable fault n now)"
| "ledger_call fault n now CallEnable = without_outcome (Enable fault n now)"
| "ledger_call fault n now CallDelete = without_outcome (Delete fault n now)"
| "ledger_call fault n now CallRecordPending = without_outcome (RecordPending fault n now)"
| "ledger_call fault n now CallApprove = without_outcome (Approve fault n now)"
| "ledger_call fault n now CallSetMaintenance = without_outcome (SetMaintenance fault n now)"
| "ledger_call fault n now CallClearMaintenance = without_outcome (ClearMaintenance fault n now)"

definition bound_to :: "string \<Rightarrow> node_standing \<Rightarrow> node_standing" where
  "bound_to fp v = v\<lparr>ns_key := fp, ns_approved := True, ns_pending := False\<rparr>"

fun identity_spec :: "identity_call \<Rightarrow> node_standing \<Rightarrow> (Outcome option \<times> node_standing) option" where
  "identity_spec (CallReserve fp) v = (if ns_disabled v then None
     else if ns_key v \<notin> {'''', fp} then Some (Some OutcomeConflict, v)
     else Some (Some (if ns_key v = '''' then OutcomeNew else OutcomeMatch), bound_to fp v))"
| "identity_spec (CallSet fp) v = (if ns_disabled v then None else Some (None, bound_to fp v))"
| "identity_spec CallDisable v = Some (None, v\<lparr>ns_disabled := True\<rparr>)"
| "identity_spec CallEnable v = Some (None, v\<lparr>ns_disabled := False, ns_deleted := False\<rparr>)"
| "identity_spec CallDelete v = Some (None, if ns_deleted v then v
     else v\<lparr>ns_disabled := True, ns_deleted := True, ns_pending := False, ns_maintenance := False\<rparr>)"
| "identity_spec CallRecordPending v = Some (None, if ns_approved v then v else v\<lparr>ns_pending := True\<rparr>)"
| "identity_spec CallApprove v = Some (None, v\<lparr>ns_approved := True, ns_pending := False\<rparr>)"
| "identity_spec CallSetMaintenance v = Some (None, v\<lparr>ns_maintenance := True\<rparr>)"
| "identity_spec CallClearMaintenance v = Some (None, v\<lparr>ns_maintenance := False\<rparr>)"

text \<open>A call that gives an answer and a standing of one node, or fails to write and changes nothing.\<close>

definition grants :: "write_fault option \<Rightarrow> string \<Rightarrow> 'a \<Rightarrow> node_standing \<Rightarrow> (identity_error + 'a) \<Rightarrow> identity_store \<Rightarrow> identity_store \<Rightarrow> bool" where
  "grants fault n x v res s s' \<longleftrightarrow> identities_ok s' \<and>
     (res = Inr x \<and> standing s' = (standing s)(n := v)
      \<or> fault \<noteq> None \<and> (\<exists>m. res = Inl (IdentityFailure m)) \<and> standing s' = standing s)"

lemma put_record_grants:
  assumes "put_record fault n r s = (res, s')" "identities_ok s" "record_ok n r" "stands r = v"
  shows "grants fault n () v res s s'"
  using put_record_contract [OF assms(1-3)] assms(4)
  by (cases res) (auto simp: grants_def standing_def fun_eq_iff intro: identity_error.exhaust)

lemma grants_same: "identities_ok s \<Longrightarrow> v = standing s n \<Longrightarrow> grants fault n x v (Inr x) s s"
  by (simp add: grants_def fun_eq_iff)

lemma grants_without:
  "f s = (res, t) \<Longrightarrow> grants fault n () v res s t \<Longrightarrow> without_outcome f s = (res', s') \<Longrightarrow> grants fault n None v res' s s'"
  by (auto simp: without_outcome_def grants_def bindE_def returnE_def)

lemma stands_update [simp]:
  "stands (r\<lparr>ir_Fingerprint := x\<rparr>) = (stands r)\<lparr>ns_key := x\<rparr>" "stands (r\<lparr>ir_Disabled := b\<rparr>) = (stands r)\<lparr>ns_disabled := b\<rparr>"
  "stands (r\<lparr>ir_PendingApproval := b\<rparr>) = (stands r)\<lparr>ns_pending := b\<rparr>" "stands (r\<lparr>ir_Approved := b\<rparr>) = (stands r)\<lparr>ns_approved := b\<rparr>"
  "stands (r\<lparr>ir_Maintenance := b\<rparr>) = (stands r)\<lparr>ns_maintenance := b\<rparr>" "stands (r\<lparr>ir_Deleted := b\<rparr>) = (stands r)\<lparr>ns_deleted := b\<rparr>"
  "stands (r\<lparr>ir_LastSeenAt := now\<rparr>) = stands r"
  by (simp_all add: stands_def)

lemma stands_fields [simp]:
  "ns_key (stands r) = ir_Fingerprint r" "ns_disabled (stands r) = ir_Disabled r" "ns_pending (stands r) = ir_PendingApproval r"
  "ns_approved (stands r) = ir_Approved r" "ns_maintenance (stands r) = ir_Maintenance r" "ns_deleted (stands r) = ir_Deleted r"
  by (simp_all add: stands_def)

lemma get_record_stands: "stands (get_record n now s) = standing s n"
  by (simp add: get_record_def standing_def entry_def stands_def new_record_def split: option.splits)

lemma record_stands:
  assumes "identities_ok s" "map_of (is_records s) n = Some r"
  shows "record_ok n r" "standing s n = stands r" "get_record n now s = r"
  using assms entry_record [of s n r] by (simp_all add: entry_def identities_ok_def standing_def get_record_def)

lemma standing_reads:
  "IsDisabled n s = ns_disabled (standing s n)" "IsPending n s = ns_pending (standing s n)" "IsApproved n s = ns_approved (standing s n)"
  by (simp_all add: IsDisabled_def IsPending_def IsApproved_def standing_def entry_def stands_def new_record_def split: option.splits)

lemma standing_deleted: "identities_ok s \<Longrightarrow> ns_deleted (standing s n) \<Longrightarrow> ns_disabled (standing s n)"
  using entry_record [of s n] by (auto simp: standing_def stands_def new_record_def identities_ok_def record_ok_def split: option.splits)

text \<open>The calls that write whatever the node's record is.\<close>

lemma writes_grant:
  assumes "identities_ok s"
  shows "Disable fault n now s = (res, s') \<Longrightarrow> grants fault n () ((standing s n)\<lparr>ns_disabled := True\<rparr>) res s s'"
    and "Approve fault n now s = (res, s') \<Longrightarrow> grants fault n () ((standing s n)\<lparr>ns_approved := True, ns_pending := False\<rparr>) res s s'"
    and "SetMaintenance fault n now s = (res, s') \<Longrightarrow> grants fault n () ((standing s n)\<lparr>ns_maintenance := True\<rparr>) res s s'"
  unfolding Disable_def Approve_def SetMaintenance_def
  using get_record_ok [OF assms, of n now] by (auto simp: record_ok_def get_record_stands elim!: put_record_grants [OF _ assms])

text \<open>The calls that look at the record first.\<close>

lemma guarded_grant:
  assumes "identities_ok s"
  shows "Delete fault n now s = (res, s') \<Longrightarrow> grants fault n () (if ns_deleted (standing s n) then standing s n
       else (standing s n)\<lparr>ns_disabled := True, ns_deleted := True, ns_pending := False, ns_maintenance := False\<rparr>) res s s'"
    and "RecordPending fault n now s = (res, s') \<Longrightarrow>
       grants fault n () (if ns_approved (standing s n) then standing s n else (standing s n)\<lparr>ns_pending := True\<rparr>) res s s'"
    and "Set fault n fp now s = (res, s') \<Longrightarrow>
       if ns_disabled (standing s n) then res = Inl ErrDisabled \<and> s' = s else grants fault n () (bound_to fp (standing s n)) res s s'"
proof -
  note get = get_record_ok [OF assms, of n now]
  have deleted: "(case map_of (is_records s) n of Some r \<Rightarrow> ir_Deleted r | None \<Rightarrow> False) = ns_deleted (standing s n)"
    by (simp add: standing_def entry_def new_record_def split: option.splits)
  show "Delete fault n now s = (res, s') \<Longrightarrow> grants fault n () (if ns_deleted (standing s n) then standing s n
       else (standing s n)\<lparr>ns_disabled := True, ns_deleted := True, ns_pending := False, ns_maintenance := False\<rparr>) res s s'"
    using get assms unfolding Delete_def deleted
    by (cases "ns_deleted (standing s n)") (auto simp: record_ok_def get_record_stands intro: grants_same elim!: put_record_grants)
  show "RecordPending fault n now s = (res, s') \<Longrightarrow>
       grants fault n () (if ns_approved (standing s n) then standing s n else (standing s n)\<lparr>ns_pending := True\<rparr>) res s s'"
    using get assms unfolding RecordPending_def standing_reads
    by (cases "ns_approved (standing s n)") (auto simp: record_ok_def get_record_stands intro: grants_same elim!: put_record_grants)
  show "Set fault n fp now s = (res, s') \<Longrightarrow>
       if ns_disabled (standing s n) then res = Inl ErrDisabled \<and> s' = s else grants fault n () (bound_to fp (standing s n)) res s s'"
    using get assms unfolding Set_def standing_reads
    by (cases "ns_disabled (standing s n)") (auto simp: bind_key_def bound_to_def record_ok_def get_record_stands elim!: put_record_grants [OF _ assms])
qed

text \<open>The calls that change a flag of a record there is, when it is set.\<close>

lemma clearing_grant:
  assumes "identities_ok s"
  shows "Enable fault n now s = (res, s') \<Longrightarrow> grants fault n () ((standing s n)\<lparr>ns_disabled := False, ns_deleted := False\<rparr>) res s s'"
    and "ClearMaintenance fault n now s = (res, s') \<Longrightarrow> grants fault n () ((standing s n)\<lparr>ns_maintenance := False\<rparr>) res s s'"
proof -
  have same: "ns_disabled v = False \<Longrightarrow> ns_deleted v = False \<Longrightarrow> v\<lparr>ns_disabled := False, ns_deleted := False\<rparr> = v"
    "ns_maintenance v = False \<Longrightarrow> v\<lparr>ns_maintenance := False\<rparr> = v" for v :: node_standing
    by (cases v; simp)+
  show "grants fault n () ((standing s n)\<lparr>ns_disabled := False, ns_deleted := False\<rparr>) res s s'" if e: "Enable fault n now s = (res, s')"
  proof (cases "ns_disabled (standing s n)")
    case True
    then obtain r where r: "map_of (is_records s) n = Some r" "ir_Disabled r" by (auto simp: standing_def entry_def new_record_def split: option.splits)
    then show ?thesis using e record_stands(1,2) [OF assms r(1)] by (auto simp: Enable_def record_ok_def elim!: put_record_grants [OF _ assms])
  next
    case False
    then have "s' = s" "res = Inr ()" using e by (auto simp: Enable_def standing_def entry_def split: option.splits)
    moreover have "(standing s n)\<lparr>ns_disabled := False, ns_deleted := False\<rparr> = standing s n" using False standing_deleted [OF assms] by (intro same(1)) auto
    ultimately show ?thesis using grants_same [OF assms refl, of fault n] by metis
  qed
  show "grants fault n () ((standing s n)\<lparr>ns_maintenance := False\<rparr>) res s s'" if e: "ClearMaintenance fault n now s = (res, s')"
  proof (cases "ns_maintenance (standing s n)")
    case True
    then obtain r where r: "map_of (is_records s) n = Some r" "ir_Maintenance r" by (auto simp: standing_def entry_def new_record_def split: option.splits)
    then show ?thesis using e record_stands(1,2) [OF assms r(1)] by (auto simp: ClearMaintenance_def record_ok_def elim!: put_record_grants [OF _ assms])
  next
    case False
    then have "s' = s" "res = Inr ()" using e by (auto simp: ClearMaintenance_def standing_def entry_def split: option.splits)
    moreover have "(standing s n)\<lparr>ns_maintenance := False\<rparr> = standing s n" using False by (intro same(2)) auto
    ultimately show ?thesis using grants_same [OF assms refl, of fault n] by metis
  qed
qed

lemma Reserve_grants:
  assumes "identities_ok s" "v = standing s n" "Reserve fault n fp now s = (res, s')"
  shows "if ns_disabled v then res = Inl ErrDisabled \<and> s' = s
    else if ns_key v \<notin> {'''', fp} then res = Inr OutcomeConflict \<and> s' = s
    else grants fault n (if ns_key v = '''' then OutcomeNew else OutcomeMatch) (bound_to fp v) res s s'"
proof (cases "map_of (is_records s) n")
  case None
  let ?r = "(new_record n now)\<lparr>ir_Fingerprint := fp, ir_LastSeenAt := now, ir_Approved := True\<rparr>"
  obtain res' where p: "put_record fault n ?r s = (res', s')" and res: "res = map_sum id (\<lambda>_. OutcomeNew) res'"
    using assms(3) None by (auto simp: Reserve_def bindE_def returnE_def split: prod.splits sum.splits)
  have v: "v = stands (new_record n 0)" using assms(2) None by (simp add: standing_def entry_def)
  then have "grants fault n () (bound_to fp v) res' s s'"
    by (intro put_record_grants [OF p assms(1)]) (simp_all add: record_ok_def new_record_def bound_to_def stands_def)
  then show ?thesis using v res by (auto simp: grants_def stands_def new_record_def)
next
  case (Some r)
  note r = record_stands [OF assms(1) Some]
  show ?thesis
  proof (cases "ir_Disabled r \<or> ir_Fingerprint r \<notin> {'''', fp}")
    case True
    then show ?thesis using assms(2,3) Some r by (auto simp: Reserve_def stands_def)
  next
    case False
    then obtain res' where p: "put_record fault n (bind_key fp now r) s = (res', s')"
      and res: "res = map_sum id (\<lambda>_. if ir_Fingerprint r = '''' then OutcomeNew else OutcomeMatch) res'"
      using assms(3) Some by (auto simp: Reserve_def bindE_def returnE_def split: prod.splits sum.splits)
    have "grants fault n () (bound_to fp v) res' s s'"
      by (intro put_record_grants [OF p assms(1)]) (use r assms(2) in \<open>simp_all add: record_ok_def bind_key_def bound_to_def\<close>)
    then show ?thesis using False r assms(2) res by (auto simp: grants_def stands_def)
  qed
qed

lemma Open_standing: "identities_ok s \<Longrightarrow> Open (is_disk s) = Inr t \<Longrightarrow> identities_ok t \<and> standing t = standing s"
  by (auto simp: identities_ok_def standing_def fun_eq_iff Open_def split: option.splits)

lemma ledger_call_spec:
  assumes "identities_ok s" "ledger_call fault n now call s = (res, s')"
  shows "case identity_spec call (standing s n) of None \<Rightarrow> res = Inl ErrDisabled \<and> s' = s
    | Some (outcome, v) \<Rightarrow> grants fault n outcome v res s s'"
proof -
  note w = grants_without [OF surjective_pairing]
  note met =
    w [where f = "Disable fault n now", OF writes_grant(1) [OF assms(1) surjective_pairing]]
    w [where f = "Approve fault n now", OF writes_grant(2) [OF assms(1) surjective_pairing]]
    w [where f = "SetMaintenance fault n now", OF writes_grant(3) [OF assms(1) surjective_pairing]]
    w [where f = "Delete fault n now", OF guarded_grant(1) [OF assms(1) surjective_pairing]]
    w [where f = "RecordPending fault n now", OF guarded_grant(2) [OF assms(1) surjective_pairing]]
    w [where f = "Enable fault n now", OF clearing_grant(1) [OF assms(1) surjective_pairing]]
    w [where f = "ClearMaintenance fault n now", OF clearing_grant(2) [OF assms(1) surjective_pairing]]
  show ?thesis
  proof (cases call)
    case (CallReserve fp)
    obtain res1 where r: "Reserve fault n fp now s = (res1, s')" "res = map_sum id Some res1"
      using assms(2) CallReserve by (auto simp: bindE_def returnE_def split: prod.splits sum.splits)
    note g = Reserve_grants [OF assms(1) refl r(1)]
    consider "ns_disabled (standing s n)" | "\<not> ns_disabled (standing s n)" "ns_key (standing s n) \<notin> {'''', fp}"
      | "\<not> ns_disabled (standing s n)" "ns_key (standing s n) \<in> {'''', fp}" by blast
    then show ?thesis
    proof cases
      case 3
      then have "grants fault n (if ns_key (standing s n) = '''' then OutcomeNew else OutcomeMatch) (bound_to fp (standing s n)) res1 s s'" using g by simp
      then have "grants fault n (Some (if ns_key (standing s n) = '''' then OutcomeNew else OutcomeMatch)) (bound_to fp (standing s n)) res s s'" using r(2) by (auto simp: grants_def)
      then show ?thesis using 3 CallReserve by simp
    qed (use g r(2) CallReserve grants_same [OF assms(1) refl, of fault n] in simp_all)
  next
    case (CallSet fp)
    obtain res1 where r: "Set fault n fp now s = (res1, s')" "res = map_sum id (\<lambda>_. None) res1"
      using assms(2) CallSet by (auto simp: without_outcome_def bindE_def returnE_def split: prod.splits sum.splits)
    show ?thesis using guarded_grant(3) [OF assms(1) r(1)] r(2) CallSet by (auto simp: grants_def)
  qed (use assms(2) met in simp_all)
qed

text \<open>
  C31. The identity ledger refines its specification: in a well-formed ledger every writing call, \<open>Reserve\<close>,
  \<open>Set\<close>, \<open>Disable\<close>, \<open>Enable\<close>, \<open>Delete\<close>, \<open>RecordPending\<close>, \<open>Approve\<close>, \<open>SetMaintenance\<close> and
  \<open>ClearMaintenance\<close>, gives the answer and the new standing that the specification computes from the standing of the
  node it names, and leaves every other node as it was. A disabled node can be neither reserved nor rebound. A failed
  write leaves every node as it was, and so does a restart from the file.
\<close>

theorem identity_ledger_refines:
  assumes "identities_ok s"
  shows "(ledger_call fault n now call s = (res, s') \<longrightarrow> identities_ok s' \<and>
      (case identity_spec call (standing s n) of
         None \<Rightarrow> res = Inl ErrDisabled \<and> standing s' = standing s
       | Some (outcome, v) \<Rightarrow> res = Inr outcome \<and> standing s' = (standing s)(n := v)
           \<or> fault \<noteq> None \<and> (\<exists>m. res = Inl (IdentityFailure m)) \<and> standing s' = standing s))
    \<and> (Open (is_disk s) = Inr t \<longrightarrow> identities_ok t \<and> standing t = standing s)"
proof (intro conjI impI)
  assume c: "ledger_call fault n now call s = (res, s')"
  show "identities_ok s'" using ledger_call_spec [OF assms c] assms by (auto simp: grants_def split: option.splits)
  show "case identity_spec call (standing s n) of None \<Rightarrow> res = Inl ErrDisabled \<and> standing s' = standing s
     | Some (outcome, v) \<Rightarrow> res = Inr outcome \<and> standing s' = (standing s)(n := v)
         \<or> fault \<noteq> None \<and> (\<exists>m. res = Inl (IdentityFailure m)) \<and> standing s' = standing s"
    using ledger_call_spec [OF assms c] by (auto simp: grants_def split: option.splits)
qed (use Open_standing [OF assms] in blast)+

definition known_node :: identity_store where
  "known_node = \<lparr>is_records = [(''n1'', (new_record ''n1'' 1)\<lparr>ir_Fingerprint := ''k1'', ir_Approved := True\<rparr>)],
     is_disk = \<lparr>target = Some (Encoded [((new_record ''n1'' 1)\<lparr>ir_Fingerprint := ''k1'', ir_Approved := True\<rparr>, True)]), temp = None\<rparr>\<rparr>"

lemma known_node_ok: "identities_ok known_node"
  by (simp add: identities_ok_def known_node_def keyed_def record_ok_def new_record_def Open_def load_file_def open_record_def
      entry_def fun_eq_iff)

theorem identity_ledger_refines_witness:
  "\<exists>s. ledger_call None ''n1'' 5 CallDelete known_node = (Inr None, s)
    \<and> standing s = (standing known_node)(''n1'' := \<lparr>ns_key = ''k1'', ns_disabled = True, ns_pending = False, ns_approved = True, ns_maintenance = False, ns_deleted = True\<rparr>)"
proof -
  obtain res s where s: "ledger_call None ''n1'' 5 CallDelete known_node = (res, s)" by fastforce
  have "standing known_node ''n1'' = \<lparr>ns_key = ''k1'', ns_disabled = False, ns_pending = False, ns_approved = True, ns_maintenance = False, ns_deleted = False\<rparr>"
    by (simp add: standing_def entry_def known_node_def stands_def new_record_def)
  then show ?thesis using identity_ledger_refines [OF known_node_ok, of None "''n1''" 5 CallDelete res s known_node] s by simp
qed

end
