(* ===== verification/Roster.thy ===== *)
theory Roster
  imports Access
begin

text \<open>
  The Gateway roster on its way through the system: the Registry's view of its joined replicas
  (\<open>registryserver/roster.go\<close>), the sender of each open \<open>Join\<close> stream, and the copy an Agent
  keeps (\<open>aiServeWeaveAgent/tunnel/roster.go\<close>).

  A change of the roster and the broadcast of its snapshot are not one critical section: the snapshot is
  taken under the lock and offered to the streams after it is released. The step relation therefore
  keeps the offers that are still under way, in any order.

  The lemmas show that every entry belongs to an open stream and only that stream can change it, that a
  stream is never sent an older roster after a newer one, that a stream whose offers and sender have come
  to rest has been sent the current roster, and that an Agent's version only grows while its replica set
  never becomes empty again.
\<close>


section \<open>Definitions\<close>

subsection \<open>Messages\<close>

datatype ReplicaState = REPLICA_STATE_UNSPECIFIED | REPLICA_STATE_ACTIVE | REPLICA_STATE_DRAINING
  | REPLICA_STATE_REMOVED | ReplicaState_other int

record GatewayReplica =
  gw_ReplicaId :: string
  gw_Endpoint :: string
  gw_State :: ReplicaState

record GatewayRoster =
  ro_Replicas :: "GatewayReplica list"
  ro_Version :: int
  ro_RevokedNodeIds :: "string list"
  ro_MaintenanceNodeIds :: "string list"

subsection \<open>The Registry's roster\<close>

text \<open>
  A \<open>joinStream\<close> is known by a number. \<open>js_latest\<close> and \<open>js_wake\<close> are its fields,
  \<open>js_sent\<close> the local variable of its sender, and \<open>js_out\<close> everything it has sent so far.
\<close>

type_synonym stream_id = nat

record joinStream =
  js_replicaID :: string
  js_latest :: "GatewayRoster option"
  js_wake :: bool
  js_sent :: "GatewayRoster option"
  js_out :: "GatewayRoster list"

record rosterState =
  rs_replicas :: "(string \<times> GatewayReplica) list"
  rs_owners :: "string \<rightharpoonup> stream_id"
  rs_revoked :: "string list"
  rs_maintenance :: "string list"
  rs_version :: int
  rs_streams :: "stream_id list"

definition newJoinStream :: "string \<Rightarrow> joinStream" where
  "newJoinStream replicaID = \<lparr>js_replicaID = replicaID, js_latest = None, js_wake = False, js_sent = None, js_out = []\<rparr>"

definition offer :: "GatewayRoster \<Rightarrow> joinStream \<Rightarrow> joinStream" where
  "offer roster j =
     (let j1 = if (case js_latest j of None \<Rightarrow> True | Some l \<Rightarrow> ro_Version roster > ro_Version l)
               then j\<lparr>js_latest := Some roster\<rparr> else j in
      j1\<lparr>js_wake := True\<rparr>)"

text \<open>
  One turn of \<open>run\<close>'s loop after a wake-up. Two snapshots with the same contents are the same
  pointer: a stream's \<open>latest\<close> is only ever replaced by a newer version.
\<close>

definition run_turn :: "joinStream \<Rightarrow> joinStream" where
  "run_turn j =
     (if \<not> js_wake j then j
      else let j1 = j\<lparr>js_wake := False\<rparr> in
        if js_latest j = None \<or> js_latest j = js_sent j then j1
        else j1\<lparr>js_sent := js_latest j, js_out := js_out j @ [the (js_latest j)]\<rparr>)"

definition snapshotLocked :: "rosterState \<Rightarrow> GatewayRoster \<times> stream_id list" where
  "snapshotLocked r = (\<lparr>ro_Replicas = map snd (rs_replicas r), ro_Version = rs_version r,
     ro_RevokedNodeIds = rs_revoked r, ro_MaintenanceNodeIds = rs_maintenance r\<rparr>, rs_streams r)"

text \<open>The changes, each with the snapshot to broadcast once the lock is released, if any.\<close>

type_synonym change = "rosterState \<times> (GatewayRoster \<times> stream_id list) option"

definition bump :: "rosterState \<Rightarrow> change" where
  "bump r = (let r' = r\<lparr>rs_version := wrap64 (rs_version r + 1)\<rparr> in (r', Some (snapshotLocked r')))"

definition join :: "stream_id \<Rightarrow> string \<Rightarrow> string \<Rightarrow> ReplicaState \<Rightarrow> rosterState \<Rightarrow> change" where
  "join js replicaID endpoint state r =
     bump (r\<lparr>rs_streams := List.insert js (rs_streams r), rs_owners := (rs_owners r)(replicaID \<mapsto> js),
       rs_replicas := AList.update replicaID \<lparr>gw_ReplicaId = replicaID, gw_Endpoint = endpoint, gw_State = state\<rparr> (rs_replicas r)\<rparr>)"

definition updateState :: "stream_id \<Rightarrow> string \<Rightarrow> ReplicaState \<Rightarrow> rosterState \<Rightarrow> change" where
  "updateState js replicaID state r =
     (case map_of (rs_replicas r) replicaID of
        None \<Rightarrow> (r, None)
      | Some rep \<Rightarrow>
          if rs_owners r replicaID \<noteq> Some js \<or> gw_State rep = state then (r, None)
          else bump (r\<lparr>rs_replicas := AList.update replicaID
            \<lparr>gw_ReplicaId = gw_ReplicaId rep, gw_Endpoint = gw_Endpoint rep, gw_State = state\<rparr> (rs_replicas r)\<rparr>))"

definition leave :: "stream_id \<Rightarrow> string \<Rightarrow> rosterState \<Rightarrow> change" where
  "leave js replicaID r =
     (let r1 = r\<lparr>rs_streams := List.remove1 js (rs_streams r)\<rparr> in
      if rs_owners r1 replicaID \<noteq> Some js then (r1, None)
      else bump (r1\<lparr>rs_owners := (rs_owners r1)(replicaID := None), rs_replicas := AList.delete replicaID (rs_replicas r1)\<rparr>))"

definition mapsEqual :: "string list \<Rightarrow> string list \<Rightarrow> bool" where
  "mapsEqual a b \<longleftrightarrow> length a = length b \<and> list_all (List.member b) a"

definition setRevoked :: "string list \<Rightarrow> rosterState \<Rightarrow> change" where
  "setRevoked nodeIDs r = (let next = remdups nodeIDs in
     if mapsEqual (rs_revoked r) next then (r, None) else bump (r\<lparr>rs_revoked := next\<rparr>))"

definition setMaintenance :: "string list \<Rightarrow> rosterState \<Rightarrow> change" where
  "setMaintenance nodeIDs r = (let next = remdups nodeIDs in
     if mapsEqual (rs_maintenance r) next then (r, None) else bump (r\<lparr>rs_maintenance := next\<rparr>))"

text \<open>The roster a freshly started Registry begins with, its version the wall clock in milliseconds.\<close>

definition initial_roster :: "string list \<Rightarrow> string list \<Rightarrow> int \<Rightarrow> rosterState" where
  "initial_roster disabled maintenance unixMilli = \<lparr>rs_replicas = [], rs_owners = Map.empty, rs_revoked = remdups disabled,
     rs_maintenance = remdups maintenance, rs_version = unixMilli, rs_streams = []\<rparr>"

subsection \<open>Concurrent broadcasts\<close>

text \<open>The roster with its streams and the offers that a broadcast has not made yet.\<close>

record directory =
  di_roster :: rosterState
  di_streams :: "stream_id \<rightharpoonup> joinStream"
  di_pending :: "(GatewayRoster \<times> stream_id) list"

definition enqueue :: "change \<Rightarrow> directory \<Rightarrow> directory" where
  "enqueue c d = (case c of
       (r, None) \<Rightarrow> d\<lparr>di_roster := r\<rparr>
     | (r, Some (roster, targets)) \<Rightarrow> d\<lparr>di_roster := r, di_pending := di_pending d @ map (Pair roster) targets\<rparr>)"

definition deliver :: "nat \<Rightarrow> directory \<Rightarrow> directory" where
  "deliver i d = (case di_pending d ! i of (roster, js) \<Rightarrow>
     d\<lparr>di_pending := take i (di_pending d) @ drop (Suc i) (di_pending d),
       di_streams := (di_streams d)(js := map_option (offer roster) (di_streams d js))\<rparr>)"

inductive directory_step :: "directory \<Rightarrow> unit \<Rightarrow> directory \<Rightarrow> bool" where
  joining: "di_streams d js = None \<Longrightarrow>
    directory_step d () (enqueue (join js replicaID endpoint state (di_roster d))
      (d\<lparr>di_streams := (di_streams d)(js \<mapsto> newJoinStream replicaID)\<rparr>))"
| updating: "di_streams d js = Some j \<Longrightarrow>
    directory_step d () (enqueue (updateState js (js_replicaID j) state (di_roster d)) d)"
| leaving: "di_streams d js = Some j \<Longrightarrow> js \<in> set (rs_streams (di_roster d)) \<Longrightarrow>
    directory_step d () (enqueue (leave js (js_replicaID j) (di_roster d)) d)"
| revoking: "directory_step d () (enqueue (setRevoked ids (di_roster d)) d)"
| maintaining: "directory_step d () (enqueue (setMaintenance ids (di_roster d)) d)"
| offering: "i < length (di_pending d) \<Longrightarrow> directory_step d () (deliver i d)"
| sending: "directory_step d () (d\<lparr>di_streams := (di_streams d)(js := map_option run_turn (di_streams d js))\<rparr>)"

definition initial_directory :: "string list \<Rightarrow> string list \<Rightarrow> int \<Rightarrow> directory" where
  "initial_directory disabled maintenance unixMilli =
     \<lparr>di_roster = initial_roster disabled maintenance unixMilli, di_streams = Map.empty, di_pending = []\<rparr>"


subsection \<open>The Agent's copy\<close>

text \<open>
  \<open>net.SplitHostPort\<close>: host and port around the last colon, brackets only around a whole host.
  \<open>None\<close> for any of its errors.
\<close>

definition index_of :: "char \<Rightarrow> string \<Rightarrow> nat option" where
  "index_of c s = (if c \<in> set s then Some (length (takeWhile (\<lambda>d. d \<noteq> c) s)) else None)"

definition SplitHostPort :: "string \<Rightarrow> (string \<times> string) option" where
  "SplitHostPort hostport = (case last_index CHR '':'' hostport of
       None \<Rightarrow> None
     | Some i \<Rightarrow>
         (let port = drop (Suc i) hostport in
          if hostport ! 0 = CHR ''['' then
            (case index_of CHR '']'' hostport of
               None \<Rightarrow> None
             | Some e \<Rightarrow>
                 if e + 1 \<noteq> i then None
                 else if CHR ''['' \<in> set (drop 1 hostport) \<or> CHR '']'' \<in> set (drop (e + 1) hostport) then None
                 else Some (drop 1 (take e hostport), port))
          else let host = take i hostport in
            if CHR '':'' \<in> set host \<or> CHR ''['' \<in> set hostport \<or> CHR '']'' \<in> set hostport then None
            else Some (host, port)))"

text \<open>A string that contains \<open>://\<close> contains a slash, so one test covers both.\<close>

definition validateEndpoint :: "string \<Rightarrow> bool" where
  "validateEndpoint endpoint =
     (if TrimSpace endpoint = '''' then False
      else if CHR ''/'' \<in> set endpoint then False
      else case SplitHostPort endpoint of
        None \<Rightarrow> False
      | Some (host, port) \<Rightarrow>
          if host = '''' then False
          else case parse_int64 port of None \<Rightarrow> False | Some p \<Rightarrow> \<not> (p < 1 \<or> p > 65535))"

record RosterEntry =
  re_ReplicaID :: string
  re_Endpoint :: string
  re_State :: ReplicaState

definition validateReplica :: "GatewayReplica \<Rightarrow> RosterEntry option" where
  "validateReplica pb =
     (if gw_ReplicaId pb = '''' then None
      else if \<not> validateEndpoint (gw_Endpoint pb) then None
      else case gw_State pb of
        ReplicaState_other _ \<Rightarrow> None
      | REPLICA_STATE_UNSPECIFIED \<Rightarrow> None
      | state \<Rightarrow> Some \<lparr>re_ReplicaID = gw_ReplicaId pb, re_Endpoint = gw_Endpoint pb, re_State = state\<rparr>)"

record agent_roster =
  ar_maxGateways :: int
  ar_version :: int
  ar_accepted :: bool
  ar_entries :: "(string \<times> RosterEntry) list"

definition defaultMaxGateways :: int where "defaultMaxGateways = 16"

definition NewRoster :: "int \<Rightarrow> agent_roster" where
  "NewRoster maxGateways = \<lparr>ar_maxGateways = (if maxGateways = 0 then defaultMaxGateways else maxGateways),
     ar_version = 0, ar_accepted = False, ar_entries = []\<rparr>"

definition truncateLocked :: "int \<Rightarrow> (string \<times> RosterEntry) list \<Rightarrow> (string \<times> RosterEntry) list" where
  "truncateLocked limit entries =
     (if limit \<le> 0 \<or> int (length entries) \<le> limit then entries
      else map (\<lambda>endpoint. (endpoint, the (map_of entries endpoint))) (take (nat limit) (sort (map fst entries))))"

definition Seed :: "string list \<Rightarrow> agent_roster \<Rightarrow> agent_roster" where
  "Seed endpoints r =
     (let entries = fold (\<lambda>endpoint. AList.update endpoint
            \<lparr>re_ReplicaID = '''', re_Endpoint = endpoint, re_State = REPLICA_STATE_ACTIVE\<rparr>)
            (filter validateEndpoint endpoints) [] in
      if ar_accepted r then r else r\<lparr>ar_entries := truncateLocked (ar_maxGateways r) entries\<rparr>)"

definition valid_entries :: "GatewayRoster \<Rightarrow> (string \<times> RosterEntry) list" where
  "valid_entries pb = fold (\<lambda>e. AList.update (re_Endpoint e) e) (List.map_filter validateReplica (ro_Replicas pb)) []"

definition Apply :: "GatewayRoster option \<Rightarrow> agent_roster \<Rightarrow> bool \<times> agent_roster" where
  "Apply pb r = (case pb of None \<Rightarrow> (False, r)
     | Some roster \<Rightarrow>
         if ar_accepted r \<and> ro_Version roster \<le> ar_version r then (False, r)
         else let entries = valid_entries roster in
           if length entries = 0 then (False, r)
           else (True, r\<lparr>ar_entries := truncateLocked (ar_maxGateways r) entries, ar_version := ro_Version roster,
                  ar_accepted := True\<rparr>))"

definition entry_less :: "RosterEntry \<Rightarrow> RosterEntry \<Rightarrow> bool" where
  "entry_less a b \<longleftrightarrow> re_Endpoint a < re_Endpoint b"

definition Entries :: "agent_roster \<Rightarrow> RosterEntry list" where
  "Entries r = stable_sort entry_less (map snd (ar_entries r))"

definition ActiveCount :: "agent_roster \<Rightarrow> int" where
  "ActiveCount r = max (int (length (filter (\<lambda>(_, e). re_State e = REPLICA_STATE_ACTIVE) (ar_entries r)))) 1"

text \<open>The Agent after a sequence of broadcasts, from any of its streams.\<close>

fun apply_all :: "GatewayRoster list \<Rightarrow> agent_roster \<Rightarrow> agent_roster" where
  "apply_all [] r = r"
| "apply_all (pb # pbs) r = apply_all pbs (snd (Apply (Some pb) r))"


section \<open>Lemmas\<close>

subsection \<open>One stream\<close>

text \<open>
  What a stream has sent is strictly ascending and ends with \<open>sent\<close>; \<open>latest\<close> is that or newer,
  and a stream that is not woken has nothing newer to send.
\<close>

definition stream_ok :: "joinStream \<Rightarrow> bool" where
  "stream_ok j \<longleftrightarrow> sorted_wrt (<) (map ro_Version (js_out j))
     \<and> js_sent j = (if js_out j = [] then None else Some (last (js_out j)))
     \<and> (\<forall>s. js_sent j = Some s \<longrightarrow> (\<exists>l. js_latest j = Some l \<and> (l = s \<or> ro_Version s < ro_Version l)))
     \<and> (\<not> js_wake j \<longrightarrow> js_latest j = js_sent j)"

lemma stream_ok_new [simp]: "stream_ok (newJoinStream replicaID)"
  by (simp add: stream_ok_def newJoinStream_def)

lemma stream_ok_offer [simp]: "stream_ok j \<Longrightarrow> stream_ok (offer roster j)"
  by (cases "js_latest j") (force simp: stream_ok_def offer_def Let_def)+

lemma sorted_last: "sorted_wrt (<) (map f xs) \<Longrightarrow> x \<in> set xs \<Longrightarrow> f x \<le> (f (last xs) :: int)"
  by (induction xs rule: rev_induct) (auto simp: sorted_wrt_append less_imp_le)

lemma stream_ok_run_turn [simp]:
  assumes "stream_ok j" shows "stream_ok (run_turn j)"
proof (cases "\<not> js_wake j \<or> js_latest j = None \<or> js_latest j = js_sent j")
  case True
  then show ?thesis using assms by (auto simp: stream_ok_def run_turn_def Let_def split: if_splits)
next
  case False
  then obtain l where l: "js_latest j = Some l" "js_wake j" "js_sent j \<noteq> Some l" by auto
  have "ro_Version x < ro_Version l" if "x \<in> set (js_out j)" for x
  proof -
    have "js_out j \<noteq> []" using that by auto
    then have "js_sent j = Some (last (js_out j))" using assms by (simp add: stream_ok_def)
    then have "ro_Version (last (js_out j)) < ro_Version l" using assms l by (auto simp: stream_ok_def)
    moreover have "ro_Version x \<le> ro_Version (last (js_out j))" using assms that by (auto simp: stream_ok_def intro: sorted_last)
    ultimately show ?thesis by linarith
  qed
  then show ?thesis using assms l by (auto simp: stream_ok_def run_turn_def Let_def sorted_wrt_append)
qed

lemma offer_latest:
  "js_latest (offer roster j) = (case js_latest j of None \<Rightarrow> Some roster
     | Some l \<Rightarrow> if ro_Version roster > ro_Version l then Some roster else Some l)"
  by (auto simp: offer_def Let_def split: option.splits)

lemma run_turn_latest [simp]: "js_latest (run_turn j) = js_latest j"
  by (simp add: run_turn_def Let_def)

subsection \<open>All streams\<close>

text \<open>Every roster in flight or held is of this version or older, and of this version only if it is the current one.\<close>

definition current :: "rosterState \<Rightarrow> GatewayRoster" where
  "current r = fst (snapshotLocked r)"

definition fits :: "rosterState \<Rightarrow> GatewayRoster \<Rightarrow> bool" where
  "fits r x \<longleftrightarrow> ro_Version x < rs_version r \<or> x = current r"

definition dir_ok :: "directory \<Rightarrow> bool" where
  "dir_ok d \<longleftrightarrow> (\<forall>x js. (x, js) \<in> set (di_pending d) \<longrightarrow> fits (di_roster d) x)
     \<and> (\<forall>js j. di_streams d js = Some j \<longrightarrow> stream_ok j \<and> (\<forall>l. js_latest j = Some l \<longrightarrow> fits (di_roster d) l))
     \<and> (\<forall>js \<in> set (rs_streams (di_roster d)). \<exists>j. di_streams d js = Some j
          \<and> (js_latest j = Some (current (di_roster d)) \<or> (current (di_roster d), js) \<in> set (di_pending d)))"

lemma version_current [simp]: "ro_Version (current r) = rs_version r"
  by (simp add: current_def snapshotLocked_def)

lemma fits_le: "fits r x \<Longrightarrow> ro_Version x \<le> rs_version r"
  by (auto simp: fits_def)

text \<open>A change that leaves the snapshot alone, and one that makes a newer one for every open stream.\<close>

lemma dir_ok_quiet:
  assumes "dir_ok d" and "current r = current (di_roster d)" and "set (rs_streams r) \<subseteq> set (rs_streams (di_roster d))"
  shows "dir_ok (enqueue (r, None) d)"
proof -
  have "rs_version r = rs_version (di_roster d)" using assms(2) version_current by metis
  then have "fits r = fits (di_roster d)" using assms(2) by (simp add: fits_def fun_eq_iff)
  then show ?thesis using assms unfolding dir_ok_def enqueue_def by auto
qed

lemma dir_ok_bump:
  assumes "dir_ok d" and "rs_version r = rs_version (di_roster d)" and "rs_version r < max_int64" and "in_int64 (rs_version r)"
    and "\<And>js. js \<in> set (rs_streams r) \<Longrightarrow> di_streams d js \<noteq> None"
  shows "dir_ok (enqueue (bump r) d)"
proof -
  let ?r' = "r\<lparr>rs_version := wrap64 (rs_version r + 1)\<rparr>"
  have v: "wrap64 (rs_version r + 1) = rs_version r + 1"
    using assms(3,4) by (intro wrap64_id) (simp add: in_int64_def)
  have "fits ?r' x" if "fits (di_roster d) x" for x
    using fits_le [OF that] assms(2) v by (simp add: fits_def)
  then show ?thesis
    using assms(1,5) unfolding dir_ok_def enqueue_def bump_def Let_def
    by (auto simp: current_def fits_def snapshotLocked_def)
qed

lemma dir_ok_deliver:
  assumes "dir_ok d" and "i < length (di_pending d)"
  shows "dir_ok (deliver i d)"
proof -
  obtain x js where p: "di_pending d ! i = (x, js)" by fastforce
  have "set (di_pending d) = insert (x, js) (set (take i (di_pending d) @ drop (Suc i) (di_pending d)))"
    using assms(2) p by (metis id_take_nth_drop list.simps(15) mset.simps(2) mset_append set_mset_add_mset_insert set_mset_mset union_mset_add_mset_right)
  moreover have "fits (di_roster d) x" using assms p unfolding dir_ok_def by (metis nth_mem)
  moreover have "js_latest (offer x j) = Some (current (di_roster d))"
    if "js_latest j = Some (current (di_roster d)) \<or> x = current (di_roster d)" "\<And>l. js_latest j = Some l \<Longrightarrow> fits (di_roster d) l"
      "fits (di_roster d) x" for j
    using that fits_le [of "di_roster d" x] by (auto simp: offer_latest fits_def split: option.splits)
  moreover have "fits (di_roster d) l" if "js_latest (offer x j) = Some l" "\<And>l. js_latest j = Some l \<Longrightarrow> fits (di_roster d) l"
      "fits (di_roster d) x" for j l
    using that by (auto simp: offer_latest split: option.splits if_splits)
  ultimately show ?thesis
    using assms(1) p unfolding dir_ok_def deliver_def by auto metis
qed

lemma dir_ok_send: "dir_ok d \<Longrightarrow> dir_ok (d\<lparr>di_streams := (di_streams d)(js := map_option run_turn (di_streams d js))\<rparr>)"
  unfolding dir_ok_def by auto

text \<open>Ownership: an entry stands for an open stream that speaks for its replica id.\<close>

definition owners_ok :: "directory \<Rightarrow> bool" where
  "owners_ok d \<longleftrightarrow> wf_map (rs_replicas (di_roster d)) \<and> distinct (rs_streams (di_roster d))
     \<and> (\<forall>rid. rs_owners (di_roster d) rid = None \<longleftrightarrow> map_of (rs_replicas (di_roster d)) rid = None)
     \<and> (\<forall>rid js. rs_owners (di_roster d) rid = Some js \<longrightarrow> js \<in> set (rs_streams (di_roster d))
          \<and> (\<exists>j. di_streams d js = Some j \<and> js_replicaID j = rid))
     \<and> (\<forall>js \<in> set (rs_streams (di_roster d)). di_streams d js \<noteq> None)"

lemma replicaID_same [simp]: "js_replicaID (offer x j) = js_replicaID j" "js_replicaID (run_turn j) = js_replicaID j"
  "js_replicaID (newJoinStream rid) = rid"
  by (simp_all add: offer_def run_turn_def newJoinStream_def Let_def)

lemma enqueue_simps [simp]:
  "di_roster (enqueue c d) = fst c" "di_streams (enqueue c d) = di_streams d"
  by (auto simp: enqueue_def split: prod.splits option.splits)

lemma bump_fields [simp]:
  "rs_replicas (fst (bump r)) = rs_replicas r" "rs_owners (fst (bump r)) = rs_owners r"
  "rs_streams (fst (bump r)) = rs_streams r" "rs_version (fst (bump r)) = wrap64 (rs_version r + 1)"
  "rs_revoked (fst (bump r)) = rs_revoked r" "rs_maintenance (fst (bump r)) = rs_maintenance r"
  by (simp_all add: bump_def Let_def)

lemma owners_ok_step:
  assumes "directory_step d e d'" and "owners_ok d"
  shows "owners_ok d'"
  using assms
proof cases
  case (joining js rid ep st)
  then show ?thesis using assms(2) by (fastforce simp: owners_ok_def join_def)
next
  case (updating js j st)
  then show ?thesis using assms(2)
    by (auto simp: owners_ok_def updateState_def split: option.splits if_splits)
next
  case (leaving js j)
  then have own: "rs_owners (di_roster d) rid = Some js \<Longrightarrow> rid = js_replicaID j \<and> rs_owners (di_roster d) (js_replicaID j) = Some js" for rid
    using assms(2) unfolding owners_ok_def by (metis option.inject)
  show ?thesis using assms(2) leaving
    by (auto simp: owners_ok_def leave_def Let_def delete_conv' in_set_remove1 distinct_remove1 split: if_splits dest: own)
next
  case (offering i)
  then show ?thesis using assms(2) by (fastforce simp: owners_ok_def deliver_def split: prod.splits)
next
  case (sending js)
  then show ?thesis using assms(2) by (fastforce simp: owners_ok_def)
qed (auto simp: owners_ok_def setRevoked_def setMaintenance_def Let_def)

lemma directory_step_ok:
  assumes "directory_step d e d'" and "dir_ok d" and "owners_ok d"
    and "in_int64 (rs_version (di_roster d))" and "rs_version (di_roster d) < max_int64"
  shows "dir_ok d' \<and> rs_version (di_roster d) \<le> rs_version (di_roster d') \<and> rs_version (di_roster d') \<le> rs_version (di_roster d) + 1"
proof -
  have v: "wrap64 (rs_version (di_roster d) + 1) = rs_version (di_roster d) + 1"
    using assms(4,5) by (intro wrap64_id) (simp add: in_int64_def)
  have open': "di_streams d js \<noteq> None" if "js \<in> set (rs_streams (di_roster d))" for js
    using assms(3) that by (auto simp: owners_ok_def)
  have same: "dir_ok (enqueue (di_roster d, None) d)"
    by (rule dir_ok_quiet) (simp_all add: assms(2))
  show ?thesis using assms(1)
  proof cases
    case (joining js rid ep st)
    let ?d = "d\<lparr>di_streams := (di_streams d)(js \<mapsto> newJoinStream rid)\<rparr>"
    have "js \<notin> set (rs_streams (di_roster d))" using joining(3) open' by blast
    then have "dir_ok ?d" using assms(2) by (auto simp: dir_ok_def newJoinStream_def [of rid] stream_ok_new [unfolded newJoinStream_def])
    then have "dir_ok d'" unfolding joining join_def
      by (rule dir_ok_bump) (use assms(4,5) open' in auto)
    then show ?thesis using v joining by (simp add: join_def)
  next
    case (updating js j st)
    show ?thesis
    proof (cases "snd (updateState js (js_replicaID j) st (di_roster d))")
      case None
      then have "updateState js (js_replicaID j) st (di_roster d) = (di_roster d, None)"
        by (auto simp: updateState_def bump_def Let_def split: option.splits if_splits)
      then show ?thesis using same updating by simp
    next
      case (Some x)
      then obtain r where "updateState js (js_replicaID j) st (di_roster d) = bump r" "rs_version r = rs_version (di_roster d)"
        "rs_streams r = rs_streams (di_roster d)"
        by (auto simp: updateState_def split: option.splits if_splits)
      then show ?thesis using dir_ok_bump [OF assms(2), of r] assms(4,5) open' v updating by simp
    qed
  next
    case (leaving js j)
    let ?r = "(di_roster d)\<lparr>rs_streams := remove1 js (rs_streams (di_roster d))\<rparr>"
    have sub: "set (remove1 js (rs_streams (di_roster d))) \<subseteq> set (rs_streams (di_roster d))" by (rule set_remove1_subset)
    have quiet: "dir_ok (enqueue (?r, None) d)"
      by (rule dir_ok_quiet [OF assms(2)]) (simp_all add: current_def snapshotLocked_def sub)
    from sub have loud: "dir_ok (enqueue (bump (?r\<lparr>rs_owners := ow, rs_replicas := rp\<rparr>)) d)" for ow rp
      by (intro dir_ok_bump [OF assms(2)]) (use assms(4,5) open' in auto)
    show ?thesis using quiet loud v leaving by (simp add: leave_def Let_def)
  next
    case (revoking ids)
    have "dir_ok (enqueue (bump ((di_roster d)\<lparr>rs_revoked := remdups ids\<rparr>)) d)"
      by (rule dir_ok_bump [OF assms(2)]) (use assms(4,5) open' in auto)
    then show ?thesis using same v revoking by (simp add: setRevoked_def Let_def)
  next
    case (maintaining ids)
    have "dir_ok (enqueue (bump ((di_roster d)\<lparr>rs_maintenance := remdups ids\<rparr>)) d)"
      by (rule dir_ok_bump [OF assms(2)]) (use assms(4,5) open' in auto)
    then show ?thesis using same v maintaining by (simp add: setMaintenance_def Let_def)
  next
    case (offering i)
    then show ?thesis using dir_ok_deliver [OF assms(2)] by (auto simp: deliver_def split: prod.splits)
  next
    case (sending js)
    then show ?thesis using dir_ok_send [OF assms(2)] by simp
  qed
qed

lemma directory_reach:
  assumes "run directory_step (initial_directory dis mnt v) es d" and "in_int64 v" and "v + int (length es) \<le> max_int64"
  shows "dir_ok d \<and> owners_ok d \<and> v \<le> rs_version (di_roster d) \<and> rs_version (di_roster d) \<le> v + int (length es)"
  using assms
proof (induction "initial_directory dis mnt v" es d rule: run.induct)
  case run_Nil
  then show ?case by (simp add: dir_ok_def owners_ok_def initial_directory_def initial_roster_def)
next
  case (run_snoc es d e d')
  then have IH: "dir_ok d" "owners_ok d" "v \<le> rs_version (di_roster d)" "rs_version (di_roster d) \<le> v + int (length es)"
    by auto
  have "in_int64 (rs_version (di_roster d))" "rs_version (di_roster d) < max_int64"
    using IH(3,4) run_snoc.prems by (auto simp: in_int64_def)
  then show ?case
    using directory_step_ok [OF run_snoc(3) IH(1,2)] owners_ok_step [OF run_snoc(3) IH(2)] IH(3,4) by auto
qed

subsection \<open>The Agent's copy\<close>

interpretation by_endpoint: strict_weak_order entry_less
  by unfold_locales (auto simp: entry_less_def)

lemma wf_valid_entries [simp]: "wf_map (valid_entries pb)"
  unfolding valid_entries_def by (rule wf_map_fold_update) simp

lemma wf_truncate [simp]: "wf_map m \<Longrightarrow> wf_map (truncateLocked limit m)"
  by (simp add: truncateLocked_def wf_map_def o_def)

lemma length_truncate: "0 < limit \<Longrightarrow> int (length (truncateLocked limit m)) \<le> limit"
  by (simp add: truncateLocked_def)

lemma truncate_Nil: "truncateLocked limit m = [] \<longleftrightarrow> m = []"
  by (auto simp: truncateLocked_def simp flip: length_0_conv)

lemma truncate_lookup: "wf_map m \<Longrightarrow> map_of (truncateLocked limit m) k = Some e \<Longrightarrow> map_of m k = Some e"
proof -
  assume wf: "wf_map m" and *: "map_of (truncateLocked limit m) k = Some e"
  show "map_of m k = Some e"
  proof (cases "limit \<le> 0 \<or> int (length m) \<le> limit")
    case False
    then have "e = the (map_of m k)" "k \<in> set (take (nat limit) (sort (map fst m)))"
      using * by (auto simp: truncateLocked_def dest!: map_of_SomeD)
    then have "k \<in> fst ` set m" using set_take_subset [of "nat limit" "sort (map fst m)"] by auto
    then have "map_of m k \<noteq> None" by (simp add: map_of_eq_None_iff)
    then show ?thesis using \<open>e = the (map_of m k)\<close> by auto
  qed (use * in \<open>simp add: truncateLocked_def\<close>)
qed

lemma valid_entries_lookup:
  assumes "map_of (valid_entries pb) k = Some e"
  shows "re_Endpoint e = k \<and> validateEndpoint k \<and> (\<exists>rep \<in> set (ro_Replicas pb). validateReplica rep = Some e)"
proof -
  have *: "e \<in> set (List.map_filter validateReplica (ro_Replicas pb)) \<and> re_Endpoint e = k"
    using map_of_fold_update [OF assms [unfolded valid_entries_def]] by simp
  then obtain rep where "rep \<in> set (ro_Replicas pb)" "validateReplica rep = Some e"
    by (auto simp: map_filter_def)
  moreover from this have "validateEndpoint (re_Endpoint e)"
    by (auto simp: validateReplica_def split: if_splits ReplicaState.splits)
  ultimately show ?thesis using * by blast
qed

text \<open>What an Agent that has seen the broadcasts \<open>seen\<close> and accepted some must look like.\<close>

definition newest_of :: "GatewayRoster set \<Rightarrow> agent_roster \<Rightarrow> bool" where
  "newest_of seen r \<longleftrightarrow> (\<exists>p \<in> seen. valid_entries p \<noteq> [] \<and> ar_version r = ro_Version p
     \<and> ar_entries r = truncateLocked (ar_maxGateways r) (valid_entries p)
     \<and> (\<forall>q \<in> seen. valid_entries q \<noteq> [] \<longrightarrow> ro_Version q \<le> ro_Version p))"

lemma apply_all_append: "apply_all (ps @ [p]) r = snd (Apply (Some p) (apply_all ps r))"
  by (induction ps arbitrary: r) simp_all

lemma apply_all_newest:
  assumes "\<not> ar_accepted r"
  shows "ar_maxGateways (apply_all ps r) = ar_maxGateways r \<and>
    (if \<exists>p \<in> set ps. valid_entries p \<noteq> [] then ar_accepted (apply_all ps r) \<and> newest_of (set ps) (apply_all ps r)
     else apply_all ps r = r)"
proof (induction ps rule: rev_induct)
  case (snoc p ps)
  let ?r = "apply_all ps r"
  have keep: "ar_maxGateways ?r = ar_maxGateways r" using snoc by blast
  have some: "ar_accepted ?r \<and> newest_of (set ps) ?r" if "q \<in> set ps" "valid_entries q \<noteq> []" for q
  proof -
    have "\<exists>q \<in> set ps. valid_entries q \<noteq> []" using that by blast
    then show ?thesis using snoc by (simp only: if_True)
  qed
  have none: "?r = r" if "\<not> (\<exists>q \<in> set ps. valid_entries q \<noteq> [])"
    using snoc that by (simp only: if_False)
  show ?case
  proof (cases "valid_entries p = []")
    case True
    then have "apply_all (ps @ [p]) r = ?r" by (simp add: apply_all_append Apply_def)
    moreover have "newest_of (insert p (set ps)) ?r = newest_of (set ps) ?r" using True by (auto simp: newest_of_def)
    ultimately show ?thesis using snoc True by simp
  next
    case False
    show ?thesis
    proof (cases "ar_accepted ?r \<and> ro_Version p \<le> ar_version ?r")
      case True
      then have "apply_all (ps @ [p]) r = ?r" by (simp add: apply_all_append Apply_def)
      moreover have "\<exists>q \<in> set ps. valid_entries q \<noteq> []"
      proof (rule ccontr)
        assume "\<not> ?thesis"
        then have "?r = r" by (rule none)
        then show False using True assms by simp
      qed
      then obtain n where "n \<in> set ps" "valid_entries n \<noteq> []" "ar_version ?r = ro_Version n"
        "ar_entries ?r = truncateLocked (ar_maxGateways ?r) (valid_entries n)"
        "\<forall>q \<in> set ps. valid_entries q \<noteq> [] \<longrightarrow> ro_Version q \<le> ro_Version n"
        using some unfolding newest_of_def by blast
      then have "newest_of (insert p (set ps)) ?r"
        unfolding newest_of_def using True by (intro bexI [of _ n]) simp_all
      ultimately show ?thesis using keep True False by simp
    next
      case newer: False
      then have *: "apply_all (ps @ [p]) r = ?r\<lparr>ar_entries := truncateLocked (ar_maxGateways ?r) (valid_entries p),
          ar_version := ro_Version p, ar_accepted := True\<rparr>"
        using False by (auto simp: apply_all_append Apply_def Let_def)
      have "ro_Version q \<le> ro_Version p" if "q \<in> set ps" "valid_entries q \<noteq> []" for q
      proof -
        have "ro_Version q \<le> ar_version ?r" using some [OF that] that by (auto simp: newest_of_def)
        then show ?thesis using newer some [OF that] by auto
      qed
      then have "newest_of (insert p (set ps)) (apply_all (ps @ [p]) r)"
        unfolding * newest_of_def using False by auto
      then show ?thesis using keep False * by simp
    qed
  qed
qed (simp add: newest_of_def)



subsection \<open>A concrete history\<close>

text \<open>A replica joins, a node is revoked, and the second broadcast overtakes the first.\<close>

definition replica_a :: GatewayReplica where
  "replica_a = \<lparr>gw_ReplicaId = ''r1'', gw_Endpoint = ''gw:443'', gw_State = REPLICA_STATE_ACTIVE\<rparr>"

definition roster_a :: "int \<Rightarrow> string list \<Rightarrow> GatewayRoster" where
  "roster_a v revoked = \<lparr>ro_Replicas = [replica_a], ro_Version = v, ro_RevokedNodeIds = revoked, ro_MaintenanceNodeIds = []\<rparr>"

definition state_a :: "int \<Rightarrow> string list \<Rightarrow> rosterState" where
  "state_a v revoked = \<lparr>rs_replicas = [(''r1'', replica_a)], rs_owners = [''r1'' \<mapsto> 1], rs_revoked = revoked,
     rs_maintenance = [], rs_version = v, rs_streams = [1]\<rparr>"

definition stream_a :: "GatewayRoster option \<Rightarrow> bool \<Rightarrow> GatewayRoster option \<Rightarrow> GatewayRoster list \<Rightarrow> joinStream" where
  "stream_a latest wake sent out = \<lparr>js_replicaID = ''r1'', js_latest = latest, js_wake = wake, js_sent = sent, js_out = out\<rparr>"

definition dir_a :: "rosterState \<Rightarrow> joinStream \<Rightarrow> (GatewayRoster \<times> stream_id) list \<Rightarrow> directory" where
  "dir_a r j pending = \<lparr>di_roster = r, di_streams = [1 \<mapsto> j], di_pending = pending\<rparr>"

abbreviation new_a :: GatewayRoster where "new_a \<equiv> roster_a 102 [''n9'']"

lemmas dir_a_defs = dir_a_def state_a_def stream_a_def roster_a_def replica_a_def enqueue_def bump_def Let_def
  snapshotLocked_def

lemma wrap64_small [simp]: "wrap64 101 = 101" "wrap64 102 = 102"
  by (simp_all add: wrap64_def)

lemma validate_sample: "validateEndpoint ''gw:443''"
  by code_simp

lemma history_a: "run directory_step (initial_directory [] [] 100) [(), (), (), (), (), ()]
    (dir_a (state_a 102 [''n9'']) (stream_a (Some new_a) False (Some new_a) [new_a]) [])"
proof -
  let ?d1 = "dir_a (state_a 101 []) (stream_a None False None []) [(roster_a 101 [], 1)]"
  let ?d2 = "dir_a (state_a 102 [''n9'']) (stream_a None False None []) [(roster_a 101 [], 1), (new_a, 1)]"
  let ?d3 = "dir_a (state_a 102 [''n9'']) (stream_a (Some new_a) True None []) [(roster_a 101 [], 1)]"
  let ?d4 = "dir_a (state_a 102 [''n9'']) (stream_a (Some new_a) False (Some new_a) [new_a]) [(roster_a 101 [], 1)]"
  let ?d5 = "dir_a (state_a 102 [''n9'']) (stream_a (Some new_a) True (Some new_a) [new_a]) []"
  let ?d6 = "dir_a (state_a 102 [''n9'']) (stream_a (Some new_a) False (Some new_a) [new_a]) []"
  let ?d0 = "initial_directory [] [] 100"
  have "?d1 = enqueue (join 1 ''r1'' ''gw:443'' REPLICA_STATE_ACTIVE (di_roster ?d0)) (?d0\<lparr>di_streams := (di_streams ?d0)(1 \<mapsto> newJoinStream ''r1'')\<rparr>)"
    by (simp add: dir_a_defs join_def initial_directory_def initial_roster_def newJoinStream_def)
  then have 1: "directory_step ?d0 () ?d1"
    using directory_step.joining [of ?d0 1] by (simp add: initial_directory_def)
  have "?d2 = enqueue (setRevoked [''n9''] (di_roster ?d1)) ?d1"
    by (simp add: dir_a_defs setRevoked_def mapsEqual_def)
  then have 2: "directory_step ?d1 () ?d2" by (simp only: directory_step.revoking)
  have "?d3 = deliver 1 ?d2" by (simp add: dir_a_defs deliver_def offer_def)
  then have 3: "directory_step ?d2 () ?d3" using directory_step.offering [of 1 ?d2] by (simp add: dir_a_def)
  have "?d4 = ?d3\<lparr>di_streams := (di_streams ?d3)(1 := map_option run_turn (di_streams ?d3 1))\<rparr>"
    by (simp add: dir_a_def stream_a_def run_turn_def Let_def)
  then have 4: "directory_step ?d3 () ?d4" by (simp only: directory_step.sending)
  have "?d5 = deliver 0 ?d4" by (simp add: dir_a_defs deliver_def offer_def)
  then have 5: "directory_step ?d4 () ?d5" using directory_step.offering [of 0 ?d4] by (simp add: dir_a_def)
  have "?d6 = ?d5\<lparr>di_streams := (di_streams ?d5)(1 := map_option run_turn (di_streams ?d5 1))\<rparr>"
    by (simp add: dir_a_def stream_a_def run_turn_def Let_def)
  then have 6: "directory_step ?d5 () ?d6" by (simp only: directory_step.sending)
  have "run directory_step ?d0 (((((([] @ [()]) @ [()]) @ [()]) @ [()]) @ [()]) @ [()]) ?d6"
    using 1 2 3 4 5 6 by (blast intro: run_Nil run_snoc)
  then show ?thesis by simp
qed


section \<open>Properties\<close>

text \<open>
  C32. However joins, departures, state changes, revocations, deliveries and sends are interleaved, a
  Gateway's stream is sent rosters of strictly ascending versions; and a stream that is still open, has
  no offer under way and is not woken has been sent the roster the Registry holds now. The version
  counter is assumed not to run out.
\<close>

theorem roster_delivery:
  assumes "run directory_step (initial_directory disabled maintenance version) es d"
    and "in_int64 version" and "version + int (length es) \<le> max_int64"
    and "di_streams d js = Some j"
  shows "sorted_wrt (<) (map ro_Version (js_out j))
    \<and> (js \<in> set (rs_streams (di_roster d)) \<and> (\<forall>p \<in> set (di_pending d). snd p \<noteq> js) \<and> \<not> js_wake j
        \<longrightarrow> js_out j \<noteq> [] \<and> last (js_out j) = fst (snapshotLocked (di_roster d)))"
proof -
  have ok: "dir_ok d" using directory_reach [OF assms(1-3)] by blast
  then have st: "stream_ok j" using assms(4) by (auto simp: dir_ok_def)
  moreover have "js_out j \<noteq> [] \<and> last (js_out j) = current (di_roster d)"
    if "js \<in> set (rs_streams (di_roster d))" "\<forall>p \<in> set (di_pending d). snd p \<noteq> js" "\<not> js_wake j"
  proof -
    have "js_latest j = Some (current (di_roster d))" using ok that(1,2) assms(4) by (fastforce simp: dir_ok_def)
    then have "js_sent j = Some (current (di_roster d))" using st that(3) by (simp add: stream_ok_def)
    then show ?thesis using st by (auto simp: stream_ok_def split: if_splits)
  qed
  ultimately show ?thesis unfolding current_def stream_ok_def by blast
qed

theorem roster_delivery_witness:
  "js_out (stream_a (Some new_a) False (Some new_a) [new_a]) \<noteq> []
   \<and> last (js_out (stream_a (Some new_a) False (Some new_a) [new_a])) = fst (snapshotLocked (state_a 102 [''n9'']))"
  using roster_delivery [OF history_a, of 1 "stream_a (Some new_a) False (Some new_a) [new_a]"]
  by (simp add: dir_a_def in_int64_def min_int64_def max_int64_def state_a_def stream_a_def)

text \<open>
  A replica is in the roster exactly as long as the stream that joined for it last is open: every
  entry has an owning open stream of that replica id, and a stream that was superseded can neither
  change nor remove the entry.
\<close>

theorem roster_owned:
  assumes "run directory_step (initial_directory disabled maintenance version) es d"
    and "in_int64 version" and "version + int (length es) \<le> max_int64"
  shows "(map_of (rs_replicas (di_roster d)) rid \<noteq> None \<longleftrightarrow>
      (\<exists>js j. rs_owners (di_roster d) rid = Some js \<and> js \<in> set (rs_streams (di_roster d)) \<and> di_streams d js = Some j \<and> js_replicaID j = rid))
    \<and> (rs_owners (di_roster d) rid \<noteq> Some js \<longrightarrow>
      rs_replicas (fst (leave js rid (di_roster d))) = rs_replicas (di_roster d)
      \<and> updateState js rid state (di_roster d) = (di_roster d, None))"
proof -
  have "owners_ok d" using directory_reach [OF assms] by blast
  then have "map_of (rs_replicas (di_roster d)) rid \<noteq> None \<longleftrightarrow>
      (\<exists>js j. rs_owners (di_roster d) rid = Some js \<and> js \<in> set (rs_streams (di_roster d)) \<and> di_streams d js = Some j \<and> js_replicaID j = rid)"
    unfolding owners_ok_def by (metis not_None_eq)
  then show ?thesis by (auto simp: leave_def updateState_def Let_def split: option.splits)
qed

theorem roster_owned_witness:
  "map_of (rs_replicas (state_a 102 [''n9''])) ''r1'' \<noteq> None
   \<and> rs_replicas (fst (leave 7 ''r1'' (state_a 102 [''n9'']))) = rs_replicas (state_a 102 [''n9''])"
  using roster_owned [OF history_a, of "''r1''" 7]
  by (simp add: dir_a_def in_int64_def min_int64_def max_int64_def state_a_def stream_a_def)

text \<open>
  Whatever rosters an Agent is sent, in whatever order and however often, it ends with the newest
  one that has a usable row: its endpoints are that roster's valid rows, at most \<open>max_gateways\<close> of
  them, never none. A roster without a usable row changes nothing.
\<close>

theorem agent_roster_newest:
  assumes "\<not> ar_accepted r" and "p \<in> set ps" and "valid_entries p \<noteq> []"
  shows "(\<exists>newest \<in> set ps. ar_version (apply_all ps r) = ro_Version newest
        \<and> ar_entries (apply_all ps r) = truncateLocked (ar_maxGateways r) (valid_entries newest)
        \<and> (\<forall>q \<in> set ps. valid_entries q \<noteq> [] \<longrightarrow> ro_Version q \<le> ro_Version newest))
    \<and> ar_entries (apply_all ps r) \<noteq> []
    \<and> (0 < ar_maxGateways r \<longrightarrow> int (length (ar_entries (apply_all ps r))) \<le> ar_maxGateways r)
    \<and> (\<forall>k e. map_of (ar_entries (apply_all ps r)) k = Some e \<longrightarrow> re_Endpoint e = k \<and> validateEndpoint k)"
proof -
  have *: "ar_maxGateways (apply_all ps r) = ar_maxGateways r" "newest_of (set ps) (apply_all ps r)"
    using apply_all_newest [OF assms(1), of ps] assms(2,3) by (auto split: if_splits)
  then obtain n where n: "n \<in> set ps" "valid_entries n \<noteq> []" "ar_version (apply_all ps r) = ro_Version n"
    "ar_entries (apply_all ps r) = truncateLocked (ar_maxGateways r) (valid_entries n)"
    "\<forall>q \<in> set ps. valid_entries q \<noteq> [] \<longrightarrow> ro_Version q \<le> ro_Version n"
    by (auto simp: newest_of_def)
  have "ar_entries (apply_all ps r) \<noteq> []" using n(2,4) by (simp add: truncate_Nil)
  moreover have "0 < ar_maxGateways r \<longrightarrow> int (length (ar_entries (apply_all ps r))) \<le> ar_maxGateways r"
    using n(4) length_truncate by simp
  moreover have "re_Endpoint e = k \<and> validateEndpoint k" if "map_of (ar_entries (apply_all ps r)) k = Some e" for k e
    using that valid_entries_lookup [of n k e] truncate_lookup [OF wf_valid_entries] n(4) by metis
  ultimately show ?thesis using n(1,3,4,5) by blast
qed

theorem agent_roster_newest_witness:
  "ar_entries (apply_all [roster_a 102 [], roster_a 101 []] (NewRoster 0)) \<noteq> []
   \<and> (\<exists>newest \<in> set [roster_a 102 [], roster_a 101 []].
        ar_version (apply_all [roster_a 102 [], roster_a 101 []] (NewRoster 0)) = ro_Version newest)"
proof -
  have "valid_entries (roster_a 102 []) \<noteq> []"
    by (simp add: valid_entries_def roster_a_def replica_a_def map_filter_def validateReplica_def validate_sample)
  moreover have "\<not> ar_accepted (NewRoster 0)" by (simp add: NewRoster_def)
  ultimately show ?thesis
    using agent_roster_newest [of "NewRoster 0" "roster_a 102 []" "[roster_a 102 [], roster_a 101 []]"] by auto
qed

end
