(* ===== verification/Registry.thy ===== *)
theory Registry
  imports TokenStore IdentityStore Roster
begin

text \<open>
  The Registry's gRPC surface (\<open>aiServeWeaveRegistry/internal/registryserver\<close>) over its certificate
  authority (\<open>internal/ca\<close>), the token store, the identity ledger and the roster, and the naming
  convention of node certificates (\<open>common/nodeid\<close>).

  \<open>Register\<close> and \<open>RenewCertificate\<close> are written twice: as the handler the source has, and as the
  sequence of the critical sections it goes through, for the theory of concurrent callers. The lemmas show
  that the two agree when nobody interferes.

  Code that is not part of the repository is a parameter, the record \<open>crypto\<close>: parsing a certificate
  request, SHA-256, and whether \<open>x509.CreateCertificate\<close> accepts a template.
\<close>


section \<open>Definitions\<close>

subsection \<open>common/nodeid\<close>

record url =
  url_Scheme :: string
  url_Host :: string
  url_Path :: string

definition URIScheme :: string where "URIScheme = ''aiserveweave''"
definition URIHost :: string where "URIHost = ''node''"

definition URI :: "string \<Rightarrow> url" where
  "URI nodeID = \<lparr>url_Scheme = URIScheme, url_Host = URIHost, url_Path = ''/'' @ nodeID\<rparr>"

record certificate =
  ct_SerialNumber :: nat
  ct_CommonName :: string
  ct_URIs :: "url list"
  ct_DNSNames :: "string list"
  ct_NotBefore :: go_time
  ct_NotAfter :: go_time
  ct_PublicKey :: string
  ct_ClientAuth :: bool

definition TrimPrefix :: "string \<Rightarrow> string \<Rightarrow> string" where
  "TrimPrefix s p = (if prefix p s then drop (length p) s else s)"

fun uri_identity :: "url list \<Rightarrow> string option" where
  "uri_identity [] = None"
| "uri_identity (u # us) =
     (if url_Scheme u \<noteq> URIScheme \<or> url_Host u \<noteq> URIHost then uri_identity us
      else let i = TrimPrefix (url_Path u) ''/'' in if i \<noteq> '''' then Some i else uri_identity us)"

definition FromCertificate :: "certificate option \<Rightarrow> string option" where
  "FromCertificate leaf = (case leaf of None \<Rightarrow> None
     | Some c \<Rightarrow> (case uri_identity (ct_URIs c) of
           Some i \<Rightarrow> Some i
         | None \<Rightarrow> if length (ct_DNSNames c) = 1 \<and> ct_DNSNames c ! 0 \<noteq> '''' then Some (ct_DNSNames c ! 0) else None))"

text \<open>What a connection tells about its peer; \<open>TLS\<close> with the verified chains, whose entries may be nil.\<close>

datatype peer = NoPeer | NotTLS | TLS "certificate option list list"

fun verifiedLeaf :: "certificate option list list \<Rightarrow> certificate option" where
  "verifiedLeaf [] = None"
| "verifiedLeaf (chain # rest) = (if length chain > 0 \<and> chain ! 0 \<noteq> None then chain ! 0 else verifiedLeaf rest)"

definition FromPeer :: "peer \<Rightarrow> string option" where
  "FromPeer p = (case p of
       TLS verified \<Rightarrow> (case verifiedLeaf verified of None \<Rightarrow> None | Some leaf \<Rightarrow> FromCertificate (Some leaf))
     | _ \<Rightarrow> None)"

subsection \<open>The certificate authority\<close>

record csr =
  cs_PublicKey :: "string option"
  cs_SignatureValid :: bool

record crypto =
  parse_csr :: "string \<Rightarrow> csr option"
  sha256 :: "string \<Rightarrow> 8 word list"
  create_ok :: "certificate \<Rightarrow> bool"

definition NodeCertLifetime :: duration where "NodeCertLifetime = 30 * (24 * hour)"
definition clockSkew :: duration where "clockSkew = minute"

text \<open>\<open>Time.Truncate\<close> to the second, on instants counted from the zero time.\<close>

definition truncate_second :: "go_time \<Rightarrow> go_time" where
  "truncate_second t = t - t mod second"

text \<open>The serial number comes from the random source, \<open>None\<close> when that fails.\<close>

definition Sign :: "crypto \<Rightarrow> nat option \<Rightarrow> string \<Rightarrow> string \<Rightarrow> go_time \<Rightarrow> (certificate \<times> go_time) option" where
  "Sign cr serial csrDER nodeID now =
     (if nodeID = '''' then None
      else case parse_csr cr csrDER of None \<Rightarrow> None
      | Some req \<Rightarrow>
          if \<not> cs_SignatureValid req then None
          else case serial of None \<Rightarrow> None
          | Some n \<Rightarrow>
              let notAfter = truncate_second (time_add now NodeCertLifetime) in
              (case cs_PublicKey req of None \<Rightarrow> None
               | Some key \<Rightarrow>
                   let tmpl = \<lparr>ct_SerialNumber = n, ct_CommonName = nodeID, ct_URIs = [URI nodeID], ct_DNSNames = [],
                         ct_NotBefore = time_add now (- clockSkew), ct_NotAfter = notAfter, ct_PublicKey = key, ct_ClientAuth = True\<rparr> in
                   if create_ok cr tmpl then Some (tmpl, notAfter) else None))"

definition Fingerprint :: "crypto \<Rightarrow> string option \<Rightarrow> string option" where
  "Fingerprint cr pub = map_option (\<lambda>der. hex_encode (sha256 cr der)) pub"

definition csrFingerprint :: "crypto \<Rightarrow> string \<Rightarrow> string option" where
  "csrFingerprint cr csrDER = (case parse_csr cr csrDER of None \<Rightarrow> None | Some req \<Rightarrow> Fingerprint cr (cs_PublicKey req))"

subsection \<open>Status and metrics\<close>

datatype grpc_code = Unauthenticated | PermissionDenied | InvalidArgument | NotFound | AlreadyExists | Internal
  | Unavailable | FailedPrecondition

text \<open>A status with the format string and the arguments of its message.\<close>

datatype status = Status (code: grpc_code) string "string list"

datatype metric_result = ResultSuccess | ResultReconnect | ResultConflict | ResultPendingApproval | ResultInvalid
  | ResultUnauthorized | ResultNotFound | ResultInternal

datatype token_admin_op = TokenOpMint | TokenOpRevoke

datatype node_action = NodeActionApprove | NodeActionDisable | NodeActionEnable | NodeActionMaintenanceSet
  | NodeActionMaintenanceClear | NodeActionDelete

datatype metric = RegisterMetric metric_result | CertRenewal metric_result | TokenOp token_admin_op metric_result
  | NodeStateChange node_action metric_result | ListNodeStatesMetric metric_result

subsection \<open>The server\<close>

record server =
  sv_tokens :: token_store
  sv_identities :: identity_store
  sv_directory :: directory
  sv_metrics :: "metric list"
  sv_adminToken :: string
  sv_caBundle :: string

type_synonym 'a server_op = "(server, status, 'a) op"

definition on_tokens :: "'a token_op \<Rightarrow> server \<Rightarrow> (token_error + 'a) \<times> server" where
  "on_tokens m s = (case m (sv_tokens s) of (res, t) \<Rightarrow> (res, s\<lparr>sv_tokens := t\<rparr>))"

definition on_identities :: "'a identity_op \<Rightarrow> server \<Rightarrow> (identity_error + 'a) \<times> server" where
  "on_identities m s = (case m (sv_identities s) of (res, i) \<Rightarrow> (res, s\<lparr>sv_identities := i\<rparr>))"

text \<open>Call another component, with what to do about its error and what to do next.\<close>

definition attempt :: "(server \<Rightarrow> ('e + 'a) \<times> server) \<Rightarrow> ('e \<Rightarrow> server \<Rightarrow> 'b \<times> server) \<Rightarrow> ('a \<Rightarrow> server \<Rightarrow> 'b \<times> server) \<Rightarrow> server \<Rightarrow> 'b \<times> server" where
  "attempt m err ok = (\<lambda>s. case m s of (Inl e, s') \<Rightarrow> err e s' | (Inr a, s') \<Rightarrow> ok a s')"

definition count :: "metric \<Rightarrow> server \<Rightarrow> server" where
  "count m s = s\<lparr>sv_metrics := sv_metrics s @ [m]\<rparr>"

definition refuse :: "metric \<Rightarrow> status \<Rightarrow> 'a server_op" where
  "refuse m st = (\<lambda>s. (Inl st, count m s))"

definition accept :: "metric \<Rightarrow> 'a \<Rightarrow> 'a server_op" where
  "accept m a = (\<lambda>s. (Inr a, count m s))"

definition disabledStatus :: "string \<Rightarrow> status" where
  "disabledStatus nodeID = Status PermissionDenied ''node_id %q is disabled'' [nodeID]"

definition pendingStatus :: "string \<Rightarrow> status" where
  "pendingStatus nodeID = Status PermissionDenied
     ''node_id %q is pending operator approval; an operator must approve it before registration can proceed'' [nodeID]"

definition conflictStatus :: "string \<Rightarrow> status" where
  "conflictStatus nodeID = Status AlreadyExists
     ''node_id %q is already registered with a different key; an operator must confirm this is a reinstall before it can proceed'' [nodeID]"

definition reservedStatus :: "string \<Rightarrow> status" where
  "reservedStatus nodeID = Status PermissionDenied
     ''node_id %q is reserved for tenant-owned nodes and needs a token bound to it'' [nodeID]"

definition csrStatus :: status where "csrStatus = Status InvalidArgument ''cannot read the certificate request: %v'' []"
definition issueStatus :: status where "issueStatus = Status InvalidArgument ''cannot issue a node certificate: %v'' []"
definition ledgerStatus :: status where "ledgerStatus = Status Internal ''cannot record node identity'' []"

definition tokenError :: "token_error \<Rightarrow> 'a server_op" where
  "tokenError e = (case e of
       ErrInvalidToken \<Rightarrow> refuse (RegisterMetric ResultUnauthorized) (Status Unauthenticated ''bootstrap token is invalid or expired'' [])
     | ErrClaimed \<Rightarrow> refuse (RegisterMetric ResultUnauthorized)
         (Status PermissionDenied ''bootstrap token was already presented for a different node_id'' [])
     | TokenFailure _ \<Rightarrow> refuse (RegisterMetric ResultInternal) (Status Internal ''cannot validate bootstrap token'' []))"

definition registerLedgerError :: "string \<Rightarrow> identity_error \<Rightarrow> 'a server_op" where
  "registerLedgerError nodeID e = (case e of
       ErrDisabled \<Rightarrow> refuse (RegisterMetric ResultUnauthorized) (disabledStatus nodeID)
     | IdentityFailure _ \<Rightarrow> refuse (RegisterMetric ResultInternal) ledgerStatus)"

subsection \<open>Register\<close>

record RegisterRequest =
  rq_BootstrapToken :: string
  rq_NodeId :: string
  rq_Csr :: string

record RegisterResponse =
  rp_NodeId :: string
  rp_Certificate :: certificate
  rp_CaBundlePem :: string
  rp_NotAfter :: go_time

text \<open>What a call finds in its surroundings: the cryptography, a serial number, and the faults of its writes.\<close>

record call_env =
  env_crypto :: crypto
  env_serial :: "nat option"
  env_claim :: "write_fault option"
  env_pending :: "write_fault option"
  env_consume :: "write_fault option"
  env_ledger :: "write_fault option"

text \<open>The switch at the head of \<open>Register\<close>: which node a request speaks for.\<close>

definition chooseNode :: "Grant \<Rightarrow> string \<Rightarrow> (metric_result \<times> status) + string" where
  "chooseNode grant nodeID =
     (let bound = gr_NodeID grant; claimed = gr_ClaimedNodeID grant in
      if bound \<noteq> '''' \<and> nodeID \<noteq> '''' \<and> nodeID \<noteq> bound
      then Inl (ResultUnauthorized, Status PermissionDenied ''bootstrap token is bound to node_id %q, not %q'' [bound, nodeID])
      else if bound \<noteq> '''' then Inr bound
      else if nodeID = ''''
      then Inl (ResultInvalid, Status InvalidArgument
        ''node_id is required: an unbound bootstrap token can no longer self-assign one, since it would have nothing stable for an operator to approve'' [])
      else if claimed \<noteq> '''' \<and> nodeID \<noteq> claimed
      then Inl (ResultUnauthorized, Status PermissionDenied ''bootstrap token was already presented for node_id %q, not %q'' [claimed, nodeID])
      else Inr nodeID)"

definition register_response :: "server \<Rightarrow> string \<Rightarrow> certificate \<times> go_time \<Rightarrow> RegisterResponse" where
  "register_response s nodeID issued = \<lparr>rp_NodeId = nodeID, rp_Certificate = fst issued, rp_CaBundlePem = sv_caBundle s,
     rp_NotAfter = snd issued\<rparr>"

definition Register :: "call_env \<Rightarrow> RegisterRequest \<Rightarrow> go_time \<Rightarrow> RegisterResponse server_op" where
  "Register env req now =
     attempt (on_tokens (Peek (rq_BootstrapToken req) now)) tokenError (\<lambda>grant.
     case chooseNode grant (rq_NodeId req) of Inl (res, st) \<Rightarrow> refuse (RegisterMetric res) st
     | Inr nodeID \<Rightarrow>
     if snd (OwnerOf nodeID) \<and> gr_NodeID grant = '''' then refuse (RegisterMetric ResultUnauthorized) (reservedStatus nodeID)
     else (\<lambda>s.
     if IsDisabled nodeID (sv_identities s) then refuse (RegisterMetric ResultUnauthorized) (disabledStatus nodeID) s
     else case csrFingerprint (env_crypto env) (rq_Csr req) of
       None \<Rightarrow> refuse (RegisterMetric ResultInvalid) csrStatus s
     | Some fingerprint \<Rightarrow>
     if gr_NodeID grant = '''' \<and> \<not> IsApproved nodeID (sv_identities s) then
       attempt (on_tokens (Claim (env_claim env) (rq_BootstrapToken req) nodeID now)) tokenError (\<lambda>_.
       attempt (on_identities (RecordPending (env_pending env) nodeID now))
         (\<lambda>_. refuse (RegisterMetric ResultInternal) ledgerStatus)
         (\<lambda>_. refuse (RegisterMetric ResultPendingApproval) (pendingStatus nodeID))) s
     else case Sign (env_crypto env) (env_serial env) (rq_Csr req) nodeID now of
       None \<Rightarrow> refuse (RegisterMetric ResultInvalid) issueStatus s
     | Some issued \<Rightarrow>
       attempt (on_tokens (Consume (env_consume env) (rq_BootstrapToken req) now)) tokenError (\<lambda>_ s.
       let resp = register_response s nodeID issued in
       if gr_NodeID grant \<noteq> '''' then
         attempt (on_identities (Set (env_ledger env) nodeID fingerprint now)) (registerLedgerError nodeID)
           (\<lambda>_. accept (RegisterMetric ResultSuccess) resp) s
       else
         attempt (on_identities (Reserve (env_ledger env) nodeID fingerprint now)) (registerLedgerError nodeID) (\<lambda>outcome.
           case outcome of
             OutcomeConflict \<Rightarrow> refuse (RegisterMetric ResultConflict) (conflictStatus nodeID)
           | OutcomeNew \<Rightarrow> accept (RegisterMetric ResultSuccess) resp
           | OutcomeMatch \<Rightarrow> accept (RegisterMetric ResultReconnect) resp) s) s))"

text \<open>
  The same handler, one critical section at a time. A phase holds the handler's local variables; each
  step makes one call into a store and runs to the next.
\<close>

datatype register_phase =
    RegPeek
  | RegDisabled Grant string
  | RegApproved Grant string string
  | RegClaim string
  | RegPending string
  | RegConsume Grant string string
  | RegLedger Grant string string RegisterResponse
  | RegDone "status + RegisterResponse"

definition finish :: "('a \<Rightarrow> 'p) \<Rightarrow> 'a \<times> server \<Rightarrow> 'p \<times> server" where
  "finish f r = (f (fst r), snd r)"

definition proceed :: "'p \<Rightarrow> server \<Rightarrow> 'p \<times> server" where
  "proceed p s = (p, s)"

fun register_step :: "call_env \<Rightarrow> RegisterRequest \<Rightarrow> go_time \<Rightarrow> register_phase \<Rightarrow> server \<Rightarrow> register_phase \<times> server" where
  "register_step env req now RegPeek =
     attempt (on_tokens (Peek (rq_BootstrapToken req) now)) (\<lambda>e s. finish RegDone (tokenError e s)) (\<lambda>grant.
     case chooseNode grant (rq_NodeId req) of Inl (res, st) \<Rightarrow> (\<lambda>s. finish RegDone (refuse (RegisterMetric res) st s))
     | Inr nodeID \<Rightarrow>
         if snd (OwnerOf nodeID) \<and> gr_NodeID grant = ''''
         then (\<lambda>s. finish RegDone (refuse (RegisterMetric ResultUnauthorized) (reservedStatus nodeID) s))
         else proceed (RegDisabled grant nodeID))"
| "register_step env req now (RegDisabled grant nodeID) = (\<lambda>s.
     if IsDisabled nodeID (sv_identities s) then finish RegDone (refuse (RegisterMetric ResultUnauthorized) (disabledStatus nodeID) s)
     else case csrFingerprint (env_crypto env) (rq_Csr req) of
       None \<Rightarrow> finish RegDone (refuse (RegisterMetric ResultInvalid) csrStatus s)
     | Some fingerprint \<Rightarrow> proceed (if gr_NodeID grant = '''' then RegApproved grant nodeID fingerprint
         else RegConsume grant nodeID fingerprint) s)"
| "register_step env req now (RegApproved grant nodeID fingerprint) = (\<lambda>s.
     proceed (if IsApproved nodeID (sv_identities s) then RegConsume grant nodeID fingerprint else RegClaim nodeID) s)"
| "register_step env req now (RegClaim nodeID) =
     attempt (on_tokens (Claim (env_claim env) (rq_BootstrapToken req) nodeID now)) (\<lambda>e s. finish RegDone (tokenError e s))
       (\<lambda>_. proceed (RegPending nodeID))"
| "register_step env req now (RegPending nodeID) =
     attempt (on_identities (RecordPending (env_pending env) nodeID now))
       (\<lambda>_ s. finish RegDone (refuse (RegisterMetric ResultInternal) ledgerStatus s))
       (\<lambda>_ s. finish RegDone (refuse (RegisterMetric ResultPendingApproval) (pendingStatus nodeID) s))"
| "register_step env req now (RegConsume grant nodeID fingerprint) =
     (case Sign (env_crypto env) (env_serial env) (rq_Csr req) nodeID now of
        None \<Rightarrow> (\<lambda>s. finish RegDone (refuse (RegisterMetric ResultInvalid) issueStatus s))
      | Some issued \<Rightarrow>
          attempt (on_tokens (Consume (env_consume env) (rq_BootstrapToken req) now)) (\<lambda>e s. finish RegDone (tokenError e s))
            (\<lambda>_ s. proceed (RegLedger grant nodeID fingerprint (register_response s nodeID issued)) s))"
| "register_step env req now (RegLedger grant nodeID fingerprint resp) =
     (if gr_NodeID grant \<noteq> '''' then
        attempt (on_identities (Set (env_ledger env) nodeID fingerprint now)) (\<lambda>e s. finish RegDone (registerLedgerError nodeID e s))
          (\<lambda>_ s. finish RegDone (accept (RegisterMetric ResultSuccess) resp s))
      else
        attempt (on_identities (Reserve (env_ledger env) nodeID fingerprint now)) (\<lambda>e s. finish RegDone (registerLedgerError nodeID e s))
          (\<lambda>outcome s. finish RegDone (case outcome of
             OutcomeConflict \<Rightarrow> refuse (RegisterMetric ResultConflict) (conflictStatus nodeID) s
           | OutcomeNew \<Rightarrow> accept (RegisterMetric ResultSuccess) resp s
           | OutcomeMatch \<Rightarrow> accept (RegisterMetric ResultReconnect) resp s)))"
| "register_step env req now (RegDone res) = proceed (RegDone res)"

text \<open>The phases from the first to the last, with nobody in between.\<close>

fun register_steps :: "nat \<Rightarrow> call_env \<Rightarrow> RegisterRequest \<Rightarrow> go_time \<Rightarrow> register_phase \<Rightarrow> server \<Rightarrow> register_phase \<times> server" where
  "register_steps 0 env req now p s = (p, s)"
| "register_steps (Suc n) env req now p s = (case register_step env req now p s of (p', s') \<Rightarrow> register_steps n env req now p' s')"

subsection \<open>RenewCertificate\<close>

record RenewRequest =
  rn_NodeId :: string
  rn_Csr :: string

definition renew_identity :: "peer \<Rightarrow> RenewRequest \<Rightarrow> status option" where
  "renew_identity p req = (case FromPeer p of
       None \<Rightarrow> Some (Status Unauthenticated ''no node identity'' [])
     | Some peerID \<Rightarrow> if peerID \<noteq> rn_NodeId req
         then Some (Status Unauthenticated ''client certificate names %q but the request is for %q'' [peerID, rn_NodeId req])
         else None)"

definition renewLedgerError :: "string \<Rightarrow> identity_error \<Rightarrow> 'a server_op" where
  "renewLedgerError nodeID e = (case e of
       ErrDisabled \<Rightarrow> refuse (CertRenewal ResultUnauthorized) (disabledStatus nodeID)
     | IdentityFailure _ \<Rightarrow> refuse (CertRenewal ResultInternal) ledgerStatus)"

definition RenewCertificate :: "call_env \<Rightarrow> peer \<Rightarrow> RenewRequest \<Rightarrow> go_time \<Rightarrow> RegisterResponse server_op" where
  "RenewCertificate env p req now = (\<lambda>s.
     case renew_identity p req of Some st \<Rightarrow> refuse (CertRenewal ResultUnauthorized) st s
     | None \<Rightarrow>
     if IsDisabled (rn_NodeId req) (sv_identities s) then refuse (CertRenewal ResultUnauthorized) (disabledStatus (rn_NodeId req)) s
     else case csrFingerprint (env_crypto env) (rn_Csr req) of
       None \<Rightarrow> refuse (CertRenewal ResultInvalid) csrStatus s
     | Some fingerprint \<Rightarrow>
     (case Sign (env_crypto env) (env_serial env) (rn_Csr req) (rn_NodeId req) now of
        None \<Rightarrow> refuse (CertRenewal ResultInvalid) issueStatus s
      | Some issued \<Rightarrow>
        attempt (on_identities (Set (env_ledger env) (rn_NodeId req) fingerprint now)) (renewLedgerError (rn_NodeId req))
          (\<lambda>_ s. accept (CertRenewal ResultSuccess) (register_response s (rn_NodeId req) issued) s) s))"

datatype renew_phase = RenewCheck | RenewLedger string "certificate \<times> go_time" | RenewDone "status + RegisterResponse"

fun renew_step :: "call_env \<Rightarrow> peer \<Rightarrow> RenewRequest \<Rightarrow> go_time \<Rightarrow> renew_phase \<Rightarrow> server \<Rightarrow> renew_phase \<times> server" where
  "renew_step env p req now RenewCheck = (\<lambda>s.
     case renew_identity p req of Some st \<Rightarrow> finish RenewDone (refuse (CertRenewal ResultUnauthorized) st s)
     | None \<Rightarrow>
     if IsDisabled (rn_NodeId req) (sv_identities s)
     then finish RenewDone (refuse (CertRenewal ResultUnauthorized) (disabledStatus (rn_NodeId req)) s)
     else case csrFingerprint (env_crypto env) (rn_Csr req) of
       None \<Rightarrow> finish RenewDone (refuse (CertRenewal ResultInvalid) csrStatus s)
     | Some fingerprint \<Rightarrow>
     (case Sign (env_crypto env) (env_serial env) (rn_Csr req) (rn_NodeId req) now of
        None \<Rightarrow> finish RenewDone (refuse (CertRenewal ResultInvalid) issueStatus s)
      | Some issued \<Rightarrow> proceed (RenewLedger fingerprint issued) s))"
| "renew_step env p req now (RenewLedger fingerprint issued) =
     attempt (on_identities (Set (env_ledger env) (rn_NodeId req) fingerprint now))
       (\<lambda>e s. finish RenewDone (renewLedgerError (rn_NodeId req) e s))
       (\<lambda>_ s. finish RenewDone (accept (CertRenewal ResultSuccess) (register_response s (rn_NodeId req) issued) s))"
| "renew_step env p req now (RenewDone res) = proceed (RenewDone res)"

subsection \<open>TokenAdmin\<close>

text \<open>\<open>requireAdmin\<close> on the values of the \<open>authorization\<close> entry, \<open>None\<close> without metadata.\<close>

definition bearer_prefix :: string where "bearer_prefix = ''Bearer ''"

definition requireAdmin :: "server \<Rightarrow> string list option \<Rightarrow> status option" where
  "requireAdmin s md =
     (if sv_adminToken s = '''' then Some (Status PermissionDenied ''token administration is disabled'' [])
      else case md of None \<Rightarrow> Some (Status Unauthenticated ''missing authorization metadata'' [])
      | Some values \<Rightarrow>
          if length values \<noteq> 1 then Some (Status Unauthenticated ''missing authorization metadata'' [])
          else let header = values ! 0 in
            if length header \<le> length bearer_prefix \<or> take (length bearer_prefix) header \<noteq> bearer_prefix
            then Some (Status Unauthenticated ''malformed authorization metadata'' [])
            else if drop (length bearer_prefix) header \<noteq> sv_adminToken s
            then Some (Status PermissionDenied ''invalid admin token'' [])
            else None)"

definition MintToken :: "write_fault option \<Rightarrow> string option \<Rightarrow> string list option \<Rightarrow> duration \<Rightarrow> string \<Rightarrow> go_time \<Rightarrow> (string \<times> go_time) server_op" where
  "MintToken fault buf md ttl nodeID now = (\<lambda>s.
     case requireAdmin s md of Some st \<Rightarrow> refuse (TokenOp TokenOpMint ResultUnauthorized) st s
     | None \<Rightarrow>
     if ttl \<le> 0 then refuse (TokenOp TokenOpMint ResultInvalid) (Status InvalidArgument ''ttl must be positive'' []) s
     else attempt (on_tokens (MintForNode fault buf ttl now nodeID))
       (\<lambda>_. refuse (TokenOp TokenOpMint ResultInternal) (Status Internal ''cannot mint bootstrap token'' []))
       (\<lambda>token. accept (TokenOp TokenOpMint ResultSuccess) (token, time_add now ttl)) s)"

definition RevokeToken :: "write_fault option \<Rightarrow> string list option \<Rightarrow> string \<Rightarrow> go_time \<Rightarrow> unit server_op" where
  "RevokeToken fault md token now = (\<lambda>s.
     case requireAdmin s md of Some st \<Rightarrow> refuse (TokenOp TokenOpRevoke ResultUnauthorized) st s
     | None \<Rightarrow>
     attempt (on_tokens (Revoke fault token now))
       (\<lambda>e. if e = ErrInvalidToken then refuse (TokenOp TokenOpRevoke ResultNotFound) (Status NotFound ''token is unknown'' [])
            else refuse (TokenOp TokenOpRevoke ResultInternal) (Status Internal ''cannot revoke bootstrap token'' []))
       (\<lambda>_. accept (TokenOp TokenOpRevoke ResultSuccess) ()) s)"

definition node_write :: "node_action \<Rightarrow> write_fault option \<Rightarrow> string \<Rightarrow> go_time \<Rightarrow> unit identity_op" where
  "node_write action = (case action of
       NodeActionDisable \<Rightarrow> Disable | NodeActionEnable \<Rightarrow> Enable | NodeActionDelete \<Rightarrow> Delete
     | NodeActionApprove \<Rightarrow> Approve | NodeActionMaintenanceSet \<Rightarrow> IdentityStore.SetMaintenance
     | NodeActionMaintenanceClear \<Rightarrow> IdentityStore.ClearMaintenance)"

definition node_failure :: "node_action \<Rightarrow> status" where
  "node_failure action = Status Internal (case action of
       NodeActionDisable \<Rightarrow> ''cannot disable node'' | NodeActionEnable \<Rightarrow> ''cannot enable node''
     | NodeActionDelete \<Rightarrow> ''cannot delete node'' | NodeActionApprove \<Rightarrow> ''cannot approve node''
     | NodeActionMaintenanceSet \<Rightarrow> ''cannot set node maintenance''
     | NodeActionMaintenanceClear \<Rightarrow> ''cannot clear node maintenance'') []"

text \<open>What a node action broadcasts after its write: each time the ids read from the ledger, then handed to the roster.\<close>

datatype publication = PubRevoked | PubMaintenance

definition publications :: "node_action \<Rightarrow> publication list" where
  "publications action = (case action of
       NodeActionDisable \<Rightarrow> [PubRevoked] | NodeActionEnable \<Rightarrow> [PubRevoked]
     | NodeActionDelete \<Rightarrow> [PubRevoked, PubMaintenance] | NodeActionApprove \<Rightarrow> []
     | NodeActionMaintenanceSet \<Rightarrow> [PubMaintenance] | NodeActionMaintenanceClear \<Rightarrow> [PubMaintenance])"

definition published_ids :: "publication \<Rightarrow> server \<Rightarrow> string list" where
  "published_ids p s = (case p of PubRevoked \<Rightarrow> DisabledNodeIDs (sv_identities s) | PubMaintenance \<Rightarrow> MaintenanceNodeIDs (sv_identities s))"

definition publish :: "publication \<Rightarrow> string list \<Rightarrow> server \<Rightarrow> server" where
  "publish p ids s =
     (let r = di_roster (sv_directory s);
          c = (case p of PubRevoked \<Rightarrow> setRevoked ids r | PubMaintenance \<Rightarrow> Roster.setMaintenance ids r) in
      s\<lparr>sv_directory := enqueue c (sv_directory s)\<rparr>)"

definition publish_all :: "publication list \<Rightarrow> server \<Rightarrow> server" where
  "publish_all ps = fold (\<lambda>p s. publish p (published_ids p s) s) ps"

definition node_admin :: "node_action \<Rightarrow> write_fault option \<Rightarrow> string list option \<Rightarrow> string \<Rightarrow> go_time \<Rightarrow> unit server_op" where
  "node_admin action fault md nodeID now = (\<lambda>s.
     case requireAdmin s md of Some st \<Rightarrow> refuse (NodeStateChange action ResultUnauthorized) st s
     | None \<Rightarrow>
     if nodeID = '''' then refuse (NodeStateChange action ResultInvalid) (Status InvalidArgument ''node_id is required'' []) s
     else attempt (on_identities (node_write action fault nodeID now))
       (\<lambda>_. refuse (NodeStateChange action ResultInternal) (node_failure action))
       (\<lambda>_ s. accept (NodeStateChange action ResultSuccess) () (publish_all (publications action) s)) s)"

definition DisableNode :: "write_fault option \<Rightarrow> string list option \<Rightarrow> string \<Rightarrow> go_time \<Rightarrow> unit server_op" where
  "DisableNode = node_admin NodeActionDisable"

definition EnableNode :: "write_fault option \<Rightarrow> string list option \<Rightarrow> string \<Rightarrow> go_time \<Rightarrow> unit server_op" where
  "EnableNode = node_admin NodeActionEnable"

definition DeleteNode :: "write_fault option \<Rightarrow> string list option \<Rightarrow> string \<Rightarrow> go_time \<Rightarrow> unit server_op" where
  "DeleteNode = node_admin NodeActionDelete"

definition ApproveNode :: "write_fault option \<Rightarrow> string list option \<Rightarrow> string \<Rightarrow> go_time \<Rightarrow> unit server_op" where
  "ApproveNode = node_admin NodeActionApprove"

definition SetNodeMaintenance :: "write_fault option \<Rightarrow> string list option \<Rightarrow> string \<Rightarrow> go_time \<Rightarrow> unit server_op" where
  "SetNodeMaintenance = node_admin NodeActionMaintenanceSet"

definition ClearNodeMaintenance :: "write_fault option \<Rightarrow> string list option \<Rightarrow> string \<Rightarrow> go_time \<Rightarrow> unit server_op" where
  "ClearNodeMaintenance = node_admin NodeActionMaintenanceClear"

definition ListNodeStates :: "string list option \<Rightarrow> node_state list server_op" where
  "ListNodeStates md = (\<lambda>s. case requireAdmin s md of
       Some st \<Rightarrow> refuse (ListNodeStatesMetric ResultUnauthorized) st s
     | None \<Rightarrow> accept (ListNodeStatesMetric ResultSuccess) (States (sv_identities s)) s)"

text \<open>\<open>New\<close>: a server over the stores that were opened, its roster seeded from the ledger.\<close>

definition New :: "token_store \<Rightarrow> identity_store \<Rightarrow> string \<Rightarrow> string \<Rightarrow> int \<Rightarrow> server" where
  "New tokens identities adminToken caBundle unixMilli = \<lparr>sv_tokens = tokens, sv_identities = identities,
     sv_directory = initial_directory (DisabledNodeIDs identities) (MaintenanceNodeIDs identities) unixMilli,
     sv_metrics = [], sv_adminToken = adminToken, sv_caBundle = caBundle\<rparr>"


section \<open>Lemmas\<close>

lemmas register_simps = attempt_def finish_def proceed_def refuse_def accept_def on_tokens_def on_identities_def

subsection \<open>A handler is its critical sections\<close>

lemma register_steps_done [simp]: "register_steps n env req now (RegDone r) s = (RegDone r, s)"
  by (induction n) (simp_all add: proceed_def)

lemma attempt_cong:
  "(\<And>e s. E e s = E' e s) \<Longrightarrow> (\<And>a s. K a s = K' a s) \<Longrightarrow> attempt m E K s = attempt m E' K' s"
  by (simp add: attempt_def split: prod.splits sum.splits)

lemma case_attempt:
  "(case attempt m E K s of (p, s') \<Rightarrow> F p s') = attempt m (\<lambda>e s. case E e s of (p, s') \<Rightarrow> F p s') (\<lambda>a s. case K a s of (p, s') \<Rightarrow> F p s') s"
  by (simp add: attempt_def split: prod.splits sum.splits)

lemma finish_attempt: "finish f (attempt m E K s) = attempt m (\<lambda>e s. finish f (E e s)) (\<lambda>a s. finish f (K a s)) s"
  by (simp add: attempt_def split: prod.splits sum.splits)

lemma case_finish: "(case finish f x of (p, s') \<Rightarrow> F p s') = F (f (fst x)) (snd x)"
  and case_proceed: "(case proceed p s of (p, s') \<Rightarrow> F p s') = F p s"
  by (simp_all add: finish_def proceed_def)

lemma finish_eq: "(f (fst x), snd x) = finish f x"
  by (simp add: finish_def)

lemmas steps_simps = case_attempt case_finish case_proceed finish_eq finish_attempt

lemma ledger_sections:
  "register_steps (Suc n) env req now (RegLedger grant nodeID fp resp) s = register_step env req now (RegLedger grant nodeID fp resp) s"
  by (auto simp: steps_simps intro!: attempt_cong)

lemma pending_sections:
  "register_steps (Suc n) env req now (RegPending nodeID) s = register_step env req now (RegPending nodeID) s"
  by (auto simp: steps_simps intro!: attempt_cong)

lemma consume_sections:
  "register_steps (Suc (Suc n)) env req now (RegConsume grant nodeID fp) s =
   (case Sign (env_crypto env) (env_serial env) (rq_Csr req) nodeID now of
      None \<Rightarrow> finish RegDone (refuse (RegisterMetric ResultInvalid) issueStatus s)
    | Some issued \<Rightarrow> attempt (on_tokens (Consume (env_consume env) (rq_BootstrapToken req) now)) (\<lambda>e s. finish RegDone (tokenError e s))
        (\<lambda>_ s. register_step env req now (RegLedger grant nodeID fp (register_response s nodeID issued)) s) s)"
  by (subst register_steps.simps(2))
    (auto simp: steps_simps ledger_sections simp del: register_steps.simps(2) intro!: attempt_cong split: option.split)

lemma claim_sections:
  "register_steps (Suc (Suc n)) env req now (RegClaim nodeID) s =
   attempt (on_tokens (Claim (env_claim env) (rq_BootstrapToken req) nodeID now)) (\<lambda>e s. finish RegDone (tokenError e s))
     (\<lambda>_ s. register_step env req now (RegPending nodeID) s) s"
  by (subst register_steps.simps(2))
    (auto simp: steps_simps pending_sections simp del: register_steps.simps(2) intro!: attempt_cong)

lemma disabled_sections:
  "register_steps (Suc (Suc (Suc (Suc n)))) env req now (RegDisabled grant nodeID) s =
   (if IsDisabled nodeID (sv_identities s) then finish RegDone (refuse (RegisterMetric ResultUnauthorized) (disabledStatus nodeID) s)
    else case csrFingerprint (env_crypto env) (rq_Csr req) of
      None \<Rightarrow> finish RegDone (refuse (RegisterMetric ResultInvalid) csrStatus s)
    | Some fp \<Rightarrow>
        if gr_NodeID grant = '''' \<and> \<not> IsApproved nodeID (sv_identities s) then register_steps (Suc (Suc 0)) env req now (RegClaim nodeID) s
        else register_steps (Suc (Suc 0)) env req now (RegConsume grant nodeID fp) s)"
proof -
  have fuel: "register_steps (Suc (Suc m)) env req now (RegConsume grant nodeID fp) s = register_steps (Suc (Suc 0)) env req now (RegConsume grant nodeID fp) s"
    "register_steps (Suc (Suc m)) env req now (RegClaim nodeID) s = register_steps (Suc (Suc 0)) env req now (RegClaim nodeID) s" for m fp
    by (simp_all only: consume_sections claim_sections)
  have approved: "register_steps (Suc (Suc (Suc n))) env req now (RegApproved grant nodeID fp) s =
      (if IsApproved nodeID (sv_identities s) then register_steps (Suc (Suc 0)) env req now (RegConsume grant nodeID fp) s
       else register_steps (Suc (Suc 0)) env req now (RegClaim nodeID) s)" for fp
    using fuel [of n] by (subst register_steps.simps(2)) (simp add: case_proceed del: register_steps.simps(2))
  show ?thesis
    using fuel [of "Suc n"] approved
    by (subst register_steps.simps(2)) (simp add: steps_simps case_proceed del: register_steps.simps(2) split: option.split)
qed

lemma register_sections: "register_steps 5 env req now RegPeek s = finish RegDone (Register env req now s)"
proof -
  have "register_steps (Suc (Suc (Suc (Suc (Suc 0))))) env req now RegPeek s = finish RegDone (Register env req now s)"
    unfolding Register_def finish_attempt
    by (subst register_steps.simps(2), simp only: register_step.simps case_attempt, rule attempt_cong)
      (auto simp: steps_simps claim_sections consume_sections disabled_sections
        Let_def simp del: register_steps.simps(2) intro!: attempt_cong split: option.split sum.split prod.split Outcome.split)
  then show ?thesis by (simp only: numeral_eq_Suc pred_numeral_simps BitM.simps)
qed

lemma renew_sections:
  "(case renew_step env p req now RenewCheck s of (ph, s') \<Rightarrow> renew_step env p req now ph s') = finish RenewDone (RenewCertificate env p req now s)"
proof -
  consider st where "renew_identity p req = Some st" | "renew_identity p req = None" "IsDisabled (rn_NodeId req) (sv_identities s)"
    | "renew_identity p req = None" "\<not> IsDisabled (rn_NodeId req) (sv_identities s)" "csrFingerprint (env_crypto env) (rn_Csr req) = None"
    | fp where "renew_identity p req = None" "\<not> IsDisabled (rn_NodeId req) (sv_identities s)"
        "csrFingerprint (env_crypto env) (rn_Csr req) = Some fp" "Sign (env_crypto env) (env_serial env) (rn_Csr req) (rn_NodeId req) now = None"
    | fp issued where "renew_identity p req = None" "\<not> IsDisabled (rn_NodeId req) (sv_identities s)"
        "csrFingerprint (env_crypto env) (rn_Csr req) = Some fp" "Sign (env_crypto env) (env_serial env) (rn_Csr req) (rn_NodeId req) now = Some issued"
    by (metis option.exhaust)
  then show ?thesis by cases (simp_all add: RenewCertificate_def case_finish case_proceed finish_attempt proceed_def finish_eq)
qed

subsection \<open>Certificates\<close>

lemma TrimPrefix_slash [simp]: "TrimPrefix (''/'' @ n) ''/'' = n"
  by (simp add: TrimPrefix_def)

lemma uri_identity_URI [simp]: "n \<noteq> '''' \<Longrightarrow> uri_identity [URI n] = Some n"
  using TrimPrefix_slash [of n] by (simp add: URI_def Let_def)

lemma truncate_second_facts:
  "truncate_second t mod second = 0" "t - second < truncate_second t" "truncate_second t \<le> t"
proof -
  show "truncate_second t mod second = 0" by (simp add: truncate_second_def minus_mod_eq_mult_div)
  show "t - second < truncate_second t" "truncate_second t \<le> t"
    using pos_mod_bound [of second t] pos_mod_sign [of second t] by (simp_all add: truncate_second_def)
qed

lemma Sign_facts:
  assumes "Sign cr serial csrDER nodeID now = Some (cert, notAfter)"
  shows "nodeID \<noteq> ''''" and "FromCertificate (Some cert) = Some nodeID" and "ct_NotAfter cert = notAfter"
    and "csrFingerprint cr csrDER = Fingerprint cr (Some (ct_PublicKey cert))"
    and "notAfter mod second = 0" and "time_add now NodeCertLifetime - second < notAfter" and "notAfter \<le> time_add now NodeCertLifetime"
proof -
  show ne: "nodeID \<noteq> ''''" using assms by (auto simp: Sign_def)
  obtain req where req: "parse_csr cr csrDER = Some req" "cs_SignatureValid req"
    using assms ne by (cases "parse_csr cr csrDER") (auto simp: Sign_def split: if_splits)
  obtain n where n: "serial = Some n" using assms ne req by (cases serial) (auto simp: Sign_def)
  obtain key where key: "cs_PublicKey req = Some key" using assms ne req n by (cases "cs_PublicKey req") (auto simp: Sign_def)
  have c: "cert = \<lparr>ct_SerialNumber = n, ct_CommonName = nodeID, ct_URIs = [URI nodeID], ct_DNSNames = [],
       ct_NotBefore = time_add now (- clockSkew), ct_NotAfter = notAfter, ct_PublicKey = key, ct_ClientAuth = True\<rparr>"
    and sg: "notAfter = truncate_second (time_add now NodeCertLifetime)"
    using assms ne req n key by (auto simp: Sign_def Let_def split: if_splits)
  show "FromCertificate (Some cert) = Some nodeID" "ct_NotAfter cert = notAfter"
    "csrFingerprint cr csrDER = Fingerprint cr (Some (ct_PublicKey cert))"
    using ne req key by (simp_all add: c FromCertificate_def csrFingerprint_def del: uri_identity.simps)
  show "notAfter mod second = 0" "time_add now NodeCertLifetime - second < notAfter" "notAfter \<le> time_add now NodeCertLifetime"
    unfolding sg by (rule truncate_second_facts)+
qed


section \<open>Properties\<close>

text \<open>
  The handlers \<open>Register\<close> and \<open>RenewCertificate\<close> are their critical sections in order: run
  without interference, those end within five and two steps with the result and the state of the handler.
\<close>

theorem handlers_are_their_sections:
  "register_steps 5 env req now RegPeek s = (RegDone (fst (Register env req now s)), snd (Register env req now s))
   \<and> (case renew_step env p rreq now RenewCheck s of (phase, s') \<Rightarrow> renew_step env p rreq now phase s')
     = (RenewDone (fst (RenewCertificate env p rreq now s)), snd (RenewCertificate env p rreq now s))"
  using register_sections renew_sections by (simp add: finish_def)

text \<open>
  A certificate the authority signs names its node: the identity that every verifier reads from it is
  the node id it was issued for, its key is the key whose fingerprint the ledger records, and the expiry
  it reports is its own, a whole second at most one second short of thirty days.
\<close>

theorem signed_identity:
  assumes "Sign cr serial csrDER nodeID now = Some (cert, notAfter)"
  shows "FromPeer (TLS [[Some cert]]) = Some nodeID \<and> ct_NotAfter cert = notAfter
    \<and> csrFingerprint cr csrDER = Some (hex_encode (sha256 cr (ct_PublicKey cert)))
    \<and> notAfter mod second = 0 \<and> now + 30 * (24 * hour) - second < notAfter \<and> notAfter \<le> now + 30 * (24 * hour)"
  using Sign_facts [OF assms] by (simp add: FromPeer_def Fingerprint_def time_add_def NodeCertLifetime_def)

definition toy_crypto :: crypto where
  "toy_crypto = \<lparr>parse_csr = (\<lambda>der. if der = '''' then None else Some \<lparr>cs_PublicKey = Some der, cs_SignatureValid = True\<rparr>),
     sha256 = map (\<lambda>c. of_nat (byte c)), create_ok = (\<lambda>_. True)\<rparr>"

theorem signed_identity_witness:
  "\<exists>cert notAfter. Sign toy_crypto (Some 7) ''key'' ''n1'' 0 = Some (cert, notAfter) \<and> FromPeer (TLS [[Some cert]]) = Some ''n1''"
proof -
  obtain cert notAfter where "Sign toy_crypto (Some 7) ''key'' ''n1'' 0 = Some (cert, notAfter)"
    by (simp add: Sign_def toy_crypto_def Let_def)
  then show ?thesis using signed_identity by blast
qed

end
