(* ===== verification/RegistryHistory.thy ===== *)
theory RegistryHistory
  imports Registry
begin

text \<open>
  The Registry under concurrent callers. gRPC runs every call in its own goroutine and the stores lock
  each method by itself, so between two critical sections of a handler anything may happen: other
  registrations with the same token, renewals, operators disabling, approving and revoking, and a crash
  that leaves only the files. The step relation interleaves them freely.

  The theorems state what holds of every history: a certificate is issued at most once per minted token;
  only under a token that was minted for that node, or an unbound one for a node that an operator approved
  or that already had a certificate, and never an unbound one for a tenant's own node; never for a node
  that is disabled at that moment; and an unbound token never changes the key a node is bound to. The last
  one shows how two concurrent disables can leave a node out of the broadcast revocation list.
\<close>


section \<open>Definitions\<close>

subsection \<open>Node actions, one critical section at a time\<close>

datatype node_phase = NodeWrite | NodeRead "publication list" | NodeSend publication "string list" "publication list"
  | NodeDone bool

fun node_step :: "node_action \<Rightarrow> write_fault option \<Rightarrow> string \<Rightarrow> go_time \<Rightarrow> node_phase \<Rightarrow> server \<Rightarrow> node_phase \<times> server" where
  "node_step action fault nodeID now NodeWrite =
     attempt (on_identities (node_write action fault nodeID now))
       (\<lambda>_ s. proceed (NodeDone False) (count (NodeStateChange action ResultInternal) s))
       (\<lambda>_. proceed (NodeRead (publications action)))"
| "node_step action fault nodeID now (NodeRead []) =
     (\<lambda>s. proceed (NodeDone True) (count (NodeStateChange action ResultSuccess) s))"
| "node_step action fault nodeID now (NodeRead (p # ps)) = (\<lambda>s. proceed (NodeSend p (published_ids p s) ps) s)"
| "node_step action fault nodeID now (NodeSend p ids ps) = (\<lambda>s. proceed (NodeRead ps) (publish p ids s))"
| "node_step action fault nodeID now (NodeDone ok) = proceed (NodeDone ok)"

subsection \<open>Handlers in flight\<close>

datatype handler =
    HRegister call_env RegisterRequest go_time register_phase
  | HRenew call_env peer RenewRequest go_time renew_phase
  | HNode node_action "write_fault option" string go_time node_phase

text \<open>
  What a step did that matters later: a certificate issued under a token (with the node the token is bound
  to, empty for none, the node it was issued for and the key), a renewal, a token minted or revoked, a
  node action written.
\<close>

datatype event =
    Issued string string string string
  | Renewed string string
  | TokenMinted string string
  | TokenRevoked string
  | NodeChanged node_action string
  | Quiet

definition register_event :: "RegisterRequest \<Rightarrow> register_phase \<Rightarrow> register_phase \<Rightarrow> event" where
  "register_event req p p' = (case (p, p') of
       (RegLedger g n fp _, RegDone (Inr _)) \<Rightarrow> Issued (rq_BootstrapToken req) (gr_NodeID g) n fp
     | _ \<Rightarrow> Quiet)"

definition renew_event :: "RenewRequest \<Rightarrow> renew_phase \<Rightarrow> renew_phase \<Rightarrow> event" where
  "renew_event req p p' = (case (p, p') of
       (RenewLedger fp _, RenewDone (Inr _)) \<Rightarrow> Renewed (rn_NodeId req) fp
     | _ \<Rightarrow> Quiet)"

definition node_event :: "node_action \<Rightarrow> string \<Rightarrow> node_phase \<Rightarrow> node_phase \<Rightarrow> event" where
  "node_event action n p p' = (case (p, p') of (NodeWrite, NodeRead _) \<Rightarrow> NodeChanged action n | _ \<Rightarrow> Quiet)"

fun handler_step :: "handler \<Rightarrow> server \<Rightarrow> handler \<times> event \<times> server" where
  "handler_step (HRegister env req now p) s =
     (case register_step env req now p s of (p', s') \<Rightarrow> (HRegister env req now p', register_event req p p', s'))"
| "handler_step (HRenew env pr req now p) s =
     (case renew_step env pr req now p s of (p', s') \<Rightarrow> (HRenew env pr req now p', renew_event req p p', s'))"
| "handler_step (HNode action fault n now p) s =
     (case node_step action fault n now p s of (p', s') \<Rightarrow> (HNode action fault n now p', node_event action n p p', s'))"

text \<open>A call as it arrives; a node action has passed \<open>requireAdmin\<close> and names a node.\<close>

fun arrives :: "server \<Rightarrow> handler \<Rightarrow> bool" where
  "arrives s (HRegister env req now p) \<longleftrightarrow> p = RegPeek"
| "arrives s (HRenew env pr req now p) \<longleftrightarrow> p = RenewCheck"
| "arrives s (HNode action fault n now p) \<longleftrightarrow> p = NodeWrite \<and> n \<noteq> '''' \<and> (\<exists>md. requireAdmin s md = None)"

text \<open>
  The steps of the whole process. The roster's own traffic, Gateways joining, reporting and leaving and
  broadcasts on their way, changes neither published list: only the node actions do.
\<close>

record registry =
  rg_server :: server
  rg_handlers :: "handler list"

inductive registry_step :: "registry \<Rightarrow> event \<Rightarrow> registry \<Rightarrow> bool" where
  arrive: "arrives (rg_server rg) h \<Longrightarrow> registry_step rg Quiet (rg\<lparr>rg_handlers := rg_handlers rg @ [h]\<rparr>)"
| act: "i < length (rg_handlers rg) \<Longrightarrow> handler_step (rg_handlers rg ! i) (rg_server rg) = (h', e, s') \<Longrightarrow>
    registry_step rg e (rg\<lparr>rg_server := s', rg_handlers := (rg_handlers rg)[i := h']\<rparr>)"
| mint: "MintToken fault buf md ttl node now (rg_server rg) = (Inr (t, expiry), s') \<Longrightarrow>
    registry_step rg (TokenMinted t node) (rg\<lparr>rg_server := s'\<rparr>)"
| mint_refused: "MintToken fault buf md ttl node now (rg_server rg) = (Inl st, s') \<Longrightarrow> registry_step rg Quiet (rg\<lparr>rg_server := s'\<rparr>)"
| revoke: "RevokeToken fault md t now (rg_server rg) = (Inr u, s') \<Longrightarrow> registry_step rg (TokenRevoked t) (rg\<lparr>rg_server := s'\<rparr>)"
| revoke_refused: "RevokeToken fault md t now (rg_server rg) = (Inl st, s') \<Longrightarrow> registry_step rg Quiet (rg\<lparr>rg_server := s'\<rparr>)"
| roster: "directory_step (sv_directory (rg_server rg)) () d \<Longrightarrow>
    rs_revoked (di_roster d) = rs_revoked (di_roster (sv_directory (rg_server rg))) \<Longrightarrow>
    rs_maintenance (di_roster d) = rs_maintenance (di_roster (sv_directory (rg_server rg))) \<Longrightarrow>
    registry_step rg Quiet (rg\<lparr>rg_server := (rg_server rg)\<lparr>sv_directory := d\<rparr>\<rparr>)"
| restart: "TokenStore.Open (ts_disk (sv_tokens (rg_server rg))) = Inr tokens \<Longrightarrow>
    IdentityStore.Open (is_disk (sv_identities (rg_server rg))) = Inr identities \<Longrightarrow>
    registry_step rg Quiet \<lparr>rg_server = New tokens identities adminToken caBundle unixMilli, rg_handlers = []\<rparr>"

definition empty_identities :: identity_store where
  "empty_identities = \<lparr>is_records = [], is_disk = blank_disk\<rparr>"

definition first_start :: "string \<Rightarrow> string \<Rightarrow> int \<Rightarrow> registry" where
  "first_start adminToken caBundle unixMilli =
     \<lparr>rg_server = New empty_store empty_identities adminToken caBundle unixMilli, rg_handlers = []\<rparr>"

subsection \<open>The specification of a history\<close>

definition node_effect :: "node_action \<Rightarrow> node_view \<Rightarrow> node_view" where
  "node_effect action v = (case action of
       NodeActionDisable \<Rightarrow> v\<lparr>nv_disabled := True\<rparr> | NodeActionDelete \<Rightarrow> v\<lparr>nv_disabled := True\<rparr>
     | NodeActionEnable \<Rightarrow> v\<lparr>nv_disabled := False\<rparr> | NodeActionApprove \<Rightarrow> v\<lparr>nv_approved := True\<rparr>
     | NodeActionMaintenanceSet \<Rightarrow> v | NodeActionMaintenanceClear \<Rightarrow> v)"

text \<open>The ledger an event leaves behind, and when it is allowed at all.\<close>

fun view_step :: "(string \<Rightarrow> node_view) \<Rightarrow> event \<Rightarrow> (string \<Rightarrow> node_view) \<Rightarrow> bool" where
  "view_step v (Issued t b n fp) v' \<longleftrightarrow> \<not> nv_disabled (v n) \<and> (b = '''' \<longrightarrow> nv_key (v n) \<in> {'''', fp}) \<and> v' = v(n := bound_view fp)"
| "view_step v (Renewed n fp) v' \<longleftrightarrow> \<not> nv_disabled (v n) \<and> v' = v(n := bound_view fp)"
| "view_step v (NodeChanged action n) v' \<longleftrightarrow> v' = v(n := node_effect action (v n))"
| "view_step v (TokenMinted t n) v' \<longleftrightarrow> v' = v"
| "view_step v (TokenRevoked t) v' \<longleftrightarrow> v' = v"
| "view_step v Quiet v' \<longleftrightarrow> v' = v"

text \<open>The key a node was last bound to.\<close>

fun last_key :: "string \<Rightarrow> event list \<Rightarrow> string" where
  "last_key n [] = ''''"
| "last_key n (Issued t b m fp # es) = (if m = n then fp else last_key n es)"
| "last_key n (Renewed m fp # es) = (if m = n then fp else last_key n es)"
| "last_key n (_ # es) = last_key n es"

text \<open>Who vouches for a node: an operator's approval, or a certificate it already has.\<close>

definition vouched :: "string \<Rightarrow> event \<Rightarrow> bool" where
  "vouched n e \<longleftrightarrow> (case e of
       Issued t b m fp \<Rightarrow> m = n | Renewed m fp \<Rightarrow> m = n | NodeChanged action m \<Rightarrow> action = NodeActionApprove \<and> m = n
     | _ \<Rightarrow> False)"


section \<open>Lemmas\<close>

subsection \<open>Steps of a handler\<close>

definition stores_ok :: "server \<Rightarrow> bool" where
  "stores_ok s \<longleftrightarrow> store_ok (sv_tokens s) \<and> identities_ok (sv_identities s)"

abbreviation ledger :: "server \<Rightarrow> string \<Rightarrow> node_view" where
  "ledger s \<equiv> view (sv_identities s)"

lemma attempt_cases:
  assumes "attempt m E K s = r"
  obtains (err) e s1 where "m s = (Inl e, s1)" "E e s1 = r" | (ok) a s1 where "m s = (Inr a, s1)" "K a s1 = r"
  using assms by (auto simp: attempt_def split: prod.splits sum.splits)

lemma on_tokens_iff: "on_tokens m s = (res, s1) \<longleftrightarrow> (\<exists>t. m (sv_tokens s) = (res, t) \<and> s1 = s\<lparr>sv_tokens := t\<rparr>)"
  by (auto simp: on_tokens_def split: prod.splits)

lemma on_identities_iff: "on_identities m s = (res, s1) \<longleftrightarrow> (\<exists>i. m (sv_identities s) = (res, i) \<and> s1 = s\<lparr>sv_identities := i\<rparr>)"
  by (auto simp: on_identities_def split: prod.splits)

lemma count_fields [simp]: "sv_tokens (count m s) = sv_tokens s" "sv_identities (count m s) = sv_identities s"
  "sv_directory (count m s) = sv_directory s" "sv_caBundle (count m s) = sv_caBundle s" "sv_adminToken (count m s) = sv_adminToken s"
  by (simp_all add: count_def)

lemma finish_simps [simp]: "finish f (refuse m st s) = (f (Inl st), count m s)" "finish f (accept m a s) = (f (Inr a), count m s)"
  by (simp_all add: finish_def refuse_def accept_def)

lemma token_error_shape: "\<exists>st m. finish f (tokenError e s) = (f (Inl st), count m s)"
  by (cases e) (auto simp: tokenError_def)

lemma ledger_error_shape: "\<exists>st m. finish f (registerLedgerError n e s) = (f (Inl st), count m s)"
  "\<exists>st m. finish f (renewLedgerError n e s) = (f (Inl st), count m s)"
  by (cases e; auto simp: registerLedgerError_def renewLedgerError_def)+

text \<open>
  What a step may do to the token store: leave it, or one of the calls that neither mint nor add to what
  can still be spent, a consumption being the one that takes a token out.
\<close>

definition tokens_shrink :: "token_store \<Rightarrow> token_store \<Rightarrow> bool" where
  "tokens_shrink s s' \<longleftrightarrow> store_ok s' \<and> (\<forall>t. live t s' \<longrightarrow> live t s) \<and> (\<forall>t n. known t n s' \<longrightarrow> known t n s)"

lemma tokens_shrink_refl: "store_ok s \<Longrightarrow> tokens_shrink s s"
  by (simp add: tokens_shrink_def)

lemma Consume_shrinks: "store_ok s \<Longrightarrow> Consume fault u now s = (res, s') \<Longrightarrow> tokens_shrink s s' \<and> (\<forall>n. res = Inr n \<longrightarrow> live u s \<and> \<not> live u s')"
  using Consume_step [of s fault u now res s'] Consume_known [of s fault u now res s'] unfolding tokens_shrink_def by blast

lemma Claim_shrinks: "store_ok s \<Longrightarrow> Claim fault u n now s = (res, s') \<Longrightarrow> tokens_shrink s s'"
  using Claim_step [of s fault u n now res s'] Claim_known [of s fault u n now res s'] unfolding tokens_shrink_def by blast

lemma Peek_state: "Peek t now s = (res, s') \<Longrightarrow> s' = s"
  by (auto simp: Peek_def split: if_splits option.splits)

fun spends :: "string \<Rightarrow> register_phase \<Rightarrow> RegisterRequest \<Rightarrow> bool" where
  "spends t (RegLedger g n fp resp) req \<longleftrightarrow> rq_BootstrapToken req = t"
| "spends t _ req \<longleftrightarrow> False"

text \<open>One step of a registration: the ledger follows its specification, and tokens are only spent.\<close>

definition register_effect :: "RegisterRequest \<Rightarrow> register_phase \<Rightarrow> server \<Rightarrow> register_phase \<Rightarrow> server \<Rightarrow> bool" where
  "register_effect req p s p' s' \<longleftrightarrow> identities_ok (sv_identities s') \<and> view_step (ledger s) (register_event req p p') (ledger s')
     \<and> tokens_shrink (sv_tokens s) (sv_tokens s')
     \<and> (\<forall>t. spends t p' req \<longrightarrow> \<not> spends t p req \<longrightarrow> live t (sv_tokens s) \<and> \<not> live t (sv_tokens s'))"

lemma register_effect_same:
  assumes "stores_ok s" and "sv_tokens s' = sv_tokens s" and "sv_identities s' = sv_identities s"
    and "register_event req p p' = Quiet" and "\<And>t. \<not> spends t p' req"
  shows "register_effect req p s p' s'"
  using assms by (simp add: register_effect_def stores_ok_def tokens_shrink_refl)

lemma register_event_early:
  "register_event req RegPeek p' = Quiet" "register_event req (RegDisabled g n) p' = Quiet"
  "register_event req (RegApproved g n fp) p' = Quiet" "register_event req (RegClaim n) p' = Quiet"
  "register_event req (RegPending n) p' = Quiet" "register_event req (RegConsume g n fp) p' = Quiet"
  "register_event req (RegDone r) p' = Quiet"
  by (simp_all add: register_event_def)

lemma register_step_effect:
  assumes "stores_ok s" and "register_step env req now p s = (p', s')"
  shows "register_effect req p s p' s'"
proof (cases p)
  case RegPeek
  from assms(2) [unfolded RegPeek register_step.simps] show ?thesis
  proof (cases rule: attempt_cases)
    case (err e s1)
    then obtain st m where "(p', s') = (RegDone (Inl st), count m s1)" using token_error_shape by metis
    then show ?thesis using err RegPeek assms(1)
      by (auto intro!: register_effect_same simp: on_tokens_iff register_event_early dest!: Peek_state)
  next
    case (ok g s1)
    then have "s1 = s" by (auto simp: on_tokens_iff dest!: Peek_state)
    then show ?thesis using ok RegPeek assms(1)
      by (auto intro!: register_effect_same simp: register_event_early proceed_def split: sum.splits prod.splits if_splits)
  qed
next
  case (RegDisabled g n)
  then show ?thesis using assms
    by (auto intro!: register_effect_same simp: register_event_early proceed_def split: option.splits if_splits)
next
  case (RegApproved g n fp)
  then show ?thesis using assms by (auto intro!: register_effect_same simp: register_event_early proceed_def split: if_splits)
next
  case (RegDone r)
  then show ?thesis using assms by (auto intro!: register_effect_same simp: register_event_early proceed_def)
next
  case (RegClaim n)
  from assms(2) [unfolded RegClaim register_step.simps] show ?thesis
  proof (cases rule: attempt_cases)
    case (err e s1)
    then obtain st m where "(p', s') = (RegDone (Inl st), count m s1)" using token_error_shape by metis
    then show ?thesis using err RegClaim assms(1) Claim_shrinks
      by (auto simp: register_effect_def on_tokens_iff register_event_early stores_ok_def)
  next
    case (ok u s1)
    then show ?thesis using RegClaim assms(1) Claim_shrinks
      by (auto simp: register_effect_def on_tokens_iff register_event_early stores_ok_def proceed_def)
  qed
next
  case (RegPending n)
  from assms(2) [unfolded RegPending register_step.simps] show ?thesis
    by (cases rule: attempt_cases)
      (use RegPending assms(1) guarded_writes(2) in \<open>auto simp: register_effect_def on_identities_iff register_event_early stores_ok_def
        tokens_shrink_refl sets_view_def fun_upd_idem\<close>)
next
  case (RegConsume g n fp)
  show ?thesis
  proof (cases "Sign (env_crypto env) (env_serial env) (rq_Csr req) n now")
    case None
    then show ?thesis using RegConsume assms by (auto intro!: register_effect_same simp: register_event_early)
  next
    case (Some issued)
    with assms(2) RegConsume have "attempt (on_tokens (Consume (env_consume env) (rq_BootstrapToken req) now)) (\<lambda>e s. finish RegDone (tokenError e s))
      (\<lambda>_ s. proceed (RegLedger g n fp (register_response s n issued)) s) s = (p', s')" by simp
    then show ?thesis
    proof (cases rule: attempt_cases)
      case (err e s1)
      then obtain st m where "(p', s') = (RegDone (Inl st), count m s1)" using token_error_shape by metis
      then show ?thesis using err RegConsume assms(1) Consume_shrinks
        by (auto simp: register_effect_def on_tokens_iff register_event_early stores_ok_def)
    next
      case (ok u s1)
      then show ?thesis using RegConsume assms(1) Consume_shrinks
        by (fastforce simp: register_effect_def on_tokens_iff register_event_early stores_ok_def proceed_def)
    qed
  qed
next
  case (RegLedger g n fp resp)
  show ?thesis
  proof (cases "gr_NodeID g = ''''")
    case False
    with assms(2) RegLedger have "attempt (on_identities (Set (env_ledger env) n fp now)) (\<lambda>e s. finish RegDone (registerLedgerError n e s))
          (\<lambda>_ s. finish RegDone (accept (RegisterMetric ResultSuccess) resp s)) s = (p', s')" by simp
    then show ?thesis
    proof (cases rule: attempt_cases)
      case (err e s1)
      then obtain st m where "(p', s') = (RegDone (Inl st), count m s1)" using ledger_error_shape by metis
      then show ?thesis using err RegLedger assms(1) Set_view
        by (fastforce simp: register_effect_def on_identities_iff register_event_def stores_ok_def tokens_shrink_refl sets_view_def)
    next
      case (ok u s1)
      then show ?thesis using RegLedger assms(1) Set_view False
        by (fastforce simp: register_effect_def on_identities_iff register_event_def stores_ok_def tokens_shrink_refl sets_view_def)
    qed
  next
    case True
    with assms(2) RegLedger have "attempt (on_identities (Reserve (env_ledger env) n fp now)) (\<lambda>e s. finish RegDone (registerLedgerError n e s))
          (\<lambda>outcome s. finish RegDone (case outcome of
             OutcomeConflict \<Rightarrow> refuse (RegisterMetric ResultConflict) (conflictStatus n) s
           | OutcomeNew \<Rightarrow> accept (RegisterMetric ResultSuccess) resp s
           | OutcomeMatch \<Rightarrow> accept (RegisterMetric ResultReconnect) resp s)) s = (p', s')" by simp
    then show ?thesis
    proof (cases rule: attempt_cases)
      case (err e s1)
      then obtain st m where "(p', s') = (RegDone (Inl st), count m s1)" using ledger_error_shape by metis
      then show ?thesis using err RegLedger assms(1) Reserve_view
        by (fastforce simp: register_effect_def on_identities_iff register_event_def stores_ok_def tokens_shrink_refl sets_view_def)
    next
      case (ok outcome s1)
      then obtain i where i: "Reserve (env_ledger env) n fp now (sv_identities s) = (Inr outcome, i)" "s1 = s\<lparr>sv_identities := i\<rparr>"
        by (auto simp: on_identities_iff)
      then show ?thesis using ok(2) RegLedger assms(1) Reserve_view [OF _ i(1)] True
        by (cases outcome) (auto simp: register_effect_def register_event_def stores_ok_def tokens_shrink_refl sets_view_def)
    qed
  qed
qed

text \<open>Renewals and node actions do not touch the tokens.\<close>

definition ledger_effect :: "event \<Rightarrow> server \<Rightarrow> server \<Rightarrow> bool" where
  "ledger_effect e s s' \<longleftrightarrow> sv_tokens s' = sv_tokens s \<and> identities_ok (sv_identities s') \<and> view_step (ledger s) e (ledger s')"

lemma renew_step_effect:
  assumes "stores_ok s" and "renew_step env pr req now p s = (p', s')"
  shows "ledger_effect (renew_event req p p') s s'"
proof (cases p)
  case (RenewLedger fp issued)
  from assms(2) [unfolded RenewLedger renew_step.simps] show ?thesis
  proof (cases rule: attempt_cases)
    case (err e s1)
    then obtain st m where "(p', s') = (RenewDone (Inl st), count m s1)" using ledger_error_shape by metis
    then show ?thesis using err RenewLedger assms(1) Set_view
      by (fastforce simp: ledger_effect_def on_identities_iff renew_event_def stores_ok_def sets_view_def)
  next
    case (ok u s1)
    then show ?thesis using RenewLedger assms(1) Set_view
      by (fastforce simp: ledger_effect_def on_identities_iff renew_event_def stores_ok_def sets_view_def)
  qed
qed (use assms in \<open>auto simp: ledger_effect_def renew_event_def stores_ok_def proceed_def split: option.splits if_splits\<close>)

lemma node_write_view:
  assumes "identities_ok s" and "node_write action fault n now s = (res, s')"
  shows "sets_view n (node_effect action) res s s'"
proof -
  have eff: "node_effect NodeActionDisable = nv_disabled_update (\<lambda>_. True)" "node_effect NodeActionDelete = nv_disabled_update (\<lambda>_. True)"
    "node_effect NodeActionEnable = nv_disabled_update (\<lambda>_. False)" "node_effect NodeActionApprove = nv_approved_update (\<lambda>_. True)"
    "node_effect NodeActionMaintenanceSet = id" "node_effect NodeActionMaintenanceClear = id"
    by (simp_all add: node_effect_def fun_eq_iff)
  show ?thesis using assms simple_writes [OF assms(1)] guarded_writes [OF assms(1)]
    by (cases action) (simp_all add: node_write_def eff)
qed

lemma publish_fields [simp]: "sv_tokens (publish p ids s) = sv_tokens s" "sv_identities (publish p ids s) = sv_identities s"
  by (simp_all add: publish_def Let_def)

lemma node_step_effect:
  assumes "stores_ok s" and "node_step action fault n now p s = (p', s')"
  shows "ledger_effect (node_event action n p p') s s'"
proof (cases "p = NodeWrite")
  case True
  from assms(2) [unfolded True node_step.simps] show ?thesis
  proof (cases rule: attempt_cases)
    case (err e s1)
    then show ?thesis using True assms(1) node_write_view
      by (fastforce simp: ledger_effect_def on_identities_iff node_event_def stores_ok_def sets_view_def proceed_def)
  next
    case (ok u s1)
    then show ?thesis using True assms(1) node_write_view
      by (fastforce simp: ledger_effect_def on_identities_iff node_event_def stores_ok_def sets_view_def proceed_def)
  qed
next
  case False
  then show ?thesis using assms
    by (cases "(action, fault, n, now, p)" rule: node_step.cases)
      (auto simp: ledger_effect_def node_event_def stores_ok_def proceed_def)
qed

subsection \<open>Steps of the Registry\<close>

definition registry_ok :: "registry \<Rightarrow> bool" where
  "registry_ok rg \<longleftrightarrow> stores_ok (rg_server rg)"

fun in_flight :: "string \<Rightarrow> handler \<Rightarrow> bool" where
  "in_flight t (HRegister env req now p) \<longleftrightarrow> spends t p req"
| "in_flight t _ \<longleftrightarrow> False"

lemma handler_step_effect:
  assumes "stores_ok s" and "handler_step h s = (h', e, s')"
  shows "stores_ok s' \<and> view_step (ledger s) e (ledger s') \<and> tokens_shrink (sv_tokens s) (sv_tokens s')
    \<and> (in_flight t h' \<longrightarrow> \<not> in_flight t h \<longrightarrow> live t (sv_tokens s) \<and> \<not> live t (sv_tokens s'))
    \<and> (\<forall>n. e \<noteq> TokenMinted t n) \<and> ((\<exists>b n fp. e = Issued t b n fp) \<longrightarrow> in_flight t h \<and> \<not> in_flight t h')"
proof (cases h)
  case (HRegister env req now p)
  then obtain p' where *: "register_step env req now p s = (p', s')" "h' = HRegister env req now p'" "e = register_event req p p'"
    using assms(2) by (auto split: prod.splits)
  have "spends t p req \<and> \<not> spends t p' req" if "register_event req p p' = Issued t b n fp" for b n fp
    using that by (auto simp: register_event_def split: register_phase.splits sum.splits)
  moreover have "register_event req p p' \<noteq> TokenMinted t n" for n
    by (auto simp: register_event_def split: register_phase.splits sum.splits)
  ultimately show ?thesis
    using register_step_effect [OF assms(1) *(1)] * HRegister by (auto simp: register_effect_def stores_ok_def tokens_shrink_def)
next
  case (HRenew env pr req now p)
  then obtain p' where *: "renew_step env pr req now p s = (p', s')" "h' = HRenew env pr req now p'" "e = renew_event req p p'"
    using assms(2) by (auto split: prod.splits)
  have "renew_event req p p' \<noteq> TokenMinted t n" "renew_event req p p' \<noteq> Issued t b n fp" for b n fp
    by (auto simp: renew_event_def split: renew_phase.splits sum.splits)
  then show ?thesis using renew_step_effect [OF assms(1) *(1)] * HRenew assms(1)
    by (auto simp: ledger_effect_def stores_ok_def tokens_shrink_refl)
next
  case (HNode action fault n now p)
  then obtain p' where *: "node_step action fault n now p s = (p', s')" "h' = HNode action fault n now p'" "e = node_event action n p p'"
    using assms(2) by (auto split: prod.splits)
  have "node_event action n p p' \<noteq> TokenMinted t m" "node_event action n p p' \<noteq> Issued t b m fp" for b m fp
    by (auto simp: node_event_def split: node_phase.splits)
  then show ?thesis using node_step_effect [OF assms(1) *(1)] * HNode assms(1)
    by (auto simp: ledger_effect_def stores_ok_def tokens_shrink_refl)
qed

lemma filter_list_update:
  "i < length xs \<Longrightarrow> length (filter P (xs[i := x])) + of_bool (P (xs ! i)) = length (filter P xs) + of_bool (P x)"
proof (induction xs arbitrary: i)
  case (Cons y ys)
  then show ?case by (cases i) auto
qed simp

lemma MintToken_effect:
  assumes "stores_ok s" and "MintToken fault buf md ttl node now s = (res, s')"
  shows "stores_ok s' \<and> sv_identities s' = sv_identities s
    \<and> (\<forall>t. live t (sv_tokens s') \<longrightarrow> live t (sv_tokens s) \<or> (\<exists>x. res = Inr (t, x)))
    \<and> (\<forall>t n. known t n (sv_tokens s') \<longrightarrow> known t n (sv_tokens s) \<or> (\<exists>x. res = Inr (t, x)) \<and> n = node)"
proof (cases "requireAdmin s md \<noteq> None \<or> ttl \<le> 0")
  case True
  then show ?thesis using assms by (auto simp: MintToken_def refuse_def stores_ok_def split: option.splits if_splits)
next
  case False
  then obtain res' t where m: "MintForNode fault buf ttl now node (sv_tokens s) = (res', t)"
    and s': "sv_tokens s' = t" "sv_identities s' = sv_identities s" "\<And>u. res' = Inr u \<Longrightarrow> \<exists>x. res = Inr (u, x)"
    using assms(2) by (auto simp: MintToken_def attempt_def on_tokens_def refuse_def accept_def split: option.splits prod.splits sum.splits)
  then show ?thesis
    using MintForNode_step [OF _ m] MintForNode_known [OF _ m] assms(1) unfolding stores_ok_def by metis
qed

lemma RevokeToken_effect:
  assumes "stores_ok s" and "RevokeToken fault md t now s = (res, s')"
  shows "stores_ok s' \<and> sv_identities s' = sv_identities s \<and> tokens_shrink (sv_tokens s) (sv_tokens s')
    \<and> (res = Inr () \<longrightarrow> \<not> live t (sv_tokens s'))"
proof (cases "requireAdmin s md")
  case (Some st)
  then show ?thesis using assms by (auto simp: RevokeToken_def refuse_def stores_ok_def tokens_shrink_refl)
next
  case None
  then obtain res' ts where m: "Revoke fault t now (sv_tokens s) = (res', ts)"
    and s': "sv_tokens s' = ts" "sv_identities s' = sv_identities s" "res = Inr () \<Longrightarrow> res' = Inr ()"
    using assms(2) by (auto simp: RevokeToken_def attempt_def on_tokens_def refuse_def accept_def split: option.splits prod.splits sum.splits if_splits)
  then show ?thesis
    using Revoke_step [OF _ m] Revoke_known [OF _ m] assms(1) unfolding stores_ok_def tokens_shrink_def by metis
qed

lemma restart_effect:
  assumes "stores_ok s" and "TokenStore.Open (ts_disk (sv_tokens s)) = Inr tokens"
    and "IdentityStore.Open (is_disk (sv_identities s)) = Inr identities"
  shows "stores_ok (New tokens identities a c v) \<and> ledger (New tokens identities a c v) = ledger s
    \<and> tokens_shrink (sv_tokens s) (sv_tokens (New tokens identities a c v))"
  using assms TokenStore.Open_ok [OF assms(2)] Open_live [OF assms(2)] Open_known [OF assms(2)] Open_view [OF _ assms(3)]
  by (auto simp: New_def stores_ok_def tokens_shrink_def store_ok_iff)

lemma registry_step_ok:
  assumes "registry_step rg e rg'" and "registry_ok rg"
  shows "registry_ok rg' \<and> view_step (ledger (rg_server rg)) e (ledger (rg_server rg'))"
  using assms(1)
proof cases
  case (act i h' s')
  then show ?thesis using handler_step_effect [OF assms(2) [unfolded registry_ok_def] act(3)] by (simp add: registry_ok_def)
next
  case (mint fault buf md ttl node now u x s')
  then show ?thesis using MintToken_effect [OF assms(2) [unfolded registry_ok_def] mint(3)] by (simp add: registry_ok_def)
next
  case (mint_refused fault buf md ttl node now st s')
  then show ?thesis using MintToken_effect [OF assms(2) [unfolded registry_ok_def] mint_refused(3)] by (simp add: registry_ok_def)
next
  case (revoke fault md u now v s')
  then show ?thesis using RevokeToken_effect [OF assms(2) [unfolded registry_ok_def] revoke(3)] by (simp add: registry_ok_def)
next
  case (revoke_refused fault md u now st s')
  then show ?thesis using RevokeToken_effect [OF assms(2) [unfolded registry_ok_def] revoke_refused(3)] by (simp add: registry_ok_def)
next
  case (restart tokens identities a c v)
  then show ?thesis using restart_effect [OF assms(2) [unfolded registry_ok_def] restart(3,4)] by (simp add: registry_ok_def)
qed (use assms(2) in \<open>simp_all add: registry_ok_def stores_ok_def\<close>)

interpretation sim: simulation registry_step view_step "\<lambda>rg. ledger (rg_server rg)" registry_ok
  using registry_step_ok by unfold_locales blast+

definition potential :: "string \<Rightarrow> registry \<Rightarrow> nat" where
  "potential t rg = of_bool (live t (sv_tokens (rg_server rg))) + length (filter (in_flight t) (rg_handlers rg))"

lemma arrives_in_flight: "arrives s h \<Longrightarrow> \<not> in_flight t h"
  by (cases h) auto

lemma registry_step_spend:
  assumes "registry_step rg e rg'" and "registry_ok rg"
  shows "of_bool (\<exists>b n fp. e = Issued t b n fp) + potential t rg' \<le> potential t rg + of_bool (\<exists>n. e = TokenMinted t n)"
  using assms(1)
proof cases
  case (arrive h)
  then show ?thesis by (simp add: potential_def arrives_in_flight)
next
  case (act i h' s')
  then have *: "tokens_shrink (sv_tokens (rg_server rg)) (sv_tokens s')"
    "in_flight t h' \<longrightarrow> \<not> in_flight t (rg_handlers rg ! i) \<longrightarrow> live t (sv_tokens (rg_server rg)) \<and> \<not> live t (sv_tokens s')"
    "(\<exists>b n fp. e = Issued t b n fp) \<longrightarrow> in_flight t (rg_handlers rg ! i) \<and> \<not> in_flight t h'"
    using handler_step_effect [OF assms(2) [unfolded registry_ok_def] act(3), of t] by auto
  then show ?thesis
    using filter_list_update [OF act(2), of "in_flight t" h'] act(1)
    by (auto simp: potential_def tokens_shrink_def of_bool_def split: if_splits)
next
  case (mint fault buf md ttl node now u x s')
  then show ?thesis using MintToken_effect [OF assms(2) [unfolded registry_ok_def] mint(3)] by (auto simp: potential_def of_bool_def)
next
  case (mint_refused fault buf md ttl node now st s')
  then show ?thesis using MintToken_effect [OF assms(2) [unfolded registry_ok_def] mint_refused(3)] by (auto simp: potential_def of_bool_def)
next
  case (revoke fault md u now v s')
  then show ?thesis using RevokeToken_effect [OF assms(2) [unfolded registry_ok_def] revoke(3)]
    by (auto simp: potential_def of_bool_def tokens_shrink_def)
next
  case (revoke_refused fault md u now st s')
  then show ?thesis using RevokeToken_effect [OF assms(2) [unfolded registry_ok_def] revoke_refused(3)]
    by (auto simp: potential_def of_bool_def tokens_shrink_def)
next
  case (roster d)
  then show ?thesis by (simp add: potential_def)
next
  case (restart tokens identities a c v)
  then show ?thesis using restart_effect [OF assms(2) [unfolded registry_ok_def] restart(3,4), of a c v]
    by (auto simp: potential_def of_bool_def tokens_shrink_def)
qed

interpretation once: budget registry_step registry_ok "potential t" "\<lambda>e. \<exists>b n fp. e = Issued t b n fp" "\<lambda>e. \<exists>n. e = TokenMinted t n" for t
  using registry_step_ok registry_step_spend by unfold_locales blast+

subsection \<open>Where everything comes from\<close>

definition entitled :: "event list \<Rightarrow> RegisterRequest \<Rightarrow> Grant \<Rightarrow> string \<Rightarrow> bool" where
  "entitled es req g n \<longleftrightarrow> TokenMinted (rq_BootstrapToken req) (gr_NodeID g) \<in> set es
     \<and> (if gr_NodeID g = '''' then \<not> snd (OwnerOf n) else n = gr_NodeID g)"

fun named_phase :: "event list \<Rightarrow> (string \<Rightarrow> node_view) \<Rightarrow> RegisterRequest \<Rightarrow> register_phase \<Rightarrow> bool" where
  "named_phase es v req (RegDisabled g n) \<longleftrightarrow> entitled es req g n"
| "named_phase es v req (RegApproved g n fp) \<longleftrightarrow> entitled es req g n"
| "named_phase es v req (RegConsume g n fp) \<longleftrightarrow> entitled es req g n \<and> (gr_NodeID g = '''' \<longrightarrow> nv_approved (v n))"
| "named_phase es v req (RegLedger g n fp resp) \<longleftrightarrow> entitled es req g n \<and> (gr_NodeID g = '''' \<longrightarrow> nv_approved (v n))"
| "named_phase es v req _ \<longleftrightarrow> True"

fun named :: "event list \<Rightarrow> (string \<Rightarrow> node_view) \<Rightarrow> handler \<Rightarrow> bool" where
  "named es v (HRegister env req now p) \<longleftrightarrow> named_phase es v req p"
| "named es v _ \<longleftrightarrow> True"

definition provenance :: "event list \<Rightarrow> registry \<Rightarrow> bool" where
  "provenance es rg \<longleftrightarrow> (\<forall>t n. known t n (sv_tokens (rg_server rg)) \<longrightarrow> TokenMinted t n \<in> set es)
     \<and> (\<forall>n. nv_approved (ledger (rg_server rg) n) \<longrightarrow> (\<exists>e \<in> set es. vouched n e))
     \<and> (\<forall>n. nv_key (ledger (rg_server rg) n) = last_key n (rev es))
     \<and> (\<forall>h \<in> set (rg_handlers rg). named es (ledger (rg_server rg)) h)"

lemma view_step_approved:
  assumes "view_step v e v'"
  shows "nv_approved (v n) \<Longrightarrow> nv_approved (v' n)" and "nv_approved (v' n) \<Longrightarrow> nv_approved (v n) \<or> vouched n e"
  using assms by (cases e; auto simp: bound_view_def vouched_def node_effect_def split: node_action.splits if_splits)+

lemma view_step_key: "view_step v e v' \<Longrightarrow> nv_key (v n) = last_key n es \<Longrightarrow> nv_key (v' n) = last_key n (e # es)"
  by (cases e) (auto simp: bound_view_def node_effect_def split: node_action.splits)

lemma chooseNode_entitled:
  assumes "chooseNode g m = Inr n" and "\<not> (snd (OwnerOf n) \<and> gr_NodeID g = '''')" and "TokenMinted (rq_BootstrapToken req) (gr_NodeID g) \<in> set es"
  shows "entitled es req g n"
  using assms by (auto simp: chooseNode_def entitled_def Let_def split: if_splits)

lemma named_done: "finish RegDone x = (p', s') \<Longrightarrow> named_phase es v req p'"
  by (auto simp: finish_def)

lemma register_named:
  assumes "register_step env req now p s = (p', s')" and "named_phase es (ledger s) req p"
    and "\<And>t n. known t n (sv_tokens s) \<Longrightarrow> TokenMinted t n \<in> set es"
  shows "named_phase es (ledger s) req p'"
proof (cases p)
  case RegPeek
  from assms(1) [unfolded RegPeek register_step.simps] show ?thesis
  proof (cases rule: attempt_cases)
    case (err e s1)
    then show ?thesis by (auto dest: named_done)
  next
    case (ok g s1)
    then have "known (rq_BootstrapToken req) (gr_NodeID g) (sv_tokens s)"
      by (auto simp: on_tokens_iff Peek_iff known_def)
    then have "TokenMinted (rq_BootstrapToken req) (gr_NodeID g) \<in> set es" by (rule assms(3))
    then show ?thesis using ok(2) chooseNode_entitled [of g "rq_NodeId req"]
      by (auto simp: proceed_def split: sum.splits prod.splits if_splits)
  qed
next
  case (RegDisabled g n)
  then show ?thesis using assms by (auto simp: proceed_def split: option.splits if_splits)
next
  case (RegApproved g n fp)
  then show ?thesis using assms by (auto simp: proceed_def IsApproved_view split: if_splits)
next
  case (RegClaim n)
  from assms(1) [unfolded RegClaim register_step.simps] show ?thesis
    by (cases rule: attempt_cases) (auto simp: proceed_def dest: named_done)
next
  case (RegPending n)
  from assms(1) [unfolded RegPending register_step.simps] show ?thesis by (cases rule: attempt_cases) auto
next
  case (RegConsume g n fp)
  show ?thesis
  proof (cases "Sign (env_crypto env) (env_serial env) (rq_Csr req) n now")
    case None
    then show ?thesis using RegConsume assms by auto
  next
    case (Some issued)
    with assms(1) RegConsume have "attempt (on_tokens (Consume (env_consume env) (rq_BootstrapToken req) now)) (\<lambda>e s. finish RegDone (tokenError e s))
      (\<lambda>_ s. proceed (RegLedger g n fp (register_response s n issued)) s) s = (p', s')" by simp
    then show ?thesis
      by (cases rule: attempt_cases) (use RegConsume assms(2) in \<open>auto simp: proceed_def dest: named_done\<close>)
  qed
next
  case (RegLedger g n fp resp)
  then have "\<exists>r. p' = RegDone r"
    using assms(1) by (auto simp: finish_def attempt_def split: if_splits prod.splits sum.splits)
  then show ?thesis by auto
next
  case (RegDone r)
  then show ?thesis using assms by (auto simp: proceed_def)
qed

lemma named_mono:
  assumes "named es v h" and "set es \<subseteq> set es'" and "\<And>n. nv_approved (v n) \<Longrightarrow> nv_approved (v' n)"
  shows "named es' v' h"
proof (cases h)
  case (HRegister env req now p)
  then show ?thesis using assms by (cases p) (auto simp: entitled_def split: if_splits)
qed auto

lemma registry_step_known:
  assumes "registry_step rg e rg'" and "registry_ok rg" and "known t n (sv_tokens (rg_server rg'))"
  shows "known t n (sv_tokens (rg_server rg)) \<or> e = TokenMinted t n"
  using assms(1)
proof cases
  case (act i h' s')
  then show ?thesis using handler_step_effect [OF assms(2) [unfolded registry_ok_def] act(3)] assms(3) by (auto simp: tokens_shrink_def)
next
  case (mint fault buf md ttl node now u x s')
  then show ?thesis using MintToken_effect [OF assms(2) [unfolded registry_ok_def] mint(3)] assms(3) by auto
next
  case (mint_refused fault buf md ttl node now st s')
  then show ?thesis using MintToken_effect [OF assms(2) [unfolded registry_ok_def] mint_refused(3)] assms(3) by auto
next
  case (revoke fault md u now v s')
  then show ?thesis using RevokeToken_effect [OF assms(2) [unfolded registry_ok_def] revoke(3)] assms(3) by (auto simp: tokens_shrink_def)
next
  case (revoke_refused fault md u now st s')
  then show ?thesis using RevokeToken_effect [OF assms(2) [unfolded registry_ok_def] revoke_refused(3)] assms(3) by (auto simp: tokens_shrink_def)
next
  case (restart tokens identities a c v)
  then show ?thesis using restart_effect [OF assms(2) [unfolded registry_ok_def] restart(3,4), of a c v] assms(3) by (auto simp: tokens_shrink_def)
qed (use assms(3) in simp_all)

lemma registry_step_handlers:
  assumes "registry_step rg e rg'" and "h \<in> set (rg_handlers rg')"
  shows "h \<in> set (rg_handlers rg) \<or> arrives (rg_server rg) h
    \<or> (\<exists>h0 \<in> set (rg_handlers rg). handler_step h0 (rg_server rg) = (h, e, rg_server rg'))"
  using assms
proof cases
  case (act i h' s')
  then show ?thesis using assms(2) set_update_subset_insert [of "rg_handlers rg" i h'] by (auto dest: nth_mem)
qed auto

lemma named_arrives: "arrives s h \<Longrightarrow> named es v h"
  by (cases h) auto

lemma named_handler_step:
  assumes "handler_step h s = (h', e, s')" and "named es (ledger s) h"
    and "\<And>t n. known t n (sv_tokens s) \<Longrightarrow> TokenMinted t n \<in> set es"
  shows "named es (ledger s) h'"
proof (cases h)
  case (HRegister env req now p)
  then obtain p' where "register_step env req now p s = (p', s')" "h' = HRegister env req now p'"
    using assms(1) by (auto split: prod.splits)
  then show ?thesis using register_named [of env req now p s p' s' es] assms(2,3) HRegister by simp
qed (use assms(1) in \<open>auto split: prod.splits\<close>)

lemma provenance_step:
  assumes "registry_step rg e rg'" and "registry_ok rg" and "provenance es rg"
  shows "provenance (es @ [e]) rg'"
proof -
  have vs: "view_step (ledger (rg_server rg)) e (ledger (rg_server rg'))" using registry_step_ok [OF assms(1,2)] by blast
  have minted: "known t n (sv_tokens (rg_server rg)) \<Longrightarrow> TokenMinted t n \<in> set es" for t n
    using assms(3) by (auto simp: provenance_def)
  have "named es (ledger (rg_server rg)) h" if "h \<in> set (rg_handlers rg')" for h
    using registry_step_handlers [OF assms(1) that] named_arrives named_handler_step [OF _ _ minted] assms(3)
    unfolding provenance_def by blast
  then have "named (es @ [e]) (ledger (rg_server rg')) h" if "h \<in> set (rg_handlers rg')" for h
    using named_mono [of es "ledger (rg_server rg)" h "es @ [e]"] view_step_approved(1) [OF vs] that by auto
  moreover have "TokenMinted t n \<in> set (es @ [e])" if "known t n (sv_tokens (rg_server rg'))" for t n
    using registry_step_known [OF assms(1,2) that] minted by auto
  moreover have "\<exists>x \<in> set (es @ [e]). vouched n x" if "nv_approved (ledger (rg_server rg') n)" for n
    using view_step_approved(2) [OF vs that] assms(3) by (auto simp: provenance_def)
  moreover have "nv_key (ledger (rg_server rg') n) = last_key n (rev (es @ [e]))" for n
    using view_step_key [OF vs] assms(3) by (simp add: provenance_def)
  ultimately show ?thesis by (simp add: provenance_def)
qed

lemma first_start_ok: "registry_ok (first_start a c v)" "provenance [] (first_start a c v)"
  by (simp_all add: registry_ok_def stores_ok_def first_start_def New_def empty_identities_def identities_ok_def keyed_def
      IdentityStore.Open_def entry_def fun_eq_iff provenance_def known_def held_def filed_def empty_store_def view_def
      empty_store_ok [unfolded empty_store_def])

lemma history_ok: "run registry_step (first_start a c v) es rg \<Longrightarrow> registry_ok rg \<and> provenance es rg"
  by (induction "first_start a c v" es rg rule: run.induct) (use first_start_ok registry_step_ok provenance_step in blast)+

text \<open>The state just before a certificate is issued under a token, and the handler that issues it.\<close>

lemma issued_by:
  assumes "registry_step rg (Issued t b n fp) rg'" and "provenance es rg" and "registry_ok rg"
  shows "TokenMinted t b \<in> set es \<and> (if b = '''' then \<not> snd (OwnerOf n) \<and> nv_approved (ledger (rg_server rg) n) else n = b)"
proof -
  obtain i h' s' where i: "i < length (rg_handlers rg)" "handler_step (rg_handlers rg ! i) (rg_server rg) = (h', Issued t b n fp, s')"
    using assms(1) by cases auto
  then have "named es (ledger (rg_server rg)) (rg_handlers rg ! i)" using assms(2) by (auto simp: provenance_def)
  moreover obtain env req now p p' where "rg_handlers rg ! i = HRegister env req now p" "register_event req p p' = Issued t b n fp"
    using i(2) by (cases "rg_handlers rg ! i")
      (auto simp: renew_event_def node_event_def split: prod.splits renew_phase.splits sum.splits node_phase.splits)
  moreover from this obtain g resp where "p = RegLedger g n fp resp" "gr_NodeID g = b" "rq_BootstrapToken req = t"
    by (auto simp: register_event_def split: register_phase.splits sum.splits)
  ultimately show ?thesis by (auto simp: entitled_def split: if_splits)
qed

subsection \<open>What a disable leads to\<close>

lemma mapsEqual_set: "mapsEqual a b \<Longrightarrow> distinct a \<Longrightarrow> distinct b \<Longrightarrow> set a = set b"
proof -
  assume "mapsEqual a b" "distinct a" "distinct b"
  then have "set a \<subseteq> set b" "card (set a) = card (set b)"
    by (auto simp: mapsEqual_def list_all_iff distinct_card)
  then show ?thesis by (intro card_subset_eq) auto
qed

lemma setRevoked_set: "distinct (rs_revoked r) \<Longrightarrow> set (rs_revoked (fst (setRevoked ids r))) = set ids"
  using mapsEqual_set [of "rs_revoked r" "remdups ids"] by (auto simp: setRevoked_def Let_def)

lemma disabled_until_enabled:
  assumes "run view_step v es v'" and "nv_disabled (v n)" and "NodeChanged NodeActionEnable n \<notin> set es"
  shows "nv_disabled (v' n) \<and> (\<forall>t b fp. Issued t b n fp \<notin> set es \<and> Renewed n fp \<notin> set es)"
  using assms
proof (induction rule: run.induct)
  case (run_snoc s es s' e s'')
  then have dis: "nv_disabled (s' n)" by simp
  have ne: "e \<noteq> NodeChanged NodeActionEnable n" using run_snoc.prems by auto
  have "nv_disabled (s'' n)"
    using run_snoc.hyps(2) dis ne by (cases e) (auto simp: node_effect_def split: node_action.splits)
  moreover have "e \<noteq> Issued t b n fp" "e \<noteq> Renewed n fp" for t b fp
    using run_snoc.hyps(2) dis by auto
  ultimately show ?case using run_snoc by auto
qed simp

lemma history_split:
  assumes "run registry_step (first_start a c v) (pre @ e # post) rg"
  obtains rg1 rg2 where "run registry_step (first_start a c v) pre rg1" "registry_ok rg1" "provenance pre rg1"
    "registry_step rg1 e rg2" "run registry_step rg2 post rg" "registry_ok rg2"
proof -
  from assms obtain rg1 rg2 where *: "run registry_step (first_start a c v) pre rg1" "registry_step rg1 e rg2" "run registry_step rg2 post rg"
    using run_split [of registry_step "first_start a c v" "pre @ [e]" post rg] by auto
  then show thesis using that history_ok [OF *(1)] registry_step_ok [OF *(2)] by blast
qed

subsection \<open>A concrete history\<close>

text \<open>A token is minted for a node, the node is disabled and enabled, and then it registers.\<close>

definition server_a :: "token_store \<Rightarrow> identity_store \<Rightarrow> metric list \<Rightarrow> server" where
  "server_a ts ids ms = \<lparr>sv_tokens = ts, sv_identities = ids, sv_directory = initial_directory [] [] 100, sv_metrics = ms,
     sv_adminToken = ''admin'', sv_caBundle = ''ca''\<rparr>"

definition ids_a :: "identity_record \<Rightarrow> identity_store" where
  "ids_a r = \<lparr>is_records = [(''n1'', r)], is_disk = \<lparr>target = Some (Encoded [(r, True)]), temp = None\<rparr>\<rparr>"

definition disabled_a :: identity_record where
  "disabled_a = (new_record ''n1'' 1)\<lparr>ir_Disabled := True, ir_LastSeenAt := 1\<rparr>"

definition enabled_a :: identity_record where
  "enabled_a = disabled_a\<lparr>ir_Disabled := False, ir_Deleted := False, ir_LastSeenAt := 2\<rparr>"

definition request_a :: RegisterRequest where
  "request_a = \<lparr>rq_BootstrapToken = token_a, rq_NodeId = ''n1'', rq_Csr = ''key''\<rparr>"

definition env_a :: call_env where
  "env_a = \<lparr>env_crypto = toy_crypto, env_serial = Some 7, env_claim = None, env_pending = None, env_consume = None, env_ledger = None\<rparr>"

definition key_a :: string where "key_a = hex_encode (map (\<lambda>c. of_nat (byte c)) ''key'')"

definition minted_a :: metric where "minted_a = TokenOp TokenOpMint ResultSuccess"


lemma act_at:
  "i < length hs \<Longrightarrow> handler_step (hs ! i) s = (h', e, s') \<Longrightarrow> hs' = hs[i := h'] \<Longrightarrow>
   registry_step \<lparr>rg_server = s, rg_handlers = hs\<rparr> e \<lparr>rg_server = s', rg_handlers = hs'\<rparr>"
  using registry_step.act [of i "\<lparr>rg_server = s, rg_handlers = hs\<rparr>" h' e s'] by simp

lemma arrive_at:
  "arrives s h \<Longrightarrow> hs' = hs @ [h] \<Longrightarrow> registry_step \<lparr>rg_server = s, rg_handlers = hs\<rparr> Quiet \<lparr>rg_server = s, rg_handlers = hs'\<rparr>"
  using registry_step.arrive [of "\<lparr>rg_server = s, rg_handlers = hs\<rparr>" h] by simp

lemma run_cons: "step s e s1 \<Longrightarrow> run step s1 es s' \<Longrightarrow> run step s (e # es) s'"
  using run_append [of step s "[e]" s1 es s'] run_snoc [OF run_Nil, of step s e s1] by simp

lemma admin_a: "requireAdmin (server_a ts ids ms) (Some [''Bearer admin'']) = None"
  by (simp add: requireAdmin_def server_a_def bearer_prefix_def)

lemma start_a: "first_start ''admin'' ''ca'' 100 = \<lparr>rg_server = server_a empty_store empty_identities [], rg_handlers = []\<rparr>"
  by (simp add: first_start_def New_def server_a_def empty_identities_def DisabledNodeIDs_def MaintenanceNodeIDs_def)

lemma server_a_simps [simp]:
  "sv_tokens (server_a ts ids ms) = ts" "sv_identities (server_a ts ids ms) = ids" "sv_metrics (server_a ts ids ms) = ms"
  "(server_a ts ids ms)\<lparr>sv_tokens := ts'\<rparr> = server_a ts' ids ms" "(server_a ts ids ms)\<lparr>sv_identities := ids'\<rparr> = server_a ts ids' ms"
  "count m (server_a ts ids ms) = server_a ts ids (ms @ [m])" "sv_caBundle (server_a ts ids ms) = ''ca''"
  by (simp_all add: server_a_def count_def)

lemma mint_a:
  "MintToken None (Some zeros) (Some [''Bearer admin'']) hour ''n1'' 0 (server_a empty_store ids [])
   = (Inr (token_a, hour), server_a (sole fresh_record) ids [minted_a])"
proof -
  have "\<not> hour \<le> 0" by (simp add: hour_def minute_def second_def)
  then show ?thesis
    by (simp add: MintToken_def admin_a attempt_def on_tokens_def accept_def minted_a_def time_add_def sample_mint)
qed

lemma put_record_a:
  "put_record None ''n1'' r empty_identities = (Inr (), ids_a r)" "put_record None ''n1'' r (ids_a r') = (Inr (), ids_a r)"
  by (simp_all add: put_record_def IdentityStore.persistLocked_def blank_disk_def empty_identities_def ids_a_def)

lemma records_a: "is_records (ids_a r) = [(''n1'', r)]"
  by (simp add: ids_a_def)

lemma get_record_a: "get_record ''n1'' now empty_identities = new_record ''n1'' now" "get_record ''n1'' now (ids_a r) = r"
  by (simp_all add: get_record_def empty_identities_def ids_a_def)

lemma node_writes_a:
  "node_step NodeActionDisable None ''n1'' 1 NodeWrite (server_a ts empty_identities ms)
   = (NodeRead [PubRevoked], server_a ts (ids_a disabled_a) ms)"
  "node_step NodeActionEnable None ''n1'' 2 NodeWrite (server_a ts (ids_a disabled_a) ms)
   = (NodeRead [PubRevoked], server_a ts (ids_a enabled_a) ms)"
  by (simp_all add: attempt_def on_identities_def proceed_def node_write_def publications_def Disable_def Enable_def put_record_a
      get_record_a disabled_a_def enabled_a_def records_a)

definition grant_a :: Grant where "grant_a = \<lparr>gr_NodeID = ''n1'', gr_ClaimedNodeID = ''''\<rparr>"

definition issued_a :: RegisterResponse where
  "issued_a = \<lparr>rp_NodeId = ''n1'', rp_Certificate = fst (the (Sign toy_crypto (Some 7) ''key'' ''n1'' 2)), rp_CaBundlePem = ''ca'',
     rp_NotAfter = snd (the (Sign toy_crypto (Some 7) ''key'' ''n1'' 2))\<rparr>"

lemma not_owned_a: "\<not> snd (OwnerOf ''n1'')"
  by code_simp

lemma sign_a: "Sign toy_crypto (Some 7) ''key'' ''n1'' 2 \<noteq> None"
  by (simp add: Sign_def toy_crypto_def Let_def)

lemma register_phases_a:
  "register_step env_a request_a 2 RegPeek (server_a (sole fresh_record) ids ms)
   = (RegDisabled grant_a ''n1'', server_a (sole fresh_record) ids ms)"
  "register_step env_a request_a 2 (RegDisabled grant_a ''n1'') (server_a ts (ids_a enabled_a) ms)
   = (RegConsume grant_a ''n1'' key_a, server_a ts (ids_a enabled_a) ms)"
  "register_step env_a request_a 2 (RegConsume grant_a ''n1'' key_a) (server_a (sole fresh_record) ids ms)
   = (RegLedger grant_a ''n1'' key_a issued_a, server_a (sole (fresh_record\<lparr>tr_Used := True, tr_UsedAt := 2\<rparr>)) ids ms)"
  "register_step env_a request_a 2 (RegLedger grant_a ''n1'' key_a issued_a) (server_a ts (ids_a enabled_a) ms)
   = (RegDone (Inr issued_a), server_a ts (ids_a (bind_key key_a 2 enabled_a)) (ms @ [RegisterMetric ResultSuccess]))"
proof -
  show "register_step env_a request_a 2 RegPeek (server_a (sole fresh_record) ids ms)
     = (RegDisabled grant_a ''n1'', server_a (sole fresh_record) ids ms)"
    using not_owned_a by (simp add: attempt_def on_tokens_def proceed_def request_a_def Peek_def consumableLocked_def sole_def fresh_record_def
      chooseNode_def Let_def grant_a_def hour_def minute_def second_def)
  show "register_step env_a request_a 2 (RegDisabled grant_a ''n1'') (server_a ts (ids_a enabled_a) ms)
     = (RegConsume grant_a ''n1'' key_a, server_a ts (ids_a enabled_a) ms)"
    by (simp add: IsDisabled_def ids_a_def enabled_a_def csrFingerprint_def env_a_def toy_crypto_def request_a_def Fingerprint_def
        key_a_def proceed_def grant_a_def)
  show "register_step env_a request_a 2 (RegConsume grant_a ''n1'' key_a) (server_a (sole fresh_record) ids ms)
     = (RegLedger grant_a ''n1'' key_a issued_a, server_a (sole (fresh_record\<lparr>tr_Used := True, tr_UsedAt := 2\<rparr>)) ids ms)"
    using sign_a by (auto simp: attempt_def on_tokens_def proceed_def request_a_def env_a_def sample_consume register_response_def issued_a_def)
  show "register_step env_a request_a 2 (RegLedger grant_a ''n1'' key_a issued_a) (server_a ts (ids_a enabled_a) ms)
     = (RegDone (Inr issued_a), server_a ts (ids_a (bind_key key_a 2 enabled_a)) (ms @ [RegisterMetric ResultSuccess]))"
    by (simp add: attempt_def on_identities_def Set_def IsDisabled_def put_record_a get_record_a env_a_def grant_a_def enabled_a_def
        records_a)
qed

definition events_a :: "event list" where
  "events_a = [TokenMinted token_a ''n1'', Quiet, NodeChanged NodeActionDisable ''n1'', Quiet, NodeChanged NodeActionEnable ''n1'',
     Quiet, Quiet, Quiet, Quiet, Issued token_a ''n1'' ''n1'' key_a]"

definition final_a :: registry where
  "final_a = \<lparr>rg_server = server_a (sole (fresh_record\<lparr>tr_Used := True, tr_UsedAt := 2\<rparr>)) (ids_a (bind_key key_a 2 enabled_a))
       [minted_a, RegisterMetric ResultSuccess],
     rg_handlers = [HNode NodeActionDisable None ''n1'' 1 (NodeRead [PubRevoked]), HNode NodeActionEnable None ''n1'' 2 (NodeRead [PubRevoked]),
       HRegister env_a request_a 2 (RegDone (Inr issued_a))]\<rparr>"

definition flight_a :: "token_store \<Rightarrow> identity_store \<Rightarrow> metric list \<Rightarrow> register_phase \<Rightarrow> registry" where
  "flight_a ts ids ms p = \<lparr>rg_server = server_a ts ids ms,
     rg_handlers = [HNode NodeActionDisable None ''n1'' 1 (NodeRead [PubRevoked]), HNode NodeActionEnable None ''n1'' 2 (NodeRead [PubRevoked]),
       HRegister env_a request_a 2 p]\<rparr>"

lemma register_turn_a:
  assumes "register_step env_a request_a 2 p (server_a ts ids ms) = (p', server_a ts' ids' ms')" and "register_event request_a p p' = e"
  shows "registry_step (flight_a ts ids ms p) e (flight_a ts' ids' ms' p')"
  unfolding flight_a_def by (rule act_at [of "Suc (Suc 0)"]) (simp_all add: assms)

lemma register_run_a:
  "run registry_step (flight_a (sole fresh_record) (ids_a enabled_a) [minted_a] RegPeek) [Quiet, Quiet, Quiet, Issued token_a ''n1'' ''n1'' key_a] final_a"
proof -
  let ?u = "sole (fresh_record\<lparr>tr_Used := True, tr_UsedAt := 2\<rparr>)"
  have "run registry_step (flight_a ?u (ids_a enabled_a) [minted_a] (RegLedger grant_a ''n1'' key_a issued_a)) [Issued token_a ''n1'' ''n1'' key_a]
      (flight_a ?u (ids_a (bind_key key_a 2 enabled_a)) ([minted_a] @ [RegisterMetric ResultSuccess]) (RegDone (Inr issued_a)))"
    by (rule run_cons, rule register_turn_a, rule register_phases_a) (simp_all add: register_event_def grant_a_def request_a_def)
  then have "run registry_step (flight_a (sole fresh_record) (ids_a enabled_a) [minted_a] RegPeek)
      [Quiet, Quiet, Quiet, Issued token_a ''n1'' ''n1'' key_a]
      (flight_a ?u (ids_a (bind_key key_a 2 enabled_a)) ([minted_a] @ [RegisterMetric ResultSuccess]) (RegDone (Inr issued_a)))"
    using register_turn_a [OF register_phases_a(1) register_event_early(1)] register_turn_a [OF register_phases_a(2) register_event_early(2)]
      register_turn_a [OF register_phases_a(3) register_event_early(6)] by (blast intro: run_cons)
  then show ?thesis by (simp add: final_a_def flight_a_def)
qed

lemma registry_history_a: "run registry_step (first_start ''admin'' ''ca'' 100) events_a final_a"
proof -
  let ?f = "sole fresh_record"
  let ?d = "\<lambda>p. HNode NodeActionDisable None ''n1'' 1 p" and ?e = "\<lambda>p. HNode NodeActionEnable None ''n1'' 2 p"
    and ?r = "\<lambda>p. HRegister env_a request_a 2 p"
  have admin: "\<exists>md. requireAdmin (server_a ts ids ms) md = None" for ts ids ms using admin_a by blast
  have "registry_step (first_start ''admin'' ''ca'' 100) (TokenMinted token_a ''n1'') \<lparr>rg_server = server_a ?f empty_identities [minted_a], rg_handlers = []\<rparr>"
    using registry_step.mint [of None "Some zeros" "Some [''Bearer admin'']" hour "''n1''" 0 "first_start ''admin'' ''ca'' 100", unfolded start_a]
    by (simp add: start_a mint_a)
  moreover have "registry_step \<lparr>rg_server = server_a ?f empty_identities [minted_a], rg_handlers = []\<rparr> Quiet
      \<lparr>rg_server = server_a ?f empty_identities [minted_a], rg_handlers = [?d NodeWrite]\<rparr>"
    by (rule arrive_at [of _ "?d NodeWrite"]) (simp_all add: admin)
  moreover have "registry_step \<lparr>rg_server = server_a ?f empty_identities [minted_a], rg_handlers = [?d NodeWrite]\<rparr> (NodeChanged NodeActionDisable ''n1'')
      \<lparr>rg_server = server_a ?f (ids_a disabled_a) [minted_a], rg_handlers = [?d (NodeRead [PubRevoked])]\<rparr>"
    by (rule act_at [of 0]) (simp_all add: node_writes_a node_event_def del: node_step.simps)
  moreover have "registry_step \<lparr>rg_server = server_a ?f (ids_a disabled_a) [minted_a], rg_handlers = [?d (NodeRead [PubRevoked])]\<rparr> Quiet
      \<lparr>rg_server = server_a ?f (ids_a disabled_a) [minted_a], rg_handlers = [?d (NodeRead [PubRevoked]), ?e NodeWrite]\<rparr>"
    by (rule arrive_at [of _ "?e NodeWrite"]) (simp_all add: admin)
  moreover have "registry_step \<lparr>rg_server = server_a ?f (ids_a disabled_a) [minted_a], rg_handlers = [?d (NodeRead [PubRevoked]), ?e NodeWrite]\<rparr>
      (NodeChanged NodeActionEnable ''n1'')
      \<lparr>rg_server = server_a ?f (ids_a enabled_a) [minted_a], rg_handlers = [?d (NodeRead [PubRevoked]), ?e (NodeRead [PubRevoked])]\<rparr>"
    by (rule act_at [of "Suc 0"]) (simp_all add: node_writes_a node_event_def del: node_step.simps)
  moreover have "registry_step \<lparr>rg_server = server_a ?f (ids_a enabled_a) [minted_a], rg_handlers = [?d (NodeRead [PubRevoked]), ?e (NodeRead [PubRevoked])]\<rparr> Quiet
      \<lparr>rg_server = server_a ?f (ids_a enabled_a) [minted_a], rg_handlers = [?d (NodeRead [PubRevoked]), ?e (NodeRead [PubRevoked]), ?r RegPeek]\<rparr>"
    by (rule arrive_at [of _ "?r RegPeek"]) simp_all
  ultimately show ?thesis
    unfolding events_a_def using register_run_a unfolding flight_a_def by (blast intro: run_cons)
qed


subsection \<open>Two disables at once\<close>

definition race_ids :: "string list \<Rightarrow> identity_store" where
  "race_ids ns = (let records = map (\<lambda>n. (n, (new_record n 1)\<lparr>ir_Disabled := True, ir_LastSeenAt := 1\<rparr>)) ns in
     \<lparr>is_records = records, is_disk = \<lparr>target = (if ns = [] then None else Some (Encoded (map (\<lambda>(_, r). (r, True)) records))), temp = None\<rparr>\<rparr>)"

definition race :: "string list \<Rightarrow> (string list \<times> int) \<Rightarrow> metric list \<Rightarrow> node_phase \<Rightarrow> node_phase \<Rightarrow> registry" where
  "race ns v ms p q = \<lparr>rg_server = \<lparr>sv_tokens = empty_store, sv_identities = race_ids ns,
       sv_directory = \<lparr>di_roster = (initial_roster [] [] 100)\<lparr>rs_revoked := fst v, rs_version := snd v\<rparr>, di_streams = Map.empty, di_pending = []\<rparr>,
       sv_metrics = ms, sv_adminToken = ''admin'', sv_caBundle = ''ca''\<rparr>,
     rg_handlers = [HNode NodeActionDisable None ''n1'' 1 p, HNode NodeActionDisable None ''n2'' 1 q]\<rparr>"

lemma race_turns:
  assumes "handler_step (HNode NodeActionDisable None ''n1'' 1 p) (rg_server (race ns v ms p q)) = (HNode NodeActionDisable None ''n1'' 1 p', e, rg_server (race ns' v' ms' p' q))"
  shows "registry_step (race ns v ms p q) e (race ns' v' ms' p' q)"
  using act_at [of 0 "rg_handlers (race ns v ms p q)" "rg_server (race ns v ms p q)"] assms by (simp add: race_def)

lemma race_turns2:
  assumes "handler_step (HNode NodeActionDisable None ''n2'' 1 q) (rg_server (race ns v ms p q)) = (HNode NodeActionDisable None ''n2'' 1 q', e, rg_server (race ns' v' ms' p q'))"
  shows "registry_step (race ns v ms p q) e (race ns' v' ms' p q')"
  using act_at [of "Suc 0" "rg_handlers (race ns v ms p q)" "rg_server (race ns v ms p q)"] assms by (simp add: race_def)

lemmas race_simps = race_def race_ids_def Let_def attempt_def on_identities_def proceed_def node_write_def publications_def Disable_def
  put_record_def get_record_def IdentityStore.persistLocked_def node_event_def published_ids_def DisabledNodeIDs_def publish_def
  enqueue_def setRevoked_def mapsEqual_def bump_def snapshotLocked_def initial_roster_def count_def new_record_def

lemma race_run:
  "run registry_step (race [] ([], 100) [] NodeWrite NodeWrite)
     [NodeChanged NodeActionDisable ''n1'', Quiet, NodeChanged NodeActionDisable ''n2'', Quiet, Quiet, Quiet, Quiet, Quiet]
     (race [''n1'', ''n2''] ([''n1''], 102) [NodeStateChange NodeActionDisable ResultSuccess, NodeStateChange NodeActionDisable ResultSuccess]
       (NodeDone True) (NodeDone True))"
proof -
  let ?m = "NodeStateChange NodeActionDisable ResultSuccess"
  have "registry_step (race [] ([], 100) [] NodeWrite NodeWrite) (NodeChanged NodeActionDisable ''n1'')
      (race [''n1''] ([], 100) [] (NodeRead [PubRevoked]) NodeWrite)"
    by (rule race_turns) (simp add: race_simps)
  moreover have "registry_step (race [''n1''] ([], 100) [] (NodeRead [PubRevoked]) NodeWrite) Quiet
      (race [''n1''] ([], 100) [] (NodeSend PubRevoked [''n1''] []) NodeWrite)"
    by (rule race_turns) (simp add: race_simps)
  moreover have "registry_step (race [''n1''] ([], 100) [] (NodeSend PubRevoked [''n1''] []) NodeWrite) (NodeChanged NodeActionDisable ''n2'')
      (race [''n1'', ''n2''] ([], 100) [] (NodeSend PubRevoked [''n1''] []) (NodeRead [PubRevoked]))"
    by (rule race_turns2) (simp add: race_simps)
  moreover have "registry_step (race [''n1'', ''n2''] ([], 100) [] (NodeSend PubRevoked [''n1''] []) (NodeRead [PubRevoked])) Quiet
      (race [''n1'', ''n2''] ([], 100) [] (NodeSend PubRevoked [''n1''] []) (NodeSend PubRevoked [''n1'', ''n2''] []))"
    by (rule race_turns2) (simp add: race_simps)
  moreover have "registry_step (race [''n1'', ''n2''] ([], 100) [] (NodeSend PubRevoked [''n1''] []) (NodeSend PubRevoked [''n1'', ''n2''] [])) Quiet
      (race [''n1'', ''n2''] ([''n1'', ''n2''], 101) [] (NodeSend PubRevoked [''n1''] []) (NodeRead []))"
    by (rule race_turns2) (simp add: race_simps)
  moreover have "registry_step (race [''n1'', ''n2''] ([''n1'', ''n2''], 101) [] (NodeSend PubRevoked [''n1''] []) (NodeRead [])) Quiet
      (race [''n1'', ''n2''] ([''n1''], 102) [] (NodeRead []) (NodeRead []))"
    by (rule race_turns) (simp add: race_simps)
  moreover have "registry_step (race [''n1'', ''n2''] ([''n1''], 102) [] (NodeRead []) (NodeRead [])) Quiet
      (race [''n1'', ''n2''] ([''n1''], 102) [?m] (NodeDone True) (NodeRead []))"
    by (rule race_turns) (simp add: race_simps)
  moreover have "registry_step (race [''n1'', ''n2''] ([''n1''], 102) [?m] (NodeDone True) (NodeRead [])) Quiet
      (race [''n1'', ''n2''] ([''n1''], 102) [?m, ?m] (NodeDone True) (NodeDone True))"
    by (rule race_turns2) (simp add: race_simps)
  ultimately show ?thesis by (blast intro: run_cons run_Nil)
qed


subsection \<open>The published lists have no duplicates\<close>

definition listed_once :: "server \<Rightarrow> bool" where
  "listed_once s \<longleftrightarrow> distinct (rs_revoked (di_roster (sv_directory s)))"

lemma publish_listed_once: "listed_once s \<Longrightarrow> listed_once (publish p ids s)"
  by (cases p) (auto simp: listed_once_def publish_def Let_def setRevoked_def Roster.setMaintenance_def bump_def)

lemma handler_step_directory:
  assumes "handler_step h s = (h', e, s')"
  shows "sv_directory s' = sv_directory s \<or> (\<exists>p ids. s' = publish p ids s)"
proof (cases h)
  case (HRegister env req now p)
  then show ?thesis using assms by (cases p) (auto simp: register_simps tokenError_def registerLedgerError_def split: prod.splits sum.splits option.splits if_splits Outcome.splits token_error.splits identity_error.splits)
next
  case (HRenew env pr req now p)
  then show ?thesis using assms by (cases p) (auto simp: register_simps renewLedgerError_def split: prod.splits sum.splits option.splits if_splits identity_error.splits)
next
  case (HNode action fault n now p)
  then show ?thesis using assms
    by (cases "(action, fault, n, now, p)" rule: node_step.cases) (auto simp: register_simps split: prod.splits sum.splits)
qed


lemma registry_step_listed_once:
  assumes "registry_step rg e rg'" and "listed_once (rg_server rg)"
  shows "listed_once (rg_server rg')"
  using assms(1)
proof cases
  case (act i h' s')
  then show ?thesis using handler_step_directory [OF act(3)] publish_listed_once assms(2) by (auto simp: listed_once_def)
next
  case (mint fault buf md ttl node now u x s')
  then show ?thesis using assms(2) by (auto simp: listed_once_def MintToken_def register_simps split: option.splits if_splits prod.splits sum.splits)
next
  case (mint_refused fault buf md ttl node now st s')
  then show ?thesis using assms(2) by (auto simp: listed_once_def MintToken_def register_simps split: option.splits if_splits prod.splits sum.splits)
next
  case (revoke fault md u now v s')
  then show ?thesis using assms(2) by (auto simp: listed_once_def RevokeToken_def register_simps split: option.splits if_splits prod.splits sum.splits)
next
  case (revoke_refused fault md u now st s')
  then show ?thesis using assms(2) by (auto simp: listed_once_def RevokeToken_def register_simps split: option.splits if_splits prod.splits sum.splits)
next
  case (roster d)
  then show ?thesis using assms(2) by (simp add: listed_once_def)
next
  case (restart tokens identities a c v)
  then show ?thesis by (simp add: listed_once_def New_def initial_directory_def initial_roster_def)
qed (use assms(2) in simp)

lemma history_listed_once: "run registry_step (first_start a c v) es rg \<Longrightarrow> listed_once (rg_server rg)"
  by (erule run_invariant, rule registry_step_listed_once)
    (simp_all add: listed_once_def first_start_def New_def initial_directory_def initial_roster_def)

lemma publish_revoked:
  "listed_once s \<Longrightarrow> set (rs_revoked (di_roster (sv_directory (publish PubRevoked ids s)))) = set ids"
  "rs_revoked (di_roster (sv_directory (publish PubMaintenance ids s))) = rs_revoked (di_roster (sv_directory s))"
  "sv_identities (publish p ids s) = sv_identities s"
proof -
  show "set (rs_revoked (di_roster (sv_directory (publish PubRevoked ids s)))) = set ids" if "listed_once s"
    using setRevoked_set [of "di_roster (sv_directory s)" ids] that
    by (simp add: listed_once_def publish_def Let_def)
qed (simp_all add: publish_def Let_def Roster.setMaintenance_def bump_def)

lemma node_admin_success:
  assumes "node_admin action fault md n now s = (Inr u, s')"
  obtains ids where "node_write action fault n now (sv_identities s) = (Inr (), ids)"
    "s' = count (NodeStateChange action ResultSuccess) (publish_all (publications action) (s\<lparr>sv_identities := ids\<rparr>))"
  using assms by (auto simp: node_admin_def attempt_def on_identities_def refuse_def accept_def split: option.splits if_splits prod.splits sum.splits)



section \<open>Properties\<close>

text \<open>
  C6. Whatever calls, faults and restarts are interleaved, no bootstrap token leads to more certificates
  than it was minted times: the number of issues under a token is at most the number of its mintings, even
  when many registrations present it at once.
\<close>

theorem registry_issues_once:
  assumes "run registry_step (first_start adminToken caBundle unixMilli) es rg"
  shows "length (filter (\<lambda>e. \<exists>b n fp. e = Issued t b n fp) es) \<le> length (filter (\<lambda>e. \<exists>n. e = TokenMinted t n) es)"
proof -
  have "potential t (first_start adminToken caBundle unixMilli) = 0"
    by (simp add: potential_def first_start_def New_def live_def held_def filed_def empty_store_def)
  then show ?thesis using once.run_spend [OF assms first_start_ok(1), of t] by simp
qed

text \<open>
  C4. Every certificate is issued under a token that was minted before it. A token minted for one node
  yields a certificate for that node only. An unbound token yields one only for a node that is in no
  tenant's reserved name space, that an operator approved or that had a certificate before, and only for
  the key that node was last bound to, if it was bound at all.
\<close>

theorem registry_issues_authorised:
  assumes "run registry_step (first_start adminToken caBundle unixMilli) (pre @ Issued t b n fp # post) rg"
  shows "TokenMinted t b \<in> set pre
    \<and> (if b = '''' then \<not> snd (OwnerOf n) \<and> (\<exists>e \<in> set pre. vouched n e) \<and> last_key n (rev pre) \<in> {'''', fp} else n = b)"
proof -
  obtain rg1 rg2 where *: "registry_ok rg1" "provenance pre rg1" "registry_step rg1 (Issued t b n fp) rg2"
    using history_split [OF assms] by blast
  have "view_step (ledger (rg_server rg1)) (Issued t b n fp) (ledger (rg_server rg2))"
    using registry_step_ok [OF *(3,1)] by blast
  then show ?thesis using issued_by [OF *(3,2,1)] *(2) by (auto simp: provenance_def split: if_splits)
qed

text \<open>
  C5. Once an operator has disabled or deleted a node, no certificate is issued or renewed for it until an
  operator enables it again. This includes registrations and renewals that were already under way, and it
  survives a restart.
\<close>

theorem disabled_never_issued:
  assumes "run registry_step (first_start adminToken caBundle unixMilli) (pre @ NodeChanged action n # mid @ e # post) rg"
    and "action \<in> {NodeActionDisable, NodeActionDelete}" and "(\<exists>t b fp. e = Issued t b n fp) \<or> (\<exists>fp. e = Renewed n fp)"
  shows "NodeChanged NodeActionEnable n \<in> set mid"
proof (rule ccontr)
  assume absent: "NodeChanged NodeActionEnable n \<notin> set mid"
  obtain rg1 rg2 where *: "registry_ok rg1" "registry_step rg1 (NodeChanged action n) rg2"
    "run registry_step rg2 (mid @ e # post) rg" "registry_ok rg2"
    using history_split [OF assms(1)] by blast
  have "nv_disabled (ledger (rg_server rg2) n)"
    using registry_step_ok [OF *(2,1)] assms(2) by (auto simp: node_effect_def)
  moreover obtain rg3 where "run registry_step rg2 (mid @ [e]) rg3"
    using run_split [of registry_step rg2 "mid @ [e]" post rg] *(3) by (auto simp del: run_snoc_iff)
  then have "run view_step (ledger (rg_server rg2)) (mid @ [e]) (ledger (rg_server rg3))" using sim.run_spec *(4) by blast
  moreover have "NodeChanged NodeActionEnable n \<notin> set (mid @ [e])" using absent assms(3) by auto
  ultimately have "Issued t b n fp \<notin> set (mid @ [e]) \<and> Renewed n fp \<notin> set (mid @ [e])" for t b fp
    using disabled_until_enabled by blast
  then show False using assms(3) by auto
qed

text \<open>
  When a disable, delete or enable runs without another node action in between, the revocation list
  that the Gateways are sent is exactly the set of nodes the ledger holds as disabled.
\<close>

theorem disable_is_published:
  assumes "run registry_step (first_start adminToken caBundle unixMilli) es rg"
    and "action \<in> {NodeActionDisable, NodeActionDelete, NodeActionEnable}"
    and "node_admin action fault md n now (rg_server rg) = (Inr (), s')"
  shows "set (rs_revoked (di_roster (sv_directory s'))) = {m. IsDisabled m (sv_identities s')}
    \<and> (IsDisabled n (sv_identities s') \<longleftrightarrow> action \<noteq> NodeActionEnable)"
proof -
  let ?s = "rg_server rg"
  have ok: "stores_ok ?s" "listed_once ?s"
    using history_ok [OF assms(1)] history_listed_once [OF assms(1)] by (auto simp: registry_ok_def)
  obtain ids where ids: "node_write action fault n now (sv_identities ?s) = (Inr (), ids)"
    and s': "s' = count (NodeStateChange action ResultSuccess) (publish_all (publications action) (?s\<lparr>sv_identities := ids\<rparr>))"
    using assms(3) by (rule node_admin_success)
  then have "node_step action fault n now NodeWrite ?s = (NodeRead (publications action), ?s\<lparr>sv_identities := ids\<rparr>)"
    by (simp add: attempt_def on_identities_def proceed_def)
  from node_step_effect [OF ok(1) this]
  have *: "identities_ok ids" "view ids = (view (sv_identities ?s))(n := node_effect action (view (sv_identities ?s) n))"
    by (auto simp: ledger_effect_def node_event_def)
  have "listed_once (?s\<lparr>sv_identities := ids\<rparr>)" using ok(2) by (simp add: listed_once_def)
  then have "set (rs_revoked (di_roster (sv_directory s'))) = set (DisabledNodeIDs ids)" "sv_identities s' = ids"
    using assms(2) unfolding s' publish_all_def by (auto simp: publications_def publish_revoked published_ids_def)
  then show ?thesis
    using DisabledNodeIDs_view [OF *(1)] *(2) assms(2) by (auto simp: IsDisabled_view node_effect_def)
qed

text \<open>
  Two disables at the same time can leave a node out of the broadcast revocation list: each handler
  reads the disabled nodes from the ledger and hands them to the roster in a second step, so the older list
  may arrive last. Both calls succeed, the ledger holds both nodes as disabled, and the roster goes on
  announcing only one of them.
\<close>

theorem disable_race:
  "\<exists>es rg. run registry_step (first_start ''admin'' ''ca'' 100) es rg
     \<and> rg_handlers rg = [HNode NodeActionDisable None ''n1'' 1 (NodeDone True), HNode NodeActionDisable None ''n2'' 1 (NodeDone True)]
     \<and> IsDisabled ''n1'' (sv_identities (rg_server rg)) \<and> IsDisabled ''n2'' (sv_identities (rg_server rg))
     \<and> rs_revoked (di_roster (sv_directory (rg_server rg))) = [''n1'']"
proof -
  have start: "first_start ''admin'' ''ca'' 100 = (race [] ([], 100) [] NodeWrite NodeWrite)\<lparr>rg_handlers := []\<rparr>"
    by (simp add: first_start_def race_def New_def empty_identities_def race_ids_def blank_disk_def initial_directory_def
        initial_roster_def DisabledNodeIDs_def MaintenanceNodeIDs_def)
  let ?h = "\<lambda>n. HNode NodeActionDisable None n 1 NodeWrite" and ?s = "rg_server (race [] ([], 100) [] NodeWrite NodeWrite)"
  have admin: "requireAdmin ?s (Some [''Bearer admin'']) = None" by (simp add: race_def requireAdmin_def bearer_prefix_def)
  have "registry_step (first_start ''admin'' ''ca'' 100) Quiet \<lparr>rg_server = ?s, rg_handlers = [?h ''n1'']\<rparr>"
    using arrive_at [of ?s "?h ''n1''" _ "[]"] admin unfolding start by (auto simp: race_def)
  moreover have "registry_step \<lparr>rg_server = ?s, rg_handlers = [?h ''n1'']\<rparr> Quiet (race [] ([], 100) [] NodeWrite NodeWrite)"
    using arrive_at [of ?s "?h ''n2''" _ "[?h ''n1'']"] admin by (auto simp: race_def)
  ultimately obtain es where "run registry_step (first_start ''admin'' ''ca'' 100) es
      (race [''n1'', ''n2''] ([''n1''], 102) [NodeStateChange NodeActionDisable ResultSuccess, NodeStateChange NodeActionDisable ResultSuccess]
        (NodeDone True) (NodeDone True))"
    using race_run by (blast intro: run_cons)
  then show ?thesis by (rule_tac exI, rule_tac exI, rule_tac conjI) (assumption, simp add: race_def race_ids_def IsDisabled_def)
qed

subsection \<open>Witnesses\<close>

theorem registry_issues_once_witness:
  "length (filter (\<lambda>e. \<exists>b n fp. e = Issued token_a b n fp) events_a) = 1
   \<and> length (filter (\<lambda>e. \<exists>b n fp. e = Issued token_a b n fp) events_a) \<le> length (filter (\<lambda>e. \<exists>n. e = TokenMinted token_a n) events_a)"
  using registry_issues_once [OF registry_history_a, of token_a] by (simp add: events_a_def)

theorem registry_issues_authorised_witness:
  "TokenMinted token_a ''n1'' \<in> set (butlast events_a) \<and> (''n1'' = ''n1'')"
proof -
  have "events_a = butlast events_a @ Issued token_a ''n1'' ''n1'' key_a # []" by (simp add: events_a_def)
  then show ?thesis using registry_issues_authorised [of _ _ _ "butlast events_a" token_a "''n1''" "''n1''" key_a "[]"] registry_history_a by fastforce
qed

theorem disabled_never_issued_witness:
  "NodeChanged NodeActionEnable ''n1'' \<in> set [Quiet, NodeChanged NodeActionEnable ''n1'', Quiet, Quiet, Quiet, Quiet]"
  by (rule disabled_never_issued [of "''admin''" "''ca''" 100 "[TokenMinted token_a ''n1'', Quiet]" NodeActionDisable _ _
        "Issued token_a ''n1'' ''n1'' key_a" "[]" final_a]) (use registry_history_a in \<open>simp_all add: events_a_def\<close>)

theorem disable_is_published_witness:
  "\<exists>s'. node_admin NodeActionDisable None (Some [''Bearer admin'']) ''n1'' 1 (rg_server (first_start ''admin'' ''ca'' 100)) = (Inr (), s')
     \<and> set (rs_revoked (di_roster (sv_directory s'))) = {m. IsDisabled m (sv_identities s')} \<and> IsDisabled ''n1'' (sv_identities s')"
proof -
  have "\<exists>s'. node_admin NodeActionDisable None (Some [''Bearer admin'']) ''n1'' 1 (rg_server (first_start ''admin'' ''ca'' 100)) = (Inr (), s')"
    by (simp add: start_a node_admin_def admin_a attempt_def on_identities_def node_write_def Disable_def get_record_a put_record_a accept_def)
  then show ?thesis using disable_is_published [OF run_Nil, of NodeActionDisable] by blast
qed

end
