(* ===== verification/Upstream.thy ===== *)
theory Upstream
  imports Runtime
begin

text \<open>
  \<open>common/runtime/messages_upstream.go\<close>: what the Gateway may pass on of a response that an Agent captured
  from a native model server, and its encoding for the tunnel (\<open>common/tunnelwire/messages.go\<close>).
  \<open>SanitizeUpstreamHeader\<close> runs at every hop, so besides what it lets through the question is whether a
  later hop takes away what an earlier one kept.

  \<open>http.Header\<close> is an association list of distinct names. Whether a body is an Anthropic error document
  is decided by the JSON decoder, which is a parameter.
\<close>


section \<open>Definitions\<close>

type_synonym header = "(string \<times> string list) list"

definition header_get :: "header \<Rightarrow> string \<Rightarrow> string list" where
  "header_get h name = (case map_of h name of Some vs \<Rightarrow> vs | None \<Rightarrow> [])"

subsection \<open>net/http and strings\<close>

definition lower_byte :: "char \<Rightarrow> bool" where "lower_byte c \<longleftrightarrow> between 97 122 c"
definition upper_byte :: "char \<Rightarrow> bool" where "upper_byte c \<longleftrightarrow> between 65 90 c"

definition token_byte :: "char \<Rightarrow> bool" where
  "token_byte c \<longleftrightarrow> lower_byte c \<or> upper_byte c \<or> is_digit c \<or> c \<in> set ''!#$%&'' \<or> byte c = 39 \<or> c \<in> set ''*+-.^_`|~''"

definition canon_byte :: "bool \<Rightarrow> char \<Rightarrow> char" where
  "canon_byte first c = (if first \<and> lower_byte c then char_of (byte c - 32) else if \<not> first \<and> upper_byte c then char_of (byte c + 32) else c)"

fun canon :: "bool \<Rightarrow> string \<Rightarrow> string" where
  "canon first [] = []"
| "canon first (c # cs) = canon_byte first c # canon (canon_byte first c = CHR ''-'') cs"

definition CanonicalHeaderKey :: "string \<Rightarrow> string" where
  "CanonicalHeaderKey s = (if list_all token_byte s then canon True s else s)"

fun split_comma :: "string \<Rightarrow> string list" where
  "split_comma [] = [[]]"
| "split_comma (c # cs) = (if c = CHR '','' then [] # split_comma cs
     else case split_comma cs of [] \<Rightarrow> [[c]] | w # ws \<Rightarrow> (c # w) # ws)"

subsection \<open>SanitizeUpstreamHeader\<close>

definition MaxUpstreamHeaders :: nat where "MaxUpstreamHeaders = 128"
definition MaxUpstreamHeaderValues :: nat where "MaxUpstreamHeaderValues = 16"
definition MaxUpstreamHeaderBytes :: nat where "MaxUpstreamHeaderBytes = 32768"
definition MaxUpstreamErrorBytes :: nat where "MaxUpstreamErrorBytes = 65536"

definition upstreamHeaderExcluded :: "string list" where
  "upstreamHeaderExcluded = [''Connection'', ''Keep-Alive'', ''Proxy-Authenticate'', ''Proxy-Authorization'', ''Proxy-Connection'',
     ''Te'', ''Trailer'', ''Transfer-Encoding'', ''Upgrade'', ''Content-Length'', ''Content-Encoding'', ''Content-Type'',
     ''Content-Range'', ''Set-Cookie'', ''Set-Cookie2'', ''Alt-Svc'', ''Strict-Transport-Security'', ''Date'', ''Server'',
     ''Via'', ''Vary'', ''Cache-Control'', ''Expires'', ''Etag'', ''Last-Modified'', ''Age'', ''Report-To'', ''Nel'',
     ''Content-Security-Policy'', ''Www-Authenticate'']"

definition upstreamHeaderName :: "string \<Rightarrow> bool" where
  "upstreamHeaderName name \<longleftrightarrow> name \<noteq> '''' \<and> length name \<le> 256 \<and> list_all token_byte name"

definition upstreamHeaderValue :: "string \<Rightarrow> bool" where
  "upstreamHeaderValue value \<longleftrightarrow> list_all (\<lambda>c. \<not> (byte c < 32 \<and> byte c \<noteq> 9 \<or> byte c = 127)) value"

definition hop_names :: "header \<Rightarrow> string list" where
  "hop_names h = concat (map (\<lambda>value. map (\<lambda>name. CanonicalHeaderKey (TrimSpace name)) (split_comma value)) (header_get h ''Connection''))"

definition dropped_name :: "string list \<Rightarrow> string \<Rightarrow> bool" where
  "dropped_name hop name \<longleftrightarrow> (let canonical = CanonicalHeaderKey name in
     canonical \<in> set upstreamHeaderExcluded \<or> canonical \<in> set hop \<or> prefix ''Access-Control-'' canonical \<or> \<not> upstreamHeaderName name)"

text \<open>The inner loop, over the values of one name; the state is the output and the bytes it holds.\<close>

fun keep_values :: "string \<Rightarrow> string list \<Rightarrow> header \<times> nat \<Rightarrow> header \<times> nat" where
  "keep_values canonical [] acc = acc"
| "keep_values canonical (v # vs) (out, used) =
     (if length (header_get out canonical) \<ge> MaxUpstreamHeaderValues \<or> \<not> upstreamHeaderValue v
         \<or> used + length canonical + length v > MaxUpstreamHeaderBytes
      then keep_values canonical vs (out, used)
      else keep_values canonical vs (AList.update canonical (header_get out canonical @ [v]) out, used + (length canonical + length v)))"

fun keep_names :: "string list \<Rightarrow> header \<Rightarrow> string list \<Rightarrow> header \<times> nat \<Rightarrow> header \<times> nat" where
  "keep_names hop h [] acc = acc"
| "keep_names hop h (name # names) (out, used) =
     (if dropped_name hop name then keep_names hop h names (out, used)
      else if length out \<ge> MaxUpstreamHeaders then (out, used)
      else keep_names hop h names (keep_values (CanonicalHeaderKey name) (header_get h name) (out, used)))"

definition SanitizeUpstreamHeader :: "header \<Rightarrow> header" where
  "SanitizeUpstreamHeader h = fst (keep_names (hop_names h) h (sort (map fst h)) ([], 0))"

subsection \<open>On the tunnel\<close>

record UpstreamResponse =
  ur_StatusCode :: int
  ur_Header :: header
  ur_Body :: string

type_synonym UpstreamHeaderPB = "string \<times> string list"

record UpstreamResponsePB =
  pu_StatusCode :: int
  pu_Headers :: "UpstreamHeaderPB list"
  pu_Body :: string

definition UpstreamHeaderToProto :: "header \<Rightarrow> UpstreamHeaderPB list" where
  "UpstreamHeaderToProto h0 = (let h = SanitizeUpstreamHeader h0 in map (\<lambda>name. (name, header_get h name)) (sort (map fst h)))"

definition UpstreamHeaderFromProto :: "UpstreamHeaderPB list \<Rightarrow> header" where
  "UpstreamHeaderFromProto pb = (if pb = [] then []
     else SanitizeUpstreamHeader (fold (\<lambda>(name, values) h. AList.update name (header_get h name @ values) h) pb []))"

text \<open>
  \<open>ValidUpstreamErrorBody\<close>: the decoder gives the document's type and that of its error, \<open>None\<close>
  where the document or the field is missing or of another type.
\<close>

type_synonym error_document = "string \<times> string option"

definition ValidUpstreamErrorBody :: "(string \<Rightarrow> error_document option) \<Rightarrow> string \<Rightarrow> bool" where
  "ValidUpstreamErrorBody decode body \<longleftrightarrow>
     \<not> (body = '''' \<or> length body > MaxUpstreamErrorBytes)
     \<and> (case decode body of None \<Rightarrow> False
        | Some (typ, errType) \<Rightarrow> typ = ''error'' \<and> (case errType of None \<Rightarrow> False | Some t \<Rightarrow> t \<noteq> ''''))"

definition UpstreamResponseToProto :: "(string \<Rightarrow> error_document option) \<Rightarrow> UpstreamResponse option \<Rightarrow> UpstreamResponsePB option" where
  "UpstreamResponseToProto decode u = (case u of None \<Rightarrow> None
     | Some r \<Rightarrow> if ur_StatusCode r < 100 \<or> ur_StatusCode r > 999 then None
         else Some \<lparr>pu_StatusCode = ur_StatusCode r, pu_Headers = UpstreamHeaderToProto (ur_Header r),
           pu_Body = (if ValidUpstreamErrorBody decode (ur_Body r) then ur_Body r else '''')\<rparr>)"

definition UpstreamResponseFromProto :: "(string \<Rightarrow> error_document option) \<Rightarrow> UpstreamResponsePB option \<Rightarrow> UpstreamResponse option" where
  "UpstreamResponseFromProto decode pb = (case pb of None \<Rightarrow> None
     | Some p \<Rightarrow> if pu_StatusCode p < 100 \<or> pu_StatusCode p > 999 then None
         else Some \<lparr>ur_StatusCode = pu_StatusCode p, ur_Header = UpstreamHeaderFromProto (pu_Headers p),
           ur_Body = (if ValidUpstreamErrorBody decode (pu_Body p) then pu_Body p else '''')\<rparr>)"

fun UpstreamErrorStatus :: "string \<Rightarrow> int" where
  "UpstreamErrorStatus errType =
     (if errType = ''invalid_request_error'' then 400 else if errType = ''authentication_error'' then 401
      else if errType = ''billing_error'' then 402 else if errType = ''permission_error'' then 403
      else if errType = ''not_found_error'' then 404 else if errType = ''request_too_large'' then 413
      else if errType = ''rate_limit_error'' then 429 else if errType = ''timeout_error'' then 504
      else if errType = ''overloaded_error'' then 529 else 500)"



section \<open>Lemmas\<close>

subsection \<open>Canonical names\<close>

lemma byte_shift:
  "lower_byte c \<Longrightarrow> byte (char_of (byte c - 32)) = byte c - 32" "upper_byte c \<Longrightarrow> byte (char_of (byte c + 32)) = byte c + 32"
  by (auto simp: lower_byte_def upper_byte_def between_def mod_less)

lemma canon_byte_facts:
  assumes "token_byte c"
  shows "token_byte (canon_byte first c) \<and> canon_byte first (canon_byte first c) = canon_byte first c"
proof -
  consider "first" "lower_byte c" | "\<not> first" "upper_byte c" | "canon_byte first c = c" by (metis canon_byte_def)
  then show ?thesis
  proof cases
    case 1
    then have "byte (canon_byte first c) = byte c - 32" "97 \<le> byte c" "byte c \<le> 122" using byte_shift(1) by (auto simp: canon_byte_def lower_byte_def between_def)
    then have "upper_byte (canon_byte first c)" "\<not> lower_byte (canon_byte first c)" by (auto simp: upper_byte_def lower_byte_def between_def)
    then show ?thesis using 1(1) by (metis canon_byte_def token_byte_def)
  next
    case 2
    then have "byte (canon_byte first c) = byte c + 32" "65 \<le> byte c" "byte c \<le> 90" using byte_shift(2) by (auto simp: canon_byte_def upper_byte_def between_def)
    then have "lower_byte (canon_byte first c)" "\<not> upper_byte (canon_byte first c)" by (auto simp: upper_byte_def lower_byte_def between_def)
    then show ?thesis using 2(1) by (metis canon_byte_def token_byte_def)
  next
    case 3
    then show ?thesis using assms by simp
  qed
qed

lemma length_canon [simp]: "length (canon first s) = length s"
  by (induction first s rule: canon.induct) simp_all

lemma canon_token: "list_all token_byte s \<Longrightarrow> list_all token_byte (canon first s)"
  by (induction first s rule: canon.induct) (simp_all add: canon_byte_facts)

lemma canon_idem: "list_all token_byte s \<Longrightarrow> canon first (canon first s) = canon first s"
  by (induction first s rule: canon.induct) (simp_all add: canon_byte_facts)

lemma length_CanonicalHeaderKey [simp]: "length (CanonicalHeaderKey s) = length s"
  by (simp add: CanonicalHeaderKey_def)

lemma CanonicalHeaderKey_idem: "CanonicalHeaderKey (CanonicalHeaderKey s) = CanonicalHeaderKey s"
  by (simp add: CanonicalHeaderKey_def canon_idem canon_token)

lemma upstreamHeaderName_canonical: "upstreamHeaderName (CanonicalHeaderKey s) = upstreamHeaderName s"
  by (auto simp: upstreamHeaderName_def CanonicalHeaderKey_def canon_token dest: arg_cong [of _ _ length])

subsection \<open>What is kept\<close>

definition passes_name :: "string \<Rightarrow> bool" where
  "passes_name n \<longleftrightarrow> CanonicalHeaderKey n = n \<and> upstreamHeaderName n \<and> n \<notin> set upstreamHeaderExcluded \<and> \<not> prefix ''Access-Control-'' n"

definition value_bytes :: "string \<Rightarrow> string list \<Rightarrow> nat" where
  "value_bytes n vs = sum_list (map (\<lambda>v. length n + length v) vs)"

definition header_bytes :: "header \<Rightarrow> nat" where
  "header_bytes h = sum_list (map (\<lambda>(n, vs). value_bytes n vs) h)"

definition clean_entry :: "string \<times> string list \<Rightarrow> bool" where
  "clean_entry e \<longleftrightarrow> (case e of (n, vs) \<Rightarrow> passes_name n \<and> vs \<noteq> [] \<and> length vs \<le> MaxUpstreamHeaderValues \<and> list_all upstreamHeaderValue vs)"

definition clean :: "header \<Rightarrow> bool" where
  "clean h \<longleftrightarrow> wf_map h \<and> length h \<le> MaxUpstreamHeaders \<and> header_bytes h \<le> MaxUpstreamHeaderBytes \<and> list_all clean_entry h"

lemma dropped_name_passes: "\<not> dropped_name hop n \<Longrightarrow> passes_name (CanonicalHeaderKey n) \<and> CanonicalHeaderKey n \<notin> set hop"
  by (simp add: dropped_name_def Let_def passes_name_def CanonicalHeaderKey_idem upstreamHeaderName_canonical)

lemma value_bytes_simps [simp]: "value_bytes n [] = 0" "value_bytes n (v # vs) = length n + length v + value_bytes n vs"
  "value_bytes n (vs @ ws) = value_bytes n vs + value_bytes n ws"
  by (simp_all add: value_bytes_def)

lemma header_bytes_simps [simp]: "header_bytes [] = 0" "header_bytes ((n, vs) # h) = value_bytes n vs + header_bytes h"
  "header_bytes (h @ g) = header_bytes h + header_bytes g"
  by (simp_all add: header_bytes_def)

lemma header_get_simps [simp]: "header_get [] n = []" "header_get ((m, vs) # h) n = (if m = n then vs else header_get h n)"
  by (simp_all add: header_get_def)

lemma header_bytes_update:
  "wf_map h \<Longrightarrow> header_bytes (AList.update n (header_get h n @ [v]) h) = header_bytes h + length n + length v"
proof (induction h)
  case (Cons e h)
  then show ?case by (cases e) (auto simp: wf_map_def)
qed simp

lemma length_update: "length (AList.update n v h) = (if n \<in> fst ` set h then length h else Suc (length h))"
  by (induction h) auto

lemma list_all_update:
  assumes "list_all P h" and "P (n, v)"
  shows "list_all P (AList.update n v h)"
  using assms by (induction h) auto

lemma clean_entry_get: "wf_map h \<Longrightarrow> list_all clean_entry h \<Longrightarrow> list_all upstreamHeaderValue (header_get h n)"
  by (induction h) (auto simp: clean_entry_def wf_map_def)

definition holds :: "header \<times> nat \<Rightarrow> bool" where
  "holds acc \<longleftrightarrow> clean (fst acc) \<and> snd acc = header_bytes (fst acc)"

lemma keep_values_holds:
  assumes "holds acc" and "passes_name n" and "n \<in> fst ` set (fst acc) \<or> length (fst acc) < MaxUpstreamHeaders"
  shows "holds (keep_values n vs acc)"
  using assms
proof (induction n vs acc rule: keep_values.induct)
  case (2 n v vs out used)
  show ?case
  proof (cases "length (header_get out n) \<ge> MaxUpstreamHeaderValues \<or> \<not> upstreamHeaderValue v \<or> used + length n + length v > MaxUpstreamHeaderBytes")
    case True
    then show ?thesis using 2 by simp
  next
    case False
    let ?out = "AList.update n (header_get out n @ [v]) out"
    have out: "wf_map out" "length out \<le> MaxUpstreamHeaders" "list_all clean_entry out" "used = header_bytes out"
      using "2.prems"(1) by (auto simp: holds_def clean_def)
    have "list_all clean_entry ?out"
      by (rule list_all_update) (use out clean_entry_get False "2.prems"(2) in \<open>auto simp: clean_entry_def\<close>)
    moreover have "length ?out \<le> MaxUpstreamHeaders" using out(2) "2.prems"(3) by (auto simp: length_update)
    ultimately have "holds (?out, used + (length n + length v))"
      using out False by (simp add: holds_def clean_def header_bytes_update)
    moreover have "n \<in> fst ` set ?out" by (simp add: dom_update flip: dom_map_of_conv_image_fst)
    ultimately show ?thesis using "2.IH"(2) [OF False] "2.prems"(2) False by simp
  qed
qed simp

lemma keep_names_holds: "holds acc \<Longrightarrow> holds (keep_names hop h names acc)"
proof (induction hop h names acc rule: keep_names.induct)
  case (2 hop h name names out used)
  then show ?case using keep_values_holds [of "(out, used)" "CanonicalHeaderKey name" "header_get h name"] dropped_name_passes [of hop name] by auto
qed simp

lemma Sanitize_clean: "clean (SanitizeUpstreamHeader h)"
  using keep_names_holds [of "([], 0)"] by (simp add: SanitizeUpstreamHeader_def holds_def clean_def wf_map_def)


subsection \<open>A clean header is left alone\<close>

lemma header_get_notin: "n \<notin> fst ` set h \<Longrightarrow> header_get h n = []"
  by (simp add: header_get_def flip: map_of_eq_None_iff)

lemma update_last: "n \<notin> fst ` set out \<Longrightarrow> AList.update n us (out @ [(n, vs)]) = out @ [(n, us)]"
  by (induction out) auto

lemma header_get_last: "n \<notin> fst ` set out \<Longrightarrow> header_get (out @ [(n, vs)]) n = vs"
  by (induction out) auto

lemma keep_values_last:
  assumes "n \<notin> fst ` set out" and "list_all upstreamHeaderValue vs" and "length us + length vs \<le> MaxUpstreamHeaderValues"
    and "used + value_bytes n vs \<le> MaxUpstreamHeaderBytes"
  shows "keep_values n vs (out @ [(n, us)], used) = (out @ [(n, us @ vs)], used + value_bytes n vs)"
  using assms by (induction vs arbitrary: us used) (simp_all add: header_get_last update_last)

lemma update_absent: "n \<notin> fst ` set out \<Longrightarrow> AList.update n vs out = out @ [(n, vs)]"
  by (induction out) auto

lemma keep_values_new:
  assumes "n \<notin> fst ` set out" and "clean_entry (n, vs)" and "used + value_bytes n vs \<le> MaxUpstreamHeaderBytes"
  shows "keep_values n vs (out, used) = (out @ [(n, vs)], used + value_bytes n vs)"
proof -
  from assms(2) obtain v ws where vs: "vs = v # ws" by (cases vs) (auto simp: clean_entry_def)
  then have "keep_values n ws (out @ [(n, [v])], used + (length n + length v)) = (out @ [(n, [v] @ ws)], used + (length n + length v) + value_bytes n ws)"
    using assms by (intro keep_values_last) (auto simp: clean_entry_def)
  then show ?thesis using assms vs by (simp add: clean_entry_def header_get_notin update_absent MaxUpstreamHeaderValues_def)
qed

definition entries_of :: "header \<Rightarrow> string list \<Rightarrow> header" where
  "entries_of h names = map (\<lambda>n. (n, header_get h n)) names"

lemma keep_names_clean:
  assumes "distinct names" and "\<forall>n \<in> set names. clean_entry (n, header_get h n) \<and> n \<notin> fst ` set out"
    and "length out + length names \<le> MaxUpstreamHeaders" and "used + header_bytes (entries_of h names) \<le> MaxUpstreamHeaderBytes"
  shows "fst (keep_names [] h names (out, used)) = out @ entries_of h names"
  using assms
proof (induction names arbitrary: out used)
  case (Cons n names)
  have n: "clean_entry (n, header_get h n)" "n \<notin> fst ` set out" using Cons.prems by auto
  then have "\<not> dropped_name [] n" "CanonicalHeaderKey n = n"
    by (auto simp: clean_entry_def passes_name_def dropped_name_def Let_def)
  moreover have "keep_values n (header_get h n) (out, used) = (out @ [(n, header_get h n)], used + value_bytes n (header_get h n))"
    using n Cons.prems(4) by (intro keep_values_new) (simp_all add: entries_of_def)
  moreover have "fst (keep_names [] h names (out @ [(n, header_get h n)], used + value_bytes n (header_get h n)))
      = (out @ [(n, header_get h n)]) @ entries_of h names"
    using Cons.prems by (intro Cons.IH) (auto simp: entries_of_def)
  ultimately show ?case using Cons.prems(3) by (simp add: entries_of_def)
qed (simp add: entries_of_def)

lemma header_get_entry: "wf_map h \<Longrightarrow> (n, vs) \<in> set h \<Longrightarrow> header_get h n = vs"
  by (simp add: header_get_def map_of_mem [THEN iffD2])

lemma entries_of_self: "wf_map h \<Longrightarrow> entries_of h (map fst h) = h"
  by (auto simp: entries_of_def header_get_entry intro!: map_idI)

lemma header_bytes_mset: "mset h = mset g \<Longrightarrow> header_bytes h = header_bytes g"
  by (simp add: header_bytes_def flip: sum_mset_sum_list)

lemma mset_entries_sort: "mset (entries_of h (sort names)) = mset (entries_of h names)"
  by (simp add: entries_of_def)

lemma connection_excluded: "''Connection'' \<in> set upstreamHeaderExcluded"
  by (simp add: upstreamHeaderExcluded_def)

lemma clean_not_excluded: "clean h \<Longrightarrow> n \<in> set upstreamHeaderExcluded \<Longrightarrow> n \<notin> fst ` set h"
  by (auto simp: clean_def list_all_iff clean_entry_def passes_name_def)

lemma Sanitize_stable:
  assumes "clean h"
  shows "SanitizeUpstreamHeader h = entries_of h (sort (map fst h))"
proof -
  have wf: "wf_map h" and entries: "list_all clean_entry h" using assms by (simp_all add: clean_def)
  have "''Connection'' \<notin> fst ` set h"
    by (rule clean_not_excluded [OF assms connection_excluded])
  then have "hop_names h = []" by (simp add: hop_names_def header_get_notin)
  moreover have "mset (entries_of h (sort (map fst h))) = mset h"
    by (simp only: mset_entries_sort entries_of_self [OF wf])
  from header_bytes_mset [OF this] have "header_bytes (entries_of h (sort (map fst h))) \<le> MaxUpstreamHeaderBytes"
    using assms by (simp only: clean_def)
  moreover have "\<forall>n \<in> set (sort (map fst h)). clean_entry (n, header_get h n)"
    using entries wf by (auto simp: list_all_iff header_get_entry)
  ultimately show ?thesis
    using keep_names_clean [of "sort (map fst h)" h "[]" 0] assms wf
    by (simp add: SanitizeUpstreamHeader_def clean_def wf_map_def)
qed

lemma map_of_entries_of: "map_of (entries_of h names) n = (if n \<in> set names then Some (header_get h n) else None)"
  by (induction names) (auto simp: entries_of_def)

lemma map_of_entries_sorted: "wf_map h \<Longrightarrow> map_of (entries_of h (sort (map fst h))) = map_of h"
proof (rule ext)
  fix n
  assume "wf_map h"
  show "map_of (entries_of h (sort (map fst h))) n = map_of h n"
    by (cases "map_of h n") (auto simp: map_of_entries_of header_get_def domIff simp flip: dom_map_of_conv_image_fst)
qed

lemma Sanitize_idem: "map_of (SanitizeUpstreamHeader (SanitizeUpstreamHeader h)) = map_of (SanitizeUpstreamHeader h)"
  using Sanitize_stable [OF Sanitize_clean] map_of_entries_sorted Sanitize_clean by (auto simp: clean_def)

subsection \<open>Nothing is made up\<close>

definition drawn :: "string list \<Rightarrow> header \<Rightarrow> header \<Rightarrow> bool" where
  "drawn hop h out \<longleftrightarrow> (\<forall>(n, vs) \<in> set out. n \<notin> set hop \<and> (\<forall>v \<in> set vs. \<exists>raw ws. (raw, ws) \<in> set h \<and> CanonicalHeaderKey raw = n \<and> v \<in> set ws))"

lemma header_get_mem: "v \<in> set (header_get h n) \<Longrightarrow> \<exists>vs. (n, vs) \<in> set h \<and> v \<in> set vs"
  by (cases "map_of h n") (auto simp: header_get_def dest: map_of_SomeD)

lemma drawn_get: "drawn hop h out \<Longrightarrow> v \<in> set (header_get out n) \<Longrightarrow> \<exists>raw ws. (raw, ws) \<in> set h \<and> CanonicalHeaderKey raw = n \<and> v \<in> set ws"
  using header_get_mem [of v out n] by (fastforce simp: drawn_def)
lemma drawn_update:
  assumes "drawn hop h out" and "n \<notin> set hop" and "\<And>v. v \<in> set vs \<Longrightarrow> \<exists>raw ws. (raw, ws) \<in> set h \<and> CanonicalHeaderKey raw = n \<and> v \<in> set ws"
  shows "drawn hop h (AList.update n vs out)"
  using assms by (induction out) (auto simp: drawn_def)

lemma keep_values_drawn:
  assumes "drawn hop h (fst acc)" and "n \<notin> set hop" and "\<And>v. v \<in> set vs \<Longrightarrow> \<exists>raw ws. (raw, ws) \<in> set h \<and> CanonicalHeaderKey raw = n \<and> v \<in> set ws"
  shows "drawn hop h (fst (keep_values n vs acc))"
  using assms
proof (induction n vs acc rule: keep_values.induct)
  case (2 n v vs out used)
  have "drawn hop h (AList.update n (header_get out n @ [v]) out)"
    by (rule drawn_update) (use "2.prems" drawn_get [of hop h out _ n] in auto)
  then show ?case using 2 by auto
qed simp


lemma keep_names_drawn: "drawn hop h (fst acc) \<Longrightarrow> drawn hop h (fst (keep_names hop h names acc))"
proof (induction hop h names acc rule: keep_names.induct)
  case (2 hop h name names out used)
  have "\<exists>raw ws. (raw, ws) \<in> set h \<and> CanonicalHeaderKey raw = CanonicalHeaderKey name \<and> v \<in> set ws" if "v \<in> set (header_get h name)" for v
    using header_get_mem [OF that] by blast
  then have "\<not> dropped_name hop name \<Longrightarrow> drawn hop h (fst (keep_values (CanonicalHeaderKey name) (header_get h name) (out, used)))"
    using 2(3) dropped_name_passes [of hop name] by (intro keep_values_drawn) auto
  then show ?case using 2 by auto
qed simp

lemma Sanitize_drawn: "drawn (hop_names h) h (SanitizeUpstreamHeader h)"
  unfolding SanitizeUpstreamHeader_def by (rule keep_names_drawn) (simp add: drawn_def)

subsection \<open>Through the tunnel\<close>

lemma clean_entries_of: "clean h \<Longrightarrow> clean (entries_of h (sort (map fst h)))"
proof -
  assume h: "clean h"
  then have wf: "wf_map h" by (simp add: clean_def)
  have perm: "mset (entries_of h (sort (map fst h))) = mset h" by (simp only: mset_entries_sort entries_of_self [OF wf])
  have "wf_map (entries_of h (sort (map fst h)))" using wf by (simp add: wf_map_def entries_of_def comp_def)
  then show ?thesis
    using h header_bytes_mset [OF perm] mset_eq_length [OF perm] mset_eq_setD [OF perm] by (simp add: clean_def list_all_iff)
qed

lemma collect_headers:
  "distinct (map fst (out @ pb)) \<Longrightarrow> fold (\<lambda>(name, values) h. AList.update name (header_get h name @ values) h) pb out = out @ pb"
proof (induction pb arbitrary: out)
  case (Cons e pb)
  obtain n vs where e: "e = (n, vs)" by (cases e)
  have "n \<notin> fst ` set out" using Cons.prems e by auto
  then show ?case using Cons.IH [of "out @ [(n, vs)]"] Cons.prems e by (simp add: update_absent header_get_notin)
qed simp

lemma UpstreamHeader_roundtrip:
  "map_of (UpstreamHeaderFromProto (UpstreamHeaderToProto h)) = map_of (SanitizeUpstreamHeader h)"
proof -
  define g where "g = SanitizeUpstreamHeader h"
  let ?pb = "entries_of g (sort (map fst g))"
  have g: "clean g" "clean ?pb" by (simp_all add: g_def Sanitize_clean clean_entries_of)
  have to: "UpstreamHeaderToProto h = ?pb" by (simp add: UpstreamHeaderToProto_def Let_def g_def entries_of_def)
  have "fold (\<lambda>(name, values) h. AList.update name (header_get h name @ values) h) ?pb [] = ?pb"
    using collect_headers [of "[]" ?pb] g(2) by (simp add: clean_def wf_map_def)
  then have "map_of (UpstreamHeaderFromProto ?pb) = map_of ?pb"
    using Sanitize_stable [OF g(2)] map_of_entries_sorted [of ?pb] g(2) by (simp add: UpstreamHeaderFromProto_def clean_def)
  then show ?thesis using map_of_entries_sorted [of g] g(1) by (simp add: to g_def clean_def)
qed


section \<open>Properties\<close>

text \<open>
  What is kept of an upstream's response headers: at most 128 names and 32768 bytes; every name is in
  canonical form, a well-formed token, not one of the excluded or hop-by-hop headers and not a CORS header;
  it has between one and sixteen values, all of them taken from the response under that name and none with
  a control character, so no line break can reach a client.
\<close>

theorem upstream_header_safe:
  "wf_map (SanitizeUpstreamHeader h) \<and> length (SanitizeUpstreamHeader h) \<le> 128 \<and> header_bytes (SanitizeUpstreamHeader h) \<le> 32768
   \<and> (\<forall>(n, vs) \<in> set (SanitizeUpstreamHeader h).
        CanonicalHeaderKey n = n \<and> n \<noteq> '''' \<and> length n \<le> 256 \<and> list_all token_byte n
        \<and> n \<notin> set upstreamHeaderExcluded \<and> n \<notin> set (hop_names h) \<and> \<not> prefix ''Access-Control-'' n
        \<and> vs \<noteq> [] \<and> length vs \<le> 16
        \<and> (\<forall>v \<in> set vs. (\<forall>c \<in> set v. byte c \<noteq> 10 \<and> byte c \<noteq> 13 \<and> byte c \<noteq> 127)
             \<and> (\<exists>raw ws. (raw, ws) \<in> set h \<and> CanonicalHeaderKey raw = n \<and> v \<in> set ws)))"
proof -
  have "CanonicalHeaderKey n = n \<and> n \<noteq> '''' \<and> length n \<le> 256 \<and> list_all token_byte n
        \<and> n \<notin> set upstreamHeaderExcluded \<and> n \<notin> set (hop_names h) \<and> \<not> prefix ''Access-Control-'' n
        \<and> vs \<noteq> [] \<and> length vs \<le> 16
        \<and> (\<forall>v \<in> set vs. (\<forall>c \<in> set v. byte c \<noteq> 10 \<and> byte c \<noteq> 13 \<and> byte c \<noteq> 127)
             \<and> (\<exists>raw ws. (raw, ws) \<in> set h \<and> CanonicalHeaderKey raw = n \<and> v \<in> set ws))"
    if e: "(n, vs) \<in> set (SanitizeUpstreamHeader h)" for n vs
  proof -
    have "clean_entry (n, vs)" using Sanitize_clean [of h] e by (auto simp: clean_def list_all_iff)
    moreover have "n \<notin> set (hop_names h) \<and> (\<forall>v \<in> set vs. \<exists>raw ws. (raw, ws) \<in> set h \<and> CanonicalHeaderKey raw = n \<and> v \<in> set ws)"
      using Sanitize_drawn [of h] e by (auto simp: drawn_def)
    moreover have "byte c \<noteq> 10 \<and> byte c \<noteq> 13 \<and> byte c \<noteq> 127" if "upstreamHeaderValue v" "c \<in> set v" for v c
      using that by (fastforce simp: upstreamHeaderValue_def list_all_iff)
    ultimately show ?thesis
      by (simp add: clean_entry_def passes_name_def upstreamHeaderName_def MaxUpstreamHeaderValues_def list_all_iff) blast
  qed
  then show ?thesis
    using Sanitize_clean [of h] by (auto simp: clean_def MaxUpstreamHeaders_def MaxUpstreamHeaderBytes_def)
qed

text \<open>
  A later hop takes nothing away: sanitizing again, and sending the headers through the tunnel, leave
  exactly the headers the first hop kept. The status and the body of a captured response come through
  unchanged as well when the first hop accepted them.
\<close>

theorem upstream_response_roundtrip:
  "map_of (SanitizeUpstreamHeader (SanitizeUpstreamHeader h)) = map_of (SanitizeUpstreamHeader h)
   \<and> map_of (UpstreamHeaderFromProto (UpstreamHeaderToProto h)) = map_of (SanitizeUpstreamHeader h)
   \<and> (case UpstreamResponseFromProto decode (UpstreamResponseToProto decode (Some u)) of
        None \<Rightarrow> ur_StatusCode u < 100 \<or> ur_StatusCode u > 999
      | Some u' \<Rightarrow> ur_StatusCode u' = ur_StatusCode u \<and> map_of (ur_Header u') = map_of (SanitizeUpstreamHeader (ur_Header u))
          \<and> ur_Body u' = (if ValidUpstreamErrorBody decode (ur_Body u) then ur_Body u else ''''))"
  using Sanitize_idem UpstreamHeader_roundtrip
  by (simp add: UpstreamResponseToProto_def UpstreamResponseFromProto_def ValidUpstreamErrorBody_def)

subsection \<open>Witnesses\<close>

definition header_a :: header where
  "header_a = [(''X-A'', [''2''])]"

lemma canonical_a: "CanonicalHeaderKey ''X-A'' = ''X-A''" "upstreamHeaderName ''X-A''" "upstreamHeaderValue ''2''"
  by (simp_all add: CanonicalHeaderKey_def canon_byte_def lower_byte_def upper_byte_def between_def token_byte_def is_digit_def
      upstreamHeaderName_def upstreamHeaderValue_def)

lemma clean_a: "clean header_a"
proof -
  have "''X-A'' \<notin> set upstreamHeaderExcluded" "\<not> prefix ''Access-Control-'' ''X-A''"
    by (simp_all add: upstreamHeaderExcluded_def)
  then show ?thesis using canonical_a
    by (simp add: clean_def header_a_def wf_map_def clean_entry_def passes_name_def MaxUpstreamHeaders_def MaxUpstreamHeaderBytes_def
        MaxUpstreamHeaderValues_def)
qed

lemma sanitize_a: "SanitizeUpstreamHeader header_a = header_a"
  using Sanitize_stable [OF clean_a] by (simp add: header_a_def entries_of_def)

theorem upstream_header_safe_witness:
  "\<exists>n vs. (n, vs) \<in> set (SanitizeUpstreamHeader header_a) \<and> CanonicalHeaderKey n = n \<and> n \<notin> set upstreamHeaderExcluded \<and> n \<notin> set (hop_names header_a)"
proof -
  have e: "(''X-A'', [''2'']) \<in> set (SanitizeUpstreamHeader header_a)" unfolding sanitize_a by (simp add: header_a_def)
  have "\<forall>(n, vs) \<in> set (SanitizeUpstreamHeader header_a). CanonicalHeaderKey n = n \<and> n \<notin> set upstreamHeaderExcluded \<and> n \<notin> set (hop_names header_a)"
    using upstream_header_safe [of header_a] by fast
  with e show ?thesis by fast
qed

end
