(* ===== verification/TunnelWire.thy ===== *)
theory TunnelWire
  imports Upstream
begin

text \<open>
  \<open>common/tunnelwire/wire.go\<close>: the codec between the Go types of \<open>common/runtime\<close> and the messages
  of the tunnel. Both ends of the tunnel use it, so what matters is that a value decodes to what was
  encoded.

  A pointer is an option, a slice a list (a nil and an empty slice are not told apart by any of this code)
  and a map an association list. Raw JSON and byte slices are strings; floating-point numbers are their bit
  patterns, which nothing here looks into. \<open>int\<close> has 64 bits, so its conversions to and from
  \<open>int64\<close> change nothing; those to \<open>int32\<close> wrap.

  The protobuf runtime is a parameter: timestamps and durations through the record \<open>wellknown\<close>, encoding
  through a pair of functions. What is relied on is that they invert each other.
\<close>


section \<open>Definitions\<close>

subsection \<open>Operations and their payloads\<close>

datatype Operation = OPERATION_UNSPECIFIED | OPERATION_LIST_MODELS | OPERATION_CHAT | OPERATION_CHAT_STREAM
  | OPERATION_EMBED | OPERATION_WORKFLOW_SUBMIT | OPERATION_WORKFLOW_SUBSCRIBE | OPERATION_WORKFLOW_STATUS
  | OPERATION_WORKFLOW_CANCEL | OPERATION_ARTIFACT_OPEN | OPERATION_ARTIFACT_LIST | OPERATION_INPUT_UPLOAD
  | OPERATION_AUDIO_TRANSCRIBE | OPERATION_RERANK | OPERATION_MESSAGES | OPERATION_IMAGE_GENERATE | Operation_other int

datatype PayloadKind = PayloadMessagesRequest | PayloadMessagesEvent | PayloadImageGenerateRequest | PayloadImageGenerateEvent
  | PayloadNone | PayloadChatRequest | PayloadChatResponse | PayloadChatEvent | PayloadEmbeddingRequest
  | PayloadEmbeddingResponse | PayloadModelList | PayloadWorkflowRequest | PayloadWorkflowRun | PayloadWorkflowEvent
  | PayloadWorkflowStatus | PayloadRunRef | PayloadArtifactRef | PayloadArtifactBytes | PayloadArtifactList
  | PayloadInputUploadRequest | PayloadInputUploadResult | PayloadAudioTranscriptionRequest
  | PayloadAudioTranscriptionResponse | PayloadRerankRequest | PayloadRerankResponse

datatype ResponseShape = ShapeNone | ShapeSingle | ShapeStream | ShapeBody

record OperationSpec =
  os_Operation :: Operation
  os_Request :: PayloadKind
  os_Response :: PayloadKind
  os_Shape :: ResponseShape
  os_RequestBody :: bool

definition spec :: "Operation \<Rightarrow> PayloadKind \<Rightarrow> PayloadKind \<Rightarrow> ResponseShape \<Rightarrow> bool \<Rightarrow> OperationSpec" where
  "spec op req resp shape body = \<lparr>os_Operation = op, os_Request = req, os_Response = resp, os_Shape = shape, os_RequestBody = body\<rparr>"

fun operationSpecs :: "Operation \<Rightarrow> OperationSpec option" where
  "operationSpecs OPERATION_LIST_MODELS = Some (spec OPERATION_LIST_MODELS PayloadNone PayloadModelList ShapeSingle False)"
| "operationSpecs OPERATION_CHAT = Some (spec OPERATION_CHAT PayloadChatRequest PayloadChatResponse ShapeSingle False)"
| "operationSpecs OPERATION_CHAT_STREAM = Some (spec OPERATION_CHAT_STREAM PayloadChatRequest PayloadChatEvent ShapeStream False)"
| "operationSpecs OPERATION_MESSAGES = Some (spec OPERATION_MESSAGES PayloadMessagesRequest PayloadMessagesEvent ShapeStream False)"
| "operationSpecs OPERATION_IMAGE_GENERATE = Some (spec OPERATION_IMAGE_GENERATE PayloadImageGenerateRequest PayloadImageGenerateEvent ShapeStream False)"
| "operationSpecs OPERATION_EMBED = Some (spec OPERATION_EMBED PayloadEmbeddingRequest PayloadEmbeddingResponse ShapeSingle False)"
| "operationSpecs OPERATION_WORKFLOW_SUBMIT = Some (spec OPERATION_WORKFLOW_SUBMIT PayloadWorkflowRequest PayloadWorkflowRun ShapeSingle True)"
| "operationSpecs OPERATION_WORKFLOW_SUBSCRIBE = Some (spec OPERATION_WORKFLOW_SUBSCRIBE PayloadRunRef PayloadWorkflowEvent ShapeStream False)"
| "operationSpecs OPERATION_WORKFLOW_STATUS = Some (spec OPERATION_WORKFLOW_STATUS PayloadRunRef PayloadWorkflowStatus ShapeSingle False)"
| "operationSpecs OPERATION_WORKFLOW_CANCEL = Some (spec OPERATION_WORKFLOW_CANCEL PayloadRunRef PayloadNone ShapeNone False)"
| "operationSpecs OPERATION_ARTIFACT_OPEN = Some (spec OPERATION_ARTIFACT_OPEN PayloadArtifactRef PayloadArtifactBytes ShapeBody False)"
| "operationSpecs OPERATION_ARTIFACT_LIST = Some (spec OPERATION_ARTIFACT_LIST PayloadRunRef PayloadArtifactList ShapeSingle False)"
| "operationSpecs OPERATION_INPUT_UPLOAD = Some (spec OPERATION_INPUT_UPLOAD PayloadInputUploadRequest PayloadInputUploadResult ShapeSingle True)"
| "operationSpecs OPERATION_AUDIO_TRANSCRIBE = Some (spec OPERATION_AUDIO_TRANSCRIBE PayloadAudioTranscriptionRequest PayloadAudioTranscriptionResponse ShapeSingle True)"
| "operationSpecs OPERATION_RERANK = Some (spec OPERATION_RERANK PayloadRerankRequest PayloadRerankResponse ShapeSingle False)"
| "operationSpecs OPERATION_UNSPECIFIED = None"
| "operationSpecs (Operation_other n) = None"

definition convertOperation :: string where "convertOperation = ''tunnel_convert''"

fun OperationName :: "Operation \<Rightarrow> string" where
  "OperationName OPERATION_UNSPECIFIED = ''OPERATION_UNSPECIFIED''"
| "OperationName OPERATION_LIST_MODELS = ''OPERATION_LIST_MODELS''"
| "OperationName OPERATION_CHAT = ''OPERATION_CHAT''"
| "OperationName OPERATION_CHAT_STREAM = ''OPERATION_CHAT_STREAM''"
| "OperationName OPERATION_EMBED = ''OPERATION_EMBED''"
| "OperationName OPERATION_WORKFLOW_SUBMIT = ''OPERATION_WORKFLOW_SUBMIT''"
| "OperationName OPERATION_WORKFLOW_SUBSCRIBE = ''OPERATION_WORKFLOW_SUBSCRIBE''"
| "OperationName OPERATION_WORKFLOW_STATUS = ''OPERATION_WORKFLOW_STATUS''"
| "OperationName OPERATION_WORKFLOW_CANCEL = ''OPERATION_WORKFLOW_CANCEL''"
| "OperationName OPERATION_ARTIFACT_OPEN = ''OPERATION_ARTIFACT_OPEN''"
| "OperationName OPERATION_ARTIFACT_LIST = ''OPERATION_ARTIFACT_LIST''"
| "OperationName OPERATION_INPUT_UPLOAD = ''OPERATION_INPUT_UPLOAD''"
| "OperationName OPERATION_AUDIO_TRANSCRIBE = ''OPERATION_AUDIO_TRANSCRIBE''"
| "OperationName OPERATION_RERANK = ''OPERATION_RERANK''"
| "OperationName OPERATION_MESSAGES = ''OPERATION_MESSAGES''"
| "OperationName OPERATION_IMAGE_GENERATE = ''OPERATION_IMAGE_GENERATE''"
| "OperationName (Operation_other n) = itoa n"

definition SpecFor :: "Operation \<Rightarrow> runtime_error + OperationSpec" where
  "SpecFor op = (case operationSpecs op of
       Some sp \<Rightarrow> Inr sp
     | None \<Rightarrow> Inl ((zero_runtime_error ErrorProtocol)\<lparr>err_Operation := convertOperation,
         err_Message := ''unknown tunnel operation '' @ OperationName op\<rparr>))"


subsection \<open>Errors\<close>

record captured_error = runtime_error +
  err_Upstream :: "UpstreamResponse option"

text \<open>What \<open>errors.As\<close> and \<open>errors.Is\<close> can find in an error that is to cross the tunnel.\<close>

datatype wire_error = Runtime captured_error | BareCanceled | BareDeadlineExceeded | BareError string

record Duration =
  du_Seconds :: int
  du_Nanos :: int

record Timestamp =
  ts_Seconds :: int
  ts_Nanos :: int

record wellknown =
  dur_New :: "duration \<Rightarrow> Duration"
  AsDuration :: "Duration \<Rightarrow> duration"
  ts_New :: "go_time \<Rightarrow> Timestamp"
  AsTime :: "Timestamp \<Rightarrow> go_time"

definition wellknown_ok :: "wellknown \<Rightarrow> bool" where
  "wellknown_ok w \<longleftrightarrow> (\<forall>d. in_int64 d \<longrightarrow> AsDuration w (dur_New w d) = d) \<and> (\<forall>t. AsTime w (ts_New w t) = t)"

record TunnelError =
  te_Code :: error_code
  te_RuntimeId :: string
  te_Kind :: string
  te_Operation :: string
  te_StatusCode :: int
  te_Message :: string
  te_Retryable :: bool
  te_RetryAfter :: "Duration option"
  te_Cause :: string
  te_Upstream :: "UpstreamResponsePB option"

definition wrap32 :: "int \<Rightarrow> int" where
  "wrap32 i = (i + 2147483648) mod 4294967296 - 2147483648"

definition sentinelWireNames :: "(string \<times> sentinel) list" where
  "sentinelWireNames = [(''ErrFactoryAlreadyRegistered'', ErrFactoryAlreadyRegistered), (''ErrRuntimeKindUnsupported'', ErrRuntimeKindUnsupported),
     (''ErrRuntimeIDDuplicated'', ErrRuntimeIDDuplicated), (''ErrRuntimeNotFound'', ErrRuntimeNotFound),
     (''ErrCancelUnsupported'', ErrCancelUnsupported), (''ErrCapabilityUnknown'', ErrCapabilityUnknown),
     (''ErrCapabilityUnsupported'', ErrCapabilityUnsupported), (''ErrConcurrencyLimit'', ErrConcurrencyLimit),
     (''ErrRuntimeClosed'', ErrRuntimeClosed), (''ErrContextCanceled'', ContextCanceled),
     (''ErrContextDeadlineExceeded'', ContextDeadlineExceeded)]"

definition sentinelsByWireName :: "string \<Rightarrow> sentinel option" where
  "sentinelsByWireName = map_of sentinelWireNames"

definition sentinelWireName :: "sentinel option \<Rightarrow> string" where
  "sentinelWireName cause = (case cause of None \<Rightarrow> ''''
     | Some e \<Rightarrow> (case find (\<lambda>(name, err). err = e) sentinelWireNames of Some (name, _) \<Rightarrow> name | None \<Rightarrow> ''''))"

definition msgUnclassified :: string where "msgUnclassified = ''unclassified runtime error; see the Agent log for detail''"
definition msgDeadlineExceeded :: string where "msgDeadlineExceeded = ''request deadline exceeded''"
definition msgCanceled :: string where "msgCanceled = ''request cancelled''"

fun ClassifyBareError :: "wire_error \<Rightarrow> error_code \<times> string" where
  "ClassifyBareError BareDeadlineExceeded = (ErrorTimeout, msgDeadlineExceeded)"
| "ClassifyBareError BareCanceled = (ErrorConnection, msgCanceled)"
| "ClassifyBareError _ = (ErrorUpstream, msgUnclassified)"

fun bare_cause :: "wire_error \<Rightarrow> sentinel option" where
  "bare_cause BareCanceled = Some ContextCanceled"
| "bare_cause BareDeadlineExceeded = Some ContextDeadlineExceeded"
| "bare_cause (Runtime e) = err_Cause e"
| "bare_cause (BareError msg) = None"

definition retryAfterToProto :: "wellknown \<Rightarrow> duration \<Rightarrow> Duration option" where
  "retryAfterToProto w d = (if d \<le> 0 then None else Some (dur_New w d))"

definition durationToProto :: "wellknown \<Rightarrow> duration \<Rightarrow> Duration option" where
  "durationToProto w d = Some (dur_New w d)"

definition durationFromProto :: "wellknown \<Rightarrow> Duration option \<Rightarrow> duration" where
  "durationFromProto w pb = (case pb of None \<Rightarrow> 0 | Some d \<Rightarrow> AsDuration w d)"

fun ErrorToProto :: "wellknown \<Rightarrow> (string \<Rightarrow> error_document option) \<Rightarrow> wire_error option \<Rightarrow> TunnelError option" where
  "ErrorToProto w decode None = None"
| "ErrorToProto w decode (Some (Runtime re)) =
     Some \<lparr>te_Code = err_Code re, te_RuntimeId = err_RuntimeID re, te_Kind = err_Kind re, te_Operation = err_Operation re,
       te_StatusCode = wrap32 (err_StatusCode re), te_Message = err_Message re, te_Retryable = err_Retryable re,
       te_RetryAfter = retryAfterToProto w (err_RetryAfter re), te_Cause = sentinelWireName (err_Cause re),
       te_Upstream = UpstreamResponseToProto decode (err_Upstream re)\<rparr>"
| "ErrorToProto w decode (Some err) = (case ClassifyBareError err of (code, message) \<Rightarrow>
     Some \<lparr>te_Code = code, te_RuntimeId = '''', te_Kind = '''', te_Operation = '''', te_StatusCode = 0, te_Message = message,
       te_Retryable = False, te_RetryAfter = None, te_Cause = sentinelWireName (bare_cause err), te_Upstream = None\<rparr>)"

definition ErrorFromProto :: "wellknown \<Rightarrow> (string \<Rightarrow> error_document option) \<Rightarrow> TunnelError option \<Rightarrow> captured_error option" where
  "ErrorFromProto w decode pb = (case pb of None \<Rightarrow> None
     | Some e \<Rightarrow> Some \<lparr>err_Code = te_Code e, err_RuntimeID = te_RuntimeId e, err_Kind = te_Kind e, err_Operation = te_Operation e,
         err_StatusCode = te_StatusCode e, err_Message = te_Message e, err_Retryable = te_Retryable e,
         err_RetryAfter = max (durationFromProto w (te_RetryAfter e)) 0, err_Cause = sentinelsByWireName (te_Cause e),
         err_Upstream = UpstreamResponseFromProto decode (te_Upstream e)\<rparr>)"

datatype Result = ResultSuccess | ResultClientError | ResultUpstreamError | ResultTimeout | ResultCancelled | ResultBackpressure

fun code_result :: "error_code \<Rightarrow> bool \<Rightarrow> Result" where
  "code_result ErrorRateLimited canceled = ResultBackpressure"
| "code_result ErrorBackpressure canceled = ResultBackpressure"
| "code_result ErrorTimeout canceled = ResultTimeout"
| "code_result ErrorInvalidConfig canceled = ResultClientError"
| "code_result ErrorUnauthorized canceled = ResultClientError"
| "code_result ErrorCapability canceled = ResultClientError"
| "code_result ErrorProtocol canceled = ResultClientError"
| "code_result ErrorResponseTooLarge canceled = ResultClientError"
| "code_result ErrorCancelUnsupported canceled = ResultClientError"
| "code_result ErrorProbeMismatch canceled = ResultClientError"
| "code_result ErrorConnection canceled = (if canceled then ResultCancelled else ResultUpstreamError)"
| "code_result ErrorUpstream canceled = ResultUpstreamError"
| "code_result ErrorClosed canceled = ResultUpstreamError"

fun ResultFor :: "wire_error option \<Rightarrow> Result" where
  "ResultFor None = ResultSuccess"
| "ResultFor (Some (Runtime re)) = code_result (err_Code re) (err_Cause re = Some ContextCanceled)"
| "ResultFor (Some BareCanceled) = ResultCancelled"
| "ResultFor (Some err) = code_result (fst (ClassifyBareError err)) False"

end
