(* ===== verification/WireChat.thy ===== *)
theory WireChat
  imports TunnelWire "HOL-Library.Word"
begin

text \<open>
  \<open>common/tunnelwire/wire.go\<close>, continued: chat, embedding, reranking and model-list messages. Each Go type of
  \<open>common/runtime\<close> is a record, the message that carries it another, with \<open>PB\<close> after its name. A
  \<open>FromProto\<close> function takes an option where its argument may be nil; the elements of a repeated field
  never are. The loops over one repeated field are the function on one element, mapped.
\<close>


section \<open>Definitions\<close>

text \<open>Floating-point numbers are the bit patterns they travel as.\<close>

type_synonym float64 = "64 word"
type_synonym float32 = "32 word"

subsection \<open>Scalar helpers\<close>

text \<open>A Go getter on a message pointer: the zero value when the message is absent.\<close>

definition get_or :: "'v \<Rightarrow> ('m \<Rightarrow> 'v) \<Rightarrow> 'm option \<Rightarrow> 'v" where
  "get_or z get pb = (case pb of None \<Rightarrow> z | Some m \<Rightarrow> get m)"

definition intPtrToProto :: "int option \<Rightarrow> int option" where
  "intPtrToProto p = (case p of None \<Rightarrow> None | Some v \<Rightarrow> Some v)"

definition intPtrFromProto :: "int option \<Rightarrow> int option" where
  "intPtrFromProto p = (case p of None \<Rightarrow> None | Some v \<Rightarrow> Some v)"

definition rawToProto :: "string \<Rightarrow> string" where
  "rawToProto raw = (if length raw = 0 then [] else raw)"

definition rawFromProto :: "string \<Rightarrow> string" where
  "rawFromProto b = (if length b = 0 then [] else b)"

definition timeToProto :: "wellknown \<Rightarrow> go_time \<Rightarrow> Timestamp option" where
  "timeToProto wk t = (if t = 0 then None else Some (ts_New wk t))"

definition timeFromProto :: "wellknown \<Rightarrow> Timestamp option \<Rightarrow> go_time" where
  "timeFromProto wk pb = (case pb of None \<Rightarrow> 0 | Some ts \<Rightarrow> AsTime wk ts)"

definition timePtrToProto :: "wellknown \<Rightarrow> go_time option \<Rightarrow> Timestamp option" where
  "timePtrToProto wk t = (case t of None \<Rightarrow> None | Some v \<Rightarrow> Some (ts_New wk v))"

definition timePtrFromProto :: "wellknown \<Rightarrow> Timestamp option \<Rightarrow> go_time option" where
  "timePtrFromProto wk pb = (case pb of None \<Rightarrow> None | Some ts \<Rightarrow> Some (AsTime wk ts))"


subsection \<open>Chat\<close>

record ReasoningConfig =
  rc_Enabled :: bool
  rc_Effort :: string
  rc_BudgetTokens :: int

record ReasoningConfigPB =
  rcp_Enabled :: bool
  rcp_Effort :: string
  rcp_BudgetTokens :: int

definition reasoningConfigToProto :: "ReasoningConfig option \<Rightarrow> ReasoningConfigPB option" where
  "reasoningConfigToProto r = (case r of None \<Rightarrow> None
     | Some x \<Rightarrow> Some \<lparr>rcp_Enabled = rc_Enabled x, rcp_Effort = rc_Effort x, rcp_BudgetTokens = rc_BudgetTokens x\<rparr>)"

definition reasoningConfigFromProto :: "ReasoningConfigPB option \<Rightarrow> ReasoningConfig option" where
  "reasoningConfigFromProto pb = (case pb of None \<Rightarrow> None
     | Some p \<Rightarrow> Some \<lparr>rc_Enabled = rcp_Enabled p, rc_Effort = rcp_Effort p, rc_BudgetTokens = rcp_BudgetTokens p\<rparr>)"

record ReasoningBlock =
  rb_Type :: string
  rb_Thinking :: string
  rb_Signature :: string
  rb_Data :: string

record ReasoningBlockPB =
  rbp_Type :: string
  rbp_Thinking :: string
  rbp_Signature :: string
  rbp_Data :: string

definition reasoningBlockToProto :: "ReasoningBlock \<Rightarrow> ReasoningBlockPB" where
  "reasoningBlockToProto x =
    \<lparr>rbp_Type = rb_Type x, rbp_Thinking = rb_Thinking x, rbp_Signature = rb_Signature x, rbp_Data = rb_Data x\<rparr>"

definition reasoningBlockFromProto :: "ReasoningBlockPB \<Rightarrow> ReasoningBlock" where
  "reasoningBlockFromProto p =
    \<lparr>rb_Type = rbp_Type p, rb_Thinking = rbp_Thinking p, rb_Signature = rbp_Signature p, rb_Data = rbp_Data p\<rparr>"

definition reasoningBlocksToProto :: "ReasoningBlock list \<Rightarrow> ReasoningBlockPB list" where
  "reasoningBlocksToProto = map reasoningBlockToProto"

definition reasoningBlocksFromProto :: "ReasoningBlockPB list \<Rightarrow> ReasoningBlock list" where
  "reasoningBlocksFromProto = map reasoningBlockFromProto"

record ContentImageURL =
  ci_URL :: string
  ci_Detail :: string

record ContentImageURLPB =
  cip_URL :: string
  cip_Detail :: string

record ContentAudio =
  ca_Data :: string
  ca_Format :: string

record ContentAudioPB =
  cap_Data :: string
  cap_Format :: string

record ContentFile =
  cf_URL :: string
  cf_Filename :: string

record ContentFilePB =
  cfp_URL :: string
  cfp_Filename :: string

record ContentPart =
  cp_Type :: string
  cp_Text :: string
  cp_ImageURL :: "ContentImageURL option"
  cp_Audio :: "ContentAudio option"
  cp_File :: "ContentFile option"

record ContentPartPB =
  cpp_Type :: string
  cpp_Text :: string
  cpp_ImageUrl :: "ContentImageURLPB option"
  cpp_InputAudio :: "ContentAudioPB option"
  cpp_File :: "ContentFilePB option"

definition contentPartToProto :: "ContentPart \<Rightarrow> ContentPartPB" where
  "contentPartToProto x =
    \<lparr>cpp_Type = cp_Type x, cpp_Text = cp_Text x,
     cpp_ImageUrl = map_option (\<lambda>v. \<lparr>cip_URL = ci_URL v, cip_Detail = ci_Detail v\<rparr>) (cp_ImageURL x),
     cpp_InputAudio = map_option (\<lambda>v. \<lparr>cap_Data = ca_Data v, cap_Format = ca_Format v\<rparr>) (cp_Audio x),
     cpp_File = map_option (\<lambda>v. \<lparr>cfp_URL = cf_URL v, cfp_Filename = cf_Filename v\<rparr>) (cp_File x)\<rparr>"

definition contentPartFromProto :: "ContentPartPB \<Rightarrow> ContentPart" where
  "contentPartFromProto p =
    \<lparr>cp_Type = cpp_Type p, cp_Text = cpp_Text p,
     cp_ImageURL = map_option (\<lambda>v. \<lparr>ci_URL = cip_URL v, ci_Detail = cip_Detail v\<rparr>) (cpp_ImageUrl p),
     cp_Audio = map_option (\<lambda>v. \<lparr>ca_Data = cap_Data v, ca_Format = cap_Format v\<rparr>) (cpp_InputAudio p),
     cp_File = map_option (\<lambda>v. \<lparr>cf_URL = cfp_URL v, cf_Filename = cfp_Filename v\<rparr>) (cpp_File p)\<rparr>"

definition contentPartsToProto :: "ContentPart list \<Rightarrow> ContentPartPB list" where
  "contentPartsToProto = map contentPartToProto"

definition contentPartsFromProto :: "ContentPartPB list \<Rightarrow> ContentPart list" where
  "contentPartsFromProto = map contentPartFromProto"

record FunctionCall =
  fc_Name :: string
  fc_Arguments :: string

record FunctionCallPB =
  fcp_Name :: string
  fcp_Arguments :: string

record ToolCall =
  tc_ID :: string
  tc_Type :: string
  tc_Function :: FunctionCall

record ToolCallPB =
  tcp_ID :: string
  tcp_Type :: string
  tcp_Function :: "FunctionCallPB option"

definition toolCallToProto :: "ToolCall \<Rightarrow> ToolCallPB" where
  "toolCallToProto x =
    \<lparr>tcp_ID = tc_ID x, tcp_Type = tc_Type x,
     tcp_Function = Some \<lparr>fcp_Name = fc_Name (tc_Function x), fcp_Arguments = fc_Arguments (tc_Function x)\<rparr>\<rparr>"

definition toolCallFromProto :: "ToolCallPB \<Rightarrow> ToolCall" where
  "toolCallFromProto p =
    \<lparr>tc_ID = tcp_ID p, tc_Type = tcp_Type p,
     tc_Function = \<lparr>fc_Name = get_or '''' fcp_Name (tcp_Function p), fc_Arguments = get_or '''' fcp_Arguments (tcp_Function p)\<rparr>\<rparr>"

definition toolCallsToProto :: "ToolCall list \<Rightarrow> ToolCallPB list" where
  "toolCallsToProto = map toolCallToProto"

definition toolCallsFromProto :: "ToolCallPB list \<Rightarrow> ToolCall list" where
  "toolCallsFromProto = map toolCallFromProto"

record FunctionDefinition =
  fd_Name :: string
  fd_Description :: string
  fd_Parameters :: string

record FunctionDefinitionPB =
  fdp_Name :: string
  fdp_Description :: string
  fdp_Parameters :: string

record Tool =
  tl_Type :: string
  tl_Function :: FunctionDefinition

record ToolPB =
  tlp_Type :: string
  tlp_Function :: "FunctionDefinitionPB option"

definition toolToProto :: "Tool \<Rightarrow> ToolPB" where
  "toolToProto x =
    \<lparr>tlp_Type = tl_Type x,
     tlp_Function = Some \<lparr>fdp_Name = fd_Name (tl_Function x), fdp_Description = fd_Description (tl_Function x), fdp_Parameters = rawToProto (fd_Parameters (tl_Function x))\<rparr>\<rparr>"

definition toolFromProto :: "ToolPB \<Rightarrow> Tool" where
  "toolFromProto p =
    \<lparr>tl_Type = tlp_Type p,
     tl_Function = \<lparr>fd_Name = get_or '''' fdp_Name (tlp_Function p), fd_Description = get_or '''' fdp_Description (tlp_Function p), fd_Parameters = rawFromProto (get_or '''' fdp_Parameters (tlp_Function p))\<rparr>\<rparr>"

definition toolsToProto :: "Tool list \<Rightarrow> ToolPB list" where
  "toolsToProto = map toolToProto"

definition toolsFromProto :: "ToolPB list \<Rightarrow> Tool list" where
  "toolsFromProto = map toolFromProto"

record JSONSchemaFormat =
  js_Name :: string
  js_Strict :: bool
  js_Schema :: string

record JSONSchemaFormatPB =
  jsp_Name :: string
  jsp_Strict :: bool
  jsp_Schema :: string

record ResponseFormat =
  rf_Type :: string
  rf_JSONSchema :: "JSONSchemaFormat option"

record ResponseFormatPB =
  rfp_Type :: string
  rfp_JsonSchema :: "JSONSchemaFormatPB option"

definition responseFormatToProto :: "ResponseFormat option \<Rightarrow> ResponseFormatPB option" where
  "responseFormatToProto r = (case r of None \<Rightarrow> None
     | Some x \<Rightarrow> Some \<lparr>rfp_Type = rf_Type x,
     rfp_JsonSchema = map_option (\<lambda>v. \<lparr>jsp_Name = js_Name v, jsp_Strict = js_Strict v, jsp_Schema = rawToProto (js_Schema v)\<rparr>) (rf_JSONSchema x)\<rparr>)"

definition responseFormatFromProto :: "ResponseFormatPB option \<Rightarrow> ResponseFormat option" where
  "responseFormatFromProto pb = (case pb of None \<Rightarrow> None
     | Some p \<Rightarrow> Some \<lparr>rf_Type = rfp_Type p,
     rf_JSONSchema = map_option (\<lambda>v. \<lparr>js_Name = jsp_Name v, js_Strict = jsp_Strict v, js_Schema = rawFromProto (jsp_Schema v)\<rparr>) (rfp_JsonSchema p)\<rparr>)"

record ChatMessage =
  cm_Role :: string
  cm_Content :: string
  cm_ContentParts :: "ContentPart list"
  cm_Name :: string
  cm_ToolCallID :: string
  cm_ToolCalls :: "ToolCall list"
  cm_ReasoningContent :: string
  cm_ReasoningBlocks :: "ReasoningBlock list"

record ChatMessagePB =
  cmp_Role :: string
  cmp_Content :: string
  cmp_ContentParts :: "ContentPartPB list"
  cmp_Name :: string
  cmp_ToolCallID :: string
  cmp_ToolCalls :: "ToolCallPB list"
  cmp_ReasoningContent :: string
  cmp_ReasoningBlocks :: "ReasoningBlockPB list"

definition zero_ChatMessage :: ChatMessage where
  "zero_ChatMessage = \<lparr>cm_Role = '''', cm_Content = '''', cm_ContentParts = [], cm_Name = '''', cm_ToolCallID = '''', cm_ToolCalls = [],
     cm_ReasoningContent = '''', cm_ReasoningBlocks = []\<rparr>"

definition chatMessageToProto :: "ChatMessage \<Rightarrow> ChatMessagePB" where
  "chatMessageToProto x =
    \<lparr>cmp_Role = cm_Role x, cmp_Content = cm_Content x, cmp_ContentParts = contentPartsToProto (cm_ContentParts x),
     cmp_Name = cm_Name x, cmp_ToolCallID = cm_ToolCallID x, cmp_ToolCalls = toolCallsToProto (cm_ToolCalls x),
     cmp_ReasoningContent = cm_ReasoningContent x, cmp_ReasoningBlocks = reasoningBlocksToProto (cm_ReasoningBlocks x)\<rparr>"

definition chatMessageFromProto :: "ChatMessagePB option \<Rightarrow> ChatMessage" where
  "chatMessageFromProto pb = (case pb of None \<Rightarrow> zero_ChatMessage
     | Some p \<Rightarrow> \<lparr>cm_Role = cmp_Role p, cm_Content = cmp_Content p, cm_ContentParts = contentPartsFromProto (cmp_ContentParts p),
     cm_Name = cmp_Name p, cm_ToolCallID = cmp_ToolCallID p, cm_ToolCalls = toolCallsFromProto (cmp_ToolCalls p),
     cm_ReasoningContent = cmp_ReasoningContent p, cm_ReasoningBlocks = reasoningBlocksFromProto (cmp_ReasoningBlocks p)\<rparr>)"

definition chatMessagesToProto :: "ChatMessage list \<Rightarrow> ChatMessagePB list" where
  "chatMessagesToProto = map chatMessageToProto"

definition chatMessagesFromProto :: "ChatMessagePB list \<Rightarrow> ChatMessage list" where
  "chatMessagesFromProto = map (\<lambda>p. chatMessageFromProto (Some p))"

record ChatRequest =
  cr_Model :: string
  cr_Messages :: "ChatMessage list"
  cr_Temperature :: "float64 option"
  cr_TopP :: "float64 option"
  cr_MaxTokens :: "int option"
  cr_Stop :: "string list"
  cr_Seed :: "int option"
  cr_Tools :: "Tool list"
  cr_ToolChoice :: string
  cr_ResponseFormat :: "ResponseFormat option"
  cr_Reasoning :: "ReasoningConfig option"
  cr_Extra :: "(string \<times> string) list"

record ChatRequestPB =
  crp_Model :: string
  crp_Messages :: "ChatMessagePB list"
  crp_Temperature :: "float64 option"
  crp_TopP :: "float64 option"
  crp_MaxTokens :: "int option"
  crp_Stop :: "string list"
  crp_Seed :: "int option"
  crp_Tools :: "ToolPB list"
  crp_ToolChoice :: string
  crp_ResponseFormat :: "ResponseFormatPB option"
  crp_Reasoning :: "ReasoningConfigPB option"
  crp_Extra :: "(string \<times> string) list"

definition zero_ChatRequest :: ChatRequest where
  "zero_ChatRequest = \<lparr>cr_Model = '''', cr_Messages = [], cr_Temperature = None, cr_TopP = None, cr_MaxTokens = None, cr_Stop = [], cr_Seed = None,
     cr_Tools = [], cr_ToolChoice = '''', cr_ResponseFormat = None, cr_Reasoning = None, cr_Extra = []\<rparr>"

definition ChatRequestToProto :: "ChatRequest \<Rightarrow> ChatRequestPB" where
  "ChatRequestToProto x =
    \<lparr>crp_Model = cr_Model x, crp_Messages = chatMessagesToProto (cr_Messages x), crp_Temperature = cr_Temperature x,
     crp_TopP = cr_TopP x, crp_MaxTokens = intPtrToProto (cr_MaxTokens x), crp_Stop = cr_Stop x, crp_Seed = cr_Seed x,
     crp_Tools = toolsToProto (cr_Tools x), crp_ToolChoice = cr_ToolChoice x,
     crp_ResponseFormat = responseFormatToProto (cr_ResponseFormat x), crp_Reasoning = reasoningConfigToProto (cr_Reasoning x),
     crp_Extra = map (\<lambda>(k, v). (k, rawToProto v)) (cr_Extra x)\<rparr>"

definition ChatRequestFromProto :: "ChatRequestPB option \<Rightarrow> ChatRequest" where
  "ChatRequestFromProto pb = (case pb of None \<Rightarrow> zero_ChatRequest
     | Some p \<Rightarrow> \<lparr>cr_Model = crp_Model p, cr_Messages = chatMessagesFromProto (crp_Messages p), cr_Temperature = crp_Temperature p,
     cr_TopP = crp_TopP p, cr_MaxTokens = intPtrFromProto (crp_MaxTokens p), cr_Stop = crp_Stop p, cr_Seed = crp_Seed p,
     cr_Tools = toolsFromProto (crp_Tools p), cr_ToolChoice = crp_ToolChoice p,
     cr_ResponseFormat = responseFormatFromProto (crp_ResponseFormat p),
     cr_Reasoning = reasoningConfigFromProto (crp_Reasoning p),
     cr_Extra = map (\<lambda>(k, v). (k, rawFromProto v)) (crp_Extra p)\<rparr>)"

record Usage =
  us_PromptTokens :: int
  us_CompletionTokens :: int
  us_TotalTokens :: int
  us_ReasoningTokens :: int

record UsagePB =
  usp_PromptTokens :: int
  usp_CompletionTokens :: int
  usp_TotalTokens :: int
  usp_ReasoningTokens :: int

definition zero_Usage :: Usage where
  "zero_Usage = \<lparr>us_PromptTokens = 0, us_CompletionTokens = 0, us_TotalTokens = 0, us_ReasoningTokens = 0\<rparr>"

definition usageToProto :: "Usage option \<Rightarrow> UsagePB option" where
  "usageToProto u = (case u of None \<Rightarrow> None
     | Some x \<Rightarrow> if us_PromptTokens x = 0 \<and> us_CompletionTokens x = 0 \<and> us_TotalTokens x = 0 \<and> us_ReasoningTokens x = 0 then None
       else Some \<lparr>usp_PromptTokens = us_PromptTokens x, usp_CompletionTokens = us_CompletionTokens x, usp_TotalTokens = us_TotalTokens x,
         usp_ReasoningTokens = us_ReasoningTokens x\<rparr>)"

definition usageFromProto :: "UsagePB option \<Rightarrow> Usage option" where
  "usageFromProto pb = (case pb of None \<Rightarrow> None
     | Some p \<Rightarrow> Some \<lparr>us_PromptTokens = usp_PromptTokens p, us_CompletionTokens = usp_CompletionTokens p, us_TotalTokens = usp_TotalTokens p,
         us_ReasoningTokens = usp_ReasoningTokens p\<rparr>)"

text \<open>\<open>if u := usageFromProto(...); u != nil { resp.Usage = *u }\<close>\<close>

definition usage_or_zero :: "UsagePB option \<Rightarrow> Usage" where
  "usage_or_zero pb = (case usageFromProto pb of None \<Rightarrow> zero_Usage | Some u \<Rightarrow> u)"

record ChatResponse =
  cs_ID :: string
  cs_Model :: string
  cs_Message :: ChatMessage
  cs_FinishReason :: string
  cs_Usage :: Usage
  cs_CreatedAt :: go_time

record ChatResponsePB =
  csp_ID :: string
  csp_Model :: string
  csp_Message :: "ChatMessagePB option"
  csp_FinishReason :: string
  csp_Usage :: "UsagePB option"
  csp_CreatedAt :: "Timestamp option"

definition zero_ChatResponse :: ChatResponse where
  "zero_ChatResponse = \<lparr>cs_ID = '''', cs_Model = '''', cs_Message = zero_ChatMessage, cs_FinishReason = '''', cs_Usage = zero_Usage, cs_CreatedAt = 0\<rparr>"

definition ChatResponseToProto :: "wellknown \<Rightarrow> ChatResponse \<Rightarrow> ChatResponsePB" where
  "ChatResponseToProto wk x =
    \<lparr>csp_ID = cs_ID x, csp_Model = cs_Model x, csp_Message = Some (chatMessageToProto (cs_Message x)),
     csp_FinishReason = cs_FinishReason x, csp_Usage = usageToProto (Some (cs_Usage x)),
     csp_CreatedAt = timeToProto wk (cs_CreatedAt x)\<rparr>"

definition ChatResponseFromProto :: "wellknown \<Rightarrow> ChatResponsePB option \<Rightarrow> ChatResponse" where
  "ChatResponseFromProto wk pb = (case pb of None \<Rightarrow> zero_ChatResponse
     | Some p \<Rightarrow> \<lparr>cs_ID = csp_ID p, cs_Model = csp_Model p, cs_Message = chatMessageFromProto (csp_Message p),
     cs_FinishReason = csp_FinishReason p, cs_Usage = usage_or_zero (csp_Usage p),
     cs_CreatedAt = timeFromProto wk (csp_CreatedAt p)\<rparr>)"

record FunctionCallDelta =
  fe_Name :: string
  fe_Arguments :: string

record FunctionCallDeltaPB =
  fep_Name :: string
  fep_Arguments :: string

record ToolCallDelta =
  td_Index :: int
  td_ID :: string
  td_Type :: string
  td_Function :: FunctionCallDelta

record ToolCallDeltaPB =
  tdp_Index :: int
  tdp_ID :: string
  tdp_Type :: string
  tdp_Function :: "FunctionCallDeltaPB option"

definition toolCallDeltaToProto :: "ToolCallDelta \<Rightarrow> ToolCallDeltaPB" where
  "toolCallDeltaToProto x =
    \<lparr>tdp_Index = td_Index x, tdp_ID = td_ID x, tdp_Type = td_Type x,
     tdp_Function = Some \<lparr>fep_Name = fe_Name (td_Function x), fep_Arguments = fe_Arguments (td_Function x)\<rparr>\<rparr>"

definition toolCallDeltaFromProto :: "ToolCallDeltaPB \<Rightarrow> ToolCallDelta" where
  "toolCallDeltaFromProto p =
    \<lparr>td_Index = tdp_Index p, td_ID = tdp_ID p, td_Type = tdp_Type p,
     td_Function = \<lparr>fe_Name = get_or '''' fep_Name (tdp_Function p), fe_Arguments = get_or '''' fep_Arguments (tdp_Function p)\<rparr>\<rparr>"

record ChatMessageDelta =
  cd_Role :: string
  cd_Content :: string
  cd_ToolCalls :: "ToolCallDelta list"
  cd_ReasoningContent :: string
  cd_ReasoningBlock :: "ReasoningBlock option"

record ChatMessageDeltaPB =
  cdp_Role :: string
  cdp_Content :: string
  cdp_ToolCalls :: "ToolCallDeltaPB list"
  cdp_ReasoningContent :: string
  cdp_ReasoningBlock :: "ReasoningBlockPB option"

definition zero_ChatMessageDelta :: ChatMessageDelta where
  "zero_ChatMessageDelta = \<lparr>cd_Role = '''', cd_Content = '''', cd_ToolCalls = [], cd_ReasoningContent = '''', cd_ReasoningBlock = None\<rparr>"

definition chatMessageDeltaFromProto :: "ChatMessageDeltaPB option \<Rightarrow> ChatMessageDelta" where
  "chatMessageDeltaFromProto pb = (case pb of None \<Rightarrow> zero_ChatMessageDelta
     | Some p \<Rightarrow> \<lparr>cd_Role = cdp_Role p, cd_Content = cdp_Content p, cd_ToolCalls = map toolCallDeltaFromProto (cdp_ToolCalls p),
     cd_ReasoningContent = cdp_ReasoningContent p, cd_ReasoningBlock = map_option reasoningBlockFromProto (cdp_ReasoningBlock p)\<rparr>)"

definition chatMessageDeltaToProto :: "ChatMessageDelta \<Rightarrow> ChatMessageDeltaPB option" where
  "chatMessageDeltaToProto d =
     (if cd_Role d = [] \<and> cd_Content d = [] \<and> length (cd_ToolCalls d) = 0 \<and> cd_ReasoningContent d = [] \<and> cd_ReasoningBlock d = None then None
      else Some \<lparr>cdp_Role = cd_Role d, cdp_Content = cd_Content d, cdp_ToolCalls = map toolCallDeltaToProto (cd_ToolCalls d),
        cdp_ReasoningContent = cd_ReasoningContent d, cdp_ReasoningBlock = map_option reasoningBlockToProto (cd_ReasoningBlock d)\<rparr>)"

record ChatEvent =
  ce_ID :: string
  ce_Model :: string
  ce_Delta :: ChatMessageDelta
  ce_FinishReason :: string
  ce_Usage :: "Usage option"

record ChatEventPB =
  cep_ID :: string
  cep_Model :: string
  cep_Delta :: "ChatMessageDeltaPB option"
  cep_FinishReason :: string
  cep_Usage :: "UsagePB option"

definition zero_ChatEvent :: ChatEvent where
  "zero_ChatEvent = \<lparr>ce_ID = '''', ce_Model = '''', ce_Delta = zero_ChatMessageDelta, ce_FinishReason = '''', ce_Usage = None\<rparr>"

definition ChatEventToProto :: "ChatEvent \<Rightarrow> ChatEventPB" where
  "ChatEventToProto x =
    \<lparr>cep_ID = ce_ID x, cep_Model = ce_Model x, cep_Delta = chatMessageDeltaToProto (ce_Delta x),
     cep_FinishReason = ce_FinishReason x, cep_Usage = usageToProto (ce_Usage x)\<rparr>"

definition ChatEventFromProto :: "ChatEventPB option \<Rightarrow> ChatEvent" where
  "ChatEventFromProto pb = (case pb of None \<Rightarrow> zero_ChatEvent
     | Some p \<Rightarrow> \<lparr>ce_ID = cep_ID p, ce_Model = cep_Model p, ce_Delta = chatMessageDeltaFromProto (cep_Delta p),
     ce_FinishReason = cep_FinishReason p, ce_Usage = usageFromProto (cep_Usage p)\<rparr>)"

subsection \<open>Embeddings, reranking and models\<close>

record EmbeddingRequest =
  er_Model :: string
  er_Input :: "string list"
  er_Dimensions :: "int option"

record EmbeddingRequestPB =
  erp_Model :: string
  erp_Input :: "string list"
  erp_Dimensions :: "int option"

definition zero_EmbeddingRequest :: EmbeddingRequest where
  "zero_EmbeddingRequest = \<lparr>er_Model = '''', er_Input = [], er_Dimensions = None\<rparr>"

definition EmbeddingRequestToProto :: "EmbeddingRequest \<Rightarrow> EmbeddingRequestPB" where
  "EmbeddingRequestToProto x =
    \<lparr>erp_Model = er_Model x, erp_Input = er_Input x, erp_Dimensions = intPtrToProto (er_Dimensions x)\<rparr>"

definition EmbeddingRequestFromProto :: "EmbeddingRequestPB option \<Rightarrow> EmbeddingRequest" where
  "EmbeddingRequestFromProto pb = (case pb of None \<Rightarrow> zero_EmbeddingRequest
     | Some p \<Rightarrow> \<lparr>er_Model = erp_Model p, er_Input = erp_Input p, er_Dimensions = intPtrFromProto (erp_Dimensions p)\<rparr>)"

record Embedding =
  em_Index :: int
  em_Vector :: "float32 list"

record EmbeddingPB =
  emp_Index :: int
  emp_Vector :: "float32 list"

definition embeddingToProto :: "Embedding \<Rightarrow> EmbeddingPB" where
  "embeddingToProto x =
    \<lparr>emp_Index = em_Index x, emp_Vector = em_Vector x\<rparr>"

definition embeddingFromProto :: "EmbeddingPB \<Rightarrow> Embedding" where
  "embeddingFromProto p =
    \<lparr>em_Index = emp_Index p, em_Vector = emp_Vector p\<rparr>"

record EmbeddingResponse =
  es_Model :: string
  es_Data :: "Embedding list"
  es_Usage :: Usage

record EmbeddingResponsePB =
  esp_Model :: string
  esp_Data :: "EmbeddingPB list"
  esp_Usage :: "UsagePB option"

definition zero_EmbeddingResponse :: EmbeddingResponse where
  "zero_EmbeddingResponse = \<lparr>es_Model = '''', es_Data = [], es_Usage = zero_Usage\<rparr>"

definition EmbeddingResponseToProto :: "EmbeddingResponse \<Rightarrow> EmbeddingResponsePB" where
  "EmbeddingResponseToProto x =
    \<lparr>esp_Model = es_Model x, esp_Data = map embeddingToProto (es_Data x), esp_Usage = usageToProto (Some (es_Usage x))\<rparr>"

definition EmbeddingResponseFromProto :: "EmbeddingResponsePB option \<Rightarrow> EmbeddingResponse" where
  "EmbeddingResponseFromProto pb = (case pb of None \<Rightarrow> zero_EmbeddingResponse
     | Some p \<Rightarrow> \<lparr>es_Model = esp_Model p, es_Data = map embeddingFromProto (esp_Data p), es_Usage = usage_or_zero (esp_Usage p)\<rparr>)"

record RerankRequest =
  rr_Model :: string
  rr_Query :: string
  rr_Documents :: "string list"
  rr_TopN :: "int option"

record RerankRequestPB =
  rrp_Model :: string
  rrp_Query :: string
  rrp_Documents :: "string list"
  rrp_TopN :: "int option"

definition zero_RerankRequest :: RerankRequest where
  "zero_RerankRequest = \<lparr>rr_Model = '''', rr_Query = '''', rr_Documents = [], rr_TopN = None\<rparr>"

definition RerankRequestToProto :: "RerankRequest \<Rightarrow> RerankRequestPB" where
  "RerankRequestToProto x =
    \<lparr>rrp_Model = rr_Model x, rrp_Query = rr_Query x, rrp_Documents = rr_Documents x, rrp_TopN = intPtrToProto (rr_TopN x)\<rparr>"

definition RerankRequestFromProto :: "RerankRequestPB option \<Rightarrow> RerankRequest" where
  "RerankRequestFromProto pb = (case pb of None \<Rightarrow> zero_RerankRequest
     | Some p \<Rightarrow> \<lparr>rr_Model = rrp_Model p, rr_Query = rrp_Query p, rr_Documents = rrp_Documents p, rr_TopN = intPtrFromProto (rrp_TopN p)\<rparr>)"

record RerankResult =
  rs_Index :: int
  rs_Score :: float64

record RerankResultPB =
  rsp_Index :: int
  rsp_Score :: float64

definition rerankResultToProto :: "RerankResult \<Rightarrow> RerankResultPB" where
  "rerankResultToProto x =
    \<lparr>rsp_Index = rs_Index x, rsp_Score = rs_Score x\<rparr>"

definition rerankResultFromProto :: "RerankResultPB \<Rightarrow> RerankResult" where
  "rerankResultFromProto p =
    \<lparr>rs_Index = rsp_Index p, rs_Score = rsp_Score p\<rparr>"

record RerankResponse =
  rp_Model :: string
  rp_Results :: "RerankResult list"

record RerankResponsePB =
  rpp_Model :: string
  rpp_Results :: "RerankResultPB list"

definition zero_RerankResponse :: RerankResponse where
  "zero_RerankResponse = \<lparr>rp_Model = '''', rp_Results = []\<rparr>"

definition RerankResponseToProto :: "RerankResponse \<Rightarrow> RerankResponsePB" where
  "RerankResponseToProto x =
    \<lparr>rpp_Model = rp_Model x, rpp_Results = map rerankResultToProto (rp_Results x)\<rparr>"

definition RerankResponseFromProto :: "RerankResponsePB option \<Rightarrow> RerankResponse" where
  "RerankResponseFromProto pb = (case pb of None \<Rightarrow> zero_RerankResponse
     | Some p \<Rightarrow> \<lparr>rp_Model = rpp_Model p, rp_Results = map rerankResultFromProto (rpp_Results p)\<rparr>)"

record CapabilityEvidencePB =
  evp_Capability :: capability
  evp_Level :: support_level
  evp_Source :: capability_source
  evp_Detail :: string

definition capabilitySetToProto :: "capability_set \<Rightarrow> (string \<times> CapabilityEvidencePB) list" where
  "capabilitySetToProto = map (\<lambda>(c, x). (c, \<lparr>evp_Capability = ev_Capability x, evp_Level = ev_Level x, evp_Source = ev_Source x, evp_Detail = ev_Detail x\<rparr>))"

definition capabilitySetFromProto :: "(string \<times> CapabilityEvidencePB) list \<Rightarrow> capability_set" where
  "capabilitySetFromProto = map (\<lambda>(c, p). (c, \<lparr>ev_Capability = evp_Capability p, ev_Level = evp_Level p, ev_Source = evp_Source p, ev_Detail = evp_Detail p\<rparr>))"

record Model =
  mo_ID :: string
  mo_Capabilities :: capability_set
  mo_DisplayName :: string
  mo_DisplayOrder :: "32 word"

record ModelPB =
  mop_ID :: string
  mop_Capabilities :: "(string \<times> CapabilityEvidencePB) list"
  mop_DisplayName :: string
  mop_DisplayOrder :: "32 word"

definition zero_Model :: Model where
  "zero_Model = \<lparr>mo_ID = '''', mo_Capabilities = [], mo_DisplayName = '''', mo_DisplayOrder = 0\<rparr>"

definition modelToProto :: "Model \<Rightarrow> ModelPB" where
  "modelToProto x =
    \<lparr>mop_ID = mo_ID x, mop_Capabilities = capabilitySetToProto (mo_Capabilities x), mop_DisplayName = mo_DisplayName x,
     mop_DisplayOrder = mo_DisplayOrder x\<rparr>"

definition modelFromProto :: "ModelPB option \<Rightarrow> Model" where
  "modelFromProto pb = (case pb of None \<Rightarrow> zero_Model
     | Some p \<Rightarrow> \<lparr>mo_ID = mop_ID p, mo_Capabilities = capabilitySetFromProto (mop_Capabilities p), mo_DisplayName = mop_DisplayName p,
     mo_DisplayOrder = mop_DisplayOrder p\<rparr>)"

record ModelListPB =
  ml_Models :: "ModelPB list"

definition ModelsToProto :: "Model list \<Rightarrow> ModelListPB" where
  "ModelsToProto models = \<lparr>ml_Models = map modelToProto models\<rparr>"

definition ModelsFromProto :: "ModelListPB option \<Rightarrow> Model list" where
  "ModelsFromProto pb = map (\<lambda>m. modelFromProto (Some m)) (get_or [] ml_Models pb)"


end
