(* ===== verification/WireRuntime.thy ===== *)
theory WireRuntime
  imports WireChat
begin

text \<open>
  \<open>common/tunnelwire/wire.go\<close>, continued: workflow, artifact, upload and audio messages, the snapshots an Agent
  reports, the runtime configuration the control plane delivers, and image generation
  (\<open>common/tunnelwire/image.go\<close>). The conventions are those of \<open>WireChat\<close>. The four parts of a snapshot
  are converted inside \<open>SnapshotToProto\<close> and \<open>SnapshotFromProto\<close>; each has a pair of definitions here.
\<close>


section \<open>Definitions\<close>

subsection \<open>Workflows, artifacts, uploads and audio\<close>

record WorkflowRequest =
  wr_Template :: string
  wr_ClientID :: string
  wr_IdempotencyKey :: string
  wr_MinGPUMemoryBytes :: int

record WorkflowRequestPB =
  wrp_ClientID :: string
  wrp_IdempotencyKey :: string

definition zero_WorkflowRequest :: WorkflowRequest where
  "zero_WorkflowRequest = \<lparr>wr_Template = '''', wr_ClientID = '''', wr_IdempotencyKey = '''', wr_MinGPUMemoryBytes = 0\<rparr>"

definition WorkflowRequestToProto :: "WorkflowRequest \<Rightarrow> WorkflowRequestPB" where
  "WorkflowRequestToProto x =
    \<lparr>wrp_ClientID = wr_ClientID x, wrp_IdempotencyKey = wr_IdempotencyKey x\<rparr>"

definition WorkflowRequestFromProto :: "WorkflowRequestPB option \<Rightarrow> WorkflowRequest" where
  "WorkflowRequestFromProto pb = (case pb of None \<Rightarrow> zero_WorkflowRequest
     | Some p \<Rightarrow> \<lparr>wr_Template = '''', wr_ClientID = wrp_ClientID p, wr_IdempotencyKey = wrp_IdempotencyKey p, wr_MinGPUMemoryBytes = 0\<rparr>)"

record WorkflowRun =
  wn_ID :: string
  wn_RuntimeID :: string
  wn_SubmittedAt :: go_time

record WorkflowRunPB =
  wnp_ID :: string
  wnp_RuntimeID :: string
  wnp_SubmittedAt :: "Timestamp option"

definition zero_WorkflowRun :: WorkflowRun where
  "zero_WorkflowRun = \<lparr>wn_ID = '''', wn_RuntimeID = '''', wn_SubmittedAt = 0\<rparr>"

definition WorkflowRunToProto :: "wellknown \<Rightarrow> WorkflowRun \<Rightarrow> WorkflowRunPB" where
  "WorkflowRunToProto wk x =
    \<lparr>wnp_ID = wn_ID x, wnp_RuntimeID = wn_RuntimeID x, wnp_SubmittedAt = timeToProto wk (wn_SubmittedAt x)\<rparr>"

definition WorkflowRunFromProto :: "wellknown \<Rightarrow> WorkflowRunPB option \<Rightarrow> WorkflowRun" where
  "WorkflowRunFromProto wk pb = (case pb of None \<Rightarrow> zero_WorkflowRun
     | Some p \<Rightarrow> \<lparr>wn_ID = wnp_ID p, wn_RuntimeID = wnp_RuntimeID p, wn_SubmittedAt = timeFromProto wk (wnp_SubmittedAt p)\<rparr>)"

record WorkflowEvent =
  we_Type :: string
  we_RunID :: string
  we_NodeID :: string
  we_Raw :: string
  we_ReceivedAt :: go_time

record WorkflowEventPB =
  wep_Type :: string
  wep_RunID :: string
  wep_NodeID :: string
  wep_Raw :: string
  wep_ReceivedAt :: "Timestamp option"

definition zero_WorkflowEvent :: WorkflowEvent where
  "zero_WorkflowEvent = \<lparr>we_Type = '''', we_RunID = '''', we_NodeID = '''', we_Raw = '''', we_ReceivedAt = 0\<rparr>"

definition WorkflowEventToProto :: "wellknown \<Rightarrow> WorkflowEvent \<Rightarrow> WorkflowEventPB" where
  "WorkflowEventToProto wk x =
    \<lparr>wep_Type = we_Type x, wep_RunID = we_RunID x, wep_NodeID = we_NodeID x, wep_Raw = rawToProto (we_Raw x),
     wep_ReceivedAt = timeToProto wk (we_ReceivedAt x)\<rparr>"

definition WorkflowEventFromProto :: "wellknown \<Rightarrow> WorkflowEventPB option \<Rightarrow> WorkflowEvent" where
  "WorkflowEventFromProto wk pb = (case pb of None \<Rightarrow> zero_WorkflowEvent
     | Some p \<Rightarrow> \<lparr>we_Type = wep_Type p, we_RunID = wep_RunID p, we_NodeID = wep_NodeID p, we_Raw = rawFromProto (wep_Raw p),
     we_ReceivedAt = timeFromProto wk (wep_ReceivedAt p)\<rparr>)"

record WorkflowStatus =
  ws_State :: string
  ws_QueuePosition :: int
  ws_StartedAt :: "go_time option"
  ws_FinishedAt :: "go_time option"
  ws_ErrorSummary :: string
  ws_OutOfMemory :: bool

record WorkflowStatusPB =
  wsp_State :: string
  wsp_QueuePosition :: int
  wsp_StartedAt :: "Timestamp option"
  wsp_FinishedAt :: "Timestamp option"
  wsp_ErrorSummary :: string
  wsp_OutOfMemory :: bool

definition zero_WorkflowStatus :: WorkflowStatus where
  "zero_WorkflowStatus = \<lparr>ws_State = '''', ws_QueuePosition = 0, ws_StartedAt = None, ws_FinishedAt = None, ws_ErrorSummary = '''',
     ws_OutOfMemory = False\<rparr>"

definition WorkflowStatusToProto :: "wellknown \<Rightarrow> WorkflowStatus \<Rightarrow> WorkflowStatusPB" where
  "WorkflowStatusToProto wk x =
    \<lparr>wsp_State = ws_State x, wsp_QueuePosition = ws_QueuePosition x, wsp_StartedAt = timePtrToProto wk (ws_StartedAt x),
     wsp_FinishedAt = timePtrToProto wk (ws_FinishedAt x), wsp_ErrorSummary = ws_ErrorSummary x,
     wsp_OutOfMemory = ws_OutOfMemory x\<rparr>"

definition WorkflowStatusFromProto :: "wellknown \<Rightarrow> WorkflowStatusPB option \<Rightarrow> WorkflowStatus" where
  "WorkflowStatusFromProto wk pb = (case pb of None \<Rightarrow> zero_WorkflowStatus
     | Some p \<Rightarrow> \<lparr>ws_State = wsp_State p, ws_QueuePosition = wsp_QueuePosition p, ws_StartedAt = timePtrFromProto wk (wsp_StartedAt p),
     ws_FinishedAt = timePtrFromProto wk (wsp_FinishedAt p), ws_ErrorSummary = wsp_ErrorSummary p,
     ws_OutOfMemory = wsp_OutOfMemory p\<rparr>)"

record ArtifactRef =
  ar_RunID :: string
  ar_Filename :: string
  ar_Subfolder :: string
  ar_Type :: string

record ArtifactRefPB =
  arp_RunID :: string
  arp_Filename :: string
  arp_Subfolder :: string
  arp_Type :: string

definition zero_ArtifactRef :: ArtifactRef where
  "zero_ArtifactRef = \<lparr>ar_RunID = '''', ar_Filename = '''', ar_Subfolder = '''', ar_Type = ''''\<rparr>"

definition ArtifactRefToProto :: "ArtifactRef \<Rightarrow> ArtifactRefPB" where
  "ArtifactRefToProto x =
    \<lparr>arp_RunID = ar_RunID x, arp_Filename = ar_Filename x, arp_Subfolder = ar_Subfolder x, arp_Type = ar_Type x\<rparr>"

definition ArtifactRefFromProto :: "ArtifactRefPB option \<Rightarrow> ArtifactRef" where
  "ArtifactRefFromProto pb = (case pb of None \<Rightarrow> zero_ArtifactRef
     | Some p \<Rightarrow> \<lparr>ar_RunID = arp_RunID p, ar_Filename = arp_Filename p, ar_Subfolder = arp_Subfolder p, ar_Type = arp_Type p\<rparr>)"

record ArtifactListPB =
  al_Artifacts :: "ArtifactRefPB list"

definition ArtifactRefsToProto :: "ArtifactRef list \<Rightarrow> ArtifactListPB" where
  "ArtifactRefsToProto refs = \<lparr>al_Artifacts = map ArtifactRefToProto refs\<rparr>"

definition ArtifactRefsFromProto :: "ArtifactListPB option \<Rightarrow> ArtifactRef list" where
  "ArtifactRefsFromProto pb = map (\<lambda>r. ArtifactRefFromProto (Some r)) (get_or [] al_Artifacts pb)"

record RunRefPB =
  rrp_RunId :: string

record InputUploadMeta =
  iu_Filename :: string
  iu_Subfolder :: string
  iu_Size :: int
  iu_SHA256 :: string

record InputUploadRequestPB =
  iup_Filename :: string
  iup_Subfolder :: string
  iup_Size :: int
  iup_SHA256 :: string

definition zero_InputUploadMeta :: InputUploadMeta where
  "zero_InputUploadMeta = \<lparr>iu_Filename = '''', iu_Subfolder = '''', iu_Size = 0, iu_SHA256 = ''''\<rparr>"

definition InputUploadMetaToProto :: "InputUploadMeta \<Rightarrow> InputUploadRequestPB" where
  "InputUploadMetaToProto x =
    \<lparr>iup_Filename = iu_Filename x, iup_Subfolder = iu_Subfolder x, iup_Size = iu_Size x, iup_SHA256 = iu_SHA256 x\<rparr>"

definition InputUploadMetaFromProto :: "InputUploadRequestPB option \<Rightarrow> InputUploadMeta" where
  "InputUploadMetaFromProto pb = (case pb of None \<Rightarrow> zero_InputUploadMeta
     | Some p \<Rightarrow> \<lparr>iu_Filename = iup_Filename p, iu_Subfolder = iup_Subfolder p, iu_Size = iup_Size p, iu_SHA256 = iup_SHA256 p\<rparr>)"

record InputUploadResult =
  ir_InputRef :: string

record InputUploadResultPB =
  irp_InputRef :: string

definition zero_InputUploadResult :: InputUploadResult where
  "zero_InputUploadResult = \<lparr>ir_InputRef = ''''\<rparr>"

definition InputUploadResultToProto :: "InputUploadResult \<Rightarrow> InputUploadResultPB" where
  "InputUploadResultToProto x =
    \<lparr>irp_InputRef = ir_InputRef x\<rparr>"

definition InputUploadResultFromProto :: "InputUploadResultPB option \<Rightarrow> InputUploadResult" where
  "InputUploadResultFromProto pb = (case pb of None \<Rightarrow> zero_InputUploadResult
     | Some p \<Rightarrow> \<lparr>ir_InputRef = irp_InputRef p\<rparr>)"

text \<open>\<open>runtime.AudioTask\<close> is a string type; the empty string is what an unrecognised task decodes to.\<close>

datatype AudioTask = AudioTaskTranscribe | AudioTaskTranslate | AudioTaskOther string

datatype AudioTaskPB = AUDIO_TASK_UNSPECIFIED | AUDIO_TASK_TRANSCRIBE | AUDIO_TASK_TRANSLATE | AUDIO_TASK_other int

fun audioTaskToProto :: "AudioTask \<Rightarrow> AudioTaskPB" where
  "audioTaskToProto AudioTaskTranscribe = AUDIO_TASK_TRANSCRIBE"
| "audioTaskToProto AudioTaskTranslate = AUDIO_TASK_TRANSLATE"
| "audioTaskToProto (AudioTaskOther _) = AUDIO_TASK_UNSPECIFIED"

fun audioTaskFromProto :: "AudioTaskPB \<Rightarrow> AudioTask" where
  "audioTaskFromProto AUDIO_TASK_TRANSCRIBE = AudioTaskTranscribe"
| "audioTaskFromProto AUDIO_TASK_TRANSLATE = AudioTaskTranslate"
| "audioTaskFromProto _ = AudioTaskOther []"

record AudioTranscriptionRequest =
  aq_Model :: string
  aq_Filename :: string
  aq_Task :: AudioTask
  aq_Language :: "string option"
  aq_Prompt :: "string option"
  aq_Temperature :: "float64 option"
  aq_ResponseFormat :: string

record AudioTranscriptionRequestPB =
  aqp_Model :: string
  aqp_Filename :: string
  aqp_Task :: AudioTaskPB
  aqp_Language :: "string option"
  aqp_Prompt :: "string option"
  aqp_Temperature :: "float64 option"
  aqp_ResponseFormat :: string

definition zero_AudioTranscriptionRequest :: AudioTranscriptionRequest where
  "zero_AudioTranscriptionRequest = \<lparr>aq_Model = '''', aq_Filename = '''', aq_Task = AudioTaskOther [], aq_Language = None, aq_Prompt = None,
     aq_Temperature = None, aq_ResponseFormat = ''''\<rparr>"

definition AudioTranscriptionRequestToProto :: "AudioTranscriptionRequest \<Rightarrow> AudioTranscriptionRequestPB" where
  "AudioTranscriptionRequestToProto x =
    \<lparr>aqp_Model = aq_Model x, aqp_Filename = aq_Filename x, aqp_Task = audioTaskToProto (aq_Task x), aqp_Language = aq_Language x,
     aqp_Prompt = aq_Prompt x, aqp_Temperature = aq_Temperature x, aqp_ResponseFormat = aq_ResponseFormat x\<rparr>"

definition AudioTranscriptionRequestFromProto :: "AudioTranscriptionRequestPB option \<Rightarrow> AudioTranscriptionRequest" where
  "AudioTranscriptionRequestFromProto pb = (case pb of None \<Rightarrow> zero_AudioTranscriptionRequest
     | Some p \<Rightarrow> \<lparr>aq_Model = aqp_Model p, aq_Filename = aqp_Filename p, aq_Task = audioTaskFromProto (aqp_Task p),
     aq_Language = aqp_Language p, aq_Prompt = aqp_Prompt p, aq_Temperature = aqp_Temperature p,
     aq_ResponseFormat = aqp_ResponseFormat p\<rparr>)"

record AudioTranscriptionResponse =
  aw_Text :: string
  aw_Language :: string
  aw_Duration :: "float64 option"

record AudioTranscriptionResponsePB =
  awp_Text :: string
  awp_Language :: string
  awp_Duration :: "float64 option"

definition zero_AudioTranscriptionResponse :: AudioTranscriptionResponse where
  "zero_AudioTranscriptionResponse = \<lparr>aw_Text = '''', aw_Language = '''', aw_Duration = None\<rparr>"

definition AudioTranscriptionResponseToProto :: "AudioTranscriptionResponse \<Rightarrow> AudioTranscriptionResponsePB" where
  "AudioTranscriptionResponseToProto x =
    \<lparr>awp_Text = aw_Text x, awp_Language = aw_Language x, awp_Duration = aw_Duration x\<rparr>"

definition AudioTranscriptionResponseFromProto :: "AudioTranscriptionResponsePB option \<Rightarrow> AudioTranscriptionResponse" where
  "AudioTranscriptionResponseFromProto pb = (case pb of None \<Rightarrow> zero_AudioTranscriptionResponse
     | Some p \<Rightarrow> \<lparr>aw_Text = awp_Text p, aw_Language = awp_Language p, aw_Duration = awp_Duration p\<rparr>)"

subsection \<open>Snapshots\<close>

record Descriptor =
  dc_ID :: string
  dc_Kind :: string
  dc_BaseURL :: string
  dc_MaxConcurrent :: int
  dc_Exclusive :: bool

record RuntimeDescriptorPB =
  dcp_ID :: string
  dcp_Kind :: string
  dcp_BaseURL :: string
  dcp_MaxConcurrent :: int
  dcp_Exclusive :: bool

definition zero_Descriptor :: Descriptor where
  "zero_Descriptor = \<lparr>dc_ID = '''', dc_Kind = '''', dc_BaseURL = '''', dc_MaxConcurrent = 0, dc_Exclusive = False\<rparr>"

definition descriptor_out :: "Descriptor \<Rightarrow> RuntimeDescriptorPB" where
  "descriptor_out x =
    \<lparr>dcp_ID = dc_ID x, dcp_Kind = dc_Kind x, dcp_BaseURL = dc_BaseURL x, dcp_MaxConcurrent = dc_MaxConcurrent x,
     dcp_Exclusive = dc_Exclusive x\<rparr>"

definition descriptor_in :: "RuntimeDescriptorPB option \<Rightarrow> Descriptor" where
  "descriptor_in pb = (case pb of None \<Rightarrow> zero_Descriptor
     | Some p \<Rightarrow> \<lparr>dc_ID = dcp_ID p, dc_Kind = dcp_Kind p, dc_BaseURL = dcp_BaseURL p, dc_MaxConcurrent = dcp_MaxConcurrent p,
     dc_Exclusive = dcp_Exclusive p\<rparr>)"

record ProbeResult =
  pr_Kind :: string
  pr_Version :: string
  pr_IdentityVerified :: bool
  pr_Evidence :: string
  pr_ProbedAt :: go_time

record ProbeResultPB =
  prp_Kind :: string
  prp_Version :: string
  prp_IdentityVerified :: bool
  prp_Evidence :: string
  prp_ProbedAt :: "Timestamp option"

definition zero_ProbeResult :: ProbeResult where
  "zero_ProbeResult = \<lparr>pr_Kind = '''', pr_Version = '''', pr_IdentityVerified = False, pr_Evidence = '''', pr_ProbedAt = 0\<rparr>"

definition probe_out :: "wellknown \<Rightarrow> ProbeResult \<Rightarrow> ProbeResultPB" where
  "probe_out wk x =
    \<lparr>prp_Kind = pr_Kind x, prp_Version = pr_Version x, prp_IdentityVerified = pr_IdentityVerified x,
     prp_Evidence = pr_Evidence x, prp_ProbedAt = timeToProto wk (pr_ProbedAt x)\<rparr>"

definition probe_in :: "wellknown \<Rightarrow> ProbeResultPB option \<Rightarrow> ProbeResult" where
  "probe_in wk pb = (case pb of None \<Rightarrow> zero_ProbeResult
     | Some p \<Rightarrow> \<lparr>pr_Kind = prp_Kind p, pr_Version = prp_Version p, pr_IdentityVerified = prp_IdentityVerified p,
     pr_Evidence = prp_Evidence p, pr_ProbedAt = timeFromProto wk (prp_ProbedAt p)\<rparr>)"

record HealthReport =
  hr_State :: string
  hr_Latency :: duration
  hr_CheckedAt :: go_time
  hr_ErrorSummary :: string
  hr_QueueRunning :: int
  hr_QueuePending :: int

record HealthReportPB =
  hrp_State :: string
  hrp_Latency :: "Duration option"
  hrp_CheckedAt :: "Timestamp option"
  hrp_ErrorSummary :: string
  hrp_QueueRunning :: int
  hrp_QueuePending :: int

definition zero_HealthReport :: HealthReport where
  "zero_HealthReport = \<lparr>hr_State = '''', hr_Latency = 0, hr_CheckedAt = 0, hr_ErrorSummary = '''', hr_QueueRunning = 0, hr_QueuePending = 0\<rparr>"

definition health_out :: "wellknown \<Rightarrow> HealthReport \<Rightarrow> HealthReportPB" where
  "health_out wk x =
    \<lparr>hrp_State = hr_State x, hrp_Latency = durationToProto wk (hr_Latency x), hrp_CheckedAt = timeToProto wk (hr_CheckedAt x),
     hrp_ErrorSummary = hr_ErrorSummary x, hrp_QueueRunning = wrap32 (hr_QueueRunning x),
     hrp_QueuePending = wrap32 (hr_QueuePending x)\<rparr>"

definition health_in :: "wellknown \<Rightarrow> HealthReportPB option \<Rightarrow> HealthReport" where
  "health_in wk pb = (case pb of None \<Rightarrow> zero_HealthReport
     | Some p \<Rightarrow> \<lparr>hr_State = hrp_State p, hr_Latency = durationFromProto wk (hrp_Latency p),
     hr_CheckedAt = timeFromProto wk (hrp_CheckedAt p), hr_ErrorSummary = hrp_ErrorSummary p,
     hr_QueueRunning = hrp_QueueRunning p, hr_QueuePending = hrp_QueuePending p\<rparr>)"

record Discovery =
  di_Version :: string
  di_Models :: "Model list"
  di_NodeTypes :: "string list"
  di_Capabilities :: capability_set
  di_Warnings :: "string list"
  di_DiscoveredAt :: go_time

record DiscoveryPB =
  dip_Version :: string
  dip_Models :: "ModelPB list"
  dip_NodeTypes :: "string list"
  dip_Capabilities :: "(string \<times> CapabilityEvidencePB) list"
  dip_Warnings :: "string list"
  dip_DiscoveredAt :: "Timestamp option"

definition zero_Discovery :: Discovery where
  "zero_Discovery = \<lparr>di_Version = '''', di_Models = [], di_NodeTypes = [], di_Capabilities = [], di_Warnings = [], di_DiscoveredAt = 0\<rparr>"

definition discovery_out :: "wellknown \<Rightarrow> Discovery \<Rightarrow> DiscoveryPB" where
  "discovery_out wk x =
    \<lparr>dip_Version = di_Version x, dip_Models = ml_Models (ModelsToProto (di_Models x)), dip_NodeTypes = di_NodeTypes x,
     dip_Capabilities = capabilitySetToProto (di_Capabilities x), dip_Warnings = di_Warnings x,
     dip_DiscoveredAt = timeToProto wk (di_DiscoveredAt x)\<rparr>"

definition discovery_in :: "wellknown \<Rightarrow> DiscoveryPB option \<Rightarrow> Discovery" where
  "discovery_in wk pb = (case pb of None \<Rightarrow> zero_Discovery
     | Some p \<Rightarrow> \<lparr>di_Version = dip_Version p, di_Models = ModelsFromProto (Some \<lparr>ml_Models = dip_Models p\<rparr>),
     di_NodeTypes = dip_NodeTypes p, di_Capabilities = capabilitySetFromProto (dip_Capabilities p), di_Warnings = dip_Warnings p,
     di_DiscoveredAt = timeFromProto wk (dip_DiscoveredAt p)\<rparr>)"

record Snapshot =
  sn_Descriptor :: Descriptor
  sn_State :: string
  sn_Probe :: ProbeResult
  sn_Health :: HealthReport
  sn_Discovery :: Discovery
  sn_Inflight :: int
  sn_Degraded :: bool
  sn_UpdatedAt :: go_time

record RuntimeSnapshotPB =
  snp_Descriptor :: "RuntimeDescriptorPB option"
  snp_State :: string
  snp_Probe :: "ProbeResultPB option"
  snp_Health :: "HealthReportPB option"
  snp_Discovery :: "DiscoveryPB option"
  snp_Inflight :: int
  snp_Degraded :: bool
  snp_UpdatedAt :: "Timestamp option"

definition zero_Snapshot :: Snapshot where
  "zero_Snapshot = \<lparr>sn_Descriptor = zero_Descriptor, sn_State = '''', sn_Probe = zero_ProbeResult, sn_Health = zero_HealthReport,
     sn_Discovery = zero_Discovery, sn_Inflight = 0, sn_Degraded = False, sn_UpdatedAt = 0\<rparr>"

definition SnapshotToProto :: "wellknown \<Rightarrow> Snapshot \<Rightarrow> RuntimeSnapshotPB" where
  "SnapshotToProto wk x =
    \<lparr>snp_Descriptor = Some (descriptor_out (sn_Descriptor x)), snp_State = sn_State x,
     snp_Probe = Some (probe_out wk (sn_Probe x)), snp_Health = Some (health_out wk (sn_Health x)),
     snp_Discovery = Some (discovery_out wk (sn_Discovery x)), snp_Inflight = sn_Inflight x, snp_Degraded = sn_Degraded x,
     snp_UpdatedAt = timeToProto wk (sn_UpdatedAt x)\<rparr>"

definition SnapshotFromProto :: "wellknown \<Rightarrow> RuntimeSnapshotPB option \<Rightarrow> Snapshot" where
  "SnapshotFromProto wk pb = (case pb of None \<Rightarrow> zero_Snapshot
     | Some p \<Rightarrow> \<lparr>sn_Descriptor = descriptor_in (snp_Descriptor p), sn_State = snp_State p, sn_Probe = probe_in wk (snp_Probe p),
     sn_Health = health_in wk (snp_Health p), sn_Discovery = discovery_in wk (snp_Discovery p), sn_Inflight = snp_Inflight p,
     sn_Degraded = snp_Degraded p, sn_UpdatedAt = timeFromProto wk (snp_UpdatedAt p)\<rparr>)"

definition SnapshotsToProto :: "wellknown \<Rightarrow> Snapshot list \<Rightarrow> RuntimeSnapshotPB list" where
  "SnapshotsToProto wk = map (SnapshotToProto wk)"

definition SnapshotsFromProto :: "wellknown \<Rightarrow> RuntimeSnapshotPB list \<Rightarrow> Snapshot list" where
  "SnapshotsFromProto wk = map (\<lambda>p. SnapshotFromProto wk (Some p))"

subsection \<open>Runtime configuration\<close>

record TLSConfig =
  tlc_CAFile :: string
  tlc_ServerName :: string
  tlc_InsecureSkipVerify :: bool

record TLSSpecPB =
  tlcp_CAFile :: string
  tlcp_ServerName :: string
  tlcp_InsecureSkipVerify :: bool

definition zero_TLSConfig :: TLSConfig where
  "zero_TLSConfig = \<lparr>tlc_CAFile = '''', tlc_ServerName = '''', tlc_InsecureSkipVerify = False\<rparr>"

record Config =
  cfg_AllowUnavailable :: bool
  cfg_ID :: string
  cfg_Kind :: string
  cfg_BaseURL :: string
  cfg_APIKey :: string
  cfg_Headers :: "(string \<times> string) list"
  cfg_ProbeTimeout :: duration
  cfg_RequestTimeout :: duration
  cfg_StreamIdleTimeout :: duration
  cfg_HealthInterval :: duration
  cfg_DiscoveryInterval :: duration
  cfg_MaxConcurrent :: int
  cfg_TLS :: TLSConfig
  cfg_CapabilityOverrides :: "(capability \<times> support_level) list"
  cfg_Exclusive :: bool
  cfg_Models :: "string list"
  cfg_ReasoningParser :: string
  cfg_AccountDir :: string

record RuntimeSpecPB =
  rsp_Id :: string
  rsp_Kind :: string
  rsp_BaseUrl :: string
  rsp_ApiKeyRef :: string
  rsp_Headers :: "(string \<times> string) list"
  rsp_ProbeTimeout :: "Duration option"
  rsp_RequestTimeout :: "Duration option"
  rsp_StreamIdleTimeout :: "Duration option"
  rsp_HealthInterval :: "Duration option"
  rsp_DiscoveryInterval :: "Duration option"
  rsp_MaxConcurrent :: int
  rsp_Tls :: "TLSSpecPB option"
  rsp_CapabilityOverrides :: "(string \<times> support_level) list"
  rsp_Exclusive :: bool

definition zero_Config :: Config where
  "zero_Config = \<lparr>cfg_AllowUnavailable = False, cfg_ID = '''', cfg_Kind = '''', cfg_BaseURL = '''', cfg_APIKey = '''', cfg_Headers = [],
     cfg_ProbeTimeout = 0, cfg_RequestTimeout = 0, cfg_StreamIdleTimeout = 0, cfg_HealthInterval = 0, cfg_DiscoveryInterval = 0,
     cfg_MaxConcurrent = 0, cfg_TLS = zero_TLSConfig, cfg_CapabilityOverrides = [], cfg_Exclusive = False, cfg_Models = [],
     cfg_ReasoningParser = '''', cfg_AccountDir = ''''\<rparr>"

definition ConfigToProto :: "wellknown \<Rightarrow> Config \<Rightarrow> string \<Rightarrow> RuntimeSpecPB" where
  "ConfigToProto wk cfg apiKeyRef =
    \<lparr>rsp_Id = cfg_ID cfg, rsp_Kind = cfg_Kind cfg, rsp_BaseUrl = cfg_BaseURL cfg, rsp_ApiKeyRef = apiKeyRef, rsp_Headers = cfg_Headers cfg,
     rsp_ProbeTimeout = durationToProto wk (cfg_ProbeTimeout cfg), rsp_RequestTimeout = durationToProto wk (cfg_RequestTimeout cfg),
     rsp_StreamIdleTimeout = durationToProto wk (cfg_StreamIdleTimeout cfg), rsp_HealthInterval = durationToProto wk (cfg_HealthInterval cfg),
     rsp_DiscoveryInterval = durationToProto wk (cfg_DiscoveryInterval cfg), rsp_MaxConcurrent = cfg_MaxConcurrent cfg,
     rsp_Tls = (if cfg_TLS cfg \<noteq> zero_TLSConfig
       then Some \<lparr>tlcp_CAFile = tlc_CAFile (cfg_TLS cfg), tlcp_ServerName = tlc_ServerName (cfg_TLS cfg),
         tlcp_InsecureSkipVerify = tlc_InsecureSkipVerify (cfg_TLS cfg)\<rparr> else None),
     rsp_CapabilityOverrides = cfg_CapabilityOverrides cfg, rsp_Exclusive = cfg_Exclusive cfg\<rparr>"

definition ConfigFromProto :: "wellknown \<Rightarrow> RuntimeSpecPB option \<Rightarrow> Config \<times> string" where
  "ConfigFromProto wk pb = (case pb of None \<Rightarrow> (zero_Config, '''')
     | Some p \<Rightarrow> (zero_Config\<lparr>cfg_ID := rsp_Id p, cfg_Kind := rsp_Kind p, cfg_BaseURL := rsp_BaseUrl p, cfg_Headers := rsp_Headers p,
         cfg_ProbeTimeout := durationFromProto wk (rsp_ProbeTimeout p), cfg_RequestTimeout := durationFromProto wk (rsp_RequestTimeout p),
         cfg_StreamIdleTimeout := durationFromProto wk (rsp_StreamIdleTimeout p), cfg_HealthInterval := durationFromProto wk (rsp_HealthInterval p),
         cfg_DiscoveryInterval := durationFromProto wk (rsp_DiscoveryInterval p), cfg_MaxConcurrent := rsp_MaxConcurrent p,
         cfg_TLS := \<lparr>tlc_CAFile = get_or '''' tlcp_CAFile (rsp_Tls p), tlc_ServerName = get_or '''' tlcp_ServerName (rsp_Tls p),
           tlc_InsecureSkipVerify = get_or False tlcp_InsecureSkipVerify (rsp_Tls p)\<rparr>,
         cfg_CapabilityOverrides := rsp_CapabilityOverrides p, cfg_Exclusive := rsp_Exclusive p\<rparr>, rsp_ApiKeyRef p))"


subsection \<open>Payload marshalling\<close>

text \<open>The protobuf encoder of one message type. \<open>None\<close> is an error (a string that is not UTF-8, bytes that do not parse).\<close>

record 'p protobuf =
  Marshal :: "'p \<Rightarrow> string option"
  Unmarshal :: "string \<Rightarrow> 'p option"

definition proto_ok :: "'p protobuf \<Rightarrow> bool" where
  "proto_ok P \<longleftrightarrow> (\<forall>m b. Marshal P m = Some b \<longrightarrow> Unmarshal P b = Some m)"

definition protocolError :: "string \<Rightarrow> runtime_error" where
  "protocolError what = (zero_runtime_error ErrorProtocol)\<lparr>err_Operation := convertOperation,
     err_Message := ''malformed tunnel payload: cannot '' @ what\<rparr>"

definition marshalPayload :: "'p protobuf \<Rightarrow> 'p \<Rightarrow> string \<Rightarrow> runtime_error + string" where
  "marshalPayload P m what = (case Marshal P m of None \<Rightarrow> Inl (protocolError (''encode '' @ what)) | Some b \<Rightarrow> Inr b)"

definition unmarshalPayload :: "'p protobuf \<Rightarrow> string \<Rightarrow> string \<Rightarrow> runtime_error + 'p" where
  "unmarshalPayload P b what = (case Unmarshal P b of None \<Rightarrow> Inl (protocolError (''decode '' @ what)) | Some m \<Rightarrow> Inr m)"

definition MarshalChatRequest :: "ChatRequestPB protobuf \<Rightarrow> ChatRequest \<Rightarrow> runtime_error + string" where
  "MarshalChatRequest P x = marshalPayload P (ChatRequestToProto x) ''chat request''"

definition UnmarshalChatRequest :: "ChatRequestPB protobuf \<Rightarrow> string \<Rightarrow> runtime_error + ChatRequest" where
  "UnmarshalChatRequest P b = map_sum id (\<lambda>m. ChatRequestFromProto (Some m)) (unmarshalPayload P b ''chat request'')"

definition MarshalChatResponse :: "wellknown \<Rightarrow> ChatResponsePB protobuf \<Rightarrow> ChatResponse \<Rightarrow> runtime_error + string" where
  "MarshalChatResponse wk P x = marshalPayload P (ChatResponseToProto wk x) ''chat response''"

definition UnmarshalChatResponse :: "wellknown \<Rightarrow> ChatResponsePB protobuf \<Rightarrow> string \<Rightarrow> runtime_error + ChatResponse" where
  "UnmarshalChatResponse wk P b = map_sum id (\<lambda>m. ChatResponseFromProto wk (Some m)) (unmarshalPayload P b ''chat response'')"

definition MarshalChatEvent :: "ChatEventPB protobuf \<Rightarrow> ChatEvent \<Rightarrow> runtime_error + string" where
  "MarshalChatEvent P x = marshalPayload P (ChatEventToProto x) ''chat event''"

definition UnmarshalChatEvent :: "ChatEventPB protobuf \<Rightarrow> string \<Rightarrow> runtime_error + ChatEvent" where
  "UnmarshalChatEvent P b = map_sum id (\<lambda>m. ChatEventFromProto (Some m)) (unmarshalPayload P b ''chat event'')"

definition MarshalEmbeddingRequest :: "EmbeddingRequestPB protobuf \<Rightarrow> EmbeddingRequest \<Rightarrow> runtime_error + string" where
  "MarshalEmbeddingRequest P x = marshalPayload P (EmbeddingRequestToProto x) ''embedding request''"

definition UnmarshalEmbeddingRequest :: "EmbeddingRequestPB protobuf \<Rightarrow> string \<Rightarrow> runtime_error + EmbeddingRequest" where
  "UnmarshalEmbeddingRequest P b = map_sum id (\<lambda>m. EmbeddingRequestFromProto (Some m)) (unmarshalPayload P b ''embedding request'')"

definition MarshalEmbeddingResponse :: "EmbeddingResponsePB protobuf \<Rightarrow> EmbeddingResponse \<Rightarrow> runtime_error + string" where
  "MarshalEmbeddingResponse P x = marshalPayload P (EmbeddingResponseToProto x) ''embedding response''"

definition UnmarshalEmbeddingResponse :: "EmbeddingResponsePB protobuf \<Rightarrow> string \<Rightarrow> runtime_error + EmbeddingResponse" where
  "UnmarshalEmbeddingResponse P b = map_sum id (\<lambda>m. EmbeddingResponseFromProto (Some m)) (unmarshalPayload P b ''embedding response'')"

definition MarshalModels :: "ModelListPB protobuf \<Rightarrow> Model list \<Rightarrow> runtime_error + string" where
  "MarshalModels P x = marshalPayload P (ModelsToProto x) ''model list''"

definition UnmarshalModels :: "ModelListPB protobuf \<Rightarrow> string \<Rightarrow> runtime_error + (Model list)" where
  "UnmarshalModels P b = map_sum id (\<lambda>m. ModelsFromProto (Some m)) (unmarshalPayload P b ''model list'')"

definition MarshalWorkflowRequest :: "WorkflowRequestPB protobuf \<Rightarrow> WorkflowRequest \<Rightarrow> runtime_error + string" where
  "MarshalWorkflowRequest P x = marshalPayload P (WorkflowRequestToProto x) ''workflow request''"

definition UnmarshalWorkflowRequest :: "WorkflowRequestPB protobuf \<Rightarrow> string \<Rightarrow> runtime_error + WorkflowRequest" where
  "UnmarshalWorkflowRequest P b = map_sum id (\<lambda>m. WorkflowRequestFromProto (Some m)) (unmarshalPayload P b ''workflow request'')"

definition MarshalWorkflowRun :: "wellknown \<Rightarrow> WorkflowRunPB protobuf \<Rightarrow> WorkflowRun \<Rightarrow> runtime_error + string" where
  "MarshalWorkflowRun wk P x = marshalPayload P (WorkflowRunToProto wk x) ''workflow run''"

definition UnmarshalWorkflowRun :: "wellknown \<Rightarrow> WorkflowRunPB protobuf \<Rightarrow> string \<Rightarrow> runtime_error + WorkflowRun" where
  "UnmarshalWorkflowRun wk P b = map_sum id (\<lambda>m. WorkflowRunFromProto wk (Some m)) (unmarshalPayload P b ''workflow run'')"

definition MarshalWorkflowEvent :: "wellknown \<Rightarrow> WorkflowEventPB protobuf \<Rightarrow> WorkflowEvent \<Rightarrow> runtime_error + string" where
  "MarshalWorkflowEvent wk P x = marshalPayload P (WorkflowEventToProto wk x) ''workflow event''"

definition UnmarshalWorkflowEvent :: "wellknown \<Rightarrow> WorkflowEventPB protobuf \<Rightarrow> string \<Rightarrow> runtime_error + WorkflowEvent" where
  "UnmarshalWorkflowEvent wk P b = map_sum id (\<lambda>m. WorkflowEventFromProto wk (Some m)) (unmarshalPayload P b ''workflow event'')"

definition MarshalWorkflowStatus :: "wellknown \<Rightarrow> WorkflowStatusPB protobuf \<Rightarrow> WorkflowStatus \<Rightarrow> runtime_error + string" where
  "MarshalWorkflowStatus wk P x = marshalPayload P (WorkflowStatusToProto wk x) ''workflow status''"

definition UnmarshalWorkflowStatus :: "wellknown \<Rightarrow> WorkflowStatusPB protobuf \<Rightarrow> string \<Rightarrow> runtime_error + WorkflowStatus" where
  "UnmarshalWorkflowStatus wk P b = map_sum id (\<lambda>m. WorkflowStatusFromProto wk (Some m)) (unmarshalPayload P b ''workflow status'')"

definition MarshalRunRef :: "RunRefPB protobuf \<Rightarrow> string \<Rightarrow> runtime_error + string" where
  "MarshalRunRef P x = marshalPayload P \<lparr>rrp_RunId = x\<rparr> ''run reference''"

definition UnmarshalRunRef :: "RunRefPB protobuf \<Rightarrow> string \<Rightarrow> runtime_error + string" where
  "UnmarshalRunRef P b = map_sum id (\<lambda>m. rrp_RunId m) (unmarshalPayload P b ''run reference'')"

definition MarshalArtifactList :: "ArtifactListPB protobuf \<Rightarrow> ArtifactRef list \<Rightarrow> runtime_error + string" where
  "MarshalArtifactList P x = marshalPayload P (ArtifactRefsToProto x) ''artifact list''"

definition UnmarshalArtifactList :: "ArtifactListPB protobuf \<Rightarrow> string \<Rightarrow> runtime_error + (ArtifactRef list)" where
  "UnmarshalArtifactList P b = map_sum id (\<lambda>m. ArtifactRefsFromProto (Some m)) (unmarshalPayload P b ''artifact list'')"

definition MarshalArtifactRef :: "ArtifactRefPB protobuf \<Rightarrow> ArtifactRef \<Rightarrow> runtime_error + string" where
  "MarshalArtifactRef P x = marshalPayload P (ArtifactRefToProto x) ''artifact reference''"

definition UnmarshalArtifactRef :: "ArtifactRefPB protobuf \<Rightarrow> string \<Rightarrow> runtime_error + ArtifactRef" where
  "UnmarshalArtifactRef P b = map_sum id (\<lambda>m. ArtifactRefFromProto (Some m)) (unmarshalPayload P b ''artifact reference'')"

definition MarshalInputUploadRequest :: "InputUploadRequestPB protobuf \<Rightarrow> InputUploadMeta \<Rightarrow> runtime_error + string" where
  "MarshalInputUploadRequest P x = marshalPayload P (InputUploadMetaToProto x) ''input upload request''"

definition UnmarshalInputUploadRequest :: "InputUploadRequestPB protobuf \<Rightarrow> string \<Rightarrow> runtime_error + InputUploadMeta" where
  "UnmarshalInputUploadRequest P b = map_sum id (\<lambda>m. InputUploadMetaFromProto (Some m)) (unmarshalPayload P b ''input upload request'')"

definition MarshalInputUploadResult :: "InputUploadResultPB protobuf \<Rightarrow> InputUploadResult \<Rightarrow> runtime_error + string" where
  "MarshalInputUploadResult P x = marshalPayload P (InputUploadResultToProto x) ''input upload result''"

definition UnmarshalInputUploadResult :: "InputUploadResultPB protobuf \<Rightarrow> string \<Rightarrow> runtime_error + InputUploadResult" where
  "UnmarshalInputUploadResult P b = map_sum id (\<lambda>m. InputUploadResultFromProto (Some m)) (unmarshalPayload P b ''input upload result'')"

definition MarshalAudioTranscriptionRequest :: "AudioTranscriptionRequestPB protobuf \<Rightarrow> AudioTranscriptionRequest \<Rightarrow> runtime_error + string" where
  "MarshalAudioTranscriptionRequest P x = marshalPayload P (AudioTranscriptionRequestToProto x) ''audio transcription request''"

definition UnmarshalAudioTranscriptionRequest :: "AudioTranscriptionRequestPB protobuf \<Rightarrow> string \<Rightarrow> runtime_error + AudioTranscriptionRequest" where
  "UnmarshalAudioTranscriptionRequest P b = map_sum id (\<lambda>m. AudioTranscriptionRequestFromProto (Some m)) (unmarshalPayload P b ''audio transcription request'')"

definition MarshalAudioTranscriptionResponse :: "AudioTranscriptionResponsePB protobuf \<Rightarrow> AudioTranscriptionResponse \<Rightarrow> runtime_error + string" where
  "MarshalAudioTranscriptionResponse P x = marshalPayload P (AudioTranscriptionResponseToProto x) ''audio transcription response''"

definition UnmarshalAudioTranscriptionResponse :: "AudioTranscriptionResponsePB protobuf \<Rightarrow> string \<Rightarrow> runtime_error + AudioTranscriptionResponse" where
  "UnmarshalAudioTranscriptionResponse P b = map_sum id (\<lambda>m. AudioTranscriptionResponseFromProto (Some m)) (unmarshalPayload P b ''audio transcription response'')"

definition MarshalRerankRequest :: "RerankRequestPB protobuf \<Rightarrow> RerankRequest \<Rightarrow> runtime_error + string" where
  "MarshalRerankRequest P x = marshalPayload P (RerankRequestToProto x) ''rerank request''"

definition UnmarshalRerankRequest :: "RerankRequestPB protobuf \<Rightarrow> string \<Rightarrow> runtime_error + RerankRequest" where
  "UnmarshalRerankRequest P b = map_sum id (\<lambda>m. RerankRequestFromProto (Some m)) (unmarshalPayload P b ''rerank request'')"

definition MarshalRerankResponse :: "RerankResponsePB protobuf \<Rightarrow> RerankResponse \<Rightarrow> runtime_error + string" where
  "MarshalRerankResponse P x = marshalPayload P (RerankResponseToProto x) ''rerank response''"

definition UnmarshalRerankResponse :: "RerankResponsePB protobuf \<Rightarrow> string \<Rightarrow> runtime_error + RerankResponse" where
  "UnmarshalRerankResponse P b = map_sum id (\<lambda>m. RerankResponseFromProto (Some m)) (unmarshalPayload P b ''rerank response'')"


subsection \<open>Image generation\<close>

definition maxImageMetaField :: nat where "maxImageMetaField = 256"
definition MaxImagePromptBytes :: nat where "MaxImagePromptBytes = 32768"
definition MaxImageBytes :: int where "MaxImageBytes = 33554432"
definition MaxImageChunkBytes :: nat where "MaxImageChunkBytes = 262144"

record ImageRequest =
  iq_Model :: string
  iq_Prompt :: string
  iq_TenantID :: string
  iq_KeyID :: string

record ImageMeta =
  im_ContentType :: string
  im_Size :: int
  im_RevisedPrompt :: string
  im_Usage :: "Usage option"

record ImageEvent =
  ie_Meta :: "ImageMeta option"
  ie_Data :: string

record ImageMetaPB =
  imp_ContentType :: string
  imp_Size :: int
  imp_RevisedPrompt :: string
  imp_Usage :: "UsagePB option"

datatype ImageEventPB = ImageBody_Meta "ImageMetaPB option" | ImageBody_Data string | ImageBody_none

definition validImageRequest :: "(string \<Rightarrow> bool) \<Rightarrow> string \<Rightarrow> string \<Rightarrow> string \<Rightarrow> string \<Rightarrow> bool" where
  "validImageRequest validUTF8 model prompt tenantID keyID \<longleftrightarrow>
     model \<noteq> [] \<and> length model \<le> maxImageMetaField \<and> prompt \<noteq> [] \<and> length prompt \<le> MaxImagePromptBytes \<and>
     validUTF8 prompt \<and> length tenantID \<le> maxImageMetaField \<and> length keyID \<le> maxImageMetaField"

text \<open>The message has the four fields of the request.\<close>

definition MarshalImageRequest :: "(string \<Rightarrow> bool) \<Rightarrow> ImageRequest protobuf \<Rightarrow> ImageRequest \<Rightarrow> runtime_error + string" where
  "MarshalImageRequest validUTF8 P req =
     (if \<not> validImageRequest validUTF8 (iq_Model req) (iq_Prompt req) (iq_TenantID req) (iq_KeyID req)
      then Inl (protocolError ''image generation request'') else marshalPayload P req ''image generation request'')"

definition UnmarshalImageRequest :: "(string \<Rightarrow> bool) \<Rightarrow> ImageRequest protobuf \<Rightarrow> string \<Rightarrow> runtime_error + ImageRequest" where
  "UnmarshalImageRequest validUTF8 P b = (case unmarshalPayload P b ''image generation request'' of Inl e \<Rightarrow> Inl e
     | Inr pb \<Rightarrow> if \<not> validImageRequest validUTF8 (iq_Model pb) (iq_Prompt pb) (iq_TenantID pb) (iq_KeyID pb)
         then Inl (protocolError ''image generation request'') else Inr pb)"

definition validImageEvent :: "ImageEvent \<Rightarrow> bool" where
  "validImageEvent ev \<longleftrightarrow> (case ie_Meta ev of
       Some m \<Rightarrow> length (ie_Data ev) = 0 \<and> im_ContentType m \<noteq> [] \<and> length (im_ContentType m) \<le> maxImageMetaField \<and>
         0 < im_Size m \<and> im_Size m \<le> MaxImageBytes \<and> length (im_RevisedPrompt m) \<le> MaxImagePromptBytes
     | None \<Rightarrow> 0 < length (ie_Data ev) \<and> length (ie_Data ev) \<le> MaxImageChunkBytes)"

definition MarshalImageEvent :: "ImageEventPB protobuf \<Rightarrow> ImageEvent \<Rightarrow> runtime_error + string" where
  "MarshalImageEvent P ev = (if \<not> validImageEvent ev then Inl (protocolError ''image generation event'')
     else marshalPayload P (case ie_Meta ev of
         Some m \<Rightarrow> ImageBody_Meta (Some \<lparr>imp_ContentType = im_ContentType m, imp_Size = im_Size m, imp_RevisedPrompt = im_RevisedPrompt m,
           imp_Usage = usageToProto (im_Usage m)\<rparr>)
       | None \<Rightarrow> ImageBody_Data (ie_Data ev)) ''image generation event'')"

definition UnmarshalImageEvent :: "ImageEventPB protobuf \<Rightarrow> string \<Rightarrow> runtime_error + ImageEvent" where
  "UnmarshalImageEvent P b = (case unmarshalPayload P b ''image generation event'' of Inl e \<Rightarrow> Inl e
     | Inr (ImageBody_Meta None) \<Rightarrow> Inl (protocolError ''image generation event'')
     | Inr pb \<Rightarrow>
         (let ev = (case pb of
              ImageBody_Meta (Some m) \<Rightarrow> \<lparr>ie_Meta = Some \<lparr>im_ContentType = imp_ContentType m, im_Size = imp_Size m,
                im_RevisedPrompt = imp_RevisedPrompt m, im_Usage = usageFromProto (imp_Usage m)\<rparr>, ie_Data = []\<rparr>
            | ImageBody_Data d \<Rightarrow> \<lparr>ie_Meta = None, ie_Data = d\<rparr>
            | _ \<Rightarrow> \<lparr>ie_Meta = None, ie_Data = []\<rparr>)
          in if \<not> validImageEvent ev then Inl (protocolError ''image generation event'') else Inr ev))"

end
