(* ===== verification/WireCodec.thy ===== *)
theory WireCodec
  imports WireRuntime
begin

text \<open>
  What the tunnel's codec keeps. The locale \<open>wire_codec\<close> is the contract of one pair of conversions: decoding
  what was encoded gives the value back up to a normal form (what the codec drops on purpose), and encoding the
  normal form gives the same message. Every pair of \<open>wire.go\<close> is an interpretation; those that carry instants
  or durations are so for every well-behaved \<open>wellknown\<close>. From the contract follow the round trip of the
  payload bytes and that equal bytes mean equal values.
\<close>


section \<open>The contract of a conversion\<close>

locale wire_codec =
  fixes to_pb :: "'a \<Rightarrow> 'p" and from_pb :: "'p \<Rightarrow> 'a" and norm :: "'a \<Rightarrow> 'a"
  assumes decoded: "from_pb (to_pb x) = norm x"
    and stable: "to_pb (norm x) = to_pb x"
begin

lemma norm_idem: "norm (norm x) = norm x"
  using decoded stable by metis

lemma to_pb_eq_iff: "to_pb x = to_pb y \<longleftrightarrow> norm x = norm y"
  using decoded stable by metis

lemma payload:
  "proto_ok P \<Longrightarrow> marshalPayload P (to_pb x) what = Inr b \<Longrightarrow> map_sum id from_pb (unmarshalPayload P b what') = Inr (norm x)"
  by (auto simp: proto_ok_def marshalPayload_def unmarshalPayload_def decoded split: option.splits)

lemma payload_inject:
  assumes P: "proto_ok P" and x: "marshalPayload P (to_pb x) what = Inr b" and y: "marshalPayload P (to_pb y) what' = Inr b"
  shows "norm x = norm y"
  using payload [OF P x, of what] payload [OF P y, of what] by simp

lemma payload_relayed:
  "proto_ok P \<Longrightarrow> marshalPayload P (to_pb x) what = Inr b
    \<Longrightarrow> \<exists>y. map_sum id from_pb (unmarshalPayload P b what') = Inr y \<and> marshalPayload P (to_pb y) what = Inr b"
  using payload stable by metis

end

text \<open>Timestamps and durations of the protobuf library: they give back the instant or the duration.\<close>

locale wellknown_types =
  fixes wk :: wellknown
  assumes ok: "wellknown_ok wk"
begin

lemma duration_back [simp]: "in_int64 d \<Longrightarrow> AsDuration wk (dur_New wk d) = d"
  and time_back [simp]: "AsTime wk (ts_New wk t) = t"
  using ok by (auto simp: wellknown_ok_def)

end

text \<open>
  What the library does: whole seconds and the remaining nanoseconds, counted from the Unix epoch for an instant.
\<close>

definition unix_epoch :: go_time where "unix_epoch = 62135596800 * second"

definition go_wellknown :: wellknown where
  "go_wellknown = \<lparr>dur_New = (\<lambda>d. \<lparr>du_Seconds = quo d second, du_Nanos = rem d second\<rparr>),
     AsDuration = (\<lambda>p. du_Seconds p * second + du_Nanos p),
     ts_New = (\<lambda>t. \<lparr>ts_Seconds = (t - unix_epoch) div second, ts_Nanos = (t - unix_epoch) mod second\<rparr>),
     AsTime = (\<lambda>p. unix_epoch + ts_Seconds p * second + ts_Nanos p)\<rparr>"

lemma quo_rem: "rem d second + second * quo d second = d"
  by (simp add: quo_def rem_def)

lemma go_wellknown_ok: "wellknown_ok go_wellknown"
  by (simp add: wellknown_ok_def go_wellknown_def quo_rem algebra_simps)

interpretation go_wk: wellknown_types go_wellknown
  by unfold_locales (rule go_wellknown_ok)


section \<open>The conversions of wire.go\<close>

named_theorems wire_simps \<open>decoding what was encoded\<close>

lemma scalars_back [wire_simps]:
  "intPtrFromProto (intPtrToProto p) = p" "rawFromProto (rawToProto r) = r"
  by (simp_all add: intPtrToProto_def intPtrFromProto_def rawToProto_def rawFromProto_def split: option.splits)

lemma get_or_Some [wire_simps]: "get_or z f (Some m) = f m" and get_or_None [wire_simps]: "get_or z f None = z"
  by (simp_all add: get_or_def)

lemma raw_parts [wire_simps]: "rawToProto r = r" "rawFromProto r = r"
  by (simp_all add: rawToProto_def rawFromProto_def)

lemma map_back: "(\<And>x. g (f x) = x) \<Longrightarrow> map g (map f xs) = xs"
  by (simp add: map_idI)

lemma reasoningConfig_back [wire_simps]: "reasoningConfigFromProto (reasoningConfigToProto r) = r"
  by (simp add: reasoningConfigFromProto_def reasoningConfigToProto_def split: option.splits)

lemma reasoningBlock_back [wire_simps]: "reasoningBlockFromProto (reasoningBlockToProto b) = b"
  by (simp add: reasoningBlockFromProto_def reasoningBlockToProto_def)

lemma reasoningBlocks_back [wire_simps]: "reasoningBlocksFromProto (reasoningBlocksToProto bs) = bs"
  unfolding reasoningBlocksFromProto_def reasoningBlocksToProto_def by (rule map_back) (rule wire_simps)

lemma contentPart_back [wire_simps]: "contentPartFromProto (contentPartToProto c) = c"
  by (cases c) (simp add: contentPartFromProto_def contentPartToProto_def option.map_comp comp_def option.map_ident_strong)

lemma contentParts_back [wire_simps]: "contentPartsFromProto (contentPartsToProto cs) = cs"
  unfolding contentPartsFromProto_def contentPartsToProto_def by (rule map_back) (rule wire_simps)

lemma toolCall_back [wire_simps]: "toolCallFromProto (toolCallToProto c) = c"
  by (simp add: toolCallFromProto_def toolCallToProto_def get_or_def)

lemma toolCalls_back [wire_simps]: "toolCallsFromProto (toolCallsToProto cs) = cs"
  unfolding toolCallsFromProto_def toolCallsToProto_def by (rule map_back) (rule wire_simps)

lemma tool_back [wire_simps]: "toolFromProto (toolToProto t) = t"
  by (simp add: toolFromProto_def toolToProto_def wire_simps)

lemma tools_back [wire_simps]: "toolsFromProto (toolsToProto ts) = ts"
  unfolding toolsFromProto_def toolsToProto_def by (rule map_back) (rule wire_simps)

lemma responseFormat_back [wire_simps]: "responseFormatFromProto (responseFormatToProto r) = r"
  by (cases r) (simp_all add: responseFormatFromProto_def responseFormatToProto_def wire_simps option.map_comp comp_def option.map_ident_strong)

lemma chatMessage_back [wire_simps]: "chatMessageFromProto (Some (chatMessageToProto m)) = m"
  by (simp add: chatMessageFromProto_def chatMessageToProto_def wire_simps)

lemma chatMessages_back [wire_simps]: "chatMessagesFromProto (chatMessagesToProto ms) = ms"
  unfolding chatMessagesFromProto_def chatMessagesToProto_def by (rule map_back) (rule wire_simps)

interpretation chat_request: wire_codec ChatRequestToProto "\<lambda>m. ChatRequestFromProto (Some m)" id
  by unfold_locales (simp_all add: ChatRequestFromProto_def ChatRequestToProto_def wire_simps split_def)

text \<open>An all-zero usage does not cross; a response's usage, not being a pointer, comes back as that zero.\<close>

definition sent_usage :: "Usage option \<Rightarrow> Usage option" where
  "sent_usage u = (if u = Some zero_Usage then None else u)"

lemma usage_zero_iff:
  "us_PromptTokens x = 0 \<and> us_CompletionTokens x = 0 \<and> us_TotalTokens x = 0 \<and> us_ReasoningTokens x = 0 \<longleftrightarrow> x = zero_Usage"
  by (cases x) (simp add: zero_Usage_def)

lemma usage_back [wire_simps]: "usageFromProto (usageToProto u) = sent_usage u"
  by (cases u) (simp_all add: usageFromProto_def usageToProto_def sent_usage_def usage_zero_iff)

lemma usage_stable [wire_simps]: "usageToProto (sent_usage u) = usageToProto u"
  by (cases u) (simp_all add: usageToProto_def sent_usage_def usage_zero_iff)

lemma usage_or_zero_back [wire_simps]: "usage_or_zero (usageToProto (Some u)) = u"
  by (simp add: usage_or_zero_def usage_back sent_usage_def)

lemma toolCallDelta_back [wire_simps]: "toolCallDeltaFromProto (toolCallDeltaToProto c) = c"
  by (simp add: toolCallDeltaFromProto_def toolCallDeltaToProto_def wire_simps)

lemma chatMessageDelta_back [wire_simps]: "chatMessageDeltaFromProto (chatMessageDeltaToProto d) = d"
  by (cases d) (simp add: chatMessageDeltaFromProto_def chatMessageDeltaToProto_def zero_ChatMessageDelta_def wire_simps comp_def
      map_idI option.map_comp option.map_ident_strong)

definition sent_event :: "ChatEvent \<Rightarrow> ChatEvent" where
  "sent_event ev = ev\<lparr>ce_Usage := sent_usage (ce_Usage ev)\<rparr>"

interpretation chat_event: wire_codec ChatEventToProto "\<lambda>m. ChatEventFromProto (Some m)" sent_event
  by unfold_locales (simp_all add: ChatEventFromProto_def ChatEventToProto_def sent_event_def wire_simps)

interpretation embedding_request: wire_codec EmbeddingRequestToProto "\<lambda>m. EmbeddingRequestFromProto (Some m)" id
  by unfold_locales (simp_all add: EmbeddingRequestFromProto_def EmbeddingRequestToProto_def wire_simps)

interpretation embedding_response: wire_codec EmbeddingResponseToProto "\<lambda>m. EmbeddingResponseFromProto (Some m)" id
  by unfold_locales (simp_all add: EmbeddingResponseFromProto_def EmbeddingResponseToProto_def embeddingFromProto_def embeddingToProto_def
      wire_simps comp_def map_idI)

interpretation rerank_request: wire_codec RerankRequestToProto "\<lambda>m. RerankRequestFromProto (Some m)" id
  by unfold_locales (simp_all add: RerankRequestFromProto_def RerankRequestToProto_def wire_simps)

interpretation rerank_response: wire_codec RerankResponseToProto "\<lambda>m. RerankResponseFromProto (Some m)" id
  by unfold_locales (simp_all add: RerankResponseFromProto_def RerankResponseToProto_def rerankResultFromProto_def rerankResultToProto_def
      comp_def map_idI)

lemma capabilitySet_back [wire_simps]: "capabilitySetFromProto (capabilitySetToProto s) = s"
  unfolding capabilitySetFromProto_def capabilitySetToProto_def by (rule map_back) (auto split: prod.splits)

lemma model_back [wire_simps]: "modelFromProto (Some (modelToProto m)) = m"
  by (simp add: modelFromProto_def modelToProto_def wire_simps)

interpretation models: wire_codec ModelsToProto "\<lambda>m. ModelsFromProto (Some m)" id
  by unfold_locales (simp_all add: ModelsFromProto_def ModelsToProto_def wire_simps comp_def)

definition sent_workflow :: "WorkflowRequest \<Rightarrow> WorkflowRequest" where
  "sent_workflow r = r\<lparr>wr_Template := [], wr_MinGPUMemoryBytes := 0\<rparr>"

interpretation workflow_request: wire_codec WorkflowRequestToProto "\<lambda>m. WorkflowRequestFromProto (Some m)" sent_workflow
  by unfold_locales (simp_all add: WorkflowRequestFromProto_def WorkflowRequestToProto_def sent_workflow_def)

lemma artifactRef_back [wire_simps]: "ArtifactRefFromProto (Some (ArtifactRefToProto r)) = r"
  by (simp add: ArtifactRefFromProto_def ArtifactRefToProto_def)

interpretation artifact_ref: wire_codec ArtifactRefToProto "\<lambda>m. ArtifactRefFromProto (Some m)" id
  by unfold_locales (simp_all add: wire_simps)

interpretation artifact_list: wire_codec ArtifactRefsToProto "\<lambda>m. ArtifactRefsFromProto (Some m)" id
  by unfold_locales (simp_all add: ArtifactRefsFromProto_def ArtifactRefsToProto_def wire_simps comp_def)

interpretation input_upload: wire_codec InputUploadMetaToProto "\<lambda>m. InputUploadMetaFromProto (Some m)" id
  by unfold_locales (simp_all add: InputUploadMetaFromProto_def InputUploadMetaToProto_def)

interpretation input_upload_result: wire_codec InputUploadResultToProto "\<lambda>m. InputUploadResultFromProto (Some m)" id
  by unfold_locales (simp_all add: InputUploadResultFromProto_def InputUploadResultToProto_def)

definition sent_task :: "AudioTask \<Rightarrow> AudioTask" where
  "sent_task t = (case t of AudioTaskOther _ \<Rightarrow> AudioTaskOther [] | _ \<Rightarrow> t)"

lemma audioTask_back [wire_simps]: "audioTaskFromProto (audioTaskToProto t) = sent_task t" "audioTaskToProto (sent_task t) = audioTaskToProto t"
  by (cases t; simp add: sent_task_def)+

interpretation audio_request: wire_codec AudioTranscriptionRequestToProto "\<lambda>m. AudioTranscriptionRequestFromProto (Some m)"
    "\<lambda>r. r\<lparr>aq_Task := sent_task (aq_Task r)\<rparr>"
  by unfold_locales (simp_all add: AudioTranscriptionRequestFromProto_def AudioTranscriptionRequestToProto_def wire_simps)

interpretation audio_response: wire_codec AudioTranscriptionResponseToProto "\<lambda>m. AudioTranscriptionResponseFromProto (Some m)" id
  by unfold_locales (simp_all add: AudioTranscriptionResponseFromProto_def AudioTranscriptionResponseToProto_def)


subsection \<open>Messages that carry instants and durations\<close>

text \<open>The queue lengths of a health report travel as 32-bit integers, the latency as a duration.\<close>

definition sent_health :: "HealthReport \<Rightarrow> HealthReport" where
  "sent_health h = h\<lparr>hr_QueueRunning := wrap32 (hr_QueueRunning h), hr_QueuePending := wrap32 (hr_QueuePending h)\<rparr>"

definition sent_snapshot :: "Snapshot \<Rightarrow> Snapshot" where
  "sent_snapshot s = s\<lparr>sn_Health := sent_health (sn_Health s)\<rparr>"

lemma wrap32_idem [simp]: "wrap32 (wrap32 i) = wrap32 i"
  by (simp add: wrap32_def)

lemma wrap32_id: "- 2147483648 \<le> i \<Longrightarrow> i < 2147483648 \<Longrightarrow> wrap32 i = i"
  by (simp add: wrap32_def)

lemma descriptor_back [wire_simps]: "descriptor_in (Some (descriptor_out d)) = d"
  by (simp add: descriptor_in_def descriptor_out_def)

context wellknown_types
begin

lemma times_back [wire_simps]: "timeFromProto wk (timeToProto wk t) = t" "timePtrFromProto wk (timePtrToProto wk p) = p"
  by (simp_all add: timeFromProto_def timeToProto_def timePtrFromProto_def timePtrToProto_def split: option.splits)

lemma durations_back: "in_int64 d \<Longrightarrow> durationFromProto wk (durationToProto wk d) = d"
  by (simp add: durationFromProto_def durationToProto_def)

lemma retryAfter_back: "in_int64 d \<Longrightarrow> max (durationFromProto wk (retryAfterToProto wk d)) 0 = max d 0"
  by (simp add: durationFromProto_def retryAfterToProto_def)

lemma probe_back [wire_simps]: "probe_in wk (Some (probe_out wk p)) = p"
  by (simp add: probe_in_def probe_out_def wire_simps)

lemma health_back: "in_int64 (hr_Latency h) \<Longrightarrow> health_in wk (Some (health_out wk h)) = sent_health h"
  by (simp add: health_in_def health_out_def sent_health_def durations_back wire_simps)

lemma discovery_back [wire_simps]: "discovery_in wk (Some (discovery_out wk d)) = d"
  by (simp add: discovery_in_def discovery_out_def ModelsFromProto_def ModelsToProto_def comp_def wire_simps)

lemma snapshot_back: "in_int64 (hr_Latency (sn_Health s)) \<Longrightarrow> SnapshotFromProto wk (Some (SnapshotToProto wk s)) = sent_snapshot s"
  by (simp add: SnapshotFromProto_def SnapshotToProto_def sent_snapshot_def health_back wire_simps)

end

sublocale wellknown_types \<subseteq> chat_response: wire_codec "ChatResponseToProto wk" "\<lambda>m. ChatResponseFromProto wk (Some m)" id
  by unfold_locales (simp_all add: ChatResponseFromProto_def ChatResponseToProto_def wire_simps)

sublocale wellknown_types \<subseteq> workflow_run: wire_codec "WorkflowRunToProto wk" "\<lambda>m. WorkflowRunFromProto wk (Some m)" id
  by unfold_locales (simp_all add: WorkflowRunFromProto_def WorkflowRunToProto_def wire_simps)

sublocale wellknown_types \<subseteq> workflow_event: wire_codec "WorkflowEventToProto wk" "\<lambda>m. WorkflowEventFromProto wk (Some m)" id
  by unfold_locales (simp_all add: WorkflowEventFromProto_def WorkflowEventToProto_def wire_simps)

sublocale wellknown_types \<subseteq> workflow_status: wire_codec "WorkflowStatusToProto wk" "\<lambda>m. WorkflowStatusFromProto wk (Some m)" id
  by unfold_locales (simp_all add: WorkflowStatusFromProto_def WorkflowStatusToProto_def wire_simps)




section \<open>Properties\<close>

text \<open>
  C37. A chat request that could be encoded is decoded to exactly the request that was sent: every message,
  content part, tool call, tool, sampling parameter (an unset one stays unset, an explicit zero stays a zero),
  response format, reasoning setting and extra field.
\<close>

theorem chat_request_roundtrip:
  assumes "proto_ok P" and "MarshalChatRequest P req = Inr b"
  shows "UnmarshalChatRequest P b = Inr req"
  using assms chat_request.payload [of P req] by (simp add: MarshalChatRequest_def UnmarshalChatRequest_def)

text \<open>
  A streamed chat event arrives as it was sent, with one exception: a usage that is present and all zero
  arrives absent, which a consumer reads as "not the last event".
\<close>

theorem chat_event_roundtrip:
  assumes "proto_ok P" and "MarshalChatEvent P ev = Inr b"
  shows "UnmarshalChatEvent P b = Inr (ev\<lparr>ce_Usage := (if ce_Usage ev = Some zero_Usage then None else ce_Usage ev)\<rparr>)"
  using assms chat_event.payload [of P ev] by (simp add: MarshalChatEvent_def UnmarshalChatEvent_def sent_event_def sent_usage_def)

text \<open>
  What a node reports of its runtimes reaches the Gateway unchanged: descriptors, states, probes, health,
  discovered models with their capabilities, load. Queue lengths are the one lossy field, exact up to 32 bits.
\<close>

theorem snapshot_roundtrip:
  assumes "wellknown_ok wk"
    and "\<forall>s \<in> set snaps. in_int64 (hr_Latency (sn_Health s)) \<and> - (2 ^ 31) \<le> hr_QueueRunning (sn_Health s) \<and> hr_QueueRunning (sn_Health s) < 2 ^ 31
      \<and> - (2 ^ 31) \<le> hr_QueuePending (sn_Health s) \<and> hr_QueuePending (sn_Health s) < 2 ^ 31"
  shows "SnapshotsFromProto wk (SnapshotsToProto wk snaps) = snaps"
proof -
  have "SnapshotFromProto wk (Some (SnapshotToProto wk s)) = s" if "s \<in> set snaps" for s
    using wellknown_types.snapshot_back [OF wellknown_types.intro [OF assms(1)], of s] that assms(2)
    by (simp add: sent_snapshot_def sent_health_def wrap32_id)
  then show ?thesis by (simp add: SnapshotsFromProto_def SnapshotsToProto_def map_idI)
qed

text \<open>
  A runtime's API key does not cross the tunnel: configurations that differ only in the key are sent as the
  same message, and the configuration that arrives has no key, only the reference it was sent with. Everything
  else the message has fields for arrives as sent; the local launch policy, the hosted models, the reasoning
  parser and the account directory do not.
\<close>

theorem config_key_stays:
  assumes "wellknown_ok wk"
    and "\<forall>d \<in> {cfg_ProbeTimeout cfg, cfg_RequestTimeout cfg, cfg_StreamIdleTimeout cfg, cfg_HealthInterval cfg, cfg_DiscoveryInterval cfg}. in_int64 d"
  shows "ConfigToProto wk (cfg\<lparr>cfg_APIKey := key\<rparr>) ref = ConfigToProto wk cfg ref
    \<and> ConfigFromProto wk (Some (ConfigToProto wk cfg ref)) =
        (cfg\<lparr>cfg_APIKey := '''', cfg_AllowUnavailable := False, cfg_Models := [], cfg_ReasoningParser := '''', cfg_AccountDir := ''''\<rparr>, ref)"
proof -
  have kept: "durationFromProto wk (durationToProto wk d) = d" if "in_int64 d" for d
    using wellknown_types.durations_back [OF wellknown_types.intro [OF assms(1)]] that .
  show ?thesis
    using assms(2) by (cases cfg) (simp add: ConfigToProto_def ConfigFromProto_def zero_Config_def zero_TLSConfig_def kept get_or_def)
qed


text \<open>
  Image events: what was accepted and encoded is decoded and accepted, an all-zero usage apart.
\<close>

lemma image_event_roundtrip:
  assumes "proto_ok P" and "MarshalImageEvent P ev = Inr b"
  shows "UnmarshalImageEvent P b = Inr (ev\<lparr>ie_Meta := map_option (\<lambda>m. m\<lparr>im_Usage := sent_usage (im_Usage m)\<rparr>) (ie_Meta ev)\<rparr>)"
  using assms by (cases ev; cases "ie_Meta ev")
    (auto simp: MarshalImageEvent_def UnmarshalImageEvent_def marshalPayload_def unmarshalPayload_def proto_ok_def validImageEvent_def Let_def
      wire_simps split: if_splits option.splits)

text \<open>Three operations send a body after the request headers, not one.\<close>

lemma request_bodies:
  "(\<exists>sp. operationSpecs op = Some sp \<and> os_RequestBody sp)
    \<longleftrightarrow> op = OPERATION_WORKFLOW_SUBMIT \<or> op = OPERATION_INPUT_UPLOAD \<or> op = OPERATION_AUDIO_TRANSCRIBE"
  by (cases op) (simp_all add: spec_def)


section \<open>Witnesses\<close>

text \<open>A protobuf encoder that knows one message.\<close>

definition knows :: "'p \<Rightarrow> 'p protobuf" where
  "knows m = \<lparr>Marshal = (\<lambda>x. if x = m then Some ''m'' else None), Unmarshal = (\<lambda>b. if b = ''m'' then Some m else None)\<rparr>"

lemma knows_ok: "proto_ok (knows m)"
  by (simp add: proto_ok_def knows_def)

lemma knows_payload: "marshalPayload (knows m) m what = Inr ''m''"
  by (simp add: marshalPayload_def knows_def)

definition request_a :: ChatRequest where
  "request_a = zero_ChatRequest\<lparr>cr_Model := ''m'', cr_Temperature := Some 0, cr_Extra := [(''top_k'', ''4'')]\<rparr>"

theorem chat_request_roundtrip_witness:
  "UnmarshalChatRequest (knows (ChatRequestToProto request_a)) ''m'' = Inr request_a \<and> cr_Temperature request_a = Some 0"
  using chat_request_roundtrip [OF knows_ok, of "ChatRequestToProto request_a" request_a "''m''"]
  by (simp add: MarshalChatRequest_def knows_payload request_a_def)

definition event_a :: ChatEvent where
  "event_a = zero_ChatEvent\<lparr>ce_ID := ''e'', ce_Usage := Some zero_Usage\<rparr>"

theorem chat_event_roundtrip_witness:
  "UnmarshalChatEvent (knows (ChatEventToProto event_a)) ''m'' = Inr (event_a\<lparr>ce_Usage := None\<rparr>) \<and> ce_Usage event_a = Some zero_Usage"
  using chat_event_roundtrip [OF knows_ok, of "ChatEventToProto event_a" event_a "''m''"]
  by (simp add: MarshalChatEvent_def knows_payload event_a_def)

definition snapshot_a :: Snapshot where
  "snapshot_a = zero_Snapshot\<lparr>sn_State := ''healthy'', sn_Health := zero_HealthReport\<lparr>hr_QueueRunning := 2, hr_Latency := 5\<rparr>, sn_UpdatedAt := 7\<rparr>"

theorem snapshot_roundtrip_witness:
  "SnapshotsFromProto go_wellknown (SnapshotsToProto go_wellknown [snapshot_a]) = [snapshot_a]"
  by (rule snapshot_roundtrip [OF go_wellknown_ok]) (simp add: snapshot_a_def zero_HealthReport_def in_int64_def min_int64_def max_int64_def)

theorem config_key_stays_witness:
  "ConfigFromProto go_wellknown (Some (ConfigToProto go_wellknown (zero_Config\<lparr>cfg_ID := ''r'', cfg_APIKey := ''secret''\<rparr>) ''ref'')) = (zero_Config\<lparr>cfg_ID := ''r''\<rparr>, ''ref'')"
  using config_key_stays [OF go_wellknown_ok, of "zero_Config\<lparr>cfg_ID := ''r'', cfg_APIKey := ''secret''\<rparr>" "''''" "''ref''"]
  by (simp add: zero_Config_def)


end
