(* ===== verification/Tunnel.thy ===== *)
theory Tunnel
  imports Registry WireCodec
begin

text \<open>
  \<open>service/aiServeWeaveGateway/tunnelserver\<close>: the Gateway's end of the tunnel (\<open>server.go\<close>,
  \<open>node.go\<close>, \<open>slot.go\<close>, \<open>control.go\<close>, \<open>call.go\<close>).

  The server is a machine of goroutines over shared objects. Node entries, slots and calls are objects of a
  heap, known by their position in a list; a Control stream, a Serve stream, a dispatched request and a roster
  (or shutdown) publication are goroutines, each a record with a phase that says where its code stands. A step
  runs one critical section, with the channel operations that follow it; a step that has to wait (a mutex held
  by another goroutine, a \<open>sync.Once\<close> another goroutine is inside) is \<open>None\<close>. The two places that
  take a second mutex inside a critical section hold the first across steps: Control joining a node
  (\<open>n.mu\<close>, then the server's) and \<open>forget\<close> (the server's, then \<open>n.mu\<close>). What the
  environment decides (frames, failures, the caller reading or giving up, the clock) is in the event.

  Metrics and logs are left out, and so are the reports that only the console reads (model pulls, managed
  ComfyUI, CLI usage, remote providers) and the triggers that cause them.
\<close>


section \<open>Definitions\<close>

subsection \<open>Messages\<close>

datatype SlotClass = SLOT_CLASS_UNSPECIFIED | SLOT_CLASS_INFERENCE | SLOT_CLASS_BULK | SLOT_CLASS_other int

record Hello =
  he_NodeId :: string
  he_AgentVersion :: string
  he_Resources :: "int option"
  he_RuntimeIds :: "string list"
  he_Labels :: "(string \<times> string) list"

record Ready =
  rd_NodeId :: string
  rd_SlotId :: string
  rd_Class :: SlotClass

datatype AgentControl = AcHello Hello | AcHeartbeat int int int | AcStatus bool "RuntimeSnapshotPB list" | AcDraining string
  | AcPong | AcReport | AcUnknown

datatype GatewayControl = GcAck string go_time | GcSlotHint int | GcRoster GatewayRoster | GcHbAck int go_time
  | GcShutdown string "duration option"

datatype AgentBody = AfReady Ready | AfPong | AfHeaders string int | AfData string | AfEnd "TunnelError option" | AfUnknown

record AgentFrame =
  fr_RequestId :: string
  fr_Body :: AgentBody

record RequestHeaders =
  rh_RuntimeId :: string
  rh_Operation :: Operation
  rh_DeadlineUnixMs :: int
  rh_Payload :: string
  rh_Trace :: "(string \<times> string) list"

datatype GatewayFrame = GfHeaders string RequestHeaders | GfData string string | GfEnd string | GfCancel string string


subsection \<open>Objects\<close>

datatype once = Fresh | Running | Finished

datatype cause = CauseEOF | CauseText string | CauseStatus status

record node =
  nd_id :: string
  nd_mu :: "nat option"
  nd_controls :: "nat list"
  nd_agentVersion :: string
  nd_resources :: "int option"
  nd_runtimeIDs :: "string list"
  nd_labels :: "(string \<times> string) list"
  nd_snapshots :: "(string \<times> Snapshot) list"
  nd_lastHeartbeat :: go_time
  nd_inflight :: int
  nd_reportedIdle :: int
  nd_draining :: bool
  nd_maintenance :: bool
  nd_idle :: "SlotClass \<Rightarrow> nat list"
  nd_live :: int
  nd_liveByClass :: "SlotClass \<Rightarrow> int"
  nd_revoked :: bool
  nd_revokedOnce :: once

record slot =
  sl_node :: nat
  sl_id :: string
  sl_class :: SlotClass
  sl_parked :: bool
  sl_dead :: bool
  sl_cur :: "nat option"
  sl_closeOnce :: once
  sl_closeErr :: "cause option"
  sl_sent :: "GatewayFrame list"

text \<open>
  The last two fields of a call are not in the code: the slot and the dispatch it was made for, which
  \<open>Dispatch\<close> and \<open>Response\<close> hold beside it. No definition reads them.
\<close>

record call =
  ca_id :: string
  ca_maxFrame :: nat
  ca_done :: bool
  ca_aborted :: "go_error option"
  ca_slot :: nat
  ca_owner :: nat

definition newNode :: "string \<Rightarrow> node" where
  "newNode i = \<lparr>nd_id = i, nd_mu = None, nd_controls = [], nd_agentVersion = '''', nd_resources = None, nd_runtimeIDs = [], nd_labels = [],
     nd_snapshots = [], nd_lastHeartbeat = 0, nd_inflight = 0, nd_reportedIdle = 0, nd_draining = False, nd_maintenance = False,
     nd_idle = (\<lambda>_. []), nd_live = 0, nd_liveByClass = (\<lambda>_. 0), nd_revoked = False, nd_revokedOnce = Fresh\<rparr>"

definition newSlot :: "nat \<Rightarrow> string \<Rightarrow> SlotClass \<Rightarrow> slot" where
  "newSlot e i class = \<lparr>sl_node = e, sl_id = i, sl_class = class, sl_parked = False, sl_dead = False, sl_cur = None, sl_closeOnce = Fresh,
     sl_closeErr = None, sl_sent = []\<rparr>"

definition newCall :: "string \<Rightarrow> nat \<Rightarrow> nat \<Rightarrow> nat \<Rightarrow> call" where
  "newCall i maxFrame k j = \<lparr>ca_id = i, ca_maxFrame = maxFrame, ca_done = False, ca_aborted = None, ca_slot = k, ca_owner = j\<rparr>"


subsection \<open>Goroutines\<close>

datatype stream_result = StreamOk | StreamStatus status | StreamError string

datatype ctl_phase = CtCheck | CtNode | CtJoin nat | CtLocked nat | CtCount nat bool | CtGreet nat nat | CtServe nat
  | CtDrain nat "nat list" | CtUnpark nat nat "nat list" | CtLeave nat stream_result | CtUncount nat stream_result
  | CtForget nat stream_result | CtForgetLocked nat stream_result | CtDone stream_result

record session =
  se_certNodeID :: string
  se_hello :: Hello
  se_phase :: ctl_phase
  se_sent :: "GatewayControl list"

datatype srv_phase = SvCheck | SvNode | SvLive nat | SvPark nat bool | SvOffer nat bool | SvWithdraw nat bool | SvRead nat
  | SvDeliver nat nat AgentFrame | SvFinish nat nat | SvClose nat cause stream_result | SvUnpark nat stream_result
  | SvLeave nat stream_result | SvForget nat stream_result | SvForgetLocked nat stream_result | SvDone stream_result

record serve =
  sv_certNodeID :: string
  sv_ready :: Ready
  sv_phase :: srv_phase

record Request =
  rq_NodeID :: string
  rq_RuntimeID :: string
  rq_Operation :: Operation
  rq_Deadline :: go_time
  rq_Payload :: string
  rq_Body :: "(string list \<times> bool) option"
  rq_Trace :: "(string \<times> string) list"
  rq_Class :: SlotClass

text \<open>
  The body of a request is the chunks its \<open>Body\<close> function sends and whether it then succeeds; it is taken to
  return at once the error a send gives it. The request id is the one of the context, or a fresh one.
\<close>

datatype send_item = SendHeaders RequestHeaders | SendChunk string | BodyFails | SendEnd

datatype dispatch_cause = NoCause | ErrNoIdleSlot | ErrNodeNotConnected | SlotCause cause

type_synonym dispatch_error = "runtime_error \<times> dispatch_cause"

datatype dsp_phase = DpStart | DpAcquire nat | DpBegin nat | DpSend nat nat "send_item list" | DpClose nat cause dispatch_error
  | DpUnpark nat dispatch_error | DpOpen nat nat | DpFailed dispatch_error | DpClosed nat nat

record dispatch =
  dp_req :: Request
  dp_ctxRequestID :: string
  dp_ctxDeadline :: "go_time option"
  dp_freshID :: string
  dp_phase :: dsp_phase
  dp_headers :: "(string \<times> int) option"
  dp_finished :: bool
  dp_outcome :: "go_error option"
  dp_received :: "(nat \<times> AgentFrame) list"

datatype pub_phase = PbTargets | PbBroadcast nat | PbKill | PbKillNode nat | PbKillClose nat "nat list" | PbKillUnpark nat nat "nat list" | PbDone

record publisher =
  pb_frame :: GatewayControl
  pb_maintenance :: "string list option"
  pb_targets :: "nat list"
  pb_toKill :: "nat list"
  pb_phase :: pub_phase

datatype tid = CtlT nat | SrvT nat

record tunnel_config =
  tc_ReplicaID :: string
  tc_SlotHint :: "int option"
  tc_HeartbeatTimeout :: duration
  tc_MaxFrameBytes :: nat
  tc_wellknown :: wellknown
  tc_decode :: "string \<Rightarrow> error_document option"

record tunnel =
  tn_cfg :: tunnel_config
  tn_mu :: "tid option"
  tn_nodes :: "(string \<times> nat) list"
  tn_roster :: "GatewayRoster option"
  tn_revoked :: "string list"
  tn_maintenance :: "string list"
  tn_closed :: bool
  tn_connected :: int
  tn_heap :: "node list"
  tn_slots :: "slot list"
  tn_calls :: "call list"
  tn_sessions :: "session list"
  tn_serves :: "serve list"
  tn_dispatches :: "dispatch list"
  tn_publishers :: "publisher list"

definition DefaultHeartbeatTimeout :: duration where "DefaultHeartbeatTimeout = 45 * second"
definition DefaultMaxFrameBytes :: nat where "DefaultMaxFrameBytes = 4194304"
definition MaxMessagesJSONBytes :: nat where "MaxMessagesJSONBytes = 33554432"
definition MaxTunnelMessageBytes :: nat where "MaxTunnelMessageBytes = MaxMessagesJSONBytes + 1048576"

definition Tunnel_New :: "string \<Rightarrow> int option \<Rightarrow> duration \<Rightarrow> int \<Rightarrow> wellknown \<Rightarrow> (string \<Rightarrow> error_document option) \<Rightarrow> string + tunnel" where
  "Tunnel_New replicaID hint heartbeatTimeout maxFrameBytes wk decode =
     (if replicaID = '''' then Inl ''tunnelserver: ReplicaID is required: an Agent has no other way to name this link in its logs and metrics''
      else Inr \<lparr>tn_cfg = \<lparr>tc_ReplicaID = replicaID, tc_SlotHint = hint,
          tc_HeartbeatTimeout = (if heartbeatTimeout \<le> 0 then DefaultHeartbeatTimeout else heartbeatTimeout),
          tc_MaxFrameBytes = (if maxFrameBytes \<le> 0 then DefaultMaxFrameBytes else nat maxFrameBytes), tc_wellknown = wk, tc_decode = decode\<rparr>,
        tn_mu = None, tn_nodes = [], tn_roster = None, tn_revoked = [], tn_maintenance = [], tn_closed = False, tn_connected = 0,
        tn_heap = [], tn_slots = [], tn_calls = [], tn_sessions = [], tn_serves = [], tn_dispatches = [], tn_publishers = []\<rparr>)"


subsection \<open>Objects in the heap\<close>

definition upd :: "nat \<Rightarrow> ('a \<Rightarrow> 'a) \<Rightarrow> 'a list \<Rightarrow> 'a list" where
  "upd i f xs = (if i < length xs then xs[i := f (xs ! i)] else xs)"

definition nodeAt :: "tunnel \<Rightarrow> nat \<Rightarrow> node" where "nodeAt s e = tn_heap s ! e"
definition slotAt :: "tunnel \<Rightarrow> nat \<Rightarrow> slot" where "slotAt s k = tn_slots s ! k"
definition callAt :: "tunnel \<Rightarrow> nat \<Rightarrow> call" where "callAt s c = tn_calls s ! c"

definition set_node :: "nat \<Rightarrow> (node \<Rightarrow> node) \<Rightarrow> tunnel \<Rightarrow> tunnel" where
  "set_node e f s = s\<lparr>tn_heap := upd e f (tn_heap s)\<rparr>"
definition set_slot :: "nat \<Rightarrow> (slot \<Rightarrow> slot) \<Rightarrow> tunnel \<Rightarrow> tunnel" where
  "set_slot k f s = s\<lparr>tn_slots := upd k f (tn_slots s)\<rparr>"
definition set_call :: "nat \<Rightarrow> (call \<Rightarrow> call) \<Rightarrow> tunnel \<Rightarrow> tunnel" where
  "set_call c f s = s\<lparr>tn_calls := upd c f (tn_calls s)\<rparr>"
definition set_ctl :: "nat \<Rightarrow> ctl_phase \<Rightarrow> tunnel \<Rightarrow> tunnel" where
  "set_ctl i p s = s\<lparr>tn_sessions := upd i (\<lambda>x. x\<lparr>se_phase := p\<rparr>) (tn_sessions s)\<rparr>"
definition set_srv :: "nat \<Rightarrow> srv_phase \<Rightarrow> tunnel \<Rightarrow> tunnel" where
  "set_srv i p s = s\<lparr>tn_serves := upd i (\<lambda>x. x\<lparr>sv_phase := p\<rparr>) (tn_serves s)\<rparr>"
definition set_dsp :: "nat \<Rightarrow> (dispatch \<Rightarrow> dispatch) \<Rightarrow> tunnel \<Rightarrow> tunnel" where
  "set_dsp i f s = s\<lparr>tn_dispatches := upd i f (tn_dispatches s)\<rparr>"
definition set_pub :: "nat \<Rightarrow> (publisher \<Rightarrow> publisher) \<Rightarrow> tunnel \<Rightarrow> tunnel" where
  "set_pub i f s = s\<lparr>tn_publishers := upd i f (tn_publishers s)\<rparr>"
definition session_send :: "nat \<Rightarrow> GatewayControl \<Rightarrow> tunnel \<Rightarrow> tunnel" where
  "session_send i frame s = s\<lparr>tn_sessions := upd i (\<lambda>x. x\<lparr>se_sent := se_sent x @ [frame]\<rparr>) (tn_sessions s)\<rparr>"

text \<open>A critical section under the server's mutex, or under a node's: it waits while the mutex is held.\<close>

definition with_server :: "tunnel \<Rightarrow> tunnel option \<Rightarrow> tunnel option" where
  "with_server s t = (if tn_mu s = None then t else None)"

definition with_node :: "tunnel \<Rightarrow> nat \<Rightarrow> tunnel option \<Rightarrow> tunnel option" where
  "with_node s e t = (if nd_mu (nodeAt s e) = None then t else None)"


subsection \<open>server.go and node.go\<close>

definition isRevoked :: "tunnel \<Rightarrow> string \<Rightarrow> bool" where
  "isRevoked s nodeID \<longleftrightarrow> nodeID \<in> set (tn_revoked s)"

definition isMaintenance :: "tunnel \<Rightarrow> string \<Rightarrow> bool" where
  "isMaintenance s nodeID \<longleftrightarrow> nodeID \<in> set (tn_maintenance s)"

definition Server_node :: "string \<Rightarrow> tunnel \<Rightarrow> (nat \<times> tunnel) option" where
  "Server_node i s = (if tn_closed s then None
     else case map_of (tn_nodes s) i of
       Some e \<Rightarrow> Some (e, s)
     | None \<Rightarrow> Some (length (tn_heap s), s\<lparr>tn_heap := tn_heap s @ [newNode i], tn_nodes := AList.update i (length (tn_heap s)) (tn_nodes s)\<rparr>))"

definition lookup :: "tunnel \<Rightarrow> string \<Rightarrow> nat option" where
  "lookup s i = map_of (tn_nodes s) i"

definition isEmpty :: "node \<Rightarrow> bool" where
  "isEmpty n \<longleftrightarrow> length (nd_controls n) = 0 \<and> nd_live n = 0"

text \<open>\<open>forget\<close>, once it holds the server's mutex: it takes the node's only when the entry is the current one.\<close>

definition forget :: "nat \<Rightarrow> tunnel \<Rightarrow> tunnel option" where
  "forget e s =
     (if map_of (tn_nodes s) (nd_id (nodeAt s e)) = Some e
      then with_node s e (Some (if isEmpty (nodeAt s e) then s\<lparr>tn_nodes := AList.delete (nd_id (nodeAt s e)) (tn_nodes s)\<rparr> else s))
      else Some s)"

definition controlsChanged :: "int \<Rightarrow> tunnel \<Rightarrow> tunnel" where
  "controlsChanged delta s = s\<lparr>tn_connected := tn_connected s + delta\<rparr>"

definition applyStatus :: "bool \<Rightarrow> Snapshot list \<Rightarrow> node \<Rightarrow> node" where
  "applyStatus full snaps n =
     n\<lparr>nd_snapshots := fold (\<lambda>snap. AList.update (dc_ID (sn_Descriptor snap)) snap) snaps (if full then [] else nd_snapshots n)\<rparr>"

definition node_park :: "nat \<Rightarrow> SlotClass \<Rightarrow> node \<Rightarrow> bool \<times> node" where
  "node_park k class n = (if nd_draining n then (False, n) else (True, n\<lparr>nd_idle := (nd_idle n)(class := nd_idle n class @ [k])\<rparr>))"

definition unpark :: "nat \<Rightarrow> SlotClass \<Rightarrow> node \<Rightarrow> node" where
  "unpark k class n = n\<lparr>nd_idle := (nd_idle n)(class := remove1 k (nd_idle n class))\<rparr>"

definition addLive :: "SlotClass \<Rightarrow> int \<Rightarrow> node \<Rightarrow> node" where
  "addLive class delta n = n\<lparr>nd_live := nd_live n + delta, nd_liveByClass := (nd_liveByClass n)(class := max 0 (nd_liveByClass n class + delta))\<rparr>"

definition occupancyLocked :: "node \<Rightarrow> SlotClass \<Rightarrow> int \<times> int" where
  "occupancyLocked n class =
     (let idle = int (length (nd_idle n class)); busy = nd_liveByClass n class - idle in (idle, if busy < 0 then 0 else busy))"

definition slot_take :: "slot \<Rightarrow> bool" where
  "slot_take x \<longleftrightarrow> \<not> (sl_dead x \<or> \<not> sl_parked x)"

text \<open>The stack of parked slots is popped from its end until a slot can be taken.\<close>

fun pop_idle :: "slot list \<Rightarrow> nat list \<Rightarrow> nat option \<times> nat list" where
  "pop_idle slots [] = (None, [])"
| "pop_idle slots (k # rest) = (if slot_take (slots ! k) then (Some k, rest) else pop_idle slots rest)"

definition acquire :: "nat \<Rightarrow> SlotClass \<Rightarrow> tunnel \<Rightarrow> nat option \<times> tunnel" where
  "acquire e class s =
     (let n = nodeAt s e in
      if nd_draining n then (None, s)
      else case pop_idle (tn_slots s) (rev (nd_idle n class)) of (taken, rest) \<Rightarrow>
        (taken, (case taken of None \<Rightarrow> (\<lambda>t. t) | Some k \<Rightarrow> set_slot k (\<lambda>x. x\<lparr>sl_parked := False\<rparr>))
          (set_node e (\<lambda>n. n\<lparr>nd_idle := (nd_idle n)(class := rev rest)\<rparr>) s)))"

text \<open>\<open>broadcast\<close>: the frame is sent on every Control stream the node has.\<close>

definition broadcast :: "GatewayControl \<Rightarrow> nat \<Rightarrow> tunnel \<Rightarrow> tunnel" where
  "broadcast frame e s = fold (\<lambda>i. session_send i frame) (nd_controls (nodeAt s e)) s"

record NodeInfo =
  inf_NodeID :: string
  inf_AgentVersion :: string
  inf_Resources :: "int option"
  inf_RuntimeIDs :: "string list"
  inf_Labels :: "(string \<times> string) list"
  inf_Runtimes :: "Snapshot list"
  inf_IdleSlots :: "SlotClass \<Rightarrow> int"
  inf_InflightRequests :: int
  inf_LastHeartbeat :: go_time
  inf_Draining :: bool
  inf_Maintenance :: bool
  inf_Live :: bool

definition node_info :: "go_time \<Rightarrow> duration \<Rightarrow> node \<Rightarrow> NodeInfo" where
  "node_info now heartbeatTimeout n =
     \<lparr>inf_NodeID = nd_id n, inf_AgentVersion = nd_agentVersion n, inf_Resources = nd_resources n, inf_RuntimeIDs = nd_runtimeIDs n,
      inf_Labels = nd_labels n, inf_Runtimes = stable_sort (\<lambda>a b. dc_ID (sn_Descriptor a) < dc_ID (sn_Descriptor b)) (map snd (nd_snapshots n)),
      inf_IdleSlots = (\<lambda>class. int (length (nd_idle n class))), inf_InflightRequests = nd_inflight n, inf_LastHeartbeat = nd_lastHeartbeat n,
      inf_Draining = nd_draining n, inf_Maintenance = nd_maintenance n,
      inf_Live = (length (nd_controls n) > 0 \<and> \<not> nd_draining n \<and> nd_lastHeartbeat n \<noteq> 0 \<and> time_sub now (nd_lastHeartbeat n) \<le> heartbeatTimeout)\<rparr>"

definition Nodes :: "go_time \<Rightarrow> tunnel \<Rightarrow> NodeInfo list" where
  "Nodes now s = stable_sort (\<lambda>a b. inf_NodeID a < inf_NodeID b)
     (map (\<lambda>(_, e). node_info now (tc_HeartbeatTimeout (tn_cfg s)) (nodeAt s e)) (tn_nodes s))"

definition Node :: "go_time \<Rightarrow> tunnel \<Rightarrow> string \<Rightarrow> NodeInfo option" where
  "Node now s nodeID = map_option (\<lambda>e. node_info now (tc_HeartbeatTimeout (tn_cfg s)) (nodeAt s e)) (lookup s nodeID)"


subsection \<open>slot.go\<close>

definition slotDeathError :: "cause \<Rightarrow> go_error" where
  "slotDeathError cause = RuntimeErr ((zero_runtime_error ErrorConnection)\<lparr>err_Operation := ''tunnel_dispatch'',
     err_Message := ''the tunnel slot closed before the response finished''\<rparr>)"

definition call_abort :: "nat \<Rightarrow> go_error \<Rightarrow> tunnel \<Rightarrow> tunnel" where
  "call_abort c err = set_call c (\<lambda>x. if ca_aborted x = None then x\<lparr>ca_aborted := Some err\<rparr> else x)"

definition call_release :: "nat \<Rightarrow> tunnel \<Rightarrow> tunnel" where
  "call_release c = set_call c (\<lambda>x. x\<lparr>ca_done := True\<rparr>)"

text \<open>
  \<open>slot.close\<close> runs once. \<open>slot_kill\<close> is its first half (marking the slot, closing its \<open>done\<close> channel,
  aborting the request), \<open>slot_removed\<close> the second (out of the idle set); \<open>close_slot\<close> starts it, or
  passes when it has run, or waits while another goroutine runs it.
\<close>

definition slot_kill :: "nat \<Rightarrow> cause \<Rightarrow> tunnel \<Rightarrow> tunnel" where
  "slot_kill k cause s =
     (let t = set_slot k (\<lambda>x. x\<lparr>sl_closeOnce := Running, sl_dead := True, sl_closeErr := Some cause, sl_cur := None, sl_parked := False\<rparr>) s
      in case sl_cur (slotAt s k) of None \<Rightarrow> t | Some c \<Rightarrow> call_abort c (slotDeathError cause) t)"

definition slot_removed :: "nat \<Rightarrow> tunnel \<Rightarrow> tunnel option" where
  "slot_removed k s = with_node s (sl_node (slotAt s k))
     (Some (set_slot k (\<lambda>x. x\<lparr>sl_closeOnce := Finished\<rparr>) (set_node (sl_node (slotAt s k)) (unpark k (sl_class (slotAt s k))) s)))"

definition close_slot :: "nat \<Rightarrow> cause \<Rightarrow> (tunnel \<Rightarrow> tunnel) \<Rightarrow> (tunnel \<Rightarrow> tunnel) \<Rightarrow> tunnel \<Rightarrow> tunnel option" where
  "close_slot k cause started passed s = (case sl_closeOnce (slotAt s k) of
       Fresh \<Rightarrow> Some (started (slot_kill k cause s))
     | Running \<Rightarrow> None
     | Finished \<Rightarrow> Some (passed s))"

definition slot_begin :: "nat \<Rightarrow> nat \<Rightarrow> tunnel \<Rightarrow> cause + tunnel" where
  "slot_begin k c s = (let x = slotAt s k in
     if sl_dead x then Inl (case sl_closeErr x of None \<Rightarrow> CauseEOF | Some e \<Rightarrow> e)
     else if sl_cur x \<noteq> None then Inl (CauseText ''tunnelserver: slot already has a request'')
     else Inr (set_slot k (\<lambda>x. x\<lparr>sl_cur := Some c\<rparr>) s))"

definition slot_finish :: "nat \<Rightarrow> nat \<Rightarrow> tunnel \<Rightarrow> tunnel" where
  "slot_finish k c = set_slot k (\<lambda>x. if sl_cur x = Some c then x\<lparr>sl_cur := None\<rparr> else x)"

definition slot_send :: "nat \<Rightarrow> GatewayFrame \<Rightarrow> tunnel \<Rightarrow> tunnel" where
  "slot_send k frame = set_slot k (\<lambda>x. x\<lparr>sl_sent := sl_sent x @ [frame]\<rparr>)"

definition draining_status :: stream_result where
  "draining_status = StreamStatus (Status Unavailable ''node is draining'' [])"

definition fault :: "nat \<Rightarrow> nat \<Rightarrow> string \<Rightarrow> tunnel \<Rightarrow> tunnel" where
  "fault i k detail = (let st = Status FailedPrecondition detail [] in set_srv i (SvClose k (CauseStatus st) (StreamStatus st)))"

text \<open>\<open>Serve\<close> up to the first critical section: the certificate, the first frame, what it declares.\<close>

definition accept_serve :: "peer \<Rightarrow> AgentBody option \<Rightarrow> stream_result + serve" where
  "accept_serve p first = (case FromPeer p of
       None \<Rightarrow> Inl (StreamStatus (Status Unauthenticated ''no node identity'' []))
     | Some certNodeID \<Rightarrow> (case first of
         None \<Rightarrow> Inl (StreamError ''recv'')
       | Some (AfReady ready) \<Rightarrow>
           if rd_NodeId ready \<noteq> certNodeID
           then Inl (StreamStatus (Status PermissionDenied ''Ready declared a node_id that the client certificate does not authorize'' []))
           else if rd_Class ready = SLOT_CLASS_UNSPECIFIED then Inl (StreamStatus (Status InvalidArgument ''Ready carried no slot class'' []))
           else Inr \<lparr>sv_certNodeID = certNodeID, sv_ready = ready, sv_phase = SvCheck\<rparr>
       | Some _ \<Rightarrow> Inl (StreamStatus (Status InvalidArgument ''first slot frame must be Ready'' []))))"

definition srv_go :: "nat \<Rightarrow> tunnel \<Rightarrow> tunnel option" where
  "srv_go i s = (let x = tn_serves s ! i in case sv_phase x of
       SvCheck \<Rightarrow> with_server s (Some (set_srv i
         (if isRevoked s (sv_certNodeID x) then SvDone (StreamStatus (Status PermissionDenied ''node_id %q is disabled'' [sv_certNodeID x])) else SvNode) s))
     | SvNode \<Rightarrow> with_server s (Some (case Server_node (sv_certNodeID x) s of
           None \<Rightarrow> set_srv i (SvDone (StreamStatus (Status Unavailable ''tunnelserver: replica is shutting down'' []))) s
         | Some (e, t) \<Rightarrow> set_srv i (SvLive e) t))
     | SvLive e \<Rightarrow> with_node s e (Some (set_srv i (SvPark (length (tn_slots s)) True)
         (set_node e (addLive (rd_Class (sv_ready x)) 1)
           (s\<lparr>tn_slots := tn_slots s @ [newSlot e (rd_SlotId (sv_ready x)) (rd_Class (sv_ready x))]\<rparr>))))
     | SvPark k first \<Rightarrow> Some (
         if sl_dead (slotAt s k) then set_srv i (if first then SvLeave k draining_status else SvClose k CauseEOF draining_status) s
         else set_srv i (SvOffer k first) (set_slot k (\<lambda>y. y\<lparr>sl_parked := True\<rparr>) s))
     | SvOffer k first \<Rightarrow> (let e = sl_node (slotAt s k) in with_node s e (Some (
         let t = set_node e (\<lambda>n. snd (node_park k (sl_class (slotAt s k)) n)) s
         in set_srv i (if fst (node_park k (sl_class (slotAt s k)) (nodeAt s e)) then SvRead k else SvWithdraw k first) t)))
     | SvWithdraw k first \<Rightarrow> Some (set_srv i (if first then SvLeave k draining_status else SvClose k CauseEOF draining_status)
         (set_slot k (\<lambda>y. y\<lparr>sl_parked := False\<rparr>) s))
     | SvDeliver k c frame \<Rightarrow>
         if ca_done (callAt s c) \<or> sl_dead (slotAt s k)
         then Some (set_srv i (case fr_Body frame of AfEnd _ \<Rightarrow> SvFinish k c | _ \<Rightarrow> SvRead k) s) else None
     | SvFinish k c \<Rightarrow> Some (set_srv i (SvRead k) (slot_finish k c s))
     | SvClose k cause r \<Rightarrow> close_slot k cause (set_srv i (SvUnpark k r)) (set_srv i (SvLeave k r)) s
     | SvUnpark k r \<Rightarrow> map_option (set_srv i (SvLeave k r)) (slot_removed k s)
     | SvLeave k r \<Rightarrow> (let e = sl_node (slotAt s k) in
         with_node s e (Some (set_srv i (SvForget e r) (set_node e (addLive (sl_class (slotAt s k)) (- 1)) s))))
     | SvForget e r \<Rightarrow> with_server s (Some (set_srv i (SvForgetLocked e r) (s\<lparr>tn_mu := Some (SrvT i)\<rparr>)))
     | SvForgetLocked e r \<Rightarrow> map_option (\<lambda>t. set_srv i (SvDone r) (t\<lparr>tn_mu := None\<rparr>)) (forget e s)
     | _ \<Rightarrow> None)"

definition frame_limit_error :: "nat \<Rightarrow> nat \<Rightarrow> string" where
  "frame_limit_error bytes limit = ''tunnelserver: data chunk of '' @ itoa (int bytes) @ '' bytes exceeds the '' @ itoa (int limit) @ '' byte frame limit''"

text \<open>\<open>readLoop\<close> and \<open>route\<close>, for a frame that has arrived.\<close>

definition route :: "nat \<Rightarrow> nat \<Rightarrow> AgentFrame \<Rightarrow> tunnel \<Rightarrow> tunnel" where
  "route i k frame s = (case sl_cur (slotAt s k) of
       None \<Rightarrow> fault i k ''response frame arrived on an idle slot'' s
     | Some c \<Rightarrow>
         if ca_id (callAt s c) \<noteq> fr_RequestId frame then s
         else case fr_Body frame of
           AfData payload \<Rightarrow>
             if length payload > ca_maxFrame (callAt s c)
             then (let err = frame_limit_error (length payload) (ca_maxFrame (callAt s c))
                   in fault i k err (slot_finish k c (call_abort c (OtherErr err) s)))
             else set_srv i (SvDeliver k c frame) s
         | _ \<Rightarrow> set_srv i (SvDeliver k c frame) s)"

definition srv_recv :: "nat \<Rightarrow> AgentFrame \<Rightarrow> tunnel \<Rightarrow> tunnel option" where
  "srv_recv i frame s = (case sv_phase (tn_serves s ! i) of
       SvRead k \<Rightarrow> Some (case fr_Body frame of
           AfReady _ \<Rightarrow> if sl_cur (slotAt s k) \<noteq> None then fault i k ''Ready arrived while a request was still in flight'' s
             else set_srv i (SvPark k False) s
         | AfPong \<Rightarrow> s
         | AfUnknown \<Rightarrow> s
         | _ \<Rightarrow> route i k frame s)
     | _ \<Rightarrow> None)"

definition srv_end :: "nat \<Rightarrow> stream_result \<Rightarrow> tunnel \<Rightarrow> tunnel option" where
  "srv_end i r s = (case sv_phase (tn_serves s ! i) of
       SvRead k \<Rightarrow> Some (set_srv i (SvClose k CauseEOF r) s)
     | _ \<Rightarrow> None)"


subsection \<open>control.go\<close>

definition accept_control :: "peer \<Rightarrow> AgentControl option \<Rightarrow> stream_result + session" where
  "accept_control p first = (case FromPeer p of
       None \<Rightarrow> Inl (StreamStatus (Status Unauthenticated ''no node identity'' []))
     | Some certNodeID \<Rightarrow> (case first of
         None \<Rightarrow> Inl (StreamError ''recv'')
       | Some (AcHello hello) \<Rightarrow>
           if he_NodeId hello = '''' then Inl (StreamStatus (Status InvalidArgument ''Hello carried no node_id'' []))
           else if he_NodeId hello \<noteq> certNodeID
           then Inl (StreamStatus (Status PermissionDenied ''Hello declared a node_id that the client certificate does not authorize'' []))
           else Inr \<lparr>se_certNodeID = certNodeID, se_hello = hello, se_phase = CtCheck, se_sent = []\<rparr>
       | Some _ \<Rightarrow> Inl (StreamStatus (Status InvalidArgument ''first control frame must be Hello'' []))))"

text \<open>Under the node's mutex: the first part of joining, up to the call that takes the server's mutex too.\<close>

definition node_join :: "nat \<Rightarrow> Hello \<Rightarrow> node \<Rightarrow> node" where
  "node_join i hello n = n\<lparr>nd_mu := Some i, nd_controls := nd_controls n @ [i], nd_agentVersion := he_AgentVersion hello,
     nd_resources := he_Resources hello, nd_runtimeIDs := he_RuntimeIds hello, nd_labels := he_Labels hello, nd_draining := False\<rparr>"

definition node_joined :: "bool \<Rightarrow> go_time \<Rightarrow> node \<Rightarrow> node" where
  "node_joined maintenance now n = n\<lparr>nd_maintenance := maintenance, nd_lastHeartbeat := now, nd_mu := None\<rparr>"

text \<open>Every parked slot of a node, class by class, as \<open>Draining\<close> and \<open>kill\<close> take them.\<close>

definition take_idle :: "SlotClass list \<Rightarrow> node \<Rightarrow> nat list" where
  "take_idle classes n = concat (map (nd_idle n) classes)"

definition node_drain :: "node \<Rightarrow> node" where
  "node_drain n = n\<lparr>nd_draining := True, nd_idle := (\<lambda>_. [])\<rparr>"

text \<open>The classes a node has slots of: those of the slots that were ever opened.\<close>

definition classes_of :: "tunnel \<Rightarrow> SlotClass list" where
  "classes_of s = remdups (map sl_class (tn_slots s))"

definition ctl_go :: "go_time \<Rightarrow> nat \<Rightarrow> tunnel \<Rightarrow> tunnel option" where
  "ctl_go now i s = (let x = tn_sessions s ! i in case se_phase x of
       CtCheck \<Rightarrow> with_server s (Some (set_ctl i
         (if isRevoked s (se_certNodeID x) then CtDone (StreamStatus (Status PermissionDenied ''node_id %q is disabled'' [se_certNodeID x])) else CtNode) s))
     | CtNode \<Rightarrow> with_server s (Some (case Server_node (se_certNodeID x) s of
           None \<Rightarrow> set_ctl i (CtDone (StreamStatus (Status Unavailable ''tunnelserver: replica is shutting down'' []))) s
         | Some (e, t) \<Rightarrow> set_ctl i (CtJoin e) t))
     | CtJoin e \<Rightarrow> with_node s e (Some (set_ctl i (CtLocked e) (set_node e (node_join i (se_hello x)) s)))
     | CtLocked e \<Rightarrow> with_server s (Some (set_ctl i (CtCount e (length (nd_controls (nodeAt s e)) = 1))
         (set_node e (node_joined (isMaintenance s (se_certNodeID x)) now) s)))
     | CtCount e first \<Rightarrow> if first then with_server s (Some (set_ctl i (CtGreet e 0) (controlsChanged 1 s))) else Some (set_ctl i (CtGreet e 0) s)
     | CtGreet e k \<Rightarrow>
         if k = 0 then Some (set_ctl i (CtGreet e 1) (session_send i (GcAck (tc_ReplicaID (tn_cfg s)) now) s))
         else if k = 1 then Some (set_ctl i (CtGreet e 2) (case tc_SlotHint (tn_cfg s) of None \<Rightarrow> s | Some hint \<Rightarrow> session_send i (GcSlotHint hint) s))
         else with_server s (Some (set_ctl i (CtServe e) (case tn_roster s of None \<Rightarrow> s | Some roster \<Rightarrow> session_send i (GcRoster roster) s)))
     | CtServe e \<Rightarrow> if nd_revoked (nodeAt s e) then Some (set_ctl i (CtLeave e (StreamStatus (Status PermissionDenied ''node is disabled'' []))) s) else None
     | CtDrain e ks \<Rightarrow> (case ks of [] \<Rightarrow> Some (set_ctl i (CtServe e) s)
         | k # rest \<Rightarrow> close_slot k (CauseText ''node is draining'') (set_ctl i (CtUnpark e k rest)) (set_ctl i (CtDrain e rest)) s)
     | CtUnpark e k rest \<Rightarrow> map_option (set_ctl i (CtDrain e rest)) (slot_removed k s)
     | CtLeave e r \<Rightarrow> with_node s e (let t = set_node e (\<lambda>n. n\<lparr>nd_controls := remove1 i (nd_controls n)\<rparr>) s in
         Some (set_ctl i (if length (nd_controls (nodeAt t e)) = 0 then CtUncount e r else CtForget e r) t))
     | CtUncount e r \<Rightarrow> with_server s (Some (set_ctl i (CtForget e r) (controlsChanged (- 1) s)))
     | CtForget e r \<Rightarrow> with_server s (Some (set_ctl i (CtForgetLocked e r) (s\<lparr>tn_mu := Some (CtlT i)\<rparr>)))
     | CtForgetLocked e r \<Rightarrow> map_option (\<lambda>t. set_ctl i (CtDone r) (t\<lparr>tn_mu := None\<rparr>)) (forget e s)
     | CtDone r \<Rightarrow> None)"

text \<open>\<open>serveControl\<close>, for a frame that has arrived; \<open>sent\<close> is whether the reply to a heartbeat could be sent.\<close>

definition ctl_recv :: "go_time \<Rightarrow> bool \<Rightarrow> nat \<Rightarrow> AgentControl \<Rightarrow> tunnel \<Rightarrow> tunnel option" where
  "ctl_recv now sent i frame s = (case se_phase (tn_sessions s ! i) of
       CtServe e \<Rightarrow> (case frame of
           AcHeartbeat inflight idle sentMs \<Rightarrow> with_node s e (
             let t = set_node e (\<lambda>n. n\<lparr>nd_lastHeartbeat := now, nd_inflight := inflight, nd_reportedIdle := idle\<rparr>) s
             in Some (if sent then session_send i (GcHbAck sentMs now) t else set_ctl i (CtLeave e (StreamError ''send'')) t))
         | AcStatus full snaps \<Rightarrow> with_node s e (Some (set_node e (applyStatus full (SnapshotsFromProto (tc_wellknown (tn_cfg s)) snaps)) s))
         | AcDraining reason \<Rightarrow> with_node s e (Some (set_ctl i (CtDrain e (take_idle (classes_of s) (nodeAt s e))) (set_node e node_drain s)))
         | AcHello h \<Rightarrow> Some (set_ctl i (CtLeave e (StreamStatus (Status InvalidArgument ''Hello may only be the first frame on a control stream'' []))) s)
         | _ \<Rightarrow> Some s)
     | _ \<Rightarrow> None)"

text \<open>The stream fails, or a send of the greeting does, or the Agent half-closes (\<open>StreamOk\<close>).\<close>

definition ctl_end :: "nat \<Rightarrow> stream_result \<Rightarrow> tunnel \<Rightarrow> tunnel option" where
  "ctl_end i r s = (case se_phase (tn_sessions s ! i) of
       CtServe e \<Rightarrow> Some (set_ctl i (CtLeave e r) s)
     | CtGreet e k \<Rightarrow> Some (set_ctl i (CtLeave e r) s)
     | _ \<Rightarrow> None)"


subsection \<open>call.go\<close>

definition classFor :: "Operation \<Rightarrow> SlotClass" where
  "classFor op = (if op = OPERATION_ARTIFACT_OPEN \<or> op = OPERATION_INPUT_UPLOAD \<or> op = OPERATION_AUDIO_TRANSCRIBE
     then SLOT_CLASS_BULK else SLOT_CLASS_INFERENCE)"

definition request_class :: "Request \<Rightarrow> SlotClass" where
  "request_class req = (if rq_Class req = SLOT_CLASS_UNSPECIFIED then classFor (rq_Operation req) else rq_Class req)"

definition progressiveResponse :: "Operation \<Rightarrow> bool" where
  "progressiveResponse op = (case SpecFor op of Inl _ \<Rightarrow> False | Inr sp \<Rightarrow> os_Shape sp = ShapeStream \<or> os_Shape sp = ShapeBody)"

definition dispatchError :: "error_code \<Rightarrow> Request \<Rightarrow> string \<Rightarrow> bool \<Rightarrow> dispatch_cause \<Rightarrow> dispatch_error" where
  "dispatchError c req msg retryable cause = ((zero_runtime_error c)\<lparr>err_RuntimeID := rq_RuntimeID req, err_Operation := OperationName (rq_Operation req),
     err_Message := msg, err_Retryable := retryable\<rparr>, cause)"

definition request_id :: "dispatch \<Rightarrow> string" where
  "request_id d =
     (if dp_ctxRequestID d \<noteq> '''' then dp_ctxRequestID d
      else case map_of (rq_Trace (dp_req d)) ''request_id'' of
        Some i \<Rightarrow> if i \<noteq> '''' then i else dp_freshID d
      | None \<Rightarrow> dp_freshID d)"

definition call_limit :: "tunnel_config \<Rightarrow> Request \<Rightarrow> nat" where
  "call_limit cfg req = (if rq_Operation req = OPERATION_MESSAGES then max (tc_MaxFrameBytes cfg) MaxTunnelMessageBytes else tc_MaxFrameBytes cfg)"

definition unix_milli :: "go_time \<Rightarrow> int" where
  "unix_milli t = (t - unix_epoch) div 1000000"

definition deadline_ms :: "dispatch \<Rightarrow> int" where
  "deadline_ms d =
     (let own = rq_Deadline (dp_req d);
          deadline = (case dp_ctxDeadline d of None \<Rightarrow> own | Some c \<Rightarrow> if own = 0 \<or> c < own then c else own)
      in if deadline = 0 then 0 else unix_milli deadline)"

definition request_items :: "dispatch \<Rightarrow> send_item list" where
  "request_items d = SendHeaders \<lparr>rh_RuntimeId = rq_RuntimeID (dp_req d), rh_Operation = rq_Operation (dp_req d), rh_DeadlineUnixMs = deadline_ms d,
       rh_Payload = rq_Payload (dp_req d), rh_Trace = rq_Trace (dp_req d)\<rparr>
     # (case rq_Body (dp_req d) of None \<Rightarrow> [] | Some (chunks, ok) \<Rightarrow> map SendChunk chunks @ (if ok then [] else [BodyFails])) @ [SendEnd]"

fun item_frame :: "string \<Rightarrow> send_item \<Rightarrow> GatewayFrame" where
  "item_frame i (SendHeaders h) = GfHeaders i h"
| "item_frame i (SendChunk b) = GfData i b"
| "item_frame i BodyFails = GfData i []"
| "item_frame i SendEnd = GfEnd i"

fun item_error :: "send_item \<Rightarrow> string" where
  "item_error (SendHeaders _) = ''writing the request failed''"
| "item_error (SendChunk _) = ''writing the request body failed''"
| "item_error BodyFails = ''writing the request body failed''"
| "item_error SendEnd = ''closing the request failed''"

text \<open>A chunk over the frame limit is refused before it is sent.\<close>

definition item_refused :: "tunnel_config \<Rightarrow> send_item \<Rightarrow> bool" where
  "item_refused cfg it \<longleftrightarrow> it = BodyFails \<or> (case it of SendChunk b \<Rightarrow> length b > tc_MaxFrameBytes cfg | _ \<Rightarrow> False)"

definition dsp_at :: "nat \<Rightarrow> dsp_phase \<Rightarrow> tunnel \<Rightarrow> tunnel" where
  "dsp_at i p = set_dsp i (\<lambda>d. d\<lparr>dp_phase := p\<rparr>)"

text \<open>\<open>Dispatch\<close>; \<open>sent\<close> is whether a send succeeds.\<close>

definition dsp_go :: "bool \<Rightarrow> nat \<Rightarrow> tunnel \<Rightarrow> tunnel option" where
  "dsp_go sent i s = (let d = tn_dispatches s ! i; req = dp_req d in case dp_phase d of
       DpStart \<Rightarrow>
         if rq_RuntimeID req = '''' then Some (dsp_at i (DpFailed (dispatchError ErrorInvalidConfig req ''request carried no runtime_id'' False NoCause)) s)
         else with_server s (Some (case lookup s (rq_NodeID req) of
             None \<Rightarrow> dsp_at i (DpFailed (dispatchError ErrorConnection req ''node is not connected to this replica'' True ErrNodeNotConnected)) s
           | Some e \<Rightarrow> dsp_at i (DpAcquire e) s))
     | DpAcquire e \<Rightarrow> with_node s e (Some (case acquire e (request_class req) s of
           (None, t) \<Rightarrow> dsp_at i (DpFailed (dispatchError ErrorBackpressure req ''node has no idle slot'' True ErrNoIdleSlot)) t
         | (Some k, t) \<Rightarrow> dsp_at i (DpBegin k) t))
     | DpBegin k \<Rightarrow> (let c = length (tn_calls s); t = s\<lparr>tn_calls := tn_calls s @ [newCall (request_id d) (call_limit (tn_cfg s) req) k i]\<rparr> in
         Some (case slot_begin k c t of
           Inl cause \<Rightarrow> dsp_at i (DpClose k cause (dispatchError ErrorConnection req ''slot closed before the request was written'' True (SlotCause cause))) t
         | Inr u \<Rightarrow> dsp_at i (DpSend k c (request_items d)) u))
     | DpSend k c items \<Rightarrow> Some (case items of [] \<Rightarrow> dsp_at i (DpOpen k c) s
         | it # rest \<Rightarrow>
           if sent \<and> \<not> item_refused (tn_cfg s) it then dsp_at i (DpSend k c rest) (slot_send k (item_frame (request_id d) it) s)
           else dsp_at i (DpClose k (CauseText (item_error it)) (dispatchError ErrorConnection req (item_error it) True (SlotCause (CauseText (item_error it))))) s)
     | DpClose k cause err \<Rightarrow> close_slot k cause (dsp_at i (DpUnpark k err)) (dsp_at i (DpFailed err)) s
     | DpUnpark k err \<Rightarrow> map_option (dsp_at i (DpFailed err)) (slot_removed k s)
     | _ \<Rightarrow> None)"

text \<open>\<open>Response.Recv\<close> taking the frame the slot's reader is handing over.\<close>

definition take_frame :: "tunnel_config \<Rightarrow> nat \<Rightarrow> AgentFrame \<Rightarrow> dispatch \<Rightarrow> dispatch" where
  "take_frame cfg i frame d = (let d' = d\<lparr>dp_received := dp_received d @ [(i, frame)]\<rparr> in case fr_Body frame of
       AfHeaders t n \<Rightarrow> d'\<lparr>dp_headers := Some (t, n)\<rparr>
     | AfEnd None \<Rightarrow> d'\<lparr>dp_finished := True\<rparr>
     | AfEnd (Some pb) \<Rightarrow> d'\<lparr>dp_finished := True, dp_outcome := map_option (\<lambda>e. RuntimeErr (runtime_error.truncate e)) (ErrorFromProto (tc_wellknown cfg) (tc_decode cfg) (Some pb))\<rparr>
     | _ \<Rightarrow> d')"

definition hand_over :: "nat \<Rightarrow> nat \<Rightarrow> tunnel \<Rightarrow> tunnel option" where
  "hand_over i j s = (case (sv_phase (tn_serves s ! i), dp_phase (tn_dispatches s ! j)) of
       (SvDeliver k c frame, DpOpen k' c') \<Rightarrow>
         if c' = c \<and> \<not> dp_finished (tn_dispatches s ! j)
         then Some (set_dsp j (take_frame (tn_cfg s) i frame) (set_srv i (case fr_Body frame of AfEnd _ \<Rightarrow> SvFinish k c | _ \<Rightarrow> SvRead k) s))
         else None
     | _ \<Rightarrow> None)"

text \<open>\<open>Recv\<close> finding the request aborted, or its context over.\<close>

definition dsp_aborted :: "nat \<Rightarrow> tunnel \<Rightarrow> tunnel option" where
  "dsp_aborted j s = (case dp_phase (tn_dispatches s ! j) of
       DpOpen k c \<Rightarrow> (case ca_aborted (callAt s c) of
           Some err \<Rightarrow> if dp_finished (tn_dispatches s ! j) then None else Some (set_dsp j (\<lambda>d. d\<lparr>dp_outcome := Some err\<rparr>) s)
         | None \<Rightarrow> None)
     | _ \<Rightarrow> None)"

definition dsp_canceled :: "nat \<Rightarrow> go_error \<Rightarrow> tunnel \<Rightarrow> tunnel option" where
  "dsp_canceled j err s = (case dp_phase (tn_dispatches s ! j) of
       DpOpen k c \<Rightarrow> if dp_finished (tn_dispatches s ! j) then None else Some (set_dsp j (\<lambda>d. d\<lparr>dp_outcome := Some err\<rparr>) s)
     | _ \<Rightarrow> None)"

definition Response_Close :: "nat \<Rightarrow> tunnel \<Rightarrow> tunnel option" where
  "Response_Close j s = (case dp_phase (tn_dispatches s ! j) of
       DpOpen k c \<Rightarrow> Some (dsp_at j (DpClosed k c) (call_release c
         (if dp_finished (tn_dispatches s ! j) then s else slot_send k (GfCancel (ca_id (callAt s c)) ''gateway_cancel'') s)))
     | _ \<Rightarrow> None)"


subsection \<open>Rosters and shutdown\<close>

definition SetRoster :: "GatewayRoster \<Rightarrow> tunnel \<Rightarrow> tunnel option" where
  "SetRoster roster s = with_server s (Some (
     let targets = map snd (tn_nodes s)
     in s\<lparr>tn_roster := Some roster, tn_revoked := ro_RevokedNodeIds roster, tn_maintenance := ro_MaintenanceNodeIds roster,
          tn_publishers := tn_publishers s @ [\<lparr>pb_frame = GcRoster roster, pb_maintenance = Some (ro_MaintenanceNodeIds roster), pb_targets = targets,
            pb_toKill = filter (\<lambda>e. nd_id (nodeAt s e) \<in> set (ro_RevokedNodeIds roster)) targets, pb_phase = PbTargets\<rparr>]\<rparr>))"

definition durationProto :: "duration \<Rightarrow> duration option" where
  "durationProto d = (if d \<le> 0 then None else Some d)"

definition Tunnel_Close :: "string \<Rightarrow> duration \<Rightarrow> tunnel \<Rightarrow> tunnel option" where
  "Tunnel_Close reason grace s = with_server s (Some (
     if tn_closed s then s
     else s\<lparr>tn_closed := True, tn_publishers := tn_publishers s @ [\<lparr>pb_frame = GcShutdown reason (durationProto grace), pb_maintenance = None,
       pb_targets = map snd (tn_nodes s), pb_toKill = [], pb_phase = PbTargets\<rparr>]\<rparr>))"

definition pub_at :: "nat \<Rightarrow> pub_phase \<Rightarrow> tunnel \<Rightarrow> tunnel" where
  "pub_at i p = set_pub i (\<lambda>x. x\<lparr>pb_phase := p\<rparr>)"

text \<open>The loops of \<open>SetRoster\<close> and \<open>Close\<close> over the nodes, and \<open>kill\<close> of a revoked one, which runs once.\<close>

definition pub_go :: "nat \<Rightarrow> tunnel \<Rightarrow> tunnel option" where
  "pub_go i s = (let x = tn_publishers s ! i in case pb_phase x of
       PbTargets \<Rightarrow> (case pb_targets x of [] \<Rightarrow> Some (pub_at i PbKill s)
         | e # rest \<Rightarrow> (case pb_maintenance x of
             None \<Rightarrow> Some (set_pub i (\<lambda>y. y\<lparr>pb_targets := rest, pb_phase := PbBroadcast e\<rparr>) s)
           | Some ids \<Rightarrow> with_node s e (Some (set_pub i (\<lambda>y. y\<lparr>pb_targets := rest, pb_phase := PbBroadcast e\<rparr>)
               (set_node e (\<lambda>n. n\<lparr>nd_maintenance := nd_id n \<in> set ids\<rparr>) s)))))
     | PbBroadcast e \<Rightarrow> with_node s e (Some (pub_at i PbTargets (broadcast (pb_frame x) e s)))
     | PbKill \<Rightarrow> (case pb_toKill x of [] \<Rightarrow> Some (pub_at i PbDone s)
         | e # rest \<Rightarrow> (case nd_revokedOnce (nodeAt s e) of
             Fresh \<Rightarrow> Some (set_pub i (\<lambda>y. y\<lparr>pb_toKill := rest, pb_phase := PbKillNode e\<rparr>)
               (set_node e (\<lambda>n. n\<lparr>nd_revokedOnce := Running, nd_revoked := True\<rparr>) s))
           | Running \<Rightarrow> None
           | Finished \<Rightarrow> Some (set_pub i (\<lambda>y. y\<lparr>pb_toKill := rest\<rparr>) s)))
     | PbKillNode e \<Rightarrow> with_node s e (Some (pub_at i (PbKillClose e (take_idle (classes_of s) (nodeAt s e))) (set_node e node_drain s)))
     | PbKillClose e ks \<Rightarrow> (case ks of [] \<Rightarrow> Some (pub_at i PbKill (set_node e (\<lambda>n. n\<lparr>nd_revokedOnce := Finished\<rparr>) s))
         | k # rest \<Rightarrow> close_slot k (CauseText ''node is disabled'') (pub_at i (PbKillUnpark e k rest)) (pub_at i (PbKillClose e rest)) s)
     | PbKillUnpark e k rest \<Rightarrow> map_option (pub_at i (PbKillClose e rest)) (slot_removed k s)
     | PbDone \<Rightarrow> None)"


subsection \<open>Steps\<close>

datatype event =
    ControlOpen peer "AgentControl option" | ServeOpen peer "AgentBody option" | DispatchStart Request string "go_time option" string
  | RosterSet GatewayRoster | CloseServer string duration
  | CtlGo go_time nat | CtlRecv go_time bool nat AgentControl | CtlEnd nat stream_result
  | SrvGo nat | SrvRecv nat AgentFrame | SrvEnd nat stream_result
  | DspGo bool nat | HandOver nat nat | DspAborted nat | DspCanceled nat go_error | DspClose nat
  | PubGo nat

definition start_dispatch :: "Request \<Rightarrow> string \<Rightarrow> go_time option \<Rightarrow> string \<Rightarrow> dispatch" where
  "start_dispatch req ctxID ctxDeadline fresh = \<lparr>dp_req = req, dp_ctxRequestID = ctxID, dp_ctxDeadline = ctxDeadline, dp_freshID = fresh,
     dp_phase = DpStart, dp_headers = None, dp_finished = False, dp_outcome = None, dp_received = []\<rparr>"

fun tunnel_next :: "event \<Rightarrow> tunnel \<Rightarrow> tunnel option" where
  "tunnel_next (ControlOpen p first) s = Some (case accept_control p first of Inl _ \<Rightarrow> s | Inr x \<Rightarrow> s\<lparr>tn_sessions := tn_sessions s @ [x]\<rparr>)"
| "tunnel_next (ServeOpen p first) s = Some (case accept_serve p first of Inl _ \<Rightarrow> s | Inr x \<Rightarrow> s\<lparr>tn_serves := tn_serves s @ [x]\<rparr>)"
| "tunnel_next (DispatchStart req ctxID ctxDeadline fresh) s = Some (s\<lparr>tn_dispatches := tn_dispatches s @ [start_dispatch req ctxID ctxDeadline fresh]\<rparr>)"
| "tunnel_next (RosterSet roster) s = SetRoster roster s"
| "tunnel_next (CloseServer reason grace) s = Tunnel_Close reason grace s"
| "tunnel_next (CtlGo now i) s = (if i < length (tn_sessions s) then ctl_go now i s else None)"
| "tunnel_next (CtlRecv now sent i frame) s = (if i < length (tn_sessions s) then ctl_recv now sent i frame s else None)"
| "tunnel_next (CtlEnd i r) s = (if i < length (tn_sessions s) then ctl_end i r s else None)"
| "tunnel_next (SrvGo i) s = (if i < length (tn_serves s) then srv_go i s else None)"
| "tunnel_next (SrvRecv i frame) s = (if i < length (tn_serves s) then srv_recv i frame s else None)"
| "tunnel_next (SrvEnd i r) s = (if i < length (tn_serves s) then srv_end i r s else None)"
| "tunnel_next (DspGo sent j) s = (if j < length (tn_dispatches s) then dsp_go sent j s else None)"
| "tunnel_next (HandOver i j) s = (if i < length (tn_serves s) \<and> j < length (tn_dispatches s) then hand_over i j s else None)"
| "tunnel_next (DspAborted j) s = (if j < length (tn_dispatches s) then dsp_aborted j s else None)"
| "tunnel_next (DspCanceled j err) s = (if j < length (tn_dispatches s) then dsp_canceled j err s else None)"
| "tunnel_next (DspClose j) s = (if j < length (tn_dispatches s) then Response_Close j s else None)"
| "tunnel_next (PubGo i) s = (if i < length (tn_publishers s) then pub_go i s else None)"

inductive tunnel_step :: "tunnel \<Rightarrow> event \<Rightarrow> tunnel \<Rightarrow> bool" where
  tunnel_step: "tunnel_next e s = Some t \<Longrightarrow> tunnel_step s e t"


section \<open>Frames\<close>

lemma set_node_frame [simp]:
  "tn_cfg (set_node e f s) = tn_cfg s"
  "tn_mu (set_node e f s) = tn_mu s"
  "tn_nodes (set_node e f s) = tn_nodes s"
  "tn_roster (set_node e f s) = tn_roster s"
  "tn_revoked (set_node e f s) = tn_revoked s"
  "tn_maintenance (set_node e f s) = tn_maintenance s"
  "tn_closed (set_node e f s) = tn_closed s"
  "tn_connected (set_node e f s) = tn_connected s"
  "tn_slots (set_node e f s) = tn_slots s"
  "tn_calls (set_node e f s) = tn_calls s"
  "tn_sessions (set_node e f s) = tn_sessions s"
  "tn_serves (set_node e f s) = tn_serves s"
  "tn_dispatches (set_node e f s) = tn_dispatches s"
  "tn_publishers (set_node e f s) = tn_publishers s"
  by (simp_all add: set_node_def)

lemma set_slot_frame [simp]:
  "tn_cfg (set_slot k g s) = tn_cfg s"
  "tn_mu (set_slot k g s) = tn_mu s"
  "tn_nodes (set_slot k g s) = tn_nodes s"
  "tn_roster (set_slot k g s) = tn_roster s"
  "tn_revoked (set_slot k g s) = tn_revoked s"
  "tn_maintenance (set_slot k g s) = tn_maintenance s"
  "tn_closed (set_slot k g s) = tn_closed s"
  "tn_connected (set_slot k g s) = tn_connected s"
  "tn_heap (set_slot k g s) = tn_heap s"
  "tn_calls (set_slot k g s) = tn_calls s"
  "tn_sessions (set_slot k g s) = tn_sessions s"
  "tn_serves (set_slot k g s) = tn_serves s"
  "tn_dispatches (set_slot k g s) = tn_dispatches s"
  "tn_publishers (set_slot k g s) = tn_publishers s"
  by (simp_all add: set_slot_def)

lemma set_call_frame [simp]:
  "tn_cfg (set_call c h s) = tn_cfg s"
  "tn_mu (set_call c h s) = tn_mu s"
  "tn_nodes (set_call c h s) = tn_nodes s"
  "tn_roster (set_call c h s) = tn_roster s"
  "tn_revoked (set_call c h s) = tn_revoked s"
  "tn_maintenance (set_call c h s) = tn_maintenance s"
  "tn_closed (set_call c h s) = tn_closed s"
  "tn_connected (set_call c h s) = tn_connected s"
  "tn_heap (set_call c h s) = tn_heap s"
  "tn_slots (set_call c h s) = tn_slots s"
  "tn_sessions (set_call c h s) = tn_sessions s"
  "tn_serves (set_call c h s) = tn_serves s"
  "tn_dispatches (set_call c h s) = tn_dispatches s"
  "tn_publishers (set_call c h s) = tn_publishers s"
  by (simp_all add: set_call_def)

lemma set_ctl_frame [simp]:
  "tn_cfg (set_ctl i p s) = tn_cfg s"
  "tn_mu (set_ctl i p s) = tn_mu s"
  "tn_nodes (set_ctl i p s) = tn_nodes s"
  "tn_roster (set_ctl i p s) = tn_roster s"
  "tn_revoked (set_ctl i p s) = tn_revoked s"
  "tn_maintenance (set_ctl i p s) = tn_maintenance s"
  "tn_closed (set_ctl i p s) = tn_closed s"
  "tn_connected (set_ctl i p s) = tn_connected s"
  "tn_heap (set_ctl i p s) = tn_heap s"
  "tn_slots (set_ctl i p s) = tn_slots s"
  "tn_calls (set_ctl i p s) = tn_calls s"
  "tn_serves (set_ctl i p s) = tn_serves s"
  "tn_dispatches (set_ctl i p s) = tn_dispatches s"
  "tn_publishers (set_ctl i p s) = tn_publishers s"
  by (simp_all add: set_ctl_def)

lemma session_send_frame [simp]:
  "tn_cfg (session_send i m s) = tn_cfg s"
  "tn_mu (session_send i m s) = tn_mu s"
  "tn_nodes (session_send i m s) = tn_nodes s"
  "tn_roster (session_send i m s) = tn_roster s"
  "tn_revoked (session_send i m s) = tn_revoked s"
  "tn_maintenance (session_send i m s) = tn_maintenance s"
  "tn_closed (session_send i m s) = tn_closed s"
  "tn_connected (session_send i m s) = tn_connected s"
  "tn_heap (session_send i m s) = tn_heap s"
  "tn_slots (session_send i m s) = tn_slots s"
  "tn_calls (session_send i m s) = tn_calls s"
  "tn_serves (session_send i m s) = tn_serves s"
  "tn_dispatches (session_send i m s) = tn_dispatches s"
  "tn_publishers (session_send i m s) = tn_publishers s"
  by (simp_all add: session_send_def)

lemma set_srv_frame [simp]:
  "tn_cfg (set_srv i q s) = tn_cfg s"
  "tn_mu (set_srv i q s) = tn_mu s"
  "tn_nodes (set_srv i q s) = tn_nodes s"
  "tn_roster (set_srv i q s) = tn_roster s"
  "tn_revoked (set_srv i q s) = tn_revoked s"
  "tn_maintenance (set_srv i q s) = tn_maintenance s"
  "tn_closed (set_srv i q s) = tn_closed s"
  "tn_connected (set_srv i q s) = tn_connected s"
  "tn_heap (set_srv i q s) = tn_heap s"
  "tn_slots (set_srv i q s) = tn_slots s"
  "tn_calls (set_srv i q s) = tn_calls s"
  "tn_sessions (set_srv i q s) = tn_sessions s"
  "tn_dispatches (set_srv i q s) = tn_dispatches s"
  "tn_publishers (set_srv i q s) = tn_publishers s"
  by (simp_all add: set_srv_def)

lemma set_dsp_frame [simp]:
  "tn_cfg (set_dsp j d s) = tn_cfg s"
  "tn_mu (set_dsp j d s) = tn_mu s"
  "tn_nodes (set_dsp j d s) = tn_nodes s"
  "tn_roster (set_dsp j d s) = tn_roster s"
  "tn_revoked (set_dsp j d s) = tn_revoked s"
  "tn_maintenance (set_dsp j d s) = tn_maintenance s"
  "tn_closed (set_dsp j d s) = tn_closed s"
  "tn_connected (set_dsp j d s) = tn_connected s"
  "tn_heap (set_dsp j d s) = tn_heap s"
  "tn_slots (set_dsp j d s) = tn_slots s"
  "tn_calls (set_dsp j d s) = tn_calls s"
  "tn_sessions (set_dsp j d s) = tn_sessions s"
  "tn_serves (set_dsp j d s) = tn_serves s"
  "tn_publishers (set_dsp j d s) = tn_publishers s"
  by (simp_all add: set_dsp_def)

lemma set_pub_frame [simp]:
  "tn_cfg (set_pub i u s) = tn_cfg s"
  "tn_mu (set_pub i u s) = tn_mu s"
  "tn_nodes (set_pub i u s) = tn_nodes s"
  "tn_roster (set_pub i u s) = tn_roster s"
  "tn_revoked (set_pub i u s) = tn_revoked s"
  "tn_maintenance (set_pub i u s) = tn_maintenance s"
  "tn_closed (set_pub i u s) = tn_closed s"
  "tn_connected (set_pub i u s) = tn_connected s"
  "tn_heap (set_pub i u s) = tn_heap s"
  "tn_slots (set_pub i u s) = tn_slots s"
  "tn_calls (set_pub i u s) = tn_calls s"
  "tn_sessions (set_pub i u s) = tn_sessions s"
  "tn_serves (set_pub i u s) = tn_serves s"
  "tn_dispatches (set_pub i u s) = tn_dispatches s"
  by (simp_all add: set_pub_def)

lemma controlsChanged_frame [simp]:
  "tn_cfg (controlsChanged v s) = tn_cfg s"
  "tn_mu (controlsChanged v s) = tn_mu s"
  "tn_nodes (controlsChanged v s) = tn_nodes s"
  "tn_roster (controlsChanged v s) = tn_roster s"
  "tn_revoked (controlsChanged v s) = tn_revoked s"
  "tn_maintenance (controlsChanged v s) = tn_maintenance s"
  "tn_closed (controlsChanged v s) = tn_closed s"
  "tn_heap (controlsChanged v s) = tn_heap s"
  "tn_slots (controlsChanged v s) = tn_slots s"
  "tn_calls (controlsChanged v s) = tn_calls s"
  "tn_sessions (controlsChanged v s) = tn_sessions s"
  "tn_serves (controlsChanged v s) = tn_serves s"
  "tn_dispatches (controlsChanged v s) = tn_dispatches s"
  "tn_publishers (controlsChanged v s) = tn_publishers s"
  by (simp_all add: controlsChanged_def)

lemma length_upd [simp]: "length (upd i f xs) = length xs"
  by (simp add: upd_def)

lemma upd_nth: "k < length xs \<Longrightarrow> upd i f xs ! k = (if k = i then f (xs ! k) else xs ! k)"
  by (simp add: upd_def nth_list_update)

lemma upd_nth_same [simp]: "i < length xs \<Longrightarrow> upd i f xs ! i = f (xs ! i)"
  by (simp add: upd_nth)

lemma map_upd: "(\<And>x. g (f x) = g x) \<Longrightarrow> map g (upd i f xs) = map g xs"
  by (simp add: upd_def map_update list_update_same_conv)

lemma set_updates [simp]:
  "tn_heap (set_node e f s) = upd e f (tn_heap s)" "tn_slots (set_slot k g s) = upd k g (tn_slots s)"
  "tn_calls (set_call c h s) = upd c h (tn_calls s)" "tn_sessions (set_ctl i p s) = upd i (\<lambda>x. x\<lparr>se_phase := p\<rparr>) (tn_sessions s)"
  "tn_sessions (session_send i m s) = upd i (\<lambda>x. x\<lparr>se_sent := se_sent x @ [m]\<rparr>) (tn_sessions s)"
  "tn_serves (set_srv i q s) = upd i (\<lambda>x. x\<lparr>sv_phase := q\<rparr>) (tn_serves s)" "tn_dispatches (set_dsp j d s) = upd j d (tn_dispatches s)"
  "tn_publishers (set_pub i u s) = upd i u (tn_publishers s)" "tn_connected (controlsChanged v s) = tn_connected s + v"
  by (simp_all add: set_node_def set_slot_def set_call_def set_ctl_def session_send_def set_srv_def set_dsp_def set_pub_def controlsChanged_def)

end
