(* ===== verification/TunnelTraces.thy ===== *)
theory TunnelTraces
  imports Tunnel
begin

text \<open>
  Concrete histories of the tunnel server: sequences of events run by \<open>tunnel_next\<close>, one node, its streams
  and requests. They show that the properties of \<open>TunnelSafety\<close> and \<open>TunnelRaces\<close> speak of
  something that happens.
\<close>


section \<open>Running a sequence of events\<close>

primrec trace_of :: "event list \<Rightarrow> tunnel \<Rightarrow> tunnel option" where
  "trace_of [] s = Some s"
| "trace_of (e # es) s = (case tunnel_next e s of None \<Rightarrow> None | Some t \<Rightarrow> trace_of es t)"

lemma trace_of_run: "trace_of es s = Some t \<Longrightarrow> run tunnel_step s es t"
proof (induction es arbitrary: s)
  case (Cons e es)
  then obtain u where "tunnel_step s e u" "run tunnel_step u es t" by (auto split: option.splits intro: tunnel_step.intros)
  then show ?case using run_append [of tunnel_step s "[e]" u es t] run_snoc [OF run_Nil, of tunnel_step s e u] by simp
qed (simp add: run_Nil)

lemma trace_of_append: "trace_of (es @ fs) s = (case trace_of es s of None \<Rightarrow> None | Some t \<Rightarrow> trace_of fs t)"
  by (induction es arbitrary: s) (auto split: option.splits)

definition peer_n :: peer where
  "peer_n = TLS [[Some \<lparr>ct_SerialNumber = 1, ct_CommonName = '''', ct_URIs = [], ct_DNSNames = [''n''], ct_NotBefore = 0, ct_NotAfter = 1, ct_PublicKey = ''k'', ct_ClientAuth = True\<rparr>]]"

definition ready_n :: Ready where
  "ready_n = \<lparr>rd_NodeId = ''n'', rd_SlotId = ''s'', rd_Class = SLOT_CLASS_INFERENCE\<rparr>"

definition request_n :: Request where
  "request_n = \<lparr>rq_NodeID = ''n'', rq_RuntimeID = ''v'', rq_Operation = OPERATION_CHAT, rq_Deadline = 0, rq_Payload = ''p'', rq_Body = None, rq_Trace = [],
     rq_Class = SLOT_CLASS_UNSPECIFIED\<rparr>"

definition end_frame :: "string \<Rightarrow> AgentFrame" where
  "end_frame i = \<lparr>fr_RequestId = i, fr_Body = AfEnd None\<rparr>"

definition tunnel_a :: tunnel where
  "tunnel_a = (case Tunnel_New ''g'' None 0 64 go_wellknown (\<lambda>_. None) of Inr s \<Rightarrow> s)"

text \<open>A slot opens, takes a request and is given its answer; then it is parked again and takes a second request.\<close>

definition first_request :: "event list" where
  "first_request = ServeOpen peer_n (Some (AfReady ready_n)) # replicate 5 (SrvGo 0) @ DispatchStart request_n ''r1'' None '''' # replicate 6 (DspGo True 0)"

definition second_request :: "event list" where
  "second_request = [SrvRecv 0 (end_frame ''r1''), HandOver 0 0, SrvGo 0, SrvRecv 0 \<lparr>fr_RequestId = '''', fr_Body = AfReady ready_n\<rparr>, SrvGo 0, SrvGo 0,
     DispatchStart request_n ''r2'' None '''', DspGo True 1, DspGo True 1, DspGo True 1]"

lemma tunnel_a_new: "Tunnel_New ''g'' None 0 64 go_wellknown (\<lambda>_. None) = Inr tunnel_a"
  by (simp add: tunnel_a_def Tunnel_New_def)

section \<open>Races\<close>

definition hello_n :: Hello where
  "hello_n = \<lparr>he_NodeId = ''n'', he_AgentVersion = ''1'', he_Resources = None, he_RuntimeIds = [], he_Labels = []\<rparr>"

definition control_open :: event where
  "control_open = ControlOpen peer_n (Some (AcHello hello_n))"

definition roster_n :: "int \<Rightarrow> string list \<Rightarrow> GatewayRoster" where
  "roster_n v revoked = \<lparr>ro_Replicas = [], ro_Version = v, ro_RevokedNodeIds = revoked, ro_MaintenanceNodeIds = []\<rparr>"

text \<open>The Agent reconnects (session 1) while the Gateway is noticing that its first stream (session 0) has ended.\<close>

definition reconnecting :: "event list" where
  "reconnecting = control_open # replicate 8 (CtlGo 1 0) @ [control_open, CtlGo 2 1, CtlGo 2 1, CtlEnd 0 StreamOk, CtlGo 3 0, CtlGo 3 0]"

definition deadlock_events :: "event list" where
  "deadlock_events = reconnecting @ [CtlGo 4 1, CtlGo 4 0]"

definition orphan_events :: "event list" where
  "orphan_events = reconnecting @ [CtlGo 4 0, CtlGo 4 0] @ replicate 6 (CtlGo 5 1)"

text \<open>A node is disabled while its Control stream is between the check and the lookup of its entry.\<close>

definition revoke_events :: "event list" where
  "revoke_events = [control_open, CtlGo 1 0, RosterSet (roster_n 1 [''n'']), PubGo 0, PubGo 0] @ replicate 7 (CtlGo 2 0)"

text \<open>A node is disabled while a request runs on it, and enabled again before the request is over.\<close>

definition reenable_events :: "event list" where
  "reenable_events = first_request @ RosterSet (roster_n 1 [''n'']) # replicate 7 (PubGo 0) @ RosterSet (roster_n 2 []) # replicate 4 (PubGo 1)
     @ control_open # replicate 8 (CtlGo 1 0)"

text \<open>An Agent that says Ready again on an idle slot.\<close>

definition ready_events :: "event list" where
  "ready_events = ServeOpen peer_n (Some (AfReady ready_n)) # replicate 5 (SrvGo 0) @ [SrvRecv 0 \<lparr>fr_RequestId = '''', fr_Body = AfReady ready_n\<rparr>, SrvGo 0, SrvGo 0]"

text \<open>What the histories lead to, evaluated once.\<close>

definition probe :: "event list \<Rightarrow> (tunnel \<Rightarrow> 'a) \<Rightarrow> 'a option" where
  "probe es f = map_option f (trace_of es tunnel_a)"

lemma traces:
  "probe first_request (\<lambda>t. (length (tn_slots t), sl_cur (slotAt t 0), map ca_id (tn_calls t))) = Some (1, Some 0, [''r1''])
   \<and> probe (first_request @ second_request) (\<lambda>t. (length (tn_dispatches t), sl_cur (slotAt t 0), dp_received (tn_dispatches t ! 0))) = Some (2, Some 1, [(0, end_frame ''r1'')])
   \<and> probe deadlock_events (\<lambda>t. (map se_phase (tn_sessions t), tn_mu t, map nd_mu (tn_heap t), tn_nodes t, length (tn_heap t), nd_id (nodeAt t 0), length (tn_serves t)))
      = Some ([CtForgetLocked 0 StreamOk, CtLocked 0], Some (CtlT 0), [Some 1], [(''n'', 0)], 1, ''n'', 0)
   \<and> probe orphan_events (\<lambda>t. (map se_phase (tn_sessions t), map se_certNodeID (tn_sessions t), map nd_controls (tn_heap t), tn_nodes t, tn_connected t))
      = Some ([CtDone StreamOk, CtServe 0], [''n'', ''n''], [[1]], [], 1)
   \<and> probe revoke_events (\<lambda>t. (map se_phase (tn_sessions t), map se_certNodeID (tn_sessions t), tn_revoked t, tn_nodes t, map nd_revoked (tn_heap t), map pb_phase (tn_publishers t)))
      = Some ([CtServe 0], [''n''], [''n''], [(''n'', 0)], [False], [PbDone])
   \<and> probe reenable_events (\<lambda>t. (map se_phase (tn_sessions t), tn_revoked t, map nd_revoked (tn_heap t), map pb_phase (tn_publishers t)))
      = Some ([CtServe 0], [], [True], [PbDone, PbDone])
   \<and> probe ready_events (\<lambda>t. (nd_idle (nodeAt t 0) SLOT_CLASS_INFERENCE, nd_live (nodeAt t 0), length (tn_slots t))) = Some ([0, 0], 1, 1)"
  by code_simp

lemma probe_run: "probe es f = Some r \<Longrightarrow> \<exists>t. run tunnel_step tunnel_a es t \<and> trace_of es tunnel_a = Some t \<and> f t = r"
  using trace_of_run by (auto simp: probe_def)

end
