(* ===== verification/TunnelSafety.thy ===== *)
theory TunnelSafety
  imports TunnelTraces
begin

text \<open>
  What holds of the tunnel server in every history: who may be given which frame, that a slot serves one request
  at a time, that the counters count, and that an entry in use is not dropped. The invariant is stated on the
  parts of the heap that never change once written (\<open>vIds\<close>, \<open>vSlots\<close>, \<open>vCalls\<close>, \<open>vServes\<close>), so
  that it survives whatever the other goroutines do.
\<close>


section \<open>The invariant\<close>

definition vIds :: "tunnel \<Rightarrow> string list" where "vIds s = map nd_id (tn_heap s)"
definition vSlots :: "tunnel \<Rightarrow> (nat \<times> SlotClass) list" where "vSlots s = map (\<lambda>x. (sl_node x, sl_class x)) (tn_slots s)"
definition vCalls :: "tunnel \<Rightarrow> (string \<times> nat \<times> nat) list" where "vCalls s = map (\<lambda>c. (ca_id c, ca_slot c, ca_owner c)) (tn_calls s)"
definition vServes :: "tunnel \<Rightarrow> (string \<times> SlotClass) list" where
  "vServes s = map (\<lambda>x. (sv_certNodeID x, rd_Class (sv_ready x))) (tn_serves s)"

text \<open>Which entry, slot and call a goroutine is working on.\<close>

fun ctl_entry :: "ctl_phase \<Rightarrow> nat option" where
  "ctl_entry CtCheck = None" | "ctl_entry CtNode = None" | "ctl_entry (CtJoin e) = Some e" | "ctl_entry (CtLocked e) = Some e"
| "ctl_entry (CtCount e _) = Some e" | "ctl_entry (CtGreet e _) = Some e" | "ctl_entry (CtServe e) = Some e" | "ctl_entry (CtDrain e _) = Some e"
| "ctl_entry (CtUnpark e _ _) = Some e" | "ctl_entry (CtLeave e _) = Some e" | "ctl_entry (CtUncount e _) = Some e"
| "ctl_entry (CtForget e _) = Some e" | "ctl_entry (CtForgetLocked e _) = Some e" | "ctl_entry (CtDone _) = None"

fun srv_entry :: "srv_phase \<Rightarrow> nat option" where
  "srv_entry (SvLive e) = Some e" | "srv_entry (SvForget e _) = Some e" | "srv_entry (SvForgetLocked e _) = Some e" | "srv_entry _ = None"

fun srv_slot :: "srv_phase \<Rightarrow> nat option" where
  "srv_slot (SvPark k _) = Some k" | "srv_slot (SvOffer k _) = Some k" | "srv_slot (SvWithdraw k _) = Some k" | "srv_slot (SvRead k) = Some k"
| "srv_slot (SvDeliver k _ _) = Some k" | "srv_slot (SvFinish k _) = Some k" | "srv_slot (SvClose k _ _) = Some k"
| "srv_slot (SvUnpark k _) = Some k" | "srv_slot (SvLeave k _) = Some k" | "srv_slot _ = None"

fun dsp_slot :: "dsp_phase \<Rightarrow> nat option" where
  "dsp_slot (DpBegin k) = Some k" | "dsp_slot (DpSend k _ _) = Some k" | "dsp_slot (DpClose k _ _) = Some k" | "dsp_slot (DpUnpark k _) = Some k"
| "dsp_slot (DpOpen k _) = Some k" | "dsp_slot (DpClosed k _) = Some k" | "dsp_slot _ = None"

fun dsp_call :: "dsp_phase \<Rightarrow> (nat \<times> nat) option" where
  "dsp_call (DpSend k c _) = Some (k, c)" | "dsp_call (DpOpen k c) = Some (k, c)" | "dsp_call (DpClosed k c) = Some (k, c)" | "dsp_call _ = None"

fun is_end :: "AgentBody \<Rightarrow> bool" where
  "is_end (AfEnd _) = True" | "is_end _ = False"

definition ctl_ok :: "string list \<Rightarrow> session \<Rightarrow> bool" where
  "ctl_ok ids x \<longleftrightarrow> (\<forall>e. ctl_entry (se_phase x) = Some e \<longrightarrow> e < length ids \<and> ids ! e = se_certNodeID x)"

definition slot_of :: "string list \<Rightarrow> (nat \<times> SlotClass) list \<Rightarrow> string \<Rightarrow> SlotClass \<Rightarrow> nat \<Rightarrow> bool" where
  "slot_of ids sl nodeID class k \<longleftrightarrow> k < length sl \<and> fst (sl ! k) < length ids \<and> ids ! fst (sl ! k) = nodeID \<and> snd (sl ! k) = class"

definition srv_ok ::
  "(nat \<times> AgentFrame) set \<Rightarrow> string list \<Rightarrow> (nat \<times> SlotClass) list \<Rightarrow> (string \<times> nat \<times> nat) list \<Rightarrow> nat \<Rightarrow> serve \<Rightarrow> bool" where
  "srv_ok G ids sl ca i x \<longleftrightarrow>
     (\<forall>e. srv_entry (sv_phase x) = Some e \<longrightarrow> e < length ids \<and> ids ! e = sv_certNodeID x)
   \<and> (\<forall>k. srv_slot (sv_phase x) = Some k \<longrightarrow> slot_of ids sl (sv_certNodeID x) (rd_Class (sv_ready x)) k)
   \<and> (\<forall>k c f. sv_phase x = SvDeliver k c f \<longrightarrow> c < length ca \<and> fst (ca ! c) = fr_RequestId f \<and> fst (snd (ca ! c)) = k \<and> (i, f) \<in> G)
   \<and> (\<forall>k c. sv_phase x = SvFinish k c \<longrightarrow> c < length ca \<and> (\<exists>f. (i, f) \<in> G \<and> fr_RequestId f = fst (ca ! c) \<and> is_end (fr_Body f)))"

definition dsp_ok ::
  "(nat \<times> AgentFrame) set \<Rightarrow> string list \<Rightarrow> (nat \<times> SlotClass) list \<Rightarrow> (string \<times> nat \<times> nat) list \<Rightarrow> (string \<times> SlotClass) list \<Rightarrow> nat \<Rightarrow> dispatch \<Rightarrow> bool" where
  "dsp_ok G ids sl ca sv j d \<longleftrightarrow>
     (\<forall>e. dp_phase d = DpAcquire e \<longrightarrow> e < length ids \<and> ids ! e = rq_NodeID (dp_req d))
   \<and> (\<forall>k. dsp_slot (dp_phase d) = Some k \<longrightarrow> slot_of ids sl (rq_NodeID (dp_req d)) (request_class (dp_req d)) k)
   \<and> (\<forall>k c. dsp_call (dp_phase d) = Some (k, c) \<longrightarrow> c < length ca \<and> ca ! c = (request_id d, k, j))
   \<and> (\<forall>(i, f) \<in> set (dp_received d). (i, f) \<in> G \<and> i < length sv \<and> sv ! i = (rq_NodeID (dp_req d), request_class (dp_req d)) \<and> fr_RequestId f = request_id d)"

definition node_ok :: "(nat \<times> SlotClass) list \<Rightarrow> nat \<Rightarrow> node \<Rightarrow> bool" where
  "node_ok sl e n \<longleftrightarrow> (\<forall>c. \<forall>k \<in> set (nd_idle n c). k < length sl \<and> sl ! k = (e, c))"

definition slot_ok :: "(string \<times> nat \<times> nat) list \<Rightarrow> nat \<Rightarrow> slot \<Rightarrow> bool" where
  "slot_ok ca k x \<longleftrightarrow> (\<forall>c. sl_cur x = Some c \<longrightarrow> c < length ca \<and> fst (snd (ca ! c)) = k \<and> \<not> sl_dead x)"

definition all_ok :: "(nat \<Rightarrow> 'a \<Rightarrow> bool) \<Rightarrow> 'a list \<Rightarrow> bool" where
  "all_ok P xs \<longleftrightarrow> (\<forall>i < length xs. P i (xs ! i))"

definition tunnel_ok :: "(nat \<times> AgentFrame) set \<Rightarrow> tunnel \<Rightarrow> bool" where
  "tunnel_ok G s \<longleftrightarrow>
     (\<forall>i e. map_of (tn_nodes s) i = Some e \<longrightarrow> e < length (vIds s) \<and> vIds s ! e = i)
   \<and> all_ok (\<lambda>_. ctl_ok (vIds s)) (tn_sessions s)
   \<and> all_ok (srv_ok G (vIds s) (vSlots s) (vCalls s)) (tn_serves s)
   \<and> all_ok (dsp_ok G (vIds s) (vSlots s) (vCalls s) (vServes s)) (tn_dispatches s)
   \<and> all_ok (node_ok (vSlots s)) (tn_heap s)
   \<and> all_ok (slot_ok (vCalls s)) (tn_slots s)"

lemma all_ok_upd: "all_ok P xs \<Longrightarrow> (i < length xs \<Longrightarrow> P i (xs ! i) \<Longrightarrow> P i (f (xs ! i))) \<Longrightarrow> all_ok P (upd i f xs)"
  by (auto simp: all_ok_def upd_nth)

lemma all_ok_append: "all_ok P xs \<Longrightarrow> P (length xs) x \<Longrightarrow> all_ok P (xs @ [x])"
  by (auto simp: all_ok_def nth_append less_Suc_eq)

lemma all_ok_mono: "all_ok P xs \<Longrightarrow> (\<And>i x. P i x \<Longrightarrow> Q i x) \<Longrightarrow> all_ok Q xs"
  by (simp add: all_ok_def)

lemma all_okD: "all_ok P xs \<Longrightarrow> i < length xs \<Longrightarrow> P i (xs ! i)"
  by (simp add: all_ok_def)

text \<open>The views only grow.\<close>

lemma views [simp]:
  "(\<And>n. nd_id (f n) = nd_id n) \<Longrightarrow> vIds (set_node e f s) = vIds s" "vIds (set_slot k g s) = vIds s" "vIds (set_call c h s) = vIds s"
  "(\<And>x. sl_node (g x) = sl_node x \<and> sl_class (g x) = sl_class x) \<Longrightarrow> vSlots (set_slot k g s) = vSlots s"
  "vSlots (set_node e f s) = vSlots s" "vSlots (set_call c h s) = vSlots s"
  "(\<And>x. ca_id (h x) = ca_id x \<and> ca_slot (h x) = ca_slot x \<and> ca_owner (h x) = ca_owner x) \<Longrightarrow> vCalls (set_call c h s) = vCalls s"
  "vCalls (set_node e f s) = vCalls s" "vCalls (set_slot k g s) = vCalls s"
  "vServes (set_node e f s) = vServes s" "vServes (set_slot k g s) = vServes s" "vServes (set_call c h s) = vServes s"
  by (simp_all add: vIds_def vSlots_def vCalls_def vServes_def map_upd)

lemma view_frames [simp]:
  "vIds (set_ctl i p s) = vIds s" "vIds (session_send i m s) = vIds s" "vIds (set_srv i q s) = vIds s" "vIds (set_dsp j d s) = vIds s"
  "vIds (set_pub i u s) = vIds s" "vIds (controlsChanged v s) = vIds s"
  "vSlots (set_ctl i p s) = vSlots s" "vSlots (session_send i m s) = vSlots s" "vSlots (set_srv i q s) = vSlots s" "vSlots (set_dsp j d s) = vSlots s"
  "vSlots (set_pub i u s) = vSlots s" "vSlots (controlsChanged v s) = vSlots s"
  "vCalls (set_ctl i p s) = vCalls s" "vCalls (session_send i m s) = vCalls s" "vCalls (set_srv i q s) = vCalls s" "vCalls (set_dsp j d s) = vCalls s"
  "vCalls (set_pub i u s) = vCalls s" "vCalls (controlsChanged v s) = vCalls s"
  "vServes (set_ctl i p s) = vServes s" "vServes (session_send i m s) = vServes s" "vServes (set_srv i q s) = vServes s" "vServes (set_dsp j d s) = vServes s"
  "vServes (set_pub i u s) = vServes s" "vServes (controlsChanged v s) = vServes s"
  by (simp_all add: vIds_def vSlots_def vCalls_def vServes_def map_upd)

lemma view_updates [simp]:
  "vIds (tn_mu_update g_mu s) = vIds s" "vIds (tn_nodes_update g_nodes s) = vIds s" "vIds (tn_roster_update g_roster s) = vIds s"
  "vIds (tn_revoked_update g_revoked s) = vIds s" "vIds (tn_maintenance_update g_maintenance s) = vIds s" "vIds (tn_closed_update g_closed s) = vIds s"
  "vIds (tn_connected_update g_connected s) = vIds s" "vIds (tn_slots_update g_slots s) = vIds s" "vIds (tn_calls_update g_calls s) = vIds s"
  "vIds (tn_sessions_update g_sessions s) = vIds s" "vIds (tn_serves_update g_serves s) = vIds s" "vIds (tn_dispatches_update g_dispatches s) = vIds s"
  "vIds (tn_publishers_update g_publishers s) = vIds s" "vSlots (tn_mu_update g_mu s) = vSlots s" "vSlots (tn_nodes_update g_nodes s) = vSlots s"
  "vSlots (tn_roster_update g_roster s) = vSlots s" "vSlots (tn_revoked_update g_revoked s) = vSlots s" "vSlots (tn_maintenance_update g_maintenance s) = vSlots s"
  "vSlots (tn_closed_update g_closed s) = vSlots s" "vSlots (tn_connected_update g_connected s) = vSlots s" "vSlots (tn_heap_update g_heap s) = vSlots s"
  "vSlots (tn_calls_update g_calls s) = vSlots s" "vSlots (tn_sessions_update g_sessions s) = vSlots s" "vSlots (tn_serves_update g_serves s) = vSlots s"
  "vSlots (tn_dispatches_update g_dispatches s) = vSlots s" "vSlots (tn_publishers_update g_publishers s) = vSlots s" "vCalls (tn_mu_update g_mu s) = vCalls s"
  "vCalls (tn_nodes_update g_nodes s) = vCalls s" "vCalls (tn_roster_update g_roster s) = vCalls s" "vCalls (tn_revoked_update g_revoked s) = vCalls s"
  "vCalls (tn_maintenance_update g_maintenance s) = vCalls s" "vCalls (tn_closed_update g_closed s) = vCalls s" "vCalls (tn_connected_update g_connected s) = vCalls s"
  "vCalls (tn_heap_update g_heap s) = vCalls s" "vCalls (tn_slots_update g_slots s) = vCalls s" "vCalls (tn_sessions_update g_sessions s) = vCalls s"
  "vCalls (tn_serves_update g_serves s) = vCalls s" "vCalls (tn_dispatches_update g_dispatches s) = vCalls s" "vCalls (tn_publishers_update g_publishers s) = vCalls s"
  "vServes (tn_mu_update g_mu s) = vServes s" "vServes (tn_nodes_update g_nodes s) = vServes s" "vServes (tn_roster_update g_roster s) = vServes s"
  "vServes (tn_revoked_update g_revoked s) = vServes s" "vServes (tn_maintenance_update g_maintenance s) = vServes s"
  "vServes (tn_closed_update g_closed s) = vServes s" "vServes (tn_connected_update g_connected s) = vServes s" "vServes (tn_heap_update g_heap s) = vServes s"
  "vServes (tn_slots_update g_slots s) = vServes s" "vServes (tn_calls_update g_calls s) = vServes s" "vServes (tn_sessions_update g_sessions s) = vServes s"
  "vServes (tn_dispatches_update g_dispatches s) = vServes s" "vServes (tn_publishers_update g_publishers s) = vServes s"
  by (simp_all add: vIds_def vSlots_def vCalls_def vServes_def)

lemma view_appends [simp]:
  "vIds (s\<lparr>tn_heap := tn_heap s @ [n]\<rparr>) = vIds s @ [nd_id n]" "vSlots (s\<lparr>tn_slots := tn_slots s @ [x]\<rparr>) = vSlots s @ [(sl_node x, sl_class x)]"
  "vCalls (s\<lparr>tn_calls := tn_calls s @ [c]\<rparr>) = vCalls s @ [(ca_id c, ca_slot c, ca_owner c)]"
  "vServes (s\<lparr>tn_serves := tn_serves s @ [v]\<rparr>) = vServes s @ [(sv_certNodeID v, rd_Class (sv_ready v))]"
  by (simp_all add: vIds_def vSlots_def vCalls_def vServes_def)

lemma view_lengths:
  "length (vIds s) = length (tn_heap s)" "length (vSlots s) = length (tn_slots s)" "length (vCalls s) = length (tn_calls s)"
  "length (vServes s) = length (tn_serves s)"
  by (simp_all add: vIds_def vSlots_def vCalls_def vServes_def)

text \<open>How the invariant survives each kind of update.\<close>

lemma ok_set_node:
  "tunnel_ok G s \<Longrightarrow> (\<And>n. nd_id (f n) = nd_id n)
    \<Longrightarrow> (e < length (tn_heap s) \<Longrightarrow> node_ok (vSlots s) e (nodeAt s e) \<Longrightarrow> node_ok (vSlots s) e (f (nodeAt s e))) \<Longrightarrow> tunnel_ok G (set_node e f s)"
  by (auto simp: tunnel_ok_def nodeAt_def intro!: all_ok_upd)

lemma ok_set_slot:
  "tunnel_ok G s \<Longrightarrow> (\<And>x. sl_node (g x) = sl_node x \<and> sl_class (g x) = sl_class x)
    \<Longrightarrow> (k < length (tn_slots s) \<Longrightarrow> slot_ok (vCalls s) k (slotAt s k) \<Longrightarrow> slot_ok (vCalls s) k (g (slotAt s k))) \<Longrightarrow> tunnel_ok G (set_slot k g s)"
  by (auto simp: tunnel_ok_def slotAt_def intro!: all_ok_upd)

lemma ok_set_call:
  "tunnel_ok G s \<Longrightarrow> (\<And>x. ca_id (h x) = ca_id x \<and> ca_slot (h x) = ca_slot x \<and> ca_owner (h x) = ca_owner x) \<Longrightarrow> tunnel_ok G (set_call c h s)"
  by (simp add: tunnel_ok_def)

lemma ok_set_ctl:
  "tunnel_ok G s \<Longrightarrow> (i < length (tn_sessions s) \<Longrightarrow> ctl_ok (vIds s) (tn_sessions s ! i) \<Longrightarrow> ctl_ok (vIds s) ((tn_sessions s ! i)\<lparr>se_phase := p\<rparr>))
    \<Longrightarrow> tunnel_ok G (set_ctl i p s)"
  by (auto simp: tunnel_ok_def intro!: all_ok_upd)

lemma ok_set_srv:
  "tunnel_ok G s \<Longrightarrow> (i < length (tn_serves s) \<Longrightarrow> srv_ok G (vIds s) (vSlots s) (vCalls s) i (tn_serves s ! i)
      \<Longrightarrow> srv_ok G (vIds s) (vSlots s) (vCalls s) i ((tn_serves s ! i)\<lparr>sv_phase := q\<rparr>))
    \<Longrightarrow> tunnel_ok G (set_srv i q s)"
  by (auto simp: tunnel_ok_def intro!: all_ok_upd)

lemma ok_set_dsp:
  "tunnel_ok G s \<Longrightarrow> (j < length (tn_dispatches s) \<Longrightarrow> dsp_ok G (vIds s) (vSlots s) (vCalls s) (vServes s) j (tn_dispatches s ! j)
      \<Longrightarrow> dsp_ok G (vIds s) (vSlots s) (vCalls s) (vServes s) j (d (tn_dispatches s ! j)))
    \<Longrightarrow> tunnel_ok G (set_dsp j d s)"
  by (auto simp: tunnel_ok_def intro!: all_ok_upd)

lemma ok_set_pub: "tunnel_ok G (set_pub i u s) = tunnel_ok G s"
  by (simp add: tunnel_ok_def)

lemma ok_controlsChanged: "tunnel_ok G (controlsChanged v s) = tunnel_ok G s"
  by (simp add: tunnel_ok_def)

lemma ok_session_send: "tunnel_ok G s \<Longrightarrow> tunnel_ok G (session_send i m s)"
  by (auto simp: tunnel_ok_def ctl_ok_def intro!: all_ok_upd)

lemma ok_broadcast: "tunnel_ok G s \<Longrightarrow> tunnel_ok G (broadcast m e s)"
proof -
  have "tunnel_ok G t \<Longrightarrow> tunnel_ok G (fold (\<lambda>i. session_send i m) is t)" for "is" t
    by (induction "is" arbitrary: t) (simp_all add: ok_session_send)
  then show "tunnel_ok G s \<Longrightarrow> tunnel_ok G (broadcast m e s)" by (simp add: broadcast_def)
qed

subsection \<open>Growth\<close>

lemma slot_of_mono: "slot_of ids sl n c k \<Longrightarrow> slot_of (ids @ ids') (sl @ sl') n c k"
  by (auto simp: slot_of_def nth_append)

lemma ctl_ok_mono: "ctl_ok ids x \<Longrightarrow> ctl_ok (ids @ ids') x"
  by (auto simp: ctl_ok_def nth_append)

lemma srv_ok_mono: "srv_ok G ids sl ca i x \<Longrightarrow> srv_ok (G \<union> G') (ids @ ids') (sl @ sl') (ca @ ca') i x"
  by (auto simp: srv_ok_def nth_append intro!: slot_of_mono)

lemma dsp_ok_mono: "dsp_ok G ids sl ca sv j d \<Longrightarrow> dsp_ok (G \<union> G') (ids @ ids') (sl @ sl') (ca @ ca') (sv @ sv') j d"
  by (fastforce simp: dsp_ok_def nth_append intro!: slot_of_mono)

lemma node_ok_mono: "node_ok sl e n \<Longrightarrow> node_ok (sl @ sl') e n"
  by (force simp: node_ok_def nth_append)

lemma slot_ok_mono: "slot_ok ca k x \<Longrightarrow> slot_ok (ca @ ca') k x"
  by (auto simp: slot_ok_def nth_append)

lemma ok_more: "tunnel_ok G s \<Longrightarrow> G \<subseteq> G' \<Longrightarrow> tunnel_ok G' s"
  using srv_ok_mono [of G _ _ _ _ _ G' "[]" "[]" "[]"] dsp_ok_mono [of G _ _ _ _ _ _ G' "[]" "[]" "[]" "[]"]
  by (auto simp: tunnel_ok_def sup_absorb2 intro: all_ok_mono)

lemma ok_new_call: "tunnel_ok G s \<Longrightarrow> tunnel_ok G (s\<lparr>tn_calls := tn_calls s @ [c]\<rparr>)"
  using srv_ok_mono [of G _ _ _ _ _ "{}" "[]" "[]"] dsp_ok_mono [of G _ _ _ _ _ _ "{}" "[]" "[]" _ "[]"] slot_ok_mono
  by (auto simp: tunnel_ok_def intro: all_ok_mono)

lemma ok_new_slot: "tunnel_ok G s \<Longrightarrow> tunnel_ok G (s\<lparr>tn_slots := tn_slots s @ [newSlot e i c]\<rparr>)"
  using srv_ok_mono [of G _ _ _ _ _ "{}" "[]" _ "[]"] dsp_ok_mono [of G _ _ _ _ _ _ "{}" "[]" _ "[]" "[]"] node_ok_mono
  by (auto simp: tunnel_ok_def slot_ok_def newSlot_def intro: all_ok_mono intro!: all_ok_append)

lemma ok_new_node:
  assumes "tunnel_ok G s" and "map_of (tn_nodes s) i = None"
  shows "tunnel_ok G (s\<lparr>tn_heap := tn_heap s @ [newNode i], tn_nodes := AList.update i (length (tn_heap s)) (tn_nodes s)\<rparr>)"
  using assms srv_ok_mono [of G _ _ _ _ _ "{}" _ "[]" "[]"] dsp_ok_mono [of G _ _ _ _ _ _ "{}" _ "[]" "[]" "[]"] ctl_ok_mono
  by (auto simp: tunnel_ok_def node_ok_def newNode_def nth_append view_lengths less_SucI intro: all_ok_mono intro!: all_ok_append)

lemma Server_node_cases:
  assumes "Server_node i s = Some (e, t)" and "tunnel_ok G s"
  shows "tunnel_ok G t \<and> e < length (vIds t) \<and> vIds t ! e = i \<and> tn_sessions t = tn_sessions s \<and> tn_serves t = tn_serves s"
proof (cases "map_of (tn_nodes s) i")
  case None
  then show ?thesis using assms ok_new_node [OF assms(2) None]
    by (auto simp: Server_node_def newNode_def nth_append view_lengths split: if_splits)
next
  case (Some e')
  then show ?thesis using assms by (auto simp: Server_node_def tunnel_ok_def split: if_splits)
qed

lemma ok_fields [simp]:
  "tunnel_ok G (s\<lparr>tn_mu := m\<rparr>) = tunnel_ok G s" "tunnel_ok G (s\<lparr>tn_publishers := p\<rparr>) = tunnel_ok G s"
  "tunnel_ok G (s\<lparr>tn_closed := b\<rparr>) = tunnel_ok G s"
  "tunnel_ok G (s\<lparr>tn_roster := ro\<rparr>) = tunnel_ok G s" "tunnel_ok G (s\<lparr>tn_revoked := r\<rparr>) = tunnel_ok G s"
  "tunnel_ok G (s\<lparr>tn_maintenance := r\<rparr>) = tunnel_ok G s"
  by (simp_all add: tunnel_ok_def)

lemma ok_forget: "forget e s = Some t \<Longrightarrow> tunnel_ok G s \<Longrightarrow> tunnel_ok G t \<and> tn_sessions t = tn_sessions s \<and> tn_serves t = tn_serves s \<and> vIds t = vIds s"
  by (auto simp: forget_def with_node_def tunnel_ok_def delete_conv' split: if_splits)

subsection \<open>The building blocks of the steps\<close>

lemma ok_call_abort: "tunnel_ok G s \<Longrightarrow> tunnel_ok G (call_abort c err s)" and ok_call_release: "tunnel_ok G s \<Longrightarrow> tunnel_ok G (call_release c s)"
  by (simp_all add: call_abort_def call_release_def ok_set_call)

lemma call_frames [simp]:
  "vIds (call_abort c err s) = vIds s" "vSlots (call_abort c err s) = vSlots s" "vCalls (call_abort c err s) = vCalls s"
  "tn_serves (call_abort c err s) = tn_serves s" "tn_sessions (call_abort c err s) = tn_sessions s"
  "tn_slots (call_abort c err s) = tn_slots s" "tn_heap (call_abort c err s) = tn_heap s" "tn_dispatches (call_abort c err s) = tn_dispatches s"
  "vServes (call_abort c err s) = vServes s"
  by (simp_all add: call_abort_def)

lemma ok_slot_kill: "tunnel_ok G s \<Longrightarrow> tunnel_ok G (slot_kill k cause s)"
  by (auto simp: slot_kill_def Let_def slot_ok_def split: option.splits intro!: ok_call_abort ok_set_slot)

lemma slot_kill_frames [simp]:
  "vIds (slot_kill k cause s) = vIds s" "vSlots (slot_kill k cause s) = vSlots s" "vCalls (slot_kill k cause s) = vCalls s"
  "vServes (slot_kill k cause s) = vServes s" "tn_serves (slot_kill k cause s) = tn_serves s" "tn_sessions (slot_kill k cause s) = tn_sessions s"
  "tn_dispatches (slot_kill k cause s) = tn_dispatches s" "tn_heap (slot_kill k cause s) = tn_heap s"
  by (simp_all add: slot_kill_def Let_def split: option.splits)

lemma node_ok_unpark: "node_ok sl e n \<Longrightarrow> node_ok sl e (unpark k c n)"
  using set_remove1_subset by (fastforce simp: node_ok_def unpark_def)

lemma ok_slot_removed:
  assumes "slot_removed k s = Some t" and "tunnel_ok G s"
  shows "tunnel_ok G t \<and> vIds t = vIds s \<and> vSlots t = vSlots s \<and> vCalls t = vCalls s \<and> vServes t = vServes s
    \<and> tn_serves t = tn_serves s \<and> tn_sessions t = tn_sessions s \<and> tn_dispatches t = tn_dispatches s"
  using assms by (auto simp: slot_removed_def with_node_def unpark_def slot_ok_def split: if_splits intro!: ok_set_slot ok_set_node
      node_ok_unpark [unfolded unpark_def])

lemma ok_slot_finish: "tunnel_ok G s \<Longrightarrow> tunnel_ok G (slot_finish k c s)"
  by (auto simp: slot_finish_def slot_ok_def intro!: ok_set_slot)

lemma ok_slot_send: "tunnel_ok G s \<Longrightarrow> tunnel_ok G (slot_send k f s)"
  by (auto simp: slot_send_def slot_ok_def intro!: ok_set_slot)

lemma slot_op_frames [simp]:
  "vIds (slot_finish k c s) = vIds s" "vSlots (slot_finish k c s) = vSlots s" "vCalls (slot_finish k c s) = vCalls s"
  "vServes (slot_finish k c s) = vServes s" "tn_serves (slot_finish k c s) = tn_serves s"
  "vIds (slot_send k f s) = vIds s" "vSlots (slot_send k f s) = vSlots s" "vCalls (slot_send k f s) = vCalls s"
  "vServes (slot_send k f s) = vServes s" "tn_dispatches (slot_send k f s) = tn_dispatches s" "tn_calls (slot_send k f s) = tn_calls s"
  "tn_dispatches (call_release c s) = tn_dispatches s" "vIds (call_release c s) = vIds s" "vSlots (call_release c s) = vSlots s"
  "vCalls (call_release c s) = vCalls s" "vServes (call_release c s) = vServes s"
  by (simp_all add: slot_finish_def slot_send_def call_release_def)

lemma pop_idle_taken: "pop_idle slots ks = (taken, rest) \<Longrightarrow> set rest \<subseteq> set ks \<and> (\<forall>k. taken = Some k \<longrightarrow> k \<in> set ks \<and> slot_take (slots ! k))"
  by (induction ks) (auto split: if_splits)

lemma ok_acquire:
  assumes a: "acquire e class s = (taken, t)" and ok: "tunnel_ok G s" and e: "e < length (tn_heap s)"
  shows "tunnel_ok G t \<and> tn_dispatches t = tn_dispatches s \<and> vIds t = vIds s \<and> vSlots t = vSlots s \<and> vCalls t = vCalls s \<and> vServes t = vServes s
    \<and> (\<forall>k. taken = Some k \<longrightarrow> k < length (vSlots s) \<and> vSlots s ! k = (e, class))"
proof (cases "nd_draining (nodeAt s e)")
  case False
  obtain rest where p: "pop_idle (tn_slots s) (rev (nd_idle (nodeAt s e) class)) = (taken, rest)"
    using a False by (auto simp: acquire_def Let_def split: prod.splits)
  have n: "node_ok (vSlots s) e (nodeAt s e)" using ok e by (simp add: tunnel_ok_def all_ok_def nodeAt_def)
  have keep: "tunnel_ok G (set_node e (\<lambda>n. n\<lparr>nd_idle := (nd_idle n)(class := rev rest)\<rparr>) s)"
    using pop_idle_taken [OF p] n by (intro ok_set_node [OF ok]) (auto simp: node_ok_def)
  show ?thesis
    using a False p keep pop_idle_taken [OF p] n
    by (auto simp: acquire_def Let_def node_ok_def slot_ok_def split: option.splits intro!: ok_set_slot)
qed (use a ok in \<open>simp add: acquire_def\<close>)


subsection \<open>Every step keeps the invariant\<close>

lemma ctl_ok_phase: "ctl_ok ids x \<Longrightarrow> ctl_entry p = None \<or> ctl_entry p = ctl_entry (se_phase x) \<Longrightarrow> ctl_ok ids (x\<lparr>se_phase := p\<rparr>)"
  by (auto simp: ctl_ok_def)

lemma node_ok_same: "node_ok sl e n \<Longrightarrow> nd_idle n' = nd_idle n \<Longrightarrow> node_ok sl e n'"
  by (simp add: node_ok_def)

lemma node_ok_drain: "node_ok sl e (node_drain n)"
  by (simp add: node_ok_def node_drain_def)

lemma close_slot_cases:
  assumes "close_slot k cause started passed s = Some t"
  obtains "t = started (slot_kill k cause s)" "sl_closeOnce (slotAt s k) = Fresh" | "t = passed s" "sl_closeOnce (slotAt s k) = Finished"
  using assms by (auto simp: close_slot_def split: once.splits)

lemma node_op_ids [simp]:
  "nd_id (node_join i h n) = nd_id n" "nd_id (node_joined b now n) = nd_id n" "nd_id (node_drain n) = nd_id n" "nd_id (addLive c d n) = nd_id n"
  "nd_id (applyStatus b snaps n) = nd_id n" "nd_id (unpark k c n) = nd_id n"
  "nd_idle (node_join i h n) = nd_idle n" "nd_idle (node_joined b now n) = nd_idle n" "nd_idle (addLive c d n) = nd_idle n"
  "nd_idle (applyStatus b snaps n) = nd_idle n"
  by (simp_all add: node_join_def node_joined_def node_drain_def addLive_def applyStatus_def unpark_def)

lemma ok_ctl_go:
  assumes step: "ctl_go now i s = Some t" and i: "i < length (tn_sessions s)" and ok: "tunnel_ok G s"
  shows "tunnel_ok G t"
proof (cases "se_phase (tn_sessions s ! i)")
  case CtNode
  then show ?thesis using step ok
    by (auto simp: ctl_go_def with_server_def ctl_ok_def split: if_splits option.splits prod.splits dest: Server_node_cases intro!: ok_set_ctl)
next
  case (CtDrain e ks)
  then show ?thesis using step ok
    by (auto simp: ctl_go_def ctl_ok_def split: list.splits elim!: close_slot_cases intro!: ok_set_ctl ok_slot_kill)
next
  case (CtUnpark e k rest)
  then show ?thesis using step ok
    by (auto simp: ctl_go_def ctl_ok_def dest!: ok_slot_removed intro!: ok_set_ctl)
next
  case (CtForgetLocked e r)
  then show ?thesis using step ok
    by (auto simp: ctl_go_def ctl_ok_def dest!: ok_forget intro!: ok_set_ctl)
qed (use step ok in \<open>auto simp: ctl_go_def with_server_def with_node_def Let_def ctl_ok_def ok_controlsChanged ok_session_send node_ok_def
      split: if_splits option.splits intro!: ok_set_ctl ok_set_node\<close>)


lemma ok_ctl_recv: "ctl_recv now sent i frame s = Some t \<Longrightarrow> tunnel_ok G s \<Longrightarrow> tunnel_ok G t"
  by (cases frame) (auto simp: ctl_recv_def with_node_def Let_def ctl_ok_def node_ok_def node_drain_def
      split: ctl_phase.splits if_splits intro!: ok_set_ctl ok_set_node ok_session_send)

lemma ok_ctl_end: "ctl_end i r s = Some t \<Longrightarrow> tunnel_ok G s \<Longrightarrow> tunnel_ok G t"
  by (auto simp: ctl_end_def ctl_ok_def split: ctl_phase.splits intro!: ok_set_ctl)

lemma srv_ok_phase:
  "srv_ok G ids sl ca i x \<Longrightarrow> srv_entry p = None \<Longrightarrow> srv_slot p = None \<or> srv_slot p = srv_slot (sv_phase x) \<Longrightarrow>
   (\<And>k c f. p = SvDeliver k c f \<Longrightarrow> c < length ca \<and> fst (ca ! c) = fr_RequestId f \<and> fst (snd (ca ! c)) = k \<and> (i, f) \<in> G) \<Longrightarrow>
   (\<And>k c. p = SvFinish k c \<Longrightarrow> c < length ca \<and> (\<exists>f. (i, f) \<in> G \<and> fr_RequestId f = fst (ca ! c) \<and> is_end (fr_Body f))) \<Longrightarrow>
   srv_ok G ids sl ca i (x\<lparr>sv_phase := p\<rparr>)"
  by (auto simp: srv_ok_def)

lemma ok_set_phase:
  assumes "tunnel_ok G s" and "srv_entry p = None" and "srv_slot p = None \<or> srv_slot p = srv_slot (sv_phase (tn_serves s ! i))"
    and "\<And>k c f. p = SvDeliver k c f \<Longrightarrow> c < length (vCalls s) \<and> fst (vCalls s ! c) = fr_RequestId f \<and> fst (snd (vCalls s ! c)) = k \<and> (i, f) \<in> G"
    and "\<And>k c. p = SvFinish k c \<Longrightarrow> c < length (vCalls s) \<and> (\<exists>f. (i, f) \<in> G \<and> fr_RequestId f = fst (vCalls s ! c) \<and> is_end (fr_Body f))"
  shows "tunnel_ok G (set_srv i p s)"
  by (rule ok_set_srv [OF assms(1)]) (rule srv_ok_phase; use assms in simp)

lemma nth_vSlots: "k < length (tn_slots s) \<Longrightarrow> vSlots s ! k = (sl_node (slotAt s k), sl_class (slotAt s k))"
  by (simp add: vSlots_def slotAt_def)

lemma nth_vCalls: "c < length (tn_calls s) \<Longrightarrow> vCalls s ! c = (ca_id (callAt s c), ca_slot (callAt s c), ca_owner (callAt s c))"
  by (simp add: vCalls_def callAt_def)

lemma ok_srvD: "tunnel_ok G s \<Longrightarrow> i < length (tn_serves s) \<Longrightarrow> srv_ok G (vIds s) (vSlots s) (vCalls s) i (tn_serves s ! i)"
  and ok_dspD: "tunnel_ok G s \<Longrightarrow> j < length (tn_dispatches s) \<Longrightarrow> dsp_ok G (vIds s) (vSlots s) (vCalls s) (vServes s) j (tn_dispatches s ! j)"
  and ok_slotD: "tunnel_ok G s \<Longrightarrow> k < length (tn_slots s) \<Longrightarrow> slot_ok (vCalls s) k (slotAt s k)"
  by (simp_all add: tunnel_ok_def all_ok_def slotAt_def)

lemma ok_srv_go:
  assumes step: "srv_go i s = Some t" and i: "i < length (tn_serves s)" and ok: "tunnel_ok G s"
  shows "tunnel_ok G t"
proof -
  note okx = ok_srvD [OF ok i]
  show ?thesis
  proof (cases "sv_phase (tn_serves s ! i)")
    case SvNode
    then show ?thesis using step ok
      by (auto simp: srv_go_def with_server_def srv_ok_def split: if_splits option.splits prod.splits dest: Server_node_cases intro!: ok_set_srv)
  next
    case (SvLive e)
    have "slot_of (vIds s) (vSlots s @ [(e, rd_Class (sv_ready (tn_serves s ! i)))]) (sv_certNodeID (tn_serves s ! i)) (rd_Class (sv_ready (tn_serves s ! i))) (length (tn_slots s))"
      using okx SvLive by (simp add: srv_ok_def slot_of_def view_lengths nth_append)
    then show ?thesis using step SvLive ok
      by (auto simp: srv_go_def with_node_def Let_def srv_ok_def newSlot_def node_ok_def split: if_splits
          intro!: ok_set_srv ok_set_node ok_new_slot [unfolded newSlot_def])
  next
    case (SvOffer k first)
    have k: "k < length (tn_slots s)" using okx SvOffer by (simp add: srv_ok_def slot_of_def view_lengths)
    then show ?thesis using step SvOffer ok nth_vSlots [OF k]
      by (auto simp: srv_go_def with_node_def Let_def node_park_def node_ok_def view_lengths split: if_splits option.splits intro!: ok_set_phase ok_set_node)
  next
    case (SvDeliver k c f)
    then show ?thesis using step okx
      by (auto simp: srv_go_def srv_ok_def split: if_splits AgentBody.splits intro!: ok_set_phase [OF ok])
  next
    case (SvClose k cause r)
    then show ?thesis using step ok by (auto simp: srv_go_def elim!: close_slot_cases intro!: ok_set_phase ok_slot_kill)
  next
    case (SvUnpark k r)
    then show ?thesis using step ok by (auto simp: srv_go_def dest!: ok_slot_removed intro!: ok_set_phase)
  next
    case (SvLeave k r)
    have k: "k < length (tn_slots s)" using okx SvLeave by (simp add: srv_ok_def slot_of_def view_lengths)
    then show ?thesis using step SvLeave ok okx nth_vSlots [OF k]
      by (auto simp: srv_go_def with_node_def Let_def node_ok_def srv_ok_def slot_of_def split: if_splits intro!: ok_set_srv ok_set_node)
  next
    case (SvForget e r)
    then show ?thesis using step ok okx by (auto simp: srv_go_def with_server_def srv_ok_def split: if_splits intro!: ok_set_srv)
  next
    case (SvForgetLocked e r)
    then show ?thesis using step ok by (auto simp: srv_go_def srv_ok_def dest!: ok_forget intro!: ok_set_srv)
  qed (use step ok in \<open>auto simp: srv_go_def with_server_def with_node_def Let_def slot_ok_def split: if_splits intro!: ok_set_phase ok_set_slot ok_slot_finish\<close>)
qed


lemma ok_fault: "tunnel_ok G s \<Longrightarrow> srv_slot (sv_phase (tn_serves s ! i)) = Some k \<Longrightarrow> tunnel_ok G (fault i k detail s)"
  by (auto simp: fault_def Let_def intro!: ok_set_phase)

lemma ok_route:
  assumes ok: "tunnel_ok G s" and k: "k < length (tn_slots s)" and ph: "sv_phase (tn_serves s ! i) = SvRead k" and G: "(i, frame) \<in> G"
  shows "tunnel_ok G (route i k frame s)"
proof (cases "sl_cur (slotAt s k)")
  case None
  then show ?thesis using ok ph by (simp add: route_def ok_fault)
next
  case (Some c)
  then have c: "c < length (vCalls s)" "fst (snd (vCalls s ! c)) = k" using ok_slotD [OF ok k] by (simp_all add: slot_ok_def)
  then have deliver: "tunnel_ok G (set_srv i (SvDeliver k c frame) s)" if "ca_id (callAt s c) = fr_RequestId frame"
    using that ph G by (intro ok_set_phase [OF ok]) (auto simp: view_lengths nth_vCalls)
  then show ?thesis using Some ok ph
    by (auto simp: route_def Let_def split: AgentBody.splits intro!: ok_fault ok_slot_finish ok_call_abort)
qed

lemma ok_srv_recv:
  assumes step: "srv_recv i frame s = Some t" and i: "i < length (tn_serves s)" and ok: "tunnel_ok G s" and G: "(i, frame) \<in> G"
  shows "tunnel_ok G t"
proof -
  obtain k where ph: "sv_phase (tn_serves s ! i) = SvRead k" using step by (auto simp: srv_recv_def split: srv_phase.splits)
  then have "k < length (tn_slots s)" using ok_srvD [OF ok i] by (simp add: srv_ok_def slot_of_def view_lengths)
  then show ?thesis using step ph ok_route [OF ok _ ph G] ok
    by (auto simp: srv_recv_def split: AgentBody.splits if_splits intro!: ok_fault ok_set_phase)
qed

lemma ok_srv_end: "srv_end i r s = Some t \<Longrightarrow> tunnel_ok G s \<Longrightarrow> tunnel_ok G t"
  by (auto simp: srv_end_def split: srv_phase.splits intro!: ok_set_phase)

lemma request_id_fields [simp]: "request_id (d\<lparr>dp_phase := p\<rparr>) = request_id d" "request_id (d\<lparr>dp_outcome := out\<rparr>) = request_id d"
  "request_id (d\<lparr>dp_received := r\<rparr>) = request_id d" "request_id (d\<lparr>dp_headers := h\<rparr>) = request_id d"
  "request_id (d\<lparr>dp_finished := b\<rparr>) = request_id d"
  by (simp_all add: request_id_def cong: option.case_cong if_cong)

lemma dsp_ok_phase:
  "dsp_ok G ids sl ca sv j d \<Longrightarrow> (\<And>e. p \<noteq> DpAcquire e) \<Longrightarrow> dsp_slot p = None \<or> dsp_slot p = dsp_slot (dp_phase d)
    \<Longrightarrow> dsp_call p = None \<or> dsp_call p = dsp_call (dp_phase d) \<Longrightarrow> dsp_ok G ids sl ca sv j (d\<lparr>dp_phase := p\<rparr>)"
  by (cases "dsp_slot p"; cases "dsp_call p") (simp_all add: dsp_ok_def)

lemma ok_dsp_at:
  assumes "tunnel_ok G s" and "\<And>e. p \<noteq> DpAcquire e" and "dsp_slot p = None \<or> dsp_slot p = dsp_slot (dp_phase (tn_dispatches s ! j))"
    and "dsp_call p = None \<or> dsp_call p = dsp_call (dp_phase (tn_dispatches s ! j))"
  shows "tunnel_ok G (dsp_at j p s)"
  unfolding dsp_at_def by (rule ok_set_dsp [OF assms(1)]) (use assms(2-4) in \<open>metis (no_types, lifting) dsp_ok_phase\<close>)

lemma dsp_at_frames [simp]:
  "tn_dispatches (dsp_at j p s) = upd j (\<lambda>d. d\<lparr>dp_phase := p\<rparr>) (tn_dispatches s)" "tn_slots (dsp_at j p s) = tn_slots s"
  "tn_serves (dsp_at j p s) = tn_serves s"
  by (simp_all add: dsp_at_def)

lemma ok_dsp_go:
  assumes step: "dsp_go sent j s = Some t" and j: "j < length (tn_dispatches s)" and ok: "tunnel_ok G s"
  shows "tunnel_ok G t"
proof -
  note okd = ok_dspD [OF ok j]
  show ?thesis
  proof (cases "dp_phase (tn_dispatches s ! j)")
    case DpStart
    have "e < length (vIds s) \<and> vIds s ! e = i" if "lookup s i = Some e" for e i using ok that by (simp add: tunnel_ok_def lookup_def)
    then show ?thesis using step DpStart okd
      by (auto simp: dsp_go_def with_server_def Let_def dsp_at_def dsp_ok_def split: if_splits option.splits intro!: ok_set_dsp [OF ok])
  next
    case (DpAcquire e)
    then have e: "e < length (tn_heap s)" and id: "vIds s ! e = rq_NodeID (dp_req (tn_dispatches s ! j))"
      using okd by (simp_all add: dsp_ok_def view_lengths)
    obtain taken u where a: "acquire e (request_class (dp_req (tn_dispatches s ! j))) s = (taken, u)" by fastforce
    note u = ok_acquire [OF a ok e]
    show ?thesis using step DpAcquire a u id e okd
      by (auto simp: dsp_go_def with_node_def Let_def dsp_at_def dsp_ok_def slot_of_def view_lengths split: if_splits option.splits intro!: ok_set_dsp)
  next
    case (DpBegin k)
    define cs where "cs = newCall (request_id (tn_dispatches s ! j)) (call_limit (tn_cfg s) (dp_req (tn_dispatches s ! j))) k j"
    define u where "u = s\<lparr>tn_calls := tn_calls s @ [cs]\<rparr>"
    have u: "tunnel_ok G u" unfolding u_def by (rule ok_new_call [OF ok])
    have vc: "vCalls u = vCalls s @ [(request_id (tn_dispatches s ! j), k, j)]" by (simp add: u_def cs_def newCall_def)
    have same: "tn_dispatches u = tn_dispatches s" "vIds u = vIds s" "vSlots u = vSlots s" "vServes u = vServes s" by (simp_all add: u_def)
    have t: "t = (case slot_begin k (length (tn_calls s)) u of
        Inl cause \<Rightarrow> dsp_at j (DpClose k cause (dispatchError ErrorConnection (dp_req (tn_dispatches s ! j)) ''slot closed before the request was written'' True (SlotCause cause))) u
      | Inr v \<Rightarrow> dsp_at j (DpSend k (length (tn_calls s)) (request_items (tn_dispatches s ! j))) v)"
      using step DpBegin unfolding u_def cs_def dsp_go_def Let_def by simp
    show ?thesis
    proof (cases "slot_begin k (length (tn_calls s)) u")
      case (Inl cause)
      then show ?thesis using t DpBegin same by (auto intro!: ok_dsp_at [OF u])
    next
      case (Inr v)
      then have v: "v = set_slot k (\<lambda>x. x\<lparr>sl_cur := Some (length (tn_calls s))\<rparr>) u" and alive: "\<not> sl_dead (slotAt u k)"
        by (auto simp: slot_begin_def Let_def split: if_splits)
      have "tunnel_ok G v" unfolding v
        by (rule ok_set_slot [OF u]) (use alive vc in \<open>auto simp: slot_ok_def view_lengths nth_append\<close>)
      moreover have "dsp_ok G (vIds s) (vSlots s) (vCalls s @ [(request_id (tn_dispatches s ! j), k, j)]) (vServes s) j (tn_dispatches s ! j)"
        using dsp_ok_mono [OF okd, of "{}" "[]" "[]" _ "[]"] by simp
      ultimately show ?thesis using t Inr DpBegin v same vc
        by (auto simp: dsp_at_def dsp_ok_def view_lengths nth_append intro!: ok_set_dsp)
    qed
  next
    case (DpClose k cause err)
    then show ?thesis using step ok by (auto simp: dsp_go_def elim!: close_slot_cases intro!: ok_dsp_at ok_slot_kill)
  next
    case (DpUnpark k err)
    then show ?thesis using step ok by (auto simp: dsp_go_def dest!: ok_slot_removed intro!: ok_dsp_at)
  qed (use step ok in \<open>auto simp: dsp_go_def Let_def split: list.splits if_splits intro!: ok_dsp_at ok_slot_send\<close>)
qed

lemma take_frame_simps [simp]:
  "dp_phase (take_frame cfg i f d) = dp_phase d" "dp_req (take_frame cfg i f d) = dp_req d" "request_id (take_frame cfg i f d) = request_id d"
  "dp_received (take_frame cfg i f d) = dp_received d @ [(i, f)]"
  by (simp_all add: take_frame_def Let_def split: AgentBody.splits option.splits)

lemma ok_hand_over:
  assumes step: "hand_over i j s = Some t" and i: "i < length (tn_serves s)" and j: "j < length (tn_dispatches s)" and ok: "tunnel_ok G s"
  shows "tunnel_ok G t"
proof -
  obtain k c f k' where ph: "sv_phase (tn_serves s ! i) = SvDeliver k c f" "dp_phase (tn_dispatches s ! j) = DpOpen k' c"
    and t: "t = set_dsp j (take_frame (tn_cfg s) i f) (set_srv i (case fr_Body f of AfEnd _ \<Rightarrow> SvFinish k c | _ \<Rightarrow> SvRead k) s)"
    using step by (auto simp: hand_over_def split: srv_phase.splits dsp_phase.splits if_splits)
  note okx = ok_srvD [OF ok i] and okd = ok_dspD [OF ok j]
  have "vServes s ! i = (rq_NodeID (dp_req (tn_dispatches s ! j)), request_class (dp_req (tn_dispatches s ! j)))"
    "fr_RequestId f = request_id (tn_dispatches s ! j)" "(i, f) \<in> G"
    using okx okd ph i by (auto simp: srv_ok_def dsp_ok_def slot_of_def vServes_def)
  then show ?thesis using okx ph i unfolding t
    by (intro ok_set_dsp ok_set_phase ok) (auto simp: srv_ok_def dsp_ok_def view_lengths split: AgentBody.splits)
qed

lemma ok_dsp_rest:
  "dsp_aborted j s = Some t \<Longrightarrow> tunnel_ok G s \<Longrightarrow> tunnel_ok G t" "dsp_canceled j err s = Some t \<Longrightarrow> tunnel_ok G s \<Longrightarrow> tunnel_ok G t"
  "Response_Close j s = Some t \<Longrightarrow> tunnel_ok G s \<Longrightarrow> tunnel_ok G t"
  by (auto simp: dsp_aborted_def dsp_canceled_def Response_Close_def dsp_ok_def
      split: dsp_phase.splits option.splits if_splits intro!: ok_set_dsp ok_dsp_at ok_call_release ok_slot_send)

lemma ok_roster: "SetRoster r s = Some t \<Longrightarrow> tunnel_ok G s \<Longrightarrow> tunnel_ok G t" "Tunnel_Close reason grace s = Some t \<Longrightarrow> tunnel_ok G s \<Longrightarrow> tunnel_ok G t"
  by (auto simp: SetRoster_def Tunnel_Close_def with_server_def Let_def split: if_splits)

lemma ok_pub_go: "pub_go i s = Some t \<Longrightarrow> tunnel_ok G s \<Longrightarrow> tunnel_ok G t"
  by (cases "pb_phase (tn_publishers s ! i)")
    (auto simp: pub_go_def pub_at_def with_node_def Let_def ok_set_pub node_ok_def node_drain_def split: list.splits option.splits if_splits once.splits
      elim!: close_slot_cases dest!: ok_slot_removed intro!: ok_set_node ok_broadcast ok_slot_kill)

lemma ok_open_control: "accept_control p first = Inr x \<Longrightarrow> tunnel_ok G s \<Longrightarrow> tunnel_ok G (s\<lparr>tn_sessions := tn_sessions s @ [x]\<rparr>)"
  by (auto simp: tunnel_ok_def accept_control_def ctl_ok_def split: option.splits if_splits AgentControl.splits intro!: all_ok_append)

lemma ok_open_serve:
  assumes "accept_serve p body = Inr v" and ok: "tunnel_ok G s"
  shows "tunnel_ok G (s\<lparr>tn_serves := tn_serves s @ [v]\<rparr>)"
proof -
  have "sv_phase v = SvCheck" using assms(1) by (auto simp: accept_serve_def split: option.splits AgentBody.splits if_splits)
  then have "srv_ok G (vIds s) (vSlots s) (vCalls s) i v" for i by (simp add: srv_ok_def)
  then show ?thesis using ok dsp_ok_mono [of G _ _ _ _ _ _ "{}" "[]" "[]" "[]"]
    by (auto simp: tunnel_ok_def intro!: all_ok_append elim!: all_ok_mono)
qed

lemma ok_open_dispatch: "tunnel_ok G s \<Longrightarrow> tunnel_ok G (s\<lparr>tn_dispatches := tn_dispatches s @ [start_dispatch req a b c]\<rparr>)"
  by (auto simp: tunnel_ok_def dsp_ok_def start_dispatch_def intro!: all_ok_append)

text \<open>The frames a step receives.\<close>

fun received :: "event \<Rightarrow> (nat \<times> AgentFrame) set" where
  "received (SrvRecv i frame) = {(i, frame)}" | "received _ = {}"

lemma ok_step: "tunnel_step s e t \<Longrightarrow> tunnel_ok G s \<Longrightarrow> tunnel_ok (G \<union> received e) t"
proof (induction rule: tunnel_step.induct)
  case (tunnel_step e s t)
  then show ?case
    using ok_more [of G s "G \<union> received e"]
    by (cases e) (auto split: if_splits sum.splits intro: ok_open_control ok_open_serve ok_open_dispatch ok_ctl_go ok_ctl_recv ok_ctl_end ok_srv_go ok_srv_recv ok_srv_end ok_dsp_go ok_hand_over
        ok_dsp_rest ok_roster ok_pub_go)
qed


section \<open>What a step does to the slots and the calls\<close>

text \<open>
  A dead slot stays dead, and a slot lets go of its request only by dying or when the request is over: \<open>F k c\<close>.
  Calls keep their id and their limit.
\<close>

definition keeps :: "(nat \<Rightarrow> nat \<Rightarrow> bool) \<Rightarrow> tunnel \<Rightarrow> tunnel \<Rightarrow> bool" where
  "keeps F s t \<longleftrightarrow>
     length (tn_slots s) \<le> length (tn_slots t) \<and> length (tn_calls s) \<le> length (tn_calls t)
   \<and> (\<forall>k < length (tn_slots s). (sl_dead (slotAt s k) \<longrightarrow> sl_dead (slotAt t k))
        \<and> (\<forall>c. sl_cur (slotAt s k) = Some c \<longrightarrow> sl_cur (slotAt t k) = Some c \<or> sl_dead (slotAt t k) \<or> F k c))
   \<and> (\<forall>c < length (tn_calls s). ca_id (callAt t c) = ca_id (callAt s c) \<and> ca_maxFrame (callAt t c) = ca_maxFrame (callAt s c))"

definition inert :: "(slot \<Rightarrow> slot) \<Rightarrow> bool" where
  "inert g \<longleftrightarrow> (\<forall>x. (sl_dead x \<longrightarrow> sl_dead (g x)) \<and> (sl_cur (g x) = sl_cur x \<or> sl_dead (g x) \<or> sl_cur x = None))"

lemma keeps_same: "tn_slots t = tn_slots s \<Longrightarrow> tn_calls t = tn_calls s \<Longrightarrow> keeps F s t"
  by (simp add: keeps_def slotAt_def callAt_def)

lemma keeps_frame: "keeps F s t \<Longrightarrow> tn_slots u = tn_slots t \<Longrightarrow> tn_calls u = tn_calls t \<Longrightarrow> keeps F s u"
  by (simp add: keeps_def slotAt_def callAt_def)

lemma keeps_frames [simp]:
  "keeps F s (set_ctl i p t) = keeps F s t" "keeps F s (set_srv i q t) = keeps F s t" "keeps F s (set_dsp j d t) = keeps F s t"
  "keeps F s (set_pub i u t) = keeps F s t" "keeps F s (session_send i m t) = keeps F s t" "keeps F s (set_node e f t) = keeps F s t"
  "keeps F s (controlsChanged v t) = keeps F s t" "keeps F s (t\<lparr>tn_mu := x\<rparr>) = keeps F s t" "keeps F s s"
  by (simp_all add: keeps_def slotAt_def callAt_def)

lemma keeps_set_slot: "inert g \<Longrightarrow> keeps F s (set_slot k g s)"
  by (auto simp: keeps_def slotAt_def callAt_def upd_nth inert_def) (metis option.discI)

lemma keeps_set_call: "(\<And>x. ca_id (h x) = ca_id x \<and> ca_maxFrame (h x) = ca_maxFrame x) \<Longrightarrow> keeps F s t \<Longrightarrow> keeps F s (set_call c h t)"
  by (auto simp: keeps_def slotAt_def callAt_def upd_nth)

lemma keeps_call_ops: "keeps F s t \<Longrightarrow> keeps F s (call_abort c err t)" "keeps F s t \<Longrightarrow> keeps F s (call_release c t)"
  by (auto simp: call_abort_def call_release_def intro!: keeps_set_call)

lemma keeps_slot_kill: "keeps F s (slot_kill k cause s)"
  by (auto simp: slot_kill_def Let_def inert_def split: option.splits intro!: keeps_call_ops keeps_set_slot)

lemma keeps_slot_removed: "slot_removed k s = Some t \<Longrightarrow> keeps F s t"
  by (auto simp: slot_removed_def with_node_def keeps_def slotAt_def callAt_def upd_nth split: if_splits)

lemma keeps_slot_finish: "F k c \<Longrightarrow> keeps F s (slot_finish k c s)"
  by (auto simp: slot_finish_def keeps_def slotAt_def callAt_def upd_nth)

lemma keeps_close: "close_slot k cause started passed s = Some t \<Longrightarrow> (\<And>u. tn_slots (started u) = tn_slots u \<and> tn_calls (started u) = tn_calls u)
    \<Longrightarrow> (\<And>u. tn_slots (passed u) = tn_slots u \<and> tn_calls (passed u) = tn_calls u) \<Longrightarrow> keeps F s t"
  by (auto elim!: close_slot_cases intro: keeps_frame [OF keeps_slot_kill] keeps_same)

lemma keeps_forget: "forget e s = Some t \<Longrightarrow> keeps F s t"
  by (auto simp: forget_def with_node_def split: if_splits intro: keeps_same)

lemma keeps_Server_node: "Server_node i s = Some (e, t) \<Longrightarrow> keeps F s t"
  by (auto simp: Server_node_def split: if_splits option.splits intro: keeps_same)

lemma keeps_ctl_go: "ctl_go now i s = Some t \<Longrightarrow> keeps F s t"
  by (cases "se_phase (tn_sessions s ! i)")
    (auto simp: ctl_go_def with_server_def with_node_def Let_def split: if_splits option.splits prod.splits list.splits
      elim!: keeps_close intro: keeps_Server_node keeps_slot_removed keeps_forget)

lemma keeps_ctl_recv: "ctl_recv now sent i frame s = Some t \<Longrightarrow> keeps F s t" "ctl_end i r s = Some t \<Longrightarrow> keeps F s t"
  by (auto simp: ctl_recv_def ctl_end_def with_node_def Let_def split: ctl_phase.splits if_splits AgentControl.splits intro!: keeps_same)

text \<open>The request of call \<open>c\<close> is over: its last frame was received, or one too large for it.\<close>

definition over :: "(nat \<times> AgentFrame) set \<Rightarrow> tunnel \<Rightarrow> nat \<Rightarrow> bool" where
  "over G s c \<longleftrightarrow> (\<exists>i f. (i, f) \<in> G \<and> fr_RequestId f = ca_id (callAt s c)
     \<and> (is_end (fr_Body f) \<or> (\<exists>p. fr_Body f = AfData p \<and> length p > ca_maxFrame (callAt s c))))"

lemma keeps_srv_go:
  assumes step: "srv_go i s = Some t" and i: "i < length (tn_serves s)" and ok: "tunnel_ok G s"
  shows "keeps (\<lambda>_. over G s) s t"
proof (cases "sv_phase (tn_serves s ! i)")
  case (SvLive e)
  then show ?thesis using step
    by (auto simp: srv_go_def with_node_def Let_def keeps_def slotAt_def callAt_def nth_append split: if_splits)
next
  case (SvFinish k c)
  then obtain f where "(i, f) \<in> G" "fr_RequestId f = ca_id (callAt s c)" "is_end (fr_Body f)"
    using ok_srvD [OF ok i] by (auto simp: srv_ok_def view_lengths nth_vCalls)
  then have "over G s c" unfolding over_def by blast
  then show ?thesis using step SvFinish by (auto simp: srv_go_def intro!: keeps_slot_finish)
next
  case (SvPark k first)
  then show ?thesis using step by (auto simp: srv_go_def inert_def split: if_splits intro!: keeps_set_slot)
next
  case (SvWithdraw k first)
  then show ?thesis using step by (auto simp: srv_go_def inert_def intro!: keeps_set_slot)
qed (use step in \<open>auto simp: srv_go_def with_server_def with_node_def Let_def split: if_splits option.splits prod.splits list.splits
      elim!: keeps_close intro: keeps_Server_node keeps_slot_removed keeps_forget\<close>)

lemma keeps_fault [simp]: "keeps F s (fault i k d t) = keeps F s t" "keeps F s (dsp_at j p t) = keeps F s t" "keeps F s (pub_at i u t) = keeps F s t"
  by (simp_all add: fault_def Let_def dsp_at_def pub_at_def)

lemma keeps_slot_finish_abort: "F k c \<Longrightarrow> keeps F s (slot_finish k c (call_abort c' err s))"
  by (auto simp: slot_finish_def call_abort_def keeps_def slotAt_def callAt_def upd_nth)

lemma keeps_srv_recv:
  assumes step: "srv_recv i frame s = Some t" and G: "(i, frame) \<in> G"
  shows "keeps (\<lambda>_. over G s) s t"
proof -
  have "over G s c" if "ca_id (callAt s c) = fr_RequestId frame" "fr_Body frame = AfData p" "length p > ca_maxFrame (callAt s c)" for c p
    using that G by (auto simp: over_def)
  then show ?thesis using step
    by (auto simp: srv_recv_def route_def Let_def split: srv_phase.splits AgentBody.splits if_splits option.splits
        intro!: keeps_slot_finish_abort)
qed

lemma keeps_acquire: "acquire e class s = (taken, t) \<Longrightarrow> keeps F s t"
  by (auto simp: acquire_def Let_def keeps_def slotAt_def callAt_def upd_nth split: if_splits prod.splits option.splits)

lemma keeps_begin:
  assumes "slot_begin k (length (tn_calls s)) (s\<lparr>tn_calls := tn_calls s @ [x]\<rparr>) = Inr u"
  shows "keeps F s u"
  using assms by (auto simp: slot_begin_def Let_def keeps_def slotAt_def callAt_def upd_nth nth_append split: if_splits)

lemma keeps_new_call: "keeps F s (s\<lparr>tn_calls := tn_calls s @ [x]\<rparr>)"
  by (auto simp: keeps_def slotAt_def callAt_def nth_append)

lemma dsp_at_calls [simp]: "tn_calls (dsp_at j p s) = tn_calls s"
  by (simp add: dsp_at_def)

lemma keeps_dsp_go: "dsp_go sent j s = Some t \<Longrightarrow> keeps F s t"
  by (cases "dp_phase (tn_dispatches s ! j)")
    (auto simp: dsp_go_def with_server_def with_node_def Let_def slot_send_def inert_def split: if_splits option.splits prod.splits list.splits sum.splits
      elim!: keeps_close intro: keeps_acquire keeps_begin keeps_new_call keeps_slot_removed intro!: keeps_set_slot)

lemma keeps_dsp_rest:
  "hand_over i j s = Some t \<Longrightarrow> keeps F s t" "dsp_aborted j s = Some t \<Longrightarrow> keeps F s t" "dsp_canceled j err s = Some t \<Longrightarrow> keeps F s t"
  "Response_Close j s = Some t \<Longrightarrow> keeps F s t"
  by (auto simp: hand_over_def dsp_aborted_def dsp_canceled_def Response_Close_def slot_send_def inert_def
      split: srv_phase.splits dsp_phase.splits option.splits if_splits
      intro!: keeps_call_ops keeps_set_slot)

lemma keeps_broadcast [simp]: "keeps F s (broadcast m e t) = keeps F s t"
proof -
  have "keeps F s (fold (\<lambda>i. session_send i m) is t) = keeps F s t" for "is" t
    by (induction "is" arbitrary: t) simp_all
  then show ?thesis by (simp add: broadcast_def)
qed

lemma keeps_pub_go: "pub_go i s = Some t \<Longrightarrow> keeps F s t"
  by (cases "pb_phase (tn_publishers s ! i)")
    (auto simp: pub_go_def with_node_def Let_def split: list.splits option.splits if_splits once.splits
      elim!: keeps_close intro: keeps_slot_removed simp: pub_at_def)

lemma keeps_roster: "SetRoster r s = Some t \<Longrightarrow> keeps F s t" "Tunnel_Close reason grace s = Some t \<Longrightarrow> keeps F s t"
  by (auto simp: SetRoster_def Tunnel_Close_def with_server_def Let_def split: if_splits intro: keeps_same)

lemma keeps_step: "tunnel_step s e t \<Longrightarrow> tunnel_ok G s \<Longrightarrow> keeps (\<lambda>_. over (G \<union> received e) s) s t"
proof (induction rule: tunnel_step.induct)
  case (tunnel_step e s t)
  then show ?case
    using ok_more [of G s "G \<union> received e"]
    by (cases e) (auto split: if_splits sum.splits intro: keeps_same keeps_ctl_go keeps_ctl_recv keeps_srv_go keeps_srv_recv keeps_dsp_go keeps_dsp_rest
        keeps_roster keeps_pub_go simp: srv_end_def split: srv_phase.splits)
qed


section \<open>Where streams come from\<close>

lemma vServes_ops:
  "Server_node i s = Some (e, t) \<Longrightarrow> vServes t = vServes s" "forget e s = Some t \<Longrightarrow> vServes t = vServes s"
  "slot_removed k s = Some t \<Longrightarrow> vServes t = vServes s" "acquire e class s = (taken, t) \<Longrightarrow> vServes t = vServes s"
  "slot_begin k c s = Inr t \<Longrightarrow> vServes t = vServes s"
  by (auto simp: Server_node_def forget_def slot_removed_def acquire_def slot_begin_def with_node_def Let_def split: if_splits option.splits prod.splits)

lemma vServes_close:
  "close_slot k cause started passed s = Some t \<Longrightarrow> (\<And>u. vServes (started u) = vServes u) \<Longrightarrow> (\<And>u. vServes (passed u) = vServes u) \<Longrightarrow> vServes t = vServes s"
  by (auto elim!: close_slot_cases)

lemma vServes_frames [simp]: "vServes (dsp_at j p s) = vServes s" "vServes (pub_at i u s) = vServes s" "vServes (fault i k d s) = vServes s"
  by (simp_all add: dsp_at_def pub_at_def fault_def Let_def)

lemma vServes_broadcast [simp]: "vServes (broadcast m e s) = vServes s"
proof -
  have "vServes (fold (\<lambda>i. session_send i m) is t) = vServes t" for "is" t by (induction "is" arbitrary: t) simp_all
  then show ?thesis by (simp add: broadcast_def)
qed

lemma vServes_threads:
  "ctl_go now i s = Some t \<Longrightarrow> vServes t = vServes s" "srv_go i s = Some t \<Longrightarrow> vServes t = vServes s"
  "dsp_go sent j s = Some t \<Longrightarrow> vServes t = vServes s" "pub_go i s = Some t \<Longrightarrow> vServes t = vServes s"
  by (auto simp: ctl_go_def srv_go_def dsp_go_def pub_go_def with_server_def with_node_def Let_def vServes_ops
      split: ctl_phase.splits srv_phase.splits dsp_phase.splits pub_phase.splits if_splits option.splits prod.splits list.splits sum.splits once.splits
      dest: vServes_ops vServes_close)

lemma vServes_rest:
  "ctl_recv now sent i frame s = Some t \<Longrightarrow> vServes t = vServes s" "ctl_end i r s = Some t \<Longrightarrow> vServes t = vServes s"
  "srv_recv i fr s = Some t \<Longrightarrow> vServes t = vServes s" "srv_end i r s = Some t \<Longrightarrow> vServes t = vServes s"
  "hand_over i j s = Some t \<Longrightarrow> vServes t = vServes s" "dsp_aborted j s = Some t \<Longrightarrow> vServes t = vServes s"
  "dsp_canceled j err s = Some t \<Longrightarrow> vServes t = vServes s" "Response_Close j s = Some t \<Longrightarrow> vServes t = vServes s"
  "SetRoster ro s = Some t \<Longrightarrow> vServes t = vServes s" "Tunnel_Close reason grace s = Some t \<Longrightarrow> vServes t = vServes s"
  by (auto simp: ctl_recv_def ctl_end_def srv_recv_def srv_end_def hand_over_def dsp_aborted_def dsp_canceled_def Response_Close_def SetRoster_def
      Tunnel_Close_def with_server_def with_node_def Let_def route_def
      split: ctl_phase.splits srv_phase.splits dsp_phase.splits AgentControl.splits AgentBody.splits if_splits option.splits)

lemma accept_serve_identity: "accept_serve p body = Inr v \<Longrightarrow> FromPeer p = Some (sv_certNodeID v)"
  by (auto simp: accept_serve_def split: option.splits AgentBody.splits if_splits)

lemma vServes_step:
  assumes "tunnel_step s e t"
  shows "vServes t = vServes s \<or> (\<exists>p body id c. e = ServeOpen p body \<and> FromPeer p = Some id \<and> vServes t = vServes s @ [(id, c)])"
  using assms
proof (induction rule: tunnel_step.induct)
  case (tunnel_step e s t)
  then show ?case
    by (cases e) (auto split: if_splits sum.splits simp: vServes_threads vServes_rest dest: accept_serve_identity)
qed

definition opened :: "event list \<Rightarrow> tunnel \<Rightarrow> bool" where
  "opened es s \<longleftrightarrow> (\<forall>i < length (vServes s). \<exists>p body. ServeOpen p body \<in> set es \<and> FromPeer p = Some (fst (vServes s ! i)))"

lemma opened_step: "tunnel_step s e t \<Longrightarrow> opened es s \<Longrightarrow> opened (es @ [e]) t"
  using vServes_step [of s e t] by (fastforce simp: opened_def nth_append less_Suc_eq)


section \<open>Histories\<close>

definition received_in :: "event list \<Rightarrow> (nat \<times> AgentFrame) set" where
  "received_in es = {(i, f). SrvRecv i f \<in> set es}"

lemma received_in_snoc [simp]: "received_in (es @ [e]) = received_in es \<union> received e" and received_in_Nil [simp]: "received_in [] = {}"
  by (cases e) (auto simp: received_in_def)

lemma history_tunnel:
  assumes "run tunnel_step s0 es s" and "Tunnel_New r h t m wk dec = Inr s0"
  shows "tunnel_ok (received_in es) s \<and> opened es s"
  using assms
proof (induction rule: run.induct)
  case (run_Nil s)
  then show ?case by (auto simp: Tunnel_New_def tunnel_ok_def all_ok_def opened_def vServes_def split: if_splits)
next
  case (run_snoc s es s' e s'')
  then show ?case using ok_step [of s' e s''] opened_step by simp
qed

lemma keeps_run:
  assumes "run tunnel_step s fs t" and "tunnel_ok G s" and "k < length (tn_slots s)" and "c < length (tn_calls s)"
  shows "tunnel_ok (G \<union> received_in fs) t \<and> length (tn_slots s) \<le> length (tn_slots t) \<and> length (tn_calls s) \<le> length (tn_calls t)
    \<and> ca_id (callAt t c) = ca_id (callAt s c) \<and> ca_maxFrame (callAt t c) = ca_maxFrame (callAt s c)
    \<and> (sl_cur (slotAt s k) = Some c \<longrightarrow> sl_cur (slotAt t k) = Some c \<or> sl_dead (slotAt t k) \<or> over (G \<union> received_in fs) s c)"
  using assms
proof (induction rule: run.induct)
  case (run_Nil s)
  then show ?case by simp
next
  case (run_snoc s fs t e u)
  then have IH: "tunnel_ok (G \<union> received_in fs) t" "length (tn_slots s) \<le> length (tn_slots t)" "length (tn_calls s) \<le> length (tn_calls t)"
    "ca_id (callAt t c) = ca_id (callAt s c)" "ca_maxFrame (callAt t c) = ca_maxFrame (callAt s c)"
    "sl_cur (slotAt s k) = Some c \<longrightarrow> sl_cur (slotAt t k) = Some c \<or> sl_dead (slotAt t k) \<or> over (G \<union> received_in fs) s c"
    by blast+
  have K: "keeps (\<lambda>_. over (G \<union> received_in (fs @ [e])) t) t u" using keeps_step [OF run_snoc.hyps(2) IH(1)] by (simp add: sup_assoc)
  have mono: "over (G \<union> received_in fs) s c \<Longrightarrow> over (G \<union> received_in (fs @ [e])) s c" unfolding over_def by auto
  have same: "over H t c = over H s c" for H using IH by (simp add: over_def)
  have kc: "k < length (tn_slots t)" "c < length (tn_calls t)" using IH(2,3) run_snoc.prems(2,3) by simp_all
  have dead: "sl_dead (slotAt t k) \<longrightarrow> sl_dead (slotAt u k)"
    and cur: "sl_cur (slotAt t k) = Some c \<longrightarrow> sl_cur (slotAt u k) = Some c \<or> sl_dead (slotAt u k) \<or> over (G \<union> received_in (fs @ [e])) s c"
    using K kc(1) same unfolding keeps_def by auto
  have "ca_id (callAt u c) = ca_id (callAt s c)" "ca_maxFrame (callAt u c) = ca_maxFrame (callAt s c)"
    "length (tn_slots s) \<le> length (tn_slots u)" "length (tn_calls s) \<le> length (tn_calls u)"
    using K kc(2) IH(2-5) unfolding keeps_def by auto
  moreover have "tunnel_ok (G \<union> received_in (fs @ [e])) u" using ok_step [OF run_snoc.hyps(2) IH(1)] by (simp add: sup_assoc)
  moreover have "sl_cur (slotAt s k) = Some c \<longrightarrow> sl_cur (slotAt u k) = Some c \<or> sl_dead (slotAt u k) \<or> over (G \<union> received_in (fs @ [e])) s c"
    using IH(6) dead cur mono by blast
  ultimately show ?case by blast
qed


section \<open>Properties\<close>

text \<open>
  C2. A caller is given only its own frames. Whatever the goroutines of the tunnel do, a frame delivered to a
  dispatched request carries that request's id and arrived on a data stream of the very node the request was
  sent to, of the slot class it needed: the verified certificate with which that stream was opened names the
  node.
\<close>

theorem tunnel_frames_isolated:
  assumes "Tunnel_New r h hb m wk dec = Inr s0" and "run tunnel_step s0 es s"
    and "j < length (tn_dispatches s)" and "(i, frame) \<in> set (dp_received (tn_dispatches s ! j))"
  shows "fr_RequestId frame = request_id (tn_dispatches s ! j)
    \<and> SrvRecv i frame \<in> set es
    \<and> sv_certNodeID (tn_serves s ! i) = rq_NodeID (dp_req (tn_dispatches s ! j))
    \<and> rd_Class (sv_ready (tn_serves s ! i)) = request_class (dp_req (tn_dispatches s ! j))
    \<and> (\<exists>p body. ServeOpen p body \<in> set es \<and> FromPeer p = Some (rq_NodeID (dp_req (tn_dispatches s ! j))))"
proof -
  have ok: "tunnel_ok (received_in es) s" and op: "opened es s" using history_tunnel [OF assms(2,1)] by simp_all
  have f: "(i, frame) \<in> received_in es" "i < length (vServes s)" "fr_RequestId frame = request_id (tn_dispatches s ! j)"
    "vServes s ! i = (rq_NodeID (dp_req (tn_dispatches s ! j)), request_class (dp_req (tn_dispatches s ! j)))"
    using ok_dspD [OF ok assms(3)] assms(4) by (auto simp: dsp_ok_def)
  moreover have "rd_Class (sv_ready (tn_serves s ! i)) = snd (vServes s ! i)" "sv_certNodeID (tn_serves s ! i) = fst (vServes s ! i)" using f(2) by (simp_all add: vServes_def)
  moreover obtain p body where "ServeOpen p body \<in> set es" "FromPeer p = Some (fst (vServes s ! i))" using op f(2) by (auto simp: opened_def)
  ultimately show ?thesis by (auto simp: received_in_def)
qed

text \<open>
  C17. A slot carries one request at a time. Once a request is on a slot, another one can be on it only after the
  Agent ended the first: its end frame was received, or a frame beyond its size limit.
\<close>

theorem tunnel_slot_exclusive:
  assumes "Tunnel_New r h hb m wk dec = Inr s0" and "run tunnel_step s0 es s" and "run tunnel_step s fs t"
    and "k < length (tn_slots s)" and "sl_cur (slotAt s k) = Some c" and "sl_cur (slotAt t k) = Some c'" and "c' \<noteq> c"
  shows "\<exists>i f. SrvRecv i f \<in> set (es @ fs) \<and> fr_RequestId f = ca_id (callAt s c)
    \<and> (is_end (fr_Body f) \<or> (\<exists>p. fr_Body f = AfData p \<and> length p > ca_maxFrame (callAt s c)))"
proof -
  have ok: "tunnel_ok (received_in es) s" using history_tunnel [OF assms(2,1)] by simp
  have c: "c < length (tn_calls s)" using ok_slotD [OF ok assms(4)] assms(5) by (simp add: slot_ok_def view_lengths)
  note K = keeps_run [OF assms(3) ok assms(4) c]
  have "\<not> sl_dead (slotAt t k)" using ok_slotD [of _ t k] K assms(4,6) by (auto simp: slot_ok_def)
  then have "over (received_in es \<union> received_in fs) s c" using K assms(5-7) by auto
  then show ?thesis by (auto simp: over_def received_in_def)
qed


section \<open>Witnesses\<close>

theorem tunnel_frames_isolated_witness:
  "\<exists>t. run tunnel_step tunnel_a (first_request @ second_request) t \<and> (0, end_frame ''r1'') \<in> set (dp_received (tn_dispatches t ! 0))
    \<and> sv_certNodeID (tn_serves t ! 0) = rq_NodeID (dp_req (tn_dispatches t ! 0))
    \<and> (\<exists>p body. ServeOpen p body \<in> set (first_request @ second_request) \<and> FromPeer p = Some (rq_NodeID (dp_req (tn_dispatches t ! 0))))"
proof -
  obtain t where t: "run tunnel_step tunnel_a (first_request @ second_request) t"
    "length (tn_dispatches t) = 2" "dp_received (tn_dispatches t ! 0) = [(0, end_frame ''r1'')]"
    using probe_run [OF conjunct1 [OF conjunct2 [OF traces]]] by auto
  have "0 < length (tn_dispatches t)" and got: "(0, end_frame ''r1'') \<in> set (dp_received (tn_dispatches t ! 0))" using t(2,3) by simp_all
  from tunnel_frames_isolated [OF tunnel_a_new t(1) this] show ?thesis using t(1) got by blast
qed

theorem tunnel_slot_exclusive_witness:
  "\<exists>i f. SrvRecv i f \<in> set (first_request @ second_request) \<and> fr_RequestId f = ''r1''"
proof -
  obtain s where s: "run tunnel_step tunnel_a first_request s" "trace_of first_request tunnel_a = Some s" "length (tn_slots s) = 1"
    "sl_cur (slotAt s 0) = Some 0" "map ca_id (tn_calls s) = [''r1'']"
    using probe_run [OF conjunct1 [OF traces]] by auto
  obtain t where t: "trace_of (first_request @ second_request) tunnel_a = Some t" "sl_cur (slotAt t 0) = Some 1"
    using probe_run [OF conjunct1 [OF conjunct2 [OF traces]]] by auto
  have "run tunnel_step s second_request t" using trace_of_run t(1) s(2) by (simp add: trace_of_append)
  moreover have "ca_id (callAt s 0) = ''r1''" using s(5) by (auto simp: callAt_def)
  ultimately show ?thesis using tunnel_slot_exclusive [OF tunnel_a_new s(1), of second_request t 0 0 1] s(3,4) t(2) by auto
qed

end
