(* ===== verification/TunnelRaces.thy ===== *)
theory TunnelRaces
  imports TunnelTraces
begin

text \<open>
  Where the goroutines of the tunnel server get in each other's way. Control takes a node's mutex and then the
  server's, \<open>forget\<close> the server's and then the node's: an Agent that reconnects while its old stream is being
  torn down can stop the replica for good. And a stream looks its node up in one critical section and registers
  with it in another, so that a node can be forgotten, or disabled, in between.
\<close>


section \<open>The deadlock\<close>

text \<open>
  Session \<open>i\<close> holds the mutex of entry \<open>e\<close> and waits for the server's; session \<open>j\<close> holds the server's and
  waits for that of the entry. No other goroutine believes it holds the server's mutex.
\<close>

definition deadlocked :: "nat \<Rightarrow> nat \<Rightarrow> nat \<Rightarrow> stream_result \<Rightarrow> tunnel \<Rightarrow> bool" where
  "deadlocked i j e r s \<longleftrightarrow>
     i < length (tn_sessions s) \<and> se_phase (tn_sessions s ! i) = CtLocked e
   \<and> j < length (tn_sessions s) \<and> se_phase (tn_sessions s ! j) = CtForgetLocked e r
   \<and> e < length (tn_heap s) \<and> nd_mu (nodeAt s e) \<noteq> None \<and> map_of (tn_nodes s) (nd_id (nodeAt s e)) = Some e
   \<and> tn_mu s = Some (CtlT j)
   \<and> (\<forall>l < length (tn_sessions s). \<forall>e' r'. se_phase (tn_sessions s ! l) = CtForgetLocked e' r' \<longrightarrow> l = j)
   \<and> (\<forall>l < length (tn_serves s). \<forall>e' r'. sv_phase (tn_serves s ! l) \<noteq> SvForgetLocked e' r')"


lemma dl_node: "deadlocked i j e r s \<Longrightarrow> e' \<noteq> e \<or> (\<forall>n. nd_mu (f n) = nd_mu n) \<Longrightarrow> (\<And>n. nd_id (f n) = nd_id n) \<Longrightarrow> deadlocked i j e r (set_node e' f s)"
  by (auto simp: deadlocked_def nodeAt_def upd_nth)

lemma dl_ctl: "deadlocked i j e r s \<Longrightarrow> l \<noteq> i \<Longrightarrow> l \<noteq> j \<Longrightarrow> (\<And>e' r'. p \<noteq> CtForgetLocked e' r') \<Longrightarrow> deadlocked i j e r (set_ctl l p s)"
  by (auto simp: deadlocked_def nodeAt_def upd_nth)

lemma dl_srv: "deadlocked i j e r s \<Longrightarrow> (\<And>e' r'. p \<noteq> SvForgetLocked e' r') \<Longrightarrow> deadlocked i j e r (set_srv l p s)"
  by (auto simp: deadlocked_def nodeAt_def upd_nth)

lemma dl_frames [simp]:
  "deadlocked i j e r (set_slot k g s) = deadlocked i j e r s" "deadlocked i j e r (set_call c h s) = deadlocked i j e r s"
  "deadlocked i j e r (set_dsp d u s) = deadlocked i j e r s" "deadlocked i j e r (set_pub l v s) = deadlocked i j e r s"
  "deadlocked i j e r (s\<lparr>tn_slots := x\<rparr>) = deadlocked i j e r s" "deadlocked i j e r (s\<lparr>tn_calls := y\<rparr>) = deadlocked i j e r s"
  "deadlocked i j e r (s\<lparr>tn_dispatches := z\<rparr>) = deadlocked i j e r s"
  by (simp_all add: deadlocked_def nodeAt_def)

lemma dl_send: "deadlocked i j e r s \<Longrightarrow> deadlocked i j e r (session_send l m s)"
  by (auto simp: deadlocked_def nodeAt_def upd_nth)

lemma dl_broadcast: "deadlocked i j e r s \<Longrightarrow> deadlocked i j e r (broadcast m e' s)"
proof -
  have "deadlocked i j e r t \<Longrightarrow> deadlocked i j e r (fold (\<lambda>i. session_send i m) is t)" for "is" t
    by (induction "is" arbitrary: t) (simp_all add: dl_send)
  then show "deadlocked i j e r s \<Longrightarrow> deadlocked i j e r (broadcast m e' s)" by (simp add: broadcast_def)
qed

lemma dl_kill [simp]: "deadlocked i j e r (slot_kill k cause s) = deadlocked i j e r s"
  by (simp add: slot_kill_def Let_def call_abort_def split: option.splits)

lemma dl_removed: "slot_removed k s = Some t \<Longrightarrow> deadlocked i j e r s \<Longrightarrow> deadlocked i j e r t"
  by (auto simp: slot_removed_def with_node_def unpark_def split: if_splits intro!: dl_node)

lemma dl_close: "close_slot k cause started passed s = Some t \<Longrightarrow> deadlocked i j e r s \<Longrightarrow> (\<And>u. deadlocked i j e r u \<Longrightarrow> deadlocked i j e r (started u))
    \<Longrightarrow> (\<And>u. deadlocked i j e r u \<Longrightarrow> deadlocked i j e r (passed u)) \<Longrightarrow> deadlocked i j e r t"
  by (auto simp: close_slot_def split: once.splits)

lemma dl_acquire: "acquire e' class s = (taken, t) \<Longrightarrow> deadlocked i j e r s \<Longrightarrow> deadlocked i j e r t"
  by (auto simp: acquire_def Let_def split: if_splits prod.splits option.splits intro!: dl_node)

lemma dl_begin: "slot_begin k c s = Inr t \<Longrightarrow> deadlocked i j e r s \<Longrightarrow> deadlocked i j e r t"
  by (auto simp: slot_begin_def Let_def split: if_splits)

lemma dl_server: "deadlocked i j e r s \<Longrightarrow> with_server s t = None"
  by (simp add: deadlocked_def with_server_def)

lemma dl_entry: "deadlocked i j e r s \<Longrightarrow> with_node s e t = None"
  by (auto simp: deadlocked_def with_node_def)

lemma dl_forget: "deadlocked i j e r s \<Longrightarrow> forget e s = None"
  by (auto simp: forget_def dl_entry) (simp add: deadlocked_def)

lemma dl_ctl_go:
  assumes dl: "deadlocked i j e r s" and l: "l < length (tn_sessions s)" and step: "ctl_go now l s = Some t"
  shows "deadlocked i j e r t"
proof (cases "l = i \<or> l = j")
  case True
  moreover have "se_phase (tn_sessions s ! i) = CtLocked e" "se_phase (tn_sessions s ! j) = CtForgetLocked e r" using dl by (simp_all add: deadlocked_def)
  ultimately show ?thesis using step dl_forget [OF dl] dl_server [OF dl] by (auto simp: ctl_go_def Let_def)
next
  case False
  have "nd_mu (nodeAt s e) \<noteq> None" using dl by (simp add: deadlocked_def)
  moreover have "se_phase (tn_sessions s ! l) \<noteq> CtForgetLocked e' r'" for e' r' using dl l False by (auto simp: deadlocked_def)
  ultimately show ?thesis using step dl False
    by (cases "se_phase (tn_sessions s ! l)")
      (auto simp: ctl_go_def Let_def dl_server with_node_def node_join_def split: if_splits option.splits list.splits
        elim!: dl_close intro!: dl_ctl dl_node dl_send dest: dl_removed)
qed

lemma dl_ctl_rest:
  "deadlocked i j e r s \<Longrightarrow> ctl_recv now sent l frame s = Some t \<Longrightarrow> deadlocked i j e r t" "deadlocked i j e r s \<Longrightarrow> ctl_end l res s = Some t \<Longrightarrow> deadlocked i j e r t"
proof -
  have other: "l \<noteq> i \<and> l \<noteq> j" if "deadlocked i j e r s" "se_phase (tn_sessions s ! l) = CtServe e' \<or> se_phase (tn_sessions s ! l) = CtGreet e' k" for e' k
    using that by (auto simp: deadlocked_def)
  show "deadlocked i j e r s \<Longrightarrow> ctl_recv now sent l frame s = Some t \<Longrightarrow> deadlocked i j e r t"
    using other by (auto simp: ctl_recv_def with_node_def Let_def applyStatus_def node_drain_def split: ctl_phase.splits AgentControl.splits if_splits
        intro!: dl_ctl dl_node dl_send)
  show "deadlocked i j e r s \<Longrightarrow> ctl_end l res s = Some t \<Longrightarrow> deadlocked i j e r t"
    using other by (auto simp: ctl_end_def split: ctl_phase.splits intro!: dl_ctl)
qed

lemma dl_srv_go:
  assumes dl: "deadlocked i j e r s" and l: "l < length (tn_serves s)" and step: "srv_go l s = Some t"
  shows "deadlocked i j e r t"
proof -
  have "sv_phase (tn_serves s ! l) \<noteq> SvForgetLocked e' r'" for e' r' using dl l by (auto simp: deadlocked_def)
  then show ?thesis using step dl
    by (cases "sv_phase (tn_serves s ! l)")
      (auto simp: srv_go_def Let_def dl_server with_node_def addLive_def node_park_def slot_finish_def split: if_splits option.splits AgentBody.splits
        elim!: dl_close intro!: dl_srv dl_node dest: dl_removed)
qed

lemma dl_srv_rest:
  "deadlocked i j e r s \<Longrightarrow> srv_recv l frame s = Some t \<Longrightarrow> deadlocked i j e r t" "deadlocked i j e r s \<Longrightarrow> srv_end l res s = Some t \<Longrightarrow> deadlocked i j e r t"
  "deadlocked i j e r s \<Longrightarrow> hand_over l d s = Some t \<Longrightarrow> deadlocked i j e r t"
  by (auto simp: srv_recv_def srv_end_def hand_over_def route_def fault_def Let_def slot_finish_def call_abort_def
      split: srv_phase.splits dsp_phase.splits AgentBody.splits if_splits option.splits intro!: dl_srv)

lemma dl_dsp:
  "deadlocked i j e r s \<Longrightarrow> dsp_go sent l s = Some t \<Longrightarrow> deadlocked i j e r t"
  "deadlocked i j e r s \<Longrightarrow> dsp_aborted l s = Some t \<Longrightarrow> deadlocked i j e r t" "deadlocked i j e r s \<Longrightarrow> dsp_canceled l err s = Some t \<Longrightarrow> deadlocked i j e r t"
  "deadlocked i j e r s \<Longrightarrow> Response_Close l s = Some t \<Longrightarrow> deadlocked i j e r t"
  by (auto simp: dsp_go_def dsp_aborted_def dsp_canceled_def Response_Close_def dsp_at_def Let_def dl_server with_node_def slot_send_def call_release_def
      split: dsp_phase.splits if_splits option.splits prod.splits list.splits sum.splits elim!: dl_close dest: dl_removed dl_acquire dl_begin)

lemma dl_pub: "deadlocked i j e r s \<Longrightarrow> pub_go l s = Some t \<Longrightarrow> deadlocked i j e r t"
  by (auto simp: pub_go_def pub_at_def Let_def with_node_def node_drain_def split: pub_phase.splits list.splits option.splits if_splits once.splits
      elim!: dl_close intro!: dl_node dl_broadcast dest: dl_removed)

lemma snoc_all: "(\<forall>l < length (xs @ [x]). P l ((xs @ [x]) ! l)) \<longleftrightarrow> (\<forall>l < length xs. P l (xs ! l)) \<and> P (length xs) x"
  by (auto simp: nth_append less_Suc_eq)

lemma dl_open:
  "se_phase x = CtCheck \<Longrightarrow> deadlocked i j e r s \<Longrightarrow> deadlocked i j e r (s\<lparr>tn_sessions := tn_sessions s @ [x]\<rparr>)"
  "sv_phase v = SvCheck \<Longrightarrow> deadlocked i j e r s \<Longrightarrow> deadlocked i j e r (s\<lparr>tn_serves := tn_serves s @ [v]\<rparr>)"
  unfolding deadlocked_def nodeAt_def
  by (simp_all add: snoc_all [where P = "\<lambda>l y. \<forall>e' r'. se_phase y = CtForgetLocked e' r' \<longrightarrow> l = j", simplified]
      snoc_all [where P = "\<lambda>l y. \<forall>e' r'. sv_phase y \<noteq> SvForgetLocked e' r'", simplified] nth_append)

lemma accept_phases: "accept_control p first = Inr x \<Longrightarrow> se_phase x = CtCheck" "accept_serve p body = Inr v \<Longrightarrow> sv_phase v = SvCheck"
  by (auto simp: accept_control_def accept_serve_def split: option.splits if_splits AgentControl.splits AgentBody.splits)

lemma dl_step: "tunnel_step s ev t \<Longrightarrow> deadlocked i j e r s \<Longrightarrow> deadlocked i j e r t"
proof (induction rule: tunnel_step.induct)
  case (tunnel_step ev s t)
  then show ?case
    by (cases ev) (auto simp: SetRoster_def Tunnel_Close_def dl_server split: if_splits sum.splits
        intro: dl_open accept_phases dl_ctl_go dl_ctl_rest dl_srv_go dl_srv_rest dl_dsp dl_pub)
qed


lemma dl_run: "run tunnel_step s fs t \<Longrightarrow> deadlocked i j e r s \<Longrightarrow> deadlocked i j e r t"
  by (erule run_invariant) (rule dl_step)


section \<open>Properties\<close>

text \<open>
  C19. A replica can stop for good. An Agent reconnects while the Gateway tears down its previous Control stream;
  from then on, whatever else happens, the server's mutex is never released: no roster can be installed, no
  request dispatched, no stream of any node accepted.
\<close>

theorem tunnel_reconnect_deadlock:
  "\<exists>s. run tunnel_step tunnel_a deadlock_events s \<and>
     (\<forall>fs t. run tunnel_step s fs t \<longrightarrow> tn_mu t \<noteq> None
       \<and> (\<forall>roster. SetRoster roster t = None)
       \<and> (\<forall>j sent. dp_phase (tn_dispatches t ! j) = DpStart \<and> rq_RuntimeID (dp_req (tn_dispatches t ! j)) \<noteq> '''' \<longrightarrow> dsp_go sent j t = None)
       \<and> (\<forall>i now. se_phase (tn_sessions t ! i) = CtCheck \<longrightarrow> ctl_go now i t = None)
       \<and> (\<forall>i. sv_phase (tn_serves t ! i) = SvCheck \<longrightarrow> srv_go i t = None))"
proof -
  obtain s where s: "run tunnel_step tunnel_a deadlock_events s"
    "map se_phase (tn_sessions s) = [CtForgetLocked 0 StreamOk, CtLocked 0]" "tn_mu s = Some (CtlT 0)" "map nd_mu (tn_heap s) = [Some 1]"
    "tn_nodes s = [(''n'', 0)]" "length (tn_heap s) = 1" "nd_id (nodeAt s 0) = ''n''" "length (tn_serves s) = 0"
    using probe_run [OF conjunct1 [OF conjunct2 [OF conjunct2 [OF traces]]]] by auto
  have len: "length (tn_sessions s) = 2" using arg_cong [OF s(2), of length] by simp
  have ph: "se_phase (tn_sessions s ! 0) = CtForgetLocked 0 StreamOk" "se_phase (tn_sessions s ! 1) = CtLocked 0"
    using arg_cong [OF s(2), of "\<lambda>xs. xs ! 0"] arg_cong [OF s(2), of "\<lambda>xs. xs ! 1"] len by simp_all
  have mu: "nd_mu (nodeAt s 0) = Some 1" using arg_cong [OF s(4), of "\<lambda>xs. xs ! 0"] s(6) by (simp add: nodeAt_def)
  have "deadlocked 1 0 0 StreamOk s" using s(3,5-8) len ph mu by (auto simp: deadlocked_def less_2_cases_iff)
  then have dl: "deadlocked 1 0 0 StreamOk t" if "run tunnel_step s fs t" for fs t using that dl_run by blast
  have "tn_mu t \<noteq> None \<and> (\<forall>roster. SetRoster roster t = None)
      \<and> (\<forall>j sent. dp_phase (tn_dispatches t ! j) = DpStart \<and> rq_RuntimeID (dp_req (tn_dispatches t ! j)) \<noteq> '''' \<longrightarrow> dsp_go sent j t = None)
      \<and> (\<forall>i now. se_phase (tn_sessions t ! i) = CtCheck \<longrightarrow> ctl_go now i t = None)
      \<and> (\<forall>i. sv_phase (tn_serves t ! i) = SvCheck \<longrightarrow> srv_go i t = None)" if "run tunnel_step s fs t" for fs t
    using dl [OF that] by (simp add: dl_server SetRoster_def dsp_go_def ctl_go_def srv_go_def Let_def) (simp add: deadlocked_def)
  then show ?thesis using s(1) by blast
qed

text \<open>
  A connected node can be lost. The same reconnect with the steps in another order reaches a state in which the
  old stream's teardown has forgotten the entry that the new stream was given before: the new Control stream is served
  and counted as a connected node, yet in this state the replica lists no node and finds none when it looks the node
  up for a request. A later stream of the node makes a new entry.
\<close>

theorem tunnel_orphaned_node:
  "\<exists>s. run tunnel_step tunnel_a orphan_events s \<and> se_phase (tn_sessions s ! 1) = CtServe 0 \<and> se_certNodeID (tn_sessions s ! 1) = ''n''
     \<and> nd_controls (nodeAt s 0) = [1] \<and> tn_connected s = 1 \<and> (\<forall>now. Nodes now s = []) \<and> lookup s ''n'' = None"
proof -
  obtain s where s: "run tunnel_step tunnel_a orphan_events s" "map se_phase (tn_sessions s) = [CtDone StreamOk, CtServe 0]"
    "map se_certNodeID (tn_sessions s) = [''n'', ''n'']" "map nd_controls (tn_heap s) = [[1]]" "tn_nodes s = []" "tn_connected s = 1"
    using probe_run [OF conjunct1 [OF conjunct2 [OF conjunct2 [OF conjunct2 [OF traces]]]]] by auto
  have "length (tn_sessions s) = 2" "length (tn_heap s) = 1" using arg_cong [OF s(2), of length] arg_cong [OF s(4), of length] by simp_all
  then show ?thesis
    using s(1,5,6) arg_cong [OF s(2), of "\<lambda>xs. xs ! 1"] arg_cong [OF s(3), of "\<lambda>xs. xs ! 1"] arg_cong [OF s(4), of "\<lambda>xs. xs ! 0"]
    by (auto simp: Nodes_def lookup_def nodeAt_def)
qed

text \<open>
  C23. A node disabled while it connects stays connected: its Control stream was checked against the roster before
  the roster that disables it arrived, and its entry was made after that roster had been published to the
  entries there were. The publication is complete, the node is in the revoked set, and its stream is served.
\<close>

theorem tunnel_revocation_missed:
  "\<exists>s. run tunnel_step tunnel_a revoke_events s \<and> se_phase (tn_sessions s ! 0) = CtServe 0 \<and> se_certNodeID (tn_sessions s ! 0) = ''n''
     \<and> isRevoked s ''n'' \<and> lookup s ''n'' = Some 0 \<and> \<not> nd_revoked (nodeAt s 0) \<and> map pb_phase (tn_publishers s) = [PbDone]"
proof -
  obtain s where s: "run tunnel_step tunnel_a revoke_events s" "map se_phase (tn_sessions s) = [CtServe 0]" "map se_certNodeID (tn_sessions s) = [''n'']"
    "tn_revoked s = [''n'']" "tn_nodes s = [(''n'', 0)]" "map nd_revoked (tn_heap s) = [False]" "map pb_phase (tn_publishers s) = [PbDone]"
    using probe_run [OF conjunct1 [OF conjunct2 [OF conjunct2 [OF conjunct2 [OF conjunct2 [OF traces]]]]]] by auto
  have "length (tn_sessions s) = 1" "length (tn_heap s) = 1" using arg_cong [OF s(2), of length] arg_cong [OF s(6), of length] by simp_all
  then show ?thesis
    using s(1,4,5,7) arg_cong [OF s(2), of "\<lambda>xs. xs ! 0"] arg_cong [OF s(3), of "\<lambda>xs. xs ! 0"] arg_cong [OF s(6), of "\<lambda>xs. xs ! 0"]
    by (auto simp: isRevoked_def lookup_def nodeAt_def)
qed

text \<open>
  A node disabled while a request runs on it and enabled again before the request is over is refused still: the
  entry outlives its Control stream and its \<open>revoked\<close> channel stays closed, so the new stream leaves at once.
\<close>

theorem tunnel_reenabled_refused:
  "\<exists>s. run tunnel_step tunnel_a reenable_events s \<and> se_phase (tn_sessions s ! 0) = CtServe 0 \<and> \<not> isRevoked s ''n''
     \<and> (\<forall>now. ctl_go now 0 s = Some (set_ctl 0 (CtLeave 0 (StreamStatus (Status PermissionDenied ''node is disabled'' []))) s))"
proof -
  obtain s where s: "run tunnel_step tunnel_a reenable_events s" "map se_phase (tn_sessions s) = [CtServe 0]" "tn_revoked s = []" "map nd_revoked (tn_heap s) = [True]"
    using probe_run [OF conjunct1 [OF conjunct2 [OF conjunct2 [OF conjunct2 [OF conjunct2 [OF conjunct2 [OF traces]]]]]]] by auto
  have "length (tn_sessions s) = 1" "length (tn_heap s) = 1" using arg_cong [OF s(2), of length] arg_cong [OF s(4), of length] by simp_all
  then show ?thesis using s(1,3) arg_cong [OF s(2), of "\<lambda>xs. xs ! 0"] arg_cong [OF s(4), of "\<lambda>xs. xs ! 0"]
    by (auto simp: isRevoked_def nodeAt_def ctl_go_def)
qed

text \<open>A slot that says Ready twice is counted twice among the idle slots.\<close>

theorem tunnel_ready_counted_twice:
  "\<exists>s. run tunnel_step tunnel_a ready_events s \<and> length (tn_slots s) = 1 \<and> nd_live (nodeAt s 0) = 1
     \<and> (\<forall>now timeout. inf_IdleSlots (node_info now timeout (nodeAt s 0)) SLOT_CLASS_INFERENCE = 2)"
  using probe_run [OF conjunct2 [OF conjunct2 [OF conjunct2 [OF conjunct2 [OF conjunct2 [OF conjunct2 [OF traces]]]]]]] by (auto simp: node_info_def)


section \<open>Witnesses\<close>

theorem tunnel_reconnect_deadlock_witness:
  "\<exists>s. run tunnel_step tunnel_a deadlock_events s \<and> tn_mu s \<noteq> None \<and> SetRoster (roster_n 1 []) s = None"
proof -
  obtain s where "run tunnel_step tunnel_a deadlock_events s" "\<And>fs t. run tunnel_step s fs t \<Longrightarrow> tn_mu t \<noteq> None \<and> (\<forall>roster. SetRoster roster t = None)"
    using tunnel_reconnect_deadlock by metis
  then show ?thesis using run_Nil [of tunnel_step s] by blast
qed

end
