(* ===== verification/JobStore.thy ===== *)
theory JobStore
  imports Breaker WireRuntime
begin

text \<open>
  The Gateway's table of workflow runs, \<open>Gateway/httpapi/jobstore.go\<close>, with the back-off of the two
  loops that work on it (\<open>jobsync.go\<close>, \<open>jobpersist.go\<close>) and the views of a job that clients see
  (\<open>jobs.go\<close>, \<open>jobevents.go\<close>). Every method of the table holds its mutex for its whole body and
  is one function here. The identifiers that \<open>newRequestID\<close> draws are an argument.
\<close>

section \<open>Definitions\<close>

subsection \<open>Runs\<close>

definition WorkflowPending :: string where "WorkflowPending = ''pending''"
definition WorkflowRunning :: string where "WorkflowRunning = ''running''"
definition WorkflowSucceeded :: string where "WorkflowSucceeded = ''succeeded''"
definition WorkflowFailed :: string where "WorkflowFailed = ''failed''"
definition WorkflowCancelled :: string where "WorkflowCancelled = ''cancelled''"

lemmas workflow_states = WorkflowPending_def WorkflowRunning_def WorkflowSucceeded_def WorkflowFailed_def WorkflowCancelled_def

record pendingArtifact =
  pa_ArtifactID :: string
  pa_Filename :: string
  pa_Subfolder :: string
  pa_Type :: string

text \<open>
  A job. The map from references to public ids is an association list with distinct keys: \<open>forTenant\<close>
  ranges over it, and a nil map is an empty one.
\<close>

record job =
  jb_ID :: string
  jb_WorkflowID :: string
  jb_WorkflowVersion :: string
  jb_TenantID :: string
  jb_Candidate :: candidate
  jb_RunID :: string
  jb_State :: string
  jb_QueuePosition :: int
  jb_ErrorSummary :: string
  jb_CreatedAt :: go_time
  jb_UpdatedAt :: go_time
  jb_artifactIDs :: "(ArtifactRef \<times> string) list"
  jb_syncFailures :: int
  jb_nextSyncAt :: go_time
  jb_ObservedSeq :: int
  jb_persisted :: bool
  jb_persistedSeq :: int
  jb_persistFailures :: int
  jb_nextPersistAt :: go_time
  jb_pendingArtifacts :: "pendingArtifact list"
  jb_artifactPersistFails :: int
  jb_nextArtifactPersistAt :: go_time

definition needsPersist :: "job \<Rightarrow> bool" where
  "needsPersist j \<longleftrightarrow> \<not> jb_persisted j \<or> jb_persistedSeq j < jb_ObservedSeq j"

definition jobTerminal :: "string \<Rightarrow> bool" where
  "jobTerminal state \<longleftrightarrow> state = WorkflowSucceeded \<or> state = WorkflowFailed \<or> state = WorkflowCancelled"

definition job_terminal :: "job \<Rightarrow> bool" where
  "job_terminal j \<longleftrightarrow> jb_State j = WorkflowSucceeded \<or> jb_State j = WorkflowFailed \<or> jb_State j = WorkflowCancelled"

definition ResultSucceeded :: string where "ResultSucceeded = ''succeeded''"
definition ResultFailed :: string where "ResultFailed = ''failed''"
definition ResultCancelled :: string where "ResultCancelled = ''cancelled''"

definition resultFor :: "string \<Rightarrow> string" where
  "resultFor state = (if state = WorkflowSucceeded then ResultSucceeded
     else if state = WorkflowCancelled then ResultCancelled else ResultFailed)"

record artifactRecord =
  af_JobID :: string
  af_TenantID :: string
  af_Candidate :: candidate
  af_Ref :: ArtifactRef
  af_StorageKey :: string
  af_ContentType :: string
  af_Size :: int

subsection \<open>The table\<close>

text \<open>
  \<open>js_finished\<close> lists the calls of \<open>WorkflowJobFinished\<close> that the table's recorder received: the
  result, the time the run took, and whether it ran out of memory.
\<close>

record jobStore =
  js_byID :: "(string \<times> job) list"
  js_order :: "string list"
  js_max :: int
  js_artifacts :: "string \<Rightarrow> artifactRecord option"
  js_evicted :: bool
  js_finished :: "(string \<times> duration \<times> bool) list"

definition DefaultMaxJobs :: int where "DefaultMaxJobs = 10000"

definition newJobStore :: "int \<Rightarrow> jobStore" where
  "newJobStore n = \<lparr>js_byID = [], js_order = [], js_max = (if n \<le> 0 then DefaultMaxJobs else n), js_artifacts = (\<lambda>_. None),
     js_evicted = False, js_finished = []\<rparr>"

definition evictLocked :: "string \<Rightarrow> jobStore \<Rightarrow> jobStore" where
  "evictLocked i s = (case map_of (js_byID s) i of None \<Rightarrow> s
     | Some j \<Rightarrow> s\<lparr>js_artifacts := fold (\<lambda>(_, a) m. m(a := None)) (jb_artifactIDs j) (js_artifacts s), js_byID := AList.delete i (js_byID s)\<rparr>)"

text \<open>The loop of \<open>insertLocked\<close>: the oldest runs leave until the table is within its bound.\<close>

function evict_excess :: "jobStore \<Rightarrow> jobStore" where
  "evict_excess s = (case js_order s of [] \<Rightarrow> s
     | oldest # rest \<Rightarrow> if js_max s < int (length (js_order s))
         then evict_excess (evictLocked oldest (s\<lparr>js_order := rest, js_evicted := True\<rparr>)) else s)"
  by pat_completeness auto

termination
  by (relation "measure (\<lambda>s. length (js_order s))") (auto simp: evictLocked_def split: option.splits)

declare evict_excess.simps [simp del]

definition insertLocked :: "job \<Rightarrow> jobStore \<Rightarrow> jobStore" where
  "insertLocked j s = evict_excess (s\<lparr>js_byID := AList.update (jb_ID j) j (js_byID s), js_order := js_order s @ [jb_ID j]\<rparr>)"

definition store_add :: "job \<Rightarrow> jobStore \<Rightarrow> jobStore" where
  "store_add j s = insertLocked j s"

definition recoverIfMissing :: "job \<Rightarrow> jobStore \<Rightarrow> bool \<times> jobStore" where
  "recoverIfMissing j s = (case map_of (js_byID s) (jb_ID j) of Some _ \<Rightarrow> (False, s) | None \<Rightarrow> (True, insertLocked j s))"

definition put_job :: "string \<Rightarrow> (job \<Rightarrow> job) \<Rightarrow> jobStore \<Rightarrow> jobStore" where
  "put_job i f s = (case map_of (js_byID s) i of None \<Rightarrow> s | Some j \<Rightarrow> s\<lparr>js_byID := AList.update i (f j) (js_byID s)\<rparr>)"

subsection \<open>Artifacts\<close>

text \<open>
  \<open>recordArtifacts\<close>: one round of the loop per reference. \<open>mint k\<close> is what the \<open>k\<close>-th call of
  \<open>newRequestID\<close> returns; a reference that has an id already keeps it and draws none. Every reference has
  its record written afresh.
\<close>

definition artifact_id :: "string \<Rightarrow> string" where
  "artifact_id rid = ''art_'' @ rid"

fun record_refs :: "(nat \<Rightarrow> string) \<Rightarrow> nat \<Rightarrow> ArtifactRef list \<Rightarrow> job \<Rightarrow> (string \<Rightarrow> artifactRecord option) \<Rightarrow> string list \<times> job \<times> (string \<Rightarrow> artifactRecord option)" where
  "record_refs mint k [] j arts = ([], j, arts)"
| "record_refs mint k (ref # refs) j arts =
     (let seen = map_of (jb_artifactIDs j) ref;
          i = (case seen of Some a \<Rightarrow> a | None \<Rightarrow> artifact_id (mint k));
          j' = (case seen of Some _ \<Rightarrow> j
            | None \<Rightarrow> j\<lparr>jb_artifactIDs := AList.update ref i (jb_artifactIDs j),
                jb_pendingArtifacts := jb_pendingArtifacts j
                  @ [\<lparr>pa_ArtifactID = i, pa_Filename = ar_Filename ref, pa_Subfolder = ar_Subfolder ref, pa_Type = ar_Type ref\<rparr>]\<rparr>);
          rec = \<lparr>af_JobID = jb_ID j, af_TenantID = jb_TenantID j, af_Candidate = jb_Candidate j, af_Ref = ref,
            af_StorageKey = '''', af_ContentType = '''', af_Size = 0\<rparr>;
          (is, j'', arts') = record_refs mint (if seen = None then Suc k else k) refs j' (arts(i \<mapsto> rec))
      in (i # is, j'', arts'))"

definition recordArtifacts :: "(nat \<Rightarrow> string) \<Rightarrow> string \<Rightarrow> ArtifactRef list \<Rightarrow> jobStore \<Rightarrow> string list \<times> jobStore" where
  "recordArtifacts mint i refs s = (case map_of (js_byID s) i of None \<Rightarrow> (replicate (length refs) '''', s)
     | Some j \<Rightarrow> (let (is, j', arts) = record_refs mint 0 refs j (js_artifacts s)
         in (is, s\<lparr>js_artifacts := arts, js_byID := AList.update i j' (js_byID s)\<rparr>)))"

definition store_artifact :: "string \<Rightarrow> string \<Rightarrow> jobStore \<Rightarrow> artifactRecord option" where
  "store_artifact i tenantID s = (case js_artifacts s i of None \<Rightarrow> None
     | Some rec \<Rightarrow> if af_TenantID rec \<noteq> tenantID then None else Some rec)"

definition store_get :: "string \<Rightarrow> string \<Rightarrow> jobStore \<Rightarrow> job option" where
  "store_get i tenantID s = (case map_of (js_byID s) i of None \<Rightarrow> None
     | Some j \<Rightarrow> if jb_TenantID j \<noteq> tenantID then None else Some j)"

subsection \<open>Observations\<close>

definition observe :: "WorkflowStatus \<Rightarrow> go_time \<Rightarrow> job \<Rightarrow> job" where
  "observe st now j =
     j\<lparr>jb_ObservedSeq := (if jb_State j \<noteq> ws_State st \<or> jb_ErrorSummary j \<noteq> ws_ErrorSummary st then wrap64 (jb_ObservedSeq j + 1) else jb_ObservedSeq j),
       jb_State := ws_State st, jb_QueuePosition := ws_QueuePosition st, jb_ErrorSummary := ws_ErrorSummary st, jb_UpdatedAt := now,
       jb_syncFailures := 0, jb_nextSyncAt := now\<rparr>"

definition store_update :: "string \<Rightarrow> WorkflowStatus \<Rightarrow> go_time \<Rightarrow> jobStore \<Rightarrow> jobStore" where
  "store_update i st now s = (case map_of (js_byID s) i of None \<Rightarrow> s
     | Some j \<Rightarrow> s\<lparr>js_finished := (if \<not> job_terminal j \<and> jobTerminal (ws_State st)
           then js_finished s @ [(resultFor (ws_State st), time_sub now (jb_CreatedAt j), ws_OutOfMemory st)] else js_finished s),
         js_byID := AList.update i (observe st now j) (js_byID s)\<rparr>)"

definition forPersist :: "string \<Rightarrow> jobStore \<Rightarrow> job option" where
  "forPersist i s = map_of (js_byID s) i"

subsection \<open>Claims\<close>

text \<open>
  The three methods that hand out due work are written alike: the jobs that are due, by the time they are due
  and then by id, at most \<open>n\<close> of them, each with its time pushed to \<open>now + claimFor\<close>. The size of
  a batch is positive.
\<close>

definition due_before :: "go_time \<times> string \<Rightarrow> go_time \<times> string \<Rightarrow> bool" where
  "due_before a b \<longleftrightarrow> (if fst a = fst b then snd a < snd b else fst a < fst b)"

definition due_ids :: "(job \<Rightarrow> bool) \<Rightarrow> (job \<Rightarrow> go_time) \<Rightarrow> go_time \<Rightarrow> nat \<Rightarrow> jobStore \<Rightarrow> string list" where
  "due_ids owed dueAt now n s =
     map snd (take n (stable_sort due_before (map (\<lambda>(i, j). (dueAt j, i)) (filter (\<lambda>(i, j). owed j \<and> \<not> now < dueAt j) (js_byID s)))))"

definition claim :: "(job \<Rightarrow> job) \<Rightarrow> string list \<Rightarrow> jobStore \<Rightarrow> jobStore" where
  "claim push is s = fold (\<lambda>i. put_job i push) is s"

definition dueForPersist :: "go_time \<Rightarrow> nat \<Rightarrow> duration \<Rightarrow> jobStore \<Rightarrow> string list \<times> jobStore" where
  "dueForPersist now n claimFor s =
     (let is = due_ids needsPersist jb_nextPersistAt now n s
      in (is, claim (\<lambda>j. j\<lparr>jb_nextPersistAt := time_add now claimFor\<rparr>) is s))"

definition dueForArtifactPersist :: "go_time \<Rightarrow> nat \<Rightarrow> duration \<Rightarrow> jobStore \<Rightarrow> string list \<times> jobStore" where
  "dueForArtifactPersist now n claimFor s =
     (let is = due_ids (\<lambda>j. jb_pendingArtifacts j \<noteq> []) jb_nextArtifactPersistAt now n s
      in (is, claim (\<lambda>j. j\<lparr>jb_nextArtifactPersistAt := time_add now claimFor\<rparr>) is s))"

record syncCandidate =
  sc_ID :: string
  sc_Candidate :: candidate
  sc_RunID :: string

definition dueForSync :: "go_time \<Rightarrow> nat \<Rightarrow> duration \<Rightarrow> jobStore \<Rightarrow> syncCandidate list \<times> jobStore" where
  "dueForSync now n claimFor s =
     (let is = due_ids (\<lambda>j. \<not> job_terminal j) jb_nextSyncAt now n s
      in (map (\<lambda>i. let j = the (map_of (js_byID s) i) in \<lparr>sc_ID = jb_ID j, sc_Candidate = jb_Candidate j, sc_RunID = jb_RunID j\<rparr>) is,
          claim (\<lambda>j. j\<lparr>jb_nextSyncAt := time_add now claimFor\<rparr>) is s))"

subsection \<open>Reports\<close>

definition persistedCreate :: "string \<Rightarrow> go_time \<Rightarrow> jobStore \<Rightarrow> jobStore" where
  "persistedCreate i now = put_job i (\<lambda>j. j\<lparr>jb_persisted := True, jb_persistedSeq := 0, jb_persistFailures := 0, jb_nextPersistAt := now\<rparr>)"

definition persistedState :: "string \<Rightarrow> int \<Rightarrow> go_time \<Rightarrow> jobStore \<Rightarrow> jobStore" where
  "persistedState i seq now = put_job i (\<lambda>j. j\<lparr>jb_persistedSeq := seq, jb_persistFailures := 0, jb_nextPersistAt := now\<rparr>)"

definition persistFailed :: "string \<Rightarrow> go_time \<Rightarrow> (int \<Rightarrow> duration) \<Rightarrow> jobStore \<Rightarrow> jobStore" where
  "persistFailed i now backoff = put_job i (\<lambda>j. j\<lparr>jb_persistFailures := wrap64 (jb_persistFailures j + 1),
     jb_nextPersistAt := time_add now (backoff (wrap64 (jb_persistFailures j + 1)))\<rparr>)"

definition artifactsForPersist :: "string \<Rightarrow> jobStore \<Rightarrow> (string \<times> candidate \<times> string \<times> pendingArtifact list) option" where
  "artifactsForPersist i s = (case map_of (js_byID s) i of None \<Rightarrow> None
     | Some j \<Rightarrow> Some (jb_TenantID j, jb_Candidate j, jb_RunID j, jb_pendingArtifacts j))"

definition artifactStored :: "string \<Rightarrow> string \<Rightarrow> string \<Rightarrow> int \<Rightarrow> jobStore \<Rightarrow> jobStore" where
  "artifactStored a storageKey contentType bytes s = (case js_artifacts s a of None \<Rightarrow> s
     | Some rec \<Rightarrow> s\<lparr>js_artifacts := (js_artifacts s)(a \<mapsto> rec\<lparr>af_StorageKey := storageKey, af_ContentType := contentType, af_Size := bytes\<rparr>)\<rparr>)"

definition artifactPersisted :: "string \<Rightarrow> string \<Rightarrow> jobStore \<Rightarrow> jobStore" where
  "artifactPersisted i a = put_job i (\<lambda>j. j\<lparr>jb_pendingArtifacts := filter (\<lambda>p. pa_ArtifactID p \<noteq> a) (jb_pendingArtifacts j), jb_artifactPersistFails := 0\<rparr>)"

definition artifactPersistFailed :: "string \<Rightarrow> go_time \<Rightarrow> (int \<Rightarrow> duration) \<Rightarrow> jobStore \<Rightarrow> jobStore" where
  "artifactPersistFailed i now backoff = put_job i (\<lambda>j. j\<lparr>jb_artifactPersistFails := wrap64 (jb_artifactPersistFails j + 1),
     jb_nextArtifactPersistAt := time_add now (backoff (wrap64 (jb_artifactPersistFails j + 1)))\<rparr>)"

definition syncSucceeded :: "string \<Rightarrow> WorkflowStatus \<Rightarrow> go_time \<Rightarrow> jobStore \<Rightarrow> jobStore" where
  "syncSucceeded i st now = store_update i st now"

definition syncFailed :: "string \<Rightarrow> go_time \<Rightarrow> (int \<Rightarrow> duration) \<Rightarrow> jobStore \<Rightarrow> jobStore" where
  "syncFailed i now backoff = put_job i (\<lambda>j. j\<lparr>jb_syncFailures := wrap64 (jb_syncFailures j + 1),
     jb_nextSyncAt := time_add now (backoff (wrap64 (jb_syncFailures j + 1)))\<rparr>)"

text \<open>The wait after a number of failures in a row: the interval, doubled per failure, up to a bound.\<close>

function backoff_from :: "duration \<Rightarrow> int \<Rightarrow> int \<Rightarrow> duration \<Rightarrow> duration" where
  "backoff_from maxBackoff failures i d =
     (if i < failures then (let d' = wrap64 (d * 2) in if d' \<ge> maxBackoff then maxBackoff else backoff_from maxBackoff failures (i + 1) d') else d)"
  by pat_completeness auto

termination by (relation "measure (\<lambda>(_, failures, i, _). nat (failures - i))") auto

declare backoff_from.simps [simp del]

definition backoff :: "duration \<Rightarrow> duration \<Rightarrow> int \<Rightarrow> duration" where
  "backoff interval maxBackoff failures = backoff_from maxBackoff failures 1 interval"

subsection \<open>Views\<close>

definition hasActiveJobOnNode :: "string \<Rightarrow> jobStore \<Rightarrow> bool" where
  "hasActiveJobOnNode nodeID s \<longleftrightarrow> list_ex (\<lambda>(_, j). NodeID (jb_Candidate j) = nodeID \<and> \<not> job_terminal j) (js_byID s)"

record job_view =
  jv_ID :: string
  jv_WorkflowID :: string
  jv_State :: string
  jv_QueuePosition :: int
  jv_ErrorSummary :: string
  jv_CreatedAt :: go_time
  jv_UpdatedAt :: go_time
  jv_ArtifactIDs :: "string list"

definition view_job :: "job \<Rightarrow> job_view" where
  "view_job j = \<lparr>jv_ID = jb_ID j, jv_WorkflowID = jb_WorkflowID j, jv_State = jb_State j, jv_QueuePosition = jb_QueuePosition j,
     jv_ErrorSummary = jb_ErrorSummary j, jv_CreatedAt = jb_CreatedAt j, jv_UpdatedAt = jb_UpdatedAt j,
     jv_ArtifactIDs = stable_sort (<) (map snd (jb_artifactIDs j))\<rparr>"

definition forTenant :: "string \<Rightarrow> jobStore \<Rightarrow> job_view list \<times> bool" where
  "forTenant tenantID s = (map view_job (List.map_filter (\<lambda>i. store_get i tenantID s) (rev (js_order s))), js_evicted s)"

definition StatusQueued :: string where "StatusQueued = ''queued''"
definition StatusRunning :: string where "StatusRunning = ''running''"
definition StatusSucceeded :: string where "StatusSucceeded = ''succeeded''"
definition StatusFailed :: string where "StatusFailed = ''failed''"
definition StatusCancelled :: string where "StatusCancelled = ''cancelled''"

definition publicStatus :: "string \<Rightarrow> string" where
  "publicStatus state = (if state = WorkflowRunning then StatusRunning else if state = WorkflowSucceeded then StatusSucceeded
     else if state = WorkflowFailed then StatusFailed else if state = WorkflowCancelled then StatusCancelled else StatusQueued)"

record jobJSON =
  jj_JobID :: string
  jj_WorkflowID :: string
  jj_Status :: string
  jj_CreatedAt :: go_time
  jj_UpdatedAt :: go_time
  jj_QueuePosition :: int
  jj_Durability :: string
  jj_Error :: string

definition DurabilityMemoryOnly :: string where "DurabilityMemoryOnly = ''memory_only''"
definition DurabilityPersisted :: string where "DurabilityPersisted = ''persisted''"

definition renderJob :: "job \<Rightarrow> jobJSON" where
  "renderJob j = \<lparr>jj_JobID = jb_ID j, jj_WorkflowID = jb_WorkflowID j, jj_Status = publicStatus (jb_State j), jj_CreatedAt = jb_CreatedAt j,
     jj_UpdatedAt = jb_UpdatedAt j, jj_QueuePosition = jb_QueuePosition j,
     jj_Durability = (if jb_persisted j then DurabilityPersisted else DurabilityMemoryOnly), jj_Error = jb_ErrorSummary j\<rparr>"

definition terminalState :: "string \<Rightarrow> string option" where
  "terminalState t = (if t = ''succeeded'' then Some WorkflowSucceeded else if t = ''failed'' then Some WorkflowFailed
     else if t = ''cancelled'' then Some WorkflowCancelled else None)"


section \<open>The table is well formed\<close>

text \<open>
  The jobs and the artifact records describe each other: a job is filed under its id, an id that a job gave to
  one of its outputs resolves to a record of that job and that output, and every record belongs to a job that is
  in the table, with the tenant and the node of that job.
\<close>

definition linked_job :: "(string \<Rightarrow> artifactRecord option) \<Rightarrow> string \<Rightarrow> job \<Rightarrow> bool" where
  "linked_job arts i j \<longleftrightarrow> jb_ID j = i \<and> wf_map (jb_artifactIDs j)
     \<and> (\<forall>ref a. map_of (jb_artifactIDs j) ref = Some a \<longrightarrow> (\<exists>rec. arts a = Some rec \<and> af_JobID rec = i \<and> af_Ref rec = ref))
     \<and> pa_ArtifactID ` set (jb_pendingArtifacts j) \<subseteq> ran (map_of (jb_artifactIDs j))"

definition linked_record :: "(string \<Rightarrow> job option) \<Rightarrow> string \<Rightarrow> artifactRecord \<Rightarrow> bool" where
  "linked_record jobs a rec \<longleftrightarrow> (\<exists>j. jobs (af_JobID rec) = Some j \<and> af_TenantID rec = jb_TenantID j \<and> af_Candidate rec = jb_Candidate j
     \<and> map_of (jb_artifactIDs j) (af_Ref rec) = Some a)"

definition linked :: "(string \<Rightarrow> job option) \<Rightarrow> (string \<Rightarrow> artifactRecord option) \<Rightarrow> bool" where
  "linked jobs arts \<longleftrightarrow> (\<forall>i j. jobs i = Some j \<longrightarrow> linked_job arts i j) \<and> (\<forall>a rec. arts a = Some rec \<longrightarrow> linked_record jobs a rec)"

definition filed :: "jobStore \<Rightarrow> bool" where
  "filed s \<longleftrightarrow> wf_map (js_byID s) \<and> distinct (js_order s) \<and> set (js_order s) = dom (map_of (js_byID s)) \<and> 0 < js_max s
     \<and> linked (map_of (js_byID s)) (js_artifacts s)"

definition table_ok :: "jobStore \<Rightarrow> bool" where
  "table_ok s \<longleftrightarrow> filed s \<and> int (length (js_order s)) \<le> js_max s"

text \<open>What identifies a job: no method changes it.\<close>

definition same_job :: "job \<Rightarrow> job \<Rightarrow> bool" where
  "same_job j k \<longleftrightarrow> jb_ID j = jb_ID k \<and> jb_TenantID j = jb_TenantID k \<and> jb_Candidate j = jb_Candidate k \<and> jb_RunID j = jb_RunID k
     \<and> jb_WorkflowID j = jb_WorkflowID k"

lemma linkedD: "linked jobs arts \<Longrightarrow> jobs i = Some j \<Longrightarrow> linked_job arts i j"
  by (simp add: linked_def)

lemma linked_recordD: "linked jobs arts \<Longrightarrow> arts a = Some rec \<Longrightarrow> linked_record jobs a rec"
  by (simp add: linked_def)

text \<open>A change of one job that keeps its identity and its artifact ids, and adds nothing to what is pending.\<close>

definition keeps_links :: "job \<Rightarrow> job \<Rightarrow> bool" where
  "keeps_links j k \<longleftrightarrow> same_job j k \<and> jb_artifactIDs k = jb_artifactIDs j \<and> set (jb_pendingArtifacts k) \<subseteq> set (jb_pendingArtifacts j)"

lemma linked_change:
  assumes l: "linked jobs arts" and j: "jobs i = Some j" and k: "keeps_links j k"
  shows "linked (jobs(i \<mapsto> k)) arts"
proof -
  have "pa_ArtifactID ` set (jb_pendingArtifacts k) \<subseteq> pa_ArtifactID ` set (jb_pendingArtifacts j)" using k by (auto simp: keeps_links_def)
  then have "linked_job arts i k" using linkedD [OF l j] k by (simp add: linked_job_def keeps_links_def same_job_def) blast
  moreover have "linked_record (jobs(i \<mapsto> k)) a rec" if "arts a = Some rec" for a rec
    using linked_recordD [OF l that] j k unfolding linked_record_def keeps_links_def same_job_def by (metis fun_upd_apply option.inject)
  ultimately show ?thesis using l unfolding linked_def by simp
qed

lemma linked_evict:
  assumes l: "linked jobs arts" and j: "jobs i = Some j"
  shows "linked (jobs(i := None)) (\<lambda>a. if a \<in> ran (map_of (jb_artifactIDs j)) then None else arts a)"
proof -
  let ?arts = "\<lambda>a. if a \<in> ran (map_of (jb_artifactIDs j)) then None else arts a"
  have "linked_record (jobs(i := None)) a rec" if "?arts a = Some rec" for a rec
  proof -
    have a: "arts a = Some rec" "a \<notin> ran (map_of (jb_artifactIDs j))" using that by (auto split: if_splits)
    then obtain k where k: "jobs (af_JobID rec) = Some k" "map_of (jb_artifactIDs k) (af_Ref rec) = Some a"
      using linked_recordD [OF l] unfolding linked_record_def by blast
    then have "af_JobID rec \<noteq> i" using a(2) j by (auto intro: ranI)
    then show ?thesis using linked_recordD [OF l a(1)] unfolding linked_record_def by simp
  qed
  moreover have "linked_job ?arts i' k" if k: "(jobs(i := None)) i' = Some k" for i' k
  proof -
    have ne: "i' \<noteq> i" and k': "jobs i' = Some k" using k by (auto split: if_splits)
    have "a \<notin> ran (map_of (jb_artifactIDs j))" if a: "map_of (jb_artifactIDs k) ref = Some a" for ref a
    proof
      assume "a \<in> ran (map_of (jb_artifactIDs j))"
      then obtain ref' where "map_of (jb_artifactIDs j) ref' = Some a" by (auto simp: ran_def)
      then show False using linkedD [OF l j] linkedD [OF l k'] a ne unfolding linked_job_def by force
    qed
    then show ?thesis using linkedD [OF l k'] unfolding linked_job_def by simp
  qed
  ultimately show ?thesis unfolding linked_def by blast
qed

lemma fold_delete: "fold (\<lambda>(_, a) m. m(a := None)) xs m = (\<lambda>a. if a \<in> snd ` set xs then None else m a)"
  by (induction xs arbitrary: m) auto

lemma ran_wf_map: "wf_map m \<Longrightarrow> ran (map_of m) = snd ` set m"
  by (simp add: wf_map_def ran_distinct)

lemma filed_evict:
  assumes s: "filed s" and o: "js_order s = oldest # rest"
  shows "filed (evictLocked oldest (s\<lparr>js_order := rest, js_evicted := True\<rparr>))"
proof -
  obtain j where j: "map_of (js_byID s) oldest = Some j" using s o unfolding filed_def by (metis domD list.set_intros(1))
  have l: "linked (map_of (js_byID s)) (js_artifacts s)" and wf: "wf_map (js_byID s)"
    and d: "distinct (oldest # rest)" "insert oldest (set rest) = dom (map_of (js_byID s))" and m: "0 < js_max s"
    using s o by (auto simp: filed_def)
  have "wf_map (jb_artifactIDs j)" using linkedD [OF l j] by (simp add: linked_job_def)
  then have arts: "fold (\<lambda>(_, a) m. m(a := None)) (jb_artifactIDs j) (js_artifacts s)
      = (\<lambda>a. if a \<in> ran (map_of (jb_artifactIDs j)) then None else js_artifacts s a)" by (simp add: fold_delete ran_wf_map)
  have "set rest = dom ((map_of (js_byID s))(oldest := None))" using d by auto
  then show ?thesis using linked_evict [OF l j] wf d m j arts by (simp add: evictLocked_def filed_def delete_conv')
qed

lemma evict_excess_ok: "filed s \<Longrightarrow> table_ok (evict_excess s) \<and> js_max (evict_excess s) = js_max s"
proof (induction s rule: evict_excess.induct)
  case (1 s)
  show ?case
  proof (cases "js_order s")
    case Nil
    then show ?thesis using 1(2) by (simp add: evict_excess.simps table_ok_def filed_def)
  next
    case (Cons oldest rest)
    let ?t = "evictLocked oldest (s\<lparr>js_order := rest, js_evicted := True\<rparr>)"
    have "js_max ?t = js_max s" by (simp add: evictLocked_def split: option.splits)
    then show ?thesis using 1 filed_evict [OF 1(2) Cons] Cons by (subst (1 2) evict_excess.simps) (auto simp: table_ok_def)
  qed
qed

text \<open>A job that is new to the table has no artifact ids yet, and no record names it.\<close>

definition blank_job :: "job \<Rightarrow> bool" where
  "blank_job j \<longleftrightarrow> jb_artifactIDs j = [] \<and> jb_pendingArtifacts j = []"

lemma linked_insert:
  assumes l: "linked jobs arts" and j: "jobs (jb_ID j) = None" "blank_job j"
  shows "linked (jobs(jb_ID j \<mapsto> j)) arts"
proof -
  have "linked_record (jobs(jb_ID j \<mapsto> j)) a rec" if "arts a = Some rec" for a rec
    using linked_recordD [OF l that] j unfolding linked_record_def by (metis fun_upd_apply option.distinct(1))
  moreover have "linked_job arts (jb_ID j) j" using j(2) by (simp add: linked_job_def blank_job_def)
  ultimately show ?thesis using l unfolding linked_def by simp
qed

lemma insertLocked_ok:
  assumes s: "table_ok s" and j: "map_of (js_byID s) (jb_ID j) = None" "blank_job j"
  shows "table_ok (insertLocked j s)"
proof -
  have "jb_ID j \<notin> set (js_order s)" using s j by (auto simp: table_ok_def filed_def domIff)
  then have "filed (s\<lparr>js_byID := AList.update (jb_ID j) j (js_byID s), js_order := js_order s @ [jb_ID j]\<rparr>)"
    using s j linked_insert [of "map_of (js_byID s)" "js_artifacts s" j] by (auto simp: table_ok_def filed_def)
  then show ?thesis using evict_excess_ok by (simp add: insertLocked_def)
qed

lemma put_job_ok:
  assumes s: "table_ok s" and f: "\<And>j. map_of (js_byID s) i = Some j \<Longrightarrow> keeps_links j (f j)"
  shows "table_ok (put_job i f s)"
proof (cases "map_of (js_byID s) i")
  case (Some j)
  have "linked ((map_of (js_byID s))(i \<mapsto> f j)) (js_artifacts s)"
    using s Some f [OF Some] by (auto simp: table_ok_def filed_def intro: linked_change)
  moreover have "dom ((map_of (js_byID s))(i \<mapsto> f j)) = dom (map_of (js_byID s))" using Some by auto
  ultimately show ?thesis using s Some by (simp add: put_job_def table_ok_def filed_def)
qed (use s in \<open>simp add: put_job_def\<close>)


text \<open>
  Ids are drawn at random from 128 bits; that they never repeat is what the table relies on: the ids that a call
  may draw differ from each other and from every id in use.
\<close>

definition fresh_mint :: "(nat \<Rightarrow> string) \<Rightarrow> jobStore \<Rightarrow> bool" where
  "fresh_mint mint s \<longleftrightarrow> inj mint \<and> (\<forall>k. js_artifacts s (artifact_id (mint k)) = None)"

text \<open>One output is given an id: the job and the records stay linked.\<close>

definition record_of :: "job \<Rightarrow> ArtifactRef \<Rightarrow> artifactRecord" where
  "record_of j ref = \<lparr>af_JobID = jb_ID j, af_TenantID = jb_TenantID j, af_Candidate = jb_Candidate j, af_Ref = ref,
     af_StorageKey = '''', af_ContentType = '''', af_Size = 0\<rparr>"

definition name_ref :: "string \<Rightarrow> ArtifactRef \<Rightarrow> job \<Rightarrow> job" where
  "name_ref a ref j = j\<lparr>jb_artifactIDs := AList.update ref a (jb_artifactIDs j), jb_pendingArtifacts := jb_pendingArtifacts j
     @ [\<lparr>pa_ArtifactID = a, pa_Filename = ar_Filename ref, pa_Subfolder = ar_Subfolder ref, pa_Type = ar_Type ref\<rparr>]\<rparr>"

lemma name_ref_simps [simp]: "jb_ID (name_ref a ref j) = jb_ID j" "jb_TenantID (name_ref a ref j) = jb_TenantID j"
  "jb_Candidate (name_ref a ref j) = jb_Candidate j" "jb_artifactIDs (name_ref a ref j) = AList.update ref a (jb_artifactIDs j)"
  "jb_RunID (name_ref a ref j) = jb_RunID j" "jb_WorkflowID (name_ref a ref j) = jb_WorkflowID j"
  by (simp_all add: name_ref_def)

lemma same_job_trans: "same_job j k \<Longrightarrow> same_job k l \<Longrightarrow> same_job j l"
  by (simp add: same_job_def)

lemma linked_renew:
  assumes l: "linked jobs arts" and j: "jobs (jb_ID j) = Some j" "map_of (jb_artifactIDs j) ref = Some a"
  shows "linked jobs (arts(a \<mapsto> record_of j ref))"
proof -
  obtain rec where rec: "arts a = Some rec" "af_JobID rec = jb_ID j" "af_Ref rec = ref"
    using linkedD [OF l j(1)] j(2) unfolding linked_job_def by blast
  have "linked_job (arts(a \<mapsto> record_of j ref)) i k" if "jobs i = Some k" for i k
    using linkedD [OF l that] rec unfolding linked_job_def record_of_def by fastforce
  moreover have "linked_record jobs a (record_of j ref)" using j by (simp add: linked_record_def record_of_def)
  ultimately show ?thesis using l unfolding linked_def by simp
qed

lemma linked_name:
  assumes l: "linked jobs arts" and j: "jobs (jb_ID j) = Some j" "map_of (jb_artifactIDs j) ref = None" and a: "arts a = None"
  shows "linked (jobs(jb_ID j \<mapsto> name_ref a ref j)) (arts(a \<mapsto> record_of j ref))"
proof -
  let ?jobs = "jobs(jb_ID j \<mapsto> name_ref a ref j)" and ?arts = "arts(a \<mapsto> record_of j ref)"
  have lj: "linked_job arts (jb_ID j) j" using linkedD [OF l j(1)] .
  have "pa_ArtifactID ` set (jb_pendingArtifacts (name_ref a ref j)) \<subseteq> ran ((map_of (jb_artifactIDs j))(ref \<mapsto> a))"
    using lj j(2) by (auto simp: linked_job_def name_ref_def)
  then have "linked_job ?arts (jb_ID j) (name_ref a ref j)"
    using lj a unfolding linked_job_def record_of_def by (fastforce split: if_splits)
  moreover have "linked_job ?arts i k" if "jobs i = Some k" for i k
    using linkedD [OF l that] a unfolding linked_job_def by fastforce
  moreover have "linked_record ?jobs a (record_of j ref)" by (simp add: linked_record_def record_of_def)
  moreover have "linked_record ?jobs b rec" if "arts b = Some rec" for b rec
    using linked_recordD [OF l that] j unfolding linked_record_def by fastforce
  ultimately show ?thesis unfolding linked_def by simp
qed

lemma record_refs_Cons:
  "record_refs mint k (ref # refs) j arts =
     (case map_of (jb_artifactIDs j) ref of
        Some a \<Rightarrow> (let (is, j', arts') = record_refs mint k refs j (arts(a \<mapsto> record_of j ref)) in (a # is, j', arts'))
      | None \<Rightarrow> (let a = artifact_id (mint k); (is, j', arts') = record_refs mint (Suc k) refs (name_ref a ref j) (arts(a \<mapsto> record_of j ref))
          in (a # is, j', arts')))"
  by (simp add: record_of_def name_ref_def Let_def split: option.splits)

lemma record_refs_ok:
  assumes "record_refs mint k refs j arts = (is, j', arts')" "linked (jobs(jb_ID j \<mapsto> j)) arts" "inj mint"
    "\<And>n. k \<le> n \<Longrightarrow> arts (artifact_id (mint n)) = None"
  shows "linked (jobs(jb_ID j \<mapsto> j')) arts' \<and> same_job j j' \<and> list_all2 (\<lambda>ref a. map_of (jb_artifactIDs j') ref = Some a) refs is
     \<and> map_of (jb_artifactIDs j) \<subseteq>\<^sub>m map_of (jb_artifactIDs j')"
  using assms
proof (induction refs arbitrary: k j arts "is")
  case Nil
  then show ?case by (simp add: same_job_def map_le_def)
next
  case (Cons ref refs)
  let ?a = "artifact_id (mint k)"
  show ?case
  proof (cases "map_of (jb_artifactIDs j) ref")
    case None
    obtain rest where r: "record_refs mint (Suc k) refs (name_ref ?a ref j) (arts(?a \<mapsto> record_of j ref)) = (rest, j', arts')" "is = ?a # rest"
      using Cons.prems(1) None unfolding record_refs_Cons by (auto simp: Let_def split: prod.splits)
    have "artifact_id (mint n) \<noteq> ?a" if "Suc k \<le> n" for n using that injD [OF Cons.prems(3), of n k] by (auto simp: artifact_id_def)
    then have fresh: "(arts(?a \<mapsto> record_of j ref)) (artifact_id (mint n)) = None" if "Suc k \<le> n" for n using that Cons.prems(4) by simp
    have l: "linked (jobs(jb_ID (name_ref ?a ref j) \<mapsto> name_ref ?a ref j)) (arts(?a \<mapsto> record_of j ref))"
      using linked_name [of "jobs(jb_ID j \<mapsto> j)" arts j ref ?a] Cons.prems(2) Cons.prems(4) [of k] None by simp
    show ?thesis using Cons.IH [OF r(1) l Cons.prems(3) fresh] r(2) None
      by (auto simp: map_le_def same_job_def dom_def split: if_splits)
  next
    case (Some b)
    obtain rest where r: "record_refs mint k refs j (arts(b \<mapsto> record_of j ref)) = (rest, j', arts')" "is = b # rest"
      using Cons.prems(1) Some unfolding record_refs_Cons by (auto simp: Let_def split: prod.splits)
    have "arts b \<noteq> None" using linkedD [OF Cons.prems(2), of "jb_ID j" j] Some by (fastforce simp: linked_job_def)
    then have fresh: "(arts(b \<mapsto> record_of j ref)) (artifact_id (mint n)) = None" if "k \<le> n" for n using that Cons.prems(4) by auto
    have l: "linked (jobs(jb_ID j \<mapsto> j)) (arts(b \<mapsto> record_of j ref))" using linked_renew [of "jobs(jb_ID j \<mapsto> j)" arts j ref b] Cons.prems(2) Some by simp
    show ?thesis using Cons.IH [OF r(1) l Cons.prems(3) fresh] r(2) Some
      by (auto simp: map_le_def dom_def)
  qed
qed


lemma recordArtifacts_ok:
  assumes s: "table_ok s" and m: "fresh_mint mint s"
  shows "table_ok (snd (recordArtifacts mint i refs s))"
proof (cases "map_of (js_byID s) i")
  case (Some j)
  obtain as j' arts where r: "record_refs mint 0 refs j (js_artifacts s) = (as, j', arts)" by (cases "record_refs mint 0 refs j (js_artifacts s)")
  have l: "linked (map_of (js_byID s)) (js_artifacts s)" using s by (simp add: table_ok_def filed_def)
  have i: "jb_ID j = i" using linkedD [OF l Some] by (simp add: linked_job_def)
  have "linked ((map_of (js_byID s))(jb_ID j \<mapsto> j)) (js_artifacts s)" using l Some i by (simp add: fun_upd_idem)
  then have "linked ((map_of (js_byID s))(i \<mapsto> j')) arts" using record_refs_ok [OF r, of "map_of (js_byID s)"] m i by (simp add: fresh_mint_def)
  moreover have "dom ((map_of (js_byID s))(i \<mapsto> j')) = dom (map_of (js_byID s))" using Some by auto
  ultimately show ?thesis using s Some r by (simp add: recordArtifacts_def table_ok_def filed_def)
qed (use s in \<open>simp add: recordArtifacts_def\<close>)

lemma store_update_eq: "store_update i st now s = put_job i (observe st now) s\<lparr>js_finished := js_finished (store_update i st now s)\<rparr>"
  by (simp add: store_update_def put_job_def split: option.splits)

lemma table_ok_finished [simp]: "table_ok (s\<lparr>js_finished := f\<rparr>) = table_ok s"
  by (simp add: table_ok_def filed_def)

lemma store_update_ok: "table_ok s \<Longrightarrow> table_ok (store_update i st now s)"
  by (subst store_update_eq) (simp add: put_job_ok keeps_links_def same_job_def observe_def)

lemma claim_ok: "table_ok s \<Longrightarrow> (\<And>j. keeps_links j (push j)) \<Longrightarrow> table_ok (claim push as s)"
  unfolding claim_def by (induction as arbitrary: s) (simp_all add: put_job_ok)

lemma artifactStored_ok:
  assumes "table_ok s"
  shows "table_ok (artifactStored a key ct n s)"
proof (cases "js_artifacts s a")
  case (Some rec)
  have l: "linked (map_of (js_byID s)) (js_artifacts s)" using assms by (simp add: table_ok_def filed_def)
  let ?rec = "rec\<lparr>af_StorageKey := key, af_ContentType := ct, af_Size := n\<rparr>"
  have "linked_job ((js_artifacts s)(a \<mapsto> ?rec)) i j" if "map_of (js_byID s) i = Some j" for i j
    using linkedD [OF l that] Some unfolding linked_job_def by fastforce
  moreover have "linked_record (map_of (js_byID s)) a ?rec" using linked_recordD [OF l Some] by (simp add: linked_record_def)
  ultimately have "linked (map_of (js_byID s)) ((js_artifacts s)(a \<mapsto> ?rec))" using l unfolding linked_def by simp
  then show ?thesis using assms Some by (simp add: artifactStored_def table_ok_def filed_def)
qed (use assms in \<open>simp add: artifactStored_def\<close>)

lemma newJobStore_ok: "table_ok (newJobStore n)"
  by (simp add: newJobStore_def table_ok_def filed_def linked_def DefaultMaxJobs_def)

lemma report_keeps_links [simp]:
  "keeps_links j (j\<lparr>jb_nextPersistAt := t\<rparr>)" "keeps_links j (j\<lparr>jb_nextArtifactPersistAt := t\<rparr>)" "keeps_links j (j\<lparr>jb_nextSyncAt := t\<rparr>)"
  "keeps_links j (j\<lparr>jb_persisted := True, jb_persistedSeq := n, jb_persistFailures := f, jb_nextPersistAt := t\<rparr>)"
  "keeps_links j (j\<lparr>jb_persistedSeq := n, jb_persistFailures := f, jb_nextPersistAt := t\<rparr>)"
  "keeps_links j (j\<lparr>jb_persistFailures := f, jb_nextPersistAt := t\<rparr>)"
  "keeps_links j (j\<lparr>jb_pendingArtifacts := filter P (jb_pendingArtifacts j), jb_artifactPersistFails := f\<rparr>)"
  "keeps_links j (j\<lparr>jb_artifactPersistFails := f, jb_nextArtifactPersistAt := t\<rparr>)"
  "keeps_links j (j\<lparr>jb_syncFailures := f, jb_nextSyncAt := t\<rparr>)"
  by (simp_all add: keeps_links_def same_job_def)

lemma reports_ok:
  assumes "table_ok s"
  shows "table_ok (persistedCreate i now s)" "table_ok (persistedState i seq now s)" "table_ok (persistFailed i now b s)"
    "table_ok (artifactPersisted i a s)" "table_ok (artifactPersistFailed i now b s)" "table_ok (syncSucceeded i st now s)"
    "table_ok (syncFailed i now b s)" "table_ok (snd (dueForPersist now n c s))" "table_ok (snd (dueForArtifactPersist now n c s))"
    "table_ok (snd (dueForSync now n c s))"
  using assms by (simp_all add: persistedCreate_def persistedState_def persistFailed_def artifactPersisted_def artifactPersistFailed_def
      syncSucceeded_def syncFailed_def dueForPersist_def dueForArtifactPersist_def dueForSync_def Let_def put_job_ok store_update_ok claim_ok)

lemmas table_ok_intros = newJobStore_ok insertLocked_ok put_job_ok recordArtifacts_ok store_update_ok claim_ok artifactStored_ok reports_ok



section \<open>Claims\<close>

interpretation due_order: strict_weak_order due_before
  by unfold_locales (auto simp: due_before_def split: if_splits)

definition due_jobs :: "(job \<Rightarrow> bool) \<Rightarrow> (job \<Rightarrow> go_time) \<Rightarrow> go_time \<Rightarrow> jobStore \<Rightarrow> string set" where
  "due_jobs owed dueAt now s = {i. \<exists>j. map_of (js_byID s) i = Some j \<and> owed j \<and> dueAt j \<le> now}"

definition due_list :: "(job \<Rightarrow> bool) \<Rightarrow> (job \<Rightarrow> go_time) \<Rightarrow> go_time \<Rightarrow> jobStore \<Rightarrow> (go_time \<times> string) list" where
  "due_list owed dueAt now s = stable_sort due_before (map (\<lambda>(i, j). (dueAt j, i)) (filter (\<lambda>(i, j). owed j \<and> \<not> now < dueAt j) (js_byID s)))"

lemma due_list_set:
  assumes "wf_map (js_byID s)"
  shows "set (due_list owed dueAt now s) = {(dueAt j, i) |i j. map_of (js_byID s) i = Some j \<and> owed j \<and> dueAt j \<le> now}"
  using assms by (auto simp: due_list_def map_of_mem not_less image_iff Bex_def)

lemma due_list_distinct:
  assumes "wf_map (js_byID s)"
  shows "distinct (map snd (due_list owed dueAt now s))"
proof -
  let ?l = "map (\<lambda>(i, j). (dueAt j, i)) (filter (\<lambda>(i, j). owed j \<and> \<not> now < dueAt j) (js_byID s))"
  have "map snd ?l = map fst (filter (\<lambda>(i, j). owed j \<and> \<not> now < dueAt j) (js_byID s))" by (simp add: case_prod_unfold)
  then have d: "distinct (map snd ?l)" using wf_map_filter [OF assms] unfolding wf_map_def by metis
  have m: "mset (map snd (due_list owed dueAt now s)) = mset (map snd ?l)" by (simp only: due_list_def mset_map mset_stable_sort)
  show ?thesis using d mset_eq_imp_distinct_iff [OF m] by blast
qed

lemma due_ids_take: "due_ids owed dueAt now n s = map snd (take n (due_list owed dueAt now s))"
  by (simp add: due_ids_def due_list_def)

lemma due_ids_due: "wf_map (js_byID s) \<Longrightarrow> set (due_ids owed dueAt now n s) \<subseteq> due_jobs owed dueAt now s"
  using due_list_set [of s owed dueAt now] by (fastforce simp: due_ids_take due_jobs_def dest: in_set_takeD)

lemma due_ids_distinct: "wf_map (js_byID s) \<Longrightarrow> distinct (due_ids owed dueAt now n s)"
  using due_list_distinct by (simp add: due_ids_take distinct_take flip: take_map)

lemma due_ids_length:
  assumes "wf_map (js_byID s)"
  shows "length (due_ids owed dueAt now n s) = min n (card (due_jobs owed dueAt now s))"
proof -
  have "set (map snd (due_list owed dueAt now s)) = due_jobs owed dueAt now s"
    unfolding set_map due_list_set [OF assms] due_jobs_def by (auto simp: image_def)
  then show ?thesis using distinct_card [OF due_list_distinct [OF assms, of owed dueAt now]] by (simp add: due_ids_take)
qed

lemma due_ids_first:
  assumes wf: "wf_map (js_byID s)" and i: "i \<in> set (due_ids owed dueAt now n s)" "map_of (js_byID s) i = Some ji"
    and k: "k \<in> due_jobs owed dueAt now s" "k \<notin> set (due_ids owed dueAt now n s)" "map_of (js_byID s) k = Some jk"
  shows "due_before (dueAt ji, i) (dueAt jk, k)"
proof -
  let ?l = "due_list owed dueAt now s"
  have l: "set ?l = set (take n ?l) \<union> set (drop n ?l)" by (metis append_take_drop_id set_append)
  have "(dueAt jk, k) \<in> set ?l" using k due_list_set [OF wf] by (auto simp: due_jobs_def)
  moreover have "(dueAt jk, k) \<notin> set (take n ?l)" using k(2) by (force simp: due_ids_take)
  ultimately have kd: "(dueAt jk, k) \<in> set (drop n ?l)" using l by blast
  obtain t where t: "(t, i) \<in> set (take n ?l)" using i(1) by (auto simp: due_ids_take)
  then have "t = dueAt ji" using due_list_set [OF wf, of owed dueAt now] i(2) by (auto dest!: in_set_takeD)
  moreover have "sorted_wrt (\<lambda>a b. \<not> due_before b a) (take n ?l @ drop n ?l)" using due_order.sorted_stable_sort by (simp add: due_list_def)
  ultimately have "\<not> due_before (dueAt jk, k) (dueAt ji, i)" using t kd unfolding sorted_wrt_append by blast
  moreover have "i \<noteq> k" using k(2) i(1) by blast
  ultimately show ?thesis by (auto simp: due_before_def split: if_splits)
qed

text \<open>
  What the three queues of the table have in common: a claim moves the time at which the job is due, and nothing
  else that its queue looks at.
\<close>

locale claim_queue =
  fixes owed :: "job \<Rightarrow> bool" and dueAt :: "job \<Rightarrow> go_time" and push :: "go_time \<Rightarrow> job \<Rightarrow> job"
  assumes push_due: "dueAt (push t j) = t" and push_owed: "owed (push t j) = owed j" and push_links: "keeps_links j (push t j)"
    and push_push: "push t (push t j) = push t j"
begin

lemma claim_jobs: "map_of (js_byID (claim (push t) as s)) i = (if i \<in> set as then map_option (push t) (map_of (js_byID s) i) else map_of (js_byID s) i)"
  unfolding claim_def by (induction as arbitrary: s) (auto simp: put_job_def push_push split: option.splits)

lemma claim_wf: "wf_map (js_byID s) \<Longrightarrow> wf_map (js_byID (claim (push t) as s))"
  unfolding claim_def by (induction as arbitrary: s) (auto simp: put_job_def split: option.splits)

lemma claimed_not_due:
  assumes "wf_map (js_byID s)" "now' < t"
  shows "set as \<inter> set (due_ids owed dueAt now' n' (claim (push t) as s)) = {}"
proof -
  have "i \<notin> due_jobs owed dueAt now' (claim (push t) as s)" if "i \<in> set as" for i
    using that assms(2) by (auto simp: due_jobs_def claim_jobs push_due)
  then show ?thesis using due_ids_due [OF claim_wf [OF assms(1)]] by blast
qed

lemma claim_others:
  assumes "wf_map (js_byID s)"
  shows "due_jobs owed dueAt now' (claim (push t) as s) - set as = due_jobs owed dueAt now' s - set as"
  by (auto simp: due_jobs_def claim_jobs split: if_splits)

end

interpretation persist_queue: claim_queue needsPersist jb_nextPersistAt "\<lambda>t j. j\<lparr>jb_nextPersistAt := t\<rparr>"
  by unfold_locales (simp_all add: needsPersist_def)

interpretation artifact_queue: claim_queue "\<lambda>j. jb_pendingArtifacts j \<noteq> []" jb_nextArtifactPersistAt "\<lambda>t j. j\<lparr>jb_nextArtifactPersistAt := t\<rparr>"
  by unfold_locales simp_all

interpretation sync_queue: claim_queue "\<lambda>j. \<not> job_terminal j" jb_nextSyncAt "\<lambda>t j. j\<lparr>jb_nextSyncAt := t\<rparr>"
  by unfold_locales (simp_all add: job_terminal_def)


section \<open>Back-off\<close>

lemma backoff_from_closed:
  assumes "0 < d" "d \<le> bound" "bound < 2 ^ 62"
  shows "backoff_from bound failures i d = min bound (d * 2 ^ nat (failures - i))"
  using assms
proof (induction bound failures i d rule: backoff_from.induct)
  case (1 bound failures i d)
  have w: "wrap64 (d * 2) = d * 2" using 1(2,3,4) by (intro wrap64_id) (simp add: in_int64_def min_int64_def max_int64_def)
  show ?case
  proof (cases "i < failures")
    case True
    then have n: "nat (failures - i) = Suc (nat (failures - (i + 1)))" by simp
    have p: "d * 2 ^ nat (failures - i) = d * 2 * 2 ^ nat (failures - (i + 1))" unfolding n by simp
    moreover have "d * 2 \<le> d * 2 * 2 ^ nat (failures - (i + 1))" using 1(2) by simp
    ultimately have "d * 2 \<le> d * 2 ^ nat (failures - i)" by linarith
    then have "bound \<le> d * 2 \<Longrightarrow> min bound (d * 2 ^ nat (failures - i)) = bound" by linarith
    then show ?thesis using True 1(1) [OF True refl] 1(2,4) w unfolding p by (subst backoff_from.simps) (auto simp: Let_def)
  next
    case False
    then show ?thesis using 1(3) by (subst backoff_from.simps) simp
  qed
qed

lemma dueForSync_ids:
  assumes "table_ok s"
  shows "map sc_ID (fst (dueForSync now n c s)) = due_ids (\<lambda>j. \<not> job_terminal j) jb_nextSyncAt now n s"
proof -
  let ?as = "due_ids (\<lambda>j. \<not> job_terminal j) jb_nextSyncAt now n s"
  have wf: "wf_map (js_byID s)" and l: "linked (map_of (js_byID s)) (js_artifacts s)" using assms by (simp_all add: table_ok_def filed_def)
  have "jb_ID (the (map_of (js_byID s) i)) = i" if i: "i \<in> set ?as" for i
  proof -
    obtain j where j: "map_of (js_byID s) i = Some j" using due_ids_due [OF wf] i unfolding due_jobs_def by blast
    then show ?thesis using linkedD [OF l j] by (simp add: linked_job_def)
  qed
  then show ?thesis by (simp add: dueForSync_def Let_def map_idI)
qed


section \<open>Properties\<close>

text \<open>
  The wait before the next attempt is the interval doubled once per failure after the first, cut at the bound,
  for as many failures in a row as there may be: the doubling never runs over, as long as the bound is below
  2^62 nanoseconds.
\<close>

theorem backoff_closed_form:
  assumes "0 < interval" "interval \<le> maxBackoff" "maxBackoff < 2 ^ 62"
  shows "backoff interval maxBackoff failures = min maxBackoff (interval * 2 ^ nat (failures - 1))"
  using assms by (simp add: backoff_def backoff_from_closed)

text \<open>
  C27. The runs handed to the background syncer are distinct runs of the table that are not over and whose time
  has come, as many as the batch allows; every run left for later was due later, or at the same time with a
  greater id. Until the claim lapses none of them is handed out again, and no other run is delayed.
\<close>

theorem sync_work_selected:
  assumes ok: "table_ok s" and out: "dueForSync now n claimFor s = (out, t)"
  defines "due \<equiv> due_jobs (\<lambda>j. \<not> job_terminal j) jb_nextSyncAt now s"
  shows "distinct (map sc_ID out) \<and> sc_ID ` set out \<subseteq> due \<and> length out = min n (card due)
     \<and> (\<forall>c \<in> set out. \<exists>j. map_of (js_byID s) (sc_ID c) = Some j \<and> sc_Candidate c = jb_Candidate j \<and> sc_RunID c = jb_RunID j
          \<and> (\<forall>k \<in> due - sc_ID ` set out. \<forall>jk. map_of (js_byID s) k = Some jk \<longrightarrow> due_before (jb_nextSyncAt j, sc_ID c) (jb_nextSyncAt jk, k)))
     \<and> (\<forall>now' n' claimFor'. now' < now + claimFor \<longrightarrow> sc_ID ` set out \<inter> sc_ID ` set (fst (dueForSync now' n' claimFor' t)) = {})
     \<and> (\<forall>i. i \<notin> sc_ID ` set out \<longrightarrow> map_of (js_byID t) i = map_of (js_byID s) i)"
proof -
  let ?owed = "\<lambda>j. \<not> job_terminal j"
  let ?as = "due_ids ?owed jb_nextSyncAt now n s"
  have wf: "wf_map (js_byID s)" and l: "linked (map_of (js_byID s)) (js_artifacts s)" using ok by (simp_all add: table_ok_def filed_def)
  have t: "t = claim (\<lambda>j. j\<lparr>jb_nextSyncAt := now + claimFor\<rparr>) ?as s"
    and o: "out = map (\<lambda>i. let j = the (map_of (js_byID s) i) in \<lparr>sc_ID = jb_ID j, sc_Candidate = jb_Candidate j, sc_RunID = jb_RunID j\<rparr>) ?as"
    using out by (auto simp: dueForSync_def Let_def time_add_def)
  have sub: "set ?as \<subseteq> due" using due_ids_due [OF wf] by (simp add: due_def)
  have ids: "map sc_ID out = ?as" using dueForSync_ids [OF ok, of now n claimFor] out by simp
  then have set_ids: "sc_ID ` set out = set ?as" by (metis set_map)
  have again: "sc_ID ` set (fst (dueForSync now' n' c' t)) = set (due_ids ?owed jb_nextSyncAt now' n' t)" for now' n' c'
  proof -
    have "table_ok t" unfolding t using ok by (simp add: claim_ok)
    then show ?thesis using dueForSync_ids [of t now' n' c'] by (metis set_map)
  qed
  have "\<exists>j. map_of (js_byID s) (sc_ID c) = Some j \<and> sc_Candidate c = jb_Candidate j \<and> sc_RunID c = jb_RunID j
      \<and> (\<forall>k \<in> due - sc_ID ` set out. \<forall>jk. map_of (js_byID s) k = Some jk \<longrightarrow> due_before (jb_nextSyncAt j, sc_ID c) (jb_nextSyncAt jk, k))"
    if c: "c \<in> set out" for c
  proof -
    obtain i where i: "i \<in> set ?as" "c = (let j = the (map_of (js_byID s) i) in \<lparr>sc_ID = jb_ID j, sc_Candidate = jb_Candidate j, sc_RunID = jb_RunID j\<rparr>)"
      using c by (auto simp: o)
    obtain j where j: "map_of (js_byID s) i = Some j" using i(1) sub unfolding due_def due_jobs_def by blast
    have "jb_ID j = i" using linkedD [OF l j] by (simp add: linked_job_def)
    then show ?thesis using i j due_ids_first [OF wf i(1) j] unfolding set_ids by (auto simp: due_def Let_def)
  qed
  moreover have "sc_ID ` set out \<inter> sc_ID ` set (fst (dueForSync now' n' c' t)) = {}" if "now' < now + claimFor" for now' n' c'
    unfolding again set_ids using sync_queue.claimed_not_due [OF wf that, of ?as n'] t by simp
  moreover have "map_of (js_byID t) i = map_of (js_byID s) i" if "i \<notin> sc_ID ` set out" for i
    using that sync_queue.claim_jobs [of "now + claimFor" ?as s i] t unfolding set_ids by simp
  moreover have "length out = min n (card due)" using due_ids_length [OF wf] by (simp add: o due_def)
  ultimately show ?thesis using sub set_ids ids due_ids_distinct [OF wf, of ?owed jb_nextSyncAt now n] by auto
qed



section \<open>Witnesses\<close>

theorem backoff_closed_form_witness: "backoff (5 * second) (5 * minute) 4 = min (5 * minute) (5 * second * 2 ^ nat (4 - 1))"
  using backoff_closed_form [of "5 * second" "5 * minute" 4] by (simp add: second_def minute_def)

definition job_one :: job where
  "job_one = \<lparr>jb_ID = ''j'', jb_WorkflowID = ''w'', jb_WorkflowVersion = '''', jb_TenantID = ''t'',
     jb_Candidate = \<lparr>NodeID = ''n'', RuntimeID = ''c'', Kind = '''', Model = ''''\<rparr>, jb_RunID = ''run'', jb_State = WorkflowPending, jb_QueuePosition = 0,
     jb_ErrorSummary = '''', jb_CreatedAt = 5, jb_UpdatedAt = 5, jb_artifactIDs = [], jb_syncFailures = 0, jb_nextSyncAt = 0, jb_ObservedSeq = 0,
     jb_persisted = False, jb_persistedSeq = 0, jb_persistFailures = 0, jb_nextPersistAt = 0, jb_pendingArtifacts = [], jb_artifactPersistFails = 0,
     jb_nextArtifactPersistAt = 0\<rparr>"

lemma store_one_ok: "table_ok (store_add job_one (newJobStore 10))"
  unfolding store_add_def by (intro insertLocked_ok newJobStore_ok) (simp_all add: newJobStore_def job_one_def blank_job_def)

lemma store_one_due: "map sc_ID (fst (dueForSync 20 3 5 (store_add job_one (newJobStore 10)))) = [''j'']"
  by code_simp

theorem sync_work_selected_witness:
  "\<exists>out t. dueForSync 20 3 5 (store_add job_one (newJobStore 10)) = (out, t) \<and> map sc_ID out = [''j''] \<and> ''j'' \<notin> sc_ID ` set (fst (dueForSync 24 3 5 t))"
proof -
  obtain out t where o: "dueForSync 20 3 5 (store_add job_one (newJobStore 10)) = (out, t)" by (cases "dueForSync 20 3 5 (store_add job_one (newJobStore 10))")
  then have "map sc_ID out = [''j'']" using store_one_due by simp
  moreover have "sc_ID ` set out \<inter> sc_ID ` set (fst (dueForSync 24 3 5 t)) = {}" using sync_work_selected [OF store_one_ok o] by simp
  ultimately show ?thesis using o by (auto simp: Cons_eq_map_conv map_eq_Cons_conv)
qed

end
