(* ===== verification/Go_Time.thy ===== *)
theory Go_Time
  imports Go_Strings
begin

text \<open>
  The calendar of package \<open>time\<close> and its layout \<open>RFC3339Nano\<close>: what \<open>UTC().Format\<close> writes and
  what \<open>time.Parse\<close> accepts, including the forms that it accepts beyond what it writes. An instant counts
  nanoseconds from the first day of year 1, as everywhere in the development. Parsing reads back what was written
  for the years that the layout has digits for.
\<close>


section \<open>Definitions\<close>

subsection \<open>Civil dates\<close>

definition is_leap :: "int \<Rightarrow> bool" where
  "is_leap y \<longleftrightarrow> y mod 4 = 0 \<and> (y mod 100 \<noteq> 0 \<or> y mod 400 = 0)"

definition days_in :: "int \<Rightarrow> int \<Rightarrow> int" where
  "days_in y m = (if m = 2 then (if is_leap y then 29 else 28) else if m = 4 \<or> m = 6 \<or> m = 9 \<or> m = 11 then 30 else 31)"

text \<open>Days from the first day of year 1 to the first of January, and from there to the first of a month.\<close>

definition year_days :: "int \<Rightarrow> int" where
  "year_days y = 365 * (y - 1) + (y - 1) div 4 - (y - 1) div 100 + (y - 1) div 400"

definition month_days :: "int \<Rightarrow> int \<Rightarrow> int" where
  "month_days y m = sum_list (map (days_in y) [1..m - 1])"

definition date_days :: "int \<times> int \<times> int \<Rightarrow> int" where
  "date_days = (\<lambda>(y, m, d). year_days y + month_days y m + d - 1)"

text \<open>The date of a day: the year by cycles of 400, 100, 4 and 1 years, then the month.\<close>

definition day_year :: "int \<Rightarrow> int \<times> int" where
  "day_year n = (let c = n mod 146097; b = min 3 (c div 36524); r = c - 36524 * b; q = r mod 1461; e = min 3 (q div 365)
     in (400 * (n div 146097) + 100 * b + 4 * (r div 1461) + e + 1, q - 365 * e))"

fun day_month :: "nat \<Rightarrow> int \<Rightarrow> int \<Rightarrow> int \<Rightarrow> int \<times> int" where
  "day_month 0 y m d = (m, d + 1)"
| "day_month (Suc k) y m d = (if d < days_in y m then (m, d + 1) else day_month k y (m + 1) (d - days_in y m))"

definition day_date :: "int \<Rightarrow> int \<times> int \<times> int" where
  "day_date n = (let (y, d) = day_year n in (y, day_month 11 y 1 d))"

definition day_ns :: int where "day_ns = 24 * hour"

subsection \<open>Format\<close>

definition append_int :: "nat \<Rightarrow> int \<Rightarrow> string" where
  "append_int w x = (let ds = itoa_nat (nat \<bar>x\<bar>) in (if x < 0 then ''-'' else '''') @ replicate (w - length ds) CHR ''0'' @ ds)"

definition trim_zeros :: "string \<Rightarrow> string" where
  "trim_zeros s = rev (dropWhile (\<lambda>c. c = CHR ''0'') (rev s))"

definition format_frac :: "int \<Rightarrow> string" where
  "format_frac ns = (if ns = 0 then '''' else CHR ''.'' # trim_zeros (append_int 9 ns))"

definition FormatNano :: "go_time \<Rightarrow> string" where
  "FormatNano t = (let (y, m, d) = day_date (t div day_ns); r = t mod day_ns
     in append_int 4 y @ ''-'' @ append_int 2 m @ ''-'' @ append_int 2 d @ ''T'' @ append_int 2 (r div hour) @ '':''
       @ append_int 2 (r mod hour div minute) @ '':'' @ append_int 2 (r mod minute div second) @ format_frac (r mod second) @ ''Z'')"

subsection \<open>Parse\<close>

definition skip_char :: "char \<Rightarrow> string \<Rightarrow> string option" where
  "skip_char c s = (case s of [] \<Rightarrow> None | x # xs \<Rightarrow> if x = c then Some xs else None)"

text \<open>\<open>getnum\<close>: one or two digits, exactly two when \<open>fixed\<close>.\<close>

definition getnum :: "bool \<Rightarrow> string \<Rightarrow> (int \<times> string) option" where
  "getnum fixed s = (case s of [] \<Rightarrow> None
     | a # t \<Rightarrow> if \<not> is_digit a then None
         else (case t of b # u \<Rightarrow> if is_digit b then Some (digits_value [a, b], u) else if fixed then None else Some (digits_value [a], t)
           | [] \<Rightarrow> if fixed then None else Some (digits_value [a], t)))"

definition ranged :: "int \<Rightarrow> int \<Rightarrow> (int \<times> string) option \<Rightarrow> (int \<times> string) option" where
  "ranged lo hi r = (case r of None \<Rightarrow> None | Some (n, s) \<Rightarrow> if lo \<le> n \<and> n \<le> hi then Some (n, s) else None)"

definition parse_year :: "string \<Rightarrow> (int \<times> string) option" where
  "parse_year s = (if 4 \<le> length s \<and> list_all is_digit (take 4 s) then Some (digits_value (take 4 s), drop 4 s) else None)"

text \<open>An optional fraction, after a period or a comma: all its digits are skipped, the first nine count.\<close>

definition parse_frac :: "string \<Rightarrow> int \<times> string" where
  "parse_frac s = (case s of c # t \<Rightarrow> if (c = CHR ''.'' \<or> c = CHR '','') \<and> t \<noteq> [] \<and> is_digit (hd t)
       then (let ds = take 9 (takeWhile is_digit t) in (digits_value ds * 10 ^ (9 - length ds), dropWhile is_digit t)) else (0, s)
     | [] \<Rightarrow> (0, s))"

text \<open>The zone: \<open>Z\<close>, or a sign, hours and minutes; nothing may follow. The range tests are as loose as Go's.\<close>

definition parse_zone :: "string \<Rightarrow> int option" where
  "parse_zone s = (if s = ''Z'' then Some 0
     else case s of sign # a # b # c # e # f # [] \<Rightarrow>
         (case (getnum True [a, b], getnum True [e, f]) of
            (Some (h, _), Some (m, _)) \<Rightarrow> if c \<noteq> CHR '':'' \<or> 24 < h \<or> 60 < m then None
              else if sign = CHR ''+'' then Some ((h * 60 + m) * 60) else if sign = CHR ''-'' then Some (- ((h * 60 + m) * 60)) else None
          | _ \<Rightarrow> None)
     | _ \<Rightarrow> None)"

definition ParseNano :: "string \<Rightarrow> go_time option" where
  "ParseNano s =
     (case parse_year s of None \<Rightarrow> None | Some (y, s) \<Rightarrow>
      case Option.bind (skip_char CHR ''-'' s) (\<lambda>s. ranged 1 12 (getnum True s)) of None \<Rightarrow> None | Some (m, s) \<Rightarrow>
      case Option.bind (skip_char CHR ''-'' s) (getnum True) of None \<Rightarrow> None | Some (d, s) \<Rightarrow>
      case Option.bind (skip_char CHR ''T'' s) (\<lambda>s. ranged 0 23 (getnum False s)) of None \<Rightarrow> None | Some (h, s) \<Rightarrow>
      case Option.bind (skip_char CHR '':'' s) (\<lambda>s. ranged 0 59 (getnum True s)) of None \<Rightarrow> None | Some (mi, s) \<Rightarrow>
      case Option.bind (skip_char CHR '':'' s) (\<lambda>s. ranged 0 59 (getnum True s)) of None \<Rightarrow> None | Some (sec, s) \<Rightarrow>
      (let (ns, s) = parse_frac s in
       case parse_zone s of None \<Rightarrow> None | Some z \<Rightarrow>
         if d < 1 \<or> days_in y m < d then None
         else Some (date_days (y, m, d) * day_ns + h * hour + mi * minute + sec * second + ns - z * second)))"


section \<open>Dates\<close>

lemma day_year_ok:
  assumes "day_year n = (y, d)"
  shows "year_days y + d = n \<and> 0 \<le> d \<and> d < (if is_leap y then 366 else 365)"
proof -
  define a b r k q e where defs: "a = n div 146097" "b = min 3 (n mod 146097 div 36524)" "r = n mod 146097 - 36524 * b" "k = r div 1461" "q = r mod 1461" "e = min 3 (q div 365)"
  have "day_year n = (400 * a + 100 * b + 4 * k + e + 1, q - 365 * e)" unfolding day_year_def Let_def defs ..
  then have y: "y = 400 * a + 100 * b + 4 * k + e + 1" and d: "d = q - 365 * e" using assms by simp_all
  have c: "0 \<le> n mod 146097" "n mod 146097 < 146097" by simp_all
  obtain p where p: "n mod 146097 div 36524 = p" by simp
  have ps: "36524 * p \<le> n mod 146097" "n mod 146097 < 36524 * p + 36524" using div_mult_mod_eq [of "n mod 146097" 36524] p pos_mod_sign [of 36524 "n mod 146097"] pos_mod_bound [of 36524 "n mod 146097"] by linarith+
  have bp: "b = min 3 p" and rp: "r = n mod 146097 - 36524 * b" by (simp_all add: defs p)
  have b: "0 \<le> b" "b \<le> 3" and r: "0 \<le> r" "r < 36525" "b < 3 \<longrightarrow> r < 36524" using c ps unfolding rp bp by linarith+
  have q: "0 \<le> q" "q < 1461" and rk: "r = 1461 * k + q" by (simp_all add: defs(4,5))
  have n: "n = 146097 * a + 36524 * b + 1461 * k + q" using div_mult_mod_eq [of n 146097] rp rk defs(1) by linarith
  have k: "0 \<le> k" "k \<le> 24" using r rk q by linarith+
  obtain g where g: "q div 365 = g" by simp
  have gs: "365 * g \<le> q" "q < 365 * g + 365" using div_mult_mod_eq [of q 365] g pos_mod_sign [of 365 q] pos_mod_bound [of 365 q] by linarith+
  have eg: "e = min 3 g" by (simp add: defs(6) g)
  have e: "0 \<le> e" "e \<le> 3" and dq: "0 \<le> d" "d < 366" "e < 3 \<longrightarrow> d < 365" using q gs unfolding d eg by linarith+
  have split: "y - 1 = (100 * a + 25 * b + k) * 4 + e" "y - 1 = (4 * a + b) * 100 + (4 * k + e)" "y - 1 = a * 400 + (100 * b + 4 * k + e)" using y by simp_all
  have divs: "(y - 1) div 4 = 100 * a + 25 * b + k" "(y - 1) div 100 = 4 * a + b" "(y - 1) div 400 = a"
  proof -
    have d: "((u::int) * w + v) div w = u" if "0 \<le> v" "v < w" for u v w using that by (simp add: div_pos_pos_trivial)
    show "(y - 1) div 4 = 100 * a + 25 * b + k" unfolding split(1) by (rule d) (use e in simp_all)
    show "(y - 1) div 100 = 4 * a + b" unfolding split(2) by (rule d) (use e k in simp_all)
    show "(y - 1) div 400 = a" unfolding split(3) by (rule d) (use e k b in simp_all)
  qed
  have "is_leap y" if "d = 365"
  proof -
    have e3: "e = 3" using that dq e by linarith
    then have kb: "k < 24 \<or> k = 24 \<and> b = 3" using that d rk r q b k by auto
    have y4: "y = (100 * a + 25 * b + k + 1) * 4" "y = (4 * a + b) * 100 + 4 * (k + 1)" using y e3 by simp_all
    have "y mod 4 = 0" by (subst y4(1)) simp
    moreover have "y mod 100 = 4 * (k + 1)" if "k < 24"
      unfolding y4(2) mod_mult_self3 by (rule mod_pos_pos_trivial) (use that k in simp_all)
    moreover have "y mod 400 = 0" if "k = 24" "b = 3"
    proof -
      have "y = (a + 1) * 400" using y e3 that by simp
      then show ?thesis by simp
    qed
    ultimately show ?thesis using kb k unfolding is_leap_def by auto
  qed
  then have "d < (if is_leap y then 366 else 365)" using dq by (cases "d = 365") auto
  then show ?thesis using n d y divs dq unfolding year_days_def by simp
qed

lemma day_month_ok:
  assumes "day_month k y m d = (m', d')" "0 \<le> d" "d < sum_list (map (days_in y) [m..m + int k])"
  shows "m \<le> m' \<and> m' \<le> m + int k \<and> 1 \<le> d' \<and> d' \<le> days_in y m' \<and> sum_list (map (days_in y) [m..m' - 1]) + d' - 1 = d"
  using assms
proof (induction k arbitrary: m d)
  case (Suc k)
  show ?case
  proof (cases "d < days_in y m")
    case False
    have up: "[m..m + int (Suc k)] = m # [m + 1..m + 1 + int k]" by (simp add: upto_rec1 add.commute add.left_commute)
    have "m + 1 \<le> m' \<and> m' \<le> m + 1 + int k \<and> 1 \<le> d' \<and> d' \<le> days_in y m' \<and> sum_list (map (days_in y) [m + 1..m' - 1]) + d' - 1 = d - days_in y m"
      using Suc.prems False unfolding up by (intro Suc.IH) auto
    then show ?thesis by (auto simp: upto_rec1)
  qed (use Suc.prems in auto)
qed auto

lemma year_sum: "sum_list (map (days_in y) [1..12]) = (if is_leap y then 366 else 365)"
proof -
  have "[1..12::int] = [1, 2, 3, 4, 5, 6, 7, 8, 9, 10, 11, 12]" by (simp add: upto.simps)
  then show ?thesis by (simp add: days_in_def)
qed

lemma day_date_ok:
  assumes "day_date n = (y, m, d)"
  shows "date_days (y, m, d) = n \<and> 1 \<le> m \<and> m \<le> 12 \<and> 1 \<le> d \<and> d \<le> days_in y m"
proof -
  obtain e where e: "day_year n = (y, e)" "day_month 11 y 1 e = (m, d)" using assms by (auto simp: day_date_def split: prod.splits)
  show ?thesis using day_year_ok [OF e(1)] day_month_ok [OF e(2)] year_sum [of y] by (auto simp: date_days_def month_days_def)
qed

lemma days_in_le: "days_in y m \<le> 31" by (simp add: days_in_def)



section \<open>Digits\<close>

lemma itoa_nat_length: "n < 10 ^ w \<Longrightarrow> 0 < w \<Longrightarrow> length (itoa_nat n) \<le> w"
proof (induction n arbitrary: w rule: itoa_nat.induct)
  case (1 n)
  show ?case
  proof (cases "n < 10")
    case False
    have "w \<noteq> 1" using 1(2) False by auto
    then obtain v where v: "w = Suc v" "0 < v" using 1(3) by (cases w) auto
    then have "n div 10 < 10 ^ v" using 1(2) by (simp add: less_mult_imp_div_less mult.commute)
    then show ?thesis using 1(1) [OF False] v False by (subst itoa_nat.simps) simp
  qed (use 1(3) in \<open>subst itoa_nat.simps, simp\<close>)
qed

lemma digits_value_append: "digits_value (xs @ ys) = digits_value xs * 10 ^ length ys + digits_value ys"
  by (induction ys rule: rev_induct) (simp_all add: digits_value_def algebra_simps)

lemma digits_value_zeros [simp]: "digits_value (replicate k CHR ''0'') = 0"
  by (induction k) (simp_all add: digits_value_def replicate_append_same [symmetric])

lemma is_digit_0 [simp]: "is_digit CHR ''0''" by (simp add: is_digit_def between_def)

lemma append_int_ok:
  assumes "0 \<le> x" "x < 10 ^ w" "0 < w"
  shows "length (append_int w x) = w" "list_all is_digit (append_int w x)" "digits_value (append_int w x) = x"
proof -
  have "nat x < 10 ^ w" using assms by (simp add: nat_less_iff)
  then have "length (itoa_nat (nat x)) \<le> w" using assms(3) by (rule itoa_nat_length)
  then show "length (append_int w x) = w" using assms(1) by (simp add: append_int_def Let_def)
  show "list_all is_digit (append_int w x)" using assms(1) itoa_nat_digits [of "nat x"] by (auto simp: append_int_def Let_def list_all_iff)
  show "digits_value (append_int w x) = x" using assms(1) by (simp add: append_int_def Let_def digits_value_append itoa_nat_value)
qed

lemma append_int_two:
  assumes "0 \<le> x" "x < 100"
  obtains a b where "append_int 2 x = [a, b]" "is_digit a" "is_digit b" "digits_value [a, b] = x"
proof -
  have "length (append_int 2 x) = 2" "list_all is_digit (append_int 2 x)" "digits_value (append_int 2 x) = x"
    using append_int_ok [of x 2] assms by simp_all
  then show thesis using that by (auto simp: numeral_2_eq_2 length_Suc_conv)
qed

lemma getnum_append [simp]:
  assumes "0 \<le> x" "x < 100"
  shows "getnum fixed (append_int 2 x @ s) = Some (x, s)"
  using assms by (elim append_int_two) (auto simp: getnum_def)

lemma parse_year_append [simp]: "0 \<le> y \<Longrightarrow> y < 10000 \<Longrightarrow> parse_year (append_int 4 y @ s) = Some (y, s)"
  using append_int_ok [of y 4] by (simp add: parse_year_def)

lemma trim_zeros_split: "\<exists>k. s = trim_zeros s @ replicate k CHR ''0''"
proof -
  let ?t = "takeWhile (\<lambda>c. c = CHR ''0'') (rev s)"
  have "rev (?t @ dropWhile (\<lambda>c. c = CHR ''0'') (rev s)) = s" by simp
  then have "s = trim_zeros s @ rev ?t" unfolding trim_zeros_def rev_append by simp
  moreover have "rev ?t = replicate (length ?t) CHR ''0''" by (rule replicate_eqI) (auto dest: set_takeWhileD)
  ultimately show ?thesis by metis
qed

lemma parse_format_frac:
  assumes "0 \<le> ns" "ns < second"
  shows "parse_frac (format_frac ns @ ''Z'') = (ns, ''Z'')"
proof (cases "ns = 0")
  case False
  let ?s = "append_int 9 ns"
  obtain k where k: "?s = trim_zeros ?s @ replicate k CHR ''0''" using trim_zeros_split by blast
  have s: "length ?s = 9" "list_all is_digit ?s" "digits_value ?s = ns" using append_int_ok [of ns 9] assms by (simp_all add: second_def)
  have d: "list_all is_digit (trim_zeros ?s)" using s(2) k by (metis list_all_append)
  have v: "digits_value (trim_zeros ?s) * 10 ^ k = ns" using s(3) k by (metis add.right_neutral digits_value_append digits_value_zeros length_replicate)
  have l: "length (trim_zeros ?s) + k = 9" using s(1) k by (metis length_append length_replicate)
  have ne: "trim_zeros ?s \<noteq> []" using v False by (auto simp: digits_value_def)
  have nz: "\<not> is_digit CHR ''Z''" by (simp add: is_digit_def between_def)
  have "takeWhile is_digit (trim_zeros ?s @ ''Z'') = trim_zeros ?s" "dropWhile is_digit (trim_zeros ?s @ ''Z'') = ''Z''"
    using d nz by (simp_all add: list_all_iff)
  moreover have "is_digit (hd (trim_zeros ?s @ ''Z''))" using d ne by (cases "trim_zeros ?s") auto
  moreover have "9 - length (trim_zeros ?s) = k" using l by simp
  ultimately show ?thesis using False v l by (simp add: parse_frac_def format_frac_def Let_def)
qed (simp add: parse_frac_def format_frac_def)

lemma parse_zone_Z [simp]: "parse_zone ''Z'' = Some 0" by (simp add: parse_zone_def)

lemma skip_char_Cons [simp]: "skip_char c (c # s) = Some s" by (simp add: skip_char_def)

lemma div_below: "(0::int) < b \<Longrightarrow> x < k * b \<Longrightarrow> x div b < k"
  by (smt (verit) div_mult_mod_eq mult_right_mono pos_mod_sign)

lemma clock_parts:
  assumes r: "0 \<le> r" "r < day_ns"
  shows "0 \<le> r div hour" "r div hour \<le> 23" "0 \<le> r mod hour div minute" "r mod hour div minute \<le> 59" "0 \<le> r mod minute div second" "r mod minute div second \<le> 59"
    "r div hour * hour + r mod hour div minute * minute + r mod minute div second * second + r mod second = r"
proof -
  have h: "hour = 60 * minute" "minute = 60 * second" "0 < second" "day_ns = 24 * hour" by (simp_all add: hour_def minute_def second_def day_ns_def)
  have "r div hour < 24" by (rule div_below) (use r h in simp_all)
  then show "0 \<le> r div hour" "r div hour \<le> 23" using r by (simp_all add: pos_imp_zdiv_nonneg_iff)
  have "r mod hour < 60 * minute" "r mod minute < 60 * second" using pos_mod_bound [of hour r] pos_mod_bound [of minute r] h by simp_all
  then have "r mod hour div minute < 60" "r mod minute div second < 60" by (simp_all add: div_below)
  then show "0 \<le> r mod hour div minute" "r mod hour div minute \<le> 59" "0 \<le> r mod minute div second" "r mod minute div second \<le> 59"
    by (simp_all add: pos_imp_zdiv_nonneg_iff)
  have "r mod hour mod minute = r mod minute" "r mod minute mod second = r mod second" by (simp_all add: h(1,2) mod_mod_cancel)
  then show "r div hour * hour + r mod hour div minute * minute + r mod minute div second * second + r mod second = r"
    using div_mult_mod_eq [of r hour] div_mult_mod_eq [of "r mod hour" minute] div_mult_mod_eq [of "r mod minute" second] by linarith
qed

text \<open>The years that the layout has digits for.\<close>

definition formattable :: "go_time \<Rightarrow> bool" where
  "formattable t \<longleftrightarrow> 0 \<le> fst (day_date (t div day_ns)) \<and> fst (day_date (t div day_ns)) \<le> 9999"

lemma Parse_Format:
  assumes "formattable t"
  shows "ParseNano (FormatNano t) = Some t"
proof -
  obtain y m d where dd: "day_date (t div day_ns) = (y, m, d)" by (metis prod_cases3)
  have ymd: "date_days (y, m, d) = t div day_ns" "1 \<le> m" "m \<le> 12" "1 \<le> d" "d \<le> days_in y m" "d \<le> 31" using day_date_ok [OF dd] days_in_le [of y m] by linarith+
  have y: "0 \<le> y" "y \<le> 9999" using assms dd by (simp_all add: formattable_def)
  have pos: "0 < day_ns" by (simp add: day_ns_def)
  obtain r where r: "t mod day_ns = r" "0 \<le> r" "r < day_ns" using pos by (metis pos_mod_bound pos_mod_sign)
  note cl = clock_parts [OF r(2,3)]
  have fr: "0 \<le> r mod second" "r mod second < second" by simp_all
  have "t = t div day_ns * day_ns + r" using r(1) div_mult_mod_eq [of t day_ns] by simp
  then have t: "date_days (y, m, d) * day_ns + r div hour * hour + r mod hour div minute * minute + r mod minute div second * second + r mod second = t"
    using cl(7) unfolding ymd(1) by linarith
  show ?thesis using y ymd(2,3,4,5,6) cl(1-6) parse_format_frac [OF fr] t
    by (simp add: ParseNano_def FormatNano_def dd r(1) Let_def ranged_def)
qed

end
