(* ===== verification/Paging.thy ===== *)
theory Paging
  imports Go_Time Go_Base64
begin

text \<open>
  The lists of the control plane (\<open>store/store.go\<close>, \<open>store/memstore/memstore.go\<close>): pages, cursors that
  name the row a page ended on, and the order in which rows are read. A reader who follows the cursors gets to
  the end, gets no row twice and misses no row that stays in the table, while rows come and go.
\<close>


section \<open>Definitions\<close>

datatype store_error = NotFound | Conflict | InvalidCursor

definition DefaultPageSize :: int where "DefaultPageSize = 50"
definition MaxPageSize :: int where "MaxPageSize = 200"

record 'a Page =
  pg_Items :: "'a list"
  pg_NextCursor :: string

record ListQuery =
  lq_Limit :: int
  lq_Cursor :: string

definition ListQuery_Size :: "ListQuery \<Rightarrow> nat" where
  "ListQuery_Size q = nat (if lq_Limit q \<le> 0 then DefaultPageSize else if lq_Limit q > MaxPageSize then MaxPageSize else lq_Limit q)"

definition EncodeCursor :: "go_time \<Rightarrow> string \<Rightarrow> string" where
  "EncodeCursor t i = EncodeToString (FormatNano t @ ''|'' @ i)"

text \<open>\<open>strings.Cut\<close> around a single byte.\<close>

definition cut_at :: "char \<Rightarrow> string \<Rightarrow> (string \<times> string) option" where
  "cut_at c s = (if c \<in> set s then Some (takeWhile (\<lambda>x. x \<noteq> c) s, tl (dropWhile (\<lambda>x. x \<noteq> c) s)) else None)"

definition DecodeCursor :: "string \<Rightarrow> store_error + (go_time \<times> string)" where
  "DecodeCursor cursor = (if cursor = '''' then Inr (0, '''')
     else case DecodeString cursor of None \<Rightarrow> Inl InvalidCursor
     | Some raw \<Rightarrow> (case cut_at CHR ''|'' raw of None \<Rightarrow> Inl InvalidCursor
         | Some (t, i) \<Rightarrow> if i = '''' then Inl InvalidCursor
             else (case ParseNano t of None \<Rightarrow> Inl InvalidCursor | Some parsed \<Rightarrow> Inr (parsed, i))))"

type_synonym 'a row_key = "'a \<Rightarrow> go_time \<times> string"

definition older_first :: "go_time \<times> string \<Rightarrow> go_time \<times> string \<Rightarrow> bool" where
  "older_first l r \<longleftrightarrow> (if fst l = fst r then snd l < snd r else fst l < fst r)"

definition newer_first :: "go_time \<times> string \<Rightarrow> go_time \<times> string \<Rightarrow> bool" where
  "newer_first l r \<longleftrightarrow> (if fst l = fst r then snd l > snd r else fst l > fst r)"

definition sortOldestFirst :: "'a row_key \<Rightarrow> 'a list \<Rightarrow> 'a list" where
  "sortOldestFirst key items = stable_sort (\<lambda>a b. older_first (key a) (key b)) items"

definition sortNewestFirst :: "'a row_key \<Rightarrow> 'a list \<Rightarrow> 'a list" where
  "sortNewestFirst key items = stable_sort (\<lambda>a b. newer_first (key a) (key b)) items"

definition paginate :: "'a list \<Rightarrow> ListQuery \<Rightarrow> 'a row_key \<Rightarrow> store_error + 'a Page" where
  "paginate items query key =
     (case DecodeCursor (lq_Cursor query) of Inl e \<Rightarrow> Inl e
      | Inr (t, i) \<Rightarrow>
         (let rest = (if lq_Cursor query \<noteq> ''''
                then filter (\<lambda>x. \<not> (fst (key x) > t \<or> fst (key x) = t \<and> snd (key x) \<ge> i)) items else items);
              n = ListQuery_Size query
          in if length rest \<le> n then Inr \<lparr>pg_Items = rest, pg_NextCursor = ''''\<rparr>
             else Inr \<lparr>pg_Items = take n rest, pg_NextCursor = EncodeCursor (fst (key (rest ! (n - 1)))) (snd (key (rest ! (n - 1))))\<rparr>))"

text \<open>
  A reader: page after page until there is no next cursor. \<open>tables n\<close> holds the rows at the time of the
  \<open>n\<close>-th request; the first argument bounds the number of requests.
\<close>

fun read_all :: "nat \<Rightarrow> (nat \<Rightarrow> 'a list) \<Rightarrow> 'a row_key \<Rightarrow> int \<Rightarrow> string \<Rightarrow> nat \<Rightarrow> 'a list option" where
  "read_all 0 tables key limit cursor n = None"
| "read_all (Suc k) tables key limit cursor n =
     (case paginate (sortNewestFirst key (tables n)) \<lparr>lq_Limit = limit, lq_Cursor = cursor\<rparr> key of Inl _ \<Rightarrow> None
      | Inr page \<Rightarrow> if pg_NextCursor page = '''' then Some (pg_Items page)
          else map_option (\<lambda>rows. pg_Items page @ rows) (read_all k tables key limit (pg_NextCursor page) (Suc n)))"


section \<open>Cursors\<close>

lemma Size_bounds: "1 \<le> ListQuery_Size q" "ListQuery_Size q \<le> 200"
  by (auto simp: ListQuery_Size_def DefaultPageSize_def MaxPageSize_def)

lemma cut_at_append: "c \<notin> set s \<Longrightarrow> cut_at c (s @ c # t) = Some (s, t)"
  by (induction s) (auto simp: cut_at_def)

lemma append_int_plain: "0 \<le> x \<Longrightarrow> CHR ''|'' \<notin> set (append_int w x)"
proof -
  assume "0 \<le> x"
  then have "list_all is_digit (append_int w x)" using itoa_nat_digits [of "nat x"] by (auto simp: append_int_def Let_def list_all_iff)
  then show ?thesis by (auto simp: list_all_iff is_digit_def between_def)
qed

lemma set_trim_zeros: "set (trim_zeros s) \<subseteq> set s"
  by (auto simp: trim_zeros_def dest: set_dropWhileD)

lemma FormatNano_plain:
  assumes "formattable t"
  shows "CHR ''|'' \<notin> set (FormatNano t)"
proof -
  obtain y m d where dd: "day_date (t div day_ns) = (y, m, d)" by (metis prod_cases3)
  have ymd: "0 \<le> y" "0 \<le> m" "0 \<le> d" using day_date_ok [OF dd] assms dd by (auto simp: formattable_def)
  have pos: "0 < day_ns" by (simp add: day_ns_def)
  obtain r where r: "t mod day_ns = r" "0 \<le> r" "r < day_ns" using pos by (metis pos_mod_bound pos_mod_sign)
  have "CHR ''|'' \<notin> set (format_frac (r mod second))"
    using set_trim_zeros [of "append_int 9 (r mod second)"] append_int_plain [of "r mod second" 9] by (auto simp: format_frac_def)
  then show ?thesis using ymd clock_parts [OF r(2,3)] by (simp add: FormatNano_def dd r(1) Let_def append_int_plain)
qed

lemma EncodeCursor_nonempty [simp]: "EncodeCursor t i \<noteq> ''''"
proof -
  have "DecodeString (EncodeCursor t i) = Some (FormatNano t @ ''|'' @ i)" by (simp add: EncodeCursor_def)
  moreover have "DecodeString '''' = Some ''''" by (simp add: DecodeString_def)
  ultimately show ?thesis by auto
qed

text \<open>
  A cursor read back names the row it was made for, whatever bytes its id has, for every instant of the years
  0 to 9999 to the nanosecond.
\<close>

theorem cursor_roundtrip:
  assumes "formattable t" "i \<noteq> ''''"
  shows "DecodeCursor (EncodeCursor t i) = Inr (t, i)"
  using assms FormatNano_plain [OF assms(1)] Parse_Format [OF assms(1)] cut_at_append [of "CHR ''|''" "FormatNano t" i]
  by (simp add: DecodeCursor_def) (simp add: EncodeCursor_def)



section \<open>Reading a list\<close>

interpretation older_order: strict_weak_order "\<lambda>a b. older_first (key a) (key b)" for key :: "'a row_key"
  by unfold_locales (auto simp: older_first_def split: if_splits)

interpretation newer_order: strict_weak_order "\<lambda>a b. newer_first (key a) (key b)" for key :: "'a row_key"
  by unfold_locales (auto simp: newer_first_def split: if_splits)

lemma newer_first_total: "a \<noteq> b \<Longrightarrow> newer_first a b \<or> newer_first b a"
  by (cases a; cases b) (auto simp: newer_first_def)

lemma newer_first_irrefl [simp]: "\<not> newer_first a a"
  by (simp add: newer_first_def)

lemma newer_first_trans: "newer_first a b \<Longrightarrow> newer_first b c \<Longrightarrow> newer_first a c"
  by (auto simp: newer_first_def split: if_splits)

text \<open>Rows with keys of their own are read in a strict order.\<close>

definition newest :: "'a row_key \<Rightarrow> 'a list \<Rightarrow> bool" where
  "newest key xs \<longleftrightarrow> sorted_wrt (\<lambda>a b. newer_first (key a) (key b)) xs"

lemma sortNewestFirst_newest:
  assumes "inj_on key (set xs)" "distinct xs"
  shows "newest key (sortNewestFirst key xs)"
proof -
  let ?ys = "sortNewestFirst key xs"
  have "sorted_wrt (\<lambda>a b. \<not> newer_first (key b) (key a)) ?ys" unfolding sortNewestFirst_def by (rule newer_order.sorted_stable_sort)
  moreover have "distinct ?ys" "set ?ys = set xs" using assms(2) by (simp_all add: sortNewestFirst_def)
  ultimately show ?thesis
    using assms(1) newer_first_total unfolding newest_def sorted_wrt_iff_nth_less by (metis distinct_conv_nth inj_onD less_imp_neq nth_mem order.strict_trans)
qed

text \<open>A position: the start, or the key of the last row read, with the cursor that stands for it.\<close>

definition beyond :: "(go_time \<times> string) option \<Rightarrow> 'a row_key \<Rightarrow> 'a \<Rightarrow> bool" where
  "beyond pos key x \<longleftrightarrow> (case pos of None \<Rightarrow> True | Some p \<Rightarrow> newer_first p (key x))"

definition cursor_for :: "(go_time \<times> string) option \<Rightarrow> string \<Rightarrow> bool" where
  "cursor_for pos c \<longleftrightarrow> (case pos of None \<Rightarrow> c = '''' | Some (t, i) \<Rightarrow> c = EncodeCursor t i \<and> formattable t \<and> i \<noteq> '''')"

lemma paginate_cases:
  fixes key :: "'a row_key" and xs limit
  assumes "cursor_for pos c"
  defines "rest \<equiv> filter (beyond pos key) xs" and "n \<equiv> ListQuery_Size \<lparr>lq_Limit = limit, lq_Cursor = c\<rparr>"
  shows "paginate xs \<lparr>lq_Limit = limit, lq_Cursor = c\<rparr> key =
     (if length rest \<le> n then Inr \<lparr>pg_Items = rest, pg_NextCursor = ''''\<rparr>
      else Inr \<lparr>pg_Items = take n rest, pg_NextCursor = EncodeCursor (fst (key (rest ! (n - 1)))) (snd (key (rest ! (n - 1))))\<rparr>)"
proof (cases pos)
  case None
  then show ?thesis using assms(1) by (simp add: cursor_for_def paginate_def DecodeCursor_def beyond_def rest_def n_def Let_def)
next
  case (Some p)
  obtain t i where p: "p = (t, i)" by (cases p)
  have "filter (\<lambda>x. \<not> (fst (key x) > t \<or> fst (key x) = t \<and> snd (key x) \<ge> i)) xs = rest"
    unfolding rest_def by (rule filter_cong) (auto simp: newer_first_def beyond_def Some p split: if_splits)
  then show ?thesis using assms(1) Some p cursor_roundtrip [of t i] by (simp add: cursor_for_def paginate_def n_def Let_def)
qed

text \<open>Rows as they occur: at most one per key, with a creation time that can be written and an id.\<close>

definition row_ok :: "'a row_key \<Rightarrow> 'a \<Rightarrow> bool" where
  "row_ok key x \<longleftrightarrow> formattable (fst (key x)) \<and> snd (key x) \<noteq> ''''"

lemma newest_filter: "newest key xs \<Longrightarrow> newest key (filter P xs)"
  by (simp add: newest_def sorted_wrt_filter)

lemma newest_rest:
  assumes "newest key xs" "n < length xs" "0 < n"
  shows "filter (beyond (Some (key (xs ! (n - 1)))) key) xs = drop n xs"
proof -
  let ?x = "xs ! (n - 1)"
  have tk: "take n xs = take (n - 1) xs @ [?x]" using assms(2,3) by (metis Suc_diff_1 less_imp_diff_less take_Suc_conv_app_nth)
  have s: "sorted_wrt (\<lambda>a b. newer_first (key a) (key b)) (take n xs @ drop n xs)" using assms(1) by (simp add: newest_def)
  then have "newer_first (key y) (key ?x)" if "y \<in> set (take (n - 1) xs)" for y using that by (simp add: tk sorted_wrt_append)
  then have "\<not> newer_first (key ?x) (key y)" if "y \<in> set (take n xs)" for y
    using that newer_first_trans [of "key ?x" "key y" "key ?x"] unfolding tk by auto
  then have "filter (beyond (Some (key ?x)) key) (take n xs) = []" by (simp add: beyond_def filter_empty_conv)
  moreover have "newer_first (key ?x) (key y)" if "y \<in> set (drop n xs)" for y using s that by (simp add: tk sorted_wrt_append)
  then have "filter (beyond (Some (key ?x)) key) (drop n xs) = drop n xs" by (simp add: beyond_def filter_id_conv)
  ultimately show ?thesis by (metis append_self_conv2 append_take_drop_id filter_append)
qed

lemma read_all_from:
  assumes U: "finite U" "\<And>x. x \<in> U \<Longrightarrow> row_ok key x"
    and T: "\<And>n. distinct (tables n)" "\<And>n. set (tables n) \<subseteq> U" "\<And>n. inj_on key (set (tables n))"
  shows "cursor_for pos c \<Longrightarrow> card {x \<in> U. beyond pos key x} < k \<Longrightarrow>
    \<exists>rows. read_all k tables key limit c n = Some rows \<and> newest key rows \<and> set rows \<subseteq> {x \<in> U. beyond pos key x}
      \<and> (\<forall>x. beyond pos key x \<and> (\<forall>m \<ge> n. x \<in> set (tables m)) \<longrightarrow> x \<in> set rows)"
proof (induction k arbitrary: pos c n)
  case (Suc k)
  define xs where "xs = filter (beyond pos key) (sortNewestFirst key (tables n))"
  define sz where "sz = ListQuery_Size \<lparr>lq_Limit = limit, lq_Cursor = c\<rparr>"
  have nx: "newest key xs" unfolding xs_def by (rule newest_filter, rule sortNewestFirst_newest [OF T(3,1)])
  have sx: "set xs = {x \<in> set (tables n). beyond pos key x}" by (auto simp: xs_def sortNewestFirst_def)
  note page = paginate_cases [OF Suc.prems(1), of "sortNewestFirst key (tables n)" limit key, folded xs_def sz_def]
  show ?case
  proof (cases "length xs \<le> sz")
    case True
    then show ?thesis using page nx sx T(2) by auto
  next
    case False
    have pos_sz: "0 < sz" using Size_bounds(1) [of "\<lparr>lq_Limit = limit, lq_Cursor = c\<rparr>"] by (simp add: sz_def)
    define x where "x = xs ! (sz - 1)"
    have x: "x \<in> set xs" unfolding x_def using False by auto
    then have xU: "x \<in> U" "beyond pos key x" using sx T(2) by auto
    have cx: "cursor_for (Some (key x)) (EncodeCursor (fst (key x)) (snd (key x)))"
      using U(2) [OF xU(1)] by (auto simp: cursor_for_def row_ok_def split: prod.splits)
    have mono: "beyond pos key y" if "beyond (Some (key x)) key y" for y
      using that xU(2) by (auto simp: beyond_def split: option.splits intro: newer_first_trans [where b = "key x"])
    have "{y \<in> U. beyond (Some (key x)) key y} \<subset> {y \<in> U. beyond pos key y}"
      using mono xU by (intro psubsetI) (auto, metis (no_types, lifting) beyond_def mem_Collect_eq newer_first_irrefl option.simps(5))
    then have "card {y \<in> U. beyond (Some (key x)) key y} < card {y \<in> U. beyond pos key y}" using U(1) by (intro psubset_card_mono) auto
    then have lt: "card {y \<in> U. beyond (Some (key x)) key y} < k" using Suc.prems(2) by linarith
    obtain rows where rows: "read_all k tables key limit (EncodeCursor (fst (key x)) (snd (key x))) (Suc n) = Some rows" "newest key rows"
      "set rows \<subseteq> {y \<in> U. beyond (Some (key x)) key y}" "\<And>y. beyond (Some (key x)) key y \<Longrightarrow> \<forall>m \<ge> Suc n. y \<in> set (tables m) \<Longrightarrow> y \<in> set rows"
      using Suc.IH [OF cx lt, of "Suc n"] by blast
    have r: "read_all (Suc k) tables key limit c n = Some (take sz xs @ rows)" using page False rows(1) by (simp add: x_def)
    have drop: "filter (beyond (Some (key x)) key) xs = drop sz xs" unfolding x_def by (rule newest_rest [OF nx]) (use False pos_sz in simp_all)
    have tk: "take sz xs = take (sz - 1) xs @ [x]" unfolding x_def using False pos_sz by (metis Suc_diff_1 less_imp_diff_less not_le take_Suc_conv_app_nth)
    have "newer_first (key a) (key b)" if "a \<in> set (take sz xs)" "b \<in> set rows" for a b
    proof -
      have xb: "newer_first (key x) (key b)" using rows(3) that(2) by (auto simp: beyond_def)
      have "newest key (take sz xs)" using nx unfolding newest_def by (metis append_take_drop_id sorted_wrt_append)
      then have "a = x \<or> newer_first (key a) (key x)" using that(1) unfolding tk newest_def by (auto simp: sorted_wrt_append)
      then show ?thesis using xb newer_first_trans by blast
    qed
    moreover have "newest key (take sz xs)" using nx unfolding newest_def by (metis append_take_drop_id sorted_wrt_append)
    ultimately have "newest key (take sz xs @ rows)" using rows(2) by (simp add: newest_def sorted_wrt_append)
    moreover have "set (take sz xs @ rows) \<subseteq> {y \<in> U. beyond pos key y}" using sx T(2) rows(3) mono by (auto dest!: in_set_takeD)
    moreover have "y \<in> set (take sz xs @ rows)" if "beyond pos key y" "\<forall>m \<ge> n. y \<in> set (tables m)" for y
    proof (cases "beyond (Some (key x)) key y")
      case False
      have "y \<in> set xs" using that sx by auto
      then have "y \<in> set (take sz xs) \<union> set (drop sz xs)" by (metis append_take_drop_id set_append)
      moreover have "y \<notin> set (drop sz xs)" using False unfolding drop [symmetric] by simp
      ultimately show ?thesis by simp
    qed (use rows(4) that(2) in auto)
    ultimately show ?thesis using r by blast
  qed
qed simp

text \<open>
  C26. A reader who follows the cursors of a list from its first page ends, after no more requests than one plus
  the number of rows that there ever are, whatever is inserted and deleted between two requests. No row is read
  twice, rows come newest first, and every row that is in the table throughout is among them.
\<close>

theorem paging_complete:
  assumes "finite U" "\<And>x. x \<in> U \<Longrightarrow> row_ok key x"
    and "\<And>n. distinct (tables n)" "\<And>n. set (tables n) \<subseteq> U" "\<And>n. inj_on key (set (tables n))"
  shows "\<exists>rows. read_all (Suc (card U)) tables key limit '''' 0 = Some rows \<and> sorted_wrt (\<lambda>a b. newer_first (key a) (key b)) rows
     \<and> distinct rows \<and> set rows \<subseteq> U \<and> (\<forall>x. (\<forall>n. x \<in> set (tables n)) \<longrightarrow> x \<in> set rows)"
proof -
  obtain rows where rows: "read_all (Suc (card U)) tables key limit '''' 0 = Some rows" "newest key rows" "set rows \<subseteq> U"
    "\<forall>x. (\<forall>n. x \<in> set (tables n)) \<longrightarrow> x \<in> set rows"
    using read_all_from [where tables = tables, OF assms, where pos = None and c = "''''" and k = "Suc (card U)" and limit = limit and n = 0] by (auto simp: cursor_for_def beyond_def simp del: read_all.simps)
  have "distinct rows" using rows(2) unfolding newest_def
    by (induction rows) (auto simp: newer_first_def)
  then show ?thesis using rows by (auto simp: newest_def)
qed


section \<open>Witnesses\<close>

theorem cursor_roundtrip_witness: "DecodeCursor (EncodeCursor 63902817006123456000 ''job_|1'') = Inr (63902817006123456000, ''job_|1'')"
proof (rule cursor_roundtrip)
  show "formattable 63902817006123456000" by code_simp
qed simp

definition rows_a :: "nat \<Rightarrow> (go_time \<times> string) list" where
  "rows_a n = (if n = 0 then [(1, ''a''), (2, ''b''), (2, ''c'')] else [(1, ''a''), (2, ''b''), (3, ''d'')])"

theorem paging_complete_witness:
  "\<exists>rows. read_all 5 rows_a id 1 '''' 0 = Some rows \<and> (1, ''a'') \<in> set rows \<and> (2, ''b'') \<in> set rows"
proof -
  let ?U = "{(1, ''a''), (2, ''b''), (2, ''c''), (3, ''d'')} :: (go_time \<times> string) set"
  have f: "formattable 1" "formattable 2" "formattable 3" by code_simp+
  have "\<exists>rows. read_all (Suc (card ?U)) rows_a id 1 '''' 0 = Some rows \<and> sorted_wrt (\<lambda>a b. newer_first (id a) (id b)) rows
     \<and> distinct rows \<and> set rows \<subseteq> ?U \<and> (\<forall>x. (\<forall>n. x \<in> set (rows_a n)) \<longrightarrow> x \<in> set rows)"
    by (rule paging_complete) (auto simp: row_ok_def f rows_a_def split: if_splits)
  moreover have "Suc (card ?U) = 5" by simp
  moreover have "\<forall>n. (1, ''a'') \<in> set (rows_a n)" "\<forall>n. (2, ''b'') \<in> set (rows_a n)" by (simp_all add: rows_a_def)
  ultimately show ?thesis by metis
qed

end
