(* ===== verification/JobRecords.thy ===== *)
theory JobRecords
  imports Paging
begin

text \<open>
  The control plane's record of workflow runs: \<open>model/job.go\<close>, the tables of jobs and artifacts of
  \<open>store/memstore/memstore.go\<close> and the service methods of \<open>logic/jobs.go\<close>. Every store method holds
  the mutex for its whole body. The clock of the service and the wall clock that stamps new rows are arguments.
\<close>


section \<open>Definitions\<close>

subsection \<open>Rows\<close>

definition JobPending :: string where "JobPending = ''pending''"
definition JobRunning :: string where "JobRunning = ''running''"
definition JobSucceeded :: string where "JobSucceeded = ''succeeded''"
definition JobFailed :: string where "JobFailed = ''failed''"
definition JobCancelled :: string where "JobCancelled = ''cancelled''"

record Job =
  ro_ID :: string
  ro_TenantID :: string
  ro_WorkflowID :: string
  ro_WorkflowVersion :: string
  ro_NodeID :: string
  ro_RuntimeID :: string
  ro_BackendRunID :: string
  ro_State :: string
  ro_ErrorSummary :: string
  ro_ObservedSeq :: int
  ro_CreatedAt :: go_time
  ro_UpdatedAt :: go_time
  ro_TerminalAt :: "go_time option"

definition Job_Terminal :: "Job \<Rightarrow> bool" where
  "Job_Terminal j \<longleftrightarrow> ro_State j = JobSucceeded \<or> ro_State j = JobFailed \<or> ro_State j = JobCancelled"

record JobArtifact =
  ja_ID :: string
  ja_JobID :: string
  ja_TenantID :: string
  ja_Filename :: string
  ja_Subfolder :: string
  ja_Type :: string
  ja_SHA256 :: string
  ja_SizeBytes :: int
  ja_ContentType :: string
  ja_StorageKey :: string
  ja_CreatedAt :: go_time

record JobFilter =
  jf_State :: string
  jf_WorkflowID :: string
  jf_Since :: go_time
  jf_Until :: go_time

record JobStateUpdate =
  ju_State :: string
  ju_ErrorSummary :: string
  ju_ObservedSeq :: int
  ju_At :: go_time

definition MaxActiveJobsForRoute :: nat where "MaxActiveJobsForRoute = 500"
definition MaxExpiredJobArtifacts :: nat where "MaxExpiredJobArtifacts = 200"

subsection \<open>The store\<close>

record job_db =
  db_jobs :: "(string \<times> Job) list"
  db_artifacts :: "(string \<times> JobArtifact) list"

definition empty_db :: job_db where
  "empty_db = \<lparr>db_jobs = [], db_artifacts = []\<rparr>"

definition stamp :: "go_time \<Rightarrow> Job \<Rightarrow> Job" where
  "stamp wall j = j\<lparr>ro_CreatedAt := (if ro_CreatedAt j = 0 then wall else ro_CreatedAt j), ro_UpdatedAt := wall\<rparr>"

definition db_CreateJob :: "go_time \<Rightarrow> Job \<Rightarrow> job_db \<Rightarrow> (store_error + Job) \<times> job_db" where
  "db_CreateJob wall j db = (case map_of (db_jobs db) (ro_ID j) of Some _ \<Rightarrow> (Inl Conflict, db)
     | None \<Rightarrow> (Inr (stamp wall j), db\<lparr>db_jobs := AList.update (ro_ID j) (stamp wall j) (db_jobs db)\<rparr>))"

definition db_GetJob :: "string \<Rightarrow> string \<Rightarrow> job_db \<Rightarrow> store_error + Job" where
  "db_GetJob tenantID i db = (case map_of (db_jobs db) i of None \<Rightarrow> Inl NotFound
     | Some j \<Rightarrow> if ro_TenantID j \<noteq> tenantID then Inl NotFound else Inr j)"

definition job_key :: "Job \<Rightarrow> go_time \<times> string" where
  "job_key j = (ro_CreatedAt j, ro_ID j)"

definition job_matches :: "string \<Rightarrow> JobFilter \<Rightarrow> Job \<Rightarrow> bool" where
  "job_matches tenantID f j \<longleftrightarrow> ro_TenantID j = tenantID
     \<and> \<not> (jf_State f \<noteq> '''' \<and> ro_State j \<noteq> jf_State f)
     \<and> \<not> (jf_WorkflowID f \<noteq> '''' \<and> ro_WorkflowID j \<noteq> jf_WorkflowID f)
     \<and> \<not> (jf_Since f \<noteq> 0 \<and> ro_CreatedAt j < jf_Since f)
     \<and> \<not> (jf_Until f \<noteq> 0 \<and> \<not> ro_CreatedAt j < jf_Until f)"

definition db_ListJobs :: "string \<Rightarrow> ListQuery \<Rightarrow> JobFilter \<Rightarrow> job_db \<Rightarrow> store_error + Job Page" where
  "db_ListJobs tenantID query f db =
     paginate (sortNewestFirst job_key (filter (job_matches tenantID f) (map snd (db_jobs db)))) query job_key"

definition apply_update :: "JobStateUpdate \<Rightarrow> Job \<Rightarrow> Job" where
  "apply_update u j =
     (let j' = j\<lparr>ro_State := ju_State u, ro_ErrorSummary := ju_ErrorSummary u, ro_ObservedSeq := ju_ObservedSeq u, ro_UpdatedAt := ju_At u\<rparr>
      in if Job_Terminal j' then j'\<lparr>ro_TerminalAt := Some (ju_At u)\<rparr> else j')"

definition db_UpdateJobState :: "string \<Rightarrow> string \<Rightarrow> JobStateUpdate \<Rightarrow> job_db \<Rightarrow> (store_error + bool) \<times> job_db" where
  "db_UpdateJobState tenantID i u db = (case map_of (db_jobs db) i of None \<Rightarrow> (Inl NotFound, db)
     | Some j \<Rightarrow> if ro_TenantID j \<noteq> tenantID then (Inl NotFound, db)
         else if Job_Terminal j \<or> ju_ObservedSeq u \<le> ro_ObservedSeq j then (Inr False, db)
         else (Inr True, db\<lparr>db_jobs := AList.update i (apply_update u j) (db_jobs db)\<rparr>))"

definition db_ListActiveJobsForRoute :: "string \<Rightarrow> string \<Rightarrow> job_db \<Rightarrow> Job list" where
  "db_ListActiveJobsForRoute nodeID runtimeID db = take MaxActiveJobsForRoute (sortOldestFirst job_key
     (filter (\<lambda>j. ro_NodeID j = nodeID \<and> ro_RuntimeID j = runtimeID \<and> \<not> Job_Terminal j) (map snd (db_jobs db))))"

definition db_CreateJobArtifact :: "go_time \<Rightarrow> JobArtifact \<Rightarrow> job_db \<Rightarrow> (store_error + JobArtifact) \<times> job_db" where
  "db_CreateJobArtifact wall a db = (case map_of (db_artifacts db) (ja_ID a) of Some _ \<Rightarrow> (Inl Conflict, db)
     | None \<Rightarrow> (let a' = (if ja_CreatedAt a = 0 then a\<lparr>ja_CreatedAt := wall\<rparr> else a)
         in (Inr a', db\<lparr>db_artifacts := AList.update (ja_ID a) a' (db_artifacts db)\<rparr>)))"

definition artifact_key :: "JobArtifact \<Rightarrow> go_time \<times> string" where
  "artifact_key a = (ja_CreatedAt a, ja_ID a)"

definition db_ListJobArtifacts :: "string \<Rightarrow> string \<Rightarrow> job_db \<Rightarrow> JobArtifact list" where
  "db_ListJobArtifacts tenantID jobID db = sortNewestFirst artifact_key (filter (\<lambda>a. ja_JobID a = jobID \<and> ja_TenantID a = tenantID) (map snd (db_artifacts db)))"

definition db_GetJobArtifact :: "string \<Rightarrow> job_db \<Rightarrow> store_error + JobArtifact" where
  "db_GetJobArtifact i db = (case map_of (db_artifacts db) i of None \<Rightarrow> Inl NotFound | Some a \<Rightarrow> Inr a)"

definition db_ListJobArtifactsBefore :: "string \<Rightarrow> go_time \<Rightarrow> job_db \<Rightarrow> JobArtifact list" where
  "db_ListJobArtifactsBefore type cutoff db = take MaxExpiredJobArtifacts (sortOldestFirst artifact_key
     (filter (\<lambda>a. ja_Type a = type \<and> ja_CreatedAt a < cutoff) (map snd (db_artifacts db))))"

definition db_DeleteJobArtifact :: "string \<Rightarrow> job_db \<Rightarrow> job_db" where
  "db_DeleteJobArtifact i db = db\<lparr>db_artifacts := AList.delete i (db_artifacts db)\<rparr>"

definition db_SumArtifactStorageBytes :: "job_db \<Rightarrow> int" where
  "db_SumArtifactStorageBytes db = foldl (\<lambda>total a. if ja_StorageKey a \<noteq> '''' then wrap64 (total + ja_SizeBytes a) else total) 0 (map snd (db_artifacts db))"

subsection \<open>The service\<close>

datatype service_error = ServiceNotFound | ServiceConflict | ServiceInvalidInput | ServiceForbidden | ServiceInvalidCredentials | ServiceUnavailable | ServiceOther

fun translate :: "store_error \<Rightarrow> service_error" where
  "translate NotFound = ServiceNotFound"
| "translate Conflict = ServiceConflict"
| "translate InvalidCursor = ServiceInvalidInput"

definition translated :: "store_error + 'a \<Rightarrow> service_error + 'a" where
  "translated r = (case r of Inl e \<Rightarrow> Inl (translate e) | Inr a \<Rightarrow> Inr a)"

record CreateJobParams =
  cp_JobID :: string
  cp_TenantID :: string
  cp_WorkflowID :: string
  cp_WorkflowVersion :: string
  cp_NodeID :: string
  cp_RuntimeID :: string
  cp_BackendRunID :: string
  cp_State :: string
  cp_ObservedSeq :: int

definition Service_CreateJob :: "go_time \<Rightarrow> go_time \<Rightarrow> CreateJobParams \<Rightarrow> job_db \<Rightarrow> (service_error + Job) \<times> job_db" where
  "Service_CreateJob now wall p db =
     (if cp_JobID p = '''' \<or> cp_TenantID p = '''' \<or> cp_WorkflowID p = '''' then (Inl ServiceInvalidInput, db)
      else let j = \<lparr>ro_ID = cp_JobID p, ro_TenantID = cp_TenantID p, ro_WorkflowID = cp_WorkflowID p, ro_WorkflowVersion = cp_WorkflowVersion p,
             ro_NodeID = cp_NodeID p, ro_RuntimeID = cp_RuntimeID p, ro_BackendRunID = cp_BackendRunID p, ro_State = cp_State p, ro_ErrorSummary = '''',
             ro_ObservedSeq = cp_ObservedSeq p, ro_CreatedAt = now, ro_UpdatedAt = now, ro_TerminalAt = None\<rparr>
      in case db_CreateJob wall j db of
           (Inr j', db') \<Rightarrow> (Inr j', db')
         | (Inl Conflict, db') \<Rightarrow> (case db_GetJob (cp_TenantID p) (cp_JobID p) db' of Inl _ \<Rightarrow> (Inl ServiceConflict, db') | Inr existing \<Rightarrow> (Inr existing, db'))
         | (Inl e, db') \<Rightarrow> (Inl (translate e), db'))"

definition Service_GetJob :: "string \<Rightarrow> string \<Rightarrow> job_db \<Rightarrow> service_error + Job" where
  "Service_GetJob tenantID jobID db = translated (db_GetJob tenantID jobID db)"

definition validJobState :: "string \<Rightarrow> bool" where
  "validJobState s \<longleftrightarrow> s = JobPending \<or> s = JobRunning \<or> s = JobSucceeded \<or> s = JobFailed \<or> s = JobCancelled"

definition Service_ListJobs :: "string \<Rightarrow> ListQuery \<Rightarrow> JobFilter \<Rightarrow> job_db \<Rightarrow> service_error + Job Page" where
  "Service_ListJobs tenantID query f db =
     (if jf_State f \<noteq> '''' \<and> \<not> validJobState (jf_State f) then Inl ServiceInvalidInput
      else if jf_Since f \<noteq> 0 \<and> jf_Until f \<noteq> 0 \<and> \<not> jf_Until f > jf_Since f then Inl ServiceInvalidInput
      else translated (db_ListJobs tenantID query f db))"

record UpdateJobStateParams =
  up_State :: string
  up_ErrorSummary :: string
  up_ObservedSeq :: int

definition Service_UpdateJobState :: "go_time \<Rightarrow> string \<Rightarrow> string \<Rightarrow> UpdateJobStateParams \<Rightarrow> job_db \<Rightarrow> (service_error + bool \<times> Job) \<times> job_db" where
  "Service_UpdateJobState now tenantID jobID p db =
     (if up_State p = '''' then (Inl ServiceInvalidInput, db)
      else case db_UpdateJobState tenantID jobID
             \<lparr>ju_State = up_State p, ju_ErrorSummary = up_ErrorSummary p, ju_ObservedSeq = up_ObservedSeq p, ju_At = now\<rparr> db of
        (Inl e, db') \<Rightarrow> (Inl (translate e), db')
      | (Inr applied, db') \<Rightarrow> (case db_GetJob tenantID jobID db' of Inl e \<Rightarrow> (Inl (translate e), db') | Inr j \<Rightarrow> (Inr (applied, j), db')))"

definition Service_ListActiveJobsForRoute :: "string \<Rightarrow> string \<Rightarrow> job_db \<Rightarrow> Job list" where
  "Service_ListActiveJobsForRoute nodeID runtimeID db = db_ListActiveJobsForRoute nodeID runtimeID db"

record CreateJobArtifactParams =
  ap_ArtifactID :: string
  ap_JobID :: string
  ap_TenantID :: string
  ap_Filename :: string
  ap_Subfolder :: string
  ap_Type :: string
  ap_SHA256 :: string
  ap_SizeBytes :: int
  ap_ContentType :: string
  ap_StorageKey :: string

definition Service_CreateJobArtifact :: "go_time \<Rightarrow> go_time \<Rightarrow> CreateJobArtifactParams \<Rightarrow> job_db \<Rightarrow> (service_error + JobArtifact) \<times> job_db" where
  "Service_CreateJobArtifact now wall p db =
     (if ap_ArtifactID p = '''' \<or> ap_JobID p = '''' \<or> ap_TenantID p = '''' \<or> ap_Filename p = '''' then (Inl ServiceInvalidInput, db)
      else let a = \<lparr>ja_ID = ap_ArtifactID p, ja_JobID = ap_JobID p, ja_TenantID = ap_TenantID p, ja_Filename = ap_Filename p, ja_Subfolder = ap_Subfolder p,
             ja_Type = ap_Type p, ja_SHA256 = ap_SHA256 p, ja_SizeBytes = ap_SizeBytes p, ja_ContentType = ap_ContentType p,
             ja_StorageKey = ap_StorageKey p, ja_CreatedAt = now\<rparr>
      in case db_CreateJobArtifact wall a db of (Inr a', db') \<Rightarrow> (Inr a', db') | (Inl Conflict, db') \<Rightarrow> (Inr a, db') | (Inl e, db') \<Rightarrow> (Inl (translate e), db'))"

definition Service_ListJobArtifacts :: "string \<Rightarrow> string \<Rightarrow> job_db \<Rightarrow> JobArtifact list" where
  "Service_ListJobArtifacts tenantID jobID db = db_ListJobArtifacts tenantID jobID db"

definition Service_GetArtifactRoute :: "string \<Rightarrow> string \<Rightarrow> job_db \<Rightarrow> service_error + JobArtifact \<times> Job" where
  "Service_GetArtifactRoute tenantID artifactID db =
     (case db_GetJobArtifact artifactID db of Inl e \<Rightarrow> Inl (translate e)
      | Inr a \<Rightarrow> if ja_TenantID a \<noteq> tenantID then Inl ServiceNotFound
          else (case db_GetJob tenantID (ja_JobID a) db of Inl e \<Rightarrow> Inl (translate e) | Inr j \<Rightarrow> Inr (a, j)))"

definition Service_ListExpiredJobArtifacts :: "string \<Rightarrow> go_time \<Rightarrow> job_db \<Rightarrow> JobArtifact list" where
  "Service_ListExpiredJobArtifacts type cutoff db = db_ListJobArtifactsBefore type cutoff db"

definition Service_DeleteJobArtifact :: "string \<Rightarrow> job_db \<Rightarrow> job_db" where
  "Service_DeleteJobArtifact i db = db_DeleteJobArtifact i db"


section \<open>How a row may change\<close>

text \<open>
  A row keeps what identifies it, its sequence number does not fall, it changes only when the number rises, and a
  row that is over does not change at all. Nothing removes a row.
\<close>

definition row_advances :: "Job \<Rightarrow> Job \<Rightarrow> bool" where
  "row_advances r r' \<longleftrightarrow> ro_ID r' = ro_ID r \<and> ro_TenantID r' = ro_TenantID r \<and> ro_WorkflowID r' = ro_WorkflowID r \<and> ro_NodeID r' = ro_NodeID r
     \<and> ro_RuntimeID r' = ro_RuntimeID r \<and> ro_BackendRunID r' = ro_BackendRunID r \<and> ro_ObservedSeq r \<le> ro_ObservedSeq r'
     \<and> (ro_ObservedSeq r' = ro_ObservedSeq r \<longrightarrow> r' = r) \<and> (Job_Terminal r \<longrightarrow> r' = r)"

definition db_advances :: "job_db \<Rightarrow> job_db \<Rightarrow> bool" where
  "db_advances db db' \<longleftrightarrow> (\<forall>i r. map_of (db_jobs db) i = Some r \<longrightarrow> (\<exists>r'. map_of (db_jobs db') i = Some r' \<and> row_advances r r'))"

lemma row_advances_refl [simp]: "row_advances r r"
  by (simp add: row_advances_def)

lemma row_advances_trans: "row_advances a b \<Longrightarrow> row_advances b c \<Longrightarrow> row_advances a c"
  by (auto simp: row_advances_def)

lemma db_advances_refl [simp]: "db_advances db db"
  by (simp add: db_advances_def)

lemma db_advances_trans: "db_advances a b \<Longrightarrow> db_advances b c \<Longrightarrow> db_advances a c"
  unfolding db_advances_def by (meson row_advances_trans)

lemma CreateJob_advances: "db_advances db (snd (Service_CreateJob now wall p db))"
  by (auto simp: Service_CreateJob_def db_CreateJob_def db_GetJob_def db_advances_def Let_def split: option.splits if_splits)

lemma apply_update_advances: "\<not> Job_Terminal r \<Longrightarrow> ro_ObservedSeq r < ju_ObservedSeq u \<Longrightarrow> row_advances r (apply_update u r)"
  by (simp add: apply_update_def row_advances_def Let_def)

lemma UpdateJobState_advances: "db_advances db (snd (Service_UpdateJobState now t i p db))"
  using apply_update_advances
  by (auto simp: Service_UpdateJobState_def db_UpdateJobState_def db_GetJob_def db_advances_def split: option.splits if_splits)

lemma CreateJobArtifact_jobs [simp]: "db_jobs (snd (Service_CreateJobArtifact now wall p db)) = db_jobs db"
  by (auto simp: Service_CreateJobArtifact_def db_CreateJobArtifact_def Let_def split: option.splits)

lemma DeleteJobArtifact_jobs [simp]: "db_jobs (Service_DeleteJobArtifact i db) = db_jobs db"
  by (simp add: Service_DeleteJobArtifact_def db_DeleteJobArtifact_def)

end
