(* ===== verification/JobFleet.thy ===== *)
theory JobFleet
  imports JobStore JobRecords
begin

text \<open>
  Workflow runs across a deployment: Gateway replicas with their job tables, the loops and handlers that work on
  them (\<open>jobsync.go\<close>, \<open>jobpersist.go\<close>, \<open>jobrecover.go\<close>, \<open>jobs.go\<close>, \<open>jobevents.go\<close>,
  \<open>artifacts.go\<close>), the control plane's records, and the runs on the nodes. A goroutine is a task; each of
  its critical sections, its calls to the control plane and the moments at which it talks to a node are steps, in
  any interleaving with those of other tasks and other replicas.
\<close>


section \<open>Definitions\<close>

subsection \<open>Configuration\<close>

record loop_config =
  lc_Interval :: duration
  lc_BatchSize :: int
  lc_MaxBackoff :: duration

definition DefaultSyncInterval :: duration where "DefaultSyncInterval = 5 * second"
definition DefaultSyncBatchSize :: int where "DefaultSyncBatchSize = 200"
definition DefaultSyncMaxBackoff :: duration where "DefaultSyncMaxBackoff = 5 * minute"
definition DefaultPersistInterval :: duration where "DefaultPersistInterval = 5 * second"
definition DefaultPersistBatchSize :: int where "DefaultPersistBatchSize = 200"
definition DefaultPersistMaxBackoff :: duration where "DefaultPersistMaxBackoff = 5 * minute"

definition newJobSyncer :: "loop_config \<Rightarrow> loop_config" where
  "newJobSyncer c = \<lparr>lc_Interval = (if lc_Interval c \<le> 0 then DefaultSyncInterval else lc_Interval c),
     lc_BatchSize = (if lc_BatchSize c \<le> 0 then DefaultSyncBatchSize else lc_BatchSize c),
     lc_MaxBackoff = (if lc_MaxBackoff c \<le> 0 then DefaultSyncMaxBackoff else lc_MaxBackoff c)\<rparr>"

definition newJobPersister :: "loop_config \<Rightarrow> loop_config" where
  "newJobPersister c = \<lparr>lc_Interval = (if lc_Interval c \<le> 0 then DefaultPersistInterval else lc_Interval c),
     lc_BatchSize = (if lc_BatchSize c \<le> 0 then DefaultPersistBatchSize else lc_BatchSize c),
     lc_MaxBackoff = (if lc_MaxBackoff c \<le> 0 then DefaultPersistMaxBackoff else lc_MaxBackoff c)\<rparr>"

subsection \<open>Paths\<close>

text \<open>\<open>path.Join\<close>: the non-empty elements between slashes, in the shortest form.\<close>

fun split_slash :: "string \<Rightarrow> string list" where
  "split_slash [] = [[]]"
| "split_slash (c # s) = (if c = CHR ''/'' then [] # split_slash s else (case split_slash s of w # ws \<Rightarrow> (c # w) # ws | [] \<Rightarrow> [[c]]))"

fun join_slash :: "string list \<Rightarrow> string" where
  "join_slash [] = ''''"
| "join_slash [w] = w"
| "join_slash (w # v # ws) = w @ ''/'' @ join_slash (v # ws)"

definition path_Clean :: "string \<Rightarrow> string" where
  "path_Clean s = (if s = '''' then ''.'' else
     let rooted = (hd s = CHR ''/'');
         out = foldl (\<lambda>acc w. if w = '''' \<or> w = ''.'' then acc
           else if w = ''..'' then (if acc \<noteq> [] \<and> last acc \<noteq> ''..'' then butlast acc else if rooted then acc else acc @ [''..''])
           else acc @ [w]) [] (split_slash s)
     in if rooted then ''/'' @ join_slash out else if out = [] then ''.'' else join_slash out)"

definition path_Join :: "string list \<Rightarrow> string" where
  "path_Join ws = (let vs = filter (\<lambda>w. w \<noteq> '''') ws in if vs = [] then '''' else path_Clean (join_slash vs))"

subsection \<open>Tasks\<close>

text \<open>
  Handlers of client requests: \<open>jobStatus\<close> (\<open>Poll\<close>), \<open>jobEvents\<close> (\<open>Stream\<close>) and
  \<open>listArtifacts\<close> (\<open>List\<close>). Goroutines of the loops: \<open>syncOne\<close> (\<open>Sync\<close>),
  \<open>persistOne\<close> (\<open>Persist\<close>), \<open>persistArtifacts\<close> (\<open>Copy\<close>), \<open>recoverRoute\<close>
  (\<open>Recover\<close>). A task holds what the goroutine has in its variables at that point.
\<close>

record artifactCopy =
  ac_SHA256 :: string
  ac_ContentType :: string
  ac_StorageKey :: string
  ac_Size :: int

record copying =
  cy_ID :: string
  cy_TenantID :: string
  cy_Candidate :: candidate
  cy_RunID :: string
  cy_Rest :: "pendingArtifact list"
  cy_Failed :: bool

datatype task =
    PollAsk job
  | PollHave string WorkflowStatus
  | StreamOpen job
  | StreamHave string string
  | ListAsk job
  | ListHave string "ArtifactRef list"
  | SyncAsk syncCandidate
  | SyncHave string "WorkflowStatus option"
  | PersistStart string
  | PersistCreate job
  | PersistCreated string bool
  | PersistReread string
  | PersistUpdate job
  | PersistUpdated string int bool
  | CopyStart string
  | CopyNext copying
  | CopyCreate copying pendingArtifact artifactCopy
  | CopyStored copying pendingArtifact artifactCopy
  | CopyDone copying pendingArtifact
  | RecoverAsk candidate
  | RecoverHave "Job list"
  | Finished

record replica =
  rp_jobs :: jobStore
  rp_tasks :: "task list"

type_synonym run_key = "string \<times> string \<times> string"

definition route :: "candidate \<Rightarrow> string \<Rightarrow> run_key" where
  "route c rid = (NodeID c, RuntimeID c, rid)"

text \<open>
  \<open>fl_runs\<close> is what the backends on the nodes say of their runs, and \<open>fl_keys\<close> the runs that they remember
  under the idempotency keys of their submissions. \<open>fl_submitted\<close> remembers who submitted which job; no step reads it
  but to tell a new id from a used one. \<open>fl_said\<close> remembers all that the backends have said; no step reads it.
\<close>

record submission =
  su_TenantID :: string
  su_WorkflowID :: string
  su_Route :: run_key

record fleet =
  fl_sync :: loop_config
  fl_persist :: loop_config
  fl_storage :: bool
  fl_max :: int
  fl_replicas :: "replica list"
  fl_db :: job_db
  fl_runs :: "run_key \<Rightarrow> WorkflowStatus option"
  fl_keys :: "string \<times> string \<times> string \<Rightarrow> string option"
  fl_said :: "(run_key \<times> WorkflowStatus) list"
  fl_submitted :: "string \<Rightarrow> submission option"

definition new_replica :: "int \<Rightarrow> replica" where
  "new_replica n = \<lparr>rp_jobs = newJobStore n, rp_tasks = []\<rparr>"

definition new_fleet :: "nat \<Rightarrow> loop_config \<Rightarrow> loop_config \<Rightarrow> bool \<Rightarrow> int \<Rightarrow> fleet" where
  "new_fleet k sync persist storage n = \<lparr>fl_sync = newJobSyncer sync, fl_persist = newJobPersister persist, fl_storage = storage, fl_max = n,
     fl_replicas = replicate k (new_replica n), fl_db = empty_db, fl_runs = (\<lambda>_. None), fl_keys = (\<lambda>_. None), fl_said = [], fl_submitted = (\<lambda>_. None)\<rparr>"

definition status_pending :: WorkflowStatus where
  "status_pending = \<lparr>ws_State = WorkflowPending, ws_QueuePosition = 0, ws_StartedAt = None, ws_FinishedAt = None, ws_ErrorSummary = '''', ws_OutOfMemory = False\<rparr>"

definition status_of :: "string \<Rightarrow> WorkflowStatus" where
  "status_of state = \<lparr>ws_State = state, ws_QueuePosition = 0, ws_StartedAt = None, ws_FinishedAt = None, ws_ErrorSummary = '''', ws_OutOfMemory = False\<rparr>"

subsection \<open>Jobs made by the handlers\<close>

text \<open>The job that \<open>submitRun\<close> adds once a node has accepted the run.\<close>

definition submitted_job :: "string \<Rightarrow> string \<Rightarrow> string \<Rightarrow> string \<Rightarrow> candidate \<Rightarrow> string \<Rightarrow> go_time \<Rightarrow> job" where
  "submitted_job i workflow version tenant c rid now =
     \<lparr>jb_ID = i, jb_WorkflowID = workflow, jb_WorkflowVersion = version, jb_TenantID = tenant, jb_Candidate = c, jb_RunID = rid,
      jb_State = WorkflowPending, jb_QueuePosition = 0, jb_ErrorSummary = '''', jb_CreatedAt = now, jb_UpdatedAt = now, jb_artifactIDs = [],
      jb_syncFailures = 0, jb_nextSyncAt = 0, jb_ObservedSeq = 0, jb_persisted = False, jb_persistedSeq = 0, jb_persistFailures = 0,
      jb_nextPersistAt = 0, jb_pendingArtifacts = [], jb_artifactPersistFails = 0, jb_nextArtifactPersistAt = 0\<rparr>"

text \<open>The job that \<open>recoverRoute\<close> makes of a row. It does not copy the workflow's version.\<close>

definition recovered_job :: "go_time \<Rightarrow> Job \<Rightarrow> job" where
  "recovered_job now r =
     \<lparr>jb_ID = ro_ID r, jb_WorkflowID = ro_WorkflowID r, jb_WorkflowVersion = '''', jb_TenantID = ro_TenantID r,
      jb_Candidate = \<lparr>NodeID = ro_NodeID r, RuntimeID = ro_RuntimeID r, Kind = '''', Model = ''''\<rparr>, jb_RunID = ro_BackendRunID r,
      jb_State = ro_State r, jb_QueuePosition = 0, jb_ErrorSummary = ro_ErrorSummary r, jb_CreatedAt = ro_CreatedAt r, jb_UpdatedAt = ro_UpdatedAt r,
      jb_artifactIDs = [], jb_syncFailures = 0, jb_nextSyncAt = now, jb_ObservedSeq = ro_ObservedSeq r, jb_persisted = True,
      jb_persistedSeq = ro_ObservedSeq r, jb_persistFailures = 0, jb_nextPersistAt = now, jb_pendingArtifacts = [], jb_artifactPersistFails = 0,
      jb_nextArtifactPersistAt = 0\<rparr>"

text \<open>What the two calls of \<open>persistOne\<close> send.\<close>

definition create_params :: "job \<Rightarrow> CreateJobParams" where
  "create_params j = \<lparr>cp_JobID = jb_ID j, cp_TenantID = jb_TenantID j, cp_WorkflowID = jb_WorkflowID j, cp_WorkflowVersion = jb_WorkflowVersion j,
     cp_NodeID = NodeID (jb_Candidate j), cp_RuntimeID = RuntimeID (jb_Candidate j), cp_BackendRunID = jb_RunID j, cp_State = jb_State j, cp_ObservedSeq = 0\<rparr>"

definition update_params :: "job \<Rightarrow> UpdateJobStateParams" where
  "update_params j = \<lparr>up_State = jb_State j, up_ErrorSummary = jb_ErrorSummary j, up_ObservedSeq = jb_ObservedSeq j\<rparr>"

subsection \<open>Steps of a task\<close>

text \<open>A call reaches the control plane and is answered, or is lost on the way there, or its answer is lost.\<close>

datatype rpc = Answered | Lost | Unanswered

definition is_ok :: "'e + 'a \<Rightarrow> bool" where
  "is_ok r = (case r of Inl _ \<Rightarrow> False | Inr _ \<Rightarrow> True)"

text \<open>
  A task talks to a node: \<open>reached\<close> tells whether the node answered. A stream delivers the event that ends the
  run once the run is over; the other events change nothing here.
\<close>

fun task_ask :: "(run_key \<Rightarrow> WorkflowStatus option) \<Rightarrow> bool \<Rightarrow> task \<Rightarrow> task option" where
  "task_ask runs reached (PollAsk j) = Some (case runs (route (jb_Candidate j) (jb_RunID j)) of
     Some st \<Rightarrow> if reached then PollHave (jb_ID j) st else Finished | None \<Rightarrow> Finished)"
| "task_ask runs reached (SyncAsk c) = Some (case runs (route (sc_Candidate c) (sc_RunID c)) of
     Some st \<Rightarrow> SyncHave (sc_ID c) (if reached then Some st else None) | None \<Rightarrow> SyncHave (sc_ID c) None)"
| "task_ask runs reached (StreamOpen j) = (if \<not> reached then Some Finished else case runs (route (jb_Candidate j) (jb_RunID j)) of
     Some st \<Rightarrow> if jobTerminal (ws_State st) then Some (StreamHave (jb_ID j) (ws_State st)) else None | None \<Rightarrow> None)"
| "task_ask runs reached t = None"

text \<open>A task calls the control plane.\<close>

fun task_call :: "rpc \<Rightarrow> go_time \<Rightarrow> go_time \<Rightarrow> task \<Rightarrow> job_db \<Rightarrow> (task \<times> job_db) option" where
  "task_call out now wall (PersistCreate j) db = Some
     (case out of Lost \<Rightarrow> (PersistCreated (jb_ID j) False, db)
      | Unanswered \<Rightarrow> (PersistCreated (jb_ID j) False, snd (Service_CreateJob now wall (create_params j) db))
      | Answered \<Rightarrow> (case Service_CreateJob now wall (create_params j) db of (r, db') \<Rightarrow> (PersistCreated (jb_ID j) (is_ok r), db')))"
| "task_call out now wall (PersistUpdate j) db = Some
     (case out of Lost \<Rightarrow> (PersistUpdated (jb_ID j) (jb_ObservedSeq j) False, db)
      | Unanswered \<Rightarrow> (PersistUpdated (jb_ID j) (jb_ObservedSeq j) False, snd (Service_UpdateJobState now (jb_TenantID j) (jb_ID j) (update_params j) db))
      | Answered \<Rightarrow> (case Service_UpdateJobState now (jb_TenantID j) (jb_ID j) (update_params j) db of
          (r, db') \<Rightarrow> (PersistUpdated (jb_ID j) (jb_ObservedSeq j) (is_ok r), db')))"
| "task_call out now wall (CopyCreate y a cp) db =
     (let p = \<lparr>ap_ArtifactID = pa_ArtifactID a, ap_JobID = cy_ID y, ap_TenantID = cy_TenantID y, ap_Filename = pa_Filename a, ap_Subfolder = pa_Subfolder a,
            ap_Type = pa_Type a, ap_SHA256 = ac_SHA256 cp, ap_SizeBytes = ac_Size cp, ap_ContentType = ac_ContentType cp, ap_StorageKey = ac_StorageKey cp\<rparr>
      in Some (case out of Lost \<Rightarrow> (CopyNext (y\<lparr>cy_Failed := True\<rparr>), db)
          | Unanswered \<Rightarrow> (CopyNext (y\<lparr>cy_Failed := True\<rparr>), snd (Service_CreateJobArtifact now wall p db))
          | Answered \<Rightarrow> (case Service_CreateJobArtifact now wall p db of
              (r, db') \<Rightarrow> (if is_ok r then CopyStored y a cp else CopyNext (y\<lparr>cy_Failed := True\<rparr>), db'))))"
| "task_call out now wall (RecoverAsk c) db = Some
     (case out of Answered \<Rightarrow> RecoverHave (Service_ListActiveJobsForRoute (NodeID c) (RuntimeID c) db) | _ \<Rightarrow> Finished, db)"
| "task_call out now wall t db = None"

text \<open>
  A task works on the table of its replica, for one critical section. \<open>copied\<close> is what became of the copy of
  an artifact into object storage: its digest, content type and size.
\<close>

definition persist_next :: "job option \<Rightarrow> task" where
  "persist_next found = (case found of None \<Rightarrow> Finished | Some j \<Rightarrow> if needsPersist j then PersistUpdate j else Finished)"

fun task_note :: "loop_config \<Rightarrow> loop_config \<Rightarrow> bool \<Rightarrow> go_time \<Rightarrow> (string \<times> string \<times> int) option \<Rightarrow> (nat \<Rightarrow> string) \<Rightarrow> task \<Rightarrow> jobStore
    \<Rightarrow> (task \<times> jobStore) option" where
  "task_note sync persist storage now copied mint (PollHave i st) s = Some (Finished, store_update i st now s)"
| "task_note sync persist storage now copied mint (StreamHave i state) s = Some (Finished, store_update i (status_of state) now s)"
| "task_note sync persist storage now copied mint (ListHave i refs) s = Some (Finished, snd (recordArtifacts mint i refs s))"
| "task_note sync persist storage now copied mint (SyncHave i r) s = Some (Finished, (case r of
     Some st \<Rightarrow> syncSucceeded i st now s | None \<Rightarrow> syncFailed i now (backoff (lc_Interval sync) (lc_MaxBackoff sync)) s))"
| "task_note sync persist storage now copied mint (PersistStart i) s = Some
     ((case forPersist i s of None \<Rightarrow> Finished | Some j \<Rightarrow> if \<not> jb_persisted j then PersistCreate j else persist_next (Some j)), s)"
| "task_note sync persist storage now copied mint (PersistCreated i ok) s = Some
     (if ok then (PersistReread i, persistedCreate i now s) else (Finished, persistFailed i now (backoff (lc_Interval persist) (lc_MaxBackoff persist)) s))"
| "task_note sync persist storage now copied mint (PersistReread i) s = Some (persist_next (forPersist i s), s)"
| "task_note sync persist storage now copied mint (PersistUpdated i seq ok) s = Some
     (Finished, if ok then persistedState i seq now s else persistFailed i now (backoff (lc_Interval persist) (lc_MaxBackoff persist)) s)"
| "task_note sync persist storage now copied mint (CopyStart i) s = Some
     ((case artifactsForPersist i s of None \<Rightarrow> Finished
       | Some (tenant, c, rid, as) \<Rightarrow> CopyNext \<lparr>cy_ID = i, cy_TenantID = tenant, cy_Candidate = c, cy_RunID = rid, cy_Rest = as, cy_Failed = False\<rparr>), s)"
| "task_note sync persist storage now copied mint (CopyNext y) s = Some
     (case cy_Rest y of
        [] \<Rightarrow> (Finished, if cy_Failed y then artifactPersistFailed (cy_ID y) now (backoff (lc_Interval persist) (lc_MaxBackoff persist)) s else s)
      | a # rest \<Rightarrow> (let y' = y\<lparr>cy_Rest := rest\<rparr> in
          (if \<not> storage then CopyCreate y' a \<lparr>ac_SHA256 = '''', ac_ContentType = '''', ac_StorageKey = '''', ac_Size = 0\<rparr>
           else case copied of None \<Rightarrow> CopyNext (y'\<lparr>cy_Failed := True\<rparr>)
             | Some (sha, ct, n) \<Rightarrow> CopyCreate y' a
                 \<lparr>ac_SHA256 = sha, ac_ContentType = ct, ac_StorageKey = path_Join [cy_TenantID y, cy_ID y, pa_ArtifactID a], ac_Size = n\<rparr>, s)))"
| "task_note sync persist storage now copied mint (CopyStored y a cp) s = Some
     (CopyDone y a, if ac_StorageKey cp \<noteq> '''' then artifactStored (pa_ArtifactID a) (ac_StorageKey cp) (ac_ContentType cp) (ac_Size cp) s else s)"
| "task_note sync persist storage now copied mint (CopyDone y a) s = Some (CopyNext y, artifactPersisted (cy_ID y) (pa_ArtifactID a) s)"
| "task_note sync persist storage now copied mint (RecoverHave rows) s = Some
     (case rows of [] \<Rightarrow> (Finished, s) | r # rest \<Rightarrow> (RecoverHave rest, snd (recoverIfMissing (recovered_job now r) s)))"
| "task_note sync persist storage now copied mint t s = None"

subsection \<open>Steps of the fleet\<close>

fun persister_task :: "task \<Rightarrow> bool" where
  "persister_task (PersistStart _) = True"
| "persister_task (PersistCreate _) = True"
| "persister_task (PersistCreated _ _) = True"
| "persister_task (PersistReread _) = True"
| "persister_task (PersistUpdate _) = True"
| "persister_task (PersistUpdated _ _ _) = True"
| "persister_task (CopyStart _) = True"
| "persister_task (CopyNext _) = True"
| "persister_task (CopyCreate _ _ _) = True"
| "persister_task (CopyStored _ _ _) = True"
| "persister_task (CopyDone _ _) = True"
| "persister_task _ = False"

fun syncer_task :: "task \<Rightarrow> bool" where
  "syncer_task (SyncAsk _) = True"
| "syncer_task (SyncHave _ _) = True"
| "syncer_task _ = False"

fun recoverer_task :: "task \<Rightarrow> bool" where
  "recoverer_task (RecoverAsk _) = True"
| "recoverer_task (RecoverHave _) = True"
| "recoverer_task _ = False"

text \<open>A tick of a loop starts its goroutines and waits for all of them: the next one starts when none is left.\<close>

definition persist_tick :: "loop_config \<Rightarrow> go_time \<Rightarrow> replica \<Rightarrow> replica option" where
  "persist_tick cfg now r = (if list_ex persister_task (rp_tasks r) then None
     else let (due, s) = dueForPersist now (nat (lc_BatchSize cfg)) (lc_Interval cfg) (rp_jobs r);
              (arts, s') = dueForArtifactPersist now (nat (lc_BatchSize cfg)) (lc_Interval cfg) s
          in Some (r\<lparr>rp_jobs := s', rp_tasks := rp_tasks r @ map PersistStart due @ map CopyStart arts\<rparr>))"

definition sync_tick :: "loop_config \<Rightarrow> go_time \<Rightarrow> replica \<Rightarrow> replica option" where
  "sync_tick cfg now r = (if list_ex syncer_task (rp_tasks r) then None
     else let (due, s) = dueForSync now (nat (lc_BatchSize cfg)) (lc_Interval cfg) (rp_jobs r)
          in Some (r\<lparr>rp_jobs := s, rp_tasks := rp_tasks r @ map SyncAsk due\<rparr>))"

definition recover_tick :: "candidate list \<Rightarrow> replica \<Rightarrow> replica option" where
  "recover_tick cs r = (if list_ex recoverer_task (rp_tasks r) then None else Some (r\<lparr>rp_tasks := rp_tasks r @ map RecoverAsk cs\<rparr>))"

text \<open>A client asks for a job: another tenant's job is answered like one that does not exist, one that is over from the table.\<close>

definition client_asks :: "(job \<Rightarrow> task) \<Rightarrow> string \<Rightarrow> string \<Rightarrow> replica \<Rightarrow> replica option" where
  "client_asks mk i tenant r = (case store_get i tenant (rp_jobs r) of None \<Rightarrow> None
     | Some j \<Rightarrow> if job_terminal j then None else Some (r\<lparr>rp_tasks := rp_tasks r @ [mk j]\<rparr>))"

definition client_lists :: "string \<Rightarrow> string \<Rightarrow> replica \<Rightarrow> replica option" where
  "client_lists i tenant r = (case store_get i tenant (rp_jobs r) of None \<Rightarrow> None | Some j \<Rightarrow> Some (r\<lparr>rp_tasks := rp_tasks r @ [ListAsk j]\<rparr>))"

datatype fleet_event =
    Submit nat string string string string candidate string string go_time
  | RunMoves run_key WorkflowStatus
  | StatusRequest nat string string
  | EventsRequest nat string string
  | ArtifactsRequest nat string string
  | SyncTick nat go_time
  | PersistTick nat go_time
  | RecoverTick nat "candidate list"
  | Ask nat nat bool
  | Outputs nat nat "ArtifactRef list option"
  | Call nat nat rpc go_time go_time
  | Note nat nat go_time "(string \<times> string \<times> int) option" "nat \<Rightarrow> string"
  | Restart nat

definition with_replica :: "nat \<Rightarrow> (replica \<Rightarrow> replica option) \<Rightarrow> fleet \<Rightarrow> fleet option" where
  "with_replica r f s = (if r < length (fl_replicas s) then map_option (\<lambda>x. s\<lparr>fl_replicas := (fl_replicas s)[r := x]\<rparr>) (f (fl_replicas s ! r)) else None)"

definition with_task :: "nat \<Rightarrow> (task \<Rightarrow> replica \<Rightarrow> (task \<times> replica) option) \<Rightarrow> replica \<Rightarrow> replica option" where
  "with_task k f r = (if k < length (rp_tasks r) then map_option (\<lambda>(t, x). x\<lparr>rp_tasks := (rp_tasks r)[k := t]\<rparr>) (f (rp_tasks r ! k) r) else None)"

text \<open>
  The backend's side of a submission. It answers with the run that it remembers for the idempotency key, whoever sent
  the key before, or with a new one, which it remembers under the key. It may forget keys, and two submissions with the
  same key may both find nothing.
\<close>

definition backend_submit :: "candidate \<Rightarrow> string \<Rightarrow> string \<Rightarrow> fleet \<Rightarrow> fleet option" where
  "backend_submit c key rid s =
     (if key \<noteq> '''' \<and> fl_keys s (NodeID c, RuntimeID c, key) = Some rid \<and> fl_runs s (route c rid) \<noteq> None then Some s
      else if fl_runs s (route c rid) \<noteq> None then None
      else Some (s\<lparr>fl_runs := (fl_runs s)(route c rid \<mapsto> status_pending),
             fl_keys := (if key = '''' then fl_keys s else (fl_keys s)((NodeID c, RuntimeID c, key) \<mapsto> rid))\<rparr>))"

text \<open>
  A backend may say anything of its runs at any time. A finished run, too, can be reported otherwise later: a ComfyUI
  server that was restarted has forgotten its runs, and each of them is reported as failed from then on.
\<close>

fun fleet_next :: "fleet_event \<Rightarrow> fleet \<Rightarrow> fleet option" where
  "fleet_next (Submit r i tenant workflow version c key rid now) s =
     (if fl_submitted s i \<noteq> None then None
      else case backend_submit c key rid s of None \<Rightarrow> None
        | Some s' \<Rightarrow> with_replica r (\<lambda>x. Some (x\<lparr>rp_jobs := store_add (submitted_job i workflow version tenant c rid now) (rp_jobs x)\<rparr>))
            (s'\<lparr>fl_submitted := (fl_submitted s)(i \<mapsto> \<lparr>su_TenantID = tenant, su_WorkflowID = workflow, su_Route = route c rid\<rparr>)\<rparr>))"
| "fleet_next (RunMoves k st) s = (case fl_runs s k of None \<Rightarrow> None
     | Some old \<Rightarrow> Some (s\<lparr>fl_runs := (fl_runs s)(k \<mapsto> st), fl_said := fl_said s @ [(k, st)]\<rparr>))"
| "fleet_next (StatusRequest r i tenant) s = with_replica r (client_asks PollAsk i tenant) s"
| "fleet_next (EventsRequest r i tenant) s = with_replica r (client_asks StreamOpen i tenant) s"
| "fleet_next (ArtifactsRequest r i tenant) s = with_replica r (client_lists i tenant) s"
| "fleet_next (SyncTick r now) s = with_replica r (sync_tick (fl_sync s) now) s"
| "fleet_next (PersistTick r now) s = with_replica r (persist_tick (fl_persist s) now) s"
| "fleet_next (RecoverTick r cs) s = with_replica r (recover_tick cs) s"
| "fleet_next (Ask r k reached) s = with_replica r (with_task k (\<lambda>t x. map_option (\<lambda>t'. (t', x)) (task_ask (fl_runs s) reached t))) s"
| "fleet_next (Outputs r k refs) s = with_replica r (with_task k (\<lambda>t x. case t of
     ListAsk j \<Rightarrow> Some (case refs of None \<Rightarrow> Finished | Some rs \<Rightarrow> ListHave (jb_ID j) rs, x) | _ \<Rightarrow> None)) s"
| "fleet_next (Call r k out now wall) s =
     (if r < length (fl_replicas s) \<and> k < length (rp_tasks (fl_replicas s ! r))
      then (case task_call out now wall (rp_tasks (fl_replicas s ! r) ! k) (fl_db s) of None \<Rightarrow> None
        | Some (t, db) \<Rightarrow> with_replica r (with_task k (\<lambda>_ x. Some (t, x))) (s\<lparr>fl_db := db\<rparr>))
      else None)"
| "fleet_next (Note r k now copied mint) s = with_replica r (with_task k (\<lambda>t x.
     map_option (\<lambda>(t', js). (t', x\<lparr>rp_jobs := js\<rparr>)) (task_note (fl_sync s) (fl_persist s) (fl_storage s) now copied mint t (rp_jobs x)))) s"
| "fleet_next (Restart r) s = with_replica r (\<lambda>x. Some (new_replica (fl_max s))) s"

text \<open>Ids that a listing draws are new to the replica that draws them.\<close>

fun new_ids :: "fleet_event \<Rightarrow> fleet \<Rightarrow> bool" where
  "new_ids (Note r k now copied mint) s \<longleftrightarrow> (case rp_tasks (fl_replicas s ! r) ! k of ListHave _ _ \<Rightarrow> fresh_mint mint (rp_jobs (fl_replicas s ! r)) | _ \<Rightarrow> True)"
| "new_ids _ s \<longleftrightarrow> True"

inductive fleet_step :: "fleet \<Rightarrow> fleet_event \<Rightarrow> fleet \<Rightarrow> bool" where
  fleet_step: "fleet_next e s = Some t \<Longrightarrow> new_ids e s \<Longrightarrow> fleet_step s e t"

inductive_cases fleet_stepE: "fleet_step s e t"

subsection \<open>Downloads\<close>

text \<open>
  Where \<open>downloadArtifact\<close> finds an artifact: in the replica's table, or by \<open>recoverArtifactRoute\<close> from
  the control plane.
\<close>

definition recoverArtifactRoute :: "string \<Rightarrow> string \<Rightarrow> job_db \<Rightarrow> artifactRecord option" where
  "recoverArtifactRoute artifactID tenantID db = (case Service_GetArtifactRoute tenantID artifactID db of Inl _ \<Rightarrow> None
     | Inr (a, j) \<Rightarrow> Some \<lparr>af_JobID = ja_JobID a, af_TenantID = ja_TenantID a,
         af_Candidate = \<lparr>NodeID = ro_NodeID j, RuntimeID = ro_RuntimeID j, Kind = '''', Model = ''''\<rparr>,
         af_Ref = \<lparr>ar_RunID = '''', ar_Filename = ja_Filename a, ar_Subfolder = ja_Subfolder a, ar_Type = ja_Type a\<rparr>,
         af_StorageKey = ja_StorageKey a, af_ContentType = ja_ContentType a, af_Size = ja_SizeBytes a\<rparr>)"

definition find_artifact :: "string \<Rightarrow> string \<Rightarrow> replica \<Rightarrow> job_db \<Rightarrow> artifactRecord option" where
  "find_artifact artifactID tenantID r db = (case store_artifact artifactID tenantID (rp_jobs r) of Some rec \<Rightarrow> Some rec
     | None \<Rightarrow> recoverArtifactRoute artifactID tenantID db)"

end
