(* ===== verification/JobTraces.thy ===== *)
theory JobTraces
  imports JobFleet
begin

text \<open>
  Concrete histories of workflow runs, run by \<open>fleet_next\<close>: one job, its replicas and what is said of it in
  the end.
\<close>


section \<open>Running a sequence of events\<close>

text \<open>Steps that draw no ids.\<close>

fun draws_no_id :: "fleet_event \<Rightarrow> fleet \<Rightarrow> bool" where
  "draws_no_id (Note r k now copied mint) f = (case rp_tasks (fl_replicas f ! r) ! k of ListHave _ _ \<Rightarrow> False | _ \<Rightarrow> True)"
| "draws_no_id _ f = True"

primrec fleet_trace :: "fleet_event list \<Rightarrow> fleet \<Rightarrow> fleet option" where
  "fleet_trace [] f = Some f"
| "fleet_trace (e # es) f = (if draws_no_id e f then (case fleet_next e f of None \<Rightarrow> None | Some g \<Rightarrow> fleet_trace es g) else None)"

lemma draws_no_id_new: "draws_no_id e f \<Longrightarrow> new_ids e f"
  by (cases e) (auto split: task.splits)

lemma fleet_trace_run: "fleet_trace es f = Some g \<Longrightarrow> run fleet_step f es g"
proof (induction es arbitrary: f)
  case (Cons e es)
  then obtain h where "fleet_step f e h" "run fleet_step h es g"
    by (auto split: option.splits if_splits intro: fleet_step.intros draws_no_id_new)
  then show ?case using run_append [of fleet_step f "[e]" h es g] run_snoc [OF run_Nil, of fleet_step f e h] by simp
qed (simp add: run_Nil)


section \<open>Histories\<close>

definition cand_a :: candidate where
  "cand_a = \<lparr>NodeID = ''n'', RuntimeID = ''c'', Kind = ''comfyui'', Model = ''''\<rparr>"

definition key_a :: run_key where
  "key_a = route cand_a ''run''"

definition config_a :: loop_config where
  "config_a = \<lparr>lc_Interval = 5, lc_BatchSize = 200, lc_MaxBackoff = 40\<rparr>"

definition fleet_a :: "nat \<Rightarrow> fleet" where
  "fleet_a k = new_fleet k config_a config_a False 100"

definition now_says :: "string \<Rightarrow> string \<Rightarrow> fleet_event" where
  "now_says state summary = RunMoves key_a ((status_of state)\<lparr>ws_ErrorSummary := summary\<rparr>)"

definition works :: "nat \<Rightarrow> nat \<Rightarrow> go_time \<Rightarrow> fleet_event" where
  "works r k now = Note r k now None (\<lambda>_. '''')"

definition submit_a :: "fleet_event list" where
  "submit_a = [Submit 0 ''j'' ''t'' ''w'' ''v'' cand_a '''' ''run'' 10]"

text \<open>One round of the persister for a job that has no row, and for one that has; one round of the syncer.\<close>

definition creates :: "nat \<Rightarrow> nat \<Rightarrow> go_time \<Rightarrow> fleet_event list" where
  "creates r k now = [PersistTick r now, works r k now, Call r k Answered now now, works r k now, works r k now]"

definition updates :: "nat \<Rightarrow> nat \<Rightarrow> go_time \<Rightarrow> fleet_event list" where
  "updates r k now = [PersistTick r now, works r k now, Call r k Answered now now, works r k now]"

definition syncs :: "nat \<Rightarrow> nat \<Rightarrow> go_time \<Rightarrow> fleet_event list" where
  "syncs r k now = [SyncTick r now, Ask r k True, works r k now]"

definition persisted_a :: "fleet_event list" where
  "persisted_a = submit_a @ creates 0 0 20"

text \<open>A run fails before its job was persisted.\<close>

definition early_failure :: "fleet_event list" where
  "early_failure = submit_a @ [now_says WorkflowFailed ''out of memory''] @ syncs 0 0 20 @ creates 0 1 30 @ [Call 0 1 Answered 31 31, works 0 1 32]"

text \<open>A client's poll is answered while the run goes on, and applied after the run is known to be over.\<close>

definition stale_poll :: "fleet_event list" where
  "stale_poll = submit_a @ [now_says WorkflowRunning '''', StatusRequest 0 ''j'' ''t'', Ask 0 0 True, now_says WorkflowSucceeded '''']
     @ syncs 0 1 20 @ [works 0 0 21]"

text \<open>A client watches the events of a run that fails, and another polls it.\<close>

definition watched_failure :: "fleet_event list" where
  "watched_failure = submit_a @ [EventsRequest 0 ''j'' ''t'', now_says WorkflowFailed ''out of memory'', StatusRequest 0 ''j'' ''t'', Ask 0 1 True, works 0 1 20,
     Ask 0 0 True, works 0 0 21]"

text \<open>Two replicas observe the same run; then the first one restarts.\<close>

definition two_replicas :: "fleet_event list" where
  "two_replicas = persisted_a @ [RecoverTick 1 [cand_a], Call 1 0 Answered 30 30, works 1 0 30, works 1 0 30, now_says WorkflowRunning '''']
     @ syncs 0 1 40 @ updates 0 2 50 @ [now_says WorkflowSucceeded ''''] @ syncs 1 1 60 @ updates 1 2 70 @ [Restart 0]"

text \<open>Two tenants submit different workflows with the same idempotency key.\<close>

definition shared_key :: "fleet_event list" where
  "shared_key = [Submit 0 ''j'' ''t'' ''w'' ''v'' cand_a ''key'' ''run'' 10, Submit 0 ''i'' ''u'' ''x'' ''v'' cand_a ''key'' ''run'' 11,
     now_says WorkflowSucceeded '''', StatusRequest 0 ''i'' ''u'', Ask 0 0 True, works 0 0 20]"

definition observe_fleet :: "nat \<Rightarrow> fleet_event list \<Rightarrow> (fleet \<Rightarrow> 'a) \<Rightarrow> 'a option" where
  "observe_fleet k es h = map_option h (fleet_trace es (fleet_a k))"

definition row_seen :: "fleet \<Rightarrow> (string \<times> string \<times> int \<times> go_time option) option" where
  "row_seen f = map_option (\<lambda>r. (ro_State r, ro_ErrorSummary r, ro_ObservedSeq r, ro_TerminalAt r)) (map_of (db_jobs (fl_db f)) ''j'')"

definition job_seen :: "nat \<Rightarrow> fleet \<Rightarrow> (string \<times> string \<times> int \<times> int \<times> bool) option" where
  "job_seen r f = map_option (\<lambda>j. (jb_State j, jb_ErrorSummary j, jb_ObservedSeq j, jb_persistedSeq j, jb_persisted j))
     (map_of (js_byID (rp_jobs (fl_replicas f ! r))) ''j'')"

lemma job_histories:
  "observe_fleet 1 persisted_a (\<lambda>f. (row_seen f, job_seen 0 f, map_option jb_TenantID (store_get ''j'' ''t'' (rp_jobs (fl_replicas f ! 0)))))
       = Some (Some (''pending'', '''', 0, None), Some (''pending'', '''', 0, 0, True), Some ''t'')
   \<and> observe_fleet 1 early_failure (\<lambda>f. (row_seen f, job_seen 0 f)) = Some (Some (''failed'', '''', 0, None), Some (''failed'', ''out of memory'', 1, 1, True))
   \<and> observe_fleet 1 stale_poll (\<lambda>f. (job_seen 0 f, map_option ws_State (fl_runs f key_a))) = Some (Some (''running'', '''', 2, 0, False), Some ''succeeded'')
   \<and> observe_fleet 1 (stale_poll @ syncs 0 2 60) (\<lambda>f. (job_seen 0 f, map fst (js_finished (rp_jobs (fl_replicas f ! 0)))))
       = Some (Some (''succeeded'', '''', 3, 0, False), [''succeeded'', ''succeeded''])
   \<and> observe_fleet 1 watched_failure (\<lambda>f. (job_seen 0 f, map_option ws_ErrorSummary (fl_runs f key_a))) = Some (Some (''failed'', '''', 2, 0, False), Some ''out of memory'')
   \<and> observe_fleet 2 two_replicas (\<lambda>f. (row_seen f, job_seen 0 f, job_seen 1 f)) = Some (Some (''running'', '''', 1, None), None, Some (''succeeded'', '''', 1, 1, True))"
  by code_simp

definition bound_seen :: "string \<Rightarrow> string \<Rightarrow> fleet \<Rightarrow> (string \<times> run_key \<times> string) option" where
  "bound_seen i tenant f = map_option (\<lambda>j. (jb_WorkflowID j, route (jb_Candidate j) (jb_RunID j), jb_State j)) (store_get i tenant (rp_jobs (fl_replicas f ! 0)))"

lemma shared_history:
  "observe_fleet 1 shared_key (\<lambda>f. (bound_seen ''j'' ''t'' f, bound_seen ''i'' ''u'' f, map_option ws_State (fl_runs f key_a)))
     = Some (Some (''w'', key_a, ''pending''), Some (''x'', key_a, ''succeeded''), Some ''succeeded'')"
  by code_simp

lemma observe_run: "observe_fleet k es h = Some v \<Longrightarrow> \<exists>f. run fleet_step (fleet_a k) es f \<and> h f = v"
  using fleet_trace_run by (auto simp: observe_fleet_def)

end
