(* ===== verification/JobSafety.thy ===== *)
theory JobSafety
  imports JobTraces
begin

text \<open>
  What holds in every history of a deployment, with any number of replicas, lost calls and restarts: job tables
  stay well formed, a job is known by one tenant and one run only, a run that is said to be over was reported so
  by its node, and a job that is said to be persisted has its row.
\<close>


section \<open>What is known\<close>

definition ended :: "fleet \<Rightarrow> string \<Rightarrow> string \<Rightarrow> bool" where
  "ended f i state \<longleftrightarrow> (\<exists>sub st. fl_submitted f i = Some sub \<and> (su_Route sub, st) \<in> set (fl_said f) \<and> ws_State st = state)"

definition honest :: "fleet \<Rightarrow> string \<Rightarrow> string \<Rightarrow> bool" where
  "honest f i state \<longleftrightarrow> (jobTerminal state \<longrightarrow> ended f i state)"

definition has_row :: "fleet \<Rightarrow> string \<Rightarrow> bool" where
  "has_row f i \<longleftrightarrow> map_of (db_jobs (fl_db f)) i \<noteq> None"

definition job_known :: "fleet \<Rightarrow> job \<Rightarrow> bool" where
  "job_known f j \<longleftrightarrow> fl_submitted f (jb_ID j) = Some \<lparr>su_TenantID = jb_TenantID j, su_WorkflowID = jb_WorkflowID j, su_Route = route (jb_Candidate j) (jb_RunID j)\<rparr>
     \<and> honest f (jb_ID j) (jb_State j) \<and> (jb_persisted j \<longrightarrow> has_row f (jb_ID j))"

definition row_known :: "fleet \<Rightarrow> Job \<Rightarrow> bool" where
  "row_known f r \<longleftrightarrow> fl_submitted f (ro_ID r) = Some \<lparr>su_TenantID = ro_TenantID r, su_WorkflowID = ro_WorkflowID r, su_Route = (ro_NodeID r, ro_RuntimeID r, ro_BackendRunID r)\<rparr>
     \<and> honest f (ro_ID r) (ro_State r) \<and> has_row f (ro_ID r)"

definition owned :: "fleet \<Rightarrow> string \<Rightarrow> string \<Rightarrow> bool" where
  "owned f i tenant \<longleftrightarrow> (\<exists>sub. fl_submitted f i = Some sub \<and> su_TenantID sub = tenant)"

fun task_known :: "fleet \<Rightarrow> task \<Rightarrow> bool" where
  "task_known f (PollAsk j) = job_known f j"
| "task_known f (PollHave i st) = honest f i (ws_State st)"
| "task_known f (StreamOpen j) = job_known f j"
| "task_known f (StreamHave i state) = honest f i state"
| "task_known f (SyncAsk c) = (\<exists>sub. fl_submitted f (sc_ID c) = Some sub \<and> su_Route sub = route (sc_Candidate c) (sc_RunID c))"
| "task_known f (SyncHave i r) = (case r of None \<Rightarrow> True | Some st \<Rightarrow> honest f i (ws_State st))"
| "task_known f (PersistCreate j) = job_known f j"
| "task_known f (PersistCreated i ok) = (ok \<longrightarrow> has_row f i)"
| "task_known f (PersistUpdate j) = job_known f j"
| "task_known f (CopyNext y) = owned f (cy_ID y) (cy_TenantID y)"
| "task_known f (CopyCreate y a c) = owned f (cy_ID y) (cy_TenantID y)"
| "task_known f (CopyStored y a c) = owned f (cy_ID y) (cy_TenantID y)"
| "task_known f (CopyDone y a) = owned f (cy_ID y) (cy_TenantID y)"
| "task_known f (RecoverHave rows) = (\<forall>r \<in> set rows. row_known f r)"
| "task_known f t = True"

definition jobs_known :: "fleet \<Rightarrow> jobStore \<Rightarrow> bool" where
  "jobs_known f s \<longleftrightarrow> (\<forall>i j. map_of (js_byID s) i = Some j \<longrightarrow> job_known f j)"

definition replica_ok :: "fleet \<Rightarrow> replica \<Rightarrow> bool" where
  "replica_ok f x \<longleftrightarrow> table_ok (rp_jobs x) \<and> jobs_known f (rp_jobs x) \<and> (\<forall>t \<in> set (rp_tasks x). task_known f t)"

definition runs_said :: "fleet \<Rightarrow> bool" where
  "runs_said f \<longleftrightarrow> (\<forall>k st. fl_runs f k = Some st \<and> jobTerminal (ws_State st) \<longrightarrow> (k, st) \<in> set (fl_said f))"

lemma runs_said_updates [simp]: "runs_said (f\<lparr>fl_db := db\<rparr>) = runs_said f" "runs_said (f\<lparr>fl_replicas := xs\<rparr>) = runs_said f"
  by (simp_all add: runs_said_def)

lemma runs_said_moves: "runs_said f \<Longrightarrow> runs_said (f\<lparr>fl_runs := (fl_runs f)(k \<mapsto> st), fl_said := fl_said f @ [(k, st)]\<rparr>)"
  by (simp add: runs_said_def)

definition db_ok :: "fleet \<Rightarrow> bool" where
  "db_ok f \<longleftrightarrow> wf_map (db_jobs (fl_db f)) \<and> (\<forall>i r. map_of (db_jobs (fl_db f)) i = Some r \<longrightarrow> ro_ID r = i \<and> row_known f r)
     \<and> (\<forall>i a. map_of (db_artifacts (fl_db f)) i = Some a \<longrightarrow> owned f (ja_JobID a) (ja_TenantID a))
     \<and> runs_said f"

definition fleet_ok :: "fleet \<Rightarrow> bool" where
  "fleet_ok f \<longleftrightarrow> (\<forall>x \<in> set (fl_replicas f). replica_ok f x) \<and> db_ok f"

text \<open>What is known stays known when ids are added, rows advance and the backends say more.\<close>

definition grows :: "fleet \<Rightarrow> fleet \<Rightarrow> bool" where
  "grows f g \<longleftrightarrow> fl_submitted f \<subseteq>\<^sub>m fl_submitted g \<and> db_advances (fl_db f) (fl_db g)
     \<and> set (fl_said f) \<subseteq> set (fl_said g)"

lemma grows_submitted: "grows f g \<Longrightarrow> fl_submitted f i = Some sub \<Longrightarrow> fl_submitted g i = Some sub"
  by (simp add: grows_def map_le_def) (metis domI)

lemma grows_said: "grows f g \<Longrightarrow> (k, st) \<in> set (fl_said f) \<Longrightarrow> (k, st) \<in> set (fl_said g)"
  unfolding grows_def by blast

lemma grows_honest:
  assumes "grows f g" "honest f i state"
  shows "honest g i state"
  using assms(2) grows_submitted [OF assms(1)] grows_said [OF assms(1)] unfolding honest_def ended_def by blast

lemma db_ok_said: "db_ok f \<Longrightarrow> fl_runs f k = Some st \<Longrightarrow> jobTerminal (ws_State st) \<Longrightarrow> (k, st) \<in> set (fl_said f)"
  unfolding db_ok_def runs_said_def by blast

lemma grows_row: "grows f g \<Longrightarrow> has_row f i \<Longrightarrow> has_row g i"
  by (fastforce simp: grows_def has_row_def db_advances_def)

lemma grows_job: "grows f g \<Longrightarrow> job_known f j \<Longrightarrow> job_known g j"
  by (auto simp: job_known_def dest: grows_submitted grows_honest grows_row)

lemma grows_row_known: "grows f g \<Longrightarrow> row_known f r \<Longrightarrow> row_known g r"
  by (auto simp: row_known_def dest: grows_submitted grows_honest grows_row)

lemma grows_owned: "grows f g \<Longrightarrow> owned f i t \<Longrightarrow> owned g i t"
  by (auto simp: owned_def dest: grows_submitted)

lemma grows_task:
  assumes "grows f g"
  shows "task_known f t \<Longrightarrow> task_known g t"
  using assms by (cases t) (auto intro: grows_honest grows_row grows_job grows_row_known grows_owned dest: grows_submitted split: option.splits)

lemma grows_replica: "grows f g \<Longrightarrow> replica_ok f x \<Longrightarrow> replica_ok g x"
  by (auto simp: replica_ok_def jobs_known_def intro: grows_job grows_task)

lemma grows_refl [simp]: "grows f f"
  by (simp add: grows_def)

lemma known_replicas [simp]:
  "job_known (f\<lparr>fl_replicas := xs\<rparr>) = job_known f" "row_known (f\<lparr>fl_replicas := xs\<rparr>) = row_known f" "task_known (f\<lparr>fl_replicas := xs\<rparr>) t = task_known f t"
  "replica_ok (f\<lparr>fl_replicas := xs\<rparr>) x = replica_ok f x" "db_ok (f\<lparr>fl_replicas := xs\<rparr>) = db_ok f"
proof -
  have g: "grows f (f\<lparr>fl_replicas := xs\<rparr>)" "grows (f\<lparr>fl_replicas := xs\<rparr>) f" by (simp_all add: grows_def)
  show "job_known (f\<lparr>fl_replicas := xs\<rparr>) = job_known f" "row_known (f\<lparr>fl_replicas := xs\<rparr>) = row_known f" "task_known (f\<lparr>fl_replicas := xs\<rparr>) t = task_known f t"
    "replica_ok (f\<lparr>fl_replicas := xs\<rparr>) x = replica_ok f x"
    using grows_job [OF g(1)] grows_job [OF g(2)] grows_row_known [OF g(1)] grows_row_known [OF g(2)] grows_task [OF g(1)] grows_task [OF g(2)]
      grows_replica [OF g(1)] grows_replica [OF g(2)] by blast+
  then show "db_ok (f\<lparr>fl_replicas := xs\<rparr>) = db_ok f" by (simp add: db_ok_def owned_def)
qed

lemma fleet_ok_replica: "fleet_ok f \<Longrightarrow> replica_ok f x \<Longrightarrow> fleet_ok (f\<lparr>fl_replicas := (fl_replicas f)[r := x]\<rparr>)"
  unfolding fleet_ok_def by (auto dest!: set_update_subset_insert [THEN subsetD])

lemma with_replica_ok:
  assumes "with_replica r h f = Some g" "fleet_ok f" "\<And>x x'. replica_ok f x \<Longrightarrow> h x = Some x' \<Longrightarrow> x \<in> set (fl_replicas f) \<Longrightarrow> replica_ok f x'"
  shows "fleet_ok g"
proof -
  obtain x' where x': "r < length (fl_replicas f)" "h (fl_replicas f ! r) = Some x'" "g = f\<lparr>fl_replicas := (fl_replicas f)[r := x']\<rparr>"
    using assms(1) by (auto simp: with_replica_def split: if_splits)
  then have "replica_ok f x'" using assms(2,3) by (auto simp: fleet_ok_def)
  then show ?thesis using assms(2) x'(3) fleet_ok_replica by simp
qed

lemma with_task_ok:
  assumes "with_task k h x = Some x'" "replica_ok f x"
    "\<And>t t' y. task_known f t \<Longrightarrow> h t x = Some (t', y) \<Longrightarrow> table_ok (rp_jobs y) \<and> jobs_known f (rp_jobs y) \<and> task_known f t'"
  shows "replica_ok f x'"
proof -
  obtain t' y where y: "k < length (rp_tasks x)" "h (rp_tasks x ! k) x = Some (t', y)" "x' = y\<lparr>rp_tasks := (rp_tasks x)[k := t']\<rparr>"
    using assms(1) by (auto simp: with_task_def split: if_splits)
  have "task_known f (rp_tasks x ! k)" using assms(2) y(1) by (simp add: replica_ok_def)
  then have "table_ok (rp_jobs y)" "jobs_known f (rp_jobs y)" "task_known f t'" using assms(3) y(2) by blast+
  then show ?thesis using assms(2) y(3) by (auto simp: replica_ok_def dest!: set_update_subset_insert [THEN subsetD])
qed

lemma task_step_ok:
  assumes "with_task k h x = Some x'" "replica_ok f x" "\<And>t t' y. task_known f t \<Longrightarrow> h t x = Some (t', y) \<Longrightarrow> y = x \<and> task_known f t'"
  shows "replica_ok f x'"
  by (rule with_task_ok [OF assms(1,2)]) (use assms(2,3) in \<open>simp_all add: replica_ok_def, metis+\<close>)


section \<open>The methods of the table\<close>

lemma put_job_known: "jobs_known f s \<Longrightarrow> (\<And>j. map_of (js_byID s) i = Some j \<Longrightarrow> job_known f j \<Longrightarrow> job_known f (g j)) \<Longrightarrow> jobs_known f (put_job i g s)"
  by (auto simp: jobs_known_def put_job_def split: option.splits)

lemma put_same_known:
  assumes "jobs_known f s" "\<And>j. same_job j (g j) \<and> jb_State (g j) = jb_State j \<and> jb_persisted (g j) = jb_persisted j"
  shows "jobs_known f (put_job i g s)"
  using assms by (intro put_job_known) (auto simp: job_known_def same_job_def)

lemma claim_known:
  assumes "jobs_known f s" "\<And>j. same_job j (g j) \<and> jb_State (g j) = jb_State j \<and> jb_persisted (g j) = jb_persisted j"
  shows "jobs_known f (claim g as s)"
  using assms(1) unfolding claim_def by (induction as arbitrary: s) (simp_all add: put_same_known assms(2))

lemma table_ID: "table_ok s \<Longrightarrow> map_of (js_byID s) i = Some j \<Longrightarrow> jb_ID j = i"
  using linkedD [of "map_of (js_byID s)" "js_artifacts s" i j] by (auto simp: table_ok_def filed_def linked_job_def)

lemma store_update_known:
  assumes "jobs_known f s" "table_ok s" "honest f i (ws_State st)"
  shows "jobs_known f (store_update i st now s)"
proof -
  have "jobs_known f (put_job i (observe st now) s)"
    using assms table_ID [OF assms(2)] by (intro put_job_known) (auto simp: job_known_def observe_def)
  then show ?thesis by (subst store_update_eq) (simp add: jobs_known_def)
qed

lemma evict_sub: "map_of (js_byID (evict_excess s)) \<subseteq>\<^sub>m map_of (js_byID s)"
proof (induction s rule: evict_excess.induct)
  case (1 s)
  have e: "map_of (js_byID (evictLocked i s)) \<subseteq>\<^sub>m map_of (js_byID s)" for i s
    by (auto simp: evictLocked_def map_le_def delete_conv' split: option.splits)
  show ?case
  proof (cases "js_order s")
    case (Cons oldest rest)
    have "map_of (js_byID (evictLocked oldest (s\<lparr>js_order := rest, js_evicted := True\<rparr>))) \<subseteq>\<^sub>m map_of (js_byID s)" using e [of oldest "s\<lparr>js_order := rest, js_evicted := True\<rparr>"] by simp
    then show ?thesis using 1 Cons by (subst evict_excess.simps) (auto intro: map_le_trans)
  qed (simp add: evict_excess.simps)
qed

lemma insertLocked_known:
  assumes "jobs_known f s" "job_known f j"
  shows "jobs_known f (insertLocked j s)"
proof -
  have "map_of (js_byID (insertLocked j s)) \<subseteq>\<^sub>m (map_of (js_byID s))(jb_ID j \<mapsto> j)"
    using evict_sub [of "s\<lparr>js_byID := AList.update (jb_ID j) j (js_byID s), js_order := js_order s @ [jb_ID j]\<rparr>"] by (simp add: insertLocked_def)
  then have "map_of (js_byID (insertLocked j s)) i = Some k \<Longrightarrow> ((map_of (js_byID s))(jb_ID j \<mapsto> j)) i = Some k" for i k by (metis domI map_le_def)
  then show ?thesis using assms unfolding jobs_known_def by (metis fun_upd_apply option.inject)
qed

lemma record_refs_frame:
  "record_refs mint k refs j arts = (as, j', arts') \<Longrightarrow> same_job j j' \<and> jb_State j' = jb_State j \<and> jb_persisted j' = jb_persisted j"
proof (induction refs arbitrary: k j arts as)
  case (Cons ref refs)
  show ?case
  proof (cases "map_of (jb_artifactIDs j) ref")
    case None
    then show ?thesis using Cons unfolding record_refs_Cons
      by (auto simp: Let_def same_job_def name_ref_def split: prod.splits dest!: Cons.IH)
  next
    case (Some a)
    then show ?thesis using Cons unfolding record_refs_Cons by (auto simp: Let_def same_job_def split: prod.splits dest!: Cons.IH)
  qed
qed (simp add: same_job_def)

lemma recordArtifacts_known:
  assumes "jobs_known f s"
  shows "jobs_known f (snd (recordArtifacts mint i refs s))"
proof (cases "map_of (js_byID s) i")
  case (Some j)
  obtain as j' arts where r: "record_refs mint 0 refs j (js_artifacts s) = (as, j', arts)" by (metis prod_cases3)
  have "job_known f j" using assms Some by (simp add: jobs_known_def)
  then have "job_known f j'" using record_refs_frame [OF r] by (simp add: job_known_def same_job_def)
  then show ?thesis using assms Some r by (simp add: recordArtifacts_def jobs_known_def)
qed (use assms in \<open>simp add: recordArtifacts_def\<close>)

lemma artifactStored_known: "jobs_known f s \<Longrightarrow> jobs_known f (artifactStored a k c n s)"
  by (simp add: artifactStored_def jobs_known_def split: option.splits)

lemma reports_known:
  assumes "jobs_known f s"
  shows "jobs_known f (persistedState i seq now s)" "jobs_known f (persistFailed i now b s)" "jobs_known f (artifactPersisted i a s)"
    "jobs_known f (artifactPersistFailed i now b s)" "jobs_known f (syncFailed i now b s)" "jobs_known f (snd (dueForPersist now n c s))"
    "jobs_known f (snd (dueForArtifactPersist now n c s))" "jobs_known f (snd (dueForSync now n c s))"
  using assms by (simp_all add: persistedState_def persistFailed_def artifactPersisted_def artifactPersistFailed_def syncFailed_def dueForPersist_def
      dueForArtifactPersist_def dueForSync_def Let_def put_same_known claim_known same_job_def)

lemma persistedCreate_known:
  assumes "jobs_known f s" "table_ok s" "has_row f i"
  shows "jobs_known f (persistedCreate i now s)"
  unfolding persistedCreate_def using assms table_ID [OF assms(2)] by (intro put_job_known) (auto simp: job_known_def)

lemma forPersist_known: "jobs_known f s \<Longrightarrow> forPersist i s = Some j \<Longrightarrow> job_known f j"
  by (simp add: forPersist_def jobs_known_def)

lemma store_get_known: "jobs_known f s \<Longrightarrow> store_get i t s = Some j \<Longrightarrow> job_known f j \<and> jb_TenantID j = t"
  by (auto simp: store_get_def jobs_known_def split: option.splits if_splits)



section \<open>Every step\<close>

lemma task_ask_known:
  assumes "task_ask (fl_runs f) reached t = Some t'" "task_known f t" "db_ok f"
  shows "task_known f t'"
proof -
  have said: "honest f i (ws_State st)" if "fl_submitted f i = Some sub" "fl_runs f (su_Route sub) = Some st" for i sub st
    using db_ok_said [OF assms(3) that(2)] that(1) unfolding honest_def ended_def by blast
  show ?thesis
  proof (cases t)
    case (PollAsk j)
    then show ?thesis using assms(1,2) by (auto simp: job_known_def intro!: said split: option.splits)
  next
    case (StreamOpen j)
    then show ?thesis using assms(1,2) by (auto simp: job_known_def intro!: said split: option.splits if_splits)
  next
    case (SyncAsk c)
    then show ?thesis using assms(1,2) by (auto intro!: said split: option.splits)
  qed (use assms in auto)
qed

lemma CreateJob_cases:
  assumes s: "Service_CreateJob now wall p db = (r, db')"
  obtains "db' = db" "is_ok r \<Longrightarrow> map_of (db_jobs db) (cp_JobID p) \<noteq> None"
  | row where "map_of (db_jobs db) (cp_JobID p) = None" "db' = db\<lparr>db_jobs := AList.update (cp_JobID p) row (db_jobs db)\<rparr>"
      "ro_ID row = cp_JobID p" "ro_TenantID row = cp_TenantID p" "ro_WorkflowID row = cp_WorkflowID p" "ro_State row = cp_State p"
      "ro_NodeID row = cp_NodeID p" "ro_RuntimeID row = cp_RuntimeID p" "ro_BackendRunID row = cp_BackendRunID p"
      "ro_ErrorSummary row = ''''" "ro_ObservedSeq row = cp_ObservedSeq p"
proof (cases "cp_JobID p = '''' \<or> cp_TenantID p = '''' \<or> cp_WorkflowID p = ''''")
  case True
  then show ?thesis using s that(1) by (auto simp: Service_CreateJob_def is_ok_def)
next
  case False
  show ?thesis
  proof (cases "map_of (db_jobs db) (cp_JobID p)")
    case None
    let ?row = "stamp wall \<lparr>ro_ID = cp_JobID p, ro_TenantID = cp_TenantID p, ro_WorkflowID = cp_WorkflowID p, ro_WorkflowVersion = cp_WorkflowVersion p,
      ro_NodeID = cp_NodeID p, ro_RuntimeID = cp_RuntimeID p, ro_BackendRunID = cp_BackendRunID p, ro_State = cp_State p, ro_ErrorSummary = '''',
      ro_ObservedSeq = cp_ObservedSeq p, ro_CreatedAt = now, ro_UpdatedAt = now, ro_TerminalAt = None\<rparr>"
    have "db' = db\<lparr>db_jobs := AList.update (cp_JobID p) ?row (db_jobs db)\<rparr>" using s False None by (simp add: Service_CreateJob_def db_CreateJob_def Let_def)
    then show ?thesis by (rule that(2) [OF None]) (simp_all add: stamp_def)
  next
    case (Some row)
    then have "db' = db" using s False by (simp add: Service_CreateJob_def db_CreateJob_def Let_def split: sum.splits)
    then show ?thesis using that(1) Some by simp
  qed
qed

lemma UpdateJobState_cases:
  assumes s: "Service_UpdateJobState now tenant i p db = (r, db')"
  obtains "db' = db" "is_ok r \<Longrightarrow> \<exists>row. map_of (db_jobs db) i = Some row \<and> (Job_Terminal row \<or> up_ObservedSeq p \<le> ro_ObservedSeq row)"
  | row row' where "map_of (db_jobs db) i = Some row" "\<not> Job_Terminal row" "ro_ObservedSeq row < up_ObservedSeq p"
      "db' = db\<lparr>db_jobs := AList.update i row' (db_jobs db)\<rparr>"
      "ro_ID row' = ro_ID row" "ro_TenantID row' = ro_TenantID row" "ro_WorkflowID row' = ro_WorkflowID row" "ro_State row' = up_State p"
      "ro_NodeID row' = ro_NodeID row" "ro_RuntimeID row' = ro_RuntimeID row" "ro_BackendRunID row' = ro_BackendRunID row"
      "ro_ErrorSummary row' = up_ErrorSummary p" "ro_ObservedSeq row' = up_ObservedSeq p"
proof (cases "up_State p = ''''")
  case True
  then show ?thesis using s that(1) by (auto simp: Service_UpdateJobState_def is_ok_def)
next
  case False
  show ?thesis
  proof (cases "map_of (db_jobs db) i")
    case None
    then show ?thesis using that(1) s False by (auto simp: Service_UpdateJobState_def db_UpdateJobState_def is_ok_def)
  next
    case (Some row)
    let ?u = "\<lparr>ju_State = up_State p, ju_ErrorSummary = up_ErrorSummary p, ju_ObservedSeq = up_ObservedSeq p, ju_At = now\<rparr>"
    show ?thesis
    proof (cases "ro_TenantID row = tenant \<and> \<not> (Job_Terminal row \<or> up_ObservedSeq p \<le> ro_ObservedSeq row)")
      case True
      then have "db' = db\<lparr>db_jobs := AList.update i (apply_update ?u row) (db_jobs db)\<rparr>"
        using s False Some by (auto simp: Service_UpdateJobState_def db_UpdateJobState_def split: sum.splits)
      then show ?thesis using that(2) [OF Some, of "apply_update ?u row"] True by (simp add: apply_update_def Let_def)
    next
      case refused: False
      then show ?thesis using that(1) s False Some
        by (cases "ro_TenantID row = tenant") (auto simp: Service_UpdateJobState_def db_UpdateJobState_def is_ok_def split: sum.splits)
    qed
  qed
qed

lemma CreateJob_ok:
  assumes f: "db_ok f" "job_known f j" and db: "Service_CreateJob now wall (create_params j) (fl_db f) = (r, db)"
  shows "grows f (f\<lparr>fl_db := db\<rparr>) \<and> db_ok (f\<lparr>fl_db := db\<rparr>) \<and> (is_ok r \<longrightarrow> has_row (f\<lparr>fl_db := db\<rparr>) (jb_ID j))"
proof -
  have adv: "db_advances (fl_db f) db" using CreateJob_advances [of "fl_db f" now wall "create_params j"] db by simp
  then have g: "grows f (f\<lparr>fl_db := db\<rparr>)" by (simp add: grows_def)
  from db show ?thesis
  proof (cases rule: CreateJob_cases)
    case 1
    then show ?thesis using f(1) by (auto simp: has_row_def create_params_def)
  next
    case (2 row)
    let ?g = "f\<lparr>fl_db := db\<rparr>"
    have "row_known ?g row" using grows_job [OF g f(2)] 2 by (auto simp: row_known_def job_known_def has_row_def create_params_def route_def)
    moreover have "row_known ?g r" if "map_of (db_jobs (fl_db f)) i = Some r" for i r using f(1) that grows_row_known [OF g] by (auto simp: db_ok_def)
    moreover have "owned ?g = owned f" by (simp add: owned_def fun_eq_iff)
    ultimately show ?thesis using f(1) g 2 by (auto simp: db_ok_def has_row_def create_params_def)
  qed
qed

lemma UpdateJobState_ok:
  assumes f: "db_ok f" "job_known f j" and db: "Service_UpdateJobState now (jb_TenantID j) (jb_ID j) (update_params j) (fl_db f) = (r, db)"
  shows "grows f (f\<lparr>fl_db := db\<rparr>) \<and> db_ok (f\<lparr>fl_db := db\<rparr>)"
proof -
  have adv: "db_advances (fl_db f) db" using UpdateJobState_advances [of "fl_db f" now "jb_TenantID j" "jb_ID j" "update_params j"] db by simp
  then have g: "grows f (f\<lparr>fl_db := db\<rparr>)" by (simp add: grows_def)
  from db show ?thesis
  proof (cases rule: UpdateJobState_cases)
    case 1
    then show ?thesis using f(1) by simp
  next
    case (2 row row')
    let ?g = "f\<lparr>fl_db := db\<rparr>"
    have k: "row_known f row" "ro_ID row = jb_ID j" using f(1) 2(1) by (auto simp: db_ok_def)
    have "honest ?g (jb_ID j) (jb_State j)" using grows_job [OF g f(2)] by (simp add: job_known_def)
    then have "row_known ?g row'" using grows_row_known [OF g k(1)] k(2) 2 by (simp add: row_known_def update_params_def)
    moreover have "row_known ?g r" if "map_of (db_jobs (fl_db f)) i = Some r" for i r using f(1) that grows_row_known [OF g] by (auto simp: db_ok_def)
    moreover have "owned ?g = owned f" by (simp add: owned_def fun_eq_iff)
    ultimately show ?thesis using f(1) g 2 k(2) by (auto simp: db_ok_def)
  qed
qed

lemma CreateJobArtifact_ok:
  assumes f: "db_ok f" "owned f (ap_JobID p) (ap_TenantID p)" and db: "Service_CreateJobArtifact now wall p (fl_db f) = (r, db)"
  shows "grows f (f\<lparr>fl_db := db\<rparr>) \<and> db_ok (f\<lparr>fl_db := db\<rparr>)"
proof -
  have j: "db_jobs db = db_jobs (fl_db f)" using CreateJobArtifact_jobs [of now wall p "fl_db f"] db by simp
  then have g: "grows f (f\<lparr>fl_db := db\<rparr>)" "grows (f\<lparr>fl_db := db\<rparr>) f" by (simp_all add: grows_def db_advances_def)
  have "owned f (ja_JobID a) (ja_TenantID a)" if "map_of (db_artifacts db) i = Some a" for i a
    using that f db by (auto simp: Service_CreateJobArtifact_def db_CreateJobArtifact_def db_ok_def Let_def split: option.splits if_splits)
  moreover have "owned (f\<lparr>fl_db := db\<rparr>) = owned f" by (simp add: owned_def fun_eq_iff)
  ultimately show ?thesis using f(1) g j grows_row_known [OF g(1)] by (auto simp: db_ok_def)
qed

lemma ListActive_known:
  assumes "db_ok f" "r \<in> set (Service_ListActiveJobsForRoute n rt (fl_db f))"
  shows "row_known f r"
proof -
  have "r \<in> snd ` set (db_jobs (fl_db f))"
    using assms(2) by (auto simp: Service_ListActiveJobsForRoute_def db_ListActiveJobsForRoute_def sortOldestFirst_def dest!: in_set_takeD)
  then obtain i where "map_of (db_jobs (fl_db f)) i = Some r" using assms(1) by (auto simp: db_ok_def map_of_mem)
  then show ?thesis using assms(1) by (auto simp: db_ok_def)
qed

lemma task_call_known:
  assumes f: "db_ok f" "task_known f t" and c: "task_call out now wall t (fl_db f) = Some (t', db)"
  shows "grows f (f\<lparr>fl_db := db\<rparr>) \<and> db_ok (f\<lparr>fl_db := db\<rparr>) \<and> task_known (f\<lparr>fl_db := db\<rparr>) t'"
proof (cases t)
  case (PersistCreate j)
  obtain r db' where s: "Service_CreateJob now wall (create_params j) (fl_db f) = (r, db')" by (cases "Service_CreateJob now wall (create_params j) (fl_db f)")
  show ?thesis using c PersistCreate s f CreateJob_ok [OF f(1) _ s] by (cases out) auto
next
  case (PersistUpdate j)
  obtain r db' where s: "Service_UpdateJobState now (jb_TenantID j) (jb_ID j) (update_params j) (fl_db f) = (r, db')" by (metis surj_pair)
  show ?thesis using c PersistUpdate s f UpdateJobState_ok [OF f(1) _ s] by (cases out) auto
next
  case (CopyCreate y a cp)
  let ?p = "\<lparr>ap_ArtifactID = pa_ArtifactID a, ap_JobID = cy_ID y, ap_TenantID = cy_TenantID y, ap_Filename = pa_Filename a, ap_Subfolder = pa_Subfolder a,
    ap_Type = pa_Type a, ap_SHA256 = ac_SHA256 cp, ap_SizeBytes = ac_Size cp, ap_ContentType = ac_ContentType cp, ap_StorageKey = ac_StorageKey cp\<rparr>"
  obtain r db' where s: "Service_CreateJobArtifact now wall ?p (fl_db f) = (r, db')" by (metis surj_pair)
  have "owned (f\<lparr>fl_db := d\<rparr>) = owned f" for d by (simp add: owned_def fun_eq_iff)
  then show ?thesis using c CopyCreate s f CreateJobArtifact_ok [OF f(1) _ s] by (cases out) auto
next
  case (RecoverAsk cand)
  then show ?thesis using c f ListActive_known [OF f(1)] by (cases out) auto
qed (use c in auto)


lemma persist_next_known: "jobs_known f s \<Longrightarrow> task_known f (persist_next (forPersist i s))"
  by (auto simp: persist_next_def dest: forPersist_known split: option.splits)

lemma recovered_known: "row_known f r \<Longrightarrow> job_known f (recovered_job now r)"
  by (simp add: row_known_def job_known_def recovered_job_def route_def)

lemma recover_ok:
  assumes "table_ok s" "jobs_known f s" "row_known f r"
  shows "table_ok (snd (recoverIfMissing (recovered_job now r) s)) \<and> jobs_known f (snd (recoverIfMissing (recovered_job now r) s))"
proof (cases "map_of (js_byID s) (jb_ID (recovered_job now r))")
  case None
  have "blank_job (recovered_job now r)" by (simp add: blank_job_def recovered_job_def)
  then show ?thesis using assms None recovered_known [OF assms(3)] by (simp add: recoverIfMissing_def insertLocked_ok insertLocked_known)
qed (use assms in \<open>simp add: recoverIfMissing_def\<close>)

lemma task_note_known:
  assumes n: "task_note sync persist storage now copied mint t s = Some (t', s')" and s: "table_ok s" "jobs_known f s" "task_known f t"
    and m: "\<And>i refs. t = ListHave i refs \<Longrightarrow> fresh_mint mint s"
  shows "table_ok s' \<and> jobs_known f s' \<and> task_known f t'"
proof (cases t)
  case (PollHave i st)
  then show ?thesis using n s by (auto simp: store_update_ok store_update_known)
next
  case (StreamHave i state)
  then show ?thesis using n s by (auto simp: store_update_ok store_update_known status_of_def)
next
  case (ListHave i refs)
  then show ?thesis using n s recordArtifacts_ok [OF s(1) m [OF ListHave]] by (auto simp: recordArtifacts_known)
next
  case (SyncHave i r)
  then show ?thesis using n s by (auto simp: reports_ok reports_known syncSucceeded_def store_update_ok store_update_known split: option.splits)
next
  case (PersistStart i)
  have "task_known f (case forPersist i s of None \<Rightarrow> Finished | Some j \<Rightarrow> if \<not> jb_persisted j then PersistCreate j else persist_next (Some j))"
    using persist_next_known [OF s(2), of i] forPersist_known [OF s(2), of i] by (auto split: option.splits)
  then show ?thesis using n s PersistStart by auto
next
  case (PersistCreated i ok)
  then show ?thesis using n s by (auto simp: reports_ok reports_known persistedCreate_known split: if_splits)
next
  case (PersistReread i)
  then show ?thesis using n s persist_next_known [OF s(2)] by auto
next
  case (PersistUpdated i seq ok)
  then show ?thesis using n s by (auto simp: reports_ok reports_known split: if_splits)
next
  case (CopyStart i)
  have "owned f i (jb_TenantID j)" if "map_of (js_byID s) i = Some j" for j
    using that s(2) table_ID [OF s(1) that] by (auto simp: jobs_known_def job_known_def owned_def)
  then show ?thesis using n s CopyStart by (auto simp: artifactsForPersist_def split: option.splits)
next
  case (CopyNext y)
  then show ?thesis using n s by (auto simp: reports_ok reports_known Let_def split: list.splits option.splits if_splits)
next
  case (CopyStored y a cp)
  then show ?thesis using n s by (auto simp: artifactStored_ok artifactStored_known split: if_splits)
next
  case (CopyDone y a)
  then show ?thesis using n s by (auto simp: reports_ok reports_known)
next
  case (RecoverHave rows)
  then show ?thesis using n s recover_ok [OF s(1,2)] by (cases rows) auto
qed (use n in auto)

lemma new_tasks_known:
  assumes "replica_ok f x" "table_ok s" "jobs_known f s" "\<And>t. t \<in> set ts \<Longrightarrow> task_known f t"
  shows "replica_ok f (x\<lparr>rp_jobs := s, rp_tasks := rp_tasks x @ ts\<rparr>)"
  using assms by (auto simp: replica_ok_def)

lemma persist_tick_ok: "persist_tick cfg now x = Some x' \<Longrightarrow> replica_ok f x \<Longrightarrow> replica_ok f x'"
  using reports_ok(8,9) reports_known(6,7)
  by (auto simp: persist_tick_def Let_def split: if_splits prod.splits intro!: new_tasks_known) (auto simp: replica_ok_def, (metis snd_conv)+)

lemma sync_tick_ok:
  assumes t: "sync_tick cfg now x = Some x'" and x: "replica_ok f x"
  shows "replica_ok f x'"
proof -
  let ?n = "nat (lc_BatchSize cfg)" and ?c = "lc_Interval cfg" and ?s = "rp_jobs x"
  have s: "table_ok ?s" "jobs_known f ?s" using x by (simp_all add: replica_ok_def)
  have "task_known f (SyncAsk c)" if "c \<in> set (fst (dueForSync now ?n ?c ?s))" for c
  proof -
    obtain i where i: "i \<in> set (due_ids (\<lambda>j. \<not> job_terminal j) jb_nextSyncAt now ?n ?s)"
      "c = (let j = the (map_of (js_byID ?s) i) in \<lparr>sc_ID = jb_ID j, sc_Candidate = jb_Candidate j, sc_RunID = jb_RunID j\<rparr>)"
      using \<open>c \<in> _\<close> by (auto simp: dueForSync_def Let_def)
    moreover have "wf_map (js_byID ?s)" using s(1) by (simp add: table_ok_def filed_def)
    ultimately obtain j where "map_of (js_byID ?s) i = Some j" using due_ids_due unfolding due_jobs_def by blast
    then show ?thesis using i(2) s(2) by (simp add: jobs_known_def job_known_def Let_def)
  qed
  moreover have "x' = x\<lparr>rp_jobs := snd (dueForSync now ?n ?c ?s), rp_tasks := rp_tasks x @ map SyncAsk (fst (dueForSync now ?n ?c ?s))\<rparr>"
    using t by (auto simp: sync_tick_def split: if_splits prod.splits)
  ultimately show ?thesis by (simp only:) (rule new_tasks_known [OF x reports_ok(10) [OF s(1)] reports_known(8) [OF s(2)]], auto)
qed

lemma client_ok: "client_asks mk i tenant x = Some x' \<Longrightarrow> replica_ok f x \<Longrightarrow> (\<And>j. job_known f j \<Longrightarrow> task_known f (mk j)) \<Longrightarrow> replica_ok f x'"
  using store_get_known [of f "rp_jobs x" i tenant] by (auto simp: client_asks_def replica_ok_def split: option.splits if_splits)

lemma new_replica_ok: "replica_ok f (new_replica n)"
  using newJobStore_ok [of n] by (simp add: replica_ok_def new_replica_def jobs_known_def) (simp add: newJobStore_def)


lemma backend_submit_same:
  assumes "backend_submit c key rid f = Some b"
  shows "fl_replicas b = fl_replicas f" "fl_db b = fl_db f" "fl_said b = fl_said f" "fl_submitted b = fl_submitted f"
    and "fl_runs f k = Some st \<Longrightarrow> fl_runs b k = Some st" "fl_runs b k = Some st \<Longrightarrow> jobTerminal (ws_State st) \<Longrightarrow> fl_runs f k = Some st"
  using assms by (auto simp: backend_submit_def status_pending_def jobTerminal_def workflow_states split: if_splits)

lemma submit_ok:
  assumes f: "fleet_ok f" and e: "fleet_next (Submit r i tenant workflow version c key rid now) f = Some g"
  shows "fleet_ok g"
proof -
  let ?j = "submitted_job i workflow version tenant c rid now"
  obtain b where new: "fl_submitted f i = None" and b: "backend_submit c key rid f = Some b" using e by (auto split: if_splits option.splits)
  define h where "h = b\<lparr>fl_submitted := (fl_submitted f)(i \<mapsto> \<lparr>su_TenantID = tenant, su_WorkflowID = workflow, su_Route = route c rid\<rparr>)\<rparr>"
  have w: "with_replica r (\<lambda>x. Some (x\<lparr>rp_jobs := store_add ?j (rp_jobs x)\<rparr>)) h = Some g" using e new b by (simp add: h_def)
  note same = backend_submit_same [OF b]
  have g: "grows f h" using new same by (auto simp: grows_def map_le_def h_def)
  have "runs_said h" using f same(3,6) by (simp add: runs_said_def fleet_ok_def db_ok_def h_def)
  moreover have "fl_db h = fl_db f" using same(2) by (simp add: h_def)
  ultimately have "db_ok h" using f grows_row_known [OF g] grows_owned [OF g] by (auto simp: fleet_ok_def db_ok_def)
  then have h: "fleet_ok h" using f grows_replica [OF g] same(1) by (auto simp: fleet_ok_def h_def)
  have j: "job_known h ?j" "blank_job ?j" "jb_ID ?j = i"
    by (simp_all add: h_def job_known_def submitted_job_def honest_def jobTerminal_def workflow_states blank_job_def)
  have "replica_ok h (x\<lparr>rp_jobs := store_add ?j (rp_jobs x)\<rparr>)" if x: "x \<in> set (fl_replicas f)" for x
  proof -
    have k: "table_ok (rp_jobs x)" "jobs_known f (rp_jobs x)" "replica_ok h x" using f h x same(1) by (auto simp: fleet_ok_def replica_ok_def h_def)
    have "map_of (js_byID (rp_jobs x)) i = None"
      using k(2) new table_ID [OF k(1)] unfolding jobs_known_def job_known_def by (metis not_None_eq)
    then show ?thesis using k j by (simp add: replica_ok_def store_add_def insertLocked_ok insertLocked_known)
  qed
  then show ?thesis using same(1) by (intro with_replica_ok [OF w h]) (auto simp: h_def)
qed

lemma run_moves_ok:
  assumes f: "fleet_ok f" and e: "fleet_next (RunMoves k st) f = Some g"
  shows "fleet_ok g"
proof -
  have g: "grows f g" "g = f\<lparr>fl_runs := (fl_runs f)(k \<mapsto> st), fl_said := fl_said f @ [(k, st)]\<rparr>" using e by (auto simp: grows_def split: option.splits)
  have "db_ok g" using f grows_row_known [OF g(1)] grows_owned [OF g(1)] by (auto simp: fleet_ok_def db_ok_def g(2) runs_said_moves)
  then show ?thesis using f grows_replica [OF g(1)] by (auto simp: fleet_ok_def g(2))
qed

lemma fleet_ok_task:
  assumes "fleet_ok f" "r < length (fl_replicas f)" "k < length (rp_tasks (fl_replicas f ! r))"
  shows "replica_ok f (fl_replicas f ! r)" "task_known f (rp_tasks (fl_replicas f ! r) ! k)"
proof -
  show x: "replica_ok f (fl_replicas f ! r)" using assms(1,2) by (simp add: fleet_ok_def)
  show "task_known f (rp_tasks (fl_replicas f ! r) ! k)" using x assms(3) by (simp add: replica_ok_def)
qed

lemma call_ok:
  assumes f: "fleet_ok f" and e: "fleet_next (Call r k out now wall) f = Some g"
  shows "fleet_ok g"
proof -
  obtain t db where t: "r < length (fl_replicas f)" "k < length (rp_tasks (fl_replicas f ! r))"
    "task_call out now wall (rp_tasks (fl_replicas f ! r) ! k) (fl_db f) = Some (t, db)"
    "with_replica r (with_task k (\<lambda>_ x. Some (t, x))) (f\<lparr>fl_db := db\<rparr>) = Some g" using e by (auto split: if_splits option.splits)
  have "task_known f (rp_tasks (fl_replicas f ! r) ! k)" "db_ok f" using fleet_ok_task [OF f t(1,2)] f by (simp_all add: fleet_ok_def)
  then have c: "grows f (f\<lparr>fl_db := db\<rparr>)" "db_ok (f\<lparr>fl_db := db\<rparr>)" "task_known (f\<lparr>fl_db := db\<rparr>) t" using task_call_known [OF _ _ t(3)] by blast+
  have "fleet_ok (f\<lparr>fl_db := db\<rparr>)" using f c(2) grows_replica [OF c(1)] by (auto simp: fleet_ok_def)
  then show ?thesis by (rule with_replica_ok [OF t(4)]) (erule task_step_ok, use c(3) in auto)
qed

lemma note_ok:
  assumes f: "fleet_ok f" and e: "fleet_next (Note r k now copied mint) f = Some g" and m: "new_ids (Note r k now copied mint) f"
  shows "fleet_ok g"
proof -
  let ?x = "fl_replicas f ! r"
  obtain t' s' where t: "r < length (fl_replicas f)" "k < length (rp_tasks ?x)"
    "task_note (fl_sync f) (fl_persist f) (fl_storage f) now copied mint (rp_tasks ?x ! k) (rp_jobs ?x) = Some (t', s')"
    "g = f\<lparr>fl_replicas := (fl_replicas f)[r := ?x\<lparr>rp_jobs := s', rp_tasks := (rp_tasks ?x)[k := t']\<rparr>]\<rparr>"
    using e by (auto simp: with_replica_def with_task_def split: if_splits)
  have x: "replica_ok f ?x" "task_known f (rp_tasks ?x ! k)" using fleet_ok_task [OF f t(1,2)] .
  have "table_ok s' \<and> jobs_known f s' \<and> task_known f t'"
    using x m by (intro task_note_known [OF t(3)]) (auto simp: replica_ok_def)
  then have "replica_ok f (?x\<lparr>rp_jobs := s', rp_tasks := (rp_tasks ?x)[k := t']\<rparr>)"
    using x(1) by (auto simp: replica_ok_def dest!: set_update_subset_insert [THEN subsetD])
  then show ?thesis using f t(4) fleet_ok_replica by simp
qed

lemma fleet_step_ok:
  assumes "fleet_step f e g" "fleet_ok f"
  shows "fleet_ok g"
proof -
  have e: "fleet_next e f = Some g" and m: "new_ids e f" using assms(1) by (auto elim: fleet_stepE)
  show ?thesis
  proof (cases e)
    case (Ask r k reached)
    then have w: "with_replica r (with_task k (\<lambda>t x. map_option (\<lambda>t'. (t', x)) (task_ask (fl_runs f) reached t))) f = Some g" using e by simp
    have "db_ok f" using assms(2) by (simp add: fleet_ok_def)
    then show ?thesis by (intro with_replica_ok [OF w assms(2)]) (erule task_step_ok, auto dest: task_ask_known)
  next
    case (Outputs r k refs)
    then have w: "with_replica r (with_task k (\<lambda>t x. case t of
        ListAsk j \<Rightarrow> Some (case refs of None \<Rightarrow> Finished | Some rs \<Rightarrow> ListHave (jb_ID j) rs, x) | _ \<Rightarrow> None)) f = Some g" using e by simp
    show ?thesis by (rule with_replica_ok [OF w assms(2)]) (erule task_step_ok, auto split: task.splits option.splits)
  next
    case (StatusRequest r i tenant)
    then show ?thesis using e by (auto intro!: with_replica_ok [OF _ assms(2)] intro: client_ok)
  next
    case (EventsRequest r i tenant)
    then show ?thesis using e by (auto intro!: with_replica_ok [OF _ assms(2)] intro: client_ok)
  next
    case (ArtifactsRequest r i tenant)
    then show ?thesis using e by (auto intro!: with_replica_ok [OF _ assms(2)] simp: client_lists_def replica_ok_def split: option.splits)
  next
    case (RecoverTick r cs)
    then show ?thesis using e by (auto intro!: with_replica_ok [OF _ assms(2)] simp: recover_tick_def replica_ok_def split: if_splits)
  next
    case (Restart r)
    then show ?thesis using e by (auto intro!: with_replica_ok [OF _ assms(2)] new_replica_ok)
  qed (use e m assms(2) in \<open>auto intro: submit_ok run_moves_ok call_ok note_ok with_replica_ok [OF _ assms(2)] sync_tick_ok persist_tick_ok simp del: new_ids.simps\<close>)
qed

lemma new_fleet_ok: "fleet_ok (new_fleet k sync persist storage n)"
  by (simp add: fleet_ok_def db_ok_def runs_said_def new_fleet_def empty_db_def new_replica_ok)

lemma fleet_run_ok: "run fleet_step (new_fleet k sync persist storage n) es f \<Longrightarrow> fleet_ok f"
  using run_invariant [of fleet_step "new_fleet k sync persist storage n" es f fleet_ok] fleet_step_ok new_fleet_ok by blast


text \<open>Rows only advance.\<close>

lemma with_replica_db: "with_replica r h f = Some g \<Longrightarrow> fl_db g = fl_db f"
  by (auto simp: with_replica_def split: if_splits)

lemma task_call_advances: "task_call out now wall t db = Some (t', db') \<Longrightarrow> db_advances db db'"
proof (cases t)
  case (PersistCreate j)
  then show "task_call out now wall t db = Some (t', db') \<Longrightarrow> db_advances db db'"
    using CreateJob_advances [of db now wall "create_params j"] by (cases out) (auto split: prod.splits)
next
  case (PersistUpdate j)
  then show "task_call out now wall t db = Some (t', db') \<Longrightarrow> db_advances db db'"
    using UpdateJobState_advances [of db now "jb_TenantID j" "jb_ID j" "update_params j"] by (cases out) (auto split: prod.splits)
next
  case (CopyCreate y a cp)
  have "db_advances db (snd (Service_CreateJobArtifact now wall p db))" for p by (simp add: db_advances_def)
  then show "task_call out now wall t db = Some (t', db') \<Longrightarrow> db_advances db db'"
    using CopyCreate by (cases out) (auto simp: Let_def split: prod.splits, (metis snd_conv)+)
qed auto

lemma fleet_step_advances: "fleet_step f e g \<Longrightarrow> db_advances (fl_db f) (fl_db g)"
proof (erule fleet_stepE)
  assume e: "fleet_next e f = Some g"
  show ?thesis
  proof (cases e)
    case (Submit r i tenant workflow version c key rid now)
    then show ?thesis using e backend_submit_same(2) by (auto dest!: with_replica_db split: if_splits option.splits)
  next
    case (Call r k out now wall)
    then obtain t db where "task_call out now wall (rp_tasks (fl_replicas f ! r) ! k) (fl_db f) = Some (t, db)" "fl_db g = db"
      using e by (auto dest: with_replica_db split: if_splits option.splits)
    then show ?thesis using task_call_advances by blast
  qed (use e in \<open>auto dest: with_replica_db split: if_splits option.splits\<close>)
qed

lemma fleet_run_advances: "run fleet_step f es g \<Longrightarrow> db_advances (fl_db f) (fl_db g)"
  by (induction rule: run.induct) (auto intro: db_advances_trans fleet_step_advances)


text \<open>What the backends have said, and what lasts of it when no report of an end is taken back.\<close>

definition steady :: "fleet_event list \<Rightarrow> bool" where
  "steady es \<longleftrightarrow> (\<forall>as bs k st st'. es = as @ RunMoves k st # bs \<and> jobTerminal (ws_State st) \<and> RunMoves k st' \<in> set bs \<longrightarrow> st' = st)"

lemma steady_snoc:
  assumes "steady (es @ [e])"
  shows "steady es" "RunMoves k st \<in> set es \<Longrightarrow> jobTerminal (ws_State st) \<Longrightarrow> e = RunMoves k st' \<Longrightarrow> st' = st"
proof -
  show "steady es" unfolding steady_def
  proof (intro allI impI)
    fix as bs k st st'
    assume "es = as @ RunMoves k st # bs \<and> jobTerminal (ws_State st) \<and> RunMoves k st' \<in> set bs"
    then have "es @ [e] = as @ RunMoves k st # (bs @ [e]) \<and> jobTerminal (ws_State st) \<and> RunMoves k st' \<in> set (bs @ [e])" by simp
    then show "st' = st" using assms unfolding steady_def by blast
  qed
  assume "RunMoves k st \<in> set es" "jobTerminal (ws_State st)" "e = RunMoves k st'"
  then obtain as bs where "es @ [e] = as @ RunMoves k st # (bs @ [e]) \<and> jobTerminal (ws_State st) \<and> RunMoves k st' \<in> set (bs @ [e])" by (auto dest: split_list)
  then show "st' = st" using assms unfolding steady_def by blast
qed

lemma with_replica_said: "with_replica r h f = Some g \<Longrightarrow> fl_said g = fl_said f \<and> fl_runs g = fl_runs f"
  by (auto simp: with_replica_def split: if_splits)

lemma fleet_step_said:
  assumes "fleet_step f e g"
  shows "fl_said g = fl_said f @ (case e of RunMoves k st \<Rightarrow> [(k, st)] | _ \<Rightarrow> [])
    \<and> (\<forall>k st. fl_runs f k = Some st \<and> (\<forall>st'. e = RunMoves k st' \<longrightarrow> st' = st) \<longrightarrow> fl_runs g k = Some st)
    \<and> (\<forall>k st. e = RunMoves k st \<longrightarrow> fl_runs g k = Some st)"
  using assms
proof (elim fleet_stepE)
  assume e: "fleet_next e f = Some g"
  show ?thesis
  proof (cases e)
    case (Submit r i tenant workflow version c key rid now)
    then show ?thesis using e backend_submit_same(3,5) by (auto dest!: with_replica_said split: if_splits option.splits)
  qed (use e in \<open>auto dest!: with_replica_said split: if_splits option.splits prod.splits\<close>)
qed

lemma said_run:
  assumes "run fleet_step (new_fleet k sync persist storage n) es f"
  shows "(key, st) \<in> set (fl_said f) \<Longrightarrow> RunMoves key st \<in> set es \<and> (jobTerminal (ws_State st) \<and> steady es \<longrightarrow> fl_runs f key = Some st)"
  using assms
proof (induction "new_fleet k sync persist storage n" es f arbitrary: key st rule: run.induct)
  case (run_snoc es f e g)
  note s = fleet_step_said [OF run_snoc.hyps(3)]
  show ?case
  proof (cases "(key, st) \<in> set (fl_said f)")
    case True
    then have "RunMoves key st \<in> set es \<and> (jobTerminal (ws_State st) \<and> steady es \<longrightarrow> fl_runs f key = Some st)" by (rule run_snoc.hyps(2))
    moreover have "fl_runs g key = Some st" if "fl_runs f key = Some st" "jobTerminal (ws_State st)" "steady (es @ [e])"
      using s that calculation steady_snoc(2) [OF that(3), of key st] by blast
    ultimately show ?thesis using steady_snoc(1) [of es e] by auto
  next
    case False
    then have "e = RunMoves key st" using s run_snoc.prems by (auto split: fleet_event.splits)
    then show ?thesis using s by auto
  qed
qed (simp add: new_fleet_def)


section \<open>Properties\<close>

text \<open>
  C18. In every history the job table of every replica is well formed: it holds at most as many jobs as it may, its
  order lists each of them once, every public artifact id resolves to a record of the job and the output that it
  was given for, and no record outlives its job.
\<close>

theorem job_tables_well_formed:
  assumes "run fleet_step (new_fleet k sync persist storage n) es f" "x \<in> set (fl_replicas f)"
  shows "table_ok (rp_jobs x)"
  using fleet_run_ok [OF assms(1)] assms(2) by (simp add: fleet_ok_def replica_ok_def)

text \<open>
  C10. In every history, whatever calls were lost, repeated or reordered, and even when backends take back what they
  said of a run that was over, a run that any replica or the control plane says has succeeded, failed or been
  cancelled was reported so by its own node. If no node ever takes such a report back, the run stands so now.
\<close>

theorem run_ends_are_reported:
  assumes "run fleet_step (new_fleet k sync persist storage n) es f"
  shows "(\<forall>x i j. x \<in> set (fl_replicas f) \<and> map_of (js_byID (rp_jobs x)) i = Some j \<and> job_terminal j \<longrightarrow>
       (\<exists>st. RunMoves (route (jb_Candidate j) (jb_RunID j)) st \<in> set es \<and> ws_State st = jb_State j
          \<and> (steady es \<longrightarrow> fl_runs f (route (jb_Candidate j) (jb_RunID j)) = Some st)))
   \<and> (\<forall>i r. map_of (db_jobs (fl_db f)) i = Some r \<and> Job_Terminal r \<longrightarrow>
       (\<exists>st. RunMoves (ro_NodeID r, ro_RuntimeID r, ro_BackendRunID r) st \<in> set es \<and> ws_State st = ro_State r
          \<and> (steady es \<longrightarrow> fl_runs f (ro_NodeID r, ro_RuntimeID r, ro_BackendRunID r) = Some st)))"
proof -
  have f: "fleet_ok f" using fleet_run_ok [OF assms] .
  have t: "job_terminal j = jobTerminal (jb_State j)" for j by (simp add: job_terminal_def jobTerminal_def)
  have r: "Job_Terminal r = jobTerminal (ro_State r)" for r
    by (simp add: Job_Terminal_def jobTerminal_def JobSucceeded_def JobFailed_def JobCancelled_def workflow_states)
  have "\<exists>st. RunMoves (route (jb_Candidate j) (jb_RunID j)) st \<in> set es \<and> ws_State st = jb_State j
      \<and> (steady es \<longrightarrow> fl_runs f (route (jb_Candidate j) (jb_RunID j)) = Some st)"
    if "x \<in> set (fl_replicas f)" "map_of (js_byID (rp_jobs x)) i = Some j" "job_terminal j" for x i j
  proof -
    have "job_known f j" using f that(1,2) by (auto simp: fleet_ok_def replica_ok_def jobs_known_def)
    then have "\<exists>st. (route (jb_Candidate j) (jb_RunID j), st) \<in> set (fl_said f) \<and> ws_State st = jb_State j"
      using that(3) unfolding t job_known_def honest_def ended_def by auto
    then show ?thesis using said_run [OF assms] that(3) unfolding t by metis
  qed
  moreover have "\<exists>st. RunMoves (ro_NodeID r, ro_RuntimeID r, ro_BackendRunID r) st \<in> set es \<and> ws_State st = ro_State r
      \<and> (steady es \<longrightarrow> fl_runs f (ro_NodeID r, ro_RuntimeID r, ro_BackendRunID r) = Some st)"
    if "map_of (db_jobs (fl_db f)) i = Some r" "Job_Terminal r" for i r
  proof -
    have "row_known f r" using f that(1) by (auto simp: fleet_ok_def db_ok_def)
    then have "\<exists>st. ((ro_NodeID r, ro_RuntimeID r, ro_BackendRunID r), st) \<in> set (fl_said f) \<and> ws_State st = ro_State r"
      using that(2) unfolding r row_known_def honest_def ended_def by auto
    then show ?thesis using said_run [OF assms] that(2) unfolding r by metis
  qed
  ultimately show ?thesis by blast
qed

text \<open>
  C9. In every history, a job that a replica shows to a tenant was submitted by that tenant, and an artifact that it
  finds for a tenant, in its table or through the control plane, belongs to a job which that tenant submitted and
  is fetched from the node that ran it.
\<close>

theorem job_tenant_isolation:
  assumes "run fleet_step (new_fleet k sync persist storage n) es f" "x \<in> set (fl_replicas f)"
  shows "(\<forall>i tenant j. store_get i tenant (rp_jobs x) = Some j \<longrightarrow>
      (\<exists>sub. fl_submitted f i = Some sub \<and> su_TenantID sub = tenant \<and> su_Route sub = route (jb_Candidate j) (jb_RunID j)))
   \<and> (\<forall>a tenant rec. find_artifact a tenant x (fl_db f) = Some rec \<longrightarrow>
      (\<exists>sub. fl_submitted f (af_JobID rec) = Some sub \<and> su_TenantID sub = tenant
        \<and> (fst (su_Route sub), fst (snd (su_Route sub))) = (NodeID (af_Candidate rec), RuntimeID (af_Candidate rec))))"
proof (intro conjI allI impI)
  have f: "fleet_ok f" using fleet_run_ok [OF assms(1)] .
  have x: "table_ok (rp_jobs x)" "jobs_known f (rp_jobs x)" using f assms(2) by (auto simp: fleet_ok_def replica_ok_def)
  show "\<exists>sub. fl_submitted f i = Some sub \<and> su_TenantID sub = tenant \<and> su_Route sub = route (jb_Candidate j) (jb_RunID j)"
    if "store_get i tenant (rp_jobs x) = Some j" for i tenant j
    using x(2) table_ID [OF x(1)] that by (auto simp: store_get_def jobs_known_def job_known_def split: option.splits if_splits)
  fix a tenant rec
  assume a: "find_artifact a tenant x (fl_db f) = Some rec"
  show "\<exists>sub. fl_submitted f (af_JobID rec) = Some sub \<and> su_TenantID sub = tenant
      \<and> (fst (su_Route sub), fst (snd (su_Route sub))) = (NodeID (af_Candidate rec), RuntimeID (af_Candidate rec))"
  proof (cases "store_artifact a tenant (rp_jobs x)")
    case (Some rec')
    then have r: "js_artifacts (rp_jobs x) a = Some rec" "af_TenantID rec = tenant" using a by (auto simp: find_artifact_def store_artifact_def split: option.splits if_splits)
    then obtain j where j: "map_of (js_byID (rp_jobs x)) (af_JobID rec) = Some j" "af_TenantID rec = jb_TenantID j" "af_Candidate rec = jb_Candidate j"
      using x(1) linked_recordD [of "map_of (js_byID (rp_jobs x))" "js_artifacts (rp_jobs x)" a rec] by (auto simp: table_ok_def filed_def linked_record_def)
    have "job_known f j" using x(2) j(1) by (auto simp: jobs_known_def)
    then show ?thesis using table_ID [OF x(1) j(1)] r(2) j by (simp add: job_known_def route_def)
  next
    case None
    then obtain art row where r: "map_of (db_artifacts (fl_db f)) a = Some art" "ja_TenantID art = tenant" "map_of (db_jobs (fl_db f)) (ja_JobID art) = Some row"
      "ro_TenantID row = tenant" "af_JobID rec = ja_JobID art" "NodeID (af_Candidate rec) = ro_NodeID row" "RuntimeID (af_Candidate rec) = ro_RuntimeID row"
      using a by (auto simp: find_artifact_def recoverArtifactRoute_def Service_GetArtifactRoute_def db_GetJobArtifact_def db_GetJob_def split: option.splits if_splits)
    then have "row_known f row" "ro_ID row = ja_JobID art" using f by (auto simp: fleet_ok_def db_ok_def)
    then show ?thesis using r by (simp add: row_known_def)
  qed
qed

text \<open>
  C12. In every history, a job that a replica shows as persisted has its row at the control plane, under its id, with
  its tenant, its workflow and the run it is bound to; and no later step takes the row away.
\<close>

theorem durability_is_true:
  assumes "run fleet_step (new_fleet k sync persist storage n) es f" "run fleet_step f fs g" "x \<in> set (fl_replicas f)"
    and "map_of (js_byID (rp_jobs x)) i = Some j" "jj_Durability (renderJob j) = DurabilityPersisted"
  shows "\<exists>r. map_of (db_jobs (fl_db g)) i = Some r \<and> ro_TenantID r = jb_TenantID j \<and> ro_WorkflowID r = jb_WorkflowID j
     \<and> (ro_NodeID r, ro_RuntimeID r, ro_BackendRunID r) = route (jb_Candidate j) (jb_RunID j)"
proof -
  have f: "fleet_ok f" using fleet_run_ok [OF assms(1)] .
  have x: "table_ok (rp_jobs x)" "job_known f j" using f assms(3,4) by (auto simp: fleet_ok_def replica_ok_def jobs_known_def)
  have p: "jb_persisted j" using assms(5) by (auto simp: renderJob_def DurabilityPersisted_def DurabilityMemoryOnly_def split: if_splits)
  obtain r where r: "map_of (db_jobs (fl_db f)) i = Some r" using x p table_ID [OF x(1) assms(4)] by (auto simp: job_known_def has_row_def)
  then have "row_known f r" "ro_ID r = i" using f by (auto simp: fleet_ok_def db_ok_def)
  then have "ro_TenantID r = jb_TenantID j" "ro_WorkflowID r = jb_WorkflowID j" "(ro_NodeID r, ro_RuntimeID r, ro_BackendRunID r) = route (jb_Candidate j) (jb_RunID j)"
    using x(2) table_ID [OF x(1) assms(4)] by (simp_all add: job_known_def row_known_def)
  then show ?thesis using fleet_run_advances [OF assms(2)] r by (fastforce simp: db_advances_def row_advances_def)
qed

text \<open>
  C11. Over any steps of any number of replicas the control plane's row of a job keeps its identity, its sequence
  number never falls, it changes only when that number rises, and once it says that the run is over it never
  changes again.
\<close>

theorem job_rows_advance:
  assumes "run fleet_step f es g" "map_of (db_jobs (fl_db f)) i = Some r"
  shows "\<exists>r'. map_of (db_jobs (fl_db g)) i = Some r' \<and> ro_TenantID r' = ro_TenantID r \<and> ro_BackendRunID r' = ro_BackendRunID r
     \<and> ro_ObservedSeq r \<le> ro_ObservedSeq r' \<and> (r' \<noteq> r \<longrightarrow> ro_ObservedSeq r < ro_ObservedSeq r' \<and> \<not> Job_Terminal r)"
  using fleet_run_advances [OF assms(1)] assms(2) by (fastforce simp: db_advances_def row_advances_def)


section \<open>Witnesses\<close>

lemma one_replica: "run fleet_step (fleet_a k) es f \<Longrightarrow> length (fl_replicas f) = k"
proof (rule run_invariant [where I = "\<lambda>f. length (fl_replicas f) = k"])
  show "length (fl_replicas g) = k" if "fleet_step f e g" "length (fl_replicas f) = k" for f e g
    using that by (elim fleet_stepE, cases e) (auto simp: with_replica_def backend_submit_same(1) split: if_splits option.splits)
qed (auto simp: fleet_a_def new_fleet_def)

lemma first_replica: "run fleet_step (fleet_a 1) es f \<Longrightarrow> fl_replicas f ! 0 \<in> set (fl_replicas f)"
  using one_replica [of 1 es f] by simp

lemma persisted_state:
  obtains f where "run fleet_step (fleet_a 1) persisted_a f" "row_seen f = Some (''pending'', '''', 0, None)" "job_seen 0 f = Some (''pending'', '''', 0, 0, True)"
    "store_get ''j'' ''t'' (rp_jobs (fl_replicas f ! 0)) \<noteq> None"
  using observe_run [OF conjunct1 [OF job_histories]] by auto

lemma failed_state:
  obtains f where "run fleet_step (fleet_a 1) early_failure f" "row_seen f = Some (''failed'', '''', 0, None)" "job_seen 0 f = Some (''failed'', ''out of memory'', 1, 1, True)"
  using observe_run [OF conjunct1 [OF conjunct2 [OF job_histories]]] by auto

theorem job_tables_well_formed_witness: "\<exists>f. run fleet_step (fleet_a 1) persisted_a f \<and> table_ok (rp_jobs (fl_replicas f ! 0))"
proof (rule persisted_state)
  fix f
  assume r: "run fleet_step (fleet_a 1) persisted_a f"
  then show ?thesis using job_tables_well_formed [OF r [unfolded fleet_a_def] first_replica [OF r]] by blast
qed

theorem run_ends_are_reported_witness:
  "\<exists>f r st. run fleet_step (fleet_a 1) early_failure f \<and> map_of (db_jobs (fl_db f)) ''j'' = Some r \<and> ro_State r = ''failed''
     \<and> RunMoves (ro_NodeID r, ro_RuntimeID r, ro_BackendRunID r) st \<in> set early_failure \<and> ws_State st = ''failed''"
proof (rule failed_state)
  fix f
  assume f: "run fleet_step (fleet_a 1) early_failure f" and v: "row_seen f = Some (''failed'', '''', 0, None)"
  then obtain r where r: "map_of (db_jobs (fl_db f)) ''j'' = Some r" "ro_State r = ''failed''" by (auto simp: row_seen_def)
  then have "Job_Terminal r" by (simp add: Job_Terminal_def JobFailed_def)
  then show ?thesis using run_ends_are_reported [OF f [unfolded fleet_a_def]] r f by (metis (no_types, lifting))
qed

theorem job_tenant_isolation_witness:
  "\<exists>f j sub. run fleet_step (fleet_a 1) persisted_a f \<and> store_get ''j'' ''t'' (rp_jobs (fl_replicas f ! 0)) = Some j
     \<and> fl_submitted f ''j'' = Some sub \<and> su_TenantID sub = ''t'' \<and> su_Route sub = route (jb_Candidate j) (jb_RunID j)"
proof (rule persisted_state)
  fix f
  assume r: "run fleet_step (fleet_a 1) persisted_a f" and j: "store_get ''j'' ''t'' (rp_jobs (fl_replicas f ! 0)) \<noteq> None"
  then show ?thesis using job_tenant_isolation [OF r [unfolded fleet_a_def] first_replica [OF r]] by blast
qed

theorem durability_is_true_witness:
  "\<exists>f j r. run fleet_step (fleet_a 1) persisted_a f \<and> map_of (js_byID (rp_jobs (fl_replicas f ! 0))) ''j'' = Some j
     \<and> map_of (db_jobs (fl_db f)) ''j'' = Some r \<and> ro_TenantID r = jb_TenantID j"
proof (rule persisted_state)
  fix f
  assume r: "run fleet_step (fleet_a 1) persisted_a f" and v: "job_seen 0 f = Some (''pending'', '''', 0, 0, True)"
  obtain j where j: "map_of (js_byID (rp_jobs (fl_replicas f ! 0))) ''j'' = Some j" "jb_persisted j" using v by (auto simp: job_seen_def)
  then have "jj_Durability (renderJob j) = DurabilityPersisted" by (simp add: renderJob_def)
  then show ?thesis using durability_is_true [OF r [unfolded fleet_a_def] run_Nil first_replica [OF r] j(1)] r j(1) by blast
qed

theorem job_rows_advance_witness:
  "\<exists>f r. run fleet_step (fleet_a 1) persisted_a f \<and> map_of (db_jobs (fl_db f)) ''j'' = Some r \<and> ro_ObservedSeq r = 0
     \<and> (\<exists>r'. map_of (db_jobs (fl_db f)) ''j'' = Some r' \<and> ro_ObservedSeq r \<le> ro_ObservedSeq r')"
proof (rule persisted_state)
  fix f
  assume r: "run fleet_step (fleet_a 1) persisted_a f" and v: "row_seen f = Some (''pending'', '''', 0, None)"
  then obtain row where "map_of (db_jobs (fl_db f)) ''j'' = Some row" "ro_ObservedSeq row = 0" by (auto simp: row_seen_def)
  then show ?thesis using r job_rows_advance [OF run_Nil, of f "''j''" row] by blast
qed

end
