(* ===== verification/JobRaces.thy ===== *)
theory JobRaces
  imports JobSafety
begin

text \<open>
  Where the job table, its loops and the control plane's rows disagree in the end: a failure whose summary never
  reaches its row, a run that is counted as finished twice, a row that stays behind, and an artifact whose copy
  in object storage is forgotten.
\<close>


section \<open>Artifacts listed again\<close>

lemma record_refs_again:
  assumes "record_refs mint k refs j arts = (as, j', arts')" "\<And>ref. ref \<in> set refs \<Longrightarrow> map_of (jb_artifactIDs j) ref \<noteq> None"
  shows "j' = j \<and> as = map (\<lambda>ref. the (map_of (jb_artifactIDs j) ref)) refs
    \<and> (\<forall>a. arts' a \<noteq> arts a \<longrightarrow> (\<exists>ref \<in> set refs. arts' a = Some (record_of j ref))) \<and> (\<forall>a \<in> set as. \<exists>ref \<in> set refs. arts' a = Some (record_of j ref))"
  using assms
proof (induction refs arbitrary: arts as)
  case (Cons ref refs)
  obtain a where a: "map_of (jb_artifactIDs j) ref = Some a" using Cons.prems(2) [of ref] by auto
  obtain bs where bs: "record_refs mint k refs j (arts(a \<mapsto> record_of j ref)) = (bs, j', arts')" "as = a # bs"
    using Cons.prems(1) unfolding record_refs_Cons by (auto simp: a Let_def split: prod.splits)
  have IH: "j' = j \<and> bs = map (\<lambda>ref. the (map_of (jb_artifactIDs j) ref)) refs
      \<and> (\<forall>b. arts' b \<noteq> (arts(a \<mapsto> record_of j ref)) b \<longrightarrow> (\<exists>ref \<in> set refs. arts' b = Some (record_of j ref)))
      \<and> (\<forall>b \<in> set bs. \<exists>ref \<in> set refs. arts' b = Some (record_of j ref))"
    using Cons.IH [OF bs(1)] Cons.prems(2) by simp
  then have "\<exists>r \<in> set (ref # refs). arts' a = Some (record_of j r)" by (cases "arts' a = Some (record_of j ref)") auto
  moreover have "\<exists>r \<in> set (ref # refs). arts' b = Some (record_of j r)" if "arts' b \<noteq> arts b" for b
    using IH that by (cases "b = a") (auto simp: calculation split: if_splits)
  ultimately show ?case using IH bs(2) a by auto
qed simp


section \<open>Properties\<close>

text \<open>
  C22. A run that fails before its job is persisted loses the reason of its failure for good: the row is created as
  failed already, without a summary or an end time; the update that would bring them is refused because the row is
  over, and the refusal counts as success, so that the replica has nothing left to send. Whatever happens next,
  the row stays as it is.
\<close>

theorem failure_summary_lost:
  "\<exists>f. run fleet_step (fleet_a 1) early_failure f \<and> job_seen 0 f = Some (''failed'', ''out of memory'', 1, 1, True)
     \<and> {row_seen g | es g. run fleet_step f es g} = {Some (''failed'', '''', 0, None)}"
proof (rule failed_state)
  fix f
  assume f: "run fleet_step (fleet_a 1) early_failure f" "row_seen f = Some (''failed'', '''', 0, None)" "job_seen 0 f = Some (''failed'', ''out of memory'', 1, 1, True)"
  have "row_seen g = row_seen f" if "run fleet_step f es g" for es g
  proof -
    obtain r where r: "map_of (db_jobs (fl_db f)) ''j'' = Some r" "ro_State r = ''failed''" using f(2) by (auto simp: row_seen_def)
    then have "Job_Terminal r" by (simp add: Job_Terminal_def JobFailed_def)
    then have "map_of (db_jobs (fl_db g)) ''j'' = Some r" using fleet_run_advances [OF that] r(1) by (force simp: db_advances_def row_advances_def)
    then show ?thesis using r(1) by (simp add: row_seen_def)
  qed
  then have "{row_seen g | es g. run fleet_step f es g} = {row_seen f}" using run_Nil [of fleet_step f] by blast
  then show ?thesis using f by auto
qed

text \<open>
  A client's poll that was answered while the run went on, and is applied after the run is known to be over,
  makes the job unfinished again although the backend has finished it; the next observation finishes it a second
  time, and the run is counted twice.
\<close>

theorem stale_poll_reopens_job:
  "(\<exists>f. run fleet_step (fleet_a 1) stale_poll f \<and> map_option ws_State (fl_runs f key_a) = Some ''succeeded''
      \<and> job_seen 0 f = Some (''running'', '''', 2, 0, False))
   \<and> (\<exists>f. run fleet_step (fleet_a 1) (stale_poll @ syncs 0 2 60) f \<and> map fst (js_finished (rp_jobs (fl_replicas f ! 0))) = [''succeeded'', ''succeeded''])"
  using observe_run [OF conjunct1 [OF conjunct2 [OF conjunct2 [OF job_histories]]]]
    observe_run [OF conjunct1 [OF conjunct2 [OF conjunct2 [OF conjunct2 [OF job_histories]]]]]
  by auto

text \<open>
  A client that watches a failed run through its event stream erases the reason that another observation
  brought: the event says only that the run failed, and overwrites the summary.
\<close>

theorem stream_erases_summary:
  "\<exists>f. run fleet_step (fleet_a 1) watched_failure f \<and> map_option ws_ErrorSummary (fl_runs f key_a) = Some ''out of memory''
     \<and> job_seen 0 f = Some (''failed'', '''', 2, 0, False)"
  using observe_run [OF conjunct1 [OF conjunct2 [OF conjunct2 [OF conjunct2 [OF conjunct2 [OF job_histories]]]]]] by auto

text \<open>
  Sequence numbers are counted by each replica on its own. A replica that recovered a job and saw its end sends
  the same number as another one that saw only its start; the control plane refuses it, the replica takes that for
  done, and the row says that the run goes on although the replica knows that it succeeded.
\<close>

theorem row_left_behind:
  "\<exists>f. run fleet_step (fleet_a 2) two_replicas f \<and> row_seen f = Some (''running'', '''', 1, None)
     \<and> job_seen 1 f = Some (''succeeded'', '''', 1, 1, True) \<and> job_seen 0 f = None"
  using observe_run [OF conjunct2 [OF conjunct2 [OF conjunct2 [OF conjunct2 [OF conjunct2 [OF job_histories]]]]]] by auto

text \<open>
  Listing the outputs of a job again, when each of them has its public id, writes their records anew: none
  names its copy in object storage any longer, while the job is as before, its list of outputs that are still to be
  stored included: outputs that were copied and taken off that list are not put back on it by the listing.
\<close>

theorem listing_forgets_copies:
  assumes "map_of (js_byID s) i = Some j" "\<And>ref. ref \<in> set refs \<Longrightarrow> map_of (jb_artifactIDs j) ref \<noteq> None" "recordArtifacts mint i refs s = (as, t)"
  shows "as = map (\<lambda>ref. the (map_of (jb_artifactIDs j) ref)) refs \<and> map_of (js_byID t) i = Some j
     \<and> (\<forall>a \<in> set as. \<exists>rec. js_artifacts t a = Some rec \<and> af_StorageKey rec = '''' \<and> af_ContentType rec = '''' \<and> af_Size rec = 0)"
proof -
  obtain j' arts where r: "record_refs mint 0 refs j (js_artifacts s) = (as, j', arts)" "t = s\<lparr>js_artifacts := arts, js_byID := AList.update i j' (js_byID s)\<rparr>"
    using assms(1,3) by (auto simp: recordArtifacts_def split: prod.splits)
  have "\<exists>rec. arts a = Some rec \<and> af_StorageKey rec = '''' \<and> af_ContentType rec = '''' \<and> af_Size rec = 0" if "a \<in> set as" for a
  proof -
    obtain ref where "arts a = Some (record_of j ref)" using record_refs_again [OF r(1) assms(2)] \<open>a \<in> set as\<close> by blast
    then show ?thesis by (simp add: record_of_def)
  qed
  then show ?thesis using record_refs_again [OF r(1) assms(2)] r(2) by (simp add: update_conv')
qed


text \<open>
  C21. An idempotency key is not the tenant's own: backends remember their runs under the key alone, and the Gateway
  passes on the key that a client sends. In a history that is given, a second tenant submits another workflow with the
  key that the first one used; its job is bound to the first tenant's run, and it is shown how that run ended.
\<close>

theorem idempotency_key_shares_run:
  "\<exists>f a b. run fleet_step (fleet_a 1) shared_key f
     \<and> store_get ''j'' ''t'' (rp_jobs (fl_replicas f ! 0)) = Some a \<and> store_get ''i'' ''u'' (rp_jobs (fl_replicas f ! 0)) = Some b
     \<and> jb_WorkflowID a \<noteq> jb_WorkflowID b \<and> route (jb_Candidate b) (jb_RunID b) = route (jb_Candidate a) (jb_RunID a)
     \<and> map_option ws_State (fl_runs f (route (jb_Candidate a) (jb_RunID a))) = Some (jb_State b) \<and> jb_State b = ''succeeded''"
proof -
  obtain f where f: "run fleet_step (fleet_a 1) shared_key f" "bound_seen ''j'' ''t'' f = Some (''w'', key_a, ''pending'')" "bound_seen ''i'' ''u'' f = Some (''x'', key_a, ''succeeded'')"
      "map_option ws_State (fl_runs f key_a) = Some ''succeeded''"
    using observe_run [OF shared_history] by auto
  then show ?thesis by (auto simp: bound_seen_def)
qed


section \<open>Witnesses\<close>

definition ref_one :: ArtifactRef where
  "ref_one = \<lparr>ar_RunID = ''run'', ar_Filename = ''out.png'', ar_Subfolder = '''', ar_Type = ''output''\<rparr>"

text \<open>A job with one output, which is listed and copied to object storage.\<close>

definition store_copied :: jobStore where
  "store_copied = artifactStored ''art_x'' ''t/j/x'' ''image/png'' 7
     (artifactPersisted ''j'' ''art_x'' (snd (recordArtifacts (\<lambda>_. ''x'') ''j'' [ref_one] (store_add job_one (newJobStore 10)))))"

lemma store_copied_values:
  "map_option (\<lambda>j. (jb_artifactIDs j, jb_pendingArtifacts j)) (map_of (js_byID store_copied) ''j'') = Some ([(ref_one, ''art_x'')], [])
   \<and> map_option af_StorageKey (js_artifacts store_copied ''art_x'') = Some ''t/j/x''"
  by code_simp

theorem listing_forgets_copies_witness:
  "map_option af_StorageKey (js_artifacts store_copied ''art_x'') = Some ''t/j/x''
   \<and> (\<exists>rec. js_artifacts (snd (recordArtifacts (\<lambda>_. ''y'') ''j'' [ref_one] store_copied)) ''art_x'' = Some rec \<and> af_StorageKey rec = '''')"
proof -
  obtain j where j: "map_of (js_byID store_copied) ''j'' = Some j" "jb_artifactIDs j = [(ref_one, ''art_x'')]" using store_copied_values by auto
  obtain as t where r: "recordArtifacts (\<lambda>_. ''y'') ''j'' [ref_one] store_copied = (as, t)" by (metis prod.exhaust)
  have "as = [''art_x''] \<and> (\<forall>a \<in> set as. \<exists>rec. js_artifacts t a = Some rec \<and> af_StorageKey rec = '''')"
    using listing_forgets_copies [OF j(1) _ r] j(2) by auto
  then show ?thesis using store_copied_values r by auto
qed

end
