(* ===== verification/Sessions.thy ===== *)
theory Sessions
  imports AISW_Prelude
begin

text \<open>
  Console sessions, \<open>ControlPlane/internal/session\<close>: the records, the store interface as a locale and the
  in-memory store. A change of an account closes the subject's gate, which revokes its sessions and keeps new
  ones out until the change has ended or the gate has run out.
\<close>


section \<open>Definitions\<close>

subsection \<open>Records\<close>

datatype session_error = ErrInvalid | ErrUnavailable | ErrMutationActive | ErrContext

definition SubjectTenantUser :: string where "SubjectTenantUser = ''tenant_user''"
definition SubjectPlatformOperator :: string where "SubjectPlatformOperator = ''platform_operator''"
definition MaxSessions :: nat where "MaxSessions = 20"
definition mutationTTL :: duration where "mutationTTL = 30 * second"

record Subject =
  sb_Kind :: string
  sb_ID :: string

record Record =
  sr_ID :: string
  sr_Subject :: Subject
  sr_TenantID :: string
  sr_Role :: string
  sr_ExpiresAt :: go_time

record Gate =
  gt_Subject :: Subject
  gt_Nonce :: string
  gt_RevokedSessions :: nat

definition validSubject :: "Subject \<Rightarrow> bool" where
  "validSubject x \<longleftrightarrow> sb_ID x \<noteq> '''' \<and> (sb_Kind x = SubjectTenantUser \<or> sb_Kind x = SubjectPlatformOperator)"

definition validRecord :: "Record \<Rightarrow> go_time \<Rightarrow> bool" where
  "validRecord r now \<longleftrightarrow> sr_ID r \<noteq> '''' \<and> validSubject (sr_Subject r) \<and> sr_TenantID r \<noteq> '''' \<and> sr_Role r \<noteq> '''' \<and> now < sr_ExpiresAt r"

subsection \<open>The in-memory store\<close>

text \<open>Only the ids of one subject are ever ranged over; the other maps are looked up.\<close>

record gateState =
  gs_nonce :: string
  gs_expiresAt :: go_time

record Memory =
  me_sessions :: "string \<Rightarrow> Record option"
  me_subjects :: "Subject \<Rightarrow> string list option"
  me_gates :: "Subject \<Rightarrow> gateState option"

definition NewMemory :: Memory where
  "NewMemory = \<lparr>me_sessions = (\<lambda>_. None), me_subjects = (\<lambda>_. None), me_gates = (\<lambda>_. None)\<rparr>"

definition gateActive :: "Subject \<Rightarrow> go_time \<Rightarrow> Memory \<Rightarrow> bool \<times> Memory" where
  "gateActive x now m = (case me_gates m x of None \<Rightarrow> (False, m)
     | Some g \<Rightarrow> if \<not> now < gs_expiresAt g then (False, m\<lparr>me_gates := (me_gates m)(x := None)\<rparr>) else (True, m))"

definition session_remove :: "string \<Rightarrow> Subject \<Rightarrow> Memory \<Rightarrow> Memory" where
  "session_remove i x m = m\<lparr>me_sessions := (me_sessions m)(i := None),
     me_subjects := (me_subjects m)(x := (case me_subjects m x of None \<Rightarrow> None
       | Some ids \<Rightarrow> if removeAll i ids = [] then None else Some (removeAll i ids)))\<rparr>"

definition subject_ids :: "Subject \<Rightarrow> Memory \<Rightarrow> string list" where
  "subject_ids x m = (case me_subjects m x of None \<Rightarrow> [] | Some ids \<Rightarrow> ids)"

definition prune :: "Subject \<Rightarrow> go_time \<Rightarrow> Memory \<Rightarrow> Memory" where
  "prune x now m = fold (\<lambda>i m. case me_sessions m i of None \<Rightarrow> session_remove i x m
     | Some r \<Rightarrow> if now < sr_ExpiresAt r then m else session_remove i x m) (subject_ids x m) m"

definition session_revokeAll :: "Subject \<Rightarrow> go_time \<Rightarrow> Memory \<Rightarrow> nat \<times> Memory" where
  "session_revokeAll x now m = (let m' = prune x now m; ids = subject_ids x m'
     in (length ids, m'\<lparr>me_sessions := fold (\<lambda>i f. f(i := None)) ids (me_sessions m'), me_subjects := (me_subjects m')(x := None)\<rparr>))"

definition expires_before :: "Record \<Rightarrow> Record \<Rightarrow> bool" where
  "expires_before a b \<longleftrightarrow> (if sr_ExpiresAt a = sr_ExpiresAt b then sr_ID a < sr_ID b else sr_ExpiresAt a < sr_ExpiresAt b)"

definition enforceBound :: "Subject \<Rightarrow> Memory \<Rightarrow> Memory" where
  "enforceBound x m = (let ids = subject_ids x m in if length ids \<le> MaxSessions then m
     else fold (\<lambda>r. session_remove (sr_ID r) x)
       (take (length ids - MaxSessions) (stable_sort expires_before (map (\<lambda>i. the (me_sessions m i)) ids))) m)"

text \<open>The methods. The first argument tells that the context of the call is done.\<close>

definition session_Create :: "bool \<Rightarrow> go_time \<Rightarrow> Record \<Rightarrow> Memory \<Rightarrow> (session_error + unit) \<times> Memory" where
  "session_Create cancelled now r m =
     (if cancelled then (Inl ErrContext, m) else if \<not> validRecord r now then (Inl ErrInvalid, m)
      else case gateActive (sr_Subject r) now m of (active, m1) \<Rightarrow>
        if active then (Inl ErrMutationActive, m1) else if me_sessions m1 (sr_ID r) \<noteq> None then (Inl ErrInvalid, m1)
        else let m2 = prune (sr_Subject r) now m1; ids = subject_ids (sr_Subject r) m2;
                 m3 = m2\<lparr>me_sessions := (me_sessions m2)(sr_ID r \<mapsto> r), me_subjects := (me_subjects m2)(sr_Subject r \<mapsto> List.insert (sr_ID r) ids)\<rparr>
             in (Inr (), enforceBound (sr_Subject r) m3))"

definition session_Validate :: "bool \<Rightarrow> go_time \<Rightarrow> string \<Rightarrow> Subject \<Rightarrow> string \<Rightarrow> string \<Rightarrow> Memory \<Rightarrow> (session_error + unit) \<times> Memory" where
  "session_Validate cancelled now i x tenantID role m =
     (if cancelled then (Inl ErrContext, m)
      else case gateActive x now m of (active, m1) \<Rightarrow>
        if active then (Inl ErrInvalid, m1)
        else case me_sessions m1 i of None \<Rightarrow> (Inl ErrInvalid, m1)
          | Some r \<Rightarrow> if \<not> now < sr_ExpiresAt r then (Inl ErrInvalid, session_remove i (sr_Subject r) m1)
              else if sr_Subject r \<noteq> x \<or> sr_TenantID r \<noteq> tenantID \<or> sr_Role r \<noteq> role then (Inl ErrInvalid, m1) else (Inr (), m1))"

definition session_Revoke :: "bool \<Rightarrow> go_time \<Rightarrow> Subject \<Rightarrow> string \<Rightarrow> Memory \<Rightarrow> (session_error + bool) \<times> Memory" where
  "session_Revoke cancelled now x i m =
     (if cancelled then (Inl ErrContext, m)
      else case me_sessions m i of None \<Rightarrow> (Inr False, m)
        | Some r \<Rightarrow> if \<not> now < sr_ExpiresAt r then (Inr False, session_remove i (sr_Subject r) m)
            else if sr_Subject r \<noteq> x then (Inr False, m) else (Inr True, session_remove i x m))"

definition session_RevokeAll :: "bool \<Rightarrow> go_time \<Rightarrow> Subject \<Rightarrow> Memory \<Rightarrow> (session_error + nat) \<times> Memory" where
  "session_RevokeAll cancelled now x m = (if cancelled then (Inl ErrContext, m) else case session_revokeAll x now m of (n, m') \<Rightarrow> (Inr n, m'))"

definition BeginMutation :: "bool \<Rightarrow> go_time \<Rightarrow> string \<Rightarrow> Subject \<Rightarrow> Memory \<Rightarrow> (session_error + Gate) \<times> Memory" where
  "BeginMutation cancelled now nonce x m =
     (if cancelled then (Inl ErrContext, m) else if \<not> validSubject x then (Inl ErrInvalid, m)
      else case gateActive x now m of (active, m1) \<Rightarrow>
        if active then (Inl ErrMutationActive, m1)
        else case session_revokeAll x now (m1\<lparr>me_gates := (me_gates m1)(x \<mapsto> \<lparr>gs_nonce = nonce, gs_expiresAt = time_add now mutationTTL\<rparr>)\<rparr>) of
          (n, m2) \<Rightarrow> (Inr \<lparr>gt_Subject = x, gt_Nonce = nonce, gt_RevokedSessions = n\<rparr>, m2))"

definition EndMutation :: "bool \<Rightarrow> go_time \<Rightarrow> Gate \<Rightarrow> Memory \<Rightarrow> (session_error + unit) \<times> Memory" where
  "EndMutation cancelled now g m =
     (if cancelled then (Inl ErrContext, m)
      else case me_gates m (gt_Subject g) of None \<Rightarrow> (Inl ErrInvalid, m)
        | Some st \<Rightarrow> if \<not> now < gs_expiresAt st \<or> gs_nonce st \<noteq> gt_Nonce g then (Inl ErrInvalid, m)
            else (Inr (), m\<lparr>me_gates := (me_gates m)(gt_Subject g := None)\<rparr>))"


section \<open>The interface\<close>

text \<open>
  What the rest of the control plane relies on. \<open>live\<close> are the sessions that have not run out, \<open>gate\<close>
  the nonce of a subject's closed gate.
\<close>

locale session_store =
  fixes ok :: "'s \<Rightarrow> bool"
    and live :: "'s \<Rightarrow> go_time \<Rightarrow> string \<Rightarrow> Record option"
    and gate :: "'s \<Rightarrow> go_time \<Rightarrow> Subject \<Rightarrow> string option"
    and create :: "bool \<Rightarrow> go_time \<Rightarrow> Record \<Rightarrow> 's \<Rightarrow> (session_error + unit) \<times> 's"
    and validate :: "bool \<Rightarrow> go_time \<Rightarrow> string \<Rightarrow> Subject \<Rightarrow> string \<Rightarrow> string \<Rightarrow> 's \<Rightarrow> (session_error + unit) \<times> 's"
    and revoke :: "bool \<Rightarrow> go_time \<Rightarrow> Subject \<Rightarrow> string \<Rightarrow> 's \<Rightarrow> (session_error + bool) \<times> 's"
    and revoke_all :: "bool \<Rightarrow> go_time \<Rightarrow> Subject \<Rightarrow> 's \<Rightarrow> (session_error + nat) \<times> 's"
    and begin_change :: "bool \<Rightarrow> go_time \<Rightarrow> string \<Rightarrow> Subject \<Rightarrow> 's \<Rightarrow> (session_error + Gate) \<times> 's"
    and end_change :: "bool \<Rightarrow> go_time \<Rightarrow> Gate \<Rightarrow> 's \<Rightarrow> (session_error + unit) \<times> 's"
  assumes live_time: "live s now' i = Some r \<Longrightarrow> now \<le> now' \<Longrightarrow> live s now i = Some r"
    and gate_time: "gate s now' x = Some n \<Longrightarrow> now \<le> now' \<Longrightarrow> gate s now x = Some n"
    and bounded: "ok s \<Longrightarrow> finite {i. \<exists>r. live s now i = Some r \<and> sr_Subject r = x} \<and> card {i. \<exists>r. live s now i = Some r \<and> sr_Subject r = x} \<le> MaxSessions"
    and create_law: "ok s \<Longrightarrow> create cancelled now r s = (cr, t) \<Longrightarrow> ok t \<and> gate t now = gate s now
      \<and> (cr = Inr () \<longrightarrow> gate s now (sr_Subject r) = None \<and> live s now (sr_ID r) = None)
      \<and> (\<forall>i q. live t now i = Some q \<longrightarrow> live s now i = Some q \<or> (cr = Inr () \<and> i = sr_ID r \<and> q = r))"
    and validate_law: "ok s \<Longrightarrow> validate cancelled now i x tenant role s = (va, t) \<Longrightarrow> ok t \<and> live t now = live s now \<and> gate t now = gate s now
      \<and> (va = Inr () \<longleftrightarrow> \<not> cancelled \<and> gate s now x = None \<and> (\<exists>r. live s now i = Some r \<and> sr_Subject r = x \<and> sr_TenantID r = tenant \<and> sr_Role r = role))"
    and revoke_law: "ok s \<Longrightarrow> revoke cancelled now x i s = (rv, t) \<Longrightarrow> ok t \<and> gate t now = gate s now
      \<and> live t now = (if rv = Inr True then (live s now)(i := None) else live s now)
      \<and> (\<not> cancelled \<longrightarrow> rv = Inr (\<exists>r. live s now i = Some r \<and> sr_Subject r = x))"
    and revoke_all_law: "ok s \<Longrightarrow> revoke_all cancelled now x s = (ra, t) \<Longrightarrow> ok t \<and> gate t now = gate s now
      \<and> (if cancelled then live t now = live s now else live t now = (\<lambda>i. case live s now i of Some r \<Rightarrow> if sr_Subject r = x then None else Some r | None \<Rightarrow> None))"
    and begin_law: "ok s \<Longrightarrow> begin_change cancelled now nonce x s = (bg, t) \<Longrightarrow> ok t
      \<and> (case bg of Inr g \<Rightarrow> g = \<lparr>gt_Subject = x, gt_Nonce = nonce, gt_RevokedSessions = gt_RevokedSessions g\<rparr> \<and> gate s now x = None
            \<and> gate t now = (gate s now)(x \<mapsto> nonce)
            \<and> live t now = (\<lambda>i. case live s now i of Some r \<Rightarrow> if sr_Subject r = x then None else Some r | None \<Rightarrow> None)
          | Inl e \<Rightarrow> live t now = live s now \<and> gate t now = gate s now \<and> (e = ErrMutationActive \<longrightarrow> gate s now x \<noteq> None))"
    and end_law: "ok s \<Longrightarrow> end_change cancelled now g s = (en, t) \<Longrightarrow> ok t \<and> live t now = live s now
      \<and> (case en of Inr _ \<Rightarrow> gate s now (gt_Subject g) = Some (gt_Nonce g) \<and> gate t now = (gate s now)(gt_Subject g := None)
          | Inl e \<Rightarrow> gate t now = gate s now \<and> (e = ErrInvalid \<longrightarrow> gate s now (gt_Subject g) \<noteq> Some (gt_Nonce g)))"
begin

text \<open>While a gate is closed no session of its subject is live.\<close>

definition sealed :: "'s \<Rightarrow> go_time \<Rightarrow> bool" where
  "sealed s now \<longleftrightarrow> (\<forall>i r. live s now i = Some r \<longrightarrow> gate s now (sr_Subject r) = None)"

definition shut :: "'s \<Rightarrow> go_time \<Rightarrow> Subject \<Rightarrow> bool" where
  "shut s now x \<longleftrightarrow> (\<forall>i r. live s now i = Some r \<longrightarrow> sr_Subject r \<noteq> x)"

lemma shut_time: "shut s now x \<Longrightarrow> now \<le> now' \<Longrightarrow> shut s now' x"
  unfolding shut_def using live_time by blast

lemma sealed_time: "sealed s now \<Longrightarrow> now \<le> now' \<Longrightarrow> sealed s now'"
proof -
  assume s: "sealed s now" "now \<le> now'"
  have "gate s now' (sr_Subject r) \<noteq> Some n" if "live s now' i = Some r" for i r n
    using s live_time [OF that s(2)] gate_time [of s now' "sr_Subject r" n now] by (auto simp: sealed_def)
  then show "sealed s now'" unfolding sealed_def by (meson not_None_eq)
qed

lemma sealed_shut: "sealed s now \<Longrightarrow> gate s now x \<noteq> None \<Longrightarrow> shut s now x"
  by (auto simp: sealed_def shut_def)

lemma sealed_create: "ok s \<Longrightarrow> sealed s now \<Longrightarrow> create cancelled now r s = (res, t) \<Longrightarrow> sealed t now"
  using create_law [of s cancelled now r res t] unfolding sealed_def by metis

lemma sealed_validate: "ok s \<Longrightarrow> sealed s now \<Longrightarrow> validate cancelled now i x tenant role s = (res, t) \<Longrightarrow> sealed t now"
  using validate_law [of s cancelled now i x tenant role res t] unfolding sealed_def by simp

lemma sealed_revoke: "ok s \<Longrightarrow> sealed s now \<Longrightarrow> revoke cancelled now x i s = (res, t) \<Longrightarrow> sealed t now"
  using revoke_law [of s cancelled now x i res t] unfolding sealed_def by (auto split: if_splits)

lemma sealed_revoke_all: "ok s \<Longrightarrow> sealed s now \<Longrightarrow> revoke_all cancelled now x s = (res, t) \<Longrightarrow> sealed t now"
  using revoke_all_law [of s cancelled now x res t] unfolding sealed_def by (auto split: if_splits option.splits)

lemma sealed_begin: "ok s \<Longrightarrow> sealed s now \<Longrightarrow> begin_change cancelled now nonce x s = (res, t) \<Longrightarrow> sealed t now"
  using begin_law [of s cancelled now nonce x res t] unfolding sealed_def by (auto split: if_splits option.splits sum.splits)

lemma sealed_end: "ok s \<Longrightarrow> sealed s now \<Longrightarrow> end_change cancelled now g s = (res, t) \<Longrightarrow> sealed t now"
  using end_law [of s cancelled now g res t] unfolding sealed_def by (auto split: sum.splits)

text \<open>A change that ends well, or meets another one, leaves no session of its subject.\<close>

lemma end_shut: "ok s \<Longrightarrow> sealed s now \<Longrightarrow> end_change cancelled now g s = (Inr u, t) \<Longrightarrow> shut t now (gt_Subject g)"
  using end_law [of s cancelled now g "Inr u" t] sealed_shut [of s now "gt_Subject g"] by (simp add: shut_def)

lemma begin_shut: "ok s \<Longrightarrow> sealed s now \<Longrightarrow> begin_change cancelled now nonce x s = (res, t) \<Longrightarrow> res = Inl ErrMutationActive \<or> (\<exists>g. res = Inr g) \<Longrightarrow> shut t now x"
  using begin_law [of s cancelled now nonce x res t] sealed_shut [of s now x] by (fastforce simp: shut_def split: option.splits if_splits)

lemmas sealed_ops = sealed_create sealed_validate sealed_revoke sealed_revoke_all sealed_begin sealed_end

end



section \<open>The in-memory store provides it\<close>

definition mem_live :: "Memory \<Rightarrow> go_time \<Rightarrow> string \<Rightarrow> Record option" where
  "mem_live m now i = (case me_sessions m i of None \<Rightarrow> None | Some r \<Rightarrow> if now < sr_ExpiresAt r then Some r else None)"

definition mem_gate :: "Memory \<Rightarrow> go_time \<Rightarrow> Subject \<Rightarrow> string option" where
  "mem_gate m now x = (case me_gates m x of None \<Rightarrow> None | Some g \<Rightarrow> if now < gs_expiresAt g then Some (gs_nonce g) else None)"

text \<open>The index of a subject lists its sessions.\<close>

definition mem_ok :: "Memory \<Rightarrow> bool" where
  "mem_ok m \<longleftrightarrow> (\<forall>i r. me_sessions m i = Some r \<longrightarrow> sr_ID r = i \<and> i \<in> set (subject_ids (sr_Subject r) m))
     \<and> (\<forall>x. me_subjects m x \<noteq> Some [] \<and> distinct (subject_ids x m) \<and> length (subject_ids x m) \<le> MaxSessions
          \<and> (\<forall>i \<in> set (subject_ids x m). \<exists>r. me_sessions m i = Some r \<and> sr_Subject r = x))"

definition mem_filed :: "Memory \<Rightarrow> bool" where
  "mem_filed m \<longleftrightarrow> (\<forall>i r. me_sessions m i = Some r \<longrightarrow> sr_ID r = i \<and> i \<in> set (subject_ids (sr_Subject r) m))
     \<and> (\<forall>x. me_subjects m x \<noteq> Some [] \<and> distinct (subject_ids x m) \<and> (\<forall>i \<in> set (subject_ids x m). \<exists>r. me_sessions m i = Some r \<and> sr_Subject r = x))"

lemma mem_ok_filed: "mem_ok m \<longleftrightarrow> mem_filed m \<and> (\<forall>x. length (subject_ids x m) \<le> MaxSessions)"
  by (auto simp: mem_ok_def mem_filed_def)

lemma subject_ids_gates [simp]: "subject_ids x (m\<lparr>me_gates := g\<rparr>) = subject_ids x m" "mem_filed (m\<lparr>me_gates := g\<rparr>) = mem_filed m" "mem_ok (m\<lparr>me_gates := g\<rparr>) = mem_ok m"
  by (simp_all add: subject_ids_def mem_filed_def mem_ok_def)

lemma filed_subject: "mem_filed m \<Longrightarrow> i \<in> set (subject_ids x m) \<longleftrightarrow> (\<exists>r. me_sessions m i = Some r \<and> sr_Subject r = x)"
  by (auto simp: mem_filed_def)

text \<open>Removing one session of a subject.\<close>

lemma remove_simps:
  "me_gates (session_remove i x m) = me_gates m" "me_sessions (session_remove i x m) = (me_sessions m)(i := None)"
  "subject_ids y (session_remove i x m) = (if y = x then removeAll i (subject_ids x m) else subject_ids y m)"
  by (auto simp: session_remove_def subject_ids_def split: option.splits)

lemma remove_filed:
  assumes "mem_filed m" "i \<in> set (subject_ids x m)"
  shows "mem_filed (session_remove i x m)"
proof -
  have "me_subjects (session_remove i x m) y \<noteq> Some []" for y
    using assms by (auto simp: session_remove_def mem_filed_def split: option.splits)
  then show ?thesis using assms unfolding mem_filed_def by (auto simp: remove_simps distinct_removeAll split: if_splits) (metis option.inject)+
qed

lemma remove_list:
  assumes "mem_filed m" "distinct is" "set is \<subseteq> set (subject_ids x m)"
  shows "mem_filed (fold (\<lambda>i. session_remove i x) is m) \<and> me_gates (fold (\<lambda>i. session_remove i x) is m) = me_gates m
    \<and> me_sessions (fold (\<lambda>i. session_remove i x) is m) = (\<lambda>i. if i \<in> set is then None else me_sessions m i)
    \<and> subject_ids y (fold (\<lambda>i. session_remove i x) is m) = (if y = x then filter (\<lambda>i. i \<notin> set is) (subject_ids x m) else subject_ids y m)"
  using assms
proof (induction "is" arbitrary: m)
  case (Cons i "is")
  have "mem_filed (session_remove i x m)" using Cons.prems by (intro remove_filed) auto
  moreover have "set is \<subseteq> set (subject_ids x (session_remove i x m))" using Cons.prems by (auto simp: remove_simps)
  ultimately show ?case using Cons.IH [of "session_remove i x m"] Cons.prems
    by (auto simp: remove_simps fun_eq_iff removeAll_filter_not_eq intro: filter_cong)
qed auto


definition lapsed :: "go_time \<Rightarrow> Memory \<Rightarrow> string \<Rightarrow> bool" where
  "lapsed now m i \<longleftrightarrow> (case me_sessions m i of None \<Rightarrow> True | Some r \<Rightarrow> \<not> now < sr_ExpiresAt r)"

lemma prune_fold:
  assumes "distinct is"
  shows "fold (\<lambda>i m. case me_sessions m i of None \<Rightarrow> session_remove i x m | Some r \<Rightarrow> if now < sr_ExpiresAt r then m else session_remove i x m) is m
     = fold (\<lambda>i. session_remove i x) (filter (lapsed now m) is) m"
  using assms
proof (induction "is" arbitrary: m)
  case (Cons i "is")
  have "filter (lapsed now (session_remove i x m)) is = filter (lapsed now m) is" using Cons.prems by (intro filter_cong) (auto simp: lapsed_def remove_simps)
  moreover have "(case me_sessions m i of None \<Rightarrow> session_remove i x m | Some r \<Rightarrow> if now < sr_ExpiresAt r then m else session_remove i x m)
      = (if lapsed now m i then session_remove i x m else m)" by (simp add: lapsed_def split: option.splits)
  ultimately show ?case using Cons by simp
qed simp

lemma prune_eq:
  assumes "mem_filed m"
  shows "mem_filed (prune x now m) \<and> me_gates (prune x now m) = me_gates m \<and> mem_live (prune x now m) now = mem_live m now
    \<and> (\<forall>y. set (subject_ids y (prune x now m)) \<subseteq> set (subject_ids y m) \<and> length (subject_ids y (prune x now m)) \<le> length (subject_ids y m))
    \<and> (\<forall>i \<in> set (subject_ids x (prune x now m)). \<exists>r. me_sessions (prune x now m) i = Some r \<and> now < sr_ExpiresAt r)
    \<and> (\<forall>i. me_sessions m i = None \<longrightarrow> me_sessions (prune x now m) i = None)"
proof -
  let ?is = "filter (lapsed now m) (subject_ids x m)"
  have d: "distinct (subject_ids x m)" using assms by (simp add: mem_filed_def)
  have p: "prune x now m = fold (\<lambda>i. session_remove i x) ?is m" unfolding prune_def using prune_fold [OF d] .
  have r: "mem_filed (prune x now m)" "me_gates (prune x now m) = me_gates m" "me_sessions (prune x now m) = (\<lambda>i. if i \<in> set ?is then None else me_sessions m i)"
    "subject_ids y (prune x now m) = (if y = x then filter (\<lambda>i. i \<notin> set ?is) (subject_ids x m) else subject_ids y m)" for y
    unfolding p using remove_list [OF assms, of ?is x] d by auto
  have "mem_live (prune x now m) now = mem_live m now" by (auto simp: mem_live_def r(3) lapsed_def fun_eq_iff split: option.splits)
  moreover have "\<exists>q. me_sessions (prune x now m) i = Some q \<and> now < sr_ExpiresAt q" if "i \<in> set (subject_ids x (prune x now m))" for i
    using that assms by (auto simp: r lapsed_def split: option.splits)
  ultimately show ?thesis using r by (auto simp: length_filter_le)
qed

lemma fold_forget: "fold (\<lambda>i f. f(i := None)) is f = (\<lambda>i. if i \<in> set is then None else f i)"
  by (induction "is" arbitrary: f) (auto simp: fun_eq_iff)

lemma revokeAll_eq:
  assumes "mem_ok m" "session_revokeAll x now m = (n, t)"
  shows "mem_ok t \<and> me_gates t = me_gates m
    \<and> mem_live t now = (\<lambda>i. case mem_live m now i of Some r \<Rightarrow> if sr_Subject r = x then None else Some r | None \<Rightarrow> None)"
proof -
  let ?p = "prune x now m"
  have p: "mem_filed ?p" "me_gates ?p = me_gates m" "mem_live ?p now = mem_live m now" "\<And>y. length (subject_ids y ?p) \<le> length (subject_ids y m)"
    using prune_eq [of m x now] assms(1) by (auto simp: mem_ok_filed)
  have t: "t = ?p\<lparr>me_sessions := (\<lambda>i. if i \<in> set (subject_ids x ?p) then None else me_sessions ?p i), me_subjects := (me_subjects ?p)(x := None)\<rparr>"
    using assms(2) by (simp add: session_revokeAll_def Let_def fold_forget)
  have ids: "subject_ids y t = (if y = x then [] else subject_ids y ?p)" for y by (simp add: t subject_ids_def)
  have "mem_filed t" using p(1) filed_subject [OF p(1)] unfolding mem_filed_def ids by (auto simp: t)
  moreover have "length (subject_ids y t) \<le> MaxSessions" for y using p(4) [of y] assms(1) by (auto simp: ids mem_ok_filed intro: order_trans)
  moreover have "mem_live t now i = (case mem_live ?p now i of Some r \<Rightarrow> if sr_Subject r = x then None else Some r | None \<Rightarrow> None)" for i
    using filed_subject [OF p(1)] by (auto simp: t mem_live_def split: option.splits)
  ultimately show ?thesis using p(2,3) by (auto simp: mem_ok_filed t fun_eq_iff)
qed

lemma take_of_mset: "mset xs = mset ys \<Longrightarrow> distinct ys \<Longrightarrow> distinct (take k xs) \<and> set (take k xs) \<subseteq> set ys"
  using mset_eq_imp_distinct_iff [of xs ys] mset_eq_setD [of xs ys] set_take_subset [of k xs] by simp

lemma length_filter_out:
  assumes "distinct ys" "distinct gs" "set gs \<subseteq> set ys"
  shows "length (filter (\<lambda>i. i \<notin> set gs) ys) = length ys - length gs"
proof -
  have "length (filter (\<lambda>i. i \<notin> set gs) ys) = card (set ys - set gs)" using assms(1) by (subst distinct_card [symmetric]) (auto intro: arg_cong [where f = card])
  then show ?thesis using assms by (simp add: card_Diff_subset distinct_card)
qed

lemma enforceBound_eq:
  assumes "mem_filed m" "length (subject_ids x m) \<le> Suc MaxSessions" "\<And>y. y \<noteq> x \<Longrightarrow> length (subject_ids y m) \<le> MaxSessions"
  shows "mem_ok (enforceBound x m) \<and> me_gates (enforceBound x m) = me_gates m \<and> (\<forall>i r. me_sessions (enforceBound x m) i = Some r \<longrightarrow> me_sessions m i = Some r)"
proof (cases "length (subject_ids x m) \<le> MaxSessions")
  case True
  then show ?thesis using assms by (auto simp: enforceBound_def mem_ok_filed) (metis)
next
  case False
  let ?ids = "subject_ids x m" and ?rs = "map (\<lambda>i. the (me_sessions m i)) (subject_ids x m)"
  let ?gone = "map sr_ID (take (length ?ids - MaxSessions) (stable_sort expires_before ?rs))"
  have f: "\<exists>r. me_sessions m i = Some r \<and> sr_ID r = i" if "i \<in> set ?ids" for i using assms(1) that unfolding mem_filed_def by metis
  have "map sr_ID ?rs = ?ids" using f by (simp add: map_idI) (rule map_idI, force)
  then have m: "mset (map sr_ID (stable_sort expires_before ?rs)) = mset ?ids" by (metis mset_map mset_stable_sort)
  have d: "distinct ?ids" using assms(1) by (simp add: mem_filed_def)
  have g: "?gone = take (length ?ids - MaxSessions) (map sr_ID (stable_sort expires_before ?rs))" by (simp add: take_map)
  have gone: "distinct ?gone" "set ?gone \<subseteq> set ?ids" unfolding g using take_of_mset [OF m d] by blast+
  have len: "length ?gone = length ?ids - MaxSessions" by simp
  have e: "enforceBound x m = fold (\<lambda>i. session_remove i x) ?gone m" using False by (simp add: enforceBound_def Let_def fold_map comp_def)
  have r: "mem_filed (enforceBound x m)" "me_gates (enforceBound x m) = me_gates m"
    "me_sessions (enforceBound x m) = (\<lambda>i. if i \<in> set ?gone then None else me_sessions m i)"
    "subject_ids y (enforceBound x m) = (if y = x then filter (\<lambda>i. i \<notin> set ?gone) ?ids else subject_ids y m)" for y
    unfolding e using remove_list [OF assms(1) gone(1,2)] by auto
  have "length (filter (\<lambda>i. i \<notin> set ?gone) ?ids) = length ?ids - length ?gone" using length_filter_out [OF d gone] .
  then have "length (subject_ids y (enforceBound x m)) \<le> MaxSessions" for y using len False assms(3) [of y] by (auto simp: r(4) simp del: set_map)
  then show ?thesis using r by (auto simp: mem_ok_filed split: if_splits)
qed


lemma mem_live_Some: "mem_live m now i = Some r \<longleftrightarrow> me_sessions m i = Some r \<and> now < sr_ExpiresAt r"
  by (auto simp: mem_live_def split: option.splits)

lemma gateActive_eq:
  "gateActive x now m = (b, t) \<Longrightarrow> b = (mem_gate m now x \<noteq> None) \<and> me_sessions t = me_sessions m \<and> me_subjects t = me_subjects m
     \<and> mem_gate t now = mem_gate m now \<and> mem_live t = mem_live m \<and> mem_ok t = mem_ok m"
  by (auto simp: gateActive_def mem_gate_def mem_live_def fun_eq_iff split: option.splits if_splits)

lemma mem_gate_cong: "me_gates t = me_gates m \<Longrightarrow> mem_gate t = mem_gate m"
  by (simp add: mem_gate_def fun_eq_iff)

lemma remove_ok:
  assumes "mem_ok m" "me_sessions m i = Some r"
  shows "mem_ok (session_remove i (sr_Subject r) m)"
proof -
  have f: "mem_filed m" "\<And>y. length (subject_ids y m) \<le> MaxSessions" using assms(1) by (simp_all add: mem_ok_filed)
  have "i \<in> set (subject_ids (sr_Subject r) m)" using f(1) assms(2) by (simp add: mem_filed_def)
  then have "mem_filed (session_remove i (sr_Subject r) m)" using remove_filed [OF f(1)] by simp
  moreover have "length (subject_ids y (session_remove i (sr_Subject r) m)) \<le> MaxSessions" for y
    using f(2) [of y] by (auto simp: remove_simps removeAll_filter_not_eq intro: order_trans [OF length_filter_le])
  ultimately show ?thesis by (simp add: mem_ok_filed)
qed

lemma remove_live: "mem_live (session_remove i x m) now = (mem_live m now)(i := None)" "mem_gate (session_remove i x m) = mem_gate m"
  by (auto simp: mem_live_def mem_gate_def remove_simps fun_eq_iff)

lemma create_mem:
  assumes "mem_ok m" "session_Create cancelled now r m = (res, t)"
  shows "mem_ok t \<and> mem_gate t now = mem_gate m now \<and> (res = Inr () \<longrightarrow> mem_gate m now (sr_Subject r) = None \<and> mem_live m now (sr_ID r) = None)
    \<and> (\<forall>i q. mem_live t now i = Some q \<longrightarrow> mem_live m now i = Some q \<or> (res = Inr () \<and> i = sr_ID r \<and> q = r))"
proof -
  let ?x = "sr_Subject r"
  obtain b m1 where g: "gateActive ?x now m = (b, m1)" by (metis prod.exhaust)
  note ge = gateActive_eq [OF g]
  show ?thesis
  proof (cases "cancelled \<or> \<not> validRecord r now \<or> b \<or> me_sessions m1 (sr_ID r) \<noteq> None")
    case True
    then have "res \<noteq> Inr () \<and> (t = m \<or> t = m1)" using assms(2) g by (auto simp: session_Create_def split: if_splits)
    then show ?thesis using ge assms(1) by auto
  next
    case False
    let ?m2 = "prune ?x now m1"
    let ?m3 = "?m2\<lparr>me_sessions := (me_sessions ?m2)(sr_ID r \<mapsto> r), me_subjects := (me_subjects ?m2)(?x \<mapsto> List.insert (sr_ID r) (subject_ids ?x ?m2))\<rparr>"
    have t: "res = Inr ()" "t = enforceBound ?x ?m3" using False assms(2) g by (auto simp: session_Create_def Let_def)
    have f1: "mem_filed m1" "\<And>y. length (subject_ids y m1) \<le> MaxSessions" using ge assms(1) by (auto simp: mem_ok_filed)
    have m2: "mem_filed ?m2" "me_gates ?m2 = me_gates m1" "mem_live ?m2 now = mem_live m1 now" "me_sessions ?m2 (sr_ID r) = None"
      "length (subject_ids y ?m2) \<le> MaxSessions" for y
      using prune_eq [OF f1(1), of ?x now] f1(2) [of y] False by (auto intro: order_trans)
    have new: "sr_ID r \<notin> set (subject_ids y ?m2)" for y using m2(1,4) by (auto simp: filed_subject)
    have ids: "subject_ids y ?m3 = (if y = ?x then sr_ID r # subject_ids ?x ?m2 else subject_ids y ?m2)" for y using new [of ?x] by (simp add: subject_ids_def)
    have m3: "mem_filed ?m3" using m2(1,4) new unfolding mem_filed_def ids by (auto simp: subject_ids_def split: option.splits) (metis option.distinct(1))+
    have e: "mem_ok t" "me_gates t = me_gates ?m3" "\<And>i q. me_sessions t i = Some q \<Longrightarrow> me_sessions ?m3 i = Some q"
      unfolding t(2) using enforceBound_eq [OF m3, of ?x] m2(5) by (auto simp: ids)
    have "mem_gate t now = mem_gate m now" using mem_gate_cong [of t m1] e(2) m2(2) ge by simp
    moreover have "mem_live m now i = Some q \<or> i = sr_ID r \<and> q = r" if "mem_live t now i = Some q" for i q
    proof -
      have q: "me_sessions ?m3 i = Some q" "now < sr_ExpiresAt q" using that e(3) by (auto simp: mem_live_Some)
      then have "i = sr_ID r \<and> q = r \<or> mem_live ?m2 now i = Some q" by (auto simp: mem_live_Some split: if_splits)
      then show ?thesis using m2(3) ge by auto
    qed
    moreover have "mem_live m now (sr_ID r) = None" using False ge by (simp add: mem_live_def)
    ultimately show ?thesis using e(1) t(1) False ge by auto
  qed
qed


lemma validate_mem:
  assumes "mem_ok m" "session_Validate cancelled now i x tenant role m = (res, t)"
  shows "mem_ok t \<and> mem_live t now = mem_live m now \<and> mem_gate t now = mem_gate m now
    \<and> (res = Inr () \<longleftrightarrow> \<not> cancelled \<and> mem_gate m now x = None \<and> (\<exists>r. mem_live m now i = Some r \<and> sr_Subject r = x \<and> sr_TenantID r = tenant \<and> sr_Role r = role))"
proof -
  obtain b m1 where g: "gateActive x now m = (b, m1)" by (metis prod.exhaust)
  note ge = gateActive_eq [OF g]
  have "mem_live m1 now i = None" if "me_sessions m i = Some r" "\<not> now < sr_ExpiresAt r" for r using that ge by (simp add: mem_live_def)
  then show ?thesis using assms g ge remove_ok [of m1 i]
    by (auto simp: session_Validate_def mem_live_Some remove_live mem_live_def split: if_splits option.splits)
qed

lemma revoke_mem:
  assumes "mem_ok m" "session_Revoke cancelled now x i m = (res, t)"
  shows "mem_ok t \<and> mem_gate t now = mem_gate m now \<and> mem_live t now = (if res = Inr True then (mem_live m now)(i := None) else mem_live m now)
    \<and> (\<not> cancelled \<longrightarrow> res = Inr (\<exists>r. mem_live m now i = Some r \<and> sr_Subject r = x))"
  using assms remove_ok [of m i]
  by (auto simp: session_Revoke_def mem_live_Some remove_live fun_eq_iff split: if_splits option.splits) (auto simp: mem_live_def)

lemma begin_mem:
  assumes "mem_ok m" "BeginMutation cancelled now nonce x m = (res, t)"
  shows "mem_ok t \<and> (case res of Inr g \<Rightarrow> g = \<lparr>gt_Subject = x, gt_Nonce = nonce, gt_RevokedSessions = gt_RevokedSessions g\<rparr> \<and> mem_gate m now x = None
        \<and> mem_gate t now = (mem_gate m now)(x \<mapsto> nonce)
        \<and> mem_live t now = (\<lambda>i. case mem_live m now i of Some r \<Rightarrow> if sr_Subject r = x then None else Some r | None \<Rightarrow> None)
      | Inl e \<Rightarrow> mem_live t now = mem_live m now \<and> mem_gate t now = mem_gate m now \<and> (e = ErrMutationActive \<longrightarrow> mem_gate m now x \<noteq> None))"
proof -
  obtain b m1 where g: "gateActive x now m = (b, m1)" by (metis prod.exhaust)
  note ge = gateActive_eq [OF g]
  show ?thesis
  proof (cases "cancelled \<or> \<not> validSubject x \<or> b")
    case True
    then show ?thesis using assms g ge by (auto simp: BeginMutation_def split: if_splits)
  next
    case False
    let ?m1 = "m1\<lparr>me_gates := (me_gates m1)(x \<mapsto> \<lparr>gs_nonce = nonce, gs_expiresAt = time_add now mutationTTL\<rparr>)\<rparr>"
    obtain n t' where r: "session_revokeAll x now ?m1 = (n, t')" by (metis prod.exhaust)
    have t: "res = Inr \<lparr>gt_Subject = x, gt_Nonce = nonce, gt_RevokedSessions = n\<rparr>" "t = t'" using False assms(2) g r by (auto simp: BeginMutation_def)
    have "mem_ok ?m1" using ge assms(1) by simp
    note e = revokeAll_eq [OF this r]
    have "mem_gate t' now y = ((mem_gate m1 now)(x \<mapsto> nonce)) y" for y using e by (simp add: mem_gate_def time_add_def mutationTTL_def)
    moreover have "mem_live ?m1 = mem_live m1" by (simp add: mem_live_def fun_eq_iff)
    ultimately show ?thesis using e t ge False by (auto simp: fun_eq_iff)
  qed
qed

lemma end_mem:
  assumes "mem_ok m" "EndMutation cancelled now g m = (res, t)"
  shows "mem_ok t \<and> mem_live t now = mem_live m now \<and> (case res of Inr _ \<Rightarrow> mem_gate m now (gt_Subject g) = Some (gt_Nonce g) \<and> mem_gate t now = (mem_gate m now)(gt_Subject g := None)
      | Inl e \<Rightarrow> mem_gate t now = mem_gate m now \<and> (e = ErrInvalid \<longrightarrow> mem_gate m now (gt_Subject g) \<noteq> Some (gt_Nonce g)))"
  using assms by (auto simp: EndMutation_def mem_gate_def mem_live_def fun_eq_iff split: if_splits option.splits)

lemma bounded_mem:
  assumes "mem_ok m"
  shows "finite {i. \<exists>r. mem_live m now i = Some r \<and> sr_Subject r = x} \<and> card {i. \<exists>r. mem_live m now i = Some r \<and> sr_Subject r = x} \<le> MaxSessions"
proof -
  have "{i. \<exists>r. mem_live m now i = Some r \<and> sr_Subject r = x} \<subseteq> set (subject_ids x m)" using assms by (auto simp: mem_live_Some mem_ok_def)
  moreover have "card (set (subject_ids x m)) \<le> MaxSessions" using order_trans [OF card_length, of "subject_ids x m" MaxSessions] assms by (simp add: mem_ok_def)
  ultimately show ?thesis using card_mono [of "set (subject_ids x m)"] finite_subset [of _ "set (subject_ids x m)"] by (meson List.finite_set order_trans)
qed

interpretation mem: session_store mem_ok mem_live mem_gate session_Create session_Validate session_Revoke session_RevokeAll BeginMutation EndMutation
proof
  show "mem_live s now' i = Some r \<Longrightarrow> now \<le> now' \<Longrightarrow> mem_live s now i = Some r" for s now' i r now by (auto simp: mem_live_Some)
  show "mem_gate s now' x = Some n \<Longrightarrow> now \<le> now' \<Longrightarrow> mem_gate s now x = Some n" for s now' x n now by (auto simp: mem_gate_def split: option.splits if_splits)
  show "mem_ok s \<Longrightarrow> session_RevokeAll cancelled now x s = (ra, t) \<Longrightarrow> mem_ok t \<and> mem_gate t now = mem_gate s now
      \<and> (if cancelled then mem_live t now = mem_live s now else mem_live t now = (\<lambda>i. case mem_live s now i of Some r \<Rightarrow> if sr_Subject r = x then None else Some r | None \<Rightarrow> None))"
    for s cancelled now x ra t
    using revokeAll_eq [of s x now] by (auto simp: session_RevokeAll_def mem_gate_def split: prod.splits)
qed (erule bounded_mem | erule (1) create_mem validate_mem revoke_mem begin_mem end_mem)+

lemma NewMemory_ok: "mem_ok NewMemory" "mem.sealed NewMemory now" "mem_live NewMemory now = (\<lambda>_. None)" "mem_gate NewMemory now = (\<lambda>_. None)"
  by (auto simp: NewMemory_def mem_ok_def subject_ids_def mem.sealed_def mem_live_def mem_gate_def fun_eq_iff)

end
