(* ===== verification/Programs.thy ===== *)
theory Programs
  imports AISW_Prelude
begin

text \<open>
  Handlers that make several calls on shared state. A handler is a program whose steps are the calls it makes, in
  the order in which it makes them; between two steps any other handler may run. An invariant that each step of
  each handler keeps holds in every interleaving, and is proved of one handler at a time.
\<close>


section \<open>Definitions\<close>

text \<open>
  A step takes what the environment gives it (drawn random values, whether the context of the request is done, the
  outcome of a call that can be lost) and the shared state.
\<close>

record inputs =
  in_random :: string
  in_cancelled :: bool
  in_lost :: bool

datatype ('w, 'r) prog = Return 'r | Step "inputs \<Rightarrow> 'w \<Rightarrow> 'w \<times> ('w, 'r) prog"

primrec andThen :: "('w, 'a) prog \<Rightarrow> ('a \<Rightarrow> ('w, 'b) prog) \<Rightarrow> ('w, 'b) prog" where
  "andThen (Return a) k = k a"
| "andThen (Step f) k = Step (\<lambda>i w. map_prod id (\<lambda>p. andThen p k) (f i w))"

definition atomic :: "(inputs \<Rightarrow> 'w \<Rightarrow> 'r \<times> 'w) \<Rightarrow> ('w, 'r) prog" where
  "atomic f = Step (\<lambda>i w. case f i w of (r, w') \<Rightarrow> (w', Return r))"

text \<open>\<open>if err != nil { return err }\<close>, over calls that answer with an error or a value.\<close>

definition andThenE :: "('w, 'e + 'a) prog \<Rightarrow> ('a \<Rightarrow> ('w, 'e + 'b) prog) \<Rightarrow> ('w, 'e + 'b) prog" where
  "andThenE p k = andThen p (\<lambda>r. case r of Inl e \<Rightarrow> Return (Inl e) | Inr a \<Rightarrow> k a)"

text \<open>A system: the shared state and the handlers that run, in the order in which they were started.\<close>

record ('w, 'r) system =
  sy_world :: 'w
  sy_calls :: "('w, 'r) prog list"

datatype 'q sys_event = Start 'q | Go nat inputs | Elapse duration

fun sys_next :: "('q \<Rightarrow> ('w, 'r) prog) \<Rightarrow> (duration \<Rightarrow> 'w \<Rightarrow> 'w) \<Rightarrow> 'q sys_event \<Rightarrow> ('w, 'r) system \<Rightarrow> ('w, 'r) system option" where
  "sys_next handler tick (Start q) s = Some (s\<lparr>sy_calls := sy_calls s @ [handler q]\<rparr>)"
| "sys_next handler tick (Go k i) s = (if k < length (sy_calls s) then (case sy_calls s ! k of Return _ \<Rightarrow> None
     | Step f \<Rightarrow> (case f i (sy_world s) of (w, p) \<Rightarrow> Some (s\<lparr>sy_world := w, sy_calls := (sy_calls s)[k := p]\<rparr>))) else None)"
| "sys_next handler tick (Elapse d) s = (if 0 \<le> d then Some (s\<lparr>sy_world := tick d (sy_world s)\<rparr>) else None)"

text \<open>\<open>env i w\<close>: what the environment may give to a step in state \<open>w\<close>; random values, for instance, are new.\<close>

fun admits :: "(inputs \<Rightarrow> 'w \<Rightarrow> bool) \<Rightarrow> 'q sys_event \<Rightarrow> 'w \<Rightarrow> bool" where
  "admits env (Go k i) w = env i w"
| "admits env _ w = True"

definition sys_step :: "('q \<Rightarrow> ('w, 'r) prog) \<Rightarrow> (duration \<Rightarrow> 'w \<Rightarrow> 'w) \<Rightarrow> (inputs \<Rightarrow> 'w \<Rightarrow> bool)
    \<Rightarrow> ('w, 'r) system \<Rightarrow> 'q sys_event \<Rightarrow> ('w, 'r) system \<Rightarrow> bool" where
  "sys_step handler tick env s e t \<longleftrightarrow> admits env e (sy_world s) \<and> sys_next handler tick e s = Some t"

primrec sys_trace :: "('q \<Rightarrow> ('w, 'r) prog) \<Rightarrow> (duration \<Rightarrow> 'w \<Rightarrow> 'w) \<Rightarrow> (inputs \<Rightarrow> 'w \<Rightarrow> bool) \<Rightarrow> 'q sys_event list \<Rightarrow> ('w, 'r) system \<Rightarrow> ('w, 'r) system option" where
  "sys_trace handler tick env [] s = Some s"
| "sys_trace handler tick env (e # es) s = (if admits env e (sy_world s)
     then (case sys_next handler tick e s of None \<Rightarrow> None | Some t \<Rightarrow> sys_trace handler tick env es t) else None)"

lemma sys_trace_run: "sys_trace handler tick env es s = Some t \<Longrightarrow> run (sys_step handler tick env) s es t"
proof (induction es arbitrary: s)
  case (Cons e es)
  then obtain u where u: "admits env e (sy_world s)" "sys_next handler tick e s = Some u" "sys_trace handler tick env es u = Some t" by (auto split: option.splits if_splits)
  then have "sys_step handler tick env s e u" "run (sys_step handler tick env) u es t" using Cons.IH [OF u(3)] by (auto simp: sys_step_def [of _ _ _ _ e])
  then show ?case using run_append [of "sys_step handler tick env" s "[e]" u es t] run_snoc [OF run_Nil, of "sys_step handler tick env" s e u] by simp
qed (simp add: run_Nil)


section \<open>What handlers assure\<close>

text \<open>
  \<open>assured env R Q w p\<close>: the state was \<open>w\<close> after the last step of \<open>p\<close>. Whatever the others do to it, as
  long as they stay within the relation \<open>R\<close>, each step of \<open>p\<close> stays within \<open>R\<close>, and \<open>p\<close> ends with
  a value and a state that satisfy \<open>Q\<close>.
\<close>

inductive assured :: "(inputs \<Rightarrow> 'w \<Rightarrow> bool) \<Rightarrow> ('w \<Rightarrow> 'w \<Rightarrow> bool) \<Rightarrow> ('w \<Rightarrow> 'r \<Rightarrow> bool) \<Rightarrow> 'w \<Rightarrow> ('w, 'r) prog \<Rightarrow> bool" for env R Q where
  assured_Return: "Q w r \<Longrightarrow> assured env R Q w (Return r)"
| assured_Step: "(\<And>i w'. R w w' \<Longrightarrow> env i w' \<Longrightarrow> R w' (fst (f i w')) \<and> assured env R Q (fst (f i w')) (snd (f i w'))) \<Longrightarrow> assured env R Q w (Step f)"

inductive_cases assured_StepE: "assured env R Q w (Step f)"

inductive_simps assured_Return_iff [simp]: "assured env R Q w (Return r)"

lemma assured_andThen:
  assumes "assured env R P w p" "\<And>v a. P v a \<Longrightarrow> assured env R Q v (k a)"
  shows "assured env R Q w (andThen p k)"
  using assms(1)
proof (induction rule: assured.induct)
  case (assured_Step w f)
  then show ?case by (auto intro!: assured.assured_Step)
qed (simp add: assms(2))

lemma assured_andThenE:
  assumes "assured env R P w p" "\<And>v a. P v (Inr a) \<Longrightarrow> assured env R Q v (k a)" "\<And>v e. P v (Inl e) \<Longrightarrow> Q v (Inl e)"
  shows "assured env R Q w (andThenE p k)"
  unfolding andThenE_def using assms(1) by (rule assured_andThen) (auto simp: assms split: sum.splits)

lemma assured_atomic: "(\<And>i v r v'. R w v \<Longrightarrow> env i v \<Longrightarrow> f i v = (r, v') \<Longrightarrow> R v v' \<and> Q v' r) \<Longrightarrow> assured env R Q w (atomic f)"
  unfolding atomic_def by (rule assured_Step) (auto split: prod.splits)

text \<open>What others do within \<open>R\<close> takes nothing away.\<close>

locale rely =
  fixes R :: "'w \<Rightarrow> 'w \<Rightarrow> bool"
  assumes refl: "R w w" and trans: "R u v \<Longrightarrow> R v w \<Longrightarrow> R u w"
begin

lemma assured_rely:
  assumes "assured env R Q w p" "R w v" "\<And>u r. Q u r \<Longrightarrow> Q v r"
  shows "assured env R Q v p"
  using assms(1,2)
proof (induction rule: assured.cases)
  case (assured_Step w f)
  then show ?case by (auto intro!: assured.assured_Step dest: trans)
qed (simp add: assms(3))

definition all_assured :: "(inputs \<Rightarrow> 'w \<Rightarrow> bool) \<Rightarrow> ('r \<Rightarrow> bool) \<Rightarrow> ('w, 'r) system \<Rightarrow> bool" where
  "all_assured env Q s \<longleftrightarrow> (\<forall>p \<in> set (sy_calls s). assured env R (\<lambda>_. Q) (sy_world s) p)"

lemma assured_step:
  assumes "sys_step handler tick env s e t" "all_assured env Q s" "\<And>d w. 0 \<le> d \<Longrightarrow> R w (tick d w)" "\<And>q. e = Start q \<Longrightarrow> assured env R (\<lambda>_. Q) (sy_world s) (handler q)"
  shows "R (sy_world s) (sy_world t) \<and> all_assured env Q t"
proof (cases e)
  case (Start q)
  then show ?thesis using assms by (auto simp: sys_step_def all_assured_def refl)
next
  case (Elapse d)
  then have t: "0 \<le> d" "sy_world t = tick d (sy_world s)" "sy_calls t = sy_calls s" using assms(1) by (auto simp: sys_step_def split: if_splits)
  then show ?thesis using assms(2,3) assured_rely unfolding all_assured_def by metis
next
  case (Go k i)
  then obtain f where f: "k < length (sy_calls s)" "sy_calls s ! k = Step f" "sy_world t = fst (f i (sy_world s))" "sy_calls t = (sy_calls s)[k := snd (f i (sy_world s))]" "env i (sy_world s)"
    using assms(1) by (auto simp: sys_step_def split: if_splits prog.splits prod.splits)
  have "assured env R (\<lambda>_. Q) (sy_world s) (Step f)" using assms(2) f(1,2) unfolding all_assured_def by (metis nth_mem)
  then have g: "R (sy_world s) (sy_world t)" "assured env R (\<lambda>_. Q) (sy_world t) (snd (f i (sy_world s)))" using refl f(3,5) by (auto elim: assured_StepE)
  moreover have "assured env R (\<lambda>_. Q) (sy_world t) p" if "p \<in> set (sy_calls s)" for p
    using that assms(2) assured_rely [OF _ g(1)] by (auto simp: all_assured_def)
  ultimately show ?thesis by (auto simp: all_assured_def f(4) dest!: set_update_subset_insert [THEN subsetD])
qed

lemma assured_run:
  assumes "run (sys_step handler tick env) s es t" "all_assured env Q s" "\<And>d w. 0 \<le> d \<Longrightarrow> R w (tick d w)"
    and "\<And>q w. Start q \<in> set es \<Longrightarrow> R (sy_world s) w \<Longrightarrow> assured env R (\<lambda>_. Q) w (handler q)"
  shows "R (sy_world s) (sy_world t) \<and> all_assured env Q t"
  using assms(1,2,4)
proof (induction rule: run.induct)
  case (run_snoc s es s' e s'')
  then have s': "R (sy_world s) (sy_world s')" "all_assured env Q s'" by simp_all
  then have "R (sy_world s') (sy_world s'') \<and> all_assured env Q s''"
    using run_snoc.hyps(2) run_snoc.prems(2) by (intro assured_step [of handler tick env s' e s'']) (auto intro: assms(3))
  then show ?case using s'(1) trans by blast
qed (simp add: refl)

text \<open>The answers of one handler, started in a given state.\<close>

lemma assured_answer:
  assumes "run (sys_step handler tick env) s es t" "all_assured env (\<lambda>_. True) s" "\<And>d w. 0 \<le> d \<Longrightarrow> R w (tick d w)"
    "\<And>q w. Start q \<in> set es \<Longrightarrow> R (sy_world s) w \<Longrightarrow> assured env R (\<lambda>_ _. True) w (handler q)"
    and "k < length (sy_calls s)" "assured env R (\<lambda>_. Q) (sy_world s) (sy_calls s ! k)"
  shows "k < length (sy_calls t) \<and> assured env R (\<lambda>_. Q) (sy_world t) (sy_calls t ! k)"
  using assms(1,2,4,5,6)
proof (induction rule: run.induct)
  case (run_snoc s es s' e s'')
  have IH: "k < length (sy_calls s')" "assured env R (\<lambda>_. Q) (sy_world s') (sy_calls s' ! k)" using run_snoc by simp_all
  have all: "all_assured env (\<lambda>_. True) s'" and reach: "R (sy_world s) (sy_world s')"
    using assured_run [OF run_snoc.hyps(1) run_snoc.prems(1) assms(3)] run_snoc.prems(2) by auto
  have w: "R (sy_world s') (sy_world s'')"
    using assured_step [OF run_snoc.hyps(2) all assms(3)] run_snoc.prems(2) reach by auto
  show ?case
  proof (cases "\<exists>i. e = Go k i")
    case True
    then obtain i where i: "e = Go k i" by blast
    obtain f where f: "sy_calls s' ! k = Step f" "sy_world s'' = fst (f i (sy_world s'))" "sy_calls s'' = (sy_calls s')[k := snd (f i (sy_world s'))]" "env i (sy_world s')"
      using run_snoc.hyps(2) IH(1) by (auto simp: i sys_step_def split: prog.splits prod.splits)
    then show ?thesis using IH refl by (auto elim: assured_StepE)
  next
    case False
    then have "k < length (sy_calls s'')" "sy_calls s'' ! k = sy_calls s' ! k"
      using run_snoc.hyps(2) IH(1) by (cases e; auto simp: sys_step_def nth_append split: prog.splits prod.splits if_splits)+
    then show ?thesis using assured_rely [OF IH(2) w] by simp
  qed
qed simp

end

text \<open>An invariant, as a relation.\<close>

definition keeping :: "('w \<Rightarrow> bool) \<Rightarrow> 'w \<Rightarrow> 'w \<Rightarrow> bool" where
  "keeping I w v \<longleftrightarrow> (I w \<longrightarrow> I v)"

interpretation keeping: rely "keeping I" for I
  by unfold_locales (auto simp: keeping_def)

end
