(* ===== verification/Accounts.thy ===== *)
theory Accounts
  imports JobRecords Sessions Programs Access BillingModel RateLimit
begin

text \<open>
  The control plane's accounts: tenants, their users, platform operators and API keys (\<open>model/model.go\<close>), the
  in-memory store of them (\<open>memstore.go\<close>), and passwords (\<open>logic/password.go\<close>).
\<close>


section \<open>Definitions\<close>

subsection \<open>Rows\<close>

definition StatusActive :: string where "StatusActive = ''active''"
definition StatusSuspended :: string where "StatusSuspended = ''suspended''"
definition StatusRevoked :: string where "StatusRevoked = ''revoked''"
definition RoleOwner :: string where "RoleOwner = ''owner''"
definition RoleAdmin :: string where "RoleAdmin = ''admin''"
definition RoleMember :: string where "RoleMember = ''member''"
definition PlatformScope :: string where "PlatformScope = ''platform''"
definition RolePlatformOperator :: string where "RolePlatformOperator = ''platform_operator''"

record Tenant =
  tn_ID :: string
  tn_Name :: string
  tn_Status :: string
  tn_Limits :: limits
  tn_CreatedAt :: go_time
  tn_UpdatedAt :: go_time

record User =
  us_ID :: string
  us_TenantID :: string
  us_Email :: string
  us_PasswordHash :: string
  us_Name :: string
  us_Role :: string
  us_Status :: string
  us_LastLoginAt :: "go_time option"
  us_CreatedAt :: go_time
  us_UpdatedAt :: go_time

record PlatformOperator =
  po_ID :: string
  po_Email :: string
  po_PasswordHash :: string
  po_Name :: string
  po_Status :: string
  po_LastLoginAt :: "go_time option"
  po_CreatedAt :: go_time
  po_UpdatedAt :: go_time

record APIKey =
  ak_ID :: string
  ak_TenantID :: string
  ak_CreatedBy :: string
  ak_Name :: string
  ak_Hash :: string
  ak_Display :: string
  ak_Status :: string
  ak_ExpiresAt :: "go_time option"
  ak_LastUsedAt :: "go_time option"
  ak_RevokedAt :: "go_time option"
  ak_CreatedAt :: go_time
  ak_UpdatedAt :: go_time

definition Usable :: "APIKey \<Rightarrow> go_time \<Rightarrow> bool" where
  "Usable k now \<longleftrightarrow> ak_Status k = StatusActive \<and> (case ak_ExpiresAt k of None \<Rightarrow> True | Some t \<Rightarrow> now < t)"

record AuditLog =
  al_TenantID :: string
  al_ActorID :: string
  al_Action :: string
  al_Target :: string
  al_CreatedAt :: go_time

subsection \<open>The store\<close>

record accounts =
  ac_tenants :: "(string \<times> Tenant) list"
  ac_users :: "(string \<times> User) list"
  ac_operators :: "(string \<times> PlatformOperator) list"
  ac_keys :: "(string \<times> APIKey) list"
  ac_modelAccess :: "string \<Rightarrow> string list option"
  ac_nodeAccess :: "(string \<times> string list) list"
  ac_billing :: "string \<Rightarrow> TenantBilling option"
  ac_audit :: "AuditLog list"

type_synonym 'a account_op = "accounts \<Rightarrow> (store_error + 'a) \<times> accounts"

definition stamped :: "go_time \<Rightarrow> go_time \<Rightarrow> go_time" where
  "stamped wall createdAt = (if createdAt = 0 then wall else createdAt)"

definition store_CreateTenant :: "go_time \<Rightarrow> Tenant \<Rightarrow> Tenant account_op" where
  "store_CreateTenant wall t a = (case map_of (ac_tenants a) (tn_ID t) of Some _ \<Rightarrow> (Inl Conflict, a)
     | None \<Rightarrow> let t' = t\<lparr>tn_CreatedAt := stamped wall (tn_CreatedAt t), tn_UpdatedAt := wall\<rparr>
         in (Inr t', a\<lparr>ac_tenants := AList.update (tn_ID t) t' (ac_tenants a)\<rparr>))"

definition store_GetTenant :: "string \<Rightarrow> Tenant account_op" where
  "store_GetTenant i a = ((case map_of (ac_tenants a) i of None \<Rightarrow> Inl NotFound | Some t \<Rightarrow> Inr t), a)"

definition store_UpdateTenantLimits :: "go_time \<Rightarrow> string \<Rightarrow> limits \<Rightarrow> unit account_op" where
  "store_UpdateTenantLimits wall i l a = (case map_of (ac_tenants a) i of None \<Rightarrow> (Inl NotFound, a)
     | Some t \<Rightarrow> (Inr (), a\<lparr>ac_tenants := AList.update i (t\<lparr>tn_Limits := l, tn_CreatedAt := stamped wall (tn_CreatedAt t), tn_UpdatedAt := wall\<rparr>) (ac_tenants a)\<rparr>))"

definition store_CreateUser :: "go_time \<Rightarrow> User \<Rightarrow> User account_op" where
  "store_CreateUser wall u a = (if find_value (\<lambda>v. us_Email v = us_Email u) (ac_users a) \<noteq> None then (Inl Conflict, a)
     else let u' = u\<lparr>us_CreatedAt := stamped wall (us_CreatedAt u), us_UpdatedAt := wall\<rparr>
       in (Inr u', a\<lparr>ac_users := AList.update (us_ID u) u' (ac_users a)\<rparr>))"

definition store_GetUser :: "string \<Rightarrow> string \<Rightarrow> User account_op" where
  "store_GetUser tid i a = ((case map_of (ac_users a) i of None \<Rightarrow> Inl NotFound
     | Some u \<Rightarrow> if us_TenantID u \<noteq> tid then Inl NotFound else Inr u), a)"

definition store_GetUserByEmail :: "string \<Rightarrow> User account_op" where
  "store_GetUserByEmail email a = ((case find_value (\<lambda>u. us_Email u = email) (ac_users a) of None \<Rightarrow> Inl NotFound | Some u \<Rightarrow> Inr u), a)"

definition store_MarkUserLogin :: "string \<Rightarrow> go_time \<Rightarrow> unit account_op" where
  "store_MarkUserLogin i at_time a = (case map_of (ac_users a) i of None \<Rightarrow> (Inl NotFound, a)
     | Some u \<Rightarrow> (Inr (), a\<lparr>ac_users := AList.update i (u\<lparr>us_LastLoginAt := Some at_time\<rparr>) (ac_users a)\<rparr>))"

definition activeOwners :: "string \<Rightarrow> accounts \<Rightarrow> nat" where
  "activeOwners tid a = length (filter (\<lambda>(_, u). us_TenantID u = tid \<and> us_Status u = StatusActive \<and> us_Role u = RoleOwner) (ac_users a))"

definition store_UpdateUserPassword :: "string \<Rightarrow> string \<Rightarrow> string \<Rightarrow> AuditLog \<Rightarrow> User account_op" where
  "store_UpdateUserPassword tid i passwordHash audit a = (case map_of (ac_users a) i of None \<Rightarrow> (Inl NotFound, a)
     | Some u \<Rightarrow> if us_TenantID u \<noteq> tid then (Inl NotFound, a)
         else let u' = u\<lparr>us_PasswordHash := passwordHash, us_UpdatedAt := al_CreatedAt audit\<rparr>
           in (Inr u', a\<lparr>ac_users := AList.update i u' (ac_users a), ac_audit := ac_audit a @ [audit]\<rparr>))"

definition store_UpdateUserRole :: "string \<Rightarrow> string \<Rightarrow> string \<Rightarrow> go_time \<Rightarrow> AuditLog \<Rightarrow> (User \<times> bool) account_op" where
  "store_UpdateUserRole tid i role at_time audit a = (case map_of (ac_users a) i of None \<Rightarrow> (Inl NotFound, a)
     | Some u \<Rightarrow> if us_TenantID u \<noteq> tid then (Inl NotFound, a)
         else if us_Role u = role then (Inr (u, False), a)
         else if us_Status u = StatusActive \<and> us_Role u = RoleOwner \<and> role \<noteq> RoleOwner \<and> activeOwners tid a \<le> 1 then (Inl Conflict, a)
         else let u' = u\<lparr>us_Role := role, us_UpdatedAt := at_time\<rparr>
           in (Inr (u', True), a\<lparr>ac_users := AList.update i u' (ac_users a), ac_audit := ac_audit a @ [audit]\<rparr>))"

definition revoke_keys_of :: "string \<Rightarrow> string \<Rightarrow> go_time \<Rightarrow> (string \<times> APIKey) list \<Rightarrow> (string \<times> APIKey) list" where
  "revoke_keys_of tid i at_time = map (\<lambda>(kid, k). (kid, if ak_TenantID k = tid \<and> ak_CreatedBy k = i \<and> ak_Status k = StatusActive
     then k\<lparr>ak_Status := StatusRevoked, ak_RevokedAt := Some at_time, ak_UpdatedAt := at_time\<rparr> else k))"

definition store_SetUserStatus :: "string \<Rightarrow> string \<Rightarrow> string \<Rightarrow> go_time \<Rightarrow> AuditLog \<Rightarrow> (User \<times> bool) account_op" where
  "store_SetUserStatus tid i status at_time audit a = (case map_of (ac_users a) i of None \<Rightarrow> (Inl NotFound, a)
     | Some u \<Rightarrow> if us_TenantID u \<noteq> tid then (Inl NotFound, a)
         else if us_Status u = status then (Inr (u, False), a)
         else if status = StatusSuspended \<and> us_Status u = StatusActive \<and> us_Role u = RoleOwner \<and> activeOwners tid a \<le> 1 then (Inl Conflict, a)
         else let u' = u\<lparr>us_Status := status, us_UpdatedAt := at_time\<rparr>
           in (Inr (u', True), a\<lparr>ac_users := AList.update i u' (ac_users a),
                ac_keys := (if status = StatusSuspended then revoke_keys_of tid i at_time (ac_keys a) else ac_keys a), ac_audit := ac_audit a @ [audit]\<rparr>))"

definition store_CreatePlatformOperator :: "go_time \<Rightarrow> PlatformOperator \<Rightarrow> AuditLog option \<Rightarrow> PlatformOperator account_op" where
  "store_CreatePlatformOperator wall p audit a = (if find_value (\<lambda>v. po_Email v = po_Email p) (ac_operators a) \<noteq> None then (Inl Conflict, a)
     else let p' = p\<lparr>po_CreatedAt := stamped wall (po_CreatedAt p), po_UpdatedAt := wall\<rparr>
       in (Inr p', a\<lparr>ac_operators := AList.update (po_ID p) p' (ac_operators a), ac_audit := ac_audit a @ (case audit of None \<Rightarrow> [] | Some e \<Rightarrow> [e])\<rparr>))"

definition store_GetPlatformOperatorByEmail :: "string \<Rightarrow> PlatformOperator account_op" where
  "store_GetPlatformOperatorByEmail email a = ((case find_value (\<lambda>p. po_Email p = email) (ac_operators a) of None \<Rightarrow> Inl NotFound | Some p \<Rightarrow> Inr p), a)"

definition store_GetPlatformOperator :: "string \<Rightarrow> PlatformOperator account_op" where
  "store_GetPlatformOperator i a = ((case map_of (ac_operators a) i of None \<Rightarrow> Inl NotFound | Some p \<Rightarrow> Inr p), a)"

definition store_MarkPlatformOperatorLogin :: "string \<Rightarrow> go_time \<Rightarrow> unit account_op" where
  "store_MarkPlatformOperatorLogin i at_time a = (case map_of (ac_operators a) i of None \<Rightarrow> (Inl NotFound, a)
     | Some p \<Rightarrow> (Inr (), a\<lparr>ac_operators := AList.update i (p\<lparr>po_LastLoginAt := Some at_time\<rparr>) (ac_operators a)\<rparr>))"

definition store_UpdatePlatformOperatorPassword :: "string \<Rightarrow> string \<Rightarrow> AuditLog \<Rightarrow> PlatformOperator account_op" where
  "store_UpdatePlatformOperatorPassword i passwordHash audit a = (case map_of (ac_operators a) i of None \<Rightarrow> (Inl NotFound, a)
     | Some p \<Rightarrow> let p' = p\<lparr>po_PasswordHash := passwordHash, po_UpdatedAt := al_CreatedAt audit\<rparr>
         in (Inr p', a\<lparr>ac_operators := AList.update i p' (ac_operators a), ac_audit := ac_audit a @ [audit]\<rparr>))"

definition activePlatformOperators :: "accounts \<Rightarrow> nat" where
  "activePlatformOperators a = length (filter (\<lambda>(_, p). po_Status p = StatusActive) (ac_operators a))"

definition store_SetPlatformOperatorStatus :: "string \<Rightarrow> string \<Rightarrow> go_time \<Rightarrow> AuditLog \<Rightarrow> (PlatformOperator \<times> bool) account_op" where
  "store_SetPlatformOperatorStatus i status at_time audit a = (case map_of (ac_operators a) i of None \<Rightarrow> (Inl NotFound, a)
     | Some p \<Rightarrow> if po_Status p = status then (Inr (p, False), a)
         else if status = StatusSuspended \<and> po_Status p = StatusActive \<and> activePlatformOperators a \<le> 1 then (Inl Conflict, a)
         else let p' = p\<lparr>po_Status := status, po_UpdatedAt := at_time\<rparr>
           in (Inr (p', True), a\<lparr>ac_operators := AList.update i p' (ac_operators a), ac_audit := ac_audit a @ [audit]\<rparr>))"

definition store_CreateAPIKey :: "go_time \<Rightarrow> APIKey \<Rightarrow> APIKey account_op" where
  "store_CreateAPIKey wall k a = (case map_of (ac_users a) (ak_CreatedBy k) of None \<Rightarrow> (Inl NotFound, a)
     | Some creator \<Rightarrow> if us_TenantID creator \<noteq> ak_TenantID k \<or> us_Status creator \<noteq> StatusActive then (Inl NotFound, a)
         else if find_value (\<lambda>x. ak_Hash x = ak_Hash k) (ac_keys a) \<noteq> None then (Inl Conflict, a)
         else let k' = k\<lparr>ak_CreatedAt := stamped wall (ak_CreatedAt k), ak_UpdatedAt := wall\<rparr>
           in (Inr k', a\<lparr>ac_keys := AList.update (ak_ID k) k' (ac_keys a)\<rparr>))"

definition store_GetAPIKeyByHash :: "string \<Rightarrow> APIKey account_op" where
  "store_GetAPIKeyByHash hash a = ((case find_value (\<lambda>k. ak_Hash k = hash) (ac_keys a) of None \<Rightarrow> Inl NotFound | Some k \<Rightarrow> Inr k), a)"

definition store_GetAPIKey :: "string \<Rightarrow> string \<Rightarrow> APIKey account_op" where
  "store_GetAPIKey tid i a = ((case map_of (ac_keys a) i of None \<Rightarrow> Inl NotFound
     | Some k \<Rightarrow> if ak_TenantID k \<noteq> tid then Inl NotFound else Inr k), a)"

definition store_RevokeAPIKey :: "string \<Rightarrow> string \<Rightarrow> go_time \<Rightarrow> unit account_op" where
  "store_RevokeAPIKey tid i at_time a = (case map_of (ac_keys a) i of None \<Rightarrow> (Inl NotFound, a)
     | Some k \<Rightarrow> if ak_TenantID k \<noteq> tid \<or> ak_Status k \<noteq> StatusActive then (Inl NotFound, a)
         else (Inr (), a\<lparr>ac_keys := AList.update i (k\<lparr>ak_Status := StatusRevoked, ak_RevokedAt := Some at_time\<rparr>) (ac_keys a)\<rparr>))"

definition store_DeleteAPIKey :: "string \<Rightarrow> string \<Rightarrow> unit account_op" where
  "store_DeleteAPIKey tid i a = (case map_of (ac_keys a) i of None \<Rightarrow> (Inl NotFound, a)
     | Some k \<Rightarrow> if ak_TenantID k \<noteq> tid then (Inl NotFound, a) else (Inr (), a\<lparr>ac_keys := AList.delete i (ac_keys a)\<rparr>))"

definition store_MarkAPIKeyUsed :: "string \<Rightarrow> go_time \<Rightarrow> unit account_op" where
  "store_MarkAPIKeyUsed i at_time a = (case map_of (ac_keys a) i of None \<Rightarrow> (Inl NotFound, a)
     | Some k \<Rightarrow> (Inr (), a\<lparr>ac_keys := AList.update i (k\<lparr>ak_LastUsedAt := Some at_time\<rparr>) (ac_keys a)\<rparr>))"

definition store_AppendAudit :: "AuditLog \<Rightarrow> unit account_op" where
  "store_AppendAudit e a = (Inr (), a\<lparr>ac_audit := ac_audit a @ [e]\<rparr>)"

definition store_GetModelAccess :: "string list \<Rightarrow> (string \<times> string list) list account_op" where
  "store_GetModelAccess scopes a = (Inr (List.map_filter (\<lambda>x. map_option (Pair x) (ac_modelAccess a x)) scopes), a)"

definition store_ListNodeAccess :: "(string \<times> string list) list account_op" where
  "store_ListNodeAccess a = (Inr (stable_sort (\<lambda>x y. fst x < fst y) (ac_nodeAccess a)), a)"

definition store_GetTenantBilling :: "string \<Rightarrow> TenantBilling account_op" where
  "store_GetTenantBilling i a = ((case ac_billing a i of None \<Rightarrow> Inl NotFound | Some b \<Rightarrow> Inr b), a)"


definition store_PutModelAccess :: "string \<Rightarrow> string list \<Rightarrow> unit account_op" where
  "store_PutModelAccess scope models a = (Inr (), a\<lparr>ac_modelAccess := (ac_modelAccess a)(scope \<mapsto> models)\<rparr>)"

definition store_DeleteModelAccess :: "string \<Rightarrow> unit account_op" where
  "store_DeleteModelAccess scope a = (Inr (), a\<lparr>ac_modelAccess := (ac_modelAccess a)(scope := None)\<rparr>)"

definition store_PutNodeAccess :: "string \<Rightarrow> string list \<Rightarrow> unit account_op" where
  "store_PutNodeAccess nodeID ts a = (Inr (), a\<lparr>ac_nodeAccess := AList.update nodeID ts (ac_nodeAccess a)\<rparr>)"

definition store_DeleteNodeAccess :: "string \<Rightarrow> unit account_op" where
  "store_DeleteNodeAccess nodeID a = (Inr (), a\<lparr>ac_nodeAccess := AList.delete nodeID (ac_nodeAccess a)\<rparr>)"

end
