(* ===== verification/KeyCache.thy ===== *)
theory KeyCache
  imports Accounts Go_Base64
begin

text \<open>
  API keys (\<open>common/apikey\<close>) and the two caches of their verification: the one that the control plane keeps in
  Redis, whose entries belong to a generation that every revocation ends (\<open>ControlPlane/internal/cache\<close>), and the
  one in each Gateway, which follows the generation (\<open>Gateway/controlplaneclient/verifier.go\<close>,
  \<open>revocations.go\<close>).
\<close>


section \<open>Definitions\<close>

subsection \<open>common/apikey\<close>

definition KeyPrefix :: string where "KeyPrefix = ''aisw-''"
definition secretBytes :: nat where "secretBytes = 32"
definition DisplayLen :: nat where "DisplayLen = 8"

definition CutPrefix :: "string \<Rightarrow> string \<Rightarrow> string option" where
  "CutPrefix s pre = (if take (length pre) s = pre then Some (drop (length pre) s) else None)"

definition Hash :: "(string \<Rightarrow> 8 word list) \<Rightarrow> string \<Rightarrow> string" where
  "Hash sha key = hex_encode (sha key)"

definition Display :: "string \<Rightarrow> string" where
  "Display key = (case CutPrefix key KeyPrefix of None \<Rightarrow> ''''
     | Some secret \<Rightarrow> if length secret < DisplayLen then '''' else KeyPrefix @ take DisplayLen secret)"

record Generated =
  gk_Plaintext :: string
  gk_Hash :: string
  gk_Display :: string

text \<open>\<open>buf\<close> are the bytes that the random source gives.\<close>

definition Generate :: "(string \<Rightarrow> 8 word list) \<Rightarrow> string \<Rightarrow> Generated" where
  "Generate sha buf = (let plaintext = KeyPrefix @ EncodeToString buf
     in \<lparr>gk_Plaintext = plaintext, gk_Hash = Hash sha plaintext, gk_Display = Display plaintext\<rparr>)"

definition WellFormed :: "string \<Rightarrow> bool" where
  "WellFormed key \<longleftrightarrow> (case CutPrefix key KeyPrefix of None \<Rightarrow> False
     | Some secret \<Rightarrow> (case DecodeString secret of None \<Rightarrow> False | Some decoded \<Rightarrow> length decoded = secretBytes))"

definition HashOf :: "(string \<Rightarrow> 8 word list) \<Rightarrow> string \<Rightarrow> string option" where
  "HashOf sha key = (if \<not> WellFormed key then None else Some (Hash sha key))"

subsection \<open>The control plane's cache\<close>

record Verification =
  vf_TenantID :: string
  vf_KeyID :: string
  vf_Limits :: limits
  vf_Models :: "model_policy option"
  vf_Nodes :: "node_policy option"
  vf_BillingBlocked :: bool

text \<open>
  Redis holds the generation and, per generation and hash, a verification that lapses. Each of the three scripts is
  one step. A call that does not reach Redis reads nothing and writes nothing.
\<close>

record Verifications =
  vc_ttl :: duration
  vc_generation :: int
  vc_entries :: "int \<times> string \<Rightarrow> (Verification \<times> go_time) option"

definition NewVerifications :: "duration \<Rightarrow> Verifications" where
  "NewVerifications ttl = \<lparr>vc_ttl = (if ttl \<le> 0 then 30 * second else ttl), vc_generation = 0, vc_entries = (\<lambda>_. None)\<rparr>"

definition millisecond :: duration where "millisecond = 1000000"

definition cache_Get :: "bool \<Rightarrow> go_time \<Rightarrow> string \<Rightarrow> Verifications \<Rightarrow> Verification option \<times> int" where
  "cache_Get lost now hash c = (if lost then (None, - 1)
     else (case vc_entries c (vc_generation c, hash) of None \<Rightarrow> None | Some (v, expiry) \<Rightarrow> if now < expiry then Some v else None, vc_generation c))"

definition cache_Put :: "bool \<Rightarrow> go_time \<Rightarrow> string \<Rightarrow> Verification \<Rightarrow> int \<Rightarrow> Verifications \<Rightarrow> Verifications" where
  "cache_Put lost now hash v generation c = (if lost \<or> generation < 0 \<or> vc_generation c \<noteq> generation then c
     else c\<lparr>vc_entries := (vc_entries c)((vc_generation c, hash) \<mapsto> (v, time_add now (quo (vc_ttl c) millisecond * millisecond)))\<rparr>)"

definition PublishInvalidation :: "bool \<Rightarrow> Verifications \<Rightarrow> Verifications" where
  "PublishInvalidation lost c = (if lost then c else c\<lparr>vc_generation := vc_generation c + 1\<rparr>)"

subsection \<open>The Gateway's cache\<close>

record Identity =
  id_TenantID :: string
  id_KeyID :: string
  id_Limits :: limits
  id_Models :: "model_policy option"
  id_Nodes :: "node_policy option"
  id_BillingBlocked :: bool

text \<open>What \<open>ask\<close> makes of an answer with status 200. An answer without a tenant is refused.\<close>

definition identity_of :: "Verification \<Rightarrow> Identity option" where
  "identity_of v = (if vf_TenantID v = '''' then None else Some \<lparr>id_TenantID = vf_TenantID v, id_KeyID = vf_KeyID v, id_Limits = vf_Limits v,
     id_Models = (case vf_Models v of None \<Rightarrow> None | Some p \<Rightarrow> if Unrestricted p then None else Some p),
     id_Nodes = (case vf_Nodes v of None \<Rightarrow> None | Some p \<Rightarrow> if NodePolicy_Unrestricted p then None else Some p), id_BillingBlocked = vf_BillingBlocked v\<rparr>)"

text \<open>An epoch is counted without bound: a \<open>uint64\<close> does not run over.\<close>

record Verifier =
  ve_ttl :: duration
  ve_maxSize :: int
  ve_entries :: "(string \<times> Identity \<times> go_time) list"
  ve_generation :: int
  ve_cacheHealthy :: bool
  ve_epoch :: nat

definition DefaultCacheTTL :: duration where "DefaultCacheTTL = 30 * second"
definition DefaultCacheEntries :: int where "DefaultCacheEntries = 4096"

definition NewVerifier :: "duration \<Rightarrow> int \<Rightarrow> Verifier" where
  "NewVerifier ttl n = \<lparr>ve_ttl = (if ttl \<le> 0 then DefaultCacheTTL else ttl), ve_maxSize = (if n \<le> 0 then DefaultCacheEntries else n),
     ve_entries = [], ve_generation = 0, ve_cacheHealthy = False, ve_epoch = 0\<rparr>"

definition cached :: "go_time \<Rightarrow> string \<Rightarrow> Verifier \<Rightarrow> (Identity option \<times> nat) \<times> Verifier" where
  "cached now hash v = (if \<not> ve_cacheHealthy v then ((None, ve_epoch v), v)
     else case map_of (ve_entries v) hash of None \<Rightarrow> ((None, ve_epoch v), v)
       | Some (identity, expiry) \<Rightarrow> if \<not> now < expiry then ((None, ve_epoch v), v\<lparr>ve_entries := AList.delete hash (ve_entries v)\<rparr>)
           else ((Some identity, ve_epoch v), v))"

definition verifier_store :: "go_time \<Rightarrow> string \<Rightarrow> Identity \<Rightarrow> nat \<Rightarrow> Verifier \<Rightarrow> Verifier" where
  "verifier_store now hash identity epoch v =
     (if \<not> ve_cacheHealthy v \<or> ve_epoch v \<noteq> epoch then v
      else let full = (int (length (ve_entries v)) \<ge> ve_maxSize v);
               live = (if full then filter (\<lambda>(_, _, expiry). now < expiry) (ve_entries v) else ve_entries v);
               room = (if full \<and> int (length live) \<ge> ve_maxSize v then [] else live)
           in v\<lparr>ve_entries := AList.update hash (identity, time_add now (ve_ttl v)) room\<rparr>)"

definition applyGeneration :: "int \<Rightarrow> Verifier \<Rightarrow> (bool \<times> bool) \<times> Verifier" where
  "applyGeneration generation v =
     (let recovered = (\<not> ve_cacheHealthy v); reset = (ve_cacheHealthy v \<and> generation < ve_generation v);
          v' = (if recovered \<or> generation \<noteq> ve_generation v then v\<lparr>ve_epoch := ve_epoch v + 1, ve_entries := []\<rparr> else v)
      in ((recovered, reset), v'\<lparr>ve_generation := generation, ve_cacheHealthy := True\<rparr>))"

definition disableCache :: "Verifier \<Rightarrow> bool \<times> Verifier" where
  "disableCache v = (ve_cacheHealthy v,
     (if ve_cacheHealthy v \<or> length (ve_entries v) > 0 then v\<lparr>ve_epoch := ve_epoch v + 1, ve_entries := []\<rparr> else v)\<lparr>ve_cacheHealthy := False\<rparr>)"

text \<open>The wait before the notification path is tried again. The halved test cannot run over.\<close>

definition nextRetry :: "duration \<Rightarrow> duration \<Rightarrow> duration" where
  "nextRetry current maximum = (if current \<ge> maximum \<or> current > wrap64 (maximum - current) then maximum else wrap64 (current * 2))"

end
