(* ===== verification/AccountLogic.thy ===== *)
theory AccountLogic
  imports KeyCache
begin

text \<open>
  The control plane's handlers for accounts, sessions and API keys, and the Gateway's verification of a key, as
  programs over one shared state: \<open>logic/service.go\<close>, \<open>users.go\<close>, \<open>platform.go\<close>,
  \<open>sessions.go\<close>, \<open>apikeys.go\<close>, \<open>handler/handlers.go\<close>, \<open>handler/middleware.go\<close>. Each call of
  the store, of the session store, of Redis and of a Gateway's cache is a step.
\<close>


section \<open>Definitions\<close>

subsection \<open>State\<close>

text \<open>
  \<open>wo_published\<close> remembers the store and the Gateways' epochs as they were at each published invalidation; no
  step reads it.
\<close>

record world =
  wo_now :: go_time
  wo_db :: accounts
  wo_sessions :: "Sessions.Memory"
  wo_cache :: Verifications
  wo_gateways :: "Verifier list"
  wo_published :: "(accounts \<times> nat list) list"

text \<open>The cryptography and the letter case of the standard library, the lifetime of tokens, and whether billing is on.\<close>

record env_funs =
  ef_bcrypt :: "string \<Rightarrow> string \<Rightarrow> bool"
  ef_generate :: "string \<Rightarrow> string \<Rightarrow> string"
  ef_sha :: "string \<Rightarrow> 8 word list"
  ef_lower :: "string \<Rightarrow> string"
  ef_lifetime :: duration
  ef_billing :: bool

datatype reply = RDone | RSession string | RKey string | RVerified Verification | RIdentity Identity

type_synonym 'a call = "(world, service_error + 'a) prog"

definition account_tick :: "duration \<Rightarrow> world \<Rightarrow> world" where
  "account_tick d w = w\<lparr>wo_now := wo_now w + d\<rparr>"

subsection \<open>Steps\<close>

text \<open>One call of the store; the error is translated, as almost every method of the service does.\<close>

definition in_store :: "(inputs \<Rightarrow> go_time \<Rightarrow> 'a account_op) \<Rightarrow> 'a call" where
  "in_store f = atomic (\<lambda>i w. case f i (wo_now w) (wo_db w) of (r, d) \<Rightarrow> (translated r, w\<lparr>wo_db := d\<rparr>))"

definition in_sessions :: "(inputs \<Rightarrow> go_time \<Rightarrow> Sessions.Memory \<Rightarrow> (session_error + 'a) \<times> Sessions.Memory) \<Rightarrow> (world, session_error + 'a) prog" where
  "in_sessions f = atomic (\<lambda>i w. case f i (wo_now w) (wo_sessions w) of (r, m) \<Rightarrow> (r, w\<lparr>wo_sessions := m\<rparr>))"

definition sessionError :: "session_error \<Rightarrow> service_error" where
  "sessionError e = (case e of ErrUnavailable \<Rightarrow> ServiceUnavailable | ErrMutationActive \<Rightarrow> ServiceConflict | ErrInvalid \<Rightarrow> ServiceNotFound | ErrContext \<Rightarrow> ServiceOther)"

definition with_session_error :: "(world, session_error + 'a) prog \<Rightarrow> 'a call" where
  "with_session_error p = andThen p (\<lambda>r. Return (case r of Inl e \<Rightarrow> Inl (sessionError e) | Inr a \<Rightarrow> Inr a))"

definition invalidate :: "(world, unit) prog" where
  "invalidate = atomic (\<lambda>i w. ((), if in_lost i then w
     else w\<lparr>wo_cache := PublishInvalidation False (wo_cache w), wo_published := wo_published w @ [(wo_db w, map ve_epoch (wo_gateways w))]\<rparr>))"

definition audit_entry :: "string \<Rightarrow> string \<Rightarrow> string \<Rightarrow> string \<Rightarrow> go_time \<Rightarrow> AuditLog" where
  "audit_entry tid actorID action target now = \<lparr>al_TenantID = tid, al_ActorID = actorID, al_Action = action, al_Target = target, al_CreatedAt = now\<rparr>"

text \<open>\<open>Service.audit\<close> ignores a failed write.\<close>

definition audit :: "string \<Rightarrow> string \<Rightarrow> string \<Rightarrow> string \<Rightarrow> (world, unit) prog" where
  "audit tid actorID action target = andThen (in_store (\<lambda>i now. store_AppendAudit (audit_entry tid actorID action target now))) (\<lambda>_. Return ())"

subsection \<open>Passwords\<close>

definition longPasswordPrefix :: string where "longPasswordPrefix = ''bcrypt-sha256:''"

definition dummyDigest :: string where "dummyDigest = ''$2a$10$N9qo8uLOickgx2ZMRZoMyeIjZAgcfl7p92ldGxad68LJZdL17lhWy''"

definition passwordDigest :: "env_funs \<Rightarrow> string \<Rightarrow> string" where
  "passwordDigest c password = hex_encode (ef_sha c password)"

definition hashPassword :: "env_funs \<Rightarrow> string \<Rightarrow> string \<Rightarrow> string" where
  "hashPassword c salt password = (if length password > 72 then longPasswordPrefix @ ef_generate c salt (passwordDigest c password) else ef_generate c salt password)"

definition comparePassword :: "env_funs \<Rightarrow> string \<Rightarrow> string \<Rightarrow> bool" where
  "comparePassword c hash password = (case CutPrefix hash longPasswordPrefix of Some rest \<Rightarrow> ef_bcrypt c rest (passwordDigest c password)
     | None \<Rightarrow> if length password > 72 then False else ef_bcrypt c hash password)"

definition normalizeEmail :: "env_funs \<Rightarrow> string \<Rightarrow> string" where
  "normalizeEmail c email = ef_lower c (TrimSpace email)"

subsection \<open>Logins\<close>

definition credentials_ok :: "env_funs \<Rightarrow> string \<Rightarrow> string \<Rightarrow> string \<Rightarrow> bool" where
  "credentials_ok c digest status password \<longleftrightarrow> comparePassword c (if digest = '''' then dummyDigest else digest) password \<and> status = StatusActive"

definition AuthenticateCredentials :: "env_funs \<Rightarrow> string \<Rightarrow> string \<Rightarrow> User call" where
  "AuthenticateCredentials c email password = andThen (in_store (\<lambda>_ _. store_GetUserByEmail (normalizeEmail c email)))
     (\<lambda>r. Return (case r of Inl _ \<Rightarrow> Inl ServiceInvalidCredentials
        | Inr u \<Rightarrow> if credentials_ok c (us_PasswordHash u) (us_Status u) password then Inr u else Inl ServiceInvalidCredentials))"

definition PlatformAuthenticateCredentials :: "env_funs \<Rightarrow> string \<Rightarrow> string \<Rightarrow> PlatformOperator call" where
  "PlatformAuthenticateCredentials c email password = andThen (in_store (\<lambda>_ _. store_GetPlatformOperatorByEmail (normalizeEmail c email)))
     (\<lambda>r. Return (case r of Inl _ \<Rightarrow> Inl ServiceInvalidCredentials
        | Inr p \<Rightarrow> if credentials_ok c (po_PasswordHash p) (po_Status p) password then Inr p else Inl ServiceInvalidCredentials))"

definition RecordUserLogin :: "User \<Rightarrow> unit call" where
  "RecordUserLogin u = andThen (in_store (\<lambda>_ now. store_MarkUserLogin (us_ID u) now)) (\<lambda>r. case r of Inl _ \<Rightarrow> Return (Inl ServiceOther)
     | Inr _ \<Rightarrow> andThen (audit (us_TenantID u) (us_ID u) ''user.login'' (us_ID u)) (\<lambda>_. Return (Inr ())))"

definition RecordPlatformOperatorLogin :: "PlatformOperator \<Rightarrow> unit call" where
  "RecordPlatformOperatorLogin p = andThen (in_store (\<lambda>_ now. store_MarkPlatformOperatorLogin (po_ID p) now)) (\<lambda>r. case r of Inl _ \<Rightarrow> Return (Inl ServiceOther)
     | Inr _ \<Rightarrow> andThen (audit PlatformScope (po_ID p) ''platform_operator.login'' (po_ID p)) (\<lambda>_. Return (Inr ())))"

text \<open>\<open>Issuer.Issue\<close>: a new session id and the end of its lifetime, unless a claim is empty.\<close>

definition issue :: "env_funs \<Rightarrow> string \<Rightarrow> string \<Rightarrow> string \<Rightarrow> (string \<times> go_time) call" where
  "issue c userID tid role = atomic (\<lambda>i w. (if userID = '''' \<or> tid = '''' \<or> role = '''' then Inl ServiceOther
     else Inr (''ses_'' @ in_random i, time_add (wo_now w) (ef_lifetime c)), w))"

definition create_session :: "Record \<Rightarrow> unit call" where
  "create_session r = andThen (in_sessions (\<lambda>i now. session_Create (in_cancelled i) now r)) (\<lambda>x. Return (case x of Inr _ \<Rightarrow> Inr ()
     | Inl e \<Rightarrow> if e = ErrUnavailable \<or> e = ErrMutationActive then Inl ServiceUnavailable else Inl ServiceOther))"

text \<open>The handlers \<open>login\<close> and \<open>platformLogin\<close>: a session whose login cannot be recorded is taken back.\<close>

definition open_session :: "env_funs \<Rightarrow> Subject \<Rightarrow> string \<Rightarrow> string \<Rightarrow> unit call \<Rightarrow> reply call" where
  "open_session c subject tid role recorded = andThenE (issue c (sb_ID subject) tid role) (\<lambda>(sid, expiry).
     andThenE (create_session \<lparr>sr_ID = sid, sr_Subject = subject, sr_TenantID = tid, sr_Role = role, sr_ExpiresAt = expiry\<rparr>) (\<lambda>_.
       andThen recorded (\<lambda>r. case r of Inr _ \<Rightarrow> Return (Inr (RSession sid))
         | Inl e \<Rightarrow> andThen (in_sessions (\<lambda>i now. session_Revoke (in_cancelled i) now subject sid)) (\<lambda>_. Return (Inl e)))))"

definition userSubject :: "User \<Rightarrow> Subject" where
  "userSubject u = \<lparr>sb_Kind = SubjectTenantUser, sb_ID = us_ID u\<rparr>"

definition platformSubject :: "PlatformOperator \<Rightarrow> Subject" where
  "platformSubject p = \<lparr>sb_Kind = SubjectPlatformOperator, sb_ID = po_ID p\<rparr>"

definition login :: "env_funs \<Rightarrow> string \<Rightarrow> string \<Rightarrow> reply call" where
  "login c email password = andThenE (AuthenticateCredentials c email password)
     (\<lambda>u. open_session c (userSubject u) (us_TenantID u) (us_Role u) (RecordUserLogin u))"

definition platformLogin :: "env_funs \<Rightarrow> string \<Rightarrow> string \<Rightarrow> reply call" where
  "platformLogin c email password = andThenE (PlatformAuthenticateCredentials c email password)
     (\<lambda>p. open_session c (platformSubject p) PlatformScope RolePlatformOperator (RecordPlatformOperatorLogin p))"

subsection \<open>Sessions of a request\<close>

record Claims =
  cl_SessionID :: string
  cl_UserID :: string
  cl_TenantID :: string
  cl_Role :: string

text \<open>
  \<open>requireSession\<close> and \<open>requirePlatformSession\<close>: the claims are those of a token that the issuer accepts.
\<close>

definition validateLiveSession :: "string \<Rightarrow> Claims \<Rightarrow> unit call" where
  "validateLiveSession kind cl = andThen (in_sessions (\<lambda>i now. session_Validate (in_cancelled i) now (cl_SessionID cl) \<lparr>sb_Kind = kind, sb_ID = cl_UserID cl\<rparr> (cl_TenantID cl) (cl_Role cl)))
     (\<lambda>r. Return (case r of Inr _ \<Rightarrow> Inr () | Inl e \<Rightarrow> if e = ErrUnavailable then Inl ServiceUnavailable else Inl ServiceInvalidCredentials))"

definition requireSession :: "Claims \<Rightarrow> (Claims \<Rightarrow> reply call) \<Rightarrow> reply call" where
  "requireSession cl next = (if cl_TenantID cl = PlatformScope then Return (Inl ServiceInvalidCredentials)
     else andThenE (validateLiveSession SubjectTenantUser cl) (\<lambda>_. next cl))"

definition requirePlatformSession :: "Claims \<Rightarrow> (Claims \<Rightarrow> reply call) \<Rightarrow> reply call" where
  "requirePlatformSession cl next = (if cl_TenantID cl \<noteq> PlatformScope \<or> cl_Role cl \<noteq> RolePlatformOperator then Return (Inl ServiceForbidden)
     else andThenE (validateLiveSession SubjectPlatformOperator cl) (\<lambda>_. next cl))"


subsection \<open>Changes of an account\<close>

definition isPlatformActor :: "Claims \<Rightarrow> bool" where
  "isPlatformActor cl \<longleftrightarrow> cl_TenantID cl = PlatformScope \<and> cl_Role cl = RolePlatformOperator"

definition finish_answer :: "service_error + 'a \<Rightarrow> session_error + unit \<Rightarrow> service_error + reply" where
  "finish_answer mutation ended = (case mutation of Inl e \<Rightarrow> Inl e | Inr _ \<Rightarrow> (case ended of Inl e \<Rightarrow> Inl (sessionError e) | Inr _ \<Rightarrow> Inr RDone))"

text \<open>\<open>finishMutation\<close>: a gate that ran out is closed once more, which revokes the sessions made in between.\<close>

definition finishMutation :: "Gate \<Rightarrow> service_error + 'a \<Rightarrow> reply call" where
  "finishMutation g mutation = andThen (in_sessions (\<lambda>i now. EndMutation (in_cancelled i) now g)) (\<lambda>r.
     if r = Inl ErrInvalid then andThen (in_sessions (\<lambda>i now. BeginMutation (in_cancelled i) now (in_random i) (gt_Subject g))) (\<lambda>b. case b of
         Inr g' \<Rightarrow> andThen (in_sessions (\<lambda>i now. EndMutation (in_cancelled i) now g')) (\<lambda>r'. Return (finish_answer mutation r'))
       | Inl e \<Rightarrow> Return (finish_answer mutation (if e = ErrMutationActive then Inr () else Inl e)))
     else Return (finish_answer mutation r))"

definition beginMutation :: "Subject \<Rightarrow> Gate call" where
  "beginMutation x = with_session_error (in_sessions (\<lambda>i now. BeginMutation (in_cancelled i) now (in_random i) x))"

definition managedUser :: "Claims \<Rightarrow> string \<Rightarrow> User call" where
  "managedUser actor userID = (if cl_Role actor \<noteq> RoleOwner then Return (Inl ServiceForbidden)
     else if userID = '''' then Return (Inl ServiceInvalidInput) else if cl_UserID actor = userID then Return (Inl ServiceConflict)
     else in_store (\<lambda>_ _. store_GetUser (cl_TenantID actor) userID))"

definition ChangeOwnPassword :: "env_funs \<Rightarrow> string \<Rightarrow> string \<Rightarrow> Claims \<Rightarrow> reply call" where
  "ChangeOwnPassword c current new actor = (if cl_TenantID actor = PlatformScope \<or> cl_UserID actor = '''' then Return (Inl ServiceForbidden)
     else andThenE (in_store (\<lambda>_ _. store_GetUser (cl_TenantID actor) (cl_UserID actor))) (\<lambda>u.
       if us_Status u \<noteq> StatusActive \<or> \<not> comparePassword c (us_PasswordHash u) current then Return (Inl ServiceInvalidCredentials)
       else andThenE (beginMutation (userSubject u)) (\<lambda>g.
         andThen (in_store (\<lambda>i now. store_UpdateUserPassword (cl_TenantID actor) (us_ID u) (hashPassword c (in_random i) new)
             (audit_entry (cl_TenantID actor) (cl_UserID actor) ''user.password.change'' (us_ID u) now))) (finishMutation g))))"

definition ResetUserPassword :: "env_funs \<Rightarrow> string \<Rightarrow> string \<Rightarrow> Claims \<Rightarrow> reply call" where
  "ResetUserPassword c userID new actor = andThenE (managedUser actor userID) (\<lambda>u. andThenE (beginMutation (userSubject u)) (\<lambda>g.
     andThen (in_store (\<lambda>i now. store_UpdateUserPassword (cl_TenantID actor) (us_ID u) (hashPassword c (in_random i) new)
         (audit_entry (cl_TenantID actor) (cl_UserID actor) ''user.password.reset'' (us_ID u) now))) (finishMutation g)))"

definition validRole :: "string \<Rightarrow> bool" where
  "validRole role \<longleftrightarrow> role = RoleOwner \<or> role = RoleAdmin \<or> role = RoleMember"

definition ChangeUserRole :: "string \<Rightarrow> string \<Rightarrow> Claims \<Rightarrow> reply call" where
  "ChangeUserRole userID role actor = (if \<not> validRole role then Return (Inl ServiceInvalidInput)
     else andThenE (managedUser actor userID) (\<lambda>u. if us_Role u = role then Return (Inr RDone)
       else andThenE (beginMutation (userSubject u)) (\<lambda>g.
         andThen (in_store (\<lambda>i now. store_UpdateUserRole (cl_TenantID actor) (us_ID u) role now
             (audit_entry (cl_TenantID actor) (cl_UserID actor) ''user.role.change'' (us_ID u) now))) (finishMutation g))))"

definition DisableUser :: "string \<Rightarrow> Claims \<Rightarrow> reply call" where
  "DisableUser userID actor = andThenE (managedUser actor userID) (\<lambda>u. if us_Status u = StatusSuspended then Return (Inr RDone)
     else andThenE (beginMutation (userSubject u)) (\<lambda>g.
       andThen (in_store (\<lambda>i now. store_SetUserStatus (cl_TenantID actor) (us_ID u) StatusSuspended now
           (audit_entry (cl_TenantID actor) (cl_UserID actor) ''user.disable'' (us_ID u) now))) (\<lambda>m. case m of
         Inl e \<Rightarrow> finishMutation g (Inl e :: service_error + User \<times> bool)
       | Inr a \<Rightarrow> andThen invalidate (\<lambda>_. finishMutation g (Inr a)))))"

definition EnableUser :: "string \<Rightarrow> Claims \<Rightarrow> reply call" where
  "EnableUser userID actor = andThenE (managedUser actor userID) (\<lambda>u. if us_Status u = StatusActive then Return (Inr RDone)
     else andThenE (beginMutation (userSubject u)) (\<lambda>g.
       andThen (in_store (\<lambda>i now. store_SetUserStatus (cl_TenantID actor) (us_ID u) StatusActive now
           (audit_entry (cl_TenantID actor) (cl_UserID actor) ''user.enable'' (us_ID u) now))) (finishMutation g)))"

definition revoked_audit :: "string \<Rightarrow> string \<Rightarrow> string \<Rightarrow> string \<Rightarrow> nat \<Rightarrow> reply call" where
  "revoked_audit tid actorID action target n = (if n > 0 then andThen (audit tid actorID action target) (\<lambda>_. Return (Inr RDone)) else Return (Inr RDone))"

definition revoke_all_sessions :: "Subject \<Rightarrow> nat call" where
  "revoke_all_sessions x = with_session_error (in_sessions (\<lambda>i now. session_RevokeAll (in_cancelled i) now x))"

definition RevokeUserSessions :: "string \<Rightarrow> Claims \<Rightarrow> reply call" where
  "RevokeUserSessions userID actor = andThenE (managedUser actor userID) (\<lambda>u. andThenE (revoke_all_sessions (userSubject u))
     (revoked_audit (cl_TenantID actor) (cl_UserID actor) ''user.sessions.revoke'' (us_ID u)))"

definition actorSessionSubject :: "Claims \<Rightarrow> service_error + Subject" where
  "actorSessionSubject actor = (if cl_SessionID actor = '''' \<or> cl_UserID actor = '''' \<or> cl_TenantID actor = '''' \<or> cl_Role actor = '''' then Inl ServiceForbidden
     else if isPlatformActor actor then Inr \<lparr>sb_Kind = SubjectPlatformOperator, sb_ID = cl_UserID actor\<rparr>
     else if cl_TenantID actor = PlatformScope then Inl ServiceForbidden
     else Inr \<lparr>sb_Kind = SubjectTenantUser, sb_ID = cl_UserID actor\<rparr>)"

definition Logout :: "Claims \<Rightarrow> reply call" where
  "Logout actor = andThenE (Return (actorSessionSubject actor)) (\<lambda>x.
     andThenE (with_session_error (in_sessions (\<lambda>i now. session_Revoke (in_cancelled i) now x (cl_SessionID actor)))) (\<lambda>changed.
       if changed then andThen (audit (cl_TenantID actor) (cl_UserID actor) (if isPlatformActor actor then ''platform_session.logout'' else ''session.logout'') (cl_UserID actor))
         (\<lambda>_. Return (Inr RDone)) else Return (Inr RDone)))"

definition RevokeOwnSessions :: "Claims \<Rightarrow> reply call" where
  "RevokeOwnSessions actor = andThenE (Return (actorSessionSubject actor)) (\<lambda>x. andThenE (revoke_all_sessions x)
     (revoked_audit (cl_TenantID actor) (cl_UserID actor) (if isPlatformActor actor then ''platform_operator.sessions.revoke'' else ''user.sessions.revoke'') (cl_UserID actor)))"

subsection \<open>Platform operators\<close>

definition managedPlatformOperator :: "Claims \<Rightarrow> string \<Rightarrow> PlatformOperator call" where
  "managedPlatformOperator actor operatorID = (if \<not> isPlatformActor actor then Return (Inl ServiceForbidden)
     else if operatorID = '''' then Return (Inl ServiceInvalidInput) else if cl_UserID actor = operatorID then Return (Inl ServiceConflict)
     else in_store (\<lambda>_ _. store_GetPlatformOperator operatorID))"

definition ChangeOwnPlatformPassword :: "env_funs \<Rightarrow> string \<Rightarrow> string \<Rightarrow> Claims \<Rightarrow> reply call" where
  "ChangeOwnPlatformPassword c current new actor = (if \<not> isPlatformActor actor then Return (Inl ServiceForbidden)
     else andThenE (in_store (\<lambda>_ _. store_GetPlatformOperator (cl_UserID actor))) (\<lambda>p.
       if po_Status p \<noteq> StatusActive \<or> \<not> comparePassword c (po_PasswordHash p) current then Return (Inl ServiceInvalidCredentials)
       else andThenE (beginMutation (platformSubject p)) (\<lambda>g.
         andThen (in_store (\<lambda>i now. store_UpdatePlatformOperatorPassword (po_ID p) (hashPassword c (in_random i) new)
             (audit_entry PlatformScope (cl_UserID actor) ''platform_operator.password.change'' (po_ID p) now))) (finishMutation g))))"

definition ResetPlatformOperatorPassword :: "env_funs \<Rightarrow> string \<Rightarrow> string \<Rightarrow> Claims \<Rightarrow> reply call" where
  "ResetPlatformOperatorPassword c operatorID new actor = andThenE (managedPlatformOperator actor operatorID) (\<lambda>p. andThenE (beginMutation (platformSubject p)) (\<lambda>g.
     andThen (in_store (\<lambda>i now. store_UpdatePlatformOperatorPassword (po_ID p) (hashPassword c (in_random i) new)
         (audit_entry PlatformScope (cl_UserID actor) ''platform_operator.password.reset'' (po_ID p) now))) (finishMutation g)))"

definition set_operator_status :: "string \<Rightarrow> string \<Rightarrow> string \<Rightarrow> Claims \<Rightarrow> reply call" where
  "set_operator_status status action operatorID actor = andThenE (managedPlatformOperator actor operatorID) (\<lambda>p. if po_Status p = status then Return (Inr RDone)
     else andThenE (beginMutation (platformSubject p)) (\<lambda>g.
       andThen (in_store (\<lambda>i now. store_SetPlatformOperatorStatus (po_ID p) status now
           (audit_entry PlatformScope (cl_UserID actor) action (po_ID p) now))) (finishMutation g)))"

definition DisablePlatformOperator :: "string \<Rightarrow> Claims \<Rightarrow> reply call" where
  "DisablePlatformOperator = set_operator_status StatusSuspended ''platform_operator.disable''"

definition EnablePlatformOperator :: "string \<Rightarrow> Claims \<Rightarrow> reply call" where
  "EnablePlatformOperator = set_operator_status StatusActive ''platform_operator.enable''"

definition RevokePlatformOperatorSessions :: "string \<Rightarrow> Claims \<Rightarrow> reply call" where
  "RevokePlatformOperatorSessions operatorID actor = andThenE (managedPlatformOperator actor operatorID) (\<lambda>p. andThenE (revoke_all_sessions (platformSubject p))
     (revoked_audit PlatformScope (cl_UserID actor) ''platform_operator.sessions.revoke'' (po_ID p)))"

definition CreatePlatformOperatorAs :: "env_funs \<Rightarrow> string \<Rightarrow> string \<Rightarrow> string \<Rightarrow> Claims \<Rightarrow> reply call" where
  "CreatePlatformOperatorAs c email password name actor = (if \<not> isPlatformActor actor then Return (Inl ServiceForbidden)
     else if normalizeEmail c email = '''' then Return (Inl ServiceInvalidInput)
     else andThenE (in_store (\<lambda>i now. store_CreatePlatformOperator now
       \<lparr>po_ID = ''plt_'' @ in_random i, po_Email = normalizeEmail c email, po_PasswordHash = hashPassword c (in_random i) password, po_Name = name,
        po_Status = StatusActive, po_LastLoginAt = None, po_CreatedAt = now, po_UpdatedAt = 0\<rparr>
       (Some (audit_entry PlatformScope (cl_UserID actor) ''platform_operator.create'' (''plt_'' @ in_random i) now)))) (\<lambda>_. Return (Inr RDone)))"


subsection \<open>Tenants and users\<close>

definition createUser :: "env_funs \<Rightarrow> string \<Rightarrow> string \<Rightarrow> string \<Rightarrow> string \<Rightarrow> string \<Rightarrow> User call" where
  "createUser c tid email password name role = in_store (\<lambda>i now. store_CreateUser now
     \<lparr>us_ID = ''usr_'' @ in_random i, us_TenantID = tid, us_Email = email, us_PasswordHash = hashPassword c (in_random i) password, us_Name = name,
      us_Role = role, us_Status = StatusActive, us_LastLoginAt = None, us_CreatedAt = now, us_UpdatedAt = 0\<rparr>)"

definition CreateUser :: "env_funs \<Rightarrow> string \<Rightarrow> string \<Rightarrow> string \<Rightarrow> string \<Rightarrow> Claims \<Rightarrow> reply call" where
  "CreateUser c email password name role actor = (if cl_Role actor \<noteq> RoleOwner then Return (Inl ServiceForbidden)
     else if \<not> validRole role then Return (Inl ServiceInvalidInput)
     else if normalizeEmail c email = '''' then Return (Inl ServiceInvalidInput)
     else andThenE (createUser c (cl_TenantID actor) (normalizeEmail c email) password name role) (\<lambda>u.
       andThen (audit (cl_TenantID actor) (cl_UserID actor) ''user.create'' (us_ID u)) (\<lambda>_. Return (Inr RDone))))"

text \<open>A tenant that the operator creates; the self-registered one, which starts with a billing row, is not modelled.\<close>

definition createTenantWithOwner :: "env_funs \<Rightarrow> string \<Rightarrow> string \<Rightarrow> string \<Rightarrow> (Accounts.Tenant \<times> User) call" where
  "createTenantWithOwner c name ownerEmail ownerPassword = andThenE (in_store (\<lambda>i now. store_CreateTenant now
       \<lparr>tn_ID = ''tnt_'' @ in_random i, tn_Name = name, tn_Status = StatusActive, tn_Limits = \<lparr>RequestsPerMinute = 0, TokensPerMinute = 0, MaxConcurrent = 0\<rparr>,
        tn_CreatedAt = now, tn_UpdatedAt = 0\<rparr>)) (\<lambda>t.
     andThenE (createUser c (tn_ID t) ownerEmail ownerPassword (name @ '' owner'') RoleOwner) (\<lambda>u. Return (Inr (t, u))))"

definition CreateTenant :: "env_funs \<Rightarrow> string \<Rightarrow> string \<Rightarrow> string \<Rightarrow> reply call" where
  "CreateTenant c name ownerEmail ownerPassword = (if TrimSpace name = '''' \<or> normalizeEmail c ownerEmail = '''' then Return (Inl ServiceInvalidInput)
     else andThenE (createTenantWithOwner c (TrimSpace name) (normalizeEmail c ownerEmail) ownerPassword) (\<lambda>(t, u).
       andThen (audit (tn_ID t) '''' ''tenant.create'' (tn_ID t)) (\<lambda>_. Return (Inr RDone))))"

definition SetTenantLimits :: "limits \<Rightarrow> Claims \<Rightarrow> reply call" where
  "SetTenantLimits l actor = (if cl_Role actor \<noteq> RoleOwner \<and> cl_Role actor \<noteq> RoleAdmin then Return (Inl ServiceForbidden)
     else (case Limits_Validate l of Inl _ \<Rightarrow> Return (Inl ServiceInvalidInput)
       | Inr _ \<Rightarrow> andThenE (in_store (\<lambda>_ now. store_UpdateTenantLimits now (cl_TenantID actor) l)) (\<lambda>_.
           andThen (audit (cl_TenantID actor) (cl_UserID actor) ''tenant.limits'' (cl_TenantID actor)) (\<lambda>_. Return (Inr RDone)))))"

subsection \<open>API keys\<close>

definition day :: duration where "day = 24 * 3600 * second"
definition DefaultKeyLifetime :: duration where "DefaultKeyLifetime = 90 * day"
definition MaxKeyLifetime :: duration where "MaxKeyLifetime = 365 * day"

definition canManageKeys :: "Claims \<Rightarrow> bool" where
  "canManageKeys actor \<longleftrightarrow> cl_Role actor = RoleOwner \<or> cl_Role actor = RoleAdmin"

definition new_key :: "env_funs \<Rightarrow> string \<Rightarrow> duration \<Rightarrow> Claims \<Rightarrow> inputs \<Rightarrow> go_time \<Rightarrow> APIKey" where
  "new_key c name lifetime actor i now = (let generated = Generate (ef_sha c) (in_random i) in
     \<lparr>ak_ID = ''key_'' @ in_random i, ak_TenantID = cl_TenantID actor, ak_CreatedBy = cl_UserID actor, ak_Name = name, ak_Hash = gk_Hash generated,
      ak_Display = gk_Display generated, ak_Status = StatusActive,
      ak_ExpiresAt = (if lifetime = 0 then Some (time_add now DefaultKeyLifetime) else if lifetime > 0 then Some (time_add now lifetime) else None),
      ak_LastUsedAt = None, ak_RevokedAt = None, ak_CreatedAt = now, ak_UpdatedAt = 0\<rparr>)"

definition CreateAPIKey :: "env_funs \<Rightarrow> string \<Rightarrow> duration \<Rightarrow> Claims \<Rightarrow> reply call" where
  "CreateAPIKey c name lifetime actor = (if \<not> canManageKeys actor then Return (Inl ServiceForbidden)
     else if TrimSpace name = '''' then Return (Inl ServiceInvalidInput) else if lifetime > MaxKeyLifetime then Return (Inl ServiceInvalidInput)
     else andThenE (in_store (\<lambda>i now a. case store_CreateAPIKey now (new_key c (TrimSpace name) lifetime actor i now) a of
         (Inl e, a') \<Rightarrow> (Inl e, a') | (Inr k, a') \<Rightarrow> (Inr (k, gk_Plaintext (Generate (ef_sha c) (in_random i))), a'))) (\<lambda>(k, plaintext).
       andThen (audit (cl_TenantID actor) (cl_UserID actor) ''apikey.create'' (ak_ID k)) (\<lambda>_. Return (Inr (RKey plaintext)))))"

definition manageableKey :: "Claims \<Rightarrow> string \<Rightarrow> APIKey call" where
  "manageableKey actor keyID = andThenE (in_store (\<lambda>_ _. store_GetAPIKey (cl_TenantID actor) keyID)) (\<lambda>k.
     Return (if \<not> canManageKeys actor \<and> ak_CreatedBy k \<noteq> cl_UserID actor then Inl ServiceNotFound else Inr k))"

definition RevokeAPIKey :: "string \<Rightarrow> Claims \<Rightarrow> reply call" where
  "RevokeAPIKey keyID actor = andThenE (manageableKey actor keyID) (\<lambda>_. andThenE (in_store (\<lambda>_ now. store_RevokeAPIKey (cl_TenantID actor) keyID now)) (\<lambda>_.
     andThen invalidate (\<lambda>_. andThen (audit (cl_TenantID actor) (cl_UserID actor) ''apikey.revoke'' keyID) (\<lambda>_. Return (Inr RDone)))))"

definition DeleteAPIKey :: "string \<Rightarrow> Claims \<Rightarrow> reply call" where
  "DeleteAPIKey keyID actor = andThenE (manageableKey actor keyID) (\<lambda>_. andThenE (in_store (\<lambda>_ _. store_DeleteAPIKey (cl_TenantID actor) keyID)) (\<lambda>_.
     andThen invalidate (\<lambda>_. andThen (audit (cl_TenantID actor) (cl_UserID actor) ''apikey.delete'' keyID) (\<lambda>_. Return (Inr RDone)))))"

definition TouchAPIKey :: "string \<Rightarrow> reply call" where
  "TouchAPIKey keyID = andThenE (in_store (\<lambda>_ now. store_MarkAPIKeyUsed keyID now)) (\<lambda>_. Return (Inr RDone))"

subsection \<open>Model and node access\<close>

text \<open>The stored JSON of a row is the list that it encodes.\<close>

definition checkModelAccessScope :: "string \<Rightarrow> unit call" where
  "checkModelAccessScope scope = (if scope = PlatformScope then Return (Inr ()) else if scope = '''' then Return (Inl ServiceInvalidInput)
     else andThenE (in_store (\<lambda>_ _. store_GetTenant scope)) (\<lambda>_. Return (Inr ())))"

definition SetModelAccess :: "string \<Rightarrow> string list \<Rightarrow> Claims \<Rightarrow> reply call" where
  "SetModelAccess scope models actor = (if \<not> isPlatformActor actor \<or> cl_UserID actor = '''' then Return (Inl ServiceForbidden)
     else andThenE (checkModelAccessScope scope) (\<lambda>_. case Normalize models of Inl _ \<Rightarrow> Return (Inl ServiceInvalidInput)
       | Inr normalized \<Rightarrow> andThenE (in_store (\<lambda>_ _. if length normalized = 0 then store_DeleteModelAccess scope else store_PutModelAccess scope normalized)) (\<lambda>_.
           andThen invalidate (\<lambda>_. andThen (audit PlatformScope (cl_UserID actor) ''model_access.update'' scope) (\<lambda>_. Return (Inr RDone))))))"

definition MaxDedicatedNodes :: nat where "MaxDedicatedNodes = 1000"

definition checkDedicatedCapacity :: "string \<Rightarrow> unit call" where
  "checkDedicatedCapacity nodeID = andThenE (in_store (\<lambda>_ _. store_ListNodeAccess)) (\<lambda>rows.
     Return (if length rows < MaxDedicatedNodes then Inr () else if list_ex (\<lambda>r. fst r = nodeID) rows then Inr () else Inl ServiceConflict))"

primrec tenants_exist :: "string list \<Rightarrow> unit call" where
  "tenants_exist [] = Return (Inr ())"
| "tenants_exist (t # ts) = andThenE (in_store (\<lambda>_ _. store_GetTenant t)) (\<lambda>_. tenants_exist ts)"

definition SetNodeAccess :: "string \<Rightarrow> string list \<Rightarrow> Claims \<Rightarrow> reply call" where
  "SetNodeAccess nodeID ts actor = (if \<not> isPlatformActor actor \<or> cl_UserID actor = '''' then Return (Inl ServiceForbidden)
     else if \<not> validID nodeID then Return (Inl ServiceInvalidInput) else if snd (OwnerOf nodeID) then Return (Inl ServiceConflict)
     else (case NormalizeTenants ts of Inl _ \<Rightarrow> Return (Inl ServiceInvalidInput)
       | Inr normalized \<Rightarrow> andThenE (tenants_exist normalized) (\<lambda>_.
           andThenE (if length normalized = 0 then in_store (\<lambda>_ _. store_DeleteNodeAccess nodeID)
             else andThenE (checkDedicatedCapacity nodeID) (\<lambda>_. in_store (\<lambda>_ _. store_PutNodeAccess nodeID normalized))) (\<lambda>_.
             andThen invalidate (\<lambda>_. andThen (audit PlatformScope (cl_UserID actor) ''node_access.update'' nodeID) (\<lambda>_. Return (Inr RDone)))))))"

subsection \<open>Verification of a key\<close>

definition modelPolicy :: "string \<Rightarrow> model_policy call" where
  "modelPolicy tid = andThenE (in_store (\<lambda>_ _. store_GetModelAccess [PlatformScope, tid])) (\<lambda>rows.
     Return (Inr (fold (\<lambda>(scope, models) p. if scope = PlatformScope then p\<lparr>Platform := models\<rparr> else if scope = tid then p\<lparr>model_policy.Tenant := models\<rparr> else p)
       rows \<lparr>Platform = [], model_policy.Tenant = []\<rparr>)))"

definition nodePolicy :: "string \<Rightarrow> node_policy call" where
  "nodePolicy tid = andThenE (in_store (\<lambda>_ _. store_ListNodeAccess)) (\<lambda>rows.
     Return (Inr (PolicyFor (map (\<lambda>(n, ts). \<lparr>bound_NodeID = n, bound_Tenants = ts\<rparr>) rows) tid)))"

definition account_billingBlocked :: "env_funs \<Rightarrow> string \<Rightarrow> bool call" where
  "account_billingBlocked c tid = (if \<not> ef_billing c then Return (Inr False)
     else andThen (in_store (\<lambda>_ _. store_GetTenantBilling tid)) (\<lambda>r. Return (case r of Inr row \<Rightarrow> Inr (Blocked row) | Inl e \<Rightarrow> if e = ServiceNotFound then Inr False else Inl e)))"

definition read_clock :: "(world, go_time) prog" where
  "read_clock = atomic (\<lambda>_ w. (wo_now w, w))"

definition VerifyKeyHash :: "env_funs \<Rightarrow> string \<Rightarrow> Verification call" where
  "VerifyKeyHash c hash = (if length hash \<noteq> 64 then Return (Inl ServiceNotFound)
     else andThenE (in_store (\<lambda>_ _. store_GetAPIKeyByHash hash)) (\<lambda>k. andThen read_clock (\<lambda>now.
       if \<not> Usable k now then Return (Inl ServiceNotFound)
       else andThenE (in_store (\<lambda>_ _. store_GetTenant (ak_TenantID k))) (\<lambda>t.
         if tn_Status t \<noteq> StatusActive then Return (Inl ServiceNotFound)
         else andThenE (modelPolicy (tn_ID t)) (\<lambda>policy. andThenE (nodePolicy (tn_ID t)) (\<lambda>nodes. andThenE (account_billingBlocked c (tn_ID t)) (\<lambda>blocked.
           Return (Inr \<lparr>vf_TenantID = ak_TenantID k, vf_KeyID = ak_ID k, vf_Limits = tn_Limits t,
             vf_Models = (if Unrestricted policy then None else Some policy), vf_Nodes = (if NodePolicy_Unrestricted nodes then None else Some nodes),
             vf_BillingBlocked = blocked\<rparr>))))))))"

definition verifyKey :: "env_funs \<Rightarrow> string \<Rightarrow> Verification call" where
  "verifyKey c hash = andThen (atomic (\<lambda>i w. (cache_Get (in_lost i) (wo_now w) hash (wo_cache w), w))) (\<lambda>(hit, generation). case hit of
     Some v \<Rightarrow> Return (Inr v)
   | None \<Rightarrow> andThenE (VerifyKeyHash c hash) (\<lambda>v.
       andThen (atomic (\<lambda>i w. ((), w\<lparr>wo_cache := cache_Put (in_lost i) (wo_now w) hash v generation (wo_cache w)\<rparr>))) (\<lambda>_. Return (Inr v))))"

subsection \<open>The Gateways\<close>

definition at_gateway :: "nat \<Rightarrow> (go_time \<Rightarrow> Verifier \<Rightarrow> 'a \<times> Verifier) \<Rightarrow> 'a call" where
  "at_gateway g f = atomic (\<lambda>i w. if g < length (wo_gateways w)
     then (case f (wo_now w) (wo_gateways w ! g) of (r, v) \<Rightarrow> (Inr r, w\<lparr>wo_gateways := (wo_gateways w)[g := v]\<rparr>)) else (Inl ServiceOther, w))"

text \<open>A call to the control plane: the request, or the answer, may be lost.\<close>

definition may_be_lost :: "unit call" where
  "may_be_lost = atomic (\<lambda>i w. (if in_lost i then Inl ServiceOther else Inr (), w))"

definition remote :: "'a call \<Rightarrow> 'a call" where
  "remote p = andThenE may_be_lost (\<lambda>_. andThenE p (\<lambda>a. andThenE may_be_lost (\<lambda>_. Return (Inr a))))"

definition ask :: "env_funs \<Rightarrow> string \<Rightarrow> Identity call" where
  "ask c hash = andThen (remote (verifyKey c hash)) (\<lambda>r. Return (case r of
     Inl e \<Rightarrow> Inl (if e = ServiceNotFound then ServiceInvalidCredentials else ServiceOther)
   | Inr v \<Rightarrow> (case identity_of v of None \<Rightarrow> Inl ServiceOther | Some identity \<Rightarrow> Inr identity)))"

definition gateway_Verify :: "env_funs \<Rightarrow> nat \<Rightarrow> string \<Rightarrow> Identity call" where
  "gateway_Verify c g key = (case HashOf (ef_sha c) key of None \<Rightarrow> Return (Inl ServiceInvalidCredentials)
     | Some hash \<Rightarrow> andThenE (at_gateway g (\<lambda>now. cached now hash)) (\<lambda>(hit, epoch). case hit of
         Some identity \<Rightarrow> Return (Inr identity)
       | None \<Rightarrow> andThenE (ask c hash) (\<lambda>identity. andThenE (at_gateway g (\<lambda>now v. ((), verifier_store now hash identity epoch v))) (\<lambda>_. Return (Inr identity)))))"

text \<open>
  \<open>WatchGeneration\<close> answers with the generation as it reads it: at once when it differs, otherwise after a
  notification or the wait. Notifications that leave the generation as it was are no steps.
\<close>

definition read_generation :: "int call" where
  "read_generation = atomic (\<lambda>i w. (if in_lost i then Inl ServiceUnavailable else Inr (vc_generation (wo_cache w)), w))"

definition WatchGeneration :: "int \<Rightarrow> int call" where
  "WatchGeneration after = andThenE read_generation (\<lambda>generation. if generation \<noteq> after then Return (Inr generation) else read_generation)"

text \<open>One round of \<open>RunRevocationWatch\<close>.\<close>

definition revocation_round :: "nat \<Rightarrow> reply call" where
  "revocation_round g = andThenE (at_gateway g (\<lambda>_ v. (ve_generation v, v))) (\<lambda>after. andThen (remote (WatchGeneration after)) (\<lambda>r. case r of
     Inr generation \<Rightarrow> andThenE (at_gateway g (\<lambda>_. applyGeneration generation)) (\<lambda>_. Return (Inr RDone))
   | Inl _ \<Rightarrow> andThenE (at_gateway g (\<lambda>_. disableCache)) (\<lambda>_. Return (Inr RDone))))"

subsection \<open>Requests\<close>

datatype session_request = LogoutReq | RevokeOwn | ChangeOwn string string | CreateUserReq string string string string | ResetUser string string
  | SetRole string string | Disable string | Enable string | RevokeUser string | SetLimits limits
  | CreateKey string duration | RevokeKey string | DeleteKey string

datatype platform_request = PlatformLogout | PlatformRevokeOwn | PlatformChangeOwn string string | CreateOperator string string string
  | ResetOperator string string | DisableOperator string | EnableOperator string | RevokeOperator string
  | ModelAccessReq string "string list" | NodeAccessReq string "string list"

datatype request =
    Login string string | PlatformLogin string string
  | Session Claims session_request | PlatformSession Claims platform_request
  | NewTenant string string string | TouchKey string | VerifyKey string | RelayFlush
  | GatewayVerify nat string | GatewayWatch nat

fun session_handler :: "env_funs \<Rightarrow> session_request \<Rightarrow> Claims \<Rightarrow> reply call" where
  "session_handler c LogoutReq = Logout"
| "session_handler c RevokeOwn = RevokeOwnSessions"
| "session_handler c (ChangeOwn current new) = ChangeOwnPassword c current new"
| "session_handler c (CreateUserReq email password name role) = CreateUser c email password name role"
| "session_handler c (ResetUser userID new) = ResetUserPassword c userID new"
| "session_handler c (SetRole userID role) = ChangeUserRole userID role"
| "session_handler c (Disable userID) = DisableUser userID"
| "session_handler c (Enable userID) = EnableUser userID"
| "session_handler c (RevokeUser userID) = RevokeUserSessions userID"
| "session_handler c (SetLimits l) = SetTenantLimits l"
| "session_handler c (CreateKey name lifetime) = CreateAPIKey c name lifetime"
| "session_handler c (RevokeKey keyID) = RevokeAPIKey keyID"
| "session_handler c (DeleteKey keyID) = DeleteAPIKey keyID"

fun platform_handler :: "env_funs \<Rightarrow> platform_request \<Rightarrow> Claims \<Rightarrow> reply call" where
  "platform_handler c PlatformLogout = Logout"
| "platform_handler c PlatformRevokeOwn = RevokeOwnSessions"
| "platform_handler c (PlatformChangeOwn current new) = ChangeOwnPlatformPassword c current new"
| "platform_handler c (CreateOperator email password name) = CreatePlatformOperatorAs c email password name"
| "platform_handler c (ResetOperator operatorID new) = ResetPlatformOperatorPassword c operatorID new"
| "platform_handler c (DisableOperator operatorID) = DisablePlatformOperator operatorID"
| "platform_handler c (EnableOperator operatorID) = EnablePlatformOperator operatorID"
| "platform_handler c (RevokeOperator operatorID) = RevokePlatformOperatorSessions operatorID"
| "platform_handler c (ModelAccessReq scope models) = SetModelAccess scope models"
| "platform_handler c (NodeAccessReq nodeID ts) = SetNodeAccess nodeID ts"

fun account_handler :: "env_funs \<Rightarrow> request \<Rightarrow> reply call" where
  "account_handler c (Login email password) = login c email password"
| "account_handler c (PlatformLogin email password) = platformLogin c email password"
| "account_handler c (Session cl q) = requireSession cl (session_handler c q)"
| "account_handler c (PlatformSession cl q) = requirePlatformSession cl (platform_handler c q)"
| "account_handler c (NewTenant name email password) = CreateTenant c name email password"
| "account_handler c (TouchKey keyID) = TouchAPIKey keyID"
| "account_handler c (VerifyKey hash) = andThenE (verifyKey c hash) (\<lambda>v. Return (Inr (RVerified v)))"
| "account_handler c RelayFlush = andThen invalidate (\<lambda>_. Return (Inr RDone))"
| "account_handler c (GatewayVerify g key) = andThenE (gateway_Verify c g key) (\<lambda>identity. Return (Inr (RIdentity identity)))"
| "account_handler c (GatewayWatch g) = revocation_round g"

definition new_world :: "go_time \<Rightarrow> accounts \<Rightarrow> duration \<Rightarrow> (duration \<times> int) list \<Rightarrow> world" where
  "new_world now a ttl gateways = \<lparr>wo_now = now, wo_db = a, wo_sessions = Sessions.NewMemory, wo_cache = NewVerifications ttl,
     wo_gateways = map (\<lambda>(t, n). NewVerifier t n) gateways, wo_published = []\<rparr>"

end
