(* ===== verification/AccountChanges.thy ===== *)
theory AccountChanges
  imports AccountLogic
begin

text \<open>
  What the handlers of \<open>AccountLogic\<close> do to the shared state, one call at a time: the changes of the store and of
  the sessions as step relations, the contract that an invariant or a relation has to meet, and that every handler
  stays within it, in every interleaving.
\<close>


section \<open>Changes\<close>

text \<open>
  \<open>E\<close> tells which users may be enabled. New rows have the ids that the step drew.
\<close>

inductive db_change :: "env_funs \<Rightarrow> (string \<Rightarrow> bool) \<Rightarrow> inputs \<Rightarrow> go_time \<Rightarrow> accounts \<Rightarrow> accounts \<Rightarrow> bool" for c E i now where
  db_tenant: "store_CreateTenant now t a = (rt, a') \<Longrightarrow> db_change c E i now a a'"
| db_limits: "store_UpdateTenantLimits now tid l a = (ru, a') \<Longrightarrow> db_change c E i now a a'"
| db_user: "store_CreateUser now u a = (rs, a') \<Longrightarrow> us_ID u = ''usr_'' @ in_random i \<Longrightarrow> us_Status u = StatusActive \<Longrightarrow> db_change c E i now a a'"
| db_login: "store_MarkUserLogin uid now a = (ru, a') \<Longrightarrow> db_change c E i now a a'"
| db_password: "store_UpdateUserPassword tid uid digest e a = (rs, a') \<Longrightarrow> db_change c E i now a a'"
| db_role: "store_UpdateUserRole tid uid role at_time e a = (rb, a') \<Longrightarrow> db_change c E i now a a'"
| db_suspend: "store_SetUserStatus tid uid StatusSuspended at_time e a = (rb, a') \<Longrightarrow> db_change c E i now a a'"
| db_enable: "store_SetUserStatus tid uid StatusActive at_time e a = (rb, a') \<Longrightarrow> E uid \<Longrightarrow> db_change c E i now a a'"
| db_operator: "store_CreatePlatformOperator now p au a = (rp, a') \<Longrightarrow> po_ID p = ''plt_'' @ in_random i \<Longrightarrow> po_Status p = StatusActive \<Longrightarrow> db_change c E i now a a'"
| db_operator_login: "store_MarkPlatformOperatorLogin oid now a = (ru, a') \<Longrightarrow> db_change c E i now a a'"
| db_operator_password: "store_UpdatePlatformOperatorPassword oid digest e a = (rp, a') \<Longrightarrow> db_change c E i now a a'"
| db_operator_status: "store_SetPlatformOperatorStatus oid status at_time e a = (ro, a') \<Longrightarrow> status = StatusSuspended \<or> status = StatusActive \<Longrightarrow> db_change c E i now a a'"
| db_key: "store_CreateAPIKey now k a = (rk, a') \<Longrightarrow> ak_ID k = ''key_'' @ in_random i \<Longrightarrow> ak_Hash k = gk_Hash (Generate (ef_sha c) (in_random i)) \<Longrightarrow> db_change c E i now a a'"
| db_revoke: "store_RevokeAPIKey tid kid at_time a = (ru, a') \<Longrightarrow> db_change c E i now a a'"
| db_delete: "store_DeleteAPIKey tid kid a = (ru, a') \<Longrightarrow> db_change c E i now a a'"
| db_used: "store_MarkAPIKeyUsed kid now a = (ru, a') \<Longrightarrow> db_change c E i now a a'"
| db_audit: "store_AppendAudit e a = (ru, a') \<Longrightarrow> db_change c E i now a a'"
| db_models: "a' = a\<lparr>ac_modelAccess := ma\<rparr> \<Longrightarrow> db_change c E i now a a'"
| db_nodes: "a' = a\<lparr>ac_nodeAccess := na\<rparr> \<Longrightarrow> db_change c E i now a a'"

text \<open>Changes of the sessions, except for new ones.\<close>

inductive session_change :: "inputs \<Rightarrow> go_time \<Rightarrow> Sessions.Memory \<Rightarrow> Sessions.Memory \<Rightarrow> bool" for i now where
  se_validate: "session_Validate (in_cancelled i) now sid x tid role m = (ru, m') \<Longrightarrow> session_change i now m m'"
| se_revoke: "session_Revoke (in_cancelled i) now x sid m = (rb, m') \<Longrightarrow> session_change i now m m'"
| se_revoke_all: "session_RevokeAll (in_cancelled i) now x m = (rn, m') \<Longrightarrow> session_change i now m m'"
| se_begin: "BeginMutation (in_cancelled i) now (in_random i) x m = (rg, m') \<Longrightarrow> session_change i now m m'"
| se_end: "EndMutation (in_cancelled i) now g m = (ru, m') \<Longrightarrow> session_change i now m m'"

text \<open>Users and operators are filed under their ids, once.\<close>

definition filed :: "accounts \<Rightarrow> bool" where
  "filed a \<longleftrightarrow> distinct (map fst (ac_users a)) \<and> (\<forall>(i, u) \<in> set (ac_users a). us_ID u = i)
     \<and> distinct (map fst (ac_operators a)) \<and> (\<forall>(i, p) \<in> set (ac_operators a). po_ID p = i)"

lemma filed_user: "map_of (ac_users a) i = Some u \<Longrightarrow> filed a \<Longrightarrow> us_ID u = i"
  by (auto simp: filed_def dest: map_of_SomeD)

text \<open>What the random source gives is new.\<close>

definition fresh :: "inputs \<Rightarrow> world \<Rightarrow> bool" where
  "fresh i w \<longleftrightarrow> ''usr_'' @ in_random i \<notin> fst ` set (ac_users (wo_db w)) \<and> ''plt_'' @ in_random i \<notin> fst ` set (ac_operators (wo_db w))
     \<and> ''key_'' @ in_random i \<notin> fst ` set (ac_keys (wo_db w))"


section \<open>The contract\<close>

text \<open>
  \<open>I\<close> holds in every state, \<open>R\<close> relates each state to all later ones. A relation has to allow every change of
  the store, of the sessions and of the generation.
\<close>

locale account_rely = rely R for R :: "world \<Rightarrow> world \<Rightarrow> bool" +
  fixes c :: env_funs and E :: "string \<Rightarrow> bool" and env :: "inputs \<Rightarrow> world \<Rightarrow> bool" and I :: "world \<Rightarrow> bool"
  assumes keeps: "R w v \<Longrightarrow> I w \<Longrightarrow> I v"
    and is_filed: "I w \<Longrightarrow> filed (wo_db w)"
    and R_db: "env i w \<Longrightarrow> I w \<Longrightarrow> db_change c E i (wo_now w) (wo_db w) d \<Longrightarrow> R w (w\<lparr>wo_db := d\<rparr>)"
    and R_session: "env i w \<Longrightarrow> I w \<Longrightarrow> session_change i (wo_now w) (wo_sessions w) m \<Longrightarrow> R w (w\<lparr>wo_sessions := m\<rparr>)"
    and R_publish: "env i w \<Longrightarrow> I w \<Longrightarrow> R w (w\<lparr>wo_cache := PublishInvalidation False (wo_cache w), wo_published := wo_published w @ [(wo_db w, map ve_epoch (wo_gateways w))]\<rparr>)"
    and R_time: "0 \<le> dt \<Longrightarrow> R w (account_tick dt w)"
begin

definition guarded :: "inputs \<Rightarrow> world \<Rightarrow> bool" where
  "guarded i w \<longleftrightarrow> env i w \<and> I w"

definition stays :: "world \<Rightarrow> (world, 'r) prog \<Rightarrow> bool" where
  "stays w p \<longleftrightarrow> assured guarded R (\<lambda>_ _. True) w p"

lemma stays_Return: "stays w (Return r)"
  by (simp add: stays_def)

lemma stays_andThen: "stays w p \<Longrightarrow> (\<And>v a. stays v (k a)) \<Longrightarrow> stays w (andThen p k)"
  unfolding stays_def by (rule assured_andThen)

lemma stays_andThenE: "stays w p \<Longrightarrow> (\<And>v a. stays v (k a)) \<Longrightarrow> stays w (andThenE p k)"
  unfolding stays_def by (rule assured_andThenE) auto

lemma stays_atomic: "(\<And>i v. env i v \<Longrightarrow> I v \<Longrightarrow> R v (snd (f i v))) \<Longrightarrow> stays w (atomic f)"
  unfolding stays_def by (rule assured_atomic) (metis guarded_def snd_conv)

lemma stays_in_store: "(\<And>i (v :: world) r d. f i (wo_now v) (wo_db v) = (r, d) \<Longrightarrow> d = wo_db v \<or> db_change c E i (wo_now v) (wo_db v) d) \<Longrightarrow> stays w (in_store f)"
  unfolding in_store_def
proof (rule stays_atomic)
  fix i and v :: world
  assume f: "\<And>i (v :: world) r d. f i (wo_now v) (wo_db v) = (r, d) \<Longrightarrow> d = wo_db v \<or> db_change c E i (wo_now v) (wo_db v) d" and v: "env i v" "I v"
  obtain r d where rd: "f i (wo_now v) (wo_db v) = (r, d)" by force
  show "R v (snd (case f i (wo_now v) (wo_db v) of (r, d) \<Rightarrow> (translated r, v\<lparr>wo_db := d\<rparr>)))"
    using f [OF rd] R_db [OF v] refl [of v] by (auto simp: rd)
qed

lemma stays_in_sessions: "(\<And>i (v :: world) r m. f i (wo_now v) (wo_sessions v) = (r, m) \<Longrightarrow> session_change i (wo_now v) (wo_sessions v) m) \<Longrightarrow> stays w (in_sessions f)"
  unfolding in_sessions_def
proof (rule stays_atomic)
  fix i and v :: world
  assume f: "\<And>i (v :: world) r m. f i (wo_now v) (wo_sessions v) = (r, m) \<Longrightarrow> session_change i (wo_now v) (wo_sessions v) m" and v: "env i v" "I v"
  obtain r m where rm: "f i (wo_now v) (wo_sessions v) = (r, m)" by force
  show "R v (snd (case f i (wo_now v) (wo_sessions v) of (r, m) \<Rightarrow> (r, v\<lparr>wo_sessions := m\<rparr>)))"
    using R_session [OF v f [OF rm]] by (simp add: rm)
qed

lemma stays_if: "(b \<Longrightarrow> stays w p) \<Longrightarrow> (\<not> b \<Longrightarrow> stays w q) \<Longrightarrow> stays w (if b then p else q)"
  by simp

lemma stays_sum: "(\<And>e. stays w (f e)) \<Longrightarrow> (\<And>a. stays w (g a)) \<Longrightarrow> stays w (case r of Inl e \<Rightarrow> f e | Inr a \<Rightarrow> g a)"
  by (simp split: sum.splits)

lemma stays_option: "stays w p \<Longrightarrow> (\<And>a. stays w (g a)) \<Longrightarrow> stays w (case r of None \<Rightarrow> p | Some a \<Rightarrow> g a)"
  by (simp split: option.splits)

lemma stays_pair: "(\<And>a b. stays w (f a b)) \<Longrightarrow> stays w (case p of (a, b) \<Rightarrow> f a b)"
  by (simp split: prod.splits)

lemmas stays_rules = stays_Return stays_andThen stays_andThenE stays_if stays_sum stays_option stays_pair

lemma stays_invalidate: "stays w invalidate"
  unfolding invalidate_def by (rule stays_atomic) (auto intro: refl R_publish)

lemma stays_audit: "stays w (audit tid actorID action target)"
  unfolding audit_def by (intro stays_rules stays_in_store) (auto intro: db_audit)

lemma stays_get: "(\<And>a. snd (f a) = a) \<Longrightarrow> stays w (in_store (\<lambda>_ _. f))"
  by (rule stays_in_store) (metis snd_conv)

lemmas get_simps = store_GetTenant_def store_GetUser_def store_GetUserByEmail_def store_GetPlatformOperatorByEmail_def store_GetPlatformOperator_def
  store_GetAPIKeyByHash_def store_GetAPIKey_def store_GetModelAccess_def store_ListNodeAccess_def store_GetTenantBilling_def

text \<open>The calls of the store, as the handlers make them.\<close>

lemma stays_user_ops:
  "stays w (in_store (\<lambda>i now. store_MarkUserLogin uid now))"
  "stays w (in_store (\<lambda>i now. store_UpdateUserPassword tid uid (F i now) (G i now)))"
  "stays w (in_store (\<lambda>i now. store_UpdateUserRole tid uid role now (G i now)))"
  "stays w (in_store (\<lambda>i now. store_SetUserStatus tid uid StatusSuspended now (G i now)))"
  "E uid \<Longrightarrow> stays w (in_store (\<lambda>i now. store_SetUserStatus tid uid StatusActive now (G i now)))"
  "(\<And>i now. us_ID (U i now) = ''usr_'' @ in_random i \<and> us_Status (U i now) = StatusActive) \<Longrightarrow> stays w (in_store (\<lambda>i now. store_CreateUser now (U i now)))"
  by (rule stays_in_store; blast intro: db_change.intros)+

lemma stays_operator_ops:
  "stays w (in_store (\<lambda>i now. store_MarkPlatformOperatorLogin oid now))"
  "stays w (in_store (\<lambda>i now. store_UpdatePlatformOperatorPassword oid (F i now) (G i now)))"
  "status = StatusSuspended \<or> status = StatusActive \<Longrightarrow> stays w (in_store (\<lambda>i now. store_SetPlatformOperatorStatus oid status now (G i now)))"
  "(\<And>i now. po_ID (P i now) = ''plt_'' @ in_random i \<and> po_Status (P i now) = StatusActive) \<Longrightarrow> stays w (in_store (\<lambda>i now. store_CreatePlatformOperator now (P i now) (H i now)))"
  by (rule stays_in_store; blast intro: db_change.intros)+

lemma stays_tenant_ops:
  "stays w (in_store (\<lambda>i now. store_CreateTenant now (T i now)))"
  "stays w (in_store (\<lambda>i now. store_UpdateTenantLimits now tid l))"
  "stays w (in_store (\<lambda>i now. store_RevokeAPIKey tid kid now))"
  "stays w (in_store (\<lambda>i now. store_DeleteAPIKey tid kid))"
  "stays w (in_store (\<lambda>i now. store_MarkAPIKeyUsed kid now))"
  by (rule stays_in_store; blast intro: db_change.intros)+

lemma stays_access_ops:
  "stays w (in_store (\<lambda>i now. if length ms = 0 then store_DeleteModelAccess scope else store_PutModelAccess scope ms))"
  "stays w (in_store (\<lambda>i now. store_DeleteNodeAccess nid))"
  "stays w (in_store (\<lambda>i now. store_PutNodeAccess nid ts))"
  by (rule stays_in_store; auto simp: store_DeleteModelAccess_def store_PutModelAccess_def store_DeleteNodeAccess_def store_PutNodeAccess_def
      intro: db_models [OF HOL.refl] db_nodes [OF HOL.refl] split: if_splits)+

lemma stays_gets:
  "stays w (in_store (\<lambda>i now. store_GetTenant tid))" "stays w (in_store (\<lambda>i now. store_GetUser tid uid))"
  "stays w (in_store (\<lambda>i now. store_GetUserByEmail email))" "stays w (in_store (\<lambda>i now. store_GetPlatformOperatorByEmail email))"
  "stays w (in_store (\<lambda>i now. store_GetPlatformOperator oid))" "stays w (in_store (\<lambda>i now. store_GetAPIKeyByHash h))"
  "stays w (in_store (\<lambda>i now. store_GetAPIKey tid kid))" "stays w (in_store (\<lambda>i now. store_GetModelAccess scopes))"
  "stays w (in_store (\<lambda>i now. store_ListNodeAccess))" "stays w (in_store (\<lambda>i now. store_GetTenantBilling tid))"
  by (rule stays_in_store; auto simp: get_simps)+

lemma stays_session_ops:
  "stays w (in_sessions (\<lambda>i now. session_Validate (in_cancelled i) now sid x tid role))"
  "stays w (in_sessions (\<lambda>i now. session_Revoke (in_cancelled i) now x sid))"
  "stays w (in_sessions (\<lambda>i now. session_RevokeAll (in_cancelled i) now x))"
  "stays w (in_sessions (\<lambda>i now. BeginMutation (in_cancelled i) now (in_random i) x))"
  "stays w (in_sessions (\<lambda>i now. EndMutation (in_cancelled i) now g))"
  by (rule stays_in_sessions; blast intro: session_change.intros)+

lemmas stays_ops = stays_user_ops(1-4,6) stays_operator_ops stays_tenant_ops stays_access_ops stays_gets stays_session_ops stays_invalidate stays_audit

text \<open>The handlers.\<close>

lemma stays_finish: "stays w (finishMutation g m)"
  unfolding finishMutation_def by (intro stays_rules stays_ops)

lemma stays_begin: "stays w (beginMutation x)"
  unfolding beginMutation_def with_session_error_def by (intro stays_rules stays_ops)

lemma stays_revoke_all: "stays w (revoke_all_sessions x)" "stays w (revoked_audit tid actorID action target n)"
  unfolding revoke_all_sessions_def with_session_error_def revoked_audit_def by (intro stays_rules stays_ops)+

lemma stays_managed: "stays w (managedUser actor uid)" "stays w (managedPlatformOperator actor oid)" "stays w (manageableKey actor kid)"
  unfolding managedUser_def managedPlatformOperator_def manageableKey_def by (intro stays_rules stays_ops)+

lemmas stays_parts = stays_rules stays_ops stays_finish stays_begin stays_revoke_all stays_managed

lemma stays_own: "stays w (Logout cl)" "stays w (RevokeOwnSessions cl)"
  unfolding Logout_def RevokeOwnSessions_def with_session_error_def by (intro stays_parts)+

lemma stays_user_changes:
  "stays w (ChangeOwnPassword c current new cl)" "stays w (ResetUserPassword c uid new cl)" "stays w (ChangeUserRole uid role cl)"
  "stays w (DisableUser uid cl)" "stays w (RevokeUserSessions uid cl)"
  unfolding ChangeOwnPassword_def ResetUserPassword_def ChangeUserRole_def DisableUser_def RevokeUserSessions_def by (intro stays_parts)+

lemma stays_createUser: "stays w (createUser c tid email password name role)"
  unfolding createUser_def by (intro stays_parts) simp

lemma stays_tenant: "stays w (CreateUser c email password name role cl)" "stays w (CreateTenant c name email password)" "stays w (SetTenantLimits l cl)"
  unfolding CreateUser_def CreateTenant_def createTenantWithOwner_def SetTenantLimits_def by (intro stays_parts stays_createUser)+

lemma stays_keys: "stays w (RevokeAPIKey kid cl)" "stays w (DeleteAPIKey kid cl)" "stays w (TouchAPIKey kid)"
  unfolding RevokeAPIKey_def DeleteAPIKey_def TouchAPIKey_def by (intro stays_parts)+

lemma stays_createKey: "stays w (CreateAPIKey c name lifetime cl)"
  unfolding CreateAPIKey_def
proof (intro stays_parts stays_in_store)
  fix i r d and v :: world
  assume "(case store_CreateAPIKey (wo_now v) (new_key c (TrimSpace name) lifetime cl i (wo_now v)) (wo_db v) of (Inl e, a') \<Rightarrow> (Inl e, a')
      | (Inr k, a') \<Rightarrow> (Inr (k, gk_Plaintext (Generate (ef_sha c) (in_random i))), a')) = (r, d)"
  then obtain rk where "store_CreateAPIKey (wo_now v) (new_key c (TrimSpace name) lifetime cl i (wo_now v)) (wo_db v) = (rk, d)" by (auto split: prod.splits sum.splits)
  then show "d = wo_db v \<or> db_change c E i (wo_now v) (wo_db v) d" using db_key by (fastforce simp: new_key_def Let_def)
qed

lemma stays_operators:
  "stays w (ChangeOwnPlatformPassword c current new cl)" "stays w (ResetPlatformOperatorPassword c oid new cl)"
  "stays w (RevokePlatformOperatorSessions oid cl)" "stays w (DisablePlatformOperator oid cl)" "stays w (EnablePlatformOperator oid cl)"
  unfolding ChangeOwnPlatformPassword_def ResetPlatformOperatorPassword_def RevokePlatformOperatorSessions_def DisablePlatformOperator_def EnablePlatformOperator_def set_operator_status_def
  by (intro stays_parts; simp)+

lemma stays_createOperator: "stays w (CreatePlatformOperatorAs c email password name cl)"
  unfolding CreatePlatformOperatorAs_def by (intro stays_parts) simp

lemma stays_tenants_exist: "stays w (tenants_exist ts)"
  by (induction ts arbitrary: w) (simp_all add: stays_Return, intro stays_parts)

lemma stays_access: "stays w (SetModelAccess scope models cl)" "stays w (SetNodeAccess nid ts cl)"
  unfolding SetModelAccess_def checkModelAccessScope_def SetNodeAccess_def checkDedicatedCapacity_def by (intro stays_parts stays_tenants_exist)+

text \<open>A user that is read by its id is the one with this id.\<close>

lemma managed_user: "assured guarded R (\<lambda>_ r. \<forall>u. r = Inr u \<longrightarrow> us_ID u = uid) w (managedUser actor uid)"
  unfolding managedUser_def in_store_def
  by (auto intro!: assured_atomic refl simp: store_GetUser_def translated_def guarded_def dest!: is_filed filed_user split: option.splits if_splits)

lemma stays_enable: "E uid \<Longrightarrow> stays w (EnableUser uid cl)"
  unfolding EnableUser_def stays_def
  by (rule assured_andThenE [OF managed_user]) (auto simp flip: stays_def intro!: stays_parts stays_user_ops(5))

lemma stays_session_handler: "(\<And>u. q = Enable u \<Longrightarrow> E u) \<Longrightarrow> stays w (session_handler c q cl)"
  by (cases q) (simp_all add: stays_own stays_user_changes stays_tenant stays_keys stays_createKey stays_enable)

lemma stays_platform_handler: "stays w (platform_handler c q cl)"
  by (cases q) (simp_all add: stays_own stays_operators stays_createOperator stays_access)

lemma stays_validate: "stays w (validateLiveSession kind cl)"
  unfolding validateLiveSession_def by (intro stays_parts)

text \<open>Requests that neither open a session nor verify a key.\<close>

fun console :: "request \<Rightarrow> bool" where
  "console (Session cl (Enable u)) = E u"
| "console (Session cl q) = True"
| "console (PlatformSession cl q) = True"
| "console (NewTenant name email password) = True"
| "console (TouchKey kid) = True"
| "console RelayFlush = True"
| "console q = False"

lemma stays_console: "console q \<Longrightarrow> stays w (account_handler c q)"
proof (cases q)
  case (Session cl sq)
  moreover assume "console q"
  ultimately have "\<And>u. sq = Enable u \<Longrightarrow> E u" by auto
  then show ?thesis using Session by (auto simp: requireSession_def intro!: stays_parts stays_validate stays_session_handler)
qed (auto simp: requirePlatformSession_def stays_tenant stays_keys intro!: stays_parts stays_validate stays_platform_handler)

lemma stays_later: "stays w p \<Longrightarrow> R w v \<Longrightarrow> stays v p"
  unfolding stays_def by (rule assured_rely)

text \<open>Every interleaving.\<close>

lemma stays_run:
  assumes "run (sys_step (account_handler c) account_tick env) s es t" "I (sy_world s)" "\<And>p. p \<in> set (sy_calls s) \<Longrightarrow> stays (sy_world s) p"
    and "\<And>q w. Start q \<in> set es \<Longrightarrow> stays w (account_handler c q)"
  shows "run (sys_step (account_handler c) account_tick guarded) s es t \<and> R (sy_world s) (sy_world t) \<and> I (sy_world t) \<and> (\<forall>p \<in> set (sy_calls t). stays (sy_world t) p)"
  using assms
proof (induction rule: run.induct)
  case (run_snoc s es s' e s'')
  have pre: "\<And>q w. Start q \<in> set es \<Longrightarrow> stays w (account_handler c q)" using run_snoc.prems(3) by simp
  note IH = run_snoc.IH [OF run_snoc.prems(1,2) pre]
  then have s': "run (sys_step (account_handler c) account_tick guarded) s es s'" "R (sy_world s) (sy_world s')" "I (sy_world s')" "all_assured guarded (\<lambda>_. True) s'"
    by (blast, blast, blast, simp add: all_assured_def flip: stays_def)
  have step: "sys_step (account_handler c) account_tick guarded s' e s''" using run_snoc.hyps(2) s'(3) unfolding sys_step_def by (cases e) (auto simp: guarded_def)
  have new: "assured guarded R (\<lambda>_ _. True) (sy_world s') (account_handler c q)" if "e = Start q" for q using run_snoc.prems(3) [of q "sy_world s'"] that by (simp add: stays_def)
  have s'': "R (sy_world s') (sy_world s'')" "all_assured guarded (\<lambda>_. True) s''" using assured_step [OF step s'(4) R_time new] by blast+
  show ?case using run.run_snoc [OF s'(1) step] trans [OF s'(2) s''(1)] keeps [OF s''(1) s'(3)] s''(2) by (simp add: all_assured_def stays_def)
qed (simp add: refl run_Nil)

lemma stays_open:
  assumes "\<And>v. stays v p"
    and "\<And>i v sid expiry y m. env i v \<Longrightarrow> I v \<Longrightarrow> session_Create (in_cancelled i) (wo_now v) \<lparr>sr_ID = sid, sr_Subject = x, sr_TenantID = tid, sr_Role = role, sr_ExpiresAt = expiry\<rparr> (wo_sessions v) = (y, m)
      \<Longrightarrow> R v (v\<lparr>wo_sessions := m\<rparr>)"
  shows "stays w (open_session c x tid role p)"
proof -
  have "stays v (in_sessions (\<lambda>i now. session_Create (in_cancelled i) now \<lparr>sr_ID = sid, sr_Subject = x, sr_TenantID = tid, sr_Role = role, sr_ExpiresAt = expiry\<rparr>))" for v sid expiry
    unfolding in_sessions_def by (rule stays_atomic) (auto split: prod.splits intro: assms(2))
  moreover have "stays v (issue c uid tid role)" for v uid unfolding issue_def by (rule stays_atomic) (simp add: refl)
  ultimately show ?thesis unfolding open_session_def create_session_def by (intro stays_parts assms(1))
qed

lemma stays_recorded: "stays w (RecordUserLogin u)" "stays w (RecordPlatformOperatorLogin p)"
  unfolding RecordUserLogin_def RecordPlatformOperatorLogin_def by (intro stays_parts)+

end

text \<open>Relations that allow new sessions; that allow every change of the caches; and both.\<close>

locale account_login = account_rely +
  assumes R_create: "env i w \<Longrightarrow> I w \<Longrightarrow> session_Create (in_cancelled i) (wo_now w) r (wo_sessions w) = (x, m) \<Longrightarrow> R w (w\<lparr>wo_sessions := m\<rparr>)"
begin

lemma stays_login: "stays w (login c email password)" "stays w (platformLogin c email password)"
  unfolding login_def platformLogin_def AuthenticateCredentials_def PlatformAuthenticateCredentials_def
  by (intro stays_parts stays_open stays_recorded; erule (2) R_create)+

end

locale account_caches = account_rely +
  assumes R_cache: "R w (w\<lparr>wo_cache := y\<rparr>)"
    and R_gateways: "R w (w\<lparr>wo_gateways := gs\<rparr>)"
begin

lemma stays_VerifyKeyHash: "stays w (VerifyKeyHash c h)"
  unfolding VerifyKeyHash_def modelPolicy_def nodePolicy_def account_billingBlocked_def read_clock_def
  by (intro stays_parts stays_atomic) (auto simp: refl)

lemma stays_verifyKey: "stays w (verifyKey c h)"
  unfolding verifyKey_def by (intro stays_parts stays_VerifyKeyHash stays_atomic) (auto simp: refl R_cache)

lemma stays_at_gateway: "stays w (at_gateway g f)"
  unfolding at_gateway_def by (rule stays_atomic) (auto simp: refl R_gateways split: prod.splits)

lemma stays_remote: "(\<And>v. stays v p) \<Longrightarrow> stays w (remote p)"
  unfolding remote_def may_be_lost_def by (intro stays_rules stays_atomic) (auto simp: refl)

lemma stays_gateway: "stays w (gateway_Verify c g key)" "stays w (revocation_round g)"
  unfolding gateway_Verify_def ask_def revocation_round_def WatchGeneration_def read_generation_def
  by (intro stays_rules stays_at_gateway stays_remote stays_verifyKey stays_atomic; simp add: refl)+

lemma stays_caches: "q = VerifyKey h \<or> q = GatewayVerify g key \<or> q = GatewayWatch g \<Longrightarrow> stays w (account_handler c q)"
  by (auto intro!: stays_rules stays_verifyKey stays_gateway)

end

locale account_invariant = account_login + account_caches
begin

lemma stays_all: "(\<And>u. E u) \<Longrightarrow> stays w (account_handler c q)"
proof (cases "console q")
  case False
  moreover assume "\<And>u. E u"
  ultimately show ?thesis by (cases q rule: console.cases) (auto intro: stays_login intro!: stays_rules stays_verifyKey stays_gateway)
qed (rule stays_console)

lemma invariant_run:
  "run (sys_step (account_handler c) account_tick env) \<lparr>sy_world = w, sy_calls = []\<rparr> es t \<Longrightarrow> I w \<Longrightarrow> (\<And>u. E u) \<Longrightarrow> I (sy_world t)"
  using stays_run [of "\<lparr>sy_world = w, sy_calls = []\<rparr>" es t] stays_all by simp

end

end
