(* ===== verification/AccountSafety.thy ===== *)
theory AccountSafety
  imports AccountChanges
begin

text \<open>
  Properties of the control plane's accounts in every interleaving of its handlers: a tenant keeps an active owner and
  the platform an active operator, active keys belong to active users, sessions are bounded and none is live while
  its subject's gate is closed, and a suspended user stays out.
\<close>


section \<open>Changes of users, operators and keys\<close>

definition active_owner :: "string \<Rightarrow> User \<Rightarrow> bool" where
  "active_owner tid u \<longleftrightarrow> us_TenantID u = tid \<and> us_Status u = StatusActive \<and> us_Role u = RoleOwner"

lemma status_neq [simp]: "StatusActive \<noteq> StatusSuspended" "StatusSuspended \<noteq> StatusActive" "StatusRevoked \<noteq> StatusActive" "StatusActive \<noteq> StatusRevoked"
  by (simp_all add: StatusActive_def StatusSuspended_def StatusRevoked_def)

inductive users_change :: "(string \<Rightarrow> bool) \<Rightarrow> string \<Rightarrow> accounts \<Rightarrow> (string \<times> User) list \<Rightarrow> bool" for E r a where
  users_same: "users_change E r a (ac_users a)"
| users_new: "us_ID u = r \<Longrightarrow> us_Status u = StatusActive \<Longrightarrow> users_change E r a (AList.update r u (ac_users a))"
| users_update: "map_of (ac_users a) uid = Some u \<Longrightarrow> us_ID u' = us_ID u \<Longrightarrow> us_TenantID u' = us_TenantID u
    \<Longrightarrow> us_Status u' = us_Status u \<or> us_Status u' = StatusSuspended \<or> us_Status u' = StatusActive \<and> E uid
    \<Longrightarrow> active_owner (us_TenantID u) u \<Longrightarrow> \<not> active_owner (us_TenantID u) u' \<Longrightarrow> 1 < activeOwners (us_TenantID u) a
    \<Longrightarrow> users_change E r a (AList.update uid u' (ac_users a))"
| users_keep: "map_of (ac_users a) uid = Some u \<Longrightarrow> us_ID u' = us_ID u \<Longrightarrow> us_TenantID u' = us_TenantID u
    \<Longrightarrow> us_Status u' = us_Status u \<or> us_Status u' = StatusSuspended \<or> us_Status u' = StatusActive \<and> E uid
    \<Longrightarrow> active_owner (us_TenantID u) u \<longrightarrow> active_owner (us_TenantID u) u'
    \<Longrightarrow> users_change E r a (AList.update uid u' (ac_users a))"

lemmas user_store_defs = store_CreateTenant_def store_UpdateTenantLimits_def store_CreateUser_def store_MarkUserLogin_def store_UpdateUserPassword_def
  store_UpdateUserRole_def store_SetUserStatus_def

lemmas operator_store_defs = store_CreatePlatformOperator_def store_MarkPlatformOperatorLogin_def store_UpdatePlatformOperatorPassword_def
  store_SetPlatformOperatorStatus_def

lemmas key_store_defs = store_CreateAPIKey_def store_RevokeAPIKey_def store_DeleteAPIKey_def store_MarkAPIKeyUsed_def store_AppendAudit_def

lemma role_change:
  assumes "store_UpdateUserRole tid uid role at_time e a = (rb, a')"
  shows "users_change E r a (ac_users a') \<and> ac_operators a' = ac_operators a \<and> ac_keys a' = ac_keys a"
proof (cases "a' = a")
  case False
  then obtain u where u: "map_of (ac_users a) uid = Some u" "us_TenantID u = tid" "\<not> (us_Status u = StatusActive \<and> us_Role u = RoleOwner \<and> role \<noteq> RoleOwner \<and> activeOwners tid a \<le> 1)"
    "a' = a\<lparr>ac_users := AList.update uid (u\<lparr>us_Role := role, us_UpdatedAt := at_time\<rparr>) (ac_users a), ac_audit := ac_audit a @ [e]\<rparr>"
    using assms by (auto simp: store_UpdateUserRole_def Let_def split: option.splits if_splits)
  then show ?thesis using users_update [OF u(1), of "u\<lparr>us_Role := role, us_UpdatedAt := at_time\<rparr>"] users_keep [OF u(1), of "u\<lparr>us_Role := role, us_UpdatedAt := at_time\<rparr>"]
    by (cases "active_owner tid u \<and> \<not> active_owner tid (u\<lparr>us_Role := role, us_UpdatedAt := at_time\<rparr>)") (auto simp: active_owner_def)
qed (simp add: users_same)

lemma status_change:
  assumes "store_SetUserStatus tid uid status at_time e a = (rb, a')" "status = StatusSuspended \<or> status = StatusActive \<and> E uid"
  shows "users_change E r a (ac_users a') \<and> ac_operators a' = ac_operators a"
proof (cases "a' = a")
  case False
  then obtain u where u: "map_of (ac_users a) uid = Some u" "us_TenantID u = tid" "\<not> (status = StatusSuspended \<and> us_Status u = StatusActive \<and> us_Role u = RoleOwner \<and> activeOwners tid a \<le> 1)"
    "ac_users a' = AList.update uid (u\<lparr>us_Status := status, us_UpdatedAt := at_time\<rparr>) (ac_users a)" "ac_operators a' = ac_operators a"
    using assms(1) by (auto simp: store_SetUserStatus_def Let_def split: option.splits if_splits)
  then show ?thesis using assms(2) users_update [OF u(1), of "u\<lparr>us_Status := status, us_UpdatedAt := at_time\<rparr>"] users_keep [OF u(1), of "u\<lparr>us_Status := status, us_UpdatedAt := at_time\<rparr>"]
    by (cases "active_owner tid u \<and> \<not> active_owner tid (u\<lparr>us_Status := status, us_UpdatedAt := at_time\<rparr>)") (auto simp: active_owner_def)
qed (simp add: users_same)

lemma user_rows:
  "store_MarkUserLogin uid now a = (ru, a') \<Longrightarrow> users_change E r a (ac_users a') \<and> ac_operators a' = ac_operators a \<and> ac_keys a' = ac_keys a"
  "store_UpdateUserPassword tid uid digest e a = (rs, a') \<Longrightarrow> users_change E r a (ac_users a') \<and> ac_operators a' = ac_operators a \<and> ac_keys a' = ac_keys a"
  "store_CreateUser now u a = (rs, a') \<Longrightarrow> us_ID u = r \<Longrightarrow> us_Status u = StatusActive \<Longrightarrow> users_change E r a (ac_users a') \<and> ac_operators a' = ac_operators a \<and> ac_keys a' = ac_keys a"
  by (auto simp: user_store_defs Let_def active_owner_def intro: users_same intro!: users_keep users_new split: option.splits if_splits)

lemma other_rows:
  "store_CreateTenant now t a = (rt, a') \<Longrightarrow> ac_users a' = ac_users a \<and> ac_operators a' = ac_operators a \<and> ac_keys a' = ac_keys a"
  "store_UpdateTenantLimits now tid l a = (ru, a') \<Longrightarrow> ac_users a' = ac_users a \<and> ac_operators a' = ac_operators a \<and> ac_keys a' = ac_keys a"
  "store_AppendAudit e a = (ru, a') \<Longrightarrow> ac_users a' = ac_users a \<and> ac_operators a' = ac_operators a \<and> ac_keys a' = ac_keys a"
  by (auto simp: user_store_defs key_store_defs Let_def split: option.splits)

lemma key_rows:
  "store_CreateAPIKey now k a = (rk, a') \<Longrightarrow> ac_users a' = ac_users a \<and> ac_operators a' = ac_operators a"
  "store_RevokeAPIKey tid kid at_time a = (ru, a') \<Longrightarrow> ac_users a' = ac_users a \<and> ac_operators a' = ac_operators a"
  "store_DeleteAPIKey tid kid a = (ru, a') \<Longrightarrow> ac_users a' = ac_users a \<and> ac_operators a' = ac_operators a"
  "store_MarkAPIKeyUsed kid now a = (ru, a') \<Longrightarrow> ac_users a' = ac_users a \<and> ac_operators a' = ac_operators a"
  by (auto simp: key_store_defs Let_def split: option.splits if_splits)

inductive operators_change :: "string \<Rightarrow> accounts \<Rightarrow> (string \<times> PlatformOperator) list \<Rightarrow> bool" for r a where
  operators_same: "operators_change r a (ac_operators a)"
| operators_new: "po_ID p = r \<Longrightarrow> po_Status p = StatusActive \<Longrightarrow> operators_change r a (AList.update r p (ac_operators a))"
| operators_update: "map_of (ac_operators a) oid = Some p \<Longrightarrow> po_ID p' = po_ID p \<Longrightarrow> po_Status p = StatusActive \<longrightarrow> po_Status p' = StatusActive \<or> 1 < activePlatformOperators a
    \<Longrightarrow> operators_change r a (AList.update oid p' (ac_operators a))"

lemma operator_rows:
  "store_CreatePlatformOperator now p au a = (rp, a') \<Longrightarrow> po_ID p = r \<Longrightarrow> po_Status p = StatusActive \<Longrightarrow> operators_change r a (ac_operators a') \<and> ac_users a' = ac_users a \<and> ac_keys a' = ac_keys a"
  "store_MarkPlatformOperatorLogin oid now a = (ru, a') \<Longrightarrow> operators_change r a (ac_operators a') \<and> ac_users a' = ac_users a \<and> ac_keys a' = ac_keys a"
  "store_UpdatePlatformOperatorPassword oid digest e a = (rp', a') \<Longrightarrow> operators_change r a (ac_operators a') \<and> ac_users a' = ac_users a \<and> ac_keys a' = ac_keys a"
  "store_SetPlatformOperatorStatus oid status at_time e a = (ro, a') \<Longrightarrow> status = StatusSuspended \<or> status = StatusActive
     \<Longrightarrow> operators_change r a (ac_operators a') \<and> ac_users a' = ac_users a \<and> ac_keys a' = ac_keys a"
  by (auto simp: operator_store_defs Let_def intro: operators_same intro!: operators_new operators_update split: option.splits if_splits)

lemma db_rows:
  assumes "db_change c E i now a a'"
  shows "users_change E (''usr_'' @ in_random i) a (ac_users a') \<and> operators_change (''plt_'' @ in_random i) a (ac_operators a')"
  using assms
proof cases
  case (db_suspend tid uid at_time e rb)
  then show ?thesis using status_change [where E = E] by (metis operators_same)
next
  case (db_enable tid uid at_time e rb)
  then show ?thesis using status_change [where E = E] by (metis operators_same)
qed (auto dest!: user_rows [where E = E] role_change [where E = E] other_rows key_rows operator_rows simp: users_same operators_same)

lemma filed_change:
  assumes "filed a" "db_change c E i now a a'"
  shows "filed a'"
proof -
  have u: "distinct (map fst us) \<and> (\<forall>(j, v) \<in> set us. us_ID v = j)" if "users_change E r a us" for r us
    using that assms(1) by cases (auto simp: filed_def distinct_update dest!: set_update_subset [THEN subsetD] map_of_SomeD)
  have p: "distinct (map fst ps) \<and> (\<forall>(j, v) \<in> set ps. po_ID v = j)" if "operators_change r a ps" for r ps
    using that assms(1) by cases (auto simp: filed_def distinct_update dest!: set_update_subset [THEN subsetD] map_of_SomeD)
  show ?thesis using db_rows [OF assms(2)] u p unfolding filed_def by blast
qed


section \<open>Owners and operators\<close>

lemma count_rows:
  assumes "distinct (map fst m)"
  shows "0 < length (filter (\<lambda>(_, v). P v) m) \<longleftrightarrow> (\<exists>j v. map_of m j = Some v \<and> P v)"
  using assms by (auto simp: filter_empty_conv)

lemma another_row:
  assumes "distinct (map fst m)" "1 < length (filter (\<lambda>(_, v). P v) m)"
  shows "\<exists>j v. j \<noteq> k \<and> map_of m j = Some v \<and> P v"
proof -
  obtain x y r where f: "filter (\<lambda>(_, v). P v) m = x # y # r" using assms(2) by (metis One_nat_def Suc_less_eq length_greater_0_conv list.exhaust list.size(3,4) not_less_zero add.commute plus_1_eq_Suc)
  have "distinct (map fst (x # y # r))" unfolding f [symmetric] using assms(1) by (rule distinct_map_filter)
  then have "fst x \<noteq> fst y" by simp
  moreover have "map_of m (fst z) = Some (snd z) \<and> P (snd z)" if "z \<in> {x, y}" for z
  proof -
    have "z \<in> set (filter (\<lambda>(_, v). P v) m)" using f that by auto
    then have "z \<in> set m" "P (snd z)" by auto
    then show ?thesis using assms(1) by (simp add: map_of_is_SomeI)
  qed
  ultimately show ?thesis by (metis insertCI)
qed

definition owned :: "string \<Rightarrow> world \<Rightarrow> bool" where
  "owned tid w \<longleftrightarrow> filed (wo_db w) \<and> 0 < activeOwners tid (wo_db w)"

definition operated :: "world \<Rightarrow> bool" where
  "operated w \<longleftrightarrow> filed (wo_db w) \<and> 0 < activePlatformOperators (wo_db w)"

lemma activeOwners_count: "activeOwners tid a = length (filter (\<lambda>(_, u). active_owner tid u) (ac_users a))"
  by (simp add: activeOwners_def active_owner_def)

lemma owner_change:
  assumes "filed a" "0 < activeOwners tid a" "users_change E r a us" "r \<notin> fst ` set (ac_users a)" "distinct (map fst us)"
  shows "0 < length (filter (\<lambda>(_, u). active_owner tid u) us)"
proof -
  have d: "distinct (map fst (ac_users a))" using assms(1) by (simp add: filed_def)
  obtain j v where v: "map_of (ac_users a) j = Some v" "active_owner tid v" using assms(2) count_rows [OF d] by (auto simp: activeOwners_count)
  have "\<exists>j v. map_of us j = Some v \<and> active_owner tid v" using assms(3)
  proof cases
    case users_same
    then show ?thesis using v by blast
  next
    case (users_new u)
    have "j \<noteq> r" using map_of_SomeD [OF v(1)] assms(4) by force
    then show ?thesis using v users_new(1) by (intro exI [of _ j] exI [of _ v]) simp
  next
    case (users_update uid u u')
    have "1 < length (filter (\<lambda>(_, v). active_owner (us_TenantID u) v) (ac_users a))" using users_update(8) by (simp add: activeOwners_count)
    then obtain k x where x: "k \<noteq> uid" "map_of (ac_users a) k = Some x" "active_owner (us_TenantID u) x" using another_row [OF d] by blast
    show ?thesis
    proof (cases "j = uid")
      case True
      then have "active_owner tid x" using v x(3) users_update(2) by (simp add: active_owner_def)
      then show ?thesis using x users_update(1) by (intro exI [of _ k] exI [of _ x]) simp
    next
      case False
      then show ?thesis using v users_update(1) by (intro exI [of _ j] exI [of _ v]) simp
    qed
  next
    case (users_keep uid u u')
    then show ?thesis using v by (cases "j = uid") (auto simp: active_owner_def)
  qed
  then show ?thesis using count_rows [OF assms(5)] by blast
qed

lemma operator_change:
  assumes "filed a" "0 < activePlatformOperators a" "operators_change r a ps" "r \<notin> fst ` set (ac_operators a)" "distinct (map fst ps)"
  shows "0 < length (filter (\<lambda>(_, p). po_Status p = StatusActive) ps)"
proof -
  have d: "distinct (map fst (ac_operators a))" using assms(1) by (simp add: filed_def)
  obtain j v where v: "map_of (ac_operators a) j = Some v" "po_Status v = StatusActive" using assms(2) count_rows [OF d] by (auto simp: activePlatformOperators_def)
  have "\<exists>j v. map_of ps j = Some v \<and> po_Status v = StatusActive" using assms(3)
  proof cases
    case operators_same
    then show ?thesis using v by blast
  next
    case (operators_new p)
    then show ?thesis by auto
  next
    case (operators_update oid p p')
    then show ?thesis using v another_row [OF d, of "\<lambda>p. po_Status p = StatusActive" oid] by (cases "j = oid") (auto simp: activePlatformOperators_def)
  qed
  then show ?thesis using count_rows [OF assms(5)] by blast
qed

lemma owned_db: "fresh i w \<Longrightarrow> owned tid w \<Longrightarrow> db_change c E i now (wo_db w) d \<Longrightarrow> owned tid (w\<lparr>wo_db := d\<rparr>)"
  using db_rows [of c E i now "wo_db w" d] filed_change [of "wo_db w" c E i now d] owner_change [of "wo_db w" tid E "''usr_'' @ in_random i" "ac_users d"]
  by (auto simp: owned_def fresh_def activeOwners_count filed_def)

lemma operated_db: "fresh i w \<Longrightarrow> operated w \<Longrightarrow> db_change c E i now (wo_db w) d \<Longrightarrow> operated (w\<lparr>wo_db := d\<rparr>)"
  using db_rows [of c E i now "wo_db w" d] filed_change [of "wo_db w" c E i now d] operator_change [of "wo_db w" "''plt_'' @ in_random i" "ac_operators d"]
  by (auto simp: operated_def fresh_def activePlatformOperators_def filed_def)

text \<open>Invariants of the store alone.\<close>

lemma store_invariant:
  assumes "\<And>w. I w \<Longrightarrow> filed (wo_db w)" "\<And>i w d. fresh i w \<Longrightarrow> I w \<Longrightarrow> db_change c (\<lambda>_. True) i (wo_now w) (wo_db w) d \<Longrightarrow> I (w\<lparr>wo_db := d\<rparr>)"
    and "\<And>w v. wo_db v = wo_db w \<Longrightarrow> I w \<Longrightarrow> I v"
  shows "account_invariant (keeping I) c (\<lambda>_. True) fresh I"
proof
qed (auto simp: keeping_def account_tick_def intro: assms(1,2) assms(3) [rotated])

interpretation owners: account_invariant "keeping (owned tid)" c "\<lambda>_. True" fresh "owned tid" for tid c
  by (rule store_invariant) (simp add: owned_def, rule owned_db, auto simp: owned_def)

interpretation operators: account_invariant "keeping operated" c "\<lambda>_. True" fresh operated for c
  by (rule store_invariant) (simp add: operated_def, rule operated_db, auto simp: operated_def)


section \<open>Keys and their creators\<close>

text \<open>An active key was made by a user of its tenant who is still active.\<close>

definition made_by :: "(string \<times> User) list \<Rightarrow> APIKey \<Rightarrow> bool" where
  "made_by us k \<longleftrightarrow> (\<exists>u. map_of us (ak_CreatedBy k) = Some u \<and> us_TenantID u = ak_TenantID k \<and> us_Status u = StatusActive)"

definition creators :: "accounts \<Rightarrow> bool" where
  "creators a \<longleftrightarrow> (\<forall>(i, k) \<in> set (ac_keys a). ak_Status k = StatusActive \<longrightarrow> made_by (ac_users a) k)"

definition kept_active :: "(string \<times> User) list \<Rightarrow> (string \<times> User) list \<Rightarrow> bool" where
  "kept_active us us' \<longleftrightarrow> (\<forall>j u. map_of us j = Some u \<and> us_Status u = StatusActive \<longrightarrow> (\<exists>v. map_of us' j = Some v \<and> us_TenantID v = us_TenantID u \<and> us_Status v = StatusActive))"

lemma made_by_kept: "made_by us k \<Longrightarrow> kept_active us us' \<Longrightarrow> made_by us' k"
  unfolding made_by_def kept_active_def by metis

lemma kept_active_refl [simp]: "kept_active us us"
  by (auto simp: kept_active_def)

lemma kept_active_rows:
  "store_MarkUserLogin uid now a = (ru, a') \<Longrightarrow> kept_active (ac_users a) (ac_users a') \<and> ac_keys a' = ac_keys a"
  "store_UpdateUserPassword tid uid digest e a = (rs, a') \<Longrightarrow> kept_active (ac_users a) (ac_users a') \<and> ac_keys a' = ac_keys a"
  "store_CreateUser now u a = (rs, a') \<Longrightarrow> us_ID u \<notin> fst ` set (ac_users a) \<Longrightarrow> kept_active (ac_users a) (ac_users a') \<and> ac_keys a' = ac_keys a"
  "store_UpdateUserRole tid uid role at_time e a = (rb, a') \<Longrightarrow> kept_active (ac_users a) (ac_users a') \<and> ac_keys a' = ac_keys a"
  "store_SetUserStatus tid uid StatusActive at_time e a = (rb, a') \<Longrightarrow> kept_active (ac_users a) (ac_users a') \<and> ac_keys a' = ac_keys a"
  by (auto simp: user_store_defs kept_active_def Let_def split: option.splits if_splits) (force dest: map_of_SomeD)+

lemma kept_other_rows:
  "store_CreateTenant now t a = (rt, a') \<Longrightarrow> kept_active (ac_users a) (ac_users a') \<and> ac_keys a' = ac_keys a"
  "store_UpdateTenantLimits now tid l a = (ru, a') \<Longrightarrow> kept_active (ac_users a) (ac_users a') \<and> ac_keys a' = ac_keys a"
  "store_CreatePlatformOperator now p au a = (rp, a') \<Longrightarrow> kept_active (ac_users a) (ac_users a') \<and> ac_keys a' = ac_keys a"
  "store_MarkPlatformOperatorLogin oid now a = (ru, a') \<Longrightarrow> kept_active (ac_users a) (ac_users a') \<and> ac_keys a' = ac_keys a"
  "store_UpdatePlatformOperatorPassword oid digest e a = (rp, a') \<Longrightarrow> kept_active (ac_users a) (ac_users a') \<and> ac_keys a' = ac_keys a"
  "store_SetPlatformOperatorStatus oid status at_time e a = (ro, a') \<Longrightarrow> kept_active (ac_users a) (ac_users a') \<and> ac_keys a' = ac_keys a"
  "store_AppendAudit e a = (ru, a') \<Longrightarrow> kept_active (ac_users a) (ac_users a') \<and> ac_keys a' = ac_keys a"
  by (auto simp: user_store_defs operator_store_defs key_store_defs Let_def split: option.splits if_splits)

lemma creators_users: "creators a \<Longrightarrow> kept_active (ac_users a) (ac_users a') \<and> ac_keys a' = ac_keys a \<Longrightarrow> creators a'"
  unfolding creators_def using made_by_kept by fastforce

lemma creators_suspend:
  assumes "creators a" "store_SetUserStatus tid uid StatusSuspended at_time e a = (rb, a')"
  shows "creators a'"
proof (cases "a' = a")
  case False
  then obtain u where u: "map_of (ac_users a) uid = Some u" "us_TenantID u = tid" "ac_keys a' = revoke_keys_of tid uid at_time (ac_keys a)"
    "ac_users a' = AList.update uid (u\<lparr>us_Status := StatusSuspended, us_UpdatedAt := at_time\<rparr>) (ac_users a)"
    using assms(2) by (auto simp: store_SetUserStatus_def Let_def split: option.splits if_splits)
  have "made_by (ac_users a') k" if k: "(i, k) \<in> set (ac_keys a')" "ak_Status k = StatusActive" for i k
  proof -
    have k': "(i, k) \<in> set (ac_keys a)" "\<not> (ak_TenantID k = tid \<and> ak_CreatedBy k = uid)" using k by (auto simp: u(3) revoke_keys_of_def split: if_splits)
    then have "made_by (ac_users a) k" using assms(1) k(2) by (auto simp: creators_def)
    then show ?thesis using k'(2) u by (auto simp: made_by_def)
  qed
  then show ?thesis by (auto simp: creators_def)
qed (simp add: assms(1))

lemma creators_keys:
  "creators a \<Longrightarrow> store_CreateAPIKey now k a = (rk, a') \<Longrightarrow> creators a'"
  "creators a \<Longrightarrow> store_RevokeAPIKey tid kid at_time a = (ru, a') \<Longrightarrow> creators a'"
  "creators a \<Longrightarrow> store_DeleteAPIKey tid kid a = (ru, a') \<Longrightarrow> creators a'"
  "creators a \<Longrightarrow> store_MarkAPIKeyUsed kid now a = (ru, a') \<Longrightarrow> creators a'"
  by (auto simp: key_store_defs creators_def made_by_def Let_def AList.delete_eq dest!: set_update_subset [THEN subsetD] split: option.splits if_splits) (force dest: map_of_SomeD)+

lemmas creators_rows = creators_keys creators_users [OF _ kept_active_rows(1)] creators_users [OF _ kept_active_rows(2)] creators_users [OF _ kept_active_rows(4)]
  creators_users [OF _ kept_active_rows(5)] creators_users [OF _ kept_other_rows(1)] creators_users [OF _ kept_other_rows(2)] creators_users [OF _ kept_other_rows(3)]
  creators_users [OF _ kept_other_rows(4)] creators_users [OF _ kept_other_rows(5)] creators_users [OF _ kept_other_rows(6)] creators_users [OF _ kept_other_rows(7)]

lemma creators_db:
  assumes "db_change c E i now a a'" "creators a" "''usr_'' @ in_random i \<notin> fst ` set (ac_users a)"
  shows "creators a'"
  using assms(1)
proof cases
  case (db_suspend tid uid at_time e rb)
  then show ?thesis using creators_suspend assms(2) by blast
next
  case (db_user u rs)
  then show ?thesis using creators_users [OF assms(2) kept_active_rows(3)] assms(3) by simp
next
  case (db_models ma)
  then show ?thesis using assms(2) by (simp add: creators_def)
next
  case (db_nodes na)
  then show ?thesis using assms(2) by (simp add: creators_def)
qed (erule creators_rows [OF assms(2)])+

definition keyed :: "world \<Rightarrow> bool" where
  "keyed w \<longleftrightarrow> filed (wo_db w) \<and> creators (wo_db w)"

lemma keyed_db: "fresh i w \<Longrightarrow> keyed w \<Longrightarrow> db_change c E i now (wo_db w) d \<Longrightarrow> keyed (w\<lparr>wo_db := d\<rparr>)"
  using creators_db [of c E i now "wo_db w" d] filed_change [of "wo_db w" c E i now d] by (simp add: keyed_def fresh_def)

interpretation keys: account_invariant "keeping keyed" c "\<lambda>_. True" fresh keyed for c
  by (rule store_invariant) (simp add: keyed_def, rule keyed_db, auto simp: keyed_def)


section \<open>Sessions\<close>

definition in_order :: "world \<Rightarrow> bool" where
  "in_order w \<longleftrightarrow> filed (wo_db w) \<and> mem_ok (wo_sessions w) \<and> mem.sealed (wo_sessions w) (wo_now w)"

lemma session_change_ok: "session_change i now m m' \<Longrightarrow> mem_ok m \<Longrightarrow> mem_ok m'"
  by (erule session_change.cases) (blast dest: mem.validate_law mem.revoke_law mem.revoke_all_law mem.begin_law mem.end_law)+

lemma session_change_sealed: "session_change i now m m' \<Longrightarrow> mem_ok m \<Longrightarrow> mem.sealed m now \<Longrightarrow> mem.sealed m' now"
  by (erule session_change.cases) (blast dest: mem.sealed_ops)+

text \<open>Only a new session ends that a subject has none.\<close>

lemma fewer_live: "mem.shut m now x \<Longrightarrow> (\<And>j r. mem_live m' now j = Some r \<Longrightarrow> mem_live m now j = Some r) \<Longrightarrow> mem.shut m' now x"
  by (auto simp: mem.shut_def)

lemma session_change_shut:
  assumes "session_change i now m m'" "mem_ok m" "mem.shut m now x"
  shows "mem.shut m' now x"
proof (rule fewer_live [OF assms(3)])
  fix j r
  assume "mem_live m' now j = Some r"
  with assms(1) show "mem_live m now j = Some r"
  proof cases
    case (se_validate sid y tid role ru)
    then show ?thesis using mem.validate_law [OF assms(2)] \<open>mem_live m' now j = Some r\<close> by metis
  next
    case (se_revoke y sid rb)
    then show ?thesis using mem.revoke_law [OF assms(2) se_revoke] \<open>mem_live m' now j = Some r\<close> by (auto split: if_splits)
  next
    case (se_revoke_all y rn)
    then show ?thesis using mem.revoke_all_law [OF assms(2) se_revoke_all] \<open>mem_live m' now j = Some r\<close> by (auto split: if_splits option.splits)
  next
    case (se_begin y rg)
    then show ?thesis using mem.begin_law [OF assms(2) se_begin] \<open>mem_live m' now j = Some r\<close> by (auto split: if_splits option.splits sum.splits)
  next
    case (se_end g ru)
    then show ?thesis using mem.end_law [OF assms(2) se_end] \<open>mem_live m' now j = Some r\<close> by simp
  qed
qed

interpretation sessions: account_invariant "keeping in_order" c "\<lambda>_. True" fresh in_order for c
proof
  show "keeping in_order w (w\<lparr>wo_sessions := m\<rparr>)" if "session_Create (in_cancelled i) (wo_now w) r (wo_sessions w) = (x, m)" for i w r x m
    using that mem.create_law [of "wo_sessions w" "in_cancelled i" "wo_now w" r x m] mem.sealed_create [of "wo_sessions w" "wo_now w" "in_cancelled i" r x m]
    by (auto simp: keeping_def in_order_def)
qed (auto simp: keeping_def in_order_def account_tick_def intro: filed_change session_change_ok session_change_sealed mem.sealed_time)


section \<open>Suspended users\<close>

definition tenant_user :: "string \<Rightarrow> Subject" where
  "tenant_user uid = \<lparr>sb_Kind = SubjectTenantUser, sb_ID = uid\<rparr>"

definition suspended :: "string \<Rightarrow> accounts \<Rightarrow> bool" where
  "suspended uid a \<longleftrightarrow> (\<exists>u. map_of (ac_users a) uid = Some u \<and> us_Status u \<noteq> StatusActive)"

definition shut_out :: "string \<Rightarrow> world \<Rightarrow> bool" where
  "shut_out uid w \<longleftrightarrow> filed (wo_db w) \<and> mem_ok (wo_sessions w) \<and> suspended uid (wo_db w) \<and> mem.shut (wo_sessions w) (wo_now w) (tenant_user uid)"

lemma suspended_change:
  assumes "suspended uid a" "users_change E r a us" "\<not> E uid" "r \<notin> fst ` set (ac_users a)"
  shows "\<exists>u. map_of us uid = Some u \<and> us_Status u \<noteq> StatusActive"
  using assms(2)
proof cases
  case (users_new u)
  have "uid \<noteq> r" using assms(1,4) by (force simp: suspended_def dest: map_of_SomeD)
  then show ?thesis using assms(1) users_new by (simp add: suspended_def)
qed (use assms(1,3) in \<open>auto simp: suspended_def\<close>)

lemma suspended_db: "fresh i w \<Longrightarrow> suspended uid (wo_db w) \<Longrightarrow> db_change c (\<lambda>u. u \<noteq> uid) i now (wo_db w) d \<Longrightarrow> suspended uid d"
  using db_rows [of c "\<lambda>u. u \<noteq> uid" i now "wo_db w" d] suspended_change [of uid "wo_db w" "\<lambda>u. u \<noteq> uid" "''usr_'' @ in_random i" "ac_users d"]
  by (auto simp: suspended_def [of uid d] fresh_def)

interpretation stays_out: account_caches "keeping (shut_out uid)" c "\<lambda>u. u \<noteq> uid" fresh "shut_out uid" for uid c
  by unfold_locales (auto simp: keeping_def shut_out_def account_tick_def intro: filed_change suspended_db session_change_ok session_change_shut mem.shut_time)

lemma create_other:
  assumes "shut_out uid w" "session_Create cancelled (wo_now w) r (wo_sessions w) = (x, m)" "sr_Subject r \<noteq> tenant_user uid"
  shows "shut_out uid (w\<lparr>wo_sessions := m\<rparr>)"
proof -
  have "mem_ok m \<and> (\<forall>j q. mem_live m (wo_now w) j = Some q \<longrightarrow> mem_live (wo_sessions w) (wo_now w) j = Some q \<or> q = r)"
    using mem.create_law [OF _ assms(2)] assms(1) by (auto simp: shut_out_def)
  then show ?thesis using assms(1,3) unfolding shut_out_def mem.shut_def by auto
qed

text \<open>Whoever logs in is active, and is another user.\<close>

lemma suspended_not_found:
  assumes "shut_out uid v" "find_value (\<lambda>u. us_Email u = e) (ac_users (wo_db v)) = Some u" "us_Status u = StatusActive"
  shows "us_ID u \<noteq> uid"
proof -
  obtain j where "(j, u) \<in> set (ac_users (wo_db v))" using find_value_Some [OF assms(2)] by blast
  then have "us_ID u = j" "map_of (ac_users (wo_db v)) j = Some u" using assms(1) by (auto simp: shut_out_def filed_def)
  then show ?thesis using assms(1,3) by (auto simp: shut_out_def suspended_def)
qed

lemma other_user:
  "assured (stays_out.guarded uid) (keeping (shut_out uid)) (\<lambda>_ r. \<forall>u. r = Inr u \<longrightarrow> us_ID u \<noteq> uid) w (AuthenticateCredentials c email password)"
  unfolding AuthenticateCredentials_def in_store_def
proof (rule assured_andThen [where P = "\<lambda>_ r. \<forall>u. r = Inr u \<and> us_Status u = StatusActive \<longrightarrow> us_ID u \<noteq> uid"])
  show "assured (stays_out.guarded uid) (keeping (shut_out uid)) (\<lambda>_ r. \<forall>u. r = Inr u \<and> us_Status u = StatusActive \<longrightarrow> us_ID u \<noteq> uid) w
    (atomic (\<lambda>i w. case store_GetUserByEmail (normalizeEmail c email) (wo_db w) of (r, d) \<Rightarrow> (translated r, w\<lparr>wo_db := d\<rparr>)))"
    by (rule assured_atomic) (auto simp: store_GetUserByEmail_def translated_def stays_out.guarded_def keeping.refl dest: suspended_not_found split: option.splits)
qed (auto simp: credentials_ok_def split: sum.splits)

lemma stays_out_login: "stays_out.stays uid w (login c email password)" "stays_out.stays uid w (platformLogin c email password)"
proof -
  have "stays_out.stays uid v (open_session c (userSubject u) (us_TenantID u) (us_Role u) (RecordUserLogin u))" if "us_ID u \<noteq> uid" for v u
    using that by (intro stays_out.stays_open stays_out.stays_recorded) (auto simp: keeping_def userSubject_def tenant_user_def intro: create_other)
  then show "stays_out.stays uid w (login c email password)" unfolding login_def stays_out.stays_def
    by (intro assured_andThenE [OF other_user]) auto
  have "platformSubject p \<noteq> tenant_user uid" for p
    by (simp add: platformSubject_def tenant_user_def SubjectPlatformOperator_def SubjectTenantUser_def)
  then show "stays_out.stays uid w (platformLogin c email password)" unfolding platformLogin_def PlatformAuthenticateCredentials_def
    by (intro stays_out.stays_parts stays_out.stays_open stays_out.stays_recorded) (auto simp: keeping_def intro: create_other)
qed

lemma stays_out_all:
  assumes "\<And>cl. q \<noteq> Session cl (Enable uid)"
  shows "stays_out.stays uid w (account_handler c q)"
proof (cases "account_rely.console (\<lambda>u. u \<noteq> uid) q")
  case True
  then show ?thesis by (rule stays_out.stays_console)
next
  case False
  then show ?thesis using assms by (cases q rule: stays_out.console.cases) (auto intro: stays_out_login intro!: stays_out.stays_rules stays_out.stays_verifyKey stays_out.stays_gateway)
qed


section \<open>Examples\<close>

text \<open>A tenant with an owner and a member; passwords are stored as they are.\<close>

definition plain_funs :: env_funs where
  "plain_funs = \<lparr>ef_bcrypt = (\<lambda>h p. h = p), ef_generate = (\<lambda>s p. p), ef_sha = (\<lambda>k. replicate 32 0), ef_lower = (\<lambda>s. s), ef_lifetime = 3600 * second, ef_billing = False\<rparr>"

definition sample_user :: "string \<Rightarrow> string \<Rightarrow> User" where
  "sample_user i role = \<lparr>us_ID = i, us_TenantID = ''t'', us_Email = i @ ''@x'', us_PasswordHash = ''pw'', us_Name = i, us_Role = role, us_Status = StatusActive,
     us_LastLoginAt = None, us_CreatedAt = 1, us_UpdatedAt = 1\<rparr>"

definition sample_accounts :: accounts where
  "sample_accounts = \<lparr>ac_tenants = [(''t'', \<lparr>tn_ID = ''t'', tn_Name = ''T'', tn_Status = StatusActive, tn_Limits = \<lparr>RequestsPerMinute = 0, TokensPerMinute = 0, MaxConcurrent = 0\<rparr>, tn_CreatedAt = 1, tn_UpdatedAt = 1\<rparr>)],
     ac_users = [(''a'', sample_user ''a'' RoleOwner), (''b'', sample_user ''b'' RoleMember)],
     ac_operators = [(''o'', \<lparr>po_ID = ''o'', po_Email = ''o@x'', po_PasswordHash = ''pw'', po_Name = ''o'', po_Status = StatusActive, po_LastLoginAt = None, po_CreatedAt = 1, po_UpdatedAt = 1\<rparr>)],
     ac_keys = [], ac_modelAccess = (\<lambda>_. None), ac_nodeAccess = [], ac_billing = (\<lambda>_. None), ac_audit = []\<rparr>"

definition sample_system :: "(world, service_error + reply) system" where
  "sample_system = \<lparr>sy_world = new_world 1 sample_accounts 0 [(0, 0)], sy_calls = []\<rparr>"

definition draw :: "string \<Rightarrow> inputs" where
  "draw r = \<lparr>in_random = r, in_cancelled = False, in_lost = False\<rparr>"

definition owner_claims :: Claims where
  "owner_claims = \<lparr>cl_SessionID = ''ses_1'', cl_UserID = ''a'', cl_TenantID = ''t'', cl_Role = RoleOwner\<rparr>"

definition owner_login :: "request sys_event list" where
  "owner_login = Start (Login ''a@x'' ''pw'') # replicate 5 (Go 0 (draw ''1''))"

definition disable_member :: "nat \<Rightarrow> request sys_event list" where
  "disable_member k = Start (Session owner_claims (Disable ''b'')) # replicate 6 (Go k (draw ''2''))"

fun answered :: "('w, 'r) prog \<Rightarrow> 'r option" where
  "answered (Return r) = Some r"
| "answered (Step f) = None"

definition spanning_login :: "request sys_event list" where
  "spanning_login = owner_login @ [Start (Login ''b@x'' ''pw''), Go 1 (draw ''3'')] @ disable_member 2 @ replicate 4 (Go 1 (draw ''3''))"

abbreviation account_trace :: "env_funs \<Rightarrow> request sys_event list \<Rightarrow> (world, service_error + reply) system \<Rightarrow> (world, service_error + reply) system option" where
  "account_trace c \<equiv> sys_trace (account_handler c) account_tick fresh"

lemma spanning_login_runs: "case account_trace plain_funs spanning_login sample_system of None \<Rightarrow> False | Some t \<Rightarrow>
    answered (sy_calls t ! 1) = Some (Inr (RSession ''ses_3'')) \<and> answered (sy_calls t ! 2) = Some (Inr RDone)
    \<and> map_option us_Status (map_of (ac_users (wo_db (sy_world t))) ''b'') = Some StatusSuspended
    \<and> fst (session_Validate False (wo_now (sy_world t)) ''ses_3'' (tenant_user ''b'') ''t'' RoleMember (wo_sessions (sy_world t))) = Inr ()"
  by code_simp


section \<open>Properties\<close>

lemma trace_run: "account_trace c es s = Some t \<Longrightarrow> run (sys_step (account_handler c) account_tick fresh) s es t"
  by (rule sys_trace_run)

lemma sample_filed: "filed (wo_db (sy_world sample_system))"
  by (simp add: sample_system_def new_world_def sample_accounts_def filed_def sample_user_def)

definition spanned :: "(world, service_error + reply) system" where
  "spanned = the (account_trace plain_funs spanning_login sample_system)"

lemma spanned_run: "run (sys_step (account_handler plain_funs) account_tick fresh) \<lparr>sy_world = new_world 1 sample_accounts 0 [(0, 0)], sy_calls = []\<rparr> spanning_login spanned"
  using spanning_login_runs trace_run [of plain_funs spanning_login sample_system] by (auto simp: spanned_def sample_system_def split: option.splits)

text \<open>
  C13. Whatever the handlers do, and in whatever order their calls of the store interleave, a tenant that has an active
  owner keeps one, and the platform keeps an active operator.
\<close>

theorem active_owner_remains:
  assumes "run (sys_step (account_handler c) account_tick fresh) \<lparr>sy_world = w, sy_calls = []\<rparr> es t" "filed (wo_db w)"
  shows "(0 < activeOwners tid (wo_db w) \<longrightarrow> 0 < activeOwners tid (wo_db (sy_world t)))
    \<and> (0 < activePlatformOperators (wo_db w) \<longrightarrow> 0 < activePlatformOperators (wo_db (sy_world t)))"
  using owners.invariant_run [OF assms(1), of tid] operators.invariant_run [OF assms(1)] assms(2) by (auto simp: owned_def operated_def)

theorem active_owner_remains_witness:
  "0 < activeOwners ''t'' (wo_db (sy_world spanned)) \<and> 0 < activePlatformOperators (wo_db (sy_world spanned))"
proof -
  have "0 < activeOwners ''t'' sample_accounts" "0 < activePlatformOperators sample_accounts" "filed sample_accounts"
    by (simp_all add: sample_accounts_def sample_user_def activeOwners_def activePlatformOperators_def filed_def RoleOwner_def RoleMember_def)
  then show ?thesis using active_owner_remains [OF spanned_run, of "''t''"] by (simp add: new_world_def)
qed

text \<open>
  C14. In every interleaving an active API key was made by a user of its tenant who is still active: disabling a user
  revokes the keys that the user made in the same step, and no key is made for a user who is not active.
\<close>

theorem active_keys_have_active_creators:
  assumes "run (sys_step (account_handler c) account_tick fresh) \<lparr>sy_world = w, sy_calls = []\<rparr> es t" "filed (wo_db w)" "creators (wo_db w)"
    and "(i, k) \<in> set (ac_keys (wo_db (sy_world t)))" "ak_Status k = StatusActive"
  shows "\<exists>u. map_of (ac_users (wo_db (sy_world t))) (ak_CreatedBy k) = Some u \<and> us_TenantID u = ak_TenantID k \<and> us_Status u = StatusActive"
  using keys.invariant_run [OF assms(1)] assms(2-) by (auto simp: keyed_def creators_def made_by_def)

definition making_key :: "request sys_event list" where
  "making_key = owner_login @ [Start (Session owner_claims (CreateKey ''k'' 0)), Go 1 (draw ''2''), Go 1 (draw ''2''), Go 1 (draw ''3'')]"

lemma making_key_runs: "case account_trace plain_funs making_key sample_system of None \<Rightarrow> False | Some t \<Rightarrow>
    map ak_Status (map snd (ac_keys (wo_db (sy_world t)))) = [StatusActive]"
  by code_simp

theorem active_keys_have_active_creators_witness:
  "\<exists>t i k u. account_trace plain_funs making_key sample_system = Some t \<and> ac_keys (wo_db (sy_world t)) = [(i, k)] \<and> ak_Status k = StatusActive
    \<and> map_of (ac_users (wo_db (sy_world t))) (ak_CreatedBy k) = Some u \<and> us_Status u = StatusActive"
proof -
  obtain t i k where t: "account_trace plain_funs making_key sample_system = Some t" "ac_keys (wo_db (sy_world t)) = [(i, k)]" "ak_Status k = StatusActive"
    using making_key_runs by (auto split: option.splits simp: map_eq_Cons_conv)
  have "creators (wo_db (sy_world sample_system))" by (simp add: sample_system_def new_world_def sample_accounts_def creators_def)
  then obtain u where "map_of (ac_users (wo_db (sy_world t))) (ak_CreatedBy k) = Some u" "us_Status u = StatusActive"
    using active_keys_have_active_creators [of plain_funs "sy_world sample_system" making_key t i k] trace_run [OF t(1)] sample_filed t(2,3) by (auto simp: sample_system_def)
  then show ?thesis using t by blast
qed

text \<open>
  C16. In every interleaving of the handlers, from an empty session store, a subject has at most twenty live sessions;
  and while its gate is closed by a change of its account it has none, and no session of it is accepted.
\<close>

theorem sessions_bounded:
  assumes "run (sys_step (account_handler c) account_tick fresh) \<lparr>sy_world = new_world now a ttl gateways, sy_calls = []\<rparr> es t" "filed a"
  defines "m \<equiv> wo_sessions (sy_world t)" and "later \<equiv> wo_now (sy_world t)"
  shows "finite {i. \<exists>r. mem_live m later i = Some r \<and> sr_Subject r = x} \<and> card {i. \<exists>r. mem_live m later i = Some r \<and> sr_Subject r = x} \<le> MaxSessions
    \<and> (mem_gate m later x \<noteq> None \<longrightarrow> (\<forall>i r. mem_live m later i = Some r \<longrightarrow> sr_Subject r \<noteq> x)
        \<and> (\<forall>cancelled i tid role. fst (session_Validate cancelled later i x tid role m) \<noteq> Inr ()))"
proof -
  have "in_order (new_world now a ttl gateways)" using assms(2) NewMemory_ok by (simp add: in_order_def new_world_def)
  then have m: "mem_ok m" "mem.sealed m later" using sessions.invariant_run [OF assms(1)] by (simp_all add: in_order_def m_def later_def)
  moreover have "fst (session_Validate cancelled later i x tid role m) \<noteq> Inr ()" if "mem_gate m later x \<noteq> None" for cancelled i tid role
    using mem.validate_law [OF m(1), of cancelled later i x tid role] that by (metis prod.collapse)
  ultimately show ?thesis using mem.bounded mem.sealed_shut [OF m(2)] by (auto simp: mem.shut_def)
qed

theorem sessions_bounded_witness:
  "card {i. \<exists>r. mem_live (wo_sessions (sy_world spanned)) (wo_now (sy_world spanned)) i = Some r \<and> sr_Subject r = tenant_user ''b''} \<le> MaxSessions"
  using sessions_bounded [OF spanned_run, of "tenant_user ''b''"] sample_filed by (simp add: sample_system_def new_world_def)

text \<open>
  C15. A user that is suspended and has no live session, at a moment at which no call is in flight, stays out: as long as
  nobody enables the user again, whatever logins and changes follow, the user has no live session and no session of the
  user is accepted.
\<close>

theorem suspended_user_stays_out:
  assumes "run (sys_step (account_handler c) account_tick fresh) \<lparr>sy_world = new_world now a ttl gateways, sy_calls = []\<rparr> es s" "filed a"
    and "\<forall>p \<in> set (sy_calls s). \<exists>r. p = Return r"
    and "suspended uid (wo_db (sy_world s))" "\<And>i r. mem_live (wo_sessions (sy_world s)) (wo_now (sy_world s)) i = Some r \<Longrightarrow> sr_Subject r \<noteq> tenant_user uid"
    and "run (sys_step (account_handler c) account_tick fresh) s es' t" "\<And>cl. Start (Session cl (Enable uid)) \<notin> set es'"
  shows "suspended uid (wo_db (sy_world t))
    \<and> (\<forall>i r. mem_live (wo_sessions (sy_world t)) (wo_now (sy_world t)) i = Some r \<longrightarrow> sr_Subject r \<noteq> tenant_user uid)
    \<and> fst (session_Validate cancelled (wo_now (sy_world t)) i (tenant_user uid) tid role (wo_sessions (sy_world t))) \<noteq> Inr ()"
proof -
  have "in_order (new_world now a ttl gateways)" using assms(2) NewMemory_ok by (simp add: in_order_def new_world_def)
  then have "in_order (sy_world s)" using sessions.invariant_run [OF assms(1)] by simp
  then have "shut_out uid (sy_world s)" using assms(4,5) by (auto simp: shut_out_def in_order_def mem.shut_def)
  moreover have "stays_out.stays uid (sy_world s) p" if "p \<in> set (sy_calls s)" for p using assms(3) that by (auto intro: stays_out.stays_Return)
  moreover have "stays_out.stays uid w (account_handler c q)" if "Start q \<in> set es'" for q w using that assms(7) by (intro stays_out_all) blast
  ultimately have "shut_out uid (sy_world t)" using stays_out.stays_run [OF assms(6)] by blast
  then have t: "mem_ok (wo_sessions (sy_world t))" "suspended uid (wo_db (sy_world t))" "mem.shut (wo_sessions (sy_world t)) (wo_now (sy_world t)) (tenant_user uid)" by (simp_all add: shut_out_def)
  have "fst (session_Validate cancelled (wo_now (sy_world t)) i (tenant_user uid) tid role (wo_sessions (sy_world t))) \<noteq> Inr ()"
    using mem.validate_law [OF t(1), of cancelled "wo_now (sy_world t)" i "tenant_user uid" tid role] t(3) by (metis mem.shut_def prod.collapse)
  then show ?thesis using t(2,3) by (auto simp: mem.shut_def)
qed


definition member_disabled :: "request sys_event list" where
  "member_disabled = owner_login @ disable_member 1"

definition member_retries :: "request sys_event list" where
  "member_retries = [Elapse second, Start (Login ''b@x'' ''pw''), Go 2 (draw ''4'')]"

lemma member_disabled_runs: "case account_trace plain_funs member_disabled sample_system of None \<Rightarrow> False | Some s \<Rightarrow>
    list_all (\<lambda>p. answered p \<noteq> None) (sy_calls s) \<and> map_option us_Status (map_of (ac_users (wo_db (sy_world s))) ''b'') = Some StatusSuspended
    \<and> subject_ids (tenant_user ''b'') (wo_sessions (sy_world s)) = []
    \<and> (case account_trace plain_funs member_retries s of None \<Rightarrow> False | Some t \<Rightarrow> answered (sy_calls t ! 2) = Some (Inl ServiceInvalidCredentials))"
  by code_simp

lemma answered_Return: "answered p \<noteq> None \<longleftrightarrow> (\<exists>r. p = Return r)"
  by (cases p) auto

lemma no_ids_live: "mem_ok m \<Longrightarrow> subject_ids x m = [] \<Longrightarrow> mem_live m now i = Some r \<Longrightarrow> sr_Subject r \<noteq> x"
  using filed_subject [of m i x] by (auto simp: mem_live_Some mem_ok_filed)

theorem suspended_user_stays_out_witness:
  "\<exists>s t. account_trace plain_funs member_disabled sample_system = Some s \<and> account_trace plain_funs member_retries s = Some t \<and> suspended ''b'' (wo_db (sy_world t))
    \<and> fst (session_Validate False (wo_now (sy_world t)) ''ses_4'' (tenant_user ''b'') ''t'' RoleMember (wo_sessions (sy_world t))) \<noteq> Inr ()"
proof -
  obtain s t where s: "account_trace plain_funs member_disabled sample_system = Some s" "list_all (\<lambda>p. answered p \<noteq> None) (sy_calls s)"
      "map_option us_Status (map_of (ac_users (wo_db (sy_world s))) ''b'') = Some StatusSuspended" "subject_ids (tenant_user ''b'') (wo_sessions (sy_world s)) = []"
    and t: "account_trace plain_funs member_retries s = Some t" using member_disabled_runs by (auto split: option.splits)
  have r: "run (sys_step (account_handler plain_funs) account_tick fresh) \<lparr>sy_world = new_world 1 sample_accounts 0 [(0, 0)], sy_calls = []\<rparr> member_disabled s"
    using trace_run [OF s(1)] by (simp add: sample_system_def)
  have f: "filed sample_accounts" using sample_filed by (simp add: sample_system_def new_world_def)
  then have "in_order (new_world 1 sample_accounts 0 [(0, 0)])" using NewMemory_ok by (simp add: in_order_def new_world_def)
  then have "mem_ok (wo_sessions (sy_world s))" using sessions.invariant_run [OF r] by (simp add: in_order_def)
  note live = no_ids_live [OF this s(4)]
  have "suspended ''b'' (wo_db (sy_world s))" using s(3) by (auto simp: suspended_def)
  moreover have "\<forall>p \<in> set (sy_calls s). \<exists>r. p = Return r" using s(2) by (auto simp: list_all_iff answered_Return simp del: not_None_eq)
  moreover have "\<And>cl. Start (Session cl (Enable ''b'')) \<notin> set member_retries" by (simp add: member_retries_def)
  ultimately have "suspended ''b'' (wo_db (sy_world t)) \<and> (\<forall>i r. mem_live (wo_sessions (sy_world t)) (wo_now (sy_world t)) i = Some r \<longrightarrow> sr_Subject r \<noteq> tenant_user ''b'')
    \<and> fst (session_Validate False (wo_now (sy_world t)) ''ses_4'' (tenant_user ''b'') ''t'' RoleMember (wo_sessions (sy_world t))) \<noteq> Inr ()"
    by (intro suspended_user_stays_out [OF r f _ _ live trace_run [OF t]])
  then show ?thesis using s(1) t by blast
qed

text \<open>
  C20. The condition on calls in flight is needed: a login that read the user's row before the user was disabled creates
  its session after the disabling has ended, when the gate is open again. The user is suspended, the handler that
  disabled the user answered that all is done, and yet the new session is accepted.
\<close>

theorem login_spans_disable:
  "\<exists>es t. account_trace plain_funs es sample_system = Some t
    \<and> answered (sy_calls t ! 2) = Some (Inr RDone) \<and> suspended ''b'' (wo_db (sy_world t))
    \<and> answered (sy_calls t ! 1) = Some (Inr (RSession ''ses_3''))
    \<and> fst (session_Validate False (wo_now (sy_world t)) ''ses_3'' (tenant_user ''b'') ''t'' RoleMember (wo_sessions (sy_world t))) = Inr ()"
proof -
  obtain t where t: "account_trace plain_funs spanning_login sample_system = Some t"
      "answered (sy_calls t ! 1) = Some (Inr (RSession ''ses_3''))" "answered (sy_calls t ! 2) = Some (Inr RDone)"
      "map_option us_Status (map_of (ac_users (wo_db (sy_world t))) ''b'') = Some StatusSuspended"
      "fst (session_Validate False (wo_now (sy_world t)) ''ses_3'' (tenant_user ''b'') ''t'' RoleMember (wo_sessions (sy_world t))) = Inr ()"
    using spanning_login_runs by (cases "account_trace plain_funs spanning_login sample_system") auto
  have "suspended ''b'' (wo_db (sy_world t))" using t(4) by (auto simp: suspended_def)
  then show ?thesis using t by blast
qed

end
