(* ===== verification/KeyRevocation.thy ===== *)
theory KeyRevocation
  imports AccountSafety
begin

text \<open>
  A revoked key stays out. The two caches of verifications are followed through every interleaving of revocations,
  verifications and watches: a verification that spans a revocation is not cached past it.
\<close>


section \<open>Stable facts\<close>

context rely
begin

lemma assured_stable:
  assumes "assured env R Q w p" "F w" "\<And>u v. F u \<Longrightarrow> R u v \<Longrightarrow> F v"
  shows "assured env R (\<lambda>v r. Q v r \<and> F v) w p"
  using assms(1,2)
proof (induction rule: assured.induct)
  case (assured_Step w f)
  show ?case
  proof (rule assured.assured_Step)
    fix i w'
    assume w': "R w w'" "env i w'"
    note IH = assured_Step.IH [OF w']
    have "F (fst (f i w'))" using assms(3) [OF assms(3) [OF assured_Step.prems w'(1)]] IH by blast
    then show "R w' (fst (f i w')) \<and> assured env R (\<lambda>v r. Q v r \<and> F v) (fst (f i w')) (snd (f i w'))" using IH by blast
  qed
qed (simp add: assured_Return)

end

lemma assured_weaken: "assured env R P w p \<Longrightarrow> (\<And>v r. P v r \<Longrightarrow> Q v r) \<Longrightarrow> assured env R Q w p"
  by (induction rule: assured.induct) (auto intro: assured.intros)


section \<open>Dead keys\<close>

text \<open>No key with this hash is active; a key that was revoked or deleted stays that way.\<close>

definition dead :: "string \<Rightarrow> accounts \<Rightarrow> bool" where
  "dead h a \<longleftrightarrow> (\<forall>(i, k) \<in> set (ac_keys a). ak_Hash k = h \<longrightarrow> ak_Status k \<noteq> StatusActive)"

text \<open>New keys have new ids, as all rows, and do not have this hash.\<close>

definition draws :: "env_funs \<Rightarrow> string \<Rightarrow> inputs \<Rightarrow> world \<Rightarrow> bool" where
  "draws c h i w \<longleftrightarrow> fresh i w \<and> gk_Hash (Generate (ef_sha c) (in_random i)) \<noteq> h"

lemma dead_same: "dead h a \<Longrightarrow> kept_active (ac_users a) (ac_users a') \<and> ac_keys a' = ac_keys a \<Longrightarrow> dead h a'"
  by (simp add: dead_def)

lemma dead_users:
  "dead h a \<Longrightarrow> store_CreateUser now u a = (rs, a') \<Longrightarrow> dead h a'"
  "dead h a \<Longrightarrow> store_SetUserStatus tid uid StatusSuspended at_time e a = (rb, a') \<Longrightarrow> dead h a'"
  by (auto simp: dead_def user_store_defs revoke_keys_of_def Let_def split: option.splits if_splits) fastforce+

lemma dead_keys:
  "dead h a \<Longrightarrow> store_RevokeAPIKey tid kid at_time a = (ru, a') \<Longrightarrow> dead h a'"
  "dead h a \<Longrightarrow> store_DeleteAPIKey tid kid a = (ru, a') \<Longrightarrow> dead h a'"
  "dead h a \<Longrightarrow> store_MarkAPIKeyUsed kid now a = (ru, a') \<Longrightarrow> dead h a'"
  by (auto simp: key_store_defs dead_def Let_def AList.delete_eq dest!: set_update_subset [THEN subsetD] split: option.splits if_splits) (force dest: map_of_SomeD)+

lemma dead_create: "dead h a \<Longrightarrow> store_CreateAPIKey now k a = (rk, a') \<Longrightarrow> ak_Hash k \<noteq> h \<Longrightarrow> dead h a'"
  by (auto simp: key_store_defs dead_def Let_def dest!: set_update_subset [THEN subsetD] split: option.splits if_splits)

lemmas dead_rows = dead_users dead_keys dead_same [OF _ kept_active_rows(1)] dead_same [OF _ kept_active_rows(2)] dead_same [OF _ kept_active_rows(4)]
  dead_same [OF _ kept_active_rows(5)] dead_same [OF _ kept_other_rows(1)] dead_same [OF _ kept_other_rows(2)] dead_same [OF _ kept_other_rows(3)]
  dead_same [OF _ kept_other_rows(4)] dead_same [OF _ kept_other_rows(5)] dead_same [OF _ kept_other_rows(6)] dead_same [OF _ kept_other_rows(7)]

lemma dead_db:
  assumes "db_change c E i now a a'" "dead h a" "gk_Hash (Generate (ef_sha c) (in_random i)) \<noteq> h"
  shows "dead h a'"
  using assms(1)
proof cases
  case (db_key k rk)
  then show ?thesis using dead_create assms(2,3) by metis
next
  case (db_models ma)
  then show ?thesis using assms(2) by (simp add: dead_def)
next
  case (db_nodes na)
  then show ?thesis using assms(2) by (simp add: dead_def)
qed (erule dead_rows [OF assms(2)])+


section \<open>What is kept\<close>

definition generation :: "world \<Rightarrow> int" where
  "generation w = vc_generation (wo_cache w)"

definition epoch :: "nat \<Rightarrow> world \<Rightarrow> nat" where
  "epoch g w = ve_epoch (wo_gateways w ! g)"

definition remembers :: "string \<Rightarrow> nat \<Rightarrow> world \<Rightarrow> bool" where
  "remembers h g w \<longleftrightarrow> ve_cacheHealthy (wo_gateways w ! g) \<and> map_of (ve_entries (wo_gateways w ! g)) h \<noteq> None"

text \<open>Generations and epochs go up, published states remain, and what is dead remains so, in all that is published.\<close>

definition later :: "string \<Rightarrow> world \<Rightarrow> world \<Rightarrow> bool" where
  "later h w v \<longleftrightarrow> (\<exists>ps. wo_published v = wo_published w @ ps \<and> generation v = generation w + int (length ps)
      \<and> (dead h (wo_db w) \<longrightarrow> dead h (wo_db v) \<and> (\<forall>p \<in> set ps. dead h (fst p)))
      \<and> (\<forall>p \<in> set ps. \<forall>g < length (wo_gateways w). epoch g w \<le> snd p ! g))
     \<and> length (wo_gateways v) = length (wo_gateways w) \<and> (\<forall>g < length (wo_gateways w). epoch g w \<le> epoch g v)"

text \<open>
  A cached verification belongs to a generation before which the key was never published dead; and a Gateway whose
  epoch has moved since the key was published dead does not remember it.
\<close>

definition cache_clean :: "string \<Rightarrow> world \<Rightarrow> bool" where
  "cache_clean h w \<longleftrightarrow> (\<forall>n. vc_entries (wo_cache w) (n, h) \<noteq> None \<longrightarrow> 0 \<le> n \<and> n \<le> int (length (wo_published w))
     \<and> (\<forall>p \<in> set (take (nat n) (wo_published w)). \<not> dead h (fst p)))"

definition gateways_clean :: "string \<Rightarrow> world \<Rightarrow> bool" where
  "gateways_clean h w \<longleftrightarrow> (\<forall>p \<in> set (wo_published w). (dead h (fst p) \<longrightarrow> dead h (wo_db w)) \<and> length (snd p) = length (wo_gateways w)
     \<and> (\<forall>g < length (wo_gateways w). snd p ! g \<le> epoch g w \<and> (dead h (fst p) \<and> snd p ! g < epoch g w \<longrightarrow> \<not> remembers h g w)))"

definition settled :: "string \<Rightarrow> world \<Rightarrow> bool" where
  "settled h w \<longleftrightarrow> filed (wo_db w) \<and> generation w = int (length (wo_published w)) \<and> gateways_clean h w \<and> cache_clean h w"

definition revoking :: "string \<Rightarrow> world \<Rightarrow> world \<Rightarrow> bool" where
  "revoking h w v \<longleftrightarrow> later h w v \<and> keeping (settled h) w v"

lemma later_refl: "later h w w"
  by (auto simp: later_def)

lemma later_trans:
  assumes "later h u v" "later h v w"
  shows "later h u w"
proof -
  obtain ps where ps: "wo_published v = wo_published u @ ps" "generation v = generation u + int (length ps)" "dead h (wo_db u) \<longrightarrow> dead h (wo_db v) \<and> (\<forall>p \<in> set ps. dead h (fst p))"
    "\<forall>p \<in> set ps. \<forall>g < length (wo_gateways u). epoch g u \<le> snd p ! g" using assms(1) unfolding later_def by blast
  obtain qs where qs: "wo_published w = wo_published v @ qs" "generation w = generation v + int (length qs)" "dead h (wo_db v) \<longrightarrow> dead h (wo_db w) \<and> (\<forall>p \<in> set qs. dead h (fst p))"
    "\<forall>p \<in> set qs. \<forall>g < length (wo_gateways v). epoch g v \<le> snd p ! g" using assms(2) unfolding later_def by blast
  have g: "length (wo_gateways v) = length (wo_gateways u)" "length (wo_gateways w) = length (wo_gateways v)" "\<forall>g < length (wo_gateways u). epoch g u \<le> epoch g v"
    "\<forall>g < length (wo_gateways v). epoch g v \<le> epoch g w" using assms unfolding later_def by blast+
  show ?thesis unfolding later_def
  proof (intro conjI exI [of _ "ps @ qs"])
    have "epoch g u \<le> snd p ! g" if "p \<in> set qs" "g < length (wo_gateways u)" for p g using order_trans [of "epoch g u" "epoch g v" "snd p ! g"] that qs(4) g by simp
    then show "\<forall>p \<in> set (ps @ qs). \<forall>g < length (wo_gateways u). epoch g u \<le> snd p ! g" using ps(4) by auto
  qed (use ps qs g in \<open>auto intro: order_trans\<close>)
qed

interpretation revoking: rely "revoking h" for h
  by unfold_locales (auto simp: revoking_def keeping_def later_refl intro: later_trans)

lemma settled_db:
  assumes "draws c h i w" "db_change c E i now (wo_db w) d"
  shows "revoking h w (w\<lparr>wo_db := d\<rparr>)"
proof -
  have d: "dead h (wo_db w) \<Longrightarrow> dead h d" using dead_db [OF assms(2)] assms(1) by (simp add: draws_def)
  moreover have "filed (wo_db w) \<Longrightarrow> filed d" using filed_change assms(2) by blast
  ultimately show ?thesis
    by (auto simp: revoking_def keeping_def later_def settled_def cache_clean_def gateways_clean_def generation_def epoch_def remembers_def)
qed

lemma cache_clean_append:
  assumes "cache_clean h w" "vc_entries (wo_cache v) = vc_entries (wo_cache w)" "wo_published v = wo_published w @ ps"
  shows "cache_clean h v"
  unfolding cache_clean_def
proof (intro allI impI)
  fix n
  assume "vc_entries (wo_cache v) (n, h) \<noteq> None"
  then have "vc_entries (wo_cache w) (n, h) \<noteq> None" using assms(2) by simp
  then have "0 \<le> n" "n \<le> int (length (wo_published w))" "\<forall>p \<in> set (take (nat n) (wo_published w)). \<not> dead h (fst p)" using assms(1) unfolding cache_clean_def by blast+
  then show "0 \<le> n \<and> n \<le> int (length (wo_published v)) \<and> (\<forall>p \<in> set (take (nat n) (wo_published v)). \<not> dead h (fst p))" by (simp add: assms(3))
qed

lemma settled_publish: "revoking h w (w\<lparr>wo_cache := PublishInvalidation False (wo_cache w), wo_published := wo_published w @ [(wo_db w, map ve_epoch (wo_gateways w))]\<rparr>)"
proof -
  let ?v = "w\<lparr>wo_cache := PublishInvalidation False (wo_cache w), wo_published := wo_published w @ [(wo_db w, map ve_epoch (wo_gateways w))]\<rparr>"
  have "cache_clean h w \<Longrightarrow> cache_clean h ?v" by (rule cache_clean_append) (simp_all add: PublishInvalidation_def)
  moreover have "gateways_clean h w \<Longrightarrow> gateways_clean h ?v" unfolding gateways_clean_def by (auto simp: epoch_def remembers_def)
  moreover have "later h w ?v" by (auto simp: later_def generation_def epoch_def PublishInvalidation_def)
  moreover have "generation w = int (length (wo_published w)) \<Longrightarrow> generation ?v = int (length (wo_published ?v))" by (simp add: generation_def PublishInvalidation_def)
  moreover have "filed (wo_db ?v) = filed (wo_db w)" by simp
  ultimately show ?thesis unfolding revoking_def keeping_def settled_def by blast
qed

lemma settled_frame:
  assumes "wo_db v = wo_db w" "wo_cache v = wo_cache w" "wo_gateways v = wo_gateways w" "wo_published v = wo_published w"
  shows "revoking h w v"
  using assms by (simp add: revoking_def keeping_def later_def settled_def cache_clean_def gateways_clean_def generation_def epoch_def remembers_def)

interpretation revoking: account_login "revoking h" c "\<lambda>_. True" "draws c h" "settled h" for h c
proof
  show "settled h v" if "revoking h w v" "settled h w" for w v using that by (simp add: revoking_def keeping_def)
  show "filed (wo_db w)" if "settled h w" for w using that by (simp add: settled_def)
qed (auto intro: settled_db settled_frame settled_publish simp: account_tick_def)


section \<open>Verifications\<close>

text \<open>What \<open>VerifyKeyHash\<close> and \<open>verifyKey\<close> only read.\<close>

lemma stays_read: "(\<And>i v. snd (f i v) = v) \<Longrightarrow> revoking.stays h c w (atomic f)"
  by (rule revoking.stays_atomic) (simp add: revoking.refl)

definition never_dead :: "string \<Rightarrow> (accounts \<times> nat list) list \<Rightarrow> bool" where
  "never_dead h ps \<longleftrightarrow> (\<forall>p \<in> set ps. \<not> dead h (fst p))"

text \<open>The store has been seen with the key active, when \<open>n\<close> or more states were published.\<close>

definition seen :: "string \<Rightarrow> int \<Rightarrow> (accounts \<times> nat list) list \<Rightarrow> world \<Rightarrow> bool" where
  "seen h n ps w \<longleftrightarrow> (\<exists>qs rs. wo_published w = ps @ qs @ rs \<and> never_dead h (ps @ qs) \<and> n \<le> int (length (ps @ qs)))"

lemma later_published: "later h w v \<Longrightarrow> \<exists>ps. wo_published v = wo_published w @ ps"
  by (auto simp: later_def)

lemma seen_stable: "seen h n ps u \<Longrightarrow> revoking h u v \<Longrightarrow> seen h n ps v"
  unfolding seen_def revoking_def by (metis append.assoc later_published)

lemma found_active: "find_value (\<lambda>k. ak_Hash k = h) (ac_keys a) = Some k \<Longrightarrow> ak_Status k = StatusActive \<Longrightarrow> \<not> dead h a"
  using find_value_Some [of "\<lambda>k. ak_Hash k = h" "ac_keys a" k] by (auto simp: dead_def)

lemma get_key_seen:
  assumes "wo_published w = ps @ ws" "n \<le> int (length (wo_published w))"
  shows "assured (revoking.guarded c h) (revoking h) (\<lambda>v r. \<forall>k. r = Inr k \<and> ak_Status k = StatusActive \<longrightarrow> seen h n ps v) w (in_store (\<lambda>_ _. store_GetAPIKeyByHash h))"
  unfolding in_store_def
proof (rule assured_atomic)
  fix i v r v'
  assume v: "revoking h w v" "revoking.guarded c h i v" and st: "(case store_GetAPIKeyByHash h (wo_db v) of (r, d) \<Rightarrow> (translated r, v\<lparr>wo_db := d\<rparr>)) = (r, v')"
  obtain qs where qs: "wo_published v = ps @ ws @ qs" using v(1) assms(1) later_published unfolding revoking_def by fastforce
  have v': "v' = v" using st by (auto simp: store_GetAPIKeyByHash_def)
  have "seen h n ps v" if "r = Inr k" "ak_Status k = StatusActive" for k
  proof -
    have "\<not> dead h (wo_db v)" using st that found_active by (auto simp: store_GetAPIKeyByHash_def translated_def split: option.splits)
    then have "never_dead h (wo_published v)" using v(2) by (auto simp: revoking.guarded_def settled_def gateways_clean_def never_dead_def)
    then show ?thesis using qs assms unfolding seen_def by (intro exI [of _ "ws @ qs"] exI [of _ "[]"]) simp
  qed
  then show "revoking h v v' \<and> (\<forall>k. r = Inr k \<and> ak_Status k = StatusActive \<longrightarrow> seen h n ps v')" by (simp add: v' revoking.refl)
qed

definition verified_rest :: "env_funs \<Rightarrow> APIKey \<Rightarrow> go_time \<Rightarrow> Verification call" where
  "verified_rest c k now = (if \<not> Usable k now then Return (Inl ServiceNotFound)
       else andThenE (in_store (\<lambda>_ _. store_GetTenant (ak_TenantID k))) (\<lambda>t.
         if tn_Status t \<noteq> StatusActive then Return (Inl ServiceNotFound)
         else andThenE (modelPolicy (tn_ID t)) (\<lambda>policy. andThenE (nodePolicy (tn_ID t)) (\<lambda>nodes. andThenE (account_billingBlocked c (tn_ID t)) (\<lambda>blocked.
           Return (Inr \<lparr>vf_TenantID = ak_TenantID k, vf_KeyID = ak_ID k, vf_Limits = tn_Limits t,
             vf_Models = (if Unrestricted policy then None else Some policy), vf_Nodes = (if NodePolicy_Unrestricted nodes then None else Some nodes),
             vf_BillingBlocked = blocked\<rparr>))))))"

lemma VerifyKeyHash_rest: "VerifyKeyHash c hash = (if length hash \<noteq> 64 then Return (Inl ServiceNotFound)
     else andThenE (in_store (\<lambda>_ _. store_GetAPIKeyByHash hash)) (\<lambda>k. andThen read_clock (verified_rest c k)))"
  by (simp add: VerifyKeyHash_def verified_rest_def [abs_def])

lemma stays_rest: "revoking.stays h c w (andThen read_clock (verified_rest c k))"
  unfolding verified_rest_def [abs_def] modelPolicy_def nodePolicy_def account_billingBlocked_def read_clock_def
  by (intro revoking.stays_parts stays_read) simp

lemma VerifyKeyHash_stays: "revoking.stays h c w (VerifyKeyHash c hash)"
  unfolding VerifyKeyHash_rest by (intro revoking.stays_parts stays_rest)

lemma rest_refuses: "ak_Status k \<noteq> StatusActive \<Longrightarrow> assured (revoking.guarded c h) (revoking h) (\<lambda>_ r. \<exists>e. r = Inl e) w (andThen read_clock (verified_rest c k))"
  unfolding read_clock_def
  by (rule assured_andThen [OF assured_atomic, where P = "\<lambda>_ _. True"]) (auto simp: verified_rest_def Usable_def revoking.refl)

lemma VerifyKeyHash_seen:
  assumes "wo_published w = ps @ ws" "n \<le> int (length (wo_published w))"
  shows "assured (revoking.guarded c h) (revoking h) (\<lambda>v r. (\<exists>x. r = Inr x) \<longrightarrow> seen h n ps v) w (VerifyKeyHash c h)"
proof -
  have "assured (revoking.guarded c h) (revoking h) (\<lambda>v r. (\<exists>x. r = Inr x) \<longrightarrow> seen h n ps v) v (andThen read_clock (verified_rest c k))"
    if "ak_Status k = StatusActive \<longrightarrow> seen h n ps v" for v k
  proof (cases "ak_Status k = StatusActive")
    case True
    then have "assured (revoking.guarded c h) (revoking h) (\<lambda>v r. True \<and> seen h n ps v) v (andThen read_clock (verified_rest c k))"
      using revoking.assured_stable [OF stays_rest [unfolded revoking.stays_def], where F = "seen h n ps"] that seen_stable by blast
    then show ?thesis by (rule assured_weaken) simp
  next
    case False
    show ?thesis by (rule assured_weaken [OF rest_refuses [OF False]]) auto
  qed
  then show ?thesis unfolding VerifyKeyHash_rest using get_key_seen [OF assms] by (auto intro!: assured_andThenE)
qed


lemma put_settled:
  assumes "settled h w" "hash = h \<longrightarrow> seen h n ps w"
  shows "revoking h w (w\<lparr>wo_cache := cache_Put lost now hash x n (wo_cache w)\<rparr>)"
proof (cases "lost \<or> n < 0 \<or> vc_generation (wo_cache w) \<noteq> n")
  case True
  then show ?thesis by (intro settled_frame) (auto simp: cache_Put_def)
next
  case False
  let ?v = "w\<lparr>wo_cache := cache_Put lost now hash x n (wo_cache w)\<rparr>"
  have n: "n = int (length (wo_published w))" using assms(1) False by (simp add: settled_def generation_def)
  have "never_dead h (wo_published w)" if "hash = h" using assms(2) that n by (auto simp: seen_def)
  then have "cache_clean h ?v" using assms(1) False n by (auto simp: cache_clean_def settled_def cache_Put_def never_dead_def)
  moreover have "later h w ?v" "gateways_clean h ?v = gateways_clean h w" "generation ?v = generation w"
    by (auto simp: later_def gateways_clean_def generation_def epoch_def remembers_def cache_Put_def)
  ultimately show ?thesis using assms(1) by (simp add: revoking_def keeping_def settled_def)
qed

definition verify_rest :: "env_funs \<Rightarrow> string \<Rightarrow> Verification option \<Rightarrow> int \<Rightarrow> Verification call" where
  "verify_rest c hash hit n = (case hit of Some v \<Rightarrow> Return (Inr v)
   | None \<Rightarrow> andThenE (VerifyKeyHash c hash) (\<lambda>v.
       andThen (atomic (\<lambda>i w. ((), w\<lparr>wo_cache := cache_Put (in_lost i) (wo_now w) hash v n (wo_cache w)\<rparr>))) (\<lambda>_. Return (Inr v))))"

lemma put_assured:
  assumes "hash = h \<longrightarrow> seen h n ps w"
  shows "assured (revoking.guarded c h) (revoking h) (\<lambda>_ r. hash = h \<and> (\<exists>x. r = Inr x) \<longrightarrow> never_dead h ps) w
    (andThen (atomic (\<lambda>i w. ((), w\<lparr>wo_cache := cache_Put (in_lost i) (wo_now w) hash x n (wo_cache w)\<rparr>))) (\<lambda>_. Return (Inr x)))"
proof (rule assured_andThen [where P = "\<lambda>_ _. hash = h \<longrightarrow> never_dead h ps"])
  show "assured (revoking.guarded c h) (revoking h) (\<lambda>_ _. hash = h \<longrightarrow> never_dead h ps) w
    (atomic (\<lambda>i w. ((), w\<lparr>wo_cache := cache_Put (in_lost i) (wo_now w) hash x n (wo_cache w)\<rparr>)))"
  proof (rule assured_atomic)
    fix i v r v'
    assume v: "revoking h w v" "revoking.guarded c h i v" and st: "((), v\<lparr>wo_cache := cache_Put (in_lost i) (wo_now v) hash x n (wo_cache v)\<rparr>) = (r, v')"
    have seen: "hash = h \<longrightarrow> seen h n ps v" using assms seen_stable v(1) by blast
    then have "revoking h v v'" using put_settled [OF _ seen] v(2) st by (auto simp: revoking.guarded_def)
    then show "revoking h v v' \<and> (hash = h \<longrightarrow> never_dead h ps)" using seen by (auto simp: seen_def never_dead_def)
  qed
qed simp

lemma verify_rest_sound:
  assumes "wo_published w = ps @ ws" "n \<le> int (length (wo_published w))" "hash = h \<and> hit \<noteq> None \<longrightarrow> never_dead h ps"
  shows "assured (revoking.guarded c h) (revoking h) (\<lambda>_ r. hash = h \<and> (\<exists>x. r = Inr x) \<longrightarrow> never_dead h ps) w (verify_rest c hash hit n)"
proof (cases hit)
  case None
  have "assured (revoking.guarded c h) (revoking h) (\<lambda>v r. hash = h \<and> (\<exists>x. r = Inr x) \<longrightarrow> seen h n ps v) w (VerifyKeyHash c hash)"
  proof (cases "hash = h")
    case True
    then show ?thesis using VerifyKeyHash_seen [OF assms(1,2)] by simp
  next
    case False
    then show ?thesis using VerifyKeyHash_stays [unfolded revoking.stays_def] by (simp add: assured_weaken)
  qed
  then show ?thesis unfolding verify_rest_def None option.case
    by (rule assured_andThenE) (auto intro: put_assured)
qed (use assms(3) in \<open>simp add: verify_rest_def\<close>)

lemma verifyKey_sound:
  assumes "wo_published w = ps @ ws"
  shows "assured (revoking.guarded c h) (revoking h) (\<lambda>_ r. hash = h \<and> (\<exists>x. r = Inr x) \<longrightarrow> never_dead h ps) w (verifyKey c hash)"
proof -
  have "assured (revoking.guarded c h) (revoking h) (\<lambda>v (hit, n). (\<exists>ws. wo_published v = ps @ ws) \<and> n \<le> int (length (wo_published v)) \<and> (hash = h \<and> hit \<noteq> None \<longrightarrow> never_dead h ps)) w
    (atomic (\<lambda>i w. (cache_Get (in_lost i) (wo_now w) hash (wo_cache w), w)))"
  proof (rule assured_atomic)
    fix i v r v'
    assume v: "revoking h w v" "revoking.guarded c h i v" and st: "(cache_Get (in_lost i) (wo_now v) hash (wo_cache v), v) = (r, v')"
    obtain qs where qs: "wo_published v = ps @ ws @ qs" using v(1) assms later_published unfolding revoking_def by fastforce
    have s: "settled h v" using v(2) by (simp add: revoking.guarded_def)
    then have g: "vc_generation (wo_cache v) = int (length (wo_published v))" by (simp add: settled_def generation_def)
    have "never_dead h ps" if "hash = h" "fst r \<noteq> None"
    proof -
      have "vc_entries (wo_cache v) (int (length (wo_published v)), h) \<noteq> None" using that st g by (auto simp: cache_Get_def split: if_splits option.splits)
      then show ?thesis using s qs by (auto simp: settled_def cache_clean_def never_dead_def)
    qed
    then show "revoking h v v' \<and> (case r of (hit, n) \<Rightarrow> (\<exists>ws. wo_published v' = ps @ ws) \<and> n \<le> int (length (wo_published v')) \<and> (hash = h \<and> hit \<noteq> None \<longrightarrow> never_dead h ps))"
      using st qs g by (auto simp: revoking.refl cache_Get_def split: if_splits)
  qed
  then show ?thesis unfolding verifyKey_def verify_rest_def [symmetric]
    by (rule assured_andThen) (auto intro: verify_rest_sound)
qed

lemma verifyKey_stays: "revoking.stays h c w (verifyKey c hash)"
  unfolding revoking.stays_def by (rule assured_weaken [OF verifyKey_sound [of w "[]"]]) simp_all


section \<open>Gateways\<close>

lemma gateway_change:
  assumes g: "g < length (wo_gateways w)" and "ve_epoch (wo_gateways w ! g) \<le> ve_epoch y"
    and fresh: "ve_cacheHealthy y \<and> map_of (ve_entries y) h \<noteq> None \<Longrightarrow> remembers h g w \<and> ve_epoch y = epoch g w
      \<or> (\<forall>p \<in> set (wo_published w). dead h (fst p) \<longrightarrow> \<not> snd p ! g < ve_epoch y)"
  shows "revoking h w (w\<lparr>wo_gateways := (wo_gateways w)[g := y]\<rparr>)"
proof -
  let ?v = "w\<lparr>wo_gateways := (wo_gateways w)[g := y]\<rparr>"
  have e: "epoch k ?v = (if k = g then ve_epoch y else epoch k w)" "epoch k w \<le> epoch k ?v" if "k < length (wo_gateways w)" for k
    using assms(2) that g by (auto simp: epoch_def nth_list_update)
  have r: "remembers h k ?v = (if k = g then ve_cacheHealthy y \<and> map_of (ve_entries y) h \<noteq> None else remembers h k w)" if "k < length (wo_gateways w)" for k
    using that g by (auto simp: remembers_def nth_list_update)
  have "later h w ?v" using e(2) by (auto simp: later_def generation_def)
  moreover have "gateways_clean h ?v" if c: "gateways_clean h w"
    unfolding gateways_clean_def
  proof (intro ballI conjI allI impI)
    fix p k
    assume p: "p \<in> set (wo_published ?v)" and k: "k < length (wo_gateways ?v)"
    then have w: "p \<in> set (wo_published w)" "k < length (wo_gateways w)" "snd p ! k \<le> epoch k w" using c by (auto simp: gateways_clean_def)
    then show "snd p ! k \<le> epoch k ?v" using e(2) order_trans by blast
    assume d: "dead h (fst p) \<and> snd p ! k < epoch k ?v"
    show "\<not> remembers h k ?v"
    proof (cases "k = g")
      case True
      then show ?thesis using d w e(1) [OF w(2)] r [OF w(2)] fresh c by (auto simp: gateways_clean_def)
    next
      case False
      then show ?thesis using d w e(1) [OF w(2)] r [OF w(2)] c by (auto simp: gateways_clean_def)
    qed
  qed (use c in \<open>auto simp: gateways_clean_def\<close>)
  moreover have "cache_clean h ?v = cache_clean h w" "generation ?v = generation w" by (simp_all add: cache_clean_def generation_def)
  ultimately show ?thesis by (simp add: revoking_def keeping_def settled_def)
qed

lemma at_gateway_assured:
  assumes "\<And>i v r y. revoking h w v \<Longrightarrow> revoking.guarded c h i v \<Longrightarrow> g < length (wo_gateways v) \<Longrightarrow> f (wo_now v) (wo_gateways v ! g) = (r, y)
      \<Longrightarrow> revoking h v (v\<lparr>wo_gateways := (wo_gateways v)[g := y]\<rparr>) \<and> Q (v\<lparr>wo_gateways := (wo_gateways v)[g := y]\<rparr>) (Inr r)"
    and "\<And>v. Q v (Inl ServiceOther)"
  shows "assured (revoking.guarded c h) (revoking h) Q w (at_gateway g f)"
  unfolding at_gateway_def by (rule assured_atomic) (use assms in \<open>auto split: if_splits prod.splits simp: revoking.refl\<close>)

lemma entry_delete: "map_of (AList.delete k xs) h \<noteq> None \<Longrightarrow> map_of xs h \<noteq> None"
  by (auto simp: delete_conv split: if_splits)

lemma cached_entries: "cached now hash x = (r, y) \<Longrightarrow> ve_epoch y = ve_epoch x \<and> ve_cacheHealthy y = ve_cacheHealthy x \<and> (map_of (ve_entries y) h \<noteq> None \<longrightarrow> map_of (ve_entries x) h \<noteq> None) \<and> snd r = ve_epoch x
    \<and> (fst r \<noteq> None \<longrightarrow> ve_cacheHealthy x \<and> map_of (ve_entries x) hash \<noteq> None)"
  by (auto simp: cached_def delete_conv split: if_splits option.splits)

lemma entry_filter: "map_of xs h = None \<Longrightarrow> map_of (filter P xs) h = None"
  by (induction xs) (auto split: if_splits)

lemma store_entries:
  "ve_epoch (verifier_store now hash identity e x) = ve_epoch x" "ve_cacheHealthy (verifier_store now hash identity e x) = ve_cacheHealthy x"
  "map_of (ve_entries x) h = None \<Longrightarrow> \<not> (hash = h \<and> ve_epoch x = e) \<Longrightarrow> map_of (ve_entries (verifier_store now hash identity e x)) h = None"
  by (auto simp: verifier_store_def Let_def entry_filter)

lemma revocation_round_stays: "revoking.stays h c w (revocation_round g)"
proof -
  have "revoking.stays h c v (at_gateway g (\<lambda>_ x. (ve_generation x, x)))" for v
    unfolding revoking.stays_def by (rule at_gateway_assured) (auto simp: revoking.refl)
  moreover have "revoking.stays h c v (at_gateway g (\<lambda>_. applyGeneration n))" for v n
    unfolding revoking.stays_def by (rule at_gateway_assured) (auto intro!: gateway_change simp: remembers_def epoch_def applyGeneration_def Let_def split: if_splits)
  moreover have "revoking.stays h c v (at_gateway g (\<lambda>_. disableCache))" for v
    unfolding revoking.stays_def by (rule at_gateway_assured) (auto intro!: gateway_change simp: disableCache_def split: if_splits)
  moreover have "revoking.stays h c v (remote (WatchGeneration n))" for v n
    unfolding remote_def may_be_lost_def WatchGeneration_def read_generation_def by (intro revoking.stays_rules stays_read) (auto split: if_splits)
  ultimately show ?thesis unfolding revocation_round_def by (intro revoking.stays_rules)
qed


lemma lost_assured: "assured (revoking.guarded c h) (revoking h) (\<lambda>v _. revoking h w v) w may_be_lost"
  unfolding may_be_lost_def by (rule assured_atomic) (auto simp: revoking.refl)

lemma remote_assured:
  assumes "\<And>v. revoking h w v \<Longrightarrow> assured (revoking.guarded c h) (revoking h) (\<lambda>_. Q) v p" "\<And>e. Q (Inl e)"
  shows "assured (revoking.guarded c h) (revoking h) (\<lambda>_. Q) w (remote p)"
  unfolding remote_def
proof (rule assured_andThenE [OF lost_assured])
  fix v and a :: unit
  assume "revoking h w v"
  then show "assured (revoking.guarded c h) (revoking h) (\<lambda>_. Q) v (andThenE p (\<lambda>a. andThenE may_be_lost (\<lambda>_. Return (Inr a))))"
    by (intro assured_andThenE [OF assms(1)]) (auto intro!: assured_andThenE [OF lost_assured] simp: assms(2))
qed (rule assms(2))

lemma ask_sound:
  assumes "wo_published w = ps @ ws"
  shows "assured (revoking.guarded c h) (revoking h) (\<lambda>_ r. hash = h \<and> (\<exists>x. r = Inr x) \<longrightarrow> never_dead h ps) w (ask c hash)"
  unfolding ask_def
proof (rule assured_andThen)
  show "assured (revoking.guarded c h) (revoking h) (\<lambda>_ r. hash = h \<and> (\<exists>x. r = Inr x) \<longrightarrow> never_dead h ps) w (remote (verifyKey c hash))"
  proof (rule remote_assured)
    fix v
    assume "revoking h w v"
    then obtain qs where "wo_published v = ps @ ws @ qs" using assms later_published unfolding revoking_def by fastforce
    then show "assured (revoking.guarded c h) (revoking h) (\<lambda>_ r. hash = h \<and> (\<exists>x. r = Inr x) \<longrightarrow> never_dead h ps) v (verifyKey c hash)" by (rule verifyKey_sound)
  qed simp
qed (auto split: sum.splits option.splits)

text \<open>
  A verification that began in epoch \<open>e\<close> is stored only in this epoch; what was published dead by then had kept it
  from being answered, and what is published later has no smaller epoch.
\<close>

lemma store_step:
  assumes "later h u v" "settled h v" "g < length (wo_gateways v)" "hash = h \<longrightarrow> never_dead h (wo_published u)"
  shows "revoking h v (v\<lparr>wo_gateways := (wo_gateways v)[g := verifier_store now hash identity (epoch g u) (wo_gateways v ! g)]\<rparr>)"
proof (rule gateway_change [OF assms(3)])
  let ?y = "verifier_store now hash identity (epoch g u) (wo_gateways v ! g)"
  assume y: "ve_cacheHealthy ?y \<and> map_of (ve_entries ?y) h \<noteq> None"
  obtain ps where ps: "wo_published v = wo_published u @ ps" "\<forall>p \<in> set ps. \<forall>g < length (wo_gateways u). epoch g u \<le> snd p ! g" "length (wo_gateways v) = length (wo_gateways u)"
    using assms(1) unfolding later_def by blast
  consider "map_of (ve_entries (wo_gateways v ! g)) h \<noteq> None" | "hash = h" "ve_epoch (wo_gateways v ! g) = epoch g u" using y store_entries(3) by metis
  then show "remembers h g v \<and> ve_epoch ?y = epoch g v \<or> (\<forall>p \<in> set (wo_published v). dead h (fst p) \<longrightarrow> \<not> snd p ! g < ve_epoch ?y)"
  proof cases
    case 1
    then show ?thesis using y by (simp add: remembers_def epoch_def store_entries(1,2))
  next
    case 2
    then have "never_dead h (wo_published u)" using assms(4) by blast
    then show ?thesis using ps assms(3) 2(2) by (auto simp: never_dead_def store_entries(1) not_less)
  qed
qed (simp add: store_entries(1))

lemma stored_sound:
  assumes "revoking h u w"
  shows "assured (revoking.guarded c h) (revoking h) (\<lambda>_ r. hash = h \<and> (\<exists>x. r = Inr x) \<longrightarrow> never_dead h (wo_published u)) w
    (andThenE (ask c hash) (\<lambda>identity. andThenE (at_gateway g (\<lambda>now v. ((), verifier_store now hash identity (epoch g u) v))) (\<lambda>_. Return (Inr identity))))"
proof (rule assured_andThenE)
  obtain qs where qs: "wo_published w = wo_published u @ qs" using assms later_published unfolding revoking_def by blast
  show "assured (revoking.guarded c h) (revoking h) (\<lambda>v r. (hash = h \<and> (\<exists>x. r = Inr x) \<longrightarrow> never_dead h (wo_published u)) \<and> revoking h u v) w (ask c hash)"
    using ask_sound [OF qs] assms revoking.trans by (rule revoking.assured_stable)
next
  fix v and identity :: Identity
  assume v: "(hash = h \<and> (\<exists>x. Inr identity = Inr x) \<longrightarrow> never_dead h (wo_published u)) \<and> revoking h u v"
  then have never: "hash = h \<longrightarrow> never_dead h (wo_published u)" by blast
  have "assured (revoking.guarded c h) (revoking h) (\<lambda>_ _. True) v (at_gateway g (\<lambda>now v. ((), verifier_store now hash identity (epoch g u) v)))"
  proof (rule at_gateway_assured)
    fix i v' r y
    assume "revoking h v v'" "revoking.guarded c h i v'" "g < length (wo_gateways v')" "((), verifier_store (wo_now v') hash identity (epoch g u) (wo_gateways v' ! g)) = (r, y)"
    moreover have "revoking h u v'" using v calculation(1) revoking.trans by blast
    ultimately show "revoking h v' (v'\<lparr>wo_gateways := (wo_gateways v')[g := y]\<rparr>) \<and> True"
      using store_step [of h u v' g hash] never by (auto simp: revoking_def revoking.guarded_def)
  qed simp
  then show "assured (revoking.guarded c h) (revoking h) (\<lambda>_ r. hash = h \<and> (\<exists>x. r = Inr x) \<longrightarrow> never_dead h (wo_published u)) v
    (andThenE (at_gateway g (\<lambda>now v. ((), verifier_store now hash identity (epoch g u) v))) (\<lambda>_. Return (Inr identity)))"
    by (rule assured_andThenE) (simp_all add: never)
qed simp

lemma gateway_Verify_sound:
  assumes "wo_published w = ps @ ws"
  shows "assured (revoking.guarded c h) (revoking h)
    (\<lambda>_ r. HashOf (ef_sha c) key = Some h \<and> (\<exists>p \<in> set ps. dead h (fst p) \<and> g < length (wo_gateways w) \<and> snd p ! g < epoch g w) \<longrightarrow> (\<exists>e. r = Inl e)) w (gateway_Verify c g key)"
    (is "assured _ _ (\<lambda>_ r. HashOf (ef_sha c) key = Some h \<and> ?past \<longrightarrow> _ r) _ _")
proof (cases "HashOf (ef_sha c) key")
  case (Some hash)
  have "assured (revoking.guarded c h) (revoking h) (\<lambda>v r. \<forall>hit e. r = Inr (hit, e) \<longrightarrow> (\<exists>u. revoking h u v \<and> e = epoch g u \<and> (\<exists>ws. wo_published u = ps @ ws)) \<and> (hash = h \<and> ?past \<longrightarrow> hit = None)) w
    (at_gateway g (\<lambda>now. cached now hash))"
  proof (rule at_gateway_assured)
    fix i v r y
    assume v: "revoking h w v" "revoking.guarded c h i v" "g < length (wo_gateways v)" and st: "cached (wo_now v) hash (wo_gateways v ! g) = (r, y)"
    let ?v = "v\<lparr>wo_gateways := (wo_gateways v)[g := y]\<rparr>"
    note c = cached_entries [OF st, of h]
    have R: "revoking h v ?v" using c by (intro gateway_change [OF v(3)]) (auto simp: remembers_def epoch_def)
    have later: "later h w v" and s: "settled h v" using v by (simp_all add: revoking_def revoking.guarded_def)
    then obtain qs where qs: "wo_published v = ps @ ws @ qs" using assms later_published by fastforce
    have "\<not> remembers h g v" if past: ?past
    proof -
      obtain p where p: "p \<in> set ps" "dead h (fst p)" "snd p ! g < epoch g w" using past by blast
      then have "snd p ! g < epoch g v" using later v(3) unfolding later_def by (metis order_less_le_trans)
      then show ?thesis using p s qs v(3) by (auto simp: settled_def gateways_clean_def)
    qed
    then have hit: "hash = h \<and> ?past \<longrightarrow> fst r = None" using cached_entries [OF st, of h] by (auto simp: remembers_def)
    show "revoking h v ?v \<and> (\<forall>hit e. Inr r = Inr (hit, e) \<longrightarrow> (\<exists>u. revoking h u ?v \<and> e = epoch g u \<and> (\<exists>ws. wo_published u = ps @ ws)) \<and> (hash = h \<and> ?past \<longrightarrow> hit = None))"
    proof (intro conjI R allI impI)
      fix x e
      assume "Inr r = Inr (x, e)"
      then show "\<exists>u. revoking h u ?v \<and> e = epoch g u \<and> (\<exists>ws. wo_published u = ps @ ws)" using R qs c by (intro exI [of _ v]) (auto simp: epoch_def)
    qed (use hit in auto)
  qed simp
  then show ?thesis unfolding gateway_Verify_def Some option.case
  proof (rule assured_andThenE)
    fix v and a :: "Identity option \<times> nat"
    assume v: "\<forall>hit e. Inr a = Inr (hit, e) \<longrightarrow> (\<exists>u. revoking h u v \<and> e = epoch g u \<and> (\<exists>ws. wo_published u = ps @ ws)) \<and> (hash = h \<and> ?past \<longrightarrow> hit = None)"
    obtain x e where a: "a = (x, e)" by force
    then obtain u ws' where u: "revoking h u v" "e = epoch g u" "wo_published u = ps @ ws'" and x: "hash = h \<and> ?past \<longrightarrow> x = None" using v by blast
    have "assured (revoking.guarded c h) (revoking h) (\<lambda>_ r. hash = h \<and> ?past \<longrightarrow> (\<exists>e. r = Inl e)) v
      (andThenE (ask c hash) (\<lambda>identity. andThenE (at_gateway g (\<lambda>now v. ((), verifier_store now hash identity e v))) (\<lambda>_. Return (Inr identity))))"
      unfolding u(2) using stored_sound [OF u(1)] by (rule assured_weaken) (use u(3) in \<open>auto simp: never_dead_def\<close>, metis obj_sumE)
    then show "assured (revoking.guarded c h) (revoking h) (\<lambda>_ r. Some hash = Some h \<and> ?past \<longrightarrow> (\<exists>e. r = Inl e)) v
      (case a of (hit, e) \<Rightarrow> (case hit of Some identity \<Rightarrow> Return (Inr identity)
         | None \<Rightarrow> andThenE (ask c hash) (\<lambda>identity. andThenE (at_gateway g (\<lambda>now v. ((), verifier_store now hash identity e v))) (\<lambda>_. Return (Inr identity)))))"
      using x by (auto simp: a split: option.splits)
  qed auto
qed (simp add: gateway_Verify_def)


section \<open>Revoked keys stay out\<close>

lemma gateway_Verify_stays: "revoking.stays h c w (gateway_Verify c g key)"
  unfolding revoking.stays_def by (rule assured_weaken [OF gateway_Verify_sound [of w "[]"]]) simp_all

lemma all_stay: "revoking.stays h c w (account_handler c q)"
proof (cases "account_rely.console (\<lambda>_. True) q")
  case True
  then show ?thesis by (rule revoking.stays_console)
next
  case False
  then show ?thesis by (cases q rule: revoking.console.cases)
    (auto intro: revoking.stays_login revocation_round_stays intro!: revoking.stays_rules verifyKey_stays gateway_Verify_stays)
qed

abbreviation key_run :: "env_funs \<Rightarrow> string \<Rightarrow> (world, service_error + reply) system \<Rightarrow> request sys_event list \<Rightarrow> (world, service_error + reply) system \<Rightarrow> bool" where
  "key_run c h \<equiv> run (sys_step (account_handler c) account_tick (draws c h))"

definition quiet :: "env_funs \<Rightarrow> string \<Rightarrow> (world, service_error + reply) system \<Rightarrow> bool" where
  "quiet c h s \<longleftrightarrow> settled h (sy_world s) \<and> (\<forall>p \<in> set (sy_calls s). revoking.stays h c (sy_world s) p)"

lemma quiet_run: "key_run c h s es t \<Longrightarrow> quiet c h s \<Longrightarrow> quiet c h t \<and> later h (sy_world s) (sy_world t)"
  using revoking.stays_run [of c h s es t] all_stay by (auto simp: quiet_def revoking_def)

lemma quiet_new: "filed a \<Longrightarrow> quiet c h \<lparr>sy_world = new_world now a ttl gateways, sy_calls = []\<rparr>"
  by (auto simp: quiet_def settled_def new_world_def generation_def gateways_clean_def cache_clean_def NewVerifications_def)

text \<open>The answer of one call, followed from its start.\<close>

lemma answer_run:
  assumes "key_run c h t (Start q # es) u" "quiet c h t" "assured (revoking.guarded c h) (revoking h) (\<lambda>_. Q) (sy_world t) (account_handler c q)"
    and "answered (sy_calls u ! length (sy_calls t)) = Some r"
  shows "Q r"
proof -
  obtain s where s: "sys_step (account_handler c) account_tick (draws c h) t (Start q) s" "key_run c h s es u"
    using run_split [of "sys_step (account_handler c) account_tick (draws c h)" t "[Start q]" es u] assms(1) run_snoc_iff [of _ t "[]" "Start q"] by (auto elim: run.cases)
  then have eq: "sy_world s = sy_world t" "sy_calls s = sy_calls t @ [account_handler c q]" by (auto simp: sys_step_def)
  then have quiet: "quiet c h s" using assms(2) all_stay by (auto simp: quiet_def)
  then have g: "run (sys_step (account_handler c) account_tick (revoking.guarded c h)) s es u" "revoking.all_assured h (revoking.guarded c h) (\<lambda>_. True) s"
    using revoking.stays_run [OF s(2)] all_stay by (auto simp: quiet_def revoking.all_assured_def revoking.stays_def)
  have "assured (revoking.guarded c h) (revoking h) (\<lambda>_. Q) (sy_world u) (sy_calls u ! length (sy_calls t))"
    using revoking.assured_answer [OF g, of "length (sy_calls t)" Q] assms(3) all_stay [unfolded revoking.stays_def] revoking.R_time eq by simp
  then show ?thesis using assms(4) by (cases "sy_calls u ! length (sy_calls t)") auto
qed


text \<open>
  C7. Once a key is revoked, and an invalidation has been published after that, no verification of the control plane that
  begins later accepts the key, in any interleaving with the verifications, revocations and watches that are in
  flight: neither cached answers nor verifications that span the revocation let it in.
\<close>

theorem revoked_key_refused:
  assumes "key_run c h \<lparr>sy_world = new_world now a ttl gateways, sy_calls = []\<rparr> es s" "filed a" "dead h (wo_db (sy_world s))"
    and "key_run c h s es' t" "generation (sy_world s) < generation (sy_world t)"
    and "key_run c h t (Start (VerifyKey h) # es'') u" "answered (sy_calls u ! length (sy_calls t)) = Some r"
  shows "\<exists>e. r = Inl e"
proof -
  have s: "quiet c h s" using quiet_run [OF assms(1)] quiet_new [OF assms(2)] by blast
  then have t: "quiet c h t" "later h (sy_world s) (sy_world t)" using quiet_run [OF assms(4)] by blast+
  then obtain ps where ps: "wo_published (sy_world t) = wo_published (sy_world s) @ ps" "ps \<noteq> []" "\<forall>p \<in> set ps. dead h (fst p)" using assms(3,5) by (auto simp: later_def)
  then have d: "\<not> never_dead h (wo_published (sy_world t))" by (cases ps) (auto simp: never_dead_def)
  have "assured (revoking.guarded c h) (revoking h) (\<lambda>_ r. \<exists>e. r = Inl e) (sy_world t) (account_handler c (VerifyKey h))"
    unfolding account_handler.simps by (rule assured_andThenE [OF verifyKey_sound [of _ "wo_published (sy_world t)" "[]"]]) (use d in auto)
  then show ?thesis using answer_run [OF assms(6) t(1) _ assms(7)] by blast
qed

text \<open>
  C8. And once a Gateway has cleared its cache after that, which it does when it learns of the new generation and when it
  loses the watch, no verification by the Gateway that begins later accepts the key.
\<close>

theorem revoked_key_forgotten:
  assumes "key_run c h \<lparr>sy_world = new_world now a ttl gateways, sy_calls = []\<rparr> es s" "filed a" "dead h (wo_db (sy_world s))"
    and "key_run c h s es1 t" "generation (sy_world s) < generation (sy_world t)"
    and "key_run c h t es2 v" "g < length (wo_gateways (sy_world v))" "epoch g (sy_world t) < epoch g (sy_world v)"
    and "key_run c h v (Start (GatewayVerify g key) # es3) u" "HashOf (ef_sha c) key = Some h" "answered (sy_calls u ! length (sy_calls v)) = Some r"
  shows "\<exists>e. r = Inl e"
proof -
  have s: "quiet c h s" using quiet_run [OF assms(1)] quiet_new [OF assms(2)] by blast
  then have t: "quiet c h t" "later h (sy_world s) (sy_world t)" using quiet_run [OF assms(4)] by blast+
  then have v: "quiet c h v" "later h (sy_world t) (sy_world v)" using quiet_run [OF assms(6)] by blast+
  have g: "g < length (wo_gateways (sy_world t))" using v(2) assms(7) by (simp add: later_def)
  obtain ps where ps: "wo_published (sy_world t) = wo_published (sy_world s) @ ps" "ps \<noteq> []" "\<forall>p \<in> set ps. dead h (fst p)" using t(2) assms(3,5) by (auto simp: later_def)
  then obtain p where p: "p \<in> set (wo_published (sy_world t))" "dead h (fst p)" by (cases ps) auto
  then have "snd p ! g \<le> epoch g (sy_world t)" using t(1) g by (auto simp: quiet_def settled_def gateways_clean_def)
  moreover have "p \<in> set (wo_published (sy_world v))" using p(1) later_published [OF v(2)] by auto
  ultimately have past: "\<exists>p \<in> set (wo_published (sy_world v)). dead h (fst p) \<and> g < length (wo_gateways (sy_world v)) \<and> snd p ! g < epoch g (sy_world v)" using p(2) assms(7,8) by force
  have "assured (revoking.guarded c h) (revoking h) (\<lambda>_ r. \<exists>e. r = Inl e) (sy_world v) (account_handler c (GatewayVerify g key))"
    unfolding account_handler.simps by (rule assured_andThenE [OF gateway_Verify_sound [of _ "wo_published (sy_world v)" "[]"]]) (use past assms(10) in auto)
  then show ?thesis using answer_run [OF assms(9) v(1) _ assms(11)] by blast
qed


section \<open>An example\<close>

lemma sys_trace_inputs:
  assumes "\<forall>e \<in> set es. \<forall>k i. e = Go k i \<longrightarrow> D i"
  shows "sys_trace handler tick (\<lambda>i w. env i w \<and> D i) es s = sys_trace handler tick env es s"
  using assms
proof (induction es arbitrary: s)
  case (Cons e es)
  have "admits (\<lambda>i w. env i w \<and> D i) e (sy_world s) = admits env e (sy_world s)" using Cons.prems by (cases e) auto
  then show ?case using Cons by (auto split: option.splits)
qed simp

definition sample_key :: string where
  "sample_key = ''aisw-'' @ replicate 43 CHR ''A''"

definition keyed_funs :: env_funs where
  "keyed_funs = plain_funs\<lparr>ef_sha := (\<lambda>k. if last k = CHR ''A'' then replicate 32 0 else 1 # replicate 31 0)\<rparr>"

definition keyed_accounts :: accounts where
  "keyed_accounts = sample_accounts\<lparr>ac_keys := [(''k'', \<lparr>ak_ID = ''k'', ak_TenantID = ''t'', ak_CreatedBy = ''a'', ak_Name = ''k'', ak_Hash = replicate 64 CHR ''0'', ak_Display = '''',
     ak_Status = StatusActive, ak_ExpiresAt = None, ak_LastUsedAt = None, ak_RevokedAt = None, ak_CreatedAt = 1, ak_UpdatedAt = 1\<rparr>)]\<rparr>"

definition keyed_system :: "(world, service_error + reply) system" where
  "keyed_system = \<lparr>sy_world = new_world 1 keyed_accounts 0 [(0, 0)], sy_calls = []\<rparr>"

definition key_revoked :: "request sys_event list" where
  "key_revoked = owner_login @ Start (Session owner_claims (RevokeKey ''k'')) # replicate 3 (Go 1 (draw ''2''))"

definition key_published :: "request sys_event list" where
  "key_published = replicate 2 (Go 1 (draw ''2''))"

definition key_watched :: "request sys_event list" where
  "key_watched = Start (GatewayWatch 0) # replicate 5 (Go 2 (draw ''2''))"

definition key_verified :: "request sys_event list" where
  "key_verified = Start (VerifyKey (replicate 64 CHR ''0'')) # replicate 3 (Go 2 (draw ''2''))"

definition key_presented :: "request sys_event list" where
  "key_presented = Start (GatewayVerify 0 sample_key) # replicate 5 (Go 3 (draw ''2''))"

lemma key_revoked_runs: "case account_trace keyed_funs key_revoked keyed_system of None \<Rightarrow> False | Some s \<Rightarrow>
    dead (replicate 64 CHR ''0'') (wo_db (sy_world s)) \<and>
    (case account_trace keyed_funs key_published s of None \<Rightarrow> False | Some t \<Rightarrow> generation (sy_world s) < generation (sy_world t) \<and> length (sy_calls t) = 2 \<and>
      (case account_trace keyed_funs key_verified t of None \<Rightarrow> False | Some u \<Rightarrow> answered (sy_calls u ! 2) \<noteq> None) \<and>
      (case account_trace keyed_funs key_watched t of None \<Rightarrow> False | Some v \<Rightarrow> length (wo_gateways (sy_world v)) = 1 \<and> epoch 0 (sy_world t) < epoch 0 (sy_world v) \<and> length (sy_calls v) = 3 \<and>
        (case account_trace keyed_funs key_presented v of None \<Rightarrow> False | Some u \<Rightarrow> answered (sy_calls u ! 3) \<noteq> None)))"
  by code_simp


lemma key_hash: "HashOf (ef_sha keyed_funs) sample_key = Some (replicate 64 CHR ''0'')"
  by code_simp

lemma key_draws:
  assumes "account_trace keyed_funs es s = Some t" "\<forall>e \<in> set es. \<forall>k i. e = Go k i \<longrightarrow> in_random i \<in> {''1'', ''2''}"
  shows "key_run keyed_funs (replicate 64 CHR ''0'') s es t"
proof -
  have other: "gk_Hash (Generate (ef_sha keyed_funs) ''1'') \<noteq> replicate 64 CHR ''0''" "gk_Hash (Generate (ef_sha keyed_funs) ''2'') \<noteq> replicate 64 CHR ''0''"
    by code_simp+
  have "sys_trace (account_handler keyed_funs) account_tick (draws keyed_funs (replicate 64 CHR ''0'')) es s = Some t"
    using assms(1) unfolding draws_def
    by (subst sys_trace_inputs [where D = "\<lambda>i. gk_Hash (Generate (ef_sha keyed_funs) (in_random i)) \<noteq> replicate 64 CHR ''0''"])
      (use assms(2) other in \<open>fastforce\<close>)
  then show ?thesis by (rule sys_trace_run)
qed

lemma key_events:
  "\<forall>e \<in> set (key_revoked @ key_published @ key_watched @ key_verified @ key_presented). \<forall>k i. e = Go k i \<longrightarrow> in_random i \<in> {''1'', ''2''}"
  by (auto simp: key_revoked_def key_published_def key_watched_def key_verified_def key_presented_def owner_login_def draw_def)

lemma keyed_filed: "filed keyed_accounts"
  using sample_filed by (simp add: sample_system_def new_world_def keyed_accounts_def filed_def)

theorem revoked_key_refused_witness:
  "\<exists>s t u e. account_trace keyed_funs key_revoked keyed_system = Some s \<and> account_trace keyed_funs key_published s = Some t
    \<and> account_trace keyed_funs key_verified t = Some u \<and> answered (sy_calls u ! 2) = Some (Inl e)"
proof -
  obtain s t u r where s: "account_trace keyed_funs key_revoked keyed_system = Some s" "dead (replicate 64 CHR ''0'') (wo_db (sy_world s))"
    and t: "account_trace keyed_funs key_published s = Some t" "generation (sy_world s) < generation (sy_world t)" "length (sy_calls t) = 2"
    and u: "account_trace keyed_funs key_verified t = Some u" "answered (sy_calls u ! 2) = Some r"
    using key_revoked_runs by (auto split: option.splits)
  have run: "key_run keyed_funs (replicate 64 CHR ''0'') \<lparr>sy_world = new_world 1 keyed_accounts 0 [(0, 0)], sy_calls = []\<rparr> key_revoked s"
    "key_run keyed_funs (replicate 64 CHR ''0'') s key_published t" "key_run keyed_funs (replicate 64 CHR ''0'') t (Start (VerifyKey (replicate 64 CHR ''0'')) # replicate 3 (Go 2 (draw ''2''))) u"
    using key_draws [OF s(1)] key_draws [OF t(1)] key_draws [OF u(1)] key_events
    by (simp_all add: keyed_system_def key_verified_def ball_Un)
  have "\<exists>e. r = Inl e" using revoked_key_refused [OF run(1) keyed_filed s(2) run(2) t(2) run(3)] u(2) t(3) by simp
  then show ?thesis using s(1) t(1) u by blast
qed

theorem revoked_key_forgotten_witness:
  "\<exists>s t v u e. account_trace keyed_funs key_revoked keyed_system = Some s \<and> account_trace keyed_funs key_published s = Some t
    \<and> account_trace keyed_funs key_watched t = Some v \<and> account_trace keyed_funs key_presented v = Some u \<and> answered (sy_calls u ! 3) = Some (Inl e)"
proof -
  obtain s t v u r where s: "account_trace keyed_funs key_revoked keyed_system = Some s" "dead (replicate 64 CHR ''0'') (wo_db (sy_world s))"
    and t: "account_trace keyed_funs key_published s = Some t" "generation (sy_world s) < generation (sy_world t)"
    and v: "account_trace keyed_funs key_watched t = Some v" "length (wo_gateways (sy_world v)) = 1" "epoch 0 (sy_world t) < epoch 0 (sy_world v)" "length (sy_calls v) = 3"
    and u: "account_trace keyed_funs key_presented v = Some u" "answered (sy_calls u ! 3) = Some r"
    using key_revoked_runs by (auto split: option.splits)
  have run: "key_run keyed_funs (replicate 64 CHR ''0'') \<lparr>sy_world = new_world 1 keyed_accounts 0 [(0, 0)], sy_calls = []\<rparr> key_revoked s"
    "key_run keyed_funs (replicate 64 CHR ''0'') s key_published t" "key_run keyed_funs (replicate 64 CHR ''0'') t key_watched v"
    "key_run keyed_funs (replicate 64 CHR ''0'') v (Start (GatewayVerify 0 sample_key) # replicate 5 (Go 3 (draw ''2''))) u"
    using key_draws [OF s(1)] key_draws [OF t(1)] key_draws [OF v(1)] key_draws [OF u(1)] key_events
    by (simp_all add: keyed_system_def key_presented_def ball_Un)
  have "\<exists>e. r = Inl e"
    using revoked_key_forgotten [OF run(1) keyed_filed s(2) run(2) t(2) run(3) _ v(3) run(4) key_hash] u(2) v(2,4) by simp
  then show ?thesis using s(1) t(1) v(1) u by blast
qed

end
