(* ===== verification/Spec2Isabelle.thy ===== *)
theory Spec2Isabelle
  imports RateLimit Scheduler BillingProperties RegistryHistory TunnelSafety TunnelRaces JobRaces KeyRevocation
begin

text \<open>
  A verification development of AIServeWeave, a gateway that serves AI models from machines that connect
  to it. The Go sources are under \<open>src/\<close>; the parts that carry the program's decisions are modelled as
  executable functions and step relations and proved correct against explicit specifications.

  \<^bold>\<open>The program.\<close> Clients send requests to a Gateway with an API key of their tenant. The Gateway charges
  the tenant's rate limits (\<open>ratelimit\<close>), resolves the requested name through published routes
  (\<open>routing\<close>), picks candidate runtimes on connected nodes and tries them in order with a circuit
  breaker per candidate (\<open>scheduler\<close>). A node runs an Agent. It enrols at the Registry with a bootstrap
  token, gets a certificate that names it, and keeps tunnels open to the Gateways that the Registry's
  roster lists; operators approve, disable and delete nodes there. A tunnel is one Control stream, on which
  the node reports itself, and a number of Serve streams, the slots: each slot carries one request at a time
  (\<open>tunnelserver\<close>), in messages that \<open>tunnelwire\<close> translates. The control plane keeps the tenants'
  prepaid credit, prices usage that Gateways report and applies the events of the payment provider. Workflow
  runs outlive the request that starts them: each Gateway replica keeps a table of the runs it submitted
  (\<open>httpapi/jobstore.go\<close>), asks the nodes about them in the background, and reports them to the control
  plane, from which another replica can recover them. The control plane also keeps the accounts: tenants, their users
  and API keys, the sessions of the Console, and the cached verifications that let a key in without asking the
  database; a revocation has to reach every cache.

  \<^bold>\<open>Theories.\<close>
  \<^item> \<open>AISW_Prelude\<close>: fallible operations on a state, association maps with Go's map semantics, 64-bit
    arithmetic, histories of a step relation (\<open>run\<close>), and the locales \<open>simulation\<close> (a step relation
    implements an abstract one) and \<open>budget\<close> (a resource is never used more often than granted).
    \<open>Go_Strings\<close>, \<open>Go_Base64\<close>, \<open>Go_Time\<close> (the civil calendar and RFC 3339 times): the parts of the standard library that the sources use.
  \<^item> \<open>RateLimit\<close>: \<open>common/quota\<close> and \<open>Gateway/ratelimit\<close>, limits, token buckets, the in-memory limiter
    and its leases. Leases are accounted for exactly in every interleaving, the concurrency cap holds, and
    buckets admit at most their rate.
  \<^item> \<open>Runtime\<close>: \<open>common/runtime\<close>, error codes, \<open>Retry-After\<close> and the algebra of capability evidence.
  \<^item> \<open>Breaker\<close>: \<open>scheduler/breaker.go\<close> and \<open>cooldown.go\<close>, against a specification that reads the
    history of outcomes only.
  \<^item> \<open>Access\<close>: \<open>common/modelaccess\<close>, \<open>common/nodeaccess\<close> and their use by the scheduler: which tenant
    may use which model on which node, including the node ids that spell their owner.
  \<^item> \<open>Routing\<close>: \<open>common/modelroute\<close> and \<open>Gateway/routing\<close>, validation of routes and the table built
    from them.
  \<^item> \<open>Placement\<close>: \<open>scheduler/policy.go\<close> and \<open>weights.go\<close>, the order in which candidates are tried:
    load, power of two choices, rendezvous hashing and weights.
  \<^item> \<open>Scheduler\<close>: \<open>scheduler/scheduler.go\<close>, selection and the dispatching methods with their retries
    and streams. The properties state tenant isolation, the retry discipline and what callers are told.
  \<^item> \<open>BillingModel\<close>, \<open>BillingRules\<close>, \<open>BillingStore\<close>, \<open>BillingProperties\<close>: the control plane's
    \<open>model/billing.go\<close>, \<open>store/billingrules.go\<close>, \<open>store/memstore/billing.go\<close> and the pricing in
    \<open>logic/billing.go\<close>. The rules are written once over a transaction record, as the source writes them
    over the \<open>BillingTx\<close> interface. The properties state that the books balance after any history, that
    payments, usage and refunds count once, and that failures change nothing.
  \<^item> \<open>AtomicFile\<close>, \<open>TokenStore\<close>, \<open>IdentityStore\<close>: the Registry's two stores on files that are replaced
    atomically, with failing writes and restarts. A token is consumed at most as often as it was minted;
    the ledger of node identities refines an abstract view.
  \<^item> \<open>Roster\<close>: \<open>registryserver/roster.go\<close>, the directory of Gateways with its versions and broadcasts to
    streams that may be slow, and the Agent's copy (\<open>tunnel/roster.go\<close>). The newest roster wins at every
    receiver.
  \<^item> \<open>Registry\<close>, \<open>RegistryHistory\<close>: the gRPC handlers of the Registry (\<open>identity.go\<close>,
    \<open>token_admin.go\<close>) with certificates (\<open>ca.go\<close>, \<open>common/nodeid\<close>), first as whole handlers, then as
    critical sections that any other call may interleave. The properties say what certificates can be
    issued in any history.
  \<^item> \<open>Upstream\<close>: \<open>common/runtime/upstream.go\<close>, which headers and bodies of a backend's failed response
    reach the client.
  \<^item> \<open>TunnelWire\<close>, \<open>WireChat\<close>, \<open>WireRuntime\<close>, \<open>WireCodec\<close>: \<open>common/tunnelwire\<close>, the translation
    between the runtime's types and the messages of the tunnel: operations and errors; chat, completion and
    embedding requests, answers and events; models, snapshots, images and administrative requests. The
    properties are the round trips, with exactly what is lost on the way.
  \<^item> \<open>Tunnel\<close>, \<open>TunnelTraces\<close>, \<open>TunnelSafety\<close>, \<open>TunnelRaces\<close>: \<open>Gateway/tunnelserver\<close>, the
    Control and Serve streams, dispatching, the frames of a request, cancellation, revocation and slot
    scaling as a step relation over all goroutines. A frame reaches only the request it answers and a slot
    carries one request at a time; a reconnecting node can deadlock the server, be lost to it, or miss its
    revocation, in histories that are given.
  \<^item> \<open>JobStore\<close>: \<open>Gateway/httpapi/jobstore.go\<close>, the table of workflow runs and of their artifacts, with
    the claims of the background loops (one locale, \<open>claim_queue\<close>, for the three of them) and the back-off.
  \<^item> \<open>Paging\<close>, \<open>JobRecords\<close>: the control plane's cursors and paged lists, \<open>model/job.go\<close>, the job and
    artifact tables of \<open>memstore.go\<close> and \<open>logic/jobs.go\<close>. Paging ends and reads every row once; rows of
    jobs only advance.
  \<^item> \<open>JobFleet\<close>, \<open>JobTraces\<close>, \<open>JobSafety\<close>, \<open>JobRaces\<close>: replicas, their loops and handlers
    (\<open>jobsync.go\<close>, \<open>jobpersist.go\<close>, \<open>jobrecover.go\<close>, \<open>jobs.go\<close>, \<open>jobevents.go\<close>,
    \<open>artifacts.go\<close>), the records and the runs on the nodes as one step relation, with lost calls, lost answers
    and restarts. Tables stay well formed, tenants see only their jobs, an end that is shown was reported by the
    run's node and a persisted job has its row; histories and a law show where replicas and records disagree, and how
    tenants come to share a run.
  \<^item> \<open>Sessions\<close>, \<open>Accounts\<close>, \<open>KeyCache\<close>: the in-memory session store with the gates that a change of an
    account closes, the rows of tenants, users, operators and keys with the methods of \<open>memstore.go\<close> on them, and the
    two caches of key verifications (\<open>cache/\<close> of the control plane, \<open>keyauth/\<close> of the Gateway).
  \<^item> \<open>Programs\<close>: interleaved programs. A handler is a program whose steps are its atomic calls; \<open>sys_step\<close> runs
    any number of them, and the rely-guarantee judgement \<open>assured\<close> follows one of them through the steps of the others.
  \<^item> \<open>AccountLogic\<close>: \<open>logic/\<close> and the handlers over it as such programs: logins, changes of users and operators,
    keys, access lists, verification of a key, the watch of the generation.
  \<^item> \<open>AccountChanges\<close>, \<open>AccountSafety\<close>, \<open>KeyRevocation\<close>: what each program may change (locales
    \<open>account_rely\<close>, \<open>account_login\<close>, \<open>account_caches\<close>, \<open>account_invariant\<close>, interpreted for each invariant) and the
    properties: an active owner remains, active keys have active creators, sessions are bounded, a suspended user stays
    out, a revoked key is refused once an invalidation is published and forgotten once a Gateway clears its cache; and a
    login that spans a disabling gets through.

  \<^bold>\<open>How code becomes definitions.\<close> A struct is a record, an enumeration a datatype, a map an association
  list whose keys are distinct (\<open>wf_map\<close>), in insertion order where the source iterates in an order that
  Go leaves open. A method that changes its receiver takes the state and returns it; one that can fail
  returns a sum with the error on the left. Times are integers in nanoseconds and \<open>int64\<close> arithmetic is
  written with its wrap-around (\<open>wrap64\<close>) wherever an overflow can be reached. Code that takes a lock for
  its whole body is one step; handlers that take several locks in turn are sequences of steps. In
  the tunnel server the goroutines are phases, a critical section is a step, and the two places that take a
  second lock while they hold one keep the first across steps. Two fields that the code does not have
  (\<open>ca_slot\<close>, \<open>ca_owner\<close>) record who made a call; no step reads them, and neither does one read \<open>wo_published\<close>, which records the
  rows and the epochs of the Gateways at each published invalidation.

  \<^bold>\<open>Parameters.\<close> What the repository does not contain is an argument: the classification of Unicode
  characters, bytes from the random source, parsing of certificate requests, SHA-256 and the acceptance of
  a certificate template, the outcome of each write to a file, and what a backend answers to an attempt. For
  workflow runs the events give the ids that are drawn, the outcome of each call and copy, and what the backends
  say of their runs, which they may take back; drawn ids are new. For accounts they are bcrypt and SHA-256,
  letter case, the drawn ids and secrets (new, and for a revoked key not one with its hash), whether the context of a call
  is done and whether a call of the cache is lost. The
  protobuf runtime is the record \<open>protobuf\<close> (marshalling) and the record \<open>wellknown\<close> (durations,
  timestamps and structures); the round trips assume of them what their documentation promises, as the laws
  of the locales \<open>wire_codec\<close> and \<open>wellknown_types\<close>, which concrete instances satisfy.

  \<^bold>\<open>Bounds.\<close> All functions are total. The retry loops recurse on the list of candidates; the sections of
  \<open>Register\<close> end after at most five steps and those of \<open>RenewCertificate\<close> after two, which is proved. The
  back-off loop recurses on the failures that are left and the eviction loop on the order of the table; a reader
  of pages is given as many requests as there are rows and one more, which is proved to be enough.

  \<^bold>\<open>Not modelled.\<close> Process start-up, configuration files, logging, metrics back ends, HTTP and gRPC
  transport, the SQL store (its queries are not Go code), the Redis limiter (its logic runs in Redis), the
  adapters to third-party model servers, the supervision of processes by the Agent, generated protocol
  code, and the Console, which is not written in Go. Of the tunnel: the node reports that only the Console
  reads and the commands it triggers, and the codec of the Anthropic Messages. Of workflow runs: the decoding of
  submissions and uploads, the bytes that are copied to and from object storage, the cleaner of expired artifacts
  and the jobs that the image endpoint makes. Of the roster stream: a failed send, which ends the stream. Of the peer
  check: its error statuses, which are one \<open>None\<close>. Of the dispatching methods: \<open>Chat\<close>, \<open>Embed\<close>, \<open>Rerank\<close> and
  \<open>ChatStream\<close> are in the properties, the others run the same loop over other request types. Of accounts:
  self-registration, the paged lists, the session store in Redis and the outbox from which the relay publishes again
  (its later attempts are the request \<open>RelayFlush\<close>); epochs are unbounded numbers.
\<close>

end
